(* ===== verification/Prelude.thy ===== *)
theory Prelude
  imports Main "HOL-Library.Word" "HOL-Library.Signed_Division"
begin

text \<open>
  Shared vocabulary of the development: the machine integers of the code, the C++ conversions and
  comparisons between them, the error codes the library returns, and the generic lemmas on words,
  lists and maps that several components use.

  An \<open>unsigned int\<close> is a \<open>32 word\<close>; an \<open>int\<close> is a \<open>32 word\<close> too, read through \<open>sint\<close>. Mixed
  arithmetic (\<open>int + unsigned\<close>) is done modulo \<open>2 ^ 32\<close> in C++, which is word addition, and the
  conversion back to \<open>int\<close> keeps the bits. Overflow of an \<open>int + int\<close> is undefined in C++; the
  model wraps, and the theorems about such sums carry the range that rules the overflow out.
\<close>

type_synonym u8 = "8 word"
type_synonym u16 = "16 word"
type_synonym u32 = "32 word"
type_synonym u64 = "64 word"
type_synonym i32 = "32 word"
type_synonym i64 = "64 word"

named_theorems geom_defs \<open>definitions of the geometry operations\<close>
named_theorems word_nat \<open>word operations read as natural numbers when nothing wraps\<close>

section \<open>Error codes\<close>

datatype errno =
    ENODEV | EACCES | EBUSY | EINVAL | EEXIST | ENOENT | ENOMEM | ENOTSUP | EIO | EPIPE
  | ENOSPC | EAGAIN | EBADMSG | ENOTCONN | ETIMEDOUT | EPERM | ENODATA | EXDEV | ENOEXEC
  | EISCONN | ENOTTY | EBADF | EMFILE | ENOLINK | ESHUTDOWN

type_synonym 'a result = "errno + 'a"

abbreviation Ok :: "'a \<Rightarrow> 'a result" where "Ok x \<equiv> Inr x"
abbreviation Err :: "errno \<Rightarrow> 'a result" where "Err e \<equiv> Inl e"

text \<open>What a C++ function ends with: a value, or an exception.\<close>

datatype 'a outcome = Returned 'a | Thrown string

section \<open>Integers\<close>

definition smax :: "i32 \<Rightarrow> i32 \<Rightarrow> i32" where
  "smax a b = (if sint a < sint b then b else a)"

definition smin :: "i32 \<Rightarrow> i32 \<Rightarrow> i32" where
  "smin a b = (if sint b < sint a then b else a)"

text \<open>\<open>std::clamp\<close> compares with the lower bound first, then with the upper one.\<close>

definition sclamp :: "i32 \<Rightarrow> i32 \<Rightarrow> i32 \<Rightarrow> i32" where
  "sclamp v lo hi = (if sint v < sint lo then lo else if sint hi < sint v then hi else v)"

lemma sint_smax: "sint (smax a b) = max (sint a) (sint b)"
  by (simp add: smax_def)

lemma sint_smin: "sint (smin a b) = min (sint a) (sint b)"
  by (simp add: smin_def)

lemma sint_sclamp:
  "sint lo \<le> sint hi \<Longrightarrow> sint (sclamp v lo hi) = max (sint lo) (min (sint v) (sint hi))"
  by (auto simp: sclamp_def)

text \<open>Reading a signed sum: exact when the mathematical value is an \<open>int\<close>.\<close>

definition in_i32 :: "int \<Rightarrow> bool" where
  "in_i32 k \<longleftrightarrow> - (2 ^ 31) \<le> k \<and> k < 2 ^ 31"

lemma in_i32I: "- 2147483648 \<le> k \<Longrightarrow> k < 2147483648 \<Longrightarrow> in_i32 k"
  by (simp add: in_i32_def)

lemma sint_word_of_int_i32: "in_i32 k \<Longrightarrow> sint (word_of_int k :: i32) = k"
  by (simp add: in_i32_def signed_of_int signed_take_bit_int_eq_self)

lemma uint_u32_bounds: "0 \<le> uint (w :: u32)" "uint (w :: u32) < 2 ^ 32"
  using uint_lt2p [of w] by simp_all

lemma sint_split:
  "sint (w :: i32) = (if uint w < 2 ^ 31 then uint w else uint w - 2 ^ 32)"
proof -
  have val: "sint w = (uint w + 2 ^ 31) mod 2 ^ 32 - 2 ^ 31"
    using int_word_sint [of "uint w", where 'a = 32] by simp
  have "(uint w - 2 ^ 31 + 2 ^ 32) mod 2 ^ 32 = (uint w - 2 ^ 31) mod 2 ^ 32"
    by (simp only: mod_add_self2)
  with val show ?thesis
    using uint_u32_bounds [of w] by (auto simp: mod_pos_pos_trivial add.commute)
qed

lemma in_i32_sint [simp]: "in_i32 (sint (w :: i32))"
  using sint_lt [of w] sint_ge [of w] by (simp add: in_i32_def)

lemma word_of_int_sint_i32: "word_of_int (sint (w :: i32)) = w"
  by simp

lemma sint_add_i32: "in_i32 (sint a + sint b) \<Longrightarrow> sint ((a :: i32) + b) = sint a + sint b"
  using sint_word_of_int_i32 [of "sint a + sint b"] by (simp add: word_of_int_sint_i32)

lemma sint_sub_i32: "in_i32 (sint a - sint b) \<Longrightarrow> sint ((a :: i32) - b) = sint a - sint b"
  using sint_word_of_int_i32 [of "sint a - sint b"] by simp

lemma sint_add_unsigned:
  "in_i32 (sint a + uint b) \<Longrightarrow> sint ((a :: i32) + b) = sint a + uint b"
  using sint_word_of_int_i32 [of "sint a + uint b"] by simp

lemma sint_sub_unsigned:
  "in_i32 (sint a - uint b) \<Longrightarrow> sint ((a :: i32) - b) = sint a - uint b"
  using sint_word_of_int_i32 [of "sint a - uint b"] by simp

lemma uint_of_nonneg_sint: "0 \<le> sint (w :: i32) \<Longrightarrow> uint w = sint w"
  using uint_u32_bounds [of w] by (auto simp: sint_split split: if_splits)

lemma uint_eqI: "uint a = uint b \<Longrightarrow> a = b"
  by (simp add: word_eq_iff_unsigned [where ?'a = int])

lemma unat_eqI: "unat a = unat b \<Longrightarrow> a = b"
  by (simp add: word_eq_iff_unsigned [where ?'a = nat])

lemma sint_eqI: "sint a = sint b \<Longrightarrow> a = b"
  by (rule signed_word_eqI)

text \<open>Unsigned operations as natural-number operations.\<close>

lemma unat_u32_bound: "unat (w :: u32) < 2 ^ 32"
  using unsigned_less [of w] by simp

lemma unat_of_nat_u32 [word_nat]: "n < 2 ^ 32 \<Longrightarrow> unat (of_nat n :: u32) = n"
  by (simp add: unat_of_nat take_bit_nat_eq_self)

lemma unat_add_u32 [word_nat]:
  "unat a + unat b < 2 ^ 32 \<Longrightarrow> unat ((a :: u32) + b) = unat a + unat b"
  by (simp add: unat_word_ariths)

lemma unat_mult_u32 [word_nat]:
  "unat a * unat b < 2 ^ 32 \<Longrightarrow> unat ((a :: u32) * b) = unat a * unat b"
  by (simp add: unat_word_ariths)

lemma unat_sub_u32 [word_nat]:
  "b \<le> a \<Longrightarrow> unat ((a :: u32) - b) = unat a - unat b"
  by (simp add: unat_sub)

lemma unat_div_u32 [word_nat]: "unat ((a :: u32) div b) = unat a div unat b"
  by (simp add: unat_div)

lemma unat_eq_0_iff: "unat (w :: 'a::len word) = 0 \<longleftrightarrow> w = 0"
  by (simp add: unat_eq_zero)

lemma round_down_le: "(n :: nat) div a * a \<le> n"
  by simp

lemma round_down_gap: "0 < (a :: nat) \<Longrightarrow> n < n div a * a + a"
  using mod_less_divisor [of a n] div_mult_mod_eq [of n a] by linarith

lemma round_up_ge: "0 < (a :: nat) \<Longrightarrow> n \<le> (n + a - 1) div a * a"
  using round_down_gap [of a "n + a - 1"] by linarith

lemma round_up_less: "0 < (a :: nat) \<Longrightarrow> (n + a - 1) div a * a < n + a"
  using round_down_le [of "n + a - 1" a] by linarith

section \<open>Ordered maps\<close>

text \<open>\<open>std::map\<close>: an association list sorted by key.\<close>

fun map_insert :: "'k::linorder \<Rightarrow> 'v \<Rightarrow> ('k \<times> 'v) list \<Rightarrow> ('k \<times> 'v) list" where
  "map_insert k v [] = [(k, v)]"
| "map_insert k v ((k', v') # m) =
     (if k < k' then (k, v) # (k', v') # m
      else if k = k' then (k, v) # m
      else (k', v') # map_insert k v m)"

definition map_erase :: "'k \<Rightarrow> ('k \<times> 'v) list \<Rightarrow> ('k \<times> 'v) list" where
  "map_erase k m = filter (\<lambda>(k', v). k' \<noteq> k) m"

definition map_ok :: "('k::linorder \<times> 'v) list \<Rightarrow> bool" where
  "map_ok m \<longleftrightarrow> sorted_wrt (<) (map fst m)"

lemma map_of_map_insert [simp]: "map_ok m \<Longrightarrow> map_of (map_insert k v m) = (map_of m)(k \<mapsto> v)"
proof (induction k v m rule: map_insert.induct)
  case (1 k v)
  then show ?case by simp
next
  case (2 k v k' v' m)
  have "map_of m k = None" if "k < k'"
    using 2(2) that by (force simp: map_ok_def map_of_eq_None_iff)
  with 2 show ?case by (auto simp: map_ok_def fun_eq_iff)
qed

lemma fst_set_map_insert [simp]: "fst ` set (map_insert k v m) = insert k (fst ` set m)"
  by (induction k v m rule: map_insert.induct) auto

lemma map_ok_map_insert [simp]: "map_ok m \<Longrightarrow> map_ok (map_insert k v m)"
  by (induction k v m rule: map_insert.induct) (auto simp: map_ok_def)

lemma map_of_map_erase [simp]: "map_of (map_erase k m) = (map_of m)(k := None)"
  by (induction m) (auto simp: map_erase_def)

lemma map_ok_map_erase [simp]: "map_ok m \<Longrightarrow> map_ok (map_erase k m)"
  by (induction m) (auto simp: map_erase_def map_ok_def)

lemma map_ok_Nil [simp]: "map_ok []"
  by (simp add: map_ok_def)

lemma map_insert_same: "map_ok m \<Longrightarrow> map_of m k = Some v \<Longrightarrow> map_insert k v m = m"
proof (induction k v m rule: map_insert.induct)
  case (2 k v k' v' m)
  have "map_of m k = None" if "k < k'"
    using 2(2) that by (force simp: map_ok_def map_of_eq_None_iff)
  with 2 show ?case by (auto simp: map_ok_def split: if_splits)
qed simp

lemma map_insert_twice [simp]: "map_insert k v (map_insert k u m) = map_insert k v m"
  by (induction k u m rule: map_insert.induct) auto

text \<open>Inserting unless the key is there, as \<open>std::map::emplace\<close> does.\<close>

definition map_emplace :: "'a::linorder \<Rightarrow> 'b \<Rightarrow> ('a \<times> 'b) list \<Rightarrow> ('a \<times> 'b) list" where
  "map_emplace key v m = (if map_of m key = None then map_insert key v m else m)"

lemma map_emplace_new:
  "map_ok m \<Longrightarrow> map_of m k = None \<Longrightarrow>
   map_ok (map_emplace k v m) \<and> map_of (map_emplace k v m) = (map_of m)(k \<mapsto> v)"
  by (simp add: map_emplace_def)

lemma foldl_map_emplace:
  "map_ok m \<Longrightarrow> map_ok (foldl (\<lambda>m i. map_emplace (f i) i m) m es) \<and>
     map_of (foldl (\<lambda>m i. map_emplace (f i) i m) m es) p =
       (case map_of m p of Some i \<Rightarrow> Some i | None \<Rightarrow> map_of (map (\<lambda>i. (f i, i)) es) p)"
  by (induction es arbitrary: m) (auto simp: map_emplace_def split: option.splits)

section \<open>Sorting by a comparison\<close>

text \<open>
  \<open>std::sort\<close> needs a strict weak ordering and returns a permutation in which no element is less
  than an earlier one; the order of equivalent elements is not specified, insertion sort keeps
  them as they come. The laws of the comparison are the locale \<open>strict_weak_order\<close>.
\<close>

fun insert_by :: "('a \<Rightarrow> 'a \<Rightarrow> bool) \<Rightarrow> 'a \<Rightarrow> 'a list \<Rightarrow> 'a list" where
  "insert_by lt x [] = [x]"
| "insert_by lt x (y # ys) = (if lt y x then y # insert_by lt x ys else x # y # ys)"

fun sort_by :: "('a \<Rightarrow> 'a \<Rightarrow> bool) \<Rightarrow> 'a list \<Rightarrow> 'a list" where
  "sort_by lt [] = []"
| "sort_by lt (x # xs) = insert_by lt x (sort_by lt xs)"

lemma set_insert_by [simp]: "set (insert_by lt x xs) = insert x (set xs)"
  by (induction xs) auto

lemma set_sort_by [simp]: "set (sort_by lt xs) = set xs"
  by (induction xs) auto

lemma length_sort_by [simp]: "length (sort_by lt xs) = length xs"
proof -
  have "length (insert_by lt x ys) = Suc (length ys)" for x ys by (induction ys) auto
  then show ?thesis by (induction xs) auto
qed

lemma count_list_sort_by [simp]: "count_list (sort_by lt xs) y = count_list xs y"
proof -
  have "count_list (insert_by lt x ys) y = count_list (x # ys) y" for x ys by (induction ys) auto
  then show ?thesis by (induction xs) auto
qed

locale strict_weak_order =
  fixes lt :: "'a \<Rightarrow> 'a \<Rightarrow> bool"
  assumes irrefl: "\<not> lt x x"
    and trans: "lt x y \<Longrightarrow> lt y z \<Longrightarrow> lt x z"
    and co_trans: "lt x z \<Longrightarrow> lt x y \<or> lt y z"
begin

definition in_order :: "'a list \<Rightarrow> bool" where
  "in_order xs \<longleftrightarrow> sorted_wrt (\<lambda>a b. \<not> lt b a) xs"

lemma asym: "lt x y \<Longrightarrow> \<not> lt y x"
  using irrefl trans by blast

lemma in_order_insert_by: "in_order xs \<Longrightarrow> in_order (insert_by lt x xs)"
proof (induction xs)
  case Nil
  then show ?case by (simp add: in_order_def)
next
  case (Cons y ys)
  have "\<not> lt z x" if "\<not> lt y x" "z \<in> set ys" for z
    using that Cons.prems co_trans [of z x y] by (auto simp: in_order_def)
  with Cons show ?case by (auto simp: in_order_def dest: asym)
qed

lemma in_order_sort_by: "in_order (sort_by lt xs)"
proof (induction xs)
  case Nil
  show ?case by (simp add: in_order_def)
next
  case (Cons x xs)
  then show ?case using in_order_insert_by by simp
qed

lemma hd_least: "in_order (x # xs) \<Longrightarrow> y \<in> set xs \<Longrightarrow> \<not> lt y x"
  by (simp add: in_order_def)

end

end
