(* ===== verification/FrameList.thy ===== *)
theory FrameList
  imports Prelude
begin

text \<open>
  Recordings: \<open>kcframe.h\<close>, \<open>framelist.h\<close> and \<open>framelist.c\<close>. A recording is a singly linked list of
  heap nodes with a pointer to its last node and a read cursor that points to the \<^emph>\<open>pointer\<close> to the
  next node (the front field of the list or the next field of a node). Memory is a map from
  addresses to nodes and frames; a freed address is unmapped, and an operation that reads a null or
  freed pointer, or frees one twice, is \<open>None\<close>. A recording is shared between threads under its
  mutex, so an operation is one step. Python's reference counts do not apply to these objects.
\<close>

section \<open>Frames\<close>

text \<open>
  A frame in memory: its fields, the four bytes between \<open>m_height\<close> and \<open>m_pts\<close>, and the bytes of the
  allocation from \<open>m_data\<close> on. The type is an enumeration with one value, stored as an \<open>int\<close>.
\<close>

type_synonym FrameType = u32

definition FRAME_BGR :: FrameType where "FRAME_BGR = 0"

record KcFrame =
  m_width :: u16
  m_height :: u16
  m_pad :: "u8 list"
  m_pts :: u64
  m_type :: FrameType
  m_data :: "u8 list"

section \<open>Memory\<close>

record FrameNode =
  n_frame :: "nat option"
  n_next :: "nat option"

record cmem =
  c_nodes :: "nat \<Rightarrow> FrameNode option"
  c_frames :: "nat \<Rightarrow> KcFrame option"

definition free_frame :: "'z cmem_scheme \<Rightarrow> nat \<Rightarrow> 'z cmem_scheme option" where
  "free_frame mem f =
     (case c_frames mem f of
        None \<Rightarrow> None
      | Some _ \<Rightarrow> Some (mem\<lparr>c_frames := (c_frames mem)(f := None)\<rparr>))"

definition freeNode :: "'z cmem_scheme \<Rightarrow> nat \<Rightarrow> 'z cmem_scheme option" where
  "freeNode mem n =
     (case c_nodes mem n of
        None \<Rightarrow> None
      | Some node \<Rightarrow>
          (case (case n_frame node of None \<Rightarrow> Some mem | Some f \<Rightarrow> free_frame mem f) of
             None \<Rightarrow> None
           | Some mem \<Rightarrow> Some (mem\<lparr>c_nodes := (c_nodes mem)(n := None)\<rparr>)))"

text \<open>Reading the presentation time of the frame of a node.\<close>

definition node_pts :: "'z cmem_scheme \<Rightarrow> nat option \<Rightarrow> u64 option" where
  "node_pts mem p =
     (case p of
        None \<Rightarrow> None
      | Some n \<Rightarrow>
          (case c_nodes mem n of
             None \<Rightarrow> None
           | Some node \<Rightarrow>
               (case n_frame node of
                  None \<Rightarrow> None
                | Some f \<Rightarrow> (case c_frames mem f of None \<Rightarrow> None | Some fr \<Rightarrow> Some (m_pts fr)))))"

section \<open>The list\<close>

datatype readptr = FrontField | NextField nat

record FrameList =
  m_recording :: i32
  m_front :: "nat option"
  m_back :: "nat option"
  m_readNode :: readptr
  m_len :: u32
  m_readIndex :: u32
  m_t0 :: i32
  m_startShift :: i32
  m_duration :: u32

definition flistInit :: "i32 \<Rightarrow> u32 \<Rightarrow> FrameList" where
  "flistInit startShift duration =
     \<lparr>m_recording = (if startShift = 0 then 1 else - 1), m_front = None, m_back = None,
      m_readNode = FrontField, m_len = 0, m_readIndex = 0, m_t0 = - 1,
      m_startShift = startShift, m_duration = duration\<rparr>"

partial_function (option) free_nodes :: "'z cmem_scheme \<Rightarrow> nat option \<Rightarrow> 'z cmem_scheme option" where
  "free_nodes mem nxt =
     (case nxt of
        None \<Rightarrow> Some mem
      | Some n \<Rightarrow>
          (case c_nodes mem n of
             None \<Rightarrow> None
           | Some node \<Rightarrow>
               (case freeNode mem n of None \<Rightarrow> None | Some mem' \<Rightarrow> free_nodes mem' (n_next node))))"

definition flistClear :: "'z cmem_scheme \<Rightarrow> FrameList \<Rightarrow> ('z cmem_scheme \<times> FrameList) option" where
  "flistClear mem l =
     (case free_nodes mem (m_front l) of
        None \<Rightarrow> None
      | Some mem \<Rightarrow> Some (mem, flistInit (m_startShift l) (m_duration l)))"

text \<open>The difference of two 64-bit times is returned as an \<open>unsigned\<close>.\<close>

definition flistTime :: "'z cmem_scheme \<Rightarrow> FrameList \<Rightarrow> u32 option" where
  "flistTime mem l =
     (case node_pts mem (m_back l) of
        None \<Rightarrow> None
      | Some b \<Rightarrow> (case node_pts mem (m_front l) of None \<Rightarrow> None | Some f \<Rightarrow> Some (ucast (b - f))))"

section \<open>Appending\<close>

text \<open>
  A positive start shift: frames are dropped until it has expired, all but the newest. Times are
  \<open>uint64_t\<close>, and the \<open>int\<close> operands are converted to it.
\<close>

definition append_wait ::
    "'z cmem_scheme \<Rightarrow> FrameList \<Rightarrow> KcFrame \<Rightarrow> ('z cmem_scheme \<times> FrameList) option" where
  "append_wait mem l fr =
     (if sint (m_startShift l) > 0 \<and> m_recording l = - 1 then
        if m_pts fr - scast (m_t0 l) < scast (m_startShift l) then
          if m_len l = 1 then
            (case m_front l of
               None \<Rightarrow> None
             | Some n \<Rightarrow>
                 (case freeNode mem n of None \<Rightarrow> None | Some mem \<Rightarrow> Some (mem, l\<lparr>m_len := 0\<rparr>)))
          else Some (mem, l)
        else Some (mem, l\<lparr>m_recording := 1\<rparr>)
      else Some (mem, l))"

definition append_link ::
    "'z cmem_scheme \<Rightarrow> FrameList \<Rightarrow> nat \<Rightarrow> nat \<Rightarrow> ('z cmem_scheme \<times> FrameList) option" where
  "append_link mem l node frame =
     (let mem = mem\<lparr>c_nodes := (c_nodes mem)(node \<mapsto> \<lparr>n_frame = Some frame, n_next = None\<rparr>)\<rparr>
      in if m_len l = 0 then
           Some (mem, l\<lparr>m_front := Some node, m_back := Some node, m_len := m_len l + 1\<rparr>)
         else
           (case m_back l of
              None \<Rightarrow> None
            | Some b \<Rightarrow>
                (case c_nodes mem b of
                   None \<Rightarrow> None
                 | Some bn \<Rightarrow>
                     Some (mem\<lparr>c_nodes := (c_nodes mem)(b \<mapsto> bn\<lparr>n_next := Some node\<rparr>)\<rparr>,
                           l\<lparr>m_back := Some node, m_len := m_len l + 1\<rparr>))))"

text \<open>
  A negative start shift: the frames older than the shift are dropped from the front, the back
  never. The comparison is signed.
\<close>

partial_function (option) drop_expired ::
    "'z cmem_scheme \<Rightarrow> FrameList \<Rightarrow> i64 \<Rightarrow> ('z cmem_scheme \<times> FrameList) option" where
  "drop_expired mem l t =
     (case m_front l of
        None \<Rightarrow> Some (mem, l)
      | Some n \<Rightarrow>
          (case c_nodes mem n of
             None \<Rightarrow> None
           | Some node \<Rightarrow>
               (case n_frame node of
                  None \<Rightarrow> Some (mem, l)
                | Some f \<Rightarrow>
                    (case c_frames mem f of
                       None \<Rightarrow> None
                     | Some fr \<Rightarrow>
                         if \<not> sint (m_pts fr) < sint t then Some (mem, l)
                         else if n_next node = None then Some (mem, l)
                         else
                           (case freeNode mem n of
                              None \<Rightarrow> None
                            | Some mem' \<Rightarrow>
                                drop_expired mem' (l\<lparr>m_front := n_next node, m_len := m_len l - 1\<rparr>) t)))))"

definition append_past ::
    "'z cmem_scheme \<Rightarrow> FrameList \<Rightarrow> KcFrame \<Rightarrow> ('z cmem_scheme \<times> FrameList) option" where
  "append_past mem l fr =
     (if sint (m_startShift l) < 0 \<and> m_recording l = - 1
      then drop_expired mem l (m_pts fr + scast (m_startShift l))
      else Some (mem, l))"

definition append_duration :: "'z cmem_scheme \<Rightarrow> FrameList \<Rightarrow> (FrameList \<times> i32) option" where
  "append_duration mem l =
     (if m_duration l \<noteq> 0 then
        (case flistTime mem l of
           None \<Rightarrow> None
         | Some t \<Rightarrow>
             if (ucast t :: i64) \<ge> ucast (m_duration l) then Some (l\<lparr>m_recording := 0\<rparr>, - 1)
             else Some (l, 0))
      else Some (l, 0))"

text \<open>
  The frame belongs to the list after the call, or has been freed. \<open>new\<close> is the address of the
  new node, or \<open>None\<close> when there is no memory.
\<close>

definition flistAppend ::
    "nat option \<Rightarrow> 'z cmem_scheme \<Rightarrow> FrameList \<Rightarrow> nat \<Rightarrow> ('z cmem_scheme \<times> FrameList \<times> i32) option" where
  "flistAppend new mem l frame =
     (if m_recording l = 0 then
        (case free_frame mem frame of None \<Rightarrow> None | Some mem \<Rightarrow> Some (mem, l, 0))
      else
        (case c_frames mem frame of
           None \<Rightarrow> None
         | Some fr \<Rightarrow>
             let l = (if sint (m_t0 l) < 0 then l\<lparr>m_t0 := ucast (m_pts fr)\<rparr> else l) in
             (case append_wait mem l fr of
                None \<Rightarrow> None
              | Some (mem, l) \<Rightarrow>
                  (case new of
                     None \<Rightarrow> Some (mem, l, - 2)
                   | Some node \<Rightarrow>
                       (case append_link mem l node frame of
                          None \<Rightarrow> None
                        | Some (mem, l) \<Rightarrow>
                            (case append_past mem l fr of
                               None \<Rightarrow> None
                             | Some (mem, l) \<Rightarrow>
                                 (case append_duration mem l of
                                    None \<Rightarrow> None
                                  | Some (l, ret) \<Rightarrow> Some (mem, l, ret))))))))"

section \<open>Reading\<close>

text \<open>The pointer under the cursor.\<close>

definition cursor_ptr :: "'z cmem_scheme \<Rightarrow> FrameList \<Rightarrow> nat option option" where
  "cursor_ptr mem l =
     (case m_readNode l of
        FrontField \<Rightarrow> Some (m_front l)
      | NextField n \<Rightarrow> (case c_nodes mem n of None \<Rightarrow> None | Some node \<Rightarrow> Some (n_next node)))"

partial_function (option) seek_loop :: "'z cmem_scheme \<Rightarrow> FrameList \<Rightarrow> u32 \<Rightarrow> FrameList option" where
  "seek_loop mem l n =
     (case cursor_ptr mem l of
        None \<Rightarrow> None
      | Some p \<Rightarrow>
          (case p of
             None \<Rightarrow> Some l
           | Some node \<Rightarrow>
               if m_readIndex l = n then Some l
               else seek_loop mem (l\<lparr>m_readNode := NextField node, m_readIndex := m_readIndex l + 1\<rparr>) n))"

definition flistSeek :: "'z cmem_scheme \<Rightarrow> FrameList \<Rightarrow> u32 \<Rightarrow> (FrameList \<times> i32) option" where
  "flistSeek mem l n =
     (if n \<ge> m_len l then Some (l, - 1)
      else
        (case seek_loop mem (l\<lparr>m_readIndex := 0, m_readNode := FrontField\<rparr>) n of
           None \<Rightarrow> None
         | Some l \<Rightarrow> Some (l, 0)))"

definition flistNext :: "'z cmem_scheme \<Rightarrow> FrameList \<Rightarrow> (FrameList \<times> nat option) option" where
  "flistNext mem l =
     (case cursor_ptr mem l of
        None \<Rightarrow> None
      | Some None \<Rightarrow> Some (l, None)
      | Some (Some n) \<Rightarrow>
          (case c_nodes mem n of
             None \<Rightarrow> None
           | Some node \<Rightarrow>
               Some (l\<lparr>m_readNode := NextField n, m_readIndex := m_readIndex l + 1\<rparr>, n_frame node)))"

definition flistEnd :: "'z cmem_scheme \<Rightarrow> FrameList \<Rightarrow> bool option" where
  "flistEnd mem l = (case cursor_ptr mem l of None \<Rightarrow> None | Some p \<Rightarrow> Some (p = None))"

text \<open>The diagnostics of \<open>flistVerify\<close>: the index and dimensions of each frame that is not 640 by 480.\<close>

partial_function (option) verify_loop ::
    "'z cmem_scheme \<Rightarrow> FrameList \<Rightarrow> nat option \<Rightarrow> (u32 \<times> u16 \<times> u16) list
      \<Rightarrow> (FrameList \<times> (u32 \<times> u16 \<times> u16) list) option" where
  "verify_loop mem l frame out =
     (case frame of
        None \<Rightarrow> Some (l, out)
      | Some f \<Rightarrow>
          (case c_frames mem f of
             None \<Rightarrow> None
           | Some fr \<Rightarrow>
               let out' = (if m_width fr \<noteq> 640 \<or> m_height fr \<noteq> 480
                           then out @ [(m_readIndex l - 1, m_width fr, m_height fr)] else out) in
               (case flistNext mem l of
                  None \<Rightarrow> None
                | Some r \<Rightarrow> verify_loop mem (fst r) (snd r) out')))"

definition flistVerify ::
    "'z cmem_scheme \<Rightarrow> FrameList \<Rightarrow> (FrameList \<times> (u32 \<times> u16 \<times> u16) list) option" where
  "flistVerify mem l =
     (let index = m_readIndex l in
      case flistSeek mem l 0 of
        None \<Rightarrow> None
      | Some (l, _) \<Rightarrow>
          (case flistNext mem l of
             None \<Rightarrow> None
           | Some (l, frame) \<Rightarrow>
               (case verify_loop mem l frame [] of
                  None \<Rightarrow> None
                | Some (l, out) \<Rightarrow>
                    (case flistSeek mem l index of None \<Rightarrow> None | Some (l, _) \<Rightarrow> Some (l, out)))))"

section \<open>The list in memory\<close>

text \<open>
  \<open>node_chain mem p ps q\<close>: from the pointer \<open>p\<close>, the nodes and frames of \<open>ps\<close> follow each other and
  the last next field is \<open>q\<close>.
\<close>

fun node_chain :: "'z cmem_scheme \<Rightarrow> nat option \<Rightarrow> (nat \<times> nat) list \<Rightarrow> nat option \<Rightarrow> bool" where
  "node_chain mem p [] q \<longleftrightarrow> p = q"
| "node_chain mem p ((n, f) # ps) q \<longleftrightarrow>
     p = Some n \<and> c_frames mem f \<noteq> None \<and>
     (\<exists>nx. c_nodes mem n = Some \<lparr>n_frame = Some f, n_next = nx\<rparr> \<and> node_chain mem nx ps q)"

definition frame_of :: "'z cmem_scheme \<Rightarrow> nat \<times> nat \<Rightarrow> KcFrame" where
  "frame_of mem nf = the (c_frames mem (snd nf))"

definition frames_of :: "'z cmem_scheme \<Rightarrow> (nat \<times> nat) list \<Rightarrow> KcFrame list" where
  "frames_of mem ps = map (frame_of mem) ps"

text \<open>Memory without the nodes and frames of a list of pairs.\<close>

definition free_pairs :: "(nat \<times> nat) list \<Rightarrow> 'z cmem_scheme \<Rightarrow> 'z cmem_scheme" where
  "free_pairs qs mem =
     mem\<lparr>c_nodes := c_nodes mem |` (- fst ` set qs), c_frames := c_frames mem |` (- snd ` set qs)\<rparr>"

definition cursor_at :: "FrameList \<Rightarrow> (nat \<times> nat) list \<Rightarrow> nat \<Rightarrow> bool" where
  "cursor_at l ps j \<longleftrightarrow>
     (case m_readNode l of
        FrontField \<Rightarrow> j = 0
      | NextField n \<Rightarrow> 0 < j \<and> j \<le> length ps \<and> n = fst (ps ! (j - 1)))"

definition flist :: "'z cmem_scheme \<Rightarrow> FrameList \<Rightarrow> (nat \<times> nat) list \<Rightarrow> bool" where
  "flist mem l ps \<longleftrightarrow>
     node_chain mem (m_front l) ps None \<and> distinct (map fst ps) \<and> distinct (map snd ps) \<and>
     length ps < 2 ^ 32 \<and> m_len l = of_nat (length ps) \<and>
     m_back l = (if ps = [] then None else Some (fst (ps ! (length ps - 1))))"

lemma node_chain_cong:
  assumes "\<And>n f. (n, f) \<in> set ps \<Longrightarrow> c_nodes mem' n = c_nodes mem n \<and> c_frames mem' f = c_frames mem f"
  shows "node_chain mem' p ps q = node_chain mem p ps q"
  using assms
proof (induction ps arbitrary: p)
  case (Cons a ps)
  have "node_chain mem' r ps q = node_chain mem r ps q" for r by (rule Cons.IH) (use Cons.prems in auto)
  then show ?case using Cons.prems [of "fst a" "snd a"] by (cases a) simp
qed simp

lemma node_chain_append:
  "node_chain mem p (xs @ ys) q \<longleftrightarrow> (\<exists>r. node_chain mem p xs r \<and> node_chain mem r ys q)"
  by (induction xs arbitrary: p) (simp, simp add: split_paired_all, blast)

lemma node_chain_frame: "node_chain mem p ps q \<Longrightarrow> nf \<in> set ps \<Longrightarrow> c_frames mem (snd nf) = Some (frame_of mem nf)"
  by (induction ps arbitrary: p) (auto simp: frame_of_def)

lemma node_chain_node:
  "node_chain mem p ps None \<Longrightarrow> i < length ps \<Longrightarrow>
   c_nodes mem (fst (ps ! i)) = Some \<lparr>n_frame = Some (snd (ps ! i)),
     n_next = (if Suc i < length ps then Some (fst (ps ! Suc i)) else None)\<rparr>"
proof (induction ps arbitrary: p i)
  case (Cons a ps)
  obtain n f where a: "a = (n, f)" by fastforce
  from Cons.prems(1) obtain nx where nx: "c_nodes mem n = Some \<lparr>n_frame = Some f, n_next = nx\<rparr>"
    "node_chain mem nx ps None" by (auto simp: a)
  have "nx = (if ps = [] then None else Some (fst (ps ! 0)))" using nx(2) by (cases ps) auto
  then show ?case using Cons.IH [OF nx(2)] Cons.prems(2) nx(1) by (cases i) (auto simp: a)
qed simp

lemma node_chain_head: "node_chain mem p ps None \<Longrightarrow> p = (if ps = [] then None else Some (fst (ps ! 0)))"
  by (cases ps) auto

lemma free_pairs_Nil [simp]: "free_pairs [] mem = mem"
  by (simp add: free_pairs_def restrict_map_def)

lemma free_pairs_Cons:
  "free_pairs ((n, f) # qs) mem =
   free_pairs qs (mem\<lparr>c_nodes := (c_nodes mem)(n := None), c_frames := (c_frames mem)(f := None)\<rparr>)"
proof -
  have e: "m |` (- insert x A) = (m(x := None)) |` (- A)" for m :: "nat \<Rightarrow> 'b option" and x A
    by (auto simp: restrict_map_def fun_eq_iff)
  show ?thesis by (simp add: free_pairs_def e)
qed

lemma free_pairs_other:
  "n \<notin> fst ` set qs \<Longrightarrow> c_nodes (free_pairs qs mem) n = c_nodes mem n"
  "f \<notin> snd ` set qs \<Longrightarrow> c_frames (free_pairs qs mem) f = c_frames mem f"
  "n \<in> fst ` set qs \<Longrightarrow> c_nodes (free_pairs qs mem) n = None"
  "f \<in> snd ` set qs \<Longrightarrow> c_frames (free_pairs qs mem) f = None"
  by (simp_all add: free_pairs_def)

lemma freeNode_chain:
  "c_nodes mem n = Some \<lparr>n_frame = Some f, n_next = nx\<rparr> \<Longrightarrow> c_frames mem f \<noteq> None \<Longrightarrow>
   freeNode mem n = Some (free_pairs [(n, f)] mem)"
  by (auto simp: freeNode_def free_frame_def free_pairs_Cons)

lemma node_chain_free:
  assumes "node_chain mem p ps q" "fst ` set ps \<inter> fst ` set qs = {}" "snd ` set ps \<inter> snd ` set qs = {}"
  shows "node_chain (free_pairs qs mem) p ps q"
proof -
  have "n \<notin> fst ` set qs" "f \<notin> snd ` set qs" if "(n, f) \<in> set ps" for n f
    using assms(2,3) imageI [OF that, of fst] imageI [OF that, of snd] by auto
  then show ?thesis
    using assms(1) node_chain_cong [of ps "free_pairs qs mem" mem p q] by (simp add: free_pairs_other)
qed

section \<open>Clearing\<close>

lemma free_nodes_chain:
  "node_chain mem p ps None \<Longrightarrow> distinct (map fst ps) \<Longrightarrow> distinct (map snd ps) \<Longrightarrow>
   free_nodes mem p = Some (free_pairs ps mem)"
proof (induction ps arbitrary: p mem)
  case Nil
  then show ?case by (subst free_nodes.simps) simp
next
  case (Cons a ps)
  obtain n f where a: "a = (n, f)" by fastforce
  from Cons.prems(1) obtain nx where nx: "p = Some n" "c_frames mem f \<noteq> None"
    "c_nodes mem n = Some \<lparr>n_frame = Some f, n_next = nx\<rparr>" "node_chain mem nx ps None" by (auto simp: a)
  let ?mem = "free_pairs [(n, f)] mem"
  have "node_chain ?mem nx ps None"
    by (rule node_chain_free [OF nx(4)]) (use Cons.prems(2,3) in \<open>auto simp: a\<close>)
  from Cons.IH [OF this] Cons.prems(2,3) have "free_nodes ?mem nx = Some (free_pairs ps ?mem)" by (simp add: a)
  moreover have "free_pairs ps ?mem = free_pairs (a # ps) mem" by (simp add: a free_pairs_Cons)
  ultimately show ?case
    by (subst free_nodes.simps) (simp add: nx freeNode_chain)
qed

section \<open>Dropping from the front\<close>

definition drop_count :: "'z cmem_scheme \<Rightarrow> i64 \<Rightarrow> (nat \<times> nat) list \<Rightarrow> nat" where
  "drop_count mem t ps = length (takeWhile (\<lambda>nf. sint (m_pts (frame_of mem nf)) < sint t) (butlast ps))"

lemma drop_count_less: "ps \<noteq> [] \<Longrightarrow> drop_count mem t ps < length ps"
  using length_takeWhile_le [of "\<lambda>nf. sint (m_pts (frame_of mem nf)) < sint t" "butlast ps"]
  by (cases ps) (auto simp: drop_count_def)

lemma drop_expired_chain:
  assumes "node_chain mem (m_front l) ps None" "distinct (map fst ps)" "distinct (map snd ps)" "ps \<noteq> []"
    and "k = drop_count mem t ps"
  shows "drop_expired mem l t =
    Some (free_pairs (take k ps) mem, l\<lparr>m_front := Some (fst (ps ! k)), m_len := m_len l - of_nat k\<rparr>)"
  using assms
proof (induction ps arbitrary: mem l k)
  case (Cons a ps)
  obtain n f where a: "a = (n, f)" by fastforce
  from Cons.prems(1) obtain nx fr where nx: "m_front l = Some n" "c_frames mem f = Some fr"
    "c_nodes mem n = Some \<lparr>n_frame = Some f, n_next = nx\<rparr>" "node_chain mem nx ps None" by (auto simp: a)
  have fr: "frame_of mem a = fr" by (simp add: frame_of_def a nx)
  show ?case
  proof (cases "sint (m_pts fr) < sint t \<and> ps \<noteq> []")
    case False
    then have "k = 0" using Cons.prems(5) by (auto simp: drop_count_def fr)
    have "l = l\<lparr>m_front := Some n, m_len := m_len l\<rparr>" using nx(1) by simp
    moreover have "drop_expired mem l t = Some (mem, l)"
      using False nx by (subst drop_expired.simps) auto
    ultimately show ?thesis by (simp add: \<open>k = 0\<close> a)
  next
    case True
    let ?mem = "free_pairs [(n, f)] mem" and ?l = "l\<lparr>m_front := nx, m_len := m_len l - 1\<rparr>"
    have ch: "node_chain ?mem nx ps None"
      by (rule node_chain_free [OF nx(4)]) (use Cons.prems(2,3) in \<open>auto simp: a\<close>)
    have same: "frame_of ?mem nf = frame_of mem nf" if "nf \<in> set ps" for nf
    proof -
      have "snd nf \<noteq> f" using Cons.prems(3) that by (auto simp: a)
      then show ?thesis by (simp add: frame_of_def free_pairs_other)
    qed
    have "takeWhile (\<lambda>nf. sint (m_pts (frame_of ?mem nf)) < sint t) (butlast ps)
        = takeWhile (\<lambda>nf. sint (m_pts (frame_of mem nf)) < sint t) (butlast ps)"
      by (rule takeWhile_cong) (auto simp: same dest: in_set_butlastD)
    then have k: "k = Suc (drop_count ?mem t ps)"
      using True Cons.prems(5) by (simp add: drop_count_def fr)
    obtain m where nn: "nx = Some m" using nx(4) True by (cases ps) auto
    have "drop_expired mem l t = drop_expired ?mem ?l t"
      using True nx nn by (subst drop_expired.simps) (simp add: freeNode_chain)
    also have "\<dots> = Some (free_pairs (take (k - 1) ps) ?mem,
        ?l\<lparr>m_front := Some (fst (ps ! (k - 1))), m_len := m_len ?l - of_nat (k - 1)\<rparr>)"
      by (rule Cons.IH) (use ch Cons.prems(2,3) True k in \<open>auto simp: a\<close>)
    finally show ?thesis by (simp add: k a free_pairs_Cons)
  qed
qed simp

section \<open>Reading\<close>

lemma cursor_ptr_chain:
  assumes "node_chain mem (m_front l) ps None" "cursor_at l ps j"
  shows "cursor_ptr mem l = Some (if j < length ps then Some (fst (ps ! j)) else None) \<and> j \<le> length ps"
proof (cases "m_readNode l")
  case FrontField
  then show ?thesis using assms node_chain_head [OF assms(1)] by (simp add: cursor_at_def cursor_ptr_def)
next
  case (NextField n)
  then have "0 < j" "j \<le> length ps" "n = fst (ps ! (j - 1))" using assms(2) by (auto simp: cursor_at_def)
  then show ?thesis using NextField node_chain_node [OF assms(1), of "j - 1"]
    by (simp add: cursor_ptr_def)
qed

lemma flistNext_chain:
  assumes "node_chain mem (m_front l) ps None" "cursor_at l ps j"
  shows "flistNext mem l =
    Some (if j < length ps
          then (l\<lparr>m_readNode := NextField (fst (ps ! j)), m_readIndex := m_readIndex l + 1\<rparr>, Some (snd (ps ! j)))
          else (l, None))"
  using cursor_ptr_chain [OF assms] node_chain_node [OF assms(1), of j]
  by (simp add: flistNext_def)

lemma seek_loop_chain:
  assumes "node_chain mem (m_front l) ps None" "cursor_at l ps j" "m_readIndex l = of_nat j"
    and "j \<le> i" "i < length ps" "length ps < 2 ^ 32"
  shows "\<exists>l'. seek_loop mem l (of_nat i) = Some l' \<and> cursor_at l' ps i \<and> m_readIndex l' = of_nat i \<and>
     l' = l\<lparr>m_readNode := m_readNode l', m_readIndex := of_nat i\<rparr>"
  using assms
proof (induction "i - j" arbitrary: j l)
  case 0
  then have "seek_loop mem l (of_nat i) = Some l"
    by (subst seek_loop.simps) (use 0 cursor_ptr_chain [OF 0(2,3)] in simp)
  then show ?case using 0 by (intro exI [of _ l]) simp
next
  case (Suc x)
  let ?l = "l\<lparr>m_readNode := NextField (fst (ps ! j)), m_readIndex := m_readIndex l + 1\<rparr>"
  have ne: "(of_nat j :: u32) \<noteq> of_nat i"
    using Suc.hyps(2) Suc.prems by (simp add: of_nat_inverse word_of_nat_eq_iff take_bit_nat_eq_self)
  have "seek_loop mem l (of_nat i) = seek_loop mem ?l (of_nat i)"
    by (subst seek_loop.simps) (use Suc.hyps(2) Suc.prems ne cursor_ptr_chain [OF Suc.prems(1,2)] in simp)
  moreover have "\<exists>l'. seek_loop mem ?l (of_nat i) = Some l' \<and> cursor_at l' ps i \<and> m_readIndex l' = of_nat i \<and>
     l' = ?l\<lparr>m_readNode := m_readNode l', m_readIndex := of_nat i\<rparr>"
    by (rule Suc.hyps(1) [of "Suc j"]) (use Suc.hyps(2) Suc.prems in \<open>auto simp: cursor_at_def\<close>)
  ultimately show ?case by auto
qed

section \<open>Appending, abstractly\<close>

text \<open>
  What appending means for the sequence of frames: while a positive start shift is waiting only the
  newest frame is kept; with a negative start shift, before recording starts, the frames older than
  the shift are dropped from the front.
\<close>

definition start_time :: "FrameList \<Rightarrow> u64 \<Rightarrow> i32" where
  "start_time l pts = (if sint (m_t0 l) < 0 then ucast pts else m_t0 l)"

definition waiting :: "FrameList \<Rightarrow> u64 \<Rightarrow> bool" where
  "waiting l pts \<longleftrightarrow> sint (m_startShift l) > 0 \<and> m_recording l = - 1 \<and>
     pts - scast (start_time l pts) < scast (m_startShift l)"

definition past :: "FrameList \<Rightarrow> bool" where
  "past l \<longleftrightarrow> sint (m_startShift l) < 0 \<and> m_recording l = - 1"

definition older :: "FrameList \<Rightarrow> u64 \<Rightarrow> u64 \<Rightarrow> bool" where
  "older l pts p \<longleftrightarrow> sint p < sint (pts + scast (m_startShift l) :: i64)"

definition wait_keep :: "FrameList \<Rightarrow> u64 \<Rightarrow> 'a list \<Rightarrow> 'a list" where
  "wait_keep l pts xs = (if waiting l pts \<and> length xs = 1 then [] else xs)"

definition append_list :: "FrameList \<Rightarrow> u64 \<Rightarrow> ('a \<Rightarrow> u64) \<Rightarrow> 'a list \<Rightarrow> 'a \<Rightarrow> 'a list" where
  "append_list l pts time xs x =
     (let xs = wait_keep l pts xs
      in (if past l then dropWhile (\<lambda>y. older l pts (time y)) xs else xs) @ [x])"

definition duration_reached :: "FrameList \<Rightarrow> KcFrame list \<Rightarrow> bool" where
  "duration_reached l fs \<longleftrightarrow> m_duration l \<noteq> 0 \<and>
     (ucast (m_pts (last fs) - m_pts (hd fs)) :: u32) \<ge> m_duration l"

lemma map_append_list:
  "map g (append_list l pts (\<lambda>y. time (g y)) xs x) = append_list l pts time (map g xs) (g x)"
  by (simp add: append_list_def wait_keep_def Let_def dropWhile_map o_def)

lemma not_both: "past l \<Longrightarrow> \<not> waiting l pts"
  by (auto simp: past_def waiting_def)

lemma append_list_neq_Nil [simp]: "append_list l pts time xs x \<noteq> []"
  by (simp add: append_list_def Let_def)

lemma set_append_list: "set (append_list l pts time xs x) \<subseteq> insert x (set xs)"
  by (auto simp: append_list_def wait_keep_def Let_def dest: set_dropWhileD split: if_splits)

section \<open>Appending, step by step\<close>

lemma flist_Nil: "flist mem l [] \<longleftrightarrow> m_front l = None \<and> m_len l = 0 \<and> m_back l = None"
  by (auto simp: flist_def)

lemma flist_len: "flist mem l ps \<Longrightarrow> unat (m_len l) = length ps"
  by (simp add: flist_def unsigned_of_nat take_bit_nat_eq_self)

lemma flist_len1: "flist mem l ps \<Longrightarrow> m_len l = 1 \<longleftrightarrow> length ps = 1"
  using flist_len [of mem l ps] by (metis unat_1 unat_eqI)

lemma flist_len0: "flist mem l ps \<Longrightarrow> m_len l = 0 \<longleftrightarrow> ps = []"
  using flist_len [of mem l ps] by (metis length_0_conv unat_0 unat_eqI)

lemma flist_node: "flist mem l ps \<Longrightarrow> nf \<in> set ps \<Longrightarrow> c_nodes mem (fst nf) \<noteq> None"
  by (auto simp: flist_def in_set_conv_nth dest: node_chain_node)

text \<open>After waiting, a list whose only frame was dropped still has its old front and back pointers.\<close>

lemma append_wait_chain:
  assumes "flist mem l ps" "m_t0 l = start_time l0 (m_pts fr)" "m_startShift l = m_startShift l0"
    "m_recording l = m_recording l0"
  shows "append_wait mem l fr =
    Some (if waiting l0 (m_pts fr) \<and> length ps = 1 then (free_pairs ps mem, l\<lparr>m_len := 0\<rparr>)
          else (mem, if sint (m_startShift l) > 0 \<and> m_recording l = - 1 \<and> \<not> waiting l0 (m_pts fr)
                     then l\<lparr>m_recording := 1\<rparr> else l))"
proof -
  have w: "waiting l0 (m_pts fr) \<longleftrightarrow> sint (m_startShift l) > 0 \<and> m_recording l = - 1 \<and>
      m_pts fr - scast (m_t0 l) < scast (m_startShift l)"
    using assms by (simp add: waiting_def)
  show ?thesis
  proof (cases "waiting l0 (m_pts fr) \<and> length ps = 1")
    case True
    then obtain n f where ps: "ps = [(n, f)]" by (cases ps) auto
    with assms(1) have "m_front l = Some n" "c_nodes mem n = Some \<lparr>n_frame = Some f, n_next = None\<rparr>"
      "c_frames mem f \<noteq> None" by (simp_all add: flist_def)
    then show ?thesis using True w flist_len1 [OF assms(1)] by (simp add: append_wait_def freeNode_chain ps)
  next
    case False
    then show ?thesis using w flist_len1 [OF assms(1)] by (auto simp: append_wait_def)
  qed
qed

text \<open>The fields of a list that are not its pointers and its length.\<close>

definition rec_fields :: "FrameList \<Rightarrow> i32 \<times> readptr \<times> u32 \<times> i32 \<times> i32 \<times> u32" where
  "rec_fields l = (m_recording l, m_readNode l, m_readIndex l, m_t0 l, m_startShift l, m_duration l)"

lemma append_link_chain:
  assumes "flist mem l ps \<or> ps = [] \<and> m_len l = 0" "length ps + 1 < 2 ^ 32"
    and "c_nodes mem node = None" "c_frames mem frame \<noteq> None" "frame \<notin> snd ` set ps"
  shows "\<exists>mem' l'. append_link mem l node frame = Some (mem', l') \<and> flist mem' l' (ps @ [(node, frame)]) \<and>
    c_frames mem' = c_frames mem \<and> (\<forall>x. x \<notin> fst ` set ps \<and> x \<noteq> node \<longrightarrow> c_nodes mem' x = c_nodes mem x) \<and>
    rec_fields l' = rec_fields l \<and> cmem.more mem' = cmem.more mem"
proof (cases "ps = []")
  case True
  then have len: "m_len l = 0" using assms(1) flist_len0 by blast
  let ?mem = "mem\<lparr>c_nodes := (c_nodes mem)(node \<mapsto> \<lparr>n_frame = Some frame, n_next = None\<rparr>)\<rparr>"
  let ?l = "l\<lparr>m_front := Some node, m_back := Some node, m_len := 1\<rparr>"
  have "flist ?mem ?l [(node, frame)]" using assms(4) by (simp add: flist_def)
  moreover have "append_link mem l node frame = Some (?mem, ?l)" by (simp add: append_link_def len)
  ultimately show ?thesis using True by (simp add: rec_fields_def)
next
  case False
  then have fl: "flist mem l ps" using assms(1) by blast
  define b where "b = fst (last ps)"
  define fb where "fb = snd (last ps)"
  define bs where "bs = butlast ps"
  have ps: "ps = bs @ [(b, fb)]" using False by (simp add: b_def fb_def bs_def)
  have nth: "ps ! (length ps - Suc 0) = (b, fb)" by (simp add: ps)
  have bk: "m_back l = Some b" using fl False nth by (simp add: flist_def)
  have bn: "c_nodes mem b = Some \<lparr>n_frame = Some fb, n_next = None\<rparr>"
    using fl False node_chain_node [of mem "m_front l" ps "length ps - 1"] by (simp add: flist_def nth)
  have nb: "node \<notin> fst ` set ps" using flist_node [OF fl] assms(3) by (metis imageE)
  let ?mem = "mem\<lparr>c_nodes := (c_nodes mem)(node \<mapsto> \<lparr>n_frame = Some frame, n_next = None\<rparr>,
      b \<mapsto> \<lparr>n_frame = Some fb, n_next = Some node\<rparr>)\<rparr>"
  let ?l = "l\<lparr>m_back := Some node, m_len := m_len l + 1\<rparr>"
  have "b \<noteq> node" using nb by (auto simp: ps)
  then have eq: "append_link mem l node frame = Some (?mem, ?l)"
    using flist_len0 [OF fl] False by (simp add: append_link_def Let_def bk bn)
  have "node_chain mem (m_front l) bs (Some b)" "c_frames mem fb \<noteq> None"
    using fl by (auto simp: flist_def ps node_chain_append)
  moreover have "node_chain ?mem (m_front l) bs (Some b) = node_chain mem (m_front l) bs (Some b)"
    by (rule node_chain_cong) (use nb fl in \<open>force simp: ps flist_def\<close>)
  ultimately have "node_chain ?mem (m_front l) (ps @ [(node, frame)]) None"
    using assms(4) \<open>b \<noteq> node\<close> by (auto simp: ps node_chain_append)
  then have "flist ?mem ?l (ps @ [(node, frame)])"
    using fl assms(2,5) nb by (simp add: flist_def nth_append)
  then show ?thesis using eq by (auto simp: ps rec_fields_def)
qed

lemma append_past_chain:
  assumes "flist mem l ps" "ps \<noteq> []" and "past l \<longleftrightarrow> past l0" "m_startShift l = m_startShift l0"
    and "k = (if past l0 then length (takeWhile (\<lambda>y. older l0 (m_pts fr) (m_pts (frame_of mem y))) (butlast ps)) else 0)"
  shows "\<exists>l'. append_past mem l fr = Some (free_pairs (take k ps) mem, l') \<and>
    flist (free_pairs (take k ps) mem) l' (drop k ps) \<and>
    rec_fields l' = rec_fields l"
proof (cases "past l0")
  case False
  then show ?thesis using assms by (auto simp: append_past_def past_def rec_fields_def)
next
  case True
  have k: "k = drop_count mem (m_pts fr + scast (m_startShift l)) ps"
    using assms(4,5) True by (simp add: drop_count_def older_def)
  have less: "k < length ps" using drop_count_less [OF assms(2)] by (simp add: k)
  let ?l = "l\<lparr>m_front := Some (fst (ps ! k)), m_len := m_len l - of_nat k\<rparr>"
  let ?mem = "free_pairs (take k ps) mem"
  from assms(1) have fl: "node_chain mem (m_front l) ps None" "distinct (map fst ps)" "distinct (map snd ps)"
    "length ps < 2 ^ 32" "m_len l = of_nat (length ps)" "m_back l = Some (fst (ps ! (length ps - 1)))"
    using assms(2) by (auto simp: flist_def)
  have eq: "append_past mem l fr = Some (?mem, ?l)"
    using True assms(3) drop_expired_chain [OF fl(1-3) assms(2) k] by (simp add: append_past_def past_def)
  have split: "ps = take k ps @ drop k ps" by simp
  have "\<exists>r. node_chain mem r (drop k ps) None"
    using fl(1) node_chain_append [of mem "m_front l" "take k ps" "drop k ps" None] by auto
  then have ch: "node_chain mem (Some (fst (ps ! k))) (drop k ps) None"
    using node_chain_head less by (fastforce simp: nth_via_drop)
  have dis: "distinct (map fst (take k ps @ drop k ps))" "distinct (map snd (take k ps @ drop k ps))"
    using fl(2,3) by simp_all
  then have "node_chain ?mem (Some (fst (ps ! k))) (drop k ps) None"
    by (intro node_chain_free [OF ch]) (auto simp del: append_take_drop_id)
  then have "flist ?mem ?l (drop k ps)"
    using fl(4-6) dis less unfolding flist_def by (simp del: append_take_drop_id add: of_nat_diff)
  then show ?thesis using eq by (auto simp: rec_fields_def)
qed

lemma flistTime_chain:
  "flist mem l ps \<Longrightarrow> ps \<noteq> [] \<Longrightarrow>
   flistTime mem l = Some (ucast (m_pts (last (frames_of mem ps)) - m_pts (hd (frames_of mem ps))))"
proof -
  assume fl: "flist mem l ps" and ne: "ps \<noteq> []"
  have nd: "node_pts mem (Some (fst (ps ! i))) = Some (m_pts (frame_of mem (ps ! i)))" if "i < length ps" for i
    using fl that node_chain_node [of mem "m_front l" ps i] node_chain_frame [of mem "m_front l" ps None "ps ! i"]
    by (simp add: flist_def node_pts_def)
  have "m_front l = Some (fst (ps ! 0))" using fl ne node_chain_head [of mem "m_front l" ps] by (simp add: flist_def)
  then show ?thesis using fl ne nd [of 0] nd [of "length ps - 1"]
    by (simp add: flistTime_def flist_def frames_of_def hd_conv_nth last_conv_nth)
qed

lemma ucast_le_64: "(ucast (a :: u32) :: i64) \<le> ucast b \<longleftrightarrow> a \<le> b"
proof -
  have "uint (ucast w :: i64) = uint w" for w :: u32
    using uint_u32_bounds [of w] by (simp add: unsigned_ucast_eq take_bit_int_eq_self)
  then show ?thesis by (simp add: word_le_def)
qed

lemma append_duration_chain:
  "flist mem l ps \<Longrightarrow> ps \<noteq> [] \<Longrightarrow>
   append_duration mem l = Some (if duration_reached l (frames_of mem ps) then (l\<lparr>m_recording := 0\<rparr>, - 1) else (l, 0))"
  by (simp add: append_duration_def duration_reached_def flistTime_chain ucast_le_64)

section \<open>Appending, in whole\<close>

definition append_drops :: "FrameList \<Rightarrow> KcFrame \<Rightarrow> 'z cmem_scheme \<Rightarrow> (nat \<times> nat) list \<Rightarrow> nat \<times> nat \<Rightarrow> (nat \<times> nat) list" where
  "append_drops l fr mem ps nf =
     take (Suc (length ps) - length (append_list l (m_pts fr) (\<lambda>y. m_pts (frame_of mem y)) ps nf)) ps"

text \<open>The address that \<open>malloc\<close> returns is unused when the node is made; it may be the one just freed.\<close>

definition node_fresh :: "'z cmem_scheme \<Rightarrow> FrameList \<Rightarrow> KcFrame \<Rightarrow> (nat \<times> nat) list \<Rightarrow> nat \<Rightarrow> bool" where
  "node_fresh mem l fr ps node \<longleftrightarrow>
     c_nodes mem node = None \<or> waiting l (m_pts fr) \<and> length ps = 1 \<and> node = fst (ps ! 0)"

text \<open>What \<open>flistAppend\<close> leaves in the list besides its frames.\<close>

definition recording_after :: "FrameList \<Rightarrow> KcFrame \<Rightarrow> KcFrame list \<Rightarrow> i32" where
  "recording_after l fr fs =
     (if duration_reached l fs then 0
      else if sint (m_startShift l) > 0 \<and> m_recording l = - 1 \<and> \<not> waiting l (m_pts fr) then 1
      else m_recording l)"

lemma append_list_take:
  "ps @ [nf] = append_drops l fr mem ps nf @ append_list l (m_pts fr) (\<lambda>y. m_pts (frame_of mem y)) ps nf"
proof -
  let ?P = "\<lambda>y. older l (m_pts fr) (m_pts (frame_of mem y))"
  have "length ps = length (takeWhile ?P ps) + length (dropWhile ?P ps)"
    by (metis length_append takeWhile_dropWhile_id)
  moreover have "take (length (takeWhile ?P ps)) ps = takeWhile ?P ps" by (metis takeWhile_eq_take)
  ultimately show ?thesis using not_both [of l "m_pts fr"]
    by (auto simp: append_drops_def append_list_def wait_keep_def Let_def)
qed

lemma flist_shape: "flist mem l ps \<Longrightarrow> m_front l' = m_front l \<Longrightarrow> m_back l' = m_back l \<Longrightarrow>
    m_len l' = m_len l \<Longrightarrow> flist mem l' ps"
  by (simp add: flist_def)

lemma flistAppend_chain:
  assumes fl: "flist mem l ps" and rec: "m_recording l \<noteq> 0" and fr: "c_frames mem frame = Some fr"
    and new: "frame \<notin> snd ` set ps" "node_fresh mem l fr ps node" "length ps + 1 < 2 ^ 32"
  defines "ps' \<equiv> append_list l (m_pts fr) (\<lambda>y. m_pts (frame_of mem y)) ps (node, frame)"
    and "dr \<equiv> append_drops l fr mem ps (node, frame)"
    and "fs \<equiv> append_list l (m_pts fr) m_pts (frames_of mem ps) fr"
  shows "\<exists>mem' l'. flistAppend (Some node) mem l frame =
      Some (mem', l', if duration_reached l fs then - 1 else 0) \<and>
    flist mem' l' ps' \<and> frames_of mem' ps' = fs \<and>
    c_frames mem' = c_frames (free_pairs dr mem) \<and>
    (\<forall>x. x \<notin> fst ` set ps \<and> x \<noteq> node \<longrightarrow> c_nodes mem' x = c_nodes mem x) \<and>
    (\<forall>x \<in> fst ` set dr. x \<noteq> node \<longrightarrow> c_nodes mem' x = None) \<and>
    rec_fields l' = (recording_after l fr fs, m_readNode l, m_readIndex l, start_time l (m_pts fr),
      m_startShift l, m_duration l) \<and> cmem.more mem' = cmem.more mem"
proof -
  let ?pts = "m_pts fr"
  let ?l1 = "l\<lparr>m_t0 := start_time l ?pts\<rparr>"
  define w where "w = (if waiting l ?pts \<and> length ps = 1 then ps else [])"
  define qs where "qs = wait_keep l ?pts ps"
  define mem1 where "mem1 = free_pairs w mem"
  define l2 where "l2 = (if waiting l ?pts \<and> length ps = 1 then ?l1\<lparr>m_len := 0\<rparr>
    else if sint (m_startShift l) > 0 \<and> m_recording l = - 1 \<and> \<not> waiting l ?pts then ?l1\<lparr>m_recording := 1\<rparr> else ?l1)"
  have wq: "ps = w @ qs" by (simp add: w_def qs_def wait_keep_def)
  have wait: "append_wait mem ?l1 fr = Some (mem1, l2)"
    using append_wait_chain [OF flist_shape [OF fl], of ?l1 l fr] by (simp add: mem1_def l2_def w_def)
  have st: "flist mem1 l2 qs \<or> qs = [] \<and> m_len l2 = 0"
    using flist_shape [OF fl, of l2] by (auto simp: mem1_def l2_def w_def qs_def wait_keep_def)
  have dst: "distinct (map fst ps)" "distinct (map snd ps)" using fl by (simp_all add: flist_def)
  have frame1: "c_frames mem1 frame = Some fr"
    using fr new(1) by (simp add: mem1_def w_def free_pairs_other)
  have node1: "c_nodes mem1 node = None"
    using new(2) by (auto simp: node_fresh_def mem1_def w_def free_pairs_def restrict_map_def)
  have "length qs + 1 < 2 ^ 32" "frame \<notin> snd ` set qs" using new(1,3) by (auto simp: wait_keep_def qs_def)
  from append_link_chain [OF st this(1) node1 _ this(2)] frame1 obtain mem2 l3 where
    link: "append_link mem1 l2 node frame = Some (mem2, l3)" "flist mem2 l3 (qs @ [(node, frame)])"
    "c_frames mem2 = c_frames mem1"
    "\<forall>x. x \<notin> fst ` set qs \<and> x \<noteq> node \<longrightarrow> c_nodes mem2 x = c_nodes mem1 x"
    "rec_fields l3 = rec_fields l2" "cmem.more mem2 = cmem.more mem1" by auto
  define k where "k = (if past l then length (takeWhile (\<lambda>y. older l ?pts (m_pts (frame_of mem2 y)))
      (butlast (qs @ [(node, frame)]))) else 0)"
  have l2s: "m_startShift l2 = m_startShift l" "past l2 \<longleftrightarrow> past l" "m_duration l2 = m_duration l"
    by (auto simp: l2_def past_def)
  have l3s: "m_startShift l3 = m_startShift l" "past l3 \<longleftrightarrow> past l" "m_duration l3 = m_duration l"
    using link(5) l2s by (simp_all add: past_def rec_fields_def)
  from append_past_chain [OF link(2) _ l3s(2,1) k_def] obtain l4 where
    past: "append_past mem2 l3 fr = Some (free_pairs (take k (qs @ [(node, frame)])) mem2, l4)"
    "flist (free_pairs (take k (qs @ [(node, frame)])) mem2) l4 (drop k (qs @ [(node, frame)]))"
    "rec_fields l4 = rec_fields l3" by auto
  let ?ps = "qs @ [(node, frame)]"
  define mem3 where "mem3 = free_pairs (take k ?ps) mem2"
  note past = past [folded mem3_def]
  have same: "frame_of mem2 y = frame_of mem y" if "y \<in> set qs" for y
    using that by (auto simp: frame_of_def link(3) mem1_def w_def qs_def wait_keep_def)
  have k: "k = (if past l then length (takeWhile (\<lambda>y. older l ?pts (m_pts (frame_of mem y))) qs) else 0)"
  proof -
    have "takeWhile (\<lambda>y. older l ?pts (m_pts (frame_of mem2 y))) qs
        = takeWhile (\<lambda>y. older l ?pts (m_pts (frame_of mem y))) qs"
      by (rule takeWhile_cong) (auto simp: same)
    then show ?thesis by (simp add: k_def)
  qed
  have kle: "k \<le> length qs" by (simp add: k length_takeWhile_le)
  have ps': "drop k ?ps = ps'"
    using kle by (simp add: ps'_def append_list_def Let_def qs_def [symmetric] k dropWhile_eq_drop)
  have dr: "dr = w @ take k qs"
  proof -
    have "take k ?ps @ ps' = ?ps" unfolding ps' [symmetric] by (rule append_take_drop_id)
    then have "take k qs @ ps' = ?ps" using kle by simp
    then have "(w @ take k qs) @ ps' = ps @ [(node, frame)]" using wq by simp
    also have "\<dots> = dr @ ps'" using append_list_take by (simp only: dr_def ps'_def)
    finally show ?thesis by simp
  qed
  have cf: "c_frames mem3 = c_frames (free_pairs dr mem)"
    using kle by (simp add: mem3_def free_pairs_def link(3) mem1_def dr image_Un)
  have fo: "frame_of mem3 y = frame_of mem y" if "y \<in> set ps'" for y
  proof -
    have "distinct (map snd (ps @ [(node, frame)]))" using dst new(1) by auto
    then have "snd y \<notin> snd ` set dr"
      using that append_list_take [of ps "(node, frame)" l fr mem] by (auto simp: dr_def ps'_def)
    then show ?thesis unfolding frame_of_def cf by (simp add: free_pairs_other)
  qed
  have fs: "frames_of mem3 ps' = fs"
  proof -
    have "frames_of mem3 ps' = map (frame_of mem) ps'" using fo by (simp add: frames_of_def)
    also have "\<dots> = fs"
      unfolding ps'_def fs_def frames_of_def map_append_list by (simp add: frame_of_def fr)
    finally show ?thesis .
  qed
  have ne: "ps' \<noteq> []" by (simp add: ps'_def)
  have dur: "m_duration l4 = m_duration l" using past(3) l3s by (simp add: rec_fields_def)
  then have dr4: "duration_reached l4 = duration_reached l" by (simp add: duration_reached_def fun_eq_iff)
  define l5 where "l5 = (if duration_reached l fs then l4\<lparr>m_recording := 0\<rparr> else l4)"
  have fl4: "flist mem3 l4 ps'" using past(2) by (simp only: ps')
  have d: "append_duration mem3 l4 = Some (l5, if duration_reached l fs then - 1 else 0)"
    using append_duration_chain [OF fl4 ne] by (simp add: fs dr4 l5_def)
  have t0: "(if sint (m_t0 l) < 0 then l\<lparr>m_t0 := ucast (m_pts fr)\<rparr> else l) = ?l1" by (simp add: start_time_def)
  have eq: "flistAppend (Some node) mem l frame = Some (mem3, l5, if duration_reached l fs then - 1 else 0)"
    unfolding flistAppend_def fr option.case t0 Let_def using rec by (simp add: wait link(1) past(1) d)
  have fl5: "flist mem3 l5 ps'" using flist_shape [OF fl4] by (simp add: l5_def)
  have tk: "set (take k ?ps) = set (take k qs)" using kle by simp
  have sub: "fst ` set (take k qs) \<subseteq> fst ` set qs" by (intro image_mono set_take_subset)
  have fps: "fst ` set ps = fst ` set w \<union> fst ` set qs" by (subst wq) (simp add: image_Un)
  have c3: "c_nodes mem3 x = (if x \<in> fst ` set (take k qs) then None else c_nodes mem2 x)" for x
    unfolding mem3_def free_pairs_def tk by simp
  have c1: "c_nodes mem1 x = (if x \<in> fst ` set w then None else c_nodes mem x)" for x
    by (simp add: mem1_def free_pairs_def)
  have dis: "x \<notin> fst ` set qs" if "x \<in> fst ` set w" for x
  proof -
    have "distinct (map fst (w @ qs))" using dst(1) wq by simp
    then show ?thesis using that by auto
  qed
  have "\<forall>x. x \<notin> fst ` set ps \<and> x \<noteq> node \<longrightarrow> c_nodes mem3 x = c_nodes mem x"
    using link(4) sub unfolding c3 c1 fps by (auto split: if_splits)
  moreover have "\<forall>x \<in> fst ` set dr. x \<noteq> node \<longrightarrow> c_nodes mem3 x = None"
    using link(4) dis unfolding dr set_append image_Un c3 c1 by (auto split: if_splits)
  moreover have "rec_fields l5 = (recording_after l fr fs, m_readNode l, m_readIndex l, start_time l ?pts,
      m_startShift l, m_duration l)"
  proof -
    have "rec_fields l4 = rec_fields l2" using past(3) link(5) by simp
    moreover have "rec_fields l2 = (if sint (m_startShift l) > 0 \<and> m_recording l = - 1 \<and> \<not> waiting l ?pts then 1
        else m_recording l, m_readNode l, m_readIndex l, start_time l ?pts, m_startShift l, m_duration l)"
      by (auto simp: l2_def rec_fields_def)
    ultimately show ?thesis by (simp add: l5_def rec_fields_def recording_after_def)
  qed
  moreover have "cmem.more mem3 = cmem.more mem"
    by (simp add: mem3_def free_pairs_def link(6)) (simp add: mem1_def free_pairs_def)
  ultimately show ?thesis using eq fs cf fl5 by blast
qed

section \<open>The cursor\<close>

lemma append_list_split:
  assumes "flist mem l ps" "ps' = append_list l (m_pts fr) (\<lambda>y. m_pts (frame_of mem y)) ps nf"
    "dr = append_drops l fr mem ps nf"
  obtains ks where "ps = dr @ ks" "ps' = ks @ [nf]"
proof -
  have "ps @ [nf] = dr @ ps'" using append_list_take assms(2,3) by blast
  moreover have "ps' \<noteq> []" by (simp add: assms(2))
  ultimately have "ps' = butlast ps' @ [nf] \<and> ps = dr @ butlast ps'"
    by (metis append_butlast_last_id butlast_append butlast_snoc last_appendR snoc_eq_iff_butlast)
  then show thesis using that by blast
qed

lemma cursor_after_append:
  assumes "cursor_at l (dr @ ks) j" "m_readNode l' = m_readNode l" "j = 0 \<or> length dr < j"
  shows "cursor_at l' (ks @ [nf]) (j - length dr)"
proof (cases "m_readNode l")
  case FrontField
  then show ?thesis using assms by (simp add: cursor_at_def)
next
  case (NextField n)
  then have j: "0 < j" "j \<le> length dr + length ks" "n = fst ((dr @ ks) ! (j - 1))"
    using assms(1) by (simp_all add: cursor_at_def)
  then have "length dr < j" using assms(3) by simp
  then have "(dr @ ks) ! (j - 1) = ks ! (j - length dr - 1)" "j - length dr - 1 < length ks"
    using j by (auto simp: nth_append)
  then show ?thesis using j NextField assms(2) \<open>length dr < j\<close> by (simp add: cursor_at_def nth_append)
qed

lemma cursor_dropped:
  assumes "cursor_at l (dr @ ks) j" "m_readNode l' = m_readNode l" "0 < j" "j \<le> length dr"
  shows "\<exists>n. m_readNode l' = NextField n \<and> n \<in> fst ` set dr"
  using assms by (cases "m_readNode l") (auto simp: cursor_at_def nth_append intro!: imageI nth_mem)

lemma flistSeek_chain:
  assumes "flist mem l ps" "n < length ps"
  shows "\<exists>l'. flistSeek mem l (of_nat n) = Some (l', 0) \<and> cursor_at l' ps n \<and> m_readIndex l' = of_nat n \<and>
    flist mem l' ps"
proof -
  let ?l = "l\<lparr>m_readIndex := 0, m_readNode := FrontField\<rparr>"
  have fl: "node_chain mem (m_front ?l) ps None" "length ps < 2 ^ 32" using assms(1) by (simp_all add: flist_def)
  have "unat (of_nat n :: u32) = n" using assms(2) fl(2) by (simp add: unsigned_of_nat take_bit_nat_eq_self)
  then have lt: "\<not> of_nat n \<ge> m_len l" using flist_len [OF assms(1)] assms(2) by (simp add: word_le_nat_alt)
  obtain l' where l': "seek_loop mem ?l (of_nat n) = Some l'" "cursor_at l' ps n" "m_readIndex l' = of_nat n"
    "l' = ?l\<lparr>m_readNode := m_readNode l', m_readIndex := of_nat n\<rparr>"
    using seek_loop_chain [OF fl(1), of 0 n] assms(2) fl(2) by (auto simp: cursor_at_def)
  have "flist mem l' ps" by (rule flist_shape [OF assms(1)]) (subst l'(4), simp)+
  then show ?thesis using l'(1-3) lt by (simp add: flistSeek_def)
qed

lemma flistSeek_out:
  "flist mem l ps \<Longrightarrow> length ps \<le> unat n \<Longrightarrow> flistSeek mem l n = Some (l, - 1)"
  using flist_len [of mem l ps] by (simp add: flistSeek_def word_le_nat_alt)

section \<open>Verifying\<close>

definition bad_frame :: "'z cmem_scheme \<Rightarrow> (nat \<times> nat) list \<Rightarrow> nat \<Rightarrow> (u32 \<times> u16 \<times> u16) list" where
  "bad_frame mem ps i =
     (let fr = frame_of mem (ps ! i)
      in if m_width fr \<noteq> 640 \<or> m_height fr \<noteq> 480 then [(of_nat i, m_width fr, m_height fr)] else [])"

definition bad_frames :: "'z cmem_scheme \<Rightarrow> (nat \<times> nat) list \<Rightarrow> nat \<Rightarrow> (u32 \<times> u16 \<times> u16) list" where
  "bad_frames mem ps i = concat (map (bad_frame mem ps) [i..<length ps])"

lemma bad_frames_step: "i < length ps \<Longrightarrow> bad_frames mem ps i = bad_frame mem ps i @ bad_frames mem ps (Suc i)"
  by (simp add: bad_frames_def upt_rec [of i])

lemma verify_loop_chain:
  assumes "flist mem l ps" "cursor_at l ps (Suc j)" "m_readIndex l = of_nat (Suc j)" "j < length ps"
  shows "\<exists>l'. verify_loop mem l (Some (snd (ps ! j))) out = Some (l', out @ bad_frames mem ps j) \<and>
    flist mem l' ps \<and> cursor_at l' ps (length ps) \<and> m_readIndex l' = of_nat (length ps)"
  using assms
proof (induction "length ps - j" arbitrary: j l out)
  case (Suc x)
  note fl = Suc.prems(1)
  have ch: "node_chain mem (m_front l) ps None" using fl by (simp add: flist_def)
  have fr: "c_frames mem (snd (ps ! j)) = Some (frame_of mem (ps ! j))"
    using node_chain_frame [OF ch, of "ps ! j"] Suc.prems(4) by simp
  let ?out = "out @ bad_frame mem ps j"
  have idx: "m_readIndex l - 1 = of_nat j" using Suc.prems(3) by simp
  have unf: "verify_loop mem l (Some (snd (ps ! j))) out =
      (case flistNext mem l of None \<Rightarrow> None | Some r \<Rightarrow> verify_loop mem (fst r) (snd r) ?out)"
    by (subst verify_loop.simps) (auto simp: fr bad_frame_def Let_def idx split: option.split)
  show ?case
  proof (cases "Suc j < length ps")
    case False
    then have j: "Suc j = length ps" using Suc.prems(4) by simp
    have "verify_loop mem l None ?out = Some (l, ?out)" by (subst verify_loop.simps) simp
    moreover have "bad_frames mem ps j = bad_frame mem ps j"
      using bad_frames_step [OF Suc.prems(4), of mem] j by (simp add: bad_frames_def)
    ultimately show ?thesis using flistNext_chain [OF ch Suc.prems(2)] j Suc.prems by (simp add: unf)
  next
    case True
    let ?l = "l\<lparr>m_readNode := NextField (fst (ps ! Suc j)), m_readIndex := m_readIndex l + 1\<rparr>"
    have "\<exists>l'. verify_loop mem ?l (Some (snd (ps ! Suc j))) ?out = Some (l', ?out @ bad_frames mem ps (Suc j)) \<and>
        flist mem l' ps \<and> cursor_at l' ps (length ps) \<and> m_readIndex l' = of_nat (length ps)"
      by (rule Suc.hyps(1)) (use Suc.hyps(2) Suc.prems True flist_shape [OF fl] in \<open>auto simp: cursor_at_def\<close>)
    then show ?thesis using flistNext_chain [OF ch Suc.prems(2)] True
      by (simp add: unf bad_frames_step [OF Suc.prems(4), of mem])
  qed
qed simp

lemma flistVerify_chain:
  assumes "flist mem l ps" "cursor_at l ps j" "m_readIndex l = of_nat j"
  shows "\<exists>l'. flistVerify mem l = Some (l', bad_frames mem ps 0) \<and> flist mem l' ps \<and>
    cursor_at l' ps j \<and> m_readIndex l' = of_nat j"
proof (cases "ps = []")
  case True
  then have "j = 0" using assms(2) by (auto simp: cursor_at_def split: readptr.splits)
  then have "flistNext mem l = Some (l, None)" using flistNext_chain [of mem l ps j] assms True by (simp add: flist_def)
  moreover have "verify_loop mem l None [] = Some (l, [])" by (subst verify_loop.simps) simp
  ultimately show ?thesis using assms True flistSeek_out [OF assms(1)]
    by (simp add: flistVerify_def bad_frames_def Let_def)
next
  case False
  from flistSeek_chain [OF assms(1), of 0] False obtain l1 where
    l1: "flistSeek mem l 0 = Some (l1, 0)" "cursor_at l1 ps 0" "m_readIndex l1 = 0" "flist mem l1 ps" by auto
  define l2 where "l2 = l1\<lparr>m_readNode := NextField (fst (ps ! 0)), m_readIndex := 1\<rparr>"
  have nxt: "flistNext mem l1 = Some (l2, Some (snd (ps ! 0)))"
    using flistNext_chain [of mem l1 ps 0] l1 False by (simp add: flist_def l2_def)
  have "flist mem l2 ps" using flist_shape [OF l1(4)] by (simp add: l2_def)
  moreover have "cursor_at l2 ps (Suc 0)" "m_readIndex l2 = 1" using False by (simp_all add: cursor_at_def Suc_le_eq l2_def)
  ultimately obtain l3 where l3: "verify_loop mem l2 (Some (snd (ps ! 0))) [] = Some (l3, bad_frames mem ps 0)"
    "flist mem l3 ps" "cursor_at l3 ps (length ps)" "m_readIndex l3 = of_nat (length ps)"
    using verify_loop_chain [of mem l2 ps 0 "[]"] False by auto
  have "j \<le> length ps" using assms(2) by (auto simp: cursor_at_def split: readptr.splits)
  then consider "j < length ps" | "j = length ps" by linarith
  then show ?thesis
  proof cases
    case 1
    from flistSeek_chain [OF l3(2) 1] show ?thesis
      by (auto simp: flistVerify_def Let_def l1 nxt l3(1) assms(3))
  next
    case 2
    have "unat (of_nat j :: u32) = j" using assms(1) 2 by (simp add: flist_def unsigned_of_nat take_bit_nat_eq_self)
    then have "flistSeek mem l3 (of_nat j) = Some (l3, - 1)" using flistSeek_out [OF l3(2)] 2 by simp
    then show ?thesis using l3 2 by (simp add: flistVerify_def Let_def l1 nxt assms(3))
  qed
qed

section \<open>Examples\<close>

text \<open>
  Two recorded frames at times 0 and 50 and an unrecorded one at 120, in a recording that keeps the
  last 100 microseconds; the reader has read the first frame.
\<close>

definition example_frame :: "u64 \<Rightarrow> KcFrame" where
  "example_frame pts = \<lparr>m_width = 640, m_height = 480, m_pad = [], m_pts = pts, m_type = FRAME_BGR, m_data = []\<rparr>"

definition example_mem :: cmem where
  "example_mem =
     \<lparr>c_nodes = [31 \<mapsto> \<lparr>n_frame = Some 11, n_next = Some 32\<rparr>, 32 \<mapsto> \<lparr>n_frame = Some 12, n_next = None\<rparr>],
      c_frames = [11 \<mapsto> example_frame 0, 12 \<mapsto> example_frame 50, 13 \<mapsto> example_frame 120]\<rparr>"

definition example_list :: "i32 \<Rightarrow> u32 \<Rightarrow> FrameList" where
  "example_list startShift duration =
     \<lparr>m_recording = - 1, m_front = Some 31, m_back = Some 32, m_readNode = NextField 31, m_len = 2,
      m_readIndex = 1, m_t0 = 0, m_startShift = startShift, m_duration = duration\<rparr>"

lemma example_flist: "flist example_mem (example_list s d) [(31, 11), (32, 12)]"
  by (simp add: flist_def example_mem_def example_list_def)

lemma example_cursor: "cursor_at (example_list s d) [(31, 11), (32, 12)] 1"
  by (simp add: cursor_at_def example_list_def)

lemma example_rec: "m_recording (example_list s d) \<noteq> 0"
  by (simp add: example_list_def)

lemma example_frames: "frames_of example_mem [(31, 11), (32, 12)] = [example_frame 0, example_frame 50]"
  by (simp add: frames_of_def frame_of_def example_mem_def)

lemma example_times:
  "m_pts (example_frame p) = p" "frame_of example_mem (31, 11) = example_frame 0"
  "frame_of example_mem (32, 12) = example_frame 50" "c_frames example_mem 13 = Some (example_frame 120)"
  by (simp_all add: example_frame_def frame_of_def example_mem_def)

lemma example_fresh: "node_fresh example_mem l fr ps 33"
  by (simp add: node_fresh_def example_mem_def)

lemma example_past: "past (example_list (- 100) d)"
  by (simp add: past_def example_list_def)

lemma example_older:
  "older (example_list (- 100) d) 120 0" "\<not> older (example_list (- 100) d) 120 50"
proof -
  have "sint (120 + scast (- 100 :: i32) :: i64) = 20" by (code_simp)
  then show "older (example_list (- 100) d) 120 0" "\<not> older (example_list (- 100) d) 120 50"
    by (simp_all add: older_def example_list_def)
qed

lemma example_append:
  "append_list (example_list (- 100) d) 120 m_pts [example_frame 0, example_frame 50] (example_frame 120) =
   [example_frame 50, example_frame 120]"
  using not_both [OF example_past]
  by (simp add: append_list_def wait_keep_def Let_def example_past example_times example_older)

section \<open>Properties\<close>

text \<open>
  C2. Appending to a recording does what it means on the sequence of its frames: the new frame goes to
  the end, a waiting positive start shift keeps only the newest frame, a negative one drops the
  frames older than the shift. The result says whether the duration has been reached, which ends the
  recording. Frames leave memory exactly when they leave the list; nodes and frames outside the list
  are not touched.
\<close>

theorem flistAppend_refines:
  assumes "flist mem l ps" "m_recording l \<noteq> 0" "c_frames mem frame = Some fr" "frame \<notin> snd ` set ps"
    and "node_fresh mem l fr ps node" "length ps + 1 < 2 ^ 32"
    and "fs = append_list l (m_pts fr) m_pts (frames_of mem ps) fr"
  shows "\<exists>mem' l' ps'. flistAppend (Some node) mem l frame =
      Some (mem', l', if duration_reached l fs then - 1 else 0) \<and>
    flist mem' l' ps' \<and> frames_of mem' ps' = fs \<and> m_recording l' = recording_after l fr fs \<and>
    (\<forall>f. c_frames mem' f = (if f \<in> snd ` set ps \<and> f \<notin> snd ` set ps' then None else c_frames mem f)) \<and>
    (\<forall>n. n \<notin> fst ` set ps \<and> n \<noteq> node \<longrightarrow> c_nodes mem' n = c_nodes mem n)"
proof -
  define ps' where "ps' = append_list l (m_pts fr) (\<lambda>y. m_pts (frame_of mem y)) ps (node, frame)"
  define dr where "dr = append_drops l fr mem ps (node, frame)"
  obtain ks where ks: "ps = dr @ ks" "ps' = ks @ [(node, frame)]"
    using append_list_split [OF assms(1) ps'_def dr_def] by blast
  have "distinct (map snd ps)" using assms(1) by (simp add: flist_def)
  then have "f \<in> snd ` set dr \<longleftrightarrow> f \<in> snd ` set ps \<and> f \<notin> snd ` set ps'" for f
    using assms(4) ks by auto
  then have "c_frames (free_pairs dr mem) f =
      (if f \<in> snd ` set ps \<and> f \<notin> snd ` set ps' then None else c_frames mem f)" for f
    by (simp add: free_pairs_def)
  with flistAppend_chain [OF assms(1-6), folded ps'_def dr_def assms(7)] show ?thesis
    by (auto simp: rec_fields_def)
qed

theorem flistAppend_refines_witness:
  "\<exists>mem' l' ps'. flistAppend (Some 33) example_mem (example_list (- 100) 70) 13 = Some (mem', l', - 1) \<and>
    frames_of mem' ps' = [example_frame 50, example_frame 120] \<and> m_recording l' = 0"
proof -
  have "duration_reached (example_list (- 100) 70) [example_frame 50, example_frame 120]"
    unfolding duration_reached_def example_times list.sel last.simps by (simp add: example_list_def example_times)
  moreover have "\<exists>mem' l' ps'. flistAppend (Some 33) example_mem (example_list (- 100) 70) 13 =
      Some (mem', l', if duration_reached (example_list (- 100) 70) [example_frame 50, example_frame 120] then - 1 else 0) \<and>
    flist mem' l' ps' \<and> frames_of mem' ps' = [example_frame 50, example_frame 120] \<and>
    m_recording l' = recording_after (example_list (- 100) 70) (example_frame 120) [example_frame 50, example_frame 120]"
    using flistAppend_refines [OF example_flist example_rec example_times(4), where node = 33 and s1 = "- 100" and d1 = 70]
      example_fresh by (auto simp: example_times example_frames example_append)
  ultimately show ?thesis by (fastforce simp: recording_after_def)
qed

text \<open>
  C8. A recording that starts in the past keeps the frames of the last \<open>-startShift\<close> microseconds: when
  its times are in order (and below \<open>2 ^ 63\<close>), after an append no frame is older than the shift,
  every frame that is not older is still there, and the new one is the last.
\<close>

theorem flistAppend_window:
  assumes "flist mem l ps" "past l" "c_frames mem frame = Some fr" "frame \<notin> snd ` set ps"
    and "node_fresh mem l fr ps node" "length ps + 1 < 2 ^ 32"
    and "sorted (map (\<lambda>f. sint (m_pts f)) (frames_of mem ps))" "0 \<le> sint (m_pts fr)"
  shows "\<exists>mem' l' ps' ret. flistAppend (Some node) mem l frame = Some (mem', l', ret) \<and>
    flist mem' l' ps' \<and> ps' \<noteq> [] \<and> last (frames_of mem' ps') = fr \<and>
    butlast (frames_of mem' ps') =
      filter (\<lambda>f. sint (m_pts fr) + sint (m_startShift l) \<le> sint (m_pts f)) (frames_of mem ps)"
proof -
  have shift: "sint (m_startShift l) < 0" "m_recording l = - 1" using assms(2) by (simp_all add: past_def)
  then have rec: "m_recording l \<noteq> 0" by simp
  let ?t = "sint (m_pts fr) + sint (m_startShift l)"
  have t: "sint (m_pts fr + scast (m_startShift l) :: i64) = ?t"
  proof -
    have lo: "- (2 ^ 31) \<le> sint (m_startShift l)" using sint_ge [of "m_startShift l"] by simp
    have hi: "sint (m_pts fr) < 2 ^ 63" using sint_lt [of "m_pts fr"] by simp
    have k: "sint (word_of_int k :: i64) = k" if "- (2 ^ 63) \<le> k" "k < 2 ^ 63" for k
      using that by (simp add: signed_of_int signed_take_bit_int_eq_self)
    have "sint (word_of_int ?t :: i64) = ?t" by (rule k) (use lo hi assms(8) shift(1) in simp_all)
    moreover have "(word_of_int ?t :: i64) = m_pts fr + scast (m_startShift l)" by simp
    ultimately show ?thesis by metis
  qed
  define fs where "fs = append_list l (m_pts fr) m_pts (frames_of mem ps) fr"
  have "dropWhile (\<lambda>f. sint (m_pts f) < ?t) xs = filter (\<lambda>f. ?t \<le> sint (m_pts f)) xs"
    if "sorted (map (\<lambda>f. sint (m_pts f)) xs)" for xs
    using that by (induction xs) (auto intro!: filter_True [symmetric])
  then have fs: "fs = filter (\<lambda>f. ?t \<le> sint (m_pts f)) (frames_of mem ps) @ [fr]"
    using not_both [OF assms(2)] assms(2,7)
    by (simp add: fs_def append_list_def wait_keep_def Let_def older_def t)
  from flistAppend_chain [OF assms(1) rec assms(3-6), folded fs_def] obtain mem' l' ps' where
    "flistAppend (Some node) mem l frame = Some (mem', l', if duration_reached l fs then - 1 else 0)"
    "flist mem' l' ps'" "frames_of mem' ps' = fs" by blast
  moreover from this have "ps' \<noteq> []" using fs by (auto simp: frames_of_def)
  ultimately show ?thesis using fs by (metis butlast_snoc last_snoc)
qed

theorem flistAppend_window_witness:
  "\<exists>mem' l' ps' ret. flistAppend (Some 33) example_mem (example_list (- 100) 0) 13 = Some (mem', l', ret) \<and>
    butlast (frames_of mem' ps') = [example_frame 50]"
proof -
  obtain mem' l' ps' ret where
    "flistAppend (Some 33) example_mem (example_list (- 100) 0) 13 = Some (mem', l', ret)"
    "butlast (frames_of mem' ps') =
      filter (\<lambda>f. sint (m_pts (example_frame 120)) + sint (m_startShift (example_list (- 100) 0)) \<le> sint (m_pts f))
        (frames_of example_mem [(31, 11), (32, 12)])"
    using flistAppend_window [OF example_flist example_past [of 0] example_times(4) _ example_fresh]
    by (auto simp: example_frames example_times)
  moreover have "sint (m_startShift (example_list (- 100) 0)) = - 100" by (simp add: example_list_def)
  ultimately have "butlast (frames_of mem' ps') = [example_frame 50]" by (simp add: example_frames example_times)
  then show ?thesis
    using \<open>flistAppend (Some 33) example_mem (example_list (- 100) 0) 13 = Some (mem', l', ret)\<close> by blast
qed

text \<open>
  C10. Seeking to a frame and reading gives that frame, in order, moves the reader behind it, and the
  end is reported exactly behind the last frame; seeking behind the end is refused and changes nothing.
\<close>

theorem flistSeek_then_Next:
  assumes "flist mem l ps"
  shows "(\<forall>n < length ps. \<exists>l1 l2. flistSeek mem l (of_nat n) = Some (l1, 0) \<and> m_readIndex l1 = of_nat n \<and>
      flistNext mem l1 = Some (l2, Some (snd (ps ! n))) \<and> m_readIndex l2 = of_nat (Suc n) \<and>
      flistEnd mem l2 = Some (Suc n = length ps)) \<and>
    (\<forall>n. length ps \<le> unat n \<longrightarrow> flistSeek mem l n = Some (l, - 1))"
proof (intro conjI allI impI)
  fix n assume n: "n < length ps"
  from flistSeek_chain [OF assms n] obtain l1 where
    l1: "flistSeek mem l (of_nat n) = Some (l1, 0)" "cursor_at l1 ps n" "m_readIndex l1 = of_nat n" "flist mem l1 ps"
    by blast
  have ch: "node_chain mem (m_front l1) ps None" using l1(4) by (simp add: flist_def)
  let ?l2 = "l1\<lparr>m_readNode := NextField (fst (ps ! n)), m_readIndex := m_readIndex l1 + 1\<rparr>"
  have "cursor_at ?l2 ps (Suc n)" using n by (simp add: cursor_at_def)
  then have "cursor_ptr mem ?l2 = Some (if Suc n < length ps then Some (fst (ps ! Suc n)) else None)"
    using cursor_ptr_chain [of mem ?l2 ps "Suc n"] ch by simp
  then have "flistEnd mem ?l2 = Some (Suc n = length ps)" using n by (simp add: flistEnd_def)
  then show "\<exists>l1 l2. flistSeek mem l (of_nat n) = Some (l1, 0) \<and> m_readIndex l1 = of_nat n \<and>
      flistNext mem l1 = Some (l2, Some (snd (ps ! n))) \<and> m_readIndex l2 = of_nat (Suc n) \<and>
      flistEnd mem l2 = Some (Suc n = length ps)"
    using l1 flistNext_chain [OF ch l1(2)] n by (intro exI [of _ l1] exI [of _ ?l2]) simp
qed (use flistSeek_out [OF assms] in blast)

theorem flistSeek_then_Next_witness:
  "\<exists>l1 l2. flistSeek example_mem (example_list 0 0) 1 = Some (l1, 0) \<and>
     flistNext example_mem l1 = Some (l2, Some 12) \<and> flistEnd example_mem l2 = Some True"
  using conjunct1 [OF flistSeek_then_Next [OF example_flist [of 0 0]], rule_format, of 1] by auto

text \<open>
  C9. Clearing a recording returns, frees every node and every frame of the list exactly once and
  nothing else, and leaves an empty recording with the same start shift and duration.
\<close>

theorem flistClear_frees:
  assumes "flist mem l ps"
  shows "\<exists>mem' l'. flistClear mem l = Some (mem', l') \<and> flist mem' l' [] \<and> cursor_at l' [] 0 \<and>
    (\<forall>n. c_nodes mem' n = (if n \<in> fst ` set ps then None else c_nodes mem n)) \<and>
    (\<forall>f. c_frames mem' f = (if f \<in> snd ` set ps then None else c_frames mem f)) \<and>
    m_startShift l' = m_startShift l \<and> m_duration l' = m_duration l \<and> m_recording l' \<noteq> 0"
proof -
  have "flistClear mem l = Some (free_pairs ps mem, flistInit (m_startShift l) (m_duration l))"
    using free_nodes_chain [of mem "m_front l" ps] assms by (simp add: flistClear_def flist_def)
  then show ?thesis by (simp add: flist_Nil flistInit_def cursor_at_def free_pairs_def)
qed

theorem flistClear_frees_witness:
  "\<exists>mem' l'. flistClear example_mem (example_list 5 0) = Some (mem', l') \<and>
     c_nodes mem' 32 = None \<and> c_frames mem' 12 = None \<and> c_frames mem' 13 \<noteq> None"
  using flistClear_frees [OF example_flist [of 5 0]] example_times(4) by auto

text \<open>
  The diagnostic pass over a recording returns, reports exactly the frames that are not 640 by 480
  with their indices, in order, and puts the reader back where it was.
\<close>

theorem flistVerify_reports:
  assumes "flist mem l ps" "cursor_at l ps j" "m_readIndex l = of_nat j"
  shows "\<exists>l'. flistVerify mem l = Some (l',
      concat (map (\<lambda>i. let fr = frames_of mem ps ! i
                       in if m_width fr = 640 \<and> m_height fr = 480 then [] else [(of_nat i, m_width fr, m_height fr)])
        [0..<length ps])) \<and>
    flist mem l' ps \<and> cursor_at l' ps j \<and> m_readIndex l' = of_nat j"
proof -
  have "bad_frames mem ps 0 = concat (map (\<lambda>i. let fr = frames_of mem ps ! i
      in if m_width fr = 640 \<and> m_height fr = 480 then [] else [(of_nat i, m_width fr, m_height fr)]) [0..<length ps])"
    unfolding bad_frames_def
    by (rule arg_cong [where f = concat], rule map_cong) (auto simp: bad_frame_def frames_of_def Let_def)
  then show ?thesis using flistVerify_chain [OF assms] by simp
qed

theorem flistVerify_reports_witness:
  "\<exists>l'. flistVerify example_mem (example_list 0 0) = Some (l', []) \<and> m_readIndex l' = 1"
proof -
  have "m_readIndex (example_list 0 0) = of_nat 1" by (simp add: example_list_def)
  from flistVerify_reports [OF example_flist example_cursor this] show ?thesis
    by (auto simp: example_frames example_frame_def Let_def upt_rec)
qed

text \<open>
  C7. A reader survives an append when the node under its cursor stays in the list: it then reads the
  frame it would have read before, or the new frame when it was at the end. When its node is one of
  the dropped ones, and \<open>malloc\<close> did not hand out the same address again, the cursor points into freed
  memory, and both testing for the end and reading the next frame use it.
\<close>

theorem flistAppend_reader:
  assumes "flist mem l ps" "m_recording l \<noteq> 0" "c_frames mem frame = Some fr" "frame \<notin> snd ` set ps"
    and "node_fresh mem l fr ps node" "length ps + 1 < 2 ^ 32" "node \<notin> fst ` set ps" "cursor_at l ps j"
    and "d = length (append_drops l fr mem ps (node, frame))"
  shows "\<exists>mem' l' ret. flistAppend (Some node) mem l frame = Some (mem', l', ret) \<and>
    (0 < j \<and> j \<le> d \<longrightarrow> flistEnd mem' l' = None \<and> flistNext mem' l' = None) \<and>
    (d < j \<longrightarrow> flistEnd mem' l' = Some False \<and>
       (\<exists>l''. flistNext mem' l' = Some (l'', Some (if j < length ps then snd (ps ! j) else frame))))"
proof -
  define ps' where "ps' = append_list l (m_pts fr) (\<lambda>y. m_pts (frame_of mem y)) ps (node, frame)"
  define dr where "dr = append_drops l fr mem ps (node, frame)"
  obtain ks where ks: "ps = dr @ ks" "ps' = ks @ [(node, frame)]"
    using append_list_split [OF assms(1) ps'_def dr_def] by blast
  from flistAppend_chain [OF assms(1-6), folded ps'_def dr_def] obtain mem' l' ret where
    app: "flistAppend (Some node) mem l frame = Some (mem', l', ret)" "flist mem' l' ps'"
    "\<forall>x \<in> fst ` set dr. x \<noteq> node \<longrightarrow> c_nodes mem' x = None" "m_readNode l' = m_readNode l"
    by (auto simp: rec_fields_def)
  have ch: "node_chain mem' (m_front l') ps' None" using app(2) by (simp add: flist_def)
  have d: "d = length dr" by (simp add: assms(9) dr_def)
  have "flistEnd mem' l' = None \<and> flistNext mem' l' = None" if j: "0 < j" "j \<le> d"
  proof -
    obtain n where n: "m_readNode l' = NextField n" "n \<in> fst ` set dr"
      using cursor_dropped [OF assms(8) [unfolded ks(1)] app(4) j(1)] j(2) d by blast
    have "n \<noteq> node" using n(2) assms(7) unfolding ks(1) by auto
    with app(3) n(2) have "c_nodes mem' n = None" by (metis (no_types))
    then show ?thesis by (simp add: flistEnd_def flistNext_def cursor_ptr_def n(1))
  qed
  moreover have "flistEnd mem' l' = Some False \<and>
      (\<exists>l''. flistNext mem' l' = Some (l'', Some (if j < length ps then snd (ps ! j) else frame)))" if "d < j"
  proof -
    have j: "j \<le> length ps" using assms(8) by (auto simp: cursor_at_def split: readptr.splits)
    have cur: "cursor_at l' ps' (j - d)"
      unfolding ks(2) d by (rule cursor_after_append [OF assms(8) [unfolded ks(1)] app(4)]) (use that d in simp)
    have "ps' ! (j - d) = (if j < length ps then ps ! j else (node, frame))" "j - d < length ps'"
      using j that by (auto simp: ks d nth_append)
    then show ?thesis using cursor_ptr_chain [OF ch cur] flistNext_chain [OF ch cur] by (simp add: flistEnd_def)
  qed
  ultimately show ?thesis using app(1) by blast
qed

theorem flistAppend_reader_witness:
  "\<exists>mem' l' ret. flistAppend (Some 33) example_mem (example_list (- 100) 0) 13 = Some (mem', l', ret) \<and>
     flistNext mem' l' = None"
proof -
  have "length (append_drops (example_list (- 100) 0) (example_frame 120) example_mem [(31, 11), (32, 12)] (33, 13)) = 1"
    using not_both [OF example_past]
    by (simp add: append_drops_def append_list_def wait_keep_def Let_def example_past example_times example_older)
  then show ?thesis
    using flistAppend_reader [OF example_flist [of "- 100" 0] example_rec example_times(4) _ example_fresh _ _
      example_cursor refl] by auto
qed

text \<open>
  When there is no memory for the node, \<open>flistAppend\<close> reports it and the caller still owns the
  frame. But a frame that waits for a positive start shift has already been freed, and the front
  pointer still refers to it: clearing the recording afterwards frees it a second time.
\<close>

theorem flistAppend_no_memory:
  assumes "flist mem l ps" "m_recording l \<noteq> 0" "c_frames mem frame = Some fr" "frame \<notin> snd ` set ps"
  shows "\<exists>mem' l'. flistAppend None mem l frame = Some (mem', l', - 2) \<and> c_frames mem' frame = Some fr \<and>
    (if waiting l (m_pts fr) \<and> length ps = 1 then flistClear mem' l' = None else flist mem' l' ps)"
proof -
  let ?l1 = "l\<lparr>m_t0 := start_time l (m_pts fr)\<rparr>"
  have t0: "(if sint (m_t0 l) < 0 then l\<lparr>m_t0 := ucast (m_pts fr)\<rparr> else l) = ?l1" by (simp add: start_time_def)
  define r where "r = (if waiting l (m_pts fr) \<and> length ps = 1 then (free_pairs ps mem, ?l1\<lparr>m_len := 0\<rparr>)
    else (mem, if sint (m_startShift l) > 0 \<and> m_recording l = - 1 \<and> \<not> waiting l (m_pts fr)
               then ?l1\<lparr>m_recording := 1\<rparr> else ?l1))"
  have "append_wait mem ?l1 fr = Some r"
    using append_wait_chain [OF flist_shape [OF assms(1)], of ?l1 l fr] by (simp add: r_def)
  then have app: "flistAppend None mem l frame = Some (fst r, snd r, - 2)"
    unfolding flistAppend_def assms(3) option.case t0 Let_def using assms(2) by (simp add: split_def)
  have fr: "c_frames (fst r) frame = Some fr" using assms(3,4) by (simp add: r_def free_pairs_other)
  show ?thesis
  proof (cases "waiting l (m_pts fr) \<and> length ps = 1")
    case True
    then obtain n f where ps: "ps = [(n, f)]" by (cases ps) auto
    then have "m_front l = Some n" using assms(1) by (simp add: flist_def)
    then have "free_nodes (fst r) (m_front (snd r)) = None"
      using True by (subst free_nodes.simps) (simp add: r_def ps free_pairs_def)
    then show ?thesis using True app fr by (simp add: flistClear_def)
  next
    case False
    then have "r = (mem, snd r)" "m_front (snd r) = m_front l" "m_back (snd r) = m_back l" "m_len (snd r) = m_len l"
      by (auto simp: r_def)
    then have "flist (fst r) (snd r) ps" using flist_shape [OF assms(1)] by (metis fst_conv)
    then show ?thesis using False app fr by auto
  qed
qed

theorem flistAppend_no_memory_witness:
  "\<exists>mem' l'. flistAppend None example_mem (example_list 5 0) 13 = Some (mem', l', - 2) \<and>
     flist mem' l' [(31, 11), (32, 12)]"
  using flistAppend_no_memory [OF example_flist [of 5 0] example_rec example_times(4)] by auto

end
