(* ===== verification/KCamera.thy ===== *)
theory KCamera
  imports FrameList
begin

text \<open>
  The camera of the Python module: \<open>kcamera.h\<close>, \<open>kcamera.c\<close> and the control functions of \<open>run.cpp\<close>.
  The global state holds the parameters, the slot for the frame of the live stream and the current
  recording. Its critical sections run under mutexes, so each is one step; a wait on the condition
  variable is a predicate that says when it ends. \<open>None\<close> is undefined behaviour of C: a null or freed
  pointer, a write behind an allocation, a division by zero, joining a thread twice.

  Arithmetic on \<open>float\<close> is left to a record of operations; what \<open>malloc\<close>, the clock and
  \<open>/proc/meminfo\<close> return are arguments.
\<close>

section \<open>Floating point\<close>

record 'f float_ops =
  fo_zero :: 'f
  fo_one :: 'f
  fo_neq :: "'f \<Rightarrow> 'f \<Rightarrow> bool"
  fo_unsigned :: "'f \<Rightarrow> u32"
  fo_reciprocal :: "u32 \<Rightarrow> 'f"
  fo_fps_filter :: "'f \<Rightarrow> u64 \<Rightarrow> 'f"
  fo_exposure :: "u32 \<Rightarrow> 'f"
  fo_brightness :: "u32 \<Rightarrow> 'f"
  fo_contrast :: "u32 \<Rightarrow> 'f"
  fo_twice :: "'f \<Rightarrow> 'f"
  fo_micros :: "'f \<Rightarrow> i64"
  fo_seconds :: "i64 \<Rightarrow> 'f"

section \<open>Parameters and state\<close>

record 'f KcParams =
  p_width :: u32
  p_height :: u32
  p_framerate :: u32
  p_duration :: 'f
  p_mode :: string
  p_brightness :: u32
  p_autoShutter :: u32
  p_awb :: u32
  p_awbRed :: 'f
  p_awbBlue :: 'f
  p_shutterSpeed :: 'f
  p_saturation :: u32
  p_maxLatency :: u32
  p_memReserve :: u32
  p_hflip :: u32
  p_vflip :: u32
  p_startShift :: i32
  p_fps :: 'f
  p_maxFps :: u32
  p_minFps :: u32

text \<open>The controls that the capture loop hands to the camera, by their identifiers.\<close>

datatype control = ExposureValue | Brightness | Contrast | ColourGains | FrameDurations | ExposureTime

datatype 'f control_value = CFloat 'f | CFloats 'f 'f | CInt i32 | CTimes i64 i64

text \<open>
  The state includes the memory of frames and lists; \<open>k_thread\<close> says whether \<open>m_thread\<close> is a thread that can
  be joined, \<open>k_loop\<close> is the \<open>run\<close> flag of the capture loop.
\<close>

record 'f KcState = cmem +
  k_lists :: "nat \<Rightarrow> FrameList option"
  k_params :: "'f KcParams"
  k_run :: bool
  k_stopping :: bool
  k_lastPts :: u64
  k_thread :: bool
  k_frame :: "nat option"
  k_currParams :: "'f KcParams"
  k_ptsOffset :: i64
  k_pts :: u64
  k_frameTimer :: u32
  k_record :: "nat option"
  k_loop :: bool
  k_controls :: "control \<Rightarrow> 'f control_value option"

definition KC_MAX_FRAME_TIMEOUT :: u32 where "KC_MAX_FRAME_TIMEOUT = 5000000"
definition KC_DEFAULT_MAX_LATENCY :: u32 where "KC_DEFAULT_MAX_LATENCY = 100000"

definition KC_MODE_320X240X10 :: string where "KC_MODE_320X240X10 = ''320x240x10''"
definition KC_MODE_640X480X10 :: string where "KC_MODE_640X480X10 = ''640x480x10''"
definition KC_MODE_1280X960X10 :: string where "KC_MODE_1280X960X10 = ''1280x960x10''"

definition kcGetModes :: "string list" where
  "kcGetModes = [KC_MODE_320X240X10, KC_MODE_640X480X10, KC_MODE_1280X960X10]"

abbreviation upd_params :: "('f, 'z) KcState_scheme \<Rightarrow> ('f KcParams \<Rightarrow> 'f KcParams) \<Rightarrow> ('f, 'z) KcState_scheme" where
  "upd_params w g \<equiv> w\<lparr>k_params := g (k_params w)\<rparr>"

definition set_control :: "('f, 'z) KcState_scheme \<Rightarrow> control \<Rightarrow> 'f control_value \<Rightarrow> ('f, 'z) KcState_scheme" where
  "set_control w c v = w\<lparr>k_controls := (k_controls w)(c \<mapsto> v)\<rparr>"

definition maxShutterSpeed :: "'f float_ops \<Rightarrow> u32 \<Rightarrow> 'f" where
  "maxShutterSpeed F fps = fo_reciprocal F fps"

definition kcSetMinMaxFramerate :: "('f, 'z) KcState_scheme \<Rightarrow> ('f, 'z) KcState_scheme" where
  "kcSetMinMaxFramerate w =
     (if p_mode (k_params w) = KC_MODE_320X240X10 \<or> p_mode (k_params w) = KC_MODE_640X480X10 \<or>
         p_mode (k_params w) = KC_MODE_1280X960X10
      then upd_params w (\<lambda>p. p\<lparr>p_maxFps := 90, p_minFps := 4\<rparr>) else w)"

definition kcSetMode :: "('f, 'z) KcState_scheme \<Rightarrow> ('f, 'z) KcState_scheme" where
  "kcSetMode w =
     (if p_mode (k_params w) = KC_MODE_320X240X10 then upd_params w (\<lambda>p. p\<lparr>p_width := 320, p_height := 240\<rparr>)
      else if p_mode (k_params w) = KC_MODE_640X480X10 then upd_params w (\<lambda>p. p\<lparr>p_width := 640, p_height := 480\<rparr>)
      else if p_mode (k_params w) = KC_MODE_1280X960X10 then upd_params w (\<lambda>p. p\<lparr>p_width := 1280, p_height := 960\<rparr>)
      else w)"

definition kcInit :: "'f float_ops \<Rightarrow> ('f, 'z) KcState_scheme \<Rightarrow> ('f, 'z) KcState_scheme" where
  "kcInit F w =
     (let w = upd_params w (\<lambda>p. p\<lparr>p_width := 640, p_height := 480, p_framerate := 30, p_duration := fo_zero F,
              p_mode := KC_MODE_640X480X10, p_brightness := 50, p_autoShutter := 1, p_awb := 1,
              p_awbRed := fo_one F, p_awbBlue := fo_one F, p_shutterSpeed := maxShutterSpeed F 30,
              p_saturation := 200, p_maxLatency := KC_DEFAULT_MAX_LATENCY, p_memReserve := 10,
              p_hflip := 0, p_vflip := 0, p_startShift := 0, p_fps := fo_zero F\<rparr>);
          w = kcSetMinMaxFramerate w
      in w\<lparr>k_record := None, k_currParams := k_params w\<rparr>)"

section \<open>Memory and sizes\<close>

text \<open>The lines of \<open>/proc/meminfo\<close> that matter, with the numbers they hold.\<close>

datatype meminfo_line = MemTotal u32 | MemAvailable u32 | MemOther

text \<open>The local variable \<open>mtotal\<close> is \<open>None\<close> until it is set.\<close>

fun memfree_lines :: "u32 option \<Rightarrow> meminfo_line list \<Rightarrow> i32 option" where
  "memfree_lines mtotal [] = Some (- 1)"
| "memfree_lines mtotal (MemTotal n # lines) = memfree_lines (Some n) lines"
| "memfree_lines mtotal (MemAvailable n # lines) =
     (case mtotal of None \<Rightarrow> None | Some t \<Rightarrow> if t = 0 then None else Some (n * 100 div t))"
| "memfree_lines mtotal (MemOther # lines) = memfree_lines mtotal lines"

definition memfree :: "meminfo_line list \<Rightarrow> i32 option" where
  "memfree lines = memfree_lines None lines"

text \<open>The comparison is unsigned.\<close>

definition kcMemReserveExceeded :: "i32 \<Rightarrow> ('f, 'z) KcState_scheme \<Rightarrow> bool" where
  "kcMemReserveExceeded mfree w \<longleftrightarrow> mfree < p_memReserve (k_currParams w)"

text \<open>\<open>sizeof(KcFrame)\<close> is 24 and \<open>m_data\<close> begins at offset 20.\<close>

definition kcSizeofFrameBuffer :: "u32 \<Rightarrow> u32 \<Rightarrow> FrameType \<Rightarrow> u32" where
  "kcSizeofFrameBuffer width height type = (let area = width * height in area * 3 + 24 + 32)"

definition kcSizeofFrame :: "KcFrame \<Rightarrow> u32" where
  "kcSizeofFrame fr = kcSizeofFrameBuffer (ucast (m_width fr)) (ucast (m_height fr)) (m_type fr)"

section \<open>Time\<close>

definition kcGetTimer :: "u32 \<Rightarrow> u32 \<Rightarrow> u32" where
  "kcGetTimer now timer = now - timer"

section \<open>Controls of the capture loop\<close>

definition kcSetBrightness :: "'f float_ops \<Rightarrow> ('f, 'z) KcState_scheme \<Rightarrow> ('f, 'z) KcState_scheme" where
  "kcSetBrightness F w =
     (let b = p_brightness (k_params w);
          w = set_control w ExposureValue (CFloat (fo_exposure F b))
      in if b \<le> 75
         then set_control (set_control w Brightness (CFloat (fo_zero F))) Contrast (CFloat (fo_one F))
         else set_control (set_control w Brightness (CFloat (fo_brightness F b)))
                Contrast (CFloat (fo_contrast F b)))"

definition kcSetAWBGains :: "'f float_ops \<Rightarrow> ('f, 'z) KcState_scheme \<Rightarrow> ('f, 'z) KcState_scheme" where
  "kcSetAWBGains F w =
     set_control w ColourGains (CFloats (fo_twice F (p_awbRed (k_params w))) (fo_twice F (p_awbBlue (k_params w))))"

definition kcSetAWB :: "'f float_ops \<Rightarrow> ('f, 'z) KcState_scheme \<Rightarrow> ('f, 'z) KcState_scheme" where
  "kcSetAWB F w =
     (if p_awb (k_params w) \<noteq> 0 then set_control w ColourGains (CFloats (fo_zero F) (fo_zero F))
      else set_control w ColourGains
             (CFloats (fo_twice F (p_awbRed (k_params w))) (fo_twice F (p_awbBlue (k_params w)))))"

definition kcSetFramerate :: "'f float_ops \<Rightarrow> ('f, 'z) KcState_scheme \<Rightarrow> ('f, 'z) KcState_scheme option" where
  "kcSetFramerate F w =
     (let shutterSpeed = fo_micros F (p_shutterSpeed (k_params w)) in
      if p_framerate (k_params w) = 0 then None
      else
        let frame_time = (ucast (1000000 div p_framerate (k_params w)) :: i64);
            w = set_control w FrameDurations (CTimes frame_time frame_time)
        in if sint shutterSpeed > sint frame_time
           then Some (set_control (upd_params w (\<lambda>p. p\<lparr>p_shutterSpeed := fo_seconds F frame_time\<rparr>))
                        ExposureTime (CInt (ucast frame_time)))
           else Some w)"

definition kcSetShutterSpeed :: "'f float_ops \<Rightarrow> ('f, 'z) KcState_scheme \<Rightarrow> ('f, 'z) KcState_scheme" where
  "kcSetShutterSpeed F w = set_control w ExposureTime (CInt (ucast (fo_micros F (p_shutterSpeed (k_params w)))))"

definition kcSetAutoShutter :: "'f float_ops \<Rightarrow> ('f, 'z) KcState_scheme \<Rightarrow> ('f, 'z) KcState_scheme" where
  "kcSetAutoShutter F w =
     (if p_autoShutter (k_params w) \<noteq> 0 then set_control w ExposureTime (CInt 0)
      else set_control w ExposureTime (CInt (ucast (fo_micros F (p_shutterSpeed (k_params w))))))"

definition kcStartCameraLoop :: "('f, 'z) KcState_scheme \<Rightarrow> ('f, 'z) KcState_scheme" where
  "kcStartCameraLoop w = w\<lparr>k_loop := True\<rparr>"

definition kcStopCameraLoop :: "('f, 'z) KcState_scheme \<Rightarrow> ('f, 'z) KcState_scheme" where
  "kcStopCameraLoop w = w\<lparr>k_loop := False\<rparr>"

section \<open>Starting and stopping\<close>

text \<open>
  \<open>kcStart\<close> spins until the capture loop has stopped: it can go on when \<open>k_stopping\<close> is false.
\<close>

definition kcStart_ready :: "('f, 'z) KcState_scheme \<Rightarrow> bool" where
  "kcStart_ready w \<longleftrightarrow> \<not> k_stopping w"

definition kcStart :: "('f, 'z) KcState_scheme \<Rightarrow> ('f, 'z) KcState_scheme" where
  "kcStart w =
     (let w = w\<lparr>k_frame := None, k_run := True, k_ptsOffset := - 1, k_pts := 0, k_lastPts := 0,
                k_frameTimer := 0, k_stopping := False\<rparr>;
          w = kcSetMinMaxFramerate w;
          p = k_params w;
          w = (if p_framerate p > p_maxFps p then upd_params w (\<lambda>p. p\<lparr>p_framerate := p_maxFps p\<rparr>)
               else if p_framerate p < p_minFps p then upd_params w (\<lambda>p. p\<lparr>p_framerate := p_minFps p\<rparr>)
               else w);
          w = w\<lparr>k_currParams := k_params w\<rparr>
      in kcStartCameraLoop (w\<lparr>k_thread := True\<rparr>))"

text \<open>
  Joining waits for the capture loop, which makes no further step here; a thread can be joined once.
\<close>

definition kcStopInternal ::
    "'f float_ops \<Rightarrow> bool \<Rightarrow> bool \<Rightarrow> ('f, 'z) KcState_scheme \<Rightarrow> ('f, 'z) KcState_scheme option" where
  "kcStopInternal F join signal w =
     (if k_stopping w then Some w
      else
        let w = kcStopCameraLoop w;
            w = w\<lparr>k_run := False\<rparr>
        in case (if signal then
                   (case k_frame w of
                      None \<Rightarrow> Some (w\<lparr>k_record := None\<rparr>)
                    | Some f \<Rightarrow>
                        (case free_frame w f of
                           None \<Rightarrow> None
                         | Some w \<Rightarrow> Some (w\<lparr>k_frame := None, k_record := None\<rparr>)))
                 else Some w) of
             None \<Rightarrow> None
           | Some w \<Rightarrow>
               if join \<and> \<not> k_thread w then None
               else
                 let w = (if join then w\<lparr>k_thread := False\<rparr> else w\<lparr>k_stopping := True\<rparr>)
                 in Some (upd_params w (\<lambda>p. p\<lparr>p_fps := fo_zero F\<rparr>)))"

definition kcStop :: "'f float_ops \<Rightarrow> ('f, 'z) KcState_scheme \<Rightarrow> ('f, 'z) KcState_scheme option" where
  "kcStop F w = kcStopInternal F True True w"

definition kcExit :: "'f float_ops \<Rightarrow> ('f, 'z) KcState_scheme \<Rightarrow> ('f, 'z) KcState_scheme option" where
  "kcExit F w = kcStop F w"

definition kcStopped :: "('f, 'z) KcState_scheme \<Rightarrow> ('f, 'z) KcState_scheme" where
  "kcStopped w = w\<lparr>k_stopping := False\<rparr>"

text \<open>What the capture loop sets before it opens the camera.\<close>

definition event_loop_setup :: "'f float_ops \<Rightarrow> ('f, 'z) KcState_scheme \<Rightarrow> ('f, 'z) KcState_scheme option" where
  "event_loop_setup F w =
     (case kcSetFramerate F (kcSetAWB F (kcSetBrightness F w)) of
        None \<Rightarrow> None
      | Some w \<Rightarrow> Some (kcSetAutoShutter F w))"

section \<open>Frames for the live stream\<close>

text \<open>
  \<open>kcNextStreamFrame\<close> starts the camera when it does not run, sets the timer, waits until there is a
  frame or the camera is stopped, and takes the frame.
\<close>

definition kcNextStreamFrame_enter :: "u32 \<Rightarrow> ('f, 'z) KcState_scheme \<Rightarrow> ('f, 'z) KcState_scheme" where
  "kcNextStreamFrame_enter now w = (let w = (if \<not> k_run w then kcStart w else w) in w\<lparr>k_frameTimer := now\<rparr>)"

definition kcNextStreamFrame_ready :: "('f, 'z) KcState_scheme \<Rightarrow> bool" where
  "kcNextStreamFrame_ready w \<longleftrightarrow> \<not> (k_frame w = None \<and> k_run w)"

definition kcNextStreamFrame_take ::
    "('f, 'z) KcState_scheme \<Rightarrow> ('f, 'z) KcState_scheme \<times> nat option" where
  "kcNextStreamFrame_take w = (w\<lparr>k_frame := None\<rparr>, k_frame w)"

section \<open>Recording\<close>

text \<open>\<open>m\<close> is the address of the new list.\<close>

definition kcStartRecord :: "'f float_ops \<Rightarrow> nat \<Rightarrow> ('f, 'z) KcState_scheme \<Rightarrow> ('f, 'z) KcState_scheme \<times> i32" where
  "kcStartRecord F m w =
     (if k_record w \<noteq> None then (w, - 1)
      else (w\<lparr>k_record := Some m,
              k_lists := (k_lists w)(m \<mapsto>
                flistInit (p_startShift (k_params w)) (fo_unsigned F (p_duration (k_params w))))\<rparr>, 0))"

definition kcGetRecord :: "('f, 'z) KcState_scheme \<Rightarrow> nat option" where
  "kcGetRecord w = k_record w"

definition kcStopRecord :: "('f, 'z) KcState_scheme \<Rightarrow> ('f, 'z) KcState_scheme option" where
  "kcStopRecord w =
     (case k_record w of
        None \<Rightarrow> Some w
      | Some m \<Rightarrow>
          (case k_lists w m of
             None \<Rightarrow> None
           | Some l \<Rightarrow> Some (w\<lparr>k_lists := (k_lists w)(m \<mapsto> l\<lparr>m_recording := 0\<rparr>), k_record := None\<rparr>)))"

text \<open>When the waits for recorded frames end; the conditions read the list again each time.\<close>

definition kcWaitNextRecordFrame_ready :: "nat \<Rightarrow> ('f, 'z) KcState_scheme \<Rightarrow> bool option" where
  "kcWaitNextRecordFrame_ready m w =
     (case k_lists w m of
        None \<Rightarrow> None
      | Some l \<Rightarrow>
          (case flistEnd w l of
             None \<Rightarrow> None
           | Some e \<Rightarrow> Some (\<not> (e \<and> k_run w \<and> Some m = k_record w))))"

definition kcWaitLastRecordFrame_enter :: "('f, 'z) KcState_scheme \<Rightarrow> bool" where
  "kcWaitLastRecordFrame_enter w \<longleftrightarrow> k_record w \<noteq> None"

definition kcWaitLastRecordFrame_ready :: "('f, 'z) KcState_scheme \<Rightarrow> bool option" where
  "kcWaitLastRecordFrame_ready w =
     (case k_record w of
        None \<Rightarrow> None
      | Some m \<Rightarrow>
          (case k_lists w m of None \<Rightarrow> None | Some l \<Rightarrow> Some (\<not> (m_back l = None \<and> k_run w))))"

text \<open>
  The percentages are unsigned, so the test \<open>p0 < 0\<close> is never true.
\<close>

definition kcRecordProgress :: "i32 \<Rightarrow> ('f, 'z) KcState_scheme \<Rightarrow> u32 option" where
  "kcRecordProgress mfree w =
     (case k_record w of
        None \<Rightarrow> Some 100
      | Some m \<Rightarrow>
          if \<not> k_run w then Some 100
          else
            let reserve = p_memReserve (k_currParams w) in
            if reserve = 0 then None
            else
              let p0 = 100 - (mfree - reserve) * 100 div reserve;
                  p0 = (if p0 < 0 then 0 else p0);
                  p0 = (if p0 > 100 then 100 else p0)
              in case k_lists w m of
                   None \<Rightarrow> None
                 | Some l \<Rightarrow>
                     (case (if m_duration l = 0 then Some 0
                            else (case flistTime w l of
                                    None \<Rightarrow> None
                                  | Some t \<Rightarrow> let p1 = t * 100 div m_duration l in
                                      Some (if p1 > 100 then 100 else p1))) of
                        None \<Rightarrow> None
                      | Some p1 \<Rightarrow> Some (if p0 > p1 then p0 else p1)))"

section \<open>Frames from the camera\<close>

text \<open>
  \<open>alloc\<close> is what \<open>malloc\<close> returns for the frame, with the bytes it happens to hold, and \<open>node\<close> what it
  returns for the list node.
\<close>

definition new_frame :: "u8 list \<Rightarrow> u16 \<Rightarrow> u16 \<Rightarrow> FrameType \<Rightarrow> u64 \<Rightarrow> u8 list \<Rightarrow> KcFrame" where
  "new_frame junk width height type pts data =
     \<lparr>m_width = width, m_height = height, m_pad = take 4 (drop 4 junk), m_pts = pts, m_type = type,
      m_data = data @ drop (20 + length data) junk\<rparr>"

definition fps_update :: "'f float_ops \<Rightarrow> u64 \<Rightarrow> ('f, 'z) KcState_scheme \<Rightarrow> ('f, 'z) KcState_scheme" where
  "fps_update F pts w =
     (if pts > k_lastPts w \<and> pts \<noteq> k_lastPts w
      then upd_params w (\<lambda>p. p\<lparr>p_fps := fo_fps_filter F (p_fps p) (pts - k_lastPts w)\<rparr>) else w)"

definition expire_frame :: "u64 \<Rightarrow> ('f, 'z) KcState_scheme \<Rightarrow> ('f, 'z) KcState_scheme option" where
  "expire_frame pts w =
     (case k_frame w of
        None \<Rightarrow> Some w
      | Some f \<Rightarrow>
          if k_record w \<noteq> None then Some w
          else
            (case c_frames w f of
               None \<Rightarrow> None
             | Some fr \<Rightarrow>
                 if pts - m_pts fr > ucast (p_maxLatency (k_params w))
                 then (case free_frame w f of None \<Rightarrow> None | Some w \<Rightarrow> Some (w\<lparr>k_frame := None\<rparr>))
                 else Some w))"

text \<open>The copy of the frame goes to the recording, or to the slot of the stream.\<close>

definition store_frame ::
    "nat option \<Rightarrow> nat \<Rightarrow> ('f, 'z) KcState_scheme \<Rightarrow> (('f, 'z) KcState_scheme \<times> bool) option" where
  "store_frame node f w =
     (case k_record w of
        None \<Rightarrow> Some (w\<lparr>k_frame := Some f\<rparr>, False)
      | Some m \<Rightarrow>
          (case k_lists w m of
             None \<Rightarrow> None
           | Some l \<Rightarrow>
               (case flistAppend node w l f of
                  None \<Rightarrow> None
                | Some (w, l, res) \<Rightarrow> Some (w\<lparr>k_lists := (k_lists w)(m \<mapsto> l)\<rparr>, sint res < 0))))"

datatype frame_result = OutOfMemory | Stored bool

definition add_frame ::
    "(nat \<times> u8 list) option \<Rightarrow> nat option \<Rightarrow> u16 \<Rightarrow> u16 \<Rightarrow> FrameType \<Rightarrow> u64 \<Rightarrow> u8 list
      \<Rightarrow> ('f, 'z) KcState_scheme \<Rightarrow> (('f, 'z) KcState_scheme \<times> frame_result) option" where
  "add_frame alloc node width height type pts data w =
     (if (k_frame w = None \<or> k_record w \<noteq> None) \<and> k_run w then
        (case alloc of
           None \<Rightarrow> Some (w, OutOfMemory)
         | Some (f, junk) \<Rightarrow>
             if 20 + length data > unat (kcSizeofFrameBuffer (ucast width) (ucast height) type) then None
             else
               (case store_frame node f
                       (w\<lparr>c_frames := (c_frames w)(f \<mapsto> new_frame junk width height type pts data)\<rparr>) of
                  None \<Rightarrow> None
                | Some (w, stopRecord) \<Rightarrow> Some (w, Stored stopRecord)))
      else Some (w, Stored False))"

text \<open>After the critical section: \<open>kcStopRecord\<close>, then a stop that does not wait for the thread.\<close>

definition kcFrameData_end ::
    "'f float_ops \<Rightarrow> bool \<Rightarrow> bool \<Rightarrow> ('f, 'z) KcState_scheme \<Rightarrow> ('f, 'z) KcState_scheme option" where
  "kcFrameData_end F stop stopRecord w =
     (case (if stopRecord then kcStopRecord w else Some w) of
        None \<Rightarrow> None
      | Some w \<Rightarrow> if stop then kcStopInternal F False True w else Some w)"

definition kcFrameData ::
    "'f float_ops \<Rightarrow> u32 \<Rightarrow> i32 \<Rightarrow> (nat \<times> u8 list) option \<Rightarrow> nat option \<Rightarrow> u16 \<Rightarrow> u16 \<Rightarrow> FrameType \<Rightarrow> u64
      \<Rightarrow> u8 list \<Rightarrow> ('f, 'z) KcState_scheme \<Rightarrow> ('f, 'z) KcState_scheme option" where
  "kcFrameData F now mfree alloc node width height type pts data w =
     (if k_record w = None \<and> k_frameTimer w \<noteq> 0 \<and> kcGetTimer now (k_frameTimer w) > KC_MAX_FRAME_TIMEOUT
      then kcFrameData_end F True False w
      else
        let w = (if sint (k_ptsOffset w) < 0 then w\<lparr>k_ptsOffset := pts\<rparr> else w);
            pts = pts - k_ptsOffset w;
            w = w\<lparr>k_pts := pts\<rparr>;
            w = fps_update F pts w
        in case expire_frame pts w of
             None \<Rightarrow> None
           | Some w \<Rightarrow>
               (case add_frame alloc node width height type pts data w of
                  None \<Rightarrow> None
                | Some (w, OutOfMemory) \<Rightarrow> kcFrameData_end F True True w
                | Some (w, Stored stopRecord) \<Rightarrow>
                    let w = w\<lparr>k_lastPts := pts\<rparr>
                    in kcFrameData_end F False (stopRecord \<or> k_record w \<noteq> None \<and> kcMemReserveExceeded mfree w) w))"

text \<open>
  The copy reads as many bytes as the dimensions of the frame ask for, which may be more than the
  frame has.
\<close>

definition kcCopyFrame ::
    "(nat \<times> u8 list) option \<Rightarrow> nat \<Rightarrow> ('f, 'z) KcState_scheme \<Rightarrow> ('f, 'z) KcState_scheme option" where
  "kcCopyFrame alloc frame w =
     (case c_frames w frame of
        None \<Rightarrow> None
      | Some fr \<Rightarrow>
          let len = unat (kcSizeofFrame fr) in
          (case alloc of
             None \<Rightarrow> None
           | Some (f, junk) \<Rightarrow>
               if len < 20 \<or> len > 20 + length (m_data fr) then None
               else Some (w\<lparr>c_frames := (c_frames w)(f \<mapsto> fr\<lparr>m_data := take (len - 20) (m_data fr)\<rparr>)\<rparr>)))"

section \<open>Changing parameters\<close>

definition apply_params :: "'f float_ops \<Rightarrow> ('f, 'z) KcState_scheme \<Rightarrow> (('f, 'z) KcState_scheme \<times> bool) option" where
  "apply_params F w =
     (let cur = k_currParams w;
          restart = (p_width (k_params w) \<noteq> p_width cur \<or> p_height (k_params w) \<noteq> p_height cur)
      in case (if p_framerate (k_params w) \<noteq> p_framerate cur then kcSetFramerate F w else Some w) of
           None \<Rightarrow> None
         | Some w \<Rightarrow>
             let (w, restart) = (if p_mode (k_params w) \<noteq> p_mode cur then (kcSetMode w, True) else (w, restart));
                 w = (if p_brightness (k_params w) \<noteq> p_brightness cur then kcSetBrightness F w else w);
                 w = (if p_autoShutter (k_params w) \<noteq> p_autoShutter cur then kcSetAutoShutter F w else w);
                 w = (if p_awb (k_params w) \<noteq> p_awb cur then kcSetAWB F w else w);
                 w = (if fo_neq F (p_awbRed (k_params w)) (p_awbRed cur) \<or>
                         fo_neq F (p_awbBlue (k_params w)) (p_awbBlue cur) then kcSetAWBGains F w else w);
                 w = (if fo_neq F (p_shutterSpeed (k_params w)) (p_shutterSpeed cur)
                      then kcSetShutterSpeed F w else w)
             in Some (w, restart))"

text \<open>
  The restart joins the thread, then starts again; both ends of it are in the model one step.
\<close>

definition kcUpdateParams :: "'f float_ops \<Rightarrow> ('f, 'z) KcState_scheme \<Rightarrow> ('f, 'z) KcState_scheme option" where
  "kcUpdateParams F w =
     (case apply_params F w of
        None \<Rightarrow> None
      | Some (w, restart) \<Rightarrow>
          if restart \<and> k_run w then
            (case kcStopInternal F True False w of
               None \<Rightarrow> None
             | Some w \<Rightarrow>
                 Some (kcStart (upd_params w (\<lambda>p. p\<lparr>p_shutterSpeed := maxShutterSpeed F (p_framerate p)\<rparr>))))
          else Some (w\<lparr>k_currParams := k_params w\<rparr>))"

section \<open>Ownership of memory\<close>

text \<open>
  \<open>kc_inv w R P\<close>: every recording \<open>m\<close> is a list with the nodes and frames \<open>R m\<close>, no two recordings share
  memory, and each frame in memory has exactly one owner: a recording, the slot of the stream, or the
  outside \<open>P\<close> (frames handed to Python, and lost ones).
\<close>

definition lists_ok :: "('f, 'z) KcState_scheme \<Rightarrow> (nat \<Rightarrow> (nat \<times> nat) list) \<Rightarrow> bool" where
  "lists_ok w R \<longleftrightarrow>
     (\<forall>m l. k_lists w m = Some l \<longrightarrow> flist w l (R m)) \<and> (\<forall>m. k_lists w m = None \<longrightarrow> R m = []) \<and>
     (\<forall>m m'. m \<noteq> m' \<longrightarrow> fst ` set (R m) \<inter> fst ` set (R m') = {} \<and> snd ` set (R m) \<inter> snd ` set (R m') = {})"

definition listed :: "(nat \<Rightarrow> (nat \<times> nat) list) \<Rightarrow> nat set" where
  "listed R = (\<Union>m. snd ` set (R m))"

definition kc_inv :: "('f, 'z) KcState_scheme \<Rightarrow> (nat \<Rightarrow> (nat \<times> nat) list) \<Rightarrow> nat set \<Rightarrow> bool" where
  "kc_inv w R P \<longleftrightarrow>
     lists_ok w R \<and> (\<forall>m. k_record w = Some m \<longrightarrow> k_lists w m \<noteq> None) \<and>
     dom (c_frames w) = P \<union> set_option (k_frame w) \<union> listed R \<and>
     P \<inter> set_option (k_frame w) = {} \<and> P \<inter> listed R = {} \<and> set_option (k_frame w) \<inter> listed R = {}"

lemma flist_cong:
  assumes "flist mem l ps"
    and "\<And>n. n \<in> fst ` set ps \<Longrightarrow> c_nodes mem' n = c_nodes mem n"
    and "\<And>f. f \<in> snd ` set ps \<Longrightarrow> c_frames mem' f = c_frames mem f"
  shows "flist mem' l ps"
proof -
  have "node_chain mem' p ps q = node_chain mem p ps q" for p q
    by (rule node_chain_cong) (use assms(2,3) in \<open>force simp: image_iff\<close>)
  then show ?thesis using assms(1) by (simp add: flist_def)
qed

lemma flist_in_memory: "flist mem l ps \<Longrightarrow> f \<in> snd ` set ps \<Longrightarrow> c_frames mem f \<noteq> None"
  by (auto simp: flist_def dest: node_chain_frame)

lemma flist_mem:
  "c_nodes w' = c_nodes w \<Longrightarrow> c_frames w' = c_frames w \<Longrightarrow> flist w' l ps = flist w l ps"
  using flist_cong [of w l ps w'] flist_cong [of w' l ps w] by auto

lemma flist_k [simp]:
  "flist (w\<lparr>k_lists := ls\<rparr>) l ps = flist w l ps" "flist (w\<lparr>k_frame := fo\<rparr>) l ps = flist w l ps"
  "flist (w\<lparr>k_record := r\<rparr>) l ps = flist w l ps"
  by (rule flist_mem; simp)+

lemma kc_inv_cong:
  assumes "kc_inv w R P" "c_nodes w' = c_nodes w" "c_frames w' = c_frames w" "k_lists w' = k_lists w"
    "k_frame w' = k_frame w" "k_record w' = k_record w"
  shows "kc_inv w' R P"
  using assms(1) flist_mem [OF assms(2,3)] unfolding kc_inv_def lists_ok_def assms(3-) by simp

lemma kc_inv_no_record: "kc_inv w R P \<Longrightarrow> kc_inv (w\<lparr>k_record := None\<rparr>) R P"
  by (simp add: kc_inv_def lists_ok_def)

lemma kc_inv_list:
  assumes "kc_inv w R P" "k_lists w m = Some l" "m_front l' = m_front l" "m_back l' = m_back l" "m_len l' = m_len l"
  shows "kc_inv (w\<lparr>k_lists := (k_lists w)(m \<mapsto> l')\<rparr>) R P"
proof -
  have "flist w l (R m)" using assms(1,2) by (simp add: kc_inv_def lists_ok_def)
  then have "flist w l' (R m)" using flist_shape assms(3-5) by blast
  then show ?thesis using assms(1,2) by (auto simp: kc_inv_def lists_ok_def)
qed

lemma kc_inv_free_slot:
  assumes "kc_inv w R P" "k_frame w = Some f"
  shows "\<exists>w'. free_frame w f = Some w' \<and> w' = w\<lparr>c_frames := (c_frames w)(f := None)\<rparr> \<and>
    kc_inv (w'\<lparr>k_frame := None\<rparr>) R P"
proof -
  have f: "f \<in> dom (c_frames w)" "f \<notin> P" "f \<notin> listed R" using assms by (auto simp: kc_inv_def)
  let ?w = "w\<lparr>c_frames := (c_frames w)(f := None)\<rparr>"
  have "flist (?w\<lparr>k_frame := None\<rparr>) l (R m)" if "k_lists w m = Some l" for m l
  proof -
    have "flist ?w l (R m)"
      by (rule flist_cong [of w]) (use assms(1) that f(3) in \<open>auto simp: kc_inv_def lists_ok_def listed_def\<close>)
    then show ?thesis by simp
  qed
  then have "kc_inv (?w\<lparr>k_frame := None\<rparr>) R P"
    using assms f(2,3) by (auto simp: kc_inv_def lists_ok_def)
  moreover have "free_frame w f = Some ?w" using f(1) by (auto simp: free_frame_def)
  ultimately show ?thesis by blast
qed

lemma kc_inv_stopRecord:
  assumes "kc_inv w R P"
  shows "\<exists>w'. kcStopRecord w = Some w' \<and> kc_inv w' R P \<and> k_record w' = None \<and> k_frame w' = k_frame w \<and>
    k_run w' = k_run w \<and> k_thread w' = k_thread w \<and> k_stopping w' = k_stopping w \<and> c_frames w' = c_frames w"
proof (cases "k_record w")
  case None
  then show ?thesis using assms by (simp add: kcStopRecord_def)
next
  case (Some m)
  then obtain l where l: "k_lists w m = Some l" using assms by (auto simp: kc_inv_def)
  let ?w = "w\<lparr>k_lists := (k_lists w)(m \<mapsto> l\<lparr>m_recording := 0\<rparr>)\<rparr>"
  have "kc_inv ?w R P" by (rule kc_inv_list [OF assms l]) simp_all
  from kc_inv_no_record [OF this] show ?thesis using Some l by (simp add: kcStopRecord_def)
qed

lemma kc_more:
  "cmem.more w' = cmem.more w \<Longrightarrow>
   k_lists w' = k_lists w \<and> k_params w' = k_params w \<and> k_run w' = k_run w \<and> k_stopping w' = k_stopping w \<and>
   k_thread w' = k_thread w \<and> k_frame w' = k_frame w \<and> k_record w' = k_record w \<and>
   k_currParams w' = k_currParams w \<and> k_pts w' = k_pts w \<and> k_lastPts w' = k_lastPts w \<and>
   k_ptsOffset w' = k_ptsOffset w \<and> k_frameTimer w' = k_frameTimer w"
  by (cases w; cases w') simp

text \<open>The steps between critical sections keep what the stream and the thread look at.\<close>

definition same_run :: "('f, 'z) KcState_scheme \<Rightarrow> ('f, 'z) KcState_scheme \<Rightarrow> bool" where
  "same_run w w' \<longleftrightarrow> k_run w' = k_run w \<and> k_stopping w' = k_stopping w \<and> k_thread w' = k_thread w \<and>
     k_record w' = k_record w \<and> k_currParams w' = k_currParams w \<and> k_params w' = k_params w"

lemma disjoint_fun_upd:
  assumes "\<forall>m m'. m \<noteq> m' \<longrightarrow> g (R m) \<inter> g (R m') = {}" "\<And>m'. m' \<noteq> m \<Longrightarrow> g xs \<inter> g (R m') = {}" "x \<noteq> y"
  shows "g ((R(m := xs)) x) \<inter> g ((R(m := xs)) y) = {}"
  using assms by (cases "x = m"; cases "y = m") auto

lemma listed_upd: "listed (R(m := ps)) = snd ` set ps \<union> (\<Union>m' \<in> - {m}. snd ` set (R m'))"
proof -
  have "(\<Union>m'. g m') = g m \<union> (\<Union>m' \<in> - {m}. g m')" for g :: "nat \<Rightarrow> nat set" by auto
  from this [of "\<lambda>m'. snd ` set ((R(m := ps)) m')"] show ?thesis by (simp add: listed_def)
qed

text \<open>A list whose frames and nodes change within its own memory and fresh addresses.\<close>

lemma lists_ok_append:
  assumes "lists_ok w R" "k_lists w m = Some l"
    and "flist w' l' ps'" "k_lists w' = (k_lists w)(m \<mapsto> l')"
    and "fst ` set ps' \<subseteq> insert n (fst ` set (R m))" "snd ` set ps' \<subseteq> insert f (snd ` set (R m))"
    and "c_nodes w n = None" "f \<notin> listed R"
    and "\<And>x. x \<notin> fst ` set (R m) \<Longrightarrow> x \<noteq> n \<Longrightarrow> c_nodes w' x = c_nodes w x"
    and "\<And>x. x \<notin> snd ` set (R m) \<Longrightarrow> x \<noteq> f \<Longrightarrow> c_frames w' x = c_frames w x"
  shows "lists_ok w' (R(m := ps'))"
proof -
  have n: "n \<notin> fst ` set (R m')" if m': "k_lists w m' = Some l'" for m' l'
  proof
    assume "n \<in> fst ` set (R m')"
    moreover have "flist w l' (R m')" using assms(1) m' by (simp add: lists_ok_def)
    ultimately show False using flist_node assms(7) by (metis imageE)
  qed
  have dis: "fst ` set (R m) \<inter> fst ` set (R m') = {}" "snd ` set (R m) \<inter> snd ` set (R m') = {}" if "m' \<noteq> m" for m'
    using assms(1) that by (auto simp: lists_ok_def)
  have nR: "n \<notin> fst ` set (R m')" for m'
    using n assms(1) by (cases "k_lists w m'") (auto simp: lists_ok_def)
  have fR: "f \<notin> snd ` set (R m')" for m' using assms(8) by (auto simp: listed_def)
  have other: "flist w' l2 (R m')" if "k_lists w m' = Some l2" "m' \<noteq> m" for m' l2
  proof (rule flist_cong [of w])
    show "flist w l2 (R m')" using assms(1) that by (simp add: lists_ok_def)
    show "c_nodes w' x = c_nodes w x" if "x \<in> fst ` set (R m')" for x
      using assms(9) dis(1) [OF \<open>m' \<noteq> m\<close>] nR that by (metis disjoint_iff)
    show "c_frames w' x = c_frames w x" if "x \<in> snd ` set (R m')" for x
      using assms(10) dis(2) [OF \<open>m' \<noteq> m\<close>] fR that by (metis disjoint_iff)
  qed
  have d1: "fst ` set ps' \<inter> fst ` set (R m') = {}" if "m' \<noteq> m" for m'
    using assms(5) nR dis(1) [OF that] by fast
  have d2: "snd ` set ps' \<inter> snd ` set (R m') = {}" if "m' \<noteq> m" for m'
    using assms(6) fR dis(2) [OF that] by fast
  show ?thesis unfolding lists_ok_def
  proof (intro conjI allI impI)
    show "flist w' l2 ((R(m := ps')) m')" if "k_lists w' m' = Some l2" for m' l2
      using that other assms(3,4) by (cases "m' = m") auto
    show "(R(m := ps')) m' = []" if "k_lists w' m' = None" for m'
      using that assms(1,4) by (cases "m' = m") (auto simp: lists_ok_def)
    show "fst ` set ((R(m := ps')) x) \<inter> fst ` set ((R(m := ps')) y) = {}" if "x \<noteq> y" for x y
      using disjoint_fun_upd [of "\<lambda>xs. fst ` set xs" R m ps', OF _ d1 that] assms(1) by (auto simp: lists_ok_def)
    show "snd ` set ((R(m := ps')) x) \<inter> snd ` set ((R(m := ps')) y) = {}" if "x \<noteq> y" for x y
      using disjoint_fun_upd [of "\<lambda>xs. snd ` set xs" R m ps', OF _ d2 that] assms(1) by (auto simp: lists_ok_def)
  qed
qed

lemma set_swap:
  "L = (D \<union> K) \<union> X \<Longrightarrow> L' = insert f K \<union> X \<Longrightarrow> D \<inter> insert f K = {} \<Longrightarrow> X \<inter> D = {} \<Longrightarrow> L' = (L - D) \<union> {f}"
  by blast

lemma kc_inv_swap:
  assumes "kc_inv w R P" "lists_ok w' R'" "k_record w' = k_record w" "k_frame w' = k_frame w"
    and "\<And>m. k_lists w m \<noteq> None \<Longrightarrow> k_lists w' m \<noteq> None"
    and D: "dom (c_frames w') = (dom (c_frames w) - D) \<union> {f}" "listed R' = (listed R - D) \<union> {f}"
    and "D \<subseteq> listed R" "f \<notin> dom (c_frames w)"
  shows "kc_inv w' R' P"
proof -
  note i = assms(1) [unfolded kc_inv_def]
  have d: "dom (c_frames w) = P \<union> set_option (k_frame w) \<union> listed R" "P \<inter> set_option (k_frame w) = {}"
    "P \<inter> listed R = {}" "set_option (k_frame w) \<inter> listed R = {}" using i by blast+
  have "dom (c_frames w') = P \<union> set_option (k_frame w) \<union> listed R'" "P \<inter> listed R' = {}"
    "set_option (k_frame w) \<inter> listed R' = {}"
    using d assms(8,9) unfolding D by blast+
  then show ?thesis using assms(2-5) i unfolding kc_inv_def by simp
qed

lemma store_recorded:
  assumes inv: "kc_inv w R P" and fresh: "c_frames w f = None" "c_nodes w n = None"
    and rec: "k_record w = Some m" and len: "length (R m) + 1 < 2 ^ 32"
    and w1: "w1 = w\<lparr>c_frames := (c_frames w)(f \<mapsto> fr)\<rparr>"
  shows "\<exists>w' b R'. store_frame (Some n) f w1 = Some (w', b) \<and> kc_inv w' R' P \<and> same_run w w' \<and>
    k_frame w' = k_frame w \<and>
    (\<forall>l. k_lists w m = Some l \<longrightarrow> m_recording l \<noteq> 0 \<longrightarrow>
       (let fs = append_list l (m_pts fr) m_pts (frames_of w (R m)) fr
        in frames_of w' (R' m) = fs \<and> b = duration_reached l fs))"
proof -
  obtain l where l: "k_lists w m = Some l" using inv rec by (auto simp: kc_inv_def)
  have fl: "flist w l (R m)" using inv l by (simp add: kc_inv_def lists_ok_def)
  have fout: "f \<notin> listed R" using inv fresh(1) by (auto simp: kc_inv_def)
  have fm: "f \<notin> snd ` set (R m)" using fout by (auto simp: listed_def)
  have fl1: "flist w1 l (R m)" by (rule flist_cong [OF fl]) (use fm in \<open>auto simp: w1\<close>)
  have l1: "k_lists w1 m = Some l" "k_record w1 = Some m" by (simp_all add: w1 l rec)
  show ?thesis
  proof (cases "m_recording l = 0")
    case True
    have ls: "(k_lists w)(m \<mapsto> l) = k_lists w" using l by auto
    have fs: "(c_frames w)(f := None) = c_frames w" using fresh(1) by auto
    have "store_frame (Some n) f w1 = Some (w, False)"
      using True by (simp add: store_frame_def l rec flistAppend_def free_frame_def w1 ls fs)
    then show ?thesis using inv True l by (auto simp: same_run_def)
  next
    case False
    define ps' where "ps' = append_list l (m_pts fr) (\<lambda>y. m_pts (frame_of w1 y)) (R m) (n, f)"
    define dr where "dr = append_drops l fr w1 (R m) (n, f)"
    define fs where "fs = append_list l (m_pts fr) m_pts (frames_of w1 (R m)) fr"
    have "node_fresh w1 l fr (R m) n" using fresh(2) by (simp add: node_fresh_def w1)
    from flistAppend_chain [OF fl1 False _ fm this len, folded ps'_def dr_def fs_def] obtain mem' l' where
      app: "flistAppend (Some n) w1 l f = Some (mem', l', if duration_reached l fs then - 1 else 0)"
      "flist mem' l' ps'" "frames_of mem' ps' = fs" "c_frames mem' = c_frames (free_pairs dr w1)"
      "\<forall>x. x \<notin> fst ` set (R m) \<and> x \<noteq> n \<longrightarrow> c_nodes mem' x = c_nodes w1 x"
      "cmem.more mem' = cmem.more w1" by (auto simp: w1)
    obtain ks where ks: "R m = dr @ ks" "ps' = ks @ [(n, f)]"
      using append_list_split [OF fl1 ps'_def dr_def] by blast
    note more = kc_more [OF app(6)]
    let ?w = "mem'\<lparr>k_lists := (k_lists mem')(m \<mapsto> l')\<rparr>"
    have st: "store_frame (Some n) f w1 = Some (?w, duration_reached l fs)"
      unfolding store_frame_def l1 option.case app(1) by simp
    have dsub: "snd ` set dr \<subseteq> snd ` set (R m)" "snd ` set ps' \<subseteq> insert f (snd ` set (R m))"
      "fst ` set ps' \<subseteq> insert n (fst ` set (R m))" by (auto simp: ks)
    have cf: "c_frames mem' x = (if x \<in> snd ` set dr then None else if x = f then Some fr else c_frames w x)" for x
      by (simp add: app(4) free_pairs_def w1)
    have lo: "lists_ok ?w (R(m := ps'))"
      by (rule lists_ok_append [of w _ _ l _ l' _ n f])
        (use inv l app(2,5) dsub fresh(2) fout more in \<open>auto simp: kc_inv_def w1 cf\<close>)
    have dd: "snd ` set dr \<inter> snd ` set ps' = {}"
      using fl1 fm unfolding flist_def ks by auto
    have lu: "listed (R(m := ps')) = (listed R - snd ` set dr) \<union> {f}"
    proof -
      let ?o = "\<Union>m' \<in> - {m}. snd ` set (R m')"
      have "snd ` set (R m') \<inter> snd ` set (R m) = {}" if "m' \<noteq> m" for m'
        using inv that by (simp add: kc_inv_def lists_ok_def)
      then have o: "?o \<inter> snd ` set dr = {}" using dsub(1) by blast
      have "R(m := R m) = R" by simp
      then have L: "listed R = snd ` set (R m) \<union> ?o" using listed_upd [of R m "R m"] by metis
      have Rm: "snd ` set (R m) = snd ` set dr \<union> snd ` set ks" by (simp add: ks(1) image_Un)
      have ps: "snd ` set ps' = insert f (snd ` set ks)" by (simp add: ks(2))
      show ?thesis
        by (rule set_swap [OF L [unfolded Rm] _ dd [unfolded ps] o]) (simp only: listed_upd ps)
    qed
    have dm: "dom (c_frames ?w) = (dom (c_frames w) - snd ` set dr) \<union> {f}"
      using fm dsub(1) by (auto simp: cf dom_def split: if_splits)
    have "kc_inv ?w (R(m := ps')) P"
      by (rule kc_inv_swap [OF inv lo _ _ _ dm lu])
        (use more rec dsub(1) fresh(1) in \<open>auto simp: w1 listed_def\<close>)
    moreover have "frames_of w1 (R m) = frames_of w (R m)"
      using fm by (auto simp: frames_of_def frame_of_def w1)
    moreover have "frames_of ?w ps' = frames_of mem' ps'" by (simp add: frames_of_def frame_of_def)
    ultimately show ?thesis using st more app(3) l
      by (intro exI [of _ ?w] exI [of _ "R(m := ps')"]) (auto simp: same_run_def w1 fs_def Let_def)
  qed
qed

section \<open>Each operation keeps the ownership\<close>

lemma kc_inv_params [simp]: "kc_inv (w\<lparr>k_params := q\<rparr>) R P = kc_inv w R P"
  by (rule iffI; erule kc_inv_cong; simp)

lemma kc_inv_fields [simp]:
  "kc_inv (w\<lparr>k_run := b\<rparr>) R P = kc_inv w R P" "kc_inv (w\<lparr>k_stopping := b\<rparr>) R P = kc_inv w R P"
  "kc_inv (w\<lparr>k_thread := b\<rparr>) R P = kc_inv w R P" "kc_inv (w\<lparr>k_loop := b\<rparr>) R P = kc_inv w R P"
  "kc_inv (w\<lparr>k_lastPts := t\<rparr>) R P = kc_inv w R P" "kc_inv (w\<lparr>k_pts := t\<rparr>) R P = kc_inv w R P"
  "kc_inv (w\<lparr>k_ptsOffset := d\<rparr>) R P = kc_inv w R P" "kc_inv (w\<lparr>k_frameTimer := u\<rparr>) R P = kc_inv w R P"
  "kc_inv (w\<lparr>k_currParams := q\<rparr>) R P = kc_inv w R P" "kc_inv (w\<lparr>k_controls := c\<rparr>) R P = kc_inv w R P"
  by (rule iffI; erule kc_inv_cong; simp)+

lemma kc_inv_stopInternal:
  assumes "kc_inv w R P" "join \<Longrightarrow> k_thread w \<or> k_stopping w"
  shows "\<exists>w'. kcStopInternal F join signal w = Some w' \<and> kc_inv w' R P \<and> (k_stopping w \<or> \<not> k_run w') \<and>
    (join \<and> \<not> k_stopping w \<longrightarrow> \<not> k_thread w') \<and> (signal \<and> \<not> k_stopping w \<longrightarrow> k_frame w' = None \<and> k_record w' = None)"
proof (cases "k_stopping w")
  case True
  then show ?thesis using assms(1) by (simp add: kcStopInternal_def)
next
  case False
  let ?w = "kcStopCameraLoop w\<lparr>k_run := False\<rparr>"
  have i: "kc_inv ?w R P" "k_frame ?w = k_frame w" "k_thread ?w = k_thread w"
    using assms(1) by (simp_all add: kcStopCameraLoop_def)
  obtain w1 where w1: "(if signal then
       (case k_frame ?w of None \<Rightarrow> Some (?w\<lparr>k_record := None\<rparr>)
        | Some f \<Rightarrow> (case free_frame ?w f of None \<Rightarrow> None | Some w \<Rightarrow> Some (w\<lparr>k_frame := None, k_record := None\<rparr>)))
     else Some ?w) = Some w1" "kc_inv w1 R P" "k_thread w1 = k_thread w" "\<not> k_run w1"
    "signal \<Longrightarrow> k_frame w1 = None \<and> k_record w1 = None"
  proof (cases "signal")
    case s: True
    show thesis
    proof (cases "k_frame w")
      case None
      then show ?thesis using that [of "?w\<lparr>k_record := None\<rparr>"] s kc_inv_no_record [OF i(1)] i(2,3) by simp
    next
      case (Some f)
      from kc_inv_free_slot [OF i(1)] Some i(2) obtain w2 where
        w2: "free_frame ?w f = Some w2" "w2 = ?w\<lparr>c_frames := (c_frames ?w)(f := None)\<rparr>"
        "kc_inv (w2\<lparr>k_frame := None\<rparr>) R P" by auto
      show ?thesis
        using that [of "w2\<lparr>k_frame := None, k_record := None\<rparr>"] s Some i(2,3) w2(1) kc_inv_no_record [OF w2(3)]
        by (simp add: w2(2) kcStopCameraLoop_def)
    qed
  next
    case False
    then show thesis using that [of ?w] i by simp
  qed
  show ?thesis
    unfolding kcStopInternal_def Let_def w1(1) option.case
    using False assms(2) w1(2-5) by auto
qed

lemma kc_inv_start: "kc_inv w R P \<Longrightarrow> kc_inv (kcStart w) R (P \<union> set_option (k_frame w))"
proof -
  assume i: "kc_inv w R P"
  then have "kc_inv (w\<lparr>k_frame := None\<rparr>) R (P \<union> set_option (k_frame w))"
    by (simp add: kc_inv_def lists_ok_def) blast
  then show ?thesis
    by (rule kc_inv_cong) (simp_all add: kcStart_def kcStartCameraLoop_def kcSetMinMaxFramerate_def Let_def)
qed

lemma expire_frame_inv:
  assumes "kc_inv w R P"
  shows "\<exists>w'. expire_frame pts w = Some w' \<and> kc_inv w' R P \<and> c_nodes w' = c_nodes w \<and>
    (\<forall>f. c_frames w f = None \<longrightarrow> c_frames w' f = None) \<and> k_lists w' = k_lists w \<and> same_run w w' \<and>
    (\<forall>m. frames_of w' (R m) = frames_of w (R m)) \<and>
    (k_record w = None \<longrightarrow> (case k_frame w' of
       None \<Rightarrow> True
     | Some f \<Rightarrow> \<exists>fr. c_frames w' f = Some fr \<and> pts - m_pts fr \<le> ucast (p_maxLatency (k_params w))))"
proof (cases "k_frame w = None \<or> k_record w \<noteq> None")
  case True
  then show ?thesis using assms by (auto simp: expire_frame_def same_run_def split: option.splits)
next
  case False
  then obtain f where f: "k_frame w = Some f" and rec: "k_record w = None" by auto
  then obtain fr where fr: "c_frames w f = Some fr" using assms by (auto simp: kc_inv_def)
  show ?thesis
  proof (cases "pts - m_pts fr > ucast (p_maxLatency (k_params w))")
    case True
    from kc_inv_free_slot [OF assms f] obtain w' where
      w': "free_frame w f = Some w'" "w' = w\<lparr>c_frames := (c_frames w)(f := None)\<rparr>" "kc_inv (w'\<lparr>k_frame := None\<rparr>) R P"
      by blast
    have "f \<notin> listed R" using assms f by (auto simp: kc_inv_def)
    then have "frames_of w' (R m) = frames_of w (R m)" for m
      by (auto simp: frames_of_def frame_of_def w'(2) listed_def)
    then show ?thesis using True f rec fr w'
      by (simp add: expire_frame_def same_run_def frames_of_def frame_of_def)
  next
    case False
    then show ?thesis using assms f rec fr by (auto simp: expire_frame_def same_run_def)
  qed
qed

definition frame_fits :: "u16 \<Rightarrow> u16 \<Rightarrow> FrameType \<Rightarrow> u8 list \<Rightarrow> bool" where
  "frame_fits width height type data \<longleftrightarrow>
     20 + length data \<le> unat (kcSizeofFrameBuffer (ucast width) (ucast height) type)"

lemma add_frame_inv:
  assumes inv: "kc_inv w R P" and fresh: "c_frames w f = None" "c_nodes w n = None"
    and len: "\<And>m. length (R m) + 1 < 2 ^ 32" and fits: "frame_fits width height type data"
  shows "\<exists>w' b R'. add_frame (Some (f, junk)) (Some n) width height type pts data w = Some (w', Stored b) \<and>
    kc_inv w' R' P \<and> same_run w w' \<and>
    (k_record w = None \<longrightarrow> \<not> b \<and>
       (if k_frame w = None \<and> k_run w
        then k_frame w' = Some f \<and> c_frames w' f = Some (new_frame junk width height type pts data)
        else w' = w)) \<and>
    (\<forall>m l. k_record w = Some m \<longrightarrow> k_run w \<longrightarrow> k_lists w m = Some l \<longrightarrow> m_recording l \<noteq> 0 \<longrightarrow>
       (let fr = new_frame junk width height type pts data;
            fs = append_list l (m_pts fr) m_pts (frames_of w (R m)) fr
        in frames_of w' (R' m) = fs \<and> b = duration_reached l fs))"
proof (cases "(k_frame w = None \<or> k_record w \<noteq> None) \<and> k_run w")
  case False
  have "add_frame (Some (f, junk)) (Some n) width height type pts data w = Some (w, Stored False)"
    unfolding add_frame_def by (rule if_not_P [OF False])
  then show ?thesis using inv False
    by (intro exI [of _ w] exI [of _ False] exI [of _ R]) (auto simp: same_run_def)
next
  case True
  let ?fr = "new_frame junk width height type pts data"
  let ?w = "w\<lparr>c_frames := (c_frames w)(f \<mapsto> ?fr)\<rparr>"
  have add: "add_frame (Some (f, junk)) (Some n) width height type pts data w =
      (case store_frame (Some n) f ?w of None \<Rightarrow> None | Some (w, s) \<Rightarrow> Some (w, Stored s))"
    using True fits by (simp add: add_frame_def frame_fits_def)
  show ?thesis
  proof (cases "k_record w")
    case (Some m)
    from store_recorded [OF inv fresh Some len refl, of ?fr] obtain w' b R' where
      st: "store_frame (Some n) f ?w = Some (w', b)" "kc_inv w' R' P" "same_run w w'"
      "\<forall>l. k_lists w m = Some l \<longrightarrow> m_recording l \<noteq> 0 \<longrightarrow>
       (let fs = append_list l (m_pts ?fr) m_pts (frames_of w (R m)) ?fr
        in frames_of w' (R' m) = fs \<and> b = duration_reached l fs)" by blast
    show ?thesis unfolding add st(1) using Some st(2-4)
      by (intro exI [of _ w'] exI [of _ b] exI [of _ R']) simp
  next
    case None
    have f: "f \<notin> listed R" "f \<notin> P" "k_frame w = None" using inv fresh(1) True None by (auto simp: kc_inv_def)
    have "flist ?w l (R m)" if "k_lists w m = Some l" for m l
      by (rule flist_cong [of w]) (use inv that f(1) in \<open>auto simp: kc_inv_def lists_ok_def listed_def\<close>)
    then have "kc_inv (?w\<lparr>k_frame := Some f\<rparr>) R P"
      using inv f None by (auto simp: kc_inv_def lists_ok_def)
    then show ?thesis unfolding add using None True f(3)
      by (intro exI [of _ "?w\<lparr>k_frame := Some f\<rparr>"] exI [of _ False] exI [of _ R])
        (simp add: store_frame_def same_run_def)
  qed
qed

section \<open>A frame from the camera\<close>

definition timed_out :: "u32 \<Rightarrow> ('f, 'z) KcState_scheme \<Rightarrow> bool" where
  "timed_out now w \<longleftrightarrow> k_record w = None \<and> k_frameTimer w \<noteq> 0 \<and>
     kcGetTimer now (k_frameTimer w) > KC_MAX_FRAME_TIMEOUT"

text \<open>Times are counted from the first frame after the start.\<close>

definition rel_pts :: "('f, 'z) KcState_scheme \<Rightarrow> u64 \<Rightarrow> u64" where
  "rel_pts w pts = (if sint (k_ptsOffset w) < 0 then 0 else pts - k_ptsOffset w)"

definition prepared :: "'f float_ops \<Rightarrow> u64 \<Rightarrow> ('f, 'z) KcState_scheme \<Rightarrow> ('f, 'z) KcState_scheme" where
  "prepared F pts w =
     fps_update F (rel_pts w pts)
       (w\<lparr>k_ptsOffset := (if sint (k_ptsOffset w) < 0 then pts else k_ptsOffset w), k_pts := rel_pts w pts\<rparr>)"

lemma prepared_simps [simp]:
  "k_frame (prepared F pts w) = k_frame w" "k_record (prepared F pts w) = k_record w"
  "k_lists (prepared F pts w) = k_lists w" "k_run (prepared F pts w) = k_run w"
  "c_frames (prepared F pts w) = c_frames w" "c_nodes (prepared F pts w) = c_nodes w"
  "k_thread (prepared F pts w) = k_thread w" "k_stopping (prepared F pts w) = k_stopping w"
  "k_currParams (prepared F pts w) = k_currParams w"
  "p_maxLatency (k_params (prepared F pts w)) = p_maxLatency (k_params w)"
  by (simp_all add: prepared_def fps_update_def)

lemma prepared_inv: "kc_inv w R P \<Longrightarrow> kc_inv (prepared F pts w) R P"
  by (erule kc_inv_cong) simp_all

lemma prepared_frames: "frames_of (prepared F pts w) ps = frames_of w ps"
  by (simp add: frames_of_def frame_of_def)

lemma kcFrameData_run:
  assumes "\<not> timed_out now w" "expire_frame (rel_pts w pts) (prepared F pts w) = Some w1"
  shows "kcFrameData F now mfree alloc node width height type pts data w =
    (case add_frame alloc node width height type (rel_pts w pts) data w1 of
       None \<Rightarrow> None
     | Some (w2, OutOfMemory) \<Rightarrow> kcFrameData_end F True True w2
     | Some (w2, Stored b) \<Rightarrow>
         kcFrameData_end F False (b \<or> k_record w2 \<noteq> None \<and> kcMemReserveExceeded mfree w2)
           (w2\<lparr>k_lastPts := rel_pts w pts\<rparr>))"
proof -
  let ?w0 = "if sint (k_ptsOffset w) < 0 then w\<lparr>k_ptsOffset := pts\<rparr> else w"
  have p: "pts - k_ptsOffset ?w0 = rel_pts w pts" by (simp add: rel_pts_def)
  have pr: "fps_update F (rel_pts w pts) (?w0\<lparr>k_pts := rel_pts w pts\<rparr>) = prepared F pts w"
    by (simp add: prepared_def)
  have to: "\<not> (k_record w = None \<and> k_frameTimer w \<noteq> 0 \<and> kcGetTimer now (k_frameTimer w) > KC_MAX_FRAME_TIMEOUT)"
    using assms(1) by (simp add: timed_out_def)
  show ?thesis
    unfolding kcFrameData_def Let_def if_not_P [OF to] p pr assms(2) option.case
    by (auto simp: kcMemReserveExceeded_def split: option.splits frame_result.splits)
qed

lemma kcFrameData_end_inv:
  assumes "kc_inv w R P"
  shows "\<exists>w'. kcFrameData_end F stop sr w = Some w' \<and> kc_inv w' R P"
proof -
  obtain w1 where w1: "(if sr then kcStopRecord w else Some w) = Some w1" "kc_inv w1 R P"
    using kc_inv_stopRecord [OF assms] assms by (cases sr) auto
  then show ?thesis using kc_inv_stopInternal [OF w1(2), of False F True]
    by (cases stop) (auto simp: kcFrameData_end_def)
qed

lemma kcFrameData_stored:
  assumes inv: "kc_inv w R P" and run: "\<not> timed_out now w" and fresh: "c_frames w f = None" "c_nodes w n = None"
    and len: "\<And>m. length (R m) + 1 < 2 ^ 32" and fits: "frame_fits width height type data"
  shows "\<exists>w1 w2 b R'. expire_frame (rel_pts w pts) (prepared F pts w) = Some w1 \<and> kc_inv w1 R P \<and>
    add_frame (Some (f, junk)) (Some n) width height type (rel_pts w pts) data w1 = Some (w2, Stored b) \<and>
    kc_inv w2 R' P \<and> same_run (prepared F pts w) w1 \<and> same_run w1 w2 \<and> k_lists w1 = k_lists w \<and>
    (\<forall>m. frames_of w1 (R m) = frames_of w (R m)) \<and>
    (k_record w = None \<longrightarrow> (case k_frame w1 of
       None \<Rightarrow> True
     | Some f' \<Rightarrow> \<exists>fr. c_frames w1 f' = Some fr \<and> rel_pts w pts - m_pts fr \<le> ucast (p_maxLatency (k_params w)))) \<and>
    (k_record w = None \<longrightarrow> \<not> b \<and>
       (if k_frame w1 = None \<and> k_run w
        then k_frame w2 = Some f \<and> c_frames w2 f = Some (new_frame junk width height type (rel_pts w pts) data)
        else w2 = w1)) \<and>
    (\<forall>m l. k_record w = Some m \<longrightarrow> k_run w \<longrightarrow> k_lists w m = Some l \<longrightarrow> m_recording l \<noteq> 0 \<longrightarrow>
       (let fr = new_frame junk width height type (rel_pts w pts) data;
            fs = append_list l (m_pts fr) m_pts (frames_of w (R m)) fr
        in frames_of w2 (R' m) = fs \<and> b = duration_reached l fs))"
proof -
  from expire_frame_inv [OF prepared_inv [OF inv], of "rel_pts w pts" F pts, unfolded prepared_simps prepared_frames]
  obtain w1 where
    w1: "expire_frame (rel_pts w pts) (prepared F pts w) = Some w1" "kc_inv w1 R P" "c_nodes w1 = c_nodes w"
    "c_frames w1 f = None" "k_lists w1 = k_lists w" "same_run (prepared F pts w) w1"
    "\<forall>m. frames_of w1 (R m) = frames_of w (R m)"
    "k_record w = None \<longrightarrow> (case k_frame w1 of
       None \<Rightarrow> True
     | Some f' \<Rightarrow> \<exists>fr. c_frames w1 f' = Some fr \<and> rel_pts w pts - m_pts fr \<le> ucast (p_maxLatency (k_params w)))"
    using fresh(1) by (elim exE conjE) (rule that; (assumption | simp))
  have s: "k_run w1 = k_run w" "k_record w1 = k_record w" using w1(6) by (simp_all add: same_run_def)
  from add_frame_inv [OF w1(2,4) _ len fits, of n junk "rel_pts w pts"] fresh(2) w1(3) obtain w2 b R' where
    "add_frame (Some (f, junk)) (Some n) width height type (rel_pts w pts) data w1 = Some (w2, Stored b)"
    "kc_inv w2 R' P" "same_run w1 w2"
    "k_record w = None \<longrightarrow> \<not> b \<and>
       (if k_frame w1 = None \<and> k_run w
        then k_frame w2 = Some f \<and> c_frames w2 f = Some (new_frame junk width height type (rel_pts w pts) data)
        else w2 = w1)"
    "\<forall>m l. k_record w = Some m \<longrightarrow> k_run w \<longrightarrow> k_lists w m = Some l \<longrightarrow> m_recording l \<noteq> 0 \<longrightarrow>
       (let fr = new_frame junk width height type (rel_pts w pts) data;
            fs = append_list l (m_pts fr) m_pts (frames_of w (R m)) fr
        in frames_of w2 (R' m) = fs \<and> b = duration_reached l fs)"
    unfolding s w1(5) w1(7) [rule_format] by auto
  note w2 = this
  show ?thesis
    by (rule exI [of _ w1], rule exI [of _ w2], rule exI [of _ b], rule exI [of _ R'], intro conjI)
      (rule w1 w2)+
qed

section \<open>Changing parameters keeps the rest\<close>

definition quiet :: "('f, 'z) KcState_scheme \<Rightarrow> ('f, 'z) KcState_scheme \<Rightarrow> bool" where
  "quiet w w' \<longleftrightarrow> c_nodes w' = c_nodes w \<and> c_frames w' = c_frames w \<and> k_lists w' = k_lists w \<and>
     k_frame w' = k_frame w \<and> k_record w' = k_record w \<and> k_run w' = k_run w \<and> k_thread w' = k_thread w \<and>
     k_stopping w' = k_stopping w"

lemma quiet_trans: "quiet w w1 \<Longrightarrow> quiet w1 w2 \<Longrightarrow> quiet w w2"
  by (simp add: quiet_def)

lemma quiet_ops:
  "quiet w w" "quiet w (set_control w c v)" "quiet w (upd_params w g)" "quiet w (kcSetMode w)"
  "quiet w (kcSetBrightness F w)" "quiet w (kcSetAutoShutter F w)" "quiet w (kcSetAWB F w)"
  "quiet w (kcSetAWBGains F w)" "quiet w (kcSetShutterSpeed F w)"
  by (simp_all add: quiet_def set_control_def kcSetMode_def kcSetBrightness_def kcSetAutoShutter_def
      kcSetAWB_def kcSetAWBGains_def kcSetShutterSpeed_def Let_def)

lemma quiet_framerate: "kcSetFramerate F w = Some w' \<Longrightarrow> quiet w w'"
  by (auto simp: kcSetFramerate_def quiet_def set_control_def Let_def split: if_splits)

lemma quiet_if: "quiet w w1 \<Longrightarrow> quiet w (if b then w1 else w)"
  by (simp add: quiet_ops)

lemma apply_params_quiet: "apply_params F w = Some (w', restart) \<Longrightarrow> quiet w w'"
proof -
  assume a: "apply_params F w = Some (w', restart)"
  then obtain w1 where w1: "(if p_framerate (k_params w) \<noteq> p_framerate (k_currParams w) then kcSetFramerate F w else Some w) = Some w1"
    by (auto simp: apply_params_def Let_def split: option.splits)
  then have q1: "quiet w w1" using quiet_framerate by (auto simp: quiet_ops split: if_splits)
  define w2 where "w2 = (if p_mode (k_params w1) \<noteq> p_mode (k_currParams w) then kcSetMode w1 else w1)"
  define w3 where "w3 = (if p_brightness (k_params w2) \<noteq> p_brightness (k_currParams w) then kcSetBrightness F w2 else w2)"
  define w4 where "w4 = (if p_autoShutter (k_params w3) \<noteq> p_autoShutter (k_currParams w) then kcSetAutoShutter F w3 else w3)"
  define w5 where "w5 = (if p_awb (k_params w4) \<noteq> p_awb (k_currParams w) then kcSetAWB F w4 else w4)"
  define w6 where "w6 = (if fo_neq F (p_awbRed (k_params w5)) (p_awbRed (k_currParams w)) \<or>
      fo_neq F (p_awbBlue (k_params w5)) (p_awbBlue (k_currParams w)) then kcSetAWBGains F w5 else w5)"
  define w7 where "w7 = (if fo_neq F (p_shutterSpeed (k_params w6)) (p_shutterSpeed (k_currParams w))
      then kcSetShutterSpeed F w6 else w6)"
  have "w' = w7"
    using a unfolding apply_params_def Let_def w1 option.case
    by (auto simp: w2_def w3_def w4_def w5_def w6_def w7_def split: if_splits)
  moreover have "quiet w1 w2" "quiet w2 w3" "quiet w3 w4" "quiet w4 w5" "quiet w5 w6" "quiet w6 w7"
    unfolding w2_def w3_def w4_def w5_def w6_def w7_def by (rule quiet_if, rule quiet_ops)+
  ultimately show ?thesis using q1 by (blast intro: quiet_trans)
qed

section \<open>Progress of a recording\<close>

lemma hundred_minus:
  "unat (100 - q :: u32) = (if unat q \<le> 100 then 100 - unat q else 2 ^ 32 + 100 - unat q)"
  using unat_sub_if_size [of "100 :: u32" q] by (simp add: word_size)

lemma clip_hundred:
  "(if (100 - q :: u32) > 100 then 100 else 100 - q) = of_nat (if unat q \<le> 100 then 100 - unat q else 100)"
proof (cases "unat q \<le> 100")
  case True
  then have "unat (100 - q) = 100 - unat q" by (simp add: hundred_minus)
  then show ?thesis using True by (auto simp: word_less_nat_alt intro!: unat_eqI simp: unat_of_nat_u32)
next
  case False
  have "unat q < 2 ^ 32" by (rule unat_u32_bound)
  with False have "unat (100 - q) > 100" by (simp add: hundred_minus)
  then show ?thesis using False by (simp add: word_less_nat_alt)
qed

definition progress :: "nat \<Rightarrow> nat \<Rightarrow> nat" where
  "progress a r = (if r \<le> a \<and> a \<le> 2 * r then 100 - (a - r) * 100 div r else 100)"

lemma div_le_iff_less: "0 < r \<Longrightarrow> k div r \<le> m \<longleftrightarrow> k < (m + 1) * (r :: nat)"
  by (simp add: less_Suc_eq_le [symmetric] div_less_iff_less_mult)

lemma progress_word:
  assumes "a \<le> 100" "0 < r" "r \<le> 100"
  defines "q \<equiv> (of_nat a - of_nat r) * 100 div (of_nat r :: u32)"
  shows "(if 100 - q > 100 then 100 else 100 - q) = of_nat (progress a r)"
proof (cases "r \<le> a")
  case True
  have "((of_nat a - of_nat r) * 100 :: u32) = of_nat ((a - r) * 100)" using True by (simp add: of_nat_diff)
  then have "unat q = (a - r) * 100 div r"
    using assms(1-3) unfolding q_def unat_div_u32 by (simp add: unat_of_nat_u32 del: of_nat_mult)
  moreover have "(a - r) * 100 div r \<le> 100 \<longleftrightarrow> a \<le> 2 * r"
    using assms(2,3) True by (simp add: div_le_iff_less) arith
  ultimately show ?thesis unfolding clip_hundred progress_def using True by simp
next
  case False
  define k where "k = (r - a) * 100"
  have k: "0 < k" "k \<le> 10000" using False assms(3) by (auto simp: k_def)
  have "((of_nat a - of_nat r) * 100 :: u32) = - of_nat k"
    using False by (simp add: k_def of_nat_diff algebra_simps)
  moreover have "unat (- of_nat k :: u32) = 2 ^ 32 - k"
    using k unat_sub_if_size [of "0 :: u32" "of_nat k"] by (simp add: word_size unat_of_nat_u32)
  ultimately have q: "unat q = (2 ^ 32 - k) div r"
    using assms(2,3) unfolding q_def unat_div_u32 by (simp add: unat_of_nat_u32)
  have "101 * r \<le> 2 ^ 32 - k" using assms(3) k(2) by simp
  then have "101 \<le> (2 ^ 32 - k) div r" using assms(2) by (simp add: less_eq_div_iff_mult_less_eq)
  then show ?thesis unfolding clip_hundred q progress_def using False by simp
qed

section \<open>Examples\<close>

definition example_floats :: "nat float_ops" where
  "example_floats =
     \<lparr>fo_zero = 0, fo_one = 1, fo_neq = (\<noteq>), fo_unsigned = of_nat, fo_reciprocal = unat,
      fo_fps_filter = (\<lambda>a d. a), fo_exposure = unat, fo_brightness = unat, fo_contrast = unat,
      fo_twice = (\<lambda>a. 2 * a), fo_micros = of_nat, fo_seconds = unat\<rparr>"

definition example_params :: "nat KcParams" where
  "example_params =
     \<lparr>p_width = 640, p_height = 480, p_framerate = 30, p_duration = 0, p_mode = KC_MODE_640X480X10,
      p_brightness = 50, p_autoShutter = 1, p_awb = 1, p_awbRed = 1, p_awbBlue = 1, p_shutterSpeed = 0,
      p_saturation = 200, p_maxLatency = 100000, p_memReserve = 10, p_hflip = 0, p_vflip = 0,
      p_startShift = 0, p_fps = 0, p_maxFps = 90, p_minFps = 4\<rparr>"

text \<open>A running camera whose slot holds the first frame; \<open>example_rec\<close> records at address 5.\<close>

definition example_live :: "nat KcState" where
  "example_live =
     \<lparr>c_nodes = Map.empty, c_frames = [11 \<mapsto> example_frame 0], k_lists = Map.empty, k_params = example_params,
      k_run = True, k_stopping = False, k_lastPts = 0, k_thread = True, k_frame = Some 11,
      k_currParams = example_params, k_ptsOffset = 1000, k_pts = 0, k_frameTimer = 0, k_record = None,
      k_loop = True, k_controls = Map.empty\<rparr>"

definition example_recording :: "nat KcState" where
  "example_recording =
     example_live\<lparr>c_frames := Map.empty, k_frame := None, k_lists := [5 \<mapsto> flistInit 0 0], k_record := Some 5\<rparr>"

lemma example_live_inv: "kc_inv example_live (\<lambda>_. []) {}"
  by (simp add: kc_inv_def lists_ok_def listed_def example_live_def)

lemma example_recording_inv: "kc_inv example_recording (\<lambda>_. []) {}"
  by (auto simp: kc_inv_def lists_ok_def listed_def example_recording_def example_live_def flist_Nil flistInit_def)

lemma example_fits: "frame_fits 2 1 FRAME_BGR [1, 2, 3, 4, 5, 6]"
  by (simp add: frame_fits_def kcSizeofFrameBuffer_def)

lemma kcFrameData_end_live:
  "kcFrameData_end F False False w = Some w"
  by (simp add: kcFrameData_end_def)

lemma example_runs: "\<not> timed_out now example_live" "\<not> timed_out now example_recording"
  by (simp_all add: timed_out_def example_live_def example_recording_def)

text \<open>A frame from the camera, in any state; running out of memory for the frame is handled.\<close>

lemma kcFrameData_inv:
  assumes "kc_inv w R P" "c_frames w f = None" "c_nodes w n = None" "\<And>m. length (R m) + 1 < 2 ^ 32"
    and "frame_fits width height type data" "alloc = None \<or> alloc = Some (f, junk)"
  shows "\<exists>w' R'. kcFrameData F now mfree alloc (Some n) width height type pts data w = Some w' \<and> kc_inv w' R' P"
proof (cases "timed_out now w")
  case True
  then have "kcFrameData F now mfree alloc (Some n) width height type pts data w = kcFrameData_end F True False w"
    by (simp add: kcFrameData_def timed_out_def)
  then show ?thesis using kcFrameData_end_inv [OF assms(1), of F True False] by metis
next
  case False
  from kcFrameData_stored [OF assms(1) False assms(2-5), of pts F junk] obtain w1 w2 b R' where
    w: "expire_frame (rel_pts w pts) (prepared F pts w) = Some w1" "kc_inv w1 R P"
    "add_frame (Some (f, junk)) (Some n) width height type (rel_pts w pts) data w1 = Some (w2, Stored b)"
    "kc_inv w2 R' P" by blast
  consider w2 R2 stop sr where "kcFrameData F now mfree alloc (Some n) width height type pts data w
      = kcFrameData_end F stop sr w2" "kc_inv w2 R2 P"
  proof (cases "alloc = None \<and> (k_frame w1 = None \<or> k_record w1 \<noteq> None) \<and> k_run w1")
    case True
    then have "add_frame alloc (Some n) width height type (rel_pts w pts) data w1 = Some (w1, OutOfMemory)"
      by (simp add: add_frame_def)
    then show thesis using that [of True True w1 R] w(2) by (simp add: kcFrameData_run [OF False w(1)])
  next
    case nomem: False
    have "\<exists>w2 b R'. add_frame alloc (Some n) width height type (rel_pts w pts) data w1 = Some (w2, Stored b) \<and> kc_inv w2 R' P"
    proof (cases "alloc = None")
      case True
      then have "add_frame alloc (Some n) width height type (rel_pts w pts) data w1 = Some (w1, Stored False)"
        unfolding add_frame_def by (intro if_not_P) (use nomem in blast)
      then show ?thesis using w(2) by blast
    next
      case False
      then show ?thesis using assms(6) w(3,4) by blast
    qed
    then obtain w2 b R' where
      "add_frame alloc (Some n) width height type (rel_pts w pts) data w1 = Some (w2, Stored b)" "kc_inv w2 R' P" by blast
    then show thesis using that [of False _ "w2\<lparr>k_lastPts := rel_pts w pts\<rparr>" R']
      by (simp add: kcFrameData_run [OF False w(1)])
  qed
  then show ?thesis using kcFrameData_end_inv by metis
qed

section \<open>Properties\<close>

text \<open>
  C11. While the camera streams, after a frame arrived there is one in the slot, and it is not older than
  the latency allowed: a frame that waited for too long makes room for the new one. Times count from
  the first frame.
\<close>

theorem kcFrameData_latency:
  assumes "kc_inv w R P" "c_frames w f = None" "c_nodes w n = None" "\<And>m. length (R m) + 1 < 2 ^ 32"
    and "frame_fits width height type data" "\<not> timed_out now w" "k_record w = None" "k_run w"
  shows "\<exists>w' f' fr. kcFrameData F now mfree (Some (f, junk)) (Some n) width height type pts data w = Some w' \<and>
    k_frame w' = Some f' \<and> c_frames w' f' = Some fr \<and>
    rel_pts w pts - m_pts fr \<le> ucast (p_maxLatency (k_params w)) \<and>
    (if f' = f then fr = new_frame junk width height type (rel_pts w pts) data else k_frame w = Some f') \<and>
    k_lastPts w' = rel_pts w pts"
proof -
  from kcFrameData_stored [OF assms(1,6,2-5), of pts F junk] obtain w1 w2 b R' where
    w: "expire_frame (rel_pts w pts) (prepared F pts w) = Some w1"
    "add_frame (Some (f, junk)) (Some n) width height type (rel_pts w pts) data w1 = Some (w2, Stored b)"
    "same_run (prepared F pts w) w1" "same_run w1 w2"
    "case k_frame w1 of None \<Rightarrow> True
     | Some f' \<Rightarrow> \<exists>fr. c_frames w1 f' = Some fr \<and> rel_pts w pts - m_pts fr \<le> ucast (p_maxLatency (k_params w))"
    "\<not> b" "if k_frame w1 = None \<and> k_run w
        then k_frame w2 = Some f \<and> c_frames w2 f = Some (new_frame junk width height type (rel_pts w pts) data)
        else w2 = w1" using assms(7) by blast
  have "k_record w2 = None" using w(3,4) assms(7) by (simp add: same_run_def)
  then have eq: "kcFrameData F now mfree (Some (f, junk)) (Some n) width height type pts data w =
      Some (w2\<lparr>k_lastPts := rel_pts w pts\<rparr>)"
    using w(6) by (simp add: kcFrameData_run [OF assms(6) w(1)] w(2) kcFrameData_end_live)
  have ex: "k_frame w1 = None \<or> k_frame w1 = k_frame w"
    using w(1) by (auto simp: expire_frame_def free_frame_def split: option.splits if_splits)
  show ?thesis
  proof (cases "k_frame w1")
    case None
    then show ?thesis using eq w(7) assms(8) by (simp add: new_frame_def)
  next
    case (Some f')
    then have "k_frame w = Some f'" using ex by simp
    then have "f' \<in> dom (c_frames w)" using assms(1) unfolding kc_inv_def by (simp add: set_eq_iff)
    then have "f' \<noteq> f" using assms(2) by auto
    moreover obtain fr where "c_frames w1 f' = Some fr" "rel_pts w pts - m_pts fr \<le> ucast (p_maxLatency (k_params w))"
      using w(5) Some by auto
    moreover have "w2 = w1" using w(7) Some by simp
    ultimately show ?thesis using eq Some \<open>k_frame w = Some f'\<close>
      by (intro exI [of _ "w1\<lparr>k_lastPts := rel_pts w pts\<rparr>"] exI [of _ f'] exI [of _ fr]) simp
  qed
qed

theorem kcFrameData_latency_witness:
  "\<exists>w' f' fr. kcFrameData example_floats 0 50 (Some (12, [])) (Some 31) 2 1 FRAME_BGR 501000 [1, 2, 3, 4, 5, 6] example_live
     = Some w' \<and> k_frame w' = Some f' \<and> c_frames w' f' = Some fr \<and> 500000 - m_pts fr \<le> 100000"
proof -
  have "rel_pts example_live 501000 = 500000" by (simp add: rel_pts_def example_live_def)
  moreover have "ucast (p_maxLatency (k_params example_live)) = (100000 :: u64)"
    by (simp add: example_live_def example_params_def)
  moreover have "\<exists>w' f' fr. kcFrameData example_floats 0 50 (Some (12, [])) (Some 31) 2 1 FRAME_BGR 501000 [1, 2, 3, 4, 5, 6] example_live
      = Some w' \<and> k_frame w' = Some f' \<and> c_frames w' f' = Some fr \<and>
    rel_pts example_live 501000 - m_pts fr \<le> ucast (p_maxLatency (k_params example_live)) \<and>
    (if f' = 12 then fr = new_frame [] 2 1 FRAME_BGR (rel_pts example_live 501000) [1, 2, 3, 4, 5, 6]
     else k_frame example_live = Some f') \<and> k_lastPts w' = rel_pts example_live 501000"
    by (rule kcFrameData_latency [OF example_live_inv _ _ _ example_fits example_runs(1)])
      (simp_all add: example_live_def)
  ultimately show ?thesis by metis
qed

text \<open>
  C12. While the camera records, each frame that arrives is appended to the recording, as appending is
  specified, and the recording goes on unless its duration is reached or the memory reserve is
  exceeded; then it is detached from the camera.
\<close>

theorem kcFrameData_records:
  assumes "kc_inv w R P" "c_frames w f = None" "c_nodes w n = None" "\<And>m. length (R m) + 1 < 2 ^ 32"
    and "frame_fits width height type data" "k_record w = Some m" "k_run w"
    and "k_lists w m = Some l" "m_recording l \<noteq> 0"
    and "fr = new_frame junk width height type (rel_pts w pts) data"
    and "fs = append_list l (m_pts fr) m_pts (frames_of w (R m)) fr"
  shows "\<exists>w' R'. kcFrameData F now mfree (Some (f, junk)) (Some n) width height type pts data w = Some w' \<and>
    kc_inv w' R' P \<and> frames_of w' (R' m) = fs \<and>
    k_record w' = (if duration_reached l fs \<or> kcMemReserveExceeded mfree w then None else Some m)"
proof -
  have run: "\<not> timed_out now w" using assms(6) by (simp add: timed_out_def)
  from kcFrameData_stored [OF assms(1) run assms(2-5), of pts F junk] obtain w1 w2 b R' where
    w: "expire_frame (rel_pts w pts) (prepared F pts w) = Some w1"
    "add_frame (Some (f, junk)) (Some n) width height type (rel_pts w pts) data w1 = Some (w2, Stored b)"
    "kc_inv w2 R' P" "same_run (prepared F pts w) w1" "same_run w1 w2"
    "\<forall>m l. k_record w = Some m \<longrightarrow> k_run w \<longrightarrow> k_lists w m = Some l \<longrightarrow> m_recording l \<noteq> 0 \<longrightarrow>
       (let fr = new_frame junk width height type (rel_pts w pts) data;
            fs = append_list l (m_pts fr) m_pts (frames_of w (R m)) fr
        in frames_of w2 (R' m) = fs \<and> b = duration_reached l fs)" by blast
  have fs: "frames_of w2 (R' m) = fs" "b = duration_reached l fs"
    using w(6) assms(6-9) unfolding assms(10,11) Let_def by blast+
  have rec: "k_record w2 = Some m" "kcMemReserveExceeded mfree w2 = kcMemReserveExceeded mfree w"
    using w(4,5) assms(6) by (simp_all add: same_run_def kcMemReserveExceeded_def)
  let ?w = "w2\<lparr>k_lastPts := rel_pts w pts\<rparr>" and ?sr = "b \<or> kcMemReserveExceeded mfree w"
  have eq: "kcFrameData F now mfree (Some (f, junk)) (Some n) width height type pts data w = kcFrameData_end F False ?sr ?w"
    using rec by (simp add: kcFrameData_run [OF run w(1)] w(2))
  have inv: "kc_inv ?w R' P" using w(3) by simp
  from kc_inv_stopRecord [OF inv] obtain w3 where
    w3: "kcStopRecord ?w = Some w3" "kc_inv w3 R' P" "k_record w3 = None" "c_frames w3 = c_frames ?w" by blast
  have fo: "frames_of w3 ps = frames_of w2 ps" "frames_of ?w ps = frames_of w2 ps" for ps
    using w3(4) by (simp_all add: frames_of_def frame_of_def)
  show ?thesis
  proof (cases ?sr)
    case True
    then show ?thesis using w3 fo fs by (simp add: eq kcFrameData_end_def) metis
  next
    case False
    then show ?thesis using inv fo fs rec by (simp add: eq kcFrameData_end_def) metis
  qed
qed

theorem kcFrameData_records_witness:
  "\<exists>w' R'. kcFrameData example_floats 0 50 (Some (12, [])) (Some 31) 2 1 FRAME_BGR 2000 [1, 2, 3, 4, 5, 6] example_recording
     = Some w' \<and> kc_inv w' R' {} \<and> length (frames_of w' (R' 5)) = 1 \<and> k_record w' = Some 5"
proof -
  define fr where "fr = new_frame [] 2 1 FRAME_BGR (rel_pts example_recording 2000) [1, 2, 3, 4, 5, 6]"
  have fs: "append_list (flistInit 0 0) (m_pts fr) m_pts (frames_of example_recording []) fr = [fr]"
    by (simp add: append_list_def wait_keep_def Let_def frames_of_def)
  have "\<exists>w' R'. kcFrameData example_floats 0 50 (Some (12, [])) (Some 31) 2 1 FRAME_BGR 2000 [1, 2, 3, 4, 5, 6] example_recording = Some w' \<and>
    kc_inv w' R' {} \<and> frames_of w' (R' 5) = [fr] \<and>
    k_record w' = (if duration_reached (flistInit 0 0) [fr] \<or> kcMemReserveExceeded 50 example_recording then None else Some 5)"
    by (rule kcFrameData_records [OF example_recording_inv _ _ _ example_fits _ _ _ _ fr_def fs [symmetric]])
      (simp_all add: example_recording_def example_live_def flistInit_def)
  moreover have "\<not> duration_reached (flistInit 0 0) [fr]" by (simp add: duration_reached_def flistInit_def)
  moreover have "\<not> kcMemReserveExceeded 50 example_recording"
    by (simp add: kcMemReserveExceeded_def example_recording_def example_live_def example_params_def)
  ultimately show ?thesis by fastforce
qed

text \<open>
  The progress of a recording without a duration is meant to grow from 0 to 100 percent as free
  memory shrinks to the reserve, but the percentage is unsigned: with more than twice the reserve
  free, or less than the reserve, it is 100. With a duration but no frame yet, the null pointer to
  the last frame is read.
\<close>

theorem kcRecordProgress_value:
  assumes "k_record w = Some m" "k_run w" "k_lists w m = Some l"
    and "p_memReserve (k_currParams w) = of_nat r" "0 < r" "r \<le> 100" "a \<le> 100"
  shows "(m_duration l = 0 \<longrightarrow> kcRecordProgress (of_nat a) w =
      Some (of_nat (if r \<le> a \<and> a \<le> 2 * r then 100 - (a - r) * 100 div r else 100))) \<and>
    (m_duration l \<noteq> 0 \<and> m_back l = None \<longrightarrow> kcRecordProgress (of_nat a) w = None)"
proof -
  define q where "q = (of_nat a - of_nat r) * 100 div (of_nat r :: u32)"
  have "unat (of_nat r :: u32) = r" using assms(6) by (simp add: unat_of_nat_u32)
  then have r0: "(of_nat r :: u32) \<noteq> 0" using assms(5) by (metis less_irrefl unat_0)
  have neg: "\<not> (100 - q :: u32) < 0" by simp
  have clip: "(if 100 - q > 100 then 100 else 100 - q) = of_nat (progress a r)"
    unfolding q_def by (rule progress_word [OF assms(7,5,6)])
  have "kcRecordProgress (of_nat a) w =
    (case (if m_duration l = 0 then Some 0
           else (case flistTime w l of
                   None \<Rightarrow> None
                 | Some t \<Rightarrow> let p1 = t * 100 div m_duration l in Some (if p1 > 100 then 100 else p1))) of
       None \<Rightarrow> None
     | Some p1 \<Rightarrow> Some (if of_nat (progress a r) > p1 then of_nat (progress a r) else p1))"
    unfolding kcRecordProgress_def Let_def assms(1,3,4) option.case q_def [symmetric] if_not_P [OF neg] clip
    using assms(2) r0 by (simp add: Let_def)
  moreover have "flistTime w l = None" if "m_back l = None" using that by (simp add: flistTime_def node_pts_def)
  ultimately show ?thesis by (auto simp: progress_def word_gt_0)
qed

theorem kcRecordProgress_value_witness:
  "kcRecordProgress 15 example_recording = Some 50 \<and> kcRecordProgress 50 example_recording = Some 100"
proof -
  have "k_lists example_recording 5 = Some (flistInit 0 0)" "k_record example_recording = Some 5" "k_run example_recording"
    "p_memReserve (k_currParams example_recording) = of_nat 10" "m_duration (flistInit 0 0) = 0"
    by (simp_all add: example_recording_def example_live_def example_params_def flistInit_def)
  with kcRecordProgress_value [of example_recording 5 "flistInit 0 0" 10 15]
    kcRecordProgress_value [of example_recording 5 "flistInit 0 0" 10 50] show ?thesis by simp
qed

text \<open>
  Stopping the camera ends streaming and recording, frees the frame in the slot and joins the
  capture thread; stopping it once more joins the thread a second time, which is undefined. The
  Python object of a live stream stops the camera when it is stopped and again when it is freed.
\<close>

theorem kcStop_once:
  assumes "kc_inv w R P" "k_thread w" "\<not> k_stopping w"
  shows "\<exists>w'. kcStop F w = Some w' \<and> kc_inv w' R P \<and> \<not> k_run w' \<and> k_frame w' = None \<and> k_record w' = None \<and>
    kcStop F w' = None"
proof -
  from kc_inv_stopInternal [OF assms(1), of True F True] assms(2,3) obtain w' where
    w': "kcStopInternal F True True w = Some w'" "kc_inv w' R P" "\<not> k_run w'" "\<not> k_thread w'"
    "k_frame w' = None" "k_record w' = None" by auto
  have "\<not> k_stopping w'"
    using w'(1) assms(2,3)
    by (auto simp: kcStopInternal_def kcStopCameraLoop_def free_frame_def Let_def split: option.splits)
  then have "kcStopInternal F True True w' = None"
    using w'(4,5) by (simp add: kcStopInternal_def kcStopCameraLoop_def)
  then show ?thesis using w' by (auto simp: kcStop_def)
qed

theorem kcStop_once_witness:
  "\<exists>w'. kcStop example_floats example_live = Some w' \<and> kcStop example_floats w' = None"
  using kcStop_once [OF example_live_inv] by (auto simp: example_live_def)

text \<open>
  A change of the mode or the resolution while the camera runs restarts it: it runs again with an
  empty slot and the recording goes on. The frame that was in the slot is neither freed nor owned any
  longer: it is lost.
\<close>

theorem kcUpdateParams_restart:
  assumes "kc_inv w R P" "k_run w" "k_thread w" "\<not> k_stopping w" "apply_params F w = Some (w1, True)"
  shows "\<exists>w'. kcUpdateParams F w = Some w' \<and> k_run w' \<and> k_frame w' = None \<and> k_record w' = k_record w \<and>
    c_frames w' = c_frames w \<and> kc_inv w' R (P \<union> set_option (k_frame w))"
proof -
  have q: "quiet w w1" by (rule apply_params_quiet [OF assms(5)])
  have i1: "kc_inv w1 R P" by (rule kc_inv_cong [OF assms(1)]) (use q in \<open>simp_all add: quiet_def\<close>)
  have s1: "k_run w1" "k_thread w1" "\<not> k_stopping w1" "k_frame w1 = k_frame w" "k_record w1 = k_record w"
    "c_frames w1 = c_frames w" using q assms(2-4) by (simp_all add: quiet_def)
  define w2 where "w2 = upd_params (w1\<lparr>k_loop := False, k_run := False, k_thread := False\<rparr>) (\<lambda>p. p\<lparr>p_fps := fo_zero F\<rparr>)"
  have st: "kcStopInternal F True False w1 = Some w2"
    using s1(2,3) by (simp add: kcStopInternal_def kcStopCameraLoop_def w2_def)
  let ?w = "kcStart (upd_params w2 (\<lambda>p. p\<lparr>p_shutterSpeed := maxShutterSpeed F (p_framerate p)\<rparr>))"
  have eq: "kcUpdateParams F w = Some ?w" using s1(1) by (simp add: kcUpdateParams_def assms(5) st)
  have "kc_inv w2 R P" using i1 by (simp add: w2_def)
  then have "kc_inv ?w R (P \<union> set_option (k_frame w))"
    using kc_inv_start [of "upd_params w2 (\<lambda>p. p\<lparr>p_shutterSpeed := maxShutterSpeed F (p_framerate p)\<rparr>)" R P] s1(4)
    by (simp add: w2_def)
  then show ?thesis using eq s1
    by (simp add: kcStart_def kcStartCameraLoop_def kcSetMinMaxFramerate_def Let_def w2_def)
qed

theorem kcUpdateParams_restart_witness:
  "\<exists>w'. kcUpdateParams example_floats (upd_params example_live (\<lambda>p. p\<lparr>p_width := 320\<rparr>)) = Some w' \<and>
     k_frame w' = None \<and> c_frames w' 11 \<noteq> None"
proof -
  let ?w = "upd_params example_live (\<lambda>p. p\<lparr>p_width := 320\<rparr>)"
  have "\<exists>w1. apply_params example_floats ?w = Some (w1, True)"
    by (simp add: apply_params_def example_live_def example_params_def example_floats_def)
  moreover have "kc_inv ?w (\<lambda>_. []) {}" using example_live_inv by simp
  ultimately show ?thesis
    using kcUpdateParams_restart [of ?w "\<lambda>_. []" "{}" example_floats] by (fastforce simp: example_live_def)
qed

section \<open>Undefined behaviour\<close>

text \<open>A buffer larger than the allocation, which is sized by the dimensions alone, is written behind it.\<close>

lemma kcFrameData_overflow:
  assumes "kc_inv w R P" "\<not> timed_out now w" "k_frame w = None" "k_run w" "\<not> frame_fits width height type data"
  shows "kcFrameData F now mfree (Some (f, junk)) node width height type pts data w = None"
proof -
  have "expire_frame (rel_pts w pts) (prepared F pts w) = Some (prepared F pts w)"
    using assms(3) by (simp add: expire_frame_def)
  from kcFrameData_run [OF assms(2) this] show ?thesis
    using assms(3-5) by (simp add: add_frame_def frame_fits_def)
qed

text \<open>A recording that is stopped while the newest frame is awaited: the wait reads the null pointer.\<close>

lemma kcWaitLastRecordFrame_null:
  assumes "kcWaitLastRecordFrame_enter w" "kcStopRecord w = Some w'"
  shows "kcWaitLastRecordFrame_ready w' = None"
  using assms by (auto simp: kcWaitLastRecordFrame_enter_def kcWaitLastRecordFrame_ready_def kcStopRecord_def
      split: option.splits)

text \<open>A frame rate of zero, which only the attribute but not the arguments of the constructor rule out.\<close>

lemma kcUpdateParams_zero_framerate:
  "p_framerate (k_params w) = 0 \<Longrightarrow> p_framerate (k_currParams w) \<noteq> 0 \<Longrightarrow> kcUpdateParams F w = None"
  by (simp add: kcUpdateParams_def apply_params_def kcSetFramerate_def)

end
