(* ===== verification/Geometry.thy ===== *)
theory Geometry
  imports Prelude
begin

text \<open>
  The geometry classes of \<open>include/libcamera/geometry.h\<close> and \<open>src/libcamera/geometry.cpp\<close>: points,
  sizes, size ranges and rectangles. Widths and heights are \<open>unsigned int\<close>, coordinates are
  \<open>int\<close>; both are 32-bit words, so every operation wraps where the code wraps. The methods that
  modify the object in place return the updated record. An operation that asserts or divides by
  a caller-supplied number returns \<open>None\<close> where the code stops. The operators on \<open>float\<close> are not
  modelled.
\<close>

section \<open>Points and sizes\<close>

record Point =
  pt_x :: i32
  pt_y :: i32

definition Point_neg :: "Point \<Rightarrow> Point" where
  "Point_neg p = \<lparr>pt_x = - pt_x p, pt_y = - pt_y p\<rparr>"

record Size =
  sz_width :: u32
  sz_height :: u32

abbreviation mk_Size :: "u32 \<Rightarrow> u32 \<Rightarrow> Size" where
  "mk_Size w h \<equiv> \<lparr>sz_width = w, sz_height = h\<rparr>"

definition Size_isNull :: "Size \<Rightarrow> bool" where
  "Size_isNull s \<longleftrightarrow> sz_width s = 0 \<and> sz_height s = 0"

definition Size_alignDownTo :: "Size \<Rightarrow> u32 \<Rightarrow> u32 \<Rightarrow> Size option" where
  "Size_alignDownTo s hAlignment vAlignment =
     (if hAlignment = 0 \<or> vAlignment = 0 then None
      else Some (s\<lparr>sz_width := sz_width s div hAlignment * hAlignment,
                   sz_height := sz_height s div vAlignment * vAlignment\<rparr>))"

definition Size_alignUpTo :: "Size \<Rightarrow> u32 \<Rightarrow> u32 \<Rightarrow> Size option" where
  "Size_alignUpTo s hAlignment vAlignment =
     (if hAlignment = 0 \<or> vAlignment = 0 then None
      else Some (s\<lparr>sz_width := (sz_width s + hAlignment - 1) div hAlignment * hAlignment,
                   sz_height := (sz_height s + vAlignment - 1) div vAlignment * vAlignment\<rparr>))"

definition Size_boundTo :: "Size \<Rightarrow> Size \<Rightarrow> Size" where
  "Size_boundTo s bound =
     s\<lparr>sz_width := min (sz_width s) (sz_width bound),
       sz_height := min (sz_height s) (sz_height bound)\<rparr>"

definition Size_expandTo :: "Size \<Rightarrow> Size \<Rightarrow> Size" where
  "Size_expandTo s expand =
     s\<lparr>sz_width := max (sz_width s) (sz_width expand),
       sz_height := max (sz_height s) (sz_height expand)\<rparr>"

definition Size_alignedDownTo :: "Size \<Rightarrow> u32 \<Rightarrow> u32 \<Rightarrow> Size option" where
  "Size_alignedDownTo s hAlignment vAlignment =
     (if hAlignment = 0 \<or> vAlignment = 0 then None
      else Some (mk_Size (sz_width s div hAlignment * hAlignment)
                         (sz_height s div vAlignment * vAlignment)))"

definition Size_alignedUpTo :: "Size \<Rightarrow> u32 \<Rightarrow> u32 \<Rightarrow> Size option" where
  "Size_alignedUpTo s hAlignment vAlignment =
     (if hAlignment = 0 \<or> vAlignment = 0 then None
      else Some (mk_Size ((sz_width s + hAlignment - 1) div hAlignment * hAlignment)
                         ((sz_height s + vAlignment - 1) div vAlignment * vAlignment)))"

definition Size_boundedTo :: "Size \<Rightarrow> Size \<Rightarrow> Size" where
  "Size_boundedTo s bound =
     mk_Size (min (sz_width s) (sz_width bound)) (min (sz_height s) (sz_height bound))"

definition Size_expandedTo :: "Size \<Rightarrow> Size \<Rightarrow> Size" where
  "Size_expandedTo s expand =
     mk_Size (max (sz_width s) (sz_width expand)) (max (sz_height s) (sz_height expand))"

text \<open>The 64-bit product \<open>static_cast<uint64_t>(a) * static_cast<uint64_t>(b)\<close>.\<close>

definition mul64 :: "u32 \<Rightarrow> u32 \<Rightarrow> u64" where
  "mul64 a b = ucast a * ucast b"

definition Size_boundedToAspectRatio :: "Size \<Rightarrow> Size \<Rightarrow> Size option" where
  "Size_boundedToAspectRatio s ratio =
     (if \<not> (sz_width ratio \<noteq> 0 \<and> sz_height ratio \<noteq> 0) then None
      else
        let ratio1 = mul64 (sz_width s) (sz_height ratio);
            ratio2 = mul64 (sz_width ratio) (sz_height s)
        in if ratio1 > ratio2
           then Some (mk_Size (ucast (ratio2 div ucast (sz_height ratio))) (sz_height s))
           else Some (mk_Size (sz_width s) (ucast (ratio1 div ucast (sz_width ratio)))))"

definition Size_expandedToAspectRatio :: "Size \<Rightarrow> Size \<Rightarrow> Size option" where
  "Size_expandedToAspectRatio s ratio =
     (if \<not> (sz_width ratio \<noteq> 0 \<and> sz_height ratio \<noteq> 0) then None
      else
        let ratio1 = mul64 (sz_width s) (sz_height ratio);
            ratio2 = mul64 (sz_width ratio) (sz_height s)
        in if ratio1 < ratio2
           then Some (mk_Size (ucast (ratio2 div ucast (sz_height ratio))) (sz_height s))
           else Some (mk_Size (sz_width s) (ucast (ratio1 div ucast (sz_width ratio)))))"

text \<open>The ordering of sizes (\<open>operator<\<close> and the comparisons the header derives from it).\<close>

definition Size_lt :: "Size \<Rightarrow> Size \<Rightarrow> bool" where
  "Size_lt lhs rhs =
     (if sz_width lhs < sz_width rhs \<and> sz_height lhs < sz_height rhs then True
      else if sz_width lhs \<ge> sz_width rhs \<and> sz_height lhs \<ge> sz_height rhs then False
      else
        let larea = mul64 (sz_width lhs) (sz_height lhs);
            rarea = mul64 (sz_width rhs) (sz_height rhs)
        in if larea < rarea then True
           else if larea > rarea then False
           else sz_width lhs < sz_width rhs)"

definition Size_le :: "Size \<Rightarrow> Size \<Rightarrow> bool" where
  "Size_le lhs rhs \<longleftrightarrow> Size_lt lhs rhs \<or> lhs = rhs"

definition Size_gt :: "Size \<Rightarrow> Size \<Rightarrow> bool" where
  "Size_gt lhs rhs \<longleftrightarrow> \<not> Size_le lhs rhs"

definition Size_ge :: "Size \<Rightarrow> Size \<Rightarrow> bool" where
  "Size_ge lhs rhs \<longleftrightarrow> \<not> Size_lt lhs rhs"

section \<open>Size ranges\<close>

record SizeRange =
  sr_min :: Size
  sr_max :: Size
  sr_hStep :: u32
  sr_vStep :: u32

definition SizeRange_of_size :: "Size \<Rightarrow> SizeRange" where
  "SizeRange_of_size s = \<lparr>sr_min = s, sr_max = s, sr_hStep = 1, sr_vStep = 1\<rparr>"

definition SizeRange_contains :: "SizeRange \<Rightarrow> Size \<Rightarrow> bool" where
  "SizeRange_contains r s =
     (if sz_width s < sz_width (sr_min r) \<or> sz_width s > sz_width (sr_max r) \<or>
         sz_height s < sz_height (sr_min r) \<or> sz_height s > sz_height (sr_max r) \<or>
         (sr_hStep r \<noteq> 0 \<and> (sz_width s - sz_width (sr_min r)) mod sr_hStep r \<noteq> 0) \<or>
         (sr_vStep r \<noteq> 0 \<and> (sz_height s - sz_height (sr_min r)) mod sr_vStep r \<noteq> 0)
      then False else True)"

section \<open>Rectangles\<close>

record Rectangle =
  rc_x :: i32
  rc_y :: i32
  rc_width :: u32
  rc_height :: u32

abbreviation mk_Rectangle :: "i32 \<Rightarrow> i32 \<Rightarrow> u32 \<Rightarrow> u32 \<Rightarrow> Rectangle" where
  "mk_Rectangle x y w h \<equiv> \<lparr>rc_x = x, rc_y = y, rc_width = w, rc_height = h\<rparr>"

definition Size_centeredTo :: "Size \<Rightarrow> Point \<Rightarrow> Rectangle" where
  "Size_centeredTo s center =
     (let x = pt_x center - sz_width s div 2;
          y = pt_y center - sz_height s div 2
      in mk_Rectangle x y (sz_width s) (sz_height s))"

definition Rectangle_isNull :: "Rectangle \<Rightarrow> bool" where
  "Rectangle_isNull r \<longleftrightarrow> rc_width r = 0 \<and> rc_height r = 0"

definition Rectangle_size :: "Rectangle \<Rightarrow> Size" where
  "Rectangle_size r = mk_Size (rc_width r) (rc_height r)"

definition Rectangle_topLeft :: "Rectangle \<Rightarrow> Point" where
  "Rectangle_topLeft r = \<lparr>pt_x = rc_x r, pt_y = rc_y r\<rparr>"

definition Rectangle_center :: "Rectangle \<Rightarrow> Point" where
  "Rectangle_center r =
     \<lparr>pt_x = rc_x r + rc_width r div 2, pt_y = rc_y r + rc_height r div 2\<rparr>"

text \<open>
  Scaling computes in 64 bits: a signed product and a truncating division for the coordinates
  (the divisor is an \<open>unsigned int\<close>, promoted to \<open>int64_t\<close>), an unsigned one for the size. The
  products fit in 64 bits, so they are written over \<open>int\<close>; the results are cut to 32 bits.
\<close>

definition scale_coord :: "i32 \<Rightarrow> u32 \<Rightarrow> u32 \<Rightarrow> i32" where
  "scale_coord x num den = word_of_int ((sint x * uint num) sdiv uint den)"

definition scale_extent :: "u32 \<Rightarrow> u32 \<Rightarrow> u32 \<Rightarrow> u32" where
  "scale_extent w num den = ucast (mul64 w num div ucast den)"

definition Rectangle_scaleBy :: "Rectangle \<Rightarrow> Size \<Rightarrow> Size \<Rightarrow> Rectangle option" where
  "Rectangle_scaleBy r numerator denominator =
     (if sz_width denominator = 0 \<or> sz_height denominator = 0 then None
      else Some (r\<lparr>rc_x := scale_coord (rc_x r) (sz_width numerator) (sz_width denominator),
                   rc_y := scale_coord (rc_y r) (sz_height numerator) (sz_height denominator),
                   rc_width := scale_extent (rc_width r) (sz_width numerator) (sz_width denominator),
                   rc_height := scale_extent (rc_height r) (sz_height numerator) (sz_height denominator)\<rparr>))"

definition Rectangle_translateBy :: "Rectangle \<Rightarrow> Point \<Rightarrow> Rectangle" where
  "Rectangle_translateBy r p = r\<lparr>rc_x := rc_x r + pt_x p, rc_y := rc_y r + pt_y p\<rparr>"

definition Rectangle_boundedTo :: "Rectangle \<Rightarrow> Rectangle \<Rightarrow> Rectangle" where
  "Rectangle_boundedTo r bound =
     (let topLeftX = smax (rc_x r) (rc_x bound);
          topLeftY = smax (rc_y r) (rc_y bound);
          bottomRightX = smin (rc_x r + rc_width r) (rc_x bound + rc_width bound);
          bottomRightY = smin (rc_y r + rc_height r) (rc_y bound + rc_height bound);
          newWidth = smax (bottomRightX - topLeftX) 0;
          newHeight = smax (bottomRightY - topLeftY) 0
      in mk_Rectangle topLeftX topLeftY newWidth newHeight)"

definition Rectangle_enclosedIn :: "Rectangle \<Rightarrow> Rectangle \<Rightarrow> Rectangle" where
  "Rectangle_enclosedIn r boundary =
     (let result = Rectangle_boundedTo r
            (mk_Rectangle (rc_x r) (rc_y r) (rc_width boundary) (rc_height boundary));
          result = result\<lparr>rc_x := sclamp (rc_x result) (rc_x boundary)
                                   (rc_x boundary + rc_width boundary - rc_width result)\<rparr>;
          result = result\<lparr>rc_y := sclamp (rc_y result) (rc_y boundary)
                                   (rc_y boundary + rc_height boundary - rc_height result)\<rparr>
      in result)"

definition Rectangle_scaledBy :: "Rectangle \<Rightarrow> Size \<Rightarrow> Size \<Rightarrow> Rectangle option" where
  "Rectangle_scaledBy r numerator denominator =
     (if sz_width denominator = 0 \<or> sz_height denominator = 0 then None
      else
        let scaledX = scale_coord (rc_x r) (sz_width numerator) (sz_width denominator);
            scaledY = scale_coord (rc_y r) (sz_height numerator) (sz_height denominator);
            scaledWidth = scale_extent (rc_width r) (sz_width numerator) (sz_width denominator);
            scaledHeight = scale_extent (rc_height r) (sz_height numerator) (sz_height denominator)
        in Some (mk_Rectangle scaledX scaledY scaledWidth scaledHeight))"

definition Rectangle_translatedBy :: "Rectangle \<Rightarrow> Point \<Rightarrow> Rectangle" where
  "Rectangle_translatedBy r p =
     mk_Rectangle (rc_x r + pt_x p) (rc_y r + pt_y p) (rc_width r) (rc_height r)"

section \<open>Products and areas\<close>

lemma unat_ucast_u64: "unat (ucast (a :: u32) :: u64) = unat a"
  using unat_u32_bound [of a] by (simp add: unsigned_ucast_eq take_bit_nat_eq_self)

lemma unat_mul64: "unat (mul64 a b) = unat a * unat b"
proof -
  have "unat a * unat b \<le> (2 ^ 32 - 1) * (2 ^ 32 - 1)"
    using unat_u32_bound [of a] unat_u32_bound [of b] by (intro mult_le_mono) simp_all
  then have "unat a * unat b < 2 ^ 64" by simp
  then show ?thesis by (simp add: mul64_def unat_word_ariths unat_ucast_u64)
qed

lemma mul64_less_iff [simp]: "mul64 a b < mul64 c d \<longleftrightarrow> unat a * unat b < unat c * unat d"
  by (simp add: word_less_nat_alt unat_mul64)

lemma unat_mul64_div:
  "unat (mul64 a b div ucast (c :: u32)) = unat a * unat b div unat c"
  by (simp add: unat_div unat_mul64 unat_ucast_u64)

lemma unat_ucast_u32: "unat w < 2 ^ 32 \<Longrightarrow> unat (ucast (w :: u64) :: u32) = unat w"
  by (simp add: unsigned_ucast_eq take_bit_nat_eq_self)

definition area :: "Size \<Rightarrow> nat" where
  "area s = unat (sz_width s) * unat (sz_height s)"

text \<open>The ordering is the lexicographic order of the area and the width.\<close>

lemma Size_lt_lex_aux:
  "Size_lt a b \<longleftrightarrow> area a < area b \<or> area a = area b \<and> unat (sz_width a) < unat (sz_width b)"
proof -
  have up: "area a < area b" if "sz_width a < sz_width b" "sz_height a < sz_height b"
    using that by (auto simp: area_def word_less_nat_alt intro!: mult_strict_mono)
  have down: "area b \<le> area a" if "sz_width b \<le> sz_width a" "sz_height b \<le> sz_height a"
    using that by (auto simp: area_def word_le_nat_alt intro!: mult_le_mono)
  show ?thesis
    using up down unfolding Size_lt_def Let_def
    by (auto simp: area_def word_less_nat_alt word_le_nat_alt unat_mul64)
qed

text \<open>
  The aspect ratio operations in each dimension: the comparison of the two products decides which
  dimension is recomputed, and the recomputed one is the minimum (or maximum) of the old value
  and of the floor of the exact one.
\<close>

lemma div_le_of_mult_less: "0 < (c :: nat) \<Longrightarrow> a < b * c \<Longrightarrow> a div c \<le> b"
  by (simp add: less_mult_imp_div_less less_imp_le)

lemma div_le_of_mult_le: "0 < (c :: nat) \<Longrightarrow> a \<le> b * c \<Longrightarrow> a div c \<le> b"
  using div_le_mono [of a "b * c" c] by simp

lemma le_div_of_mult_le: "0 < (c :: nat) \<Longrightarrow> a * c \<le> b \<Longrightarrow> a \<le> b div c"
  by (simp add: less_eq_div_iff_mult_less_eq)

lemma boundedToAspectRatio_dims:
  assumes q: "sz_width q \<noteq> 0" "sz_height q \<noteq> 0"
  shows "\<exists>r. Size_boundedToAspectRatio s q = Some r \<and>
      unat (sz_width r) = min (unat (sz_width s))
        (unat (sz_width q) * unat (sz_height s) div unat (sz_height q)) \<and>
      unat (sz_height r) = min (unat (sz_height s))
        (unat (sz_width s) * unat (sz_height q) div unat (sz_width q))"
proof -
  let ?sw = "unat (sz_width s)" and ?sh = "unat (sz_height s)"
  let ?qw = "unat (sz_width q)" and ?qh = "unat (sz_height q)"
  have pos: "0 < ?qw" "0 < ?qh" using q by (simp_all add: unat_gt_0)
  show ?thesis
  proof (cases "?qw * ?sh < ?sw * ?qh")
    case True
    have le: "?qw * ?sh div ?qh \<le> ?sw" using div_le_of_mult_less [OF pos(2) True] .
    have "?sh \<le> ?sw * ?qh div ?qw" using le_div_of_mult_le [OF pos(1), of ?sh] True
      by (simp add: mult.commute)
    with True le q unat_u32_bound [of "sz_width s"] show ?thesis
      by (auto simp: Size_boundedToAspectRatio_def unat_ucast_u32 unat_mul64_div)
  next
    case False
    have le: "?sw * ?qh div ?qw \<le> ?sh"
      using div_le_of_mult_le [OF pos(1)] False by (simp add: mult.commute)
    have "?sw \<le> ?qw * ?sh div ?qh" using le_div_of_mult_le [OF pos(2), of ?sw] False by simp
    with False le q unat_u32_bound [of "sz_height s"] show ?thesis
      by (auto simp: Size_boundedToAspectRatio_def unat_ucast_u32 unat_mul64_div)
  qed
qed

lemma expandedToAspectRatio_dims:
  assumes q: "sz_width q \<noteq> 0" "sz_height q \<noteq> 0"
    and fits: "unat (sz_width q) * unat (sz_height s) div unat (sz_height q) < 2 ^ 32"
      "unat (sz_width s) * unat (sz_height q) div unat (sz_width q) < 2 ^ 32"
  shows "\<exists>r. Size_expandedToAspectRatio s q = Some r \<and>
      unat (sz_width r) = max (unat (sz_width s))
        (unat (sz_width q) * unat (sz_height s) div unat (sz_height q)) \<and>
      unat (sz_height r) = max (unat (sz_height s))
        (unat (sz_width s) * unat (sz_height q) div unat (sz_width q))"
proof -
  let ?sw = "unat (sz_width s)" and ?sh = "unat (sz_height s)"
  let ?qw = "unat (sz_width q)" and ?qh = "unat (sz_height q)"
  have pos: "0 < ?qw" "0 < ?qh" using q by (simp_all add: unat_gt_0)
  show ?thesis
  proof (cases "?sw * ?qh < ?qw * ?sh")
    case True
    have "?sw \<le> ?qw * ?sh div ?qh" using le_div_of_mult_le [OF pos(2), of ?sw] True by simp
    moreover have "?sw * ?qh div ?qw \<le> ?sh"
      using div_le_of_mult_less [OF pos(1)] True by (simp add: mult.commute)
    ultimately show ?thesis using True q fits
      by (auto simp: Size_expandedToAspectRatio_def unat_ucast_u32 unat_mul64_div)
  next
    case False
    have "?sh \<le> ?sw * ?qh div ?qw" using le_div_of_mult_le [OF pos(1), of ?sh] False
      by (simp add: mult.commute)
    moreover have "?qw * ?sh div ?qh \<le> ?sw"
      using div_le_of_mult_le [OF pos(2)] False by simp
    ultimately show ?thesis using False q fits
      by (auto simp: Size_expandedToAspectRatio_def unat_ucast_u32 unat_mul64_div)
  qed
qed

text \<open>
  A size has the exact aspect ratio \<open>q\<close> when cross-multiplying gives equal products; \<open>size_within\<close>
  compares both dimensions.
\<close>

definition has_ratio :: "Size \<Rightarrow> Size \<Rightarrow> bool" where
  "has_ratio t q \<longleftrightarrow>
     unat (sz_width t) * unat (sz_height q) = unat (sz_width q) * unat (sz_height t)"

definition size_within :: "Size \<Rightarrow> Size \<Rightarrow> bool" where
  "size_within a b \<longleftrightarrow> sz_width a \<le> sz_width b \<and> sz_height a \<le> sz_height b"

section \<open>Rectangles as sets of points\<close>

definition small_axis :: "i32 \<Rightarrow> u32 \<Rightarrow> bool" where
  "small_axis x w \<longleftrightarrow> \<bar>sint x\<bar> \<le> 2 ^ 29 \<and> uint w \<le> 2 ^ 29"

text \<open>No operation on rectangles with these extents leaves the range of an \<open>int\<close>.\<close>

definition small_rect :: "Rectangle \<Rightarrow> bool" where
  "small_rect r \<longleftrightarrow> small_axis (rc_x r) (rc_width r) \<and> small_axis (rc_y r) (rc_height r)"

definition axis_has :: "i32 \<Rightarrow> u32 \<Rightarrow> int \<Rightarrow> bool" where
  "axis_has x w p \<longleftrightarrow> sint x \<le> p \<and> p < sint x + uint w"

definition rect_has :: "Rectangle \<Rightarrow> int \<Rightarrow> int \<Rightarrow> bool" where
  "rect_has r px py \<longleftrightarrow>
     axis_has (rc_x r) (rc_width r) px \<and> axis_has (rc_y r) (rc_height r) py"

definition rect_inside :: "Rectangle \<Rightarrow> Rectangle \<Rightarrow> bool" where
  "rect_inside r b \<longleftrightarrow>
     sint (rc_x b) \<le> sint (rc_x r) \<and>
     sint (rc_x r) + uint (rc_width r) \<le> sint (rc_x b) + uint (rc_width b) \<and>
     sint (rc_y b) \<le> sint (rc_y r) \<and>
     sint (rc_y r) + uint (rc_height r) \<le> sint (rc_y b) + uint (rc_height b)"

lemma small_axisD:
  assumes "small_axis x w"
  shows "- 536870912 \<le> sint x" "sint x \<le> 536870912" "0 \<le> uint w" "uint w \<le> 536870912"
  using assms by (simp_all add: small_axis_def abs_le_iff)

lemma small_axis_end:
  assumes "small_axis x w"
  shows "sint (x + w) = sint x + uint w"
  using small_axisD [OF assms] by (intro sint_add_unsigned in_i32I; linarith)

lemma bounded_axis:
  assumes "small_axis x w" "small_axis bx bw"
  shows "uint (smax (smin (x + w) (bx + bw) - smax x bx) 0)
      = max (min (sint x + uint w) (sint bx + uint bw) - max (sint x) (sint bx)) 0"
proof -
  note bounds = small_axisD [OF assms(1)] small_axisD [OF assms(2)]
  have ends: "sint (smin (x + w) (bx + bw)) = min (sint x + uint w) (sint bx + uint bw)"
    using assms by (simp add: sint_smin small_axis_end)
  have "in_i32 (sint (smin (x + w) (bx + bw)) - sint (smax x bx))"
    unfolding ends sint_smax using bounds by (intro in_i32I; linarith)
  then have "sint (smin (x + w) (bx + bw) - smax x bx)
      = min (sint x + uint w) (sint bx + uint bw) - max (sint x) (sint bx)"
    by (simp add: sint_sub_i32 ends sint_smax)
  then have "sint (smax (smin (x + w) (bx + bw) - smax x bx) 0)
      = max (min (sint x + uint w) (sint bx + uint bw) - max (sint x) (sint bx)) 0"
    by (simp add: sint_smax)
  then show ?thesis by (subst uint_of_nonneg_sint) simp_all
qed

lemma bounded_axis_has:
  assumes "small_axis x w" "small_axis bx bw"
  shows "axis_has (smax x bx) (smax (smin (x + w) (bx + bw) - smax x bx) 0) p
      \<longleftrightarrow> axis_has x w p \<and> axis_has bx bw p"
  unfolding axis_has_def bounded_axis [OF assms] sint_smax by linarith

lemma bounded_axis_same:
  "small_axis x w \<Longrightarrow> small_axis x bw \<Longrightarrow>
     smax (smin (x + w) (x + bw) - smax x x) 0 = min w bw"
  using bounded_axis [of x w x bw]
  by (auto simp: min_def word_le_def intro!: uint_eqI)

lemma rect_has_boundedTo:
  assumes "small_rect r" "small_rect b"
  shows "rect_has (Rectangle_boundedTo r b) px py \<longleftrightarrow> rect_has r px py \<and> rect_has b px py"
  using assms
  by (auto simp: rect_has_def Rectangle_boundedTo_def small_rect_def Let_def bounded_axis_has)

lemma enclosed_axis:
  assumes "small_axis x w" "small_axis bx bw"
  defines "nw \<equiv> min w bw"
  defines "nx \<equiv> sclamp x bx (bx + bw - nw)"
  shows "sint bx \<le> sint nx" and "sint nx + uint nw \<le> sint bx + uint bw"
    and "sint bx \<le> sint x \<Longrightarrow> sint x + uint w \<le> sint bx + uint bw \<Longrightarrow> nx = x \<and> nw = w"
proof -
  have nw: "uint nw = min (uint w) (uint bw)"
    by (auto simp: nw_def min_def word_le_def)
  have "in_i32 (sint (bx + bw) - uint nw)"
    using small_axisD [OF assms(1)] small_axisD [OF assms(2)]
    unfolding small_axis_end [OF assms(2)] nw by (intro in_i32I; linarith)
  then have hi: "sint (bx + bw - nw) = sint bx + uint bw - uint nw"
    by (simp add: sint_sub_unsigned small_axis_end [OF assms(2)])
  have nx: "sint nx = max (sint bx) (min (sint x) (sint bx + uint bw - uint nw))"
    using nw by (simp add: nx_def sint_sclamp hi)
  show "sint bx \<le> sint nx" "sint nx + uint nw \<le> sint bx + uint bw"
    using nx nw by auto
  assume "sint bx \<le> sint x" "sint x + uint w \<le> sint bx + uint bw"
  with nx nw have "sint nx = sint x" "uint nw = uint w" by auto
  then show "nx = x \<and> nw = w" by (simp add: sint_eqI uint_eqI)
qed

section \<open>Alignment\<close>

lemma unat_round_down: "unat ((w :: u32) div a * a) = unat w div unat a * unat a"
proof -
  have "unat (w div a) * unat a < 2 ^ 32"
    using round_down_le [of "unat w" "unat a"] unat_u32_bound [of w]
    unfolding unat_div_u32 by (rule le_less_trans)
  then show ?thesis by (simp add: unat_mult_u32 unat_div_u32)
qed

lemma unat_round_up:
  assumes "a \<noteq> 0" "unat w + unat a \<le> 2 ^ 32"
  shows "unat (((w :: u32) + a - 1) div a * a) = (unat w + unat a - 1) div unat a * unat a"
proof -
  have pos: "0 < unat a" using assms(1) by (simp add: unat_gt_0)
  have "unat (a - 1) = unat a - 1"
    using pos by (subst unat_sub_u32) (simp_all add: word_le_nat_alt)
  with assms(2) pos have "unat (w + (a - 1)) = unat w + unat a - 1"
    by (subst unat_add_u32) simp_all
  then show ?thesis by (simp add: unat_round_down add_diff_eq)
qed

section \<open>Properties\<close>

text \<open>
  The comparison of sizes is the lexicographic order of area and width, computed without
  losing bits in the products; two sizes are unordered exactly when they are equal or both have
  width 0.
\<close>

theorem Size_lt_lexicographic:
  "(Size_lt a b \<longleftrightarrow>
      area a < area b \<or> area a = area b \<and> unat (sz_width a) < unat (sz_width b)) \<and>
   (\<not> Size_lt a b \<and> \<not> Size_lt b a \<longleftrightarrow> a = b \<or> sz_width a = 0 \<and> sz_width b = 0)"
proof -
  have "unat (sz_height a) = unat (sz_height b)"
    if "area a = area b" "unat (sz_width a) = unat (sz_width b)" "sz_width a \<noteq> 0"
    using that by (auto simp: area_def unat_eq_0_iff)
  then have "a = b \<or> sz_width a = 0 \<and> sz_width b = 0"
    if "area a = area b" "unat (sz_width a) = unat (sz_width b)"
    using that by (cases "sz_width a = 0") (auto intro!: Size.equality intro: unat_eqI simp: unat_eq_0_iff)
  then show ?thesis by (auto simp: Size_lt_lex_aux area_def)
qed



text \<open>
  Aligning a size up gives, in each dimension, the least multiple of the alignment that is not
  below the dimension, and aligning down the greatest one not above it, as long as the sum the
  code forms does not wrap.
\<close>

theorem Size_aligned_nearest_multiple:
  assumes "h \<noteq> 0" "v \<noteq> 0"
    and "unat (sz_width s) + unat h \<le> 2 ^ 32" "unat (sz_height s) + unat v \<le> 2 ^ 32"
  shows "\<exists>up down. Size_alignedUpTo s h v = Some up \<and> Size_alignedDownTo s h v = Some down \<and>
      unat h dvd unat (sz_width up) \<and> unat v dvd unat (sz_height up) \<and>
      unat h dvd unat (sz_width down) \<and> unat v dvd unat (sz_height down) \<and>
      size_within s up \<and> size_within down s \<and>
      unat (sz_width up) < unat (sz_width s) + unat h \<and>
      unat (sz_height up) < unat (sz_height s) + unat v \<and>
      unat (sz_width s) < unat (sz_width down) + unat h \<and>
      unat (sz_height s) < unat (sz_height down) + unat v"
proof -
  have pos: "0 < unat h" "0 < unat v" using assms by (simp_all add: unat_gt_0)
  note up = unat_round_up [OF assms(1,3)] unat_round_up [OF assms(2,4)]
  show ?thesis
    using round_up_ge [OF pos(1)] round_up_ge [OF pos(2)]
      round_up_less [OF pos(1)] round_up_less [OF pos(2)]
      round_down_gap [OF pos(1)] round_down_gap [OF pos(2)]
    by (simp add: Size_alignedUpTo_def Size_alignedDownTo_def size_within_def word_le_nat_alt
        assms(1,2) up unat_round_down [of "sz_width s"] unat_round_down [of "sz_height s"])
qed

theorem Size_aligned_nearest_multiple_witness:
  "Size_alignedUpTo (mk_Size 1918 1079) 16 8 = Some (mk_Size 1920 1080) \<and>
   (\<exists>up. Size_alignedUpTo (mk_Size 1918 1079) 16 8 = Some up \<and>
      size_within (mk_Size 1918 1079) up)"
  using Size_aligned_nearest_multiple [of 16 8 "mk_Size 1918 1079"]
  by (auto simp: Size_alignedUpTo_def)

text \<open>
  C17. Bounding a rectangle to another one is set intersection: a point lies in the result exactly
  when it lies in both rectangles (disjoint rectangles give an empty one).
\<close>

theorem Rectangle_boundedTo_intersection:
  assumes "small_rect r" "small_rect b"
  shows "rect_has (Rectangle_boundedTo r b) px py \<longleftrightarrow> rect_has r px py \<and> rect_has b px py"
  using assms by (rule rect_has_boundedTo)

theorem Rectangle_boundedTo_intersection_witness:
  "rect_has (Rectangle_boundedTo (mk_Rectangle 0 0 640 480) (mk_Rectangle (-10) 20 100 100)) 89 119
   \<and> \<not> rect_has (Rectangle_boundedTo (mk_Rectangle 0 0 640 480)
          (mk_Rectangle (-10) 20 100 100)) 90 119"
  by (subst (1 2) Rectangle_boundedTo_intersection)
    (simp_all add: small_rect_def small_axis_def rect_has_def axis_has_def)

text \<open>
  Enclosing a rectangle in a boundary keeps it inside the boundary, with each dimension the
  smaller of the two, and leaves a rectangle that already is inside unchanged.
\<close>

theorem Rectangle_enclosedIn_inside:
  assumes "small_rect r" "small_rect b"
  shows "rect_inside (Rectangle_enclosedIn r b) b \<and>
      rc_width (Rectangle_enclosedIn r b) = min (rc_width r) (rc_width b) \<and>
      rc_height (Rectangle_enclosedIn r b) = min (rc_height r) (rc_height b) \<and>
      (rect_inside r b \<longrightarrow> Rectangle_enclosedIn r b = r)"
proof -
  have axes: "small_axis (rc_x r) (rc_width r)" "small_axis (rc_x b) (rc_width b)"
    "small_axis (rc_y r) (rc_height r)" "small_axis (rc_y b) (rc_height b)"
    using assms by (simp_all add: small_rect_def)
  then have across: "small_axis (rc_x r) (rc_width b)" "small_axis (rc_y r) (rc_height b)"
    by (simp_all add: small_axis_def)
  have same: "smax x x = x" for x by (simp add: smax_def)
  have eq: "Rectangle_enclosedIn r b = mk_Rectangle
      (sclamp (rc_x r) (rc_x b) (rc_x b + rc_width b - min (rc_width r) (rc_width b)))
      (sclamp (rc_y r) (rc_y b) (rc_y b + rc_height b - min (rc_height r) (rc_height b)))
      (min (rc_width r) (rc_width b)) (min (rc_height r) (rc_height b))"
    using axes across
    by (simp add: Rectangle_enclosedIn_def Rectangle_boundedTo_def Let_def
        bounded_axis_same [unfolded same] same)
  show ?thesis
    using enclosed_axis [OF axes(1,2)] enclosed_axis [OF axes(3,4)]
    unfolding eq rect_inside_def by (auto simp: Rectangle.equality)
qed

theorem Rectangle_enclosedIn_inside_witness:
  "rect_inside (Rectangle_enclosedIn (mk_Rectangle 600 (-5) 100 100) (mk_Rectangle 0 0 640 480))
     (mk_Rectangle 0 0 640 480)"
  using Rectangle_enclosedIn_inside [of "mk_Rectangle 600 (-5) 100 100" "mk_Rectangle 0 0 640 480"]
  by (simp add: small_rect_def small_axis_def)

lemma Rectangle_center_centeredTo: "Rectangle_center (Size_centeredTo s c) = c"
  by (simp add: Rectangle_center_def Size_centeredTo_def)

lemma Rectangle_scaledBy_scaleBy: "Rectangle_scaledBy r n d = Rectangle_scaleBy r n d"
  by (simp add: Rectangle_scaledBy_def Rectangle_scaleBy_def)

end
