(* ===== verification/Bytes.thy ===== *)
theory Bytes
  imports Prelude Geometry
begin

text \<open>
  Objects as bytes. The code copies plain objects to and from byte storage with \<open>memcpy\<close> (control
  values, serialized buffers), so their representation is visible: integers are little-endian, as
  on the machines the library targets, and the members of \<open>Size\<close> and \<open>Rectangle\<close> follow each other
  without padding. The locale \<open>pod\<close> states what a byte representation promises; it is interpreted
  on each of them.
\<close>

fun le_bytes :: "nat \<Rightarrow> nat \<Rightarrow> u8 list" where
  "le_bytes 0 n = []"
| "le_bytes (Suc k) n = of_nat (n mod 256) # le_bytes k (n div 256)"

fun le_nat :: "u8 list \<Rightarrow> nat" where
  "le_nat [] = 0"
| "le_nat (b # bs) = unat b + 256 * le_nat bs"

lemma length_le_bytes [simp]: "length (le_bytes k n) = k"
  by (induction k arbitrary: n) simp_all

lemma unat_of_nat_u8: "n < 256 \<Longrightarrow> unat (of_nat n :: u8) = n"
  by (simp add: unat_of_nat take_bit_nat_eq_self)

lemma le_nat_le_bytes: "le_nat (le_bytes k n) = n mod 256 ^ k"
proof (induction k arbitrary: n)
  case 0
  then show ?case by simp
next
  case (Suc k)
  have "n mod 256 ^ Suc k = n mod 256 + 256 * (n div 256 mod 256 ^ k)"
    by (simp add: mod_mult2_eq)
  with Suc show ?case by (simp add: unat_of_nat_u8)
qed

lemma le_nat_less: "le_nat bs < 256 ^ length bs"
proof (induction bs)
  case Nil
  then show ?case by simp
next
  case (Cons b bs)
  have "unat b < 256" using unsigned_less [of b] by simp
  with Cons show ?case by simp
qed

lemma le_bytes_le_nat: "le_bytes (length bs) (le_nat bs) = bs"
proof (induction bs)
  case Nil
  then show ?case by simp
next
  case (Cons b bs)
  have "unat b < 256" using unsigned_less [of b] by simp
  with Cons show ?case by simp
qed

section \<open>Representations\<close>

definition bytes_u8 :: "u8 \<Rightarrow> u8 list" where "bytes_u8 w = [w]"
definition u8_bytes :: "u8 list \<Rightarrow> u8" where "u8_bytes bs = of_nat (le_nat bs)"
definition bytes_u16 :: "u16 \<Rightarrow> u8 list" where "bytes_u16 w = le_bytes 2 (unat w)"
definition u16_bytes :: "u8 list \<Rightarrow> u16" where "u16_bytes bs = of_nat (le_nat bs)"
definition bytes_u32 :: "u32 \<Rightarrow> u8 list" where "bytes_u32 w = le_bytes 4 (unat w)"
definition u32_bytes :: "u8 list \<Rightarrow> u32" where "u32_bytes bs = of_nat (le_nat bs)"
definition bytes_u64 :: "u64 \<Rightarrow> u8 list" where "bytes_u64 w = le_bytes 8 (unat w)"
definition u64_bytes :: "u8 list \<Rightarrow> u64" where "u64_bytes bs = of_nat (le_nat bs)"

definition bytes_bool :: "bool \<Rightarrow> u8 list" where "bytes_bool b = [if b then 1 else 0]"
definition bool_bytes :: "u8 list \<Rightarrow> bool" where "bool_bytes bs \<longleftrightarrow> le_nat bs \<noteq> 0"

definition bytes_Size :: "Size \<Rightarrow> u8 list" where
  "bytes_Size s = bytes_u32 (sz_width s) @ bytes_u32 (sz_height s)"

definition Size_bytes :: "u8 list \<Rightarrow> Size" where
  "Size_bytes bs = mk_Size (u32_bytes (take 4 bs)) (u32_bytes (take 4 (drop 4 bs)))"

definition bytes_Rectangle :: "Rectangle \<Rightarrow> u8 list" where
  "bytes_Rectangle r =
     bytes_u32 (rc_x r) @ bytes_u32 (rc_y r) @ bytes_u32 (rc_width r) @ bytes_u32 (rc_height r)"

definition Rectangle_bytes :: "u8 list \<Rightarrow> Rectangle" where
  "Rectangle_bytes bs =
     mk_Rectangle (u32_bytes (take 4 bs)) (u32_bytes (take 4 (drop 4 bs)))
       (u32_bytes (take 4 (drop 8 bs))) (u32_bytes (take 4 (drop 12 bs)))"

text \<open>Splitting an array of objects of \<open>n\<close> bytes each.\<close>

fun chunks :: "nat \<Rightarrow> nat \<Rightarrow> 'a list \<Rightarrow> 'a list list" where
  "chunks 0 n bs = []"
| "chunks (Suc k) n bs = take n bs # chunks k n (drop n bs)"

lemma length_chunks [simp]: "length (chunks k n bs) = k"
  by (induction k arbitrary: bs) simp_all

section \<open>The contract of a representation\<close>

locale pod =
  fixes size :: nat
    and enc :: "'a \<Rightarrow> u8 list"
    and dec :: "u8 list \<Rightarrow> 'a"
  assumes length_enc [simp]: "length (enc x) = size"
    and dec_enc [simp]: "dec (enc x) = x"
begin

lemma enc_inject: "enc x = enc y \<longleftrightarrow> x = y"
  by (metis dec_enc)

lemma dec_prefix: "dec (take size (enc x @ bs)) = x"
  by simp

lemma length_concat_enc: "length (concat (map enc xs)) = length xs * size"
  by (induction xs) simp_all

lemma chunks_concat_enc:
  "chunks (length xs) size (concat (map enc xs) @ bs) = map enc xs"
  by (induction xs) simp_all

lemma map_dec_chunks: "map dec (chunks (length xs) size (concat (map enc xs) @ bs)) = xs"
  by (simp add: chunks_concat_enc o_def)

end

lemma of_nat_unat_mod:
  assumes "256 ^ k = (2 :: nat) ^ LENGTH('a)"
  shows "of_nat (le_nat (le_bytes k (unat w))) = (w :: 'a::len word)"
  using unsigned_less [of w] by (simp add: le_nat_le_bytes assms)

interpretation pod_u8: pod 1 bytes_u8 u8_bytes
  by unfold_locales (simp_all add: bytes_u8_def u8_bytes_def)

interpretation pod_u16: pod 2 bytes_u16 u16_bytes
  by unfold_locales (simp_all add: bytes_u16_def u16_bytes_def of_nat_unat_mod)

interpretation pod_u32: pod 4 bytes_u32 u32_bytes
  by unfold_locales (simp_all add: bytes_u32_def u32_bytes_def of_nat_unat_mod)

interpretation pod_u64: pod 8 bytes_u64 u64_bytes
  by unfold_locales (simp_all add: bytes_u64_def u64_bytes_def of_nat_unat_mod)

interpretation pod_bool: pod 1 bytes_bool bool_bytes
  by unfold_locales (simp_all add: bytes_bool_def bool_bytes_def)

interpretation pod_Size: pod 8 bytes_Size Size_bytes
  by unfold_locales (simp_all add: bytes_Size_def Size_bytes_def)

interpretation pod_Rectangle: pod 16 bytes_Rectangle Rectangle_bytes
  by unfold_locales (simp_all add: bytes_Rectangle_def Rectangle_bytes_def)

lemma bytes_u32_u32_bytes: "length bs = 4 \<Longrightarrow> bytes_u32 (u32_bytes bs) = bs"
  using le_nat_less [of bs] le_bytes_le_nat [of bs]
  by (simp add: bytes_u32_def u32_bytes_def unat_of_nat take_bit_nat_eq_self)

end
