(* ===== verification/Streamer.thy ===== *)
theory Streamer
  imports KCamera Bytes
begin

text \<open>
  Stream objects, \<open>streamer.c\<close>: the live stream and recordings as Python sees them, and recordings in
  files. A file is a list of bytes; opening, write errors, memory and the memory reserve are arguments.
\<close>

section \<open>Frames as bytes\<close>

text \<open>The bytes of a frame in memory, and the frame that a piece of memory holds.\<close>

definition frame_bytes :: "KcFrame \<Rightarrow> u8 list" where
  "frame_bytes fr = bytes_u16 (m_width fr) @ bytes_u16 (m_height fr) @ m_pad fr @ bytes_u64 (m_pts fr) @
     bytes_u32 (m_type fr) @ m_data fr"

definition bytes_frame :: "u8 list \<Rightarrow> KcFrame" where
  "bytes_frame bs =
     \<lparr>m_width = u16_bytes (take 2 bs), m_height = u16_bytes (take 2 (drop 2 bs)), m_pad = take 4 (drop 4 bs),
      m_pts = u64_bytes (take 8 (drop 8 bs)), m_type = u32_bytes (take 4 (drop 16 bs)), m_data = drop 20 bs\<rparr>"

definition MAGIC :: u32 where "MAGIC = 0xc1ab511c"

section \<open>Saving\<close>

text \<open>
  \<open>werr\<close> says whether the stream is in error after the given bytes were written. The result is the file
  and the number of bytes, or nothing when an exception is raised.
\<close>

partial_function (option) save_loop ::
    "(u8 list \<Rightarrow> bool) \<Rightarrow> 'z cmem_scheme \<Rightarrow> FrameList \<Rightarrow> u8 list \<Rightarrow> u32
      \<Rightarrow> (FrameList \<times> (u8 list \<times> u32) option) option" where
  "save_loop werr mem l out len =
     (case flistNext mem l of
        None \<Rightarrow> None
      | Some r \<Rightarrow>
          (case snd r of
             None \<Rightarrow> Some (fst r, Some (out, len))
           | Some f \<Rightarrow>
               (case c_frames mem f of
                  None \<Rightarrow> None
                | Some fr \<Rightarrow>
                    let sz = kcSizeofFrame fr;
                        out' = out @ bytes_u32 MAGIC @ bytes_u32 sz @ take (unat sz) (frame_bytes fr)
                    in if unat sz > length (frame_bytes fr) then None
                       else if werr out' then Some (fst r, None)
                       else save_loop werr mem (fst r) out' (len + 4 + 4 + sz))))"

definition streamer_save ::
    "bool \<Rightarrow> (u8 list \<Rightarrow> bool) \<Rightarrow> 'z cmem_scheme \<Rightarrow> FrameList \<Rightarrow> (FrameList \<times> (u8 list \<times> u32) option) option" where
  "streamer_save opens werr mem l =
     (if \<not> opens then Some (l, None)
      else (case flistSeek mem l 0 of None \<Rightarrow> None | Some (l, _) \<Rightarrow> save_loop werr mem l [] 0))"

section \<open>Loading\<close>

datatype load_result = LoadDone | LoadError

text \<open>
  Iteration \<open>i\<close> gets the addresses \<open>fa i\<close> for the frame and \<open>na i\<close> for the list node; \<open>low i\<close> says that the memory
  reserve is exceeded. A file that ends within a magic number is accepted. A frame that is cut off
  stays allocated.
\<close>

function load_loop ::
    "(nat \<Rightarrow> bool) \<Rightarrow> (nat \<Rightarrow> nat option) \<Rightarrow> (nat \<Rightarrow> nat option) \<Rightarrow> nat \<Rightarrow> u8 list \<Rightarrow> 'z cmem_scheme \<Rightarrow> FrameList
      \<Rightarrow> ('z cmem_scheme \<times> FrameList \<times> load_result) option" where
  "load_loop low fa na i bs mem l =
     (if low i then Some (mem, l, LoadError)
      else if length (take 4 bs) \<noteq> 4 \<or> u32_bytes (take 4 bs) \<noteq> MAGIC
      then Some (mem, l, if length bs < 4 then LoadDone else LoadError)
      else if length (take 4 (drop 4 bs)) \<noteq> 4 then Some (mem, l, LoadError)
      else
        (case fa i of
           None \<Rightarrow> Some (mem, l, LoadError)
         | Some f \<Rightarrow>
             let n = unat (u32_bytes (take 4 (drop 4 bs)));
                 body = take n (drop 8 bs);
                 mem' = mem\<lparr>c_frames := (c_frames mem)(f \<mapsto> bytes_frame body)\<rparr>
             in if length body \<noteq> n then Some (mem', l, LoadError)
                else if n < 16 then None
                else
                  (case flistAppend (na i) mem' l f of
                     None \<Rightarrow> None
                   | Some r \<Rightarrow> load_loop low fa na (Suc i) (drop (8 + n) bs) (fst r) (fst (snd r)))))"
  by pat_completeness auto

termination
  by (relation "measure (\<lambda>(low, fa, na, i, bs, mem, l). length bs)") auto

declare load_loop.simps [simp del]

definition streamer_load ::
    "bool \<Rightarrow> (nat \<Rightarrow> bool) \<Rightarrow> (nat \<Rightarrow> nat option) \<Rightarrow> (nat \<Rightarrow> nat option) \<Rightarrow> u8 list \<Rightarrow> 'z cmem_scheme \<Rightarrow> FrameList
      \<Rightarrow> ('z cmem_scheme \<times> FrameList \<times> load_result) option" where
  "streamer_load opens low fa na bs mem l =
     (if \<not> opens then Some (mem, l, LoadError) else load_loop low fa na 0 bs mem l)"

section \<open>Files of frames\<close>

text \<open>A frame whose allocation has the size that its dimensions ask for.\<close>

definition frame_wf :: "KcFrame \<Rightarrow> bool" where
  "frame_wf fr \<longleftrightarrow> length (m_pad fr) = 4 \<and> 20 + length (m_data fr) = unat (kcSizeofFrame fr)"

definition record_bytes :: "KcFrame \<Rightarrow> u8 list" where
  "record_bytes fr = bytes_u32 MAGIC @ bytes_u32 (kcSizeofFrame fr) @ frame_bytes fr"

lemma length_frame_bytes: "frame_wf fr \<Longrightarrow> length (frame_bytes fr) = unat (kcSizeofFrame fr)"
  by (simp add: frame_wf_def frame_bytes_def)

lemma bytes_frame_bytes: "length (m_pad fr) = 4 \<Longrightarrow> bytes_frame (frame_bytes fr) = fr"
  by (simp add: bytes_frame_def frame_bytes_def)

lemma record_parts:
  assumes "frame_wf fr"
  shows "take 4 (record_bytes fr @ bs) = bytes_u32 MAGIC"
    "take 4 (drop 4 (record_bytes fr @ bs)) = bytes_u32 (kcSizeofFrame fr)"
    "take (unat (kcSizeofFrame fr)) (drop 8 (record_bytes fr @ bs)) = frame_bytes fr"
    "drop (8 + unat (kcSizeofFrame fr)) (record_bytes fr @ bs) = bs"
  using length_frame_bytes [OF assms] by (simp_all add: record_bytes_def)

lemma save_loop_writes:
  assumes "flist mem l ps" "cursor_at l ps j" "\<And>fr. fr \<in> set (frames_of mem ps) \<Longrightarrow> frame_wf fr" "\<And>bs. \<not> werr bs"
  shows "\<exists>l' len'. save_loop werr mem l out len =
    Some (l', Some (out @ concat (map record_bytes (drop j (frames_of mem ps))), len')) \<and> flist mem l' ps"
  using assms(1,2)
proof (induction "length ps - j" arbitrary: j l out len)
  case 0
  have ch: "node_chain mem (m_front l) ps None" using 0(2) by (simp add: flist_def)
  have "flistNext mem l = Some (l, None)" using flistNext_chain [OF ch 0(3)] 0(1) by simp
  then show ?case using 0 by (subst save_loop.simps) (simp add: frames_of_def)
next
  case (Suc x)
  have ch: "node_chain mem (m_front l) ps None" using Suc.prems(1) by (simp add: flist_def)
  have j: "j < length ps" using Suc.hyps(2) by simp
  let ?l = "l\<lparr>m_readNode := NextField (fst (ps ! j)), m_readIndex := m_readIndex l + 1\<rparr>"
  define fr where "fr = frame_of mem (ps ! j)"
  have nx: "flistNext mem l = Some (?l, Some (snd (ps ! j)))" using flistNext_chain [OF ch Suc.prems(2)] j by simp
  have cf: "c_frames mem (snd (ps ! j)) = Some fr"
    using node_chain_frame [OF ch, of "ps ! j"] j by (simp add: fr_def)
  have wf: "frame_wf fr" by (rule assms(3)) (use j in \<open>simp add: fr_def frames_of_def\<close>)
  have dr: "drop j (frames_of mem ps) = fr # drop (Suc j) (frames_of mem ps)"
    using j by (simp add: fr_def frames_of_def Cons_nth_drop_Suc [symmetric])
  have "save_loop werr mem l out len =
      save_loop werr mem ?l (out @ record_bytes fr) (len + 4 + 4 + kcSizeofFrame fr)"
    using assms(4) length_frame_bytes [OF wf]
    by (subst save_loop.simps) (simp add: nx cf Let_def record_bytes_def)
  moreover have "\<exists>l' len'. save_loop werr mem ?l (out @ record_bytes fr) (len + 4 + 4 + kcSizeofFrame fr) =
      Some (l', Some ((out @ record_bytes fr) @ concat (map record_bytes (drop (Suc j) (frames_of mem ps))), len')) \<and>
      flist mem l' ps"
    by (rule Suc.hyps(1)) (use Suc.hyps(2) Suc.prems j flist_shape [OF Suc.prems(1)] in \<open>auto simp: cursor_at_def\<close>)
  ultimately show ?case by (simp add: dr)
qed

text \<open>A recording without start shift and duration takes every frame at its end.\<close>

definition plain :: "FrameList \<Rightarrow> bool" where
  "plain l \<longleftrightarrow> m_recording l = 1 \<and> m_startShift l = 0 \<and> m_duration l = 0"

lemma plain_append:
  assumes "flist mem l ps" "plain l" "c_frames mem f = Some fr" "f \<notin> snd ` set ps" "c_nodes mem n = None"
    "length ps + 1 < 2 ^ 32"
  shows "\<exists>mem' l'. flistAppend (Some n) mem l f = Some (mem', l', 0) \<and> flist mem' l' (ps @ [(n, f)]) \<and>
    frames_of mem' (ps @ [(n, f)]) = frames_of mem ps @ [fr] \<and> c_frames mem' = c_frames mem \<and>
    (\<forall>x. x \<notin> fst ` set ps \<and> x \<noteq> n \<longrightarrow> c_nodes mem' x = c_nodes mem x) \<and> plain l' \<and> cmem.more mem' = cmem.more mem"
proof -
  have p: "m_recording l \<noteq> 0" "\<not> past l" "\<not> waiting l p" for p
    using assms(2) by (simp_all add: plain_def past_def waiting_def)
  have al: "append_list l p time xs x = xs @ [x]" for p and time :: "'b \<Rightarrow> u64" and xs x
    by (simp add: append_list_def wait_keep_def Let_def p)
  have d: "\<not> duration_reached l fs" for fs using assms(2) by (simp add: duration_reached_def plain_def)
  have dr: "append_drops l fr mem ps (n, f) = []" by (simp add: append_drops_def al)
  have "recording_after l fr fs = 1" for fs using assms(2) d by (simp add: recording_after_def plain_def)
  with flistAppend_chain [OF assms(1) p(1) assms(3,4) _ assms(6), of n] assms(2,5) show ?thesis
    by (auto simp: al d dr node_fresh_def rec_fields_def plain_def)
qed

lemma load_loop_reads:
  assumes "flist mem l ps" "plain l" "\<And>fr. fr \<in> set frs \<Longrightarrow> frame_wf fr" "\<And>k. \<not> low k"
    and "\<And>k. fa k = Some (F k)" "\<And>k. na k = Some (N k)" "inj F" "inj N"
    and "\<And>k. i \<le> k \<Longrightarrow> c_frames mem (F k) = None \<and> c_nodes mem (N k) = None"
    and "length ps + length frs < 2 ^ 32"
  shows "\<exists>mem' l' ps'. load_loop low fa na i (concat (map record_bytes frs)) mem l = Some (mem', l', LoadDone) \<and>
    flist mem' l' ps' \<and> frames_of mem' ps' = frames_of mem ps @ frs"
  using assms(1-3,9,10)
proof (induction frs arbitrary: i mem l ps)
  case Nil
  then show ?case using assms(4) by (subst load_loop.simps) auto
next
  case (Cons fr frs)
  let ?rest = "concat (map record_bytes frs)"
  have wf: "frame_wf fr" by (simp add: Cons.prems(3))
  have n: "16 \<le> unat (kcSizeofFrame fr)" using wf by (simp add: frame_wf_def)
  let ?mem = "mem\<lparr>c_frames := (c_frames mem)(F i \<mapsto> fr)\<rparr>"
  have new: "c_frames mem (F i) = None" "c_nodes mem (N i) = None" using Cons.prems(4) [of i] by simp_all
  have Fi: "F i \<notin> snd ` set ps" using flist_in_memory [OF Cons.prems(1)] new(1) by blast
  have fl: "flist ?mem l ps" by (rule flist_cong [OF Cons.prems(1)]) (use Fi in \<open>metis | simp\<close>)+
  have "frame_of ?mem y = frame_of mem y" if "y \<in> set ps" for y
  proof -
    have "snd y \<noteq> F i" using Fi imageI [OF that, of snd] by metis
    then show ?thesis by (simp add: frame_of_def)
  qed
  then have fo: "frames_of ?mem ps = frames_of mem ps" by (simp add: frames_of_def)
  from plain_append [OF fl Cons.prems(2) _ Fi, of fr "N i"] new(2) Cons.prems(5) obtain mem1 l1 where
    app: "flistAppend (Some (N i)) ?mem l (F i) = Some (mem1, l1, 0)" "flist mem1 l1 (ps @ [(N i, F i)])"
    "frames_of mem1 (ps @ [(N i, F i)]) = frames_of mem ps @ [fr]" "c_frames mem1 = c_frames ?mem"
    "\<forall>x. x \<notin> fst ` set ps \<and> x \<noteq> N i \<longrightarrow> c_nodes mem1 x = c_nodes ?mem x" "plain l1" by (auto simp: fo)
  have parts: "take 4 (record_bytes fr @ ?rest) = bytes_u32 MAGIC"
    "take 4 (drop 4 (record_bytes fr @ ?rest)) = bytes_u32 (kcSizeofFrame fr)"
    "take (unat (kcSizeofFrame fr)) (drop 8 (record_bytes fr @ ?rest)) = frame_bytes fr"
    "drop (8 + unat (kcSizeofFrame fr)) (record_bytes fr @ ?rest) = ?rest" by (rule record_parts [OF wf])+
  have "load_loop low fa na i (record_bytes fr @ ?rest) mem l = load_loop low fa na (Suc i) ?rest mem1 l1"
    using n wf by (subst load_loop.simps)
      (simp only: parts assms(4-6) Let_def pod_u32.dec_enc option.case app(1) length_frame_bytes [OF wf]
        bytes_frame_bytes frame_wf_def fst_conv snd_conv, simp)
  moreover have "\<exists>mem' l' ps'. load_loop low fa na (Suc i) ?rest mem1 l1 = Some (mem', l', LoadDone) \<and>
      flist mem' l' ps' \<and> frames_of mem' ps' = frames_of mem1 (ps @ [(N i, F i)]) @ frs"
  proof (rule Cons.IH [OF app(2,6)])
    show "c_frames mem1 (F k) = None \<and> c_nodes mem1 (N k) = None" if "Suc i \<le> k" for k
    proof -
      have k: "c_frames mem (F k) = None" "c_nodes mem (N k) = None" "F k \<noteq> F i" "N k \<noteq> N i"
        using Cons.prems(4) [of k] that assms(7,8) by (auto simp: inj_eq)
      have "N k \<notin> fst ` set ps" using flist_node [OF Cons.prems(1)] k(2) by (metis imageE)
      then show ?thesis using k app(4,5) by simp
    qed
  qed (use Cons.prems in auto)
  ultimately show ?case using app(3) by simp
qed

section \<open>Stream objects\<close>

record Streamer =
  st_record :: "nat option"
  st_index :: u32
  st_startShift :: i32
  st_duration :: u32

text \<open>A stream of the camera (no file name): the current recording, or the live stream.\<close>

definition streamer_init :: "('f, 'z) KcState_scheme \<Rightarrow> Streamer option" where
  "streamer_init w =
     (case kcGetRecord w of
        None \<Rightarrow> Some \<lparr>st_record = None, st_index = 0, st_startShift = 0, st_duration = 0\<rparr>
      | Some m \<Rightarrow>
          (case k_lists w m of
             None \<Rightarrow> None
           | Some l \<Rightarrow> Some \<lparr>st_record = Some m, st_index = 0, st_startShift = m_startShift l,
                             st_duration = m_duration l\<rparr>))"

definition streamer_open ::
    "bool \<Rightarrow> (nat \<Rightarrow> bool) \<Rightarrow> (nat \<Rightarrow> nat option) \<Rightarrow> (nat \<Rightarrow> nat option) \<Rightarrow> u8 list \<Rightarrow> nat \<Rightarrow> ('f, 'z) KcState_scheme
      \<Rightarrow> (('f, 'z) KcState_scheme \<times> Streamer \<times> load_result) option" where
  "streamer_open opens low fa na bs m w =
     (case streamer_load opens low fa na bs w (flistInit 0 0) of
        None \<Rightarrow> None
      | Some (w, l, r) \<Rightarrow>
          Some (w\<lparr>k_lists := (k_lists w)(m \<mapsto> l)\<rparr>,
                \<lparr>st_record = Some m, st_index = 0, st_startShift = 0, st_duration = 0\<rparr>, r))"

definition streamer_dealloc ::
    "'f float_ops \<Rightarrow> Streamer \<Rightarrow> ('f, 'z) KcState_scheme \<Rightarrow> ('f, 'z) KcState_scheme option" where
  "streamer_dealloc F s w =
     (case st_record s of
        None \<Rightarrow> kcStop F w
      | Some m \<Rightarrow>
          (case (if Some m = kcGetRecord w then kcStopRecord w else Some w) of
             None \<Rightarrow> None
           | Some w \<Rightarrow>
               (case k_lists w m of
                  None \<Rightarrow> None
                | Some l \<Rightarrow>
                    (case flistClear w l of
                       None \<Rightarrow> None
                     | Some (w, l) \<Rightarrow> Some (w\<lparr>k_lists := (k_lists w)(m := None)\<rparr>)))))"

definition put_list :: "nat \<Rightarrow> FrameList \<Rightarrow> ('f, 'z) KcState_scheme \<Rightarrow> ('f, 'z) KcState_scheme" where
  "put_list m l w = w\<lparr>k_lists := (k_lists w)(m \<mapsto> l)\<rparr>"

text \<open>
  \<open>streamer_frame\<close> after its waits. From a recording: the next frame, copied. From the live stream while
  a recording runs: its newest frame, copied; \<open>kcCopyFrame\<close> is called on the null pointer when there is
  none. Otherwise the frame of the slot. The result is the frame handed to Python and its index.
\<close>

definition streamer_frame_record ::
    "(nat \<times> u8 list) option \<Rightarrow> Streamer \<Rightarrow> nat \<Rightarrow> ('f, 'z) KcState_scheme
      \<Rightarrow> (('f, 'z) KcState_scheme \<times> Streamer \<times> nat option) option" where
  "streamer_frame_record alloc s m w =
     (case k_lists w m of
        None \<Rightarrow> None
      | Some l \<Rightarrow>
          let s = s\<lparr>st_index := m_readIndex l\<rparr> in
          (case flistNext w l of
             None \<Rightarrow> None
           | Some (l, None) \<Rightarrow> Some (put_list m l w, s, None)
           | Some (l, Some f) \<Rightarrow>
               (case kcCopyFrame alloc f (put_list m l w) of
                  None \<Rightarrow> None
                | Some w \<Rightarrow> Some (w, s, map_option fst alloc))))"

definition streamer_frame_live ::
    "(nat \<times> u8 list) option \<Rightarrow> Streamer \<Rightarrow> ('f, 'z) KcState_scheme
      \<Rightarrow> (('f, 'z) KcState_scheme \<times> Streamer \<times> nat option) option" where
  "streamer_frame_live alloc s w =
     (case kcGetRecord w of
        None \<Rightarrow>
          (case kcNextStreamFrame_take w of
             (w, None) \<Rightarrow> Some (w, s, None)
           | (w, Some f) \<Rightarrow> Some (w, s\<lparr>st_index := st_index s + 1\<rparr>, Some f))
      | Some m \<Rightarrow>
          (case k_lists w m of
             None \<Rightarrow> None
           | Some l \<Rightarrow>
               (case m_back l of
                  None \<Rightarrow> None
                | Some b \<Rightarrow>
                    (case c_nodes w b of
                       None \<Rightarrow> None
                     | Some node \<Rightarrow>
                         (case n_frame node of
                            None \<Rightarrow> None
                          | Some f \<Rightarrow>
                              (case kcCopyFrame alloc f w of
                                 None \<Rightarrow> None
                               | Some w \<Rightarrow> Some (w, s\<lparr>st_index := st_index s + 1\<rparr>, map_option fst alloc)))))))"

text \<open>The memory of a frame is freed with the array that Python holds (\<open>dobj.c\<close>).\<close>

definition dobj_dealloc :: "nat \<Rightarrow> ('f, 'z) KcState_scheme \<Rightarrow> ('f, 'z) KcState_scheme option" where
  "dobj_dealloc f w = free_frame w f"

definition streamer_seek :: "Streamer \<Rightarrow> u32 \<Rightarrow> ('f, 'z) KcState_scheme \<Rightarrow> (('f, 'z) KcState_scheme \<times> bool) option" where
  "streamer_seek s index w =
     (case st_record s of
        None \<Rightarrow> Some (w, False)
      | Some m \<Rightarrow>
          (case k_lists w m of
             None \<Rightarrow> None
           | Some l \<Rightarrow>
               (case flistSeek w l index of None \<Rightarrow> None | Some (l, _) \<Rightarrow> Some (put_list m l w, True))))"

definition streamer_stop :: "'f float_ops \<Rightarrow> Streamer \<Rightarrow> ('f, 'z) KcState_scheme \<Rightarrow> ('f, 'z) KcState_scheme option" where
  "streamer_stop F s w = (if st_record s \<noteq> None then kcStopRecord w else kcStop F w)"

definition streamer_start :: "Streamer \<Rightarrow> ('f, 'z) KcState_scheme \<Rightarrow> ('f, 'z) KcState_scheme option" where
  "streamer_start s w =
     (case st_record s of
        None \<Rightarrow> Some w
      | Some m \<Rightarrow>
          (case k_lists w m of None \<Rightarrow> None | Some l \<Rightarrow> Some (put_list m (l\<lparr>m_recording := 1\<rparr>) w)))"

definition streamer_recording :: "Streamer \<Rightarrow> ('f, 'z) KcState_scheme \<Rightarrow> i32 option" where
  "streamer_recording s w =
     (case st_record s of None \<Rightarrow> Some 0 | Some m \<Rightarrow> map_option m_recording (k_lists w m))"

definition streamer_len :: "Streamer \<Rightarrow> ('f, 'z) KcState_scheme \<Rightarrow> int option" where
  "streamer_len s w =
     (case st_record s of None \<Rightarrow> Some (- 1) | Some m \<Rightarrow> map_option (\<lambda>l. uint (m_len l)) (k_lists w m))"

definition streamer_index :: "Streamer \<Rightarrow> ('f, 'z) KcState_scheme \<Rightarrow> u32 option" where
  "streamer_index s w =
     (case st_record s of None \<Rightarrow> Some (st_index s) | Some m \<Rightarrow> map_option m_readIndex (k_lists w m))"

definition streamer_progress :: "i32 \<Rightarrow> Streamer \<Rightarrow> ('f, 'z) KcState_scheme \<Rightarrow> u32 option" where
  "streamer_progress mfree s w =
     (if st_record s \<noteq> None \<and> st_record s \<noteq> kcGetRecord w
      then (case k_lists w (the (st_record s)) of
              None \<Rightarrow> None
            | Some l \<Rightarrow> Some (if m_len l \<noteq> 0 then 100 * m_readIndex l div m_len l else 0))
      else kcRecordProgress mfree w)"

text \<open>The time in microseconds, before the division by a million.\<close>

definition streamer_time :: "Streamer \<Rightarrow> ('f, 'z) KcState_scheme \<Rightarrow> int option" where
  "streamer_time s w =
     (case st_record s of
        None \<Rightarrow> Some 0
      | Some m \<Rightarrow>
          (case k_lists w m of
             None \<Rightarrow> None
           | Some l \<Rightarrow>
               if m_front l = None \<or> m_back l = None then Some (- sint (m_startShift l))
               else
                 (case node_pts w (m_front l) of
                    None \<Rightarrow> None
                  | Some front \<Rightarrow>
                      if Some m \<noteq> kcGetRecord w then
                        (case cursor_ptr w l of
                           None \<Rightarrow> None
                         | Some None \<Rightarrow> Some 0
                         | Some (Some n) \<Rightarrow>
                             (case node_pts w (Some n) of None \<Rightarrow> None | Some p \<Rightarrow> Some (uint (p - front))))
                      else if sint (m_startShift l) > 0 \<and> m_recording l = - 1
                      then Some (sint (front - scast (m_t0 l) - scast (m_startShift l) :: i64))
                      else (case node_pts w (m_back l) of None \<Rightarrow> None | Some b \<Rightarrow> Some (uint (b - front))))))"

definition streamer_setAttr_start_shift ::
    "Streamer \<Rightarrow> i32 \<Rightarrow> ('f, 'z) KcState_scheme \<Rightarrow> (('f, 'z) KcState_scheme \<times> Streamer) option" where
  "streamer_setAttr_start_shift s v w =
     (let s = s\<lparr>st_startShift := v\<rparr> in
      case st_record s of
        None \<Rightarrow> Some (w, s)
      | Some m \<Rightarrow>
          (case k_lists w m of None \<Rightarrow> None | Some l \<Rightarrow> Some (put_list m (l\<lparr>m_startShift := v\<rparr>) w, s)))"

definition streamer_setAttr_duration ::
    "Streamer \<Rightarrow> u32 \<Rightarrow> ('f, 'z) KcState_scheme \<Rightarrow> (('f, 'z) KcState_scheme \<times> Streamer) option" where
  "streamer_setAttr_duration s v w =
     (let s = s\<lparr>st_duration := v\<rparr> in
      case st_record s of
        None \<Rightarrow> Some (w, s)
      | Some m \<Rightarrow>
          (case k_lists w m of None \<Rightarrow> None | Some l \<Rightarrow> Some (put_list m (l\<lparr>m_duration := v\<rparr>) w, s)))"

text \<open>\<open>camera_record\<close> of \<open>kcameramodule.c\<close>, after its arguments were read; \<open>m\<close> is the address of the list.\<close>

definition camera_record ::
    "'f float_ops \<Rightarrow> nat \<Rightarrow> ('f, 'z) KcState_scheme \<Rightarrow> (('f, 'z) KcState_scheme \<times> Streamer option) option" where
  "camera_record F m w =
     (case (if kcGetRecord w \<noteq> None then kcStopRecord w else Some w) of
        None \<Rightarrow> None
      | Some w \<Rightarrow>
          (case kcStartRecord F m w of
             (w, ret) \<Rightarrow>
               if sint ret < 0 then Some (w, None)
               else let w = kcStart w in Some (w, streamer_init w)))"

section \<open>Ownership across the operations\<close>

lemma stopInternal_Some_inv:
  assumes "kc_inv w R P" "kcStopInternal F join signal w = Some w'"
  shows "kc_inv w' R P"
proof (cases "join \<and> \<not> k_thread w \<and> \<not> k_stopping w")
  case False
  then show ?thesis using kc_inv_stopInternal [OF assms(1), of join F signal] assms(2) by auto
next
  case True
  then have "kcStopInternal F join signal w = None"
    by (auto simp: kcStopInternal_def kcStopCameraLoop_def free_frame_def Let_def split: option.splits)
  then show ?thesis using assms(2) by simp
qed

lemma stopRecord_Some_inv: "kc_inv w R P \<Longrightarrow> kcStopRecord w = Some w' \<Longrightarrow> kc_inv w' R P \<and> k_frame w' = k_frame w \<and> k_record w' = None"
  using kc_inv_stopRecord [of w R P] by auto

lemma free_outside_inv:
  assumes "kc_inv w R P" "f \<in> P" "free_frame w f = Some w'"
  shows "kc_inv w' R (P - {f})"
proof -
  have f: "f \<notin> listed R" "k_frame w \<noteq> Some f" using assms(1,2) by (auto simp: kc_inv_def)
  have w': "w' = w\<lparr>c_frames := (c_frames w)(f := None)\<rparr>" using assms(3) by (auto simp: free_frame_def split: option.splits)
  have "flist w' l (R m)" if "k_lists w m = Some l" for m l
    by (rule flist_cong [of w]) (use assms(1) that f(1) in \<open>auto simp: kc_inv_def lists_ok_def listed_def w'\<close>)
  then show ?thesis using assms(1,2) f by (auto simp: kc_inv_def lists_ok_def w')
qed

lemma copy_inv:
  assumes "kc_inv w R P" "c_frames w f = None" "kcCopyFrame (Some (f, junk)) f0 w = Some w'"
  shows "kc_inv w' R (insert f P)"
proof -
  obtain fr where w': "w' = w\<lparr>c_frames := (c_frames w)(f \<mapsto> fr)\<rparr>"
    using assms(3) by (auto simp: kcCopyFrame_def Let_def split: option.splits if_splits)
  have f: "f \<notin> listed R" "k_frame w \<noteq> Some f" "f \<notin> P" using assms(1,2) by (auto simp: kc_inv_def)
  have "flist w' l (R m)" if "k_lists w m = Some l" for m l
    by (rule flist_cong [of w]) (use assms(1) that f(1) in \<open>auto simp: kc_inv_def lists_ok_def listed_def w'\<close>)
  then show ?thesis using assms(1) f by (auto simp: kc_inv_def lists_ok_def w')
qed

lemma put_list_inv:
  "kc_inv w R P \<Longrightarrow> k_lists w m = Some l \<Longrightarrow> m_front l' = m_front l \<Longrightarrow> m_back l' = m_back l \<Longrightarrow>
   m_len l' = m_len l \<Longrightarrow> kc_inv (put_list m l' w) R P"
  unfolding put_list_def by (rule kc_inv_list)

text \<open>Reading and seeking move only the cursor.\<close>

lemma flistNext_shape:
  "flistNext mem l = Some (l', r) \<Longrightarrow> m_front l' = m_front l \<and> m_back l' = m_back l \<and> m_len l' = m_len l"
  by (auto simp: flistNext_def split: option.splits)

lemma flistSeek_shape:
  assumes "flist mem l ps" "flistSeek mem l n = Some (l', r)"
  shows "m_front l' = m_front l \<and> m_back l' = m_back l \<and> m_len l' = m_len l"
proof (cases "unat n < length ps")
  case False
  then show ?thesis using flistSeek_out [OF assms(1), of n] assms(2) by simp
next
  case True
  let ?l = "l\<lparr>m_readIndex := 0, m_readNode := FrontField\<rparr>"
  have "node_chain mem (m_front ?l) ps None" "length ps < 2 ^ 32" using assms(1) by (simp_all add: flist_def)
  from seek_loop_chain [OF this(1), of 0 "unat n"] this(2) True obtain l1 where
    l1: "seek_loop mem ?l n = Some l1" "l1 = ?l\<lparr>m_readNode := m_readNode l1, m_readIndex := n\<rparr>"
    by (auto simp: cursor_at_def)
  have "\<not> n \<ge> m_len l" using True flist_len [OF assms(1)] by (simp add: word_le_nat_alt)
  then have "l' = l1" using assms(2) l1(1) by (simp add: flistSeek_def)
  then show ?thesis by (subst (1 2 3) \<open>l' = l1\<close>, subst (1 2 3) l1(2)) simp
qed

lemma kc_inv_flist: "kc_inv w R P \<Longrightarrow> k_lists w m = Some l \<Longrightarrow> flist w l (R m)"
  by (simp add: kc_inv_def lists_ok_def)

lemma listed_empty: "listed (R(m := [])) \<union> snd ` set (R m) = listed R"
proof -
  have "R(m := R m) = R" by simp
  then show ?thesis using listed_upd [of R m "[]"] listed_upd [of R m "R m"] by auto
qed

lemma dealloc_list_inv:
  assumes "kc_inv w R P" "k_lists w m = Some l" "k_record w \<noteq> Some m" "flistClear w l = Some (w', l')"
  shows "kc_inv (w'\<lparr>k_lists := (k_lists w')(m := None)\<rparr>) (R(m := [])) P"
proof -
  have fl: "flist w l (R m)" by (rule kc_inv_flist [OF assms(1,2)])
  then have w': "w' = free_pairs (R m) w"
    using free_nodes_chain [of w "m_front l" "R m"] assms(4) by (simp add: flistClear_def flist_def)
  have dis: "fst ` set (R m') \<inter> fst ` set (R m) = {}" "snd ` set (R m') \<inter> snd ` set (R m) = {}" if "m' \<noteq> m" for m'
    using assms(1) that by (simp_all add: kc_inv_def lists_ok_def)
  have other: "flist w' l2 (R m')" if "k_lists w m' = Some l2" "m' \<noteq> m" for m' l2
    by (rule flist_cong [OF kc_inv_flist [OF assms(1) that(1)]])
      (use dis [OF that(2)] in \<open>auto simp: w' free_pairs_other disjoint_iff\<close>)
  have lists: "k_lists w' = k_lists w" "k_frame w' = k_frame w" "k_record w' = k_record w"
    by (simp_all add: w' free_pairs_def)
  have "lists_ok (w'\<lparr>k_lists := (k_lists w')(m := None)\<rparr>) (R(m := []))"
    using assms(1) other unfolding lists_ok_def kc_inv_def lists by (auto simp: lists)
  moreover have "snd ` set (R m) \<inter> listed (R(m := [])) = {}"
    using dis(2) listed_upd [of R m "[]"] by auto
  moreover have "dom (c_frames w') = dom (c_frames w) - snd ` set (R m)"
    by (auto simp: w' free_pairs_def)
  ultimately show ?thesis
    using assms(1,3) listed_empty [of R m] unfolding kc_inv_def lists by (auto simp: lists)
qed

lemma start_record_inv:
  assumes "kc_inv w R P" "k_lists w m = None" "kcStartRecord F m w = (w', ret)"
  shows "kc_inv w' R P"
proof (cases "k_record w")
  case (Some r)
  then show ?thesis using assms by (simp add: kcStartRecord_def)
next
  case None
  have "R m = []" using assms(1,2) by (simp add: kc_inv_def lists_ok_def)
  moreover have "w' = w\<lparr>k_record := Some m, k_lists := (k_lists w)(m \<mapsto>
      flistInit (p_startShift (k_params w)) (fo_unsigned F (p_duration (k_params w))))\<rparr>"
    using None assms(3) by (simp add: kcStartRecord_def)
  ultimately show ?thesis
    using assms(1) by (auto simp: kc_inv_def lists_ok_def flist_Nil flistInit_def)
qed

lemma kcStart_frame [simp]: "k_frame (kcStart w) = None"
  by (simp add: kcStart_def kcStartCameraLoop_def kcSetMinMaxFramerate_def Let_def)

lemma update_params_inv:
  assumes "kc_inv w R P" "kcUpdateParams F w = Some w'"
  shows "kc_inv w' R (P \<union> (set_option (k_frame w) - set_option (k_frame w')))"
proof -
  obtain w1 restart where w1: "apply_params F w = Some (w1, restart)"
    using assms(2) by (auto simp: kcUpdateParams_def split: option.splits)
  then have q: "quiet w w1" by (rule apply_params_quiet)
  have i1: "kc_inv w1 R P" by (rule kc_inv_cong [OF assms(1)]) (use q in \<open>simp_all add: quiet_def\<close>)
  show ?thesis
  proof (cases "restart \<and> k_run w1")
    case False
    have "w' = w1\<lparr>k_currParams := k_params w1\<rparr>"
      using assms(2) unfolding kcUpdateParams_def w1 option.case prod.case if_not_P [OF False] by simp
    moreover from this have "k_frame w' = k_frame w" using q by (simp add: quiet_def)
    ultimately show ?thesis using i1 by simp
  next
    case True
    then obtain w2 where w2: "kcStopInternal F True False w1 = Some w2"
      "w' = kcStart (upd_params w2 (\<lambda>p. p\<lparr>p_shutterSpeed := maxShutterSpeed F (p_framerate p)\<rparr>))"
      using assms(2) w1 by (auto simp: kcUpdateParams_def split: option.splits)
    have "k_frame w2 = k_frame w1"
      using w2(1) by (auto simp: kcStopInternal_def kcStopCameraLoop_def Let_def split: if_splits)
    then have "k_frame w2 = k_frame w" using q by (simp add: quiet_def)
    moreover have "kc_inv w2 R P" by (rule stopInternal_Some_inv [OF i1 w2(1)])
    then have "kc_inv (upd_params w2 (\<lambda>p. p\<lparr>p_shutterSpeed := maxShutterSpeed F (p_framerate p)\<rparr>)) R P"
      by (rule kc_inv_cong) simp_all
    from kc_inv_start [OF this] have "kc_inv w' R (P \<union> set_option (k_frame w2))"
      by (simp add: w2(2))
    moreover have "k_frame w' = None" by (simp add: w2(2))
    ultimately show ?thesis by simp
  qed
qed


lemma camera_record_inv:
  assumes "kc_inv w R P" "k_lists w m = None" "camera_record F m w = Some (w', s)"
  shows "kc_inv w' R (P \<union> (set_option (k_frame w) - set_option (k_frame w')))"
proof -
  obtain w1 where w1: "(if kcGetRecord w \<noteq> None then kcStopRecord w else Some w) = Some w1"
    using assms(3) by (cases "if kcGetRecord w \<noteq> None then kcStopRecord w else Some w") (simp_all add: camera_record_def)
  have i1: "kc_inv w1 R P" "k_frame w1 = k_frame w" "k_record w1 = None"
    using w1 stopRecord_Some_inv [OF assms(1)] assms(1) by (auto simp: kcGetRecord_def split: if_splits)
  have "k_lists w1 m = None"
    using w1 assms(1,2) by (auto simp: kcStopRecord_def kcGetRecord_def split: if_splits option.splits)
  moreover obtain w2 ret where w2: "kcStartRecord F m w1 = (w2, ret)" by fastforce
  ultimately have i2: "kc_inv w2 R P" using start_record_inv [OF i1(1)] by simp
  have fr: "ret = 0" "k_frame w2 = k_frame w" using w2 i1(2,3) by (auto simp: kcStartRecord_def)
  have "w' = kcStart w2" using assms(3) w1 w2 fr(1) by (simp add: camera_record_def Let_def)
  then show ?thesis using kc_inv_start [OF i2] fr(2) by simp
qed

lemma streamer_dealloc_inv:
  assumes "kc_inv w R P" "streamer_dealloc F s w = Some w'"
  shows "\<exists>R'. kc_inv w' R' P"
proof (cases "st_record s")
  case None
  then show ?thesis using assms(2) stopInternal_Some_inv [OF assms(1)] unfolding streamer_dealloc_def kcStop_def by fastforce
next
  case (Some m)
  obtain w1 where w1: "(if Some m = kcGetRecord w then kcStopRecord w else Some w) = Some w1"
    using assms(2) Some by (cases "if Some m = kcGetRecord w then kcStopRecord w else Some w") (simp_all add: streamer_dealloc_def)
  have i1: "kc_inv w1 R P" "k_record w1 \<noteq> Some m"
    using w1 stopRecord_Some_inv [OF assms(1)] assms(1) by (auto simp: kcGetRecord_def split: if_splits)
  obtain l w2 l2 where "k_lists w1 m = Some l" "flistClear w1 l = Some (w2, l2)"
    "w' = w2\<lparr>k_lists := (k_lists w2)(m := None)\<rparr>"
    using assms(2) Some w1 by (auto simp: streamer_dealloc_def split: option.splits)
  then show ?thesis using dealloc_list_inv [OF i1(1) _ i1(2)] by blast
qed

lemma frame_record_inv:
  assumes "kc_inv w R P" "\<And>f junk. alloc = Some (f, junk) \<Longrightarrow> c_frames w f = None"
    and "streamer_frame_record alloc s m w = Some (w', s', fo)"
  shows "kc_inv w' R (P \<union> set_option fo)"
proof -
  obtain l l1 r where l: "k_lists w m = Some l" "flistNext w l = Some (l1, r)"
    using assms(3) by (auto simp: streamer_frame_record_def Let_def split: option.splits)
  have i1: "kc_inv (put_list m l1 w) R P"
    using put_list_inv [OF assms(1) l(1)] flistNext_shape [OF l(2)] by simp
  show ?thesis
  proof (cases r)
    case None
    then show ?thesis using assms(3) l i1 by (simp add: streamer_frame_record_def Let_def)
  next
    case (Some f0)
    then obtain w2 where w2: "kcCopyFrame alloc f0 (put_list m l1 w) = Some w2" "w' = w2" "fo = map_option fst alloc"
      using assms(3) l by (auto simp: streamer_frame_record_def Let_def split: option.splits)
    then obtain f junk where al: "alloc = Some (f, junk)"
      by (cases alloc) (auto simp: kcCopyFrame_def Let_def split: option.splits)
    have "kc_inv w2 R (insert f P)"
      by (rule copy_inv [OF i1 _ w2(1) [unfolded al]]) (use assms(2) al in \<open>simp add: put_list_def\<close>)
    then show ?thesis using w2 al by simp
  qed
qed

lemma take_inv:
  assumes "kc_inv w R P" "kcNextStreamFrame_take w = (w', fo)"
  shows "kc_inv w' R (P \<union> set_option fo)"
proof -
  have w': "w' = w\<lparr>k_frame := None\<rparr>" "fo = k_frame w" using assms(2) by (simp_all add: kcNextStreamFrame_take_def)
  show ?thesis using assms(1) unfolding w' kc_inv_def lists_ok_def by (simp add: Int_Un_distrib2)
qed

lemma frame_live_inv:
  assumes "kc_inv w R P" "\<And>f junk. alloc = Some (f, junk) \<Longrightarrow> c_frames w f = None"
    and "streamer_frame_live alloc s w = Some (w', s', fo)"
  shows "kc_inv w' R (P \<union> set_option fo)"
proof (cases "kcGetRecord w")
  case None
  obtain w1 f1 where t: "kcNextStreamFrame_take w = (w1, f1)" by fastforce
  then have "w' = w1" "fo = f1" using None assms(3) by (auto simp: streamer_frame_live_def split: option.splits)
  then show ?thesis using take_inv [OF assms(1) t] by simp
next
  case (Some m)
  then obtain f0 where w2: "kcCopyFrame alloc f0 w = Some w'" "fo = map_option fst alloc"
    using assms(3) by (auto simp: streamer_frame_live_def split: option.splits)
  then obtain f junk where al: "alloc = Some (f, junk)"
    by (cases alloc) (auto simp: kcCopyFrame_def Let_def split: option.splits)
  then show ?thesis using copy_inv [OF assms(1) _ w2(1) [unfolded al]] assms(2) w2(2) by simp
qed


section \<open>Files that may be broken\<close>

text \<open>Whatever the bytes are, loading touches only its own list; what was there before stays as it is.\<close>

lemma plain_append_none:
  assumes "flist mem l ps" "plain l" "c_frames mem f = Some fr"
  shows "\<exists>l'. flistAppend None mem l f = Some (mem, l', - 2) \<and> flist mem l' ps \<and> plain l'"
proof -
  let ?l1 = "l\<lparr>m_t0 := start_time l (m_pts fr)\<rparr>"
  have t0: "(if sint (m_t0 l) < 0 then l\<lparr>m_t0 := ucast (m_pts fr)\<rparr> else l) = ?l1" by (simp add: start_time_def)
  have p: "\<not> waiting l x" "m_startShift l = 0" "m_recording l = 1" for x
    using assms(2) by (simp_all add: plain_def waiting_def)
  have "append_wait mem ?l1 fr = Some (mem, ?l1)"
    using append_wait_chain [OF flist_shape [OF assms(1)], of ?l1 l fr] by (simp add: p)
  then have "flistAppend None mem l f = Some (mem, ?l1, - 2)"
    unfolding flistAppend_def assms(3) option.case t0 Let_def by (simp add: p)
  moreover have "flist mem ?l1 ps" by (rule flist_shape [OF assms(1)]) simp_all
  ultimately show ?thesis using assms(2) by (simp add: plain_def)
qed

lemma plain_append_any:
  assumes "flist mem l ps" "plain l" "c_frames mem f = Some fr" "f \<notin> snd ` set ps"
    "\<And>n. na = Some n \<Longrightarrow> c_nodes mem n = None" "length ps + 1 < 2 ^ 32"
  shows "\<exists>mem' l' qs ret. flistAppend na mem l f = Some (mem', l', ret) \<and> flist mem' l' (ps @ qs) \<and> plain l' \<and>
    set qs \<subseteq> (case na of None \<Rightarrow> {} | Some n \<Rightarrow> {(n, f)}) \<and> length qs \<le> 1 \<and> c_frames mem' = c_frames mem \<and>
    (\<forall>x. x \<notin> fst ` set ps \<and> na \<noteq> Some x \<longrightarrow> c_nodes mem' x = c_nodes mem x) \<and> cmem.more mem' = cmem.more mem"
proof (cases na)
  case None
  then show ?thesis using plain_append_none [OF assms(1-3)] by (metis append_Nil2 empty_subsetI list.set(1) list.size(3) option.case(1) zero_le)
next
  case (Some n)
  from plain_append [OF assms(1-4) assms(5) [OF Some] assms(6)] obtain mem' l' where
    "flistAppend na mem l f = Some (mem', l', 0)" "flist mem' l' (ps @ [(n, f)])" "c_frames mem' = c_frames mem"
    "\<forall>x. x \<notin> fst ` set ps \<and> x \<noteq> n \<longrightarrow> c_nodes mem' x = c_nodes mem x" "plain l'" "cmem.more mem' = cmem.more mem"
    using Some by auto
  then show ?thesis using Some by (intro exI [of _ mem'] exI [of _ l'] exI [of _ "[(n, f)]"] exI [of _ 0]) auto
qed

text \<open>\<open>kept mem ps mem' ps'\<close>: outside the lists, memory that is in use stays as it is.\<close>

definition kept :: "'z cmem_scheme \<Rightarrow> (nat \<times> nat) list \<Rightarrow> 'z cmem_scheme \<Rightarrow> (nat \<times> nat) list \<Rightarrow> bool" where
  "kept mem ps mem' ps' \<longleftrightarrow>
     cmem.more mem' = cmem.more mem \<and>
     (\<forall>n. c_nodes mem n \<noteq> None \<and> n \<notin> fst ` set ps \<longrightarrow> c_nodes mem' n = c_nodes mem n \<and> n \<notin> fst ` set ps') \<and>
     (\<forall>f. c_frames mem f \<noteq> None \<and> f \<notin> snd ` set ps \<longrightarrow> c_frames mem' f = c_frames mem f \<and> f \<notin> snd ` set ps')"

lemma kept_refl: "kept mem ps mem ps"
  by (simp add: kept_def)

lemma kept_trans: "kept mem ps mem1 ps1 \<Longrightarrow> kept mem1 ps1 mem2 ps2 \<Longrightarrow> kept mem ps mem2 ps2"
  unfolding kept_def by metis

lemma kept_alloc:
  assumes "c_frames mem f = None"
  shows "kept mem ps (mem\<lparr>c_frames := (c_frames mem)(f \<mapsto> fr)\<rparr>) ps"
  using assms by (auto simp: kept_def)

definition fresh_from :: "nat \<Rightarrow> (nat \<Rightarrow> nat option) \<Rightarrow> (nat \<Rightarrow> 'b option) \<Rightarrow> bool" where
  "fresh_from i fa c \<longleftrightarrow>
     (\<forall>k x. i \<le> k \<longrightarrow> fa k = Some x \<longrightarrow> c x = None) \<and>
     (\<forall>k k' x. i \<le> k \<longrightarrow> i \<le> k' \<longrightarrow> fa k = Some x \<longrightarrow> fa k' = Some x \<longrightarrow> k = k')"

lemma fresh_from_now: "fresh_from i fa c \<Longrightarrow> fa i = Some x \<Longrightarrow> c x = None"
  unfolding fresh_from_def by blast

lemma fresh_from_Suc:
  assumes "fresh_from i fa c" "\<And>x. fa i \<noteq> Some x \<Longrightarrow> c x = None \<Longrightarrow> c' x = None"
  shows "fresh_from (Suc i) fa c'"
  unfolding fresh_from_def
proof (intro conjI allI impI)
  show "c' x = None" if "Suc i \<le> k" "fa k = Some x" for k x
  proof (rule assms(2))
    show "fa i \<noteq> Some x" using assms(1) that unfolding fresh_from_def by (metis Suc_leD Suc_n_not_le_n order_refl)
    show "c x = None" using assms(1) that unfolding fresh_from_def by (meson Suc_leD)
  qed
  show "k = k'" if "Suc i \<le> k" "Suc i \<le> k'" "fa k = Some x" "fa k' = Some x" for k k' x
    using assms(1) that unfolding fresh_from_def by (meson Suc_leD)
qed

lemma load_loop_kept:
  assumes "flist mem l ps" "plain l" "fresh_from i fa (c_frames mem)" "fresh_from i na (c_nodes mem)"
    and "length ps + length bs < 2 ^ 32" "load_loop low fa na i bs mem l = Some (mem', l', r)"
  shows "\<exists>ps'. flist mem' l' ps' \<and> kept mem ps mem' ps'"
  using assms
proof (induction low fa na i bs mem l arbitrary: ps rule: load_loop.induct)
  case (1 low fa na i bs mem l)
  note [simp] = Let_def
  let ?n = "unat (u32_bytes (take 4 (drop 4 bs)))"
  let ?body = "take ?n (drop 8 bs)"
  show ?case
  proof (cases "low i \<or> length (take 4 bs) \<noteq> 4 \<or> u32_bytes (take 4 bs) \<noteq> MAGIC \<or> length (take 4 (drop 4 bs)) \<noteq> 4 \<or> fa i = None")
    case True
    then have "mem' = mem" "l' = l"
      using "1.prems"(6) by (subst (asm) load_loop.simps, auto split: if_splits)+
    then show ?thesis using "1.prems"(1) kept_refl by blast
  next
    case False
    then obtain f where go: "\<not> low i" "\<not> (length (take 4 bs) \<noteq> 4 \<or> u32_bytes (take 4 bs) \<noteq> MAGIC)"
      "\<not> length (take 4 (drop 4 bs)) \<noteq> 4" "fa i = Some f" by blast
    let ?mem = "mem\<lparr>c_frames := (c_frames mem)(f \<mapsto> bytes_frame ?body)\<rparr>"
    have run: "load_loop low fa na i bs mem l =
        (if length ?body \<noteq> ?n then Some (?mem, l, LoadError)
         else if ?n < 16 then None
         else (case flistAppend (na i) ?mem l f of None \<Rightarrow> None
               | Some r \<Rightarrow> load_loop low fa na (Suc i) (drop (8 + ?n) bs) (fst r) (fst (snd r))))"
      by (subst load_loop.simps) (simp only: go if_False Let_def option.case)
    have new: "c_frames mem f = None" by (rule fresh_from_now [OF "1.prems"(3) go(4)])
    then have f: "f \<notin> snd ` set ps" using flist_in_memory [OF "1.prems"(1)] by blast
    have fl: "flist ?mem l ps" by (rule flist_cong [OF "1.prems"(1)]) (use f in \<open>metis | simp\<close>)+
    have kp: "kept mem ps ?mem ps" by (rule kept_alloc [OF new])
    show ?thesis
    proof (cases "length ?body = ?n \<and> 16 \<le> ?n")
      case False
      then have "mem' = ?mem" "l' = l" using "1.prems"(6) run by (auto split: if_splits)
      then show ?thesis using fl kp by blast
    next
      case True
      then have "8 + ?n \<le> length bs" "16 \<le> ?n" by auto
      have na: "c_nodes ?mem n = None" if "na i = Some n" for n
        using fresh_from_now [OF "1.prems"(4) that] by simp
      have len: "length ps + 1 < 2 ^ 32" using "1.prems"(5) \<open>8 + ?n \<le> length bs\<close> by simp
      have "c_frames ?mem f = Some (bytes_frame ?body)" by simp
      from plain_append_any [of ?mem l ps f _ "na i", OF fl "1.prems"(2) this f na len]
      obtain mem1 l1 qs ret where
        app: "flistAppend (na i) ?mem l f = Some (mem1, l1, ret)" "flist mem1 l1 (ps @ qs)" "plain l1"
        "set qs \<subseteq> (case na i of None \<Rightarrow> {} | Some n \<Rightarrow> {(n, f)})" "length qs \<le> 1" "c_frames mem1 = c_frames ?mem"
        "\<forall>x. x \<notin> fst ` set ps \<and> na i \<noteq> Some x \<longrightarrow> c_nodes mem1 x = c_nodes ?mem x" "cmem.more mem1 = cmem.more ?mem"
        by blast
      have k1: "kept mem ps mem1 (ps @ qs)"
        using app(4,6-8) new na by (auto simp: kept_def split: option.splits)
      have nodes: "c_nodes mem1 x = None" if "na i \<noteq> Some x" "c_nodes mem x = None" for x
      proof -
        have "x \<notin> fst ` set ps" using flist_node [OF "1.prems"(1)] that(2) by (metis imageE)
        then show ?thesis using app(7) that by simp
      qed
      have "\<exists>ps'. flist mem' l' ps' \<and> kept mem1 (ps @ qs) mem' ps'"
      proof (rule "1.IH" [OF go refl refl refl _ _ app(1), unfolded fst_conv snd_conv])
        show "fresh_from (Suc i) fa (c_frames mem1)"
          by (rule fresh_from_Suc [OF "1.prems"(3)]) (use app(6) go(4) in auto)
        show "fresh_from (Suc i) na (c_nodes mem1)"
          by (rule fresh_from_Suc [OF "1.prems"(4)]) (rule nodes)
        show "length (ps @ qs) + length (drop (8 + ?n) bs) < 2 ^ 32"
          using "1.prems"(5) app(5) \<open>8 + ?n \<le> length bs\<close> by simp
      qed (use app run True "1.prems"(6) in simp_all)
      then show ?thesis using kept_trans [OF k1] by blast
    qed
  qed
qed

lemma node_chain_unique: "node_chain mem p ps None \<Longrightarrow> node_chain mem p qs None \<Longrightarrow> ps = qs"
proof (induction ps arbitrary: p qs)
  case Nil
  then show ?case by (cases qs) auto
next
  case (Cons a ps)
  obtain n f where a: "a = (n, f)" by (cases a)
  then obtain g qs' where "qs = (n, g) # qs'" using Cons.prems by (cases qs) auto
  then show ?case using Cons a by auto
qed

lemma owners_after_load:
  assumes "D = P \<union> S \<union> L" "D' = D \<union> N \<union> (D' - D - N)" "N \<inter> D = {}" "P \<inter> S = {}" "P \<inter> L = {}" "S \<inter> L = {}"
  shows "D' = (P \<union> (D' - D - N)) \<union> S \<union> (L \<union> N)" "(P \<union> (D' - D - N)) \<inter> S = {}"
    "(P \<union> (D' - D - N)) \<inter> (L \<union> N) = {}" "S \<inter> (L \<union> N) = {}"
  using assms by blast+

lemma streamer_open_inv:
  assumes "kc_inv w R P" "k_lists w m = None" "length bs < 2 ^ 32"
    and "fresh_from 0 fa (c_frames w)" "fresh_from 0 na (c_nodes w)"
    and "streamer_open opens low fa na bs m w = Some (w', s, r)" "k_lists w' m = Some l" "flist w' l ps"
  shows "kc_inv w' (R(m := ps)) (P \<union> (dom (c_frames w') - dom (c_frames w) - snd ` set ps))"
proof -
  have e: "flist w (flistInit 0 0) []" "plain (flistInit 0 0)"
    by (auto simp: flist_Nil flistInit_def plain_def)
  obtain w1 l1 where w1: "streamer_load opens low fa na bs w (flistInit 0 0) = Some (w1, l1, r)"
    "w' = w1\<lparr>k_lists := (k_lists w1)(m \<mapsto> l1)\<rparr>"
    using assms(6) by (auto simp: streamer_open_def split: option.splits)
  have "\<exists>ps'. flist w1 l1 ps' \<and> kept w [] w1 ps'"
  proof (cases opens)
    case True
    then show ?thesis using w1(1) load_loop_kept [OF e assms(4,5)] assms(3) by (simp add: streamer_load_def)
  next
    case False
    then show ?thesis using w1(1) e(1) kept_refl by (auto simp: streamer_load_def)
  qed
  moreover have l1: "l1 = l" using assms(7) w1(2) by simp
  ultimately obtain ps' where ps': "flist w1 l ps'" "kept w [] w1 ps'" by blast
  have fl1: "flist w1 l ps" using assms(8) w1(2) by simp
  then have "ps' = ps" using ps'(1) node_chain_unique unfolding flist_def by blast
  then have k: "cmem.more w1 = cmem.more w"
    "\<And>n. c_nodes w n \<noteq> None \<Longrightarrow> c_nodes w1 n = c_nodes w n \<and> n \<notin> fst ` set ps"
    "\<And>f. c_frames w f \<noteq> None \<Longrightarrow> c_frames w1 f = c_frames w f \<and> f \<notin> snd ` set ps"
    using ps'(2) by (auto simp: kept_def)
  have same: "k_lists w1 = k_lists w" "k_frame w1 = k_frame w" "k_record w1 = k_record w"
    using kc_more [OF k(1)] by simp_all
  have nodes: "c_nodes w n \<noteq> None" if n: "n \<in> fst ` set (R m')" for n m'
  proof (cases "k_lists w m'")
    case None
    then show ?thesis using n assms(1) by (simp add: kc_inv_def lists_ok_def)
  next
    case (Some l')
    then show ?thesis using n flist_node [OF kc_inv_flist [OF assms(1) Some]] by auto
  qed
  have frames: "c_frames w f \<noteq> None" if "f \<in> P \<union> set_option (k_frame w) \<union> listed R" for f
    using that assms(1) unfolding kc_inv_def by blast
  have fl: "flist w1 l2 (R m')" if "k_lists w m' = Some l2" for l2 m'
    by (rule flist_cong [OF kc_inv_flist [OF assms(1) that]])
      (use k(2,3) nodes flist_in_memory [OF kc_inv_flist [OF assms(1) that]] in blast)+
  have Rm: "R m = []" using assms(1,2) by (simp add: kc_inv_def lists_ok_def)
  have "lists_ok w' (R(m := ps))"
  proof -
    have dis: "fst ` set ps \<inter> fst ` set (R m') = {}" "snd ` set ps \<inter> snd ` set (R m') = {}" for m'
      using k(2,3) nodes frames unfolding listed_def by blast+
    show ?thesis
      unfolding lists_ok_def w1(2) l1
      using fl fl1 dis assms(1) by (auto simp: same kc_inv_def lists_ok_def Int_commute)
  qed
  moreover have "listed (R(m := ps)) = listed R \<union> snd ` set ps"
    using listed_upd [of R m ps] listed_upd [of R m "[]"] fun_upd_idem [of R m "[]"] Rm by (simp add: Un_commute)
  moreover have "dom (c_frames w1) = dom (c_frames w) \<union> snd ` set ps \<union> (dom (c_frames w1) - dom (c_frames w) - snd ` set ps)"
  proof -
    have "f \<in> dom (c_frames w1)" if "f \<in> dom (c_frames w)" for f using k(3) [of f] that unfolding domIff by simp
    moreover have "f \<in> dom (c_frames w1)" if "f \<in> snd ` set ps" for f
      using flist_in_memory [OF fl1 that] unfolding domIff .
    ultimately show ?thesis by blast
  qed
  moreover have "snd ` set ps \<inter> dom (c_frames w) = {}" using k(3) by blast
  ultimately show ?thesis
    using assms(1) owners_after_load [of "dom (c_frames w)" P "set_option (k_frame w)" "listed R" "dom (c_frames w1)" "snd ` set ps"]
    unfolding kc_inv_def w1(2) by (simp add: same)
qed

section \<open>Every order of operations\<close>

text \<open>
  A step of the camera, of a stream object or of Python, in any state. \<open>P\<close> are the frames outside: those
  that Python holds, and those that are lost. The addresses of new memory are not in use; lists do not
  reach \<open>2 ^ 32\<close> frames.
\<close>

definition has_room :: "('f, 'z) KcState_scheme \<Rightarrow> bool" where
  "has_room w \<longleftrightarrow> (\<forall>m l. k_lists w m = Some l \<longrightarrow> unat (m_len l) + 1 < 2 ^ 32)"

definition new_frames :: "('f, 'z) KcState_scheme \<Rightarrow> (nat \<times> u8 list) option \<Rightarrow> bool" where
  "new_frames w alloc \<longleftrightarrow> (case alloc of None \<Rightarrow> True | Some (f, junk) \<Rightarrow> c_frames w f = None)"

inductive kc_step ::
    "'f float_ops \<Rightarrow> ('f, 'z) KcState_scheme \<times> nat set \<Rightarrow> ('f, 'z) KcState_scheme \<times> nat set \<Rightarrow> bool"
  for F where
  captured: "kcFrameData F now mfree alloc (Some n) width height type pts data w = Some w' \<Longrightarrow>
    c_frames w f = None \<Longrightarrow> alloc = None \<or> alloc = Some (f, junk) \<Longrightarrow> c_nodes w n = None \<Longrightarrow> has_room w \<Longrightarrow> frame_fits width height type data \<Longrightarrow>
    kc_step F (w, P) (w', P)"
| loop_ended: "kc_step F (w, P) (kcStopped w, P)"
| asked: "w' = kcNextStreamFrame_enter now w \<Longrightarrow>
    kc_step F (w, P) (w', P \<union> (set_option (k_frame w) - set_option (k_frame w')))"
| got_live: "streamer_frame_live alloc s w = Some (w', s', fo) \<Longrightarrow> new_frames w alloc \<Longrightarrow>
    kc_step F (w, P) (w', P \<union> set_option fo)"
| got_recorded: "streamer_frame_record alloc s m w = Some (w', s', fo) \<Longrightarrow> new_frames w alloc \<Longrightarrow>
    kc_step F (w, P) (w', P \<union> set_option fo)"
| dropped: "f \<in> P \<Longrightarrow> dobj_dealloc f w = Some w' \<Longrightarrow> kc_step F (w, P) (w', P - {f})"
| sought: "streamer_seek s i w = Some (w', b) \<Longrightarrow> kc_step F (w, P) (w', P)"
| stopped: "streamer_stop F s w = Some w' \<Longrightarrow> kc_step F (w, P) (w', P)"
| started: "streamer_start s w = Some w' \<Longrightarrow> kc_step F (w, P) (w', P)"
| set_shift: "streamer_setAttr_start_shift s v w = Some (w', s') \<Longrightarrow> kc_step F (w, P) (w', P)"
| set_duration: "streamer_setAttr_duration s d w = Some (w', s') \<Longrightarrow> kc_step F (w, P) (w', P)"
| recorded: "camera_record F m w = Some (w', so) \<Longrightarrow> k_lists w m = None \<Longrightarrow>
    kc_step F (w, P) (w', P \<union> (set_option (k_frame w) - set_option (k_frame w')))"
| opened: "streamer_open opens low fa na bs m w = Some (w', s, r) \<Longrightarrow> k_lists w m = None \<Longrightarrow>
    length bs < 2 ^ 32 \<Longrightarrow> fresh_from 0 fa (c_frames w) \<Longrightarrow> fresh_from 0 na (c_nodes w) \<Longrightarrow>
    k_lists w' m = Some l \<Longrightarrow> flist w' l ps \<Longrightarrow>
    kc_step F (w, P) (w', P \<union> (dom (c_frames w') - dom (c_frames w) - snd ` set ps))"
| closed: "streamer_dealloc F s w = Some w' \<Longrightarrow> kc_step F (w, P) (w', P)"
| changed: "kcUpdateParams F (w\<lparr>k_params := q\<rparr>) = Some w' \<Longrightarrow>
    kc_step F (w, P) (w', P \<union> (set_option (k_frame w) - set_option (k_frame w')))"

inductive kc_steps ::
    "'f float_ops \<Rightarrow> ('f, 'z) KcState_scheme \<times> nat set \<Rightarrow> ('f, 'z) KcState_scheme \<times> nat set \<Rightarrow> bool"
  for F where
  none: "kc_steps F c c"
| more: "kc_steps F c c' \<Longrightarrow> kc_step F c' c'' \<Longrightarrow> kc_steps F c c''"

lemma has_room_lengths: "has_room w \<Longrightarrow> kc_inv w R P \<Longrightarrow> length (R m) + 1 < 2 ^ 32"
proof (cases "k_lists w m")
  case None
  assume "kc_inv w R P"
  then show ?thesis using None by (simp add: kc_inv_def lists_ok_def)
next
  case (Some l)
  assume "has_room w" "kc_inv w R P"
  then show ?thesis using Some flist_len [OF kc_inv_flist [OF \<open>kc_inv w R P\<close> Some]] by (metis has_room_def)
qed

lemma stream_field_inv:
  "kc_inv w R P \<Longrightarrow> streamer_start s w = Some w' \<Longrightarrow> kc_inv w' R P"
  "kc_inv w R P \<Longrightarrow> streamer_setAttr_start_shift s v w = Some (w', s') \<Longrightarrow> kc_inv w' R P"
  "kc_inv w R P \<Longrightarrow> streamer_setAttr_duration s d w = Some (w', s') \<Longrightarrow> kc_inv w' R P"
  subgoal by (auto intro: put_list_inv simp: streamer_start_def split: option.splits)
  subgoal by (auto intro: put_list_inv simp: streamer_setAttr_start_shift_def Let_def split: option.splits)
  subgoal by (auto intro: put_list_inv simp: streamer_setAttr_duration_def Let_def split: option.splits)
  done

lemma streamer_seek_inv:
  assumes "kc_inv w R P" "streamer_seek s i w = Some (w', b)"
  shows "kc_inv w' R P"
proof (cases "st_record s")
  case None
  then show ?thesis using assms by (simp add: streamer_seek_def)
next
  case (Some m)
  then obtain l l' x where l: "k_lists w m = Some l" "flistSeek w l i = Some (l', x)" "w' = put_list m l' w"
    using assms(2) by (auto simp: streamer_seek_def split: option.splits)
  then show ?thesis using put_list_inv [OF assms(1) l(1)] flistSeek_shape [OF kc_inv_flist [OF assms(1) l(1)] l(2)] by simp
qed

lemma kc_step_inv:
  assumes "kc_step F (w, P) (w', P')" "kc_inv w R P"
  shows "\<exists>R'. kc_inv w' R' P'"
  using assms(1)
proof (cases rule: kc_step.cases)
  case (captured now mfree alloc n width height type pts data f junk)
  then show ?thesis using kcFrameData_inv [OF assms(2) captured(3,5) has_room_lengths [OF captured(6) assms(2)]]
    by (metis option.inject)
next
  case (got_live alloc s s' fo)
  have "kc_inv w' R (P \<union> set_option fo)"
    by (rule frame_live_inv [OF assms(2) _ got_live(2)]) (use got_live(3) in \<open>simp add: new_frames_def\<close>)
  then show ?thesis using got_live(1) by blast
next
  case (got_recorded alloc s m s' fo)
  have "kc_inv w' R (P \<union> set_option fo)"
    by (rule frame_record_inv [OF assms(2) _ got_recorded(2)]) (use got_recorded(3) in \<open>simp add: new_frames_def\<close>)
  then show ?thesis using got_recorded(1) by blast
next
  case loop_ended
  then show ?thesis using assms(2) by (auto simp: kcStopped_def)
next
  case (asked now)
  then show ?thesis using assms(2) kc_inv_start [OF assms(2)] by (auto simp: kcNextStreamFrame_enter_def Let_def)
next
  case (dropped f)
  then show ?thesis using free_outside_inv [OF assms(2)] by (auto simp: dobj_dealloc_def)
next
  case (sought s i b)
  then show ?thesis using streamer_seek_inv [OF assms(2)] by metis
next
  case (stopped s)
  then show ?thesis using stopRecord_Some_inv [OF assms(2)] stopInternal_Some_inv [OF assms(2), of F True True w']
    unfolding streamer_stop_def kcStop_def by (auto split: if_splits)
next
  case (started s)
  then show ?thesis using stream_field_inv(1) [OF assms(2)] by metis
next
  case (set_shift s v s')
  then show ?thesis using stream_field_inv(2) [OF assms(2)] by metis
next
  case (set_duration s d s')
  then show ?thesis using stream_field_inv(3) [OF assms(2)] by metis
next
  case (recorded m so)
  then show ?thesis using camera_record_inv [OF assms(2)] by metis
next
  case (opened opens low fa na bs m s r l ps)
  then show ?thesis using streamer_open_inv [OF assms(2)] by metis
next
  case (closed s)
  then show ?thesis using streamer_dealloc_inv [OF assms(2)] by metis
next
  case (changed q)
  then show ?thesis using update_params_inv [of "w\<lparr>k_params := q\<rparr>" R P F w'] assms(2) by auto
qed

definition empty_camera :: "('f, 'z) KcState_scheme \<Rightarrow> bool" where
  "empty_camera w \<longleftrightarrow> c_frames w = Map.empty \<and> k_lists w = Map.empty \<and> k_frame w = None \<and> k_record w = None"

lemma empty_camera_inv: "empty_camera w \<Longrightarrow> kc_inv w (\<lambda>_. []) {}"
  by (simp add: empty_camera_def kc_inv_def lists_ok_def listed_def)

lemma kc_steps_inv:
  assumes "kc_steps F c c'" "kc_inv (fst c) R (snd c)"
  shows "\<exists>R'. kc_inv (fst c') R' (snd c')"
  using assms
proof (induction rule: kc_steps.induct)
  case (none c)
  then show ?case by blast
next
  case (more c c' c'')
  then show ?case using kc_step_inv by (metis prod.collapse)
qed

lemma dealloc_defined:
  assumes "kc_inv w R P" "st_record s = Some m" "k_lists w m = Some l"
  shows "streamer_dealloc F s w \<noteq> None"
proof -
  obtain w1 where w1: "(if Some m = kcGetRecord w then kcStopRecord w else Some w) = Some w1" "kc_inv w1 R P"
    using kc_inv_stopRecord [OF assms(1)] assms(1) by (cases "Some m = kcGetRecord w") auto
  have "k_lists w1 m \<noteq> None"
    using w1(1) assms(3) by (auto simp: kcStopRecord_def kcGetRecord_def split: if_splits option.splits)
  then obtain l1 where l1: "k_lists w1 m = Some l1" by blast
  have "flist w1 l1 (R m)" by (rule kc_inv_flist [OF w1(2) l1])
  then have "flistClear w1 l1 \<noteq> None"
    using free_nodes_chain [of w1 "m_front l1" "R m"] by (simp add: flistClear_def flist_def)
  then show ?thesis using assms(2) w1(1) l1 by (auto simp: streamer_dealloc_def)
qed

section \<open>Examples\<close>

definition small_frame :: "u64 \<Rightarrow> KcFrame" where
  "small_frame pts =
     \<lparr>m_width = 2, m_height = 1, m_pad = [0, 0, 0, 0], m_pts = pts, m_type = FRAME_BGR,
      m_data = [1, 2, 3, 4, 5, 6] @ replicate 36 0\<rparr>"

definition small_mem :: cmem where
  "small_mem = example_mem\<lparr>c_frames := [11 \<mapsto> small_frame 0, 12 \<mapsto> small_frame 50]\<rparr>"

lemma small_flist: "flist small_mem (example_list 0 0) [(31, 11), (32, 12)]"
  by (simp add: flist_def small_mem_def example_mem_def example_list_def)

lemma small_frames: "frames_of small_mem [(31, 11), (32, 12)] = [small_frame 0, small_frame 50]"
  by (simp add: frames_of_def frame_of_def small_mem_def)

lemma small_wf: "frame_wf (small_frame p)"
  by (simp add: frame_wf_def small_frame_def kcSizeofFrame_def kcSizeofFrameBuffer_def)

definition example_off :: "nat KcState" where
  "example_off = example_live\<lparr>c_frames := Map.empty, k_frame := None, k_run := False\<rparr>"

lemma example_off_empty: "empty_camera example_off"
  by (simp add: empty_camera_def example_off_def example_live_def)

section \<open>Properties\<close>

text \<open>
  C3. A recording that is saved to a file and loaded from it has the same frames, all of them, in the
  same order, each with its dimensions, time, type and bytes, wherever the read position was. The
  frames must have the size their dimensions ask for; the file and the memory must not run out.
\<close>

theorem save_load_roundtrip:
  assumes "flist mem l ps" "cursor_at l ps j" "\<And>fr. fr \<in> set (frames_of mem ps) \<Longrightarrow> frame_wf fr" "\<And>bs. \<not> werr bs"
    and "\<And>k. \<not> low k" "\<And>k. fa k = Some (F k)" "\<And>k. na k = Some (N k)" "inj F" "inj N"
    and "\<And>k. c_frames mem' (F k) = None \<and> c_nodes mem' (N k) = None"
  shows "\<exists>l1 bs len mem3 l3 qs. streamer_save True werr mem l = Some (l1, Some (bs, len)) \<and>
    streamer_load True low fa na bs mem' (flistInit 0 0) = Some (mem3, l3, LoadDone) \<and>
    flist mem3 l3 qs \<and> frames_of mem3 qs = frames_of mem ps"
proof -
  obtain l0 r where l0: "flistSeek mem l 0 = Some (l0, r)" "flist mem l0 ps" "cursor_at l0 ps 0"
  proof (cases "ps = []")
    case True
    then show thesis using that [of l "- 1"] flistSeek_out [OF assms(1), of 0] assms(1,2)
      by (auto simp: cursor_at_def split: readptr.splits)
  next
    case False
    then show thesis using that flistSeek_chain [OF assms(1), of 0] by auto
  qed
  from save_loop_writes [where out = "[]" and len = 0 and werr = werr, OF l0(2,3) assms(3,4)] obtain l1 len where
    "streamer_save True werr mem l = Some (l1, Some (concat (map record_bytes (frames_of mem ps)), len))"
    by (auto simp: streamer_save_def l0(1))
  moreover have "flist mem' (flistInit 0 0) []" "plain (flistInit 0 0)" "length ps < 2 ^ 32"
    using assms(1) by (auto simp: flist_Nil flistInit_def plain_def flist_def)
  with load_loop_reads [of mem' "flistInit 0 0" "[]" "frames_of mem ps" low fa F na N 0] assms(3,5-10)
  have "\<exists>mem3 l3 qs. streamer_load True low fa na (concat (map record_bytes (frames_of mem ps))) mem' (flistInit 0 0)
      = Some (mem3, l3, LoadDone) \<and> flist mem3 l3 qs \<and> frames_of mem3 qs = frames_of mem ps"
    by (simp add: streamer_load_def frames_of_def)
  ultimately show ?thesis by blast
qed

theorem save_load_roundtrip_witness:
  "\<exists>l1 bs len mem3 l3 qs. streamer_save True (\<lambda>_. False) small_mem (example_list 0 0) = Some (l1, Some (bs, len)) \<and>
    streamer_load True (\<lambda>_. False) Some Some bs \<lparr>c_nodes = Map.empty, c_frames = Map.empty\<rparr> (flistInit 0 0)
      = Some (mem3, l3, LoadDone) \<and>
    flist mem3 l3 qs \<and> frames_of mem3 qs = [small_frame 0, small_frame 50]"
  using save_load_roundtrip [OF small_flist example_cursor, where werr = "\<lambda>_. False" and low = "\<lambda>_. False" and
      fa = Some and F = "\<lambda>k. k" and na = Some and N = "\<lambda>k. k" and mem' = "\<lparr>c_nodes = Map.empty, c_frames = Map.empty\<rparr>"]
  unfolding small_frames using small_wf by fastforce

text \<open>
  C1. In whatever order frames arrive, streams are read, moved, stopped, saved parameters change, files
  are loaded, recordings start and are thrown away, and Python drops its arrays: every frame in memory
  has exactly one owner. So an array of Python can always be freed, once; a recording can always be
  stopped and thrown away; and the next frame of the camera is handled without undefined behaviour.
\<close>

theorem kc_steps_owned:
  assumes "kc_steps F (w0, {}) (w, P)" "empty_camera w0"
  shows "(\<exists>R. kc_inv w R P) \<and> (\<forall>f \<in> P. dobj_dealloc f w \<noteq> None) \<and> kcStopRecord w \<noteq> None \<and>
    (\<forall>s m l. st_record s = Some m \<longrightarrow> k_lists w m = Some l \<longrightarrow> streamer_dealloc F s w \<noteq> None) \<and>
    (has_room w \<longrightarrow> frame_fits width height type data \<longrightarrow> c_frames w f = None \<longrightarrow> c_nodes w n = None \<longrightarrow>
       kcFrameData F now mfree (Some (f, junk)) (Some n) width height type pts data w \<noteq> None)"
proof -
  obtain R where inv: "kc_inv w R P" using kc_steps_inv [OF assms(1)] empty_camera_inv [OF assms(2)] by auto
  show ?thesis
  proof (intro conjI ballI allI impI)
    show "\<exists>R. kc_inv w R P" using inv by blast
    show "dobj_dealloc f w \<noteq> None" if "f \<in> P" for f
    proof -
      have "f \<in> dom (c_frames w)" using inv that by (auto simp: kc_inv_def)
      then show ?thesis by (auto simp: dobj_dealloc_def free_frame_def)
    qed
    show "kcStopRecord w \<noteq> None" using kc_inv_stopRecord [OF inv] by auto
    show "streamer_dealloc F s w \<noteq> None" if "st_record s = Some m" "k_lists w m = Some l" for s m l
      by (rule dealloc_defined [OF inv that])
    show "kcFrameData F now mfree (Some (f, junk)) (Some n) width height type pts data w \<noteq> None"
      if "has_room w" "frame_fits width height type data" "c_frames w f = None" "c_nodes w n = None"
      using kcFrameData_inv [OF inv that(3,4) has_room_lengths [OF that(1) inv] that(2), where alloc = "Some (f, junk)" and
          junk = junk and F = F and now = now and mfree = mfree and pts = pts] by auto
  qed
qed

text \<open>A recording is started on a camera that was off; its first frame arrives.\<close>

theorem kc_steps_owned_witness:
  "\<exists>w so R. camera_record example_floats 5 example_off = Some (w, so) \<and> kc_inv w R {} \<and>
     kcFrameData example_floats 0 50 (Some (12, [])) (Some 31) 2 1 FRAME_BGR 5000 [1, 2, 3, 4, 5, 6] w \<noteq> None"
proof -
  define w where "w = kcStart (fst (kcStartRecord example_floats 5 example_off))"
  define so where "so = streamer_init w"
  have start: "c_nodes (kcStart v) = c_nodes v \<and> c_frames (kcStart v) = c_frames v \<and> k_lists (kcStart v) = k_lists v" for v :: "nat KcState"
    by (simp add: kcStart_def kcStartCameraLoop_def kcSetMinMaxFramerate_def Let_def)
  have w: "camera_record example_floats 5 example_off = Some (w, so)" "has_room w"
    "c_frames w = Map.empty" "c_nodes w = Map.empty" "k_frame w = None"
    by (simp_all add: camera_record_def kcStartRecord_def kcGetRecord_def example_off_def example_live_def
        w_def so_def start has_room_def flistInit_def Let_def)
  have "kc_step example_floats (example_off, {}) (w, {} \<union> (set_option (k_frame example_off) - set_option (k_frame w)))"
    by (rule kc_step.recorded [OF w(1)]) (simp add: example_off_def example_live_def)
  then have "kc_step example_floats (example_off, {}) (w, {})" by (simp add: example_off_def)
  then have "kc_steps example_floats (example_off, {}) (w, {})" by (rule kc_steps.more [OF kc_steps.none])
  from kc_steps_owned [OF this example_off_empty, of 2 1 FRAME_BGR "[1, 2, 3, 4, 5, 6]" 12 31 0 50 "[]" 5000]
  show ?thesis using w example_fits by auto
qed

end
