(* ===== verification/CameraObject.thy ===== *)
theory CameraObject
  imports Streamer
begin

text \<open>
  The camera object of Python, \<open>kcameramodule.c\<close>. The interpreter is a parameter: \<open>py_ops\<close> are the conversions
  of Python values that the code calls, \<open>py_args\<close> is what the argument parser leaves. References to stream
  objects are counted; a stream object whose count is 0 is gone. The parameters of the object are those that
  \<open>g_params\<close> points to. \<open>None\<close> is undefined behaviour.
\<close>

section \<open>The object\<close>

record 'f PyCamera = "'f KcState" +
  o_exists :: bool
  o_res :: "(u32 \<times> u32) option"
  o_mode :: "string option"
  o_streamer :: "nat option"
  o_streams :: "nat \<Rightarrow> (Streamer \<times> nat) option"

text \<open>
  \<open>py_ulong\<close> is \<open>PyLong_AsUnsignedLong\<close>, which gives the largest number for a value that is not one;
  \<open>py_of_ulong\<close> is \<open>PyLong_FromUnsignedLong\<close>. The others convert for a member of the type, or fail.
\<close>

record ('v, 'f) py_ops =
  py_ulong :: "'v \<Rightarrow> u64"
  py_of_ulong :: "u64 \<Rightarrow> 'v"
  py_uint :: "'v \<Rightarrow> u32 option"
  py_float :: "'v \<Rightarrow> 'f option"
  py_bool :: "'v \<Rightarrow> bool option"
  py_text :: "'v \<Rightarrow> string option"

definition updateResObject :: "('f, 'z) PyCamera_scheme \<Rightarrow> ('f, 'z) PyCamera_scheme" where
  "updateResObject w = w\<lparr>o_res := Some (p_width (k_params w), p_height (k_params w))\<rparr>"

section \<open>Arguments\<close>

text \<open>The keywords that are stored into the parameters as they are parsed.\<close>

datatype 'f keyword =
    KFramerate u32 | KDuration 'f | KBrightness u32 | KAutoShutter bool | KAwb bool | KAwbRed 'f | KAwbBlue 'f
  | KShutterSpeed 'f | KSaturation u32 | KMaxLatency u32 | KMemReserve u32 | KHflip bool | KVflip bool | KStartShift i32

fun store_keyword :: "'f keyword \<Rightarrow> 'f KcParams \<Rightarrow> 'f KcParams" where
  "store_keyword (KFramerate n) p = p\<lparr>p_framerate := n\<rparr>"
| "store_keyword (KDuration x) p = p\<lparr>p_duration := x\<rparr>"
| "store_keyword (KBrightness n) p = p\<lparr>p_brightness := n\<rparr>"
| "store_keyword (KAutoShutter b) p = p\<lparr>p_autoShutter := of_bool b\<rparr>"
| "store_keyword (KAwb b) p = p\<lparr>p_awb := of_bool b\<rparr>"
| "store_keyword (KAwbRed x) p = p\<lparr>p_awbRed := x\<rparr>"
| "store_keyword (KAwbBlue x) p = p\<lparr>p_awbBlue := x\<rparr>"
| "store_keyword (KShutterSpeed x) p = p\<lparr>p_shutterSpeed := x\<rparr>"
| "store_keyword (KSaturation n) p = p\<lparr>p_saturation := n\<rparr>"
| "store_keyword (KMaxLatency n) p = p\<lparr>p_maxLatency := n\<rparr>"
| "store_keyword (KMemReserve n) p = p\<lparr>p_memReserve := n\<rparr>"
| "store_keyword (KHflip b) p = p\<lparr>p_hflip := of_bool b\<rparr>"
| "store_keyword (KVflip b) p = p\<lparr>p_vflip := of_bool b\<rparr>"
| "store_keyword (KStartShift n) p = p\<lparr>p_startShift := n\<rparr>"

text \<open>
  \<open>pa_values\<close> are the keywords that were stored, \<open>pa_ok\<close> says whether all could be. \<open>pa_res\<close> are the numbers
  that were read from the tuple, which must be two; \<open>pa_mode\<close> is the text of the mode, if it is one.
\<close>

record 'f py_args =
  pa_values :: "'f keyword list"
  pa_ok :: bool
  pa_res :: "u32 list option"
  pa_mode :: "string option option"

definition parse_resolution :: "u32 list option \<Rightarrow> ('f, 'z) PyCamera_scheme \<Rightarrow> ('f, 'z) PyCamera_scheme \<times> bool" where
  "parse_resolution res w =
     (case res of
        None \<Rightarrow> (updateResObject w, True)
      | Some [] \<Rightarrow> (w, False)
      | Some [x] \<Rightarrow> (upd_params w (\<lambda>p. p\<lparr>p_width := x\<rparr>), False)
      | Some (x # y # _) \<Rightarrow> ((upd_params w (\<lambda>p. p\<lparr>p_width := x, p_height := y\<rparr>))\<lparr>o_res := Some (x, y)\<rparr>, True))"

text \<open>\<open>m_mode\<close> has room for 128 characters, with the final null.\<close>

definition parse_mode :: "string option option \<Rightarrow> ('f, 'z) PyCamera_scheme \<Rightarrow> (('f, 'z) PyCamera_scheme \<times> bool) option" where
  "parse_mode mode w =
     (case mode of
        None \<Rightarrow> Some (w\<lparr>o_mode := Some (p_mode (k_params w))\<rparr>, True)
      | Some None \<Rightarrow> Some (w, False)
      | Some (Some s) \<Rightarrow>
          if length s \<ge> 128 then None
          else Some ((upd_params w (\<lambda>p. p\<lparr>p_mode := s\<rparr>))\<lparr>o_mode := Some s\<rparr>, True))"

definition parseArgs :: "'f py_args \<Rightarrow> ('f, 'z) PyCamera_scheme \<Rightarrow> (('f, 'z) PyCamera_scheme \<times> bool) option" where
  "parseArgs args w =
     (let w = upd_params w (fold store_keyword (pa_values args)) in
      if \<not> pa_ok args then Some (w, False)
      else
        (case parse_resolution (pa_res args) w of
           (w, False) \<Rightarrow> Some (w, False)
         | (w, True) \<Rightarrow> parse_mode (pa_mode args) w))"

section \<open>Streams\<close>

text \<open>
  A new stream object gets the address \<open>s\<close>, unless the allocation fails. The pointer in \<open>m_streamerObject\<close> does not
  count as a reference.
\<close>

definition createStream ::
    "nat option \<Rightarrow> ('f, 'z) PyCamera_scheme \<Rightarrow> (('f, 'z) PyCamera_scheme \<times> nat option) option" where
  "createStream new w =
     (case new of
        None \<Rightarrow> Some (w, None)
      | Some s \<Rightarrow>
          (case streamer_init w of
             None \<Rightarrow> None
           | Some st \<Rightarrow> Some (w\<lparr>o_streams := (o_streams w)(s \<mapsto> (st, 1))\<rparr>, Some s)))"

definition camera_stream ::
    "'f py_args \<Rightarrow> nat option \<Rightarrow> ('f, 'z) PyCamera_scheme \<Rightarrow> (('f, 'z) PyCamera_scheme \<times> nat option) option" where
  "camera_stream args new w =
     (case parseArgs args w of
        None \<Rightarrow> None
      | Some (w, False) \<Rightarrow> Some (w, None)
      | Some (w, True) \<Rightarrow>
          (case o_streamer w of
             None \<Rightarrow>
               (case createStream new w of
                  None \<Rightarrow> None
                | Some (w, s) \<Rightarrow> Some (w\<lparr>o_streamer := s\<rparr>, s))
           | Some s \<Rightarrow>
               (case o_streams w s of
                  None \<Rightarrow> None
                | Some (st, n) \<Rightarrow> Some (w\<lparr>o_streams := (o_streams w)(s \<mapsto> (st, n + 1))\<rparr>, Some s))))"

text \<open>\<open>m\<close> is the address of the recording.\<close>

definition camera_record_call ::
    "'f float_ops \<Rightarrow> 'f py_args \<Rightarrow> nat \<Rightarrow> nat option \<Rightarrow> ('f, 'z) PyCamera_scheme \<Rightarrow> (('f, 'z) PyCamera_scheme \<times> nat option) option" where
  "camera_record_call F args m new w =
     (case parseArgs args w of
        None \<Rightarrow> None
      | Some (w, False) \<Rightarrow> Some (w, None)
      | Some (w, True) \<Rightarrow>
          (case (if kcGetRecord w \<noteq> None then kcStopRecord w else Some w) of
             None \<Rightarrow> None
           | Some w \<Rightarrow>
               (case kcStartRecord F m w of
                  (w, ret) \<Rightarrow> if sint ret < 0 then Some (w, None) else createStream new (kcStart w))))"

text \<open>The slot for stream objects that go away, and dropping a reference to one.\<close>

definition streamCallback :: "nat \<Rightarrow> ('f, 'z) PyCamera_scheme \<Rightarrow> ('f, 'z) PyCamera_scheme" where
  "streamCallback s w = (if o_exists w \<and> o_streamer w = Some s then w\<lparr>o_streamer := None\<rparr> else w)"

definition stream_decref ::
    "'f float_ops \<Rightarrow> nat \<Rightarrow> ('f, 'z) PyCamera_scheme \<Rightarrow> ('f, 'z) PyCamera_scheme option" where
  "stream_decref F s w =
     (case o_streams w s of
        None \<Rightarrow> None
      | Some (st, n) \<Rightarrow>
          if n > 1 then Some (w\<lparr>o_streams := (o_streams w)(s \<mapsto> (st, n - 1))\<rparr>)
          else
            (case streamer_dealloc F st w of
               None \<Rightarrow> None
             | Some w \<Rightarrow>
                 let w = (if st_record st = None then streamCallback s w else w)
                 in Some (w\<lparr>o_streams := (o_streams w)(s := None)\<rparr>)))"

text \<open>A stream of a file that cannot be loaded is freed again; an empty name is no file.\<close>

definition camera_load ::
    "'f float_ops \<Rightarrow> string \<Rightarrow> bool \<Rightarrow> (nat \<Rightarrow> bool) \<Rightarrow> (nat \<Rightarrow> nat option) \<Rightarrow> (nat \<Rightarrow> nat option) \<Rightarrow> u8 list \<Rightarrow> nat
      \<Rightarrow> nat option \<Rightarrow> ('f, 'z) PyCamera_scheme \<Rightarrow> (('f, 'z) PyCamera_scheme \<times> nat option) option" where
  "camera_load F filename opens low fa na bs m new w =
     (case new of
        None \<Rightarrow> Some (w, None)
      | Some s \<Rightarrow>
          if filename = [] then createStream new w
          else
            (case streamer_open opens low fa na bs m w of
               None \<Rightarrow> None
             | Some (w, st, LoadDone) \<Rightarrow> Some (w\<lparr>o_streams := (o_streams w)(s \<mapsto> (st, 1))\<rparr>, Some s)
             | Some (w, st, LoadError) \<Rightarrow>
                 (case streamer_dealloc F st w of None \<Rightarrow> None | Some w \<Rightarrow> Some (w, None))))"

section \<open>Life of the object\<close>

text \<open>\<open>allocated\<close>: the memory of the object could be allocated.\<close>

definition camera_new :: "bool \<Rightarrow> ('f, 'z) PyCamera_scheme \<Rightarrow> ('f, 'z) PyCamera_scheme \<times> bool" where
  "camera_new allocated w =
     (if o_exists w then (w, False)
      else if \<not> allocated then (w, False)
      else (w\<lparr>o_exists := True, o_res := None, o_mode := None, o_streamer := None\<rparr>, True))"

definition camera_init ::
    "'f float_ops \<Rightarrow> 'f py_args \<Rightarrow> ('f, 'z) PyCamera_scheme \<Rightarrow> (('f, 'z) PyCamera_scheme \<times> bool) option" where
  "camera_init F args w =
     (let w = kcInit F (w\<lparr>o_streamer := None\<rparr>); width = p_width (k_params w); height = p_height (k_params w) in
      case parseArgs args w of
        None \<Rightarrow> None
      | Some (w, ok) \<Rightarrow>
          (case kcUpdateParams F w of
             None \<Rightarrow> None
           | Some w \<Rightarrow>
               Some (if width \<noteq> p_width (k_params w) \<or> height \<noteq> p_height (k_params w) then updateResObject w else w, ok)))"

definition camera_dealloc :: "'f float_ops \<Rightarrow> ('f, 'z) PyCamera_scheme \<Rightarrow> ('f, 'z) PyCamera_scheme option" where
  "camera_dealloc F w =
     (case kcExit F w of
        None \<Rightarrow> None
      | Some w \<Rightarrow> Some (w\<lparr>o_res := None, o_mode := None, o_exists := False\<rparr>))"

section \<open>Attributes\<close>

text \<open>
  The table \<open>camera_members\<close> with the generic setter; deleting works for the mode only. A boolean is stored
  into the lowest byte of its field.
\<close>

definition store_uint :: "('v, 'f) py_ops \<Rightarrow> 'v \<Rightarrow> (u32 \<Rightarrow> 'f KcParams \<Rightarrow> 'f KcParams) \<Rightarrow> ('f, 'z) PyCamera_scheme \<Rightarrow> ('f, 'z) PyCamera_scheme \<times> bool" where
  "store_uint P v f w = (case py_uint P v of None \<Rightarrow> (w, False) | Some n \<Rightarrow> (upd_params w (f n), True))"

definition store_float :: "('v, 'f) py_ops \<Rightarrow> 'v \<Rightarrow> ('f \<Rightarrow> 'f KcParams \<Rightarrow> 'f KcParams) \<Rightarrow> ('f, 'z) PyCamera_scheme \<Rightarrow> ('f, 'z) PyCamera_scheme \<times> bool" where
  "store_float P v f w = (case py_float P v of None \<Rightarrow> (w, False) | Some x \<Rightarrow> (upd_params w (f x), True))"

definition low_byte :: "bool \<Rightarrow> u32 \<Rightarrow> u32" where
  "low_byte b n = or (and n 0xFFFFFF00) (of_bool b)"

definition store_bool :: "('v, 'f) py_ops \<Rightarrow> 'v \<Rightarrow> (bool \<Rightarrow> 'f KcParams \<Rightarrow> 'f KcParams) \<Rightarrow> ('f, 'z) PyCamera_scheme \<Rightarrow> ('f, 'z) PyCamera_scheme \<times> bool" where
  "store_bool P v f w = (case py_bool P v of None \<Rightarrow> (w, False) | Some b \<Rightarrow> (upd_params w (f b), True))"

definition camera_member ::
    "('v, 'f) py_ops \<Rightarrow> string \<Rightarrow> 'v \<Rightarrow> ('f, 'z) PyCamera_scheme \<Rightarrow> ('f, 'z) PyCamera_scheme \<times> bool" where
  "camera_member P name v w =
     (if name = ''framerate'' then store_uint P v (\<lambda>n p. p\<lparr>p_framerate := n\<rparr>) w
      else if name = ''duration'' then store_float P v (\<lambda>x p. p\<lparr>p_duration := x\<rparr>) w
      else if name = ''mode'' then (w\<lparr>o_mode := py_text P v\<rparr>, True)
      else if name = ''brightness'' then store_uint P v (\<lambda>n p. p\<lparr>p_brightness := n\<rparr>) w
      else if name = ''autoshutter'' then store_bool P v (\<lambda>b p. p\<lparr>p_autoShutter := low_byte b (p_autoShutter p)\<rparr>) w
      else if name = ''awb'' then store_bool P v (\<lambda>b p. p\<lparr>p_awb := low_byte b (p_awb p)\<rparr>) w
      else if name = ''awb_red'' then store_float P v (\<lambda>x p. p\<lparr>p_awbRed := x\<rparr>) w
      else if name = ''awb_blue'' then store_float P v (\<lambda>x p. p\<lparr>p_awbBlue := x\<rparr>) w
      else if name = ''shutter_speed'' then store_float P v (\<lambda>x p. p\<lparr>p_shutterSpeed := x\<rparr>) w
      else if name = ''saturation'' then store_uint P v (\<lambda>n p. p\<lparr>p_saturation := n\<rparr>) w
      else if name = ''max_latency'' then store_uint P v (\<lambda>n p. p\<lparr>p_maxLatency := n\<rparr>) w
      else if name = ''mem_reserve'' then store_uint P v (\<lambda>n p. p\<lparr>p_memReserve := n\<rparr>) w
      else if name = ''hflip'' then store_bool P v (\<lambda>b p. p\<lparr>p_hflip := low_byte b (p_hflip p)\<rparr>) w
      else if name = ''vflip'' then store_bool P v (\<lambda>b p. p\<lparr>p_vflip := low_byte b (p_vflip p)\<rparr>) w
      else if name = ''start_shift'' then store_uint P v (\<lambda>n p. p\<lparr>p_startShift := n\<rparr>) w
      else (w, False))"

definition camera_delete_member :: "string \<Rightarrow> ('f, 'z) PyCamera_scheme \<Rightarrow> ('f, 'z) PyCamera_scheme \<times> bool" where
  "camera_delete_member name w = (if name = ''mode'' then (w\<lparr>o_mode := None\<rparr>, True) else (w, False))"

text \<open>
  A value out of its limits is replaced by the limit, and a reference to the value is released, which belongs
  to the caller; \<open>limit_value\<close> returns the value to store and the number of references released.
\<close>

definition limit_value :: "('v, 'f) py_ops \<Rightarrow> string \<Rightarrow> 'v \<Rightarrow> ('f, 'z) PyCamera_scheme \<Rightarrow> 'v \<times> nat" where
  "limit_value P name v w =
     (if name = ''brightness'' then
        if py_ulong P v > 100 then (py_of_ulong P 100, 1) else (v, 0)
      else if name = ''framerate'' then
        if py_ulong P v < ucast (p_minFps (k_params w)) then (py_of_ulong P (ucast (p_minFps (k_params w))), 1)
        else if py_ulong P v > ucast (p_maxFps (k_params w)) then (py_of_ulong P (ucast (p_maxFps (k_params w))), 1)
        else (v, 0)
      else (v, 0))"

definition camera_setAttr ::
    "'f float_ops \<Rightarrow> ('v, 'f) py_ops \<Rightarrow> string \<Rightarrow> 'v option \<Rightarrow> ('f, 'z) PyCamera_scheme
      \<Rightarrow> (('f, 'z) PyCamera_scheme \<times> bool \<times> nat) option" where
  "camera_setAttr F P name value w =
     (let width = p_width (k_params w); height = p_height (k_params w) in
      case value of
        None \<Rightarrow> (case camera_delete_member name w of (w, ok) \<Rightarrow> Some (w, ok, 0))
      | Some v \<Rightarrow>
          (case (if name = ''mode'' then
                   (case py_text P v of
                      None \<Rightarrow> None
                    | Some s \<Rightarrow> if s \<in> set kcGetModes then Some (upd_params w (\<lambda>p. p\<lparr>p_mode := s\<rparr>), True) else Some (w, False))
                 else Some (w, True)) of
             None \<Rightarrow> None
           | Some (w, False) \<Rightarrow> Some (w, False, 0)
           | Some (w, True) \<Rightarrow>
               (case limit_value P name v w of
                  (v, released) \<Rightarrow>
                    (case camera_member P name v w of
                       (w, ok) \<Rightarrow>
                         (case kcUpdateParams F w of
                            None \<Rightarrow> None
                          | Some w \<Rightarrow>
                              Some (if width \<noteq> p_width (k_params w) \<or> height \<noteq> p_height (k_params w)
                                    then updateResObject w else w, ok, released))))))"

section \<open>What a change of parameters keeps\<close>

text \<open>The limits and the limited values, and the fields of the object.\<close>

definition same_limits :: "('f, 'z) PyCamera_scheme \<Rightarrow> ('f, 'z) PyCamera_scheme \<Rightarrow> bool" where
  "same_limits w w' \<longleftrightarrow>
     p_framerate (k_params w') = p_framerate (k_params w) \<and> p_brightness (k_params w') = p_brightness (k_params w) \<and>
     p_minFps (k_params w') = p_minFps (k_params w) \<and> p_maxFps (k_params w') = p_maxFps (k_params w) \<and>
     o_res w' = o_res w \<and> o_mode w' = o_mode w \<and> o_streamer w' = o_streamer w \<and> o_streams w' = o_streams w \<and> o_exists w' = o_exists w"

lemma same_limits_trans: "same_limits w w1 \<Longrightarrow> same_limits w1 w2 \<Longrightarrow> same_limits w w2"
  by (simp add: same_limits_def)

lemma same_limits_ops:
  "same_limits w w" "same_limits w (set_control w c v)" "same_limits w (kcSetMode w)"
  "same_limits w (kcSetBrightness F w)" "same_limits w (kcSetAutoShutter F w)" "same_limits w (kcSetAWB F w)"
  "same_limits w (kcSetAWBGains F w)" "same_limits w (kcSetShutterSpeed F w)"
  by (simp_all add: same_limits_def set_control_def kcSetMode_def kcSetBrightness_def kcSetAutoShutter_def
      kcSetAWB_def kcSetAWBGains_def kcSetShutterSpeed_def Let_def)

lemma same_limits_framerate: "kcSetFramerate F w = Some w' \<Longrightarrow> same_limits w w'"
  by (auto simp: kcSetFramerate_def same_limits_def set_control_def Let_def split: if_splits)

lemma same_limits_if: "same_limits w w1 \<Longrightarrow> same_limits w (if b then w1 else w)"
  by (simp add: same_limits_ops)

lemma kcSetFramerate_defined: "p_framerate (k_params w) \<noteq> 0 \<Longrightarrow> \<exists>w'. kcSetFramerate F w = Some w'"
  by (simp add: kcSetFramerate_def Let_def)

lemma apply_params_defined:
  fixes w :: "('f, 'z) PyCamera_scheme"
  assumes "p_framerate (k_params w) \<noteq> 0"
  shows "\<exists>w' restart. apply_params F w = Some (w', restart) \<and> same_limits w w'"
proof -
  obtain w1 where w1: "(if p_framerate (k_params w) \<noteq> p_framerate (k_currParams w) then kcSetFramerate F w else Some w) = Some w1"
    "same_limits w w1"
    using kcSetFramerate_defined [OF assms, of F] same_limits_framerate same_limits_ops(1)
    by (cases "p_framerate (k_params w) \<noteq> p_framerate (k_currParams w)") auto
  define w2 where "w2 = (if p_mode (k_params w1) \<noteq> p_mode (k_currParams w) then kcSetMode w1 else w1)"
  define w3 where "w3 = (if p_brightness (k_params w2) \<noteq> p_brightness (k_currParams w) then kcSetBrightness F w2 else w2)"
  define w4 where "w4 = (if p_autoShutter (k_params w3) \<noteq> p_autoShutter (k_currParams w) then kcSetAutoShutter F w3 else w3)"
  define w5 where "w5 = (if p_awb (k_params w4) \<noteq> p_awb (k_currParams w) then kcSetAWB F w4 else w4)"
  define w6 where "w6 = (if fo_neq F (p_awbRed (k_params w5)) (p_awbRed (k_currParams w)) \<or>
      fo_neq F (p_awbBlue (k_params w5)) (p_awbBlue (k_currParams w)) then kcSetAWBGains F w5 else w5)"
  define w7 where "w7 = (if fo_neq F (p_shutterSpeed (k_params w6)) (p_shutterSpeed (k_currParams w))
      then kcSetShutterSpeed F w6 else w6)"
  have "same_limits w1 w2" "same_limits w2 w3" "same_limits w3 w4" "same_limits w4 w5" "same_limits w5 w6" "same_limits w6 w7"
    unfolding w2_def w3_def w4_def w5_def w6_def w7_def by (rule same_limits_if, rule same_limits_ops)+
  then have "same_limits w w7" using w1(2) by (blast intro: same_limits_trans)
  moreover have "\<exists>restart. apply_params F w = Some (w7, restart)"
    unfolding apply_params_def Let_def w1 option.case w7_def w6_def w5_def w4_def w3_def w2_def
    by (cases "p_mode (k_params w1) \<noteq> p_mode (k_currParams w)") (simp_all only: simp_thms if_True if_False prod.case option.inject prod.inject, blast+)
  ultimately show ?thesis by blast
qed

text \<open>The frame rate is never 0, and the camera can be stopped.\<close>

definition params_ok :: "('f, 'z) PyCamera_scheme \<Rightarrow> bool" where
  "params_ok w \<longleftrightarrow>
     p_framerate (k_params w) \<noteq> 0 \<and> 0 < p_minFps (k_params w) \<and> p_minFps (k_params w) \<le> p_maxFps (k_params w) \<and>
     (k_run w \<longrightarrow> k_thread w \<or> k_stopping w)"

lemma kcUpdateParams_defined:
  fixes w :: "('f, 'z) PyCamera_scheme"
  assumes "kc_inv w R P" "params_ok w"
  shows "\<exists>w'. kcUpdateParams F w = Some w' \<and> kc_inv w' R (P \<union> (set_option (k_frame w) - set_option (k_frame w'))) \<and> params_ok w' \<and>
    p_brightness (k_params w') = p_brightness (k_params w) \<and> o_res w' = o_res w \<and>
    (p_minFps (k_params w) \<le> p_framerate (k_params w) \<and> p_framerate (k_params w) \<le> p_maxFps (k_params w) \<longrightarrow>
     p_minFps (k_params w') \<le> p_framerate (k_params w') \<and> p_framerate (k_params w') \<le> p_maxFps (k_params w'))"
proof -
  obtain w1 restart where w1: "apply_params F w = Some (w1, restart)" "same_limits w w1"
    using apply_params_defined [of w F] assms(2) unfolding params_ok_def by blast
  have q: "quiet w w1" by (rule apply_params_quiet [OF w1(1)])
  have i1: "kc_inv w1 R P" by (rule kc_inv_cong [OF assms(1)]) (use q in \<open>simp_all add: quiet_def\<close>)
  have ok: "params_ok w1" using assms(2) w1(2) q by (simp add: params_ok_def same_limits_def quiet_def)
  show ?thesis
  proof (cases "restart \<and> k_run w1")
    case False
    have eq: "kcUpdateParams F w = Some (w1\<lparr>k_currParams := k_params w1\<rparr>)"
      unfolding kcUpdateParams_def w1 option.case prod.case if_not_P [OF False] by simp
    show ?thesis
      using update_params_inv [OF assms(1) eq] ok w1(2) by (simp add: eq params_ok_def same_limits_def)
  next
    case True
    then obtain w2 where w2: "kcStopInternal F True False w1 = Some w2"
      using kc_inv_stopInternal [OF i1, of True F False] ok unfolding params_ok_def by blast
    then have "\<exists>x. k_params w2 = (k_params w1)\<lparr>p_fps := x\<rparr> \<or> k_params w2 = k_params w1" "o_res w2 = o_res w1"
      by (auto simp: kcStopInternal_def kcStopCameraLoop_def Let_def split: if_splits)
    then have p2: "p_framerate (k_params w2) = p_framerate (k_params w1)" "p_brightness (k_params w2) = p_brightness (k_params w1)"
      "p_minFps (k_params w2) = p_minFps (k_params w1)" "p_maxFps (k_params w2) = p_maxFps (k_params w1)" "o_res w2 = o_res w1"
      by auto
    define w3 where "w3 = upd_params w2 (\<lambda>p. p\<lparr>p_shutterSpeed := maxShutterSpeed F (p_framerate p)\<rparr>)"
    have eq: "kcUpdateParams F w = Some (kcStart w3)"
      using True by (simp add: kcUpdateParams_def w1(1) w2 w3_def)
    have p3: "p_framerate (k_params w3) = p_framerate (k_params w1)" "p_brightness (k_params w3) = p_brightness (k_params w1)"
      "p_minFps (k_params w3) = p_minFps (k_params w1)" "p_maxFps (k_params w3) = p_maxFps (k_params w1)" "o_res w3 = o_res w1"
      using p2 by (simp_all add: w3_def)
    have st: "k_run (kcStart w3)" "k_thread (kcStart w3)" "o_res (kcStart w3) = o_res w3"
      "p_brightness (k_params (kcStart w3)) = p_brightness (k_params w3)"
      by (simp_all add: kcStart_def kcStartCameraLoop_def kcSetMinMaxFramerate_def Let_def)
    have ok3: "params_ok (kcStart w3)" using ok st(1,2) p3
      by (auto simp: params_ok_def kcStart_def kcStartCameraLoop_def kcSetMinMaxFramerate_def Let_def)
    have rate: "p_minFps (k_params (kcStart w3)) \<le> p_framerate (k_params (kcStart w3)) \<and>
        p_framerate (k_params (kcStart w3)) \<le> p_maxFps (k_params (kcStart w3))"
      using ok p3
      by (auto simp: params_ok_def kcStart_def kcStartCameraLoop_def kcSetMinMaxFramerate_def Let_def not_less)
    show ?thesis
      using update_params_inv [OF assms(1) eq] ok3 rate w1(2) p3 st(3,4)
      by (intro exI [of _ "kcStart w3"]) (simp add: eq same_limits_def)
  qed
qed

section \<open>Setting an attribute\<close>

text \<open>What the interpreter documents of the conversions of numbers.\<close>

definition py_numbers :: "('v, 'f) py_ops \<Rightarrow> bool" where
  "py_numbers P \<longleftrightarrow>
     (\<forall>n. py_uint P (py_of_ulong P n) = Some (ucast n)) \<and>
     (\<forall>v n. py_ulong P v < 2 ^ 32 \<longrightarrow> py_uint P v = Some n \<longrightarrow> n = ucast (py_ulong P v))"

lemma unat_u32_u64: "unat (ucast (b :: u32) :: u64) = unat b"
  using unat_u32_bound [of b] by (simp add: unsigned_ucast_eq take_bit_nat_eq_self)

lemma ucast_u32_u64 [simp]: "ucast (ucast (b :: u32) :: u64) = b"
  by (rule bit_word_eqI) (simp add: bit_unsigned_iff)

lemma ucast_le_u32: "(x :: u64) \<le> ucast (b :: u32) \<Longrightarrow> ucast x \<le> b"
proof -
  assume x: "x \<le> ucast b"
  then have "unat x \<le> unat b" by (simp add: word_le_nat_alt unat_u32_u64)
  moreover have "unat (ucast x :: u32) \<le> unat x" by (simp add: unsigned_ucast_eq take_bit_nat_eq_self_iff)
  ultimately show ?thesis by (simp add: word_le_nat_alt)
qed

lemma ucast_ge_u32: "(x :: u64) < 2 ^ 32 \<Longrightarrow> ucast (a :: u32) \<le> x \<Longrightarrow> a \<le> ucast x"
proof -
  assume x: "x < 2 ^ 32" "ucast a \<le> x"
  have "unat x < 2 ^ 32" using x(1) by (simp add: word_less_nat_alt)
  then have "unat (ucast x :: u32) = unat x" by (simp add: unsigned_ucast_eq take_bit_nat_eq_self)
  then show ?thesis using x(2) by (simp add: word_le_nat_alt unat_u32_u64)
qed

text \<open>The frame rate and the brightness after the member was stored.\<close>

lemma camera_member_framerate:
  assumes "py_numbers P" "limit_value P ''framerate'' v w = (v', n)" "camera_member P ''framerate'' v' w = (w', True)"
    "p_minFps (k_params w) \<le> p_maxFps (k_params w)"
  shows "p_minFps (k_params w') \<le> p_framerate (k_params w') \<and> p_framerate (k_params w') \<le> p_maxFps (k_params w')"
proof -
  let ?lo = "p_minFps (k_params w)" and ?hi = "p_maxFps (k_params w)"
  obtain r where r: "py_uint P v' = Some r" "w' = upd_params w (\<lambda>p. p\<lparr>p_framerate := r\<rparr>)"
    using assms(3) by (auto simp: camera_member_def store_uint_def split: option.splits)
  have "?lo \<le> r \<and> r \<le> ?hi"
  proof (cases "ucast ?lo \<le> py_ulong P v \<and> py_ulong P v \<le> ucast ?hi")
    case True
    have small: "(ucast ?hi :: u64) < 2 ^ 32" using unsigned_less [of ?hi] by (simp add: word_less_nat_alt unat_u32_u64)
    have "v' = v" using True assms(2) by (auto simp: limit_value_def dest: leD split: if_splits)
    then have "r = ucast (py_ulong P v)"
      using assms(1) r(1) True small unfolding py_numbers_def by (meson order.strict_trans1)
    then show ?thesis using True small ucast_le_u32 ucast_ge_u32 by (meson order.strict_trans1)
  next
    case False
    then have "v' = py_of_ulong P (ucast ?lo) \<or> v' = py_of_ulong P (ucast ?hi)"
      using assms(2) by (auto simp: limit_value_def split: if_splits)
    then have "r = ucast (ucast ?lo :: u64) \<or> r = ucast (ucast ?hi :: u64)" using assms(1) r(1) by (auto simp: py_numbers_def)
    then show ?thesis using assms(4) by auto
  qed
  then show ?thesis by (simp add: r(2))
qed

lemma camera_member_brightness:
  assumes "py_numbers P" "limit_value P ''brightness'' v w = (v', n)" "camera_member P ''brightness'' v' w = (w', True)"
  shows "p_brightness (k_params w') \<le> 100"
proof -
  obtain r where r: "py_uint P v' = Some r" "w' = upd_params w (\<lambda>p. p\<lparr>p_brightness := r\<rparr>)"
    using assms(3) by (auto simp: camera_member_def store_uint_def split: option.splits)
  have "r \<le> 100"
  proof (cases "py_ulong P v \<le> 100")
    case True
    have "v' = v" using True assms(2) by (simp add: limit_value_def not_less [symmetric] split: if_splits)
    moreover have "py_ulong P v < 2 ^ 32" using True by (simp add: order.strict_trans1)
    ultimately have "r = ucast (py_ulong P v)" using assms(1) r(1) unfolding py_numbers_def by blast
    then show ?thesis using True ucast_le_u32 [of "py_ulong P v" 100] by simp
  next
    case False
    then have "v' = py_of_ulong P 100" using assms(2) by (simp add: limit_value_def not_le split: if_splits)
    then have "r = ucast (100 :: u64)" using assms(1) r(1) unfolding py_numbers_def by simp
    then show ?thesis by simp
  qed
  then show ?thesis by (simp add: r(2))
qed

lemma camera_member_keeps:
  "camera_member P name v w = (w', ok) \<Longrightarrow> quiet w w' \<and> o_res w' = o_res w \<and>
     p_minFps (k_params w') = p_minFps (k_params w) \<and> p_maxFps (k_params w') = p_maxFps (k_params w) \<and>
     p_width (k_params w') = p_width (k_params w) \<and> p_height (k_params w') = p_height (k_params w) \<and>
     (name \<noteq> ''framerate'' \<or> \<not> ok \<longrightarrow> p_framerate (k_params w') = p_framerate (k_params w))"
  by (auto simp: camera_member_def store_uint_def store_float_def store_bool_def quiet_def split: if_splits option.splits)

definition res_ok :: "('f, 'z) PyCamera_scheme \<Rightarrow> bool" where
  "res_ok w \<longleftrightarrow> o_res w = Some (p_width (k_params w), p_height (k_params w))"

definition no_args :: "'f py_args" where
  "no_args = \<lparr>pa_values = [], pa_ok = True, pa_res = None, pa_mode = None\<rparr>"

lemma parse_no_args:
  "parseArgs no_args w = Some (updateResObject w\<lparr>o_mode := Some (p_mode (k_params w))\<rparr>, True)"
  by (simp add: parseArgs_def no_args_def parse_resolution_def parse_mode_def updateResObject_def Let_def)

lemma parseArgs_res: "parseArgs args w = Some (w', True) \<Longrightarrow> res_ok w'"
  by (auto simp: parseArgs_def parse_resolution_def parse_mode_def updateResObject_def res_ok_def Let_def
      split: if_splits option.splits list.splits)

lemma createStream_res: "createStream new w = Some (w', s) \<Longrightarrow> res_ok w' = res_ok w"
  by (auto simp: createStream_def res_ok_def split: option.splits)

text \<open>The size changes only with the mode, to that of the mode.\<close>

lemma apply_params_size:
  fixes w :: "('f, 'z) PyCamera_scheme"
  assumes "apply_params F w = Some (w', restart)"
  shows "o_res w' = o_res w \<and> p_width (k_params w') = p_width (k_params (if p_mode (k_params w) = p_mode (k_currParams w) then w else kcSetMode w)) \<and>
    p_height (k_params w') = p_height (k_params (if p_mode (k_params w) = p_mode (k_currParams w) then w else kcSetMode w))"
proof -
  obtain w1 where w1: "(if p_framerate (k_params w) \<noteq> p_framerate (k_currParams w) then kcSetFramerate F w else Some w) = Some w1"
    using assms by (auto simp: apply_params_def Let_def split: option.splits)
  have e1: "o_res w1 = o_res w" "p_width (k_params w1) = p_width (k_params w)" "p_height (k_params w1) = p_height (k_params w)"
    "p_mode (k_params w1) = p_mode (k_params w)"
    using w1 by (auto simp: kcSetFramerate_def set_control_def Let_def split: if_splits)
  define w2 where "w2 = (if p_mode (k_params w1) \<noteq> p_mode (k_currParams w) then kcSetMode w1 else w1)"
  have e2: "o_res w2 = o_res w" "p_width (k_params w2) = p_width (k_params (if p_mode (k_params w) = p_mode (k_currParams w) then w else kcSetMode w))"
    "p_height (k_params w2) = p_height (k_params (if p_mode (k_params w) = p_mode (k_currParams w) then w else kcSetMode w))"
    using e1 by (simp_all add: w2_def kcSetMode_def)
  have same: "o_res (if b then f v else v) = o_res v" "p_width (k_params (if b then f v else v)) = p_width (k_params v)"
    "p_height (k_params (if b then f v else v)) = p_height (k_params v)"
    if "f \<in> {kcSetBrightness F, kcSetAutoShutter F, kcSetAWB F, kcSetAWBGains F, kcSetShutterSpeed F}"
    for f b and v :: "('f, 'z) PyCamera_scheme"
    using that
    by (auto simp: kcSetBrightness_def kcSetAutoShutter_def kcSetAWB_def kcSetAWBGains_def kcSetShutterSpeed_def set_control_def Let_def)
  define w3 where "w3 = (if p_brightness (k_params w2) \<noteq> p_brightness (k_currParams w) then kcSetBrightness F w2 else w2)"
  define w4 where "w4 = (if p_autoShutter (k_params w3) \<noteq> p_autoShutter (k_currParams w) then kcSetAutoShutter F w3 else w3)"
  define w5 where "w5 = (if p_awb (k_params w4) \<noteq> p_awb (k_currParams w) then kcSetAWB F w4 else w4)"
  define w6 where "w6 = (if fo_neq F (p_awbRed (k_params w5)) (p_awbRed (k_currParams w)) \<or>
      fo_neq F (p_awbBlue (k_params w5)) (p_awbBlue (k_currParams w)) then kcSetAWBGains F w5 else w5)"
  define w7 where "w7 = (if fo_neq F (p_shutterSpeed (k_params w6)) (p_shutterSpeed (k_currParams w))
      then kcSetShutterSpeed F w6 else w6)"
  have "w' = w7"
    using assms unfolding apply_params_def Let_def w1 option.case
    by (auto simp: w2_def w3_def w4_def w5_def w6_def w7_def split: if_splits)
  moreover have "o_res w7 = o_res w2" "p_width (k_params w7) = p_width (k_params w2)" "p_height (k_params w7) = p_height (k_params w2)"
    unfolding w7_def w6_def w5_def w4_def w3_def by (simp_all only: same insertI1 insertI2)
  ultimately show ?thesis using e2 by simp
qed

lemma kcUpdateParams_res:
  fixes w :: "('f, 'z) PyCamera_scheme"
  assumes "kcUpdateParams F w = Some w'" "p_mode (k_currParams w) = KC_MODE_640X480X10" "res_ok w"
  shows "res_ok w' \<or> p_width (k_params w') \<noteq> 640 \<or> p_height (k_params w') \<noteq> 480"
proof -
  obtain w1 restart where w1: "apply_params F w = Some (w1, restart)"
    using assms(1) by (auto simp: kcUpdateParams_def split: option.splits)
  have "o_res w' = o_res w1 \<and> p_width (k_params w') = p_width (k_params w1) \<and> p_height (k_params w') = p_height (k_params w1)"
  proof (cases "restart \<and> k_run w1")
    case False
    then show ?thesis using assms(1) w1 by (auto simp: kcUpdateParams_def)
  next
    case True
    then obtain w2 where w2: "kcStopInternal F True False w1 = Some w2"
      "w' = kcStart (upd_params w2 (\<lambda>p. p\<lparr>p_shutterSpeed := maxShutterSpeed F (p_framerate p)\<rparr>))"
      using assms(1) w1 by (auto simp: kcUpdateParams_def split: option.splits)
    have "o_res w2 = o_res w1 \<and> p_width (k_params w2) = p_width (k_params w1) \<and> p_height (k_params w2) = p_height (k_params w1)"
      using w2(1) by (auto simp: kcStopInternal_def kcStopCameraLoop_def Let_def split: if_splits)
    then show ?thesis
      by (simp add: w2(2) kcStart_def kcStartCameraLoop_def kcSetMinMaxFramerate_def Let_def)
  qed
  then show ?thesis using apply_params_size [OF w1] assms(2,3)
    by (auto simp: res_ok_def kcSetMode_def split: if_splits)
qed

lemma res_ok_streams: "res_ok (w\<lparr>o_streamer := a, o_streams := b\<rparr>) = res_ok w"
  by (simp add: res_ok_def)

lemma free_nodes_keeps_object:
  fixes w :: "('f, 'z) PyCamera_scheme"
  assumes "free_nodes w p = Some w'"
  shows "k_lists w' = k_lists w \<and> o_streamer w' = o_streamer w \<and> o_streams w' = o_streams w"
proof (rule free_nodes.raw_induct [OF _ assms])
  fix step and w :: "('f, 'z) PyCamera_scheme" and p and w' :: "('f, 'z) PyCamera_scheme"
  assume IH: "\<And>w p (w' :: ('f, 'z) PyCamera_scheme). step w p = Some w' \<Longrightarrow>
      k_lists w' = k_lists w \<and> o_streamer w' = o_streamer w \<and> o_streams w' = o_streams w"
    and body: "(case p of None \<Rightarrow> Some w
      | Some n \<Rightarrow> (case c_nodes w n of None \<Rightarrow> None
        | Some node \<Rightarrow> (case freeNode w n of None \<Rightarrow> None | Some w' \<Rightarrow> step w' (n_next node)))) = Some w'"
  have "k_lists w1 = k_lists w \<and> o_streamer w1 = o_streamer w \<and> o_streams w1 = o_streams w" if "freeNode w n = Some w1" for n w1
    using that by (auto simp: freeNode_def free_frame_def split: option.splits)
  then show "k_lists w' = k_lists w \<and> o_streamer w' = o_streamer w \<and> o_streams w' = o_streams w"
    using body by (auto split: option.splits dest!: IH)
qed

lemma flistClear_keeps_object:
  fixes w :: "('f, 'z) PyCamera_scheme"
  shows "flistClear w l = Some (w', l') \<Longrightarrow> k_lists w' = k_lists w \<and> o_streamer w' = o_streamer w \<and> o_streams w' = o_streams w"
  using free_nodes_keeps_object by (auto simp: flistClear_def split: option.splits)

section \<open>Properties\<close>


definition example_py :: "(nat, nat) py_ops" where
  "example_py = \<lparr>py_ulong = (\<lambda>n. if n < 2 ^ 64 then of_nat n else - 1), py_of_ulong = unat, py_uint = (\<lambda>n. Some (of_nat n)),
     py_float = (\<lambda>n. Some n), py_bool = (\<lambda>n. Some (n = 1)), py_text = (\<lambda>n. None)\<rparr>"

definition example_object :: "nat PyCamera" where
  "example_object = KcState.extend example_live
     \<lparr>o_exists = True, o_res = Some (640, 480), o_mode = Some KC_MODE_640X480X10, o_streamer = None, o_streams = Map.empty\<rparr>"

lemma example_py_numbers: "py_numbers example_py"
proof -
  have "(of_nat n :: u32) = ucast (if n < 2 ^ 64 then of_nat n else - 1 :: u64)"
    if "(if n < 2 ^ 64 then of_nat n else - 1 :: u64) < 2 ^ 32" for n
    using that by (auto simp: unsigned_of_nat take_bit_nat_eq_self split: if_splits)
  moreover have "(of_nat (unat n) :: u32) = ucast n" for n :: u64 by simp
  ultimately show ?thesis by (auto simp: py_numbers_def example_py_def)
qed


text \<open>
  The attribute \<open>resolution\<close> tells the truth: after the object was initialised, and after each stream or
  recording that was made, it is the width and height of the parameters.
\<close>

theorem resolution_attribute:
  "(camera_init F args w = Some (w', True) \<longrightarrow> res_ok w') \<and>
   (camera_stream args new w = Some (w', Some s) \<longrightarrow> res_ok w') \<and>
   (camera_record_call F args m new w = Some (w', Some s) \<longrightarrow> res_ok w')"
proof (intro conjI impI)
  assume "camera_init F args w = Some (w', True)"
  then obtain w1 w2 where w: "parseArgs args (kcInit F (w\<lparr>o_streamer := None\<rparr>)) = Some (w1, True)" "kcUpdateParams F w1 = Some w2"
    "w' = (if 640 \<noteq> p_width (k_params w2) \<or> 480 \<noteq> p_height (k_params w2) then updateResObject w2 else w2)"
    by (auto simp: camera_init_def kcInit_def kcSetMinMaxFramerate_def Let_def split: option.splits prod.splits)
  have "res_ok w1" by (rule parseArgs_res [OF w(1)])
  moreover have cur: "p_mode (k_currParams w1) = KC_MODE_640X480X10"
    using w(1) by (auto simp: parseArgs_def parse_resolution_def parse_mode_def updateResObject_def kcInit_def
        kcSetMinMaxFramerate_def Let_def split: if_splits option.splits list.splits)
  ultimately show "res_ok w'"
    using kcUpdateParams_res [OF w(2)] cur unfolding w(3) by (auto simp: updateResObject_def res_ok_def)
next
  assume "camera_stream args new w = Some (w', Some s)"
  then obtain w1 where w1: "parseArgs args w = Some (w1, True)" "w' = w1\<lparr>o_streamer := o_streamer w', o_streams := o_streams w'\<rparr>"
    by (auto simp: camera_stream_def createStream_def split: option.splits bool.splits)
  have "res_ok w1" by (rule parseArgs_res [OF w1(1)])
  then show "res_ok w'" using w1(2) by (metis res_ok_streams)
next
  assume "camera_record_call F args m new w = Some (w', Some s)"
  then obtain w1 w2 w3 ret where w: "parseArgs args w = Some (w1, True)"
    "(if kcGetRecord w1 \<noteq> None then kcStopRecord w1 else Some w1) = Some w2" "kcStartRecord F m w2 = (w3, ret)"
    "createStream new (kcStart w3) = Some (w', Some s)"
    by (auto simp: camera_record_call_def split: option.splits bool.splits prod.splits if_splits)
  have "res_ok w1" by (rule parseArgs_res [OF w(1)])
  moreover have "res_ok w2 = res_ok w1" using w(2) by (auto simp: kcStopRecord_def res_ok_def split: option.splits if_splits)
  moreover have "res_ok w3 = res_ok w2" using w(3) by (auto simp: kcStartRecord_def res_ok_def split: if_splits)
  moreover have "res_ok (kcStart w3) = res_ok w3"
    by (simp add: kcStart_def kcStartCameraLoop_def kcSetMinMaxFramerate_def res_ok_def Let_def)
  ultimately show "res_ok w'" using createStream_res [OF w(4)] by simp
qed

text \<open>
  Calling \<open>stream()\<close> while a recording runs gives a second object for the same recording, and the camera
  remembers it as its live stream. When the object of the recording goes away first, it frees the recording,
  and letting go of the second frees it again; when the second goes away first, the camera keeps the address,
  and the next \<open>stream()\<close> uses an object that is gone.
\<close>

theorem stream_while_recording:
  assumes "kc_inv w R P" "k_record w = Some m" "o_streamer w = None"
    "o_streams w s1 = Some (st1, 1)" "st_record st1 = Some m" "o_streams w s2 = None"
  shows "\<exists>w1. camera_stream no_args (Some s2) w = Some (w1, Some s2) \<and>
    (\<exists>w2. stream_decref F s1 w1 = Some w2 \<and> stream_decref F s2 w2 = None) \<and>
    (\<exists>w3. stream_decref F s2 w1 = Some w3 \<and> camera_stream no_args new w3 = None)"
proof -
  obtain l where l: "k_lists w m = Some l" using assms(1,2) by (auto simp: kc_inv_def)
  define st2 where "st2 = \<lparr>st_record = Some m, st_index = 0, st_startShift = m_startShift l, st_duration = m_duration l\<rparr>"
  define w1 where "w1 = updateResObject w\<lparr>o_mode := Some (p_mode (k_params w)), o_streams := (o_streams w)(s2 \<mapsto> (st2, 1)), o_streamer := Some s2\<rparr>"
  have k: "k_record w1 = Some m" "k_lists w1 = k_lists w" "o_streamer w1 = Some s2" "o_streams w1 = (o_streams w)(s2 \<mapsto> (st2, 1))"
    using assms(2) by (simp_all add: w1_def updateResObject_def)
  have stream: "camera_stream no_args (Some s2) w = Some (w1, Some s2)"
    using assms(2,3) l
    by (simp add: camera_stream_def parse_no_args createStream_def streamer_init_def kcGetRecord_def w1_def st2_def updateResObject_def)
  have inv: "kc_inv w1 R P"
    by (rule kc_inv_cong [OF assms(1)]) (simp_all add: w1_def updateResObject_def)
  have s: "s1 \<noteq> s2" using assms(4,6) by auto
  have drop: "\<exists>w2. streamer_dealloc F st w1 = Some w2 \<and> k_lists w2 m = None \<and> o_streamer w2 = o_streamer w1 \<and> o_streams w2 = o_streams w1"
    if st: "st_record st = Some m" for st
  proof -
    have "\<exists>w2. streamer_dealloc F st w1 = Some w2" using dealloc_defined [OF inv st, of l F] l k(2) by auto
    then obtain w2 where w2: "streamer_dealloc F st w1 = Some w2" ..
    then show ?thesis using st k(1)
      by (auto simp: streamer_dealloc_def kcGetRecord_def kcStopRecord_def flistClear_keeps_object split: option.splits)
  qed
  obtain w2 where w2: "streamer_dealloc F st1 w1 = Some w2" "k_lists w2 m = None" "o_streams w2 = o_streams w1"
    using drop [OF assms(5)] by blast
  have "stream_decref F s1 w1 = Some (w2\<lparr>o_streams := (o_streams w1)(s1 := None)\<rparr>)"
    using assms(4,5) s w2 by (simp add: stream_decref_def k(4))
  moreover have "stream_decref F s2 (w2\<lparr>o_streams := (o_streams w1)(s1 := None)\<rparr>) = None"
    using s w2(2) by (auto simp: stream_decref_def k(4) st2_def streamer_dealloc_def kcGetRecord_def kcStopRecord_def split: option.splits)
  moreover obtain w3 where w3: "streamer_dealloc F st2 w1 = Some w3" "o_streamer w3 = Some s2" "o_streams w3 = o_streams w1"
    using drop [of st2] k(3) by (auto simp: st2_def)
  have "stream_decref F s2 w1 = Some (w3\<lparr>o_streams := (o_streams w1)(s2 := None)\<rparr>)"
    using w3 by (simp add: stream_decref_def k(4)) (simp add: st2_def)
  moreover have "camera_stream no_args new (w3\<lparr>o_streams := (o_streams w1)(s2 := None)\<rparr>) = None"
    using w3(2) by (simp add: camera_stream_def parse_no_args updateResObject_def)
  ultimately show ?thesis using stream by blast
qed

definition example_recorded :: "nat PyCamera" where
  "example_recorded = KcState.extend example_recording
     \<lparr>o_exists = True, o_res = Some (640, 480), o_mode = Some KC_MODE_640X480X10, o_streamer = None,
      o_streams = [1 \<mapsto> (\<lparr>st_record = Some 5, st_index = 0, st_startShift = 0, st_duration = 0\<rparr>, 1)]\<rparr>"

theorem resolution_attribute_witness:
  "\<exists>w'. camera_stream no_args (Some 3) example_object = Some (w', Some 3) \<and> res_ok w'"
proof -
  have "\<exists>w'. camera_stream no_args (Some 3) example_object = Some (w', Some 3)"
    by (simp add: camera_stream_def parse_no_args createStream_def streamer_init_def kcGetRecord_def updateResObject_def
        example_object_def example_live_def KcState.defs)
  then show ?thesis using resolution_attribute [where args = no_args and new = "Some 3" and w = example_object and s = 3] by blast
qed

theorem stream_while_recording_witness:
  "\<exists>w1. camera_stream no_args (Some 2) example_recorded = Some (w1, Some 2) \<and>
     (\<exists>w2. stream_decref example_floats 1 w1 = Some w2 \<and> stream_decref example_floats 2 w2 = None)"
proof -
  have "kc_inv example_recorded (\<lambda>_. []) {}"
    by (auto simp: kc_inv_def lists_ok_def listed_def example_recorded_def example_recording_def example_live_def
        flist_Nil flistInit_def KcState.defs)
  moreover have "k_record example_recorded = Some 5" "o_streamer example_recorded = None"
    "o_streams example_recorded 1 = Some (\<lparr>st_record = Some 5, st_index = 0, st_startShift = 0, st_duration = 0\<rparr>, 1)"
    "o_streams example_recorded 2 = None"
    by (simp_all add: example_recorded_def example_recording_def KcState.defs)
  ultimately show ?thesis using stream_while_recording [of example_recorded "\<lambda>_. []" "{}" 5 1 _ 2 example_floats] by fastforce
qed

end
