(* ===== verification/Encoder.thy ===== *)
theory Encoder
  imports Prelude
begin

text \<open>
  The H.264 encoder, \<open>kencoder/\<close>: the class \<open>H264Encoder\<close> over a V4L2 codec device, the functions of
  \<open>run.cpp\<close> and the Python method that encodes one frame. The device is a record of functions over its
  own state, one per system call. A buffer is known by its index: frames go into \<open>Output\<close> buffers,
  encoded data comes out of \<open>Capture\<close> buffers. \<open>None\<close> is undefined behaviour.
\<close>

section \<open>The device\<close>

datatype bufkind = Output | Capture

datatype codec_control = BITRATE | H264_PROFILE | H264_LEVEL | H264_I_PERIOD | REPEAT_SEQ_HEADER

datatype codec_set =
    S_CTRL codec_control i32
  | S_FMT bufkind u32 u32 u32 u32  \<comment> \<open>width, height, bytes per line, size of the image\<close>
  | STREAMON bufkind
  | STREAMOFF bufkind

record codec_buf =
  b_kind :: bufkind
  b_index :: u32
  b_sec :: i64
  b_usec :: i64
  b_bytesused :: u32
  b_length :: u32
  b_keyframe :: bool

datatype 'r ioctl = Reply 'r | Interrupted | Failed

record 'k codec =
  cd_set :: "'k \<Rightarrow> codec_set \<Rightarrow> 'k \<times> unit ioctl"
  cd_reqbufs :: "'k \<Rightarrow> bufkind \<Rightarrow> u32 \<Rightarrow> 'k \<times> u32 ioctl"
  cd_querybuf :: "'k \<Rightarrow> bufkind \<Rightarrow> u32 \<Rightarrow> 'k \<times> u32 ioctl"
  cd_mmap :: "'k \<Rightarrow> bufkind \<Rightarrow> u32 \<Rightarrow> u32 \<Rightarrow> 'k \<times> u8 list option"
  cd_qbuf :: "'k \<Rightarrow> codec_buf \<Rightarrow> 'k \<times> unit ioctl"
  cd_dqbuf :: "'k \<Rightarrow> bufkind \<Rightarrow> 'k \<times> codec_buf ioctl"
  cd_open :: "'k \<Rightarrow> 'k \<times> bool"
  cd_close :: "'k \<Rightarrow> 'k"

text \<open>A system call that is interrupted is tried again, \<open>n\<close> times at most.\<close>

fun xioctl :: "('k \<Rightarrow> 'k \<times> 'r ioctl) \<Rightarrow> nat \<Rightarrow> 'k \<Rightarrow> 'k \<times> 'r option" where
  "xioctl call n k =
     (case call k of
        (k, Reply r) \<Rightarrow> (k, Some r)
      | (k, Failed) \<Rightarrow> (k, None)
      | (k, Interrupted) \<Rightarrow> (case n of 0 \<Rightarrow> (k, None) | Suc n \<Rightarrow> xioctl call n k))"

declare xioctl.simps [simp del]

definition num_tries :: nat where "num_tries = 10"

abbreviation set_ioctl :: "'k codec \<Rightarrow> codec_set \<Rightarrow> 'k \<Rightarrow> 'k \<times> unit option" where
  "set_ioctl d c \<equiv> xioctl (\<lambda>k. cd_set d k c) num_tries"

abbreviation qbuf_ioctl :: "'k codec \<Rightarrow> codec_buf \<Rightarrow> 'k \<Rightarrow> 'k \<times> unit option" where
  "qbuf_ioctl d b \<equiv> xioctl (\<lambda>k. cd_qbuf d k b) num_tries"

abbreviation dqbuf_ioctl :: "'k codec \<Rightarrow> bufkind \<Rightarrow> 'k \<Rightarrow> 'k \<times> codec_buf option" where
  "dqbuf_ioctl d t \<equiv> xioctl (\<lambda>k. cd_dqbuf d k t) num_tries"

definition checked ::
    "'k \<times> 'r option \<Rightarrow> string \<Rightarrow> ('k \<Rightarrow> 'r \<Rightarrow> ('k \<times> 'a outcome) option) \<Rightarrow> ('k \<times> 'a outcome) option" where
  "checked reply msg f =
     (case reply of (k, None) \<Rightarrow> Some (k, Thrown msg) | (k, Some r) \<Rightarrow> f k r)"

definition after ::
    "('k \<times> 'a outcome) option \<Rightarrow> ('k \<Rightarrow> 'a \<Rightarrow> ('k \<times> 'b outcome) option) \<Rightarrow> ('k \<times> 'b outcome) option" where
  "after m f =
     (case m of
        None \<Rightarrow> None
      | Some (k, Thrown msg) \<Rightarrow> Some (k, Thrown msg)
      | Some (k, Returned x) \<Rightarrow> f k x)"

section \<open>The encoder\<close>

record VideoOptions =
  vo_width :: u32
  vo_height :: u32
  vo_bitrate :: u32
  vo_profile :: string
  vo_level :: string
  vo_intra :: u32
  vo_inline_headers :: bool

definition VideoOptions_default :: VideoOptions where
  "VideoOptions_default =
     \<lparr>vo_width = 640, vo_height = 480, vo_bitrate = 0, vo_profile = [], vo_level = [], vo_intra = 0,
      vo_inline_headers = False\<rparr>"

text \<open>\<open>mem\<close> of an item points into a mapped capture buffer, named by its index; null without a buffer.\<close>

record OutputItem =
  oi_mem :: "u32 option"
  oi_bytes_used :: u64
  oi_length :: u64
  oi_index :: u32
  oi_keyframe :: bool
  oi_timestamp_us :: i64

definition NUM_OUTPUT_BUFFERS :: nat where "NUM_OUTPUT_BUFFERS = 6"
definition NUM_CAPTURE_BUFFERS :: nat where "NUM_CAPTURE_BUFFERS = 12"

text \<open>
  The mapped memory of the input buffers is a list of bytes each (empty: not mapped), of the capture
  buffers only the sizes matter.
\<close>

record 'k H264Encoder =
  e_abort :: bool
  e_kernel :: 'k
  e_buffers :: "nat list"
  e_input_buffers :: "u8 list list"
  e_available :: "u32 list"
  e_output_queue :: "OutputItem list"

section \<open>Construction\<close>

definition profile_map :: "string \<rightharpoonup> i32" where
  "profile_map = [''baseline'' \<mapsto> 0, ''main'' \<mapsto> 2, ''high'' \<mapsto> 4]"

definition level_map :: "string \<rightharpoonup> i32" where
  "level_map = [''4'' \<mapsto> 11, ''4.1'' \<mapsto> 12, ''4.2'' \<mapsto> 13]"

definition opt_ioctl :: "bool \<Rightarrow> 'k codec \<Rightarrow> codec_control \<Rightarrow> i32 \<Rightarrow> 'k \<Rightarrow> 'k \<times> unit option" where
  "opt_ioctl given d c v k = (if given then set_ioctl d (S_CTRL c v) k else (k, Some ()))"

definition set_controls :: "'k codec \<Rightarrow> VideoOptions \<Rightarrow> 'k \<Rightarrow> ('k \<times> unit outcome) option" where
  "set_controls d opt k =
     checked (opt_ioctl (vo_bitrate opt \<noteq> 0) d BITRATE (vo_bitrate opt) k) ''failed to set bitrate'' (\<lambda>k _.
     if vo_profile opt \<noteq> [] \<and> profile_map (vo_profile opt) = None
     then Some (k, Thrown (''no such profile '' @ vo_profile opt))
     else
     checked (opt_ioctl (vo_profile opt \<noteq> []) d H264_PROFILE (the (profile_map (vo_profile opt))) k)
       ''failed to set profile'' (\<lambda>k _.
     if vo_level opt \<noteq> [] \<and> level_map (vo_level opt) = None
     then Some (k, Thrown (''no such level '' @ vo_level opt))
     else
     checked (opt_ioctl (vo_level opt \<noteq> []) d H264_LEVEL (the (level_map (vo_level opt))) k)
       ''failed to set level'' (\<lambda>k _.
     checked (opt_ioctl (vo_intra opt \<noteq> 0) d H264_I_PERIOD (vo_intra opt) k) ''failed to set intra period'' (\<lambda>k _.
     checked (opt_ioctl (vo_inline_headers opt) d REPEAT_SEQ_HEADER 1 k) ''failed to set inline headers'' (\<lambda>k _.
     Some (k, Returned ()))))))"

text \<open>\<open>~31\<close> is an \<open>int\<close>, converted to \<open>unsigned\<close>.\<close>

definition bytesperline :: "u32 \<Rightarrow> u32" where
  "bytesperline width = and (width + 31) (not 31)"

definition set_formats :: "'k codec \<Rightarrow> VideoOptions \<Rightarrow> 'k \<Rightarrow> ('k \<times> unit outcome) option" where
  "set_formats d opt k =
     (let bpl = bytesperline (vo_width opt) in
      checked (set_ioctl d (S_FMT Output (vo_width opt) (vo_height opt) bpl (bpl * vo_height opt * 3 div 2)) k)
        ''failed to set output format'' (\<lambda>k _.
      checked (set_ioctl d (S_FMT Capture (vo_width opt) (vo_height opt) 0 (512 * 1024)) k)
        ''failed to set capture format'' (\<lambda>k _. Some (k, Returned ()))))"

text \<open>
  The numbers of buffers that the driver grants are not compared with the sizes of the arrays. (The
  messages of exceptions carry the index, too.)
\<close>

fun map_input :: "'k codec \<Rightarrow> nat list \<Rightarrow> u8 list list \<Rightarrow> 'k \<Rightarrow> ('k \<times> u8 list list outcome) option" where
  "map_input d [] bufs k = Some (k, Returned bufs)"
| "map_input d (i # is) bufs k =
     checked (xioctl (\<lambda>k. cd_querybuf d k Output (of_nat i)) num_tries k) ''failed to output query buffer'' (\<lambda>k len.
       if i \<ge> NUM_OUTPUT_BUFFERS then None
       else checked (cd_mmap d k Output (of_nat i) len) ''failed to mmap output buffer'' (\<lambda>k mem.
         map_input d is (bufs[i := mem]) k))"

fun map_capture :: "'k codec \<Rightarrow> nat list \<Rightarrow> nat list \<Rightarrow> 'k \<Rightarrow> ('k \<times> nat list outcome) option" where
  "map_capture d [] bufs k = Some (k, Returned bufs)"
| "map_capture d (i # is) bufs k =
     checked (xioctl (\<lambda>k. cd_querybuf d k Capture (of_nat i)) num_tries k) ''failed to capture query buffer'' (\<lambda>k len.
       if i \<ge> NUM_CAPTURE_BUFFERS then None
       else checked (cd_mmap d k Capture (of_nat i) len) ''failed to mmap capture buffer'' (\<lambda>k mem.
         checked (qbuf_ioctl d \<lparr>b_kind = Capture, b_index = of_nat i, b_sec = 0, b_usec = 0, b_bytesused = 0,
                                b_length = len, b_keyframe = False\<rparr> k) ''failed to queue capture buffer'' (\<lambda>k _.
           map_capture d is (bufs[i := unat len]) k)))"

definition H264Encoder_new :: "'k codec \<Rightarrow> VideoOptions \<Rightarrow> 'k \<Rightarrow> ('k \<times> 'k H264Encoder outcome) option" where
  "H264Encoder_new d opt k =
     checked (case cd_open d k of (k, ok) \<Rightarrow> (k, if ok then Some () else None)) ''failed to open V4L2 H264 encoder'' (\<lambda>k _.
     after (set_controls d opt k) (\<lambda>k _.
     after (set_formats d opt k) (\<lambda>k _.
     checked (xioctl (\<lambda>k. cd_reqbufs d k Output (of_nat NUM_OUTPUT_BUFFERS)) num_tries k)
       ''request for output buffers failed'' (\<lambda>k n.
     after (map_input d [0..<unat n] (replicate NUM_OUTPUT_BUFFERS []) k) (\<lambda>k input.
     checked (xioctl (\<lambda>k. cd_reqbufs d k Capture (of_nat NUM_CAPTURE_BUFFERS)) num_tries k)
       ''request for capture buffers failed'' (\<lambda>k m.
     after (map_capture d [0..<unat m] (replicate NUM_CAPTURE_BUFFERS 0) k) (\<lambda>k bufs.
     checked (set_ioctl d (STREAMON Output) k) ''failed to start output streaming'' (\<lambda>k _.
     checked (set_ioctl d (STREAMON Capture) k) ''failed to start capture streaming'' (\<lambda>k _.
     Some (k, Returned \<lparr>e_abort = False, e_kernel = k, e_buffers = bufs, e_input_buffers = input,
                        e_available = map of_nat [0..<unat n], e_output_queue = []\<rparr>))))))))))"

text \<open>The destructor joins the thread and unmaps the buffers; the results of the calls are ignored.\<close>

definition H264Encoder_delete :: "'k codec \<Rightarrow> 'k H264Encoder \<Rightarrow> 'k" where
  "H264Encoder_delete d e =
     (let (k, _) = set_ioctl d (STREAMOFF Output) (e_kernel e);
          (k, _) = set_ioctl d (STREAMOFF Capture) k
      in cd_close d k)"

section \<open>Encoding\<close>

text \<open>
  \<open>EncodeBuffer\<close> copies as many bytes as the input buffer has from the memory of the caller, whatever the
  size of that is. When the device refuses the buffer, its index is not given back.
\<close>

definition EncodeBuffer ::
    "'k codec \<Rightarrow> u64 \<Rightarrow> u8 list \<Rightarrow> i64 \<Rightarrow> 'k H264Encoder \<Rightarrow> ('k H264Encoder \<times> u32 outcome) option" where
  "EncodeBuffer d sz mem timestamp_us e =
     (case e_available e of
        [] \<Rightarrow> Some (e, Thrown ''no buffers available to queue codec input'')
      | index # available \<Rightarrow>
          let n = length (e_input_buffers e ! unat index);
              buf = \<lparr>b_kind = Output, b_index = index, b_sec = word_of_int (sint timestamp_us sdiv 1000000),
                     b_usec = word_of_int (sint timestamp_us smod 1000000), b_bytesused = ucast sz, b_length = ucast sz,
                     b_keyframe = False\<rparr>
          in if unat index \<ge> length (e_input_buffers e) \<or> length mem < n then None
             else (case qbuf_ioctl d buf (e_kernel e) of
                     (k, r) \<Rightarrow>
                       Some (e\<lparr>e_available := available, e_kernel := k,
                               e_input_buffers := (e_input_buffers e)[unat index := take n mem]\<rparr>,
                             if r = None then Thrown ''failed to queue input to codec'' else Returned index)))"

datatype poll_result = PollInterrupted | PollError | PollTimeout | PollIn

text \<open>One turn of the loop of \<open>pollThread\<close>; an exception there ends the program.\<close>

definition output_item :: "codec_buf \<Rightarrow> OutputItem" where
  "output_item buf =
     \<lparr>oi_mem = Some (b_index buf), oi_bytes_used = ucast (b_bytesused buf), oi_length = ucast (b_length buf),
      oi_index = b_index buf, oi_keyframe = b_keyframe buf,
      oi_timestamp_us = b_sec buf * 1000000 + b_usec buf\<rparr>"

definition poll_input :: "'k codec \<Rightarrow> 'k H264Encoder \<Rightarrow> 'k H264Encoder" where
  "poll_input d e =
     (case dqbuf_ioctl d Output (e_kernel e) of
        (k, None) \<Rightarrow> e\<lparr>e_kernel := k\<rparr>
      | (k, Some buf) \<Rightarrow> e\<lparr>e_kernel := k, e_available := e_available e @ [b_index buf]\<rparr>)"

definition poll_output :: "'k codec \<Rightarrow> 'k H264Encoder \<Rightarrow> 'k H264Encoder option" where
  "poll_output d e =
     (case dqbuf_ioctl d Capture (e_kernel e) of
        (k, None) \<Rightarrow> Some (e\<lparr>e_kernel := k\<rparr>)
      | (k, Some buf) \<Rightarrow>
          if unat (b_index buf) \<ge> length (e_buffers e) then None
          else Some (e\<lparr>e_kernel := k, e_output_queue := e_output_queue e @ [output_item buf]\<rparr>))"

definition pollThread_turn ::
    "'k codec \<Rightarrow> poll_result \<Rightarrow> 'k H264Encoder \<Rightarrow> ('k H264Encoder \<times> unit outcome) option" where
  "pollThread_turn d p e =
     (case p of
        PollInterrupted \<Rightarrow> Some (e, Returned ())
      | PollError \<Rightarrow> Some (e, Thrown ''unexpected errno from poll'')
      | PollTimeout \<Rightarrow> Some (e, Returned ())
      | PollIn \<Rightarrow> (case poll_output d (poll_input d e) of None \<Rightarrow> None | Some e \<Rightarrow> Some (e, Returned ())))"

text \<open>\<open>GetOutput\<close> waits until there is an item or the encoder is being deleted.\<close>

definition GetOutput_ready :: "'k H264Encoder \<Rightarrow> bool" where
  "GetOutput_ready e \<longleftrightarrow> e_output_queue e \<noteq> [] \<or> e_abort e"

definition GetOutput_take :: "OutputItem \<Rightarrow> 'k H264Encoder \<Rightarrow> 'k H264Encoder \<times> OutputItem" where
  "GetOutput_take item e =
     (case e_output_queue e of
        [] \<Rightarrow> (e, item\<lparr>oi_bytes_used := 0, oi_length := 0, oi_mem := None\<rparr>)
      | x # queue \<Rightarrow> (e\<lparr>e_output_queue := queue\<rparr>, x))"

definition OutputDone :: "'k codec \<Rightarrow> OutputItem \<Rightarrow> 'k H264Encoder \<Rightarrow> 'k H264Encoder \<times> unit outcome" where
  "OutputDone d item e =
     (case qbuf_ioctl d \<lparr>b_kind = Capture, b_index = oi_index item, b_sec = 0, b_usec = 0, b_bytesused = 0,
                         b_length = ucast (oi_length item), b_keyframe = False\<rparr> (e_kernel e) of
        (k, r) \<Rightarrow> (e\<lparr>e_kernel := k\<rparr>,
                   if r = None then Thrown ''failed to re-queue encoded buffer'' else Returned ()))"

definition SetBitrate :: "'k codec \<Rightarrow> u32 \<Rightarrow> 'k H264Encoder \<Rightarrow> 'k H264Encoder \<times> unit outcome" where
  "SetBitrate d bitrate e =
     (case set_ioctl d (S_CTRL BITRATE bitrate) (e_kernel e) of
        (k, r) \<Rightarrow> (e\<lparr>e_kernel := k\<rparr>, if r = None then Thrown ''failed to set bitrate'' else Returned ()))"

section \<open>The C interface\<close>

record KeParams =
  kp_width :: u32
  kp_height :: u32
  kp_bitrate :: u32
  kp_mode :: string

text \<open>\<open>ke_kernel\<close> is the state of the device while no encoder is open.\<close>

record 'k KeState =
  ke_options :: VideoOptions
  ke_encoder :: "'k H264Encoder option"
  ke_kernel :: 'k
  ke_params :: KeParams
  ke_currParams :: KeParams

definition keInit :: "'k codec \<Rightarrow> KeParams \<Rightarrow> 'k KeState \<Rightarrow> ('k KeState \<times> i32) option" where
  "keInit d params s =
     (let opt = (ke_options s)\<lparr>vo_width := kp_width params, vo_height := kp_height params\<rparr>;
          s = s\<lparr>ke_params := params, ke_currParams := params, ke_options := opt\<rparr>
      in case H264Encoder_new d opt (ke_kernel s) of
           None \<Rightarrow> None
         | Some (k, Thrown _) \<Rightarrow> Some (s\<lparr>ke_kernel := k\<rparr>, - 1)
         | Some (k, Returned e) \<Rightarrow> Some (s\<lparr>ke_kernel := k, ke_encoder := Some e\<rparr>, 0))"

definition keExit :: "'k codec \<Rightarrow> 'k KeState \<Rightarrow> 'k KeState" where
  "keExit d s =
     (case ke_encoder s of
        None \<Rightarrow> s
      | Some e \<Rightarrow> s\<lparr>ke_kernel := H264Encoder_delete d e, ke_encoder := None\<rparr>)"

definition keGetModes :: "string list" where
  "keGetModes = [''default'']"

definition keUpdateParams :: "'k codec \<Rightarrow> 'k KeState \<Rightarrow> ('k KeState \<times> unit outcome) option" where
  "keUpdateParams d s =
     (case (if kp_bitrate (ke_params s) \<noteq> kp_bitrate (ke_currParams s) then
              (case ke_encoder s of
                 None \<Rightarrow> None
               | Some e \<Rightarrow>
                   (case SetBitrate d (kp_bitrate (ke_params s)) e of
                      (e, r) \<Rightarrow> Some (s\<lparr>ke_encoder := Some e\<rparr>, r)))
            else Some (s, Returned ())) of
        None \<Rightarrow> None
      | Some (s, Thrown msg) \<Rightarrow> Some (s, Thrown msg)
      | Some (s, Returned _) \<Rightarrow>
          if kp_width (ke_params s) \<noteq> kp_width (ke_currParams s) \<or> kp_height (ke_params s) \<noteq> kp_height (ke_currParams s)
          then (case keInit d (ke_params s) (keExit d s) of None \<Rightarrow> None | Some (s, _) \<Rightarrow> Some (s, Returned ()))
          else Some (s\<lparr>ke_currParams := ke_params s\<rparr>, Returned ()))"

section \<open>Encoding one frame\<close>

text \<open>
  \<open>encoder_encode\<close> hands a frame in, waits for an output item, and gives its buffer back, unless it is
  empty or has another time stamp. \<open>depth\<close> is what \<open>dims[3]\<close> reads. An exception of the C++ code is not
  caught; here it is an outcome of its own.
\<close>

definition FRAME_IN_TABLE_SIZE :: u32 where "FRAME_IN_TABLE_SIZE = 32"

datatype 'a py = PyOk 'a | PyError string | Uncaught string

definition encoder_encode_in ::
    "'k codec \<Rightarrow> u32 \<Rightarrow> u32 \<Rightarrow> u32 \<Rightarrow> u8 list \<Rightarrow> u64 \<Rightarrow> 'k H264Encoder \<Rightarrow> ('k H264Encoder \<times> unit py) option" where
  "encoder_encode_in d width height depth mem count e =
     (case EncodeBuffer d (ucast (width * height * depth)) mem count e of
        None \<Rightarrow> None
      | Some (e, Thrown msg) \<Rightarrow> Some (e, Uncaught msg)
      | Some (e, Returned index) \<Rightarrow>
          Some (e, if index \<ge> FRAME_IN_TABLE_SIZE then PyError ''index value is too large'' else PyOk ()))"

definition encoder_encode_out ::
    "'k codec \<Rightarrow> OutputItem \<Rightarrow> u64 \<Rightarrow> 'k H264Encoder \<Rightarrow> 'k H264Encoder \<times> u64 \<times> OutputItem py" where
  "encoder_encode_out d junk count e =
     (let (e, output) = GetOutput_take junk e in
      if oi_bytes_used output = 0 then (e, count, PyError ''encoder returned null packet'')
      else if oi_timestamp_us output \<noteq> count then (e, count, PyError ''encoder returned stale frame'')
      else (case OutputDone d output e of
              (e, Thrown msg) \<Rightarrow> (e, count + 1, Uncaught msg)
            | (e, Returned _) \<Rightarrow> (e, count + 1, PyOk output)))"

section \<open>What the device promises\<close>

text \<open>
  \<open>q k t\<close> are the buffers of kind \<open>t\<close> that the device holds in state \<open>k\<close>: a buffer that is queued is held, a
  buffer that is dequeued was held and is no longer; calls that fail change nothing (V4L2, "Input/Output").
\<close>

definition codec_promise :: "'k codec \<Rightarrow> ('k \<Rightarrow> bufkind \<Rightarrow> u32 set) \<Rightarrow> bool" where
  "codec_promise d q \<longleftrightarrow>
     (\<forall>k c k' r. cd_set d k c = (k', r) \<longrightarrow> (\<forall>t. c \<noteq> STREAMOFF t) \<longrightarrow> q k' = q k) \<and>
     (\<forall>k t n k' r. cd_reqbufs d k t n = (k', r) \<longrightarrow> q k' = (case r of Reply _ \<Rightarrow> (q k)(t := {}) | _ \<Rightarrow> q k)) \<and>
     (\<forall>k t i k' r. cd_querybuf d k t i = (k', r) \<longrightarrow> q k' = q k) \<and>
     (\<forall>k t i n k' r. cd_mmap d k t i n = (k', r) \<longrightarrow> q k' = q k) \<and>
     (\<forall>k k' r. cd_open d k = (k', r) \<longrightarrow> q k' = (\<lambda>_. {})) \<and>
     (\<forall>k b k' r. cd_qbuf d k b = (k', r) \<longrightarrow>
        q k' = (case r of Reply _ \<Rightarrow> (q k)(b_kind b := insert (b_index b) (q k (b_kind b))) | _ \<Rightarrow> q k)) \<and>
     (\<forall>k t k' r. cd_dqbuf d k t = (k', r) \<longrightarrow>
        (case r of Reply b \<Rightarrow> b_index b \<in> q k t \<and> q k' = (q k)(t := q k t - {b_index b}) | _ \<Rightarrow> q k' = q k))"

text \<open>A call that is tried again ends like one call, made in a state that differs only in what failures change.\<close>

lemma xioctl_Some:
  assumes "\<And>k k' r. call k = (k', r) \<Longrightarrow> (\<forall>x. r \<noteq> Reply x) \<Longrightarrow> q k' = q k" "xioctl call n k = (k', Some x)"
  shows "\<exists>k1. q k1 = q k \<and> call k1 = (k', Reply x)"
  using assms(2)
proof (induction n arbitrary: k)
  case 0
  then show ?case by (subst (asm) xioctl.simps) (auto split: prod.splits ioctl.splits)
next
  case (Suc n)
  obtain k1 r where c: "call k = (k1, r)" by fastforce
  show ?case
  proof (cases r)
    case (Reply y)
    then show ?thesis using Suc.prems c by (subst (asm) xioctl.simps) auto
  next
    case Interrupted
    then have "xioctl call n k1 = (k', Some x)" using Suc.prems c by (subst (asm) xioctl.simps) simp
    then show ?thesis using Suc.IH [of k1] assms(1) [OF c] Interrupted by simp
  next
    case Failed
    then show ?thesis using Suc.prems c by (subst (asm) xioctl.simps) simp
  qed
qed

lemma xioctl_None:
  assumes "\<And>k k' r. call k = (k', r) \<Longrightarrow> (\<forall>x. r \<noteq> Reply x) \<Longrightarrow> q k' = q k" "xioctl call n k = (k', None)"
  shows "q k' = q k"
  using assms(2)
proof (induction n arbitrary: k)
  case 0
  then show ?case using assms(1) by (subst (asm) xioctl.simps) (auto split: prod.splits ioctl.splits)
next
  case (Suc n)
  obtain k1 r where c: "call k = (k1, r)" by fastforce
  show ?case
  proof (cases r)
    case (Reply y)
    then show ?thesis using Suc.prems c by (subst (asm) xioctl.simps) simp
  next
    case Interrupted
    then have "xioctl call n k1 = (k', None)" using Suc.prems c by (subst (asm) xioctl.simps) simp
    then show ?thesis using Suc.IH [of k1] assms(1) [OF c] Interrupted by simp
  next
    case Failed
    then show ?thesis using Suc.prems c assms(1) [OF c] by (subst (asm) xioctl.simps) simp
  qed
qed

lemma xioctl_keeps:
  assumes "\<And>k k' r. call k = (k', r) \<Longrightarrow> q k' = q k" "xioctl call n k = (k', r)"
  shows "q k' = q k"
proof (cases r)
  case None
  then show ?thesis using xioctl_None [of call q n k k'] assms by blast
next
  case (Some x)
  then show ?thesis using xioctl_Some [of call q n k k' x] assms by metis
qed

lemma promise_set: "codec_promise d q \<Longrightarrow> \<forall>t. c \<noteq> STREAMOFF t \<Longrightarrow> cd_set d k c = (k', r) \<Longrightarrow> q k' = q k"
  unfolding codec_promise_def by (elim conjE) meson

lemma promise_reqbufs: "codec_promise d q \<Longrightarrow> cd_reqbufs d k t n = (k', r) \<Longrightarrow>
    q k' = (case r of Reply _ \<Rightarrow> (q k)(t := {}) | _ \<Rightarrow> q k)"
  unfolding codec_promise_def by (elim conjE) meson

lemma promise_querybuf: "codec_promise d q \<Longrightarrow> cd_querybuf d k t i = (k', r) \<Longrightarrow> q k' = q k"
  unfolding codec_promise_def by (elim conjE) meson

lemma promise_mmap: "codec_promise d q \<Longrightarrow> cd_mmap d k t i n = (k', r) \<Longrightarrow> q k' = q k"
  unfolding codec_promise_def by (elim conjE) meson

lemma promise_open: "codec_promise d q \<Longrightarrow> cd_open d k = (k', r) \<Longrightarrow> q k' = (\<lambda>_. {})"
  unfolding codec_promise_def by (elim conjE) meson

lemma promise_qbuf: "codec_promise d q \<Longrightarrow> cd_qbuf d k b = (k', r) \<Longrightarrow>
    q k' = (case r of Reply _ \<Rightarrow> (q k)(b_kind b := insert (b_index b) (q k (b_kind b))) | _ \<Rightarrow> q k)"
  unfolding codec_promise_def by (elim conjE) meson

lemma promise_dqbuf: "codec_promise d q \<Longrightarrow> cd_dqbuf d k t = (k', r) \<Longrightarrow>
    (case r of Reply b \<Rightarrow> b_index b \<in> q k t \<and> q k' = (q k)(t := q k t - {b_index b}) | _ \<Rightarrow> q k' = q k)"
  unfolding codec_promise_def by (elim conjE) meson

lemma set_ioctl_keeps:
  assumes "codec_promise d q" "set_ioctl d c k = (k', r)" "\<forall>t. c \<noteq> STREAMOFF t"
  shows "q k' = q k"
  by (rule xioctl_keeps [OF _ assms(2)]) (rule promise_set [OF assms(1,3)])

lemma querybuf_keeps:
  assumes "codec_promise d q" "xioctl (\<lambda>k. cd_querybuf d k t i) n k = (k', r)"
  shows "q k' = q k"
  by (rule xioctl_keeps [OF _ assms(2)]) (rule promise_querybuf [OF assms(1)])

lemma qbuf_ioctl_queues:
  assumes "codec_promise d q" "qbuf_ioctl d b k = (k', r)"
  shows "q k' = (if r = None then q k else (q k)(b_kind b := insert (b_index b) (q k (b_kind b))))"
proof -
  have fails: "q k' = q k" if "cd_qbuf d k b = (k', r)" "\<forall>x. r \<noteq> Reply x" for k k' r
    using promise_qbuf [OF assms(1) that(1)] that(2) by (cases r) simp_all
  show ?thesis
  proof (cases r)
    case None
    then show ?thesis using xioctl_None [of "\<lambda>k. cd_qbuf d k b" q] fails assms(2) by auto
  next
    case (Some x)
    then obtain k1 where "q k1 = q k" "cd_qbuf d k1 b = (k', Reply x)"
      using xioctl_Some [of "\<lambda>k. cd_qbuf d k b" q] fails assms(2) by blast
    then show ?thesis using promise_qbuf [OF assms(1), of k1 b] Some by simp
  qed
qed

lemma dqbuf_ioctl_dequeues:
  assumes "codec_promise d q" "dqbuf_ioctl d t k = (k', r)"
  shows "case r of None \<Rightarrow> q k' = q k | Some b \<Rightarrow> b_index b \<in> q k t \<and> q k' = (q k)(t := q k t - {b_index b})"
proof -
  have fails: "q k' = q k" if "cd_dqbuf d k t = (k', r)" "\<forall>x. r \<noteq> Reply x" for k k' r
    using promise_dqbuf [OF assms(1) that(1)] that(2) by (cases r) simp_all
  show ?thesis
  proof (cases r)
    case None
    then show ?thesis using xioctl_None [of "\<lambda>k. cd_dqbuf d k t" q] fails assms(2) by auto
  next
    case (Some x)
    then obtain k1 where "q k1 = q k" "cd_dqbuf d k1 t = (k', Reply x)"
      using xioctl_Some [of "\<lambda>k. cd_dqbuf d k t" q] fails assms(2) by blast
    then show ?thesis using promise_dqbuf [OF assms(1), of k1 t] Some by simp
  qed
qed

lemma reqbufs_empties:
  assumes "codec_promise d q" "xioctl (\<lambda>k. cd_reqbufs d k t n) m k = (k', Some x)"
  shows "q k' = (q k)(t := {})"
proof -
  have fails: "q k' = q k" if "cd_reqbufs d k t n = (k', r)" "\<forall>x. r \<noteq> Reply x" for k k' r
    using promise_reqbufs [OF assms(1) that(1)] that(2) by (cases r) simp_all
  then obtain k1 where "q k1 = q k" "cd_reqbufs d k1 t n = (k', Reply x)"
    using xioctl_Some [of "\<lambda>k. cd_reqbufs d k t n" q] assms(2) by blast
  then show ?thesis using promise_reqbufs [OF assms(1), of k1 t n] by simp
qed

section \<open>Who has which buffer\<close>

text \<open>
  Every input buffer is available, with the device, or lost (\<open>LI\<close>: the device refused it); every capture
  buffer is in the output queue, with the device, with the application (\<open>H\<close>), or lost (\<open>LC\<close>). The counts
  of all these places add up to one for each buffer there is.
\<close>

definition one_place :: "nat \<Rightarrow> u32 list \<Rightarrow> u32 set \<Rightarrow> u32 set \<Rightarrow> u32 set \<Rightarrow> bool" where
  "one_place n xs Q H L \<longleftrightarrow>
     (\<forall>i. count_list xs i + of_bool (i \<in> Q) + of_bool (i \<in> H) + of_bool (i \<in> L) = (of_bool (unat i < n) :: nat))"

lemma one_place_at:
  "one_place n xs Q H L \<Longrightarrow>
   count_list xs i + of_bool (i \<in> Q) + of_bool (i \<in> H) + of_bool (i \<in> L) = (of_bool (unat i < n) :: nat)"
  by (simp add: one_place_def)

lemma one_placeI:
  "(\<And>i. count_list ys i + of_bool (i \<in> Q') + of_bool (i \<in> H') + of_bool (i \<in> L') =
         count_list xs i + of_bool (i \<in> Q) + of_bool (i \<in> H) + (of_bool (i \<in> L) :: nat)) \<Longrightarrow>
   one_place n xs Q H L \<Longrightarrow> one_place n ys Q' H' L'"
  unfolding one_place_def by presburger

lemma one_place_hd:
  assumes "one_place n (x # xs) Q H L"
  shows "x \<notin> Q" "x \<notin> H" "x \<notin> L"
  using one_place_at [OF assms, of x] by (auto simp: of_bool_def split: if_splits)

lemma one_place_device:
  assumes "one_place n xs Q H L" "x \<in> Q"
  shows "count_list xs x = 0" "x \<notin> H" "x \<notin> L"
  using one_place_at [OF assms(1), of x] assms(2) by (auto simp: of_bool_def split: if_splits)

lemma one_place_held:
  assumes "one_place n xs Q H L" "x \<in> H"
  shows "count_list xs x = 0" "x \<notin> Q" "x \<notin> L"
  using one_place_at [OF assms(1), of x] assms(2) by (auto simp: of_bool_def split: if_splits)

lemma one_place_from_list:
  assumes "one_place n (x # xs) Q H L"
  shows "one_place n xs (insert x Q) H L" "one_place n xs Q (insert x H) L" "one_place n xs Q H (insert x L)"
  by (rule one_placeI [OF _ assms]; use one_place_hd [OF assms] in auto)+

lemma one_place_to_list: "one_place n xs Q H L \<Longrightarrow> x \<in> Q \<Longrightarrow> one_place n (xs @ [x]) (Q - {x}) H L"
  by (rule one_placeI) auto

lemma one_place_held_away:
  assumes "one_place n xs Q H L" "x \<in> H"
  shows "one_place n xs (insert x Q) (H - {x}) L" "one_place n xs Q (H - {x}) (insert x L)"
  by (rule one_placeI [OF _ assms(1)]; use one_place_held [OF assms] assms(2) in auto)+

definition enc_inv ::
    "('k \<Rightarrow> bufkind \<Rightarrow> u32 set) \<Rightarrow> nat \<Rightarrow> nat \<Rightarrow> 'k H264Encoder \<Rightarrow> u32 set \<Rightarrow> u32 set \<Rightarrow> u32 set \<Rightarrow> bool" where
  "enc_inv q n m e H LI LC \<longleftrightarrow>
     length (e_input_buffers e) = NUM_OUTPUT_BUFFERS \<and> length (e_buffers e) = NUM_CAPTURE_BUFFERS \<and>
     n \<le> NUM_OUTPUT_BUFFERS \<and> m \<le> NUM_CAPTURE_BUFFERS \<and>
     one_place n (e_available e) (q (e_kernel e) Output) {} LI \<and>
     one_place m (map oi_index (e_output_queue e)) (q (e_kernel e) Capture) H LC"

lemma checked_Returned:
  "checked reply msg f = Some (k', Returned x) \<Longrightarrow> \<exists>k r. reply = (k, Some r) \<and> f k r = Some (k', Returned x)"
  by (auto simp: checked_def split: prod.splits option.splits)

lemma after_Returned:
  "after m f = Some (k', Returned x) \<Longrightarrow> \<exists>k y. m = Some (k, Returned y) \<and> f k y = Some (k', Returned x)"
  by (auto simp: after_def split: prod.splits option.splits outcome.splits)

lemma map_input_ok:
  assumes "codec_promise d q" "map_input d is bufs k = Some (k', Returned bufs')"
  shows "q k' = q k \<and> length bufs' = length bufs \<and> (\<forall>i \<in> set is. i < NUM_OUTPUT_BUFFERS)"
  using assms(2)
proof (induction "is" arbitrary: bufs k)
  case (Cons i "is")
  obtain k1 len where k1: "xioctl (\<lambda>k. cd_querybuf d k Output (of_nat i)) num_tries k = (k1, Some len)"
    "i < NUM_OUTPUT_BUFFERS"
    "checked (cd_mmap d k1 Output (of_nat i) len) ''failed to mmap output buffer''
       (\<lambda>k mem. map_input d is (bufs[i := mem]) k) = Some (k', Returned bufs')"
    using checked_Returned [OF Cons.prems [unfolded map_input.simps]] by (auto split: if_splits)
  from checked_Returned [OF k1(3)] obtain k2 mem where
    k2: "cd_mmap d k1 Output (of_nat i) len = (k2, Some mem)" "map_input d is (bufs[i := mem]) k2 = Some (k', Returned bufs')"
    by blast
  show ?case
    using Cons.IH [OF k2(2)] k1(2) querybuf_keeps [OF assms(1) k1(1)] promise_mmap [OF assms(1) k2(1)] by simp
qed simp

lemma map_capture_ok:
  assumes "codec_promise d q" "map_capture d is bufs k = Some (k', Returned bufs')"
  shows "q k' = (q k)(Capture := q k Capture \<union> of_nat ` set is) \<and> length bufs' = length bufs \<and>
    (\<forall>i \<in> set is. i < NUM_CAPTURE_BUFFERS)"
  using assms(2)
proof (induction "is" arbitrary: bufs k)
  case (Cons i "is")
  let ?b = "\<lambda>len. \<lparr>b_kind = Capture, b_index = of_nat i, b_sec = 0, b_usec = 0, b_bytesused = 0,
    b_length = len, b_keyframe = False\<rparr>"
  obtain k1 len where k1: "xioctl (\<lambda>k. cd_querybuf d k Capture (of_nat i)) num_tries k = (k1, Some len)"
    "i < NUM_CAPTURE_BUFFERS"
    "checked (cd_mmap d k1 Capture (of_nat i) len) ''failed to mmap capture buffer''
       (\<lambda>k mem. checked (qbuf_ioctl d (?b len) k) ''failed to queue capture buffer''
          (\<lambda>k _. map_capture d is (bufs[i := unat len]) k)) = Some (k', Returned bufs')"
    using checked_Returned [OF Cons.prems [unfolded map_capture.simps]] by (auto split: if_splits)
  from checked_Returned [OF k1(3)] obtain k2 mem where
    k2: "cd_mmap d k1 Capture (of_nat i) len = (k2, Some mem)"
    "checked (qbuf_ioctl d (?b len) k2) ''failed to queue capture buffer''
       (\<lambda>k _. map_capture d is (bufs[i := unat len]) k) = Some (k', Returned bufs')" by blast
  from checked_Returned [OF k2(2)] obtain k3 u where
    k3: "qbuf_ioctl d (?b len) k2 = (k3, Some u)" "map_capture d is (bufs[i := unat len]) k3 = Some (k', Returned bufs')"
    by blast
  show ?case
    using Cons.IH [OF k3(2)] k1(2) querybuf_keeps [OF assms(1) k1(1)] promise_mmap [OF assms(1) k2(1)]
      qbuf_ioctl_queues [OF assms(1) k3(1)] by (simp add: fun_eq_iff)
qed simp

lemma checked_keeps:
  assumes "checked reply msg f = Some (k', Returned x)" "q (fst reply) = q k"
    and "\<And>k1 r. reply = (k1, Some r) \<Longrightarrow> f k1 r = Some (k', Returned x) \<Longrightarrow> q k' = q k1"
  shows "q k' = q k"
  using checked_Returned [OF assms(1)] assms(2,3) by auto

lemma opt_ioctl_keeps: "codec_promise d q \<Longrightarrow> q (fst (opt_ioctl g d c v k)) = q k"
  using set_ioctl_keeps [of d q "S_CTRL c v" k] by (cases "set_ioctl d (S_CTRL c v) k") (simp add: opt_ioctl_def)

lemma set_ioctl_fst: "codec_promise d q \<Longrightarrow> \<forall>t. c \<noteq> STREAMOFF t \<Longrightarrow> q (fst (set_ioctl d c k)) = q k"
  using set_ioctl_keeps [of d q c k] by (cases "set_ioctl d c k") simp

lemma set_controls_keeps:
  assumes "codec_promise d q" "set_controls d opt k = Some (k', Returned u)"
  shows "q k' = q k"
  using assms(2) unfolding set_controls_def
  by (auto elim!: checked_keeps simp: opt_ioctl_keeps [OF assms(1)] split: if_split_asm)

lemma set_formats_keeps:
  assumes "codec_promise d q" "set_formats d opt k = Some (k', Returned u)"
  shows "q k' = q k"
  using assms(2) unfolding set_formats_def Let_def
  by (auto elim!: checked_keeps simp: set_ioctl_fst [OF assms(1)])

lemma count_distinct: "distinct xs \<Longrightarrow> count_list xs i = of_bool (i \<in> set xs)"
  by (induction xs) auto

lemma upto_places:
  assumes "n \<le> 2 ^ 32"
  shows "(i :: u32) \<in> of_nat ` set [0..<n] \<longleftrightarrow> unat i < n" "count_list (map of_nat [0..<n]) (i :: u32) = of_bool (unat i < n)"
proof -
  have inj: "inj_on (of_nat :: nat \<Rightarrow> u32) {0..<n}"
    by (rule inj_onI) (use assms in \<open>auto simp: word_of_nat_eq_iff take_bit_nat_eq_self\<close>)
  show mem: "i \<in> of_nat ` set [0..<n] \<longleftrightarrow> unat i < n"
  proof
    assume "i \<in> of_nat ` set [0..<n]"
    then show "unat i < n" using assms by (auto simp: unsigned_of_nat take_bit_nat_eq_self)
  next
    assume "unat i < n"
    then show "i \<in> of_nat ` set [0..<n]" by (intro image_eqI [of _ _ "unat i"]) simp_all
  qed
  have "distinct (map of_nat [0..<n] :: u32 list)" using inj by (simp add: distinct_map)
  then have "count_list (map of_nat [0..<n]) i = of_bool (i \<in> set (map of_nat [0..<n]))" by (rule count_distinct)
  then show "count_list (map of_nat [0..<n]) i = of_bool (unat i < n)" using mem by simp
qed

lemma H264Encoder_new_inv:
  assumes P: "codec_promise d q" and "H264Encoder_new d opt k0 = Some (k', Returned e)"
  shows "\<exists>n m. enc_inv q n m e {} {} {} \<and> k' = e_kernel e"
proof -
  from checked_Returned [OF assms(2) [unfolded H264Encoder_new_def]] obtain k1 k2 k3 k4 n k5 input k6 m k7 bufs k8 k9 u v w z where
    k1: "cd_open d k0 = (k1, True)" and k2: "set_controls d opt k1 = Some (k2, Returned u)" and
    k3: "set_formats d opt k2 = Some (k3, Returned v)" and
    k4: "xioctl (\<lambda>k. cd_reqbufs d k Output (of_nat NUM_OUTPUT_BUFFERS)) num_tries k3 = (k4, Some n)" and
    k5: "map_input d [0..<unat n] (replicate NUM_OUTPUT_BUFFERS []) k4 = Some (k5, Returned input)" and
    k6: "xioctl (\<lambda>k. cd_reqbufs d k Capture (of_nat NUM_CAPTURE_BUFFERS)) num_tries k5 = (k6, Some m)" and
    k7: "map_capture d [0..<unat m] (replicate NUM_CAPTURE_BUFFERS 0) k6 = Some (k7, Returned bufs)" and
    k8: "set_ioctl d (STREAMON Output) k7 = (k8, Some w)" and k9: "set_ioctl d (STREAMON Capture) k8 = (k9, Some z)" and
    e: "k' = k9" "e = \<lparr>e_abort = False, e_kernel = k9, e_buffers = bufs, e_input_buffers = input,
         e_available = map of_nat [0..<unat n], e_output_queue = []\<rparr>"
    by (auto split: prod.splits if_splits dest!: checked_Returned after_Returned)
  have q: "q k9 = (\<lambda>_. {})(Capture := of_nat ` set [0..<unat m])"
    using promise_open [OF P k1] set_controls_keeps [OF P k2] set_formats_keeps [OF P k3] reqbufs_empties [OF P k4]
      map_input_ok [OF P k5] reqbufs_empties [OF P k6] map_capture_ok [OF P k7]
      set_ioctl_keeps [OF P k8] set_ioctl_keeps [OF P k9] by (simp add: fun_eq_iff)
  have n: "unat n \<le> NUM_OUTPUT_BUFFERS" "unat m \<le> NUM_CAPTURE_BUFFERS"
    using map_input_ok [OF P k5] map_capture_ok [OF P k7] by (auto simp: not_less_eq_eq [symmetric])
  have small: "unat n \<le> 2 ^ 32" "unat m \<le> 2 ^ 32"
    using n by (simp_all add: NUM_OUTPUT_BUFFERS_def NUM_CAPTURE_BUFFERS_def)
  have "enc_inv q (unat n) (unat m) e {} {} {}"
    using n map_input_ok [OF P k5] map_capture_ok [OF P k7] upto_places(2) [OF small(1)] upto_places(1) [OF small(2)]
    by (simp add: enc_inv_def one_place_def e(2) q)
  then show ?thesis using e by auto
qed

lemma EncodeBuffer_inv:
  assumes P: "codec_promise d q" and I: "enc_inv q n m e H LI LC" and
    E: "EncodeBuffer d sz mem ts e = Some (e', r)"
  shows "case r of Returned i \<Rightarrow> enc_inv q n m e' H LI LC
     | Thrown msg \<Rightarrow> if e_available e = [] then e' = e else enc_inv q n m e' H (insert (hd (e_available e)) LI) LC"
proof (cases "e_available e")
  case Nil
  then show ?thesis using E by (auto simp: EncodeBuffer_def)
next
  case (Cons index available)
  obtain k x buf ib where x: "qbuf_ioctl d buf (e_kernel e) = (k, x)" "b_kind buf = Output" "b_index buf = index"
    "e' = e\<lparr>e_available := available, e_kernel := k, e_input_buffers := ib\<rparr>"
    "length ib = length (e_input_buffers e)"
    "r = (if x = None then Thrown ''failed to queue input to codec'' else Returned index)"
    using E Cons by (auto simp: EncodeBuffer_def Let_def split: prod.splits if_splits)
  have k: "q k = (if x = None then q (e_kernel e) else (q (e_kernel e))(Output := insert index (q (e_kernel e) Output)))"
    using qbuf_ioctl_queues [OF P x(1)] x(2,3) by simp
  have "one_place n (index # available) (q (e_kernel e) Output) {} LI" using I Cons by (simp add: enc_inv_def)
  from one_place_from_list(1,3) [OF this] I show ?thesis
    unfolding x(4,6) by (cases x) (simp_all add: enc_inv_def Cons k x(5))
qed

lemma poll_input_inv:
  assumes P: "codec_promise d q" and I: "enc_inv q n m e H LI LC"
  shows "enc_inv q n m (poll_input d e) H LI LC"
proof -
  obtain k r where r: "dqbuf_ioctl d Output (e_kernel e) = (k, r)" by fastforce
  show ?thesis
  proof (cases r)
    case None
    then show ?thesis using dqbuf_ioctl_dequeues [OF P r] I r by (simp add: poll_input_def enc_inv_def)
  next
    case (Some buf)
    have b: "b_index buf \<in> q (e_kernel e) Output" "q k = (q (e_kernel e))(Output := q (e_kernel e) Output - {b_index buf})"
      using dqbuf_ioctl_dequeues [OF P r] Some by simp_all
    have "one_place n (e_available e) (q (e_kernel e) Output) {} LI" using I by (simp add: enc_inv_def)
    from one_place_to_list [OF this b(1)] I show ?thesis by (simp add: poll_input_def enc_inv_def r Some b(2))
  qed
qed

lemma poll_output_inv:
  assumes P: "codec_promise d q" and I: "enc_inv q n m e H LI LC"
  shows "\<exists>e'. poll_output d e = Some e' \<and> enc_inv q n m e' H LI LC"
proof -
  obtain k r where r: "dqbuf_ioctl d Capture (e_kernel e) = (k, r)" by fastforce
  show ?thesis
  proof (cases r)
    case None
    then show ?thesis using dqbuf_ioctl_dequeues [OF P r] I r by (simp add: poll_output_def enc_inv_def)
  next
    case (Some buf)
    have b: "b_index buf \<in> q (e_kernel e) Capture" "q k = (q (e_kernel e))(Capture := q (e_kernel e) Capture - {b_index buf})"
      using dqbuf_ioctl_dequeues [OF P r] Some by simp_all
    have o: "one_place m (map oi_index (e_output_queue e)) (q (e_kernel e) Capture) H LC" using I by (simp add: enc_inv_def)
    have "unat (b_index buf) < m" using one_place_at [OF o, of "b_index buf"] b(1) by (auto simp: of_bool_def split: if_splits)
    then have "\<not> unat (b_index buf) \<ge> length (e_buffers e)" using I by (simp add: enc_inv_def)
    with one_place_to_list [OF o b(1)] I show ?thesis
      by (simp add: poll_output_def enc_inv_def r Some b(2) output_item_def)
  qed
qed

lemma pollThread_turn_inv:
  assumes "codec_promise d q" "enc_inv q n m e H LI LC"
  shows "\<exists>e' r. pollThread_turn d p e = Some (e', r) \<and> enc_inv q n m e' H LI LC"
  using poll_output_inv [OF assms(1) poll_input_inv [OF assms]] assms(2)
  by (cases p) (auto simp: pollThread_turn_def)

lemma GetOutput_take_inv:
  assumes "enc_inv q n m e H LI LC" "e_output_queue e = x # xs"
  shows "GetOutput_take junk e = (e\<lparr>e_output_queue := xs\<rparr>, x) \<and> enc_inv q n m (e\<lparr>e_output_queue := xs\<rparr>) (insert (oi_index x) H) LI LC"
proof -
  have "one_place m (oi_index x # map oi_index xs) (q (e_kernel e) Capture) H LC" using assms by (simp add: enc_inv_def)
  from one_place_from_list(2) [OF this] assms show ?thesis by (simp add: enc_inv_def GetOutput_take_def)
qed

lemma OutputDone_inv:
  assumes P: "codec_promise d q" and I: "enc_inv q n m e H LI LC" and x: "oi_index x \<in> H" and
    D: "OutputDone d x e = (e', r)"
  shows "enc_inv q n m e' (H - {oi_index x}) LI (case r of Returned _ \<Rightarrow> LC | Thrown _ \<Rightarrow> insert (oi_index x) LC)"
proof -
  obtain k y buf where k: "qbuf_ioctl d buf (e_kernel e) = (k, y)" "b_kind buf = Capture" "b_index buf = oi_index x"
    "e' = e\<lparr>e_kernel := k\<rparr>" "r = (if y = None then Thrown ''failed to re-queue encoded buffer'' else Returned ())"
    using D by (auto simp: OutputDone_def split: prod.splits)
  have q: "q k = (if y = None then q (e_kernel e) else (q (e_kernel e))(Capture := insert (oi_index x) (q (e_kernel e) Capture)))"
    using qbuf_ioctl_queues [OF P k(1)] k(2,3) by simp
  have "one_place m (map oi_index (e_output_queue e)) (q (e_kernel e) Capture) H LC" using I by (simp add: enc_inv_def)
  from one_place_held_away [OF this x] I show ?thesis unfolding k(4,5) by (cases y) (simp_all add: enc_inv_def q)
qed

lemma SetBitrate_inv:
  assumes "codec_promise d q" "enc_inv q n m e H LI LC" "SetBitrate d b e = (e', r)"
  shows "enc_inv q n m e' H LI LC"
proof -
  obtain k y where k: "set_ioctl d (S_CTRL BITRATE b) (e_kernel e) = (k, y)" "e' = e\<lparr>e_kernel := k\<rparr>"
    using assms(3) by (auto simp: SetBitrate_def split: prod.splits)
  show ?thesis using set_ioctl_keeps [OF assms(1) k(1)] assms(2) by (simp add: enc_inv_def k(2))
qed

section \<open>Every order of operations\<close>

text \<open>
  A step of the application or of the polling thread. The sets follow the buffers that the application
  holds (\<open>H\<close>) and those that were lost because the device refused them.
\<close>

inductive enc_step ::
    "'k codec \<Rightarrow> 'k H264Encoder \<times> u32 set \<times> u32 set \<times> u32 set \<Rightarrow> 'k H264Encoder \<times> u32 set \<times> u32 set \<times> u32 set \<Rightarrow> bool"
  for d where
  encode: "EncodeBuffer d sz mem ts e = Some (e', Returned i) \<Longrightarrow> enc_step d (e, H, LI, LC) (e', H, LI, LC)"
| encode_none: "EncodeBuffer d sz mem ts e = Some (e', Thrown msg) \<Longrightarrow> e_available e = [] \<Longrightarrow>
    enc_step d (e, H, LI, LC) (e', H, LI, LC)"
| encode_refused: "EncodeBuffer d sz mem ts e = Some (e', Thrown msg) \<Longrightarrow> e_available e = i # is \<Longrightarrow>
    enc_step d (e, H, LI, LC) (e', H, insert i LI, LC)"
| poll: "pollThread_turn d p e = Some (e', r) \<Longrightarrow> enc_step d (e, H, LI, LC) (e', H, LI, LC)"
| take: "GetOutput_take junk e = (e', x) \<Longrightarrow> e_output_queue e \<noteq> [] \<Longrightarrow>
    enc_step d (e, H, LI, LC) (e', insert (oi_index x) H, LI, LC)"
| give_back: "OutputDone d x e = (e', Returned u) \<Longrightarrow> oi_index x \<in> H \<Longrightarrow>
    enc_step d (e, H, LI, LC) (e', H - {oi_index x}, LI, LC)"
| give_back_refused: "OutputDone d x e = (e', Thrown msg) \<Longrightarrow> oi_index x \<in> H \<Longrightarrow>
    enc_step d (e, H, LI, LC) (e', H - {oi_index x}, LI, insert (oi_index x) LC)"
| bitrate: "SetBitrate d b e = (e', r) \<Longrightarrow> enc_step d (e, H, LI, LC) (e', H, LI, LC)"

inductive enc_steps ::
    "'k codec \<Rightarrow> 'k H264Encoder \<times> u32 set \<times> u32 set \<times> u32 set \<Rightarrow> 'k H264Encoder \<times> u32 set \<times> u32 set \<times> u32 set \<Rightarrow> bool"
  for d where
  none: "enc_steps d c c"
| more: "enc_steps d c c' \<Longrightarrow> enc_step d c' c'' \<Longrightarrow> enc_steps d c c''"

lemma enc_step_inv:
  assumes P: "codec_promise d q" and "enc_step d (e, H, LI, LC) (e', H', LI', LC')" and I: "enc_inv q n m e H LI LC"
  shows "enc_inv q n m e' H' LI' LC'"
  using assms(2)
proof (cases rule: enc_step.cases)
  case (encode sz mem ts i)
  then show ?thesis using EncodeBuffer_inv [OF P I] by fastforce
next
  case (encode_none sz mem ts msg)
  then show ?thesis using EncodeBuffer_inv [OF P I] I by fastforce
next
  case (encode_refused sz mem ts msg i "is")
  then show ?thesis using EncodeBuffer_inv [OF P I, of sz mem ts e' "Thrown msg"] by simp
next
  case (poll p r)
  then show ?thesis using pollThread_turn_inv [OF P I, of p] by auto
next
  case (take junk x)
  then obtain y ys where "e_output_queue e = y # ys" by (cases "e_output_queue e") auto
  then show ?thesis using take GetOutput_take_inv [OF I, of y ys junk] by simp
next
  case (give_back x u)
  then show ?thesis using OutputDone_inv [OF P I, of x e' "Returned u"] by simp
next
  case (give_back_refused x msg)
  then show ?thesis using OutputDone_inv [OF P I, of x e' "Thrown msg"] by simp
next
  case (bitrate b r)
  then show ?thesis using SetBitrate_inv [OF P I] by blast
qed

lemma enc_steps_inv:
  assumes P: "codec_promise d q" and "enc_steps d c c'" and "enc_inv q n m (fst c) (fst (snd c)) (fst (snd (snd c))) (snd (snd (snd c)))"
  shows "enc_inv q n m (fst c') (fst (snd c')) (fst (snd (snd c'))) (snd (snd (snd c')))"
  using assms(2,3)
proof (induction rule: enc_steps.induct)
  case (more c c' c'')
  then show ?case using enc_step_inv [OF P, of "fst c'" "fst (snd c')" "fst (snd (snd c'))" "snd (snd (snd c'))"] by simp
qed

section \<open>A codec that works\<close>

text \<open>
  The device encodes frame by frame: it takes the frames in order (\<open>inq\<close>), fills the capture buffers in
  order (\<open>capq\<close>), refuses no buffer that is not queued already, and copies the time stamp of a frame to its output, which is
  never empty (\<open>V4L2_BUF_FLAG_TIMESTAMP_COPY\<close>).
\<close>

definition codec_works :: "'k codec \<Rightarrow> ('k \<Rightarrow> codec_buf list) \<Rightarrow> ('k \<Rightarrow> u32 list) \<Rightarrow> bool" where
  "codec_works d inq capq \<longleftrightarrow>
     (\<forall>k b. b_kind b = Output \<longrightarrow> b_index b \<notin> b_index ` set (inq k) \<longrightarrow>
        (\<exists>k'. cd_qbuf d k b = (k', Reply ()) \<and> inq k' = inq k @ [b] \<and> capq k' = capq k)) \<and>
     (\<forall>k b. b_kind b = Capture \<longrightarrow> b_index b \<notin> set (capq k) \<longrightarrow>
        (\<exists>k'. cd_qbuf d k b = (k', Reply ()) \<and> inq k' = inq k \<and> capq k' = capq k @ [b_index b])) \<and>
     (\<forall>k b bs c cs. inq k = b # bs \<longrightarrow> capq k = c # cs \<longrightarrow> distinct (map b_index (inq k)) \<longrightarrow> distinct (capq k) \<longrightarrow>
        (\<exists>k1 i k2 x. cd_dqbuf d k Output = (k1, Reply i) \<and> b_index i = b_index b \<and>
           cd_dqbuf d k1 Capture = (k2, Reply x) \<and> b_index x = c \<and> b_sec x = b_sec b \<and> b_usec x = b_usec b \<and>
           b_bytesused x \<noteq> 0 \<and> inq k2 = bs \<and> capq k2 = cs))"

lemma works_in: "codec_works d inq capq \<Longrightarrow> b_kind b = Output \<Longrightarrow> b_index b \<notin> b_index ` set (inq k) \<Longrightarrow>
    \<exists>k'. cd_qbuf d k b = (k', Reply ()) \<and> inq k' = inq k @ [b] \<and> capq k' = capq k"
  unfolding codec_works_def by (elim conjE) meson

lemma works_back: "codec_works d inq capq \<Longrightarrow> b_kind b = Capture \<Longrightarrow> b_index b \<notin> set (capq k) \<Longrightarrow>
    \<exists>k'. cd_qbuf d k b = (k', Reply ()) \<and> inq k' = inq k \<and> capq k' = capq k @ [b_index b]"
  unfolding codec_works_def by (elim conjE) meson

lemma works_poll: "codec_works d inq capq \<Longrightarrow> inq k = b # bs \<Longrightarrow> capq k = c # cs \<Longrightarrow>
    distinct (map b_index (inq k)) \<Longrightarrow> distinct (capq k) \<Longrightarrow>
    \<exists>k1 i k2 x. cd_dqbuf d k Output = (k1, Reply i) \<and> b_index i = b_index b \<and>
      cd_dqbuf d k1 Capture = (k2, Reply x) \<and> b_index x = c \<and> b_sec x = b_sec b \<and> b_usec x = b_usec b \<and>
      b_bytesused x \<noteq> 0 \<and> inq k2 = bs \<and> capq k2 = cs"
  unfolding codec_works_def by (elim conjE) meson

lemma xioctl_Reply: "call k = (k', Reply r) \<Longrightarrow> xioctl call n k = (k', Some r)"
  by (subst xioctl.simps) simp

lemma time_parts: "word_of_int (sint ts sdiv 1000000) * 1000000 + word_of_int (sint ts smod 1000000) = (ts :: i64)"
proof -
  have "word_of_int (sint ts sdiv 1000000) * 1000000 + word_of_int (sint ts smod 1000000) =
      (word_of_int (sint ts sdiv 1000000 * 1000000 + sint ts smod 1000000) :: i64)" by simp
  also have "\<dots> = word_of_int (sint ts)" by (simp only: sdiv_mult_smod_eq)
  finally show ?thesis by simp
qed

text \<open>One frame: handed in, one turn of the polling thread, its output taken.\<close>

definition encode_frame ::
    "'k codec \<Rightarrow> u32 \<Rightarrow> u32 \<Rightarrow> u32 \<Rightarrow> u8 list \<Rightarrow> 'k H264Encoder \<times> u64 \<Rightarrow> ('k H264Encoder \<times> u64 \<times> OutputItem py) option" where
  "encode_frame d width height depth mem s =
     (case encoder_encode_in d width height depth mem (snd s) (fst s) of
        Some (e, PyOk _) \<Rightarrow>
          (case pollThread_turn d PollIn e of
             Some (e, Returned _) \<Rightarrow>
               Some (encoder_encode_out d \<lparr>oi_mem = None, oi_bytes_used = 0, oi_length = 0, oi_index = 0,
                       oi_keyframe = False, oi_timestamp_us = 0\<rparr> (snd s) e)
           | _ \<Rightarrow> None)
      | _ \<Rightarrow> None)"

fun encode_frames ::
    "'k codec \<Rightarrow> u32 \<Rightarrow> u32 \<Rightarrow> u32 \<Rightarrow> u8 list list \<Rightarrow> 'k H264Encoder \<times> u64
      \<Rightarrow> (('k H264Encoder \<times> u64) \<times> OutputItem py list) option" where
  "encode_frames d width height depth [] s = Some (s, [])"
| "encode_frames d width height depth (mem # mems) s =
     (case encode_frame d width height depth mem s of
        None \<Rightarrow> None
      | Some (e, count, r) \<Rightarrow>
          (case encode_frames d width height depth mems (e, count) of
             None \<Rightarrow> None
           | Some (s, rs) \<Rightarrow> Some (s, r # rs)))"

definition quiescent :: "('k \<Rightarrow> codec_buf list) \<Rightarrow> ('k \<Rightarrow> u32 list) \<Rightarrow> 'k H264Encoder \<Rightarrow> bool" where
  "quiescent inq capq e \<longleftrightarrow>
     inq (e_kernel e) = [] \<and> e_output_queue e = [] \<and> e_available e \<noteq> [] \<and> capq (e_kernel e) \<noteq> [] \<and>
     distinct (capq (e_kernel e)) \<and>
     (\<forall>i \<in> set (capq (e_kernel e)). unat i < length (e_buffers e)) \<and>
     (\<forall>i \<in> set (e_available e). unat i < length (e_input_buffers e)) \<and>
     length (e_input_buffers e) = NUM_OUTPUT_BUFFERS"

definition sizes :: "'k H264Encoder \<Rightarrow> nat list" where
  "sizes e = map length (e_input_buffers e)"

lemma ucast_u64_zero: "(ucast (w :: u32) :: u64) = 0 \<longleftrightarrow> w = 0"
proof
  assume "(ucast w :: u64) = 0"
  then have "unat (ucast w :: u64) = 0" by simp
  moreover have "unat w < 2 ^ 64" using unsigned_less [of w, where 'a = nat] by simp
  ultimately have "unat w = 0" by (simp add: unsigned_ucast_eq take_bit_nat_eq_self)
  then show "w = 0" by (simp add: unat_eq_zero)
qed simp

lemma encode_frame_works:
  assumes W: "codec_works d inq capq" and Q: "quiescent inq capq e" and M: "\<forall>n \<in> set (sizes e). n \<le> length mem"
  shows "\<exists>e' x. encode_frame d width height depth mem (e, count) = Some (e', count + 1, PyOk x) \<and>
    oi_timestamp_us x = count \<and> quiescent inq capq e' \<and> sizes e' = sizes e \<and>
    set (capq (e_kernel e')) = set (capq (e_kernel e)) \<and> set (e_available e') = set (e_available e)"
proof -
  obtain i av where av: "e_available e = i # av" using Q by (cases "e_available e") (auto simp: quiescent_def)
  obtain c cs where cs: "capq (e_kernel e) = c # cs" using Q by (cases "capq (e_kernel e)") (auto simp: quiescent_def)
  have i: "unat i < length (e_input_buffers e)" "unat i < 6" using Q av by (auto simp: quiescent_def NUM_OUTPUT_BUFFERS_def)
  define n where "n = length (e_input_buffers e ! unat i)"
  have n: "n \<le> length mem" using M i(1) by (simp add: sizes_def n_def)
  define sz :: u64 where "sz = ucast (width * height * depth :: u32)"
  define buf where "buf = \<lparr>b_kind = Output, b_index = i, b_sec = word_of_int (sint count sdiv 1000000),
    b_usec = word_of_int (sint count smod 1000000), b_bytesused = ucast sz, b_length = ucast sz, b_keyframe = False\<rparr>"
  have buf: "b_kind buf = Output" "b_index buf = i" by (simp_all add: buf_def)
  from works_in [OF W buf(1), of "e_kernel e"] Q cs obtain k1 where
    k1: "cd_qbuf d (e_kernel e) buf = (k1, Reply ())" "inq k1 = [buf]" "capq k1 = c # cs"
    by (auto simp: quiescent_def)
  define e1 where "e1 = e\<lparr>e_available := av, e_kernel := k1, e_input_buffers := (e_input_buffers e)[unat i := take n mem]\<rparr>"
  have lt: "\<not> i \<ge> FRAME_IN_TABLE_SIZE" using i(2) by (simp add: FRAME_IN_TABLE_SIZE_def word_le_nat_alt)
  have x1: "qbuf_ioctl d buf (e_kernel e) = (k1, Some ())" by (rule xioctl_Reply, rule k1(1))
  have "EncodeBuffer d sz mem count e = Some (e1, Returned i)"
    using i(1) n x1 by (simp add: EncodeBuffer_def av Let_def n_def [symmetric] buf_def [symmetric] e1_def)
  then have enc: "encoder_encode_in d width height depth mem count e = Some (e1, PyOk ())"
    using lt by (simp add: encoder_encode_in_def sz_def)
  have d: "distinct (c # cs)" using Q cs by (simp add: quiescent_def)
  from works_poll [OF W k1(2,3)] d obtain k2 b k3 x where
    k: "cd_dqbuf d k1 Output = (k2, Reply b)" "b_index b = i" "cd_dqbuf d k2 Capture = (k3, Reply x)"
    "b_index x = c" "b_sec x = b_sec buf" "b_usec x = b_usec buf" "b_bytesused x \<noteq> 0" "inq k3 = []" "capq k3 = cs"
    by (auto simp: k1(2,3) buf(2))
  define e2 where "e2 = e1\<lparr>e_available := av @ [i], e_kernel := k3, e_output_queue := [output_item x]\<rparr>"
  have c: "unat c < length (e_buffers e)" using Q cs by (simp add: quiescent_def)
  have x2: "dqbuf_ioctl d Output k1 = (k2, Some b)" "dqbuf_ioctl d Capture k2 = (k3, Some x)"
    by (rule xioctl_Reply, rule k(1)) (rule xioctl_Reply, rule k(3))
  have poll: "pollThread_turn d PollIn e1 = Some (e2, Returned ())"
    using c Q by (simp add: pollThread_turn_def poll_input_def poll_output_def e1_def e2_def k(2,4) quiescent_def x2)
  have ts: "oi_timestamp_us (output_item x) = count" by (simp add: output_item_def k(5,6) buf_def time_parts)
  have bu: "oi_bytes_used (output_item x) \<noteq> 0"
    using k(7) by (simp add: output_item_def ucast_u64_zero)
  have ix: "oi_index (output_item x) = c" by (simp add: output_item_def k(4))
  let ?b = "\<lparr>b_kind = Capture, b_index = c, b_sec = 0, b_usec = 0, b_bytesused = 0,
      b_length = ucast (oi_length (output_item x)), b_keyframe = False\<rparr>"
  from works_back [OF W, of ?b k3] obtain k4 where
    k4: "cd_qbuf d k3 ?b = (k4, Reply ())" "inq k4 = []" "capq k4 = cs @ [c]" using d by (auto simp: k(8,9))
  have x4: "qbuf_ioctl d ?b k3 = (k4, Some ())" by (rule xioctl_Reply, rule k4(1))
  define e3 where "e3 = e2\<lparr>e_kernel := k4, e_output_queue := []\<rparr>"
  have out: "encoder_encode_out d junk count e2 = (e3, count + 1, PyOk (output_item x))" for junk
    using bu ts by (simp add: encoder_encode_out_def GetOutput_take_def OutputDone_def e2_def e3_def ix x4)
  have "encode_frame d width height depth mem (e, count) = Some (e3, count + 1, PyOk (output_item x))"
    by (simp add: encode_frame_def enc poll out)
  moreover have same: "sizes e3 = sizes e"
    using i(1) n by (simp add: sizes_def e3_def e2_def e1_def map_update) (simp add: n_def list_update_same_conv)
  moreover have "set (capq (e_kernel e3)) = set (capq (e_kernel e))" "set (e_available e3) = set (e_available e)"
    by (simp_all add: e3_def e2_def k4 cs av)
  moreover have "quiescent inq capq e3"
    using Q d by (auto simp: quiescent_def e3_def e2_def e1_def k4 cs av)
  ultimately show ?thesis using ts by blast
qed

lemma encode_frames_works:
  assumes "codec_works d inq capq" "quiescent inq capq e" "\<forall>mem \<in> set mems. \<forall>n \<in> set (sizes e). n \<le> length mem"
  shows "\<exists>e' xs. encode_frames d width height depth mems (e, count) = Some ((e', count + of_nat (length mems)), map PyOk xs) \<and>
    map oi_timestamp_us xs = map (\<lambda>i. count + of_nat i) [0..<length mems] \<and> quiescent inq capq e' \<and>
    set (capq (e_kernel e')) = set (capq (e_kernel e)) \<and> set (e_available e') = set (e_available e)"
  using assms(2,3)
proof (induction mems arbitrary: e count)
  case Nil
  then show ?case by simp
next
  case (Cons mem mems)
  from encode_frame_works [OF assms(1) Cons.prems(1), of mem width height depth count] Cons.prems(2) obtain e1 x where
    e1: "encode_frame d width height depth mem (e, count) = Some (e1, count + 1, PyOk x)" "oi_timestamp_us x = count"
    "quiescent inq capq e1" "sizes e1 = sizes e" "set (capq (e_kernel e1)) = set (capq (e_kernel e))"
    "set (e_available e1) = set (e_available e)" by auto
  from Cons.IH [OF e1(3), of "count + 1"] Cons.prems(2) e1(4) obtain e2 xs where
    e2: "encode_frames d width height depth mems (e1, count + 1) = Some ((e2, count + 1 + of_nat (length mems)), map PyOk xs)"
    "map oi_timestamp_us xs = map (\<lambda>i. count + 1 + of_nat i) [0..<length mems]" "quiescent inq capq e2"
    "set (capq (e_kernel e2)) = set (capq (e_kernel e1))" "set (e_available e2) = set (e_available e1)" by auto
  have "map (\<lambda>i. count + of_nat i) [0..<length (mem # mems)] = count # map (\<lambda>i. count + 1 + of_nat i) [0..<length mems]"
    by (simp add: upt_conv_Cons map_Suc_upt [symmetric] add.assoc del: upt_Suc)
  then show ?case using e1 e2
    by (intro exI [of _ e2] exI [of _ "x # xs"]) (simp add: add.assoc)
qed

section \<open>An example device\<close>

text \<open>A simulated codec: it takes the frames in order and gives one byte of output for each.\<close>

record sim_codec =
  sim_frames :: "codec_buf list"
  sim_capture :: "u32 list"
  sim_done :: "codec_buf option"

definition sim_qbuf :: "sim_codec \<Rightarrow> codec_buf \<Rightarrow> sim_codec \<times> unit ioctl" where
  "sim_qbuf k b =
     (if b_kind b = Output then
        if b_index b \<in> b_index ` set (sim_frames k) then (k, Failed)
        else (k\<lparr>sim_frames := sim_frames k @ [b]\<rparr>, Reply ())
      else if b_index b \<in> set (sim_capture k) then (k, Failed)
      else (k\<lparr>sim_capture := sim_capture k @ [b_index b]\<rparr>, Reply ()))"

definition sim_dqbuf :: "sim_codec \<Rightarrow> bufkind \<Rightarrow> sim_codec \<times> codec_buf ioctl" where
  "sim_dqbuf k t =
     (if t = Output then
        (case sim_frames k of
           [] \<Rightarrow> (k, Failed)
         | b # bs \<Rightarrow> (k\<lparr>sim_frames := filter (\<lambda>x. b_index x \<noteq> b_index b) bs, sim_done := Some b\<rparr>, Reply b))
      else
        (case (sim_done k, sim_capture k) of
           (Some b, c # cs) \<Rightarrow>
             (k\<lparr>sim_capture := filter (\<lambda>x. x \<noteq> c) cs, sim_done := None\<rparr>,
              Reply (b\<lparr>b_kind := Capture, b_index := c, b_bytesused := 1\<rparr>))
         | _ \<Rightarrow> (k, Failed)))"

definition sim :: "sim_codec codec" where
  "sim =
     \<lparr>cd_set = (\<lambda>k c. (k, Reply ())),
      cd_reqbufs = (\<lambda>k t n. (if t = Output then k\<lparr>sim_frames := []\<rparr> else k\<lparr>sim_capture := []\<rparr>, Reply n)),
      cd_querybuf = (\<lambda>k t i. (k, Reply 4)), cd_mmap = (\<lambda>k t i n. (k, Some (replicate (unat n) 0))),
      cd_qbuf = sim_qbuf, cd_dqbuf = sim_dqbuf,
      cd_open = (\<lambda>k. (\<lparr>sim_frames = [], sim_capture = [], sim_done = None\<rparr>, True)), cd_close = (\<lambda>k. k)\<rparr>"

definition sim_held :: "sim_codec \<Rightarrow> bufkind \<Rightarrow> u32 set" where
  "sim_held k t = (if t = Output then b_index ` set (sim_frames k) else set (sim_capture k))"

lemma not_Output [simp]: "t \<noteq> Output \<longleftrightarrow> t = Capture"
  by (cases t) simp_all

lemma sim_promise: "codec_promise sim sim_held"
  by (auto simp: codec_promise_def sim_def sim_held_def sim_qbuf_def sim_dqbuf_def fun_eq_iff image_iff
      split: if_splits list.splits option.splits)

lemma sim_works: "codec_works sim sim_frames sim_capture"
  by (auto simp: codec_works_def sim_def sim_qbuf_def sim_dqbuf_def filter_id_conv image_iff)

definition sim_start :: sim_codec where
  "sim_start = \<lparr>sim_frames = [], sim_capture = [0, 1, 2, 3, 4, 5, 6, 7, 8, 9, 10, 11], sim_done = None\<rparr>"

definition sim_encoder :: "sim_codec H264Encoder" where
  "sim_encoder =
     \<lparr>e_abort = False, e_kernel = sim_start, e_buffers = replicate 12 4, e_input_buffers = replicate 6 (replicate 4 0),
      e_available = [0, 1, 2, 3, 4, 5], e_output_queue = []\<rparr>"

lemma sim_new: "H264Encoder_new sim VideoOptions_default sim_start = Some (sim_start, Returned sim_encoder)"
  by code_simp

section \<open>Properties\<close>

text \<open>
  C14. From the construction of an encoder on, in every order of frames, output, polling and failures of
  the device: each input buffer and each capture buffer is in exactly one place, and is lost only when
  the device refused it. So the polling thread never leaves its arrays, and a frame can be handed in
  without undefined behaviour when it has at least the size of the buffers.
\<close>

theorem encoder_buffers_owned:
  assumes "codec_promise d q" "H264Encoder_new d opt k0 = Some (k, Returned e0)" "enc_steps d (e0, {}, {}, {}) (e, H, LI, LC)"
  shows "(\<exists>n m. n \<le> NUM_OUTPUT_BUFFERS \<and> m \<le> NUM_CAPTURE_BUFFERS \<and>
      one_place n (e_available e) (q (e_kernel e) Output) {} LI \<and>
      one_place m (map oi_index (e_output_queue e)) (q (e_kernel e) Capture) H LC) \<and>
    (\<forall>p. pollThread_turn d p e \<noteq> None) \<and>
    (\<forall>sz mem ts. (\<forall>b \<in> set (e_input_buffers e). length b \<le> length mem) \<longrightarrow> EncodeBuffer d sz mem ts e \<noteq> None)"
proof -
  obtain n m where "enc_inv q n m e0 {} {} {}" using H264Encoder_new_inv [OF assms(1,2)] by blast
  then have I: "enc_inv q n m e H LI LC" using enc_steps_inv [OF assms(1,3), of n m] by simp
  have "EncodeBuffer d sz mem ts e \<noteq> None" if "\<forall>b \<in> set (e_input_buffers e). length b \<le> length mem" for sz mem ts
  proof (cases "e_available e")
    case (Cons i av)
    have "one_place n (i # av) (q (e_kernel e) Output) {} LI" using I Cons by (simp add: enc_inv_def)
    from one_place_at [OF this, of i] have "unat i < n" by (auto simp: of_bool_def split: if_splits)
    then have "unat i < length (e_input_buffers e)" using I by (simp add: enc_inv_def)
    moreover from this have "length (e_input_buffers e ! unat i) \<le> length mem" using that nth_mem by blast
    ultimately show ?thesis using Cons by (simp add: EncodeBuffer_def Let_def split: prod.splits)
  qed (simp add: EncodeBuffer_def)
  moreover have "pollThread_turn d p e \<noteq> None" for p using pollThread_turn_inv [OF assms(1) I, of p] by auto
  ultimately show ?thesis using I unfolding enc_inv_def by blast
qed

theorem encoder_buffers_owned_witness:
  "\<exists>e. EncodeBuffer sim 4 [1, 2, 3, 4] 7 sim_encoder = Some (e, Returned 0) \<and>
     (\<forall>p. pollThread_turn sim p e \<noteq> None) \<and> EncodeBuffer sim 4 [5, 6, 7, 8] 8 e \<noteq> None"
proof -
  have "case EncodeBuffer sim 4 [1, 2, 3, 4] 7 sim_encoder of
      Some (e, Returned i) \<Rightarrow> i = 0 \<and> (\<forall>b \<in> set (e_input_buffers e). length b \<le> 4) | _ \<Rightarrow> False" by code_simp
  then obtain e where e: "EncodeBuffer sim 4 [1, 2, 3, 4] 7 sim_encoder = Some (e, Returned 0)"
    "\<forall>b \<in> set (e_input_buffers e). length b \<le> 4"
    by (auto split: option.split_asm prod.split_asm outcome.split_asm)
  have "enc_steps sim (sim_encoder, {}, {}, {}) (e, {}, {}, {})"
    by (rule enc_steps.more [OF enc_steps.none]) (rule enc_step.encode [OF e(1)])
  note owned = encoder_buffers_owned [OF sim_promise sim_new this]
  have "\<forall>b \<in> set (e_input_buffers e). length b \<le> length [5, 6, 7, 8 :: u8]" using e(2) by (simp add: eval_nat_numeral)
  then have "EncodeBuffer sim 4 [5, 6, 7, 8] 8 e \<noteq> None" using owned by blast
  then show ?thesis using owned e(1) by blast
qed



text \<open>
  When the output of the encoder is empty or has another time stamp, the call fails and its capture
  buffer is neither given back to the device nor kept in the queue: it is lost to the encoder.
\<close>

theorem encoder_encode_out_loses:
  assumes "enc_inv q n m e {} LI LC" "e_output_queue e = x # xs" "oi_bytes_used x = 0 \<or> oi_timestamp_us x \<noteq> count"
  shows "\<exists>e' msg. encoder_encode_out d junk count e = (e', count, PyError msg) \<and>
    oi_index x \<notin> set (map oi_index (e_output_queue e')) \<and> oi_index x \<notin> q (e_kernel e') Capture \<and>
    enc_inv q n m e' {oi_index x} LI LC"
proof -
  let ?e = "e\<lparr>e_output_queue := xs\<rparr>"
  have t: "GetOutput_take junk e = (?e, x)" "enc_inv q n m ?e {oi_index x} LI LC"
    using GetOutput_take_inv [OF assms(1,2), of junk] by auto
  have "one_place m (map oi_index xs) (q (e_kernel e) Capture) {oi_index x} LC" using t(2) by (simp add: enc_inv_def)
  from one_place_held [OF this, of "oi_index x"] have "oi_index x \<notin> set (map oi_index xs)" "oi_index x \<notin> q (e_kernel e) Capture"
    by (simp_all add: count_list_0_iff)
  then show ?thesis using t assms(3) by (auto simp: encoder_encode_out_def)
qed

text \<open>The frame that is stale here was handed in with time stamp 7 before the count was 8.\<close>

definition sim_stale :: "sim_codec H264Encoder" where
  "sim_stale =
     sim_encoder\<lparr>e_kernel := sim_start\<lparr>sim_capture := [1, 2, 3, 4, 5, 6, 7, 8, 9, 10, 11]\<rparr>,
       e_output_queue := [\<lparr>oi_mem = Some 0, oi_bytes_used = 1, oi_length = 0, oi_index = 0, oi_keyframe = False,
                           oi_timestamp_us = 7\<rparr>]\<rparr>"

lemma one_more:
  "distinct ys \<Longrightarrow> count_list [x] i + of_bool (i \<in> set ys) + of_bool (i \<in> {}) + of_bool (i \<in> {}) = count_list (x # ys) i"
  by (simp add: count_distinct)

lemma sim_stale_inv: "enc_inv sim_held 6 12 sim_stale {} {} {}"
proof -
  have up: "6 \<le> (2 :: nat) ^ 32" "12 \<le> (2 :: nat) ^ 32" by simp_all
  let ?rest = "[1, 2, 3, 4, 5, 6, 7, 8, 9, 10, 11] :: u32 list"
  have all: "map of_nat [0..<6] = ([0, 1, 2, 3, 4, 5] :: u32 list)" "map of_nat [0..<12] = 0 # ?rest"
    by (simp_all add: upt_conv_Cons)
  have "distinct ?rest" by simp
  from one_more [OF this] have "one_place 12 [0] (set ?rest) {} {}"
    using upto_places(2) [OF up(2), unfolded all] unfolding one_place_def by (simp only: simp_thms)
  moreover have "one_place 6 [0, 1, 2, 3, 4, 5] {} {} {}"
    using upto_places(2) [OF up(1), unfolded all] by (simp add: one_place_def del: count_list.simps)
  moreover have "sim_held (e_kernel sim_stale) Output = {}" "e_available sim_stale = [0, 1, 2, 3, 4, 5]"
    "sim_held (e_kernel sim_stale) Capture = set [1, 2, 3, 4, 5, 6, 7, 8, 9, 10, 11]"
    "map oi_index (e_output_queue sim_stale) = [0]"
    "length (e_input_buffers sim_stale) = 6" "length (e_buffers sim_stale) = 12"
    by (simp_all add: sim_stale_def sim_encoder_def sim_start_def sim_held_def)
  ultimately show ?thesis
    unfolding enc_inv_def NUM_OUTPUT_BUFFERS_def NUM_CAPTURE_BUFFERS_def by (simp only: le_refl simp_thms)
qed

theorem encoder_encode_out_loses_witness:
  "\<exists>e' msg. encoder_encode_out sim
       \<lparr>oi_mem = None, oi_bytes_used = 0, oi_length = 0, oi_index = 0, oi_keyframe = False, oi_timestamp_us = 0\<rparr> 8 sim_stale
     = (e', 8, PyError msg) \<and> 0 \<notin> sim_held (e_kernel e') Capture"
  using encoder_encode_out_loses [OF sim_stale_inv, of _ "[]" 8 sim
      "\<lparr>oi_mem = None, oi_bytes_used = 0, oi_length = 0, oi_index = 0, oi_keyframe = False, oi_timestamp_us = 0\<rparr>"]
  by (auto simp: sim_stale_def)

section \<open>Parameters\<close>

text \<open>The bit rate of the parameters is not passed on when an encoder is made.\<close>

lemma keInit_ignores_bitrate:
  "map_option (\<lambda>(s, r). (ke_encoder s, ke_kernel s, r)) (keInit d (p\<lparr>kp_bitrate := b\<rparr>) s) =
   map_option (\<lambda>(s, r). (ke_encoder s, ke_kernel s, r)) (keInit d p s)"
  by (simp add: keInit_def Let_def split: option.splits prod.splits outcome.splits)

text \<open>A change of the resolution that the device refuses leaves no encoder, and reports nothing.\<close>

lemma keUpdateParams_lost:
  assumes "ke_encoder s = Some e" "kp_bitrate (ke_params s) = kp_bitrate (ke_currParams s)"
    and "kp_width (ke_params s) \<noteq> kp_width (ke_currParams s)"
    and "H264Encoder_new d ((ke_options s)\<lparr>vo_width := kp_width (ke_params s), vo_height := kp_height (ke_params s)\<rparr>)
      (H264Encoder_delete d e) = Some (k, Thrown msg)"
  shows "\<exists>s'. keUpdateParams d s = Some (s', Returned ()) \<and> ke_encoder s' = None"
  using assms by (simp add: keUpdateParams_def keInit_def keExit_def Let_def)

end
