(* ===== verification/EncoderObject.thy ===== *)
theory EncoderObject
  imports Encoder CameraObject
begin

text \<open>
  The encoder object of Python, \<open>kencodermodule.c\<close>: arguments, attributes and its life. Encoding a frame is in
  theory \<open>Encoder\<close>. The parameters of the object are those that \<open>g_params\<close> points to.
\<close>

section \<open>The object\<close>

record 'k PyEncoder = "'k KeState" +
  oe_exists :: bool
  oe_res :: "(u32 \<times> u32) option"
  oe_mode :: "string option"

text \<open>\<open>ea_bitrate\<close> is the bitrate that was stored, if any; the others are as for the camera.\<close>

record encoder_args =
  ea_bitrate :: "u32 option"
  ea_ok :: bool
  ea_res :: "u32 list option"
  ea_mode :: "string option option"

abbreviation upd_kp :: "('k, 'z) PyEncoder_scheme \<Rightarrow> (KeParams \<Rightarrow> KeParams) \<Rightarrow> ('k, 'z) PyEncoder_scheme" where
  "upd_kp s f \<equiv> s\<lparr>ke_params := f (ke_params s)\<rparr>"

definition encoder_parse_resolution :: "u32 list option \<Rightarrow> ('k, 'z) PyEncoder_scheme \<Rightarrow> ('k, 'z) PyEncoder_scheme \<times> bool" where
  "encoder_parse_resolution res s =
     (case res of
        None \<Rightarrow> (s, True)
      | Some [] \<Rightarrow> (s, False)
      | Some [x] \<Rightarrow> (upd_kp s (\<lambda>p. p\<lparr>kp_width := x\<rparr>), False)
      | Some (x # y # _) \<Rightarrow> ((upd_kp s (\<lambda>p. p\<lparr>kp_width := x, kp_height := y\<rparr>))\<lparr>oe_res := Some (x, y)\<rparr>, True))"

definition encoder_parse_mode :: "string option option \<Rightarrow> ('k, 'z) PyEncoder_scheme \<Rightarrow> (('k, 'z) PyEncoder_scheme \<times> bool) option" where
  "encoder_parse_mode mode s =
     (case mode of
        None \<Rightarrow> Some (s, True)
      | Some None \<Rightarrow> Some (s, False)
      | Some (Some m) \<Rightarrow>
          if length m \<ge> 128 then None
          else Some ((upd_kp s (\<lambda>p. p\<lparr>kp_mode := m\<rparr>))\<lparr>oe_mode := Some m\<rparr>, True))"

definition encoder_parseArgs :: "encoder_args \<Rightarrow> ('k, 'z) PyEncoder_scheme \<Rightarrow> (('k, 'z) PyEncoder_scheme \<times> bool) option" where
  "encoder_parseArgs args s =
     (let s = (case ea_bitrate args of None \<Rightarrow> s | Some b \<Rightarrow> upd_kp s (\<lambda>p. p\<lparr>kp_bitrate := b\<rparr>)) in
      if \<not> ea_ok args then Some (s, False)
      else
        (case encoder_parse_resolution (ea_res args) s of
           (s, False) \<Rightarrow> Some (s, False)
         | (s, True) \<Rightarrow> encoder_parse_mode (ea_mode args) s))"

section \<open>Life of the object\<close>

text \<open>
  The functions of the C interface work on the part of the state that is not the object; \<open>with_ke\<close> puts the
  result back.
\<close>

definition ke_part :: "('k, 'z) PyEncoder_scheme \<Rightarrow> 'k KeState" where
  "ke_part s = KeState.truncate s"

definition with_ke :: "('k, 'z) PyEncoder_scheme \<Rightarrow> 'k KeState \<Rightarrow> ('k, 'z) PyEncoder_scheme" where
  "with_ke s t = s\<lparr>ke_options := ke_options t, ke_encoder := ke_encoder t, ke_kernel := ke_kernel t,
                   ke_params := ke_params t, ke_currParams := ke_currParams t\<rparr>"

definition encoder_new :: "bool \<Rightarrow> ('k, 'z) PyEncoder_scheme \<Rightarrow> ('k, 'z) PyEncoder_scheme \<times> bool" where
  "encoder_new allocated s =
     (if oe_exists s then (s, False)
      else if \<not> allocated then (s, False)
      else (s\<lparr>oe_exists := True, oe_res := None, oe_mode := None\<rparr>, True))"

definition encoder_init ::
    "'k codec \<Rightarrow> encoder_args \<Rightarrow> ('k, 'z) PyEncoder_scheme \<Rightarrow> (('k, 'z) PyEncoder_scheme \<times> bool) option" where
  "encoder_init d args s =
     (let s = upd_kp s (\<lambda>p. p\<lparr>kp_width := 640, kp_height := 480, kp_bitrate := 3000000, kp_mode := ''default''\<rparr>) in
      case encoder_parseArgs args s of
        None \<Rightarrow> None
      | Some (s, False) \<Rightarrow> Some (s, False)
      | Some (s, True) \<Rightarrow>
          (case keInit d (ke_params s) (ke_part s) of
             None \<Rightarrow> None
           | Some (t, r) \<Rightarrow> Some (with_ke s t, r = 0)))"

definition encoder_dealloc :: "'k codec \<Rightarrow> ('k, 'z) PyEncoder_scheme \<Rightarrow> ('k, 'z) PyEncoder_scheme" where
  "encoder_dealloc d s = (with_ke s (keExit d (ke_part s)))\<lparr>oe_exists := False, oe_res := None, oe_mode := None\<rparr>"

section \<open>Attributes\<close>

text \<open>
  The table \<open>encoder_members\<close> with the generic setter. \<open>pair\<close> are the numbers that were read from a value that
  should be a tuple of two; the resolution is stored as the tuple it is given.
\<close>

definition encoder_member ::
    "('v, 'f) py_ops \<Rightarrow> ('v \<Rightarrow> u32 list) \<Rightarrow> string \<Rightarrow> 'v option \<Rightarrow> ('k, 'z) PyEncoder_scheme \<Rightarrow> ('k, 'z) PyEncoder_scheme \<times> bool" where
  "encoder_member P pair name value s =
     (if name = ''resolution'' then
        (s\<lparr>oe_res := (case value of None \<Rightarrow> None | Some v \<Rightarrow> (case pair v of x # y # _ \<Rightarrow> Some (x, y) | _ \<Rightarrow> None))\<rparr>, True)
      else if name = ''mode'' then (s\<lparr>oe_mode := (case value of None \<Rightarrow> None | Some v \<Rightarrow> py_text P v)\<rparr>, True)
      else if name = ''bitrate'' then
        (case value of
           None \<Rightarrow> (s, False)
         | Some v \<Rightarrow> (case py_uint P v of None \<Rightarrow> (s, False) | Some n \<Rightarrow> (upd_kp s (\<lambda>p. p\<lparr>kp_bitrate := n\<rparr>), True)))
      else (s, False))"

definition encoder_setAttr ::
    "'k codec \<Rightarrow> ('v, 'f) py_ops \<Rightarrow> ('v \<Rightarrow> u32 list) \<Rightarrow> string \<Rightarrow> 'v option \<Rightarrow> ('k, 'z) PyEncoder_scheme
      \<Rightarrow> (('k, 'z) PyEncoder_scheme \<times> bool outcome) option" where
  "encoder_setAttr d P pair name value s =
     (case value of
        None \<Rightarrow> (case encoder_member P pair name None s of (s, ok) \<Rightarrow> Some (s, Returned ok))
      | Some v \<Rightarrow>
          (case (if name = ''mode'' then
                   (case py_text P v of
                      None \<Rightarrow> None
                    | Some m \<Rightarrow> if m \<in> set keGetModes then Some (upd_kp s (\<lambda>p. p\<lparr>kp_mode := m\<rparr>), True) else Some (s, False))
                 else if name = ''resolution'' then
                   (case pair v of
                      [] \<Rightarrow> Some (s, False)
                    | [x] \<Rightarrow> Some (upd_kp s (\<lambda>p. p\<lparr>kp_width := x\<rparr>), False)
                    | x # y # _ \<Rightarrow> Some (upd_kp s (\<lambda>p. p\<lparr>kp_width := x, kp_height := y\<rparr>), True))
                 else Some (s, True)) of
             None \<Rightarrow> None
           | Some (s, False) \<Rightarrow> Some (s, Returned False)
           | Some (s, True) \<Rightarrow>
               (case encoder_member P pair name (Some v) s of
                  (s, ok) \<Rightarrow>
                    (case keUpdateParams d (ke_part s) of
                       None \<Rightarrow> None
                     | Some (t, Thrown msg) \<Rightarrow> Some (with_ke s t, Thrown msg)
                     | Some (t, Returned _) \<Rightarrow> Some (with_ke s t, Returned ok)))))"

section \<open>Properties\<close>

lemma ke_part_simps [simp]:
  "ke_options (ke_part s) = ke_options s" "ke_encoder (ke_part s) = ke_encoder s" "ke_kernel (ke_part s) = ke_kernel s"
  "ke_params (ke_part s) = ke_params s" "ke_currParams (ke_part s) = ke_currParams s"
  by (simp_all add: ke_part_def KeState.defs)

lemma with_ke_simps [simp]:
  "ke_options (with_ke s t) = ke_options t" "ke_encoder (with_ke s t) = ke_encoder t" "ke_kernel (with_ke s t) = ke_kernel t"
  "ke_params (with_ke s t) = ke_params t" "ke_currParams (with_ke s t) = ke_currParams t"
  by (simp_all add: with_ke_def)

text \<open>
  When the device refuses a new resolution, setting it succeeds nevertheless, but the encoder is gone: the
  next change of the bitrate reads through the null pointer, and so does the next frame.
\<close>

theorem encoder_refused_resolution:
  assumes "pair v = [x, y]" "ke_encoder s = Some e" "kp_bitrate (ke_params s) = kp_bitrate (ke_currParams s)"
    "x \<noteq> kp_width (ke_currParams s) \<or> y \<noteq> kp_height (ke_currParams s)"
    "H264Encoder_new d ((ke_options s)\<lparr>vo_width := x, vo_height := y\<rparr>) (H264Encoder_delete d e) = Some (k, Thrown msg)"
    "py_uint P u = Some n" "n \<noteq> kp_bitrate (ke_params s)"
  shows "\<exists>s'. encoder_setAttr d P pair ''resolution'' (Some v) s = Some (s', Returned True) \<and> ke_encoder s' = None \<and>
    oe_res s' = Some (x, y) \<and> encoder_setAttr d P pair ''bitrate'' (Some u) s' = None"
proof -
  let ?s = "(upd_kp s (\<lambda>p. p\<lparr>kp_width := x, kp_height := y\<rparr>))\<lparr>oe_res := Some (x, y)\<rparr>"
  let ?p = "(ke_params s)\<lparr>kp_width := x, kp_height := y\<rparr>"
  obtain t where t: "keUpdateParams d (ke_part ?s) = Some (t, Returned ())" "ke_encoder t = None"
    "ke_params t = ?p" "ke_currParams t = ?p"
    using assms(2-5) by (simp add: keUpdateParams_def keInit_def keExit_def)
  have set_res: "encoder_setAttr d P pair ''resolution'' (Some v) s = Some (with_ke ?s t, Returned True)"
    using t(1) assms(1) by (simp add: encoder_setAttr_def encoder_member_def)
  have "encoder_setAttr d P pair ''bitrate'' (Some u) (with_ke ?s t) = None"
    using t(2-4) assms(6,7) by (simp add: encoder_setAttr_def encoder_member_def keUpdateParams_def)
  then show ?thesis using set_res t(2) by (auto simp: with_ke_def)
qed

definition example_encoder_object :: "sim_codec PyEncoder" where
  "example_encoder_object =
     \<lparr>ke_options = VideoOptions_default,
      ke_encoder = Some sim_encoder, ke_kernel = e_kernel sim_encoder,
      ke_params = \<lparr>kp_width = 640, kp_height = 480, kp_bitrate = 3000000, kp_mode = ''default''\<rparr>,
      ke_currParams = \<lparr>kp_width = 640, kp_height = 480, kp_bitrate = 3000000, kp_mode = ''default''\<rparr>,
      oe_exists = True, oe_res = None, oe_mode = None\<rparr>"

theorem encoder_refused_resolution_witness:
  "\<exists>s'. encoder_setAttr (sim\<lparr>cd_open := (\<lambda>k. (k, False))\<rparr>) example_py (\<lambda>n. [of_nat n, 240]) ''resolution'' (Some 320) example_encoder_object
       = Some (s', Returned True) \<and> ke_encoder s' = None \<and>
     encoder_setAttr (sim\<lparr>cd_open := (\<lambda>k. (k, False))\<rparr>) example_py (\<lambda>n. [of_nat n, 240]) ''bitrate'' (Some 1000000) s' = None"
proof -
  let ?d = "sim\<lparr>cd_open := (\<lambda>k. (k, False))\<rparr>"
  have "H264Encoder_new ?d opt k = Some (k, Thrown ''failed to open V4L2 H264 encoder'')" for opt k
    by (simp add: H264Encoder_new_def checked_def)
  moreover have "py_uint example_py 1000000 = Some 1000000" by (simp add: example_py_def)
  ultimately show ?thesis
    using encoder_refused_resolution [of "\<lambda>n. [of_nat n, 240]" 320 320 240 example_encoder_object sim_encoder ?d _ _ example_py 1000000 1000000]
    by (simp add: example_encoder_object_def) blast
qed

end
