(* ===== verification/Controls.thy ===== *)
theory Controls
  imports Prelude Bytes "HOL-Library.AList"
begin

text \<open>
  Controls (\<open>include/libcamera/controls.h\<close>, \<open>src/libcamera/controls.cpp\<close>): typed values stored as
  bytes, the information on a control, maps from control identifiers to their information, and
  lists of values.

  A value's storage is the list of its bytes; whether the code keeps them inline or on the heap
  does not show in any result. Fresh storage is uninitialised: its bytes are the parameter
  \<open>junk\<close>. The hash maps are association lists, in the order in which the code iterates over them.
  A \<open>ControlId\<close> is compared by address (\<open>cid_ptr\<close>) where it is a key; a \<open>ControlInfoMap\<close> carries
  its address (\<open>im_ptr\<close>) because the serializer uses it as a key. An assertion that fails
  is \<open>None\<close>.
\<close>

section \<open>Values\<close>

datatype ControlType =
    ControlTypeNone | ControlTypeBool | ControlTypeByte | ControlTypeInteger32
  | ControlTypeInteger64 | ControlTypeFloat | ControlTypeString | ControlTypeRectangle
  | ControlTypeSize

fun ControlValueSize :: "ControlType \<Rightarrow> nat" where
  "ControlValueSize ControlTypeNone = 0"
| "ControlValueSize ControlTypeBool = 1"
| "ControlValueSize ControlTypeByte = 1"
| "ControlValueSize ControlTypeInteger32 = 4"
| "ControlValueSize ControlTypeInteger64 = 8"
| "ControlValueSize ControlTypeFloat = 4"
| "ControlValueSize ControlTypeString = 1"
| "ControlValueSize ControlTypeRectangle = 16"
| "ControlValueSize ControlTypeSize = 8"

record ControlValue =
  cv_type :: ControlType
  cv_isArray :: bool
  cv_numElements :: u32
  cv_data :: "u8 list"

definition ControlValue_empty :: ControlValue where
  "ControlValue_empty =
     \<lparr>cv_type = ControlTypeNone, cv_isArray = False, cv_numElements = 0, cv_data = []\<rparr>"

definition ControlValue_data_size :: "ControlValue \<Rightarrow> nat" where
  "ControlValue_data_size v = unat (cv_numElements v) * ControlValueSize (cv_type v)"

text \<open>
  The number of elements is a 32-bit field, cut from the \<open>size_t\<close> argument. The old bytes stay
  when the sizes agree; otherwise the storage is fresh.
\<close>

definition ControlValue_reserve ::
    "(nat \<Rightarrow> u8) \<Rightarrow> ControlValue \<Rightarrow> ControlType \<Rightarrow> bool \<Rightarrow> nat \<Rightarrow> ControlValue" where
  "ControlValue_reserve junk v type isArray numElements =
     (let numElements = (if \<not> isArray then 1 else numElements);
          oldSize = ControlValue_data_size v;
          newSize = numElements * ControlValueSize type;
          v' = v\<lparr>cv_type := type, cv_isArray := isArray, cv_numElements := of_nat numElements\<rparr>
      in if oldSize = newSize then v'
         else v'\<lparr>cv_data := map junk [0..<ControlValue_data_size v']\<rparr>)"

definition ControlValue_set ::
    "(nat \<Rightarrow> u8) \<Rightarrow> ControlValue \<Rightarrow> ControlType \<Rightarrow> bool \<Rightarrow> u8 list \<Rightarrow> nat \<Rightarrow> nat
       \<Rightarrow> ControlValue option" where
  "ControlValue_set junk v type isArray data numElements elementSize =
     (if elementSize \<noteq> ControlValueSize type then None
      else
        let v' = ControlValue_reserve junk v type isArray numElements
        in Some (v'\<lparr>cv_data := take (ControlValue_data_size v') data\<rparr>))"

definition ControlValue_assign ::
    "(nat \<Rightarrow> u8) \<Rightarrow> ControlValue \<Rightarrow> ControlValue \<Rightarrow> ControlValue option" where
  "ControlValue_assign junk v other =
     ControlValue_set junk v (cv_type other) (cv_isArray other) (cv_data other)
       (unat (cv_numElements other)) (ControlValueSize (cv_type other))"

definition ControlValue_eq :: "ControlValue \<Rightarrow> ControlValue \<Rightarrow> bool" where
  "ControlValue_eq v other =
     (if cv_type v \<noteq> cv_type other then False
      else if cv_numElements v \<noteq> cv_numElements other then False
      else if cv_isArray v \<noteq> cv_isArray other then False
      else cv_data v = cv_data other)"

definition ControlValue_isNone :: "ControlValue \<Rightarrow> bool" where
  "ControlValue_isNone v \<longleftrightarrow> cv_type v = ControlTypeNone"

text \<open>
  The typed constructors, setters and getters: \<open>type\<close> is the \<open>control_type\<close> of the C++ type,
  \<open>enc\<close> and \<open>dec\<close> its representation. A getter on a value of another type, or of the other
  arity, fails an assertion.
\<close>

definition ControlValue_setT ::
    "(nat \<Rightarrow> u8) \<Rightarrow> ControlType \<Rightarrow> ('a \<Rightarrow> u8 list) \<Rightarrow> ControlValue \<Rightarrow> 'a \<Rightarrow> ControlValue option" where
  "ControlValue_setT junk type enc v x =
     ControlValue_set junk v type False (enc x) 1 (length (enc x))"

definition ControlValue_setSpan ::
    "(nat \<Rightarrow> u8) \<Rightarrow> ControlType \<Rightarrow> nat \<Rightarrow> ('a \<Rightarrow> u8 list) \<Rightarrow> ControlValue \<Rightarrow> 'a list
       \<Rightarrow> ControlValue option" where
  "ControlValue_setSpan junk type elementSize enc v xs =
     ControlValue_set junk v type True (concat (map enc xs)) (length xs) elementSize"

definition ControlValue_getT ::
    "ControlType \<Rightarrow> (u8 list \<Rightarrow> 'a) \<Rightarrow> ControlValue \<Rightarrow> 'a option" where
  "ControlValue_getT type dec v =
     (if cv_type v \<noteq> type then None
      else if cv_isArray v then None
      else Some (dec (take (ControlValueSize type) (cv_data v))))"

definition ControlValue_getSpan ::
    "ControlType \<Rightarrow> (u8 list \<Rightarrow> 'a) \<Rightarrow> ControlValue \<Rightarrow> 'a list option" where
  "ControlValue_getSpan type dec v =
     (if cv_type v \<noteq> type then None
      else if \<not> cv_isArray v then None
      else Some (map dec (chunks (unat (cv_numElements v)) (ControlValueSize type) (cv_data v))))"

section \<open>Identifiers, information and maps\<close>

record ControlId =
  cid_ptr :: nat
  cid_id :: u32
  cid_name :: string
  cid_type :: ControlType

record ControlInfo =
  ci_min :: ControlValue
  ci_max :: ControlValue
  ci_def :: ControlValue
  ci_values :: "ControlValue list"

definition ControlInfo_range :: "ControlValue \<Rightarrow> ControlValue \<Rightarrow> ControlValue \<Rightarrow> ControlInfo" where
  "ControlInfo_range mn mx df =
     \<lparr>ci_min = mn, ci_max = mx, ci_def = df, ci_values = []\<rparr>"

text \<open>\<open>front()\<close> and \<open>back()\<close> of an empty span are undefined in the code.\<close>

definition ControlInfo_of_values :: "ControlValue list \<Rightarrow> ControlValue \<Rightarrow> ControlInfo option" where
  "ControlInfo_of_values values df =
     (if values = [] then None
      else Some \<lparr>ci_min = hd values, ci_max = last values,
                 ci_def = (if \<not> ControlValue_isNone df then df else hd values),
                 ci_values = values\<rparr>)"

definition ControlInfo_eq :: "ControlInfo \<Rightarrow> ControlInfo \<Rightarrow> bool" where
  "ControlInfo_eq a b \<longleftrightarrow>
     ControlValue_eq (ci_min a) (ci_min b) \<and> ControlValue_eq (ci_max a) (ci_max b)"

record ControlInfoMap =
  im_ptr :: nat
  im_map :: "(ControlId \<times> ControlInfo) list"
  im_idmap :: "(u32 \<times> ControlId) list"

definition rangeType :: "ControlId \<Rightarrow> ControlType" where
  "rangeType cid =
     (if cid_type cid = ControlTypeString then ControlTypeInteger32 else cid_type cid)"

fun generateIdmap_loop ::
    "(ControlId \<times> ControlInfo) list \<Rightarrow> (u32 \<times> ControlId) list \<Rightarrow> (u32 \<times> ControlId) list option" where
  "generateIdmap_loop [] idmap = Some idmap"
| "generateIdmap_loop ((cid, info) # rest) idmap =
     (if cv_type (ci_min info) \<noteq> rangeType cid then None
      else generateIdmap_loop rest (AList.update (cid_id cid) cid idmap))"

definition ControlInfoMap_generateIdmap :: "ControlInfoMap \<Rightarrow> ControlInfoMap" where
  "ControlInfoMap_generateIdmap m =
     (case generateIdmap_loop (im_map m) [] of
        None \<Rightarrow> m\<lparr>im_map := [], im_idmap := []\<rparr>
      | Some idmap \<Rightarrow> m\<lparr>im_idmap := idmap\<rparr>)"

definition ControlInfoMap_of :: "nat \<Rightarrow> (ControlId \<times> ControlInfo) list \<Rightarrow> ControlInfoMap" where
  "ControlInfoMap_of ptr info =
     ControlInfoMap_generateIdmap \<lparr>im_ptr = ptr, im_map = info, im_idmap = []\<rparr>"

definition ControlInfoMap_count :: "ControlInfoMap \<Rightarrow> u32 \<Rightarrow> nat" where
  "ControlInfoMap_count m cid = (if map_of (im_idmap m) cid = None then 0 else 1)"

definition ControlInfoMap_find :: "ControlInfoMap \<Rightarrow> u32 \<Rightarrow> (ControlId \<times> ControlInfo) option" where
  "ControlInfoMap_find m cid =
     (case map_of (im_idmap m) cid of
        None \<Rightarrow> None
      | Some key \<Rightarrow> find (\<lambda>(k, _). cid_ptr k = cid_ptr key) (im_map m))"

text \<open>\<open>at()\<close> throws where \<open>find\<close> gives \<open>end()\<close>.\<close>

definition ControlInfoMap_at :: "ControlInfoMap \<Rightarrow> u32 \<Rightarrow> ControlInfo option" where
  "ControlInfoMap_at m cid =
     (case map_of (im_idmap m) cid of
        None \<Rightarrow> None
      | Some key \<Rightarrow> map_option snd (find (\<lambda>(k, _). cid_ptr k = cid_ptr key) (im_map m)))"

section \<open>Control lists\<close>

record ControlList =
  cl_validator :: "(u32 \<Rightarrow> bool) option"
  cl_idmap :: "(u32 \<times> ControlId) list option"
  cl_infoMap :: "ControlInfoMap option"
  cl_controls :: "(u32 \<times> ControlValue) list"

definition ControlList_new :: ControlList where
  "ControlList_new =
     \<lparr>cl_validator = None, cl_idmap = None, cl_infoMap = None, cl_controls = []\<rparr>"

definition ControlList_of_idmap ::
    "(u32 \<times> ControlId) list \<Rightarrow> (u32 \<Rightarrow> bool) option \<Rightarrow> ControlList" where
  "ControlList_of_idmap idmap validator =
     \<lparr>cl_validator = validator, cl_idmap = Some idmap, cl_infoMap = None, cl_controls = []\<rparr>"

definition ControlList_of_infoMap ::
    "ControlInfoMap \<Rightarrow> (u32 \<Rightarrow> bool) option \<Rightarrow> ControlList" where
  "ControlList_of_infoMap infoMap validator =
     \<lparr>cl_validator = validator, cl_idmap = Some (im_idmap infoMap), cl_infoMap = Some infoMap,
      cl_controls = []\<rparr>"

definition ControlList_clear :: "ControlList \<Rightarrow> ControlList" where
  "ControlList_clear l = l\<lparr>cl_controls := []\<rparr>"

definition ControlList_contains :: "ControlList \<Rightarrow> u32 \<Rightarrow> bool" where
  "ControlList_contains l cid \<longleftrightarrow> map_of (cl_controls l) cid \<noteq> None"

text \<open>
  The two \<open>find\<close> functions: the constant one looks a value up; the other one asks the validator
  and creates an empty value where there is none (\<open>controls_[id]\<close>).
\<close>

definition ControlList_find :: "ControlList \<Rightarrow> u32 \<Rightarrow> ControlValue option" where
  "ControlList_find l cid = map_of (cl_controls l) cid"

definition ControlList_find_mut ::
    "ControlList \<Rightarrow> u32 \<Rightarrow> (ControlList \<times> ControlValue) option" where
  "ControlList_find_mut l cid =
     (case cl_validator l of
        Some validate \<Rightarrow> if \<not> validate cid then None else
          (case map_of (cl_controls l) cid of
             Some v \<Rightarrow> Some (l, v)
           | None \<Rightarrow> Some (l\<lparr>cl_controls := AList.update cid ControlValue_empty (cl_controls l)\<rparr>,
                           ControlValue_empty))
      | None \<Rightarrow>
          (case map_of (cl_controls l) cid of
             Some v \<Rightarrow> Some (l, v)
           | None \<Rightarrow> Some (l\<lparr>cl_controls := AList.update cid ControlValue_empty (cl_controls l)\<rparr>,
                           ControlValue_empty)))"

definition ControlList_get :: "ControlList \<Rightarrow> u32 \<Rightarrow> ControlValue" where
  "ControlList_get l cid =
     (case ControlList_find l cid of None \<Rightarrow> ControlValue_empty | Some v \<Rightarrow> v)"

text \<open>\<open>*val = value\<close> asserts nothing that can fail, so a failed assignment does not occur.\<close>

definition ControlList_set ::
    "(nat \<Rightarrow> u8) \<Rightarrow> ControlList \<Rightarrow> u32 \<Rightarrow> ControlValue \<Rightarrow> ControlList option" where
  "ControlList_set junk l cid value =
     (case ControlList_find_mut l cid of
        None \<Rightarrow> Some l
      | Some (l', val) \<Rightarrow>
          (case ControlValue_assign junk val value of
             None \<Rightarrow> None
           | Some val' \<Rightarrow> Some (l'\<lparr>cl_controls := AList.update cid val' (cl_controls l')\<rparr>)))"

section \<open>Well-formed values\<close>

text \<open>
  A value is well formed when its bytes are exactly the elements its header announces; a value
  that is set holds one element unless it is an array. The default-constructed value has none.
\<close>

definition ControlValue_wf :: "ControlValue \<Rightarrow> bool" where
  "ControlValue_wf v \<longleftrightarrow> length (cv_data v) = ControlValue_data_size v"

definition ControlValue_is_set :: "ControlValue \<Rightarrow> bool" where
  "ControlValue_is_set v \<longleftrightarrow> ControlValue_wf v \<and> (\<not> cv_isArray v \<longrightarrow> cv_numElements v = 1)"

lemma ControlValue_reserve_fields [simp]:
  "cv_type (ControlValue_reserve junk v type isArray n) = type"
  "cv_isArray (ControlValue_reserve junk v type isArray n) = isArray"
  "cv_numElements (ControlValue_reserve junk v type isArray n) = of_nat (if isArray then n else 1)"
  by (simp_all add: ControlValue_reserve_def Let_def)

lemma ControlValue_reserve_size:
  "ControlValue_data_size (ControlValue_reserve junk v type isArray n)
     = unat (of_nat (if isArray then n else 1) :: u32) * ControlValueSize type"
  by (simp add: ControlValue_data_size_def)

lemma ControlValue_reserve_wf:
  assumes "ControlValue_wf v" "n < 2 ^ 32"
  shows "ControlValue_wf (ControlValue_reserve junk v type isArray n)"
  using assms
  by (auto simp: ControlValue_wf_def ControlValue_reserve_def ControlValue_data_size_def Let_def
      unat_of_nat_u32)

lemma ControlValue_set_eq:
  assumes "n < 2 ^ 32" "\<not> isArray \<Longrightarrow> n = 1" "length data = n * ControlValueSize type"
  shows "ControlValue_set junk v type isArray data n (ControlValueSize type)
      = Some (v\<lparr>cv_type := type, cv_isArray := isArray, cv_numElements := of_nat n,
               cv_data := data\<rparr>)"
  using assms
  by (cases isArray) (auto simp: ControlValue_set_def ControlValue_reserve_def Let_def
      ControlValue_data_size_def unat_of_nat_u32)

lemma ControlValue_set_wf:
  assumes "ControlValue_set junk v type isArray data n sz = Some v'"
    and "length data = n * ControlValueSize type" "n < 2 ^ 32" "isArray \<or> n = 1"
  shows "ControlValue_is_set v'"
proof -
  have "sz = ControlValueSize type" using assms(1) by (auto simp: ControlValue_set_def split: if_splits)
  with assms show ?thesis
    using ControlValue_set_eq [of n isArray data type junk v]
    by (auto simp: ControlValue_is_set_def ControlValue_wf_def ControlValue_data_size_def
        unat_of_nat_u32)
qed

lemma ControlValue_assign_set:
  assumes "ControlValue_is_set other"
  shows "ControlValue_assign junk v other = Some (v\<lparr>cv_type := cv_type other,
      cv_isArray := cv_isArray other, cv_numElements := cv_numElements other,
      cv_data := cv_data other\<rparr>)"
  using assms unat_u32_bound [of "cv_numElements other"] unfolding ControlValue_assign_def
  by (subst ControlValue_set_eq)
    (auto simp: ControlValue_is_set_def ControlValue_wf_def ControlValue_data_size_def)

lemma ControlValue_assign_copy:
  "ControlValue_is_set (other :: ControlValue) \<Longrightarrow> ControlValue_assign junk v other = Some other"
  by (simp add: ControlValue_assign_set)

lemma ControlValue_assign_total: "ControlValue_assign junk v other \<noteq> None"
  by (simp add: ControlValue_assign_def ControlValue_set_def Let_def)

lemma ControlValue_eq_iff: "ControlValue_eq v w \<longleftrightarrow> (v :: ControlValue) = w"
  by (auto simp: ControlValue_eq_def)

section \<open>Typed access\<close>

text \<open>The C++ types a control can hold: a representation and the control type it maps to.\<close>

locale control_type = pod size enc dec
  for size :: nat and enc :: "'a \<Rightarrow> u8 list" and dec :: "u8 list \<Rightarrow> 'a" +
  fixes type :: ControlType
  assumes size_type: "ControlValueSize type = size"
begin

lemma setT_getT:
  "\<exists>v'. ControlValue_setT junk type enc v x = Some v' \<and> ControlValue_is_set v' \<and>
     ControlValue_getT type dec v' = Some x"
  using ControlValue_set_eq [of 1 False "enc x" type junk v]
  by (simp add: ControlValue_setT_def ControlValue_getT_def size_type ControlValue_is_set_def
      ControlValue_wf_def ControlValue_data_size_def)

lemma setSpan_getSpan:
  assumes "length xs < 2 ^ 32"
  shows "\<exists>v'. ControlValue_setSpan junk type size enc v xs = Some v' \<and> ControlValue_is_set v' \<and>
     ControlValue_getSpan type dec v' = Some xs"
proof -
  have "chunks (length xs) size (concat (map enc xs)) = map enc xs"
    using chunks_concat_enc [of xs "[]"] by simp
  with assms show ?thesis
    using ControlValue_set_eq [of "length xs" True "concat (map enc xs)" type junk v]
    by (simp add: ControlValue_setSpan_def ControlValue_getSpan_def size_type length_concat_enc
        ControlValue_is_set_def ControlValue_wf_def ControlValue_data_size_def
        unat_of_nat_u32 o_def)
qed

end

interpretation ctrl_bool: control_type 1 bytes_bool bool_bytes ControlTypeBool
  by unfold_locales simp

interpretation ctrl_byte: control_type 1 bytes_u8 u8_bytes ControlTypeByte
  by unfold_locales simp

interpretation ctrl_int32: control_type 4 bytes_u32 u32_bytes ControlTypeInteger32
  by unfold_locales simp

interpretation ctrl_int64: control_type 8 bytes_u64 u64_bytes ControlTypeInteger64
  by unfold_locales simp

interpretation ctrl_string: control_type 1 bytes_u8 u8_bytes ControlTypeString
  by unfold_locales simp

interpretation ctrl_Rectangle: control_type 16 bytes_Rectangle Rectangle_bytes ControlTypeRectangle
  by unfold_locales simp

interpretation ctrl_Size: control_type 8 bytes_Size Size_bytes ControlTypeSize
  by unfold_locales simp

section \<open>Identifier maps\<close>

lemma generateIdmap_loop_None_iff:
  "generateIdmap_loop m idmap = None \<longleftrightarrow>
     (\<exists>(cid, info) \<in> set m. cv_type (ci_min info) \<noteq> rangeType cid)"
  by (induction m idmap rule: generateIdmap_loop.induct) auto

lemma generateIdmap_loop_map_of:
  "generateIdmap_loop m idmap = Some r \<Longrightarrow>
     map_of r = map_of idmap ++ map_of (rev (map (\<lambda>(cid, info). (cid_id cid, cid)) m))"
proof (induction m idmap rule: generateIdmap_loop.induct)
  case (1 idmap)
  then show ?case by simp
next
  case (2 cid info rest idmap)
  then have "map_of r = map_of (AList.update (cid_id cid) cid idmap)
      ++ map_of (rev (map (\<lambda>(cid, info). (cid_id cid, cid)) rest))"
    by (simp split: if_splits)
  then show ?case by (simp add: update_conv' map_add_upd_left fun_eq_iff map_add_def split: option.splits)
qed

lemma ControlInfoMap_of_kept:
  assumes "distinct (map (cid_id \<circ> fst) info)" "distinct (map (cid_ptr \<circ> fst) info)"
    and "\<forall>(cid, i) \<in> set info. cv_type (ci_min i) = rangeType cid"
  shows "im_ptr (ControlInfoMap_of ptr info) = ptr" "im_map (ControlInfoMap_of ptr info) = info"
    "(cid, i) \<in> set info \<Longrightarrow> ControlInfoMap_find (ControlInfoMap_of ptr info) (cid_id cid) = Some (cid, i)"
    "(cid, i) \<in> set info \<Longrightarrow> ControlInfoMap_at (ControlInfoMap_of ptr info) (cid_id cid) = Some i"
    "\<forall>(cid, i) \<in> set info. cid_id cid \<noteq> n \<Longrightarrow> ControlInfoMap_find (ControlInfoMap_of ptr info) n = None"
proof -
  obtain r where Some: "generateIdmap_loop info [] = Some r"
    using assms(3) generateIdmap_loop_None_iff [of info "[]"] by (cases "generateIdmap_loop info []") auto
  have of: "ControlInfoMap_of ptr info = \<lparr>im_ptr = ptr, im_map = info, im_idmap = r\<rparr>"
    using Some by (simp add: ControlInfoMap_of_def ControlInfoMap_generateIdmap_def)
  then show "im_ptr (ControlInfoMap_of ptr info) = ptr" "im_map (ControlInfoMap_of ptr info) = info" by simp_all
  let ?ids = "map (\<lambda>(cid, i). (cid_id cid, cid)) info"
  have "map fst ?ids = map (cid_id \<circ> fst) info" by (simp add: o_def case_prod_unfold)
  then have dist: "distinct (map fst ?ids)" using assms(1) by (simp only:)
  have "map_of r = map_of (rev ?ids)" using generateIdmap_loop_map_of [OF Some] by simp
  also have "\<dots> = map_of ?ids"
    using dist by (subst map_of_inject_set) (simp_all only: rev_map [symmetric] distinct_rev set_rev)
  finally have r: "map_of r = map_of ?ids" .
  have "find (\<lambda>(k, _). cid_ptr k = cid_ptr cid) info = Some (cid, i)" if "(cid, i) \<in> set info" for cid i
    using that assms(2) by (induction info) (auto simp: rev_image_eqI)
  moreover have "map_of r (cid_id cid) = Some cid" if "(cid, i) \<in> set info" for cid i
    unfolding r using that by (intro map_of_is_SomeI [OF dist]) force
  ultimately show "ControlInfoMap_find (ControlInfoMap_of ptr info) (cid_id cid) = Some (cid, i)"
    "ControlInfoMap_at (ControlInfoMap_of ptr info) (cid_id cid) = Some i" if "(cid, i) \<in> set info"
    using that by (simp_all add: ControlInfoMap_find_def ControlInfoMap_at_def of)
  assume "\<forall>(cid, i) \<in> set info. cid_id cid \<noteq> n"
  then have "map_of r n = None" unfolding r map_of_eq_None_iff by force
  then show "ControlInfoMap_find (ControlInfoMap_of ptr info) n = None"
    by (simp add: ControlInfoMap_find_def of)
qed

section \<open>Properties\<close>

text \<open>
  Writing a typed value and reading it back with the same type returns it, for a scalar and
  for an array, whatever the value held before and whatever uninitialised storage contains; the
  type may be any one whose byte representation is an inverse pair of the control type's size.
\<close>

theorem ControlValue_typed_roundtrip:
  assumes "pod (ControlValueSize type) enc dec" and "length xs < 2 ^ 32"
  shows "(\<exists>v'. ControlValue_setT junk type enc v x = Some v' \<and>
            ControlValue_getT type dec v' = Some x) \<and>
         (\<exists>v'. ControlValue_setSpan junk type (ControlValueSize type) enc v xs = Some v' \<and>
            ControlValue_getSpan type dec v' = Some xs)"
proof -
  have loc: "control_type (ControlValueSize type) enc dec type"
    using assms(1) by (simp add: control_type_def control_type_axioms_def)
  show ?thesis
    using control_type.setT_getT [OF loc, of junk v x]
      control_type.setSpan_getSpan [OF loc assms(2), of junk v] by blast
qed

theorem ControlValue_typed_roundtrip_witness:
  "\<exists>v'. ControlValue_setSpan (\<lambda>_. 7) ControlTypeRectangle 16 bytes_Rectangle ControlValue_empty
          [mk_Rectangle (-1) 2 3 4] = Some v' \<and>
        ControlValue_getSpan ControlTypeRectangle Rectangle_bytes v' = Some [mk_Rectangle (-1) 2 3 4]"
  using ControlValue_typed_roundtrip [of ControlTypeRectangle bytes_Rectangle Rectangle_bytes
      "[mk_Rectangle (-1) 2 3 4]" "\<lambda>_. 7" ControlValue_empty undefined]
    pod_Rectangle.pod_axioms by simp

text \<open>
  Copying a value that has been set gives the same value. Copying the default-constructed one
  does not: the copy claims one element, so the code's own comparison tells it from the original.
\<close>

theorem ControlValue_copy:
  "(ControlValue_is_set other \<longrightarrow>
      ControlValue_assign junk (v :: ControlValue) (other :: ControlValue) = Some other) \<and>
   (\<exists>c. ControlValue_assign junk ControlValue_empty ControlValue_empty = Some c \<and>
      \<not> ControlValue_eq c ControlValue_empty)"
  by (auto simp: ControlValue_assign_copy)
    (simp add: ControlValue_assign_def ControlValue_set_def ControlValue_reserve_def
      ControlValue_data_size_def ControlValue_empty_def ControlValue_eq_def)

theorem ControlValue_copy_witness:
  "ControlValue_assign (\<lambda>_. 0) ControlValue_empty
      \<lparr>cv_type = ControlTypeByte, cv_isArray = True, cv_numElements = 2, cv_data = [1, 2]\<rparr>
     = Some \<lparr>cv_type = ControlTypeByte, cv_isArray = True, cv_numElements = 2, cv_data = [1, 2]\<rparr>"
  using ControlValue_copy [of "\<lparr>cv_type = ControlTypeByte, cv_isArray = True, cv_numElements = 2,
      cv_data = [1, 2]\<rparr>" "\<lambda>_. 0" ControlValue_empty]
  by (simp add: ControlValue_is_set_def ControlValue_wf_def ControlValue_data_size_def)

text \<open>
  Building a control information map is all or nothing: if the minimum of every entry has the
  type its identifier asks for, every entry is kept and can be found by its number, otherwise the
  map ends up empty.
\<close>

theorem ControlInfoMap_all_or_nothing:
  assumes "distinct (map (cid_id \<circ> fst) info)" and "distinct (map (cid_ptr \<circ> fst) info)"
  shows "(\<forall>(cid, i) \<in> set info. cv_type (ci_min i) = rangeType cid) \<and>
           im_map (ControlInfoMap_of ptr info) = info \<and>
           (\<forall>(cid, i) \<in> set info. ControlInfoMap_at (ControlInfoMap_of ptr info) (cid_id cid) = Some i) \<or>
         (\<exists>(cid, i) \<in> set info. cv_type (ci_min i) \<noteq> rangeType cid) \<and>
           ControlInfoMap_of ptr info = \<lparr>im_ptr = ptr, im_map = [], im_idmap = []\<rparr>"
proof (cases "\<forall>(cid, i) \<in> set info. cv_type (ci_min i) = rangeType cid")
  case True
  note kept = ControlInfoMap_of_kept [OF assms this, where ptr = ptr]
  have "\<forall>(cid, i) \<in> set info. ControlInfoMap_at (ControlInfoMap_of ptr info) (cid_id cid) = Some i"
    using kept(4) by blast
  with True kept(2) show ?thesis by blast
next
  case False
  then have "generateIdmap_loop info [] = None"
    using generateIdmap_loop_None_iff [of info "[]"] by auto
  with False show ?thesis
    by (auto simp: ControlInfoMap_of_def ControlInfoMap_generateIdmap_def)
qed

theorem ControlInfoMap_all_or_nothing_witness:
  "ControlInfoMap_at (ControlInfoMap_of 5
      [(\<lparr>cid_ptr = 1, cid_id = 9, cid_name = ''Location'', cid_type = ControlTypeString\<rparr>,
        ControlInfo_range \<lparr>cv_type = ControlTypeInteger32, cv_isArray = False, cv_numElements = 1,
          cv_data = [0, 0, 0, 0]\<rparr> ControlValue_empty ControlValue_empty)]) 9 \<noteq> None"
  using ControlInfoMap_all_or_nothing [of
      "[(\<lparr>cid_ptr = 1, cid_id = 9, cid_name = ''Location'', cid_type = ControlTypeString\<rparr>,
        ControlInfo_range \<lparr>cv_type = ControlTypeInteger32, cv_isArray = False, cv_numElements = 1,
          cv_data = [0, 0, 0, 0]\<rparr> ControlValue_empty ControlValue_empty)]" 5]
  by (simp add: ControlInfo_range_def rangeType_def)

end
