(* ===== verification/ByteStream.thy ===== *)
theory ByteStream
  imports Prelude Bytes
begin

text \<open>
  \<open>ByteStreamBuffer\<close> (\<open>src/libcamera/byte_stream_buffer.cpp\<close>): a cursor over a memory area, for
  reading or for writing, from which sub-areas can be carved out. Pointers are 64-bit addresses,
  0 is the null pointer, and the bounds checks compare addresses after an addition that wraps, as
  the machine code does. The memory is one map from addresses to bytes, which the carved-out
  buffers share. Buffers are objects in a store because an overflow of a carved-out buffer is
  recorded in the buffers it was carved from: \<open>bs_parents\<close> lists the chain of \<open>parent_\<close>
  pointers, nearest first.
\<close>

section \<open>Memory\<close>

type_synonym memory = "u64 \<Rightarrow> u8"

definition mem_read :: "memory \<Rightarrow> u64 \<Rightarrow> nat \<Rightarrow> u8 list" where
  "mem_read m a n = map (\<lambda>i. m (a + of_nat i)) [0..<n]"

definition mem_write :: "memory \<Rightarrow> u64 \<Rightarrow> u8 list \<Rightarrow> memory" where
  "mem_write m a bs = (\<lambda>x. let i = unat (x - a) in if i < length bs then bs ! i else m x)"

section \<open>Buffers\<close>

record ByteStreamBuffer =
  bs_parents :: "nat list"
  bs_base :: u64
  bs_size :: u64
  bs_overflow :: bool
  bs_read :: u64
  bs_write :: u64

record store =
  st_mem :: memory
  st_bufs :: "nat \<Rightarrow> ByteStreamBuffer"
  st_next :: nat

definition ByteStreamBuffer_reader :: "u64 \<Rightarrow> u64 \<Rightarrow> ByteStreamBuffer" where
  "ByteStreamBuffer_reader base sz =
     \<lparr>bs_parents = [], bs_base = base, bs_size = sz, bs_overflow = False,
      bs_read = base, bs_write = 0\<rparr>"

definition ByteStreamBuffer_writer :: "u64 \<Rightarrow> u64 \<Rightarrow> ByteStreamBuffer" where
  "ByteStreamBuffer_writer base sz =
     \<lparr>bs_parents = [], bs_base = base, bs_size = sz, bs_overflow = False,
      bs_read = 0, bs_write = base\<rparr>"

definition buf :: "store \<Rightarrow> nat \<Rightarrow> ByteStreamBuffer" where
  "buf st i = st_bufs st i"

definition set_buf :: "store \<Rightarrow> nat \<Rightarrow> ByteStreamBuffer \<Rightarrow> store" where
  "set_buf st i b = st\<lparr>st_bufs := (st_bufs st)(i := b)\<rparr>"

definition new_buf :: "store \<Rightarrow> ByteStreamBuffer \<Rightarrow> store \<times> nat" where
  "new_buf st b = (st\<lparr>st_bufs := (st_bufs st)(st_next st := b), st_next := Suc (st_next st)\<rparr>,
                   st_next st)"

definition mark_overflow :: "nat \<Rightarrow> store \<Rightarrow> store" where
  "mark_overflow i st = set_buf st i ((buf st i)\<lparr>bs_overflow := True\<rparr>)"

text \<open>The parent is told first, then the flag of the buffer itself is set.\<close>

fun set_overflow_chain :: "nat list \<Rightarrow> store \<Rightarrow> store" where
  "set_overflow_chain [] st = st"
| "set_overflow_chain (p # ps) st = mark_overflow p (set_overflow_chain ps st)"

definition setOverflow :: "store \<Rightarrow> nat \<Rightarrow> store" where
  "setOverflow st i = set_overflow_chain (i # bs_parents (buf st i)) st"

definition offset :: "ByteStreamBuffer \<Rightarrow> u32" where
  "offset b = ucast ((if bs_write b \<noteq> 0 then bs_write b else bs_read b) - bs_base b)"

definition cursor :: "ByteStreamBuffer \<Rightarrow> u64" where
  "cursor b = (if bs_read b \<noteq> 0 then bs_read b else bs_write b)"

definition carveOut :: "store \<Rightarrow> nat \<Rightarrow> u64 \<Rightarrow> store \<times> nat" where
  "carveOut st i sz =
     (let b = buf st i in
      if bs_size b = 0 \<or> bs_overflow b then new_buf st (ByteStreamBuffer_reader 0 0)
      else if cursor b + sz > bs_base b + bs_size b
      then new_buf (setOverflow st i) (ByteStreamBuffer_reader 0 0)
      else if bs_read b \<noteq> 0
      then new_buf (set_buf st i (b\<lparr>bs_read := bs_read b + sz\<rparr>))
             ((ByteStreamBuffer_reader (bs_read b) sz)\<lparr>bs_parents := i # bs_parents b\<rparr>)
      else new_buf (set_buf st i (b\<lparr>bs_write := bs_write b + sz\<rparr>))
             ((ByteStreamBuffer_writer (bs_write b) sz)\<lparr>bs_parents := i # bs_parents b\<rparr>))"

definition skip :: "store \<Rightarrow> nat \<Rightarrow> u64 \<Rightarrow> store \<times> errno option" where
  "skip st i sz =
     (let b = buf st i in
      if bs_overflow b then (st, Some ENOSPC)
      else if cursor b + sz > bs_base b + bs_size b then (setOverflow st i, Some ENOSPC)
      else if bs_read b \<noteq> 0
      then (set_buf st i (b\<lparr>bs_read := bs_read b + sz\<rparr>), None)
      else (set_buf (st\<lparr>st_mem := mem_write (st_mem st) (bs_write b) (replicate (unat sz) 0)\<rparr>) i
              (b\<lparr>bs_write := bs_write b + sz\<rparr>), None))"

text \<open>
  \<open>read\<close> in its two forms: a pointer into the memory for \<open>count\<close> objects of \<open>size\<close> bytes (the
  product is checked), and a copy of \<open>size\<close> bytes.
\<close>

definition read_ptr :: "store \<Rightarrow> nat \<Rightarrow> u64 \<Rightarrow> u64 \<Rightarrow> store \<times> u64 option" where
  "read_ptr st i sz count =
     (let b = buf st i in
      if bs_read b = 0 then (st, None)
      else if bs_overflow b then (st, None)
      else if unat sz * unat count \<ge> 2 ^ 64 then (setOverflow st i, None)
      else
        let bytes = sz * count in
        if bs_read b + bytes > bs_base b + bs_size b then (setOverflow st i, None)
        else (set_buf st i (b\<lparr>bs_read := bs_read b + bytes\<rparr>), Some (bs_read b)))"

definition read_data :: "store \<Rightarrow> nat \<Rightarrow> u64 \<Rightarrow> store \<times> u8 list result" where
  "read_data st i sz =
     (let b = buf st i in
      if bs_read b = 0 then (st, Err EACCES)
      else if bs_overflow b then (st, Err ENOSPC)
      else if bs_read b + sz > bs_base b + bs_size b then (setOverflow st i, Err ENOSPC)
      else (set_buf st i (b\<lparr>bs_read := bs_read b + sz\<rparr>),
            Ok (mem_read (st_mem st) (bs_read b) (unat sz))))"

definition write_data :: "store \<Rightarrow> nat \<Rightarrow> u8 list \<Rightarrow> store \<times> errno option" where
  "write_data st i data =
     (let b = buf st i; sz = of_nat (length data) in
      if bs_write b = 0 then (st, Some EACCES)
      else if bs_overflow b then (st, Some ENOSPC)
      else if bs_write b + sz > bs_base b + bs_size b then (setOverflow st i, Some ENOSPC)
      else (set_buf (st\<lparr>st_mem := mem_write (st_mem st) (bs_write b) data\<rparr>) i
              (b\<lparr>bs_write := bs_write b + sz\<rparr>), None))"

section \<open>The memory laws\<close>

lemma unat_of_nat_u64: "n < 2 ^ 64 \<Longrightarrow> unat (of_nat n :: u64) = n"
  by (simp add: unat_of_nat take_bit_nat_eq_self)

lemma unat_minus_of_nat:
  assumes "k < 2 ^ 64"
  shows "unat ((w :: u64) - of_nat k) = (if k \<le> unat w then unat w - k else 2 ^ 64 + unat w - k)"
proof (cases "k \<le> unat w")
  case True
  then have "of_nat k \<le> w" using assms by (simp add: word_le_nat_alt unat_of_nat_u64)
  then show ?thesis using True assms by (simp add: unat_sub unat_of_nat_u64)
next
  case False
  have "w - of_nat k = of_nat (2 ^ 64 + unat w - k)"
    using False assms by (simp add: of_nat_diff)
  also have "unat (of_nat (2 ^ 64 + unat w - k) :: u64) = 2 ^ 64 + unat w - k"
    using False assms by (intro unat_of_nat_u64) simp
  finally show ?thesis using False by simp
qed

lemma unat_u64_bound: "unat (w :: u64) < 2 ^ 64"
  using unsigned_less [of w] by simp

lemma mem_write_nil [simp]: "mem_write m a [] = m"
  by (simp add: mem_write_def)

lemma mem_write_append:
  assumes "length xs + length ys < 2 ^ 64"
  shows "mem_write (mem_write m a xs) (a + of_nat (length xs)) ys = mem_write m a (xs @ ys)"
proof
  fix x
  have "unat (x - (a + of_nat (length xs)))
      = (if length xs \<le> unat (x - a) then unat (x - a) - length xs
         else 2 ^ 64 + unat (x - a) - length xs)"
    using unat_minus_of_nat [of "length xs" "x - a"] assms by (simp add: diff_diff_eq)
  then show "mem_write (mem_write m a xs) (a + of_nat (length xs)) ys x = mem_write m a (xs @ ys) x"
    using assms by (auto simp: mem_write_def Let_def nth_append)
qed

text \<open>Two ranges of an area are apart when one ends before the other begins.\<close>

lemma mem_write_commute:
  assumes "oa + length xs \<le> ob" "ob + length ys < 2 ^ 64"
  shows "mem_write (mem_write m (a + of_nat oa) xs) (a + of_nat ob) ys
       = mem_write (mem_write m (a + of_nat ob) ys) (a + of_nat oa) xs"
proof
  fix x
  have "unat (x - (a + of_nat oa)) = (if oa \<le> unat (x - a) then unat (x - a) - oa
         else 2 ^ 64 + unat (x - a) - oa)"
    "unat (x - (a + of_nat ob)) = (if ob \<le> unat (x - a) then unat (x - a) - ob
         else 2 ^ 64 + unat (x - a) - ob)"
    using unat_minus_of_nat [of oa "x - a"] unat_minus_of_nat [of ob "x - a"] assms
    by (simp_all add: diff_diff_eq)
  then show "mem_write (mem_write m (a + of_nat oa) xs) (a + of_nat ob) ys x
       = mem_write (mem_write m (a + of_nat ob) ys) (a + of_nat oa) xs x"
    using assms by (auto simp: mem_write_def Let_def)
qed

lemma length_mem_read [simp]: "length (mem_read m a n) = n"
  by (simp add: mem_read_def)

lemma mem_read_write:
  assumes "k + n \<le> length bs" "length bs < 2 ^ 64"
  shows "mem_read (mem_write m a bs) (a + of_nat k) n = take n (drop k bs)"
proof (rule nth_equalityI)
  show "length (mem_read (mem_write m a bs) (a + of_nat k) n) = length (take n (drop k bs))"
    using assms by simp
  fix i assume "i < length (mem_read (mem_write m a bs) (a + of_nat k) n)"
  then have i: "i < n" by simp
  have "unat (of_nat (k + i) :: u64) = k + i"
    using i assms by (intro unat_of_nat_u64) simp
  then have "unat (of_nat k + of_nat i :: u64) = k + i" by simp
  then show "mem_read (mem_write m a bs) (a + of_nat k) n ! i = take n (drop k bs) ! i"
    using i assms by (simp add: mem_read_def mem_write_def Let_def)
qed

section \<open>Writers and readers\<close>

text \<open>
  \<open>writer st i a n k\<close>: buffer \<open>i\<close> writes to the area of \<open>n\<close> bytes at \<open>a\<close>, has written \<open>k\<close> of
  them and has not overflowed. \<open>reader\<close> is its counterpart. The area does not reach the end of
  the address space, as no object does.
\<close>

definition area_ok :: "u64 \<Rightarrow> nat \<Rightarrow> bool" where
  "area_ok a n \<longleftrightarrow> a \<noteq> 0 \<and> unat a + n < 2 ^ 64"

definition writer :: "store \<Rightarrow> nat \<Rightarrow> u64 \<Rightarrow> nat \<Rightarrow> nat \<Rightarrow> bool" where
  "writer st i a n k \<longleftrightarrow> area_ok a n \<and> k \<le> n \<and>
     (\<exists>ps. buf st i = \<lparr>bs_parents = ps, bs_base = a, bs_size = of_nat n, bs_overflow = False,
        bs_read = 0, bs_write = a + of_nat k\<rparr>)"

definition reader :: "store \<Rightarrow> nat \<Rightarrow> u64 \<Rightarrow> nat \<Rightarrow> nat \<Rightarrow> bool" where
  "reader st i a n k \<longleftrightarrow> area_ok a n \<and> k \<le> n \<and>
     (\<exists>ps. buf st i = \<lparr>bs_parents = ps, bs_base = a, bs_size = of_nat n, bs_overflow = False,
        bs_read = a + of_nat k, bs_write = 0\<rparr>)"

lemma unat_area_add:
  assumes "area_ok a n" "k \<le> n"
  shows "unat (a + of_nat k) = unat a + k" and "a + of_nat k \<noteq> 0"
proof -
  have "unat (of_nat k :: u64) = k" using assms by (intro unat_of_nat_u64) (simp add: area_ok_def)
  then show *: "unat (a + of_nat k) = unat a + k"
    using assms by (subst unat_add_lem [THEN iffD1]) (simp_all add: area_ok_def)
  have "0 < unat a" using assms by (simp add: area_ok_def unat_gt_0)
  with * show "a + of_nat k \<noteq> 0" by (metis add_is_0 gr_implies_not0 unat_0)
qed

lemma area_ok_sub: "area_ok a n \<Longrightarrow> k + j \<le> n \<Longrightarrow> area_ok (a + of_nat k) j"
  using unat_area_add [of a n k] by (simp add: area_ok_def)

lemma area_end_le:
  assumes "area_ok a n" "k + j \<le> n"
  shows "\<not> a + of_nat n < a + of_nat k + of_nat j"
  using unat_area_add [OF assms(1), of "k + j"] unat_area_add [OF assms(1), of n] assms(2)
  by (simp add: word_less_nat_alt add.assoc)

lemma buf_set_buf [simp]:
  "buf (set_buf st i b) j = (if j = i then b else buf st j)"
  "buf (st\<lparr>st_mem := m\<rparr>) j = buf st j"
  by (simp_all add: buf_def set_buf_def)

lemma set_buf_frame [simp]:
  "st_mem (set_buf st i b) = st_mem st" "st_next (set_buf st i b) = st_next st"
  by (simp_all add: set_buf_def)

lemma new_buf_simps [simp]:
  "st_mem (fst (new_buf st b)) = st_mem st" "st_next (fst (new_buf st b)) = Suc (st_next st)"
  "snd (new_buf st b) = st_next st"
  "buf (fst (new_buf st b)) j = (if j = st_next st then b else buf st j)"
  by (simp_all add: new_buf_def buf_def)

text \<open>The operations that succeed, as steps of writers and readers.\<close>

lemma write_data_writer:
  assumes "writer st i a n k" "k + length d \<le> n"
  shows "\<exists>st'. write_data st i d = (st', None) \<and> writer st' i a n (k + length d) \<and>
     st_mem st' = mem_write (st_mem st) (a + of_nat k) d \<and> st_next st' = st_next st \<and>
     (\<forall>j. j \<noteq> i \<longrightarrow> buf st' j = buf st j)"
  using assms area_end_le [of a n k "length d"] unat_area_add [of a n k]
  by (auto simp: writer_def write_data_def Let_def add.assoc)

lemma carveOut_writer:
  assumes "writer st i a n k" "k + j \<le> n" "0 < n" "i \<noteq> st_next st"
  shows "\<exists>st'. carveOut st i (of_nat j) = (st', st_next st) \<and> writer st' i a n (k + j) \<and>
     writer st' (st_next st) (a + of_nat k) j 0 \<and>
     st_mem st' = st_mem st \<and> st_next st' = Suc (st_next st) \<and>
     (\<forall>h. h \<noteq> i \<longrightarrow> h \<noteq> st_next st \<longrightarrow> buf st' h = buf st h)"
proof -
  have size: "(of_nat n :: u64) \<noteq> 0"
    using assms(1,3) unat_of_nat_u64 [of n] by (auto simp: writer_def area_ok_def)
  show ?thesis
    using assms size area_end_le [of a n k j] unat_area_add [of a n k]
    by (auto simp: writer_def carveOut_def cursor_def Let_def new_buf_def buf_def set_buf_def
        ByteStreamBuffer_writer_def add.assoc area_ok_sub)
qed

lemma read_ptr_reader:
  assumes "reader st i a n k" "k + j \<le> n"
  shows "\<exists>st'. read_ptr st i (of_nat j) 1 = (st', Some (a + of_nat k)) \<and> reader st' i a n (k + j) \<and>
     st_mem st' = st_mem st \<and> st_next st' = st_next st \<and> (\<forall>h. h \<noteq> i \<longrightarrow> buf st' h = buf st h)"
proof -
  have "unat (of_nat j :: u64) < 2 ^ 64" using unat_u64_bound .
  then show ?thesis
    using assms area_end_le [of a n k j] unat_area_add [of a n k]
    by (auto simp: reader_def read_ptr_def Let_def add.assoc)
qed

lemma read_data_reader:
  assumes "reader st i a n k" "k + j \<le> n"
  shows "\<exists>st'. read_data st i (of_nat j) = (st', Ok (mem_read (st_mem st) (a + of_nat k) j)) \<and>
     reader st' i a n (k + j) \<and>
     st_mem st' = st_mem st \<and> st_next st' = st_next st \<and> (\<forall>h. h \<noteq> i \<longrightarrow> buf st' h = buf st h)"
proof -
  have "unat (of_nat j :: u64) = j"
    using assms by (intro unat_of_nat_u64) (simp add: reader_def area_ok_def)
  then show ?thesis
    using assms area_end_le [of a n k j] unat_area_add [of a n k]
    by (auto simp: reader_def read_data_def Let_def add.assoc)
qed

lemma carveOut_reader:
  assumes "reader st i a n k" "k + j \<le> n" "0 < n" "i \<noteq> st_next st"
  shows "\<exists>st'. carveOut st i (of_nat j) = (st', st_next st) \<and> reader st' i a n (k + j) \<and>
     reader st' (st_next st) (a + of_nat k) j 0 \<and>
     st_mem st' = st_mem st \<and> st_next st' = Suc (st_next st) \<and>
     (\<forall>h. h \<noteq> i \<longrightarrow> h \<noteq> st_next st \<longrightarrow> buf st' h = buf st h)"
proof -
  have size: "(of_nat n :: u64) \<noteq> 0"
    using assms(1,3) unat_of_nat_u64 [of n] by (auto simp: reader_def area_ok_def)
  show ?thesis
    using assms size area_end_le [of a n k j] unat_area_add [of a n k]
    by (auto simp: reader_def carveOut_def cursor_def Let_def new_buf_def buf_def set_buf_def
        ByteStreamBuffer_reader_def add.assoc area_ok_sub)
qed

section \<open>Overflow\<close>

lemma set_overflow_chain_simps [simp]:
  "st_mem (set_overflow_chain ps st) = st_mem st"
  "st_next (set_overflow_chain ps st) = st_next st"
  by (induction ps) (simp_all add: mark_overflow_def)

lemma buf_set_overflow_chain:
  "buf (set_overflow_chain ps st) j =
     (if j \<in> set ps then (buf st j)\<lparr>bs_overflow := True\<rparr> else buf st j)"
  by (induction ps) (auto simp: mark_overflow_def)

lemma setOverflow_simps [simp]:
  "st_mem (setOverflow st i) = st_mem st"
  "buf (setOverflow st i) j =
     (if j = i \<or> j \<in> set (bs_parents (buf st i)) then (buf st j)\<lparr>bs_overflow := True\<rparr>
      else buf st j)"
  by (auto simp: setOverflow_def buf_set_overflow_chain simp del: set_overflow_chain.simps)

lemma area_end_less:
  assumes "area_ok a n" "k \<le> n" "n < k + j" "unat a + k + j < 2 ^ 64"
  shows "a + of_nat n < a + of_nat k + of_nat j"
proof -
  have "area_ok a (k + j)" using assms by (simp add: area_ok_def)
  then have "unat (a + of_nat (k + j)) = unat a + (k + j)" by (rule unat_area_add) simp
  with unat_area_add [OF assms(1), of n] assms show ?thesis
    by (simp add: word_less_nat_alt add.assoc)
qed

section \<open>Properties\<close>

text \<open>
  A write past the end of the area is refused: nothing is written, the overflow is recorded in
  the buffer and in every buffer it was carved from, and every later write to it is refused too.
\<close>

theorem ByteStreamBuffer_write_overflow:
  assumes "writer st i a n k" and "n < k + length d" and "unat a + k + length d < 2 ^ 64"
  shows "\<exists>st'. write_data st i d = (st', Some ENOSPC) \<and> st_mem st' = st_mem st \<and>
      (\<forall>p \<in> set (i # bs_parents (buf st i)). bs_overflow (buf st' p)) \<and>
      (\<forall>d'. write_data st' i d' = (st', Some ENOSPC))"
proof -
  have "a + of_nat n < a + of_nat k + of_nat (length d)"
    using assms by (intro area_end_less) (simp_all add: writer_def)
  then show ?thesis
    using assms unat_area_add [of a n k] by (auto simp: writer_def write_data_def Let_def)
qed

theorem ByteStreamBuffer_write_overflow_witness:
  "\<exists>st'. write_data \<lparr>st_mem = (\<lambda>_. 0), st_bufs = (\<lambda>_. ByteStreamBuffer_writer 4096 2), st_next = 1\<rparr>
      0 [1, 2, 3] = (st', Some ENOSPC) \<and> st_mem st' = (\<lambda>_. 0)"
  using ByteStreamBuffer_write_overflow [of
      "\<lparr>st_mem = (\<lambda>_. 0), st_bufs = (\<lambda>_. ByteStreamBuffer_writer 4096 2), st_next = 1\<rparr>"
      0 4096 2 0 "[1, 2, 3]"]
  by (auto simp: writer_def area_ok_def buf_def ByteStreamBuffer_writer_def)

text \<open>
  The bounds check of \<open>carveOut\<close> adds the requested size to the cursor before comparing, so a
  size close to \<open>2 ^ 64\<close> (a small negative number computed in \<open>size_t\<close>) passes it: the cursor moves
  backwards, no overflow is recorded, and the carved-out buffer claims almost the whole address
  space.
\<close>

theorem carveOut_wrapping_size:
  assumes "reader st i a n k" and "0 < n" and "j \<le> k" and "i \<noteq> st_next st"
  shows "\<exists>st'. carveOut st i (- of_nat j) = (st', st_next st) \<and> reader st' i a n (k - j) \<and>
      bs_size (buf st' (st_next st)) = - of_nat j \<and> \<not> bs_overflow (buf st' (st_next st))"
proof -
  have size: "(of_nat n :: u64) \<noteq> 0"
    using assms(1,2) unat_of_nat_u64 [of n] by (auto simp: reader_def area_ok_def)
  obtain d where k: "k = d + j" using assms(3) by (metis le_add_diff_inverse2)
  have moved: "a + (of_nat d + of_nat j) - of_nat j = a + (of_nat d :: u64)" by simp
  have "d \<le> n" "area_ok a n" using assms by (auto simp: reader_def k)
  then have "\<not> a + of_nat n < a + of_nat d"
    using unat_area_add(1) [of a n n] unat_area_add(1) [of a n d] by (simp add: word_less_nat_alt)
  then show ?thesis
    using assms size unat_area_add [of a n k] moved
    by (auto simp: k reader_def carveOut_def cursor_def Let_def new_buf_def buf_def set_buf_def
        ByteStreamBuffer_reader_def)
qed

theorem carveOut_wrapping_size_witness:
  "\<exists>st'. carveOut \<lparr>st_mem = (\<lambda>_. 0), st_bufs = (\<lambda>_. (ByteStreamBuffer_reader 4096 64)
        \<lparr>bs_read := 4128\<rparr>), st_next = 1\<rparr> 0 (- 32) = (st', 1) \<and> \<not> bs_overflow (buf st' 1)"
  using carveOut_wrapping_size [of
      "\<lparr>st_mem = (\<lambda>_. 0), st_bufs = (\<lambda>_. (ByteStreamBuffer_reader 4096 64)\<lparr>bs_read := 4128\<rparr>),
        st_next = 1\<rparr>" 0 4096 64 32 32]
  by (auto simp: reader_def area_ok_def buf_def ByteStreamBuffer_reader_def)

end
