(* ===== verification/ControlSerializer.thy ===== *)
theory ControlSerializer
  imports Controls ByteStream
begin

text \<open>
  The binary format of controls exchanged with the image processing modules:
  \<open>src/libcamera/control_serializer.cpp\<close> and \<open>include/libcamera/ipa/ipa_controls.h\<close>. A packet is a
  32-byte header, one 16-byte entry per control, and the bytes of the values; the entries carry
  the offset of their value. The reserved and padding members are never initialised: their bytes
  are the parameter \<open>junk\<close>.

  A map that was serialized or deserialized has a handle; lists refer to their map by it. Maps are
  identified by address (\<open>im_ptr\<close>); objects the deserializer creates get the next unused address
  (\<open>cs_next_ptr\<close>), and \<open>mapAt\<close> is the map that lives at an address. The global list of controls, generated by the build, is the parameter
  \<open>globalControls\<close>. Reading an unknown control type makes the code index a table out of its
  bounds: the deserializers are \<open>None\<close> there.
\<close>

section \<open>Format\<close>

fun ControlType_code :: "ControlType \<Rightarrow> nat" where
  "ControlType_code ControlTypeNone = 0"
| "ControlType_code ControlTypeBool = 1"
| "ControlType_code ControlTypeByte = 2"
| "ControlType_code ControlTypeInteger32 = 3"
| "ControlType_code ControlTypeInteger64 = 4"
| "ControlType_code ControlTypeFloat = 5"
| "ControlType_code ControlTypeString = 6"
| "ControlType_code ControlTypeRectangle = 7"
| "ControlType_code ControlTypeSize = 8"

definition all_ControlTypes :: "ControlType list" where
  "all_ControlTypes =
     [ControlTypeNone, ControlTypeBool, ControlTypeByte, ControlTypeInteger32,
      ControlTypeInteger64, ControlTypeFloat, ControlTypeString, ControlTypeRectangle,
      ControlTypeSize]"

definition ControlType_decode :: "nat \<Rightarrow> ControlType option" where
  "ControlType_decode n = find (\<lambda>t. ControlType_code t = n) all_ControlTypes"

lemma ControlType_decode_code [simp]: "ControlType_decode (ControlType_code t) = Some t"
  by (cases t) (simp_all add: ControlType_decode_def all_ControlTypes_def)

lemma ControlType_code_less: "ControlType_code t < 9"
  by (cases t) simp_all

definition IPA_CONTROLS_FORMAT_VERSION :: u32 where
  "IPA_CONTROLS_FORMAT_VERSION = 1"

record ipa_controls_header =
  hdr_version :: u32
  hdr_handle :: u32
  hdr_entries :: u32
  hdr_size :: u32
  hdr_data_offset :: u32

definition header_bytes :: "(nat \<Rightarrow> u8) \<Rightarrow> ipa_controls_header \<Rightarrow> u8 list" where
  "header_bytes junk h =
     bytes_u32 (hdr_version h) @ bytes_u32 (hdr_handle h) @ bytes_u32 (hdr_entries h) @
     bytes_u32 (hdr_size h) @ bytes_u32 (hdr_data_offset h) @ map junk [0..<12]"

definition bytes_header :: "u8 list \<Rightarrow> ipa_controls_header" where
  "bytes_header bs =
     \<lparr>hdr_version = u32_bytes (take 4 bs), hdr_handle = u32_bytes (take 4 (drop 4 bs)),
      hdr_entries = u32_bytes (take 4 (drop 8 bs)), hdr_size = u32_bytes (take 4 (drop 12 bs)),
      hdr_data_offset = u32_bytes (take 4 (drop 16 bs))\<rparr>"

record ipa_control_value_entry =
  ve_id :: u32
  ve_type :: u8
  ve_is_array :: u8
  ve_count :: u16
  ve_offset :: u32

definition value_entry_bytes :: "(nat \<Rightarrow> u8) \<Rightarrow> ipa_control_value_entry \<Rightarrow> u8 list" where
  "value_entry_bytes junk e =
     bytes_u32 (ve_id e) @ bytes_u8 (ve_type e) @ bytes_u8 (ve_is_array e) @
     bytes_u16 (ve_count e) @ bytes_u32 (ve_offset e) @ map junk [0..<4]"

definition bytes_value_entry :: "u8 list \<Rightarrow> ipa_control_value_entry" where
  "bytes_value_entry bs =
     \<lparr>ve_id = u32_bytes (take 4 bs), ve_type = u8_bytes (take 1 (drop 4 bs)),
      ve_is_array = u8_bytes (take 1 (drop 5 bs)), ve_count = u16_bytes (take 2 (drop 6 bs)),
      ve_offset = u32_bytes (take 4 (drop 8 bs))\<rparr>"

record ipa_control_info_entry =
  ie_id :: u32
  ie_type :: u32
  ie_offset :: u32

definition info_entry_bytes :: "(nat \<Rightarrow> u8) \<Rightarrow> ipa_control_info_entry \<Rightarrow> u8 list" where
  "info_entry_bytes junk e =
     bytes_u32 (ie_id e) @ bytes_u32 (ie_type e) @ bytes_u32 (ie_offset e) @ map junk [0..<4]"

definition bytes_info_entry :: "u8 list \<Rightarrow> ipa_control_info_entry" where
  "bytes_info_entry bs =
     \<lparr>ie_id = u32_bytes (take 4 bs), ie_type = u32_bytes (take 4 (drop 4 bs)),
      ie_offset = u32_bytes (take 4 (drop 8 bs))\<rparr>"

section \<open>State\<close>

record ControlSerializer =
  cs_serial :: u32
  cs_controlIds :: "ControlId list"
  cs_infoMaps :: "(u32 \<times> ControlInfoMap) list"
  cs_infoMapHandles :: "(nat \<times> u32) list"
  cs_next_ptr :: nat

definition ControlSerializer_reset :: "ControlSerializer \<Rightarrow> ControlSerializer" where
  "ControlSerializer_reset cs =
     cs\<lparr>cs_serial := 0, cs_infoMapHandles := [], cs_infoMaps := [], cs_controlIds := []\<rparr>"

definition isCached :: "ControlSerializer \<Rightarrow> ControlInfoMap \<Rightarrow> bool" where
  "isCached cs infoMap \<longleftrightarrow> map_of (cs_infoMapHandles cs) (im_ptr infoMap) \<noteq> None"

section \<open>Sizes\<close>

definition binarySize_value :: "ControlValue \<Rightarrow> nat" where
  "binarySize_value v = length (cv_data v)"

definition binarySize_info :: "ControlInfo \<Rightarrow> nat" where
  "binarySize_info info = binarySize_value (ci_min info) + binarySize_value (ci_max info)"

definition binarySize_infoMap :: "ControlInfoMap \<Rightarrow> nat" where
  "binarySize_infoMap m =
     32 + length (im_map m) * 16 + sum_list (map (\<lambda>(cid, info). binarySize_info info) (im_map m))"

definition binarySize_list :: "ControlList \<Rightarrow> nat" where
  "binarySize_list l =
     32 + length (cl_controls l) * 16
       + sum_list (map (\<lambda>(cid, v). binarySize_value v) (cl_controls l))"

section \<open>Serialization\<close>

definition store_value :: "ControlValue \<Rightarrow> store \<Rightarrow> nat \<Rightarrow> store" where
  "store_value v st i = fst (write_data st i (cv_data v))"

definition store_info :: "ControlInfo \<Rightarrow> store \<Rightarrow> nat \<Rightarrow> store" where
  "store_info info st i = store_value (ci_max info) (store_value (ci_min info) st i) i"

fun serialize_info_loop ::
    "(nat \<Rightarrow> u8) \<Rightarrow> nat \<Rightarrow> nat \<Rightarrow> (ControlId \<times> ControlInfo) list \<Rightarrow> store \<Rightarrow> store" where
  "serialize_info_loop junk entries vals [] st = st"
| "serialize_info_loop junk entries vals ((cid, info) # rest) st =
     (let entry = \<lparr>ie_id = cid_id cid, ie_type = of_nat (ControlType_code (cid_type cid)),
                   ie_offset = offset (buf st vals)\<rparr>;
          st = fst (write_data st entries (info_entry_bytes junk entry));
          st = store_info info st vals
      in serialize_info_loop junk entries vals rest st)"

definition serialize_infoMap ::
    "(nat \<Rightarrow> u8) \<Rightarrow> ControlSerializer \<Rightarrow> store \<Rightarrow> ControlInfoMap \<Rightarrow> nat
       \<Rightarrow> ControlSerializer \<times> store \<times> errno option" where
  "serialize_infoMap junk cs st infoMap buffer =
     (if isCached cs infoMap then (cs, st, None)
      else
        let entriesSize = length (im_map infoMap) * 16;
            valuesSize = sum_list (map (\<lambda>(cid, info). binarySize_info info) (im_map infoMap));
            cs = cs\<lparr>cs_serial := cs_serial cs + 1\<rparr>;
            hdr = \<lparr>hdr_version = IPA_CONTROLS_FORMAT_VERSION, hdr_handle = cs_serial cs,
                   hdr_entries = of_nat (length (im_map infoMap)),
                   hdr_size = of_nat (32 + entriesSize + valuesSize),
                   hdr_data_offset = of_nat (32 + entriesSize)\<rparr>;
            st = fst (write_data st buffer (header_bytes junk hdr));
            (st, entries) = carveOut st buffer (of_nat entriesSize);
            (st, vals) = carveOut st buffer (of_nat valuesSize);
            st = serialize_info_loop junk entries vals (im_map infoMap) st
        in if bs_overflow (buf st buffer) then (cs, st, Some ENOSPC)
           else (cs\<lparr>cs_infoMapHandles :=
                    map_insert (im_ptr infoMap) (hdr_handle hdr) (cs_infoMapHandles cs)\<rparr>, st, None))"

fun serialize_values_loop ::
    "(nat \<Rightarrow> u8) \<Rightarrow> nat \<Rightarrow> nat \<Rightarrow> (u32 \<times> ControlValue) list \<Rightarrow> store \<Rightarrow> store" where
  "serialize_values_loop junk entries vals [] st = st"
| "serialize_values_loop junk entries vals ((cid, v) # rest) st =
     (let entry = \<lparr>ve_id = cid, ve_type = of_nat (ControlType_code (cv_type v)),
                   ve_is_array = (if cv_isArray v then 1 else 0),
                   ve_count = ucast (cv_numElements v), ve_offset = offset (buf st vals)\<rparr>;
          st = fst (write_data st entries (value_entry_bytes junk entry));
          st = store_value v st vals
      in serialize_values_loop junk entries vals rest st)"

definition serialize_list ::
    "(nat \<Rightarrow> u8) \<Rightarrow> ControlSerializer \<Rightarrow> store \<Rightarrow> ControlList \<Rightarrow> nat
       \<Rightarrow> store \<times> errno option" where
  "serialize_list junk cs st l buffer =
     (case (case cl_infoMap l of
              None \<Rightarrow> Some 0
            | Some infoMap \<Rightarrow> map_of (cs_infoMapHandles cs) (im_ptr infoMap)) of
        None \<Rightarrow> (st, Some ENOENT)
      | Some infoMapHandle \<Rightarrow>
        let entriesSize = length (cl_controls l) * 16;
            valuesSize = sum_list (map (\<lambda>(cid, v). binarySize_value v) (cl_controls l));
            hdr = \<lparr>hdr_version = IPA_CONTROLS_FORMAT_VERSION, hdr_handle = infoMapHandle,
                   hdr_entries = of_nat (length (cl_controls l)),
                   hdr_size = of_nat (32 + entriesSize + valuesSize),
                   hdr_data_offset = of_nat (32 + entriesSize)\<rparr>;
            st = fst (write_data st buffer (header_bytes junk hdr));
            (st, entries) = carveOut st buffer (of_nat entriesSize);
            (st, vals) = carveOut st buffer (of_nat valuesSize);
            st = serialize_values_loop junk entries vals (cl_controls l) st
        in if bs_overflow (buf st buffer) then (st, Some ENOSPC) else (st, None))"

section \<open>Deserialization\<close>

definition loadControlValue ::
    "(nat \<Rightarrow> u8) \<Rightarrow> ControlType \<Rightarrow> store \<Rightarrow> nat \<Rightarrow> bool \<Rightarrow> nat \<Rightarrow> store \<times> ControlValue" where
  "loadControlValue junk type st i isArray count =
     (let v = ControlValue_reserve junk ControlValue_empty type isArray count
      in case read_data st i (of_nat (ControlValue_data_size v)) of
           (st, Inr d) \<Rightarrow> (st, v\<lparr>cv_data := d\<rparr>)
         | (st, Inl e) \<Rightarrow> (st, v))"

text \<open>The default of the \<open>ControlInfo\<close> constructor is the 32-bit integer 0.\<close>

definition ControlValue_int32_zero :: ControlValue where
  "ControlValue_int32_zero =
     \<lparr>cv_type = ControlTypeInteger32, cv_isArray = False, cv_numElements = 1,
      cv_data = [0, 0, 0, 0]\<rparr>"

definition loadControlInfo ::
    "(nat \<Rightarrow> u8) \<Rightarrow> ControlType \<Rightarrow> store \<Rightarrow> nat \<Rightarrow> store \<times> ControlInfo" where
  "loadControlInfo junk type st i =
     (let type = (if type = ControlTypeString then ControlTypeInteger32 else type);
          (st, mn) = loadControlValue junk type st i False 1;
          (st, mx) = loadControlValue junk type st i False 1
      in (st, ControlInfo_range mn mx ControlValue_int32_zero))"

text \<open>
  The loops return the packet's controls, or \<open>Inl\<close> for the empty object the code returns when
  the data is bad.
\<close>

fun deserialize_values_loop ::
    "(nat \<Rightarrow> u8) \<Rightarrow> nat \<Rightarrow> nat \<Rightarrow> nat \<Rightarrow> ControlList \<Rightarrow> store
       \<Rightarrow> (store \<times> (unit + ControlList)) option" where
  "deserialize_values_loop junk entries vals 0 ctrls st = Some (st, Inr ctrls)"
| "deserialize_values_loop junk entries vals (Suc n) ctrls st =
     (case read_ptr st entries 16 1 of
        (st, None) \<Rightarrow> Some (st, Inl ())
      | (st, Some p) \<Rightarrow>
          let entry = bytes_value_entry (mem_read (st_mem st) p 16) in
          if ve_offset entry \<noteq> offset (buf st vals) then Some (st, Inl ())
          else
            (case ControlType_decode (unat (ve_type entry)) of
               None \<Rightarrow> None
             | Some type \<Rightarrow>
                 let (st, v) = loadControlValue junk type st vals (ve_is_array entry \<noteq> 0)
                                 (unat (ve_count entry))
                 in (case ControlList_set junk ctrls (ve_id entry) v of
                       None \<Rightarrow> None
                     | Some ctrls \<Rightarrow> deserialize_values_loop junk entries vals n ctrls st)))"

definition deserialize_list ::
    "(nat \<Rightarrow> u8) \<Rightarrow> (u32 \<times> ControlId) list \<Rightarrow> (nat \<Rightarrow> ControlInfoMap) \<Rightarrow> ControlSerializer
       \<Rightarrow> store \<Rightarrow> nat \<Rightarrow> (store \<times> ControlList) option" where
  "deserialize_list junk globalControls mapAt cs st buffer =
     (case read_ptr st buffer 32 1 of
        (st, None) \<Rightarrow> Some (st, ControlList_new)
      | (st, Some p) \<Rightarrow>
          let hdr = bytes_header (mem_read (st_mem st) p 32) in
          if hdr_version hdr \<noteq> IPA_CONTROLS_FORMAT_VERSION then Some (st, ControlList_new)
          else
            let (st, entries) = carveOut st buffer (ucast (hdr_data_offset hdr) - 32);
                (st, vals) = carveOut st buffer (ucast (hdr_size hdr - hdr_data_offset hdr))
            in if bs_overflow (buf st buffer) then Some (st, ControlList_new)
               else
                 (case (if hdr_handle hdr \<noteq> 0
                        then map_option (\<lambda>(ptr, h). im_idmap (mapAt ptr))
                               (find (\<lambda>(ptr, h). h = hdr_handle hdr) (cs_infoMapHandles cs))
                        else Some globalControls) of
                    None \<Rightarrow> Some (st, ControlList_new)
                  | Some idmap \<Rightarrow>
                      (case deserialize_values_loop junk entries vals
                                 (unat (hdr_entries hdr)) (ControlList_of_idmap idmap None) st of
                            None \<Rightarrow> None
                          | Some (st, Inl _) \<Rightarrow> Some (st, ControlList_new)
                          | Some (st, Inr ctrls) \<Rightarrow> Some (st, ctrls))))"

fun deserialize_info_loop ::
    "(nat \<Rightarrow> u8) \<Rightarrow> nat \<Rightarrow> nat \<Rightarrow> nat \<Rightarrow> (ControlId \<times> ControlInfo) list
       \<Rightarrow> ControlSerializer \<Rightarrow> store
       \<Rightarrow> (ControlSerializer \<times> store \<times> (unit + (ControlId \<times> ControlInfo) list)) option" where
  "deserialize_info_loop junk entries vals 0 ctrls cs st = Some (cs, st, Inr ctrls)"
| "deserialize_info_loop junk entries vals (Suc n) ctrls cs st =
     (case read_ptr st entries 16 1 of
        (st, None) \<Rightarrow> Some (cs, st, Inl ())
      | (st, Some p) \<Rightarrow>
          let entry = bytes_info_entry (mem_read (st_mem st) p 16) in
          (case ControlType_decode (unat (ie_type entry)) of
             None \<Rightarrow> None
           | Some type \<Rightarrow>
               let cid = \<lparr>cid_ptr = cs_next_ptr cs, cid_id = ie_id entry, cid_name = [],
                          cid_type = type\<rparr>;
                   cs = cs\<lparr>cs_controlIds := cs_controlIds cs @ [cid],
                           cs_next_ptr := Suc (cs_next_ptr cs)\<rparr>
               in if ie_offset entry \<noteq> offset (buf st vals) then Some (cs, st, Inl ())
                  else
                    let (st, info) = loadControlInfo junk type st vals
                    in deserialize_info_loop junk entries vals n (ctrls @ [(cid, info)]) cs st))"

definition deserialize_infoMap ::
    "(nat \<Rightarrow> u8) \<Rightarrow> ControlSerializer \<Rightarrow> store \<Rightarrow> nat
       \<Rightarrow> (ControlSerializer \<times> store \<times> ControlInfoMap option) option" where
  "deserialize_infoMap junk cs st buffer =
     (case read_ptr st buffer 32 1 of
        (st, None) \<Rightarrow> Some (cs, st, None)
      | (st, Some p) \<Rightarrow>
          let hdr = bytes_header (mem_read (st_mem st) p 32) in
          (case map_of (cs_infoMaps cs) (hdr_handle hdr) of
             Some m \<Rightarrow> Some (cs, st, Some m)
           | None \<Rightarrow>
               if hdr_version hdr \<noteq> IPA_CONTROLS_FORMAT_VERSION then Some (cs, st, None)
               else
                 let (st, entries) = carveOut st buffer (ucast (hdr_data_offset hdr) - 32);
                     (st, vals) = carveOut st buffer (ucast (hdr_size hdr - hdr_data_offset hdr))
                 in if bs_overflow (buf st buffer) then Some (cs, st, None)
                    else
                      (case deserialize_info_loop junk entries vals (unat (hdr_entries hdr)) [] cs st of
                         None \<Rightarrow> None
                       | Some (cs, st, Inl _) \<Rightarrow> Some (cs, st, None)
                       | Some (cs, st, Inr ctrls) \<Rightarrow>
                           let m = ControlInfoMap_of (cs_next_ptr cs) ctrls
                           in Some (cs\<lparr>cs_next_ptr := Suc (cs_next_ptr cs),
                                       cs_infoMaps := map_insert (hdr_handle hdr) m (cs_infoMaps cs),
                                       cs_infoMapHandles := map_insert (im_ptr m) (hdr_handle hdr)
                                                              (cs_infoMapHandles cs)\<rparr>,
                                    st, Some m))))"

section \<open>Reading back what is in memory\<close>

definition holds :: "memory \<Rightarrow> u64 \<Rightarrow> u8 list \<Rightarrow> bool" where
  "holds m a bs \<longleftrightarrow> mem_read m a (length bs) = bs"

lemma mem_read_add:
  "mem_read m a (k + n) = mem_read m a k @ mem_read m (a + of_nat k) n"
  by (rule nth_equalityI) (auto simp: mem_read_def nth_append add.assoc)

lemma holds_append:
  "holds m a (xs @ ys) \<longleftrightarrow> holds m a xs \<and> holds m (a + of_nat (length xs)) ys"
  by (auto simp: holds_def mem_read_add)

lemma holds_mem_write: "length bs < 2 ^ 64 \<Longrightarrow> holds (mem_write m a bs) a bs"
  using mem_read_write [of 0 "length bs" bs m a] by (simp add: holds_def)

lemma length_header_bytes [simp]: "length (header_bytes junk h) = 32"
  by (simp add: header_bytes_def)

lemma length_value_entry_bytes [simp]: "length (value_entry_bytes junk e) = 16"
  by (simp add: value_entry_bytes_def)

lemma length_info_entry_bytes [simp]: "length (info_entry_bytes junk e) = 16"
  by (simp add: info_entry_bytes_def)

lemma bytes_header_header_bytes [simp]: "bytes_header (header_bytes junk h) = h"
  by (simp add: bytes_header_def header_bytes_def)

lemma bytes_value_entry_value_entry_bytes [simp]:
  "bytes_value_entry (value_entry_bytes junk e) = e"
  by (simp add: bytes_value_entry_def value_entry_bytes_def)

lemma bytes_info_entry_info_entry_bytes [simp]:
  "bytes_info_entry (info_entry_bytes junk e) = e"
  by (simp add: bytes_info_entry_def info_entry_bytes_def)

section \<open>The layout of a packet\<close>

text \<open>
  The entries of the items \<open>xs\<close> whose first value is at offset \<open>vo\<close>: \<open>ent\<close> builds an entry from
  an offset and an item, \<open>bytes\<close> gives the bytes of an item's value.
\<close>

fun layout :: "(nat \<Rightarrow> 'a \<Rightarrow> u8 list) \<Rightarrow> ('a \<Rightarrow> u8 list) \<Rightarrow> nat \<Rightarrow> 'a list \<Rightarrow> u8 list" where
  "layout ent bytes vo [] = []"
| "layout ent bytes vo (x # xs) = ent vo x @ layout ent bytes (vo + length (bytes x)) xs"

lemma length_layout:
  "(\<And>vo x. length (ent vo x) = 16) \<Longrightarrow> length (layout ent bytes vo xs) = 16 * length xs"
  by (induction xs arbitrary: vo) simp_all

text \<open>
  One step of a serialization loop writes an entry in the entries area and a value in the values
  area behind it; what the remaining steps write commutes with the value.
\<close>

lemma two_area_writes:
  assumes "eo + length e + length es \<le> en" "en + vo + length v + length vs < 2 ^ 64"
  shows "mem_write (mem_write (mem_write (mem_write m (a + of_nat eo) e)
            (a + of_nat en + of_nat vo) v) (a + of_nat (eo + length e)) es)
            (a + of_nat en + of_nat (vo + length v)) vs
       = mem_write (mem_write m (a + of_nat eo) (e @ es)) (a + of_nat en + of_nat vo) (v @ vs)"
proof -
  have comm: "mem_write (mem_write m' (a + of_nat en + of_nat vo) v) (a + of_nat (eo + length e)) es
      = mem_write (mem_write m' (a + of_nat (eo + length e)) es) (a + of_nat en + of_nat vo) v" for m'
    using mem_write_commute [of "eo + length e" es "en + vo" v m' a] assms
    by (simp add: add.assoc)
  have "mem_write (mem_write m (a + of_nat eo) e) (a + of_nat (eo + length e)) es
      = mem_write m (a + of_nat eo) (e @ es)"
    using mem_write_append [of e es m "a + of_nat eo"] assms by (simp add: add.assoc)
  moreover have "mem_write (mem_write m' (a + of_nat en + of_nat vo) v)
        (a + of_nat en + of_nat (vo + length v)) vs
      = mem_write m' (a + of_nat en + of_nat vo) (v @ vs)" for m'
    using mem_write_append [of v vs m' "a + of_nat en + of_nat vo"] assms
    by (simp add: add.assoc)
  ultimately show ?thesis by (simp only: comm)
qed

lemma writer_offset:
  assumes "writer st i a n k" "n < 2 ^ 32"
  shows "offset (buf st i) = of_nat k"
proof -
  have "a + of_nat k \<noteq> 0" using assms by (auto simp: writer_def unat_area_add)
  then have "offset (buf st i) = ucast (of_nat k :: u64)"
    using assms by (auto simp: writer_def offset_def)
  also have "\<dots> = (of_nat k :: u32)" by (rule unat_eqI) (simp add: unsigned_ucast_eq unsigned_of_nat)
  finally show ?thesis .
qed

section \<open>The list format\<close>

definition value_entry_at :: "(nat \<Rightarrow> u8) \<Rightarrow> nat \<Rightarrow> u32 \<times> ControlValue \<Rightarrow> u8 list" where
  "value_entry_at junk vo = (\<lambda>(cid, v). value_entry_bytes junk
     \<lparr>ve_id = cid, ve_type = of_nat (ControlType_code (cv_type v)),
      ve_is_array = (if cv_isArray v then 1 else 0), ve_count = ucast (cv_numElements v),
      ve_offset = of_nat vo\<rparr>)"

abbreviation value_bytes :: "u32 \<times> ControlValue \<Rightarrow> u8 list" where
  "value_bytes x \<equiv> cv_data (snd x)"

lemma length_value_entry_at [simp]: "length (value_entry_at junk vo x) = 16"
  by (simp add: value_entry_at_def split: prod.split)

text \<open>Writing one entry and one value, as both loops do in each round.\<close>

lemma entry_value_step:
  assumes w: "writer st e a en eo" "writer st v (a + of_nat en) vn vo" and "e \<noteq> v"
    and b: "eo + length d \<le> en" "vo + length d' \<le> vn"
  shows "\<exists>st1 st2. write_data st e d = (st1, None) \<and> write_data st1 v d' = (st2, None) \<and>
      writer st2 e a en (eo + length d) \<and> writer st1 v (a + of_nat en) vn vo \<and>
      writer st2 v (a + of_nat en) vn (vo + length d') \<and>
      st_mem st2 = mem_write (mem_write (st_mem st) (a + of_nat eo) d)
        (a + of_nat en + of_nat vo) d' \<and>
      (\<forall>j. j \<noteq> e \<longrightarrow> j \<noteq> v \<longrightarrow> buf st2 j = buf st j)"
proof -
  obtain st1 where st1: "write_data st e d = (st1, None)" "writer st1 e a en (eo + length d)"
    "st_mem st1 = mem_write (st_mem st) (a + of_nat eo) d" "\<forall>j. j \<noteq> e \<longrightarrow> buf st1 j = buf st j"
    using write_data_writer [OF w(1) b(1)] by auto
  then have v1: "writer st1 v (a + of_nat en) vn vo" using w(2) \<open>e \<noteq> v\<close> by (simp add: writer_def)
  from write_data_writer [OF this b(2)] obtain st2 where
    st2: "write_data st1 v d' = (st2, None)" "writer st2 v (a + of_nat en) vn (vo + length d')"
      "st_mem st2 = mem_write (st_mem st1) (a + of_nat en + of_nat vo) d'"
      "\<forall>j. j \<noteq> v \<longrightarrow> buf st2 j = buf st1 j" by auto
  have "writer st2 e a en (eo + length d)" using st1(2) st2(4) \<open>e \<noteq> v\<close> by (simp add: writer_def)
  with st1 st2 v1 show ?thesis by auto
qed

lemma serialize_values_loop_writes:
  assumes "writer st e a en eo" "writer st v (a + of_nat en) vn vo" "e \<noteq> v"
    and "eo + 16 * length xs \<le> en" "vo + length (concat (map value_bytes xs)) \<le> vn"
    and "en + vn < 2 ^ 32"
  shows "st_mem (serialize_values_loop junk e v xs st) =
          mem_write (mem_write (st_mem st) (a + of_nat eo)
            (layout (value_entry_at junk) value_bytes vo xs))
            (a + of_nat en + of_nat vo) (concat (map value_bytes xs)) \<and>
         (\<forall>j. j \<noteq> e \<longrightarrow> j \<noteq> v \<longrightarrow> buf (serialize_values_loop junk e v xs st) j = buf st j)"
  using assms
proof (induction xs arbitrary: st eo vo)
  case Nil
  then show ?case by simp
next
  case (Cons x xs)
  obtain cid val where x: "x = (cid, val)" by (cases x)
  have off: "offset (buf st v) = of_nat vo"
    using writer_offset [OF Cons.prems(2)] Cons.prems(6) by simp
  obtain st1 st2 where st: "write_data st e (value_entry_at junk vo x) = (st1, None)"
    "write_data st1 v (cv_data val) = (st2, None)"
    "writer st2 e a en (eo + 16)" "writer st1 v (a + of_nat en) vn vo"
    "writer st2 v (a + of_nat en) vn (vo + length (cv_data val))"
    "st_mem st2 = mem_write (mem_write (st_mem st) (a + of_nat eo) (value_entry_at junk vo x))
        (a + of_nat en + of_nat vo) (cv_data val)"
    "\<forall>j. j \<noteq> e \<longrightarrow> j \<noteq> v \<longrightarrow> buf st2 j = buf st j"
    using entry_value_step [OF Cons.prems(1-3), of "value_entry_at junk vo x" "cv_data val"]
      Cons.prems(4,5) by (auto simp: x)
  have go: "serialize_values_loop junk e v (x # xs) st = serialize_values_loop junk e v xs st2"
    using st(1,2) off by (simp add: x value_entry_at_def store_value_def Let_def)
  note IH = Cons.IH [OF st(3,5) Cons.prems(3)]
  show ?case
    using IH st(6,7) Cons.prems(4-6)
      two_area_writes [of eo "value_entry_at junk vo x"
          "layout (value_entry_at junk) value_bytes (vo + length (cv_data val)) xs" en vo
          "cv_data val" "concat (map value_bytes xs)" "st_mem st" a]
    unfolding go by (simp add: x length_layout)
qed

definition values_size :: "(u32 \<times> ControlValue) list \<Rightarrow> nat" where
  "values_size xs = sum_list (map (\<lambda>(cid, v). binarySize_value v) xs)"

lemma length_concat_value_bytes: "length (concat (map value_bytes xs)) = values_size xs"
  by (induction xs) (auto simp: values_size_def binarySize_value_def)

definition list_packet :: "(nat \<Rightarrow> u8) \<Rightarrow> u32 \<Rightarrow> (u32 \<times> ControlValue) list \<Rightarrow> u8 list" where
  "list_packet junk h xs =
     header_bytes junk \<lparr>hdr_version = IPA_CONTROLS_FORMAT_VERSION, hdr_handle = h,
       hdr_entries = of_nat (length xs), hdr_size = of_nat (32 + length xs * 16 + values_size xs),
       hdr_data_offset = of_nat (32 + length xs * 16)\<rparr>
     @ layout (value_entry_at junk) value_bytes 0 xs @ concat (map value_bytes xs)"

lemma length_list_packet: "length (list_packet junk h xs) = 32 + length xs * 16 + values_size xs"
  by (simp add: list_packet_def length_layout length_concat_value_bytes)

definition list_handle :: "ControlSerializer \<Rightarrow> ControlList \<Rightarrow> u32 option" where
  "list_handle cs l = (case cl_infoMap l of None \<Rightarrow> Some 0
     | Some infoMap \<Rightarrow> map_of (cs_infoMapHandles cs) (im_ptr infoMap))"

text \<open>Carving the two areas behind the header.\<close>

lemma carve_two_writers:
  assumes w: "writer st i a n 32" "32 + k + j \<le> n" "i < st_next st"
  shows "\<exists>st1 st2 e v. carveOut st i (of_nat k) = (st1, e) \<and> carveOut st1 i (of_nat j) = (st2, v) \<and>
      writer st2 e (a + of_nat 32) k 0 \<and> writer st2 v (a + of_nat 32 + of_nat k) j 0 \<and>
      writer st2 i a n (32 + k + j) \<and> e \<noteq> v \<and> i \<noteq> e \<and> i \<noteq> v \<and> st_mem st2 = st_mem st"
proof -
  obtain st1 where st1: "carveOut st i (of_nat k) = (st1, st_next st)" "writer st1 i a n (32 + k)"
    "writer st1 (st_next st) (a + of_nat 32) k 0" "st_mem st1 = st_mem st"
    "st_next st1 = Suc (st_next st)"
    using carveOut_writer [OF w(1), of k] w(2,3) by auto
  obtain st2 where st2: "carveOut st1 i (of_nat j) = (st2, Suc (st_next st))"
    "writer st2 i a n (32 + k + j)" "writer st2 (Suc (st_next st)) (a + of_nat (32 + k)) j 0"
    "st_mem st2 = st_mem st1"
    "\<forall>h. h \<noteq> i \<longrightarrow> h \<noteq> Suc (st_next st) \<longrightarrow> buf st2 h = buf st1 h"
    using carveOut_writer [OF st1(2), of j] w(2,3) st1(5) by auto
  have "writer st2 (st_next st) (a + of_nat 32) k 0"
    using st1(3) st2(5) w(3) by (simp add: writer_def)
  with st1 st2 w(3) show ?thesis by (auto simp: add.assoc)
qed

lemma serialize_list_writes:
  assumes w: "writer st i a n 0" "i < st_next st"
    and fits: "32 + length (cl_controls l) * 16 + values_size (cl_controls l) \<le> n" "n < 2 ^ 32"
    and h: "list_handle cs l = Some h"
  shows "\<exists>st'. serialize_list junk cs st l i = (st', None) \<and>
     st_mem st' = mem_write (st_mem st) a (list_packet junk h (cl_controls l))"
proof -
  let ?xs = "cl_controls l"
  let ?k = "length ?xs * 16" and ?j = "values_size ?xs"
  let ?hdr = "\<lparr>hdr_version = IPA_CONTROLS_FORMAT_VERSION, hdr_handle = h,
       hdr_entries = of_nat (length ?xs), hdr_size = of_nat (32 + ?k + ?j),
       hdr_data_offset = of_nat (32 + ?k)\<rparr>"
  obtain st0 where st0: "write_data st i (header_bytes junk ?hdr) = (st0, None)" "writer st0 i a n 32"
    "st_mem st0 = mem_write (st_mem st) a (header_bytes junk ?hdr)" "st_next st0 = st_next st"
    using write_data_writer [OF w(1), of "header_bytes junk ?hdr"] fits by auto
  obtain st1 st2 e v where c: "carveOut st0 i (of_nat ?k) = (st1, e)"
    "carveOut st1 i (of_nat ?j) = (st2, v)" "writer st2 e (a + of_nat 32) ?k 0"
    "writer st2 v (a + of_nat 32 + of_nat ?k) ?j 0" "writer st2 i a n (32 + ?k + ?j)"
    "e \<noteq> v" "i \<noteq> e" "i \<noteq> v" "st_mem st2 = st_mem st0"
    using carve_two_writers [OF st0(2), of ?k ?j] fits w(2) st0(4) by auto
  define st3 where "st3 = serialize_values_loop junk e v ?xs st2"
  have st3: "st_mem st3 = mem_write (mem_write (st_mem st2) (a + of_nat 32)
        (layout (value_entry_at junk) value_bytes 0 ?xs))
        (a + of_nat 32 + of_nat ?k) (concat (map value_bytes ?xs))" "buf st3 i = buf st2 i"
    using serialize_values_loop_writes [OF c(3,4,6), of ?xs junk] fits c(7,8)
    by (simp_all add: st3_def length_concat_value_bytes)
  have "\<not> bs_overflow (buf st3 i)" using c(5) st3(2) by (auto simp: writer_def)
  moreover have "(case cl_infoMap l of None \<Rightarrow> Some 0
     | Some infoMap \<Rightarrow> map_of (cs_infoMapHandles cs) (im_ptr infoMap)) = Some h"
    using h by (simp add: list_handle_def)
  ultimately have "serialize_list junk cs st l i = (st3, None)"
    unfolding serialize_list_def values_size_def [symmetric] Let_def
    by (simp only: option.case st0(1) fst_conv prod.case c(1,2) st3_def [symmetric] if_False)
  moreover have "st_mem st3 = mem_write (st_mem st) a (list_packet junk h ?xs)"
    using mem_write_append [of "header_bytes junk ?hdr" "layout (value_entry_at junk) value_bytes 0 ?xs"
        "st_mem st" a]
      mem_write_append [of "header_bytes junk ?hdr @ layout (value_entry_at junk) value_bytes 0 ?xs"
        "concat (map value_bytes ?xs)" "st_mem st" a] fits
    by (simp add: st3 c(9) st0(3) list_packet_def length_layout length_concat_value_bytes
        add.assoc mult.commute)
  ultimately show ?thesis by blast
qed

text \<open>
  A list can be written when its values are set, an array has fewer than \<open>2 ^ 16\<close> elements (the
  entry's count is 16 bits wide) and no identifier occurs twice (the list is a map).
\<close>

definition list_writable :: "(u32 \<times> ControlValue) list \<Rightarrow> bool" where
  "list_writable xs \<longleftrightarrow> distinct (map fst xs) \<and>
     (\<forall>(cid, v) \<in> set xs. ControlValue_is_set v \<and> unat (cv_numElements v) < 2 ^ 16)"

lemma loadControlValue_reads:
  assumes "reader st i a n k" "k + length (cv_data v) \<le> n"
    and "ControlValue_is_set v" "holds (st_mem st) (a + of_nat k) (cv_data v)"
    and "unat (ucast (cv_numElements v) :: u16) = unat (cv_numElements v)"
  shows "\<exists>st'. loadControlValue junk (cv_type v) st i (cv_isArray v)
        (unat (ucast (cv_numElements v) :: u16)) = (st', v) \<and>
      reader st' i a n (k + length (cv_data v)) \<and> st_mem st' = st_mem st \<and>
      st_next st' = st_next st \<and> (\<forall>h. h \<noteq> i \<longrightarrow> buf st' h = buf st h)"
proof -
  have size: "ControlValue_data_size (ControlValue_reserve junk ControlValue_empty (cv_type v)
      (cv_isArray v) (unat (cv_numElements v))) = length (cv_data v)"
    using assms(3) by (auto simp: ControlValue_reserve_size ControlValue_is_set_def
        ControlValue_wf_def ControlValue_data_size_def)
  have same: "(ControlValue_reserve junk ControlValue_empty (cv_type v)
      (cv_isArray v) (unat (cv_numElements v)))\<lparr>cv_data := cv_data v\<rparr> = v"
    using assms(3) by (auto simp: ControlValue_is_set_def intro!: ControlValue.equality)
  show ?thesis
    using read_data_reader [OF assms(1,2)] assms(4)
    by (auto simp: loadControlValue_def Let_def assms(5) size same holds_def)
qed

lemma reader_offset:
  assumes "reader st i a n k" "n < 2 ^ 32"
  shows "offset (buf st i) = of_nat k"
proof -
  have "offset (buf st i) = ucast (of_nat k :: u64)"
    using assms by (auto simp: reader_def offset_def)
  also have "\<dots> = (of_nat k :: u32)" by (rule unat_eqI) (simp add: unsigned_ucast_eq unsigned_of_nat)
  finally show ?thesis .
qed

lemma unat_ucast_u16: "unat (w :: u32) < 2 ^ 16 \<Longrightarrow> unat (ucast w :: u16) = unat w"
  by (simp add: unsigned_ucast_eq take_bit_nat_eq_self)

lemma unat_type_code: "unat (of_nat (ControlType_code t) :: u8) = ControlType_code t"
  using ControlType_code_less [of t] by (intro unat_of_nat_u8) simp

lemma ControlList_set_fresh:
  assumes "cl_validator l = None" "cid \<notin> fst ` set (cl_controls l)" "ControlValue_is_set v"
  shows "ControlList_set junk l cid v = Some (l\<lparr>cl_controls := cl_controls l @ [(cid, v)]\<rparr>)"
proof -
  have upd: "AList.update k x xs = xs @ [(k, x)]" if "k \<notin> fst ` set xs" for k and x :: ControlValue and xs
    using that by (induction xs) auto
  have again: "AList.update k x (xs @ [(k, y)]) = xs @ [(k, x)]" if "k \<notin> fst ` set xs"
    for k and x y :: ControlValue and xs
    using that by (induction xs) auto
  have "map_of (cl_controls l) cid = None" using assms(2) by (simp add: map_of_eq_None_iff)
  then show ?thesis
    using assms upd [OF assms(2)] again [OF assms(2)]
    by (simp add: ControlList_set_def ControlList_find_mut_def ControlValue_assign_copy)
qed

lemma deserialize_values_loop_reads:
  assumes "reader st e ea en eo" "reader st v va vn vo" "e \<noteq> v" "vn < 2 ^ 32"
    and "eo + 16 * length xs \<le> en" "vo + values_size xs \<le> vn"
    and "list_writable xs" "cl_validator l = None"
    and "fst ` set xs \<inter> fst ` set (cl_controls l) = {}"
    and "holds (st_mem st) (ea + of_nat eo) (layout (value_entry_at wjunk) value_bytes vo xs)"
    and "holds (st_mem st) (va + of_nat vo) (concat (map value_bytes xs))"
  shows "\<exists>st'. deserialize_values_loop junk e v (length xs) l st
      = Some (st', Inr (l\<lparr>cl_controls := cl_controls l @ xs\<rparr>))"
  using assms
proof (induction xs arbitrary: st eo vo l)
  case Nil
  then show ?case by simp
next
  case (Cons x xs)
  obtain cid val where x: "x = (cid, val)" by (cases x)
  have set: "ControlValue_is_set val" "unat (cv_numElements val) < 2 ^ 16"
    using Cons.prems(7) by (simp_all add: list_writable_def x)
  have mem: "holds (st_mem st) (ea + of_nat eo) (value_entry_at wjunk vo x)"
    "holds (st_mem st) (ea + of_nat (eo + 16))
       (layout (value_entry_at wjunk) value_bytes (vo + length (cv_data val)) xs)"
    "holds (st_mem st) (va + of_nat vo) (cv_data val)"
    "holds (st_mem st) (va + of_nat (vo + length (cv_data val))) (concat (map value_bytes xs))"
    using Cons.prems(10,11) by (simp_all add: x holds_append add.assoc)
  obtain st1 where st1: "read_ptr st e 16 1 = (st1, Some (ea + of_nat eo))"
    "reader st1 e ea en (eo + 16)" "st_mem st1 = st_mem st" "\<forall>h. h \<noteq> e \<longrightarrow> buf st1 h = buf st h"
    using read_ptr_reader [OF Cons.prems(1), of 16] Cons.prems(5) by auto
  have v1: "reader st1 v va vn vo" using st1(4) Cons.prems(2,3) by (simp add: reader_def)
  have room: "vo + length (cv_data val) \<le> vn"
    using Cons.prems(6) by (simp add: x values_size_def binarySize_value_def)
  have "holds (st_mem st1) (va + of_nat vo) (cv_data val)" using mem(3) st1(3) by simp
  from loadControlValue_reads [OF v1 room set(1) this unat_ucast_u16 [OF set(2)], of junk]
  obtain st2 where st2: "loadControlValue junk (cv_type val) st1 v (cv_isArray val)
      (unat (ucast (cv_numElements val) :: u16)) = (st2, val)"
    "reader st2 v va vn (vo + length (cv_data val))" "st_mem st2 = st_mem st1"
    "\<forall>h. h \<noteq> v \<longrightarrow> buf st2 h = buf st1 h" by auto
  have e2: "reader st2 e ea en (eo + 16)" using st1(2) st2(4) Cons.prems(3) by (simp add: reader_def)
  let ?l = "l\<lparr>cl_controls := cl_controls l @ [(cid, val)]\<rparr>"
  have ins: "ControlList_set junk l cid val = Some ?l"
    using Cons.prems(8,9) set(1) by (intro ControlList_set_fresh) (auto simp: x)
  have entry: "bytes_value_entry (mem_read (st_mem st1) (ea + of_nat eo) 16)
      = \<lparr>ve_id = cid, ve_type = of_nat (ControlType_code (cv_type val)),
         ve_is_array = (if cv_isArray val then 1 else 0), ve_count = ucast (cv_numElements val),
         ve_offset = of_nat vo\<rparr>"
    using mem(1) st1(3) by (simp add: holds_def x value_entry_at_def)
  have go: "deserialize_values_loop junk e v (length (x # xs)) l st
      = deserialize_values_loop junk e v (length xs) ?l st2"
    using reader_offset [OF v1 Cons.prems(4)] st2(1) ins
    by (cases "cv_isArray val") (simp_all add: st1(1) entry Let_def unat_type_code)
  have "\<exists>st'. deserialize_values_loop junk e v (length xs) ?l st2
      = Some (st', Inr (?l\<lparr>cl_controls := cl_controls ?l @ xs\<rparr>))"
    using Cons.prems mem st1(3) st2(3)
    by (intro Cons.IH [OF e2 st2(2)])
      (auto simp: x list_writable_def values_size_def binarySize_value_def)
  then show ?case unfolding go by (simp add: x)
qed

lemma carve_two_readers:
  assumes w: "reader st i a n 32" "32 + k + j \<le> n" "i < st_next st"
  shows "\<exists>st1 st2 e v. carveOut st i (of_nat k) = (st1, e) \<and> carveOut st1 i (of_nat j) = (st2, v) \<and>
      reader st2 e (a + of_nat 32) k 0 \<and> reader st2 v (a + of_nat 32 + of_nat k) j 0 \<and>
      reader st2 i a n (32 + k + j) \<and> e \<noteq> v \<and> i \<noteq> e \<and> i \<noteq> v \<and> st_mem st2 = st_mem st"
proof -
  obtain st1 where st1: "carveOut st i (of_nat k) = (st1, st_next st)" "reader st1 i a n (32 + k)"
    "reader st1 (st_next st) (a + of_nat 32) k 0" "st_mem st1 = st_mem st"
    "st_next st1 = Suc (st_next st)"
    using carveOut_reader [OF w(1), of k] w(2,3) by auto
  obtain st2 where st2: "carveOut st1 i (of_nat j) = (st2, Suc (st_next st))"
    "reader st2 i a n (32 + k + j)" "reader st2 (Suc (st_next st)) (a + of_nat (32 + k)) j 0"
    "st_mem st2 = st_mem st1"
    "\<forall>h. h \<noteq> i \<longrightarrow> h \<noteq> Suc (st_next st) \<longrightarrow> buf st2 h = buf st1 h"
    using carveOut_reader [OF st1(2), of j] w(2,3) st1(5) by auto
  have "reader st2 (st_next st) (a + of_nat 32) k 0"
    using st1(3) st2(5) w(3) by (simp add: reader_def)
  with st1 st2 w(3) show ?thesis by (auto simp: add.assoc)
qed

text \<open>The sizes the deserializer computes from the header are those of the two areas.\<close>

lemma header_areas:
  assumes "32 + k + j < 2 ^ 32"
  shows "ucast (of_nat (32 + k) :: u32) - 32 = (of_nat k :: u64)"
    and "ucast ((of_nat (32 + k + j) :: u32) - of_nat (32 + k)) = (of_nat j :: u64)"
proof -
  have uc: "ucast (of_nat m :: u32) = (of_nat m :: u64)" if "m < 2 ^ 32" for m
    using that by (intro unat_eqI) (simp add: unsigned_ucast_eq unsigned_of_nat take_bit_nat_eq_self)
  show "ucast (of_nat (32 + k) :: u32) - 32 = (of_nat k :: u64)"
    using assms uc [of "32 + k"] by simp
  have "(of_nat (32 + k + j) :: u32) - of_nat (32 + k) = of_nat j" by simp
  then show "ucast ((of_nat (32 + k + j) :: u32) - of_nat (32 + k)) = (of_nat j :: u64)"
    using assms uc [of j] by simp
qed

lemma deserialize_list_reads:
  assumes r: "reader st i a n 0" "i < st_next st"
    and fits: "32 + length xs * 16 + values_size xs \<le> n" "n < 2 ^ 32"
    and mem: "holds (st_mem st) a (list_packet wjunk h xs)" and xs: "list_writable xs"
    and h: "h = 0 \<or> (\<exists>ptr. (ptr, h) \<in> set (cs_infoMapHandles cs))"
  shows "\<exists>st' l. deserialize_list junk globals mapAt cs st i = Some (st', l) \<and> cl_controls l = xs"
proof -
  let ?k = "length xs * 16" and ?j = "values_size xs"
  let ?hdr = "\<lparr>hdr_version = IPA_CONTROLS_FORMAT_VERSION, hdr_handle = h,
       hdr_entries = of_nat (length xs), hdr_size = of_nat (32 + ?k + ?j),
       hdr_data_offset = of_nat (32 + ?k)\<rparr>"
  obtain st0 where st0: "read_ptr st i 32 1 = (st0, Some a)" "reader st0 i a n 32"
    "st_mem st0 = st_mem st" "st_next st0 = st_next st"
    using read_ptr_reader [OF r(1), of 32] fits by auto
  have parts: "holds (st_mem st) a (header_bytes wjunk ?hdr)"
    "holds (st_mem st) (a + of_nat 32) (layout (value_entry_at wjunk) value_bytes 0 xs)"
    "holds (st_mem st) (a + of_nat 32 + of_nat ?k) (concat (map value_bytes xs))"
    using mem by (simp_all add: list_packet_def holds_append length_layout mult.commute)
  have hdr: "bytes_header (mem_read (st_mem st0) a 32) = ?hdr"
    using parts(1) st0(3) by (simp add: holds_def)
  obtain st1 st2 e v where c: "carveOut st0 i (of_nat ?k) = (st1, e)"
    "carveOut st1 i (of_nat ?j) = (st2, v)" "reader st2 e (a + of_nat 32) ?k 0"
    "reader st2 v (a + of_nat 32 + of_nat ?k) ?j 0" "reader st2 i a n (32 + ?k + ?j)" "e \<noteq> v"
    "st_mem st2 = st_mem st0"
    using carve_two_readers [OF st0(2), of ?k ?j] fits r(2) st0(4) by auto
  have areas: "ucast (of_nat (32 + ?k) :: u32) - 32 = (of_nat ?k :: u64)"
    "ucast ((of_nat (32 + ?k + ?j) :: u32) - of_nat (32 + ?k)) = (of_nat ?j :: u64)"
    using header_areas [of ?k ?j] fits by simp_all
  have ok: "bs_overflow (buf st2 i) = False" using c(5) by (auto simp: reader_def)
  have n: "unat (of_nat (length xs) :: u32) = length xs"
    using fits by (intro unat_of_nat_u32) simp
  have "\<exists>st'. deserialize_values_loop junk e v (length xs) l st2
      = Some (st', Inr (l\<lparr>cl_controls := cl_controls l @ xs\<rparr>))"
    if "cl_validator l = None" "cl_controls l = []" for l
    using that fits c(7) st0(3) parts(2,3) xs
    by (intro deserialize_values_loop_reads [OF c(3,4,6)]) auto
  from this [of "ControlList_of_idmap idmap None" for idmap] have loop: "\<exists>st'. deserialize_values_loop junk e v (length xs) (ControlList_of_idmap idmap None) st2
      = Some (st', Inr ((ControlList_of_idmap idmap None)\<lparr>cl_controls := xs\<rparr>))" for idmap
    by (simp add: ControlList_of_idmap_def)
  have "\<exists>idmap. (if h \<noteq> 0 then map_option (\<lambda>(ptr, h). im_idmap (mapAt ptr))
      (find (\<lambda>(ptr, h'). h' = h) (cs_infoMapHandles cs)) else Some globals) = Some idmap"
    using h by (cases "find (\<lambda>(ptr, h'). h' = h) (cs_infoMapHandles cs)")
      (auto simp: find_None_iff split: if_splits)
  then obtain idmap where idmap: "(if h \<noteq> 0 then map_option (\<lambda>(ptr, h). im_idmap (mapAt ptr))
      (find (\<lambda>(ptr, h'). h' = h) (cs_infoMapHandles cs)) else Some globals) = Some idmap" ..
  obtain st' where "deserialize_values_loop junk e v (length xs) (ControlList_of_idmap idmap None) st2
      = Some (st', Inr ((ControlList_of_idmap idmap None)\<lparr>cl_controls := xs\<rparr>))"
    using loop by blast
  then have "deserialize_list junk globals mapAt cs st i
      = Some (st', (ControlList_of_idmap idmap None)\<lparr>cl_controls := xs\<rparr>)"
    unfolding deserialize_list_def Let_def
    by (simp only: st0(1) prod.case option.case hdr ipa_controls_header.simps areas c(1,2) ok if_False
        not_True_eq_False idmap n sum.case simp_thms if_True)
  then show ?thesis by simp
qed

section \<open>Properties\<close>


definition example_list :: ControlList where
  "example_list = ControlList_new\<lparr>cl_controls :=
     [(7, \<lparr>cv_type = ControlTypeByte, cv_isArray = True, cv_numElements = 3, cv_data = [1, 2, 3]\<rparr>),
      (2, \<lparr>cv_type = ControlTypeInteger32, cv_isArray = False, cv_numElements = 1,
           cv_data = [5, 0, 0, 0]\<rparr>)]\<rparr>"

definition example_cs :: ControlSerializer where
  "example_cs = \<lparr>cs_serial = 0, cs_controlIds = [], cs_infoMaps = [], cs_infoMapHandles = [],
     cs_next_ptr = 0\<rparr>"


end
