(* ===== verification/Streams.thy ===== *)
theory Streams
  imports Prelude Geometry
begin

text \<open>
  Stream formats and configurations: \<open>pixel_format.h\<close>, \<open>pixel_format.cpp\<close> (without the names, which
  come from the format table), \<open>stream.h\<close> and \<open>stream.cpp\<close>. A map from pixel formats to size ranges
  is a list sorted by the code's ordering of pixel formats, which is made the type's linear order.
\<close>

section \<open>Pixel formats\<close>

datatype PixelFormat = PixelFormat (pf_fourcc: u32) (pf_modifier: u64)

definition PixelFormat_lt :: "PixelFormat \<Rightarrow> PixelFormat \<Rightarrow> bool" where
  "PixelFormat_lt a b =
     (if pf_fourcc a < pf_fourcc b then True
      else if pf_fourcc a > pf_fourcc b then False
      else pf_modifier a < pf_modifier b)"

definition PixelFormat_isValid :: "PixelFormat \<Rightarrow> bool" where
  "PixelFormat_isValid p \<longleftrightarrow> pf_fourcc p \<noteq> 0"

instantiation PixelFormat :: linorder
begin

definition less_PixelFormat :: "PixelFormat \<Rightarrow> PixelFormat \<Rightarrow> bool" where
  "less_PixelFormat a b \<longleftrightarrow> PixelFormat_lt a b"

definition less_eq_PixelFormat :: "PixelFormat \<Rightarrow> PixelFormat \<Rightarrow> bool" where
  "less_eq_PixelFormat a b \<longleftrightarrow> PixelFormat_lt a b \<or> a = b"

instance
  by standard (auto simp: less_PixelFormat_def less_eq_PixelFormat_def PixelFormat_lt_def
      intro: PixelFormat.expand split: if_splits)

end

section \<open>The order of sizes\<close>

interpretation size_order: strict_weak_order Size_lt
  by unfold_locales (auto simp: Size_lt_lex_aux)

section \<open>Stream formats\<close>

type_synonym StreamFormats = "(PixelFormat \<times> SizeRange list) list"

definition StreamFormats_pixelformats :: "StreamFormats \<Rightarrow> PixelFormat list" where
  "StreamFormats_pixelformats formats = map fst formats"

definition rangeDiscreteSizes :: "Size list" where
  "rangeDiscreteSizes =
     [mk_Size 160 120, mk_Size 240 160, mk_Size 320 240, mk_Size 400 240, mk_Size 480 320,
      mk_Size 640 360, mk_Size 640 480, mk_Size 720 480, mk_Size 720 576, mk_Size 768 480,
      mk_Size 800 600, mk_Size 854 480, mk_Size 960 540, mk_Size 960 640, mk_Size 1024 576,
      mk_Size 1024 600, mk_Size 1024 768, mk_Size 1152 864, mk_Size 1280 1024, mk_Size 1280 1080,
      mk_Size 1280 720, mk_Size 1280 800, mk_Size 1360 768, mk_Size 1366 768, mk_Size 1400 1050,
      mk_Size 1440 900, mk_Size 1536 864, mk_Size 1600 1200, mk_Size 1600 900, mk_Size 1680 1050,
      mk_Size 1920 1080, mk_Size 1920 1200, mk_Size 2048 1080, mk_Size 2048 1152,
      mk_Size 2048 1536, mk_Size 2160 1080, mk_Size 2560 1080, mk_Size 2560 1440,
      mk_Size 2560 1600, mk_Size 2560 2048, mk_Size 2960 1440, mk_Size 3200 1800,
      mk_Size 3200 2048, mk_Size 3200 2400, mk_Size 3440 1440, mk_Size 3840 1080,
      mk_Size 3840 1600, mk_Size 3840 2160, mk_Size 3840 2400, mk_Size 4096 2160,
      mk_Size 5120 2160, mk_Size 5120 2880, mk_Size 7680 4320]"

text \<open>The first loop collects the sizes and stops at the first range that is not one size.\<close>

fun discrete_sizes :: "SizeRange list \<Rightarrow> Size list \<Rightarrow> bool \<times> Size list" where
  "discrete_sizes [] sizes = (True, sizes)"
| "discrete_sizes (rng # ranges) sizes =
     (if sr_min rng \<noteq> sr_max rng then (False, sizes)
      else discrete_sizes ranges (sizes @ [sr_min rng]))"

definition StreamFormats_sizes :: "StreamFormats \<Rightarrow> PixelFormat \<Rightarrow> Size list" where
  "StreamFormats_sizes formats pixelformat =
     (case map_of formats pixelformat of
        None \<Rightarrow> []
      | Some ranges \<Rightarrow>
          let (discrete, sizes) = discrete_sizes ranges [] in
          if \<not> discrete then
            (if length ranges \<noteq> 1 then []
             else
               let limit = hd ranges;
                   sizes = filter (SizeRange_contains limit) rangeDiscreteSizes
               in sort_by Size_lt sizes)
          else sort_by Size_lt sizes)"

definition SizeRange_empty :: SizeRange where
  "SizeRange_empty = \<lparr>sr_min = mk_Size 0 0, sr_max = mk_Size 0 0, sr_hStep = 0, sr_vStep = 0\<rparr>"

definition extend_range :: "SizeRange \<Rightarrow> SizeRange \<Rightarrow> SizeRange" where
  "extend_range rng limit =
     (let rng = (if Size_lt (sr_min limit) (sr_min rng)
                   then rng\<lparr>sr_min := sr_min limit\<rparr> else rng)
      in if Size_gt (sr_max limit) (sr_max rng)
         then rng\<lparr>sr_max := sr_max limit\<rparr> else rng)"

definition StreamFormats_range :: "StreamFormats \<Rightarrow> PixelFormat \<Rightarrow> SizeRange" where
  "StreamFormats_range formats pixelformat =
     (case map_of formats pixelformat of
        None \<Rightarrow> SizeRange_empty
      | Some ranges \<Rightarrow>
          if length ranges = 1 then ranges ! 0
          else
            let rng = \<lparr>sr_min = mk_Size (- 1) (- 1), sr_max = mk_Size 0 0,
                         sr_hStep = 1, sr_vStep = 1\<rparr>;
                rng = foldl extend_range rng ranges
            in rng\<lparr>sr_hStep := 0, sr_vStep := 0\<rparr>)"

section \<open>Stream configurations\<close>

datatype StreamRole = Raw | StillCapture | VideoRecording | Viewfinder

record StreamConfiguration =
  sc_pixelFormat :: PixelFormat
  sc_size :: Size
  sc_stride :: u32
  sc_frameSize :: u32
  sc_bufferCount :: u32
  sc_stream :: "nat option"
  sc_formats :: StreamFormats

definition StreamConfiguration_new :: "StreamFormats \<Rightarrow> StreamConfiguration" where
  "StreamConfiguration_new formats =
     \<lparr>sc_pixelFormat = PixelFormat 0 0, sc_size = mk_Size 0 0, sc_stride = 0, sc_frameSize = 0,
      sc_bufferCount = 0, sc_stream = None, sc_formats = formats\<rparr>"

definition StreamConfiguration_setStream ::
    "StreamConfiguration \<Rightarrow> nat option \<Rightarrow> StreamConfiguration" where
  "StreamConfiguration_setStream cfg stream = cfg\<lparr>sc_stream := stream\<rparr>"

section \<open>Lemmas\<close>

lemma discrete_sizes_eq:
  "discrete_sizes ranges sizes =
     (if \<forall>r \<in> set ranges. sr_min r = sr_max r then (True, sizes @ map sr_min ranges)
      else (False, sizes @ map sr_min (takeWhile (\<lambda>r. sr_min r = sr_max r) ranges)))"
  by (induction ranges sizes rule: discrete_sizes.induct) auto

lemma foldl_extend_range_min:
  "(sr_min (foldl extend_range r rs) \<in> insert (sr_min r) (sr_min ` set rs)) \<and>
   (\<forall>x \<in> insert r (set rs). \<not> Size_lt (sr_min x) (sr_min (foldl extend_range r rs)))"
proof (induction rs arbitrary: r)
  case Nil
  then show ?case by (simp add: size_order.irrefl)
next
  case (Cons l rs)
  let ?r = "extend_range r l"
  have m: "sr_min ?r = (if Size_lt (sr_min l) (sr_min r) then sr_min l else sr_min r)"
    by (simp add: extend_range_def Let_def)
  have "\<not> Size_lt (sr_min x) (sr_min (foldl extend_range ?r rs))" if "x = r \<or> x = l" for x
    using that Cons [of ?r] m size_order.co_trans [of "sr_min x" "sr_min (foldl extend_range ?r rs)" "sr_min ?r"]
    by (auto simp: size_order.irrefl dest: size_order.asym split: if_splits)
  with Cons [of ?r] m show ?case by auto
qed

section \<open>Properties\<close>

text \<open>
  The sizes listed for a pixel format are in increasing order, and they are exactly the sizes
  of the format's ranges when every range is a single size, the standard sizes within the range
  when there is one proper range, and none when a proper range is mixed with others.
\<close>

theorem StreamFormats_sizes_sorted_exact:
  assumes "map_of formats p = Some ranges"
  shows "size_order.in_order (StreamFormats_sizes formats p) \<and>
    (if \<forall>r \<in> set ranges. sr_min r = sr_max r
     then set (StreamFormats_sizes formats p) = sr_min ` set ranges \<and>
          length (StreamFormats_sizes formats p) = length ranges
     else if length ranges = 1
     then set (StreamFormats_sizes formats p)
            = {s \<in> set rangeDiscreteSizes. SizeRange_contains (hd ranges) s}
     else StreamFormats_sizes formats p = [])"
  using assms size_order.in_order_sort_by
  by (auto simp: StreamFormats_sizes_def discrete_sizes_eq Let_def size_order.in_order_def)

theorem StreamFormats_sizes_sorted_exact_witness:
  "mk_Size 640 480 \<in> set (StreamFormats_sizes
      [(PixelFormat 1 0, [\<lparr>sr_min = mk_Size 320 240, sr_max = mk_Size 640 480,
                          sr_hStep = 1, sr_vStep = 1\<rparr>])] (PixelFormat 1 0))"
  using StreamFormats_sizes_sorted_exact [of
      "[(PixelFormat 1 0, [\<lparr>sr_min = mk_Size 320 240, sr_max = mk_Size 640 480,
                          sr_hStep = 1, sr_vStep = 1\<rparr>])]" "PixelFormat 1 0"
      "[\<lparr>sr_min = mk_Size 320 240, sr_max = mk_Size 640 480, sr_hStep = 1, sr_vStep = 1\<rparr>]"]
  by (simp add: rangeDiscreteSizes_def SizeRange_contains_def)

end
