(* ===== verification/Requests.thy ===== *)
theory Requests
  imports Prelude Controls
begin

text \<open>
  Frame buffers (\<open>include/libcamera/buffer.h\<close>) and capture requests (\<open>include/libcamera/request.h\<close>,
  \<open>src/libcamera/request.cpp\<close>). Both are objects that others hold pointers to and that change in
  place, so they live in a heap; a pointer is a number and the null pointer is \<open>None\<close>. The heap is
  total: a pointer the code dereferences designates a live object. The set of pending buffers is a
  set, the map from streams to buffers a list sorted by stream. An assertion that fails is \<open>None\<close>.
\<close>

section \<open>Buffers and requests\<close>

datatype FrameStatus = FrameSuccess | FrameError | FrameCancelled

record FrameMetadata =
  md_status :: FrameStatus
  md_sequence :: u32
  md_timestamp :: u64
  md_planes :: "u32 list"

record Plane =
  pl_fd :: i32
  pl_length :: u32

record FrameBuffer =
  fb_planes :: "Plane list"
  fb_request :: "nat option"
  fb_metadata :: FrameMetadata
  fb_cookie :: u32

datatype RequestStatus = RequestPending | RequestComplete | RequestCancelled

record Request =
  rq_camera :: nat
  rq_controls :: ControlList
  rq_metadata :: ControlList
  rq_bufferMap :: "(nat \<times> nat) list"
  rq_pending :: "nat set"
  rq_sequence :: u32
  rq_cookie :: u64
  rq_status :: RequestStatus
  rq_cancelled :: bool

record heap =
  h_bufs :: "nat \<Rightarrow> FrameBuffer"
  h_reqs :: "nat \<Rightarrow> Request"

definition upd_buf :: "'a heap_scheme \<Rightarrow> nat \<Rightarrow> (FrameBuffer \<Rightarrow> FrameBuffer) \<Rightarrow> 'a heap_scheme" where
  "upd_buf h b f = h\<lparr>h_bufs := (h_bufs h)(b := f (h_bufs h b))\<rparr>"

definition upd_req :: "'a heap_scheme \<Rightarrow> nat \<Rightarrow> (Request \<Rightarrow> Request) \<Rightarrow> 'a heap_scheme" where
  "upd_req h r f = h\<lparr>h_reqs := (h_reqs h)(r := f (h_reqs h r))\<rparr>"

lemma upd_simps [simp]:
  "h_reqs (upd_buf h b f) = h_reqs h"
  "h_bufs (upd_req h r g) = h_bufs h"
  "h_bufs (upd_buf h b f) b' = (if b' = b then f (h_bufs h b) else h_bufs h b')"
  "h_reqs (upd_req h r g) r' = (if r' = r then g (h_reqs h r) else h_reqs h r')"
  by (simp_all add: upd_buf_def upd_req_def)

definition FrameBuffer_setRequest :: "'a heap_scheme \<Rightarrow> nat \<Rightarrow> nat option \<Rightarrow> 'a heap_scheme" where
  "FrameBuffer_setRequest h b request = upd_buf h b (\<lambda>fb. fb\<lparr>fb_request := request\<rparr>)"

lemma setRequest_simps [simp]:
  "h_reqs (FrameBuffer_setRequest h b rq) = h_reqs h"
  "fb_metadata (h_bufs (FrameBuffer_setRequest h b rq) b') = fb_metadata (h_bufs h b')"
  "fb_planes (h_bufs (FrameBuffer_setRequest h b rq) b') = fb_planes (h_bufs h b')"
  "fb_request (h_bufs (FrameBuffer_setRequest h b rq) b')
     = (if b' = b then rq else fb_request (h_bufs h b'))"
  by (simp_all add: FrameBuffer_setRequest_def)

section \<open>Operations\<close>

definition Request_new ::
    "(u32 \<times> ControlId) list \<Rightarrow> (nat \<Rightarrow> u32 \<Rightarrow> bool) \<Rightarrow> nat \<Rightarrow> u64 \<Rightarrow> Request" where
  "Request_new globalControls validator camera cookie =
     \<lparr>rq_camera = camera,
      rq_controls = ControlList_of_idmap globalControls (Some (validator camera)),
      rq_metadata = ControlList_of_idmap globalControls None,
      rq_bufferMap = [], rq_pending = {}, rq_sequence = 0, rq_cookie = cookie,
      rq_status = RequestPending, rq_cancelled = False\<rparr>"

definition hasPendingBuffers :: "Request \<Rightarrow> bool" where
  "hasPendingBuffers rq \<longleftrightarrow> rq_pending rq \<noteq> {}"

fun reuse_buffers :: "nat \<Rightarrow> (nat \<times> nat) list \<Rightarrow> 'a heap_scheme \<Rightarrow> 'a heap_scheme" where
  "reuse_buffers r [] h = h"
| "reuse_buffers r ((stream, b) # rest) h =
     reuse_buffers r rest
       (upd_req (FrameBuffer_setRequest h b (Some r)) r
          (\<lambda>rq. rq\<lparr>rq_pending := insert b (rq_pending rq)\<rparr>))"

definition Request_reuse :: "'a heap_scheme \<Rightarrow> nat \<Rightarrow> bool \<Rightarrow> 'a heap_scheme" where
  "Request_reuse h r reuseBuffers =
     (let h = upd_req h r (\<lambda>rq. rq\<lparr>rq_pending := {}\<rparr>);
          h = (if reuseBuffers then reuse_buffers r (rq_bufferMap (h_reqs h r)) h
               else upd_req h r (\<lambda>rq. rq\<lparr>rq_bufferMap := []\<rparr>))
      in upd_req h r (\<lambda>rq. rq\<lparr>rq_sequence := 0, rq_status := RequestPending,
           rq_cancelled := False, rq_controls := ControlList_clear (rq_controls rq),
           rq_metadata := ControlList_clear (rq_metadata rq)\<rparr>))"

definition Request_addBuffer ::
    "'a heap_scheme \<Rightarrow> nat \<Rightarrow> nat option \<Rightarrow> nat \<Rightarrow> 'a heap_scheme \<times> errno option" where
  "Request_addBuffer h r stream b =
     (case stream of
        None \<Rightarrow> (h, Some EINVAL)
      | Some s \<Rightarrow>
          if map_of (rq_bufferMap (h_reqs h r)) s \<noteq> None then (h, Some EEXIST)
          else
            (upd_req (FrameBuffer_setRequest h b (Some r)) r
               (\<lambda>rq. rq\<lparr>rq_pending := insert b (rq_pending rq),
                        rq_bufferMap := map_insert s b (rq_bufferMap rq)\<rparr>),
             None))"

definition Request_findBuffer :: "'a heap_scheme \<Rightarrow> nat \<Rightarrow> nat \<Rightarrow> nat option" where
  "Request_findBuffer h r stream = map_of (rq_bufferMap (h_reqs h r)) stream"

definition Request_complete :: "'a heap_scheme \<Rightarrow> nat \<Rightarrow> 'a heap_scheme option" where
  "Request_complete h r =
     (let rq = h_reqs h r in
      if rq_status rq \<noteq> RequestPending then None
      else if hasPendingBuffers rq then None
      else Some (upd_req h r (\<lambda>rq. rq\<lparr>rq_status :=
             (if rq_cancelled rq then RequestCancelled else RequestComplete)\<rparr>)))"

definition Request_completeBuffer :: "'a heap_scheme \<Rightarrow> nat \<Rightarrow> nat \<Rightarrow> ('a heap_scheme \<times> bool) option" where
  "Request_completeBuffer h r b =
     (if b \<notin> rq_pending (h_reqs h r) then None
      else
        let h = upd_req h r (\<lambda>rq. rq\<lparr>rq_pending := rq_pending rq - {b}\<rparr>);
            h = FrameBuffer_setRequest h b None;
            h = (if md_status (fb_metadata (h_bufs h b)) = FrameCancelled
                 then upd_req h r (\<lambda>rq. rq\<lparr>rq_cancelled := True\<rparr>) else h)
        in Some (h, \<not> hasPendingBuffers (h_reqs h r)))"

section \<open>Lemmas\<close>

text \<open>Completing a list of buffers one after the other; the flags are what each call returned.\<close>

fun completeBuffers :: "'a heap_scheme \<Rightarrow> nat \<Rightarrow> nat list \<Rightarrow> ('a heap_scheme \<times> bool list) option" where
  "completeBuffers h r [] = Some (h, [])"
| "completeBuffers h r (b # bs) =
     (case Request_completeBuffer h r b of
        None \<Rightarrow> None
      | Some (h', fin) \<Rightarrow>
          (case completeBuffers h' r bs of
             None \<Rightarrow> None
           | Some (h'', flags) \<Rightarrow> Some (h'', fin # flags)))"

definition buffer_cancelled :: "'a heap_scheme \<Rightarrow> nat \<Rightarrow> bool" where
  "buffer_cancelled h b \<longleftrightarrow> md_status (fb_metadata (h_bufs h b)) = FrameCancelled"

lemma completeBuffer_Some:
  assumes "b \<in> rq_pending (h_reqs h r)"
  shows "\<exists>h'. Request_completeBuffer h r b = Some (h', rq_pending (h_reqs h r) - {b} = {}) \<and>
    h_reqs h' r = (h_reqs h r)\<lparr>rq_pending := rq_pending (h_reqs h r) - {b},
       rq_cancelled := rq_cancelled (h_reqs h r) \<or> buffer_cancelled h b\<rparr> \<and>
    (\<forall>r'. r' \<noteq> r \<longrightarrow> h_reqs h' r' = h_reqs h r') \<and>
    (\<forall>b'. h_bufs h' b' = (if b' = b then (h_bufs h b)\<lparr>fb_request := None\<rparr> else h_bufs h b'))"
  using assms
  by (auto simp: Request_completeBuffer_def buffer_cancelled_def hasPendingBuffers_def Let_def
      FrameBuffer_setRequest_def)

lemma completeBuffer_None: "b \<notin> rq_pending (h_reqs h r) \<Longrightarrow> Request_completeBuffer h r b = None"
  by (simp add: Request_completeBuffer_def)

lemma completeBuffers_all:
  assumes "distinct bs" "set bs = rq_pending (h_reqs h r)"
  shows "\<exists>h'. completeBuffers h r bs
        = Some (h', map (\<lambda>i. Suc i = length bs) [0..<length bs]) \<and>
    h_reqs h' r = (h_reqs h r)\<lparr>rq_pending := {},
       rq_cancelled := rq_cancelled (h_reqs h r) \<or> (\<exists>b \<in> set bs. buffer_cancelled h b)\<rparr> \<and>
    (\<forall>r'. r' \<noteq> r \<longrightarrow> h_reqs h' r' = h_reqs h r') \<and>
    (\<forall>b. h_bufs h' b = (if b \<in> set bs then (h_bufs h b)\<lparr>fb_request := None\<rparr> else h_bufs h b))"
  using assms
proof (induction bs arbitrary: h)
  case Nil
  then show ?case by simp
next
  case (Cons b bs)
  let ?p = "rq_pending (h_reqs h r)"
  have b: "b \<in> ?p" "?p - {b} = set bs" using Cons.prems by auto
  obtain h1 where h1: "Request_completeBuffer h r b = Some (h1, ?p - {b} = {})"
    "h_reqs h1 r = (h_reqs h r)\<lparr>rq_pending := ?p - {b},
       rq_cancelled := rq_cancelled (h_reqs h r) \<or> buffer_cancelled h b\<rparr>"
    "\<forall>r'. r' \<noteq> r \<longrightarrow> h_reqs h1 r' = h_reqs h r'"
    "\<forall>b'. h_bufs h1 b' = (if b' = b then (h_bufs h b)\<lparr>fb_request := None\<rparr> else h_bufs h b')"
    using completeBuffer_Some [OF b(1)] by blast
  have canc: "buffer_cancelled h1 b' = buffer_cancelled h b'" for b'
    using h1(4) by (auto simp: buffer_cancelled_def)
  have "distinct bs" "set bs = rq_pending (h_reqs h1 r)" using Cons.prems b(2) h1(2) by simp_all
  from Cons.IH [OF this] obtain h2 where h2:
    "completeBuffers h1 r bs = Some (h2, map (\<lambda>i. Suc i = length bs) [0..<length bs])"
    "h_reqs h2 r = (h_reqs h1 r)\<lparr>rq_pending := {},
       rq_cancelled := rq_cancelled (h_reqs h1 r) \<or> (\<exists>b \<in> set bs. buffer_cancelled h1 b)\<rparr>"
    "\<forall>r'. r' \<noteq> r \<longrightarrow> h_reqs h2 r' = h_reqs h1 r'"
    "\<forall>b. h_bufs h2 b = (if b \<in> set bs then (h_bufs h1 b)\<lparr>fb_request := None\<rparr> else h_bufs h1 b)"
    by blast
  have flags: "(?p - {b} = {}) # map (\<lambda>i. Suc i = length bs) [0..<length bs]
      = map (\<lambda>i. Suc i = length (b # bs)) [0..<length (b # bs)]"
    unfolding b(2) by (simp add: upt_conv_Cons map_Suc_upt [symmetric] del: upt_Suc)
  have eq: "completeBuffers h r (b # bs)
      = Some (h2, map (\<lambda>i. Suc i = length (b # bs)) [0..<length (b # bs)])"
    by (simp only: completeBuffers.simps h1(1) h2(1) option.case prod.case flags)
  have bufs: "\<forall>c. h_bufs h2 c
      = (if c \<in> set (b # bs) then (h_bufs h c)\<lparr>fb_request := None\<rparr> else h_bufs h c)"
    using h2(4) h1(4) Cons.prems(1) by auto
  show ?case
    using h1(2,3) h2(2,3) canc by (intro exI [of _ h2] conjI eq bufs) auto
qed

lemma reuse_buffers_eq:
  "h_reqs (reuse_buffers r bs h) r
     = (h_reqs h r)\<lparr>rq_pending := rq_pending (h_reqs h r) \<union> snd ` set bs\<rparr> \<and>
   (\<forall>r'. r' \<noteq> r \<longrightarrow> h_reqs (reuse_buffers r bs h) r' = h_reqs h r') \<and>
   (\<forall>b. h_bufs (reuse_buffers r bs h) b
     = (if b \<in> snd ` set bs then (h_bufs h b)\<lparr>fb_request := Some r\<rparr> else h_bufs h b))"
  by (induction r bs h rule: reuse_buffers.induct) (auto simp: FrameBuffer_setRequest_def)

section \<open>Well-formed requests\<close>

text \<open>
  A request is well formed when its buffer map is a map, the pending buffers are in it and point
  back to the request.
\<close>

definition request_ok :: "'a heap_scheme \<Rightarrow> nat \<Rightarrow> bool" where
  "request_ok h r \<longleftrightarrow>
     map_ok (rq_bufferMap (h_reqs h r)) \<and>
     rq_pending (h_reqs h r) \<subseteq> snd ` set (rq_bufferMap (h_reqs h r)) \<and>
     (\<forall>b \<in> rq_pending (h_reqs h r). fb_request (h_bufs h b) = Some r)"

lemma snd_set_map_insert:
  "map_of m k = None \<Longrightarrow> snd ` set (map_insert k v m) = insert v (snd ` set m)"
  by (induction k v m rule: map_insert.induct) (auto split: if_splits)

lemma request_ok_addBuffer:
  "request_ok h r \<Longrightarrow> request_ok (fst (Request_addBuffer h r stream b)) r"
  by (auto simp: request_ok_def Request_addBuffer_def snd_set_map_insert split: option.splits)

lemma request_ok_completeBuffer:
  "request_ok h r \<Longrightarrow> Request_completeBuffer h r b = Some (h', fin) \<Longrightarrow> request_ok h' r"
  by (auto simp: request_ok_def Request_completeBuffer_def Let_def split: if_splits)

lemma request_ok_reuse: "request_ok h r \<Longrightarrow> request_ok (Request_reuse h r flag) r"
  using reuse_buffers_eq [of r "rq_bufferMap (h_reqs h r)" "upd_req h r (\<lambda>rq. rq\<lparr>rq_pending := {}\<rparr>)"]
  by (auto simp: request_ok_def Request_reuse_def Let_def)

definition example_reuse :: heap where
  "example_reuse =
     \<lparr>h_bufs = \<lambda>_. \<lparr>fb_planes = [], fb_request = None,
        fb_metadata = \<lparr>md_status = FrameSuccess, md_sequence = 0, md_timestamp = 0, md_planes = []\<rparr>, fb_cookie = 0\<rparr>, h_reqs = \<lambda>_. (Request_new [] (\<lambda>_ _. True) 0 7)
        \<lparr>rq_bufferMap := [(0, 4), (1, 6)], rq_status := RequestComplete\<rparr>\<rparr>"

section \<open>Properties\<close>

text \<open>
  C20. A pending request whose buffers are completed one by one, in any order, is reported finished
  by the last completion and by no earlier one; completing the request is then allowed and its
  status is cancelled exactly when it was cancelled before or one of the buffers was, and every
  buffer is detached from the request.
\<close>

theorem Request_complete_any_order:
  assumes "rq_status (h_reqs h r) = RequestPending"
    and "distinct bs" "set bs = rq_pending (h_reqs h r)"
  shows "\<exists>h1 h2. completeBuffers h r bs
        = Some (h1, map (\<lambda>i. Suc i = length bs) [0..<length bs]) \<and>
      Request_complete h1 r = Some h2 \<and>
      rq_status (h_reqs h2 r)
        = (if rq_cancelled (h_reqs h r) \<or> (\<exists>b \<in> set bs. md_status (fb_metadata (h_bufs h b)) = FrameCancelled)
           then RequestCancelled else RequestComplete) \<and>
      (\<forall>b \<in> set bs. fb_request (h_bufs h2 b) = None)"
proof -
  obtain h1 where h1: "completeBuffers h r bs
        = Some (h1, map (\<lambda>i. Suc i = length bs) [0..<length bs])"
    "h_reqs h1 r = (h_reqs h r)\<lparr>rq_pending := {},
       rq_cancelled := rq_cancelled (h_reqs h r) \<or> (\<exists>b \<in> set bs. buffer_cancelled h b)\<rparr>"
    "\<forall>b. h_bufs h1 b = (if b \<in> set bs then (h_bufs h b)\<lparr>fb_request := None\<rparr> else h_bufs h b)"
    using completeBuffers_all [OF assms(2,3)] by blast
  have "Request_complete h1 r = Some (upd_req h1 r (\<lambda>rq. rq\<lparr>rq_status :=
      (if rq_cancelled rq then RequestCancelled else RequestComplete)\<rparr>))"
    using assms(1) h1(2) by (simp add: Request_complete_def hasPendingBuffers_def Let_def)
  with h1 show ?thesis by (auto simp: buffer_cancelled_def)
qed

theorem Request_complete_any_order_witness:
  "\<exists>(h :: heap) r bs h1. length bs = 1 \<and> completeBuffers h r bs = Some (h1, [True]) \<and>
     (\<exists>h2. Request_complete h1 r = Some h2 \<and> rq_status (h_reqs h2 r) = RequestCancelled)"
proof -
  define rq :: Request where "rq = (Request_new [] (\<lambda>_ _. True) 0 7)
      \<lparr>rq_bufferMap := [(0, 4)], rq_pending := {4}\<rparr>"
  define fb :: FrameBuffer where "fb = \<lparr>fb_planes = [], fb_request = Some 0,
      fb_metadata = \<lparr>md_status = FrameCancelled, md_sequence = 0, md_timestamp = 0, md_planes = []\<rparr>,
      fb_cookie = 0\<rparr>"
  let ?h = "\<lparr>h_bufs = \<lambda>_. fb, h_reqs = \<lambda>_. rq\<rparr>"
  have "rq_status (h_reqs ?h 0) = RequestPending" "set [4] = rq_pending (h_reqs ?h 0)"
    "md_status (fb_metadata (h_bufs ?h 4)) = FrameCancelled"
    by (simp_all add: rq_def fb_def Request_new_def)
  with Request_complete_any_order [of ?h 0 "[4]"] obtain h1 h2 where
    "completeBuffers ?h 0 [4] = Some (h1, [True])" "Request_complete h1 0 = Some h2"
    "rq_status (h_reqs h2 0) = RequestCancelled"
    by (auto simp del: completeBuffers.simps split: if_splits)
  then show ?thesis
    by (intro exI [of _ ?h] exI [of _ 0] exI [of _ "[4]"] exI [of _ h1]) simp
qed

text \<open>
  Reusing a request with its buffers makes it pending again with exactly the buffers of its map,
  each owned by the request, whatever was pending before; without them the map is emptied. Its
  controls and metadata are cleared.
\<close>

theorem Request_reuse_pending:
  "let h' = Request_reuse h r keep; rq = h_reqs h' r in
     rq_status rq = RequestPending \<and> \<not> rq_cancelled rq \<and> rq_sequence rq = 0 \<and>
     rq_cookie rq = rq_cookie (h_reqs h r) \<and>
     cl_controls (rq_controls rq) = [] \<and> cl_controls (rq_metadata rq) = [] \<and>
     rq_bufferMap rq = (if keep then rq_bufferMap (h_reqs h r) else []) \<and>
     rq_pending rq = snd ` set (rq_bufferMap rq) \<and>
     (\<forall>b \<in> rq_pending rq. fb_request (h_bufs h' b) = Some r)"
  using reuse_buffers_eq [of r "rq_bufferMap (h_reqs h r)" "upd_req h r (\<lambda>rq. rq\<lparr>rq_pending := {}\<rparr>)"]
  by (auto simp: Request_reuse_def Let_def ControlList_clear_def)

theorem Request_reuse_pending_witness:
  "rq_pending (h_reqs (Request_reuse example_reuse 0 True) 0) = {4, 6} \<and>
   fb_request (h_bufs (Request_reuse example_reuse 0 True) 4) = Some 0 \<and>
   fb_request (h_bufs (Request_reuse example_reuse 0 True) 6) = Some 0"
proof -
  have "snd ` set (rq_bufferMap (h_reqs example_reuse 0)) = {4, 6}" by (auto simp: example_reuse_def)
  then show ?thesis using Request_reuse_pending [of example_reuse 0 True] by (simp add: Let_def)
qed

end
