(* ===== verification/MediaDevice.thy ===== *)
theory MediaDevice
  imports Prelude
begin

text \<open>
  Media devices and the media graph: \<open>src/libcamera/media_device.cpp\<close>, \<open>media_object.cpp\<close>. A media
  object is identified by its id, which \<open>addObject\<close> keeps unique within the device, so ids play the
  role of the pointers between entities, pads and links. The kernel is a parameter: the replies to
  the topology ioctl are a list, the other ioctls are functions. Opening the device node and file
  locks are results passed in.
\<close>

section \<open>The kernel's view\<close>

record media_v2_entity =
  me_id :: u32
  me_name :: string
  me_function :: u32
  me_flags :: u32

record media_v2_interface =
  mi_id :: u32
  mi_major :: u32
  mi_minor :: u32

record media_v2_pad =
  mp_id :: u32
  mp_entity_id :: u32
  mp_flags :: u32
  mp_index :: u32

record media_v2_link =
  ml_id :: u32
  ml_source_id :: u32
  ml_sink_id :: u32
  ml_flags :: u32

record media_v2_topology =
  top_version :: u64
  top_entities :: "media_v2_entity list"
  top_interfaces :: "media_v2_interface list"
  top_pads :: "media_v2_pad list"
  top_links :: "media_v2_link list"

definition MEDIA_PAD_FL_SINK :: u32 where "MEDIA_PAD_FL_SINK = 1"
definition MEDIA_PAD_FL_SOURCE :: u32 where "MEDIA_PAD_FL_SOURCE = 2"
definition MEDIA_LNK_FL_ENABLED :: u32 where "MEDIA_LNK_FL_ENABLED = 1"
definition MEDIA_LNK_FL_IMMUTABLE :: u32 where "MEDIA_LNK_FL_IMMUTABLE = 2"
definition MEDIA_LNK_FL_LINK_TYPE :: u32 where "MEDIA_LNK_FL_LINK_TYPE = 0xf0000000"
definition MEDIA_LNK_FL_INTERFACE_LINK :: u32 where "MEDIA_LNK_FL_INTERFACE_LINK = 0x10000000"

definition MEDIA_V2_ENTITY_HAS_FLAGS :: "u32 \<Rightarrow> bool" where
  "MEDIA_V2_ENTITY_HAS_FLAGS version \<longleftrightarrow> version \<ge> 0x41300"

section \<open>Media objects\<close>

record MediaLink =
  lk_id :: u32
  lk_source :: u32
  lk_sink :: u32
  lk_flags :: u32

record MediaPad =
  pd_id :: u32
  pd_index :: u32
  pd_entity :: u32
  pd_flags :: u32
  pd_links :: "u32 list"

record MediaEntity =
  en_id :: u32
  en_name :: string
  en_function :: u32
  en_flags :: u32
  en_major :: u32
  en_minor :: u32
  en_deviceNode :: string
  en_pads :: "u32 list"

datatype MediaObject = ObjEntity MediaEntity | ObjPad MediaPad | ObjLink MediaLink

fun MediaObject_id :: "MediaObject \<Rightarrow> u32" where
  "MediaObject_id (ObjEntity e) = en_id e"
| "MediaObject_id (ObjPad p) = pd_id p"
| "MediaObject_id (ObjLink l) = lk_id l"

definition MediaEntity_new :: "media_v2_entity \<Rightarrow> u32 \<Rightarrow> u32 \<Rightarrow> MediaEntity" where
  "MediaEntity_new ent major minor =
     \<lparr>en_id = me_id ent, en_name = me_name ent, en_function = me_function ent,
      en_flags = me_flags ent, en_major = major, en_minor = minor, en_deviceNode = [], en_pads = []\<rparr>"

definition MediaPad_new :: "media_v2_pad \<Rightarrow> u32 \<Rightarrow> MediaPad" where
  "MediaPad_new pad entity =
     \<lparr>pd_id = mp_id pad, pd_index = mp_index pad, pd_entity = entity, pd_flags = mp_flags pad,
      pd_links = []\<rparr>"

definition MediaLink_new :: "media_v2_link \<Rightarrow> u32 \<Rightarrow> u32 \<Rightarrow> MediaLink" where
  "MediaLink_new link source sink =
     \<lparr>lk_id = ml_id link, lk_source = source, lk_sink = sink, lk_flags = ml_flags link\<rparr>"

section \<open>The device\<close>

record MediaDevice =
  mdv_driver :: string
  mdv_deviceNode :: string
  mdv_model :: string
  mdv_version :: u32
  mdv_hwRevision :: u32
  mdv_fd :: i32
  mdv_valid :: bool
  mdv_acquired :: bool
  mdv_lockOwner :: bool
  mdv_objects :: "(u32 \<times> MediaObject) list"
  mdv_entities :: "u32 list"

definition MediaDevice_new :: "string \<Rightarrow> MediaDevice" where
  "MediaDevice_new deviceNode =
     \<lparr>mdv_driver = [], mdv_deviceNode = deviceNode, mdv_model = [], mdv_version = 0,
      mdv_hwRevision = 0, mdv_fd = - 1, mdv_valid = False, mdv_acquired = False,
      mdv_lockOwner = False, mdv_objects = [], mdv_entities = []\<rparr>"

text \<open>The result of the \<open>open\<close> system call is passed in: an error or a descriptor.\<close>

definition MediaDevice_open :: "i32 result \<Rightarrow> MediaDevice \<Rightarrow> MediaDevice \<times> errno option" where
  "MediaDevice_open sys_open dev =
     (if mdv_fd dev \<noteq> - 1 then (dev, Some EBUSY)
      else case sys_open of
             Inl e \<Rightarrow> (dev, Some e)
           | Inr fd \<Rightarrow> (dev\<lparr>mdv_fd := fd\<rparr>, None))"

definition MediaDevice_close :: "MediaDevice \<Rightarrow> MediaDevice" where
  "MediaDevice_close dev = (if mdv_fd dev = - 1 then dev else dev\<lparr>mdv_fd := - 1\<rparr>)"

definition MediaDevice_acquire :: "i32 result \<Rightarrow> MediaDevice \<Rightarrow> MediaDevice \<times> bool" where
  "MediaDevice_acquire sys_open dev =
     (if mdv_acquired dev then (dev, False)
      else
        let (dev', ret) = MediaDevice_open sys_open dev in
        if ret \<noteq> None then (dev', False)
        else (dev'\<lparr>mdv_acquired := True\<rparr>, True))"

definition MediaDevice_release :: "MediaDevice \<Rightarrow> MediaDevice" where
  "MediaDevice_release dev = (MediaDevice_close dev)\<lparr>mdv_acquired := False\<rparr>"

text \<open>\<open>tlock\<close> tells whether \<open>lockf (fd, F_TLOCK, 0)\<close> succeeds.\<close>

definition MediaDevice_lock :: "(i32 \<Rightarrow> bool) \<Rightarrow> MediaDevice \<Rightarrow> MediaDevice \<times> bool" where
  "MediaDevice_lock tlock dev =
     (if mdv_fd dev = - 1 then (dev, False)
      else if mdv_lockOwner dev then (dev, False)
      else if \<not> tlock (mdv_fd dev) then (dev, False)
      else (dev\<lparr>mdv_lockOwner := True\<rparr>, True))"

definition MediaDevice_unlock :: "MediaDevice \<Rightarrow> MediaDevice" where
  "MediaDevice_unlock dev =
     (if mdv_fd dev = - 1 then dev
      else if \<not> mdv_lockOwner dev then dev
      else dev\<lparr>mdv_lockOwner := False\<rparr>)"

section \<open>Objects of the graph\<close>

definition MediaDevice_object :: "MediaDevice \<Rightarrow> u32 \<Rightarrow> MediaObject option" where
  "MediaDevice_object dev oid = map_of (mdv_objects dev) oid"

definition as_entity :: "MediaObject option \<Rightarrow> MediaEntity option" where
  "as_entity ob = (case ob of Some (ObjEntity e) \<Rightarrow> Some e | _ \<Rightarrow> None)"

definition as_pad :: "MediaObject option \<Rightarrow> MediaPad option" where
  "as_pad ob = (case ob of Some (ObjPad p) \<Rightarrow> Some p | _ \<Rightarrow> None)"

definition as_link :: "MediaObject option \<Rightarrow> MediaLink option" where
  "as_link ob = (case ob of Some (ObjLink l) \<Rightarrow> Some l | _ \<Rightarrow> None)"

definition MediaDevice_addObject :: "MediaDevice \<Rightarrow> MediaObject \<Rightarrow> MediaDevice \<times> bool" where
  "MediaDevice_addObject dev ob =
     (if MediaDevice_object dev (MediaObject_id ob) \<noteq> None then (dev, False)
      else (dev\<lparr>mdv_objects := map_insert (MediaObject_id ob) ob (mdv_objects dev)\<rparr>, True))"

definition MediaDevice_clear :: "MediaDevice \<Rightarrow> MediaDevice" where
  "MediaDevice_clear dev = dev\<lparr>mdv_objects := [], mdv_entities := [], mdv_valid := False\<rparr>"

text \<open>An object modified through a pointer to it.\<close>

definition set_object :: "MediaDevice \<Rightarrow> MediaObject \<Rightarrow> MediaDevice" where
  "set_object dev ob = dev\<lparr>mdv_objects := map_insert (MediaObject_id ob) ob (mdv_objects dev)\<rparr>"

definition MediaEntity_addPad :: "MediaDevice \<Rightarrow> u32 \<Rightarrow> u32 \<Rightarrow> MediaDevice" where
  "MediaEntity_addPad dev e p =
     (case as_entity (MediaDevice_object dev e) of
        None \<Rightarrow> dev
      | Some en \<Rightarrow> set_object dev (ObjEntity (en\<lparr>en_pads := en_pads en @ [p]\<rparr>)))"

definition MediaPad_addLink :: "MediaDevice \<Rightarrow> u32 \<Rightarrow> u32 \<Rightarrow> MediaDevice" where
  "MediaPad_addLink dev p l =
     (case as_pad (MediaDevice_object dev p) of
        None \<Rightarrow> dev
      | Some pd \<Rightarrow> set_object dev (ObjPad (pd\<lparr>pd_links := pd_links pd @ [l]\<rparr>)))"


section \<open>Enumerating the graph\<close>

definition is_interface_link :: "media_v2_link \<Rightarrow> bool" where
  "is_interface_link l \<longleftrightarrow>
     and (ml_flags l) MEDIA_LNK_FL_LINK_TYPE = MEDIA_LNK_FL_INTERFACE_LINK"

fun find_interface_id :: "media_v2_link list \<Rightarrow> u32 \<Rightarrow> u32 option" where
  "find_interface_id [] entityId = None"
| "find_interface_id (l # links) entityId =
     (if ml_sink_id l \<noteq> entityId then find_interface_id links entityId
      else if \<not> is_interface_link l then find_interface_id links entityId
      else Some (ml_source_id l))"

fun find_interface_by_id :: "media_v2_interface list \<Rightarrow> u32 \<Rightarrow> media_v2_interface option" where
  "find_interface_by_id [] ifaceId = None"
| "find_interface_by_id (i # ifaces) ifaceId =
     (if mi_id i = ifaceId then Some i else find_interface_by_id ifaces ifaceId)"

definition MediaDevice_findInterface ::
    "media_v2_topology \<Rightarrow> u32 \<Rightarrow> media_v2_interface option" where
  "MediaDevice_findInterface topology entityId =
     (case find_interface_id (top_links topology) entityId of
        None \<Rightarrow> None
      | Some ifaceId \<Rightarrow> find_interface_by_id (top_interfaces topology) ifaceId)"

text \<open>\<open>enum_entities\<close> is the reply to \<open>MEDIA_IOC_ENUM_ENTITIES\<close> for an entity id: its flags or an error.\<close>

definition MediaDevice_fixupEntityFlags ::
    "(u32 \<Rightarrow> u32 result) \<Rightarrow> media_v2_entity \<Rightarrow> media_v2_entity" where
  "MediaDevice_fixupEntityFlags enum_entities ent =
     (case enum_entities (me_id ent) of
        Inl _ \<Rightarrow> ent
      | Inr flags \<Rightarrow> ent\<lparr>me_flags := flags\<rparr>)"

fun populateEntities ::
    "(u32 \<Rightarrow> u32 result) \<Rightarrow> media_v2_topology \<Rightarrow> media_v2_entity list \<Rightarrow> MediaDevice
      \<Rightarrow> MediaDevice \<times> bool" where
  "populateEntities enum_entities topology [] dev = (dev, True)"
| "populateEntities enum_entities topology (ent # ents) dev =
     (let ent = (if \<not> MEDIA_V2_ENTITY_HAS_FLAGS (mdv_version dev)
                 then MediaDevice_fixupEntityFlags enum_entities ent else ent);
          entity = (case MediaDevice_findInterface topology (me_id ent) of
                      Some iface \<Rightarrow> MediaEntity_new ent (mi_major iface) (mi_minor iface)
                    | None \<Rightarrow> MediaEntity_new ent 0 0);
          (dev', added) = MediaDevice_addObject dev (ObjEntity entity)
      in if \<not> added then (dev', False)
         else populateEntities enum_entities topology ents
                (dev'\<lparr>mdv_entities := mdv_entities dev' @ [en_id entity]\<rparr>))"

fun populatePads :: "media_v2_pad list \<Rightarrow> MediaDevice \<Rightarrow> MediaDevice \<times> bool" where
  "populatePads [] dev = (dev, True)"
| "populatePads (mp # pads) dev =
     (case as_entity (MediaDevice_object dev (mp_entity_id mp)) of
        None \<Rightarrow> (dev, False)
      | Some mediaEntity \<Rightarrow>
          let pad = MediaPad_new mp (en_id mediaEntity);
              (dev', added) = MediaDevice_addObject dev (ObjPad pad)
          in if \<not> added then (dev', False)
             else populatePads pads (MediaEntity_addPad dev' (en_id mediaEntity) (pd_id pad)))"

fun populateLinks :: "media_v2_link list \<Rightarrow> MediaDevice \<Rightarrow> MediaDevice \<times> bool" where
  "populateLinks [] dev = (dev, True)"
| "populateLinks (ml # links) dev =
     (if is_interface_link ml then populateLinks links dev
      else
        case as_pad (MediaDevice_object dev (ml_source_id ml)) of
          None \<Rightarrow> (dev, False)
        | Some source \<Rightarrow>
            (case as_pad (MediaDevice_object dev (ml_sink_id ml)) of
               None \<Rightarrow> (dev, False)
             | Some sink \<Rightarrow>
                 let link = MediaLink_new ml (pd_id source) (pd_id sink);
                     (dev', added) = MediaDevice_addObject dev (ObjLink link)
                 in if \<not> added then (dev', False)
                    else populateLinks links
                           (MediaPad_addLink (MediaPad_addLink dev' (pd_id source) (lk_id link))
                              (pd_id sink) (lk_id link))))"

text \<open>
  The topology is read until two successive replies carry the same version; the first call has no
  arrays to fill, so the version of the first comparison is minus one. \<open>None\<close>: the replies given
  are not enough for the loop to end.
\<close>

fun read_topology ::
    "u64 \<Rightarrow> media_v2_topology result list \<Rightarrow> media_v2_topology result option" where
  "read_topology version [] = None"
| "read_topology version (Inl e # replies) = Some (Inl e)"
| "read_topology version (Inr topology # replies) =
     (if version = top_version topology then Some (Inr topology)
      else read_topology (top_version topology) replies)"

record media_device_info =
  mdi_driver :: string
  mdi_model :: string
  mdi_media_version :: u32
  mdi_hw_revision :: u32

definition populate_done :: "MediaDevice \<Rightarrow> MediaDevice \<times> errno option" where
  "populate_done dev =
     (let dev = MediaDevice_close dev in
      if \<not> mdv_valid dev then (MediaDevice_clear dev, Some EINVAL) else (dev, None))"

definition populate_topology ::
    "(u32 \<Rightarrow> u32 result) \<Rightarrow> media_v2_topology \<Rightarrow> MediaDevice \<Rightarrow> MediaDevice" where
  "populate_topology enum_entities topology dev =
     (let (dev, ok) = populateEntities enum_entities topology (top_entities topology) dev in
      if \<not> ok then dev
      else let (dev, ok) = populatePads (top_pads topology) dev in
        if \<not> ok then dev
        else let (dev, ok) = populateLinks (top_links topology) dev in
          if \<not> ok then dev else dev\<lparr>mdv_valid := True\<rparr>)"

definition MediaDevice_populate ::
    "i32 result \<Rightarrow> media_device_info result \<Rightarrow> media_v2_topology result list \<Rightarrow>
     (u32 \<Rightarrow> u32 result) \<Rightarrow> MediaDevice \<Rightarrow> (MediaDevice \<times> errno option) option" where
  "MediaDevice_populate sys_open info_reply replies enum_entities dev =
     (let dev = MediaDevice_clear dev;
          (dev, ret) = MediaDevice_open sys_open dev
      in if ret \<noteq> None then Some (dev, ret)
         else case info_reply of
                Inl e \<Rightarrow> Some (populate_done dev)
              | Inr info \<Rightarrow>
                  let dev = dev\<lparr>mdv_driver := mdi_driver info, mdv_model := mdi_model info,
                                mdv_version := mdi_media_version info,
                                mdv_hwRevision := mdi_hw_revision info\<rparr>
                  in case read_topology (- 1) replies of
                       None \<Rightarrow> None
                     | Some (Inl e) \<Rightarrow> Some (populate_done dev)
                     | Some (Inr topology) \<Rightarrow>
                         Some (populate_done (populate_topology enum_entities topology dev)))"

section \<open>Looking up entities, pads and links\<close>

fun find_entity_by_name :: "MediaDevice \<Rightarrow> u32 list \<Rightarrow> string \<Rightarrow> MediaEntity option" where
  "find_entity_by_name dev [] name = None"
| "find_entity_by_name dev (e # es) name =
     (case as_entity (MediaDevice_object dev e) of
        Some en \<Rightarrow> if en_name en = name then Some en else find_entity_by_name dev es name
      | None \<Rightarrow> find_entity_by_name dev es name)"

definition MediaDevice_getEntityByName :: "MediaDevice \<Rightarrow> string \<Rightarrow> MediaEntity option" where
  "MediaDevice_getEntityByName dev name = find_entity_by_name dev (mdv_entities dev) name"

fun find_pad :: "MediaDevice \<Rightarrow> u32 list \<Rightarrow> (MediaPad \<Rightarrow> bool) \<Rightarrow> MediaPad option" where
  "find_pad dev [] P = None"
| "find_pad dev (p # ps) P =
     (case as_pad (MediaDevice_object dev p) of
        Some pd \<Rightarrow> if P pd then Some pd else find_pad dev ps P
      | None \<Rightarrow> find_pad dev ps P)"

definition MediaEntity_getPadByIndex :: "MediaDevice \<Rightarrow> MediaEntity \<Rightarrow> u32 \<Rightarrow> MediaPad option" where
  "MediaEntity_getPadByIndex dev en index = find_pad dev (en_pads en) (\<lambda>p. pd_index p = index)"

definition MediaEntity_getPadById :: "MediaDevice \<Rightarrow> MediaEntity \<Rightarrow> u32 \<Rightarrow> MediaPad option" where
  "MediaEntity_getPadById dev en pid = find_pad dev (en_pads en) (\<lambda>p. pd_id p = pid)"

fun find_link :: "MediaDevice \<Rightarrow> u32 list \<Rightarrow> u32 \<Rightarrow> MediaLink option" where
  "find_link dev [] sink = None"
| "find_link dev (l # ls) sink =
     (case as_link (MediaDevice_object dev l) of
        Some lk \<Rightarrow> if lk_sink lk = sink then Some lk else find_link dev ls sink
      | None \<Rightarrow> find_link dev ls sink)"

definition MediaDevice_link_pads :: "MediaDevice \<Rightarrow> MediaPad \<Rightarrow> MediaPad \<Rightarrow> MediaLink option" where
  "MediaDevice_link_pads dev source sink = find_link dev (pd_links source) (pd_id sink)"

definition MediaDevice_link_entities ::
    "MediaDevice \<Rightarrow> MediaEntity \<Rightarrow> u32 \<Rightarrow> MediaEntity \<Rightarrow> u32 \<Rightarrow> MediaLink option" where
  "MediaDevice_link_entities dev source sourceIdx sink sinkIdx =
     (case (MediaEntity_getPadByIndex dev source sourceIdx,
            MediaEntity_getPadByIndex dev sink sinkIdx) of
        (Some sourcePad, Some sinkPad) \<Rightarrow> MediaDevice_link_pads dev sourcePad sinkPad
      | _ \<Rightarrow> None)"

definition MediaDevice_link ::
    "MediaDevice \<Rightarrow> string \<Rightarrow> u32 \<Rightarrow> string \<Rightarrow> u32 \<Rightarrow> MediaLink option" where
  "MediaDevice_link dev sourceName sourceIdx sinkName sinkIdx =
     (case (MediaDevice_getEntityByName dev sourceName,
            MediaDevice_getEntityByName dev sinkName) of
        (Some source, Some sink) \<Rightarrow> MediaDevice_link_entities dev source sourceIdx sink sinkIdx
      | _ \<Rightarrow> None)"

section \<open>Enabling and disabling links\<close>

text \<open>\<open>setup k lk flags\<close> is the reply to \<open>MEDIA_IOC_SETUP_LINK\<close> in kernel state \<open>k\<close>.\<close>

definition MediaLink_setEnabled ::
    "('k \<Rightarrow> MediaLink \<Rightarrow> u32 \<Rightarrow> 'k \<times> errno option) \<Rightarrow> 'k \<times> MediaDevice \<Rightarrow> MediaLink \<Rightarrow> bool
      \<Rightarrow> ('k \<times> MediaDevice) \<times> errno option" where
  "MediaLink_setEnabled setup s lk enable =
     (let flags = or (and (lk_flags lk) (not MEDIA_LNK_FL_ENABLED))
                     (if enable then MEDIA_LNK_FL_ENABLED else 0);
          (k, ret) = setup (fst s) lk flags
      in if ret \<noteq> None then ((k, snd s), ret)
         else ((k, set_object (snd s) (ObjLink (lk\<lparr>lk_flags := flags\<rparr>))), None))"

fun disable_pad_links ::
    "('k \<Rightarrow> MediaLink \<Rightarrow> u32 \<Rightarrow> 'k \<times> errno option) \<Rightarrow> u32 list \<Rightarrow> 'k \<times> MediaDevice
      \<Rightarrow> ('k \<times> MediaDevice) \<times> errno option" where
  "disable_pad_links setup [] s = (s, None)"
| "disable_pad_links setup (l # ls) s =
     (case as_link (MediaDevice_object (snd s) l) of
        None \<Rightarrow> disable_pad_links setup ls s
      | Some lk \<Rightarrow>
          if and (lk_flags lk) MEDIA_LNK_FL_IMMUTABLE \<noteq> 0 then disable_pad_links setup ls s
          else
            let (s', ret) = MediaLink_setEnabled setup s lk False in
            if ret \<noteq> None then (s', ret) else disable_pad_links setup ls s')"

fun disable_entity_links ::
    "('k \<Rightarrow> MediaLink \<Rightarrow> u32 \<Rightarrow> 'k \<times> errno option) \<Rightarrow> u32 list \<Rightarrow> 'k \<times> MediaDevice
      \<Rightarrow> ('k \<times> MediaDevice) \<times> errno option" where
  "disable_entity_links setup [] s = (s, None)"
| "disable_entity_links setup (p # ps) s =
     (case as_pad (MediaDevice_object (snd s) p) of
        None \<Rightarrow> disable_entity_links setup ps s
      | Some pd \<Rightarrow>
          if and (pd_flags pd) MEDIA_PAD_FL_SOURCE = 0 then disable_entity_links setup ps s
          else
            let (s', ret) = disable_pad_links setup (pd_links pd) s in
            if ret \<noteq> None then (s', ret) else disable_entity_links setup ps s')"

fun disable_links ::
    "('k \<Rightarrow> MediaLink \<Rightarrow> u32 \<Rightarrow> 'k \<times> errno option) \<Rightarrow> u32 list \<Rightarrow> 'k \<times> MediaDevice
      \<Rightarrow> ('k \<times> MediaDevice) \<times> errno option" where
  "disable_links setup [] s = (s, None)"
| "disable_links setup (e # es) s =
     (case as_entity (MediaDevice_object (snd s) e) of
        None \<Rightarrow> disable_links setup es s
      | Some en \<Rightarrow>
          let (s', ret) = disable_entity_links setup (en_pads en) s in
          if ret \<noteq> None then (s', ret) else disable_links setup es s')"

definition MediaDevice_disableLinks ::
    "('k \<Rightarrow> MediaLink \<Rightarrow> u32 \<Rightarrow> 'k \<times> errno option) \<Rightarrow> 'k \<times> MediaDevice
      \<Rightarrow> ('k \<times> MediaDevice) \<times> errno option" where
  "MediaDevice_disableLinks setup s = disable_links setup (mdv_entities (snd s)) s"


section \<open>The graph invariant\<close>

text \<open>
  Every object is stored under its own id; the entity list names exactly the entities; a pad is in
  the pad list of its entity and of no other; a link is in the link lists of its source and of its
  sink, and a pad lists no other link.
\<close>

type_synonym objects = "u32 \<Rightarrow> MediaObject option"

definition ids_ok :: "objects \<Rightarrow> bool" where
  "ids_ok objs \<longleftrightarrow> (\<forall>i ob. objs i = Some ob \<longrightarrow> MediaObject_id ob = i)"

definition entities_ok :: "objects \<Rightarrow> u32 list \<Rightarrow> bool" where
  "entities_ok objs es \<longleftrightarrow>
     distinct es \<and> (\<forall>e. e \<in> set es \<longleftrightarrow> (\<exists>en. objs e = Some (ObjEntity en)))"

definition pads_ok :: "objects \<Rightarrow> bool" where
  "pads_ok objs \<longleftrightarrow>
     (\<forall>p pd. objs p = Some (ObjPad pd) \<longrightarrow>
        (\<exists>en. objs (pd_entity pd) = Some (ObjEntity en) \<and> p \<in> set (en_pads en))) \<and>
     (\<forall>e en p. objs e = Some (ObjEntity en) \<longrightarrow> p \<in> set (en_pads en) \<longrightarrow>
        (\<exists>pd. objs p = Some (ObjPad pd) \<and> pd_entity pd = e))"

definition links_ok :: "objects \<Rightarrow> bool" where
  "links_ok objs \<longleftrightarrow>
     (\<forall>l lk. objs l = Some (ObjLink lk) \<longrightarrow>
        (\<exists>pd. objs (lk_source lk) = Some (ObjPad pd) \<and> l \<in> set (pd_links pd)) \<and>
        (\<exists>pd. objs (lk_sink lk) = Some (ObjPad pd) \<and> l \<in> set (pd_links pd))) \<and>
     (\<forall>p pd l. objs p = Some (ObjPad pd) \<longrightarrow> l \<in> set (pd_links pd) \<longrightarrow>
        (\<exists>lk. objs l = Some (ObjLink lk) \<and> (lk_source lk = p \<or> lk_sink lk = p)))"

definition graph_ok :: "MediaDevice \<Rightarrow> bool" where
  "graph_ok dev \<longleftrightarrow>
     map_ok (mdv_objects dev) \<and> ids_ok (map_of (mdv_objects dev)) \<and>
     entities_ok (map_of (mdv_objects dev)) (mdv_entities dev) \<and>
     pads_ok (map_of (mdv_objects dev)) \<and> links_ok (map_of (mdv_objects dev))"

lemmas object_defs = MediaDevice_object_def MediaDevice_addObject_def set_object_def
  as_entity_def as_pad_def as_link_def

lemma as_entity_eq [simp]: "as_entity ob = Some e \<longleftrightarrow> ob = Some (ObjEntity e)"
  by (auto simp: as_entity_def split: option.splits MediaObject.splits)

lemma as_pad_eq [simp]: "as_pad ob = Some e \<longleftrightarrow> ob = Some (ObjPad e)"
  by (auto simp: as_pad_def split: option.splits MediaObject.splits)

lemma as_link_eq [simp]: "as_link ob = Some e \<longleftrightarrow> ob = Some (ObjLink e)"
  by (auto simp: as_link_def split: option.splits MediaObject.splits)

lemma as_simps [simp]:
  "as_entity (Some (ObjEntity e)) = Some e" "as_pad (Some (ObjPad p)) = Some p"
  "as_link (Some (ObjLink l)) = Some l"
  "as_entity None = None" "as_pad None = None" "as_link None = None"
  by (simp_all add: as_entity_def as_pad_def as_link_def)

lemma graph_ok_clear: "graph_ok (MediaDevice_clear dev)"
  by (simp add: graph_ok_def ids_ok_def entities_ok_def pads_ok_def links_ok_def MediaDevice_clear_def)

lemma graph_ok_cong:
  "mdv_objects dev' = mdv_objects dev \<Longrightarrow> mdv_entities dev' = mdv_entities dev \<Longrightarrow>
   graph_ok dev \<Longrightarrow> graph_ok dev'"
  by (simp add: graph_ok_def)

lemma ids_okD: "ids_ok objs \<Longrightarrow> objs i = Some ob \<Longrightarrow> MediaObject_id ob = i"
  by (simp add: ids_ok_def)

lemma ids_ok_upd: "ids_ok objs \<Longrightarrow> MediaObject_id ob = i \<Longrightarrow> ids_ok (objs(i \<mapsto> ob))"
  by (simp add: ids_ok_def)

text \<open>A new object that refers to nothing and that nothing refers to.\<close>

lemma links_ok_fresh:
  "links_ok objs \<Longrightarrow> objs i = None \<Longrightarrow> (\<forall>lk. ob \<noteq> ObjLink lk) \<Longrightarrow>
   (\<forall>pd. ob = ObjPad pd \<longrightarrow> pd_links pd = []) \<Longrightarrow> links_ok (objs(i \<mapsto> ob))"
  unfolding links_ok_def by (auto 0 3 split: if_splits) (metis option.distinct(1))+

lemma pads_ok_fresh:
  "pads_ok objs \<Longrightarrow> objs i = None \<Longrightarrow> (\<forall>pd. ob \<noteq> ObjPad pd) \<Longrightarrow>
   (\<forall>en. ob = ObjEntity en \<longrightarrow> en_pads en = []) \<Longrightarrow> pads_ok (objs(i \<mapsto> ob))"
  unfolding pads_ok_def by (auto 0 3 split: if_splits) (metis option.distinct(1))+

lemma entities_ok_fresh:
  "entities_ok objs es \<Longrightarrow> objs i = None \<Longrightarrow> (\<forall>en. ob \<noteq> ObjEntity en) \<Longrightarrow>
   entities_ok (objs(i \<mapsto> ob)) es"
  unfolding entities_ok_def by (auto split: if_splits)

text \<open>An entity or a pad whose lists change.\<close>

lemma links_ok_entity:
  "links_ok objs \<Longrightarrow> objs e = Some (ObjEntity en) \<Longrightarrow> links_ok (objs(e \<mapsto> ObjEntity en'))"
  unfolding links_ok_def by (auto 0 3 split: if_splits) (metis MediaObject.distinct option.inject)+

lemma entities_ok_same:
  "entities_ok objs es \<Longrightarrow> objs e = Some (ObjEntity en) \<Longrightarrow> entities_ok (objs(e \<mapsto> ObjEntity en')) es"
  unfolding entities_ok_def by (auto split: if_splits)

lemma entities_ok_pad:
  "entities_ok objs es \<Longrightarrow> objs p = Some (ObjPad pd) \<Longrightarrow> entities_ok (objs(p \<mapsto> ObjPad pd')) es"
  unfolding entities_ok_def by (auto split: if_splits)

lemma pads_ok_pad:
  "pads_ok objs \<Longrightarrow> objs p = Some (ObjPad pd) \<Longrightarrow> pd_entity pd' = pd_entity pd \<Longrightarrow>
   pads_ok (objs(p \<mapsto> ObjPad pd'))"
  unfolding pads_ok_def by (auto 0 3 split: if_splits) (metis MediaObject.distinct MediaObject.inject option.inject)+

lemma pads_ok_new_pad:
  "pads_ok objs \<Longrightarrow> objs p = None \<Longrightarrow> objs (pd_entity pd) = Some (ObjEntity en) \<Longrightarrow>
   pads_ok (objs(p \<mapsto> ObjPad pd, pd_entity pd \<mapsto> ObjEntity (en\<lparr>en_pads := en_pads en @ [p]\<rparr>)))"
  unfolding pads_ok_def by (auto 0 3 split: if_splits) (metis MediaObject.distinct MediaObject.inject option.inject option.distinct)+


lemma links_ok_new_link:
  assumes "links_ok objs" "objs l = None"
    and "objs (lk_source lk) = Some (ObjPad src)" "objs (lk_sink lk) = Some (ObjPad snk)"
    and "l \<in> set (pd_links src')" "set (pd_links src') \<subseteq> insert l (set (pd_links src))"
    and "l \<in> set (pd_links snk')" "set (pd_links snk') \<subseteq> insert l (set (pd_links snk))"
    and "set (pd_links src) \<subseteq> set (pd_links src')" "set (pd_links snk) \<subseteq> set (pd_links snk')"
    and "lk_source lk = lk_sink lk \<Longrightarrow> src = snk"
  shows "links_ok (objs(l \<mapsto> ObjLink lk, lk_source lk \<mapsto> ObjPad src', lk_sink lk \<mapsto> ObjPad snk'))"
    (is "links_ok ?O")
  unfolding links_ok_def
proof (intro conjI allI impI)
  have ne: "lk_source lk \<noteq> l" "lk_sink lk \<noteq> l" using assms(2-4) by auto
  note old = assms(1) [unfolded links_ok_def, THEN conjunct1, rule_format]
  have grow: "\<exists>pd. ?O p = Some (ObjPad pd) \<and> m \<in> set (pd_links pd)"
    if "objs p = Some (ObjPad pd)" "m \<in> set (pd_links pd)" for p pd m
    using that assms(2-4,9,10) by auto
  fix m lm
  assume m: "?O m = Some (ObjLink lm)"
  then consider "m = l" "lm = lk" | "m \<noteq> l" "objs m = Some (ObjLink lm)"
    using ne by (auto split: if_splits)
  then show "\<exists>pd. ?O (lk_source lm) = Some (ObjPad pd) \<and> m \<in> set (pd_links pd)"
  proof cases
    case 1
    then show ?thesis using assms(5,7) by auto
  next
    case 2
    with old [of m lm] obtain pd where "objs (lk_source lm) = Some (ObjPad pd)" "m \<in> set (pd_links pd)" by blast
    then show ?thesis by (rule grow)
  qed
  from m consider "m = l" "lm = lk" | "m \<noteq> l" "objs m = Some (ObjLink lm)"
    using ne by (auto split: if_splits)
  then show "\<exists>pd. ?O (lk_sink lm) = Some (ObjPad pd) \<and> m \<in> set (pd_links pd)"
  proof cases
    case 1
    then show ?thesis using assms(5,7) by auto
  next
    case 2
    with old [of m lm] obtain pd where "objs (lk_sink lm) = Some (ObjPad pd)" "m \<in> set (pd_links pd)" by blast
    then show ?thesis by (rule grow)
  qed
next
  note old2 = assms(1) [unfolded links_ok_def, THEN conjunct2, rule_format]
  fix p pd m
  assume p: "?O p = Some (ObjPad pd)" "m \<in> set (pd_links pd)"
  show "\<exists>lm. ?O m = Some (ObjLink lm) \<and> (lk_source lm = p \<or> lk_sink lm = p)"
  proof (cases "m = l")
    case True
    have "lk_source lk \<noteq> l" "lk_sink lk \<noteq> l" using assms(2-4) by auto
    moreover have "p = lk_source lk \<or> p = lk_sink lk"
    proof (rule ccontr)
      assume "\<not> ?thesis"
      with p have "objs p = Some (ObjPad pd)" by (auto split: if_splits)
      from old2 [OF this p(2)] True assms(2) show False by simp
    qed
    ultimately show ?thesis using True by auto
  next
    case False
    obtain pd0 where pd0: "objs p = Some (ObjPad pd0)" "m \<in> set (pd_links pd0)"
      using p False assms(2-4,6,8) by (auto split: if_splits)
    from old2 [OF this] obtain lm where lm: "objs m = Some (ObjLink lm)" "lk_source lm = p \<or> lk_sink lm = p"
      by blast
    then have "m \<noteq> lk_source lk" "m \<noteq> lk_sink lk" using assms(3,4) by auto
    with lm False show ?thesis by auto
  qed
qed

lemma pads_ok_new_link:
  assumes "pads_ok objs" "objs l = None"
    and "objs (lk_source lk) = Some (ObjPad src)" "objs (lk_sink lk) = Some (ObjPad snk)"
    and "pd_entity src' = pd_entity src" "pd_entity snk' = pd_entity snk"
  shows "pads_ok (objs(l \<mapsto> ObjLink lk, lk_source lk \<mapsto> ObjPad src', lk_sink lk \<mapsto> ObjPad snk'))"
proof -
  have ne: "lk_source lk \<noteq> l" "lk_sink lk \<noteq> l" using assms(2-4) by auto
  have 1: "pads_ok (objs(l \<mapsto> ObjLink lk))" using pads_ok_fresh [OF assms(1,2)] by simp
  have 2: "pads_ok (objs(l \<mapsto> ObjLink lk, lk_source lk \<mapsto> ObjPad src'))"
    using pads_ok_pad [OF 1, of "lk_source lk" src src'] ne assms(3,5) by simp
  show ?thesis
  proof (cases "lk_source lk = lk_sink lk")
    case True
    with assms(3-6) have "pd_entity snk' = pd_entity src'" by simp
    with pads_ok_pad [OF 2, of "lk_sink lk" src' snk'] True show ?thesis by simp
  next
    case False
    with pads_ok_pad [OF 2, of "lk_sink lk" snk snk'] ne assms(4,6) show ?thesis by simp
  qed
qed

lemma entities_ok_new_link:
  assumes "entities_ok objs es" "objs l = None"
    and "objs (lk_source lk) = Some (ObjPad src)" "objs (lk_sink lk) = Some (ObjPad snk)"
  shows "entities_ok (objs(l \<mapsto> ObjLink lk, lk_source lk \<mapsto> ObjPad src', lk_sink lk \<mapsto> ObjPad snk')) es"
  using assms unfolding entities_ok_def by (auto split: if_splits)


section \<open>Populating keeps the invariant\<close>

lemma fixup_id [simp]: "me_id (MediaDevice_fixupEntityFlags f ent) = me_id ent"
  by (simp add: MediaDevice_fixupEntityFlags_def split: sum.splits)

lemma MediaEntity_new_simps [simp]:
  "en_id (MediaEntity_new ent a b) = me_id ent" "en_pads (MediaEntity_new ent a b) = []"
  by (simp_all add: MediaEntity_new_def)

lemma MediaPad_new_simps [simp]:
  "pd_id (MediaPad_new mp e) = mp_id mp" "pd_entity (MediaPad_new mp e) = e"
  "pd_links (MediaPad_new mp e) = []"
  by (simp_all add: MediaPad_new_def)

lemma MediaLink_new_simps [simp]:
  "lk_id (MediaLink_new ml a b) = ml_id ml" "lk_source (MediaLink_new ml a b) = a"
  "lk_sink (MediaLink_new ml a b) = b"
  by (simp_all add: MediaLink_new_def)

lemma set_object_simps [simp]:
  "map_ok (mdv_objects dev) \<Longrightarrow>
   map_of (mdv_objects (set_object dev ob)) = (map_of (mdv_objects dev))(MediaObject_id ob \<mapsto> ob)"
  "map_ok (mdv_objects dev) \<Longrightarrow> map_ok (mdv_objects (set_object dev ob))"
  "mdv_entities (set_object dev ob) = mdv_entities dev"
  "mdv_valid (set_object dev ob) = mdv_valid dev"
  "mdv_fd (set_object dev ob) = mdv_fd dev"
  by (simp_all add: set_object_def)

lemma graph_ok_entity_step:
  assumes "graph_ok dev" "map_of (mdv_objects dev) (en_id en) = None" "en_pads en = []"
  shows "graph_ok (dev\<lparr>mdv_objects := map_insert (en_id en) (ObjEntity en) (mdv_objects dev),
                       mdv_entities := mdv_entities dev @ [en_id en]\<rparr>)"
  using assms
  by (auto simp: graph_ok_def ids_ok_upd links_ok_fresh pads_ok_fresh entities_ok_def)

text \<open>What happens to the links of a graph and to the list of entities when it is populated.\<close>

definition links_of :: "MediaDevice \<Rightarrow> u32 \<Rightarrow> MediaLink option" where
  "links_of dev l = as_link (map_of (mdv_objects dev) l)"

definition pads_of :: "MediaDevice \<Rightarrow> u32 \<Rightarrow> MediaPad option" where
  "pads_of dev p = as_pad (map_of (mdv_objects dev) p)"

lemma populateEntities_ok:
  "populateEntities f topology ents dev = (dev', ok) \<Longrightarrow> graph_ok dev \<Longrightarrow>
   graph_ok dev' \<and> links_of dev' = links_of dev \<and>
   (ok \<longrightarrow> mdv_entities dev' = mdv_entities dev @ map me_id ents)"
proof (induction ents arbitrary: dev)
  case Nil
  then show ?case by simp
next
  case (Cons ent ents)
  define ent' where "ent' = (if \<not> MEDIA_V2_ENTITY_HAS_FLAGS (mdv_version dev)
                 then MediaDevice_fixupEntityFlags f ent else ent)"
  define en where "en = (case MediaDevice_findInterface topology (me_id ent') of
                      Some iface \<Rightarrow> MediaEntity_new ent' (mi_major iface) (mi_minor iface)
                    | None \<Rightarrow> MediaEntity_new ent' 0 0)"
  have en: "en_id en = me_id ent" "en_pads en = []"
    by (simp_all add: en_def ent'_def split: option.splits)
  show ?case
  proof (cases "map_of (mdv_objects dev) (en_id en) = None")
    case False
    then have "populateEntities f topology (ent # ents) dev = (dev, False)"
      by (simp add: ent'_def [symmetric] en_def [symmetric] MediaDevice_addObject_def
          MediaDevice_object_def Let_def)
    with Cons.prems show ?thesis by simp
  next
    case True
    let ?d = "dev\<lparr>mdv_objects := map_insert (en_id en) (ObjEntity en) (mdv_objects dev),
                  mdv_entities := mdv_entities dev @ [en_id en]\<rparr>"
    have eq: "populateEntities f topology (ent # ents) dev = populateEntities f topology ents ?d"
      using True by (simp add: ent'_def [symmetric] en_def [symmetric] MediaDevice_addObject_def
          MediaDevice_object_def Let_def)
    have ok: "graph_ok ?d" by (rule graph_ok_entity_step [OF Cons.prems(2) True en(2)])
    have "links_of ?d = links_of dev"
      using Cons.prems(2) True by (auto simp: links_of_def graph_ok_def as_link_def)
    moreover have "graph_ok dev' \<and> links_of dev' = links_of ?d \<and>
        (ok \<longrightarrow> mdv_entities dev' = mdv_entities ?d @ map me_id ents)"
      using Cons.IH [OF _ ok] Cons.prems(1) eq by simp
    ultimately show ?thesis by (simp add: en(1))
  qed
qed


lemma populatePads_ok:
  "populatePads mps dev = (dev', ok) \<Longrightarrow> graph_ok dev \<Longrightarrow>
   graph_ok dev' \<and> links_of dev' = links_of dev \<and> mdv_entities dev' = mdv_entities dev"
proof (induction mps arbitrary: dev)
  case Nil
  then show ?case by simp
next
  case (Cons mp mps)
  note g = Cons.prems(2)
  show ?case
  proof (cases "as_entity (map_of (mdv_objects dev) (mp_entity_id mp))")
    case None
    with Cons.prems show ?thesis by (simp add: MediaDevice_object_def)
  next
    case (Some en)
    then have en: "map_of (mdv_objects dev) (mp_entity_id mp) = Some (ObjEntity en)" by simp
    with g have id: "en_id en = mp_entity_id mp" by (auto simp: graph_ok_def dest: ids_okD)
    show ?thesis
    proof (cases "map_of (mdv_objects dev) (mp_id mp)")
      case (Some ob)
      with en id Cons.prems show ?thesis by (simp add: object_defs Let_def)
    next
      case None
      let ?pd = "MediaPad_new mp (mp_entity_id mp)"
      let ?d = "dev\<lparr>mdv_objects := map_insert (mp_id mp) (ObjPad ?pd) (mdv_objects dev)\<rparr>"
      let ?d2 = "MediaEntity_addPad ?d (mp_entity_id mp) (mp_id mp)"
      have m: "map_ok (mdv_objects dev)" using g by (simp add: graph_ok_def)
      have ne: "mp_entity_id mp \<noteq> mp_id mp" using None en by auto
      have d2: "?d2 = set_object ?d (ObjEntity (en\<lparr>en_pads := en_pads en @ [mp_id mp]\<rparr>))"
        using m ne en by (simp add: MediaEntity_addPad_def MediaDevice_object_def as_entity_def)
      have O: "map_of (mdv_objects ?d2) = (map_of (mdv_objects dev))(mp_id mp \<mapsto> ObjPad ?pd,
          pd_entity ?pd \<mapsto> ObjEntity (en\<lparr>en_pads := en_pads en @ [mp_id mp]\<rparr>))"
        unfolding d2 using m by (simp add: id)
      have eq: "populatePads (mp # mps) dev = populatePads mps ?d2"
        using None en id by (simp add: object_defs Let_def)
      have 1: "pads_ok (map_of (mdv_objects ?d2))"
        unfolding O by (rule pads_ok_new_pad) (use g None en in \<open>simp_all add: graph_ok_def\<close>)
      have l0: "links_ok ((map_of (mdv_objects dev))(mp_id mp \<mapsto> ObjPad ?pd))"
        by (rule links_ok_fresh) (use g None in \<open>simp_all add: graph_ok_def\<close>)
      have 2: "links_ok (map_of (mdv_objects ?d2))"
        unfolding O by (rule links_ok_entity [OF l0, where en = en]) (use ne en in simp)
      have e0: "entities_ok ((map_of (mdv_objects dev))(mp_id mp \<mapsto> ObjPad ?pd)) (mdv_entities dev)"
        by (rule entities_ok_fresh) (use g None in \<open>simp_all add: graph_ok_def\<close>)
      have 3: "entities_ok (map_of (mdv_objects ?d2)) (mdv_entities dev)"
        unfolding O by (rule entities_ok_same [OF e0, where en = en]) (use ne en in simp)
      have 4: "ids_ok (map_of (mdv_objects ?d2))"
        unfolding O by (intro ids_ok_upd) (use g id in \<open>simp_all add: graph_ok_def\<close>)
      have es: "mdv_entities ?d2 = mdv_entities dev" by (simp add: d2)
      have "map_ok (mdv_objects ?d2)" using m by (simp add: d2)
      with 1 2 3 4 es have ok: "graph_ok ?d2" by (simp add: graph_ok_def)
      have "links_of ?d2 = links_of dev"
        unfolding links_of_def O using None en by (auto simp: as_link_def fun_eq_iff)
      with Cons.IH [OF _ ok] Cons.prems(1) eq es show ?thesis by simp
    qed
  qed
qed


text \<open>The link object that a data link of the topology becomes.\<close>

definition link_object :: "media_v2_link \<Rightarrow> MediaLink" where
  "link_object ml = MediaLink_new ml (ml_source_id ml) (ml_sink_id ml)"

definition add_link :: "MediaDevice \<Rightarrow> MediaLink \<Rightarrow> MediaDevice" where
  "add_link dev lk =
     MediaPad_addLink
       (MediaPad_addLink
          (dev\<lparr>mdv_objects := map_insert (lk_id lk) (ObjLink lk) (mdv_objects dev)\<rparr>)
          (lk_source lk) (lk_id lk))
       (lk_sink lk) (lk_id lk)"

lemma add_link_objects:
  assumes "graph_ok dev" "map_of (mdv_objects dev) (lk_id lk) = None"
    and "map_of (mdv_objects dev) (lk_source lk) = Some (ObjPad src)"
    and "map_of (mdv_objects dev) (lk_sink lk) = Some (ObjPad snk)"
  obtains src' snk' where
    "map_of (mdv_objects (add_link dev lk)) = (map_of (mdv_objects dev))
       (lk_id lk \<mapsto> ObjLink lk, lk_source lk \<mapsto> ObjPad src', lk_sink lk \<mapsto> ObjPad snk')"
    "set (pd_links src') = insert (lk_id lk) (set (pd_links src))"
    "set (pd_links snk') = insert (lk_id lk) (set (pd_links snk))"
    "pd_entity src' = pd_entity src" "pd_entity snk' = pd_entity snk"
    "pd_id src' = lk_source lk" "pd_id snk' = lk_sink lk"
    "map_ok (mdv_objects (add_link dev lk))" "mdv_entities (add_link dev lk) = mdv_entities dev"
proof -
  let ?l = "lk_id lk" and ?s = "lk_source lk" and ?t = "lk_sink lk"
  have m: "map_ok (mdv_objects dev)" using assms(1) by (simp add: graph_ok_def)
  have ids: "pd_id src = ?s" "pd_id snk = ?t"
    using assms by (auto simp: graph_ok_def dest: ids_okD)
  have ne: "?s \<noteq> ?l" "?t \<noteq> ?l" using assms by auto
  let ?d = "dev\<lparr>mdv_objects := map_insert ?l (ObjLink lk) (mdv_objects dev)\<rparr>"
  let ?src = "src\<lparr>pd_links := pd_links src @ [?l]\<rparr>"
  have 1: "MediaPad_addLink ?d ?s ?l = set_object ?d (ObjPad ?src)"
    using m ne assms(3) by (simp add: MediaPad_addLink_def MediaDevice_object_def as_pad_def)
  have m1: "map_ok (mdv_objects ?d)" using m by simp
  have O1: "map_of (mdv_objects (MediaPad_addLink ?d ?s ?l))
      = (map_of (mdv_objects dev))(?l \<mapsto> ObjLink lk, ?s \<mapsto> ObjPad ?src)"
    unfolding 1 using m by (simp add: ids)
  have m2: "map_ok (mdv_objects (MediaPad_addLink ?d ?s ?l))" unfolding 1 using m1 by simp
  show ?thesis
  proof (cases "?s = ?t")
    case True
    let ?snk = "?src\<lparr>pd_links := pd_links ?src @ [?l]\<rparr>"
    have 2: "add_link dev lk = set_object (MediaPad_addLink ?d ?s ?l) (ObjPad ?snk)"
      unfolding add_link_def True [symmetric] using ne
      by (subst MediaPad_addLink_def) (simp add: MediaDevice_object_def O1 as_pad_def)
    have eq: "src = snk" using True assms(3,4) by simp
    have O2: "map_of (mdv_objects (add_link dev lk)) = (map_of (mdv_objects dev))
        (?l \<mapsto> ObjLink lk, ?s \<mapsto> ObjPad ?src, ?t \<mapsto> ObjPad ?snk)"
      unfolding 2 by (subst set_object_simps(1) [OF m2]) (use O1 in \<open>simp add: ids True eq\<close>)
    have "map_ok (mdv_objects (add_link dev lk))" unfolding 2 by (rule set_object_simps(2) [OF m2])
    moreover have "mdv_entities (add_link dev lk) = mdv_entities dev" unfolding 2 1 by simp
    ultimately show ?thesis by (rule that [OF O2, rotated 6]) (use True ids eq in auto)
  next
    case False
    let ?snk = "snk\<lparr>pd_links := pd_links snk @ [?l]\<rparr>"
    have 2: "add_link dev lk = set_object (MediaPad_addLink ?d ?s ?l) (ObjPad ?snk)"
      unfolding add_link_def using ne False assms(4)
      by (subst MediaPad_addLink_def) (simp add: MediaDevice_object_def O1 as_pad_def)
    have O2: "map_of (mdv_objects (add_link dev lk)) = (map_of (mdv_objects dev))
        (?l \<mapsto> ObjLink lk, ?s \<mapsto> ObjPad ?src, ?t \<mapsto> ObjPad ?snk)"
      unfolding 2 by (subst set_object_simps(1) [OF m2]) (simp add: O1 ids)
    have "map_ok (mdv_objects (add_link dev lk))" unfolding 2 by (rule set_object_simps(2) [OF m2])
    moreover have "mdv_entities (add_link dev lk) = mdv_entities dev" unfolding 2 1 by simp
    ultimately show ?thesis by (rule that [OF O2, rotated 6]) (use ids in auto)
  qed
qed

lemma graph_ok_add_link:
  assumes "graph_ok dev" "map_of (mdv_objects dev) (lk_id lk) = None"
    and "map_of (mdv_objects dev) (lk_source lk) = Some (ObjPad src)"
    and "map_of (mdv_objects dev) (lk_sink lk) = Some (ObjPad snk)"
  shows "graph_ok (add_link dev lk)"
    and "links_of (add_link dev lk) = (links_of dev)(lk_id lk \<mapsto> lk)"
proof -
  obtain src' snk' where O: "map_of (mdv_objects (add_link dev lk)) = (map_of (mdv_objects dev))
       (lk_id lk \<mapsto> ObjLink lk, lk_source lk \<mapsto> ObjPad src', lk_sink lk \<mapsto> ObjPad snk')"
    and p: "set (pd_links src') = insert (lk_id lk) (set (pd_links src))"
    "set (pd_links snk') = insert (lk_id lk) (set (pd_links snk))"
    "pd_entity src' = pd_entity src" "pd_entity snk' = pd_entity snk"
    "pd_id src' = lk_source lk" "pd_id snk' = lk_sink lk"
    "map_ok (mdv_objects (add_link dev lk))" "mdv_entities (add_link dev lk) = mdv_entities dev"
    by (rule add_link_objects [OF assms])
  have g: "ids_ok (map_of (mdv_objects dev))" "links_ok (map_of (mdv_objects dev))"
    "pads_ok (map_of (mdv_objects dev))" "entities_ok (map_of (mdv_objects dev)) (mdv_entities dev)"
    using assms(1) by (simp_all add: graph_ok_def)
  have "links_ok (map_of (mdv_objects (add_link dev lk)))"
    unfolding O by (rule links_ok_new_link [OF g(2) assms(2-4)]) (use p assms(3,4) in auto)
  moreover have "pads_ok (map_of (mdv_objects (add_link dev lk)))"
    unfolding O by (rule pads_ok_new_link [OF g(3) assms(2-4) p(3,4)])
  moreover have "entities_ok (map_of (mdv_objects (add_link dev lk))) (mdv_entities dev)"
    unfolding O by (rule entities_ok_new_link [OF g(4) assms(2-4)])
  moreover have "ids_ok (map_of (mdv_objects (add_link dev lk)))"
    unfolding O by (intro ids_ok_upd) (use g(1) p in simp_all)
  ultimately show "graph_ok (add_link dev lk)" using p(7,8) by (simp add: graph_ok_def)
  show "links_of (add_link dev lk) = (links_of dev)(lk_id lk \<mapsto> lk)"
    unfolding links_of_def O using assms(2-4) by (auto simp: as_link_def fun_eq_iff)
qed

lemma populateLinks_ok:
  "populateLinks mls dev = (dev', ok) \<Longrightarrow> graph_ok dev \<Longrightarrow>
   graph_ok dev' \<and> mdv_entities dev' = mdv_entities dev \<and>
   (ok \<longrightarrow> (\<forall>l lk. links_of dev' l = Some lk \<longleftrightarrow>
      links_of dev l = Some lk \<or>
      (\<exists>ml \<in> set mls. \<not> is_interface_link ml \<and> l = ml_id ml \<and> lk = link_object ml)))"
proof (induction mls arbitrary: dev)
  case Nil
  then show ?case by auto
next
  case (Cons ml mls)
  note g = Cons.prems(2)
  show ?case
  proof (cases "is_interface_link ml")
    case True
    with Cons show ?thesis by simp
  next
    case nl: False
    show ?thesis
    proof (cases "\<exists>src snk. map_of (mdv_objects dev) (ml_source_id ml) = Some (ObjPad src) \<and>
        map_of (mdv_objects dev) (ml_sink_id ml) = Some (ObjPad snk) \<and>
        map_of (mdv_objects dev) (ml_id ml) = None")
      case False
      then have "populateLinks (ml # mls) dev = (dev, False)"
        using nl by (auto simp: object_defs Let_def split: option.splits MediaObject.splits)
      with Cons.prems show ?thesis by simp
    next
      case True
      then obtain src snk where o: "map_of (mdv_objects dev) (ml_source_id ml) = Some (ObjPad src)"
        "map_of (mdv_objects dev) (ml_sink_id ml) = Some (ObjPad snk)"
        "map_of (mdv_objects dev) (ml_id ml) = None" by blast
      have ids: "pd_id src = ml_source_id ml" "pd_id snk = ml_sink_id ml"
        using g o by (auto simp: graph_ok_def dest: ids_okD)
      have lo: "lk_id (link_object ml) = ml_id ml" "lk_source (link_object ml) = ml_source_id ml"
        "lk_sink (link_object ml) = ml_sink_id ml" by (simp_all add: link_object_def)
      have eq: "populateLinks (ml # mls) dev = populateLinks mls (add_link dev (link_object ml))"
        using nl o ids by (simp add: object_defs Let_def add_link_def link_object_def)
      have ok: "graph_ok (add_link dev (link_object ml))"
        and lnk: "links_of (add_link dev (link_object ml)) = (links_of dev)(ml_id ml \<mapsto> link_object ml)"
        using graph_ok_add_link [of dev "link_object ml"] g o by (simp_all add: lo)
      have es: "mdv_entities (add_link dev (link_object ml)) = mdv_entities dev"
        using add_link_objects [of dev "link_object ml"] g o by (metis lo)
      have "links_of dev (ml_id ml) = None" using o(3) by (simp add: links_of_def as_link_def)
      with Cons.IH [OF _ ok] Cons.prems(1) eq lnk es nl show ?thesis by auto
    qed
  qed
qed


lemma read_topology_reply:
  "read_topology v replies = Some (Inr topology) \<Longrightarrow> Inr topology \<in> set replies"
  by (induction v replies rule: read_topology.induct) (auto split: if_splits)

lemma graph_ok_close: "graph_ok (MediaDevice_close dev) = graph_ok dev"
  by (simp add: MediaDevice_close_def graph_ok_def)

lemma populate_topology_ok:
  assumes "graph_ok dev" "links_of dev = (\<lambda>_. None)" "mdv_entities dev = []" "\<not> mdv_valid dev"
    and dev'_eq: "dev' = populate_topology f topology dev"
  shows "graph_ok dev'"
    and "mdv_valid dev' \<Longrightarrow> mdv_entities dev' = map me_id (top_entities topology) \<and>
      (\<forall>l lk. links_of dev' l = Some lk \<longleftrightarrow>
        (\<exists>ml \<in> set (top_links topology). \<not> is_interface_link ml \<and> l = ml_id ml \<and> lk = link_object ml))"
proof -
  obtain d1 o1 where 1: "populateEntities f topology (top_entities topology) dev = (d1, o1)" by fastforce
  obtain d2 o2 where 2: "populatePads (top_pads topology) d1 = (d2, o2)" by fastforce
  obtain d3 o3 where 3: "populateLinks (top_links topology) d2 = (d3, o3)" by fastforce
  note g1 = populateEntities_ok [OF 1 assms(1)]
  note g2 = populatePads_ok [OF 2 g1 [THEN conjunct1]]
  note g3 = populateLinks_ok [OF 3 g2 [THEN conjunct1]]
  have v: "mdv_valid d1 = mdv_valid dev" if "populateEntities f topology ents dev = (d1, o1)" for ents d1 o1 dev
    using that by (induction ents arbitrary: dev)
      (auto simp: MediaDevice_addObject_def Let_def split: if_splits)
  have v2: "mdv_valid d2 = mdv_valid d1" if "populatePads pads d1 = (d2, o2)" for pads d2 o2 d1
    using that by (induction pads arbitrary: d1)
      (auto simp: MediaDevice_addObject_def MediaEntity_addPad_def Let_def split: if_splits option.splits)
  have v3: "mdv_valid d3 = mdv_valid d2" if "populateLinks links d2 = (d3, o3)" for links d3 o3 d2
    using that by (induction links arbitrary: d2)
      (auto simp: MediaDevice_addObject_def MediaPad_addLink_def Let_def split: if_splits option.splits)
  note vs = v [OF 1] v2 [OF 2] v3 [OF 3]
  have dev': "dev' = (if \<not> o1 then d1 else if \<not> o2 then d2 else if \<not> o3 then d3 else d3\<lparr>mdv_valid := True\<rparr>)"
    by (simp add: dev'_eq populate_topology_def 1 2 3)
  show "graph_ok dev'" using g1 g2 g3 by (auto simp: dev' intro: graph_ok_cong)
  assume "mdv_valid dev'"
  then have "o1" "o2" "o3" using vs assms(4) by (auto simp: dev' split: if_splits)
  then show "mdv_entities dev' = map me_id (top_entities topology) \<and>
      (\<forall>l lk. links_of dev' l = Some lk \<longleftrightarrow>
        (\<exists>ml \<in> set (top_links topology). \<not> is_interface_link ml \<and> l = ml_id ml \<and> lk = link_object ml))"
    using g1 g2 g3 assms(2,3) by (simp add: dev' links_of_def)
qed

lemma find_link_Some:
  "find_link dev ls t = Some lk \<Longrightarrow> \<exists>l \<in> set ls. links_of dev l = Some lk \<and> lk_sink lk = t"
  by (induction ls) (auto simp: links_of_def MediaDevice_object_def split: option.splits if_splits)

lemma find_link_None:
  "find_link dev ls t = None \<Longrightarrow> l \<in> set ls \<Longrightarrow> links_of dev l = Some lk \<Longrightarrow> lk_sink lk \<noteq> t"
  by (induction ls) (auto simp: links_of_def MediaDevice_object_def split: option.splits if_splits)

lemma find_entity_Some:
  "find_entity_by_name dev es name = Some en \<Longrightarrow>
   en_name en = name \<and> (\<exists>e \<in> set es. map_of (mdv_objects dev) e = Some (ObjEntity en))"
  by (induction es) (auto simp: MediaDevice_object_def split: option.splits if_splits)

lemma find_pad_Some:
  "find_pad dev ps P = Some pd \<Longrightarrow> P pd \<and> (\<exists>p \<in> set ps. map_of (mdv_objects dev) p = Some (ObjPad pd))"
  by (induction ps) (auto simp: MediaDevice_object_def split: option.splits if_splits)

section \<open>Disabling links\<close>

text \<open>The links that \<open>disableLinks\<close> may clear, and how objects change while it runs.\<close>

definition clearable :: "MediaLink \<Rightarrow> bool" where
  "clearable lk \<longleftrightarrow> and (lk_flags lk) MEDIA_LNK_FL_IMMUTABLE = 0"

definition cleared :: "MediaLink \<Rightarrow> MediaLink" where
  "cleared lk = lk\<lparr>lk_flags := and (lk_flags lk) (not MEDIA_LNK_FL_ENABLED)\<rparr>"

definition some_cleared :: "objects \<Rightarrow> objects \<Rightarrow> bool" where
  "some_cleared objs objs' \<longleftrightarrow>
     (\<forall>i. objs' i = objs i \<or>
       (\<exists>lk. objs i = Some (ObjLink lk) \<and> clearable lk \<and> objs' i = Some (ObjLink (cleared lk))))"

lemma cleared_simps [simp]:
  "cleared (cleared lk) = cleared lk" "clearable (cleared lk) = clearable lk"
  "lk_id (cleared lk) = lk_id lk"
proof -
  have "and (not MEDIA_LNK_FL_ENABLED) MEDIA_LNK_FL_IMMUTABLE = MEDIA_LNK_FL_IMMUTABLE"
    by (simp add: MEDIA_LNK_FL_ENABLED_def MEDIA_LNK_FL_IMMUTABLE_def)
  then show "clearable (cleared lk) = clearable lk"
    by (simp add: clearable_def cleared_def and.assoc)
qed (simp_all add: cleared_def and.assoc)

lemma some_cleared_refl [simp]: "some_cleared objs objs"
  by (simp add: some_cleared_def)

lemma some_cleared_trans:
  assumes "some_cleared a b" "some_cleared b c"
  shows "some_cleared a c"
  unfolding some_cleared_def
proof
  fix i
  show "c i = a i \<or> (\<exists>lk. a i = Some (ObjLink lk) \<and> clearable lk \<and> c i = Some (ObjLink (cleared lk)))"
    using assms(1) [unfolded some_cleared_def, rule_format, of i]
      assms(2) [unfolded some_cleared_def, rule_format, of i]
    by (metis MediaObject.inject(3) cleared_simps(1) option.inject)
qed

lemma some_cleared_pad: "some_cleared a b \<Longrightarrow> b p = Some (ObjPad pd) \<longleftrightarrow> a p = Some (ObjPad pd)"
  unfolding some_cleared_def by (metis MediaObject.distinct(5) option.inject)

lemma some_cleared_entity: "some_cleared a b \<Longrightarrow> b p = Some (ObjEntity pd) \<longleftrightarrow> a p = Some (ObjEntity pd)"
  unfolding some_cleared_def by (metis MediaObject.distinct(3) option.inject)

lemma some_cleared_done:
  "some_cleared a b \<Longrightarrow> a l = Some (ObjLink lk) \<Longrightarrow> cleared lk = lk \<Longrightarrow> b l = Some (ObjLink lk)"
  unfolding some_cleared_def by (metis MediaObject.inject(3) option.inject)


abbreviation objs_of :: "'k \<times> MediaDevice \<Rightarrow> objects" where
  "objs_of s \<equiv> map_of (mdv_objects (snd s))"

definition disabling :: "'k \<times> MediaDevice \<Rightarrow> 'k \<times> MediaDevice \<Rightarrow> bool" where
  "disabling s s' \<longleftrightarrow>
     map_ok (mdv_objects (snd s')) \<and> ids_ok (objs_of s') \<and>
     some_cleared (objs_of s) (objs_of s') \<and> mdv_entities (snd s') = mdv_entities (snd s)"

definition link_done :: "objects \<Rightarrow> u32 \<Rightarrow> bool" where
  "link_done objs l \<longleftrightarrow> (\<forall>lk. objs l = Some (ObjLink lk) \<longrightarrow> clearable lk \<longrightarrow> cleared lk = lk)"

lemma link_done_mono: "some_cleared a b \<Longrightarrow> link_done a l \<Longrightarrow> link_done b l"
  unfolding some_cleared_def link_done_def by (metis MediaObject.inject(3) option.inject)

lemma disabling_refl:
  "map_ok (mdv_objects (snd s)) \<Longrightarrow> ids_ok (objs_of s) \<Longrightarrow> disabling s s"
  by (simp add: disabling_def)

lemma disabling_trans: "disabling a b \<Longrightarrow> disabling b c \<Longrightarrow> disabling a c"
  unfolding disabling_def using some_cleared_trans by fastforce

lemma disabling_ok:
  "disabling a b \<Longrightarrow> map_ok (mdv_objects (snd b))" "disabling a b \<Longrightarrow> ids_ok (objs_of b)"
  "disabling a b \<Longrightarrow> some_cleared (objs_of a) (objs_of b)"
  by (simp_all add: disabling_def)

lemma setEnabled_disabling:
  assumes "MediaLink_setEnabled setup s lk False = (s', ret)" "clearable lk"
    and "map_ok (mdv_objects (snd s))" "ids_ok (objs_of s)" "objs_of s l = Some (ObjLink lk)"
  shows "disabling s s' \<and> (ret = None \<longrightarrow> link_done (objs_of s') l)"
proof -
  have lid: "lk_id lk = l" using assms(4,5) by (auto dest: ids_okD)
  obtain k' r where k: "setup (fst s) lk (and (lk_flags lk) (not MEDIA_LNK_FL_ENABLED)) = (k', r)"
    by fastforce
  show ?thesis
  proof (cases r)
    case (Some e)
    with assms(1) k have "s' = (k', snd s)" "ret = Some e"
      by (auto simp: MediaLink_setEnabled_def)
    then show ?thesis using assms(3,4) by (simp add: disabling_def)
  next
    case None
    with assms(1) k have "s' = (k', set_object (snd s) (ObjLink (cleared lk)))"
      by (auto simp: MediaLink_setEnabled_def cleared_def)
    moreover have "map_of (mdv_objects (set_object (snd s) (ObjLink (cleared lk))))
        = (objs_of s)(l \<mapsto> ObjLink (cleared lk))"
      using assms(3) lid by simp
    ultimately show ?thesis
      using assms(2-5) lid by (auto simp: disabling_def some_cleared_def link_done_def ids_ok_upd)
  qed
qed

lemma disable_pad_links_ok:
  "disable_pad_links setup ls s = (s', ret) \<Longrightarrow> map_ok (mdv_objects (snd s)) \<Longrightarrow> ids_ok (objs_of s) \<Longrightarrow>
   disabling s s' \<and> (ret = None \<longrightarrow> (\<forall>l \<in> set ls. link_done (objs_of s') l))"
proof (induction ls arbitrary: s)
  case Nil
  then show ?case by (auto simp: disabling_refl)
next
  case (Cons l ls)
  show ?case
  proof (cases "\<exists>lk. objs_of s l = Some (ObjLink lk) \<and> clearable lk")
    case False
    then have "link_done (objs_of s) l" by (simp add: link_done_def)
    moreover have "disable_pad_links setup ls s = (s', ret)"
      using Cons.prems(1) False
      by (auto simp: MediaDevice_object_def clearable_def split: option.splits if_splits)
    ultimately show ?thesis
      using Cons.IH [of s] Cons.prems(2,3) link_done_mono disabling_ok(3) by fastforce
  next
    case True
    then obtain lk where lk: "objs_of s l = Some (ObjLink lk)" "clearable lk" by blast
    obtain s1 r1 where 1: "MediaLink_setEnabled setup s lk False = (s1, r1)" by fastforce
    note se = setEnabled_disabling [OF 1 lk(2) Cons.prems(2,3) lk(1)]
    have "as_link (MediaDevice_object (snd s) l) = Some lk" using lk(1) by (simp add: MediaDevice_object_def)
    then have eq: "disable_pad_links setup (l # ls) s
        = (if r1 \<noteq> None then (s1, r1) else disable_pad_links setup ls s1)"
      using lk(2) 1 by (simp add: clearable_def)
    show ?thesis
    proof (cases r1)
      case (Some e)
      then show ?thesis using eq se Cons.prems(1) by auto
    next
      case None
      with eq Cons.prems(1) have "disable_pad_links setup ls s1 = (s', ret)" by simp
      note ih = Cons.IH [OF this disabling_ok(1,2) [OF conjunct1 [OF se]]]
      have "link_done (objs_of s') l"
        using se None link_done_mono [OF disabling_ok(3) [OF conjunct1 [OF ih]]] by simp
      then show ?thesis using ih se disabling_trans by fastforce
    qed
  qed
qed

definition pad_done :: "objects \<Rightarrow> u32 \<Rightarrow> bool" where
  "pad_done objs p \<longleftrightarrow> (\<forall>pd. objs p = Some (ObjPad pd) \<longrightarrow> and (pd_flags pd) MEDIA_PAD_FL_SOURCE \<noteq> 0 \<longrightarrow>
     (\<forall>l \<in> set (pd_links pd). link_done objs l))"

lemma pad_done_mono: "some_cleared a b \<Longrightarrow> pad_done a p \<Longrightarrow> pad_done b p"
  unfolding pad_done_def by (metis some_cleared_pad link_done_mono)

lemma disable_entity_links_ok:
  "disable_entity_links setup ps s = (s', ret) \<Longrightarrow> map_ok (mdv_objects (snd s)) \<Longrightarrow> ids_ok (objs_of s) \<Longrightarrow>
   disabling s s' \<and> (ret = None \<longrightarrow> (\<forall>p \<in> set ps. pad_done (objs_of s') p))"
proof (induction ps arbitrary: s)
  case Nil
  then show ?case by (auto simp: disabling_refl)
next
  case (Cons p ps)
  show ?case
  proof (cases "\<exists>pd. objs_of s p = Some (ObjPad pd) \<and> and (pd_flags pd) MEDIA_PAD_FL_SOURCE \<noteq> 0")
    case False
    then have "pad_done (objs_of s) p" by (auto simp: pad_done_def)
    moreover have "disable_entity_links setup ps s = (s', ret)"
      using Cons.prems(1) False
      by (auto simp: MediaDevice_object_def split: option.splits if_splits)
    ultimately show ?thesis
      using Cons.IH [of s] Cons.prems(2,3) pad_done_mono disabling_ok(3) by fastforce
  next
    case True
    then obtain pd where pd: "objs_of s p = Some (ObjPad pd)" "and (pd_flags pd) MEDIA_PAD_FL_SOURCE \<noteq> 0"
      by blast
    obtain s1 r1 where 1: "disable_pad_links setup (pd_links pd) s = (s1, r1)" by fastforce
    note dp = disable_pad_links_ok [OF 1 Cons.prems(2,3)]
    have "as_pad (MediaDevice_object (snd s) p) = Some pd" using pd(1) by (simp add: MediaDevice_object_def)
    then have eq: "disable_entity_links setup (p # ps) s
        = (if r1 \<noteq> None then (s1, r1) else disable_entity_links setup ps s1)"
      using pd(2) 1 by simp
    show ?thesis
    proof (cases r1)
      case (Some e)
      then show ?thesis using eq dp Cons.prems(1) by auto
    next
      case None
      with eq Cons.prems(1) have "disable_entity_links setup ps s1 = (s', ret)" by simp
      note ih = Cons.IH [OF this disabling_ok(1,2) [OF conjunct1 [OF dp]]]
      have "pad_done (objs_of s1) p"
        using dp None pd some_cleared_pad [OF disabling_ok(3) [OF conjunct1 [OF dp]], of p]
        by (simp add: pad_done_def)
      then have "pad_done (objs_of s') p"
        using pad_done_mono [OF disabling_ok(3) [OF conjunct1 [OF ih]]] by simp
      then show ?thesis using ih dp disabling_trans by fastforce
    qed
  qed
qed

lemma disable_links_ok:
  "disable_links setup es s = (s', ret) \<Longrightarrow> map_ok (mdv_objects (snd s)) \<Longrightarrow> ids_ok (objs_of s) \<Longrightarrow>
   disabling s s' \<and> (ret = None \<longrightarrow> (\<forall>e \<in> set es. \<forall>en. objs_of s' e = Some (ObjEntity en) \<longrightarrow>
     (\<forall>p \<in> set (en_pads en). pad_done (objs_of s') p)))"
proof (induction es arbitrary: s)
  case Nil
  then show ?case by (auto simp: disabling_refl)
next
  case (Cons e es)
  show ?case
  proof (cases "as_entity (MediaDevice_object (snd s) e)")
    case None
    then have ne: "objs_of s e \<noteq> Some (ObjEntity en)" for en by (auto simp: MediaDevice_object_def as_entity_def)
    from None Cons.prems(1) have "disable_links setup es s = (s', ret)" by simp
    note ih = Cons.IH [OF this Cons.prems(2,3)]
    then show ?thesis
      using ne some_cleared_entity [OF disabling_ok(3) [OF conjunct1 [OF ih]]] by auto
  next
    case (Some en)
    then have en: "objs_of s e = Some (ObjEntity en)" by (simp add: MediaDevice_object_def)
    obtain s1 r1 where 1: "disable_entity_links setup (en_pads en) s = (s1, r1)" by fastforce
    note de = disable_entity_links_ok [OF 1 Cons.prems(2,3)]
    show ?thesis
    proof (cases r1)
      case (Some e')
      then show ?thesis using \<open>as_entity _ = Some en\<close> 1 de Cons.prems(1) by auto
    next
      case None
      with \<open>as_entity _ = Some en\<close> 1 Cons.prems(1) have "disable_links setup es s1 = (s', ret)" by simp
      note ih = Cons.IH [OF this disabling_ok(1,2) [OF conjunct1 [OF de]]]
      have "\<forall>p \<in> set (en_pads en). pad_done (objs_of s') p"
        using de None pad_done_mono [OF disabling_ok(3) [OF conjunct1 [OF ih]]] by blast
      moreover have "objs_of s' e = Some (ObjEntity en') \<longleftrightarrow> en' = en" for en'
        using some_cleared_entity [OF disabling_ok(3) [OF disabling_trans [OF conjunct1 [OF de] conjunct1 [OF ih]]]] en
        by auto
      ultimately show ?thesis
        using conjunct2 [OF ih] disabling_trans [OF conjunct1 [OF de] conjunct1 [OF ih]] by simp
    qed
  qed
qed


section \<open>Properties\<close>



definition example_topology :: media_v2_topology where
  "example_topology =
     \<lparr>top_version = 5,
      top_entities = [\<lparr>me_id = 1, me_name = ''sensor'', me_function = 0, me_flags = 0\<rparr>,
                      \<lparr>me_id = 2, me_name = ''bridge'', me_function = 0, me_flags = 0\<rparr>],
      top_interfaces = [],
      top_pads = [\<lparr>mp_id = 3, mp_entity_id = 1, mp_flags = 2, mp_index = 0\<rparr>,
                  \<lparr>mp_id = 4, mp_entity_id = 2, mp_flags = 1, mp_index = 0\<rparr>],
      top_links = [\<lparr>ml_id = 6, ml_source_id = 3, ml_sink_id = 4, ml_flags = 1\<rparr>]\<rparr>"

definition example_device :: MediaDevice where
  "example_device = populate_topology (\<lambda>_. Inl EINVAL) example_topology
     ((MediaDevice_new ''/dev/media0'')\<lparr>mdv_version := 0x50000\<rparr>)"

lemma example_device_ok: "graph_ok example_device"
  by (rule populate_topology_ok(1) [OF _ _ _ _ example_device_def])
    (simp_all add: MediaDevice_new_def graph_ok_def ids_ok_def entities_ok_def
      pads_ok_def links_ok_def links_of_def fun_eq_iff)

definition example_source :: MediaPad where
  "example_source = \<lparr>pd_id = 3, pd_index = 0, pd_entity = 1, pd_flags = 2, pd_links = [6]\<rparr>"

definition example_sink :: MediaPad where
  "example_sink = \<lparr>pd_id = 4, pd_index = 0, pd_entity = 2, pd_flags = 1, pd_links = [6]\<rparr>"

definition example_link :: MediaLink where
  "example_link = \<lparr>lk_id = 6, lk_source = 3, lk_sink = 4, lk_flags = 1\<rparr>"

lemmas graph_code = populate_topology_def MEDIA_V2_ENTITY_HAS_FLAGS_def
  MediaDevice_findInterface_def MediaEntity_new_def MediaPad_new_def MediaLink_new_def
  object_defs MediaEntity_addPad_def MediaPad_addLink_def is_interface_link_def
  MEDIA_LNK_FL_LINK_TYPE_def MEDIA_LNK_FL_INTERFACE_LINK_def MediaDevice_new_def

lemma example_device_objects:
  "mdv_objects example_device =
     [(1, ObjEntity (MediaEntity_new (top_entities example_topology ! 0) 0 0\<lparr>en_pads := [3]\<rparr>)),
      (2, ObjEntity (MediaEntity_new (top_entities example_topology ! 1) 0 0\<lparr>en_pads := [4]\<rparr>)),
      (3, ObjPad example_source), (4, ObjPad example_sink), (6, ObjLink example_link)]"
  "mdv_entities example_device = [1, 2]"
  by (simp_all add: example_device_def example_topology_def graph_code example_source_def
      example_sink_def example_link_def)


text \<open>
  In a consistent graph, the link between two pads is found exactly when there is one: the
  result goes from the source to the sink, and there is no result only when no link does.
\<close>

theorem MediaDevice_link_pads_found:
  assumes "graph_ok dev"
    and "MediaDevice_object dev (pd_id source) = Some (ObjPad source)"
    and "MediaDevice_object dev (pd_id sink) = Some (ObjPad sink)"
    and "pd_id source \<noteq> pd_id sink"
  shows "case MediaDevice_link_pads dev source sink of
      Some lk \<Rightarrow> MediaDevice_object dev (lk_id lk) = Some (ObjLink lk) \<and>
        lk_source lk = pd_id source \<and> lk_sink lk = pd_id sink
    | None \<Rightarrow> \<forall>l lk. MediaDevice_object dev l = Some (ObjLink lk) \<longrightarrow>
        lk_source lk = pd_id source \<longrightarrow> lk_sink lk \<noteq> pd_id sink"
proof (cases "MediaDevice_link_pads dev source sink")
  case (Some lk)
  then obtain l where l: "l \<in> set (pd_links source)" "links_of dev l = Some lk" "lk_sink lk = pd_id sink"
    unfolding MediaDevice_link_pads_def by (meson find_link_Some)
  have "lk_source lk = pd_id source"
    using assms l by (fastforce simp: graph_ok_def links_ok_def links_of_def MediaDevice_object_def)
  moreover have "lk_id lk = l"
    using assms(1) l(2) by (auto simp: graph_ok_def links_of_def dest: ids_okD)
  ultimately show ?thesis using Some l(2,3) by (simp add: links_of_def MediaDevice_object_def)
next
  case None
  have "lk_sink lk \<noteq> pd_id sink"
    if "MediaDevice_object dev l = Some (ObjLink lk)" "lk_source lk = pd_id source" for l lk
  proof -
    have "l \<in> set (pd_links source)"
      using assms(1,2) that unfolding graph_ok_def links_ok_def MediaDevice_object_def by fastforce
    with None that(1) show ?thesis
      using find_link_None by (fastforce simp: MediaDevice_link_pads_def links_of_def MediaDevice_object_def)
  qed
  with None show ?thesis by simp
qed

theorem MediaDevice_link_pads_found_witness:
  "\<exists>lk. MediaDevice_link_pads example_device example_source example_sink = Some lk \<and>
     lk_source lk = 3 \<and> lk_sink lk = 4"
proof -
  have "MediaDevice_object example_device (pd_id example_source) = Some (ObjPad example_source)"
    "MediaDevice_object example_device (pd_id example_sink) = Some (ObjPad example_sink)"
    "pd_id example_source \<noteq> pd_id example_sink"
    "MediaDevice_object example_device 6 = Some (ObjLink example_link)"
    by (simp_all add: MediaDevice_object_def example_device_objects, simp_all add: example_source_def example_sink_def)
  note found = MediaDevice_link_pads_found [OF example_device_ok this(1-3)] this(4)
  show ?thesis
  proof (cases "MediaDevice_link_pads example_device example_source example_sink")
    case None
    with found(1) have "\<forall>l lk. MediaDevice_object example_device l = Some (ObjLink lk) \<longrightarrow>
        lk_source lk = pd_id example_source \<longrightarrow> lk_sink lk \<noteq> pd_id example_sink" by simp
    from this [rule_format, OF found(2)] show ?thesis
      by (simp add: example_source_def example_sink_def example_link_def)
  next
    case (Some lk)
    with found show ?thesis by (simp add: example_source_def example_sink_def)
  qed
qed

text \<open>
  Disabling the links of a device, when the kernel accepts every request, leaves no mutable link
  of a source pad enabled, and changes nothing but that flag of mutable links.
\<close>

theorem MediaDevice_disableLinks_clears:
  assumes "graph_ok dev" "MediaDevice_disableLinks setup (k, dev) = ((k', dev'), None)"
  shows "(\<forall>l lk. MediaDevice_object dev' l = Some (ObjLink lk) \<longrightarrow>
      (\<exists>pd. MediaDevice_object dev' (lk_source lk) = Some (ObjPad pd) \<and>
         and (pd_flags pd) MEDIA_PAD_FL_SOURCE \<noteq> 0) \<longrightarrow>
      and (lk_flags lk) MEDIA_LNK_FL_IMMUTABLE = 0 \<longrightarrow> and (lk_flags lk) MEDIA_LNK_FL_ENABLED = 0) \<and>
    (\<forall>i. MediaDevice_object dev' i = MediaDevice_object dev i \<or>
       (\<exists>lk. MediaDevice_object dev i = Some (ObjLink lk) \<and> clearable lk \<and>
         MediaDevice_object dev' i = Some (ObjLink (cleared lk))))"
proof -
  have g: "map_ok (mdv_objects dev)" "ids_ok (map_of (mdv_objects dev))"
    "entities_ok (map_of (mdv_objects dev)) (mdv_entities dev)"
    "pads_ok (map_of (mdv_objects dev))" "links_ok (map_of (mdv_objects dev))"
    using assms(1) by (simp_all add: graph_ok_def)
  have "disable_links setup (mdv_entities dev) (k, dev) = ((k', dev'), None)"
    using assms(2) by (simp add: MediaDevice_disableLinks_def)
  from disable_links_ok [OF this] g have d: "disabling (k, dev) (k', dev')"
    and visited: "\<And>e en p. e \<in> set (mdv_entities dev) \<Longrightarrow> map_of (mdv_objects dev') e = Some (ObjEntity en) \<Longrightarrow>
      p \<in> set (en_pads en) \<Longrightarrow> pad_done (map_of (mdv_objects dev')) p" by auto
  have sc: "some_cleared (map_of (mdv_objects dev)) (map_of (mdv_objects dev'))"
    using d by (simp add: disabling_def)
  have en: "and (lk_flags lk) MEDIA_LNK_FL_ENABLED = 0" if "cleared lk = lk" for lk
  proof -
    have "and (lk_flags (cleared lk)) MEDIA_LNK_FL_ENABLED = 0" by (simp add: cleared_def and.assoc)
    with that show ?thesis by simp
  qed
  have "cleared lk = lk"
    if lk: "map_of (mdv_objects dev') l = Some (ObjLink lk)" and
      pd: "map_of (mdv_objects dev') (lk_source lk) = Some (ObjPad pd)"
      "and (pd_flags pd) MEDIA_PAD_FL_SOURCE \<noteq> 0" and "clearable lk" for l lk pd
  proof -
    obtain lk0 where lk0: "map_of (mdv_objects dev) l = Some (ObjLink lk0)" "lk_source lk0 = lk_source lk"
      using sc lk unfolding some_cleared_def cleared_def by force
    have pd0: "map_of (mdv_objects dev) (lk_source lk) = Some (ObjPad pd)"
      using some_cleared_pad [OF sc] pd(1) by simp
    with g(5) lk0 have mem: "l \<in> set (pd_links pd)" unfolding links_ok_def by fastforce
    obtain ent where ent: "map_of (mdv_objects dev) (pd_entity pd) = Some (ObjEntity ent)"
      "lk_source lk \<in> set (en_pads ent)"
      using g(4) pd0 unfolding pads_ok_def by blast
    have "pd_entity pd \<in> set (mdv_entities dev)" using g(3) ent(1) unfolding entities_ok_def by blast
    moreover have "map_of (mdv_objects dev') (pd_entity pd) = Some (ObjEntity ent)"
      using some_cleared_entity [OF sc] ent(1) by simp
    ultimately have "pad_done (map_of (mdv_objects dev')) (lk_source lk)" using visited ent(2) by blast
    with pd mem lk \<open>clearable lk\<close> show ?thesis by (simp add: pad_done_def link_done_def)
  qed
  then show ?thesis
    using en sc unfolding some_cleared_def MediaDevice_object_def clearable_def by blast
qed


theorem MediaDevice_disableLinks_clears_witness:
  "\<exists>k' dev'. MediaDevice_disableLinks (\<lambda>k lk flags. (k + 1, None)) (0 :: nat, example_device)
       = ((k', dev'), None) \<and>
     (\<forall>lk. MediaDevice_object dev' 6 = Some (ObjLink lk) \<longrightarrow> lk_source lk = 3 \<longrightarrow>
        MediaDevice_object dev' 3 = Some (ObjPad example_source) \<longrightarrow> clearable lk \<longrightarrow>
        and (lk_flags lk) MEDIA_LNK_FL_ENABLED = 0)"
proof -
  obtain k' dev' where d: "MediaDevice_disableLinks (\<lambda>k lk flags. (k + 1, None)) (0 :: nat, example_device)
       = ((k', dev'), None)"
    by (simp add: MediaDevice_disableLinks_def example_device_objects MediaDevice_object_def
        MediaLink_setEnabled_def example_source_def example_sink_def example_link_def
        MEDIA_LNK_FL_IMMUTABLE_def MEDIA_PAD_FL_SOURCE_def MEDIA_LNK_FL_ENABLED_def Let_def
        set_object_def)
  have "and (pd_flags example_source) MEDIA_PAD_FL_SOURCE \<noteq> 0"
    by (simp add: example_source_def MEDIA_PAD_FL_SOURCE_def)
  with MediaDevice_disableLinks_clears [OF example_device_ok d] d show ?thesis
    by (auto simp: clearable_def)
qed

end
