(* ===== verification/CameraState.thy ===== *)
theory CameraState
  imports Prelude Requests Streams
begin

text \<open>
  The access state machine of a camera (\<open>Camera::Private\<close>, \<open>camera.cpp\<close>) and camera configurations.
  States are ordered by the values of the enumeration, which range checks rely on.
\<close>

section \<open>States\<close>

datatype CameraState =
  CameraAvailable | CameraAcquired | CameraConfigured | CameraStopping | CameraRunning

fun state_value :: "CameraState \<Rightarrow> nat" where
  "state_value CameraAvailable = 0"
| "state_value CameraAcquired = 1"
| "state_value CameraConfigured = 2"
| "state_value CameraStopping = 3"
| "state_value CameraRunning = 4"

lemma state_value_inj: "state_value a = state_value b \<Longrightarrow> a = b"
  by (cases a; cases b) simp_all

instantiation CameraState :: linorder
begin

definition less_CameraState :: "CameraState \<Rightarrow> CameraState \<Rightarrow> bool" where
  "less_CameraState a b \<longleftrightarrow> state_value a < state_value b"

definition less_eq_CameraState :: "CameraState \<Rightarrow> CameraState \<Rightarrow> bool" where
  "less_eq_CameraState a b \<longleftrightarrow> state_value a \<le> state_value b"

instance
  by standard (auto simp: less_CameraState_def less_eq_CameraState_def dest: state_value_inj)

end

lemma state_le [simp]: "a \<le> b \<longleftrightarrow> state_value a \<le> state_value b"
  by (simp add: less_eq_CameraState_def)

section \<open>Access control\<close>

record CameraPrivate =
  cp_id :: string
  cp_streams :: "nat list"
  cp_activeStreams :: "nat set"
  cp_disconnected :: bool
  cp_state :: CameraState

definition CameraPrivate_new :: "string \<Rightarrow> nat list \<Rightarrow> CameraPrivate" where
  "CameraPrivate_new cid streams =
     \<lparr>cp_id = cid, cp_streams = streams, cp_activeStreams = {}, cp_disconnected = False,
      cp_state = CameraAvailable\<rparr>"

definition isAccessAllowed :: "CameraPrivate \<Rightarrow> CameraState \<Rightarrow> bool \<Rightarrow> errno option" where
  "isAccessAllowed d state allowDisconnected =
     (if \<not> allowDisconnected \<and> cp_disconnected d then Some ENODEV
      else if cp_state d = state then None
      else Some EACCES)"

definition isAccessAllowed_range ::
    "CameraPrivate \<Rightarrow> CameraState \<Rightarrow> CameraState \<Rightarrow> bool \<Rightarrow> errno option" where
  "isAccessAllowed_range d low high allowDisconnected =
     (if \<not> allowDisconnected \<and> cp_disconnected d then Some ENODEV
      else if low \<le> cp_state d \<and> cp_state d \<le> high then None
      else Some EACCES)"

definition Private_disconnect :: "CameraPrivate \<Rightarrow> CameraPrivate" where
  "Private_disconnect d =
     (let d = (if cp_state d = CameraRunning then d\<lparr>cp_state := CameraConfigured\<rparr> else d)
      in d\<lparr>cp_disconnected := True\<rparr>)"

definition Private_setState :: "CameraPrivate \<Rightarrow> CameraState \<Rightarrow> CameraPrivate" where
  "Private_setState d state = d\<lparr>cp_state := state\<rparr>"

lemma isAccessAllowed_None [simp]:
  "isAccessAllowed d state allow = None \<longleftrightarrow> (allow \<or> \<not> cp_disconnected d) \<and> cp_state d = state"
  by (simp add: isAccessAllowed_def)

lemma isAccessAllowed_range_None [simp]:
  "isAccessAllowed_range d low high allow = None \<longleftrightarrow>
   (allow \<or> \<not> cp_disconnected d) \<and> low \<le> cp_state d \<and> cp_state d \<le> high"
  by (simp add: isAccessAllowed_range_def)

lemma running_range [simp]:
  "CameraStopping \<le> s \<and> s \<le> CameraRunning \<longleftrightarrow> s = CameraStopping \<or> s = CameraRunning"
  by (cases s) simp_all

section \<open>Camera configurations\<close>

datatype ConfigStatus = Valid | Adjusted | Invalid

text \<open>A configuration is its list of stream configurations and the transform, a 3-bit value.\<close>

record CameraConfiguration =
  cc_transform :: u32
  cc_config :: "StreamConfiguration list"

definition CameraConfiguration_new :: CameraConfiguration where
  "CameraConfiguration_new = \<lparr>cc_transform = 0, cc_config = []\<rparr>"

definition addConfiguration :: "CameraConfiguration \<Rightarrow> StreamConfiguration \<Rightarrow> CameraConfiguration" where
  "addConfiguration config cfg = config\<lparr>cc_config := cc_config config @ [cfg]\<rparr>"

end
