(* ===== verification/Transforms.thy ===== *)
theory Transforms
  imports Prelude
begin

text \<open>
  Plane transforms: \<open>transform.h\<close>, \<open>transform.cpp\<close>. A transform is an integer below eight whose bits
  are the horizontal flip, the vertical flip and the transposition, applied in this order. The
  specification is what a transform does to an image.
\<close>

unbundle bit_operations_syntax

type_synonym Transform = i32

definition Identity :: Transform where "Identity = 0"
definition HFlip :: Transform where "HFlip = 1"
definition VFlip :: Transform where "VFlip = 2"
definition HVFlip :: Transform where "HVFlip = HFlip OR VFlip"
definition Rot180 :: Transform where "Rot180 = HVFlip"
definition Transpose :: Transform where "Transpose = 4"
definition Rot270 :: Transform where "Rot270 = HFlip OR Transpose"
definition Rot90 :: Transform where "Rot90 = VFlip OR Transpose"
definition Rot180Transpose :: Transform where "Rot180Transpose = HFlip OR VFlip OR Transpose"

lemmas transform_values = Identity_def HFlip_def VFlip_def HVFlip_def Rot180_def Transpose_def
  Rot270_def Rot90_def Rot180Transpose_def

definition Transform_not :: "Transform \<Rightarrow> bool" where
  "Transform_not t \<longleftrightarrow> t = Identity"

definition Transform_complement :: "Transform \<Rightarrow> Transform" where
  "Transform_complement t = NOT t AND 7"

definition Transform_mult :: "Transform \<Rightarrow> Transform \<Rightarrow> Transform" where
  "Transform_mult t1 t0 =
     (let reordered =
        (if \<not> Transform_not (t0 AND Transpose) then
           let r = t1 AND Transpose;
               r = (if \<not> Transform_not (t1 AND HFlip) then r OR VFlip else r);
               r = (if \<not> Transform_not (t1 AND VFlip) then r OR HFlip else r)
           in r
         else t1)
      in reordered XOR t0)"

definition inverses :: "Transform list" where
  "inverses = [Identity, HFlip, VFlip, HVFlip, Transpose, Rot90, Rot270, Rot180Transpose]"

definition Transform_minus :: "Transform \<Rightarrow> Transform" where
  "Transform_minus t = inverses ! unat t"

definition transformFromRotation :: "int \<Rightarrow> Transform \<times> bool" where
  "transformFromRotation angle =
     (let angle = angle smod 360;
          angle = (if angle < 0 then angle + 360 else angle)
      in if angle = 0 then (Identity, True)
         else if angle = 90 then (Rot90, True)
         else if angle = 180 then (Rot180, True)
         else if angle = 270 then (Rot270, True)
         else (Identity, False))"

definition transformToString :: "Transform \<Rightarrow> string" where
  "transformToString t =
     [''identity'', ''hflip'', ''vflip'', ''hvflip'', ''transpose'', ''rot270'', ''rot90'',
      ''rot180transpose''] ! unat t"

section \<open>Images\<close>

text \<open>An image is its width, its height and the pixel at a column and a row.\<close>

datatype 'a image = Image (img_w: int) (img_h: int) (img_at: "int \<Rightarrow> int \<Rightarrow> 'a")

fun flip_h :: "'a image \<Rightarrow> 'a image" where
  "flip_h (Image w h p) = Image w h (\<lambda>x y. p (w - 1 - x) y)"

fun flip_v :: "'a image \<Rightarrow> 'a image" where
  "flip_v (Image w h p) = Image w h (\<lambda>x y. p x (h - 1 - y))"

fun swap_axes :: "'a image \<Rightarrow> 'a image" where
  "swap_axes (Image w h p) = Image h w (\<lambda>x y. p y x)"

text \<open>A quarter turn clockwise: the left column, read upwards, becomes the top row.\<close>

fun quarter_turn :: "'a image \<Rightarrow> 'a image" where
  "quarter_turn (Image w h p) = Image h w (\<lambda>x y. p y (h - 1 - x))"

definition apply_transform :: "Transform \<Rightarrow> 'a image \<Rightarrow> 'a image" where
  "apply_transform t img =
     (let img = (if bit t 0 then flip_h img else img);
          img = (if bit t 1 then flip_v img else img)
      in if bit t 2 then swap_axes img else img)"

definition is_transform :: "Transform \<Rightarrow> bool" where
  "is_transform t \<longleftrightarrow> unat t < 8"

section \<open>Lemmas\<close>

lemma is_transform_cases:
  assumes "is_transform t"
  obtains "t = 0" | "t = 1" | "t = 2" | "t = 3" | "t = 4" | "t = 5" | "t = 6" | "t = 7"
proof -
  have "unat t = 0 \<or> unat t = 1 \<or> unat t = 2 \<or> unat t = 3 \<or> unat t = 4 \<or> unat t = 5 \<or>
      unat t = 6 \<or> unat t = 7" using assms unfolding is_transform_def by arith
  then show ?thesis by (elim disjE) (rule that, rule unat_eqI, simp)+
qed

lemma mask_zero_iff:
  "Transform_not (t AND HFlip) \<longleftrightarrow> \<not> bit t 0"
  "Transform_not (t AND VFlip) \<longleftrightarrow> \<not> bit t 1"
  "Transform_not (t AND Transpose) \<longleftrightarrow> \<not> bit t 2"
proof -
  have m: "(t AND push_bit n 1 = 0) \<longleftrightarrow> \<not> bit t n" for n
    by (simp add: bit_iff_and_push_bit_not_eq_0)
  show "Transform_not (t AND HFlip) \<longleftrightarrow> \<not> bit t 0" using m [of 0]
    by (simp add: Transform_not_def Identity_def HFlip_def)
  show "Transform_not (t AND VFlip) \<longleftrightarrow> \<not> bit t 1" using m [of 1]
    by (simp add: Transform_not_def Identity_def VFlip_def)
  show "Transform_not (t AND Transpose) \<longleftrightarrow> \<not> bit t 2" using m [of 2]
    by (simp add: Transform_not_def Identity_def Transpose_def push_bit_eq_mult)
qed

lemma transform_bits [simp]:
  "bit HFlip n \<longleftrightarrow> n = 0" "bit VFlip n \<longleftrightarrow> n = 1" "bit Transpose n \<longleftrightarrow> n = 2"
proof -
  have m: "bit (push_bit k (1 :: i32)) n \<longleftrightarrow> n = k" if "k < 32" for k
    using that by (auto simp: bit_simps)
  show "bit HFlip n \<longleftrightarrow> n = 0" using m [of 0] by (simp add: HFlip_def)
  show "bit VFlip n \<longleftrightarrow> n = 1" using m [of 1] by (simp add: VFlip_def)
  show "bit Transpose n \<longleftrightarrow> n = 2" using m [of 2] by (simp add: Transpose_def push_bit_eq_mult)
qed

lemma mult_bits:
  "bit (Transform_mult t1 t0) 0 \<longleftrightarrow> (if bit t0 2 then bit t1 1 else bit t1 0) \<noteq> bit t0 0"
  "bit (Transform_mult t1 t0) 1 \<longleftrightarrow> (if bit t0 2 then bit t1 0 else bit t1 1) \<noteq> bit t0 1"
  "bit (Transform_mult t1 t0) 2 \<longleftrightarrow> bit t1 2 \<noteq> bit t0 2"
  by (auto simp: Transform_mult_def Let_def mask_zero_iff bit_xor_iff bit_or_iff bit_and_iff)

lemmas mult_bits' = mult_bits [unfolded One_nat_def]

lemma apply_mult: "apply_transform (Transform_mult t1 t0) img = apply_transform t1 (apply_transform t0 img)"
  by (cases img; cases "bit t0 0"; cases "bit t0 1"; cases "bit t0 2"; cases "bit t1 0"; cases "bit t1 1";
      cases "bit t1 2") (simp_all add: apply_transform_def mult_bits' Let_def)

lemma is_transform_iff: "is_transform t \<longleftrightarrow> (\<forall>n \<ge> 3. \<not> bit t n)"
proof -
  have "is_transform t \<longleftrightarrow> take_bit 3 (unat t) = unat t"
    by (simp add: is_transform_def take_bit_nat_eq_self_iff)
  also have "\<dots> \<longleftrightarrow> (\<forall>n \<ge> 3. \<not> bit (unat t) n)"
    unfolding bit_eq_iff [of "take_bit 3 (unat t)"] bit_take_bit_iff by (simp add: not_less) (metis not_less)
  also have "\<dots> \<longleftrightarrow> (\<forall>n \<ge> 3. \<not> bit t n)"
    by (simp add: bit_unsigned_iff)
  finally show ?thesis .
qed

lemma is_transform_mult: "is_transform t1 \<Longrightarrow> is_transform t0 \<Longrightarrow> is_transform (Transform_mult t1 t0)"
  by (auto simp: is_transform_iff Transform_mult_def Let_def bit_xor_iff bit_or_iff bit_and_iff)

lemma transform_eqI:
  assumes "is_transform s" "is_transform t" "bit s 0 = bit t 0" "bit s 1 = bit t 1" "bit s 2 = bit t 2"
  shows "s = t"
proof (rule bit_eqI)
  fix n :: nat
  show "bit s n \<longleftrightarrow> bit t n"
  proof (cases "n \<ge> 3")
    case True
    with assms show ?thesis by (simp add: is_transform_iff)
  next
    case False
    then have "n = 0 \<or> n = 1 \<or> n = 2" by auto
    with assms show ?thesis by blast
  qed
qed


section \<open>Properties\<close>

text \<open>
  C40. Composing two transforms gives the transform that applies the right one first and then the
  left one, for every image: composition in the code is composition of the actions on images.
\<close>

theorem Transform_mult_composes:
  "apply_transform (Transform_mult t1 t0) img = apply_transform t1 (apply_transform t0 img)"
  by (rule apply_mult)

text \<open>
  The transforms form a group under composition: it is closed and associative, the identity is
  neutral, and the table of inverses gives for each transform one that undoes it on both sides.
\<close>

theorem Transform_group:
  assumes "is_transform a" "is_transform b" "is_transform c"
  shows "is_transform (Transform_mult a b) \<and> is_transform (Transform_minus a) \<and>
    Transform_mult (Transform_mult a b) c = Transform_mult a (Transform_mult b c) \<and>
    Transform_mult a Identity = a \<and> Transform_mult Identity a = a \<and>
    Transform_mult a (Transform_minus a) = Identity \<and> Transform_mult (Transform_minus a) a = Identity"
proof (intro conjI)
  show "is_transform (Transform_mult a b)" by (rule is_transform_mult [OF assms(1,2)])
  show "is_transform (Transform_minus a)"
    using assms(1) by (cases rule: is_transform_cases)
      (simp_all add: Transform_minus_def inverses_def transform_values is_transform_def)
  show "Transform_mult (Transform_mult a b) c = Transform_mult a (Transform_mult b c)"
    by (rule transform_eqI) (use assms in \<open>auto simp: is_transform_mult mult_bits mult_bits'\<close>)
  have i: "is_transform Identity" "\<not> bit Identity n" for n
    by (simp_all add: is_transform_def Identity_def)
  show "Transform_mult a Identity = a" "Transform_mult Identity a = a"
    by (rule transform_eqI; use assms i in \<open>simp add: is_transform_mult mult_bits mult_bits'\<close>)+
  show "Transform_mult a (Transform_minus a) = Identity" "Transform_mult (Transform_minus a) a = Identity"
    using assms(1) by (cases rule: is_transform_cases;
      simp add: Transform_minus_def inverses_def transform_values Transform_mult_def Transform_not_def)+
qed

theorem Transform_group_witness:
  "Transform_mult Rot90 (Transform_minus Rot90) = Identity \<and> is_transform (Transform_mult Rot90 HFlip)"
  using Transform_group [of Rot90 HFlip VFlip] by (simp add: is_transform_def transform_values)

text \<open>
  The transform of a rotation exists exactly for the multiples of ninety degrees, negative ones
  included, and it turns an image clockwise by that many quarter turns.
\<close>

theorem transformFromRotation_turns:
  "(snd (transformFromRotation angle) \<longleftrightarrow> angle mod 90 = 0) \<and>
   (if angle mod 90 = 0
    then apply_transform (fst (transformFromRotation angle)) img = (quarter_turn ^^ nat (angle mod 360 div 90)) img
    else fst (transformFromRotation angle) = Identity)"
proof -
  have norm: "(let a = angle smod 360 in if a < 0 then a + 360 else a) = angle mod 360"
  proof -
    have sm: "angle smod 360 = sgn angle * (\<bar>angle\<bar> mod 360)"
      by (simp add: signed_modulo_int_def)
    consider "angle = 0" | "angle > 0" | "angle < 0" by linarith
    then show ?thesis
    proof cases
      case 3
      then have "angle smod 360 = - ((- angle) mod 360)" by (simp add: sm)
      then show ?thesis
        using pos_mod_bound [of 360 angle] pos_mod_sign [of 360 angle]
        by (simp add: Let_def zmod_zminus1_eq_if)
    qed (simp_all add: sm Let_def)
  qed
  have eq: "transformFromRotation angle =
      (let angle = angle mod 360
       in if angle = 0 then (Identity, True)
         else if angle = 90 then (Rot90, True)
         else if angle = 180 then (Rot180, True)
         else if angle = 270 then (Rot270, True)
         else (Identity, False))"
    unfolding transformFromRotation_def norm [symmetric] by (simp add: Let_def)
  have m: "angle mod 90 = 0 \<longleftrightarrow> angle mod 360 = 0 \<or> angle mod 360 = 90 \<or> angle mod 360 = 180 \<or> angle mod 360 = 270"
  proof -
    define k where "k = angle mod 360"
    have k: "0 \<le> k" "k < 360" "angle mod 90 = k mod 90" by (simp_all add: k_def mod_mod_cancel)
    have "k = 90 * (k div 90)" if "k mod 90 = 0" using that by auto
    moreover have "k div 90 < 4" "0 \<le> k div 90" using k by auto
    then have "k div 90 = 0 \<or> k div 90 = 1 \<or> k div 90 = 2 \<or> k div 90 = 3" by linarith
    ultimately show ?thesis unfolding k(3) k_def [symmetric] by auto
  qed
  have b: "bit Rot90 0 = False" "bit Rot90 (Suc 0)" "bit Rot90 2" "bit Rot270 0" "bit Rot270 (Suc 0) = False"
    "bit Rot270 2" "bit Rot180 0" "bit Rot180 (Suc 0)" "\<not> bit Rot180 2" "\<not> bit Identity n" for n
    by (auto simp: Rot90_def Rot270_def Rot180_def HVFlip_def Identity_def bit_or_iff)
  have q0: "quarter_turn img = apply_transform Rot90 img"
    "quarter_turn (quarter_turn img) = apply_transform Rot180 img"
    "quarter_turn (quarter_turn (quarter_turn img)) = apply_transform Rot270 img"
    by (cases img; simp add: apply_transform_def b Let_def)+
  have q: "quarter_turn img = apply_transform Rot90 img"
    "(quarter_turn ^^ 2) img = apply_transform Rot180 img"
    "(quarter_turn ^^ 3) img = apply_transform Rot270 img"
    using q0 by (simp_all add: numeral_2_eq_2 numeral_3_eq_3)
  have i: "apply_transform Identity img = img" by (simp add: apply_transform_def b Let_def)
  consider "angle mod 90 \<noteq> 0" | "angle mod 360 = 0" | "angle mod 360 = 90" | "angle mod 360 = 180" | "angle mod 360 = 270"
    using iffD1 [OF m] by (cases "angle mod 90 = 0") auto
  then show ?thesis
    by cases (use m in \<open>simp_all add: eq q i\<close>)
qed

end
