(* ===== verification/Pipeline.thy ===== *)
theory Pipeline
  imports CameraState MediaDevice
begin

text \<open>
  The pipeline handler base class (\<open>pipeline_handler.h\<close>, \<open>pipeline_handler.cpp\<close>) and the completion
  side of a camera. The system is the heap of buffers and requests extended by the cameras, the
  configurations stored in streams, the handler's media devices and camera data, the requests posted
  to the handler's thread and not yet delivered, and the signals emitted so far, in order. A camera,
  a stream or a request is a number. A camera's data is a record that each pipeline handler extends,
  as the class \<open>CameraData\<close> is. The slots connected to the signals run as calls of their own.
  An assertion that fails or a fatal log is \<open>None\<close>.
\<close>

section \<open>The system\<close>

record CameraData =
  cd_queuedRequests :: "nat list"
  cd_controlInfo :: ControlInfoMap
  cd_properties :: ControlList
  cd_requestSequence :: u32

datatype signal =
    BufferCompleted nat nat nat
  | RequestCompleted nat nat
  | CameraDisconnected nat
  | CameraRemoved nat

record 'd system = heap +
  s_cams :: "nat \<Rightarrow> CameraPrivate"
  s_streams :: "nat \<Rightarrow> StreamConfiguration"
  s_mediaDevices :: "MediaDevice list"
  s_cameras :: "nat list"
  s_cameraData :: "(nat \<times> 'd) list"
  s_messages :: "nat list"
  s_signals :: "signal list"

definition emit :: "('d, 'z) system_scheme \<Rightarrow> signal \<Rightarrow> ('d, 'z) system_scheme" where
  "emit w sig = w\<lparr>s_signals := s_signals w @ [sig]\<rparr>"

definition upd_cam ::
    "('d, 'z) system_scheme \<Rightarrow> nat \<Rightarrow> (CameraPrivate \<Rightarrow> CameraPrivate) \<Rightarrow> ('d, 'z) system_scheme" where
  "upd_cam w c f = w\<lparr>s_cams := (s_cams w)(c := f (s_cams w c))\<rparr>"

section \<open>Media device locks\<close>

fun lock_devices :: "(i32 \<Rightarrow> bool) \<Rightarrow> MediaDevice list \<Rightarrow> MediaDevice list \<times> bool" where
  "lock_devices tlock [] = ([], True)"
| "lock_devices tlock (media # devs) =
     (let (media', ok) = MediaDevice_lock tlock media in
      if \<not> ok then (media' # devs, False)
      else let (devs', ok) = lock_devices tlock devs in (media' # devs', ok))"

definition PipelineHandler_unlock :: "('d, 'z) system_scheme \<Rightarrow> ('d, 'z) system_scheme" where
  "PipelineHandler_unlock w = w\<lparr>s_mediaDevices := map MediaDevice_unlock (s_mediaDevices w)\<rparr>"

definition PipelineHandler_lock ::
    "(i32 \<Rightarrow> bool) \<Rightarrow> ('d, 'z) system_scheme \<Rightarrow> ('d, 'z) system_scheme \<times> bool" where
  "PipelineHandler_lock tlock w =
     (let (devs, ok) = lock_devices tlock (s_mediaDevices w);
          w = w\<lparr>s_mediaDevices := devs\<rparr>
      in if ok then (w, True) else (PipelineHandler_unlock w, False))"

text \<open>\<open>media\<close> is the device that the enumerator's search found, if any, and the result of opening it.\<close>

definition PipelineHandler_acquireMediaDevice ::
    "(MediaDevice \<times> i32 result) option \<Rightarrow> ('d, 'z) system_scheme
      \<Rightarrow> ('d, 'z) system_scheme \<times> MediaDevice option" where
  "PipelineHandler_acquireMediaDevice media w =
     (case media of
        None \<Rightarrow> (w, None)
      | Some (dev, sys_open) \<Rightarrow>
          let (dev', ok) = MediaDevice_acquire sys_open dev in
          if \<not> ok then (w, None)
          else (w\<lparr>s_mediaDevices := s_mediaDevices w @ [dev']\<rparr>, Some dev'))"

section \<open>Camera data\<close>

definition cameraData :: "('d, 'z) system_scheme \<Rightarrow> nat \<Rightarrow> 'd option" where
  "cameraData w camera = map_of (s_cameraData w) camera"

definition set_cameraData :: "('d, 'z) system_scheme \<Rightarrow> nat \<Rightarrow> 'd \<Rightarrow> ('d, 'z) system_scheme" where
  "set_cameraData w camera d = w\<lparr>s_cameraData := map_insert camera d (s_cameraData w)\<rparr>"

definition PipelineHandler_controls ::
    "('x CameraData_scheme, 'z) system_scheme \<Rightarrow> nat \<Rightarrow> ControlInfoMap option" where
  "PipelineHandler_controls w camera =
     (case cameraData w camera of None \<Rightarrow> None | Some data \<Rightarrow> Some (cd_controlInfo data))"

definition PipelineHandler_properties ::
    "('x CameraData_scheme, 'z) system_scheme \<Rightarrow> nat \<Rightarrow> ControlList option" where
  "PipelineHandler_properties w camera =
     (case cameraData w camera of None \<Rightarrow> None | Some data \<Rightarrow> Some (cd_properties data))"

text \<open>
  Registration hands the camera to the manager together with the device numbers of the video
  nodes of the handler's media devices: entities with one sink pad and the video capture function.
\<close>

definition MEDIA_ENT_F_IO_V4L :: u32 where "MEDIA_ENT_F_IO_V4L = 0x10001"

definition is_video_node :: "MediaDevice \<Rightarrow> MediaEntity \<Rightarrow> bool" where
  "is_video_node media en \<longleftrightarrow>
     length (en_pads en) = 1 \<and>
     (case as_pad (MediaDevice_object media (en_pads en ! 0)) of
        None \<Rightarrow> False
      | Some pd \<Rightarrow> and (pd_flags pd) MEDIA_PAD_FL_SINK \<noteq> 0) \<and>
     en_function en = MEDIA_ENT_F_IO_V4L"

definition device_numbers :: "MediaDevice list \<Rightarrow> (u32 \<times> u32) list" where
  "device_numbers devs =
     concat (map (\<lambda>media. concat (map (\<lambda>e.
       case as_entity (MediaDevice_object media e) of
         None \<Rightarrow> []
       | Some en \<Rightarrow> if is_video_node media en then [(en_major en, en_minor en)] else [])
       (mdv_entities media))) devs)"

definition PipelineHandler_registerCamera ::
    "('d, 'z) system_scheme \<Rightarrow> nat \<Rightarrow> 'd \<Rightarrow> (('d, 'z) system_scheme \<times> (u32 \<times> u32) list) option" where
  "PipelineHandler_registerCamera w camera data =
     (let w = set_cameraData w camera data;
          w = w\<lparr>s_cameras := s_cameras w @ [camera]\<rparr>
      in if s_mediaDevices w = [] then None
         else Some (w, device_numbers (s_mediaDevices w)))"

section \<open>Requests\<close>

text \<open>
  The device side of a handler, \<open>queueRequestDevice\<close>, is a virtual function and a parameter: it takes
  the system, the camera and the request and returns the system and an error code.
\<close>

type_synonym ('d, 'z) device_queue =
  "('d, 'z) system_scheme \<Rightarrow> nat \<Rightarrow> nat \<Rightarrow> (('d, 'z) system_scheme \<times> errno option) option"

definition PipelineHandler_queueRequest ::
    "('x CameraData_scheme, 'z) device_queue \<Rightarrow> ('x CameraData_scheme, 'z) system_scheme \<Rightarrow> nat
      \<Rightarrow> ('x CameraData_scheme, 'z) system_scheme option" where
  "PipelineHandler_queueRequest queueRequestDevice w request =
     (let camera = rq_camera (h_reqs w request) in
      case cameraData w camera of
        None \<Rightarrow> None
      | Some data \<Rightarrow>
          let data1 = data\<lparr>cd_queuedRequests := cd_queuedRequests data @ [request]\<rparr>;
              w = upd_req w request (\<lambda>rq. rq\<lparr>rq_sequence := cd_requestSequence data1\<rparr>);
              w = set_cameraData w camera
                    (data1\<lparr>cd_requestSequence := cd_requestSequence data1 + 1\<rparr>)
          in case queueRequestDevice w camera request of
               None \<Rightarrow> None
             | Some (w, None) \<Rightarrow> Some w
             | Some (w, Some e) \<Rightarrow>
                 (case cameraData w camera of
                    None \<Rightarrow> None
                  | Some data \<Rightarrow>
                      Some (set_cameraData w camera
                        (data\<lparr>cd_queuedRequests := removeAll request (cd_queuedRequests data)\<rparr>))))"

definition PipelineHandler_completeBuffer ::
    "('d, 'z) system_scheme \<Rightarrow> nat \<Rightarrow> nat \<Rightarrow> (('d, 'z) system_scheme \<times> bool) option" where
  "PipelineHandler_completeBuffer w request buffer =
     (let camera = rq_camera (h_reqs w request);
          w = emit w (BufferCompleted camera request buffer)
      in Request_completeBuffer w request buffer)"

definition Camera_requestComplete ::
    "('d, 'z) system_scheme \<Rightarrow> nat \<Rightarrow> nat \<Rightarrow> ('d, 'z) system_scheme option" where
  "Camera_requestComplete w camera request =
     (if isAccessAllowed_range (s_cams w camera) CameraStopping CameraRunning True \<noteq> None then None
      else Some (emit w (RequestCompleted camera request)))"

text \<open>The loop pops completed requests from the head of the queue, which is passed along.\<close>

fun complete_loop ::
    "('x CameraData_scheme, 'z) system_scheme \<Rightarrow> nat \<Rightarrow> 'x CameraData_scheme \<Rightarrow> nat list
      \<Rightarrow> ('x CameraData_scheme, 'z) system_scheme option" where
  "complete_loop w camera data [] = Some w"
| "complete_loop w camera data (req # queue) =
     (if rq_status (h_reqs w req) = RequestPending then Some w
      else if hasPendingBuffers (h_reqs w req) then None
      else
        let w = set_cameraData w camera (data\<lparr>cd_queuedRequests := queue\<rparr>) in
        case Camera_requestComplete w camera req of
          None \<Rightarrow> None
        | Some w \<Rightarrow> complete_loop w camera data queue)"

definition PipelineHandler_completeRequest ::
    "('x CameraData_scheme, 'z) system_scheme \<Rightarrow> nat
      \<Rightarrow> ('x CameraData_scheme, 'z) system_scheme option" where
  "PipelineHandler_completeRequest w request =
     (let camera = rq_camera (h_reqs w request) in
      case Request_complete w request of
        None \<Rightarrow> None
      | Some w \<Rightarrow>
          (case cameraData w camera of
             None \<Rightarrow> None
           | Some data \<Rightarrow> complete_loop w camera data (cd_queuedRequests data)))"

section \<open>Disconnection\<close>

definition Camera_disconnect :: "('d, 'z) system_scheme \<Rightarrow> nat \<Rightarrow> ('d, 'z) system_scheme" where
  "Camera_disconnect w camera = emit (upd_cam w camera Private_disconnect) (CameraDisconnected camera)"

text \<open>The loop over the cameras that still exist; a removed camera is reported by the manager.\<close>

fun disconnect_cameras ::
    "(nat \<Rightarrow> bool) \<Rightarrow> ('d, 'z) system_scheme \<Rightarrow> nat list \<Rightarrow> ('d, 'z) system_scheme" where
  "disconnect_cameras alive w [] = w"
| "disconnect_cameras alive w (camera # cameras) =
     (if \<not> alive camera then disconnect_cameras alive w cameras
      else disconnect_cameras alive
             (emit (Camera_disconnect w camera) (CameraRemoved camera)) cameras)"

definition PipelineHandler_disconnect ::
    "(nat \<Rightarrow> bool) \<Rightarrow> ('d, 'z) system_scheme \<Rightarrow> ('d, 'z) system_scheme" where
  "PipelineHandler_disconnect alive w =
     disconnect_cameras alive (w\<lparr>s_cameras := []\<rparr>) (s_cameras w)"

definition mediaDeviceDisconnected ::
    "(nat \<Rightarrow> bool) \<Rightarrow> ('d, 'z) system_scheme \<Rightarrow> ('d, 'z) system_scheme" where
  "mediaDeviceDisconnected alive w =
     (if s_cameras w = [] then w else PipelineHandler_disconnect alive w)"


section \<open>Lemmas\<close>

lemma emit_simps [simp]:
  "s_signals (emit w sig) = s_signals w @ [sig]" "s_cams (emit w sig) = s_cams w"
  "s_cameraData (emit w sig) = s_cameraData w" "h_reqs (emit w sig) = h_reqs w"
  "h_bufs (emit w sig) = h_bufs w" "s_messages (emit w sig) = s_messages w"
  "s_streams (emit w sig) = s_streams w" "s_mediaDevices (emit w sig) = s_mediaDevices w"
  "s_cameras (emit w sig) = s_cameras w"
  by (simp_all add: emit_def)

lemma upd_cam_simps [simp]:
  "s_signals (upd_cam w c f) = s_signals w" "s_cameraData (upd_cam w c f) = s_cameraData w"
  "h_reqs (upd_cam w c f) = h_reqs w" "h_bufs (upd_cam w c f) = h_bufs w"
  "s_cams (upd_cam w c f) c' = (if c' = c then f (s_cams w c) else s_cams w c')"
  "s_messages (upd_cam w c f) = s_messages w" "s_streams (upd_cam w c f) = s_streams w"
  "s_mediaDevices (upd_cam w c f) = s_mediaDevices w" "s_cameras (upd_cam w c f) = s_cameras w"
  by (simp_all add: upd_cam_def)

lemma upd_req_system [simp]:
  "s_signals (upd_req w r f) = s_signals w" "s_cameraData (upd_req w r f) = s_cameraData w"
  "s_cams (upd_req w r f) = s_cams w" "s_messages (upd_req w r f) = s_messages w"
  "s_streams (upd_req w r f) = s_streams w"
  by (simp_all add: upd_req_def)

lemma upd_buf_system [simp]:
  "s_signals (upd_buf w b g) = s_signals w" "s_cameraData (upd_buf w b g) = s_cameraData w"
  "s_cams (upd_buf w b g) = s_cams w" "s_messages (upd_buf w b g) = s_messages w"
  "s_streams (upd_buf w b g) = s_streams w"
  by (simp_all add: upd_buf_def)

lemma set_cameraData_simps [simp]:
  "s_signals (set_cameraData w c d) = s_signals w" "s_cams (set_cameraData w c d) = s_cams w"
  "h_reqs (set_cameraData w c d) = h_reqs w" "h_bufs (set_cameraData w c d) = h_bufs w"
  "s_messages (set_cameraData w c d) = s_messages w" "s_streams (set_cameraData w c d) = s_streams w"
  "map_ok (s_cameraData w) \<Longrightarrow> map_ok (s_cameraData (set_cameraData w c d))"
  "map_ok (s_cameraData w) \<Longrightarrow> cameraData (set_cameraData w c d) c' = (if c' = c then Some d else cameraData w c')"
  by (simp_all add: set_cameraData_def cameraData_def)

lemma cameraData_cong: "s_cameraData w' = s_cameraData w \<Longrightarrow> cameraData w' = cameraData w"
  by (simp add: cameraData_def fun_eq_iff)

lemma cameraData_simps [simp]:
  "cameraData (emit w sig) = cameraData w" "cameraData (upd_cam w c f) = cameraData w"
  "cameraData (upd_req w r g) = cameraData w" "cameraData (upd_buf w b k) = cameraData w"
  "cameraData (w\<lparr>s_messages := ms\<rparr>) = cameraData w"
  by (rule cameraData_cong, simp)+

lemma set_cameraData_twice [simp]:
  "set_cameraData (set_cameraData w c d) c d' = set_cameraData w c d'"
  by (simp add: set_cameraData_def)

lemma set_cameraData_same:
  "map_ok (s_cameraData w) \<Longrightarrow> cameraData w c = Some d \<Longrightarrow> set_cameraData w c d = w"
  by (simp add: set_cameraData_def cameraData_def map_insert_same)

lemma set_cameraData_emit: "set_cameraData (emit w sig) c d = emit (set_cameraData w c d) sig"
  by (simp add: set_cameraData_def emit_def)

text \<open>The requests of a camera's queue; the camera must have data.\<close>

definition queue_of :: "('x CameraData_scheme, 'z) system_scheme \<Rightarrow> nat \<Rightarrow> nat list" where
  "queue_of w c = (case cameraData w c of None \<Rightarrow> [] | Some data \<Rightarrow> cd_queuedRequests data)"

abbreviation finished :: "('d, 'z) system_scheme \<Rightarrow> nat \<Rightarrow> bool" where
  "finished w r \<equiv> rq_status (h_reqs w r) \<noteq> RequestPending"

definition can_complete :: "('d, 'z) system_scheme \<Rightarrow> nat \<Rightarrow> bool" where
  "can_complete w c \<longleftrightarrow> cp_state (s_cams w c) = CameraStopping \<or> cp_state (s_cams w c) = CameraRunning"

definition emits :: "('d, 'z) system_scheme \<Rightarrow> signal list \<Rightarrow> ('d, 'z) system_scheme" where
  "emits w sigs = w\<lparr>s_signals := s_signals w @ sigs\<rparr>"

lemma emits_simps [simp]:
  "emits w [] = w" "emits (emit w sig) sigs = emits w (sig # sigs)"
  "s_signals (emits w sigs) = s_signals w @ sigs" "cameraData (emits w sigs) = cameraData w"
  "s_cameraData (emits w sigs) = s_cameraData w"
  "s_cams (emits w sigs) = s_cams w" "h_reqs (emits w sigs) = h_reqs w" "h_bufs (emits w sigs) = h_bufs w"
  "s_messages (emits w sigs) = s_messages w" "s_streams (emits w sigs) = s_streams w"
  by (simp_all add: emits_def emit_def cameraData_def fun_eq_iff)

lemma complete_loop_spec:
  assumes "map_ok (s_cameraData w)" "cameraData w c = Some (data\<lparr>cd_queuedRequests := q\<rparr>)"
    and "can_complete w c" "\<forall>r \<in> set q. finished w r \<longrightarrow> rq_pending (h_reqs w r) = {}"
  shows "complete_loop w c data q =
    Some (emits (set_cameraData w c (data\<lparr>cd_queuedRequests := dropWhile (finished w) q\<rparr>))
            (map (RequestCompleted c) (takeWhile (finished w) q)))"
  using assms
proof (induction q arbitrary: w)
  case Nil
  then show ?case by (simp add: set_cameraData_same)
next
  case (Cons r q)
  show ?case
  proof (cases "finished w r")
    case False
    with Cons.prems show ?thesis by (simp add: set_cameraData_same)
  next
    case True
    let ?w = "emit (set_cameraData w c (data\<lparr>cd_queuedRequests := q\<rparr>)) (RequestCompleted c r)"
    have "complete_loop w c data (r # q) = complete_loop ?w c data q"
      using True Cons.prems(3,4)
      by (auto simp: hasPendingBuffers_def Camera_requestComplete_def can_complete_def)
    also have "\<dots> = Some (emits (set_cameraData ?w c (data\<lparr>cd_queuedRequests := dropWhile (finished ?w) q\<rparr>))
            (map (RequestCompleted c) (takeWhile (finished ?w) q)))"
      using Cons.prems by (intro Cons.IH) (simp_all add: can_complete_def)
    finally show ?thesis using True by (simp add: set_cameraData_emit)
  qed
qed

lemma Request_complete_system:
  assumes "Request_complete w r = Some w'"
  shows "s_cams w' = s_cams w" "s_cameraData w' = s_cameraData w" "s_signals w' = s_signals w"
    "s_messages w' = s_messages w" "h_bufs w' = h_bufs w" "s_streams w' = s_streams w"
    "\<And>r'. rq_pending (h_reqs w' r') = rq_pending (h_reqs w r')"
    "\<And>r'. rq_camera (h_reqs w' r') = rq_camera (h_reqs w r')"
    "\<And>r'. r' \<noteq> r \<Longrightarrow> h_reqs w' r' = h_reqs w r'"
    "rq_status (h_reqs w' r) = (if rq_cancelled (h_reqs w r) then RequestCancelled else RequestComplete)"
    "rq_pending (h_reqs w r) = {}"
  using assms by (auto simp: Request_complete_def Let_def hasPendingBuffers_def split: if_splits)

text \<open>Every finished request that is still queued has no pending buffers.\<close>

definition queue_ok :: "('x CameraData_scheme, 'z) system_scheme \<Rightarrow> nat \<Rightarrow> bool" where
  "queue_ok w c \<longleftrightarrow> map_ok (s_cameraData w) \<and>
     (\<forall>r \<in> set (queue_of w c). finished w r \<longrightarrow> rq_pending (h_reqs w r) = {})"

lemma completeRequest_spec:
  assumes "rq_camera (h_reqs w r) = c" "cameraData w c = Some data" "can_complete w c" "queue_ok w c"
    and "Request_complete w r = Some w1"
  shows "PipelineHandler_completeRequest w r =
    Some (emits (set_cameraData w1 c (data\<lparr>cd_queuedRequests := dropWhile (finished w1) (cd_queuedRequests data)\<rparr>))
            (map (RequestCompleted c) (takeWhile (finished w1) (cd_queuedRequests data))))"
proof -
  note rc = Request_complete_system [OF assms(5)]
  have "complete_loop w1 c data (cd_queuedRequests data) =
    Some (emits (set_cameraData w1 c (data\<lparr>cd_queuedRequests := dropWhile (finished w1) (cd_queuedRequests data)\<rparr>))
            (map (RequestCompleted c) (takeWhile (finished w1) (cd_queuedRequests data))))"
  proof (rule complete_loop_spec)
    show "map_ok (s_cameraData w1)" using assms(4) rc by (simp add: queue_ok_def)
    show "cameraData w1 c = Some (data\<lparr>cd_queuedRequests := cd_queuedRequests data\<rparr>)"
      using assms(2) rc(2) by (simp add: cameraData_def)
    show "can_complete w1 c" using assms(3) rc by (simp add: can_complete_def)
    show "\<forall>r \<in> set (cd_queuedRequests data). finished w1 r \<longrightarrow> rq_pending (h_reqs w1 r) = {}"
    proof (intro ballI impI)
      fix r' assume "r' \<in> set (cd_queuedRequests data)" "finished w1 r'"
      then show "rq_pending (h_reqs w1 r') = {}"
        using assms(2,4) rc(7,9,11) by (cases "r' = r") (auto simp: queue_ok_def queue_of_def)
    qed
  qed
  moreover have "cameraData w1 c = Some data" using assms(2) rc(2) by (simp add: cameraData_def)
  ultimately show ?thesis
    using assms(1,5) by (simp add: PipelineHandler_completeRequest_def)
qed


section \<open>Completion history\<close>

text \<open>The requests of a camera in the order they complete, followed by those still queued.\<close>

fun completed_by :: "nat \<Rightarrow> signal list \<Rightarrow> nat list" where
  "completed_by c [] = []"
| "completed_by c (RequestCompleted c' r # sigs) =
     (if c' = c then r # completed_by c sigs else completed_by c sigs)"
| "completed_by c (_ # sigs) = completed_by c sigs"

lemma completed_by_append [simp]: "completed_by c (xs @ ys) = completed_by c xs @ completed_by c ys"
  by (induction c xs rule: completed_by.induct) simp_all

lemma completed_by_map [simp]:
  "completed_by c (map (RequestCompleted c') rs) = (if c = c' then rs else [])"
  by (induction rs) auto

definition history :: "('x CameraData_scheme, 'z) system_scheme \<Rightarrow> nat \<Rightarrow> nat list" where
  "history w c = completed_by c (s_signals w) @ queue_of w c"

lemma queue_of_set [simp]:
  "map_ok (s_cameraData w) \<Longrightarrow>
   queue_of (set_cameraData w c d) c' = (if c' = c then cd_queuedRequests d else queue_of w c')"
  by (simp add: queue_of_def)

lemma queue_of_cong: "cameraData w' = cameraData w \<Longrightarrow> queue_of w' c = queue_of w c"
  by (simp add: queue_of_def)

lemma queue_of_simps [simp]:
  "queue_of (emit w sig) c = queue_of w c" "queue_of (upd_cam w c' f) c = queue_of w c"
  "queue_of (upd_req w r g) c = queue_of w c" "queue_of (upd_buf w b k) c = queue_of w c"
  "queue_of (emits w sigs) c = queue_of w c" "queue_of (w\<lparr>s_messages := ms\<rparr>) c = queue_of w c"
  by (simp_all add: queue_of_def)

lemma completeRequest_history:
  assumes "PipelineHandler_completeRequest w r = Some w'" "rq_camera (h_reqs w r) = c"
    and "can_complete w c" "queue_ok w c"
  shows "history w' c' = history w c'" "s_cams w' = s_cams w" "s_messages w' = s_messages w"
proof -
  obtain w1 where w1: "Request_complete w r = Some w1"
    using assms(1) by (auto simp: PipelineHandler_completeRequest_def Let_def split: option.splits)
  note rc = Request_complete_system [OF w1]
  obtain data where data: "cameraData w c = Some data"
    using assms(1,2) w1 rc(2)
    by (auto simp: PipelineHandler_completeRequest_def cameraData_def Let_def split: option.splits)
  note spec = completeRequest_spec [OF assms(2) data assms(3,4) w1]
  have ok: "map_ok (s_cameraData w1)" using assms(4) rc(2) by (simp add: queue_ok_def)
  have q: "queue_of w1 c'' = queue_of w c''" for c''
    using rc(2) by (simp add: queue_of_def cameraData_def)
  have "queue_of w c = cd_queuedRequests data" using data by (simp add: queue_of_def)
  then show "history w' c' = history w c'"
    using spec assms(1) ok q rc(3) by (auto simp: history_def)
  show "s_cams w' = s_cams w" "s_messages w' = s_messages w" using spec assms(1) rc by auto
qed

text \<open>A running camera with two queued requests, for the examples.\<close>

definition example_buffer :: FrameBuffer where
  "example_buffer = \<lparr>fb_planes = [\<lparr>pl_fd = 5, pl_length = 4096\<rparr>], fb_request = None,
     fb_metadata = \<lparr>md_status = FrameSuccess, md_sequence = 0, md_timestamp = 0, md_planes = []\<rparr>,
     fb_cookie = 0\<rparr>"

definition example_data :: CameraData where
  "example_data = \<lparr>cd_queuedRequests = [1, 2],
     cd_controlInfo = \<lparr>im_ptr = 1, im_map = [], im_idmap = []\<rparr>,
     cd_properties = ControlList_of_idmap [] None, cd_requestSequence = 2\<rparr>"

definition example_system :: "CameraData system" where
  "example_system =
     \<lparr>h_bufs = (\<lambda>_. example_buffer), h_reqs = (\<lambda>_. Request_new [] (\<lambda>_ _. True) 0 0),
      s_cams = (\<lambda>_. (CameraPrivate_new ''cam'' [0])\<lparr>cp_state := CameraRunning, cp_activeStreams := {0}\<rparr>),
      s_streams = (\<lambda>_. StreamConfiguration_new []), s_mediaDevices = [], s_cameras = [0],
      s_cameraData = [(0, example_data)], s_messages = [], s_signals = []\<rparr>"

lemma example_system_simps:
  "rq_camera (h_reqs example_system r) = 0" "rq_status (h_reqs example_system r) = RequestPending"
  "rq_pending (h_reqs example_system r) = {}" "cameraData example_system 0 = Some example_data"
  "can_complete example_system 0" "queue_ok example_system 0" "queue_of example_system 0 = [1, 2]"
  "s_signals example_system = []" "cp_state (s_cams example_system 0) = CameraRunning"
  "cd_queuedRequests example_data = [1, 2]" "map_ok (s_cameraData example_system)"
  by (simp_all add: example_system_def Request_new_def cameraData_def can_complete_def queue_ok_def
      queue_of_def example_data_def map_ok_def)

text \<open>Two heaps whose requests differ at most in their sequence numbers, controls and metadata.\<close>

definition same_requests :: "'a heap_scheme \<Rightarrow> 'b heap_scheme \<Rightarrow> bool" where
  "same_requests w w' \<longleftrightarrow>
     (\<forall>r. rq_status (h_reqs w' r) = rq_status (h_reqs w r) \<and> rq_pending (h_reqs w' r) = rq_pending (h_reqs w r) \<and>
          rq_camera (h_reqs w' r) = rq_camera (h_reqs w r) \<and> rq_bufferMap (h_reqs w' r) = rq_bufferMap (h_reqs w r)) \<and>
     h_bufs w' = h_bufs w"

section \<open>Properties\<close>

text \<open>
  C26. Completing a request hands completed requests to the application strictly in the order they
  were queued: the signals emitted are for the longest prefix of the queue that has finished, that
  prefix is removed, and the request left at the head, if any, is still pending.
\<close>

theorem completeRequest_in_order:
  assumes "rq_status (h_reqs w r) = RequestPending" "rq_pending (h_reqs w r) = {}"
    and "cameraData w (rq_camera (h_reqs w r)) = Some data"
    and "can_complete w (rq_camera (h_reqs w r))" "queue_ok w (rq_camera (h_reqs w r))"
  shows "\<exists>w' fin. PipelineHandler_completeRequest w r = Some w' \<and>
      queue_of w (rq_camera (h_reqs w r)) = fin @ queue_of w' (rq_camera (h_reqs w r)) \<and>
      s_signals w' = s_signals w @ map (RequestCompleted (rq_camera (h_reqs w r))) fin \<and>
      (\<forall>r' \<in> set fin. finished w' r') \<and> finished w' r \<and>
      (\<forall>r' q. queue_of w' (rq_camera (h_reqs w r)) = r' # q \<longrightarrow> \<not> finished w' r')"
proof -
  let ?c = "rq_camera (h_reqs w r)"
  obtain w1 where w1: "Request_complete w r = Some w1"
    using assms(1,2) by (simp add: Request_complete_def hasPendingBuffers_def Let_def)
  note rc = Request_complete_system [OF w1]
  note spec = completeRequest_spec [OF refl assms(3,4,5) w1]
  have ok: "map_ok (s_cameraData w1)" using assms(5) rc(2) by (simp add: queue_ok_def)
  have fin: "finished w1 r" using rc(10) by simp
  let ?q = "cd_queuedRequests data"
  let ?w' = "emits (set_cameraData w1 ?c (data\<lparr>cd_queuedRequests := dropWhile (finished w1) ?q\<rparr>))
     (map (RequestCompleted ?c) (takeWhile (finished w1) ?q))"
  have q: "queue_of w ?c = ?q" "queue_of ?w' ?c = dropWhile (finished w1) ?q"
    using assms(3) ok by (simp_all add: queue_of_def)
  have "\<forall>r' q. queue_of ?w' ?c = r' # q \<longrightarrow> \<not> finished ?w' r'"
    unfolding q by (simp add: dropWhile_eq_Cons_conv)
  moreover have "\<forall>r' \<in> set (takeWhile (finished w1) ?q). finished ?w' r'"
    by (simp, blast dest: set_takeWhileD)
  moreover have "queue_of w ?c = takeWhile (finished w1) ?q @ queue_of ?w' ?c" unfolding q by simp
  moreover have "s_signals ?w' = s_signals w @ map (RequestCompleted ?c) (takeWhile (finished w1) ?q)"
    using rc(3) by simp
  moreover have "finished ?w' r" using fin by simp
  ultimately show ?thesis using spec by blast
qed

theorem completeRequest_in_order_witness:
  "\<exists>w' fin. PipelineHandler_completeRequest example_system 1 = Some w' \<and>
     [1, 2] = fin @ queue_of w' 0 \<and> s_signals w' = map (RequestCompleted 0) fin"
  using completeRequest_in_order [of example_system 1 example_data]
  by (auto simp: example_system_simps)

text \<open>
  A camera that is disconnected while running cannot hand back the requests it still has: the
  completion of the request at the head of the queue ends in the fatal error of \<open>requestComplete\<close>,
  because disconnecting moves the camera to the configured state.
\<close>

theorem disconnect_running_completion_fatal:
  assumes "rq_camera (h_reqs w r) = c" "rq_status (h_reqs w r) = RequestPending"
    and "rq_pending (h_reqs w r) = {}" "cameraData w c = Some data"
    and "cd_queuedRequests data = r # q" "cp_state (s_cams w c) = CameraRunning"
  shows "PipelineHandler_completeRequest (Camera_disconnect w c) r = None"
  using assms
  by (simp add: PipelineHandler_completeRequest_def Request_complete_def hasPendingBuffers_def
      Camera_disconnect_def Private_disconnect_def Camera_requestComplete_def Let_def)

theorem disconnect_running_completion_fatal_witness:
  "PipelineHandler_completeRequest (Camera_disconnect example_system 0) 1 = None"
  using disconnect_running_completion_fatal [of example_system 1 0 example_data "[2]"]
  by (simp add: example_system_simps)

text \<open>
  A request that the device refuses is dropped: it leaves the queue again, no completion is
  signalled for it, and it stays pending.
\<close>

theorem queueRequest_refused_dropped:
  assumes "map_ok (s_cameraData w)" "cameraData w (rq_camera (h_reqs w r)) = Some data"
    and "r \<notin> set (cd_queuedRequests data)"
    and "\<And>w c r. queueRequestDevice w c r = Some (w, Some e)"
  shows "\<exists>w'. PipelineHandler_queueRequest queueRequestDevice w r = Some w' \<and>
    queue_of w' (rq_camera (h_reqs w r)) = queue_of w (rq_camera (h_reqs w r)) \<and>
    s_signals w' = s_signals w \<and> rq_status (h_reqs w' r) = rq_status (h_reqs w r) \<and>
    rq_pending (h_reqs w' r) = rq_pending (h_reqs w r)"
  using assms
  by (simp add: PipelineHandler_queueRequest_def Let_def queue_of_def)


theorem queueRequest_refused_dropped_witness:
  "\<exists>w'. PipelineHandler_queueRequest (\<lambda>w c r. Some (w, Some EINVAL)) example_system 7 = Some w' \<and>
     queue_of w' 0 = [1, 2] \<and> s_signals w' = []"
  using queueRequest_refused_dropped [of example_system 7 example_data "\<lambda>w c r. Some (w, Some EINVAL)" EINVAL]
  by (auto simp: example_system_simps)

end
