(* ===== verification/Camera.thy ===== *)
theory Camera
  imports Pipeline "HOL-Library.Sublist"
begin

text \<open>
  The camera as applications see it: \<open>camera.h\<close>, \<open>camera.cpp\<close>, and the frame buffer allocator
  (\<open>framebuffer_allocator.cpp\<close>). The application runs in a thread of its own: a queued call posts a
  message to the handler's thread, a blocking call is delivered after the messages posted before it.
  The virtual functions of the pipeline handler are a record of functions over the system.
\<close>

section \<open>The virtual functions of a pipeline handler\<close>

record 'w vtable =
  vt_generateConfiguration :: "'w \<Rightarrow> nat \<Rightarrow> StreamRole list \<Rightarrow> ('w \<times> CameraConfiguration option) option"
  vt_validate :: "'w \<Rightarrow> nat \<Rightarrow> CameraConfiguration \<Rightarrow> ('w \<times> CameraConfiguration \<times> ConfigStatus) option"
  vt_configure :: "'w \<Rightarrow> nat \<Rightarrow> CameraConfiguration \<Rightarrow> ('w \<times> CameraConfiguration \<times> errno option) option"
  vt_exportFrameBuffers :: "'w \<Rightarrow> nat \<Rightarrow> nat \<Rightarrow> ('w \<times> FrameBuffer list result) option"
  vt_start :: "'w \<Rightarrow> nat \<Rightarrow> ControlList option \<Rightarrow> ('w \<times> errno option) option"
  vt_stop :: "'w \<Rightarrow> nat \<Rightarrow> 'w option"
  vt_queueRequestDevice :: "'w \<Rightarrow> nat \<Rightarrow> nat \<Rightarrow> ('w \<times> errno option) option"

type_synonym ('x, 'z) csystem = "('x CameraData_scheme, 'z) system_scheme"

section \<open>Messages to the handler's thread\<close>

fun deliver_messages ::
    "('x, 'z) csystem vtable \<Rightarrow> nat list \<Rightarrow> ('x, 'z) csystem \<Rightarrow> ('x, 'z) csystem option" where
  "deliver_messages vt [] w = Some w"
| "deliver_messages vt (request # messages) w =
     (case PipelineHandler_queueRequest (vt_queueRequestDevice vt) (w\<lparr>s_messages := messages\<rparr>) request of
        None \<Rightarrow> None
      | Some w' \<Rightarrow> deliver_messages vt messages w')"

definition invokeQueued :: "('x, 'z) csystem \<Rightarrow> nat \<Rightarrow> ('x, 'z) csystem" where
  "invokeQueued w request = w\<lparr>s_messages := s_messages w @ [request]\<rparr>"

definition invokeBlocking ::
    "('x, 'z) csystem vtable \<Rightarrow> (('x, 'z) csystem \<Rightarrow> 'r option) \<Rightarrow> ('x, 'z) csystem \<Rightarrow> 'r option" where
  "invokeBlocking vt f w =
     (case deliver_messages vt (s_messages w) w of None \<Rightarrow> None | Some w \<Rightarrow> f w)"

section \<open>Camera operations\<close>

definition busy_code :: "errno \<Rightarrow> errno" where
  "busy_code e = (if e = EACCES then EBUSY else e)"

definition Camera_acquire ::
    "(i32 \<Rightarrow> bool) \<Rightarrow> ('d, 'z) system_scheme \<Rightarrow> nat \<Rightarrow> ('d, 'z) system_scheme \<times> errno option" where
  "Camera_acquire tlock w camera =
     (case isAccessAllowed (s_cams w camera) CameraAvailable False of
        Some e \<Rightarrow> (w, Some (busy_code e))
      | None \<Rightarrow>
          let (w, ok) = PipelineHandler_lock tlock w in
          if \<not> ok then (w, Some EBUSY)
          else (upd_cam w camera (\<lambda>d. Private_setState d CameraAcquired), None))"

definition Camera_release ::
    "('d, 'z) system_scheme \<Rightarrow> nat \<Rightarrow> ('d, 'z) system_scheme \<times> errno option" where
  "Camera_release w camera =
     (case isAccessAllowed_range (s_cams w camera) CameraAvailable CameraConfigured True of
        Some e \<Rightarrow> (w, Some (busy_code e))
      | None \<Rightarrow>
          let w = PipelineHandler_unlock w
          in (upd_cam w camera (\<lambda>d. Private_setState d CameraAvailable), None))"

definition Camera_generateConfiguration ::
    "('x, 'z) csystem vtable \<Rightarrow> ('x, 'z) csystem \<Rightarrow> nat \<Rightarrow> StreamRole list
      \<Rightarrow> (('x, 'z) csystem \<times> CameraConfiguration option) option" where
  "Camera_generateConfiguration vt w camera roles =
     (case isAccessAllowed_range (s_cams w camera) CameraAvailable CameraRunning False of
        Some e \<Rightarrow> Some (w, None)
      | None \<Rightarrow>
          if length roles > length (cp_streams (s_cams w camera)) then Some (w, None)
          else vt_generateConfiguration vt w camera roles)"

fun configure_streams ::
    "('d, 'z) system_scheme \<Rightarrow> nat \<Rightarrow> StreamConfiguration list \<Rightarrow> ('d, 'z) system_scheme option" where
  "configure_streams w camera [] = Some w"
| "configure_streams w camera (cfg # cfgs) =
     (case sc_stream cfg of
        None \<Rightarrow> None
      | Some stream \<Rightarrow>
          let w = w\<lparr>s_streams := (s_streams w)(stream := cfg)\<rparr>;
              w = upd_cam w camera (\<lambda>d. d\<lparr>cp_activeStreams := insert stream (cp_activeStreams d)\<rparr>)
          in configure_streams w camera cfgs)"

text \<open>
  The loop at the beginning of \<open>configure\<close> resets the stream of copies of the stream configurations
  (\<open>for (auto it : *config)\<close>), so it changes nothing.
\<close>

definition Camera_configure ::
    "('x, 'z) csystem vtable \<Rightarrow> ('x, 'z) csystem \<Rightarrow> nat \<Rightarrow> CameraConfiguration
      \<Rightarrow> (('x, 'z) csystem \<times> CameraConfiguration \<times> errno option) option" where
  "Camera_configure vt w camera config =
     (case isAccessAllowed_range (s_cams w camera) CameraAcquired CameraConfigured False of
        Some e \<Rightarrow> Some (w, config, Some e)
      | None \<Rightarrow>
          (case vt_validate vt w camera config of
             None \<Rightarrow> None
           | Some (w, config, status) \<Rightarrow>
               if status \<noteq> Valid then Some (w, config, Some EINVAL)
               else
                 (case invokeBlocking vt (\<lambda>w. vt_configure vt w camera config) w of
                    None \<Rightarrow> None
                  | Some (w, config, Some e) \<Rightarrow> Some (w, config, Some e)
                  | Some (w, config, None) \<Rightarrow>
                      let w = upd_cam w camera (\<lambda>d. d\<lparr>cp_activeStreams := {}\<rparr>) in
                      (case configure_streams w camera (cc_config config) of
                         None \<Rightarrow> None
                       | Some w \<Rightarrow>
                           Some (upd_cam w camera (\<lambda>d. Private_setState d CameraConfigured),
                                 config, None)))))"

definition Camera_createRequest ::
    "(u32 \<times> ControlId) list \<Rightarrow> (nat \<Rightarrow> u32 \<Rightarrow> bool) \<Rightarrow> ('d, 'z) system_scheme \<Rightarrow> nat \<Rightarrow> u64
      \<Rightarrow> Request option" where
  "Camera_createRequest globalControls validator w camera cookie =
     (case isAccessAllowed_range (s_cams w camera) CameraConfigured CameraRunning False of
        Some e \<Rightarrow> None
      | None \<Rightarrow> Some (Request_new globalControls validator camera cookie))"

definition Camera_exportFrameBuffers ::
    "('x, 'z) csystem vtable \<Rightarrow> ('x, 'z) csystem \<Rightarrow> nat \<Rightarrow> nat
      \<Rightarrow> (('x, 'z) csystem \<times> FrameBuffer list result) option" where
  "Camera_exportFrameBuffers vt w camera stream =
     (case isAccessAllowed (s_cams w camera) CameraConfigured False of
        Some e \<Rightarrow> Some (w, Inl e)
      | None \<Rightarrow>
          if stream \<notin> set (cp_streams (s_cams w camera)) then Some (w, Inl EINVAL)
          else if stream \<notin> cp_activeStreams (s_cams w camera) then Some (w, Inl EINVAL)
          else invokeBlocking vt (\<lambda>w. vt_exportFrameBuffers vt w camera stream) w)"

definition Camera_queueRequest ::
    "('x, 'z) csystem \<Rightarrow> nat \<Rightarrow> nat \<Rightarrow> ('x, 'z) csystem \<times> errno option" where
  "Camera_queueRequest w camera request =
     (case isAccessAllowed (s_cams w camera) CameraRunning False of
        Some e \<Rightarrow> (w, Some e)
      | None \<Rightarrow>
          let buffers = rq_bufferMap (h_reqs w request) in
          if buffers = [] then (w, Some EINVAL)
          else if \<exists>(stream, b) \<in> set buffers. stream \<notin> cp_activeStreams (s_cams w camera)
          then (w, Some EINVAL)
          else (invokeQueued w request, None))"

definition Camera_start ::
    "('x, 'z) csystem vtable \<Rightarrow> ('x, 'z) csystem \<Rightarrow> nat \<Rightarrow> ControlList option
      \<Rightarrow> (('x, 'z) csystem \<times> errno option) option" where
  "Camera_start vt w camera controls =
     (case isAccessAllowed (s_cams w camera) CameraConfigured False of
        Some e \<Rightarrow> Some (w, Some e)
      | None \<Rightarrow>
          (case invokeBlocking vt (\<lambda>w. vt_start vt w camera controls) w of
             None \<Rightarrow> None
           | Some (w, Some e) \<Rightarrow> Some (w, Some e)
           | Some (w, None) \<Rightarrow>
               Some (upd_cam w camera (\<lambda>d. Private_setState d CameraRunning), None)))"

definition Camera_stop ::
    "('x, 'z) csystem vtable \<Rightarrow> ('x, 'z) csystem \<Rightarrow> nat
      \<Rightarrow> (('x, 'z) csystem \<times> errno option) option" where
  "Camera_stop vt w camera =
     (case isAccessAllowed (s_cams w camera) CameraRunning False of
        Some e \<Rightarrow> Some (w, Some e)
      | None \<Rightarrow>
          let w = upd_cam w camera (\<lambda>d. Private_setState d CameraStopping) in
          (case invokeBlocking vt (\<lambda>w. vt_stop vt w camera) w of
             None \<Rightarrow> None
           | Some w \<Rightarrow> Some (upd_cam w camera (\<lambda>d. Private_setState d CameraConfigured), None)))"

section \<open>The frame buffer allocator\<close>

record FrameBufferAllocator =
  fa_camera :: nat
  fa_buffers :: "(nat \<times> FrameBuffer list) list"

definition FrameBufferAllocator_new :: "nat \<Rightarrow> FrameBufferAllocator" where
  "FrameBufferAllocator_new camera = \<lparr>fa_camera = camera, fa_buffers = []\<rparr>"

text \<open>
  \<open>buffers_[stream]\<close> creates the entry before the camera is asked; an error leaves it, empty. A
  result that is not an error is the number of buffers.
\<close>

definition FrameBufferAllocator_allocate ::
    "('x, 'z) csystem vtable \<Rightarrow> ('x, 'z) csystem \<Rightarrow> FrameBufferAllocator \<Rightarrow> nat
      \<Rightarrow> (('x, 'z) csystem \<times> FrameBufferAllocator \<times> nat result) option" where
  "FrameBufferAllocator_allocate vt w alloc stream =
     (if map_of (fa_buffers alloc) stream \<noteq> None then Some (w, alloc, Inl EBUSY)
      else
        let alloc = alloc\<lparr>fa_buffers := map_insert stream [] (fa_buffers alloc)\<rparr> in
        case Camera_exportFrameBuffers vt w (fa_camera alloc) stream of
          None \<Rightarrow> None
        | Some (w, Inl e) \<Rightarrow> Some (w, alloc, Inl e)
        | Some (w, Inr buffers) \<Rightarrow>
            Some (w, alloc\<lparr>fa_buffers := map_insert stream buffers (fa_buffers alloc)\<rparr>,
                  Inr (length buffers)))"

definition FrameBufferAllocator_free ::
    "FrameBufferAllocator \<Rightarrow> nat \<Rightarrow> FrameBufferAllocator \<times> errno option" where
  "FrameBufferAllocator_free alloc stream =
     (if map_of (fa_buffers alloc) stream = None then (alloc, Some EINVAL)
      else (alloc\<lparr>fa_buffers := map_erase stream (fa_buffers alloc)\<rparr>, None))"

definition FrameBufferAllocator_buffers :: "FrameBufferAllocator \<Rightarrow> nat \<Rightarrow> FrameBuffer list" where
  "FrameBufferAllocator_buffers alloc stream =
     (case map_of (fa_buffers alloc) stream of None \<Rightarrow> [] | Some bs \<Rightarrow> bs)"


section \<open>The contract of a pipeline handler\<close>

text \<open>
  What a camera relies on in the handler behind it, for an invariant of the handler's choice: a
  posted request is delivered without an abort and joins the end of the queue or is dropped; the
  stop of the handler completes the whole queue, in order, and leaves the system in a state in which
  the camera may become configured.
\<close>

locale pipeline_contract =
  fixes vt :: "('x, 'z) csystem vtable" and c :: nat and inv :: "('x, 'z) csystem \<Rightarrow> bool"
  assumes deliver_ok: "inv w \<Longrightarrow> s_messages w = r # ms \<Longrightarrow>
    \<exists>w'. PipelineHandler_queueRequest (vt_queueRequestDevice vt) (w\<lparr>s_messages := ms\<rparr>) r = Some w' \<and>
      inv w' \<and> s_messages w' = ms \<and> s_cams w' = s_cams w \<and> s_signals w' = s_signals w \<and>
      (queue_of w' c = queue_of w c @ [r] \<or> queue_of w' c = queue_of w c) \<and> same_requests w w'"
  and stop_ok: "inv w \<Longrightarrow> s_messages w = [] \<Longrightarrow>
    \<exists>w'. vt_stop vt w c = Some w' \<and> queue_of w' c = [] \<and> s_messages w' = [] \<and> s_cams w' = s_cams w \<and>
      history w' c = history w c \<and>
      inv (upd_cam w' c (\<lambda>d. Private_setState d CameraConfigured)) \<and>
      (\<forall>r \<in> set (queue_of w c). rq_status (h_reqs w' r) =
         (if finished w r then rq_status (h_reqs w r) else RequestCancelled))"
  and stopping_ok: "inv w \<Longrightarrow> cp_state (s_cams w c) = CameraRunning \<Longrightarrow>
    inv (upd_cam w c (\<lambda>d. Private_setState d CameraStopping))"
begin

lemma deliver_all:
  "inv w \<Longrightarrow>
   \<exists>w' rs. deliver_messages vt (s_messages w) w = Some w' \<and> inv w' \<and>
     s_messages w' = [] \<and> s_cams w' = s_cams w \<and> s_signals w' = s_signals w \<and>
     subseq rs (s_messages w) \<and> queue_of w' c = queue_of w c @ rs \<and> same_requests w w'"
proof (induction "s_messages w" arbitrary: w)
  case Nil
  then show ?case
    by (intro exI [of _ w] exI [of _ "[]"]) (simp add: same_requests_def flip: Nil(1))
next
  case (Cons r ms)
  from deliver_ok [OF Cons.prems Cons.hyps(2) [symmetric]] obtain w1 where
    w1: "PipelineHandler_queueRequest (vt_queueRequestDevice vt) (w\<lparr>s_messages := ms\<rparr>) r = Some w1"
    "inv w1" "s_messages w1 = ms" "s_cams w1 = s_cams w" "s_signals w1 = s_signals w"
    "queue_of w1 c = queue_of w c @ [r] \<or> queue_of w1 c = queue_of w c" "same_requests w w1" by blast
  from Cons.hyps(1) [OF w1(3) [symmetric] w1(2)] obtain w2 rs where
    w2: "deliver_messages vt ms w1 = Some w2" "inv w2" "s_messages w2 = []"
    "s_cams w2 = s_cams w1" "s_signals w2 = s_signals w1" "subseq rs ms" "queue_of w2 c = queue_of w1 c @ rs"
    "same_requests w1 w2"
    using w1(3) by auto
  have eq: "deliver_messages vt (s_messages w) w = Some w2"
    using w1(1) w2(1) by (simp flip: Cons.hyps(2))
  define rs' where "rs' = (if queue_of w1 c = queue_of w c @ [r] then r # rs else rs)"
  have "subseq rs' (s_messages w)" using w2(6) by (auto simp: rs'_def simp flip: Cons.hyps(2))
  moreover have "queue_of w2 c = queue_of w c @ rs'" using w1(6) w2(7) by (auto simp: rs'_def)
  moreover have "same_requests w w2" using w1(7) w2(8) by (simp add: same_requests_def)
  ultimately show ?case using eq w1 w2 by (intro exI [of _ w2] exI [of _ rs']) simp
qed

lemma stop_completes:
  assumes "inv w" "cp_state (s_cams w c) = CameraRunning" "\<not> cp_disconnected (s_cams w c)"
  shows "\<exists>w' rs. Camera_stop vt w c = Some (w', None) \<and> inv w' \<and>
    subseq rs (s_messages w) \<and> queue_of w' c = [] \<and> s_messages w' = [] \<and>
    cp_state (s_cams w' c) = CameraConfigured \<and>
    completed_by c (s_signals w') = completed_by c (s_signals w) @ queue_of w c @ rs \<and>
    (\<forall>r \<in> set (queue_of w c @ rs). finished w' r \<and>
       (\<not> finished w r \<longrightarrow> rq_status (h_reqs w' r) = RequestCancelled))"
proof -
  let ?w0 = "upd_cam w c (\<lambda>d. Private_setState d CameraStopping)"
  from deliver_all [OF stopping_ok [OF assms(1,2)]] obtain w1 rs where
    w1: "deliver_messages vt (s_messages ?w0) ?w0 = Some w1" "inv w1" "s_messages w1 = []"
    "s_cams w1 = s_cams ?w0" "s_signals w1 = s_signals w" "subseq rs (s_messages w)"
    "queue_of w1 c = queue_of w c @ rs" "same_requests ?w0 w1" by auto
  from stop_ok [OF w1(2,3)] obtain w2 where
    w2: "vt_stop vt w1 c = Some w2" "queue_of w2 c = []" "s_messages w2 = []" "s_cams w2 = s_cams w1"
    "history w2 c = history w1 c" "inv (upd_cam w2 c (\<lambda>d. Private_setState d CameraConfigured))"
    "\<forall>r \<in> set (queue_of w1 c). rq_status (h_reqs w2 r) =
       (if finished w1 r then rq_status (h_reqs w1 r) else RequestCancelled)" by blast
  let ?w' = "upd_cam w2 c (\<lambda>d. Private_setState d CameraConfigured)"
  have ok: "isAccessAllowed (s_cams w c) CameraRunning False = None" using assms by simp
  have eq: "Camera_stop vt w c = Some (?w', None)"
    using w1(1) w2(1) by (simp add: Camera_stop_def invokeBlocking_def ok)
  have "completed_by c (s_signals ?w') = completed_by c (s_signals w) @ queue_of w c @ rs"
    using w2(2,5) w1(5,7) by (simp add: history_def)
  moreover have "\<forall>r \<in> set (queue_of w c @ rs). finished ?w' r \<and>
       (\<not> finished w r \<longrightarrow> rq_status (h_reqs ?w' r) = RequestCancelled)"
    using w2(7) w1(7,8) by (simp add: same_requests_def)
  ultimately show ?thesis
    using eq w1(6) w2(2,3,6) by (intro exI [of _ ?w'] exI [of _ rs]) (simp add: Private_setState_def)
qed

end

end
