(* ===== verification/CameraApp.thy ===== *)
theory CameraApp
  imports Camera KCamera Transforms "HOL-Library.Multiset"
begin

text \<open>
  The application that drives libcamera, \<open>libcamera_app.hpp\<close>, and the capture loop of \<open>run.cpp\<close>. The
  system of cameras is the one of theory \<open>Camera\<close>; the slot \<open>requestComplete\<close> is a call of its own for each
  completed request. \<open>None\<close> is undefined behaviour or a failed assertion.
\<close>

section \<open>The application\<close>

text \<open>
  The frame rate of a completed request is \<open>1e9\<close> divided by the difference of two times; the model keeps
  the difference, and nothing for a rate of 0.
\<close>

record CompletedRequest =
  cr_sequence :: u32
  cr_buffers :: "(nat \<times> nat) list"
  cr_metadata :: ControlList
  cr_framerate :: "u64 option"

datatype Msg = MsgRequestComplete CompletedRequest | MsgQuit

text \<open>
  Options whose use is floating point enter as the control values that they become. Controls that are
  set only under a condition on the options are optional.
\<close>

datatype control_name =
    ScalerCrop | FrameDurations | ExposureTime | AnalogueGain | AeMeteringMode | AeExposureMode | ExposureValue
  | AwbMode | ColourGains | Brightness | Contrast | Saturation | Sharpness | NoiseReductionMode

record AppOptions =
  ao_width :: u32
  ao_height :: u32
  ao_rawfull :: bool
  ao_transform :: u32
  ao_denoise :: string
  ao_value :: "control_name \<Rightarrow> ControlValue option"
  ao_stillDurations :: ControlValue

record LibcameraApp =
  la_options :: AppOptions
  la_camera :: "nat option"
  la_acquired :: bool
  la_configuration :: "CameraConfiguration option"
  la_mapped :: "(nat \<times> nat list) list"
  la_viewfinder :: "nat option"
  la_still :: "nat option"
  la_raw :: "nat option"
  la_video :: "nat option"
  la_allocator :: "FrameBufferAllocator option"
  la_frame_buffers :: "nat \<Rightarrow> nat list"
  la_free_requests :: "nat list"
  la_requests :: "nat list"
  la_started :: bool
  la_messages :: "Msg list"
  la_controls :: ControlList
  la_last_timestamp :: u64

text \<open>What the environment provides: identifiers of controls, addresses of new objects, mappings of planes.\<close>

record app_env =
  ae_id :: "control_name \<Rightarrow> u32"
  ae_int :: "i32 \<Rightarrow> ControlValue"
  ae_junk :: "nat \<Rightarrow> u8"
  ae_buffer :: "nat \<Rightarrow> nat \<Rightarrow> nat"
  ae_request :: "nat \<Rightarrow> nat"
  ae_mmap :: "Plane \<Rightarrow> nat"
  ae_controls :: "(u32 \<times> ControlId) list"
  ae_validator :: "nat \<Rightarrow> u32 \<Rightarrow> bool"

type_synonym ('x, 'z, 'a) app_result = "(('x, 'z) csystem \<times> LibcameraApp \<times> 'a outcome) option"

section \<open>Opening and closing\<close>

text \<open>\<open>started\<close>: the camera manager could be started.\<close>

definition OpenCamera ::
    "(i32 \<Rightarrow> bool) \<Rightarrow> bool \<Rightarrow> ('x, 'z) csystem \<Rightarrow> LibcameraApp \<Rightarrow> ('x, 'z) csystem \<times> LibcameraApp \<times> unit outcome" where
  "OpenCamera tlock started w a =
     (if \<not> started then (w, a, Thrown ''camera manager failed to start'')
      else
        (case s_cameras w of
           [] \<Rightarrow> (w, a, Thrown ''no cameras available'')
         | c # _ \<Rightarrow>
             let a = a\<lparr>la_camera := Some c\<rparr> in
             (case Camera_acquire tlock w c of
                (w, Some e) \<Rightarrow> (w, a, Thrown ''failed to acquire camera'')
              | (w, None) \<Rightarrow> (w, a\<lparr>la_acquired := True\<rparr>, Returned ()))))"

definition CloseCamera :: "('x, 'z) csystem \<Rightarrow> LibcameraApp \<Rightarrow> (('x, 'z) csystem \<times> LibcameraApp) option" where
  "CloseCamera w a =
     (case (if la_acquired a then map_option (\<lambda>c. fst (Camera_release w c)) (la_camera a) else Some w) of
        None \<Rightarrow> None
      | Some w \<Rightarrow> Some (w, a\<lparr>la_acquired := False, la_camera := None\<rparr>))"

section \<open>Controls\<close>

definition set_control_name ::
    "app_env \<Rightarrow> control_name \<Rightarrow> ControlValue \<Rightarrow> LibcameraApp \<Rightarrow> LibcameraApp option" where
  "set_control_name env n v a =
     map_option (\<lambda>l. a\<lparr>la_controls := l\<rparr>) (ControlList_set (ae_junk env) (la_controls a) (ae_id env n) v)"

text \<open>The enumerators of the noise reduction modes: off, minimal, fast and high quality.\<close>

definition denoise_table :: "string \<rightharpoonup> i32" where
  "denoise_table = [''off'' \<mapsto> 0, ''cdn_off'' \<mapsto> 3, ''cdn_fast'' \<mapsto> 1, ''cdn_hq'' \<mapsto> 2]"

definition configureDenoise :: "app_env \<Rightarrow> bool \<Rightarrow> LibcameraApp \<Rightarrow> (LibcameraApp \<times> unit outcome) option" where
  "configureDenoise env video_mode a =
     (case (if ao_denoise (la_options a) = ''auto'' then Some (if video_mode then 1 else 2)
            else denoise_table (ao_denoise (la_options a))) of
        None \<Rightarrow> Some (a, Thrown (''Invalid denoise mode '' @ ao_denoise (la_options a)))
      | Some d \<Rightarrow> map_option (\<lambda>a. (a, Returned ())) (set_control_name env NoiseReductionMode (ae_int env d) a))"

definition set_default ::
    "app_env \<Rightarrow> control_name \<Rightarrow> ControlValue option \<Rightarrow> LibcameraApp \<Rightarrow> LibcameraApp option" where
  "set_default env n v a =
     (if ControlList_contains (la_controls a) (ae_id env n) then Some a
      else (case v of None \<Rightarrow> Some a | Some v \<Rightarrow> set_control_name env n v a))"

fun set_defaults :: "app_env \<Rightarrow> control_name list \<Rightarrow> LibcameraApp \<Rightarrow> LibcameraApp option" where
  "set_defaults env [] a = Some a"
| "set_defaults env (n # ns) a =
     (case set_default env n (ao_value (la_options a) n) a of None \<Rightarrow> None | Some a \<Rightarrow> set_defaults env ns a)"

text \<open>The frame durations depend on the kind of capture.\<close>

definition start_controls :: "app_env \<Rightarrow> LibcameraApp \<Rightarrow> LibcameraApp option" where
  "start_controls env a =
     (case set_defaults env [ScalerCrop] a of
        None \<Rightarrow> None
      | Some a \<Rightarrow>
          (case set_default env FrameDurations
                  (if la_still a \<noteq> None then Some (ao_stillDurations (la_options a))
                   else ao_value (la_options a) FrameDurations) a of
             None \<Rightarrow> None
           | Some a \<Rightarrow>
               set_defaults env [ExposureTime, AnalogueGain, AeMeteringMode, AeExposureMode, ExposureValue, AwbMode,
                                 ColourGains, Brightness, Contrast, Saturation, Sharpness] a))"

text \<open>\<open>std::move\<close> leaves the argument without controls.\<close>

definition SetControls :: "ControlList \<Rightarrow> LibcameraApp \<Rightarrow> LibcameraApp \<times> ControlList" where
  "SetControls controls a = (a\<lparr>la_controls := controls\<rparr>, ControlList_clear controls)"

section \<open>Configuration\<close>

text \<open>
  Buffers that the camera exports get the addresses of the environment. The result of \<open>mmap\<close> is not
  checked.
\<close>

fun place_buffers :: "app_env \<Rightarrow> nat \<Rightarrow> nat \<Rightarrow> FrameBuffer list \<Rightarrow> ('x, 'z) csystem \<Rightarrow> LibcameraApp \<Rightarrow> ('x, 'z) csystem \<times> LibcameraApp" where
  "place_buffers env stream i [] w a = (w, a)"
| "place_buffers env stream i (fb # fbs) w a =
     (let b = ae_buffer env stream i;
          old = (case map_of (la_mapped a) b of None \<Rightarrow> [] | Some ms \<Rightarrow> ms);
          new = old @ map (ae_mmap env) (fb_planes fb);
          a = a\<lparr>la_mapped := (if fb_planes fb = [] then la_mapped a else map_insert b new (la_mapped a)),
                la_frame_buffers := (la_frame_buffers a)(stream := la_frame_buffers a stream @ [b])\<rparr>
      in place_buffers env stream (Suc i) fbs (upd_buf w b (\<lambda>_. fb)) a)"

fun allocate_streams ::
    "app_env \<Rightarrow> ('x, 'z) csystem vtable \<Rightarrow> StreamConfiguration list \<Rightarrow> ('x, 'z) csystem \<Rightarrow> LibcameraApp \<Rightarrow> ('x, 'z, unit) app_result" where
  "allocate_streams env vt [] w a = Some (w, a, Returned ())"
| "allocate_streams env vt (cfg # cfgs) w a =
     (case (sc_stream cfg, la_allocator a) of
        (Some stream, Some alloc) \<Rightarrow>
          (case FrameBufferAllocator_allocate vt w alloc stream of
             None \<Rightarrow> None
           | Some (w, alloc, Inl e) \<Rightarrow> Some (w, a\<lparr>la_allocator := Some alloc\<rparr>, Thrown ''failed to allocate capture buffers'')
           | Some (w, alloc, Inr n) \<Rightarrow>
               (case place_buffers env stream 0 (FrameBufferAllocator_buffers alloc stream) w (a\<lparr>la_allocator := Some alloc\<rparr>) of
                  (w, a) \<Rightarrow> allocate_streams env vt cfgs w a))
      | _ \<Rightarrow> None)"

definition setupCapture ::
    "app_env \<Rightarrow> ('x, 'z) csystem vtable \<Rightarrow> nat \<Rightarrow> CameraConfiguration \<Rightarrow> ('x, 'z) csystem \<Rightarrow> LibcameraApp \<Rightarrow> ('x, 'z, unit) app_result" where
  "setupCapture env vt c config w a =
     (case vt_validate vt w c config of
        None \<Rightarrow> None
      | Some (w, config, status) \<Rightarrow>
          let a = a\<lparr>la_configuration := Some config\<rparr> in
          if status = Invalid then Some (w, a, Thrown ''failed to valid stream configurations'')
          else
            (case Camera_configure vt w c config of
               None \<Rightarrow> None
             | Some (w, config, Some e) \<Rightarrow> Some (w, a\<lparr>la_configuration := Some config\<rparr>, Thrown ''failed to configure streams'')
             | Some (w, config, None) \<Rightarrow>
                 allocate_streams env vt (cc_config config) w
                   (a\<lparr>la_configuration := Some config, la_allocator := Some (FrameBufferAllocator_new c)\<rparr>)))"

text \<open>
  \<open>configuration_->at(i)\<close> does not check the index; \<open>upd_config\<close> changes the stream configuration at \<open>i\<close>.
\<close>

definition upd_config :: "nat \<Rightarrow> (StreamConfiguration \<Rightarrow> StreamConfiguration) \<Rightarrow> CameraConfiguration \<Rightarrow> CameraConfiguration option" where
  "upd_config i f config =
     (if i < length (cc_config config)
      then Some (config\<lparr>cc_config := (cc_config config)[i := f (cc_config config ! i)]\<rparr>) else None)"

definition stream_at :: "LibcameraApp \<Rightarrow> nat \<Rightarrow> nat option option" where
  "stream_at a i =
     (case la_configuration a of
        None \<Rightarrow> None
      | Some config \<Rightarrow> if i < length (cc_config config) then Some (sc_stream (cc_config config ! i)) else None)"

definition formats_YUV420 :: PixelFormat where "formats_YUV420 = PixelFormat 0x32315559 0"
definition formats_RGB888 :: PixelFormat where "formats_RGB888 = PixelFormat 0x34324752 0"
definition formats_BGR888 :: PixelFormat where "formats_BGR888 = PixelFormat 0x34324742 0"

definition FLAG_STILL_BGR :: u32 where "FLAG_STILL_BGR = 1"
definition FLAG_STILL_RGB :: u32 where "FLAG_STILL_RGB = 2"
definition FLAG_STILL_RAW :: u32 where "FLAG_STILL_RAW = 4"
definition FLAG_STILL_DOUBLE_BUFFER :: u32 where "FLAG_STILL_DOUBLE_BUFFER = 8"
definition FLAG_STILL_TRIPLE_BUFFER :: u32 where "FLAG_STILL_TRIPLE_BUFFER = 16"
definition FLAG_STILL_BUFFER_MASK :: u32 where "FLAG_STILL_BUFFER_MASK = 24"
definition FLAG_VIDEO_RAW :: u32 where "FLAG_VIDEO_RAW = 1"

definition has_flag :: "u32 \<Rightarrow> u32 \<Rightarrow> bool" where
  "has_flag flags f \<longleftrightarrow> and flags f \<noteq> 0"

definition option_size :: "AppOptions \<Rightarrow> StreamConfiguration \<Rightarrow> StreamConfiguration" where
  "option_size opt cfg =
     cfg\<lparr>sc_size := mk_Size (if ao_width opt \<noteq> 0 then ao_width opt else sz_width (sc_size cfg))
                          (if ao_height opt \<noteq> 0 then ao_height opt else sz_height (sc_size cfg))\<rparr>"

text \<open>The raw stream gets the size and the number of buffers of the main one.\<close>

definition match_raw :: "CameraConfiguration \<Rightarrow> CameraConfiguration option" where
  "match_raw config =
     (if length (cc_config config) < 2 then None
      else upd_config 1 (\<lambda>cfg. cfg\<lparr>sc_size := sc_size (cc_config config ! 0),
                                  sc_bufferCount := sc_bufferCount (cc_config config ! 0)\<rparr>) config)"

definition finish_configuration ::
    "app_env \<Rightarrow> ('x, 'z) csystem vtable \<Rightarrow> nat \<Rightarrow> bool \<Rightarrow> CameraConfiguration option \<Rightarrow> ('x, 'z) csystem \<Rightarrow> LibcameraApp
      \<Rightarrow> ('x, 'z, unit) app_result" where
  "finish_configuration env vt c video_mode config w a =
     (case config of
        None \<Rightarrow> None
      | Some config \<Rightarrow>
          let config = config\<lparr>cc_transform := ao_transform (la_options a)\<rparr>;
              a = a\<lparr>la_configuration := Some config\<rparr>
          in case configureDenoise env video_mode a of
               None \<Rightarrow> None
             | Some (a, Thrown msg) \<Rightarrow> Some (w, a, Thrown msg)
             | Some (a, Returned _) \<Rightarrow> setupCapture env vt c config w a)"

definition generate ::
    "('x, 'z) csystem vtable \<Rightarrow> StreamRole list \<Rightarrow> ('x, 'z) csystem \<Rightarrow> LibcameraApp
      \<Rightarrow> (nat \<times> ('x, 'z) csystem \<times> CameraConfiguration option) option" where
  "generate vt roles w a =
     (case la_camera a of
        None \<Rightarrow> None
      | Some c \<Rightarrow> map_option (Pair c) (Camera_generateConfiguration vt w c roles))"

definition ConfigureViewfinder ::
    "app_env \<Rightarrow> ('x, 'z) csystem vtable \<Rightarrow> ('x, 'z) csystem \<Rightarrow> LibcameraApp \<Rightarrow> ('x, 'z, unit) app_result" where
  "ConfigureViewfinder env vt w a =
     (case generate vt [Viewfinder] w a of
        None \<Rightarrow> None
      | Some (c, w, None) \<Rightarrow> Some (w, a\<lparr>la_configuration := None\<rparr>, Thrown ''failed to generate viewfinder configuration'')
      | Some (c, w, Some config) \<Rightarrow>
          (case finish_configuration env vt c True
                  (upd_config 0 (\<lambda>cfg. cfg\<lparr>sc_pixelFormat := formats_YUV420, sc_size := mk_Size 1280 960\<rparr>) config) w a of
             None \<Rightarrow> None
           | Some (w, a, Thrown msg) \<Rightarrow> Some (w, a, Thrown msg)
           | Some (w, a, Returned _) \<Rightarrow>
               (case stream_at a 0 of None \<Rightarrow> None | Some s \<Rightarrow> Some (w, a\<lparr>la_viewfinder := s\<rparr>, Returned ()))))"

definition still_format :: "u32 \<Rightarrow> PixelFormat" where
  "still_format flags =
     (if has_flag flags FLAG_STILL_BGR then formats_BGR888
      else if has_flag flags FLAG_STILL_RGB then formats_RGB888 else formats_YUV420)"

definition still_buffers :: "u32 \<Rightarrow> u32 \<Rightarrow> u32" where
  "still_buffers flags n =
     (if and flags FLAG_STILL_BUFFER_MASK = FLAG_STILL_DOUBLE_BUFFER then 2
      else if and flags FLAG_STILL_BUFFER_MASK = FLAG_STILL_TRIPLE_BUFFER then 3 else n)"

text \<open>Both read the stream of the second configuration in the end, whether there is one or not.\<close>

definition ConfigureStill ::
    "app_env \<Rightarrow> ('x, 'z) csystem vtable \<Rightarrow> u32 \<Rightarrow> ('x, 'z) csystem \<Rightarrow> LibcameraApp \<Rightarrow> ('x, 'z, unit) app_result" where
  "ConfigureStill env vt flags w a =
     (let raw = has_flag flags FLAG_STILL_RAW in
      case generate vt (if raw then [StillCapture, Raw] else [StillCapture]) w a of
        None \<Rightarrow> None
      | Some (c, w, None) \<Rightarrow> Some (w, a\<lparr>la_configuration := None\<rparr>, Thrown ''failed to generate still capture configuration'')
      | Some (c, w, Some config) \<Rightarrow>
          (case finish_configuration env vt c False
                  (case upd_config 0 (\<lambda>cfg. option_size (la_options a)
                       (cfg\<lparr>sc_pixelFormat := still_format flags, sc_bufferCount := still_buffers flags (sc_bufferCount cfg)\<rparr>)) config of
                     None \<Rightarrow> None
                   | Some config \<Rightarrow> if raw \<and> \<not> ao_rawfull (la_options a) then match_raw config else Some config) w a of
             None \<Rightarrow> None
           | Some (w, a, Thrown msg) \<Rightarrow> Some (w, a, Thrown msg)
           | Some (w, a, Returned _) \<Rightarrow>
               (case (stream_at a 0, stream_at a 1) of
                  (Some s, Some r) \<Rightarrow> Some (w, a\<lparr>la_still := s, la_raw := r\<rparr>, Returned ())
                | _ \<Rightarrow> None)))"

definition ConfigureVideo ::
    "app_env \<Rightarrow> ('x, 'z) csystem vtable \<Rightarrow> u32 \<Rightarrow> ('x, 'z) csystem \<Rightarrow> LibcameraApp \<Rightarrow> ('x, 'z, unit) app_result" where
  "ConfigureVideo env vt flags w a =
     (let raw = has_flag flags FLAG_VIDEO_RAW in
      case generate vt (if raw then [VideoRecording, Raw] else [VideoRecording]) w a of
        None \<Rightarrow> None
      | Some (c, w, None) \<Rightarrow> Some (w, a\<lparr>la_configuration := None\<rparr>, Thrown ''failed to generate video configuration'')
      | Some (c, w, Some config) \<Rightarrow>
          (case finish_configuration env vt c True
                  (case upd_config 0 (\<lambda>cfg. option_size (la_options a) (cfg\<lparr>sc_pixelFormat := formats_RGB888\<rparr>)) config of
                     None \<Rightarrow> None
                   | Some config \<Rightarrow> if raw \<and> \<not> ao_rawfull (la_options a) then match_raw config else Some config) w a of
             None \<Rightarrow> None
           | Some (w, a, Thrown msg) \<Rightarrow> Some (w, a, Thrown msg)
           | Some (w, a, Returned _) \<Rightarrow>
               (case (stream_at a 0, stream_at a 1) of
                  (Some s, Some r) \<Rightarrow> Some (w, a\<lparr>la_video := s, la_raw := r\<rparr>, Returned ())
                | _ \<Rightarrow> None)))"

definition Teardown :: "('x, 'z) csystem \<Rightarrow> LibcameraApp \<Rightarrow> LibcameraApp option" where
  "Teardown w a =
     (if list_all (\<lambda>(b, ms). length (fb_planes (h_bufs w b)) = length ms) (la_mapped a)
      then Some (a\<lparr>la_mapped := [], la_allocator := None, la_configuration := None, la_frame_buffers := (\<lambda>_. []),
                   la_viewfinder := None, la_still := None, la_raw := None, la_video := None\<rparr>)
      else None)"

section \<open>Requests\<close>

text \<open>
  One round of \<open>makeRequests\<close> takes a buffer of each stream; the result says whether the buffers of the
  first stream were used up. \<open>free\<close> are the copies of the queues; the new request has the next address.
\<close>

fun make_round ::
    "app_env \<Rightarrow> nat \<Rightarrow> nat option \<Rightarrow> StreamConfiguration list \<Rightarrow> (nat \<Rightarrow> nat list) \<Rightarrow> ('x, 'z) csystem \<Rightarrow> LibcameraApp
      \<Rightarrow> (('x, 'z) csystem \<times> LibcameraApp \<times> ((nat \<Rightarrow> nat list) \<times> bool) outcome) option" where
  "make_round env c first [] free w a = Some (w, a, Returned (free, False))"
| "make_round env c first (cfg # cfgs) free w a =
     (case sc_stream cfg of
        None \<Rightarrow> None
      | Some stream \<Rightarrow>
          (case free stream of
             [] \<Rightarrow>
               if sc_stream cfg = first then Some (w, a, Returned (free, True))
               else Some (w, a, Thrown ''concurrent streams need matching numbers of buffers'')
           | b # bs \<Rightarrow>
               (case (if sc_stream cfg = first then
                        (case Camera_createRequest (ae_controls env) (ae_validator env) w c 0 of
                           None \<Rightarrow> None
                         | Some rq \<Rightarrow>
                             let r = ae_request env (length (la_requests a))
                             in Some (upd_req w r (\<lambda>_. rq), a\<lparr>la_requests := la_requests a @ [r]\<rparr>))
                      else Some (w, a)) of
                  None \<Rightarrow> Some (w, a, Thrown ''failed to make request'')
                | Some (w, a) \<Rightarrow>
                    if la_requests a = [] then None
                    else
                      (case Request_addBuffer w (last (la_requests a)) (Some stream) b of
                         (w, Some e) \<Rightarrow> Some (w, a, Thrown ''failed to add buffer to request'')
                       | (w, None) \<Rightarrow> make_round env c first cfgs (free(stream := bs)) w a))))"

text \<open>Without any stream the rounds never end.\<close>

partial_function (option) make_rounds ::
    "app_env \<Rightarrow> nat \<Rightarrow> StreamConfiguration list \<Rightarrow> (nat \<Rightarrow> nat list) \<Rightarrow> ('x, 'z) csystem \<Rightarrow> LibcameraApp
      \<Rightarrow> (('x, 'z) csystem \<times> LibcameraApp \<times> unit outcome) option" where
  "make_rounds env c cfgs free w a =
     (case make_round env c (sc_stream (hd cfgs)) cfgs free w a of
        None \<Rightarrow> None
      | Some (w, a, r) \<Rightarrow>
          (case r of
             Thrown msg \<Rightarrow> Some (w, a, Thrown msg)
           | Returned fd \<Rightarrow> if snd fd then Some (w, a, Returned ()) else make_rounds env c cfgs (fst fd) w a))"

declare make_rounds.simps [code]

definition makeRequests ::
    "app_env \<Rightarrow> nat \<Rightarrow> ('x, 'z) csystem \<Rightarrow> LibcameraApp \<Rightarrow> ('x, 'z, unit) app_result" where
  "makeRequests env c w a =
     (case la_configuration a of
        None \<Rightarrow> None
      | Some config \<Rightarrow> make_rounds env c (cc_config config) (la_frame_buffers a) w a)"

section \<open>Running\<close>

fun queue_all :: "nat \<Rightarrow> nat list \<Rightarrow> ('x, 'z) csystem \<Rightarrow> ('x, 'z) csystem \<times> unit outcome" where
  "queue_all c [] w = (w, Returned ())"
| "queue_all c (r # rs) w =
     (case Camera_queueRequest w c r of
        (w, Some e) \<Rightarrow> (w, Thrown ''Failed to queue request'')
      | (w, None) \<Rightarrow> queue_all c rs w)"

definition StartCamera ::
    "app_env \<Rightarrow> ('x, 'z) csystem vtable \<Rightarrow> ('x, 'z) csystem \<Rightarrow> LibcameraApp \<Rightarrow> ('x, 'z, unit) app_result" where
  "StartCamera env vt w a =
     (case la_camera a of
        None \<Rightarrow> None
      | Some c \<Rightarrow>
          (case makeRequests env c w a of
             None \<Rightarrow> None
           | Some (w, a, Thrown msg) \<Rightarrow> Some (w, a, Thrown msg)
           | Some (w, a, Returned _) \<Rightarrow>
               (case start_controls env a of
                  None \<Rightarrow> None
                | Some a \<Rightarrow>
                    (case Camera_start vt w c (Some (la_controls a)) of
                       None \<Rightarrow> None
                     | Some (w, Some e) \<Rightarrow> Some (w, a, Thrown ''failed to start camera'')
                     | Some (w, None) \<Rightarrow>
                         let a = a\<lparr>la_controls := ControlList_clear (la_controls a), la_started := True, la_last_timestamp := 0\<rparr>;
                             (w, r) = queue_all c (la_requests a) w
                         in Some (w, a, r)))))"

definition StopCamera ::
    "('x, 'z) csystem vtable \<Rightarrow> ('x, 'z) csystem \<Rightarrow> LibcameraApp \<Rightarrow> ('x, 'z, unit) app_result" where
  "StopCamera vt w a =
     (case (if la_started a
            then (case la_camera a of None \<Rightarrow> None | Some c \<Rightarrow> Camera_stop vt w c)
            else Some (w, None)) of
        None \<Rightarrow> None
      | Some (w, Some e) \<Rightarrow> Some (w, a, Thrown ''failed to stop camera'')
      | Some (w, None) \<Rightarrow>
          Some (w, a\<lparr>la_started := False, la_messages := [], la_free_requests := [], la_requests := [],
                     la_controls := ControlList_clear (la_controls a)\<rparr>, Returned ()))"

definition PostMessage :: "Msg \<Rightarrow> LibcameraApp \<Rightarrow> LibcameraApp" where
  "PostMessage msg a = a\<lparr>la_messages := la_messages a @ [msg]\<rparr>"

text \<open>\<open>Wait\<close> goes on when there is a message.\<close>

definition Wait_ready :: "LibcameraApp \<Rightarrow> bool" where
  "Wait_ready a \<longleftrightarrow> la_messages a \<noteq> []"

definition Wait :: "LibcameraApp \<Rightarrow> LibcameraApp \<times> Msg" where
  "Wait a = (a\<lparr>la_messages := tl (la_messages a)\<rparr>, hd (la_messages a))"

text \<open>The width, the height and the stride of a stream, which must not be null.\<close>

definition StreamDimensions :: "('x, 'z) csystem \<Rightarrow> nat option \<Rightarrow> (u32 \<times> u32 \<times> u32) option" where
  "StreamDimensions w stream =
     map_option (\<lambda>s. let cfg = s_streams w s in (sz_width (sc_size cfg), sz_height (sc_size cfg), sc_stride cfg)) stream"

definition Mmap :: "LibcameraApp \<Rightarrow> nat \<Rightarrow> nat list" where
  "Mmap a b = (case map_of (la_mapped a) b of None \<Rightarrow> [] | Some ms \<Rightarrow> ms)"

fun add_buffers :: "nat \<Rightarrow> (nat \<times> nat) list \<Rightarrow> ('x, 'z) csystem \<Rightarrow> ('x, 'z) csystem \<times> errno option" where
  "add_buffers r [] w = (w, None)"
| "add_buffers r ((s, b) # buffers) w =
     (case Request_addBuffer w r (Some s) b of
        (w, Some e) \<Rightarrow> (w, Some e)
      | (w, None) \<Rightarrow> add_buffers r buffers w)"

text \<open>Without a free request, and when the camera refuses the request, there is only a message on the terminal.\<close>

definition QueueRequest ::
    "CompletedRequest \<Rightarrow> ('x, 'z) csystem \<Rightarrow> LibcameraApp \<Rightarrow> ('x, 'z, unit) app_result" where
  "QueueRequest completed w a =
     (case la_free_requests a of
        [] \<Rightarrow> Some (w, a, Returned ())
      | r # free \<Rightarrow>
          let a = a\<lparr>la_free_requests := free\<rparr> in
          (case add_buffers r (cr_buffers completed) w of
             (w, Some e) \<Rightarrow> Some (w, a, Thrown ''failed to add buffer to request in QueueRequest'')
           | (w, None) \<Rightarrow>
               let w = upd_req w r (\<lambda>rq. rq\<lparr>rq_controls := la_controls a\<rparr>);
                   a = a\<lparr>la_controls := ControlList_clear (la_controls a)\<rparr>
               in (case la_camera a of
                     None \<Rightarrow> None
                   | Some c \<Rightarrow> Some (fst (Camera_queueRequest w c r), a, Returned ()))))"

text \<open>The slot for completed requests. A request without buffers is undefined behaviour.\<close>

definition requestComplete ::
    "nat \<Rightarrow> ('x, 'z) csystem \<Rightarrow> LibcameraApp \<Rightarrow> (('x, 'z) csystem \<times> LibcameraApp) option" where
  "requestComplete r w a =
     (let rq = h_reqs w r in
      if rq_status rq = RequestCancelled then Some (w, a)
      else
        (case rq_bufferMap rq of
           [] \<Rightarrow> None
         | (s, b) # _ \<Rightarrow>
             let md = fb_metadata (h_bufs w b);
                 w = Request_reuse w r False;
                 timestamp = md_timestamp md;
                 payload = \<lparr>cr_sequence = md_sequence md, cr_buffers = rq_bufferMap rq, cr_metadata = rq_metadata rq,
                   cr_framerate = (if la_last_timestamp a = 0 \<or> la_last_timestamp a = timestamp then None
                                   else Some (timestamp - la_last_timestamp a))\<rparr>;
                 a = a\<lparr>la_free_requests := la_free_requests a @ [r], la_last_timestamp := timestamp\<rparr>
             in Some (w, PostMessage (MsgRequestComplete payload) a)))"

text \<open>The destructor.\<close>

definition LibcameraApp_delete ::
    "('x, 'z) csystem vtable \<Rightarrow> ('x, 'z) csystem \<Rightarrow> LibcameraApp \<Rightarrow> (('x, 'z) csystem \<times> LibcameraApp) option" where
  "LibcameraApp_delete vt w a =
     (case StopCamera vt w a of
        Some (w, a, Returned _) \<Rightarrow> (case Teardown w a of None \<Rightarrow> None | Some a \<Rightarrow> CloseCamera w a)
      | _ \<Rightarrow> None)"

section \<open>The capture loop\<close>

text \<open>
  \<open>event_loop\<close> up to the loop. \<open>opt\<close> are the options that the constructor sets; \<open>as_list\<close> are the controls
  of \<open>run.cpp\<close> as a list.
\<close>

definition event_loop_options :: "('f, 'z) KcState_scheme \<Rightarrow> AppOptions \<Rightarrow> AppOptions" where
  "event_loop_options k opt =
     (let p = k_params k;
          opt = opt\<lparr>ao_width := p_width p, ao_height := p_height p\<rparr>;
          opt = (if p_hflip p \<noteq> 0 then opt\<lparr>ao_transform := Transform_mult HFlip (ao_transform opt)\<rparr> else opt)
      in if p_vflip p \<noteq> 0 then opt\<lparr>ao_transform := Transform_mult VFlip (ao_transform opt)\<rparr> else opt)"

definition event_loop_start ::
    "'f float_ops \<Rightarrow> app_env \<Rightarrow> (i32 \<Rightarrow> bool) \<Rightarrow> bool \<Rightarrow> ('x, 'z) csystem vtable \<Rightarrow> ('f, 'k) KcState_scheme \<Rightarrow> ('x, 'z) csystem
      \<Rightarrow> LibcameraApp \<Rightarrow> (('f, 'k) KcState_scheme \<times> ('x, 'z) csystem \<times> LibcameraApp \<times> unit outcome) option" where
  "event_loop_start F env tlock started vt k w a =
     (let a = a\<lparr>la_options := event_loop_options k (la_options a)\<rparr> in
      case event_loop_setup F k of
        None \<Rightarrow> None
      | Some k \<Rightarrow>
          map_option (Pair k)
            (case OpenCamera tlock started w a of
               (w, a, Thrown msg) \<Rightarrow> Some (w, a, Thrown msg)
             | (w, a, Returned _) \<Rightarrow>
                 (case ConfigureVideo env vt FLAG_VIDEO_RAW w a of
                    None \<Rightarrow> None
                  | Some (w, a, Thrown msg) \<Rightarrow> Some (w, a, Thrown msg)
                  | Some (w, a, Returned _) \<Rightarrow> StartCamera env vt w a)))"

text \<open>
  One turn: \<open>event_loop_controls\<close> before the wait, \<open>event_loop_frame\<close> with the message. \<open>bytes_at mem n\<close> are the
  \<open>n\<close> bytes at the address \<open>mem\<close>, \<open>type\<close> is the type of frame of the application. The times are in
  nanoseconds, those of frames in microseconds.
\<close>

definition event_loop_controls ::
    "((control \<Rightarrow> 'f control_value option) \<Rightarrow> ControlList) \<Rightarrow> ('f, 'k) KcState_scheme \<Rightarrow> LibcameraApp
      \<Rightarrow> ('f, 'k) KcState_scheme \<times> LibcameraApp" where
  "event_loop_controls as_list k a =
     (if cl_controls (as_list (k_controls k)) = [] then (k, a)
      else (k\<lparr>k_controls := Map.empty\<rparr>, fst (SetControls (as_list (k_controls k)) a)))"

definition event_loop_frame ::
    "'f float_ops \<Rightarrow> u32 \<Rightarrow> i32 \<Rightarrow> (nat \<times> u8 list) option \<Rightarrow> nat option \<Rightarrow> (nat \<Rightarrow> u32 \<Rightarrow> u8 list) \<Rightarrow> Msg \<Rightarrow> ('f, 'k) KcState_scheme
      \<Rightarrow> ('x, 'z) csystem \<Rightarrow> LibcameraApp \<Rightarrow> (('f, 'k) KcState_scheme \<times> ('x, 'z) csystem \<times> LibcameraApp \<times> unit outcome) option" where
  "event_loop_frame F now mfree alloc node bytes_at msg k w a =
     (case msg of
        MsgQuit \<Rightarrow> Some (k, w, a, Thrown ''unrecognised message!'')
      | MsgRequestComplete completed \<Rightarrow>
          (case la_video a of
             None \<Rightarrow> None
           | Some stream \<Rightarrow>
               (case map_of (cr_buffers completed) stream of
                  None \<Rightarrow> None
                | Some b \<Rightarrow>
                    (case (Mmap a b, fb_planes (h_bufs w b)) of
                       (mem # _, plane # _) \<Rightarrow>
                         if mem = 0 then Some (k, w, a, Thrown ''no buffer to encode'')
                         else
                           (case kcFrameData F now mfree alloc node (ucast (ao_width (la_options a)))
                                   (ucast (ao_height (la_options a))) FRAME_BGR
                                   (word_of_int (sint (md_timestamp (fb_metadata (h_bufs w b))) sdiv 1000)) (bytes_at mem (pl_length plane)) k of
                              None \<Rightarrow> None
                            | Some k \<Rightarrow> map_option (Pair k) (QueueRequest completed w a))
                     | _ \<Rightarrow> None))))"

text \<open>After the loop.\<close>

definition event_loop_end ::
    "('x, 'z) csystem vtable \<Rightarrow> ('f, 'k) KcState_scheme \<Rightarrow> ('x, 'z) csystem \<Rightarrow> LibcameraApp
      \<Rightarrow> (('f, 'k) KcState_scheme \<times> ('x, 'z) csystem \<times> LibcameraApp \<times> unit outcome) option" where
  "event_loop_end vt k w a =
     (case StopCamera vt w a of
        None \<Rightarrow> None
      | Some (w, a, Thrown msg) \<Rightarrow> Some (k, w, a, Thrown msg)
      | Some (w, a, Returned _) \<Rightarrow> Some (kcStopped k, w, a, Returned ()))"

section \<open>Every step of the loop\<close>

text \<open>
  The state of the loop: the camera module, the system, the application, and the message it works on. Between
  two of its steps the camera may do anything that leaves the buffers of requests alone, other threads may
  change the camera module, and the camera may complete a request that the application gave it.
\<close>

type_synonym ('f, 'k, 'x, 'z) loop_state = "('f, 'k) KcState_scheme \<times> ('x, 'z) csystem \<times> LibcameraApp \<times> Msg option"

inductive app_step :: "('f, 'k, 'x, 'z) loop_state \<Rightarrow> ('f, 'k, 'x, 'z) loop_state \<Rightarrow> bool" where
  as_camera: "\<forall>r. rq_bufferMap (h_reqs w' r) = rq_bufferMap (h_reqs w r) \<Longrightarrow> app_step (k, w, a, h) (k, w', a, h)"
| as_module: "app_step (k, w, a, h) (k', w, a, h)"
| as_completed: "r \<in> set (la_requests a) \<Longrightarrow> r \<notin> set (la_free_requests a) \<Longrightarrow> requestComplete r w a = Some (w', a')
    \<Longrightarrow> app_step (k, w, a, h) (k, w', a', h)"
| as_controls: "event_loop_controls as_list k a = (k', a') \<Longrightarrow> app_step (k, w, a, None) (k', w, a', None)"
| as_wait: "Wait_ready a \<Longrightarrow> Wait a = (a', msg) \<Longrightarrow> app_step (k, w, a, None) (k, w, a', Some msg)"
| as_frame: "event_loop_frame F now mfree alloc node bytes_at msg k w a = Some (k', w', a', Returned ())
    \<Longrightarrow> app_step (k, w, a, Some msg) (k', w', a', None)"

inductive app_steps :: "('f, 'k, 'x, 'z) loop_state \<Rightarrow> ('f, 'k, 'x, 'z) loop_state \<Rightarrow> bool" where
  as_refl: "app_steps s s"
| as_more: "app_steps s t \<Longrightarrow> app_step t u \<Longrightarrow> app_steps s u"

fun msg_payloads :: "Msg list \<Rightarrow> CompletedRequest list" where
  "msg_payloads [] = []"
| "msg_payloads (MsgRequestComplete completed # ms) = completed # msg_payloads ms"
| "msg_payloads (MsgQuit # ms) = msg_payloads ms"

definition held :: "LibcameraApp \<Rightarrow> Msg option \<Rightarrow> CompletedRequest list" where
  "held a h = msg_payloads (case h of None \<Rightarrow> [] | Some m \<Rightarrow> [m]) @ msg_payloads (la_messages a)"

definition map_buffers :: "(nat \<times> nat) list \<Rightarrow> nat multiset" where
  "map_buffers m = mset (map snd m)"

text \<open>The buffers that requests hold, and those of completed requests the loop has still to see.\<close>

definition app_buffers :: "('x, 'z) csystem \<Rightarrow> LibcameraApp \<Rightarrow> Msg option \<Rightarrow> nat multiset" where
  "app_buffers w a h =
     sum_list (map (\<lambda>r. map_buffers (rq_bufferMap (h_reqs w r))) (la_requests a)) +
     sum_list (map (\<lambda>completed. map_buffers (cr_buffers completed)) (held a h))"

definition app_inv :: "('x, 'z) csystem \<Rightarrow> LibcameraApp \<Rightarrow> Msg option \<Rightarrow> bool" where
  "app_inv w a h \<longleftrightarrow>
     la_camera a \<noteq> None \<and> distinct (la_requests a) \<and>
     distinct (la_free_requests a) \<and> set (la_free_requests a) \<subseteq> set (la_requests a) \<and>
     length (la_free_requests a) = length (held a h) \<and>
     (\<forall>r \<in> set (la_free_requests a). rq_bufferMap (h_reqs w r) = []) \<and>
     (\<forall>r \<in> set (la_requests a). map_ok (rq_bufferMap (h_reqs w r))) \<and>
     (\<forall>r \<in> set (la_requests a) - set (la_free_requests a). rq_bufferMap (h_reqs w r) \<noteq> []) \<and>
     (\<forall>completed \<in> set (held a h). map_ok (cr_buffers completed) \<and> cr_buffers completed \<noteq> [])"

lemma msg_payloads_append [simp]: "msg_payloads (ms @ ns) = msg_payloads ms @ msg_payloads ns"
  by (induction ms rule: msg_payloads.induct) simp_all

lemma held_simps [simp]:
  "held a None = msg_payloads (la_messages a)"
  "held a (Some MsgQuit) = msg_payloads (la_messages a)"
  "held a (Some (MsgRequestComplete completed)) = completed # msg_payloads (la_messages a)"
  by (simp_all add: held_def)

lemma map_insert_end: "map_ok (m @ (s, b) # bs) \<Longrightarrow> map_insert s b m = m @ [(s, b)]"
  by (induction m) (auto simp: map_ok_def)

lemma add_buffers_spec:
  "map_ok (rq_bufferMap (h_reqs w r) @ bs) \<Longrightarrow>
   \<exists>w'. add_buffers r bs w = (w', None) \<and> rq_bufferMap (h_reqs w' r) = rq_bufferMap (h_reqs w r) @ bs \<and>
     (\<forall>r'. r' \<noteq> r \<longrightarrow> h_reqs w' r' = h_reqs w r')"
proof (induction r bs w rule: add_buffers.induct)
  case (1 r w)
  then show ?case by simp
next
  case (2 r s b bs w)
  let ?m = "rq_bufferMap (h_reqs w r)"
  obtain w1 where w1: "Request_addBuffer w r (Some s) b = (w1, None)"
    "rq_bufferMap (h_reqs w1 r) = ?m @ [(s, b)]" "\<forall>r'. r' \<noteq> r \<longrightarrow> h_reqs w1 r' = h_reqs w r'"
  proof -
    have "map_of ?m s = None" using 2(2) by (force simp: map_ok_def sorted_wrt_append map_of_eq_None_iff)
    then show thesis using that map_insert_end [OF 2(2)]
      by (simp add: Request_addBuffer_def)
  qed
  have "map_ok (rq_bufferMap (h_reqs w1 r) @ bs)" using 2(2) w1(2) by simp
  from 2(1) [OF w1(1) [symmetric] refl this] obtain w2 where
    "add_buffers r bs w1 = (w2, None)" "rq_bufferMap (h_reqs w2 r) = rq_bufferMap (h_reqs w1 r) @ bs"
    "\<forall>r'. r' \<noteq> r \<longrightarrow> h_reqs w2 r' = h_reqs w1 r'" by blast
  then show ?case using w1 by simp
qed

text \<open>The buffers of the requests, when one request changes.\<close>

lemma request_buffers_update:
  assumes "distinct rs" "r \<in> set rs" "\<forall>r'. r' \<noteq> r \<longrightarrow> f r' = g r'"
  shows "sum_list (map f rs) + g r = sum_list (map g rs) + (f r :: nat multiset)"
proof -
  have "sum f (set rs - {r}) = sum g (set rs - {r})" by (rule sum.cong) (use assms(3) in auto)
  then show ?thesis
    using sum.remove [OF _ assms(2), of f] sum.remove [OF _ assms(2), of g]
    by (simp add: sum_list_distinct_conv_sum_set [OF assms(1)] ac_simps)
qed

lemma reuse_empties:
  "rq_bufferMap (h_reqs (Request_reuse w r False) r) = []"
  "r' \<noteq> r \<Longrightarrow> h_reqs (Request_reuse w r False) r' = h_reqs w r'"
  by (simp_all add: Request_reuse_def Let_def)

lemma Camera_queueRequest_reqs [simp]: "h_reqs (fst (Camera_queueRequest w c r)) = h_reqs w"
  by (simp add: Camera_queueRequest_def invokeQueued_def Let_def split: option.split)

lemma QueueRequest_inv:
  assumes "app_inv w a (Some (MsgRequestComplete completed))"
  shows "\<exists>r free w' a'. la_free_requests a = r # free \<and> QueueRequest completed w a = Some (w', a', Returned ()) \<and>
    app_inv w' a' None \<and> app_buffers w' a' None = app_buffers w a (Some (MsgRequestComplete completed)) \<and>
    rq_bufferMap (h_reqs w' r) = cr_buffers completed"
proof -
  obtain r free where free: "la_free_requests a = r # free"
    using assms by (cases "la_free_requests a") (auto simp: app_inv_def)
  obtain c where c: "la_camera a = Some c" using assms by (auto simp: app_inv_def)
  have r: "rq_bufferMap (h_reqs w r) = []" "r \<in> set (la_requests a)" "r \<notin> set free" "map_ok (cr_buffers completed)"
    "distinct (la_requests a)"
    using assms by (simp_all add: app_inv_def free)
  obtain w1 where w1: "add_buffers r (cr_buffers completed) w = (w1, None)"
    "rq_bufferMap (h_reqs w1 r) = cr_buffers completed" "\<forall>r'. r' \<noteq> r \<longrightarrow> h_reqs w1 r' = h_reqs w r'"
    using add_buffers_spec [of w r "cr_buffers completed"] r by auto
  define w2 where "w2 = upd_req w1 r (\<lambda>rq. rq\<lparr>rq_controls := la_controls a\<rparr>)"
  define w' where "w' = fst (Camera_queueRequest w2 c r)"
  define a' where "a' = a\<lparr>la_free_requests := free, la_controls := ControlList_clear (la_controls a)\<rparr>"
  have eq: "QueueRequest completed w a = Some (w', a', Returned ())"
    by (simp add: QueueRequest_def free w1(1) c Let_def w'_def w2_def a'_def)
  have maps: "rq_bufferMap (h_reqs w' r') = (if r' = r then cr_buffers completed else rq_bufferMap (h_reqs w r'))" for r'
    using w1(2,3) by (simp add: w'_def w2_def)
  have "app_inv w' a' None"
    using assms r by (auto simp: app_inv_def maps a'_def free)
  moreover have "app_buffers w' a' None = app_buffers w a (Some (MsgRequestComplete completed))"
    using request_buffers_update [OF r(5,2), of "\<lambda>r. map_buffers (rq_bufferMap (h_reqs w' r))"
        "\<lambda>r. map_buffers (rq_bufferMap (h_reqs w r))"] r(1)
    by (simp add: app_buffers_def maps a'_def map_buffers_def ac_simps)
  ultimately show ?thesis using free eq maps [of r] by auto
qed

lemma requestComplete_posts:
  assumes "rq_status (h_reqs w r) \<noteq> RequestCancelled" "rq_bufferMap (h_reqs w r) \<noteq> []"
  shows "\<exists>a' completed. requestComplete r w a = Some (Request_reuse w r False, a') \<and>
    cr_buffers completed = rq_bufferMap (h_reqs w r) \<and> la_messages a' = la_messages a @ [MsgRequestComplete completed] \<and>
    la_free_requests a' = la_free_requests a @ [r] \<and> la_requests a' = la_requests a \<and> la_camera a' = la_camera a"
proof -
  obtain s b m where m: "rq_bufferMap (h_reqs w r) = (s, b) # m" using assms(2) by (metis list.exhaust surj_pair)
  let ?md = "fb_metadata (h_bufs w b)"
  define completed where "completed = \<lparr>cr_sequence = md_sequence ?md, cr_buffers = (s, b) # m,
    cr_metadata = rq_metadata (h_reqs w r), cr_framerate =
      (if la_last_timestamp a = 0 \<or> la_last_timestamp a = md_timestamp ?md then None
       else Some (md_timestamp ?md - la_last_timestamp a))\<rparr>"
  show ?thesis
    by (rule exI [of _ "PostMessage (MsgRequestComplete completed)
          (a\<lparr>la_free_requests := la_free_requests a @ [r], la_last_timestamp := md_timestamp ?md\<rparr>)"],
        rule exI [of _ completed])
      (simp add: requestComplete_def assms(1) m Let_def PostMessage_def completed_def)
qed

lemma requestComplete_inv:
  assumes "app_inv w a h" "r \<in> set (la_requests a)" "r \<notin> set (la_free_requests a)"
  shows "\<exists>w' a'. requestComplete r w a = Some (w', a') \<and> app_inv w' a' h \<and> app_buffers w' a' h = app_buffers w a h"
proof (cases "rq_status (h_reqs w r) = RequestCancelled")
  case True
  then show ?thesis using assms(1) by (simp add: requestComplete_def)
next
  case False
  let ?m = "rq_bufferMap (h_reqs w r)"
  have m: "?m \<noteq> []" "map_ok ?m" "distinct (la_requests a)" using assms by (simp_all add: app_inv_def)
  let ?w = "Request_reuse w r False"
  from requestComplete_posts [OF False m(1)] obtain a' completed where eq: "requestComplete r w a = Some (?w, a')"
    "cr_buffers completed = ?m" "la_messages a' = la_messages a @ [MsgRequestComplete completed]"
    "la_free_requests a' = la_free_requests a @ [r]" "la_requests a' = la_requests a" "la_camera a' = la_camera a" by blast
  have held: "held a' h = held a h @ [completed]" by (simp add: held_def eq(3))
  have maps: "rq_bufferMap (h_reqs ?w r') = (if r' = r then [] else rq_bufferMap (h_reqs w r'))" for r'
    by (simp add: reuse_empties)
  have "app_inv ?w a' h"
    using assms m(1,2) by (auto simp: app_inv_def maps held eq(2,4-6))
  moreover have "app_buffers ?w a' h = app_buffers w a h"
    using request_buffers_update [OF m(3) assms(2), of "\<lambda>r. map_buffers (rq_bufferMap (h_reqs ?w r))"
        "\<lambda>r. map_buffers (rq_bufferMap (h_reqs w r))"]
    by (simp add: app_buffers_def maps held eq(2,5) map_buffers_def ac_simps)
  ultimately show ?thesis using eq(1) by auto
qed

lemma event_loop_frame_queues:
  "event_loop_frame F now mfree alloc node bytes_at msg k w a = Some (k', w', a', r) \<Longrightarrow>
   (\<exists>completed. msg = MsgRequestComplete completed \<and> QueueRequest completed w a = Some (w', a', r)) \<or> (\<exists>e. r = Thrown e)"
  by (auto simp: event_loop_frame_def split: Msg.splits option.splits list.splits if_splits)

lemma app_step_inv:
  assumes "app_step (k, w, a, h) (k', w', a', h')" "app_inv w a h"
  shows "app_inv w' a' h' \<and> app_buffers w' a' h' = app_buffers w a h"
  using assms(1)
proof (cases rule: app_step.cases)
  case as_camera
  then show ?thesis using assms(2) by (simp add: app_inv_def app_buffers_def)
next
  case as_module
  then show ?thesis using assms(2) by simp
next
  case (as_completed r)
  then show ?thesis using requestComplete_inv [OF assms(2), of r] by auto
next
  case (as_controls as_list)
  then have "\<exists>l. a' = a\<lparr>la_controls := l\<rparr> \<or> a' = a" by (auto simp: event_loop_controls_def SetControls_def split: if_splits)
  then show ?thesis using assms(2) as_controls by (auto simp: app_inv_def app_buffers_def)
next
  case (as_wait msg)
  then obtain ms where ms: "la_messages a = msg # ms" "a' = a\<lparr>la_messages := ms\<rparr>"
    by (cases "la_messages a") (auto simp: Wait_ready_def Wait_def)
  then have "held a' (Some msg) = held a None" by (cases msg) simp_all
  then show ?thesis using assms(2) as_wait ms(2) by (simp add: app_inv_def app_buffers_def)
next
  case (as_frame F now mfree alloc node bytes_at msg)
  then obtain completed where "msg = MsgRequestComplete completed" "QueueRequest completed w a = Some (w', a', Returned ())"
    using event_loop_frame_queues by blast
  then show ?thesis using QueueRequest_inv assms(2) as_frame by fastforce
qed

lemma app_steps_inv:
  assumes "app_steps s t" "app_inv (fst (snd s)) (fst (snd (snd s))) (snd (snd (snd s)))"
  shows "app_inv (fst (snd t)) (fst (snd (snd t))) (snd (snd (snd t))) \<and>
    app_buffers (fst (snd t)) (fst (snd (snd t))) (snd (snd (snd t))) =
    app_buffers (fst (snd s)) (fst (snd (snd s))) (snd (snd (snd s)))"
  using assms
proof (induction rule: app_steps.induct)
  case (as_more s t u)
  obtain k w a h k' w' a' h' where "t = (k, w, a, h)" "u = (k', w', a', h')" by (metis prod_cases4)
  then show ?case using as_more app_step_inv by fastforce
qed simp

section \<open>Making the requests\<close>

text \<open>The buffer map that a round leaves: the next buffer of each stream.\<close>

definition round_map :: "nat list \<Rightarrow> (nat \<Rightarrow> nat) \<Rightarrow> (nat \<times> nat) list \<Rightarrow> (nat \<times> nat) list" where
  "round_map ss f m = fold (\<lambda>s. map_insert s (f s)) ss m"

lemma round_map_simps [simp]:
  "round_map [] f m = m" "round_map (s # ss) f m = round_map ss f (map_insert s (f s) m)"
  by (simp_all add: round_map_def)

lemma round_map_cong: "(\<And>s. s \<in> set ss \<Longrightarrow> f s = g s) \<Longrightarrow> round_map ss f m = round_map ss g m"
  unfolding round_map_def by (rule fold_cong) auto

lemma round_map_ok: "map_ok m \<Longrightarrow> map_ok (round_map ss f m)"
  by (induction ss arbitrary: m) simp_all

lemma round_map_nonempty: "ss \<noteq> [] \<or> m \<noteq> [] \<Longrightarrow> round_map ss f m \<noteq> []"
proof (induction ss arbitrary: m)
  case (Cons s ss)
  have "map_insert s (f s) m \<noteq> []" by (cases "(s, f s, m)" rule: map_insert.cases) auto
  then show ?case using Cons.IH by simp
qed simp

lemma map_insert_buffers: "map_of m s = None \<Longrightarrow> map_buffers (map_insert s b m) = add_mset b (map_buffers m)"
  by (induction s b m rule: map_insert.induct) (auto simp: map_buffers_def split: if_splits)

lemma round_map_buffers:
  "map_ok m \<Longrightarrow> distinct ss \<Longrightarrow> \<forall>s \<in> set ss. map_of m s = None \<Longrightarrow>
   map_buffers (round_map ss f m) = mset (map f ss) + map_buffers m"
proof (induction ss arbitrary: m)
  case (Cons s ss)
  then have "map_ok (map_insert s (f s) m)" "\<forall>t \<in> set ss. map_of (map_insert s (f s) m) t = None" by auto
  with Cons show ?case by (simp add: map_insert_buffers)
qed simp

lemma make_round_rest:
  "map sc_stream cfgs = map Some ss \<Longrightarrow> distinct ss \<Longrightarrow> first \<notin> Some ` set ss \<Longrightarrow> \<forall>s \<in> set ss. free s \<noteq> [] \<Longrightarrow>
   la_requests a \<noteq> [] \<Longrightarrow> r = last (la_requests a) \<Longrightarrow> map_ok (rq_bufferMap (h_reqs w r)) \<Longrightarrow>
   \<forall>s \<in> set ss. map_of (rq_bufferMap (h_reqs w r)) s = None \<Longrightarrow>
   \<exists>w'. make_round env c first cfgs free w a
       = Some (w', a, Returned (\<lambda>s. if s \<in> set ss then tl (free s) else free s, False)) \<and>
     rq_bufferMap (h_reqs w' r) = round_map ss (\<lambda>s. hd (free s)) (rq_bufferMap (h_reqs w r)) \<and>
     (\<forall>r'. r' \<noteq> r \<longrightarrow> h_reqs w' r' = h_reqs w r') \<and> s_cams w' = s_cams w"
proof (induction ss arbitrary: cfgs free w)
  case Nil
  then show ?case by simp
next
  case (Cons s ss)
  obtain cfg cfgs' where cfgs: "cfgs = cfg # cfgs'" "sc_stream cfg = Some s" "map sc_stream cfgs' = map Some ss"
    using Cons.prems(1) by auto
  obtain b bs where b: "free s = b # bs" using Cons.prems(4) by (cases "free s") auto
  let ?m = "rq_bufferMap (h_reqs w r)"
  obtain w1 where w1: "Request_addBuffer w r (Some s) b = (w1, None)" "rq_bufferMap (h_reqs w1 r) = map_insert s b ?m"
    "\<forall>r'. r' \<noteq> r \<longrightarrow> h_reqs w1 r' = h_reqs w r'" "s_cams w1 = s_cams w"
    using Cons.prems(8) by (simp add: Request_addBuffer_def FrameBuffer_setRequest_def)
  let ?free = "free(s := bs)"
  have "map_ok (rq_bufferMap (h_reqs w1 r))" "\<forall>s \<in> set ss. map_of (rq_bufferMap (h_reqs w1 r)) s = None"
    "\<forall>s \<in> set ss. ?free s \<noteq> []" "first \<notin> Some ` set ss" "distinct ss"
    using Cons.prems w1(2) by auto
  from Cons.IH [OF cfgs(3) this(5,4,3) Cons.prems(5,6) this(1,2)] obtain w2 where w2:
    "make_round env c first cfgs' ?free w1 a
       = Some (w2, a, Returned (\<lambda>s. if s \<in> set ss then tl (?free s) else ?free s, False))"
    "rq_bufferMap (h_reqs w2 r) = round_map ss (\<lambda>s. hd (?free s)) (rq_bufferMap (h_reqs w1 r))"
    "\<forall>r'. r' \<noteq> r \<longrightarrow> h_reqs w2 r' = h_reqs w1 r'" "s_cams w2 = s_cams w1" by blast
  have eq: "(\<lambda>s. if s \<in> set ss then tl (?free s) else ?free s) = (\<lambda>t. if t \<in> set (s # ss) then tl (free t) else free t)"
    using Cons.prems(2) b by (auto simp: fun_eq_iff)
  have map_eq: "round_map ss (\<lambda>s. hd (?free s)) m = round_map ss (\<lambda>s. hd (free s)) m" for m
    by (rule round_map_cong) (use Cons.prems(2) in auto)
  have "Some s \<noteq> first" using Cons.prems(3) by auto
  then have "make_round env c first cfgs free w a = make_round env c first cfgs' ?free w1 a"
    using Cons.prems(5,6) w1(1) by (simp add: cfgs b)
  then show ?case using w1 w2(1,2) [unfolded eq map_eq] w2(3,4) b by simp
qed

lemma make_round_first:
  assumes "map sc_stream cfgs = map Some (s0 # ss)" "distinct (s0 # ss)" "\<forall>s \<in> set (s0 # ss). free s \<noteq> []"
    "isAccessAllowed_range (s_cams w c) CameraConfigured CameraRunning False = None"
  shows "\<exists>w' a'. make_round env c (Some s0) cfgs free w a
       = Some (w', a', Returned (\<lambda>s. if s \<in> set (s0 # ss) then tl (free s) else free s, False)) \<and>
     a' = a\<lparr>la_requests := la_requests a @ [ae_request env (length (la_requests a))]\<rparr> \<and>
     rq_bufferMap (h_reqs w' (ae_request env (length (la_requests a)))) = round_map (s0 # ss) (\<lambda>s. hd (free s)) [] \<and>
     (\<forall>r'. r' \<noteq> ae_request env (length (la_requests a)) \<longrightarrow> h_reqs w' r' = h_reqs w r') \<and> s_cams w' = s_cams w"
proof -
  obtain cfg cfgs' where cfgs: "cfgs = cfg # cfgs'" "sc_stream cfg = Some s0" "map sc_stream cfgs' = map Some ss"
    using assms(1) by auto
  obtain b bs where b: "free s0 = b # bs" using assms(3) by (cases "free s0") auto
  let ?r = "ae_request env (length (la_requests a))"
  let ?a = "a\<lparr>la_requests := la_requests a @ [?r]\<rparr>"
  define rq where "rq = Request_new (ae_controls env) (ae_validator env) c 0"
  have rq: "Camera_createRequest (ae_controls env) (ae_validator env) w c 0 = Some rq" "rq_bufferMap rq = []"
    unfolding Camera_createRequest_def assms(4) by (simp_all add: rq_def Request_new_def)
  obtain w1 where w1: "Request_addBuffer (upd_req w ?r (\<lambda>_. rq)) ?r (Some s0) b = (w1, None)"
    "rq_bufferMap (h_reqs w1 ?r) = [(s0, b)]" "\<forall>r'. r' \<noteq> ?r \<longrightarrow> h_reqs w1 r' = h_reqs w r'" "s_cams w1 = s_cams w"
    by (simp add: Request_addBuffer_def FrameBuffer_setRequest_def rq(2))
  let ?free = "free(s0 := bs)"
  have pre: "map_ok (rq_bufferMap (h_reqs w1 ?r))" "\<forall>s \<in> set ss. map_of (rq_bufferMap (h_reqs w1 ?r)) s = None"
    "\<forall>s \<in> set ss. ?free s \<noteq> []" "Some s0 \<notin> Some ` set ss" "distinct ss" "la_requests ?a \<noteq> []" "?r = last (la_requests ?a)"
    using assms(2,3) w1(2) by (auto simp: map_ok_def)
  from make_round_rest [OF cfgs(3) pre(5,4,3,6,7,1,2), of env c, unfolded w1(2)] obtain w2 where w2:
    "make_round env c (Some s0) cfgs' ?free w1 ?a
       = Some (w2, ?a, Returned (\<lambda>s. if s \<in> set ss then tl (?free s) else ?free s, False))"
    "rq_bufferMap (h_reqs w2 ?r) = round_map ss (\<lambda>s. hd (?free s)) [(s0, b)]"
    "\<forall>r'. r' \<noteq> ?r \<longrightarrow> h_reqs w2 r' = h_reqs w1 r'" "s_cams w2 = s_cams w1" by blast
  have eq: "(\<lambda>s. if s \<in> set ss then tl (?free s) else ?free s) = (\<lambda>t. if t \<in> set (s0 # ss) then tl (free t) else free t)"
    using assms(2) b by (auto simp: fun_eq_iff)
  have map_eq: "round_map ss (\<lambda>s. hd (?free s)) m = round_map ss (\<lambda>s. hd (free s)) m" for m
    by (rule round_map_cong) (use assms(2) in auto)
  have "make_round env c (Some s0) cfgs free w a = make_round env c (Some s0) cfgs' ?free w1 ?a"
    using w1(1) by (simp add: cfgs(1,2) b rq(1) Let_def)
  note round = this [unfolded w2(1) eq]
  have maps: "rq_bufferMap (h_reqs w2 ?r) = round_map (s0 # ss) (\<lambda>s. hd (free s)) []"
    unfolding w2(2) map_eq by (simp add: b)
  have "h_reqs w2 r' = h_reqs w r'" if "r' \<noteq> ?r" for r'
    by (rule trans [OF w2(3) [rule_format, OF that] w1(3) [rule_format, OF that]])
  then have others: "\<forall>r'. r' \<noteq> ?r \<longrightarrow> h_reqs w2 r' = h_reqs w r'" "s_cams w2 = s_cams w"
    using w1(4) w2(4) by simp_all
  show ?thesis
    by (intro exI [of _ w2] exI [of _ ?a] conjI round refl maps others)
qed

text \<open>The rounds end when the buffers of the first stream are used up.\<close>

lemma make_rounds_spec:
  assumes "map sc_stream cfgs = map Some (s0 # ss)" "distinct (s0 # ss)" "inj (ae_request env)"
    "isAccessAllowed_range (s_cams w c) CameraConfigured CameraRunning False = None"
    "\<forall>s \<in> set (s0 # ss). length (free s) = n"
  shows "\<exists>w'. make_rounds env c cfgs free w a
       = Some (w', a\<lparr>la_requests := la_requests a @ map (ae_request env) [length (la_requests a)..<length (la_requests a) + n]\<rparr>,
               Returned ()) \<and>
     (\<forall>i < n. rq_bufferMap (h_reqs w' (ae_request env (length (la_requests a) + i))) = round_map (s0 # ss) (\<lambda>s. free s ! i) []) \<and>
     (\<forall>r. r \<notin> ae_request env ` {length (la_requests a)..<length (la_requests a) + n} \<longrightarrow> h_reqs w' r = h_reqs w r) \<and>
     s_cams w' = s_cams w"
  using assms(4,5)
proof (induction n arbitrary: free w a)
  case 0
  have hd_cfgs: "sc_stream (hd cfgs) = Some s0" using assms(1) by (cases cfgs) auto
  have "make_round env c (Some s0) cfgs free w a = Some (w, a, Returned (free, True))"
    using assms(1) 0 by (cases cfgs) auto
  then show ?case by (subst make_rounds.simps) (simp add: hd_cfgs)
next
  case (Suc n)
  have hd_cfgs: "sc_stream (hd cfgs) = Some s0" using assms(1) by (cases cfgs) auto
  let ?k = "length (la_requests a)"
  let ?a = "a\<lparr>la_requests := la_requests a @ [ae_request env ?k]\<rparr>"
  let ?free = "\<lambda>s. if s \<in> set (s0 # ss) then tl (free s) else free s"
  have ne: "\<forall>s \<in> set (s0 # ss). free s \<noteq> []" using Suc.prems(2) by auto
  from make_round_first [OF assms(1,2) ne Suc.prems(1), of env a] obtain w1 where w1:
    "make_round env c (Some s0) cfgs free w a = Some (w1, ?a, Returned (?free, False))"
    "rq_bufferMap (h_reqs w1 (ae_request env ?k)) = round_map (s0 # ss) (\<lambda>s. hd (free s)) []"
    "\<forall>r'. r' \<noteq> ae_request env ?k \<longrightarrow> h_reqs w1 r' = h_reqs w r'" "s_cams w1 = s_cams w" by blast
  have "\<forall>s \<in> set (s0 # ss). length (?free s) = n" using Suc.prems(2) by auto
  from Suc.IH [OF Suc.prems(1) [folded w1(4)] this, of ?a] obtain w2 where w2:
    "make_rounds env c cfgs ?free w1 ?a = Some (w2, ?a\<lparr>la_requests := la_requests ?a @
        map (ae_request env) [length (la_requests ?a)..<length (la_requests ?a) + n]\<rparr>, Returned ())"
    "\<forall>i < n. rq_bufferMap (h_reqs w2 (ae_request env (length (la_requests ?a) + i))) = round_map (s0 # ss) (\<lambda>s. ?free s ! i) []"
    "\<forall>r. r \<notin> ae_request env ` {length (la_requests ?a)..<length (la_requests ?a) + n} \<longrightarrow> h_reqs w2 r = h_reqs w1 r"
    "s_cams w2 = s_cams w1" by blast
  have "make_rounds env c cfgs free w a = make_rounds env c cfgs ?free w1 ?a"
    by (subst make_rounds.simps) (simp add: hd_cfgs w1(1))
  moreover have "?a\<lparr>la_requests := la_requests ?a @ map (ae_request env) [length (la_requests ?a)..<length (la_requests ?a) + n]\<rparr>
      = a\<lparr>la_requests := la_requests a @ map (ae_request env) [?k..<?k + Suc n]\<rparr>"
    by (simp add: upt_conv_Cons del: upt_Suc)
  ultimately have run: "make_rounds env c cfgs free w a = Some (w2,
      a\<lparr>la_requests := la_requests a @ map (ae_request env) [?k..<?k + Suc n]\<rparr>, Returned ())"
    using w2(1) by (simp only:)
  have "rq_bufferMap (h_reqs w2 (ae_request env (?k + i))) = round_map (s0 # ss) (\<lambda>s. free s ! i) []"
    if i: "i < Suc n" for i
  proof (cases i)
    case 0
    have "ae_request env ?k \<notin> ae_request env ` {Suc ?k..<Suc ?k + n}" by (simp add: inj_image_mem_iff [OF assms(3)])
    then have "h_reqs w2 (ae_request env ?k) = h_reqs w1 (ae_request env ?k)" using w2(3) by simp
    then show ?thesis unfolding 0
      by (simp only: add_0_right w1(2)) (rule round_map_cong, use ne in \<open>auto simp: hd_conv_nth\<close>)
  next
    case (Suc j)
    have "rq_bufferMap (h_reqs w2 (ae_request env (?k + i))) = round_map (s0 # ss) (\<lambda>s. ?free s ! j) []"
      using w2(2) i Suc by simp
    also have "\<dots> = round_map (s0 # ss) (\<lambda>s. free s ! i) []"
      by (rule round_map_cong) (use Suc.prems(2) i Suc in \<open>auto simp: nth_tl\<close>)
    finally show ?thesis .
  qed
  moreover have "h_reqs w2 r = h_reqs w r" if "r \<notin> ae_request env ` {?k..<?k + Suc n}" for r
  proof -
    have "r \<noteq> ae_request env ?k" "r \<notin> ae_request env ` {Suc ?k..<Suc ?k + n}" using that by auto
    then show ?thesis using w1(3) w2(3) by simp
  qed
  ultimately show ?case using w1(4) w2(4) by (intro exI [of _ w2] conjI run) simp_all
qed

section \<open>Starting\<close>

lemma set_defaults_controls: "set_defaults env ns a = Some a' \<Longrightarrow> \<exists>l. a' = a\<lparr>la_controls := l\<rparr>"
proof (induction env ns a rule: set_defaults.induct)
  case (1 env a)
  then have "a' = a\<lparr>la_controls := la_controls a\<rparr>" by simp
  then show ?case ..
next
  case (2 env n ns a)
  from 2(2) obtain a1 where a1: "set_default env n (ao_value (la_options a) n) a = Some a1" "set_defaults env ns a1 = Some a'"
    by (auto split: option.splits)
  then have "\<exists>l. a1 = a\<lparr>la_controls := l\<rparr>"
    by (auto simp: set_default_def set_control_name_def split: if_splits option.splits intro: exI [of _ "la_controls a"])
  with 2(1) [OF a1] show ?case by auto
qed

lemma start_controls_controls:
  assumes "start_controls env a = Some a'"
  shows "\<exists>l. a' = a\<lparr>la_controls := l\<rparr>"
proof -
  have d: "\<exists>l. a2 = a1\<lparr>la_controls := l\<rparr>" if "set_default env n v a1 = Some a2" for n v a1 a2
    using that
    by (auto simp: set_default_def set_control_name_def split: if_splits option.splits intro: exI [of _ "la_controls a1"])
  from assms obtain a1 a2 v ns where a: "set_defaults env [ScalerCrop] a = Some a1"
    "set_default env FrameDurations v a1 = Some a2" "set_defaults env ns a2 = Some a'"
    by (auto simp: start_controls_def simp del: set_defaults.simps split: option.splits)
  obtain l where "a1 = a\<lparr>la_controls := l\<rparr>" using set_defaults_controls [OF a(1)] by blast
  moreover obtain l' where "a2 = a1\<lparr>la_controls := l'\<rparr>" using d [OF a(2)] by blast
  moreover obtain l'' where "a' = a2\<lparr>la_controls := l''\<rparr>" using set_defaults_controls [OF a(3)] by blast
  ultimately have "a' = a\<lparr>la_controls := l''\<rparr>" by simp
  then show ?thesis ..
qed

lemma queue_all_reqs: "queue_all c rs w = (w', r) \<Longrightarrow> h_reqs w' = h_reqs w"
proof (induction c rs w rule: queue_all.induct)
  case (2 c q rs w)
  obtain w1 e where w1: "Camera_queueRequest w c q = (w1, e)" by (cases "Camera_queueRequest w c q")
  then have "h_reqs w1 = h_reqs w" using Camera_queueRequest_reqs [of w c q] by simp
  then show ?case using 2 w1 by (cases e) auto
qed simp

text \<open>What the start of the camera must not change.\<close>

definition start_keeps :: "('x, 'z) csystem vtable \<Rightarrow> nat \<Rightarrow> bool" where
  "start_keeps vt c \<longleftrightarrow> (\<forall>w controls w' e. Camera_start vt w c controls = Some (w', e) \<longrightarrow>
     (\<forall>r. rq_bufferMap (h_reqs w' r) = rq_bufferMap (h_reqs w r)))"

text \<open>
  The application after a successful configuration: \<open>ss\<close> are the streams, each with \<open>n\<close> buffers, and nothing
  is left of an earlier run.
\<close>

definition app_configured :: "app_env \<Rightarrow> ('x, 'z) csystem \<Rightarrow> LibcameraApp \<Rightarrow> nat \<Rightarrow> nat list \<Rightarrow> nat \<Rightarrow> bool" where
  "app_configured env w a c ss n \<longleftrightarrow>
     la_camera a = Some c \<and> inj (ae_request env) \<and> ss \<noteq> [] \<and> distinct ss \<and>
     (\<exists>config. la_configuration a = Some config \<and> map sc_stream (cc_config config) = map Some ss) \<and>
     isAccessAllowed_range (s_cams w c) CameraConfigured CameraRunning False = None \<and>
     (\<forall>s \<in> set ss. length (la_frame_buffers a s) = n) \<and>
     la_requests a = [] \<and> la_free_requests a = [] \<and> la_messages a = []"

lemma map_of_round_map:
  "map_ok m \<Longrightarrow> map_of (round_map ss f m) s = (if s \<in> set ss then Some (f s) else map_of m s)"
  by (induction ss arbitrary: m) auto

lemma makeRequests_configured:
  assumes "app_configured env w a c ss n"
  shows "\<exists>w'. makeRequests env c w a = Some (w', a\<lparr>la_requests := map (ae_request env) [0..<n]\<rparr>, Returned ()) \<and>
     (\<forall>i < n. rq_bufferMap (h_reqs w' (ae_request env i)) = round_map ss (\<lambda>s. la_frame_buffers a s ! i) []) \<and>
     (\<forall>r. r \<notin> ae_request env ` {..<n} \<longrightarrow> h_reqs w' r = h_reqs w r) \<and> s_cams w' = s_cams w"
proof -
  obtain s0 ss' where ss: "ss = s0 # ss'" using assms by (cases ss) (auto simp: app_configured_def)
  obtain config where config: "la_configuration a = Some config" "map sc_stream (cc_config config) = map Some (s0 # ss')"
    using assms unfolding app_configured_def ss by (elim conjE exE) meson
  have "distinct (s0 # ss')" "inj (ae_request env)"
    "isAccessAllowed_range (s_cams w c) CameraConfigured CameraRunning False = None"
    "\<forall>s \<in> set (s0 # ss'). length (la_frame_buffers a s) = n" "la_requests a = []"
    using assms unfolding app_configured_def ss by blast+
  from make_rounds_spec [OF config(2) this(1-4), of a] this(5) show ?thesis
    unfolding makeRequests_def ss config(1) by (simp add: atLeast0LessThan)
qed

lemma sum_list_nth: "sum_list (map (\<lambda>i. {#xs ! i#}) [0..<length xs]) = mset xs"
proof -
  have "sum_list (map (\<lambda>x. {#x#}) ys) = mset ys" for ys :: "'a list" by (induction ys) simp_all
  moreover have "map (\<lambda>i. {#xs ! i#}) [0..<length xs] = map (\<lambda>x. {#x#}) (map ((!) xs) [0..<length xs])" by simp
  ultimately show ?thesis by (simp only: map_nth)
qed

lemma buffers_by_stream:
  "\<forall>s \<in> set ss. length (f s) = n \<Longrightarrow>
   sum_list (map (\<lambda>i. mset (map (\<lambda>s. f s ! i) ss)) [0..<n]) = sum_list (map (\<lambda>s. mset (f s)) ss)"
proof (induction ss)
  case (Cons s ss)
  have "sum_list (map (\<lambda>i. mset (map (\<lambda>s. f s ! i) (s # ss))) [0..<n])
      = sum_list (map (\<lambda>i. {#f s ! i#} + mset (map (\<lambda>s. f s ! i) ss)) [0..<n])" by simp
  also have "\<dots> = sum_list (map (\<lambda>i. {#f s ! i#}) [0..<n]) + sum_list (map (\<lambda>i. mset (map (\<lambda>s. f s ! i) ss)) [0..<n])"
    by (rule sum_list_addf)
  also have "\<dots> = mset (f s) + sum_list (map (\<lambda>s. mset (f s)) ss)"
    using Cons sum_list_nth [of "f s"] by simp
  finally show ?case by simp
qed simp

lemma StartCamera_inv:
  assumes "app_configured env w a c ss n" "start_keeps vt c" "StartCamera env vt w a = Some (w', a', Returned ())"
  shows "app_inv w' a' None \<and> la_requests a' = map (ae_request env) [0..<n] \<and> la_free_requests a' = [] \<and>
    la_messages a' = [] \<and> app_buffers w' a' None = sum_list (map (\<lambda>s. mset (la_frame_buffers a s)) ss)"
proof -
  have conf: "la_camera a = Some c" "inj (ae_request env)" "ss \<noteq> []" "distinct ss" "\<forall>s \<in> set ss. length (la_frame_buffers a s) = n"
    "la_free_requests a = []" "la_messages a = []"
    using assms(1) unfolding app_configured_def by blast+
  from makeRequests_configured [OF assms(1)] obtain w1 where w1:
    "makeRequests env c w a = Some (w1, a\<lparr>la_requests := map (ae_request env) [0..<n]\<rparr>, Returned ())"
    "\<forall>i < n. rq_bufferMap (h_reqs w1 (ae_request env i)) = round_map ss (\<lambda>s. la_frame_buffers a s ! i) []" by blast
  let ?a = "a\<lparr>la_requests := map (ae_request env) [0..<n]\<rparr>"
  from assms(3) obtain a1 w2 where a1: "start_controls env ?a = Some a1" "Camera_start vt w1 c (Some (la_controls a1)) = Some (w2, None)"
    "queue_all c (la_requests a1) w2 = (w', Returned ())"
    "a' = a1\<lparr>la_controls := ControlList_clear (la_controls a1), la_started := True, la_last_timestamp := 0\<rparr>"
    by (auto simp: StartCamera_def conf(1) w1(1) Let_def split: option.splits prod.splits)
  obtain l where l: "a1 = ?a\<lparr>la_controls := l\<rparr>" using start_controls_controls [OF a1(1)] by blast
  have maps: "rq_bufferMap (h_reqs w' (ae_request env i)) = round_map ss (\<lambda>s. la_frame_buffers a s ! i) []" if "i < n" for i
  proof -
    have "rq_bufferMap (h_reqs w2 (ae_request env i)) = rq_bufferMap (h_reqs w1 (ae_request env i))"
      using assms(2) a1(2) unfolding start_keeps_def by blast
    then show ?thesis using queue_all_reqs [OF a1(3)] w1(2) that by simp
  qed
  have a': "la_requests a' = map (ae_request env) [0..<n]" "la_free_requests a' = []" "la_messages a' = []" "la_camera a' = Some c"
    using conf(1,6,7) by (simp_all add: a1(4) l)
  have "distinct (map (ae_request env) [0..<n])" using inj_on_subset [OF conf(2) subset_UNIV] by (simp add: distinct_map)
  then have "app_inv w' a' None"
    by (auto simp: app_inv_def a' maps round_map_ok round_map_nonempty conf(3))
  moreover have "app_buffers w' a' None = sum_list (map (\<lambda>i. mset (map (\<lambda>s. la_frame_buffers a s ! i) ss)) [0..<n])"
  proof -
    have "map_buffers (rq_bufferMap (h_reqs w' (ae_request env i))) = mset (map (\<lambda>s. la_frame_buffers a s ! i) ss)"
      if "i < n" for i
      using round_map_buffers [OF map_ok_Nil conf(4)] maps [OF that] by (simp add: map_buffers_def)
    then have eq: "map (\<lambda>i. map_buffers (rq_bufferMap (h_reqs w' (ae_request env i)))) [0..<n]
        = map (\<lambda>i. mset (map (\<lambda>s. la_frame_buffers a s ! i) ss)) [0..<n]" by (intro map_cong) simp_all
    have "app_buffers w' a' None = sum_list (map (\<lambda>i. map_buffers (rq_bufferMap (h_reqs w' (ae_request env i)))) [0..<n])"
      by (simp add: app_buffers_def a' comp_def)
    then show ?thesis by (simp only: eq)
  qed
  ultimately show ?thesis using buffers_by_stream [OF conf(5)] a'(1-3) by simp
qed

section \<open>The end of a configuration\<close>

lemma configure_end:
  assumes "(case X of None \<Rightarrow> None
     | Some (w, a, Thrown msg) \<Rightarrow> Some (w, a, Thrown msg)
     | Some (w, a, Returned _) \<Rightarrow>
         (case stream_at a 0 of
            None \<Rightarrow> None
          | Some s \<Rightarrow> (case stream_at a 1 of None \<Rightarrow> None | Some r \<Rightarrow> Some (w, f a s r, Returned ())))) = Some (w', a', Returned ())"
  shows "\<exists>a1 s r. stream_at a1 1 \<noteq> None \<and> a' = f a1 s r"
proof -
  obtain w1 a1 x where "X = Some (w1, a1, Returned x)" using assms by (auto split: option.splits prod.splits outcome.splits)
  then show ?thesis using assms by (auto split: option.splits)
qed

section \<open>An example\<close>

text \<open>A handler that accepts everything, a configured camera with two buffers of one stream.\<close>

definition example_env :: app_env where
  "example_env = \<lparr>ae_id = (\<lambda>_. 0), ae_int = (\<lambda>_. ControlValue_empty), ae_junk = (\<lambda>_. 0), ae_buffer = (\<lambda>s i. 10 * s + i),
     ae_request = (\<lambda>i. i + 20), ae_mmap = (\<lambda>_. 7), ae_controls = [], ae_validator = (\<lambda>_ _. True)\<rparr>"

definition example_config :: "nat list \<Rightarrow> CameraConfiguration" where
  "example_config ss = CameraConfiguration_new\<lparr>cc_config := map (\<lambda>s. (StreamConfiguration_new [])\<lparr>sc_stream := Some s\<rparr>) ss\<rparr>"

definition example_vt :: "(unit, unit) csystem vtable" where
  "example_vt = \<lparr>vt_generateConfiguration = (\<lambda>w c roles. Some (w, Some (example_config [0..<length roles]))),
     vt_validate = (\<lambda>w c config. Some (w, config, Valid)), vt_configure = (\<lambda>w c config. Some (w, config, None)),
     vt_exportFrameBuffers = (\<lambda>w c s. Some (w, Inr [example_buffer, example_buffer])), vt_start = (\<lambda>w c l. Some (w, None)),
     vt_stop = (\<lambda>w c. Some w), vt_queueRequestDevice = (\<lambda>w c r. Some (w, None))\<rparr>"

definition example_options :: AppOptions where
  "example_options = \<lparr>ao_width = 640, ao_height = 480, ao_rawfull = False, ao_transform = 0, ao_denoise = ''cdn_off'',
     ao_value = (\<lambda>_. None), ao_stillDurations = ControlValue_empty\<rparr>"

definition example_app :: LibcameraApp where
  "example_app = \<lparr>la_options = example_options, la_camera = Some 0, la_acquired = True,
     la_configuration = Some (example_config [0]), la_mapped = [], la_viewfinder = None, la_still = None, la_raw = None,
     la_video = Some 0, la_allocator = None, la_frame_buffers = (\<lambda>_. [10, 11]), la_free_requests = [], la_requests = [],
     la_started = False, la_messages = [], la_controls = ControlList_new, la_last_timestamp = 0\<rparr>"

definition example_camera :: "(unit, unit) csystem" where
  "example_camera = upd_cam example_system 0 (\<lambda>d. Private_setState d CameraConfigured)"

definition example_acquired :: "(unit, unit) csystem" where
  "example_acquired = upd_cam example_system 0 (\<lambda>d. (Private_setState d CameraAcquired)\<lparr>cp_streams := [0, 1]\<rparr>)"

lemma deliver_keeps:
  "vt_queueRequestDevice vt = (\<lambda>w c r. Some (w, None)) \<Longrightarrow> deliver_messages vt rs w = Some w' \<Longrightarrow>
   rq_bufferMap (h_reqs w' r) = rq_bufferMap (h_reqs w r)"
proof (induction vt rs w rule: deliver_messages.induct)
  case (2 vt q rs w)
  obtain w1 where w1: "PipelineHandler_queueRequest (vt_queueRequestDevice vt) (w\<lparr>s_messages := rs\<rparr>) q = Some w1"
    "deliver_messages vt rs w1 = Some w'" using 2(3) by (auto split: option.splits)
  have "rq_bufferMap (h_reqs w1 r) = rq_bufferMap (h_reqs w r)"
    using w1(1) by (auto simp: 2(2) PipelineHandler_queueRequest_def Let_def split: option.splits)
  with 2(1) [OF w1(1) 2(2) w1(2)] show ?case by simp
qed simp

lemma example_start_keeps: "start_keeps example_vt c"
proof -
  have v: "vt_queueRequestDevice example_vt = (\<lambda>w c r. Some (w, None))" "vt_start example_vt = (\<lambda>w c l. Some (w, None))"
    by (simp_all add: example_vt_def)
  show ?thesis
    unfolding start_keeps_def Camera_start_def invokeBlocking_def v(2)
    by (auto split: option.splits dest: deliver_keeps [OF v(1)])
qed

lemma example_configured: "app_configured example_env example_camera example_app 0 [0] 2"
  by (simp add: app_configured_def example_env_def example_app_def example_config_def example_camera_def
      example_system_def Private_setState_def CameraPrivate_new_def CameraConfiguration_new_def)

lemma example_starts: "\<exists>w a. StartCamera example_env example_vt example_camera example_app = Some (w, a, Returned ())"
proof -
  have "(case StartCamera example_env example_vt example_camera example_app of Some (w, a, Returned _) \<Rightarrow> True | _ \<Rightarrow> False)"
    by code_simp
  then show ?thesis by (auto split: option.splits prod.splits outcome.splits)
qed

section \<open>Properties\<close>



text \<open>
  On a configuration whose streams all have \<open>n\<close> buffers, the endless loop of \<open>makeRequests\<close> ends after \<open>n\<close>
  rounds, with \<open>n\<close> new requests, the \<open>i\<close>-th of which holds the \<open>i\<close>-th buffer of every stream.
\<close>

theorem makeRequests_one_per_buffer:
  assumes "app_configured env w a c ss n"
  shows "\<exists>w'. makeRequests env c w a = Some (w', a\<lparr>la_requests := map (ae_request env) [0..<n]\<rparr>, Returned ()) \<and>
    (\<forall>i < n. \<forall>s. map_of (rq_bufferMap (h_reqs w' (ae_request env i))) s =
       (if s \<in> set ss then Some (la_frame_buffers a s ! i) else None))"
proof -
  from makeRequests_configured [OF assms] obtain w' where w':
    "makeRequests env c w a = Some (w', a\<lparr>la_requests := map (ae_request env) [0..<n]\<rparr>, Returned ())"
    "\<forall>i < n. rq_bufferMap (h_reqs w' (ae_request env i)) = round_map ss (\<lambda>s. la_frame_buffers a s ! i) []" by blast
  then show ?thesis by (intro exI [of _ w']) (simp add: map_of_round_map)
qed

theorem makeRequests_one_per_buffer_witness:
  "\<exists>w'. makeRequests example_env 0 example_camera example_app = Some (w', example_app\<lparr>la_requests := [20, 21]\<rparr>, Returned ()) \<and>
     map_of (rq_bufferMap (h_reqs w' 21)) 0 = Some 11"
proof -
  have env: "ae_request example_env = (\<lambda>i. i + 20)" "la_frame_buffers example_app = (\<lambda>_. [10, 11])"
    by (simp_all add: example_env_def example_app_def)
  from makeRequests_one_per_buffer [OF example_configured] obtain w' where w':
    "makeRequests example_env 0 example_camera example_app
       = Some (w', example_app\<lparr>la_requests := map (ae_request example_env) [0..<2]\<rparr>, Returned ())"
    "\<forall>i < 2. \<forall>s. map_of (rq_bufferMap (h_reqs w' (ae_request example_env i))) s =
       (if s \<in> set [0] then Some (la_frame_buffers example_app s ! i) else None)" by blast
  from w'(2) [rule_format, of 1 0] w'(1) show ?thesis by (simp add: env upt_rec)
qed

text \<open>
  \<open>ConfigureStill\<close> and \<open>ConfigureVideo\<close> return normally only when the configuration has a second stream,
  whether the raw stream was asked for or not: without it they read behind the configurations.
\<close>

theorem Configure_needs_second_stream:
  assumes "ConfigureStill env vt flags w a = Some (w', a', Returned ()) \<or> ConfigureVideo env vt flags w a = Some (w', a', Returned ())"
  shows "\<exists>config. la_configuration a' = Some config \<and> 2 \<le> length (cc_config config)"
proof -
  have "\<exists>a1 s r. stream_at a1 1 \<noteq> None \<and> a' = a1\<lparr>la_still := s, la_raw := r\<rparr>"
    if "ConfigureStill env vt flags w a = Some (w', a', Returned ())"
  proof -
    from that obtain c w1 config where "generate vt (if has_flag flags FLAG_STILL_RAW then [StillCapture, Raw] else [StillCapture]) w a
        = Some (c, w1, Some config)"
      by (simp only: ConfigureStill_def Let_def) (auto split: option.splits prod.splits)
    from configure_end [OF that [unfolded ConfigureStill_def Let_def this option.case prod.case]] show ?thesis by blast
  qed
  moreover have "\<exists>a1 s r. stream_at a1 1 \<noteq> None \<and> a' = a1\<lparr>la_video := s, la_raw := r\<rparr>"
    if "ConfigureVideo env vt flags w a = Some (w', a', Returned ())"
  proof -
    from that obtain c w1 config where "generate vt (if has_flag flags FLAG_VIDEO_RAW then [VideoRecording, Raw] else [VideoRecording]) w a
        = Some (c, w1, Some config)"
      by (simp only: ConfigureVideo_def Let_def) (auto split: option.splits prod.splits)
    from configure_end [OF that [unfolded ConfigureVideo_def Let_def this option.case prod.case]] show ?thesis by blast
  qed
  ultimately have "stream_at a' 1 \<noteq> None" using assms by (auto simp: stream_at_def)
  then show ?thesis by (auto simp: stream_at_def split: option.splits if_splits)
qed

theorem Configure_needs_second_stream_witness:
  "\<exists>w a config. ConfigureVideo example_env example_vt FLAG_VIDEO_RAW example_acquired example_app = Some (w, a, Returned ()) \<and>
     la_configuration a = Some config \<and> 2 \<le> length (cc_config config)"
proof -
  have "(case ConfigureVideo example_env example_vt FLAG_VIDEO_RAW example_acquired example_app of
      Some (w, a, Returned _) \<Rightarrow> True | _ \<Rightarrow> False)" by code_simp
  then obtain w a where "ConfigureVideo example_env example_vt FLAG_VIDEO_RAW example_acquired example_app = Some (w, a, Returned ())"
    by (auto split: option.splits prod.splits outcome.splits)
  with Configure_needs_second_stream [OF disjI2 [OF this]] show ?thesis by blast
qed

end
