(* ===== verification/VideoDevice.thy ===== *)
theory VideoDevice
  imports Requests
begin

text \<open>
  V4L2 video devices: the buffer cache and the buffer queue of \<open>v4l2_videodevice.cpp\<close>. The kernel
  driver is a record of functions over its own state, one per ioctl. Reading or writing outside of
  an array, using a null pointer, a failed assertion and a fatal log are \<open>None\<close>.
\<close>

section \<open>The kernel interface\<close>

datatype v4l2_memory = V4L2_MEMORY_MMAP | V4L2_MEMORY_DMABUF

text \<open>
  The fields of a buffer that the code sets or reads: the number of planes, the descriptor, the
  bytes used and the length of each plane, or of the buffer for the single-planar types.
\<close>

record v4l2_buffer =
  vb_index :: u32
  vb_memory :: v4l2_memory
  vb_flags :: u32
  vb_sequence :: u32
  vb_tv_sec :: u64
  vb_tv_usec :: u64
  vb_length :: u32
  vb_fds :: "i32 list"
  vb_bytesused :: "u32 list"
  vb_lengths :: "u32 list"

record 'k v4l2_kernel =
  ioctl_reqbufs :: "'k \<Rightarrow> u32 \<Rightarrow> v4l2_memory \<Rightarrow> 'k \<times> u32 result"
  ioctl_querybuf :: "'k \<Rightarrow> u32 \<Rightarrow> 'k \<times> v4l2_buffer result"
  ioctl_expbuf :: "'k \<Rightarrow> u32 \<Rightarrow> u32 \<Rightarrow> 'k \<times> i32 result"
  ioctl_qbuf :: "'k \<Rightarrow> v4l2_buffer \<Rightarrow> 'k \<times> errno option"
  ioctl_dqbuf :: "'k \<Rightarrow> v4l2_memory \<Rightarrow> 'k \<times> v4l2_buffer result"
  ioctl_streamon :: "'k \<Rightarrow> 'k \<times> errno option"
  ioctl_streamoff :: "'k \<Rightarrow> 'k \<times> errno option"

definition VIDEO_MAX_PLANES :: nat where "VIDEO_MAX_PLANES = 8"
definition V4L2_BUF_FLAG_ERROR :: u32 where "V4L2_BUF_FLAG_ERROR = 0x40"

section \<open>The buffer cache\<close>

record CacheEntry =
  ce_free :: bool
  ce_lastUsed :: u64
  ce_planes :: "(i32 \<times> u32) list"

record V4L2BufferCache =
  bc_entries :: "CacheEntry list"
  bc_lastUsedCounter :: u64
  bc_missCounter :: u32

definition CacheEntry_default :: CacheEntry where
  "CacheEntry_default = \<lparr>ce_free = True, ce_lastUsed = 0, ce_planes = []\<rparr>"

definition CacheEntry_new :: "bool \<Rightarrow> u64 \<Rightarrow> FrameBuffer \<Rightarrow> CacheEntry" where
  "CacheEntry_new free lastUsed buffer =
     \<lparr>ce_free = free, ce_lastUsed = lastUsed,
      ce_planes = map (\<lambda>p. (pl_fd p, pl_length p)) (fb_planes buffer)\<rparr>"

definition CacheEntry_eq :: "CacheEntry \<Rightarrow> FrameBuffer \<Rightarrow> bool" where
  "CacheEntry_eq entry buffer \<longleftrightarrow>
     length (ce_planes entry) = length (fb_planes buffer) \<and>
     (\<forall>i < length (fb_planes buffer).
        fst (ce_planes entry ! i) = pl_fd (fb_planes buffer ! i) \<and>
        snd (ce_planes entry ! i) = pl_length (fb_planes buffer ! i))"

definition V4L2BufferCache_new :: "nat \<Rightarrow> V4L2BufferCache" where
  "V4L2BufferCache_new numEntries =
     \<lparr>bc_entries = replicate numEntries CacheEntry_default, bc_lastUsedCounter = 1, bc_missCounter = 0\<rparr>"

fun cache_of_buffers :: "FrameBuffer list \<Rightarrow> V4L2BufferCache \<Rightarrow> V4L2BufferCache" where
  "cache_of_buffers [] cache = cache"
| "cache_of_buffers (buffer # buffers) cache =
     cache_of_buffers buffers
       (cache\<lparr>bc_entries := bc_entries cache @ [CacheEntry_new True (bc_lastUsedCounter cache) buffer],
              bc_lastUsedCounter := bc_lastUsedCounter cache + 1\<rparr>)"

definition V4L2BufferCache_of_buffers :: "FrameBuffer list \<Rightarrow> V4L2BufferCache" where
  "V4L2BufferCache_of_buffers buffers =
     cache_of_buffers buffers \<lparr>bc_entries = [], bc_lastUsedCounter = 1, bc_missCounter = 0\<rparr>"

text \<open>The loop of \<open>get\<close>: the index to use, if any, and whether it is a hit.\<close>

fun cache_scan ::
    "FrameBuffer \<Rightarrow> CacheEntry list \<Rightarrow> nat \<Rightarrow> nat option \<Rightarrow> u64 \<Rightarrow> bool \<times> nat option" where
  "cache_scan buffer [] index use oldest = (False, use)"
| "cache_scan buffer (entry # entries) index use oldest =
     (if \<not> ce_free entry then cache_scan buffer entries (index + 1) use oldest
      else if CacheEntry_eq entry buffer then (True, Some index)
      else if ce_lastUsed entry < oldest
      then cache_scan buffer entries (index + 1) (Some index) (ce_lastUsed entry)
      else cache_scan buffer entries (index + 1) use oldest)"

definition V4L2BufferCache_get :: "V4L2BufferCache \<Rightarrow> FrameBuffer \<Rightarrow> V4L2BufferCache \<times> nat result" where
  "V4L2BufferCache_get cache buffer =
     (let (hit, use) = cache_scan buffer (bc_entries cache) 0 None (- 1);
          cache = (if \<not> hit then cache\<lparr>bc_missCounter := bc_missCounter cache + 1\<rparr> else cache)
      in case use of
           None \<Rightarrow> (cache, Inl ENOENT)
         | Some i \<Rightarrow>
             (cache\<lparr>bc_entries := (bc_entries cache)
                      [i := CacheEntry_new False (bc_lastUsedCounter cache) buffer],
                    bc_lastUsedCounter := bc_lastUsedCounter cache + 1\<rparr>, Inr i))"

definition V4L2BufferCache_put :: "V4L2BufferCache \<Rightarrow> nat \<Rightarrow> V4L2BufferCache option" where
  "V4L2BufferCache_put cache index =
     (if \<not> index < length (bc_entries cache) then None
      else Some (cache\<lparr>bc_entries := (bc_entries cache)
                         [index := (bc_entries cache ! index)\<lparr>ce_free := True\<rparr>]\<rparr>))"

section \<open>The device\<close>

record V4L2VideoDevice =
  vd_multiplanar :: bool
  vd_output :: bool
  vd_memoryType :: v4l2_memory
  vd_cache :: "V4L2BufferCache option"
  vd_queuedBuffers :: "(nat \<times> nat) list"
  vd_notifier :: bool
  vd_streaming :: bool

definition V4L2VideoDevice_requestBuffers ::
    "'k v4l2_kernel \<Rightarrow> 'k \<Rightarrow> u32 \<Rightarrow> v4l2_memory \<Rightarrow> 'k \<times> errno option" where
  "V4L2VideoDevice_requestBuffers K k count memoryType =
     (case ioctl_reqbufs K k count memoryType of
        (k, Inl e) \<Rightarrow> (k, Some e)
      | (k, Inr n) \<Rightarrow>
          if n < count then
            let (k, _) = ioctl_reqbufs K k 0 memoryType in (k, Some ENOMEM)
          else (k, None))"

fun export_planes ::
    "'k v4l2_kernel \<Rightarrow> 'k \<Rightarrow> bool \<Rightarrow> v4l2_buffer \<Rightarrow> nat list \<Rightarrow> Plane list \<Rightarrow> 'k \<times> Plane list option" where
  "export_planes K k multiPlanar buf [] planes = (k, Some planes)"
| "export_planes K k multiPlanar buf (nplane # rest) planes =
     (case ioctl_expbuf K k (vb_index buf) (of_nat nplane) of
        (k, Inl e) \<Rightarrow> (k, None)
      | (k, Inr fd) \<Rightarrow>
          if sint fd < 0 then (k, None)
          else
            let len = (if multiPlanar
                       then (if nplane < length (vb_lengths buf) then vb_lengths buf ! nplane else 0)
                       else vb_length buf)
            in export_planes K k multiPlanar buf rest
                 (planes @ [\<lparr>pl_fd = fd, pl_length = len\<rparr>]))"

definition FrameBuffer_new :: "Plane list \<Rightarrow> FrameBuffer" where
  "FrameBuffer_new planes =
     \<lparr>fb_planes = planes, fb_request = None,
      fb_metadata = \<lparr>md_status = FrameSuccess, md_sequence = 0, md_timestamp = 0, md_planes = []\<rparr>,
      fb_cookie = 0\<rparr>"

definition V4L2VideoDevice_createBuffer ::
    "'k v4l2_kernel \<Rightarrow> 'k \<Rightarrow> V4L2VideoDevice \<Rightarrow> u32 \<Rightarrow> 'k \<times> FrameBuffer option" where
  "V4L2VideoDevice_createBuffer K k dev index =
     (case ioctl_querybuf K k index of
        (k, Inl e) \<Rightarrow> (k, None)
      | (k, Inr buf) \<Rightarrow>
          let multiPlanar = vd_multiplanar dev;
              numPlanes = (if multiPlanar then unat (vb_length buf) else 1)
          in if numPlanes = 0 \<or> numPlanes > VIDEO_MAX_PLANES then (k, None)
             else
               let (k, planes) = export_planes K k multiPlanar buf [0..<numPlanes] []
               in (k, map_option FrameBuffer_new planes))"

fun create_buffers_loop ::
    "'k v4l2_kernel \<Rightarrow> 'k \<Rightarrow> V4L2VideoDevice \<Rightarrow> nat list \<Rightarrow> FrameBuffer list
      \<Rightarrow> 'k \<times> FrameBuffer list result" where
  "create_buffers_loop K k dev [] buffers = (k, Inr buffers)"
| "create_buffers_loop K k dev (i # rest) buffers =
     (case V4L2VideoDevice_createBuffer K k dev (of_nat i) of
        (k, None) \<Rightarrow>
          let (k, _) = V4L2VideoDevice_requestBuffers K k 0 V4L2_MEMORY_MMAP in (k, Inl EINVAL)
      | (k, Some buffer) \<Rightarrow> create_buffers_loop K k dev rest (buffers @ [buffer]))"

definition V4L2VideoDevice_createBuffers ::
    "'k v4l2_kernel \<Rightarrow> 'k \<Rightarrow> V4L2VideoDevice \<Rightarrow> u32 \<Rightarrow> 'k \<times> FrameBuffer list result" where
  "V4L2VideoDevice_createBuffers K k dev count =
     (if vd_cache dev \<noteq> None then (k, Inl EINVAL)
      else
        case V4L2VideoDevice_requestBuffers K k count V4L2_MEMORY_MMAP of
          (k, Some e) \<Rightarrow> (k, Inl e)
        | (k, None) \<Rightarrow> create_buffers_loop K k dev [0..<unat count] [])"

definition V4L2VideoDevice_allocateBuffers ::
    "'k v4l2_kernel \<Rightarrow> 'k \<Rightarrow> V4L2VideoDevice \<Rightarrow> u32 \<Rightarrow> 'k \<times> V4L2VideoDevice \<times> FrameBuffer list result" where
  "V4L2VideoDevice_allocateBuffers K k dev count =
     (case V4L2VideoDevice_createBuffers K k dev count of
        (k, Inl e) \<Rightarrow> (k, dev, Inl e)
      | (k, Inr buffers) \<Rightarrow>
          (k, dev\<lparr>vd_cache := Some (V4L2BufferCache_of_buffers buffers),
                  vd_memoryType := V4L2_MEMORY_MMAP\<rparr>, Inr buffers))"

definition V4L2VideoDevice_exportBuffers ::
    "'k v4l2_kernel \<Rightarrow> 'k \<Rightarrow> V4L2VideoDevice \<Rightarrow> u32 \<Rightarrow> 'k \<times> FrameBuffer list result" where
  "V4L2VideoDevice_exportBuffers K k dev count =
     (case V4L2VideoDevice_createBuffers K k dev count of
        (k, Inl e) \<Rightarrow> (k, Inl e)
      | (k, Inr buffers) \<Rightarrow>
          let (k, _) = V4L2VideoDevice_requestBuffers K k 0 V4L2_MEMORY_MMAP in (k, Inr buffers))"

definition V4L2VideoDevice_importBuffers ::
    "'k v4l2_kernel \<Rightarrow> 'k \<Rightarrow> V4L2VideoDevice \<Rightarrow> u32 \<Rightarrow> 'k \<times> V4L2VideoDevice \<times> errno option" where
  "V4L2VideoDevice_importBuffers K k dev count =
     (if vd_cache dev \<noteq> None then (k, dev, Some EINVAL)
      else
        let dev = dev\<lparr>vd_memoryType := V4L2_MEMORY_DMABUF\<rparr> in
        case V4L2VideoDevice_requestBuffers K k count V4L2_MEMORY_DMABUF of
          (k, Some e) \<Rightarrow> (k, dev, Some e)
        | (k, None) \<Rightarrow> (k, dev\<lparr>vd_cache := Some (V4L2BufferCache_new (unat count))\<rparr>, None))"

definition V4L2VideoDevice_releaseBuffers ::
    "'k v4l2_kernel \<Rightarrow> 'k \<Rightarrow> V4L2VideoDevice \<Rightarrow> 'k \<times> V4L2VideoDevice \<times> errno option" where
  "V4L2VideoDevice_releaseBuffers K k dev =
     (let dev = dev\<lparr>vd_cache := None\<rparr>;
          (k, ret) = V4L2VideoDevice_requestBuffers K k 0 (vd_memoryType dev)
      in (k, dev, ret))"


section \<open>Queueing buffers\<close>

text \<open>
  The buffer passed to the kernel. Filling it fails when the code would index past the plane
  array of the request or past the planes of the frame buffer.
\<close>

definition qbuf_fill :: "V4L2VideoDevice \<Rightarrow> FrameBuffer \<Rightarrow> nat \<Rightarrow> v4l2_buffer option" where
  "qbuf_fill dev buffer index =
     (let planes = fb_planes buffer;
          metadata = fb_metadata buffer;
          buf = \<lparr>vb_index = of_nat index, vb_memory = vd_memoryType dev, vb_flags = 0, vb_sequence = 0,
                 vb_tv_sec = 0, vb_tv_usec = 0, vb_length = 0, vb_fds = [], vb_bytesused = [],
                 vb_lengths = []\<rparr>
      in if vd_memoryType dev = V4L2_MEMORY_DMABUF \<and>
            (if vd_multiplanar dev then length planes > VIDEO_MAX_PLANES else planes = []) then None
         else
           let buf = (if vd_memoryType dev = V4L2_MEMORY_DMABUF
                      then buf\<lparr>vb_fds := (if vd_multiplanar dev then map pl_fd planes
                                          else [pl_fd (planes ! 0)])\<rparr>
                      else buf);
               buf = (if vd_multiplanar dev then buf\<lparr>vb_length := of_nat (length planes)\<rparr> else buf)
           in if \<not> vd_output dev then Some buf
              else if vd_multiplanar dev \<and>
                (length (md_planes metadata) > VIDEO_MAX_PLANES \<or>
                 length (md_planes metadata) > length planes) then None
              else
                let buf = (if vd_multiplanar dev
                           then buf\<lparr>vb_bytesused := md_planes metadata,
                                    vb_lengths := map pl_length (take (length (md_planes metadata)) planes)\<rparr>
                           else if md_planes metadata \<noteq> []
                           then buf\<lparr>vb_bytesused := [md_planes metadata ! 0]\<rparr> else buf)
                in Some (buf\<lparr>vb_sequence := md_sequence metadata,
                             vb_tv_sec := md_timestamp metadata div 1000000000,
                             vb_tv_usec := (md_timestamp metadata div 1000) mod 1000000\<rparr>))"

definition V4L2VideoDevice_queueBuffer ::
    "'k v4l2_kernel \<Rightarrow> 'k \<Rightarrow> V4L2VideoDevice \<Rightarrow> 'a heap_scheme \<Rightarrow> nat
      \<Rightarrow> ('k \<times> V4L2VideoDevice \<times> errno option) option" where
  "V4L2VideoDevice_queueBuffer K k dev h b =
     (case vd_cache dev of
        None \<Rightarrow> None
      | Some cache \<Rightarrow>
          (case V4L2BufferCache_get cache (h_bufs h b) of
             (cache, Inl e) \<Rightarrow> Some (k, dev\<lparr>vd_cache := Some cache\<rparr>, Some e)
           | (cache, Inr index) \<Rightarrow>
               let dev = dev\<lparr>vd_cache := Some cache\<rparr> in
               (case qbuf_fill dev (h_bufs h b) index of
                  None \<Rightarrow> None
                | Some buf \<Rightarrow>
                    (case ioctl_qbuf K k buf of
                       (k, Some e) \<Rightarrow> Some (k, dev, Some e)
                     | (k, None) \<Rightarrow>
                         let dev = (if vd_queuedBuffers dev = [] then dev\<lparr>vd_notifier := True\<rparr> else dev)
                         in Some (k, dev\<lparr>vd_queuedBuffers := map_insert index b (vd_queuedBuffers dev)\<rparr>,
                                  None)))))"

text \<open>Bytes used by the planes of a dequeued buffer; the array starts as zeros.\<close>

definition dqbuf_planes :: "V4L2VideoDevice \<Rightarrow> v4l2_buffer \<Rightarrow> u32 list" where
  "dqbuf_planes dev buf =
     (let n = (if vd_multiplanar dev then unat (vb_length buf) else 1)
      in map (\<lambda>i. if i < length (vb_bytesused buf) then vb_bytesused buf ! i else 0) [0..<n])"

definition dqbuf_metadata :: "V4L2VideoDevice \<Rightarrow> v4l2_buffer \<Rightarrow> FrameMetadata" where
  "dqbuf_metadata dev buf =
     \<lparr>md_status = (if and (vb_flags buf) V4L2_BUF_FLAG_ERROR \<noteq> 0 then FrameError else FrameSuccess),
      md_sequence = vb_sequence buf,
      md_timestamp = vb_tv_sec buf * 1000000000 + vb_tv_usec buf * 1000,
      md_planes = dqbuf_planes dev buf\<rparr>"

definition V4L2VideoDevice_dequeueBuffer ::
    "'k v4l2_kernel \<Rightarrow> 'k \<Rightarrow> V4L2VideoDevice \<Rightarrow> 'a heap_scheme
      \<Rightarrow> ('k \<times> V4L2VideoDevice \<times> 'a heap_scheme \<times> nat option) option" where
  "V4L2VideoDevice_dequeueBuffer K k dev h =
     (case ioctl_dqbuf K k (vd_memoryType dev) of
        (k, Inl e) \<Rightarrow> Some (k, dev, h, None)
      | (k, Inr buf) \<Rightarrow>
          let index = unat (vb_index buf) in
          (case vd_cache dev of
             None \<Rightarrow> None
           | Some cache \<Rightarrow>
               (case V4L2BufferCache_put cache index of
                  None \<Rightarrow> None
                | Some cache \<Rightarrow>
                    (case map_of (vd_queuedBuffers dev) index of
                       None \<Rightarrow> None
                     | Some b \<Rightarrow>
                         let queued = map_erase index (vd_queuedBuffers dev);
                             dev = dev\<lparr>vd_cache := Some cache, vd_queuedBuffers := queued\<rparr>;
                             dev = (if queued = [] then dev\<lparr>vd_notifier := False\<rparr> else dev)
                         in if vd_multiplanar dev \<and> unat (vb_length buf) > VIDEO_MAX_PLANES then None
                            else
                              let h = upd_buf h b (\<lambda>fb. fb\<lparr>fb_metadata := dqbuf_metadata dev buf\<rparr>)
                              in Some (k, dev, h, Some b)))))"

section \<open>Streaming\<close>

definition V4L2VideoDevice_streamOn ::
    "'k v4l2_kernel \<Rightarrow> 'k \<Rightarrow> V4L2VideoDevice \<Rightarrow> 'k \<times> V4L2VideoDevice \<times> errno option" where
  "V4L2VideoDevice_streamOn K k dev =
     (case ioctl_streamon K k of
        (k, Some e) \<Rightarrow> (k, dev, Some e)
      | (k, None) \<Rightarrow> (k, dev\<lparr>vd_streaming := True\<rparr>, None))"

text \<open>
  Stopping the stream cancels the queued buffers in the order of their indices. \<open>ready\<close> is what the
  slot connected to \<open>bufferReady\<close> does to the rest of the system; it does not call the device.
\<close>

fun cancel_buffers ::
    "('a heap_scheme \<Rightarrow> nat \<Rightarrow> 'a heap_scheme option) \<Rightarrow> nat list \<Rightarrow> 'a heap_scheme
      \<Rightarrow> 'a heap_scheme option" where
  "cancel_buffers ready [] h = Some h"
| "cancel_buffers ready (b # bs) h =
     (let h = upd_buf h b (\<lambda>fb. fb\<lparr>fb_metadata := (fb_metadata fb)\<lparr>md_status := FrameCancelled\<rparr>\<rparr>)
      in case ready h b of None \<Rightarrow> None | Some h \<Rightarrow> cancel_buffers ready bs h)"

definition V4L2VideoDevice_streamOff ::
    "'k v4l2_kernel \<Rightarrow> ('a heap_scheme \<Rightarrow> nat \<Rightarrow> 'a heap_scheme option) \<Rightarrow> 'k \<Rightarrow> V4L2VideoDevice
      \<Rightarrow> 'a heap_scheme \<Rightarrow> ('k \<times> V4L2VideoDevice \<times> 'a heap_scheme \<times> errno option) option" where
  "V4L2VideoDevice_streamOff K ready k dev h =
     (if \<not> vd_streaming dev \<and> vd_queuedBuffers dev = [] then Some (k, dev, h, None)
      else
        case ioctl_streamoff K k of
          (k, Some e) \<Rightarrow> Some (k, dev, h, Some e)
        | (k, None) \<Rightarrow>
            (case cancel_buffers ready (map snd (vd_queuedBuffers dev)) h of
               None \<Rightarrow> None
             | Some h \<Rightarrow>
                 Some (k, dev\<lparr>vd_queuedBuffers := [], vd_notifier := False, vd_streaming := False\<rparr>, h, None)))"


section \<open>Lemmas on the cache\<close>

definition matches :: "FrameBuffer \<Rightarrow> CacheEntry \<Rightarrow> bool" where
  "matches buffer entry \<longleftrightarrow> ce_free entry \<and> CacheEntry_eq entry buffer"

lemma CacheEntry_eq_planes:
  "CacheEntry_eq entry buffer \<longleftrightarrow> ce_planes entry = map (\<lambda>p. (pl_fd p, pl_length p)) (fb_planes buffer)"
  by (auto simp: CacheEntry_eq_def list_eq_iff_nth_eq prod_eq_iff)

lemma cache_scan_hit:
  "\<exists>e \<in> set es. matches buffer e \<Longrightarrow>
   \<exists>i < length es. cache_scan buffer es n use old = (True, Some (n + i)) \<and> matches buffer (es ! i)"
proof (induction buffer es n use old rule: cache_scan.induct)
  case (2 buffer e es n use old)
  show ?case
  proof (cases "matches buffer e")
    case True
    then show ?thesis by (intro exI [of _ 0]) (simp add: matches_def)
  next
    case False
    with 2(4) have m: "\<exists>e \<in> set es. matches buffer e" by auto
    obtain use' old' where eq: "cache_scan buffer (e # es) n use old = cache_scan buffer es (n + 1) use' old'"
      and ih: "\<exists>i < length es. cache_scan buffer es (n + 1) use' old' = (True, Some (n + 1 + i)) \<and>
        matches buffer (es ! i)"
    proof (cases "ce_free e")
      case True
      show ?thesis
      proof (cases "ce_lastUsed e < old")
        case lt: True
        from 2(2) [OF _ _ lt m] True False lt that [of "Some n" "ce_lastUsed e"] show ?thesis
          by (auto simp: matches_def)
      next
        case ge: False
        from 2(3) [OF _ _ ge m] True False ge that [of use old] show ?thesis
          by (auto simp: matches_def)
      qed
    next
      case nf: False
      from 2(1) [OF nf m] nf that [of use old] show ?thesis by auto
    qed
    then obtain i where "i < length es" "cache_scan buffer es (n + 1) use' old' = (True, Some (n + 1 + i))"
      "matches buffer (es ! i)" by blast
    with eq show ?thesis by (intro exI [of _ "Suc i"]) simp
  qed
qed simp

text \<open>Without a match the scan picks the least recently used free entry older than the bound.\<close>

definition oldest_free :: "CacheEntry list \<Rightarrow> nat \<Rightarrow> bool" where
  "oldest_free es i \<longleftrightarrow> i < length es \<and> ce_free (es ! i) \<and>
     (\<forall>j < length es. ce_free (es ! j) \<longrightarrow> ce_lastUsed (es ! i) \<le> ce_lastUsed (es ! j))"

lemma oldest_free_Cons:
  "oldest_free (e # es) (Suc i) \<longleftrightarrow> oldest_free es i \<and> (ce_free e \<longrightarrow> ce_lastUsed (es ! i) \<le> ce_lastUsed e)"
  by (auto simp: oldest_free_def All_less_Suc2)

lemma oldest_free_0:
  "oldest_free (e # es) 0 \<longleftrightarrow>
     ce_free e \<and> (\<forall>j < length es. ce_free (es ! j) \<longrightarrow> ce_lastUsed e \<le> ce_lastUsed (es ! j))"
  by (auto simp: oldest_free_def All_less_Suc2)

lemma cache_scan_miss:
  "\<forall>e \<in> set es. \<not> matches buffer e \<Longrightarrow>
   (if \<forall>j < length es. ce_free (es ! j) \<longrightarrow> old \<le> ce_lastUsed (es ! j)
    then cache_scan buffer es n use old = (False, use)
    else \<exists>i. cache_scan buffer es n use old = (False, Some (n + i)) \<and> oldest_free es i \<and>
           ce_lastUsed (es ! i) < old)"
proof (induction es arbitrary: n use old)
  case Nil
  then show ?case by simp
next
  case (Cons e es)
  have nm: "\<forall>e \<in> set es. \<not> matches buffer e" "\<not> matches buffer e" using Cons.prems by auto
  show ?case
  proof (cases "ce_free e \<and> ce_lastUsed e < old")
    case True
    then have eq: "cache_scan buffer (e # es) n use old = cache_scan buffer es (n + 1) (Some n) (ce_lastUsed e)"
      using nm by (simp add: matches_def)
    have no: "\<not> (\<forall>j < length (e # es). ce_free ((e # es) ! j) \<longrightarrow> old \<le> ce_lastUsed ((e # es) ! j))"
      using True by (auto simp: All_less_Suc2 not_le)
    note ih = Cons.IH [OF nm(1), where n = "n + 1" and use = "Some n" and old = "ce_lastUsed e"]
    have "\<exists>i. cache_scan buffer (e # es) n use old = (False, Some (n + i)) \<and> oldest_free (e # es) i \<and>
           ce_lastUsed ((e # es) ! i) < old"
    proof (cases "\<forall>j < length es. ce_free (es ! j) \<longrightarrow> ce_lastUsed e \<le> ce_lastUsed (es ! j)")
      case all: True
      with ih eq True show ?thesis by (intro exI [of _ 0]) (simp add: oldest_free_0)
    next
      case False
      with ih obtain i where "cache_scan buffer es (n + 1) (Some n) (ce_lastUsed e) = (False, Some (n + 1 + i))"
        "oldest_free es i" "ce_lastUsed (es ! i) < ce_lastUsed e" by (auto simp del: cache_scan.simps split: if_splits)
      with eq True show ?thesis
        by (intro exI [of _ "Suc i"]) (auto simp: oldest_free_Cons)
    qed
    then show ?thesis unfolding if_not_P [OF no] .
  next
    case False
    then have eq: "cache_scan buffer (e # es) n use old = cache_scan buffer es (n + 1) use old"
      using nm by (auto simp: matches_def)
    have all: "(\<forall>j < length (e # es). ce_free ((e # es) ! j) \<longrightarrow> old \<le> ce_lastUsed ((e # es) ! j))
        \<longleftrightarrow> (\<forall>j < length es. ce_free (es ! j) \<longrightarrow> old \<le> ce_lastUsed (es ! j))"
      using False by (auto simp: All_less_Suc2 not_less)
    note ih = Cons.IH [OF nm(1), where n = "n + 1" and use = use and old = old]
    show ?thesis
    proof (cases "\<forall>j < length es. ce_free (es ! j) \<longrightarrow> old \<le> ce_lastUsed (es ! j)")
      case True
      then have "cache_scan buffer es (n + 1) use old = (False, use)" using ih by (simp only: if_P [OF True])
      then show ?thesis unfolding if_P [OF True [folded all]] eq .
    next
      case f: False
      with ih obtain i where "cache_scan buffer es (n + 1) use old = (False, Some (n + 1 + i))"
        "oldest_free es i" "ce_lastUsed (es ! i) < old" by (auto simp del: cache_scan.simps split: if_splits)
      with eq False have "cache_scan buffer (e # es) n use old = (False, Some (n + Suc i))"
        "oldest_free (e # es) (Suc i)" "ce_lastUsed ((e # es) ! Suc i) < old"
        by (auto simp: oldest_free_Cons)
      then show ?thesis unfolding if_not_P [OF f [folded all]] by blast
    qed
  qed
qed


lemma cache_get_result:
  assumes "V4L2BufferCache_get cache buffer = (cache', r)"
  defines "es \<equiv> bc_entries cache"
  shows "case r of
      Inr i \<Rightarrow> i < length es \<and> ce_free (es ! i) \<and>
        (if \<exists>e \<in> set es. matches buffer e then matches buffer (es ! i) else oldest_free es i) \<and>
        bc_entries cache' = es[i := CacheEntry_new False (bc_lastUsedCounter cache) buffer] \<and>
        bc_lastUsedCounter cache' = bc_lastUsedCounter cache + 1
    | Inl e \<Rightarrow> e = ENOENT \<and> bc_entries cache' = es \<and>
        (\<forall>j < length es. ce_free (es ! j) \<longrightarrow> ce_lastUsed (es ! j) = - 1)"
proof (cases "\<exists>e \<in> set es. matches buffer e")
  case True
  from cache_scan_hit [OF this, of 0 None "- 1"] obtain i where
    i: "i < length es" "cache_scan buffer es 0 None (- 1) = (True, Some i)" "matches buffer (es ! i)" by auto
  then show ?thesis using assms(1) True
    by (auto simp: V4L2BufferCache_get_def es_def [symmetric] matches_def)
next
  case False
  note miss = cache_scan_miss [of es buffer "- 1" 0 None]
  show ?thesis
  proof (cases "\<forall>j < length es. ce_free (es ! j) \<longrightarrow> - 1 \<le> ce_lastUsed (es ! j)")
    case all: True
    then have "cache_scan buffer es 0 None (- 1) = (False, None)" using miss False by (simp del: word_order.extremum)
    moreover have "\<forall>j < length es. ce_free (es ! j) \<longrightarrow> ce_lastUsed (es ! j) = - 1"
      using all by (auto simp: word_order.extremum_unique)
    ultimately show ?thesis using assms(1)
      by (auto simp: V4L2BufferCache_get_def es_def [symmetric])
  next
    case some: False
    from miss False have "\<exists>i. cache_scan buffer es 0 None (- 1) = (False, Some (0 + i)) \<and> oldest_free es i"
      unfolding if_not_P [OF some] by blast
    then obtain i where i: "cache_scan buffer es 0 None (- 1) = (False, Some i)" "oldest_free es i" by auto
    then show ?thesis using assms(1) False
      by (auto simp: V4L2BufferCache_get_def es_def [symmetric] oldest_free_def)
  qed
qed

lemma matches_new: "matches buffer (CacheEntry_new free n buffer) = free"
  by (simp add: matches_def CacheEntry_eq_planes CacheEntry_new_def)

section \<open>Lemmas on the queue\<close>

text \<open>Every queued buffer holds a slot of the cache that is in use.\<close>

definition slots_ok :: "V4L2VideoDevice \<Rightarrow> bool" where
  "slots_ok dev \<longleftrightarrow> map_ok (vd_queuedBuffers dev) \<and>
     (\<forall>i b. (i, b) \<in> set (vd_queuedBuffers dev) \<longrightarrow>
        (\<exists>cache. vd_cache dev = Some cache \<and> i < length (bc_entries cache) \<and>
          \<not> ce_free (bc_entries cache ! i))) \<and>
     (vd_queuedBuffers dev \<noteq> [] \<longrightarrow> vd_notifier dev)"

definition free_slots :: "V4L2VideoDevice \<Rightarrow> nat" where
  "free_slots dev =
     (case vd_cache dev of None \<Rightarrow> 0
      | Some cache \<Rightarrow> card {i. i < length (bc_entries cache) \<and> ce_free (bc_entries cache ! i)})"

lemma map_of_Some_fst: "map_of m k = Some v \<Longrightarrow> k \<in> fst ` set m"
  by (metis map_of_SomeD fst_conv image_eqI)

lemma fst_set_map_erase [simp]: "fst ` set (map_erase k m) = fst ` set m - {k}"
  by (auto simp: map_erase_def)

lemma set_map_insert_sub: "(k', u) \<in> set (map_insert k v m) \<Longrightarrow> (k', u) = (k, v) \<or> (k', u) \<in> set m"
  by (induction k v m rule: map_insert.induct) (auto split: if_splits)

lemma set_map_erase: "(k', v) \<in> set (map_erase k m) \<longleftrightarrow> k' \<noteq> k \<and> (k', v) \<in> set m"
  by (auto simp: map_erase_def)

lemma put_simps:
  assumes "V4L2BufferCache_put cache i = Some cache'"
  shows "i < length (bc_entries cache)" "length (bc_entries cache') = length (bc_entries cache)"
    "\<And>j. j \<noteq> i \<Longrightarrow> bc_entries cache' ! j = bc_entries cache ! j" "ce_free (bc_entries cache' ! i)"
  using assms by (auto simp: V4L2BufferCache_put_def split: if_splits)

lemma slots_ok_queueBuffer:
  assumes "V4L2VideoDevice_queueBuffer K k dev h b = Some (k', dev', ret)" "slots_ok dev"
  shows "slots_ok dev'"
proof -
  obtain cache where c: "vd_cache dev = Some cache"
    using assms(1) by (auto simp: V4L2VideoDevice_queueBuffer_def split: option.splits)
  obtain cache' r where g: "V4L2BufferCache_get cache (h_bufs h b) = (cache', r)" by fastforce
  note get = cache_get_result [OF g]
  have keep: "i < length (bc_entries cache') \<and> \<not> ce_free (bc_entries cache' ! i)"
    if i: "(i, b') \<in> set (vd_queuedBuffers dev)" for i b'
  proof -
    from assms(2) i c have "i < length (bc_entries cache)" "\<not> ce_free (bc_entries cache ! i)"
      by (force simp: slots_ok_def)+
    with get show ?thesis by (cases r) (auto simp: CacheEntry_new_def nth_list_update)
  qed
  have same: "slots_ok (dev\<lparr>vd_cache := Some cache'\<rparr>)"
    using assms(2) keep by (simp add: slots_ok_def)
  show ?thesis
  proof (cases r)
    case (Inl e)
    with assms(1) c g same show ?thesis by (simp add: V4L2VideoDevice_queueBuffer_def)
  next
    case (Inr i)
    with get have i: "i < length (bc_entries cache')" "\<not> ce_free (bc_entries cache' ! i)"
      by (simp_all add: CacheEntry_new_def)
    from Inr assms(1) c g obtain buf where fill: "qbuf_fill (dev\<lparr>vd_cache := Some cache'\<rparr>) (h_bufs h b) i = Some buf"
      by (auto simp: V4L2VideoDevice_queueBuffer_def Let_def split: option.splits)
    obtain k1 q where q: "ioctl_qbuf K k buf = (k1, q)" by fastforce
    show ?thesis
    proof (cases q)
      case None
      with Inr assms(1) c g fill q have "vd_cache dev' = Some cache'"
        "vd_queuedBuffers dev' = map_insert i b (vd_queuedBuffers dev)"
        "vd_queuedBuffers dev \<noteq> [] \<longrightarrow> vd_notifier dev' = vd_notifier dev" "vd_queuedBuffers dev = [] \<longrightarrow> vd_notifier dev'"
        by (auto simp: V4L2VideoDevice_queueBuffer_def Let_def split: if_splits)
      with assms(2) keep i show ?thesis
        by (auto simp: slots_ok_def dest!: set_map_insert_sub)
    next
      case (Some e)
      with Inr assms(1) c g fill q same show ?thesis by (simp add: V4L2VideoDevice_queueBuffer_def Let_def)
    qed
  qed
qed

lemma slots_ok_dequeueBuffer:
  assumes "V4L2VideoDevice_dequeueBuffer K k dev h = Some (k', dev', h', r)" "slots_ok dev"
  shows "slots_ok dev'"
proof (cases r)
  case None
  with assms show ?thesis
    by (auto simp: V4L2VideoDevice_dequeueBuffer_def Let_def split: prod.splits sum.splits option.splits if_splits)
next
  case (Some b)
  from assms(1) Some obtain k1 buf cache cache' where
    d: "ioctl_dqbuf K k (vd_memoryType dev) = (k1, Inr buf)" "vd_cache dev = Some cache"
    "V4L2BufferCache_put cache (unat (vb_index buf)) = Some cache'"
    "map_of (vd_queuedBuffers dev) (unat (vb_index buf)) = Some b"
    and dev': "vd_cache dev' = Some cache'" "vd_queuedBuffers dev' = map_erase (unat (vb_index buf)) (vd_queuedBuffers dev)"
    "vd_notifier dev' = (if vd_queuedBuffers dev' = [] then False else vd_notifier dev)"
    by (auto simp: V4L2VideoDevice_dequeueBuffer_def Let_def split: prod.splits sum.splits option.splits if_splits)
  show ?thesis
    using assms(2) d dev' put_simps [OF d(3)]
    by (auto simp: slots_ok_def set_map_erase)
qed


lemma queueBuffer_video:
  assumes "V4L2VideoDevice_queueBuffer K k video h b = Some (k', video', ret)"
  shows "(ret = None \<longrightarrow> (\<exists>i. vd_queuedBuffers video' = map_insert i b (vd_queuedBuffers video) \<and>
        (slots_ok video \<longrightarrow> i \<notin> fst ` set (vd_queuedBuffers video)))) \<and>
    (ret \<noteq> None \<longrightarrow> vd_queuedBuffers video' = vd_queuedBuffers video) \<and>
    vd_output video' = vd_output video \<and> (vd_cache video \<noteq> None \<longrightarrow> vd_cache video' \<noteq> None)"
proof -
  obtain cache where c: "vd_cache video = Some cache"
    using assms by (auto simp: V4L2VideoDevice_queueBuffer_def split: option.splits)
  obtain cache' r where g: "V4L2BufferCache_get cache (h_bufs h b) = (cache', r)" by fastforce
  note get = cache_get_result [OF g]
  have new: "i \<notin> fst ` set (vd_queuedBuffers video)" if "r = Inr i" "slots_ok video" for i
  proof
    assume "i \<in> fst ` set (vd_queuedBuffers video)"
    with that(2) c have "\<not> ce_free (bc_entries cache ! i)" by (force simp: slots_ok_def)
    with that(1) get show False by simp
  qed
  show ?thesis
    using assms c g new
    by (auto simp: V4L2VideoDevice_queueBuffer_def Let_def split: sum.splits option.splits prod.splits if_splits)
      blast+
qed

text \<open>A buffer with planes can be queued to a capture device that has a cache: nothing aborts.\<close>

lemma queueBuffer_Some:
  assumes "vd_cache video = Some cache" "\<not> vd_output video" "fb_planes (h_bufs h b) \<noteq> []"
    "length (fb_planes (h_bufs h b)) \<le> VIDEO_MAX_PLANES"
  shows "\<exists>k' video' ret. V4L2VideoDevice_queueBuffer K k video h b = Some (k', video', ret)"
  using assms
  by (auto simp: V4L2VideoDevice_queueBuffer_def qbuf_fill_def Let_def split: sum.splits option.splits prod.splits)

text \<open>A driver for the examples: its state is the list of the queued indices, first in first out.\<close>

definition example_vbuf :: "u32 \<Rightarrow> v4l2_buffer" where
  "example_vbuf i = \<lparr>vb_index = i, vb_memory = V4L2_MEMORY_DMABUF, vb_flags = 0, vb_sequence = 0,
     vb_tv_sec = 1, vb_tv_usec = 5, vb_length = 1, vb_fds = [], vb_bytesused = [64], vb_lengths = [64]\<rparr>"

definition example_kernel :: "u32 list v4l2_kernel" where
  "example_kernel =
     \<lparr>ioctl_reqbufs = (\<lambda>k count mem. ([], Inr count)),
      ioctl_querybuf = (\<lambda>k i. (k, Inr (example_vbuf i))),
      ioctl_expbuf = (\<lambda>k i p. (k, Inr (10 + i))),
      ioctl_qbuf = (\<lambda>k buf. (k @ [vb_index buf], None)),
      ioctl_dqbuf = (\<lambda>k mem. case k of [] \<Rightarrow> ([], Inl EAGAIN) | i # is \<Rightarrow> (is, Inr (example_vbuf i))),
      ioctl_streamon = (\<lambda>k. (k, None)),
      ioctl_streamoff = (\<lambda>k. ([], None))\<rparr>"

definition example_video :: V4L2VideoDevice where
  "example_video =
     \<lparr>vd_multiplanar = False, vd_output = False, vd_memoryType = V4L2_MEMORY_DMABUF,
      vd_cache = Some \<lparr>bc_entries = [CacheEntry_default\<lparr>ce_free := False\<rparr>, CacheEntry_default],
                       bc_lastUsedCounter = 2, bc_missCounter = 1\<rparr>,
      vd_queuedBuffers = [(0, 7)], vd_notifier = True, vd_streaming = True\<rparr>"

definition example_heap :: heap where
  "example_heap =
     \<lparr>h_bufs = (\<lambda>_. FrameBuffer_new [\<lparr>pl_fd = 5, pl_length = 64\<rparr>]),
      h_reqs = (\<lambda>_. Request_new [] (\<lambda>_ _. True) 0 0)\<rparr>"

lemma zero_less_max: "(0 :: u64) < - 1"
  by code_simp

lemma example_get:
  "V4L2BufferCache_get (the (vd_cache example_video)) (h_bufs example_heap 3) =
     (\<lparr>bc_entries = [CacheEntry_default\<lparr>ce_free := False\<rparr>, CacheEntry_new False 2 (h_bufs example_heap 3)],
       bc_lastUsedCounter = 3, bc_missCounter = 2\<rparr>, Inr 1)"
  by (simp add: V4L2BufferCache_get_def example_video_def CacheEntry_default_def CacheEntry_eq_def
      example_heap_def FrameBuffer_new_def zero_less_max)

lemma example_slots_ok: "slots_ok example_video"
  by (simp add: slots_ok_def example_video_def map_ok_def)

section \<open>Properties\<close>

text \<open>
  The cache hands out a free slot that already holds the planes of the buffer whenever there is
  one, and otherwise the free slot that was used least recently; it fails only when no slot is free
  (or the 64-bit use counter was exhausted on every free slot). The slot is marked used and holds
  the buffer, the other slots are untouched.
\<close>

theorem V4L2BufferCache_get_policy:
  "case V4L2BufferCache_get cache buffer of
      (cache', Inr i) \<Rightarrow> i < length (bc_entries cache) \<and> ce_free (bc_entries cache ! i) \<and>
        (if \<exists>e \<in> set (bc_entries cache). matches buffer e then matches buffer (bc_entries cache ! i)
         else oldest_free (bc_entries cache) i) \<and>
        bc_entries cache' = (bc_entries cache)[i := CacheEntry_new False (bc_lastUsedCounter cache) buffer]
    | (cache', Inl e) \<Rightarrow> e = ENOENT \<and> bc_entries cache' = bc_entries cache \<and>
        (\<forall>j < length (bc_entries cache). ce_free (bc_entries cache ! j) \<longrightarrow>
           ce_lastUsed (bc_entries cache ! j) = - 1)"
proof -
  obtain cache' r where g: "V4L2BufferCache_get cache buffer = (cache', r)" by fastforce
  from cache_get_result [OF g] show ?thesis
    unfolding g by (cases r) simp_all
qed

theorem V4L2BufferCache_get_policy_witness:
  "snd (V4L2BufferCache_get (the (vd_cache example_video)) (h_bufs example_heap 3)) = Inr 1 \<and>
   ce_free (bc_entries (the (vd_cache example_video)) ! 1)"
  using V4L2BufferCache_get_policy [of "the (vd_cache example_video)" "h_bufs example_heap 3"]
  by (simp add: example_get)

text \<open>
  A buffer that leaves its slot comes back to a slot that maps the same planes: after a get and
  the put of its slot, a second get of the same buffer succeeds and hits a slot with its planes.
\<close>

theorem V4L2BufferCache_reuse:
  assumes "V4L2BufferCache_get cache buffer = (cache1, Inr i)"
    and "V4L2BufferCache_put cache1 i = Some cache2"
  shows "\<exists>cache3 j. V4L2BufferCache_get cache2 buffer = (cache3, Inr j) \<and>
    CacheEntry_eq (bc_entries cache2 ! j) buffer \<and> bc_missCounter cache3 = bc_missCounter cache2"
proof -
  from cache_get_result [OF assms(1)] have i: "i < length (bc_entries cache)"
    "bc_entries cache1 = (bc_entries cache)[i := CacheEntry_new False (bc_lastUsedCounter cache) buffer]"
    by simp_all
  have m: "matches buffer (bc_entries cache2 ! i)" "i < length (bc_entries cache2)"
    using assms(2) i by (auto simp: V4L2BufferCache_put_def matches_def CacheEntry_new_def
        CacheEntry_eq_planes split: if_splits)
  then have ex: "\<exists>e \<in> set (bc_entries cache2). matches buffer e" using nth_mem by blast
  from cache_scan_hit [OF this, of 0 None "- 1"] obtain j where
    j: "cache_scan buffer (bc_entries cache2) 0 None (- 1) = (True, Some j)" "matches buffer (bc_entries cache2 ! j)"
    by auto
  then show ?thesis by (simp add: V4L2BufferCache_get_def matches_def)
qed

theorem V4L2BufferCache_reuse_witness:
  "\<exists>cache3 j. V4L2BufferCache_get
      (the (V4L2BufferCache_put (fst (V4L2BufferCache_get (V4L2BufferCache_new 1) (FrameBuffer_new []))) 0))
      (FrameBuffer_new []) = (cache3, Inr j)"
proof -
  have g: "V4L2BufferCache_get (V4L2BufferCache_new 1) (FrameBuffer_new []) =
      (fst (V4L2BufferCache_get (V4L2BufferCache_new 1) (FrameBuffer_new [])), Inr 0)"
    by (simp add: V4L2BufferCache_get_def V4L2BufferCache_new_def CacheEntry_default_def CacheEntry_eq_def
        FrameBuffer_new_def)
  have p: "V4L2BufferCache_put (fst (V4L2BufferCache_get (V4L2BufferCache_new 1) (FrameBuffer_new []))) 0
      = Some (the (V4L2BufferCache_put (fst (V4L2BufferCache_get (V4L2BufferCache_new 1) (FrameBuffer_new []))) 0))"
    by (simp add: V4L2BufferCache_get_def V4L2BufferCache_new_def CacheEntry_default_def CacheEntry_eq_def
        FrameBuffer_new_def V4L2BufferCache_put_def)
  from V4L2BufferCache_reuse [OF g p] show ?thesis by blast
qed

text \<open>
  Dequeueing is safe when the driver keeps its promise to return a buffer that was queued: no
  assertion fails, the buffer of that index comes back with the driver's metadata, its slot is free
  again, and the queue without it is consistent.
\<close>

theorem dequeueBuffer_returns_queued:
  assumes "slots_ok dev" "ioctl_dqbuf K k (vd_memoryType dev) = (k', Inr buf)"
    and "map_of (vd_queuedBuffers dev) (unat (vb_index buf)) = Some b"
    and "unat (vb_length buf) \<le> VIDEO_MAX_PLANES"
  shows "\<exists>dev' cache'. V4L2VideoDevice_dequeueBuffer K k dev h
      = Some (k', dev', upd_buf h b (\<lambda>fb. fb\<lparr>fb_metadata := dqbuf_metadata dev buf\<rparr>), Some b) \<and>
    slots_ok dev' \<and> vd_cache dev' = Some cache' \<and> ce_free (bc_entries cache' ! unat (vb_index buf)) \<and>
    vd_queuedBuffers dev' = map_erase (unat (vb_index buf)) (vd_queuedBuffers dev)"
proof -
  let ?i = "unat (vb_index buf)"
  obtain cache where c: "vd_cache dev = Some cache" "?i < length (bc_entries cache)"
    using assms(1,3) by (force simp: slots_ok_def dest: map_of_SomeD)
  then obtain cache' where p: "V4L2BufferCache_put cache ?i = Some cache'"
    by (simp add: V4L2BufferCache_put_def)
  let ?h = "upd_buf h b (\<lambda>fb. fb\<lparr>fb_metadata := dqbuf_metadata dev buf\<rparr>)"
  have "\<exists>dev'. V4L2VideoDevice_dequeueBuffer K k dev h = Some (k', dev', ?h, Some b) \<and>
      vd_cache dev' = Some cache' \<and> vd_queuedBuffers dev' = map_erase ?i (vd_queuedBuffers dev)"
    using assms(2-4) c p
    by (simp add: V4L2VideoDevice_dequeueBuffer_def Let_def dqbuf_metadata_def dqbuf_planes_def)
  then obtain dev' where d: "V4L2VideoDevice_dequeueBuffer K k dev h = Some (k', dev', ?h, Some b)"
    "vd_cache dev' = Some cache'" "vd_queuedBuffers dev' = map_erase ?i (vd_queuedBuffers dev)" by blast
  show ?thesis using d slots_ok_dequeueBuffer [OF d(1) assms(1)] put_simps [OF p] by blast
qed


theorem dequeueBuffer_returns_queued_witness:
  "\<exists>k' dev' h'. V4L2VideoDevice_dequeueBuffer example_kernel [0] example_video example_heap
     = Some (k', dev', h', Some 7)"
proof -
  have "ioctl_dqbuf example_kernel [0] (vd_memoryType example_video) = ([], Inr (example_vbuf 0))"
    "map_of (vd_queuedBuffers example_video) (unat (vb_index (example_vbuf 0))) = Some 7"
    "unat (vb_length (example_vbuf 0)) \<le> VIDEO_MAX_PLANES"
    by (simp_all add: example_kernel_def example_video_def example_vbuf_def VIDEO_MAX_PLANES_def)
  from dequeueBuffer_returns_queued [OF example_slots_ok this] show ?thesis by blast
qed

text \<open>
  When the driver refuses a buffer, the slot that the cache gave it stays in use although no
  buffer is queued on it: the number of free slots drops by one and no operation of the device
  gives it back while the buffers are not released.
\<close>

theorem queueBuffer_error_leaks_slot:
  assumes "vd_cache dev = Some cache" "V4L2BufferCache_get cache (h_bufs h b) = (cache1, Inr i)"
    and "\<And>k buf. ioctl_qbuf K k buf = (k, Some e)"
    and "V4L2VideoDevice_queueBuffer K k dev h b = Some (k', dev', ret)"
  shows "ret = Some e \<and> vd_queuedBuffers dev' = vd_queuedBuffers dev \<and>
    free_slots dev' + 1 = free_slots dev"
proof -
  from cache_get_result [OF assms(2)] have i: "i < length (bc_entries cache)" "ce_free (bc_entries cache ! i)"
    "bc_entries cache1 = (bc_entries cache)[i := CacheEntry_new False (bc_lastUsedCounter cache) (h_bufs h b)]"
    by simp_all
  from assms have dev': "dev' = dev\<lparr>vd_cache := Some cache1\<rparr>" "ret = Some e"
    by (auto simp: V4L2VideoDevice_queueBuffer_def Let_def split: option.splits)
  let ?S = "{j. j < length (bc_entries cache) \<and> ce_free (bc_entries cache ! j)}"
  have "{j. j < length (bc_entries cache1) \<and> ce_free (bc_entries cache1 ! j)} = ?S - {i}"
    using i by (auto simp: CacheEntry_new_def nth_list_update)
  moreover have "i \<in> ?S" "finite ?S" using i by simp_all
  ultimately have "free_slots dev' + 1 = free_slots dev"
    using card_Suc_Diff1 [of ?S i] by (simp add: free_slots_def dev' assms(1))
  then show ?thesis by (simp add: dev')
qed

theorem queueBuffer_error_leaks_slot_witness:
  "\<exists>dev'. V4L2VideoDevice_queueBuffer (example_kernel\<lparr>ioctl_qbuf := \<lambda>k buf. (k, Some EIO)\<rparr>) []
      example_video example_heap 3 = Some ([], dev', Some EIO) \<and>
     free_slots dev' + 1 = free_slots example_video"
proof -
  let ?K = "example_kernel\<lparr>ioctl_qbuf := \<lambda>k buf. (k, Some EIO)\<rparr>"
  obtain dev' where q: "V4L2VideoDevice_queueBuffer ?K [] example_video example_heap 3 = Some ([], dev', Some EIO)"
    using example_get
    by (simp add: V4L2VideoDevice_queueBuffer_def example_video_def qbuf_fill_def Let_def
        example_heap_def FrameBuffer_new_def)
  have c: "vd_cache example_video = Some (the (vd_cache example_video))" by (simp add: example_video_def)
  from queueBuffer_error_leaks_slot [OF c example_get _ q, of EIO] q show ?thesis by auto
qed

text \<open>
  Stopping the stream empties the queue but leaves the cache as it was, so the slots of the
  cancelled buffers stay in use: a device that is stopped and started again without releasing its
  buffers has fewer free slots by the number of buffers that were queued.
\<close>

theorem streamOff_keeps_slots:
  assumes "slots_ok dev" "vd_streaming dev"
    and "V4L2VideoDevice_streamOff K ready k dev h = Some (k', dev', h', None)"
  shows "vd_queuedBuffers dev' = [] \<and> \<not> vd_streaming dev' \<and> \<not> vd_notifier dev' \<and>
    vd_cache dev' = vd_cache dev \<and> free_slots dev' = free_slots dev \<and>
    (\<forall>(i, b) \<in> set (vd_queuedBuffers dev).
       \<exists>cache. vd_cache dev' = Some cache \<and> i < length (bc_entries cache) \<and> \<not> ce_free (bc_entries cache ! i))"
  using assms
  by (force simp: V4L2VideoDevice_streamOff_def free_slots_def slots_ok_def split: prod.splits option.splits)

theorem streamOff_keeps_slots_witness:
  "\<exists>dev' h'. V4L2VideoDevice_streamOff example_kernel (\<lambda>h b. Some h) [0] example_video example_heap
      = Some ([], dev', h', None) \<and> free_slots dev' = free_slots example_video"
proof -
  obtain dev' h' where s: "V4L2VideoDevice_streamOff example_kernel (\<lambda>h b. Some h) [0] example_video example_heap
      = Some ([], dev', h', None)"
    by (simp add: V4L2VideoDevice_streamOff_def example_kernel_def example_video_def)
  from streamOff_keeps_slots [OF example_slots_ok _ s] s show ?thesis
    by (auto simp: example_video_def)
qed

end
