(* ===== verification/Uvc.thy ===== *)
theory Uvc
  imports Camera VideoDevice Transforms
begin

text \<open>
  The USB video class pipeline handler, \<open>pipeline/uvcvideo/uvcvideo.cpp\<close>: one camera with one stream
  and one video device. What it takes from outside is in the environment: the driver, the ioctls on
  formats, the conversion between pixel format codes, and the control conversion, which is
  floating-point arithmetic followed by the device's control ioctls.
\<close>

section \<open>Data\<close>

record 'k UVCCameraData = CameraData +
  uvc_kernel :: 'k
  uvc_video :: V4L2VideoDevice
  uvc_stream :: nat

type_synonym 'k uvc_system = "('k UVCCameraData) system"

record 'k uvc_env =
  env_driver :: "'k v4l2_kernel"
  env_processControls :: "'k \<Rightarrow> ControlList \<Rightarrow> 'k \<times> errno option"
  env_toV4L2PixelFormat :: "PixelFormat \<Rightarrow> u32"
  env_formats :: "'k \<Rightarrow> StreamFormats"
  env_tryFormat :: "'k \<Rightarrow> u32 \<Rightarrow> Size \<Rightarrow> 'k \<times> (u32 \<times> u32) result"
  env_setFormat :: "'k \<Rightarrow> u32 \<Rightarrow> Size \<Rightarrow> 'k \<times> (u32 \<times> Size) result"

section \<open>Configuration\<close>

fun closest_size :: "Size list \<Rightarrow> Size \<Rightarrow> Size \<Rightarrow> Size" where
  "closest_size [] requested best = best"
| "closest_size (s # sizes) requested best =
     (if Size_gt s requested then best else closest_size sizes requested s)"

definition UVC_validate ::
    "'k uvc_env \<Rightarrow> 'k uvc_system \<Rightarrow> nat \<Rightarrow> CameraConfiguration
      \<Rightarrow> ('k uvc_system \<times> CameraConfiguration \<times> ConfigStatus) option" where
  "UVC_validate env w camera config =
     (if cc_config config = [] then Some (w, config, Invalid)
      else
        let status = Valid;
            (config, status) = (if cc_transform config \<noteq> Identity
                                then (config\<lparr>cc_transform := Identity\<rparr>, Adjusted) else (config, status));
            (config, status) = (if length (cc_config config) > 1
                                then (config\<lparr>cc_config := take 1 (cc_config config)\<rparr>, Adjusted)
                                else (config, status));
            cfg = cc_config config ! 0;
            formats = sc_formats cfg;
            pixelFormats = StreamFormats_pixelformats formats;
            sz = sc_size cfg
        in if sc_pixelFormat cfg \<notin> set pixelFormats \<and> pixelFormats = [] then None
           else
             let (cfg, status) = (if sc_pixelFormat cfg \<notin> set pixelFormats
                                  then (cfg\<lparr>sc_pixelFormat := hd pixelFormats\<rparr>, Adjusted)
                                  else (cfg, status));
                 formatSizes = StreamFormats_sizes formats (sc_pixelFormat cfg)
             in if formatSizes = [] then None
                else
                  let cfg = cfg\<lparr>sc_size := closest_size formatSizes sz (hd formatSizes)\<rparr>;
                      status = (if sc_size cfg \<noteq> sz then Adjusted else status);
                      cfg = cfg\<lparr>sc_bufferCount := 4\<rparr>
                  in case cameraData w camera of
                       None \<Rightarrow> None
                     | Some data \<Rightarrow>
                         (case env_tryFormat env (uvc_kernel data)
                                 (env_toV4L2PixelFormat env (sc_pixelFormat cfg)) (sc_size cfg) of
                            (k, Inl e) \<Rightarrow>
                              Some (set_cameraData w camera (data\<lparr>uvc_kernel := k\<rparr>),
                                    config\<lparr>cc_config := [cfg]\<rparr>, Invalid)
                          | (k, Inr (bpl, frame)) \<Rightarrow>
                              Some (set_cameraData w camera (data\<lparr>uvc_kernel := k\<rparr>),
                                    config\<lparr>cc_config := [cfg\<lparr>sc_stride := bpl, sc_frameSize := frame\<rparr>]\<rparr>,
                                    status)))"

definition UVC_generateConfiguration ::
    "'k uvc_env \<Rightarrow> 'k uvc_system \<Rightarrow> nat \<Rightarrow> StreamRole list
      \<Rightarrow> ('k uvc_system \<times> CameraConfiguration option) option" where
  "UVC_generateConfiguration env w camera roles =
     (case cameraData w camera of
        None \<Rightarrow> None
      | Some data \<Rightarrow>
          if roles = [] then Some (w, Some CameraConfiguration_new)
          else
            let formats = env_formats env (uvc_kernel data);
                pixelFormats = StreamFormats_pixelformats formats
            in if pixelFormats = [] then None
               else
                 let cfg = (StreamConfiguration_new formats)\<lparr>sc_pixelFormat := hd pixelFormats\<rparr>;
                     sizes = StreamFormats_sizes formats (sc_pixelFormat cfg)
                 in if sizes = [] then None
                    else
                      let cfg = cfg\<lparr>sc_size := sizes ! (length sizes - 1), sc_bufferCount := 4\<rparr>;
                          config = addConfiguration CameraConfiguration_new cfg
                      in case UVC_validate env w camera config of
                           None \<Rightarrow> None
                         | Some (w, config, status) \<Rightarrow> Some (w, Some config))"

definition UVC_configure ::
    "'k uvc_env \<Rightarrow> 'k uvc_system \<Rightarrow> nat \<Rightarrow> CameraConfiguration
      \<Rightarrow> ('k uvc_system \<times> CameraConfiguration \<times> errno option) option" where
  "UVC_configure env w camera config =
     (case cameraData w camera of
        None \<Rightarrow> None
      | Some data \<Rightarrow>
          (case cc_config config of
             [] \<Rightarrow> None
           | cfg # rest \<Rightarrow>
               let fourcc = env_toV4L2PixelFormat env (sc_pixelFormat cfg) in
               (case env_setFormat env (uvc_kernel data) fourcc (sc_size cfg) of
                  (k, Inl e) \<Rightarrow> Some (set_cameraData w camera (data\<lparr>uvc_kernel := k\<rparr>), config, Some e)
                | (k, Inr (fourcc', size')) \<Rightarrow>
                    let w = set_cameraData w camera (data\<lparr>uvc_kernel := k\<rparr>) in
                    if size' \<noteq> sc_size cfg \<or> fourcc' \<noteq> fourcc then Some (w, config, Some EINVAL)
                    else Some (w, config\<lparr>cc_config :=
                           StreamConfiguration_setStream cfg (Some (uvc_stream data)) # rest\<rparr>, None))))"

section \<open>Buffers and streaming\<close>

definition UVC_exportFrameBuffers ::
    "'k uvc_env \<Rightarrow> 'k uvc_system \<Rightarrow> nat \<Rightarrow> nat \<Rightarrow> ('k uvc_system \<times> FrameBuffer list result) option" where
  "UVC_exportFrameBuffers env w camera stream =
     (case cameraData w camera of
        None \<Rightarrow> None
      | Some data \<Rightarrow>
          let count = sc_bufferCount (s_streams w stream);
              (k, r) = V4L2VideoDevice_exportBuffers (env_driver env) (uvc_kernel data) (uvc_video data) count
          in Some (set_cameraData w camera (data\<lparr>uvc_kernel := k\<rparr>), r))"

definition UVC_start ::
    "'k uvc_env \<Rightarrow> 'k uvc_system \<Rightarrow> nat \<Rightarrow> ControlList option \<Rightarrow> ('k uvc_system \<times> errno option) option" where
  "UVC_start env w camera controls =
     (case cameraData w camera of
        None \<Rightarrow> None
      | Some data \<Rightarrow>
          let K = env_driver env;
              count = sc_bufferCount (s_streams w (uvc_stream data));
              (k, video, ret) = V4L2VideoDevice_importBuffers K (uvc_kernel data) (uvc_video data) count
          in case ret of
               Some e \<Rightarrow> Some (set_cameraData w camera (data\<lparr>uvc_kernel := k, uvc_video := video\<rparr>), Some e)
             | None \<Rightarrow>
                 let (k, video, ret) = V4L2VideoDevice_streamOn K k video in
                 (case ret of
                    Some e \<Rightarrow>
                      let (k, video, _) = V4L2VideoDevice_releaseBuffers K k video in
                      Some (set_cameraData w camera (data\<lparr>uvc_kernel := k, uvc_video := video\<rparr>), Some e)
                  | None \<Rightarrow>
                      Some (set_cameraData w camera (data\<lparr>uvc_kernel := k, uvc_video := video\<rparr>), None)))"

definition UVC_bufferReady ::
    "('k UVCCameraData, 'z) system_scheme \<Rightarrow> nat \<Rightarrow> ('k UVCCameraData, 'z) system_scheme option" where
  "UVC_bufferReady w buffer =
     (case fb_request (h_bufs w buffer) of
        None \<Rightarrow> None
      | Some request \<Rightarrow>
          (case PipelineHandler_completeBuffer w request buffer of
             None \<Rightarrow> None
           | Some (w, _) \<Rightarrow> PipelineHandler_completeRequest w request))"

text \<open>
  While the device cancels its buffers, the slot changes the rest of the camera's data (its queue);
  the device and driver states are stored back when the device returns.
\<close>

definition UVC_stop :: "'k uvc_env \<Rightarrow> 'k uvc_system \<Rightarrow> nat \<Rightarrow> 'k uvc_system option" where
  "UVC_stop env w camera =
     (case cameraData w camera of
        None \<Rightarrow> None
      | Some data \<Rightarrow>
          (case V4L2VideoDevice_streamOff (env_driver env) UVC_bufferReady (uvc_kernel data) (uvc_video data) w of
             None \<Rightarrow> None
           | Some (k, video, w, _) \<Rightarrow>
               let (k, video, _) = V4L2VideoDevice_releaseBuffers (env_driver env) k video in
               (case cameraData w camera of
                  None \<Rightarrow> None
                | Some data \<Rightarrow> Some (set_cameraData w camera (data\<lparr>uvc_kernel := k, uvc_video := video\<rparr>)))))"

definition UVC_queueRequestDevice ::
    "'k uvc_env \<Rightarrow> 'k uvc_system \<Rightarrow> nat \<Rightarrow> nat \<Rightarrow> ('k uvc_system \<times> errno option) option" where
  "UVC_queueRequestDevice env w camera request =
     (case cameraData w camera of
        None \<Rightarrow> None
      | Some data \<Rightarrow>
          (case Request_findBuffer w request (uvc_stream data) of
             None \<Rightarrow> Some (w, Some ENOENT)
           | Some buffer \<Rightarrow>
               (case env_processControls env (uvc_kernel data) (rq_controls (h_reqs w request)) of
                  (k, Some e) \<Rightarrow> Some (set_cameraData w camera (data\<lparr>uvc_kernel := k\<rparr>), Some e)
                | (k, None) \<Rightarrow>
                    (case V4L2VideoDevice_queueBuffer (env_driver env) k (uvc_video data) w buffer of
                       None \<Rightarrow> None
                     | Some (k, video, ret) \<Rightarrow>
                         Some (set_cameraData w camera (data\<lparr>uvc_kernel := k, uvc_video := video\<rparr>), ret)))))"

text \<open>The slot of the device's file notifier: a buffer can be dequeued.\<close>

definition UVC_bufferAvailable :: "'k uvc_env \<Rightarrow> 'k uvc_system \<Rightarrow> nat \<Rightarrow> 'k uvc_system option" where
  "UVC_bufferAvailable env w camera =
     (case cameraData w camera of
        None \<Rightarrow> None
      | Some data \<Rightarrow>
          (case V4L2VideoDevice_dequeueBuffer (env_driver env) (uvc_kernel data) (uvc_video data) w of
             None \<Rightarrow> None
           | Some (k, video, w, b) \<Rightarrow>
               let w = set_cameraData w camera (data\<lparr>uvc_kernel := k, uvc_video := video\<rparr>) in
               (case b of None \<Rightarrow> Some w | Some buffer \<Rightarrow> UVC_bufferReady w buffer)))"

definition UVC_handler :: "'k uvc_env \<Rightarrow> 'k uvc_system vtable" where
  "UVC_handler env =
     \<lparr>vt_generateConfiguration = UVC_generateConfiguration env, vt_validate = UVC_validate env,
      vt_configure = UVC_configure env, vt_exportFrameBuffers = UVC_exportFrameBuffers env,
      vt_start = UVC_start env, vt_stop = UVC_stop env,
      vt_queueRequestDevice = UVC_queueRequestDevice env\<rparr>"

end
