(* ===== verification/UvcSystem.thy ===== *)
theory UvcSystem
  imports Uvc "HOL-Library.Sublist"
begin

text \<open>
  The USB video handler at work: what a camera, its queue of requests and its video device keep true
  together while the application queues requests and the driver returns buffers. The invariant
  \<open>flight\<close> says that the pending requests of the queue are exactly the owners of a set of buffers
  that the device still has to return.
\<close>

lemma UVC_handler_simps [simp]:
  "vt_generateConfiguration (UVC_handler env) = UVC_generateConfiguration env"
  "vt_validate (UVC_handler env) = UVC_validate env"
  "vt_configure (UVC_handler env) = UVC_configure env"
  "vt_exportFrameBuffers (UVC_handler env) = UVC_exportFrameBuffers env"
  "vt_start (UVC_handler env) = UVC_start env" "vt_stop (UVC_handler env) = UVC_stop env"
  "vt_queueRequestDevice (UVC_handler env) = UVC_queueRequestDevice env"
  by (simp_all add: UVC_handler_def)

section \<open>Requests in flight\<close>

definition owns :: "'a heap_scheme \<Rightarrow> nat \<Rightarrow> nat \<Rightarrow> bool" where
  "owns w r b \<longleftrightarrow> rq_status (h_reqs w r) = RequestPending \<and> rq_pending (h_reqs w r) = {b} \<and>
     fb_request (h_bufs w b) = Some r"

definition flight :: "('x CameraData_scheme, 'z) system_scheme \<Rightarrow> nat \<Rightarrow> nat set \<Rightarrow> bool" where
  "flight w c B \<longleftrightarrow>
     map_ok (s_cameraData w) \<and> cameraData w c \<noteq> None \<and> distinct (queue_of w c) \<and>
     (queue_of w c \<noteq> [] \<longrightarrow> can_complete w c) \<and>
     (\<forall>b \<in> B. \<exists>r \<in> set (queue_of w c). owns w r b) \<and>
     (\<forall>r \<in> set (queue_of w c). rq_camera (h_reqs w r) = c \<and>
        (finished w r \<and> rq_pending (h_reqs w r) = {} \<or> (\<exists>b \<in> B. owns w r b))) \<and>
     (\<forall>r q. queue_of w c = r # q \<longrightarrow> \<not> finished w r)"

lemma owns_unique: "owns w r b \<Longrightarrow> owns w r' b \<Longrightarrow> r' = r"
  by (simp add: owns_def)

lemma owns_buffer: "owns w r b \<Longrightarrow> owns w r b' \<Longrightarrow> b' = b"
  by (simp add: owns_def)

lemma flight_queue_ok: "flight w c B \<Longrightarrow> queue_ok w c"
  unfolding flight_def queue_ok_def owns_def by blast

lemma flight_empty_queue: "flight w c {} \<Longrightarrow> queue_of w c = []"
  unfolding flight_def by (metis empty_iff list.set_intros(1) neq_Nil_conv)

text \<open>What a completed buffer may change: the camera's queue, one request and one buffer.\<close>

definition same_but ::
    "('x CameraData_scheme, 'z) system_scheme \<Rightarrow> ('x CameraData_scheme, 'z) system_scheme \<Rightarrow> nat \<Rightarrow> nat set \<Rightarrow> nat set \<Rightarrow> bool"
  where
  "same_but w w' c R B \<longleftrightarrow>
     s_cams w' = s_cams w \<and> s_messages w' = s_messages w \<and> s_streams w' = s_streams w \<and>
     (\<exists>data q. cameraData w c = Some data \<and> cameraData w' c = Some (data\<lparr>cd_queuedRequests := q\<rparr>)) \<and>
     (\<forall>r. r \<notin> R \<longrightarrow> h_reqs w' r = h_reqs w r) \<and>
     (\<forall>b. b \<notin> B \<longrightarrow> h_bufs w' b = h_bufs w b)"

lemma same_but_trans:
  assumes "same_but w w1 c R B" "same_but w1 w2 c R' B'"
  shows "same_but w w2 c (R \<union> R') (B \<union> B')"
proof -
  obtain data q q' where d: "cameraData w c = Some data" "cameraData w1 c = Some (data\<lparr>cd_queuedRequests := q\<rparr>)"
    "cameraData w2 c = Some (data\<lparr>cd_queuedRequests := q, cd_queuedRequests := q'\<rparr>)"
    using assms unfolding same_but_def by auto
  then have "\<exists>data q. cameraData w c = Some data \<and> cameraData w2 c = Some (data\<lparr>cd_queuedRequests := q\<rparr>)"
    by auto
  with assms show ?thesis unfolding same_but_def by simp
qed

lemma completeBuffer_owned:
  assumes "owns w r b"
  obtains w1 where "PipelineHandler_completeBuffer w r b = Some (w1, True)"
    "s_cams w1 = s_cams w" "s_cameraData w1 = s_cameraData w" "s_messages w1 = s_messages w"
    "s_streams w1 = s_streams w" "s_signals w1 = s_signals w @ [BufferCompleted (rq_camera (h_reqs w r)) r b]"
    "\<And>r'. r' \<noteq> r \<Longrightarrow> h_reqs w1 r' = h_reqs w r'" "\<And>b'. b' \<noteq> b \<Longrightarrow> h_bufs w1 b' = h_bufs w b'"
    "rq_status (h_reqs w1 r) = RequestPending" "rq_pending (h_reqs w1 r) = {}"
    "rq_camera (h_reqs w1 r) = rq_camera (h_reqs w r)"
    "rq_cancelled (h_reqs w1 r) = (rq_cancelled (h_reqs w r) \<or> buffer_cancelled w b)"
proof -
  let ?w0 = "emit w (BufferCompleted (rq_camera (h_reqs w r)) r b)"
  let ?w1 = "upd_req ?w0 r (\<lambda>rq. rq\<lparr>rq_pending := {}, rq_cancelled := rq_cancelled rq \<or> buffer_cancelled w b\<rparr>)"
  let ?w2 = "FrameBuffer_setRequest ?w1 b None"
  have "Request_completeBuffer ?w0 r b = Some (?w2, True)"
    using assms by (auto simp: Request_completeBuffer_def owns_def Let_def buffer_cancelled_def
        hasPendingBuffers_def FrameBuffer_setRequest_def upd_req_def upd_buf_def fun_eq_iff)
  then have "PipelineHandler_completeBuffer w r b = Some (?w2, True)"
    by (simp add: PipelineHandler_completeBuffer_def)
  then show ?thesis
    by (rule that) (use assms in \<open>simp_all add: owns_def FrameBuffer_setRequest_def\<close>)
qed

lemma not_in_takeWhile: "x \<in> set xs \<Longrightarrow> \<not> P x \<Longrightarrow> x \<in> set (dropWhile P xs)"
  by (metis UnE set_append set_takeWhileD takeWhile_dropWhile_id)

lemma flight_bufferReady:
  fixes w :: "('k UVCCameraData, 'z) system_scheme"
  assumes f: "flight w c B" and b: "b \<in> B"
  shows "\<exists>w' r. UVC_bufferReady w b = Some w' \<and> flight w' c (B - {b}) \<and>
    (\<forall>c'. history w' c' = history w c') \<and> same_but w w' c {r} {b} \<and> owns w r b \<and>
    r \<in> set (queue_of w c) \<and> set (queue_of w' c) \<subseteq> set (queue_of w c) \<and>
    rq_status (h_reqs w' r) = (if rq_cancelled (h_reqs w r) \<or> buffer_cancelled w b
                               then RequestCancelled else RequestComplete)"
proof -
  obtain r where r: "r \<in> set (queue_of w c)" "owns w r b" using f b unfolding flight_def by blast
  then have cam: "rq_camera (h_reqs w r) = c" and cc: "can_complete w c" and mo: "map_ok (s_cameraData w)"
    using f unfolding flight_def by (auto dest: length_pos_if_in_set)
  obtain data where data: "cameraData w c = Some data" using f unfolding flight_def by blast
  then have q: "queue_of w c = cd_queuedRequests data" by (simp add: queue_of_def)
  from r(2) obtain w1 where w1: "PipelineHandler_completeBuffer w r b = Some (w1, True)"
    "s_cams w1 = s_cams w" "s_cameraData w1 = s_cameraData w" "s_messages w1 = s_messages w"
    "s_streams w1 = s_streams w" "s_signals w1 = s_signals w @ [BufferCompleted (rq_camera (h_reqs w r)) r b]"
    "\<And>r'. r' \<noteq> r \<Longrightarrow> h_reqs w1 r' = h_reqs w r'" "\<And>b'. b' \<noteq> b \<Longrightarrow> h_bufs w1 b' = h_bufs w b'"
    "rq_status (h_reqs w1 r) = RequestPending" "rq_pending (h_reqs w1 r) = {}"
    "rq_camera (h_reqs w1 r) = rq_camera (h_reqs w r)"
    "rq_cancelled (h_reqs w1 r) = (rq_cancelled (h_reqs w r) \<or> buffer_cancelled w b)"
    by (rule completeBuffer_owned) blast
  have data1: "cameraData w1 c = Some data" using data w1(3) by (simp add: cameraData_def)
  have q1: "queue_of w1 c' = queue_of w c'" for c' using w1(3) by (simp add: queue_of_def cameraData_def)
  have qok: "queue_ok w1 c" using flight_queue_ok [OF f] w1(3,7,10) q1
    unfolding queue_ok_def by (metis)
  have cc1: "can_complete w1 c" using cc w1(2) by (simp add: can_complete_def)
  obtain w2 where w2: "Request_complete w1 r = Some w2"
    using w1(9,10) by (simp add: Request_complete_def hasPendingBuffers_def Let_def)
  note rc = Request_complete_system [OF w2]
  define w' where "w' = emits (set_cameraData w2 c (data\<lparr>cd_queuedRequests := dropWhile (finished w2) (cd_queuedRequests data)\<rparr>))
            (map (RequestCompleted c) (takeWhile (finished w2) (cd_queuedRequests data)))"
  have cr: "PipelineHandler_completeRequest w1 r = Some w'"
    unfolding w'_def by (rule completeRequest_spec) (use w1(11) cam data1 cc1 qok w2 in simp_all)
  have eq: "UVC_bufferReady w b = Some w'"
    using r(2) w1(1) cr by (simp add: UVC_bufferReady_def owns_def)
  have mo2: "map_ok (s_cameraData w2)" using mo w1(3) rc(2) by simp
  have fin: "finished w2 r" using rc(10) by simp
  have reqs: "h_reqs w' r' = h_reqs w r'" if "r' \<noteq> r" for r' using that w1(7) rc(9) by (simp add: w'_def)
  have bufs: "h_bufs w' b' = h_bufs w b'" if "b' \<noteq> b" for b' using that w1(8) rc(5) by (simp add: w'_def)
  have camw: "rq_camera (h_reqs w' r') = rq_camera (h_reqs w r')" for r'
    by (cases "r' = r") (simp_all add: w'_def rc(8) w1(7,11))
  have q': "queue_of w' c = dropWhile (finished w') (queue_of w c)"
    using mo2 q by (simp add: w'_def)
  have hist: "history w' c' = history w c'" for c'
    using completeRequest_history(1) [OF cr _ cc1 qok] w1(6,11) cam q1 by (simp add: history_def)
  have sb: "same_but w w' c {r} {b}"
  proof -
    have "s_cams w' = s_cams w" "s_messages w' = s_messages w" "s_streams w' = s_streams w"
      by (simp_all add: w'_def w1(2,4,5) rc(1,4,6))
    moreover have "cameraData w' c
        = Some (data\<lparr>cd_queuedRequests := dropWhile (finished w2) (cd_queuedRequests data)\<rparr>)"
      using mo2 by (simp add: w'_def)
    ultimately show ?thesis unfolding same_but_def using data reqs bufs by blast
  qed
  have own': "owns w' r' b'" if "owns w r' b'" "b' \<noteq> b" for r' b'
  proof -
    have "r' \<noteq> r" using that r(2) owns_buffer by blast
    with that show ?thesis by (simp add: owns_def reqs bufs)
  qed
  have "flight w' c (B - {b})"
    unfolding flight_def
  proof (intro conjI ballI allI impI)
    show "map_ok (s_cameraData w')" "cameraData w' c \<noteq> None" using mo2 by (simp_all add: w'_def)
    show "distinct (queue_of w' c)" using f unfolding flight_def q' by simp
    show "can_complete w' c" using cc w1(2) rc(1) by (simp add: w'_def can_complete_def)
  next
    fix b' assume b': "b' \<in> B - {b}"
    then obtain r' where r': "r' \<in> set (queue_of w c)" "owns w r' b'" using f unfolding flight_def by blast
    with b' have o: "owns w' r' b'" using own' by blast
    then have "r' \<in> set (queue_of w' c)" unfolding q'
      by (intro not_in_takeWhile [OF r'(1)]) (simp add: owns_def)
    with o show "\<exists>r' \<in> set (queue_of w' c). owns w' r' b'" by blast
  next
    fix r' assume "r' \<in> set (queue_of w' c)"
    then have r': "r' \<in> set (queue_of w c)" unfolding q' by (rule set_dropWhileD)
    show "rq_camera (h_reqs w' r') = c"
      using f r' camw unfolding flight_def by simp
    show "finished w' r' \<and> rq_pending (h_reqs w' r') = {} \<or> (\<exists>b' \<in> B - {b}. owns w' r' b')"
    proof (cases "r' = r")
      case True
      then show ?thesis using fin by (simp add: w'_def rc(7) w1(10))
    next
      case False
      from f r' consider "finished w r'" "rq_pending (h_reqs w r') = {}" | b' where "b' \<in> B" "owns w r' b'"
        unfolding flight_def by blast
      then show ?thesis
      proof cases
        case 1
        then show ?thesis using reqs [OF False] by simp
      next
        case 2
        then have "b' \<noteq> b" using r(2) False owns_unique by blast
        with 2 own' show ?thesis by blast
      qed
    qed
  next
    fix r' q assume "queue_of w' c = r' # q"
    then show "\<not> finished w' r'" unfolding q' by (simp add: dropWhile_eq_Cons_conv)
  qed
  moreover have "set (queue_of w' c) \<subseteq> set (queue_of w c)" unfolding q' by (auto dest: set_dropWhileD)
  moreover have "rq_status (h_reqs w' r) = (if rq_cancelled (h_reqs w r) \<or> buffer_cancelled w b
                               then RequestCancelled else RequestComplete)"
    using rc(10) w1(12) by (simp add: w'_def)
  ultimately show ?thesis using eq hist sb r by blast
qed


section \<open>Stopping\<close>

lemma flight_cong:
  assumes "s_cameraData w' = s_cameraData w" "s_cams w' = s_cams w" "h_reqs w' = h_reqs w"
    "\<And>b. fb_request (h_bufs w' b) = fb_request (h_bufs w b)"
  shows "flight w' c B = flight w c B" "owns w' r b = owns w r b"
proof -
  have "cameraData w' = cameraData w" by (rule cameraData_cong [OF assms(1)])
  then show "flight w' c B = flight w c B"
    using assms by (simp add: flight_def owns_def queue_of_def can_complete_def)
  show "owns w' r b = owns w r b" using assms by (simp add: owns_def)
qed

definition owners :: "'a heap_scheme \<Rightarrow> nat set \<Rightarrow> nat set" where
  "owners w B = {r. \<exists>b \<in> B. owns w r b}"

lemma flight_cancel:
  fixes w :: "('k UVCCameraData, 'z) system_scheme"
  shows "flight w c (set bs) \<Longrightarrow> distinct bs \<Longrightarrow>
   \<exists>w'. cancel_buffers UVC_bufferReady bs w = Some w' \<and> flight w' c {} \<and>
    (\<forall>c'. history w' c' = history w c') \<and> same_but w w' c (owners w (set bs)) (set bs) \<and>
    (\<forall>r \<in> owners w (set bs). rq_status (h_reqs w' r) = RequestCancelled)"
proof (induction bs arbitrary: w)
  case Nil
  have "\<exists>data q. cameraData w c = Some data \<and> cameraData w c = Some (data\<lparr>cd_queuedRequests := q\<rparr>)"
  proof -
    obtain data where "cameraData w c = Some data" using Nil.prems(1) unfolding flight_def by blast
    then show ?thesis by (intro exI [of _ data] exI [of _ "cd_queuedRequests data"]) simp
  qed
  with Nil show ?case by (simp add: same_but_def owners_def)
next
  case (Cons b bs)
  let ?w = "upd_buf w b (\<lambda>fb. fb\<lparr>fb_metadata := (fb_metadata fb)\<lparr>md_status := FrameCancelled\<rparr>\<rparr>)"
  have cong: "flight ?w c B = flight w c B" "owns ?w r b' = owns w r b'" for B r b'
    by (rule flight_cong; simp)+
  have sb0: "same_but w ?w c {} {b}"
  proof -
    obtain data where "cameraData w c = Some data" using Cons.prems(1) unfolding flight_def by blast
    then show ?thesis unfolding same_but_def
      by (auto intro!: exI [of _ data] exI [of _ "cd_queuedRequests data"])
  qed
  have h0: "history ?w c' = history w c'" for c' by (simp add: history_def)
  from flight_bufferReady [of ?w c "set (b # bs)" b] Cons.prems(1) cong obtain w1 r where
    w1: "UVC_bufferReady ?w b = Some w1" "flight w1 c (set (b # bs) - {b})"
    "\<forall>c'. history w1 c' = history ?w c'" "same_but ?w w1 c {r} {b}" "owns ?w r b"
    "rq_status (h_reqs w1 r) = RequestCancelled"
    by (auto simp: buffer_cancelled_def)
  have B: "set (b # bs) - {b} = set bs" using Cons.prems(2) by auto
  from Cons.IH [of w1] w1(2) B Cons.prems(2) obtain w2 where
    w2: "cancel_buffers UVC_bufferReady bs w1 = Some w2" "flight w2 c {}"
    "\<forall>c'. history w2 c' = history w1 c'" "same_but w1 w2 c (owners w1 (set bs)) (set bs)"
    "\<forall>r \<in> owners w1 (set bs). rq_status (h_reqs w2 r) = RequestCancelled" by auto
  have ob: "owns w r b" using w1(5) cong by simp
  have ow: "owns w1 r' b' \<longleftrightarrow> owns w r' b'" if "b' \<in> set bs" for r' b'
  proof -
    have "b' \<noteq> b" using that Cons.prems(2) by auto
    then have bb: "h_bufs w1 b' = h_bufs w b'" using w1(4) by (simp add: same_but_def)
    show ?thesis
    proof (cases "r' = r")
      case True
      then show ?thesis using w1(6) ob \<open>b' \<noteq> b\<close> by (auto simp: owns_def)
    next
      case False
      then show ?thesis using w1(4) bb by (simp add: same_but_def owns_def)
    qed
  qed
  have owners1: "owners w1 (set bs) = owners w (set bs)" using ow by (auto simp: owners_def)
  have own: "owners w (set (b # bs)) = insert r (owners w (set bs))"
    using ob by (auto simp: owners_def dest: owns_unique [OF ob])
  have "r \<notin> owners w1 (set bs)" using w1(6) by (auto simp: owners_def owns_def)
  then have rs: "rq_status (h_reqs w2 r) = RequestCancelled"
    using w2(4) w1(6) by (simp add: same_but_def)
  have "same_but w w2 c ({} \<union> {r} \<union> owners w1 (set bs)) ({b} \<union> {b} \<union> set bs)"
    using same_but_trans [OF same_but_trans [OF sb0 w1(4)] w2(4)] .
  then have "same_but w w2 c (owners w (set (b # bs))) (set (b # bs))"
    unfolding own by (simp add: owners1)
  moreover have "cancel_buffers UVC_bufferReady (b # bs) w = Some w2"
    using w1(1) w2(1) by simp
  moreover have "\<forall>c'. history w2 c' = history w c'" using w1(3) w2(3) h0 by simp
  moreover have "\<forall>r' \<in> owners w (set (b # bs)). rq_status (h_reqs w2 r') = RequestCancelled"
    using w2(5) rs owners1 own by simp
  ultimately show ?case using w2(2) by blast
qed


section \<open>The invariant\<close>

text \<open>
  A request the application may queue, or that is posted and not yet delivered: it is pending on one
  buffer, for the stream of the camera, that it owns and that has planes.
\<close>

definition posted :: "'k uvc_system \<Rightarrow> nat \<Rightarrow> nat \<Rightarrow> nat \<Rightarrow> bool" where
  "posted w c stream r \<longleftrightarrow>
     rq_camera (h_reqs w r) = c \<and>
     (\<exists>b. rq_bufferMap (h_reqs w r) = [(stream, b)] \<and> owns w r b \<and>
          fb_planes (h_bufs w b) \<noteq> [] \<and> length (fb_planes (h_bufs w b)) \<le> VIDEO_MAX_PLANES)"

definition device_buffers :: "'k UVCCameraData \<Rightarrow> nat set" where
  "device_buffers data = snd ` set (vd_queuedBuffers (uvc_video data))"

definition uvc_inv :: "'k uvc_system \<Rightarrow> nat \<Rightarrow> bool" where
  "uvc_inv w c \<longleftrightarrow>
     (\<exists>data. cameraData w c = Some data \<and> flight w c (device_buffers data) \<and>
        slots_ok (uvc_video data) \<and> distinct (map snd (vd_queuedBuffers (uvc_video data))) \<and>
        \<not> vd_output (uvc_video data) \<and>
        distinct (queue_of w c @ s_messages w) \<and>
        (\<forall>r \<in> set (s_messages w). posted w c (uvc_stream data) r) \<and>
        (s_messages w \<noteq> [] \<longrightarrow> can_complete w c) \<and>
        (can_complete w c \<longrightarrow> vd_cache (uvc_video data) \<noteq> None))"

lemma uvc_invE:
  assumes "uvc_inv w c"
  obtains data where "cameraData w c = Some data" "flight w c (device_buffers data)"
    "slots_ok (uvc_video data)" "distinct (map snd (vd_queuedBuffers (uvc_video data)))"
    "\<not> vd_output (uvc_video data)" "distinct (queue_of w c @ s_messages w)"
    "\<forall>r \<in> set (s_messages w). posted w c (uvc_stream data) r"
    "s_messages w \<noteq> [] \<longrightarrow> can_complete w c" "can_complete w c \<longrightarrow> vd_cache (uvc_video data) \<noteq> None"
  using assms unfolding uvc_inv_def by blast

lemma posted_cong:
  assumes "h_reqs w' r = h_reqs w r" "\<And>b. owns w r b \<Longrightarrow> h_bufs w' b = h_bufs w b"
  shows "posted w c stream r \<Longrightarrow> posted w' c stream r"
  using assms by (auto simp: posted_def owns_def)

lemma set_map_insert_fresh:
  "k \<notin> fst ` set m \<Longrightarrow> set (map_insert k v m) = insert (k, v) (set m)"
  by (induction k v m rule: map_insert.induct) auto

lemma distinct_snd_map_insert:
  "k \<notin> fst ` set m \<Longrightarrow> v \<notin> snd ` set m \<Longrightarrow> distinct (map snd m) \<Longrightarrow> distinct (map snd (map_insert k v m))"
proof (induction k v m rule: map_insert.induct)
  case (2 k v k' v' m)
  then show ?case by (auto simp: set_map_insert_fresh)
qed simp


section \<open>Delivering a posted request\<close>

lemma same_requests_owns: "same_requests w w' \<Longrightarrow> owns w' r b = owns w r b"
  by (simp add: same_requests_def owns_def)

lemma flight_same_queue:
  assumes "flight w c B" "same_requests w w'" "s_cams w' = s_cams w" "map_ok (s_cameraData w')"
    "cameraData w' c \<noteq> None" "queue_of w' c = queue_of w c"
  shows "flight w' c B"
  using assms same_requests_owns [OF assms(2)]
  unfolding flight_def by (simp add: same_requests_def can_complete_def)

lemma flight_add:
  assumes "flight w c B" "same_requests w w'" "s_cams w' = s_cams w" "map_ok (s_cameraData w')"
    "cameraData w' c \<noteq> None" "queue_of w' c = queue_of w c @ [r]"
    "owns w r b" "rq_camera (h_reqs w r) = c" "can_complete w c" "r \<notin> set (queue_of w c)"
  shows "flight w' c (insert b B)"
proof -
  note ow = same_requests_owns [OF assms(2)]
  have sr: "rq_status (h_reqs w' r) = rq_status (h_reqs w r)" "rq_pending (h_reqs w' r) = rq_pending (h_reqs w r)"
    "rq_camera (h_reqs w' r) = rq_camera (h_reqs w r)" for r using assms(2) by (simp_all add: same_requests_def)
  have hd: "\<not> finished w' r'" if "queue_of w' c = r' # q" for r' q
    using that assms(1,6,7) sr unfolding flight_def by (cases "queue_of w c") (auto simp: owns_def)
  show ?thesis
    using assms hd unfolding flight_def by (auto simp: ow sr can_complete_def)
qed

lemma posted_same: "same_requests w w' \<Longrightarrow> posted w' c s r = posted w c s r"
  by (simp add: posted_def same_requests_owns) (simp add: same_requests_def)

text \<open>What the device side of a posted request does to the camera's data.\<close>

lemma queueRequestDevice_Some:
  fixes w :: "'k uvc_system"
  assumes "cameraData w c = Some data" "posted w c (uvc_stream data) r"
    "vd_cache (uvc_video data) \<noteq> None" "\<not> vd_output (uvc_video data)"
  shows "\<exists>k video ret b. UVC_queueRequestDevice env w c r
      = Some (set_cameraData w c (data\<lparr>uvc_kernel := k, uvc_video := video\<rparr>), ret) \<and> owns w r b \<and>
    (video = uvc_video data \<and> ret \<noteq> None \<or>
     (\<exists>k0. V4L2VideoDevice_queueBuffer (env_driver env) k0 (uvc_video data) w b = Some (k, video, ret)))"
proof -
  obtain b where b: "rq_bufferMap (h_reqs w r) = [(uvc_stream data, b)]" "owns w r b"
    "fb_planes (h_bufs w b) \<noteq> []" "length (fb_planes (h_bufs w b)) \<le> VIDEO_MAX_PLANES"
    using assms(2) by (auto simp: posted_def)
  obtain k0 e0 where p: "env_processControls env (uvc_kernel data) (rq_controls (h_reqs w r)) = (k0, e0)"
    by fastforce
  show ?thesis
  proof (cases e0)
    case (Some e)
    have "UVC_queueRequestDevice env w c r
        = Some (set_cameraData w c (data\<lparr>uvc_kernel := k0, uvc_video := uvc_video data\<rparr>), Some e)"
      using assms(1) b p Some by (simp add: UVC_queueRequestDevice_def Request_findBuffer_def)
    then show ?thesis using b by blast
  next
    case None
    obtain cache where "vd_cache (uvc_video data) = Some cache" using assms(3) by auto
    from queueBuffer_Some [OF this assms(4) b(3,4), of "env_driver env" k0]
    obtain k video ret where q: "V4L2VideoDevice_queueBuffer (env_driver env) k0 (uvc_video data) w b = Some (k, video, ret)"
      by blast
    then have "UVC_queueRequestDevice env w c r
        = Some (set_cameraData w c (data\<lparr>uvc_kernel := k, uvc_video := video\<rparr>), ret)"
      using assms(1) b p None by (simp add: UVC_queueRequestDevice_def Request_findBuffer_def)
    then show ?thesis using b q by blast
  qed
qed


lemma device_owner_in_queue:
  "flight w c B \<Longrightarrow> b \<in> B \<Longrightarrow> owns w r b \<Longrightarrow> r \<in> set (queue_of w c)"
  unfolding flight_def using owns_unique by metis

lemma uvc_inv_deliver:
  fixes w :: "'k uvc_system"
  assumes inv: "uvc_inv w c" and msgs: "s_messages w = r # ms"
  shows "\<exists>w'. PipelineHandler_queueRequest (vt_queueRequestDevice (UVC_handler env)) (w\<lparr>s_messages := ms\<rparr>) r = Some w' \<and>
    uvc_inv w' c \<and> s_messages w' = ms \<and> s_cams w' = s_cams w \<and> s_signals w' = s_signals w \<and>
    (queue_of w' c = queue_of w c @ [r] \<or> queue_of w' c = queue_of w c) \<and>
    (\<forall>c'. c' \<noteq> c \<longrightarrow> queue_of w' c' = queue_of w c') \<and> same_requests w w'"
proof -
  from inv obtain data where d: "cameraData w c = Some data" "flight w c (device_buffers data)"
    "slots_ok (uvc_video data)" "distinct (map snd (vd_queuedBuffers (uvc_video data)))"
    "\<not> vd_output (uvc_video data)" "distinct (queue_of w c @ s_messages w)"
    "\<forall>r \<in> set (s_messages w). posted w c (uvc_stream data) r"
    "can_complete w c" "vd_cache (uvc_video data) \<noteq> None"
    using msgs by (elim uvc_invE) simp
  have mo: "map_ok (s_cameraData w)" using d(2) by (simp add: flight_def)
  have pr: "posted w c (uvc_stream data) r" using d(7) msgs by simp
  then have cam: "rq_camera (h_reqs w r) = c" by (simp add: posted_def)
  have rq: "r \<notin> set (queue_of w c)" using d(6) msgs by simp
  have q: "queue_of w c = cd_queuedRequests data" using d(1) by (simp add: queue_of_def)
  define data1 where "data1 = data\<lparr>cd_queuedRequests := cd_queuedRequests data @ [r],
      cd_requestSequence := cd_requestSequence data + 1\<rparr>"
  define w1 where "w1 = set_cameraData
      (upd_req (w\<lparr>s_messages := ms\<rparr>) r (\<lambda>rq. rq\<lparr>rq_sequence := cd_requestSequence data\<rparr>)) c data1"
  have sr: "same_requests w w1" by (simp add: same_requests_def w1_def)
  have w1: "cameraData w1 c = Some data1" "map_ok (s_cameraData w1)" using mo by (simp_all add: w1_def)
  have v1: "uvc_video data1 = uvc_video data" "uvc_stream data1 = uvc_stream data"
    "cd_queuedRequests data1 = cd_queuedRequests data @ [r]" by (simp_all add: data1_def)
  have pre: "posted w1 c (uvc_stream data1) r" "vd_cache (uvc_video data1) \<noteq> None" "\<not> vd_output (uvc_video data1)"
    using pr v1 d(5,9) posted_same [OF sr] by simp_all
  obtain k video ret b where dq: "UVC_queueRequestDevice env w1 c r
      = Some (set_cameraData w1 c (data1\<lparr>uvc_kernel := k, uvc_video := video\<rparr>), ret)" "owns w1 r b"
    and vid: "video = uvc_video data \<and> ret \<noteq> None \<or>
      (\<exists>k0. V4L2VideoDevice_queueBuffer (env_driver env) k0 (uvc_video data) w1 b = Some (k, video, ret))"
    using queueRequestDevice_Some [OF w1(1) pre, of env] unfolding v1 by blast
  have ob: "owns w r b" using dq(2) same_requests_owns [OF sr] by simp
  have vok: "slots_ok video \<and> \<not> vd_output video \<and> vd_cache video \<noteq> None \<and>
      (ret = None \<longrightarrow> (\<exists>i. vd_queuedBuffers video = map_insert i b (vd_queuedBuffers (uvc_video data)) \<and>
         i \<notin> fst ` set (vd_queuedBuffers (uvc_video data)))) \<and>
      (ret \<noteq> None \<longrightarrow> vd_queuedBuffers video = vd_queuedBuffers (uvc_video data))"
    using vid
  proof (elim disjE conjE exE)
    fix k0 assume qb: "V4L2VideoDevice_queueBuffer (env_driver env) k0 (uvc_video data) w1 b = Some (k, video, ret)"
    show ?thesis using slots_ok_queueBuffer [OF qb d(3)] queueBuffer_video [OF qb] d(3,5,9) by simp
  qed (use d(3,5,9) in auto)
  define q' where "q' = (if ret = None then queue_of w c @ [r] else queue_of w c)"
  define data' where "data' = data1\<lparr>uvc_kernel := k, uvc_video := video, cd_queuedRequests := q'\<rparr>"
  define w' where "w' = set_cameraData w1 c data'"
  have eq: "PipelineHandler_queueRequest (vt_queueRequestDevice (UVC_handler env)) (w\<lparr>s_messages := ms\<rparr>) r = Some w'"
  proof (cases ret)
    case None
    have "data' = data1\<lparr>uvc_kernel := k, uvc_video := video\<rparr>"
      using None q by (simp add: data'_def q'_def data1_def)
    then show ?thesis using None dq(1) d(1) cam
      by (simp add: PipelineHandler_queueRequest_def UVC_handler_def w1_def [symmetric] data1_def [symmetric] w'_def Let_def)
  next
    case (Some e)
    have "removeAll r (cd_queuedRequests data) = cd_queuedRequests data" using rq q by simp
    then show ?thesis using Some dq(1) d(1) cam w1 q
      by (simp add: PipelineHandler_queueRequest_def UVC_handler_def w1_def [symmetric] data1_def [symmetric]
          w'_def Let_def v1 data'_def q'_def)
  qed
  have sr': "same_requests w w'" using sr by (simp add: same_requests_def w'_def)
  have w': "cameraData w' c = Some data'" "map_ok (s_cameraData w')" "queue_of w' c = q'"
    "s_cams w' = s_cams w" "s_messages w' = ms" "s_signals w' = s_signals w"
  proof -
    show "cameraData w' c = Some data'" "map_ok (s_cameraData w')" "queue_of w' c = q'"
      using w1(2) by (simp_all add: w'_def data'_def)
    show "s_cams w' = s_cams w" "s_messages w' = ms" "s_signals w' = s_signals w"
      by (simp_all add: w'_def w1_def)
  qed
  have fl: "flight w' c (device_buffers data') \<and> distinct (map snd (vd_queuedBuffers video))"
  proof (cases ret)
    case (Some e)
    then have "vd_queuedBuffers video = vd_queuedBuffers (uvc_video data)"
      using vok by simp
    then have "device_buffers data' = device_buffers data" by (simp add: device_buffers_def data'_def)
    with flight_same_queue [OF d(2) sr' w'(4,2)] w' Some show ?thesis
      using d(4) \<open>vd_queuedBuffers video = _\<close> by (simp add: q'_def)
  next
    case None
    with vok obtain i where i: "vd_queuedBuffers video = map_insert i b (vd_queuedBuffers (uvc_video data))"
      "i \<notin> fst ` set (vd_queuedBuffers (uvc_video data))"
      by blast
    have bn: "b \<notin> device_buffers data"
      using device_owner_in_queue [OF d(2) _ ob] rq by blast
    have "device_buffers data' = insert b (device_buffers data)"
      using i by (simp add: device_buffers_def data'_def set_map_insert_fresh)
    with flight_add [OF d(2) sr' w'(4,2) _ _ ob cam d(8) rq] w' None
    have "flight w' c (device_buffers data')" by (simp add: q'_def)
    moreover have "distinct (map snd (vd_queuedBuffers video))"
      unfolding i(1) using i(2) bn d(4) by (intro distinct_snd_map_insert) (simp_all add: device_buffers_def)
    ultimately show ?thesis by blast
  qed
  have "uvc_inv w' c"
    unfolding uvc_inv_def
  proof (intro exI conjI)
    show "cameraData w' c = Some data'" by (rule w'(1))
    show "flight w' c (device_buffers data')" using fl by blast
    show "slots_ok (uvc_video data')" "\<not> vd_output (uvc_video data')" using vok by (simp_all add: data'_def)
    show "distinct (map snd (vd_queuedBuffers (uvc_video data')))" using fl by (simp add: data'_def)
    show "distinct (queue_of w' c @ s_messages w')"
      using d(6) msgs by (auto simp: w'(3,5) q'_def)
    show "\<forall>r \<in> set (s_messages w'). posted w' c (uvc_stream data') r"
      using d(7) msgs posted_same [OF sr'] by (simp add: w'(5) data'_def data1_def)
    show "s_messages w' \<noteq> [] \<longrightarrow> can_complete w' c" using d(8) w'(4) by (simp add: can_complete_def)
    show "can_complete w' c \<longrightarrow> vd_cache (uvc_video data') \<noteq> None" using vok by (simp add: data'_def)
  qed
  moreover have "queue_of w' c' = queue_of w c'" if "c' \<noteq> c" for c'
  proof -
    have "queue_of w1 c' = queue_of w c'" using that mo by (simp add: w1_def)
    then show ?thesis using that w1(2) by (simp add: w'_def)
  qed
  ultimately show ?thesis using eq w' sr' by (auto simp: q'_def)
qed


lemma uvc_inv_upd_cam:
  assumes "uvc_inv w c" "can_complete (upd_cam w c f) c \<longrightarrow> can_complete w c"
    "queue_of w c \<noteq> [] \<or> s_messages w \<noteq> [] \<longrightarrow> can_complete (upd_cam w c f) c"
  shows "uvc_inv (upd_cam w c f) c"
proof -
  have "owns (upd_cam w c f) r b = owns w r b" for r b by (simp add: owns_def)
  moreover from this have "posted (upd_cam w c f) c s r = posted w c s r" for s r by (simp add: posted_def)
  ultimately show ?thesis
    using assms unfolding uvc_inv_def flight_def by fastforce
qed

lemma releaseBuffers_video:
  "V4L2VideoDevice_releaseBuffers K k dev = (k', dev', ret) \<Longrightarrow> dev' = dev\<lparr>vd_cache := None\<rparr>"
  by (auto simp: V4L2VideoDevice_releaseBuffers_def Let_def split: prod.splits)

text \<open>Stopping the handler when the driver can stop the stream: every queued request completes.\<close>

lemma UVC_stop_all:
  fixes w :: "'k uvc_system"
  assumes inv: "uvc_inv w c" and msgs: "s_messages w = []"
    and off: "\<And>k. snd (ioctl_streamoff (env_driver env) k) = None"
  shows "\<exists>w' data'. UVC_stop env w c = Some w' \<and> queue_of w' c = [] \<and> s_messages w' = [] \<and>
    s_cams w' = s_cams w \<and> (\<forall>c'. history w' c' = history w c') \<and>
    cameraData w' c = Some data' \<and> vd_queuedBuffers (uvc_video data') = [] \<and> flight w' c {} \<and>
    \<not> vd_output (uvc_video data') \<and>
    (\<forall>r \<in> set (queue_of w c). rq_status (h_reqs w' r) =
       (if finished w r then rq_status (h_reqs w r) else RequestCancelled))"
proof -
  from inv obtain data where d: "cameraData w c = Some data" "flight w c (device_buffers data)"
    "slots_ok (uvc_video data)" "distinct (map snd (vd_queuedBuffers (uvc_video data)))" "\<not> vd_output (uvc_video data)"
    by (elim uvc_invE)
  define bs where "bs = map snd (vd_queuedBuffers (uvc_video data))"
  have bs: "set bs = device_buffers data" "distinct bs" using d(4) by (simp_all add: bs_def device_buffers_def)
  from flight_cancel [of w c bs] d(2) bs obtain w1 where
    w1: "cancel_buffers UVC_bufferReady bs w = Some w1" "flight w1 c {}" "\<forall>c'. history w1 c' = history w c'"
    "same_but w w1 c (owners w (set bs)) (set bs)"
    "\<forall>r \<in> owners w (set bs). rq_status (h_reqs w1 r) = RequestCancelled" by auto
  have st: "rq_status (h_reqs w1 r) = (if finished w r then rq_status (h_reqs w r) else RequestCancelled)"
    if "r \<in> set (queue_of w c)" for r
  proof (cases "r \<in> owners w (set bs)")
    case True
    then show ?thesis using w1(5) by (auto simp: owners_def owns_def)
  next
    case False
    then have "finished w r" using d(2) that bs(1) unfolding flight_def owners_def by blast
    then show ?thesis using w1(4) False by (simp add: same_but_def)
  qed
  obtain video1 k1 ret1 where so: "V4L2VideoDevice_streamOff (env_driver env) UVC_bufferReady (uvc_kernel data) (uvc_video data) w
      = Some (k1, video1, w1, ret1)" "vd_queuedBuffers video1 = []" "\<not> vd_output video1"
  proof (cases "\<not> vd_streaming (uvc_video data) \<and> vd_queuedBuffers (uvc_video data) = []")
    case True
    then have "w1 = w" using w1(1) by (simp add: bs_def)
    with True show ?thesis using d(5) by (intro that [of "uvc_kernel data" "uvc_video data"])
        (simp_all add: V4L2VideoDevice_streamOff_def)
  next
    case False
    obtain k where k: "ioctl_streamoff (env_driver env) (uvc_kernel data) = (k, None)"
      using off [of "uvc_kernel data"] by (metis prod.collapse)
    show ?thesis
      by (rule that [of k "(uvc_video data)\<lparr>vd_queuedBuffers := [], vd_notifier := False, vd_streaming := False\<rparr>"])
        (use False k w1(1) d(5) in \<open>auto simp: V4L2VideoDevice_streamOff_def bs_def\<close>)
  qed
  obtain k2 video2 ret2 where rel: "V4L2VideoDevice_releaseBuffers (env_driver env) k1 video1 = (k2, video2, ret2)"
    by (metis prod_cases3)
  obtain data1 where data1: "cameraData w1 c = Some data1" using w1(2) unfolding flight_def by blast
  have mo: "map_ok (s_cameraData w1)" using w1(2) by (simp add: flight_def)
  define w' where "w' = set_cameraData w1 c (data1\<lparr>uvc_kernel := k2, uvc_video := video2\<rparr>)"
  have eq: "UVC_stop env w c = Some w'"
    using d(1) so(1) rel data1 by (simp add: UVC_stop_def w'_def)
  have q1: "cd_queuedRequests data1 = []"
    using flight_empty_queue [OF w1(2)] data1 by (simp add: queue_of_def)
  have q': "queue_of w' c' = queue_of w1 c'" for c'
    using mo q1 flight_empty_queue [OF w1(2)] by (simp add: w'_def)
  have "same_requests w1 w'" "s_cams w' = s_cams w1" "map_ok (s_cameraData w')" "cameraData w' c \<noteq> None"
    using mo by (simp_all add: w'_def same_requests_def)
  from flight_same_queue [OF w1(2) this q'] have "flight w' c {}" .
  moreover have "history w' c' = history w c'" for c'
    using w1(3) q' by (simp add: history_def w'_def)
  moreover have "queue_of w' c = []" using q' flight_empty_queue [OF w1(2)] by simp
  moreover have "s_cams w' = s_cams w" "s_messages w' = []"
    using w1(4) msgs by (simp_all add: w'_def same_but_def)
  moreover have "cameraData w' c = Some (data1\<lparr>uvc_kernel := k2, uvc_video := video2\<rparr>)"
    using mo by (simp add: w'_def)
  moreover have "vd_queuedBuffers video2 = []" "\<not> vd_output video2"
    using releaseBuffers_video [OF rel] so(2,3) by simp_all
  moreover have "\<forall>r \<in> set (queue_of w c). rq_status (h_reqs w' r) =
       (if finished w r then rq_status (h_reqs w r) else RequestCancelled)"
    using st by (simp add: w'_def)
  ultimately show ?thesis using eq by (intro exI conjI) auto
qed


text \<open>A camera with nothing queued satisfies the invariant.\<close>

lemma uvc_inv_idle:
  assumes "map_ok (s_cameraData w)" "cameraData w c = Some data" "cd_queuedRequests data = []"
    "s_messages w = []" "vd_queuedBuffers (uvc_video data) = []" "\<not> vd_output (uvc_video data)"
    "can_complete w c \<longrightarrow> vd_cache (uvc_video data) \<noteq> None"
  shows "uvc_inv w c"
  using assms
  by (simp add: uvc_inv_def flight_def device_buffers_def slots_ok_def queue_of_def)

lemma uvc_inv_not_running:
  assumes "uvc_inv w c" "\<not> can_complete w c"
  obtains data where "cameraData w c = Some data" "cd_queuedRequests data = []" "s_messages w = []"
    "vd_queuedBuffers (uvc_video data) = []" "\<not> vd_output (uvc_video data)" "map_ok (s_cameraData w)"
proof -
  from assms obtain data where d: "cameraData w c = Some data" "flight w c (device_buffers data)"
    "\<not> vd_output (uvc_video data)" "s_messages w \<noteq> [] \<longrightarrow> can_complete w c" by (elim uvc_invE)
  have q: "queue_of w c = []" using d(2) assms(2) unfolding flight_def by blast
  then have "device_buffers data = {}" using d(2) unfolding flight_def by force
  then have "vd_queuedBuffers (uvc_video data) = []" by (simp add: device_buffers_def)
  moreover have "cd_queuedRequests data = []" using q d(1) by (simp add: queue_of_def)
  ultimately show ?thesis using that d assms(2) by (simp add: flight_def)
qed

section \<open>Steps of the system\<close>

text \<open>
  What the application may do to requests that are not in flight: anything that leaves the requests
  in flight and their buffers alone (creating, reusing and filling other requests).
\<close>

definition in_flight :: "'k uvc_system \<Rightarrow> nat \<Rightarrow> nat set" where
  "in_flight w c = set (queue_of w c) \<union> set (s_messages w)"

definition app_heap_change :: "'k uvc_system \<Rightarrow> nat \<Rightarrow> 'k uvc_system \<Rightarrow> bool" where
  "app_heap_change w c w' \<longleftrightarrow>
     (\<exists>reqs bufs. w' = w\<lparr>h_reqs := reqs, h_bufs := bufs\<rparr> \<and>
        (\<forall>r \<in> in_flight w c. reqs r = h_reqs w r \<and>
           (\<forall>b \<in> rq_pending (h_reqs w r). bufs b = h_bufs w b)))"

text \<open>
  The driver's promise: a buffer it returns was queued with that index, and it reports no more
  planes than there can be.
\<close>

definition driver_promise :: "'k uvc_env \<Rightarrow> 'k UVCCameraData \<Rightarrow> bool" where
  "driver_promise env data \<longleftrightarrow>
     (\<forall>k' buf. ioctl_dqbuf (env_driver env) (uvc_kernel data) (vd_memoryType (uvc_video data)) = (k', Inr buf) \<longrightarrow>
        map_of (vd_queuedBuffers (uvc_video data)) (unat (vb_index buf)) \<noteq> None \<and>
        unat (vb_length buf) \<le> VIDEO_MAX_PLANES)"

inductive uvc_step :: "'k uvc_env \<Rightarrow> nat \<Rightarrow> 'k uvc_system \<Rightarrow> 'k uvc_system \<Rightarrow> bool"
  for env :: "'k uvc_env" and c :: nat where
  app_prepare: "app_heap_change w c w' \<Longrightarrow> uvc_step env c w w'"
| app_queue: "cameraData w c = Some data \<Longrightarrow> posted w c (uvc_stream data) r \<Longrightarrow> r \<notin> in_flight w c \<Longrightarrow>
    Camera_queueRequest w c r = (w', ret) \<Longrightarrow> uvc_step env c w w'"
| app_start: "Camera_start (UVC_handler env) w c controls = Some (w', ret) \<Longrightarrow> uvc_step env c w w'"
| app_stop: "Camera_stop (UVC_handler env) w c = Some (w', ret) \<Longrightarrow> uvc_step env c w w'"
| app_acquire: "Camera_acquire tlock w c = (w', ret) \<Longrightarrow> uvc_step env c w w'"
| app_release: "Camera_release w c = (w', ret) \<Longrightarrow> uvc_step env c w w'"
| app_configure: "Camera_configure (UVC_handler env) w c config = Some (w', config', ret) \<Longrightarrow> uvc_step env c w w'"
| deliver: "s_messages w = r # ms \<Longrightarrow>
    PipelineHandler_queueRequest (vt_queueRequestDevice (UVC_handler env)) (w\<lparr>s_messages := ms\<rparr>) r = Some w' \<Longrightarrow>
    uvc_step env c w w'"
| buffer: "cameraData w c = Some data \<Longrightarrow> driver_promise env data \<Longrightarrow>
    UVC_bufferAvailable env w c = Some w' \<Longrightarrow> uvc_step env c w w'"

inductive_cases uvc_stepE: "uvc_step env c w w'"

lemma uvc_inv_heap:
  assumes "uvc_inv w c" "app_heap_change w c w'"
  shows "uvc_inv w' c \<and> history w' c = history w c"
proof -
  obtain reqs bufs where w': "w' = w\<lparr>h_reqs := reqs, h_bufs := bufs\<rparr>"
    and same: "\<And>r. r \<in> in_flight w c \<Longrightarrow> reqs r = h_reqs w r"
      "\<And>r b. r \<in> in_flight w c \<Longrightarrow> b \<in> rq_pending (h_reqs w r) \<Longrightarrow> bufs b = h_bufs w b"
    using assms(2) unfolding app_heap_change_def by blast
  from assms(1) obtain data where d: "cameraData w c = Some data" "flight w c (device_buffers data)"
    "slots_ok (uvc_video data)" "distinct (map snd (vd_queuedBuffers (uvc_video data)))"
    "\<not> vd_output (uvc_video data)" "distinct (queue_of w c @ s_messages w)"
    "\<forall>r \<in> set (s_messages w). posted w c (uvc_stream data) r"
    "s_messages w \<noteq> [] \<longrightarrow> can_complete w c" "can_complete w c \<longrightarrow> vd_cache (uvc_video data) \<noteq> None"
    by (elim uvc_invE)
  have cd: "cameraData w' = cameraData w" by (simp add: w' cameraData_def fun_eq_iff)
  have q: "queue_of w' c' = queue_of w c'" for c' by (simp add: queue_of_def cd)
  have req: "h_reqs w' r = h_reqs w r" if "r \<in> in_flight w c" for r using same that by (simp add: w')
  have ow: "owns w' r b" if "owns w r b" "r \<in> in_flight w c" for r b
    using same that by (simp add: owns_def w')
  have bp: "h_bufs w' b = h_bufs w b" if "owns w r b" "r \<in> in_flight w c" for r b
    using same that by (simp add: owns_def w')
  have fl: "r \<in> set (queue_of w c) \<Longrightarrow> r \<in> in_flight w c" "r \<in> set (s_messages w) \<Longrightarrow> r \<in> in_flight w c" for r
    by (simp_all add: in_flight_def)
  have wc: "s_messages w' = s_messages w" "can_complete w' c = can_complete w c" "s_signals w' = s_signals w"
    "s_cameraData w' = s_cameraData w" by (simp_all add: w' can_complete_def)
  have flight: "flight w' c (device_buffers data)"
    unfolding flight_def q cd wc
  proof (intro conjI ballI allI impI)
    fix b assume "b \<in> device_buffers data"
    then show "\<exists>r \<in> set (queue_of w c). owns w' r b" using d(2) ow fl(1) unfolding flight_def by blast
  next
    fix r assume r: "r \<in> set (queue_of w c)"
    show "rq_camera (h_reqs w' r) = c" using d(2) r req [OF fl(1) [OF r]] unfolding flight_def by simp
    show "finished w' r \<and> rq_pending (h_reqs w' r) = {} \<or> (\<exists>b \<in> device_buffers data. owns w' r b)"
    proof -
      from d(2) r consider "finished w r" "rq_pending (h_reqs w r) = {}" | b where "b \<in> device_buffers data" "owns w r b"
        unfolding flight_def by blast
      then show ?thesis using req [OF fl(1) [OF r]] ow [OF _ fl(1) [OF r]] by cases auto
    qed
  next
    fix r qs assume r: "queue_of w c = r # qs"
    then have "\<not> finished w r" using d(2) unfolding flight_def by blast
    then show "\<not> finished w' r" using r req [OF fl(1), of r] by simp
  qed (use d(2) in \<open>auto simp: flight_def\<close>)
  have "posted w' c (uvc_stream data) r" if "r \<in> set (s_messages w)" for r
    by (rule posted_cong [of _ _ w]) (use that d(7) req fl bp in blast)+
  then have "uvc_inv w' c"
    unfolding uvc_inv_def using d flight by (intro exI [of _ data]) (simp add: cd q wc)
  then show ?thesis using q wc by (simp add: history_def)
qed

lemma uvc_inv_queue:
  assumes "uvc_inv w c" "cameraData w c = Some data" "posted w c (uvc_stream data) r" "r \<notin> in_flight w c"
    "Camera_queueRequest w c r = (w', ret)"
  shows "uvc_inv w' c \<and> history w' c = history w c"
proof (cases "w' = w")
  case False
  then have w': "w' = invokeQueued w r" and run: "cp_state (s_cams w c) = CameraRunning"
    using assms(5) by (auto simp: Camera_queueRequest_def Let_def split: if_splits option.splits)
  have ow: "owns w' r' b = owns w r' b" for r' b by (simp add: w' invokeQueued_def owns_def)
  then have po: "posted w' c s r' = posted w c s r'" for s r'
    by (simp add: posted_def) (simp add: w' invokeQueued_def)
  have s: "cameraData w' = cameraData w" "s_cameraData w' = s_cameraData w" "s_messages w' = s_messages w @ [r]"
    "can_complete w' c = can_complete w c" "queue_of w' c = queue_of w c" "h_reqs w' = h_reqs w" "s_signals w' = s_signals w"
    by (simp_all add: w' invokeQueued_def can_complete_def)
  have "can_complete w c" using run by (simp add: can_complete_def)
  with assms(1-4) have "uvc_inv w' c"
    unfolding uvc_inv_def flight_def by (auto simp: s ow po in_flight_def)
  then show ?thesis using s by (simp add: history_def)
qed (use assms in simp)


lemma map_erase_snd:
  assumes "distinct (map snd m)" "map_of m k = Some v" "map_ok m"
  shows "snd ` set (map_erase k m) = snd ` set m - {v}" "distinct (map snd (map_erase k m))"
proof -
  have kv: "(k, v) \<in> set m" by (rule map_of_SomeD [OF assms(2)])
  have "k' = k" if "(k', v) \<in> set m" for k'
  proof -
    have "inj_on snd (set m)" using assms(1) by (simp add: distinct_map)
    from inj_onD [OF this _ that kv] show ?thesis by simp
  qed
  note keys = this
  have vals: "v' = v" if "(k, v') \<in> set m" for v'
  proof -
    have "distinct (map fst m)" using assms(3) by (simp add: map_ok_def strict_sorted_iff)
    from map_of_is_SomeI [OF this that] show ?thesis using assms(2) by simp
  qed
  show "snd ` set (map_erase k m) = snd ` set m - {v}"
  proof (intro set_eqI iffI)
    fix x assume "x \<in> snd ` set (map_erase k m)"
    then obtain k' where "(k', x) \<in> set m" "k' \<noteq> k" by (auto simp: set_map_erase)
    then show "x \<in> snd ` set m - {v}" using keys by force
  next
    fix x assume "x \<in> snd ` set m - {v}"
    then obtain k' where "(k', x) \<in> set m" "x \<noteq> v" by auto
    then have "(k', x) \<in> set (map_erase k m)" using vals by (auto simp: set_map_erase)
    then show "x \<in> snd ` set (map_erase k m)" by force
  qed
  show "distinct (map snd (map_erase k m))"
    unfolding map_erase_def by (rule distinct_map_filter [OF assms(1)])
qed

lemma dequeueBuffer_video:
  assumes "V4L2VideoDevice_dequeueBuffer K k video h = Some (k', video', h', r)"
  shows "vd_output video' = vd_output video" "vd_cache video \<noteq> None \<Longrightarrow> vd_cache video' \<noteq> None"
    "r = None \<Longrightarrow> video' = video \<and> h' = h"
    "r = Some b \<Longrightarrow> \<exists>i buf. map_of (vd_queuedBuffers video) i = Some b \<and>
       vd_queuedBuffers video' = map_erase i (vd_queuedBuffers video) \<and>
       h' = upd_buf h b (\<lambda>fb. fb\<lparr>fb_metadata := dqbuf_metadata video buf\<rparr>)"
proof -
  obtain k1 rep where k1: "ioctl_dqbuf K k (vd_memoryType video) = (k1, rep)" by fastforce
  have "vd_output video' = vd_output video \<and> (vd_cache video \<noteq> None \<longrightarrow> vd_cache video' \<noteq> None) \<and>
    (r = None \<longrightarrow> video' = video \<and> h' = h) \<and>
    (r = Some b \<longrightarrow> (\<exists>i buf. map_of (vd_queuedBuffers video) i = Some b \<and>
       vd_queuedBuffers video' = map_erase i (vd_queuedBuffers video) \<and>
       h' = upd_buf h b (\<lambda>fb. fb\<lparr>fb_metadata := dqbuf_metadata video buf\<rparr>)))"
  proof (cases rep)
    case (Inl e)
    then show ?thesis using assms k1 by (simp add: V4L2VideoDevice_dequeueBuffer_def)
  next
    case (Inr buf)
    let ?i = "unat (vb_index buf)"
    obtain cache cache' b' where c: "vd_cache video = Some cache" "V4L2BufferCache_put cache ?i = Some cache'"
      "map_of (vd_queuedBuffers video) ?i = Some b'"
      using assms k1 Inr by (auto simp: V4L2VideoDevice_dequeueBuffer_def Let_def split: option.splits)
    have m: "dqbuf_metadata (video\<lparr>vd_cache := x, vd_queuedBuffers := y\<rparr>) buf = dqbuf_metadata video buf"
      "dqbuf_metadata (video\<lparr>vd_cache := x, vd_queuedBuffers := y, vd_notifier := z\<rparr>) buf = dqbuf_metadata video buf"
      for x y z by (simp_all add: dqbuf_metadata_def dqbuf_planes_def)
    have "r = Some b'" "vd_output video' = vd_output video" "vd_cache video' = Some cache'"
      "vd_queuedBuffers video' = map_erase ?i (vd_queuedBuffers video)"
      "h' = upd_buf h b' (\<lambda>fb. fb\<lparr>fb_metadata := dqbuf_metadata video buf\<rparr>)"
      using assms k1 Inr c by (auto simp: V4L2VideoDevice_dequeueBuffer_def Let_def m split: if_splits)
    with c show ?thesis by auto
  qed
  then show "vd_output video' = vd_output video" "vd_cache video \<noteq> None \<Longrightarrow> vd_cache video' \<noteq> None"
    "r = None \<Longrightarrow> video' = video \<and> h' = h"
    "r = Some b \<Longrightarrow> \<exists>i buf. map_of (vd_queuedBuffers video) i = Some b \<and>
       vd_queuedBuffers video' = map_erase i (vd_queuedBuffers video) \<and>
       h' = upd_buf h b (\<lambda>fb. fb\<lparr>fb_metadata := dqbuf_metadata video buf\<rparr>)"
    by simp_all
qed

lemma uvc_inv_buffer:
  fixes w :: "'k uvc_system"
  assumes inv: "uvc_inv w c" and data0: "cameraData w c = Some data" and promise: "driver_promise env data"
  shows "\<exists>w'. UVC_bufferAvailable env w c = Some w' \<and> uvc_inv w' c \<and> history w' c = history w c"
proof -
  from inv data0 have d: "flight w c (device_buffers data)"
    "slots_ok (uvc_video data)" "distinct (map snd (vd_queuedBuffers (uvc_video data)))"
    "\<not> vd_output (uvc_video data)" "distinct (queue_of w c @ s_messages w)"
    "\<forall>r \<in> set (s_messages w). posted w c (uvc_stream data) r"
    "s_messages w \<noteq> [] \<longrightarrow> can_complete w c" "can_complete w c \<longrightarrow> vd_cache (uvc_video data) \<noteq> None"
    by (auto simp: uvc_inv_def)
  have mo: "map_ok (s_cameraData w)" using d(1) by (simp add: flight_def)
  have mq: "map_ok (vd_queuedBuffers (uvc_video data))" using d(2) by (simp add: slots_ok_def)
  obtain k1 video w1 ob where dq: "V4L2VideoDevice_dequeueBuffer (env_driver env) (uvc_kernel data) (uvc_video data) w
      = Some (k1, video, w1, ob)"
  proof (cases "ioctl_dqbuf (env_driver env) (uvc_kernel data) (vd_memoryType (uvc_video data))")
    case (Pair k1 rep)
    show ?thesis
    proof (cases rep)
      case (Inl e)
      then show ?thesis using Pair that by (simp add: V4L2VideoDevice_dequeueBuffer_def)
    next
      case (Inr buf)
      then obtain b where b: "map_of (vd_queuedBuffers (uvc_video data)) (unat (vb_index buf)) = Some b"
        "unat (vb_length buf) \<le> VIDEO_MAX_PLANES" using promise Pair unfolding driver_promise_def by blast
      then obtain cache where "vd_cache (uvc_video data) = Some cache" "unat (vb_index buf) < length (bc_entries cache)"
        using d(2) by (force simp: slots_ok_def dest: map_of_SomeD)
      then show ?thesis using Pair Inr b that
        by (auto simp: V4L2VideoDevice_dequeueBuffer_def V4L2BufferCache_put_def Let_def)
    qed
  qed
  note dv = dequeueBuffer_video [OF dq]
  have sv: "slots_ok video" by (rule slots_ok_dequeueBuffer [OF dq d(2)])
  let ?data = "data\<lparr>uvc_kernel := k1, uvc_video := video\<rparr>"
  let ?w = "set_cameraData w1 c ?data"
  show ?thesis
  proof (cases ob)
    case None
    then have v: "video = uvc_video data" "w1 = w" using dv(3) by simp_all
    have eq: "UVC_bufferAvailable env w c = Some ?w"
      using data0 dq None by (simp add: UVC_bufferAvailable_def)
    have q: "queue_of ?w c = queue_of w c" using mo data0 v by (simp add: queue_of_def)
    have sr: "same_requests w ?w" using v by (simp add: same_requests_def)
    have "flight ?w c (device_buffers data)"
      by (rule flight_same_queue [OF d(1) sr]) (use v mo q in simp_all)
    then have "uvc_inv ?w c"
      unfolding uvc_inv_def using d sv v mo q posted_same [OF sr]
      by (intro exI [of _ ?data]) (simp add: device_buffers_def can_complete_def)
    moreover have "history ?w c = history w c" using q v by (simp add: history_def)
    ultimately show ?thesis using eq by blast
  next
    case (Some b)
    then obtain i buf where b: "map_of (vd_queuedBuffers (uvc_video data)) i = Some b"
      "vd_queuedBuffers video = map_erase i (vd_queuedBuffers (uvc_video data))"
      "w1 = upd_buf w b (\<lambda>fb. fb\<lparr>fb_metadata := dqbuf_metadata (uvc_video data) buf\<rparr>)"
      using dv(4) by blast
    have B: "device_buffers ?data = device_buffers data - {b}" "distinct (map snd (vd_queuedBuffers video))"
      using map_erase_snd [OF d(3) b(1) mq] by (simp_all add: device_buffers_def b(2))
    have bB: "b \<in> device_buffers data"
      using map_of_SomeD [OF b(1)] by (force simp: device_buffers_def)
    have mo1: "map_ok (s_cameraData w1)" using mo by (simp add: b(3))
    have ow: "owns ?w r b' = owns w r b'" for r b' by (simp add: owns_def b(3))
    have q: "queue_of ?w c = queue_of w c" using mo1 data0 by (simp add: queue_of_def)
    have fl: "flight ?w c (device_buffers data)"
    proof -
      have "can_complete ?w c = can_complete w c" "h_reqs ?w = h_reqs w" by (simp_all add: can_complete_def b(3))
      moreover have "map_ok (s_cameraData ?w)" "cameraData ?w c \<noteq> None" using mo1 by simp_all
      ultimately show ?thesis using d(1) unfolding flight_def q ow by simp
    qed
    from flight_bufferReady [OF fl bB] obtain w' r where
      w': "UVC_bufferReady ?w b = Some w'" "flight w' c (device_buffers data - {b})"
      "\<forall>c'. history w' c' = history ?w c'" "same_but ?w w' c {r} {b}" "owns ?w r b"
      "r \<in> set (queue_of ?w c)" "set (queue_of w' c) \<subseteq> set (queue_of ?w c)" by blast
    have eq: "UVC_bufferAvailable env w c = Some w'"
      using data0 dq Some w'(1) by (simp add: UVC_bufferAvailable_def)
    obtain q' where data': "cameraData w' c = Some (?data\<lparr>cd_queuedRequests := q'\<rparr>)"
      using w'(4) mo1 unfolding same_but_def by auto
    have rm: "r \<notin> set (s_messages w)" using d(5) w'(6) q by auto
    have "posted w' c (uvc_stream data) r'" if r': "r' \<in> set (s_messages w)" for r'
    proof -
      have "r' \<noteq> r" using r' rm by blast
      have po: "posted w c (uvc_stream data) r'" using d(6) r' by blast
      have "posted ?w c (uvc_stream data) r'"
        using po unfolding posted_def ow by (auto simp: b(3))
      moreover have "b' \<noteq> b" if "owns ?w r' b'" for b' using that w'(5) owns_unique \<open>r' \<noteq> r\<close> by blast
      ultimately show ?thesis using w'(4) \<open>r' \<noteq> r\<close>
        by (intro posted_cong [of w' r' ?w]) (simp_all add: same_but_def)
    qed
    moreover have "distinct (queue_of w' c @ s_messages w)"
      using w'(2,7) d(5) q unfolding flight_def by auto
    moreover have "s_messages w' = s_messages w" "can_complete w' c = can_complete w c"
      using w'(4) by (simp_all add: same_but_def can_complete_def b(3))
    ultimately have "uvc_inv w' c"
      unfolding uvc_inv_def using w'(2) B sv data' d(4,7,8) dv(1,2)
      by (intro exI [of _ "?data\<lparr>cd_queuedRequests := q'\<rparr>"]) (simp add: device_buffers_def)
    moreover have "history w' c = history w c" using w'(3) q by (simp add: history_def b(3))
    ultimately show ?thesis using eq by blast
  qed
qed


section \<open>Operations of a camera that is not running\<close>

definition idle :: "'k uvc_system \<Rightarrow> nat \<Rightarrow> signal list \<Rightarrow> bool" where
  "idle w c sigs \<longleftrightarrow> map_ok (s_cameraData w) \<and> s_messages w = [] \<and> s_signals w = sigs \<and>
     (\<exists>data. cameraData w c = Some data \<and> cd_queuedRequests data = [] \<and>
        vd_queuedBuffers (uvc_video data) = [] \<and> \<not> vd_output (uvc_video data))"

lemma idle_of_inv: "uvc_inv w c \<Longrightarrow> \<not> can_complete w c \<Longrightarrow> idle w c (s_signals w)"
  by (erule (1) uvc_inv_not_running) (auto simp: idle_def)

lemma idle_to_inv:
  assumes "idle w c sigs" "can_complete w c \<longrightarrow> (\<forall>data. cameraData w c = Some data \<longrightarrow> vd_cache (uvc_video data) \<noteq> None)"
  shows "uvc_inv w c" "history w c = completed_by c sigs"
  using assms uvc_inv_idle by (auto simp: idle_def history_def queue_of_def)

lemma idle_history: "idle w c sigs \<Longrightarrow> history w c = completed_by c sigs"
  by (auto simp: idle_def history_def queue_of_def)

lemma idle_upd_cam: "idle (upd_cam w c f) c sigs = idle w c sigs"
  by (simp add: idle_def)

lemma idle_set_data:
  assumes "idle w c sigs" "cameraData w c = Some data" "vd_queuedBuffers video = []" "\<not> vd_output video"
  shows "idle (set_cameraData w c (data\<lparr>uvc_kernel := k, uvc_video := video\<rparr>)) c sigs"
  using assms by (auto simp: idle_def)

lemma idle_kernel:
  assumes "idle w c sigs" "cameraData w c = Some data"
  shows "idle (set_cameraData w c (data\<lparr>uvc_kernel := k\<rparr>)) c sigs"
  using assms by (auto simp: idle_def)

lemma idle_cong:
  "s_cameraData w' = s_cameraData w \<Longrightarrow> s_messages w' = s_messages w \<Longrightarrow> s_signals w' = s_signals w \<Longrightarrow>
   idle w' c sigs = idle w c sigs"
  using cameraData_cong [of w' w] by (simp add: idle_def)

lemma idle_lock:
  assumes "PipelineHandler_lock tlock w = (w', ok)"
  shows "idle w' c sigs = idle w c sigs" "s_cams w' = s_cams w"
proof -
  have "s_cameraData w' = s_cameraData w" "s_messages w' = s_messages w" "s_signals w' = s_signals w"
    "s_cams w' = s_cams w"
    using assms by (auto simp: PipelineHandler_lock_def PipelineHandler_unlock_def Let_def split: prod.splits if_splits)
  note f = this
  show "idle w' c sigs = idle w c sigs" by (rule idle_cong [OF f(1-3)])
  show "s_cams w' = s_cams w" by (rule f(4))
qed

lemma idle_unlock: "idle (PipelineHandler_unlock w) c sigs = idle w c sigs"
  by (rule idle_cong) (simp_all add: PipelineHandler_unlock_def)

lemma idle_validate:
  assumes "UVC_validate env w c config = Some (w', config', st)" "idle w c sigs"
  shows "idle w' c sigs \<and> s_cams w' = s_cams w"
  using assms
  by (auto simp: UVC_validate_def Let_def idle_kernel split: if_splits option.splits prod.splits sum.splits)

lemma idle_configure:
  assumes "UVC_configure env w c config = Some (w', config', ret)" "idle w c sigs"
  shows "idle w' c sigs \<and> s_cams w' = s_cams w"
  using assms
  by (auto simp: UVC_configure_def Let_def idle_kernel split: if_splits option.splits prod.splits sum.splits list.splits)

lemma idle_configure_streams:
  "configure_streams w c cfgs = Some w' \<Longrightarrow> idle w c sigs \<Longrightarrow>
   idle w' c sigs \<and> cp_state (s_cams w' c) = cp_state (s_cams w c)"
proof (induction w c cfgs rule: configure_streams.induct)
  case (2 w c cfg cfgs)
  then obtain stream where s: "sc_stream cfg = Some stream" by (auto split: option.splits)
  let ?w = "upd_cam (w\<lparr>s_streams := (s_streams w)(stream := cfg)\<rparr>) c
      (\<lambda>d. d\<lparr>cp_activeStreams := insert stream (cp_activeStreams d)\<rparr>)"
  have "idle ?w c sigs" using 2(3) idle_cong [of ?w w c sigs] by simp
  with 2 s show ?case by (simp add: Let_def)
qed simp

lemma requestBuffers_importBuffers:
  assumes "V4L2VideoDevice_importBuffers K k video count = (k', video', ret)"
  shows "vd_queuedBuffers video' = vd_queuedBuffers video" "vd_output video' = vd_output video"
    "ret = None \<Longrightarrow> vd_cache video' \<noteq> None"
  using assms by (auto simp: V4L2VideoDevice_importBuffers_def Let_def split: if_splits prod.splits option.splits)

lemma streamOn_video:
  assumes "V4L2VideoDevice_streamOn K k video = (k', video', ret)"
  shows "vd_queuedBuffers video' = vd_queuedBuffers video" "vd_output video' = vd_output video"
    "vd_cache video' = vd_cache video"
  using assms by (auto simp: V4L2VideoDevice_streamOn_def split: prod.splits option.splits)

lemma idle_start:
  assumes "UVC_start env w c controls = Some (w', ret)" "idle w c sigs"
  shows "idle w' c sigs \<and> s_cams w' = s_cams w \<and>
    (ret = None \<longrightarrow> (\<exists>data. cameraData w' c = Some data \<and> vd_cache (uvc_video data) \<noteq> None))"
proof -
  obtain data where d: "cameraData w c = Some data" "vd_queuedBuffers (uvc_video data) = []" "\<not> vd_output (uvc_video data)"
    "map_ok (s_cameraData w)" using assms(2) by (auto simp: idle_def)
  obtain k1 v1 r1 where i: "V4L2VideoDevice_importBuffers (env_driver env) (uvc_kernel data) (uvc_video data)
      (sc_bufferCount (s_streams w (uvc_stream data))) = (k1, v1, r1)" by (metis prod_cases3)
  obtain k2 v2 r2 where s: "V4L2VideoDevice_streamOn (env_driver env) k1 v1 = (k2, v2, r2)" by (metis prod_cases3)
  obtain k3 v3 r3 where r: "V4L2VideoDevice_releaseBuffers (env_driver env) k2 v2 = (k3, v3, r3)" by (metis prod_cases3)
  note iv = requestBuffers_importBuffers [OF i] and sv = streamOn_video [OF s] and rv = releaseBuffers_video [OF r]
  have "\<exists>k v. w' = set_cameraData w c (data\<lparr>uvc_kernel := k, uvc_video := v\<rparr>) \<and>
      vd_queuedBuffers v = [] \<and> \<not> vd_output v \<and> (ret = None \<longrightarrow> vd_cache v \<noteq> None)"
  proof (cases r1)
    case (Some e)
    with assms(1) d i iv show ?thesis
      by (intro exI [of _ k1] exI [of _ v1]) (auto simp: UVC_start_def)
  next
    case n1: None
    show ?thesis
    proof (cases r2)
      case (Some e)
      with assms(1) d i s r n1 iv sv rv show ?thesis
        by (intro exI [of _ k3] exI [of _ v3]) (auto simp: UVC_start_def)
    next
      case None
      with assms(1) d i s n1 iv sv show ?thesis
        by (intro exI [of _ k2] exI [of _ v2]) (auto simp: UVC_start_def)
    qed
  qed
  then obtain k v where w': "w' = set_cameraData w c (data\<lparr>uvc_kernel := k, uvc_video := v\<rparr>)"
    "vd_queuedBuffers v = []" "\<not> vd_output v" "ret = None \<longrightarrow> vd_cache v \<noteq> None" by blast
  show ?thesis using idle_set_data [OF assms(2) d(1) w'(2,3)] w' d(4) by simp
qed


lemma uvc_inv_idle_ops:
  fixes w :: "'k uvc_system"
  assumes inv: "uvc_inv w c"
  shows "Camera_start (UVC_handler env) w c controls = Some (w', ret) \<Longrightarrow> uvc_inv w' c \<and> history w' c = history w c"
    and "Camera_acquire tlock w c = (w', ret) \<Longrightarrow> uvc_inv w' c \<and> history w' c = history w c"
    and "Camera_release w c = (w', ret) \<Longrightarrow> uvc_inv w' c \<and> history w' c = history w c"
    and "Camera_configure (UVC_handler env) w c config = Some (w', config', ret) \<Longrightarrow> uvc_inv w' c \<and> history w' c = history w c"
proof -
  have idle: "idle w c (s_signals w)" "history w c = completed_by c (s_signals w)" "s_messages w = []"
    if "\<not> can_complete w c"
    using idle_of_inv [OF inv that] idle_history by (auto simp: idle_def)
  have fin: "uvc_inv w1 c \<and> history w1 c = history w c"
    if "\<not> can_complete w c" "idle w1 c (s_signals w)"
      "can_complete w1 c \<longrightarrow> (\<forall>data. cameraData w1 c = Some data \<longrightarrow> vd_cache (uvc_video data) \<noteq> None)" for w1
    using idle_to_inv [OF that(2,3)] idle(2) [OF that(1)] by simp
  {
    assume a: "Camera_start (UVC_handler env) w c controls = Some (w', ret)"
    show "uvc_inv w' c \<and> history w' c = history w c"
    proof (cases "isAccessAllowed (s_cams w c) CameraConfigured False")
      case (Some e)
      with a inv show ?thesis by (simp add: Camera_start_def)
    next
      case None
      then have nc: "\<not> can_complete w c" by (simp add: can_complete_def)
      from a None idle(3) [OF nc] obtain w1 r1 where s: "UVC_start env w c controls = Some (w1, r1)"
        and w': "w' = (if r1 = None then upd_cam w1 c (\<lambda>d. Private_setState d CameraRunning) else w1)"
        by (auto simp: Camera_start_def invokeBlocking_def simp del: isAccessAllowed_None split: option.splits)
      from idle_start [OF s idle(1) [OF nc]] have i: "idle w1 c (s_signals w)" "s_cams w1 = s_cams w"
        "r1 = None \<longrightarrow> (\<exists>data. cameraData w1 c = Some data \<and> vd_cache (uvc_video data) \<noteq> None)" by blast+
      show ?thesis
        by (rule fin [OF nc]) (use i nc w' in \<open>auto simp: idle_upd_cam can_complete_def\<close>)
    qed
  next
    assume a: "Camera_acquire tlock w c = (w', ret)"
    show "uvc_inv w' c \<and> history w' c = history w c"
    proof (cases "isAccessAllowed (s_cams w c) CameraAvailable False")
      case (Some e)
      with a inv show ?thesis by (simp add: Camera_acquire_def)
    next
      case None
      then have nc: "\<not> can_complete w c" by (simp add: can_complete_def)
      obtain w1 ok where l: "PipelineHandler_lock tlock w = (w1, ok)" by fastforce
      have w': "w' = (if ok then upd_cam w1 c (\<lambda>d. Private_setState d CameraAcquired) else w1)"
        using a None l by (auto simp: Camera_acquire_def simp del: isAccessAllowed_None split: if_splits)
      show ?thesis
        by (rule fin [OF nc]) (use idle(1) [OF nc] idle_lock [OF l] nc w' in
          \<open>auto simp: idle_upd_cam can_complete_def Private_setState_def\<close>)
    qed
  next
    assume a: "Camera_release w c = (w', ret)"
    show "uvc_inv w' c \<and> history w' c = history w c"
    proof (cases "isAccessAllowed_range (s_cams w c) CameraAvailable CameraConfigured True")
      case (Some e)
      with a inv show ?thesis by (simp add: Camera_release_def)
    next
      case None
      then have nc: "\<not> can_complete w c" by (auto simp: can_complete_def)
      have w': "w' = upd_cam (PipelineHandler_unlock w) c (\<lambda>d. Private_setState d CameraAvailable)"
        using a None by (simp add: Camera_release_def del: isAccessAllowed_range_None)
      show ?thesis
        by (rule fin [OF nc]) (use idle(1) [OF nc] w' in
          \<open>auto simp: idle_upd_cam idle_unlock can_complete_def Private_setState_def\<close>)
    qed
  next
    assume a: "Camera_configure (UVC_handler env) w c config = Some (w', config', ret)"
    show "uvc_inv w' c \<and> history w' c = history w c"
    proof (cases "isAccessAllowed_range (s_cams w c) CameraAcquired CameraConfigured False")
      case (Some e)
      with a inv show ?thesis by (simp add: Camera_configure_def)
    next
      case None
      then have nc: "\<not> can_complete w c" by (auto simp: can_complete_def)
      obtain w1 config1 st where v: "UVC_validate env w c config = Some (w1, config1, st)"
        using a None by (auto simp: Camera_configure_def simp del: isAccessAllowed_range_None split: option.splits)
      note i1 = idle_validate [OF v idle(1) [OF nc]]
      show ?thesis
      proof (cases "st = Valid")
        case False
        then have "w' = w1" using a None v by (simp add: Camera_configure_def del: isAccessAllowed_range_None)
        then show ?thesis by (intro fin [OF nc]) (use i1 nc in \<open>simp_all add: can_complete_def\<close>)
      next
        case True
        have m1: "s_messages w1 = []" using i1 by (simp add: idle_def)
        obtain w2 config2 r2 where c2: "UVC_configure env w1 c config1 = Some (w2, config2, r2)"
          using a None v True m1
          by (auto simp: Camera_configure_def invokeBlocking_def simp del: isAccessAllowed_range_None split: option.splits)
        note i2 = idle_configure [OF c2 i1 [THEN conjunct1]]
        show ?thesis
        proof (cases r2)
          case (Some e)
          then have "w' = w2" using a None v True m1 c2
            by (simp add: Camera_configure_def invokeBlocking_def del: isAccessAllowed_range_None)
          then show ?thesis by (intro fin [OF nc]) (use i1 i2 nc in \<open>simp_all add: can_complete_def\<close>)
        next
          case r2: None
          obtain w3 where c3: "configure_streams (upd_cam w2 c (\<lambda>d. d\<lparr>cp_activeStreams := {}\<rparr>)) c (cc_config config2) = Some w3"
            and w': "w' = upd_cam w3 c (\<lambda>d. Private_setState d CameraConfigured)"
            using a None v True m1 c2 r2
            by (auto simp: Camera_configure_def invokeBlocking_def simp del: isAccessAllowed_range_None split: option.splits)
          have "idle w3 c (s_signals w)" using idle_configure_streams [OF c3] i2 by (simp add: idle_upd_cam)
          then show ?thesis
            by (intro fin [OF nc]) (simp_all add: w' idle_upd_cam can_complete_def Private_setState_def)
        qed
      qed
    qed
  }
qed


section \<open>The handler keeps the contract\<close>

definition driver_stops :: "'k uvc_env \<Rightarrow> bool" where
  "driver_stops env \<longleftrightarrow> (\<forall>k. snd (ioctl_streamoff (env_driver env) k) = None)"

interpretation uvc: pipeline_contract "UVC_handler env" c "\<lambda>w. uvc_inv w c \<and> driver_stops env" for env c
proof
  fix w :: "'a uvc_system" and r ms
  assume i: "uvc_inv w c \<and> driver_stops env" and m: "s_messages w = r # ms"
  from uvc_inv_deliver [OF conjunct1 [OF i] m, of env] i
  show "\<exists>w'. PipelineHandler_queueRequest (vt_queueRequestDevice (UVC_handler env)) (w\<lparr>s_messages := ms\<rparr>) r = Some w' \<and>
      (uvc_inv w' c \<and> driver_stops env) \<and> s_messages w' = ms \<and> s_cams w' = s_cams w \<and> s_signals w' = s_signals w \<and>
      (queue_of w' c = queue_of w c @ [r] \<or> queue_of w' c = queue_of w c) \<and> same_requests w w'"
    by blast
next
  fix w :: "'a uvc_system"
  assume i: "uvc_inv w c \<and> driver_stops env" and m: "s_messages w = []"
  have off: "\<And>k. snd (ioctl_streamoff (env_driver env) k) = None" using i by (simp add: driver_stops_def)
  from UVC_stop_all [OF conjunct1 [OF i] m off] obtain w2 data where
    w2: "UVC_stop env w c = Some w2" "queue_of w2 c = []" "s_messages w2 = []" "s_cams w2 = s_cams w"
    "\<forall>c'. history w2 c' = history w c'" "cameraData w2 c = Some data"
    "vd_queuedBuffers (uvc_video data) = []" "flight w2 c {}" "\<not> vd_output (uvc_video data)"
    "\<forall>r \<in> set (queue_of w c). rq_status (h_reqs w2 r) =
       (if finished w r then rq_status (h_reqs w r) else RequestCancelled)" by blast
  have "uvc_inv (upd_cam w2 c (\<lambda>d. Private_setState d CameraConfigured)) c"
    by (rule uvc_inv_idle [where data = data])
      (use w2 in \<open>simp_all add: flight_def queue_of_def can_complete_def Private_setState_def\<close>)
  then show "\<exists>w'. vt_stop (UVC_handler env) w c = Some w' \<and> queue_of w' c = [] \<and> s_messages w' = [] \<and>
      s_cams w' = s_cams w \<and> history w' c = history w c \<and>
      (uvc_inv (upd_cam w' c (\<lambda>d. Private_setState d CameraConfigured)) c \<and> driver_stops env) \<and>
      (\<forall>r \<in> set (queue_of w c). rq_status (h_reqs w' r) =
         (if finished w r then rq_status (h_reqs w r) else RequestCancelled))"
    using w2 i by auto
next
  fix w :: "'a uvc_system"
  assume i: "uvc_inv w c \<and> driver_stops env" and run: "cp_state (s_cams w c) = CameraRunning"
  have "uvc_inv (upd_cam w c (\<lambda>d. Private_setState d CameraStopping)) c"
    by (rule uvc_inv_upd_cam [OF conjunct1 [OF i]]) (use run in \<open>simp_all add: can_complete_def Private_setState_def\<close>)
  then show "uvc_inv (upd_cam w c (\<lambda>d. Private_setState d CameraStopping)) c \<and> driver_stops env" using i by blast
qed

lemma uvc_step_inv:
  assumes "uvc_step env c w w'" "uvc_inv w c" "driver_stops env"
  shows "uvc_inv w' c \<and> prefix (history w c) (history w' c)"
  using assms(1)
proof cases
  case app_prepare
  then show ?thesis using uvc_inv_heap [OF assms(2)] by simp
next
  case (app_queue data r ret)
  then show ?thesis using uvc_inv_queue [OF assms(2)] by simp
next
  case (app_start controls ret)
  then show ?thesis using uvc_inv_idle_ops(1) [OF assms(2)] by simp
next
  case (app_stop ret)
  show ?thesis
  proof (cases "isAccessAllowed (s_cams w c) CameraRunning False")
    case (Some e)
    then have "w' = w" using app_stop by (simp add: Camera_stop_def)
    then show ?thesis using assms(2) by simp
  next
    case None
    then have "cp_state (s_cams w c) = CameraRunning" "\<not> cp_disconnected (s_cams w c)" by simp_all
    from uvc.stop_completes [OF conjI [OF assms(2,3)] this] app_stop show ?thesis
      by (auto simp: history_def prefix_def)
  qed
next
  case (app_acquire tlock ret)
  then show ?thesis using uvc_inv_idle_ops(2) [OF assms(2)] by simp
next
  case (app_release ret)
  then show ?thesis using uvc_inv_idle_ops(3) [OF assms(2)] by simp
next
  case (app_configure config config' ret)
  then show ?thesis using uvc_inv_idle_ops(4) [OF assms(2)] by simp
next
  case (deliver r ms)
  from uvc_inv_deliver [OF assms(2) deliver(1), of env] deliver(2) show ?thesis
    by (auto simp: history_def prefix_def)
next
  case (buffer data)
  from uvc_inv_buffer [OF assms(2) buffer(1,2)] buffer(3) show ?thesis by auto
qed

section \<open>Examples\<close>

text \<open>
  A camera that streams: request 1 is with the device on buffer 7, request 2 is posted on buffer 9.
\<close>

definition example_env :: "u32 list uvc_env" where
  "example_env =
     \<lparr>env_driver = example_kernel, env_processControls = (\<lambda>k ctrls. (k, None)),
      env_toV4L2PixelFormat = (\<lambda>p. pf_fourcc p), env_formats = (\<lambda>k. []),
      env_tryFormat = (\<lambda>k f s. (k, Inr (64, 4096))), env_setFormat = (\<lambda>k f s. (k, Inr (f, s)))\<rparr>"

definition example_uvc_request :: "nat \<Rightarrow> Request" where
  "example_uvc_request b = (Request_new [] (\<lambda>_ _. True) 0 0)\<lparr>rq_bufferMap := [(0, b)], rq_pending := {b}\<rparr>"

definition example_uvc_data :: "u32 list UVCCameraData" where
  "example_uvc_data =
     \<lparr>cd_queuedRequests = [1], cd_controlInfo = \<lparr>im_ptr = 1, im_map = [], im_idmap = []\<rparr>,
      cd_properties = ControlList_of_idmap [] None, cd_requestSequence = 1,
      uvc_kernel = [0], uvc_video = example_video, uvc_stream = 0\<rparr>"

definition example_uvc :: "u32 list uvc_system" where
  "example_uvc =
     \<lparr>h_bufs = (\<lambda>b. (FrameBuffer_new [\<lparr>pl_fd = 5, pl_length = 64\<rparr>])
                    \<lparr>fb_request := (if b = 7 then Some 1 else if b = 9 then Some 2 else None)\<rparr>),
      h_reqs = (\<lambda>r. example_uvc_request (if r = 1 then 7 else 9)),
      s_cams = (\<lambda>_. (CameraPrivate_new ''uvc'' [0])\<lparr>cp_state := CameraRunning, cp_activeStreams := {0}\<rparr>),
      s_streams = (\<lambda>_. StreamConfiguration_new []), s_mediaDevices = [], s_cameras = [0],
      s_cameraData = [(0, example_uvc_data)], s_messages = [2], s_signals = []\<rparr>"

lemma example_uvc_inv: "uvc_inv example_uvc 0"
  unfolding uvc_inv_def
proof (intro exI conjI)
  have q: "queue_of example_uvc 0 = [1]"
    by (simp add: queue_of_def cameraData_def example_uvc_def example_uvc_data_def)
  show "cameraData example_uvc 0 = Some example_uvc_data"
    by (simp add: cameraData_def example_uvc_def)
  have o: "owns example_uvc 1 7" "owns example_uvc 2 9"
    by (simp_all add: owns_def example_uvc_def example_uvc_request_def Request_new_def)
  have B: "device_buffers example_uvc_data = {7}"
    by (simp add: device_buffers_def example_uvc_data_def example_video_def)
  show "flight example_uvc 0 (device_buffers example_uvc_data)"
    unfolding flight_def q B using o(1)
    by (simp add: cameraData_def can_complete_def owns_def)
      (simp add: example_uvc_def map_ok_def example_uvc_request_def Request_new_def)
  show "slots_ok (uvc_video example_uvc_data)" using example_slots_ok by (simp add: example_uvc_data_def)
  show "distinct (map snd (vd_queuedBuffers (uvc_video example_uvc_data)))"
    "\<not> vd_output (uvc_video example_uvc_data)"
    "can_complete example_uvc 0 \<longrightarrow> vd_cache (uvc_video example_uvc_data) \<noteq> None"
    by (simp_all add: example_uvc_data_def example_video_def)
  show "distinct (queue_of example_uvc 0 @ s_messages example_uvc)"
    unfolding q by (simp add: example_uvc_def)
  show "s_messages example_uvc \<noteq> [] \<longrightarrow> can_complete example_uvc 0"
    by (simp add: example_uvc_def can_complete_def)
  show "\<forall>r \<in> set (s_messages example_uvc). posted example_uvc 0 (uvc_stream example_uvc_data) r"
    using o(2) by (simp add: posted_def example_uvc_data_def)
      (simp add: example_uvc_def example_uvc_request_def Request_new_def FrameBuffer_new_def VIDEO_MAX_PLANES_def)
qed

lemma example_uvc_simps:
  "driver_stops example_env" "cp_state (s_cams example_uvc 0) = CameraRunning"
  "\<not> cp_disconnected (s_cams example_uvc 0)" "queue_of example_uvc 0 = [1]" "s_messages example_uvc = [2]"
  "s_signals example_uvc = []" "cameraData example_uvc 0 = Some example_uvc_data"
  by (simp_all add: driver_stops_def example_env_def example_kernel_def example_uvc_def CameraPrivate_new_def
      queue_of_def cameraData_def example_uvc_data_def)

lemma example_promise: "driver_promise example_env example_uvc_data"
  by (simp add: driver_promise_def example_env_def example_kernel_def example_uvc_data_def example_video_def
      example_vbuf_def VIDEO_MAX_PLANES_def)

section \<open>Properties\<close>

text \<open>
  C5. Stopping a running camera returns every request. The posted requests are delivered first (the
  device may drop some), then every queued request completes, in the order of the queue; those that
  were not finished are cancelled. The queue and the messages are empty, the camera is configured
  and the invariant holds. The driver is assumed to accept the end of streaming.
\<close>

theorem Camera_stop_completes_queued:
  assumes "uvc_inv w c" "driver_stops env"
    and "cp_state (s_cams w c) = CameraRunning" "\<not> cp_disconnected (s_cams w c)"
  shows "\<exists>w' rs. Camera_stop (UVC_handler env) w c = Some (w', None) \<and> uvc_inv w' c \<and>
    subseq rs (s_messages w) \<and> queue_of w' c = [] \<and> s_messages w' = [] \<and>
    cp_state (s_cams w' c) = CameraConfigured \<and>
    completed_by c (s_signals w') = completed_by c (s_signals w) @ queue_of w c @ rs \<and>
    (\<forall>r \<in> set (queue_of w c @ rs). finished w' r \<and>
       (\<not> finished w r \<longrightarrow> rq_status (h_reqs w' r) = RequestCancelled))"
  using uvc.stop_completes [of w c env] assms by blast

theorem Camera_stop_completes_queued_witness:
  "\<exists>w' rs. Camera_stop (UVC_handler example_env) example_uvc 0 = Some (w', None) \<and>
     completed_by 0 (s_signals w') = 1 # rs \<and> queue_of w' 0 = []"
  using Camera_stop_completes_queued [OF example_uvc_inv example_uvc_simps(1-3)]
  by (auto simp: example_uvc_simps)

text \<open>
  C4. In every state that a camera of the USB video handler reaches, whatever the application and
  the driver do in whatever order, the invariant holds: the pending requests of the queue are
  exactly the owners of the buffers the device holds, a finished request never waits at the head of
  the queue, and completed requests followed by the queue only ever grow at the end, so requests
  complete in the order in which they were delivered.
\<close>

theorem uvc_reachable_fifo:
  assumes "(uvc_step env c)\<^sup>*\<^sup>* w w'" "uvc_inv w c" "driver_stops env"
  shows "uvc_inv w' c \<and> prefix (history w c) (history w' c)"
  using assms(1)
proof (induction rule: rtranclp_induct)
  case base
  then show ?case using assms(2) by simp
next
  case (step w1 w2)
  then show ?case using uvc_step_inv [OF step(2) _ assms(3)] by (meson prefix_order.trans)
qed


theorem uvc_reachable_fifo_witness:
  "\<exists>w'. uvc_step example_env 0 example_uvc w' \<and> uvc_inv w' 0 \<and> prefix [1] (history w' 0)"
proof -
  obtain w' where w': "UVC_bufferAvailable example_env example_uvc 0 = Some w'"
    using uvc_inv_buffer [OF example_uvc_inv example_uvc_simps(7) example_promise] by blast
  then have "uvc_step example_env 0 example_uvc w'"
    by (rule uvc_step.buffer [OF example_uvc_simps(7) example_promise])
  moreover from this have "(uvc_step example_env 0)\<^sup>*\<^sup>* example_uvc w'" by blast
  from uvc_reachable_fifo [OF this example_uvc_inv example_uvc_simps(1)]
  have "uvc_inv w' 0 \<and> prefix [1] (history w' 0)"
    by (simp add: history_def example_uvc_simps)
  ultimately show ?thesis by blast
qed



end
