(* ===== verification/Formats.thy ===== *)
theory Formats
  imports Streams
begin

text \<open>
  The table of pixel formats: the constants that \<open>gen-formats.py\<close> makes of \<open>formats.yaml\<close>, the table of
  \<open>formats.cpp\<close> with strides and frame sizes, and the conversions between names, pixel formats and the formats
  of V4L2 (\<open>pixel_format.cpp\<close>, \<open>v4l2_pixelformat.cpp\<close>).
\<close>

section \<open>Character codes\<close>

definition fourcc_code :: "char \<Rightarrow> char \<Rightarrow> char \<Rightarrow> char \<Rightarrow> u32" where
  "fourcc_code a b c d = or (of_char a) (or (push_bit 8 (of_char b)) (or (push_bit 16 (of_char c)) (push_bit 24 (of_char d))))"

definition fourcc_mod_code :: "u64 \<Rightarrow> u64 \<Rightarrow> u64" where
  "fourcc_mod_code vendor val = or (push_bit 56 vendor) val"

section \<open>The generated constants\<close>

text \<open>The entries of \<open>formats.yaml\<close>: names with their attributes.\<close>

definition formats_yaml :: "(string \<times> (string \<times> string) list) list" where
  "formats_yaml =
    [(''R8'', [(''fourcc'', ''DRM_FORMAT_R8'')]),
     (''RGB565'', [(''fourcc'', ''DRM_FORMAT_RGB565'')]),
     (''RGB565_BE'', [(''fourcc'', ''DRM_FORMAT_RGB565''), (''big_endian'', ''true'')]),
     (''RGB888'', [(''fourcc'', ''DRM_FORMAT_RGB888'')]),
     (''BGR888'', [(''fourcc'', ''DRM_FORMAT_BGR888'')]),
     (''XRGB8888'', [(''fourcc'', ''DRM_FORMAT_XRGB8888'')]),
     (''XBGR8888'', [(''fourcc'', ''DRM_FORMAT_XBGR8888'')]),
     (''RGBX8888'', [(''fourcc'', ''DRM_FORMAT_RGBX8888'')]),
     (''BGRX8888'', [(''fourcc'', ''DRM_FORMAT_BGRX8888'')]),
     (''ARGB8888'', [(''fourcc'', ''DRM_FORMAT_ARGB8888'')]),
     (''ABGR8888'', [(''fourcc'', ''DRM_FORMAT_ABGR8888'')]),
     (''RGBA8888'', [(''fourcc'', ''DRM_FORMAT_RGBA8888'')]),
     (''BGRA8888'', [(''fourcc'', ''DRM_FORMAT_BGRA8888'')]),
     (''YUYV'', [(''fourcc'', ''DRM_FORMAT_YUYV'')]),
     (''YVYU'', [(''fourcc'', ''DRM_FORMAT_YVYU'')]),
     (''UYVY'', [(''fourcc'', ''DRM_FORMAT_UYVY'')]),
     (''VYUY'', [(''fourcc'', ''DRM_FORMAT_VYUY'')]),
     (''NV12'', [(''fourcc'', ''DRM_FORMAT_NV12'')]),
     (''NV21'', [(''fourcc'', ''DRM_FORMAT_NV21'')]),
     (''NV16'', [(''fourcc'', ''DRM_FORMAT_NV16'')]),
     (''NV61'', [(''fourcc'', ''DRM_FORMAT_NV61'')]),
     (''NV24'', [(''fourcc'', ''DRM_FORMAT_NV24'')]),
     (''NV42'', [(''fourcc'', ''DRM_FORMAT_NV42'')]),
     (''YUV420'', [(''fourcc'', ''DRM_FORMAT_YUV420'')]),
     (''YVU420'', [(''fourcc'', ''DRM_FORMAT_YVU420'')]),
     (''YUV422'', [(''fourcc'', ''DRM_FORMAT_YUV422'')]),
     (''MJPEG'', [(''fourcc'', ''DRM_FORMAT_MJPEG'')]),
     (''SRGGB8'', [(''fourcc'', ''DRM_FORMAT_SRGGB8'')]),
     (''SGRBG8'', [(''fourcc'', ''DRM_FORMAT_SGRBG8'')]),
     (''SGBRG8'', [(''fourcc'', ''DRM_FORMAT_SGBRG8'')]),
     (''SBGGR8'', [(''fourcc'', ''DRM_FORMAT_SBGGR8'')]),
     (''SRGGB10'', [(''fourcc'', ''DRM_FORMAT_SRGGB10'')]),
     (''SGRBG10'', [(''fourcc'', ''DRM_FORMAT_SGRBG10'')]),
     (''SGBRG10'', [(''fourcc'', ''DRM_FORMAT_SGBRG10'')]),
     (''SBGGR10'', [(''fourcc'', ''DRM_FORMAT_SBGGR10'')]),
     (''SRGGB12'', [(''fourcc'', ''DRM_FORMAT_SRGGB12'')]),
     (''SGRBG12'', [(''fourcc'', ''DRM_FORMAT_SGRBG12'')]),
     (''SGBRG12'', [(''fourcc'', ''DRM_FORMAT_SGBRG12'')]),
     (''SBGGR12'', [(''fourcc'', ''DRM_FORMAT_SBGGR12'')]),
     (''SRGGB16'', [(''fourcc'', ''DRM_FORMAT_SRGGB16'')]),
     (''SGRBG16'', [(''fourcc'', ''DRM_FORMAT_SGRBG16'')]),
     (''SGBRG16'', [(''fourcc'', ''DRM_FORMAT_SGBRG16'')]),
     (''SBGGR16'', [(''fourcc'', ''DRM_FORMAT_SBGGR16'')]),
     (''SRGGB10_CSI2P'', [(''fourcc'', ''DRM_FORMAT_SRGGB10''), (''mod'', ''MIPI_FORMAT_MOD_CSI2_PACKED'')]),
     (''SGRBG10_CSI2P'', [(''fourcc'', ''DRM_FORMAT_SGRBG10''), (''mod'', ''MIPI_FORMAT_MOD_CSI2_PACKED'')]),
     (''SGBRG10_CSI2P'', [(''fourcc'', ''DRM_FORMAT_SGBRG10''), (''mod'', ''MIPI_FORMAT_MOD_CSI2_PACKED'')]),
     (''SBGGR10_CSI2P'', [(''fourcc'', ''DRM_FORMAT_SBGGR10''), (''mod'', ''MIPI_FORMAT_MOD_CSI2_PACKED'')]),
     (''SRGGB12_CSI2P'', [(''fourcc'', ''DRM_FORMAT_SRGGB12''), (''mod'', ''MIPI_FORMAT_MOD_CSI2_PACKED'')]),
     (''SGRBG12_CSI2P'', [(''fourcc'', ''DRM_FORMAT_SGRBG12''), (''mod'', ''MIPI_FORMAT_MOD_CSI2_PACKED'')]),
     (''SGBRG12_CSI2P'', [(''fourcc'', ''DRM_FORMAT_SGBRG12''), (''mod'', ''MIPI_FORMAT_MOD_CSI2_PACKED'')]),
     (''SBGGR12_CSI2P'', [(''fourcc'', ''DRM_FORMAT_SBGGR12''), (''mod'', ''MIPI_FORMAT_MOD_CSI2_PACKED'')]),
     (''SRGGB10_IPU3'', [(''fourcc'', ''DRM_FORMAT_SRGGB10''), (''mod'', ''IPU3_FORMAT_MOD_PACKED'')]),
     (''SGRBG10_IPU3'', [(''fourcc'', ''DRM_FORMAT_SGRBG10''), (''mod'', ''IPU3_FORMAT_MOD_PACKED'')]),
     (''SGBRG10_IPU3'', [(''fourcc'', ''DRM_FORMAT_SGBRG10''), (''mod'', ''IPU3_FORMAT_MOD_PACKED'')]),
     (''SBGGR10_IPU3'', [(''fourcc'', ''DRM_FORMAT_SBGGR10''), (''mod'', ''IPU3_FORMAT_MOD_PACKED'')])]"


text \<open>The macros of \<open>drm_fourcc.h\<close> that the entries name, and the modifiers.\<close>

definition drm_formats :: "(string \<times> u32) list" where
  "drm_formats =
    [(''DRM_FORMAT_R8'', fourcc_code CHR ''R'' CHR ''8'' CHR '' '' CHR '' ''),
     (''DRM_FORMAT_RGB565'', fourcc_code CHR ''R'' CHR ''G'' CHR ''1'' CHR ''6''),
     (''DRM_FORMAT_RGB888'', fourcc_code CHR ''R'' CHR ''G'' CHR ''2'' CHR ''4''),
     (''DRM_FORMAT_BGR888'', fourcc_code CHR ''B'' CHR ''G'' CHR ''2'' CHR ''4''),
     (''DRM_FORMAT_XRGB8888'', fourcc_code CHR ''X'' CHR ''R'' CHR ''2'' CHR ''4''),
     (''DRM_FORMAT_XBGR8888'', fourcc_code CHR ''X'' CHR ''B'' CHR ''2'' CHR ''4''),
     (''DRM_FORMAT_RGBX8888'', fourcc_code CHR ''R'' CHR ''X'' CHR ''2'' CHR ''4''),
     (''DRM_FORMAT_BGRX8888'', fourcc_code CHR ''B'' CHR ''X'' CHR ''2'' CHR ''4''),
     (''DRM_FORMAT_ARGB8888'', fourcc_code CHR ''A'' CHR ''R'' CHR ''2'' CHR ''4''),
     (''DRM_FORMAT_ABGR8888'', fourcc_code CHR ''A'' CHR ''B'' CHR ''2'' CHR ''4''),
     (''DRM_FORMAT_RGBA8888'', fourcc_code CHR ''R'' CHR ''A'' CHR ''2'' CHR ''4''),
     (''DRM_FORMAT_BGRA8888'', fourcc_code CHR ''B'' CHR ''A'' CHR ''2'' CHR ''4''),
     (''DRM_FORMAT_YUYV'', fourcc_code CHR ''Y'' CHR ''U'' CHR ''Y'' CHR ''V''),
     (''DRM_FORMAT_YVYU'', fourcc_code CHR ''Y'' CHR ''V'' CHR ''Y'' CHR ''U''),
     (''DRM_FORMAT_UYVY'', fourcc_code CHR ''U'' CHR ''Y'' CHR ''V'' CHR ''Y''),
     (''DRM_FORMAT_VYUY'', fourcc_code CHR ''V'' CHR ''Y'' CHR ''U'' CHR ''Y''),
     (''DRM_FORMAT_NV12'', fourcc_code CHR ''N'' CHR ''V'' CHR ''1'' CHR ''2''),
     (''DRM_FORMAT_NV21'', fourcc_code CHR ''N'' CHR ''V'' CHR ''2'' CHR ''1''),
     (''DRM_FORMAT_NV16'', fourcc_code CHR ''N'' CHR ''V'' CHR ''1'' CHR ''6''),
     (''DRM_FORMAT_NV61'', fourcc_code CHR ''N'' CHR ''V'' CHR ''6'' CHR ''1''),
     (''DRM_FORMAT_NV24'', fourcc_code CHR ''N'' CHR ''V'' CHR ''2'' CHR ''4''),
     (''DRM_FORMAT_NV42'', fourcc_code CHR ''N'' CHR ''V'' CHR ''4'' CHR ''2''),
     (''DRM_FORMAT_YUV420'', fourcc_code CHR ''Y'' CHR ''U'' CHR ''1'' CHR ''2''),
     (''DRM_FORMAT_YVU420'', fourcc_code CHR ''Y'' CHR ''V'' CHR ''1'' CHR ''2''),
     (''DRM_FORMAT_YUV422'', fourcc_code CHR ''Y'' CHR ''U'' CHR ''1'' CHR ''6''),
     (''DRM_FORMAT_MJPEG'', fourcc_code CHR ''M'' CHR ''J'' CHR ''P'' CHR ''G''),
     (''DRM_FORMAT_SRGGB8'', fourcc_code CHR ''R'' CHR ''G'' CHR ''G'' CHR ''B''),
     (''DRM_FORMAT_SGRBG8'', fourcc_code CHR ''G'' CHR ''R'' CHR ''B'' CHR ''G''),
     (''DRM_FORMAT_SGBRG8'', fourcc_code CHR ''G'' CHR ''B'' CHR ''R'' CHR ''G''),
     (''DRM_FORMAT_SBGGR8'', fourcc_code CHR ''B'' CHR ''A'' CHR ''8'' CHR ''1''),
     (''DRM_FORMAT_SRGGB10'', fourcc_code CHR ''R'' CHR ''G'' CHR ''1'' CHR ''0''),
     (''DRM_FORMAT_SGRBG10'', fourcc_code CHR ''B'' CHR ''A'' CHR ''1'' CHR ''0''),
     (''DRM_FORMAT_SGBRG10'', fourcc_code CHR ''G'' CHR ''B'' CHR ''1'' CHR ''0''),
     (''DRM_FORMAT_SBGGR10'', fourcc_code CHR ''B'' CHR ''G'' CHR ''1'' CHR ''0''),
     (''DRM_FORMAT_SRGGB12'', fourcc_code CHR ''R'' CHR ''G'' CHR ''1'' CHR ''2''),
     (''DRM_FORMAT_SGRBG12'', fourcc_code CHR ''B'' CHR ''A'' CHR ''1'' CHR ''2''),
     (''DRM_FORMAT_SGBRG12'', fourcc_code CHR ''G'' CHR ''B'' CHR ''1'' CHR ''2''),
     (''DRM_FORMAT_SBGGR12'', fourcc_code CHR ''B'' CHR ''G'' CHR ''1'' CHR ''2''),
     (''DRM_FORMAT_SRGGB16'', fourcc_code CHR ''R'' CHR ''G'' CHR ''B'' CHR ''6''),
     (''DRM_FORMAT_SGRBG16'', fourcc_code CHR ''G'' CHR ''R'' CHR ''1'' CHR ''6''),
     (''DRM_FORMAT_SGBRG16'', fourcc_code CHR ''G'' CHR ''B'' CHR ''1'' CHR ''6''),
     (''DRM_FORMAT_SBGGR16'', fourcc_code CHR ''B'' CHR ''Y'' CHR ''R'' CHR ''2'')]"


definition drm_mods :: "(string \<times> u64) list" where
  "drm_mods =
    [(''IPU3_FORMAT_MOD_PACKED'', fourcc_mod_code 0x01 9),
     (''MIPI_FORMAT_MOD_CSI2_PACKED'', fourcc_mod_code 0x0b 1)]"

text \<open>
  What the generator makes of an entry: \<open>None\<close> is a \<open>KeyError\<close>. The attribute is looked up under the name
  \<open>big-endian\<close>, which is not the one that the entries use.
\<close>

definition generate_format :: "(string \<times> string) list \<Rightarrow> PixelFormat option" where
  "generate_format attrs =
     (case map_of attrs ''fourcc'' of
        None \<Rightarrow> None
      | Some n \<Rightarrow>
          (case map_of drm_formats n of
             None \<Rightarrow> None
           | Some code \<Rightarrow>
               let code = (if map_of attrs ''big-endian'' \<noteq> None then or code 0x80000000 else code)
               in (case map_of attrs ''mod'' of
                     None \<Rightarrow> Some (PixelFormat code 0)
                   | Some m \<Rightarrow> (case map_of drm_mods m of None \<Rightarrow> None | Some v \<Rightarrow> Some (PixelFormat code v)))))"

text \<open>The constant \<open>formats::n\<close>; every name that the code uses is defined (\<open>formats_values\<close>).\<close>

definition formats :: "string \<Rightarrow> PixelFormat" where
  "formats n =
     (case Option.bind (map_of formats_yaml n) generate_format of Some p \<Rightarrow> p | None \<Rightarrow> PixelFormat 0 0)"

section \<open>Formats of V4L2\<close>

definition V4L2_PIX_FMT_RGB565 :: u32 where "V4L2_PIX_FMT_RGB565 = fourcc_code CHR ''R'' CHR ''G'' CHR ''B'' CHR ''P''"
definition V4L2_PIX_FMT_RGB565X :: u32 where "V4L2_PIX_FMT_RGB565X = fourcc_code CHR ''R'' CHR ''G'' CHR ''B'' CHR ''R''"
definition V4L2_PIX_FMT_RGB24 :: u32 where "V4L2_PIX_FMT_RGB24 = fourcc_code CHR ''R'' CHR ''G'' CHR ''B'' CHR ''3''"
definition V4L2_PIX_FMT_BGR24 :: u32 where "V4L2_PIX_FMT_BGR24 = fourcc_code CHR ''B'' CHR ''G'' CHR ''R'' CHR ''3''"
definition V4L2_PIX_FMT_XBGR32 :: u32 where "V4L2_PIX_FMT_XBGR32 = fourcc_code CHR ''X'' CHR ''R'' CHR ''2'' CHR ''4''"
definition V4L2_PIX_FMT_XRGB32 :: u32 where "V4L2_PIX_FMT_XRGB32 = fourcc_code CHR ''B'' CHR ''X'' CHR ''2'' CHR ''4''"
definition V4L2_PIX_FMT_RGBA32 :: u32 where "V4L2_PIX_FMT_RGBA32 = fourcc_code CHR ''A'' CHR ''B'' CHR ''2'' CHR ''4''"
definition V4L2_PIX_FMT_ABGR32 :: u32 where "V4L2_PIX_FMT_ABGR32 = fourcc_code CHR ''A'' CHR ''R'' CHR ''2'' CHR ''4''"
definition V4L2_PIX_FMT_ARGB32 :: u32 where "V4L2_PIX_FMT_ARGB32 = fourcc_code CHR ''B'' CHR ''A'' CHR ''2'' CHR ''4''"
definition V4L2_PIX_FMT_BGRA32 :: u32 where "V4L2_PIX_FMT_BGRA32 = fourcc_code CHR ''R'' CHR ''A'' CHR ''2'' CHR ''4''"
definition V4L2_PIX_FMT_YUYV :: u32 where "V4L2_PIX_FMT_YUYV = fourcc_code CHR ''Y'' CHR ''U'' CHR ''Y'' CHR ''V''"
definition V4L2_PIX_FMT_YVYU :: u32 where "V4L2_PIX_FMT_YVYU = fourcc_code CHR ''Y'' CHR ''V'' CHR ''Y'' CHR ''U''"
definition V4L2_PIX_FMT_UYVY :: u32 where "V4L2_PIX_FMT_UYVY = fourcc_code CHR ''U'' CHR ''Y'' CHR ''V'' CHR ''Y''"
definition V4L2_PIX_FMT_VYUY :: u32 where "V4L2_PIX_FMT_VYUY = fourcc_code CHR ''V'' CHR ''Y'' CHR ''U'' CHR ''Y''"
definition V4L2_PIX_FMT_NV12 :: u32 where "V4L2_PIX_FMT_NV12 = fourcc_code CHR ''N'' CHR ''V'' CHR ''1'' CHR ''2''"
definition V4L2_PIX_FMT_NV21 :: u32 where "V4L2_PIX_FMT_NV21 = fourcc_code CHR ''N'' CHR ''V'' CHR ''2'' CHR ''1''"
definition V4L2_PIX_FMT_NV16 :: u32 where "V4L2_PIX_FMT_NV16 = fourcc_code CHR ''N'' CHR ''V'' CHR ''1'' CHR ''6''"
definition V4L2_PIX_FMT_NV61 :: u32 where "V4L2_PIX_FMT_NV61 = fourcc_code CHR ''N'' CHR ''V'' CHR ''6'' CHR ''1''"
definition V4L2_PIX_FMT_NV24 :: u32 where "V4L2_PIX_FMT_NV24 = fourcc_code CHR ''N'' CHR ''V'' CHR ''2'' CHR ''4''"
definition V4L2_PIX_FMT_NV42 :: u32 where "V4L2_PIX_FMT_NV42 = fourcc_code CHR ''N'' CHR ''V'' CHR ''4'' CHR ''2''"
definition V4L2_PIX_FMT_YUV420 :: u32 where "V4L2_PIX_FMT_YUV420 = fourcc_code CHR ''Y'' CHR ''U'' CHR ''1'' CHR ''2''"
definition V4L2_PIX_FMT_YVU420 :: u32 where "V4L2_PIX_FMT_YVU420 = fourcc_code CHR ''Y'' CHR ''V'' CHR ''1'' CHR ''2''"
definition V4L2_PIX_FMT_YUV422P :: u32 where "V4L2_PIX_FMT_YUV422P = fourcc_code CHR ''4'' CHR ''2'' CHR ''2'' CHR ''P''"
definition V4L2_PIX_FMT_GREY :: u32 where "V4L2_PIX_FMT_GREY = fourcc_code CHR ''G'' CHR ''R'' CHR ''E'' CHR ''Y''"
definition V4L2_PIX_FMT_SBGGR8 :: u32 where "V4L2_PIX_FMT_SBGGR8 = fourcc_code CHR ''B'' CHR ''A'' CHR ''8'' CHR ''1''"
definition V4L2_PIX_FMT_SGBRG8 :: u32 where "V4L2_PIX_FMT_SGBRG8 = fourcc_code CHR ''G'' CHR ''B'' CHR ''R'' CHR ''G''"
definition V4L2_PIX_FMT_SGRBG8 :: u32 where "V4L2_PIX_FMT_SGRBG8 = fourcc_code CHR ''G'' CHR ''R'' CHR ''B'' CHR ''G''"
definition V4L2_PIX_FMT_SRGGB8 :: u32 where "V4L2_PIX_FMT_SRGGB8 = fourcc_code CHR ''R'' CHR ''G'' CHR ''G'' CHR ''B''"
definition V4L2_PIX_FMT_SBGGR10 :: u32 where "V4L2_PIX_FMT_SBGGR10 = fourcc_code CHR ''B'' CHR ''G'' CHR ''1'' CHR ''0''"
definition V4L2_PIX_FMT_SGBRG10 :: u32 where "V4L2_PIX_FMT_SGBRG10 = fourcc_code CHR ''G'' CHR ''B'' CHR ''1'' CHR ''0''"
definition V4L2_PIX_FMT_SGRBG10 :: u32 where "V4L2_PIX_FMT_SGRBG10 = fourcc_code CHR ''B'' CHR ''A'' CHR ''1'' CHR ''0''"
definition V4L2_PIX_FMT_SRGGB10 :: u32 where "V4L2_PIX_FMT_SRGGB10 = fourcc_code CHR ''R'' CHR ''G'' CHR ''1'' CHR ''0''"
definition V4L2_PIX_FMT_SBGGR10P :: u32 where "V4L2_PIX_FMT_SBGGR10P = fourcc_code CHR ''p'' CHR ''B'' CHR ''A'' CHR ''A''"
definition V4L2_PIX_FMT_SGBRG10P :: u32 where "V4L2_PIX_FMT_SGBRG10P = fourcc_code CHR ''p'' CHR ''G'' CHR ''A'' CHR ''A''"
definition V4L2_PIX_FMT_SGRBG10P :: u32 where "V4L2_PIX_FMT_SGRBG10P = fourcc_code CHR ''p'' CHR ''g'' CHR ''A'' CHR ''A''"
definition V4L2_PIX_FMT_SRGGB10P :: u32 where "V4L2_PIX_FMT_SRGGB10P = fourcc_code CHR ''p'' CHR ''R'' CHR ''A'' CHR ''A''"
definition V4L2_PIX_FMT_SBGGR12 :: u32 where "V4L2_PIX_FMT_SBGGR12 = fourcc_code CHR ''B'' CHR ''G'' CHR ''1'' CHR ''2''"
definition V4L2_PIX_FMT_SGBRG12 :: u32 where "V4L2_PIX_FMT_SGBRG12 = fourcc_code CHR ''G'' CHR ''B'' CHR ''1'' CHR ''2''"
definition V4L2_PIX_FMT_SGRBG12 :: u32 where "V4L2_PIX_FMT_SGRBG12 = fourcc_code CHR ''B'' CHR ''A'' CHR ''1'' CHR ''2''"
definition V4L2_PIX_FMT_SRGGB12 :: u32 where "V4L2_PIX_FMT_SRGGB12 = fourcc_code CHR ''R'' CHR ''G'' CHR ''1'' CHR ''2''"
definition V4L2_PIX_FMT_SBGGR12P :: u32 where "V4L2_PIX_FMT_SBGGR12P = fourcc_code CHR ''p'' CHR ''B'' CHR ''C'' CHR ''C''"
definition V4L2_PIX_FMT_SGBRG12P :: u32 where "V4L2_PIX_FMT_SGBRG12P = fourcc_code CHR ''p'' CHR ''G'' CHR ''C'' CHR ''C''"
definition V4L2_PIX_FMT_SGRBG12P :: u32 where "V4L2_PIX_FMT_SGRBG12P = fourcc_code CHR ''p'' CHR ''g'' CHR ''C'' CHR ''C''"
definition V4L2_PIX_FMT_SRGGB12P :: u32 where "V4L2_PIX_FMT_SRGGB12P = fourcc_code CHR ''p'' CHR ''R'' CHR ''C'' CHR ''C''"
definition V4L2_PIX_FMT_SBGGR16 :: u32 where "V4L2_PIX_FMT_SBGGR16 = fourcc_code CHR ''B'' CHR ''Y'' CHR ''R'' CHR ''2''"
definition V4L2_PIX_FMT_SGBRG16 :: u32 where "V4L2_PIX_FMT_SGBRG16 = fourcc_code CHR ''G'' CHR ''B'' CHR ''1'' CHR ''6''"
definition V4L2_PIX_FMT_SGRBG16 :: u32 where "V4L2_PIX_FMT_SGRBG16 = fourcc_code CHR ''G'' CHR ''R'' CHR ''1'' CHR ''6''"
definition V4L2_PIX_FMT_SRGGB16 :: u32 where "V4L2_PIX_FMT_SRGGB16 = fourcc_code CHR ''R'' CHR ''G'' CHR ''1'' CHR ''6''"
definition V4L2_PIX_FMT_IPU3_SBGGR10 :: u32 where "V4L2_PIX_FMT_IPU3_SBGGR10 = fourcc_code CHR ''i'' CHR ''p'' CHR ''3'' CHR ''b''"
definition V4L2_PIX_FMT_IPU3_SGBRG10 :: u32 where "V4L2_PIX_FMT_IPU3_SGBRG10 = fourcc_code CHR ''i'' CHR ''p'' CHR ''3'' CHR ''g''"
definition V4L2_PIX_FMT_IPU3_SGRBG10 :: u32 where "V4L2_PIX_FMT_IPU3_SGRBG10 = fourcc_code CHR ''i'' CHR ''p'' CHR ''3'' CHR ''G''"
definition V4L2_PIX_FMT_IPU3_SRGGB10 :: u32 where "V4L2_PIX_FMT_IPU3_SRGGB10 = fourcc_code CHR ''i'' CHR ''p'' CHR ''3'' CHR ''r''"
definition V4L2_PIX_FMT_MJPEG :: u32 where "V4L2_PIX_FMT_MJPEG = fourcc_code CHR ''M'' CHR ''J'' CHR ''P'' CHR ''G''"


section \<open>The table\<close>

record PixelFormatPlaneInfo =
  pp_bytesPerGroup :: u32
  pp_verticalSubSampling :: u32

datatype ColourEncoding = ColourEncodingRGB | ColourEncodingYUV | ColourEncodingRAW

record PixelFormatInfo =
  pi_name :: string
  pi_format :: PixelFormat
  pi_v4l2Format :: u32
  pi_bitsPerPixel :: u32
  pi_colourEncoding :: ColourEncoding
  pi_packed :: bool
  pi_pixelsPerGroup :: u32
  pi_planes :: "PixelFormatPlaneInfo list"

text \<open>An entry of the table; the name, the key and the format of every entry are the same identifier.\<close>

definition format_info ::
    "string \<Rightarrow> u32 \<Rightarrow> u32 \<Rightarrow> ColourEncoding \<Rightarrow> bool \<Rightarrow> u32 \<Rightarrow> (u32 \<times> u32) list \<Rightarrow> PixelFormatInfo" where
  "format_info n v4l2 bits encoding packed pixels planes =
     \<lparr>pi_name = n, pi_format = formats n, pi_v4l2Format = v4l2, pi_bitsPerPixel = bits, pi_colourEncoding = encoding,
      pi_packed = packed, pi_pixelsPerGroup = pixels,
      pi_planes = map (\<lambda>(b, v). \<lparr>pp_bytesPerGroup = b, pp_verticalSubSampling = v\<rparr>) planes\<rparr>"

definition rgb_formats :: "PixelFormatInfo list" where
  "rgb_formats =
    [format_info ''RGB565'' V4L2_PIX_FMT_RGB565 16 ColourEncodingRGB False 1 [(3, 1), (0, 0), (0, 0)],
     format_info ''RGB565_BE'' V4L2_PIX_FMT_RGB565X 16 ColourEncodingRGB False 1 [(3, 1), (0, 0), (0, 0)],
     format_info ''BGR888'' V4L2_PIX_FMT_RGB24 24 ColourEncodingRGB False 1 [(3, 1), (0, 0), (0, 0)],
     format_info ''RGB888'' V4L2_PIX_FMT_BGR24 24 ColourEncodingRGB False 1 [(3, 1), (0, 0), (0, 0)],
     format_info ''XRGB8888'' V4L2_PIX_FMT_XBGR32 32 ColourEncodingRGB False 1 [(4, 1), (0, 0), (0, 0)],
     format_info ''XBGR8888'' V4L2_PIX_FMT_XRGB32 32 ColourEncodingRGB False 1 [(4, 1), (0, 0), (0, 0)],
     format_info ''ABGR8888'' V4L2_PIX_FMT_RGBA32 32 ColourEncodingRGB False 1 [(4, 1), (0, 0), (0, 0)],
     format_info ''ARGB8888'' V4L2_PIX_FMT_ABGR32 32 ColourEncodingRGB False 1 [(4, 1), (0, 0), (0, 0)],
     format_info ''BGRA8888'' V4L2_PIX_FMT_ARGB32 32 ColourEncodingRGB False 1 [(4, 1), (0, 0), (0, 0)],
     format_info ''RGBA8888'' V4L2_PIX_FMT_BGRA32 32 ColourEncodingRGB False 1 [(4, 1), (0, 0), (0, 0)]]"

definition packed_formats :: "PixelFormatInfo list" where
  "packed_formats =
    [format_info ''YUYV'' V4L2_PIX_FMT_YUYV 16 ColourEncodingYUV False 2 [(4, 1), (0, 0), (0, 0)],
     format_info ''YVYU'' V4L2_PIX_FMT_YVYU 16 ColourEncodingYUV False 2 [(4, 1), (0, 0), (0, 0)],
     format_info ''UYVY'' V4L2_PIX_FMT_UYVY 16 ColourEncodingYUV False 2 [(4, 1), (0, 0), (0, 0)],
     format_info ''VYUY'' V4L2_PIX_FMT_VYUY 16 ColourEncodingYUV False 2 [(4, 1), (0, 0), (0, 0)]]"

definition planar_formats :: "PixelFormatInfo list" where
  "planar_formats =
    [format_info ''NV12'' V4L2_PIX_FMT_NV12 12 ColourEncodingYUV False 2 [(2, 1), (2, 2), (0, 0)],
     format_info ''NV21'' V4L2_PIX_FMT_NV21 12 ColourEncodingYUV False 2 [(2, 1), (2, 2), (0, 0)],
     format_info ''NV16'' V4L2_PIX_FMT_NV16 16 ColourEncodingYUV False 2 [(2, 1), (2, 1), (0, 0)],
     format_info ''NV61'' V4L2_PIX_FMT_NV61 16 ColourEncodingYUV False 2 [(2, 1), (2, 1), (0, 0)],
     format_info ''NV24'' V4L2_PIX_FMT_NV24 24 ColourEncodingYUV False 1 [(1, 1), (2, 1), (0, 0)],
     format_info ''NV42'' V4L2_PIX_FMT_NV42 24 ColourEncodingYUV False 1 [(1, 1), (2, 1), (0, 0)],
     format_info ''YUV420'' V4L2_PIX_FMT_YUV420 12 ColourEncodingYUV False 2 [(2, 1), (1, 2), (1, 2)],
     format_info ''YVU420'' V4L2_PIX_FMT_YVU420 12 ColourEncodingYUV False 2 [(2, 1), (1, 2), (1, 2)],
     format_info ''YUV422'' V4L2_PIX_FMT_YUV422P 16 ColourEncodingYUV False 2 [(2, 1), (1, 1), (1, 1)]]"

definition grey_formats :: "PixelFormatInfo list" where
  "grey_formats =
    [format_info ''R8'' V4L2_PIX_FMT_GREY 8 ColourEncodingYUV False 1 [(1, 1), (0, 0), (0, 0)]]"

definition bayer_8_10_formats :: "PixelFormatInfo list" where
  "bayer_8_10_formats =
    [format_info ''SBGGR8'' V4L2_PIX_FMT_SBGGR8 8 ColourEncodingRAW False 2 [(2, 1), (0, 0), (0, 0)],
     format_info ''SGBRG8'' V4L2_PIX_FMT_SGBRG8 8 ColourEncodingRAW False 2 [(2, 1), (0, 0), (0, 0)],
     format_info ''SGRBG8'' V4L2_PIX_FMT_SGRBG8 8 ColourEncodingRAW False 2 [(2, 1), (0, 0), (0, 0)],
     format_info ''SRGGB8'' V4L2_PIX_FMT_SRGGB8 8 ColourEncodingRAW False 2 [(2, 1), (0, 0), (0, 0)],
     format_info ''SBGGR10'' V4L2_PIX_FMT_SBGGR10 10 ColourEncodingRAW False 2 [(4, 1), (0, 0), (0, 0)],
     format_info ''SGBRG10'' V4L2_PIX_FMT_SGBRG10 10 ColourEncodingRAW False 2 [(4, 1), (0, 0), (0, 0)],
     format_info ''SGRBG10'' V4L2_PIX_FMT_SGRBG10 10 ColourEncodingRAW False 2 [(4, 1), (0, 0), (0, 0)],
     format_info ''SRGGB10'' V4L2_PIX_FMT_SRGGB10 10 ColourEncodingRAW False 2 [(4, 1), (0, 0), (0, 0)]]"

definition bayer_csi2_12_formats :: "PixelFormatInfo list" where
  "bayer_csi2_12_formats =
    [format_info ''SBGGR10_CSI2P'' V4L2_PIX_FMT_SBGGR10P 10 ColourEncodingRAW True 4 [(5, 1), (0, 0), (0, 0)],
     format_info ''SGBRG10_CSI2P'' V4L2_PIX_FMT_SGBRG10P 10 ColourEncodingRAW True 4 [(5, 1), (0, 0), (0, 0)],
     format_info ''SGRBG10_CSI2P'' V4L2_PIX_FMT_SGRBG10P 10 ColourEncodingRAW True 4 [(5, 1), (0, 0), (0, 0)],
     format_info ''SRGGB10_CSI2P'' V4L2_PIX_FMT_SRGGB10P 10 ColourEncodingRAW True 4 [(5, 1), (0, 0), (0, 0)],
     format_info ''SBGGR12'' V4L2_PIX_FMT_SBGGR12 12 ColourEncodingRAW False 2 [(4, 1), (0, 0), (0, 0)],
     format_info ''SGBRG12'' V4L2_PIX_FMT_SGBRG12 12 ColourEncodingRAW False 2 [(4, 1), (0, 0), (0, 0)],
     format_info ''SGRBG12'' V4L2_PIX_FMT_SGRBG12 12 ColourEncodingRAW False 2 [(4, 1), (0, 0), (0, 0)],
     format_info ''SRGGB12'' V4L2_PIX_FMT_SRGGB12 12 ColourEncodingRAW False 2 [(4, 1), (0, 0), (0, 0)]]"

definition bayer_12_16_formats :: "PixelFormatInfo list" where
  "bayer_12_16_formats =
    [format_info ''SBGGR12_CSI2P'' V4L2_PIX_FMT_SBGGR12P 12 ColourEncodingRAW True 2 [(3, 1), (0, 0), (0, 0)],
     format_info ''SGBRG12_CSI2P'' V4L2_PIX_FMT_SGBRG12P 12 ColourEncodingRAW True 2 [(3, 1), (0, 0), (0, 0)],
     format_info ''SGRBG12_CSI2P'' V4L2_PIX_FMT_SGRBG12P 12 ColourEncodingRAW True 2 [(3, 1), (0, 0), (0, 0)],
     format_info ''SRGGB12_CSI2P'' V4L2_PIX_FMT_SRGGB12P 12 ColourEncodingRAW True 2 [(3, 1), (0, 0), (0, 0)],
     format_info ''SBGGR16'' V4L2_PIX_FMT_SBGGR16 16 ColourEncodingRAW False 2 [(4, 1), (0, 0), (0, 0)],
     format_info ''SGBRG16'' V4L2_PIX_FMT_SGBRG16 16 ColourEncodingRAW False 2 [(4, 1), (0, 0), (0, 0)],
     format_info ''SGRBG16'' V4L2_PIX_FMT_SGRBG16 16 ColourEncodingRAW False 2 [(4, 1), (0, 0), (0, 0)],
     format_info ''SRGGB16'' V4L2_PIX_FMT_SRGGB16 16 ColourEncodingRAW False 2 [(4, 1), (0, 0), (0, 0)]]"

definition bayer_ipu3_formats :: "PixelFormatInfo list" where
  "bayer_ipu3_formats =
    [format_info ''SBGGR10_IPU3'' V4L2_PIX_FMT_IPU3_SBGGR10 10 ColourEncodingRAW True 25 [(32, 1), (0, 0), (0, 0)],
     format_info ''SGBRG10_IPU3'' V4L2_PIX_FMT_IPU3_SGBRG10 10 ColourEncodingRAW True 25 [(32, 1), (0, 0), (0, 0)],
     format_info ''SGRBG10_IPU3'' V4L2_PIX_FMT_IPU3_SGRBG10 10 ColourEncodingRAW True 25 [(32, 1), (0, 0), (0, 0)],
     format_info ''SRGGB10_IPU3'' V4L2_PIX_FMT_IPU3_SRGGB10 10 ColourEncodingRAW True 25 [(32, 1), (0, 0), (0, 0)]]"

definition compressed_formats :: "PixelFormatInfo list" where
  "compressed_formats =
    [format_info ''MJPEG'' V4L2_PIX_FMT_MJPEG 0 ColourEncodingYUV False 1 [(1, 1), (0, 0), (0, 0)]]"


definition pixelFormatInfo_entries :: "PixelFormatInfo list" where
  "pixelFormatInfo_entries =
     rgb_formats @ packed_formats @ planar_formats @ grey_formats @ bayer_8_10_formats @ bayer_csi2_12_formats @
     bayer_12_16_formats @ bayer_ipu3_formats @ compressed_formats"

text \<open>A map that is initialised from a list keeps the first of the entries with the same key.\<close>

definition pixelFormatInfo :: "(PixelFormat \<times> PixelFormatInfo) list" where
  "pixelFormatInfo = foldl (\<lambda>m i. map_emplace (pi_format i) i m) [] pixelFormatInfo_entries"

definition pixelFormatInfoInvalid :: PixelFormatInfo where
  "pixelFormatInfoInvalid =
     \<lparr>pi_name = [], pi_format = PixelFormat 0 0, pi_v4l2Format = 0, pi_bitsPerPixel = 0,
      pi_colourEncoding = ColourEncodingRGB, pi_packed = False, pi_pixelsPerGroup = 0,
      pi_planes = replicate 3 \<lparr>pp_bytesPerGroup = 0, pp_verticalSubSampling = 0\<rparr>\<rparr>"

definition PixelFormatInfo_isValid :: "PixelFormatInfo \<Rightarrow> bool" where
  "PixelFormatInfo_isValid i = PixelFormat_isValid (pi_format i)"

section \<open>Lookups\<close>

definition PixelFormatInfo_info :: "PixelFormat \<Rightarrow> PixelFormatInfo" where
  "PixelFormatInfo_info p = (case map_of pixelFormatInfo p of None \<Rightarrow> pixelFormatInfoInvalid | Some i \<Rightarrow> i)"

definition PixelFormatInfo_info_v4l2 :: "u32 \<Rightarrow> PixelFormatInfo" where
  "PixelFormatInfo_info_v4l2 v =
     (case find (\<lambda>(p, i). pi_v4l2Format i = v) pixelFormatInfo of None \<Rightarrow> pixelFormatInfoInvalid | Some (p, i) \<Rightarrow> i)"

definition PixelFormatInfo_info_name :: "string \<Rightarrow> PixelFormatInfo" where
  "PixelFormatInfo_info_name n =
     (case find (\<lambda>(p, i). pi_name i = n) pixelFormatInfo of None \<Rightarrow> pixelFormatInfoInvalid | Some (p, i) \<Rightarrow> i)"

section \<open>Strides and sizes\<close>

text \<open>
  Reading past the three planes (index 3 passes the test) and dividing by zero are undefined: \<open>None\<close>.
\<close>

definition PixelFormatInfo_stride :: "PixelFormatInfo \<Rightarrow> u32 \<Rightarrow> u32 \<Rightarrow> u32 \<Rightarrow> u32 option" where
  "PixelFormatInfo_stride i width plane align =
     (if \<not> PixelFormatInfo_isValid i then Some 0
      else if unat plane > length (pi_planes i) then Some 0
      else if unat plane = length (pi_planes i) then None
      else
        let b = pp_bytesPerGroup (pi_planes i ! unat plane) in
        if b = 0 then Some 0
        else if pi_pixelsPerGroup i = 0 \<or> align = 0 then None
        else
          let stride = (width + pi_pixelsPerGroup i - 1) div pi_pixelsPerGroup i * b
          in Some ((stride + align - 1) div align * align))"

definition plane_rows :: "PixelFormatPlaneInfo \<Rightarrow> Size \<Rightarrow> u32" where
  "plane_rows p s = (sz_height s + pp_verticalSubSampling p - 1) div pp_verticalSubSampling p"

fun frame_size_loop :: "PixelFormatInfo \<Rightarrow> Size \<Rightarrow> u32 \<Rightarrow> nat list \<Rightarrow> u32 \<Rightarrow> u32 option" where
  "frame_size_loop i s align [] acc = Some acc"
| "frame_size_loop i s align (n # ns) acc =
     (let p = pi_planes i ! n in
      if pp_verticalSubSampling p = 0 then frame_size_loop i s align ns acc
      else
        (case PixelFormatInfo_stride i (sz_width s) (of_nat n) align of
           None \<Rightarrow> None
         | Some stride \<Rightarrow> frame_size_loop i s align ns (acc + stride * plane_rows p s)))"

definition PixelFormatInfo_frameSize :: "PixelFormatInfo \<Rightarrow> Size \<Rightarrow> u32 \<Rightarrow> u32 option" where
  "PixelFormatInfo_frameSize i s align = frame_size_loop i s align [0, 1, 2] 0"

text \<open>The frame size with a stride for each plane.\<close>

fun strided_size :: "PixelFormatPlaneInfo list \<Rightarrow> Size \<Rightarrow> u32 list \<Rightarrow> u32 \<Rightarrow> u32" where
  "strided_size (p # ps) s (stride # strides) acc =
     strided_size ps s strides
       (if pp_verticalSubSampling p = 0 then acc else acc + stride * plane_rows p s)"
| "strided_size _ s _ acc = acc"

definition PixelFormatInfo_frameSize_strides :: "PixelFormatInfo \<Rightarrow> Size \<Rightarrow> u32 list \<Rightarrow> u32" where
  "PixelFormatInfo_frameSize_strides i s strides = strided_size (pi_planes i) s strides 0"

definition PixelFormatInfo_numPlanes :: "PixelFormatInfo \<Rightarrow> u32" where
  "PixelFormatInfo_numPlanes i = of_nat (length (takeWhile (\<lambda>p. pp_bytesPerGroup p \<noteq> 0) (pi_planes i)))"

section \<open>Names\<close>

text \<open>The characters that \<open>isprint\<close> accepts in the C locale.\<close>

definition printable :: "u32 \<Rightarrow> char" where
  "printable c = (if 0x20 \<le> c \<and> c \<le> 0x7e then char_of (unat c) else CHR ''.'')"

definition PixelFormat_toString :: "PixelFormat \<Rightarrow> string" where
  "PixelFormat_toString p =
     (let i = PixelFormatInfo_info p in
      if PixelFormatInfo_isValid i then pi_name i
      else if p = PixelFormat 0 0 then ''<INVALID>''
      else ''<'' @ map (\<lambda>n. printable (and (drop_bit (8 * n) (pf_fourcc p)) 0xff)) [0, 1, 2, 3] @ ''>'')"

definition PixelFormat_fromString :: "string \<Rightarrow> PixelFormat" where
  "PixelFormat_fromString n = pi_format (PixelFormatInfo_info_name n)"

definition V4L2PixelFormat_toString :: "u32 \<Rightarrow> string" where
  "V4L2PixelFormat_toString v =
     (if v = 0 then ''<INVALID>''
      else map (\<lambda>n. printable (and (drop_bit (8 * n) v) 0x7f)) [0, 1, 2, 3] @ (if bit v 31 then ''-BE'' else []))"

section \<open>Pixel formats and formats of V4L2\<close>

definition vpf2pf :: "(u32 \<times> PixelFormat) list" where
  "vpf2pf =
    [(V4L2_PIX_FMT_RGB565, formats ''RGB565''),
     (V4L2_PIX_FMT_RGB565X, formats ''RGB565_BE''),
     (V4L2_PIX_FMT_RGB24, formats ''BGR888''),
     (V4L2_PIX_FMT_BGR24, formats ''RGB888''),
     (V4L2_PIX_FMT_XBGR32, formats ''XRGB8888''),
     (V4L2_PIX_FMT_XRGB32, formats ''XBGR8888''),
     (V4L2_PIX_FMT_RGBA32, formats ''ABGR8888''),
     (V4L2_PIX_FMT_ABGR32, formats ''ARGB8888''),
     (V4L2_PIX_FMT_ARGB32, formats ''BGRA8888''),
     (V4L2_PIX_FMT_BGRA32, formats ''RGBA8888''),
     (V4L2_PIX_FMT_YUYV, formats ''YUYV''),
     (V4L2_PIX_FMT_YVYU, formats ''YVYU''),
     (V4L2_PIX_FMT_UYVY, formats ''UYVY''),
     (V4L2_PIX_FMT_VYUY, formats ''VYUY''),
     (V4L2_PIX_FMT_NV16, formats ''NV16''),
     (V4L2_PIX_FMT_NV61, formats ''NV61''),
     (V4L2_PIX_FMT_NV12, formats ''NV12''),
     (V4L2_PIX_FMT_NV21, formats ''NV21''),
     (V4L2_PIX_FMT_YUV420, formats ''YUV420''),
     (V4L2_PIX_FMT_YVU420, formats ''YVU420''),
     (V4L2_PIX_FMT_YUV422P, formats ''YUV422''),
     (V4L2_PIX_FMT_GREY, formats ''R8''),
     (V4L2_PIX_FMT_SBGGR8, formats ''SBGGR8''),
     (V4L2_PIX_FMT_SGBRG8, formats ''SGBRG8''),
     (V4L2_PIX_FMT_SGRBG8, formats ''SGRBG8''),
     (V4L2_PIX_FMT_SRGGB8, formats ''SRGGB8''),
     (V4L2_PIX_FMT_SBGGR10, formats ''SBGGR10''),
     (V4L2_PIX_FMT_SGBRG10, formats ''SGBRG10''),
     (V4L2_PIX_FMT_SGRBG10, formats ''SGRBG10''),
     (V4L2_PIX_FMT_SRGGB10, formats ''SRGGB10''),
     (V4L2_PIX_FMT_SBGGR10P, formats ''SBGGR10_CSI2P''),
     (V4L2_PIX_FMT_SGBRG10P, formats ''SGBRG10_CSI2P''),
     (V4L2_PIX_FMT_SGRBG10P, formats ''SGRBG10_CSI2P''),
     (V4L2_PIX_FMT_SRGGB10P, formats ''SRGGB10_CSI2P''),
     (V4L2_PIX_FMT_SBGGR12, formats ''SBGGR12''),
     (V4L2_PIX_FMT_SGBRG12, formats ''SGBRG12''),
     (V4L2_PIX_FMT_SGRBG12, formats ''SGRBG12''),
     (V4L2_PIX_FMT_SRGGB12, formats ''SRGGB12''),
     (V4L2_PIX_FMT_SBGGR12P, formats ''SBGGR12_CSI2P''),
     (V4L2_PIX_FMT_SGBRG12P, formats ''SGBRG12_CSI2P''),
     (V4L2_PIX_FMT_SGRBG12P, formats ''SGRBG12_CSI2P''),
     (V4L2_PIX_FMT_SRGGB12P, formats ''SRGGB12_CSI2P''),
     (V4L2_PIX_FMT_SBGGR16, formats ''SBGGR16''),
     (V4L2_PIX_FMT_SGBRG16, formats ''SGBRG16''),
     (V4L2_PIX_FMT_SGRBG16, formats ''SGRBG16''),
     (V4L2_PIX_FMT_SRGGB16, formats ''SRGGB16''),
     (V4L2_PIX_FMT_MJPEG, formats ''MJPEG'')]"

definition V4L2PixelFormat_toPixelFormat :: "u32 \<Rightarrow> PixelFormat" where
  "V4L2PixelFormat_toPixelFormat v = (case map_of vpf2pf v of None \<Rightarrow> PixelFormat 0 0 | Some p \<Rightarrow> p)"

definition V4L2PixelFormat_fromPixelFormat :: "PixelFormat \<Rightarrow> bool \<Rightarrow> u32" where
  "V4L2PixelFormat_fromPixelFormat p multiplanar =
     (let i = PixelFormatInfo_info p in if PixelFormatInfo_isValid i then pi_v4l2Format i else 0)"

section \<open>The values of the constants\<close>

lemmas V4L2_defs = fourcc_code_def
  V4L2_PIX_FMT_RGB565_def V4L2_PIX_FMT_RGB565X_def V4L2_PIX_FMT_RGB24_def
  V4L2_PIX_FMT_BGR24_def V4L2_PIX_FMT_XBGR32_def V4L2_PIX_FMT_XRGB32_def
  V4L2_PIX_FMT_RGBA32_def V4L2_PIX_FMT_ABGR32_def V4L2_PIX_FMT_ARGB32_def
  V4L2_PIX_FMT_BGRA32_def V4L2_PIX_FMT_YUYV_def V4L2_PIX_FMT_YVYU_def
  V4L2_PIX_FMT_UYVY_def V4L2_PIX_FMT_VYUY_def V4L2_PIX_FMT_NV12_def
  V4L2_PIX_FMT_NV21_def V4L2_PIX_FMT_NV16_def V4L2_PIX_FMT_NV61_def
  V4L2_PIX_FMT_NV24_def V4L2_PIX_FMT_NV42_def V4L2_PIX_FMT_YUV420_def
  V4L2_PIX_FMT_YVU420_def V4L2_PIX_FMT_YUV422P_def V4L2_PIX_FMT_GREY_def
  V4L2_PIX_FMT_SBGGR8_def V4L2_PIX_FMT_SGBRG8_def V4L2_PIX_FMT_SGRBG8_def
  V4L2_PIX_FMT_SRGGB8_def V4L2_PIX_FMT_SBGGR10_def V4L2_PIX_FMT_SGBRG10_def
  V4L2_PIX_FMT_SGRBG10_def V4L2_PIX_FMT_SRGGB10_def V4L2_PIX_FMT_SBGGR10P_def
  V4L2_PIX_FMT_SGBRG10P_def V4L2_PIX_FMT_SGRBG10P_def V4L2_PIX_FMT_SRGGB10P_def
  V4L2_PIX_FMT_SBGGR12_def V4L2_PIX_FMT_SGBRG12_def V4L2_PIX_FMT_SGRBG12_def
  V4L2_PIX_FMT_SRGGB12_def V4L2_PIX_FMT_SBGGR12P_def V4L2_PIX_FMT_SGBRG12P_def
  V4L2_PIX_FMT_SGRBG12P_def V4L2_PIX_FMT_SRGGB12P_def V4L2_PIX_FMT_SBGGR16_def
  V4L2_PIX_FMT_SGBRG16_def V4L2_PIX_FMT_SGRBG16_def V4L2_PIX_FMT_SRGGB16_def
  V4L2_PIX_FMT_IPU3_SBGGR10_def V4L2_PIX_FMT_IPU3_SGBRG10_def V4L2_PIX_FMT_IPU3_SGRBG10_def
  V4L2_PIX_FMT_IPU3_SRGGB10_def V4L2_PIX_FMT_MJPEG_def

lemma V4L2_values:
  "V4L2_PIX_FMT_RGB565 = 0x50424752"
  "V4L2_PIX_FMT_RGB565X = 0x52424752"
  "V4L2_PIX_FMT_RGB24 = 0x33424752"
  "V4L2_PIX_FMT_BGR24 = 0x33524742"
  "V4L2_PIX_FMT_XBGR32 = 0x34325258"
  "V4L2_PIX_FMT_XRGB32 = 0x34325842"
  "V4L2_PIX_FMT_RGBA32 = 0x34324241"
  "V4L2_PIX_FMT_ABGR32 = 0x34325241"
  "V4L2_PIX_FMT_ARGB32 = 0x34324142"
  "V4L2_PIX_FMT_BGRA32 = 0x34324152"
  "V4L2_PIX_FMT_YUYV = 0x56595559"
  "V4L2_PIX_FMT_YVYU = 0x55595659"
  "V4L2_PIX_FMT_UYVY = 0x59565955"
  "V4L2_PIX_FMT_VYUY = 0x59555956"
  "V4L2_PIX_FMT_NV12 = 0x3231564e"
  "V4L2_PIX_FMT_NV21 = 0x3132564e"
  "V4L2_PIX_FMT_NV16 = 0x3631564e"
  "V4L2_PIX_FMT_NV61 = 0x3136564e"
  "V4L2_PIX_FMT_NV24 = 0x3432564e"
  "V4L2_PIX_FMT_NV42 = 0x3234564e"
  "V4L2_PIX_FMT_YUV420 = 0x32315559"
  "V4L2_PIX_FMT_YVU420 = 0x32315659"
  "V4L2_PIX_FMT_YUV422P = 0x50323234"
  "V4L2_PIX_FMT_GREY = 0x59455247"
  "V4L2_PIX_FMT_SBGGR8 = 0x31384142"
  "V4L2_PIX_FMT_SGBRG8 = 0x47524247"
  "V4L2_PIX_FMT_SGRBG8 = 0x47425247"
  "V4L2_PIX_FMT_SRGGB8 = 0x42474752"
  "V4L2_PIX_FMT_SBGGR10 = 0x30314742"
  "V4L2_PIX_FMT_SGBRG10 = 0x30314247"
  "V4L2_PIX_FMT_SGRBG10 = 0x30314142"
  "V4L2_PIX_FMT_SRGGB10 = 0x30314752"
  "V4L2_PIX_FMT_SBGGR10P = 0x41414270"
  "V4L2_PIX_FMT_SGBRG10P = 0x41414770"
  "V4L2_PIX_FMT_SGRBG10P = 0x41416770"
  "V4L2_PIX_FMT_SRGGB10P = 0x41415270"
  "V4L2_PIX_FMT_SBGGR12 = 0x32314742"
  "V4L2_PIX_FMT_SGBRG12 = 0x32314247"
  "V4L2_PIX_FMT_SGRBG12 = 0x32314142"
  "V4L2_PIX_FMT_SRGGB12 = 0x32314752"
  "V4L2_PIX_FMT_SBGGR12P = 0x43434270"
  "V4L2_PIX_FMT_SGBRG12P = 0x43434770"
  "V4L2_PIX_FMT_SGRBG12P = 0x43436770"
  "V4L2_PIX_FMT_SRGGB12P = 0x43435270"
  "V4L2_PIX_FMT_SBGGR16 = 0x32525942"
  "V4L2_PIX_FMT_SGBRG16 = 0x36314247"
  "V4L2_PIX_FMT_SGRBG16 = 0x36315247"
  "V4L2_PIX_FMT_SRGGB16 = 0x36314752"
  "V4L2_PIX_FMT_IPU3_SBGGR10 = 0x62337069"
  "V4L2_PIX_FMT_IPU3_SGBRG10 = 0x67337069"
  "V4L2_PIX_FMT_IPU3_SGRBG10 = 0x47337069"
  "V4L2_PIX_FMT_IPU3_SRGGB10 = 0x72337069"
  "V4L2_PIX_FMT_MJPEG = 0x47504a4d"
  by (simp_all add: V4L2_defs)

lemma drm_values:
  "drm_formats =
    [(''DRM_FORMAT_R8'', 0x20203852),
     (''DRM_FORMAT_RGB565'', 0x36314752),
     (''DRM_FORMAT_RGB888'', 0x34324752),
     (''DRM_FORMAT_BGR888'', 0x34324742),
     (''DRM_FORMAT_XRGB8888'', 0x34325258),
     (''DRM_FORMAT_XBGR8888'', 0x34324258),
     (''DRM_FORMAT_RGBX8888'', 0x34325852),
     (''DRM_FORMAT_BGRX8888'', 0x34325842),
     (''DRM_FORMAT_ARGB8888'', 0x34325241),
     (''DRM_FORMAT_ABGR8888'', 0x34324241),
     (''DRM_FORMAT_RGBA8888'', 0x34324152),
     (''DRM_FORMAT_BGRA8888'', 0x34324142),
     (''DRM_FORMAT_YUYV'', 0x56595559),
     (''DRM_FORMAT_YVYU'', 0x55595659),
     (''DRM_FORMAT_UYVY'', 0x59565955),
     (''DRM_FORMAT_VYUY'', 0x59555956),
     (''DRM_FORMAT_NV12'', 0x3231564e),
     (''DRM_FORMAT_NV21'', 0x3132564e),
     (''DRM_FORMAT_NV16'', 0x3631564e),
     (''DRM_FORMAT_NV61'', 0x3136564e),
     (''DRM_FORMAT_NV24'', 0x3432564e),
     (''DRM_FORMAT_NV42'', 0x3234564e),
     (''DRM_FORMAT_YUV420'', 0x32315559),
     (''DRM_FORMAT_YVU420'', 0x32315659),
     (''DRM_FORMAT_YUV422'', 0x36315559),
     (''DRM_FORMAT_MJPEG'', 0x47504a4d),
     (''DRM_FORMAT_SRGGB8'', 0x42474752),
     (''DRM_FORMAT_SGRBG8'', 0x47425247),
     (''DRM_FORMAT_SGBRG8'', 0x47524247),
     (''DRM_FORMAT_SBGGR8'', 0x31384142),
     (''DRM_FORMAT_SRGGB10'', 0x30314752),
     (''DRM_FORMAT_SGRBG10'', 0x30314142),
     (''DRM_FORMAT_SGBRG10'', 0x30314247),
     (''DRM_FORMAT_SBGGR10'', 0x30314742),
     (''DRM_FORMAT_SRGGB12'', 0x32314752),
     (''DRM_FORMAT_SGRBG12'', 0x32314142),
     (''DRM_FORMAT_SGBRG12'', 0x32314247),
     (''DRM_FORMAT_SBGGR12'', 0x32314742),
     (''DRM_FORMAT_SRGGB16'', 0x36424752),
     (''DRM_FORMAT_SGRBG16'', 0x36315247),
     (''DRM_FORMAT_SGBRG16'', 0x36314247),
     (''DRM_FORMAT_SBGGR16'', 0x32525942)]"
  by (simp add: drm_formats_def fourcc_code_def)

lemma drm_mods_values: "drm_mods = [(''IPU3_FORMAT_MOD_PACKED'', 0x100000000000009), (''MIPI_FORMAT_MOD_CSI2_PACKED'', 0xb00000000000001)]"
  by (simp add: drm_mods_def fourcc_mod_code_def)

lemma list_lookup: "xs = ys \<Longrightarrow> distinct (map fst ys) \<Longrightarrow> list_all (\<lambda>(k, v). map_of xs k = Some v) ys"
  by (auto simp: list_all_iff)

lemma distinct_drm: "distinct (map fst drm_formats)"
  unfolding drm_formats_def by simp

lemma distinct_yaml: "distinct (map fst formats_yaml)"
  unfolding formats_yaml_def by simp

lemmas drm_lookup = list_lookup [OF drm_values distinct_drm [unfolded drm_values], simplified]

lemmas yaml_lookup = list_lookup [OF formats_yaml_def distinct_yaml [unfolded formats_yaml_def], simplified]

lemma formats_values:
  "formats ''R8'' = PixelFormat 0x20203852 0x0"
  "formats ''RGB565'' = PixelFormat 0x36314752 0x0"
  "formats ''RGB565_BE'' = PixelFormat 0x36314752 0x0"
  "formats ''RGB888'' = PixelFormat 0x34324752 0x0"
  "formats ''BGR888'' = PixelFormat 0x34324742 0x0"
  "formats ''XRGB8888'' = PixelFormat 0x34325258 0x0"
  "formats ''XBGR8888'' = PixelFormat 0x34324258 0x0"
  "formats ''RGBX8888'' = PixelFormat 0x34325852 0x0"
  "formats ''BGRX8888'' = PixelFormat 0x34325842 0x0"
  "formats ''ARGB8888'' = PixelFormat 0x34325241 0x0"
  "formats ''ABGR8888'' = PixelFormat 0x34324241 0x0"
  "formats ''RGBA8888'' = PixelFormat 0x34324152 0x0"
  "formats ''BGRA8888'' = PixelFormat 0x34324142 0x0"
  "formats ''YUYV'' = PixelFormat 0x56595559 0x0"
  "formats ''YVYU'' = PixelFormat 0x55595659 0x0"
  "formats ''UYVY'' = PixelFormat 0x59565955 0x0"
  "formats ''VYUY'' = PixelFormat 0x59555956 0x0"
  "formats ''NV12'' = PixelFormat 0x3231564e 0x0"
  "formats ''NV21'' = PixelFormat 0x3132564e 0x0"
  "formats ''NV16'' = PixelFormat 0x3631564e 0x0"
  "formats ''NV61'' = PixelFormat 0x3136564e 0x0"
  "formats ''NV24'' = PixelFormat 0x3432564e 0x0"
  "formats ''NV42'' = PixelFormat 0x3234564e 0x0"
  "formats ''YUV420'' = PixelFormat 0x32315559 0x0"
  "formats ''YVU420'' = PixelFormat 0x32315659 0x0"
  "formats ''YUV422'' = PixelFormat 0x36315559 0x0"
  "formats ''MJPEG'' = PixelFormat 0x47504a4d 0x0"
  "formats ''SRGGB8'' = PixelFormat 0x42474752 0x0"
  "formats ''SGRBG8'' = PixelFormat 0x47425247 0x0"
  "formats ''SGBRG8'' = PixelFormat 0x47524247 0x0"
  "formats ''SBGGR8'' = PixelFormat 0x31384142 0x0"
  "formats ''SRGGB10'' = PixelFormat 0x30314752 0x0"
  "formats ''SGRBG10'' = PixelFormat 0x30314142 0x0"
  "formats ''SGBRG10'' = PixelFormat 0x30314247 0x0"
  "formats ''SBGGR10'' = PixelFormat 0x30314742 0x0"
  "formats ''SRGGB12'' = PixelFormat 0x32314752 0x0"
  "formats ''SGRBG12'' = PixelFormat 0x32314142 0x0"
  "formats ''SGBRG12'' = PixelFormat 0x32314247 0x0"
  "formats ''SBGGR12'' = PixelFormat 0x32314742 0x0"
  "formats ''SRGGB16'' = PixelFormat 0x36424752 0x0"
  "formats ''SGRBG16'' = PixelFormat 0x36315247 0x0"
  "formats ''SGBRG16'' = PixelFormat 0x36314247 0x0"
  "formats ''SBGGR16'' = PixelFormat 0x32525942 0x0"
  "formats ''SRGGB10_CSI2P'' = PixelFormat 0x30314752 0xb00000000000001"
  "formats ''SGRBG10_CSI2P'' = PixelFormat 0x30314142 0xb00000000000001"
  "formats ''SGBRG10_CSI2P'' = PixelFormat 0x30314247 0xb00000000000001"
  "formats ''SBGGR10_CSI2P'' = PixelFormat 0x30314742 0xb00000000000001"
  "formats ''SRGGB12_CSI2P'' = PixelFormat 0x32314752 0xb00000000000001"
  "formats ''SGRBG12_CSI2P'' = PixelFormat 0x32314142 0xb00000000000001"
  "formats ''SGBRG12_CSI2P'' = PixelFormat 0x32314247 0xb00000000000001"
  "formats ''SBGGR12_CSI2P'' = PixelFormat 0x32314742 0xb00000000000001"
  "formats ''SRGGB10_IPU3'' = PixelFormat 0x30314752 0x100000000000009"
  "formats ''SGRBG10_IPU3'' = PixelFormat 0x30314142 0x100000000000009"
  "formats ''SGBRG10_IPU3'' = PixelFormat 0x30314247 0x100000000000009"
  "formats ''SBGGR10_IPU3'' = PixelFormat 0x30314742 0x100000000000009"
  by (simp_all add: formats_def generate_format_def yaml_lookup drm_lookup drm_mods_values)


section \<open>The table as a set\<close>

lemma rgb_formats_columns:
  "map pi_name rgb_formats = [''RGB565'', ''RGB565_BE'', ''BGR888'', ''RGB888'', ''XRGB8888'', ''XBGR8888'',
      ''ABGR8888'', ''ARGB8888'', ''BGRA8888'', ''RGBA8888'']"
  "map pi_format rgb_formats =
     [PixelFormat 0x36314752 0x0, PixelFormat 0x36314752 0x0, PixelFormat 0x34324742 0x0, PixelFormat 0x34324752
      0x0, PixelFormat 0x34325258 0x0, PixelFormat 0x34324258 0x0, PixelFormat 0x34324241 0x0, PixelFormat
      0x34325241 0x0, PixelFormat 0x34324142 0x0, PixelFormat 0x34324152 0x0]"
  "map pi_v4l2Format rgb_formats = [0x50424752, 0x52424752, 0x33424752, 0x33524742, 0x34325258, 0x34325842,
      0x34324241, 0x34325241, 0x34324142, 0x34324152]"
  by (simp_all add: rgb_formats_def format_info_def formats_values V4L2_values)

lemma packed_formats_columns:
  "map pi_name packed_formats = [''YUYV'', ''YVYU'', ''UYVY'', ''VYUY'']"
  "map pi_format packed_formats =
     [PixelFormat 0x56595559 0x0, PixelFormat 0x55595659 0x0, PixelFormat 0x59565955 0x0, PixelFormat 0x59555956 0x0]"
  "map pi_v4l2Format packed_formats = [0x56595559, 0x55595659, 0x59565955, 0x59555956]"
  by (simp_all add: packed_formats_def format_info_def formats_values V4L2_values)

lemma planar_formats_columns:
  "map pi_name planar_formats = [''NV12'', ''NV21'', ''NV16'', ''NV61'', ''NV24'', ''NV42'', ''YUV420'',
      ''YVU420'', ''YUV422'']"
  "map pi_format planar_formats =
     [PixelFormat 0x3231564e 0x0, PixelFormat 0x3132564e 0x0, PixelFormat 0x3631564e 0x0, PixelFormat 0x3136564e
      0x0, PixelFormat 0x3432564e 0x0, PixelFormat 0x3234564e 0x0, PixelFormat 0x32315559 0x0, PixelFormat
      0x32315659 0x0, PixelFormat 0x36315559 0x0]"
  "map pi_v4l2Format planar_formats = [0x3231564e, 0x3132564e, 0x3631564e, 0x3136564e, 0x3432564e, 0x3234564e,
      0x32315559, 0x32315659, 0x50323234]"
  by (simp_all add: planar_formats_def format_info_def formats_values V4L2_values)

lemma grey_formats_columns:
  "map pi_name grey_formats = [''R8'']"
  "map pi_format grey_formats =
     [PixelFormat 0x20203852 0x0]"
  "map pi_v4l2Format grey_formats = [0x59455247]"
  by (simp_all add: grey_formats_def format_info_def formats_values V4L2_values)

lemma bayer_8_10_formats_columns:
  "map pi_name bayer_8_10_formats = [''SBGGR8'', ''SGBRG8'', ''SGRBG8'', ''SRGGB8'', ''SBGGR10'', ''SGBRG10'',
      ''SGRBG10'', ''SRGGB10'']"
  "map pi_format bayer_8_10_formats =
     [PixelFormat 0x31384142 0x0, PixelFormat 0x47524247 0x0, PixelFormat 0x47425247 0x0, PixelFormat 0x42474752
      0x0, PixelFormat 0x30314742 0x0, PixelFormat 0x30314247 0x0, PixelFormat 0x30314142 0x0, PixelFormat
      0x30314752 0x0]"
  "map pi_v4l2Format bayer_8_10_formats = [0x31384142, 0x47524247, 0x47425247, 0x42474752, 0x30314742, 0x30314247,
      0x30314142, 0x30314752]"
  by (simp_all add: bayer_8_10_formats_def format_info_def formats_values V4L2_values)

lemma bayer_csi2_12_formats_columns:
  "map pi_name bayer_csi2_12_formats = [''SBGGR10_CSI2P'', ''SGBRG10_CSI2P'', ''SGRBG10_CSI2P'', ''SRGGB10_CSI2P'',
      ''SBGGR12'', ''SGBRG12'', ''SGRBG12'', ''SRGGB12'']"
  "map pi_format bayer_csi2_12_formats =
     [PixelFormat 0x30314742 0xb00000000000001, PixelFormat 0x30314247 0xb00000000000001, PixelFormat 0x30314142
      0xb00000000000001, PixelFormat 0x30314752 0xb00000000000001, PixelFormat 0x32314742 0x0, PixelFormat
      0x32314247 0x0, PixelFormat 0x32314142 0x0, PixelFormat 0x32314752 0x0]"
  "map pi_v4l2Format bayer_csi2_12_formats = [0x41414270, 0x41414770, 0x41416770, 0x41415270, 0x32314742,
      0x32314247, 0x32314142, 0x32314752]"
  by (simp_all add: bayer_csi2_12_formats_def format_info_def formats_values V4L2_values)

lemma bayer_12_16_formats_columns:
  "map pi_name bayer_12_16_formats = [''SBGGR12_CSI2P'', ''SGBRG12_CSI2P'', ''SGRBG12_CSI2P'', ''SRGGB12_CSI2P'',
      ''SBGGR16'', ''SGBRG16'', ''SGRBG16'', ''SRGGB16'']"
  "map pi_format bayer_12_16_formats =
     [PixelFormat 0x32314742 0xb00000000000001, PixelFormat 0x32314247 0xb00000000000001, PixelFormat 0x32314142
      0xb00000000000001, PixelFormat 0x32314752 0xb00000000000001, PixelFormat 0x32525942 0x0, PixelFormat
      0x36314247 0x0, PixelFormat 0x36315247 0x0, PixelFormat 0x36424752 0x0]"
  "map pi_v4l2Format bayer_12_16_formats = [0x43434270, 0x43434770, 0x43436770, 0x43435270, 0x32525942, 0x36314247,
      0x36315247, 0x36314752]"
  by (simp_all add: bayer_12_16_formats_def format_info_def formats_values V4L2_values)

lemma bayer_ipu3_formats_columns:
  "map pi_name bayer_ipu3_formats = [''SBGGR10_IPU3'', ''SGBRG10_IPU3'', ''SGRBG10_IPU3'', ''SRGGB10_IPU3'']"
  "map pi_format bayer_ipu3_formats =
     [PixelFormat 0x30314742 0x100000000000009, PixelFormat 0x30314247 0x100000000000009, PixelFormat 0x30314142
      0x100000000000009, PixelFormat 0x30314752 0x100000000000009]"
  "map pi_v4l2Format bayer_ipu3_formats = [0x62337069, 0x67337069, 0x47337069, 0x72337069]"
  by (simp_all add: bayer_ipu3_formats_def format_info_def formats_values V4L2_values)

lemma compressed_formats_columns:
  "map pi_name compressed_formats = [''MJPEG'']"
  "map pi_format compressed_formats =
     [PixelFormat 0x47504a4d 0x0]"
  "map pi_v4l2Format compressed_formats = [0x47504a4d]"
  by (simp_all add: compressed_formats_def format_info_def formats_values V4L2_values)

lemmas entries_columns =
  rgb_formats_columns packed_formats_columns planar_formats_columns
  grey_formats_columns bayer_8_10_formats_columns bayer_csi2_12_formats_columns
  bayer_12_16_formats_columns bayer_ipu3_formats_columns compressed_formats_columns

lemma entries_names: "distinct (map pi_name pixelFormatInfo_entries)"
  unfolding pixelFormatInfo_entries_def map_append entries_columns by simp

lemma distinct_via: "distinct (map f xs) \<Longrightarrow> distinct xs"
  by (simp add: distinct_map)

lemma entries_v4l2: "distinct (map pi_v4l2Format pixelFormatInfo_entries)"
  by (rule distinct_via [where f = unat], unfold pixelFormatInfo_entries_def map_append entries_columns) simp

text \<open>The second entry has the key of the first one: it is not in the map.\<close>

lemma entries_split:
  obtains a b es where "pixelFormatInfo_entries = a # b # es" "pi_name b = ''RGB565_BE''" "pi_format b = pi_format a"
    "distinct (map pi_format (a # es))"
proof -
  obtain a b es where r: "rgb_formats = a # b # es" by (simp add: rgb_formats_def)
  define fs where "fs = es @ drop 10 pixelFormatInfo_entries"
  have "length rgb_formats = 10" by (simp add: rgb_formats_def)
  then have e: "pixelFormatInfo_entries = a # b # fs"
    by (simp add: fs_def pixelFormatInfo_entries_def r)
  have k: "map pi_name (a # b # es) = map pi_name rgb_formats" "map pi_format (a # b # es) = map pi_format rgb_formats"
    by (simp_all add: r)
  have "pi_name b = ''RGB565_BE''" "pi_format b = pi_format a" "pi_format a = PixelFormat 0x36314752 0"
    using k by (simp_all add: entries_columns)
  note first = this
  have "map pi_format (a # b # fs) = map pi_format pixelFormatInfo_entries" by (simp only: e)
  then have "pi_format a # map pi_format fs =
      hd (map pi_format pixelFormatInfo_entries) # drop 2 (map pi_format pixelFormatInfo_entries)"
    by (simp add: e)
  moreover have "distinct (hd (map pi_format pixelFormatInfo_entries) # drop 2 (map pi_format pixelFormatInfo_entries))"
    by (rule distinct_via [where f = "\<lambda>p. (unat (pf_fourcc p), unat (pf_modifier p))"],
        unfold pixelFormatInfo_entries_def map_append entries_columns) simp
  ultimately have "distinct (pi_format a # map pi_format fs)" by (simp only:)
  with first show ?thesis using that [OF e] by simp
qed

lemma zip_columns: "set (zip (map f xs) (map g xs)) = (\<lambda>x. (f x, g x)) ` set xs"
  by (auto simp: zip_map_map zip_same_conv_map)

lemma BE_v4l2: "i \<in> set pixelFormatInfo_entries \<Longrightarrow> pi_name i = ''RGB565_BE'' \<Longrightarrow> pi_v4l2Format i = V4L2_PIX_FMT_RGB565X"
proof -
  have "list_all (\<lambda>(n, v). n = ''RGB565_BE'' \<longrightarrow> v = V4L2_PIX_FMT_RGB565X)
      (zip (map pi_name pixelFormatInfo_entries) (map pi_v4l2Format pixelFormatInfo_entries))"
    unfolding pixelFormatInfo_entries_def map_append entries_columns V4L2_values by simp
  then show "i \<in> set pixelFormatInfo_entries \<Longrightarrow> pi_name i = ''RGB565_BE'' \<Longrightarrow> pi_v4l2Format i = V4L2_PIX_FMT_RGB565X"
    by (auto simp: list_all_iff zip_columns)
qed

lemma entries_valid: "i \<in> set pixelFormatInfo_entries \<Longrightarrow> PixelFormat_isValid (pi_format i)"
proof -
  have "list_all PixelFormat_isValid (map pi_format pixelFormatInfo_entries)"
    unfolding pixelFormatInfo_entries_def map_append entries_columns by (simp add: PixelFormat_isValid_def)
  then show "i \<in> set pixelFormatInfo_entries \<Longrightarrow> PixelFormat_isValid (pi_format i)" by (simp add: list_all_iff)
qed

lemma pixelFormatInfo_set:
  "map_of pixelFormatInfo p = Some i \<longleftrightarrow>
     i \<in> set pixelFormatInfo_entries \<and> pi_name i \<noteq> ''RGB565_BE'' \<and> p = pi_format i" (is ?map)
  "(p, i) \<in> set pixelFormatInfo \<longleftrightarrow> map_of pixelFormatInfo p = Some i" (is ?set)
proof -
  obtain a b es where e: "pixelFormatInfo_entries = a # b # es" "pi_name b = ''RGB565_BE''" "pi_format b = pi_format a"
    "distinct (map pi_format (a # es))" by (rule entries_split)
  note m = foldl_map_emplace [of "[]" pi_format pixelFormatInfo_entries p, folded pixelFormatInfo_def]
  have d: "distinct (map fst pixelFormatInfo)"
    using m by (auto simp: map_ok_def strict_sorted_iff)
  then show ?set by (simp add: map_of_eq_Some_iff)
  have "map_of pixelFormatInfo p = map_of (map (\<lambda>i. (pi_format i, i)) pixelFormatInfo_entries) p"
    using m by simp
  also have "\<dots> = map_of (map (\<lambda>i. (pi_format i, i)) (a # b # es)) p" by (simp only: e(1))
  also have "\<dots> = map_of (map (\<lambda>i. (pi_format i, i)) (a # es)) p" using e(3) by simp
  finally have "map_of pixelFormatInfo p = map_of (map (\<lambda>i. (pi_format i, i)) (a # es)) p" .
  moreover have "distinct (map fst (map (\<lambda>i. (pi_format i, i)) (a # es)))" using e(4) by (simp add: comp_def)
  moreover have n: "pi_name a \<noteq> pi_name b" "pi_name b \<notin> pi_name ` set es"
    using entries_names unfolding e(1) by simp_all
  moreover have "\<forall>i \<in> set es. pi_name i \<noteq> pi_name b" using n(2) by (metis imageI)
  ultimately show ?map using e(2) unfolding e(1) by (auto simp: map_of_eq_Some_iff)
qed

lemma find_unique:
  assumes "x \<in> set xs" "P x" "\<And>y. y \<in> set xs \<Longrightarrow> P y \<Longrightarrow> y = x"
  shows "find P xs = Some x"
proof (cases "find P xs")
  case None
  with assms(1,2) show ?thesis by (auto simp: find_None_iff)
next
  case (Some y)
  then have "y \<in> set xs \<and> P y" by (auto simp: find_Some_iff)
  with assms(3) Some show ?thesis by blast
qed

lemma distinct_map_eq: "distinct (map f xs) \<Longrightarrow> x \<in> set xs \<Longrightarrow> y \<in> set xs \<Longrightarrow> f x = f y \<Longrightarrow> x = y"
  by (auto simp: distinct_map dest: inj_onD)

lemma info_of_entry:
  assumes "i \<in> set pixelFormatInfo_entries" "pi_name i \<noteq> ''RGB565_BE''"
  shows "PixelFormatInfo_info (pi_format i) = i" "PixelFormatInfo_info_name (pi_name i) = i"
    "PixelFormatInfo_info_v4l2 (pi_v4l2Format i) = i"
proof -
  have s: "(pi_format i, i) \<in> set pixelFormatInfo" using assms pixelFormatInfo_set by simp
  have names: "j \<in> set pixelFormatInfo_entries \<Longrightarrow> pi_name j = pi_name i \<Longrightarrow> j = i" for j
    using distinct_map_eq [OF entries_names] assms(1) by blast
  have v4l2: "j \<in> set pixelFormatInfo_entries \<Longrightarrow> pi_v4l2Format j = pi_v4l2Format i \<Longrightarrow> j = i" for j
    using distinct_map_eq [OF entries_v4l2] assms(1) by blast
  show "PixelFormatInfo_info (pi_format i) = i"
    using assms pixelFormatInfo_set(1) [of "pi_format i" i] by (simp add: PixelFormatInfo_info_def)
  have "find (\<lambda>(p, j). pi_name j = pi_name i) pixelFormatInfo = Some (pi_format i, i)"
    using s by (intro find_unique) (auto simp: pixelFormatInfo_set dest: names)
  then show "PixelFormatInfo_info_name (pi_name i) = i" by (simp add: PixelFormatInfo_info_name_def)
  have "find (\<lambda>(p, j). pi_v4l2Format j = pi_v4l2Format i) pixelFormatInfo = Some (pi_format i, i)"
    using s by (intro find_unique) (auto simp: pixelFormatInfo_set dest: v4l2)
  then show "PixelFormatInfo_info_v4l2 (pi_v4l2Format i) = i" by (simp add: PixelFormatInfo_info_v4l2_def)
qed

lemma info_valid_entry:
  assumes "PixelFormatInfo_isValid (PixelFormatInfo_info p)"
  obtains i where "PixelFormatInfo_info p = i" "i \<in> set pixelFormatInfo_entries" "pi_name i \<noteq> ''RGB565_BE''"
    "pi_format i = p"
proof (cases "map_of pixelFormatInfo p")
  case None
  with assms show ?thesis
    by (simp add: PixelFormatInfo_info_def PixelFormatInfo_isValid_def pixelFormatInfoInvalid_def PixelFormat_isValid_def)
next
  case (Some i)
  with that [of i] show ?thesis by (auto simp: pixelFormatInfo_set PixelFormatInfo_info_def)
qed

section \<open>What every entry satisfies\<close>

text \<open>
  Each plane with bytes has a subsampling of one or two rows, and together the planes of a group hold the bits of its
  pixels.
\<close>

definition plane_ok :: "PixelFormatPlaneInfo \<Rightarrow> bool" where
  "plane_ok p \<longleftrightarrow>
     (pp_bytesPerGroup p, pp_verticalSubSampling p) = (0, 0) \<or>
     0 < unat (pp_bytesPerGroup p) \<and> unat (pp_bytesPerGroup p) \<le> 32 \<and> unat (pp_verticalSubSampling p) \<in> {1, 2}"

definition group_bytes2 :: "PixelFormatInfo \<Rightarrow> nat" where
  "group_bytes2 i =
     (\<Sum>p \<leftarrow> pi_planes i. unat (pp_bytesPerGroup p) * (2 div unat (pp_verticalSubSampling p)))"

definition info_ok :: "PixelFormatInfo \<Rightarrow> bool" where
  "info_ok i \<longleftrightarrow>
     length (pi_planes i) = 3 \<and> list_all plane_ok (pi_planes i) \<and>
     0 < unat (pi_pixelsPerGroup i) \<and> unat (pi_pixelsPerGroup i) \<le> 25 \<and>
     unat (pi_bitsPerPixel i) * unat (pi_pixelsPerGroup i) \<le> 4 * group_bytes2 i"

lemma groups_ok:
  "list_all info_ok rgb_formats" "list_all info_ok packed_formats" "list_all info_ok planar_formats"
  "list_all info_ok grey_formats" "list_all info_ok bayer_8_10_formats" "list_all info_ok bayer_csi2_12_formats"
  "list_all info_ok bayer_12_16_formats" "list_all info_ok bayer_ipu3_formats" "list_all info_ok compressed_formats"
  unfolding rgb_formats_def packed_formats_def planar_formats_def grey_formats_def bayer_8_10_formats_def
    bayer_csi2_12_formats_def bayer_12_16_formats_def bayer_ipu3_formats_def compressed_formats_def format_info_def
  by (simp_all add: info_ok_def plane_ok_def group_bytes2_def)

lemma entries_ok: "i \<in> set pixelFormatInfo_entries \<Longrightarrow> info_ok i"
  using groups_ok by (auto simp: pixelFormatInfo_entries_def list_all_iff)

section \<open>Frame sizes over the integers\<close>

definition ceil_div :: "nat \<Rightarrow> nat \<Rightarrow> nat" where
  "ceil_div a b = (a + b - 1) div b"

definition line_bytes :: "PixelFormatInfo \<Rightarrow> PixelFormatPlaneInfo \<Rightarrow> nat \<Rightarrow> nat \<Rightarrow> nat" where
  "line_bytes i p width align =
     ceil_div (ceil_div width (unat (pi_pixelsPerGroup i)) * unat (pp_bytesPerGroup p)) align * align"

definition frame_bytes :: "PixelFormatInfo \<Rightarrow> nat \<Rightarrow> nat \<Rightarrow> nat \<Rightarrow> nat" where
  "frame_bytes i width height align =
     (\<Sum>p \<leftarrow> pi_planes i. if pp_verticalSubSampling p = 0 then 0
        else line_bytes i p width align * ceil_div height (unat (pp_verticalSubSampling p)))"

lemma ceil_div_ge: "0 < b \<Longrightarrow> a \<le> ceil_div a b * b"
  using dividend_less_div_times [of b "a + b - 1"] by (simp add: ceil_div_def algebra_simps)

lemma ceil_div_le: "0 < b \<Longrightarrow> ceil_div a b \<le> a"
proof (cases a)
  case (Suc n)
  assume "0 < b"
  then have "(n + b) div b = Suc (n div b)" by (simp add: div_add_self2)
  then show ?thesis using Suc div_le_dividend [of n b] by (simp add: ceil_div_def)
qed (simp add: ceil_div_def)

lemma unat_ceil_div:
  fixes a b :: u32
  assumes "0 < unat b" "unat a + unat b < 2 ^ 32"
  shows "unat ((a + b - 1) div b) = ceil_div (unat a) (unat b)"
proof -
  have s: "unat (a + b) = unat a + unat b" using assms(2) by (simp add: unat_add_u32)
  have "1 \<le> a + b" using s assms(1) by (simp add: word_le_nat_alt)
  then have "unat (a + b - 1) = unat a + unat b - 1" using s by (simp add: unat_sub)
  then show ?thesis by (simp add: unat_div ceil_div_def)
qed

lemma stride_exact:
  assumes "info_ok i" "PixelFormatInfo_isValid i" "n < 3" "pp_bytesPerGroup (pi_planes i ! n) \<noteq> 0"
    and "unat width \<le> 2 ^ 26" "0 < unat align" "unat align \<le> 2 ^ 30"
  shows "\<exists>x. PixelFormatInfo_stride i width (of_nat n) align = Some x \<and>
    unat x = line_bytes i (pi_planes i ! n) (unat width) (unat align)"
proof -
  let ?p = "pi_planes i ! n"
  have p: "plane_ok ?p" using assms(1,3) by (auto simp: info_ok_def list_all_length)
  let ?g = "pi_pixelsPerGroup i" and ?b = "pp_bytesPerGroup ?p"
  have g: "0 < unat ?g" "unat ?g \<le> 25" and b: "unat ?b \<le> 32"
    using assms(1,4) p by (auto simp: info_ok_def plane_ok_def)
  have c: "unat ((width + ?g - 1) div ?g) = ceil_div (unat width) (unat ?g)"
    by (rule unat_ceil_div) (use g assms(5) in simp_all)
  have le: "ceil_div (unat width) (unat ?g) * unat ?b \<le> 2 ^ 26 * 32"
    using ceil_div_le [OF g(1), of "unat width"] assms(5) b by (intro mult_le_mono) simp_all
  let ?s = "(width + ?g - 1) div ?g * ?b"
  have s: "unat ?s = ceil_div (unat width) (unat ?g) * unat ?b"
    using unat_mult_u32 [of "(width + ?g - 1) div ?g" ?b] c le by simp
  have r: "unat ((?s + align - 1) div align) = ceil_div (unat ?s) (unat align)"
    by (rule unat_ceil_div) (use assms(6,7) s le in simp_all)
  have "ceil_div (unat ?s) (unat align) * unat align \<le> unat ?s + unat align - 1"
    by (simp add: ceil_div_def)
  then have "unat ((?s + align - 1) div align * align) = ceil_div (unat ?s) (unat align) * unat align"
    using unat_mult_u32 [of "(?s + align - 1) div align" align] r s le assms(7) by simp
  moreover have "unat (of_nat n :: u32) = n" using assms(3) by (simp add: unat_of_nat_u32)
  ultimately show ?thesis
    using assms g by (auto simp: PixelFormatInfo_stride_def Let_def line_bytes_def s info_ok_def)
qed

definition plane_bytes :: "PixelFormatInfo \<Rightarrow> nat \<Rightarrow> nat \<Rightarrow> nat \<Rightarrow> PixelFormatPlaneInfo \<Rightarrow> nat" where
  "plane_bytes i width height align p =
     (if pp_verticalSubSampling p = 0 then 0
      else line_bytes i p width align * ceil_div height (unat (pp_verticalSubSampling p)))"

lemma frame_bytes_planes: "frame_bytes i width height align = (\<Sum>p \<leftarrow> pi_planes i. plane_bytes i width height align p)"
  by (simp add: frame_bytes_def plane_bytes_def)

lemma frame_size_step:
  assumes i: "info_ok i" "PixelFormatInfo_isValid i" "n < 3"
    and s: "unat (sz_width s) \<le> 2 ^ 26" "unat (sz_height s) \<le> 2 ^ 31" "0 < unat align" "unat align \<le> 2 ^ 30"
    and fits: "unat acc + plane_bytes i (unat (sz_width s)) (unat (sz_height s)) (unat align) (pi_planes i ! n) < 2 ^ 32"
  shows "\<exists>acc'. frame_size_loop i s align (n # ns) acc = frame_size_loop i s align ns acc' \<and>
    unat acc' = unat acc + plane_bytes i (unat (sz_width s)) (unat (sz_height s)) (unat align) (pi_planes i ! n)"
proof (cases "pp_verticalSubSampling (pi_planes i ! n) = 0")
  case True
  then show ?thesis by (intro exI [of _ acc]) (simp add: plane_bytes_def)
next
  case False
  let ?p = "pi_planes i ! n"
  have p: "plane_ok ?p" using i by (auto simp: info_ok_def list_all_length)
  with False have b: "pp_bytesPerGroup ?p \<noteq> 0" and v: "0 < unat (pp_verticalSubSampling ?p)"
    "unat (pp_verticalSubSampling ?p) \<le> 2" by (auto simp: plane_ok_def)
  from stride_exact [OF i b s(1,3,4)] obtain x where
    x: "PixelFormatInfo_stride i (sz_width s) (of_nat n) align = Some x"
      "unat x = line_bytes i ?p (unat (sz_width s)) (unat align)" by blast
  have r: "unat (plane_rows ?p s) = ceil_div (unat (sz_height s)) (unat (pp_verticalSubSampling ?p))"
    unfolding plane_rows_def by (rule unat_ceil_div) (use v s(2) in simp_all)
  have t: "plane_bytes i (unat (sz_width s)) (unat (sz_height s)) (unat align) ?p = unat x * unat (plane_rows ?p s)"
    using False by (simp add: plane_bytes_def x r)
  then have m: "unat (x * plane_rows ?p s) = unat x * unat (plane_rows ?p s)" using fits by (simp add: unat_mult_u32)
  then have "unat (acc + x * plane_rows ?p s) = unat acc + unat x * unat (plane_rows ?p s)"
    using fits by (simp add: unat_add_u32 t)
  then show ?thesis using False x(1)
    by (intro exI [of _ "acc + x * plane_rows ?p s"]) (simp add: Let_def t)
qed

lemma frame_size_loop_exact:
  assumes "info_ok i" "PixelFormatInfo_isValid i"
    and "unat (sz_width s) \<le> 2 ^ 26" "unat (sz_height s) \<le> 2 ^ 31" "0 < unat align" "unat align \<le> 2 ^ 30"
    and "frame_bytes i (unat (sz_width s)) (unat (sz_height s)) (unat align) < 2 ^ 32"
  shows "\<exists>x. PixelFormatInfo_frameSize i s align = Some x \<and>
    unat x = frame_bytes i (unat (sz_width s)) (unat (sz_height s)) (unat align)"
proof -
  note step = frame_size_step [OF assms(1,2) _ assms(3-6)]
  let ?b = "\<lambda>n. plane_bytes i (unat (sz_width s)) (unat (sz_height s)) (unat align) (pi_planes i ! n)"
  obtain p q r where "pi_planes i = [p, q, r]"
    using assms(1) by (auto simp: info_ok_def length_Suc_conv numeral_3_eq_3)
  then have f: "frame_bytes i (unat (sz_width s)) (unat (sz_height s)) (unat align) = ?b 0 + ?b 1 + ?b 2"
    by (simp add: frame_bytes_planes numeral_2_eq_2)
  from step [of 0 0 "[1, 2]"] f assms(7) obtain a where
    a: "frame_size_loop i s align [0, 1, 2] 0 = frame_size_loop i s align [1, 2] a" "unat a = ?b 0" by auto
  from step [of 1 a "[2]"] f assms(7) a(2) obtain b where
    b: "frame_size_loop i s align [1, 2] a = frame_size_loop i s align [2] b" "unat b = ?b 0 + ?b 1" by auto
  from step [of 2 b "[]"] f assms(7) b(2) obtain c where
    c: "frame_size_loop i s align [2] b = Some c" "unat c = ?b 0 + ?b 1 + ?b 2" by auto
  show ?thesis using a(1) b(1) c f by (simp add: PixelFormatInfo_frameSize_def)
qed

lemma plane_bytes_ge:
  assumes "plane_ok p" "0 < align"
  shows "ceil_div width (unat (pi_pixelsPerGroup i)) * height *
      (unat (pp_bytesPerGroup p) * (2 div unat (pp_verticalSubSampling p))) \<le> 2 * plane_bytes i width height align p"
proof (cases "pp_verticalSubSampling p = 0")
  case True
  then show ?thesis using assms(1) by (auto simp: plane_ok_def)
next
  case False
  let ?w = "ceil_div width (unat (pi_pixelsPerGroup i))" and ?b = "unat (pp_bytesPerGroup p)"
  let ?v = "unat (pp_verticalSubSampling p)"
  have v: "?v \<in> {1, 2}" using assms(1) False by (auto simp: plane_ok_def)
  have "?w * ?b \<le> line_bytes i p width align" using ceil_div_ge [OF assms(2)] by (simp add: line_bytes_def)
  moreover have "height * (2 div ?v) \<le> 2 * ceil_div height ?v"
    using v ceil_div_ge [of 2 height] by (auto simp: ceil_div_def)
  ultimately have "(?w * ?b) * (height * (2 div ?v)) \<le> line_bytes i p width align * (2 * ceil_div height ?v)"
    by (rule mult_le_mono)
  then show ?thesis using False by (simp add: plane_bytes_def algebra_simps)
qed

lemma frame_bytes_ge:
  assumes "info_ok i" "0 < align"
  shows "width * height * unat (pi_bitsPerPixel i) \<le> 8 * frame_bytes i width height align"
proof -
  let ?g = "unat (pi_pixelsPerGroup i)" and ?w = "ceil_div width (unat (pi_pixelsPerGroup i))"
  have "?w * height * (\<Sum>p \<leftarrow> ps. unat (pp_bytesPerGroup p) * (2 div unat (pp_verticalSubSampling p))) \<le>
      2 * (\<Sum>p \<leftarrow> ps. plane_bytes i width height align p)" if "list_all plane_ok ps" for ps
    using that
  proof (induction ps)
    case (Cons p ps)
    with plane_bytes_ge [OF _ assms(2), of p width i height] show ?case by (simp add: algebra_simps)
  qed simp
  then have "?w * height * group_bytes2 i \<le> 2 * frame_bytes i width height align"
    using assms(1) by (simp add: info_ok_def group_bytes2_def frame_bytes_planes)
  moreover have "width * height * (unat (pi_bitsPerPixel i) * ?g) \<le> ?w * ?g * height * (4 * group_bytes2 i)"
    by (rule mult_le_mono, rule mult_le_mono1) (use assms(1) ceil_div_ge [of ?g width] in \<open>simp_all add: info_ok_def\<close>)
  moreover have "?w * ?g * height * (4 * group_bytes2 i) = 4 * ?g * (?w * height * group_bytes2 i)" by simp
  ultimately have "width * height * (unat (pi_bitsPerPixel i) * ?g) \<le> 4 * ?g * (2 * frame_bytes i width height align)"
    by (metis mult_le_mono2 le_trans)
  then have "(width * height * unat (pi_bitsPerPixel i)) * ?g \<le> (8 * frame_bytes i width height align) * ?g"
    by (simp add: ac_simps)
  then show ?thesis using assms(1) by (simp add: info_ok_def)
qed

section \<open>Properties\<close>

text \<open>
  C21. For every known format the size of a frame is the exact number of bytes of its planes, rounded up to groups of
  pixels, to the alignment of lines and to subsampled rows, as long as it fits 32 bits; and a buffer of that size
  holds the bits of all pixels.
\<close>

theorem frameSize_holds_image:
  assumes "PixelFormatInfo_isValid (PixelFormatInfo_info p)"
    and "unat (sz_width s) \<le> 2 ^ 26" "unat (sz_height s) \<le> 2 ^ 31" "0 < unat align" "unat align \<le> 2 ^ 30"
    and "frame_bytes (PixelFormatInfo_info p) (unat (sz_width s)) (unat (sz_height s)) (unat align) < 2 ^ 32"
  shows "\<exists>x. PixelFormatInfo_frameSize (PixelFormatInfo_info p) s align = Some x \<and>
    unat x = frame_bytes (PixelFormatInfo_info p) (unat (sz_width s)) (unat (sz_height s)) (unat align) \<and>
    unat (sz_width s) * unat (sz_height s) * unat (pi_bitsPerPixel (PixelFormatInfo_info p)) \<le> 8 * unat x"
proof -
  have ok: "info_ok (PixelFormatInfo_info p)" using info_valid_entry [OF assms(1)] entries_ok by metis
  from frame_size_loop_exact [OF ok assms] frame_bytes_ge [OF ok assms(4)] show ?thesis by metis
qed

theorem frameSize_holds_image_witness:
  "\<exists>x. PixelFormatInfo_frameSize (PixelFormatInfo_info (formats ''NV12'')) (mk_Size 640 480) 64 = Some x \<and>
     640 * 480 * 12 \<le> 8 * unat x"
proof -
  have m: "format_info ''NV12'' V4L2_PIX_FMT_NV12 12 ColourEncodingYUV False 2 [(2, 1), (2, 2), (0, 0)]
      \<in> set pixelFormatInfo_entries" (is "?i \<in> _")
    by (simp add: pixelFormatInfo_entries_def planar_formats_def)
  have i: "PixelFormatInfo_info (formats ''NV12'') = ?i"
    using info_of_entry(1) [OF m] by (simp add: format_info_def)
  have "\<exists>x. PixelFormatInfo_frameSize (PixelFormatInfo_info (formats ''NV12'')) (mk_Size 640 480) 64 = Some x \<and>
    unat x = frame_bytes (PixelFormatInfo_info (formats ''NV12'')) (unat (sz_width (mk_Size 640 480)))
      (unat (sz_height (mk_Size 640 480))) (unat (64 :: u32)) \<and>
    unat (sz_width (mk_Size 640 480)) * unat (sz_height (mk_Size 640 480)) *
      unat (pi_bitsPerPixel (PixelFormatInfo_info (formats ''NV12''))) \<le> 8 * unat x"
    by (rule frameSize_holds_image, unfold i)
      (simp_all add: format_info_def formats_values PixelFormatInfo_isValid_def PixelFormat_isValid_def frame_bytes_def
        line_bytes_def ceil_div_def)
  then show ?thesis by (auto simp: i format_info_def)
qed


text \<open>
  The name of a known format leads back to the format.
\<close>

theorem format_name_roundtrip:
  assumes "PixelFormatInfo_isValid (PixelFormatInfo_info p)"
  shows "PixelFormat_fromString (PixelFormat_toString p) = p"
proof -
  obtain i where i: "PixelFormatInfo_info p = i" "i \<in> set pixelFormatInfo_entries" "pi_name i \<noteq> ''RGB565_BE''"
    "pi_format i = p" using info_valid_entry [OF assms] .
  then show ?thesis using info_of_entry(2) [OF i(2,3)] assms
    by (simp add: PixelFormat_fromString_def PixelFormat_toString_def)
qed

theorem format_name_roundtrip_witness: "PixelFormat_fromString (PixelFormat_toString (formats ''NV12'')) = formats ''NV12''"
proof (rule format_name_roundtrip)
  have m: "format_info ''NV12'' V4L2_PIX_FMT_NV12 12 ColourEncodingYUV False 2 [(2, 1), (2, 2), (0, 0)]
      \<in> set pixelFormatInfo_entries" (is "?i \<in> _")
    by (simp add: pixelFormatInfo_entries_def planar_formats_def)
  have i: "PixelFormatInfo_info (formats ''NV12'') = ?i"
    using info_of_entry(1) [OF m] by (simp add: format_info_def)
  show "PixelFormatInfo_isValid (PixelFormatInfo_info (formats ''NV12''))"
    unfolding i by (simp add: format_info_def formats_values PixelFormatInfo_isValid_def PixelFormat_isValid_def)
qed

text \<open>The translation table is the table of formats, with the planar formats in another order and without some.\<close>

lemma vpf2pf_values:
  defines "columns \<equiv> \<lambda>is. zip (map pi_v4l2Format is) (map pi_format is)"
  shows "vpf2pf = columns rgb_formats @ columns packed_formats @
    map (\<lambda>n. (map pi_v4l2Format planar_formats ! n, map pi_format planar_formats ! n)) [2, 3, 0, 1, 6, 7, 8] @
    columns grey_formats @ columns bayer_8_10_formats @ columns bayer_csi2_12_formats @ columns bayer_12_16_formats @
    columns compressed_formats"
  unfolding columns_def entries_columns by (simp add: vpf2pf_def formats_values V4L2_values)

lemma vpf2pf_entry:
  assumes "(v, p) \<in> set vpf2pf"
  obtains i where "i \<in> set pixelFormatInfo_entries" "pi_format i = p" "pi_v4l2Format i = v"
proof -
  have l: "length planar_formats = 9" by (simp add: planar_formats_def)
  have "set (map (\<lambda>n. (map pi_v4l2Format planar_formats ! n, map pi_format planar_formats ! n)) [2, 3, 0, 1, 6, 7, 8])
      \<subseteq> (\<lambda>i. (pi_v4l2Format i, pi_format i)) ` set planar_formats"
    by (auto simp: l intro!: imageI nth_mem)
  then have "(v, p) \<in> (\<lambda>i. (pi_v4l2Format i, pi_format i)) ` set pixelFormatInfo_entries"
    using assms unfolding vpf2pf_values pixelFormatInfo_entries_def
    by (simp only: zip_columns set_append image_Un) blast
  with that show ?thesis by auto
qed



text \<open>
  C23. Big-endian \<open>RGB565\<close> is lost: the generator looks for an attribute that the list of formats spells differently,
  so the two constants are equal, the name is unknown, and the V4L2 format for big-endian data becomes that for
  little-endian data.
\<close>

theorem big_endian_RGB565_lost:
  "formats ''RGB565_BE'' = formats ''RGB565'' \<and> PixelFormat_fromString ''RGB565_BE'' = PixelFormat 0 0 \<and>
   V4L2PixelFormat_toPixelFormat V4L2_PIX_FMT_RGB565X = formats ''RGB565'' \<and>
   V4L2PixelFormat_fromPixelFormat (V4L2PixelFormat_toPixelFormat V4L2_PIX_FMT_RGB565X) multiplanar = V4L2_PIX_FMT_RGB565"
proof -
  have "find (\<lambda>(p, i). pi_name i = ''RGB565_BE'') pixelFormatInfo = None"
    by (auto simp: find_None_iff pixelFormatInfo_set)
  then have n: "PixelFormat_fromString ''RGB565_BE'' = PixelFormat 0 0"
    by (simp add: PixelFormat_fromString_def PixelFormatInfo_info_name_def pixelFormatInfoInvalid_def)
  have m: "format_info ''RGB565'' V4L2_PIX_FMT_RGB565 16 ColourEncodingRGB False 1 [(3, 1), (0, 0), (0, 0)]
      \<in> set pixelFormatInfo_entries" (is "?i \<in> _")
    by (simp add: pixelFormatInfo_entries_def rgb_formats_def)
  have i: "PixelFormatInfo_info (formats ''RGB565'') = ?i"
    using info_of_entry(1) [OF m] by (simp add: format_info_def)
  have t: "V4L2PixelFormat_toPixelFormat V4L2_PIX_FMT_RGB565X = formats ''RGB565''"
    by (simp add: V4L2PixelFormat_toPixelFormat_def vpf2pf_def V4L2_values formats_values)
  have "V4L2PixelFormat_fromPixelFormat (formats ''RGB565'') multiplanar = V4L2_PIX_FMT_RGB565"
    unfolding V4L2PixelFormat_fromPixelFormat_def i
    by (simp add: format_info_def formats_values PixelFormatInfo_isValid_def PixelFormat_isValid_def)
  with n t show ?thesis by (simp add: formats_values)
qed

end
