(* ===== verification/Bayer.thy ===== *)
theory Bayer
  imports Formats Transforms
begin

text \<open>
  Raw formats (\<open>bayer_format.h\<close>, \<open>bayer_format.cpp\<close>): the order of the colours of a sensor, the depth of a sample
  and the packing, with the tables that translate them. The specification of a transform is what it does to the
  mosaic of colours.
\<close>

section \<open>Formats\<close>

datatype BayerOrder = BGGR | GBRG | GRBG | RGGB

datatype BayerPacking = PackingNone | CSI2Packed | IPU3Packed

record BayerFormat =
  bay_order :: BayerOrder
  bay_bitDepth :: u8
  bay_packing :: BayerPacking

abbreviation mk_BayerFormat :: "BayerOrder \<Rightarrow> u8 \<Rightarrow> BayerPacking \<Rightarrow> BayerFormat" where
  "mk_BayerFormat order depth packing \<equiv> \<lparr>bay_order = order, bay_bitDepth = depth, bay_packing = packing\<rparr>"

definition BayerFormat_empty :: BayerFormat where
  "BayerFormat_empty = mk_BayerFormat BGGR 0 PackingNone"

definition BayerFormat_isValid :: "BayerFormat \<Rightarrow> bool" where
  "BayerFormat_isValid f \<longleftrightarrow> bay_bitDepth f \<noteq> 0"

text \<open>The numbers of the orders, and the cast back.\<close>

fun order_value :: "BayerOrder \<Rightarrow> u8" where
  "order_value BGGR = 0" | "order_value GBRG = 1" | "order_value GRBG = 2" | "order_value RGGB = 3"

definition order_cast :: "u8 \<Rightarrow> BayerOrder" where
  "order_cast n = (if n = 0 then BGGR else if n = 1 then GBRG else if n = 2 then GRBG else RGGB)"

section \<open>Tables\<close>

definition bayerToV4l2 :: "(BayerFormat \<times> u32) list" where
  "bayerToV4l2 =
    [(mk_BayerFormat BGGR 8 PackingNone, V4L2_PIX_FMT_SBGGR8),
     (mk_BayerFormat GBRG 8 PackingNone, V4L2_PIX_FMT_SGBRG8),
     (mk_BayerFormat GRBG 8 PackingNone, V4L2_PIX_FMT_SGRBG8),
     (mk_BayerFormat RGGB 8 PackingNone, V4L2_PIX_FMT_SRGGB8),
     (mk_BayerFormat BGGR 10 PackingNone, V4L2_PIX_FMT_SBGGR10),
     (mk_BayerFormat GBRG 10 PackingNone, V4L2_PIX_FMT_SGBRG10),
     (mk_BayerFormat GRBG 10 PackingNone, V4L2_PIX_FMT_SGRBG10),
     (mk_BayerFormat RGGB 10 PackingNone, V4L2_PIX_FMT_SRGGB10),
     (mk_BayerFormat BGGR 10 CSI2Packed, V4L2_PIX_FMT_SBGGR10P),
     (mk_BayerFormat GBRG 10 CSI2Packed, V4L2_PIX_FMT_SGBRG10P),
     (mk_BayerFormat GRBG 10 CSI2Packed, V4L2_PIX_FMT_SGRBG10P),
     (mk_BayerFormat RGGB 10 CSI2Packed, V4L2_PIX_FMT_SRGGB10P),
     (mk_BayerFormat BGGR 10 IPU3Packed, V4L2_PIX_FMT_IPU3_SBGGR10),
     (mk_BayerFormat GBRG 10 IPU3Packed, V4L2_PIX_FMT_IPU3_SGBRG10),
     (mk_BayerFormat GRBG 10 IPU3Packed, V4L2_PIX_FMT_IPU3_SGRBG10),
     (mk_BayerFormat RGGB 10 IPU3Packed, V4L2_PIX_FMT_IPU3_SRGGB10),
     (mk_BayerFormat BGGR 12 PackingNone, V4L2_PIX_FMT_SBGGR12),
     (mk_BayerFormat GBRG 12 PackingNone, V4L2_PIX_FMT_SGBRG12),
     (mk_BayerFormat GRBG 12 PackingNone, V4L2_PIX_FMT_SGRBG12),
     (mk_BayerFormat RGGB 12 PackingNone, V4L2_PIX_FMT_SRGGB12),
     (mk_BayerFormat BGGR 12 CSI2Packed, V4L2_PIX_FMT_SBGGR12P),
     (mk_BayerFormat GBRG 12 CSI2Packed, V4L2_PIX_FMT_SGBRG12P),
     (mk_BayerFormat GRBG 12 CSI2Packed, V4L2_PIX_FMT_SGRBG12P),
     (mk_BayerFormat RGGB 12 CSI2Packed, V4L2_PIX_FMT_SRGGB12P),
     (mk_BayerFormat BGGR 16 PackingNone, V4L2_PIX_FMT_SBGGR16),
     (mk_BayerFormat GBRG 16 PackingNone, V4L2_PIX_FMT_SGBRG16),
     (mk_BayerFormat GRBG 16 PackingNone, V4L2_PIX_FMT_SGRBG16),
     (mk_BayerFormat RGGB 16 PackingNone, V4L2_PIX_FMT_SRGGB16)]"

definition mbusCodeToBayer :: "(u32 \<times> BayerFormat) list" where
  "mbusCodeToBayer =
    [(0x3001, mk_BayerFormat BGGR 8 PackingNone),
     (0x3013, mk_BayerFormat GBRG 8 PackingNone),
     (0x3002, mk_BayerFormat GRBG 8 PackingNone),
     (0x3014, mk_BayerFormat RGGB 8 PackingNone),
     (0x3015, mk_BayerFormat BGGR 8 PackingNone),
     (0x3016, mk_BayerFormat GBRG 8 PackingNone),
     (0x3017, mk_BayerFormat GRBG 8 PackingNone),
     (0x3018, mk_BayerFormat RGGB 8 PackingNone),
     (0x300b, mk_BayerFormat BGGR 8 PackingNone),
     (0x300c, mk_BayerFormat GBRG 8 PackingNone),
     (0x3009, mk_BayerFormat GRBG 8 PackingNone),
     (0x300d, mk_BayerFormat RGGB 8 PackingNone),
     (0x3003, mk_BayerFormat BGGR 10 PackingNone),
     (0x3004, mk_BayerFormat BGGR 10 PackingNone),
     (0x3005, mk_BayerFormat BGGR 10 PackingNone),
     (0x3006, mk_BayerFormat BGGR 10 PackingNone),
     (0x3007, mk_BayerFormat BGGR 10 PackingNone),
     (0x300e, mk_BayerFormat GBRG 10 PackingNone),
     (0x300a, mk_BayerFormat GRBG 10 PackingNone),
     (0x300f, mk_BayerFormat RGGB 10 PackingNone),
     (0x3008, mk_BayerFormat BGGR 12 PackingNone),
     (0x3010, mk_BayerFormat GBRG 12 PackingNone),
     (0x3011, mk_BayerFormat GRBG 12 PackingNone),
     (0x3012, mk_BayerFormat RGGB 12 PackingNone),
     (0x3019, mk_BayerFormat BGGR 14 PackingNone),
     (0x301a, mk_BayerFormat GBRG 14 PackingNone),
     (0x301b, mk_BayerFormat GRBG 14 PackingNone),
     (0x301c, mk_BayerFormat RGGB 14 PackingNone),
     (0x301d, mk_BayerFormat BGGR 16 PackingNone),
     (0x301e, mk_BayerFormat GBRG 16 PackingNone),
     (0x301f, mk_BayerFormat GRBG 16 PackingNone),
     (0x3020, mk_BayerFormat RGGB 16 PackingNone)]"

definition BayerFormat_fromMbusCode :: "u32 \<Rightarrow> BayerFormat" where
  "BayerFormat_fromMbusCode code =
     (case map_of mbusCodeToBayer code of None \<Rightarrow> BayerFormat_empty | Some f \<Rightarrow> f)"

definition BayerFormat_toV4L2PixelFormat :: "BayerFormat \<Rightarrow> u32" where
  "BayerFormat_toV4L2PixelFormat f = (case map_of bayerToV4l2 f of None \<Rightarrow> 0 | Some v \<Rightarrow> v)"

definition BayerFormat_fromV4L2PixelFormat :: "u32 \<Rightarrow> BayerFormat" where
  "BayerFormat_fromV4L2PixelFormat v =
     (case find (\<lambda>(f, v'). v' = v) bayerToV4l2 of None \<Rightarrow> BayerFormat_empty | Some (f, _) \<Rightarrow> f)"

section \<open>Names\<close>

fun order_string :: "BayerOrder \<Rightarrow> string" where
  "order_string BGGR = ''BGGR''" | "order_string GBRG = ''GBRG''" | "order_string GRBG = ''GRBG''"
| "order_string RGGB = ''RGGB''"

fun decimal :: "nat \<Rightarrow> string" where
  "decimal n = (if n < 10 then [char_of (48 + n)] else decimal (n div 10) @ [char_of (48 + n mod 10)])"

definition BayerFormat_toString :: "BayerFormat \<Rightarrow> string" where
  "BayerFormat_toString f =
     (if \<not> BayerFormat_isValid f then ''INVALID''
      else order_string (bay_order f) @ ''-'' @ decimal (unat (bay_bitDepth f)) @
        (case bay_packing f of PackingNone \<Rightarrow> [] | CSI2Packed \<Rightarrow> ''-CSI2P'' | IPU3Packed \<Rightarrow> ''-IPU3P''))"

section \<open>Transforms\<close>

definition BayerFormat_transform :: "BayerFormat \<Rightarrow> Transform \<Rightarrow> BayerFormat" where
  "BayerFormat_transform f t =
     (let r = f;
          r = (if \<not> Transform_not (t AND HFlip) then r\<lparr>bay_order := order_cast (order_value (bay_order r) XOR 1)\<rparr> else r);
          r = (if \<not> Transform_not (t AND VFlip) then r\<lparr>bay_order := order_cast (order_value (bay_order r) XOR 2)\<rparr> else r)
      in if \<not> Transform_not (t AND Transpose) \<and> order_value (bay_order r) = 1 then r\<lparr>bay_order := order_cast 2\<rparr>
         else if \<not> Transform_not (t AND Transpose) \<and> order_value (bay_order r) = 2 then r\<lparr>bay_order := order_cast 1\<rparr>
         else r)"

section \<open>The mosaic\<close>

datatype colour = Red | Green | Blue

text \<open>The colour of a pixel from the parity of its column and of its row.\<close>

fun colour_at :: "BayerOrder \<Rightarrow> bool \<Rightarrow> bool \<Rightarrow> colour" where
  "colour_at BGGR ox oy = (if ox \<noteq> oy then Green else if ox then Red else Blue)"
| "colour_at GBRG ox oy = (if ox = oy then Green else if ox then Blue else Red)"
| "colour_at GRBG ox oy = (if ox = oy then Green else if ox then Red else Blue)"
| "colour_at RGGB ox oy = (if ox \<noteq> oy then Green else if ox then Blue else Red)"

definition mosaic :: "BayerOrder \<Rightarrow> int \<Rightarrow> int \<Rightarrow> colour image" where
  "mosaic order w h = Image w h (\<lambda>x y. colour_at order (odd x) (odd y))"

lemma flip_h_mosaic: "even w \<Longrightarrow> flip_h (mosaic order w h) = mosaic (order_cast (order_value order XOR 1)) w h"
  by (cases order) (auto simp: mosaic_def order_cast_def fun_eq_iff)

lemma flip_v_mosaic: "even h \<Longrightarrow> flip_v (mosaic order w h) = mosaic (order_cast (order_value order XOR 2)) w h"
  by (cases order) (auto simp: mosaic_def order_cast_def fun_eq_iff)

lemma swap_mosaic:
  "swap_axes (mosaic order w h) =
     mosaic (if order_value order = 1 then order_cast 2 else if order_value order = 2 then order_cast 1 else order) h w"
  by (cases order) (auto simp: mosaic_def order_cast_def fun_eq_iff)

section \<open>The tables\<close>

lemma bayer_keys: "distinct (map fst bayerToV4l2)"
  by (simp add: bayerToV4l2_def)

lemma bayer_values: "distinct (map snd bayerToV4l2)"
proof (rule distinct_via [where f = unat])
  show "distinct (map unat (map snd bayerToV4l2))" by (simp add: bayerToV4l2_def V4L2_values)
qed

text \<open>What the table of pixel formats says of a raw format.\<close>

definition same_raw_format :: "BayerFormat \<times> u32 \<Rightarrow> PixelFormatInfo \<Rightarrow> bool" where
  "same_raw_format fv i \<longleftrightarrow>
     pi_v4l2Format i = snd fv \<and> pi_colourEncoding i = ColourEncodingRAW \<and>
     pi_bitsPerPixel i = ucast (bay_bitDepth (fst fv)) \<and> pi_packed i = (bay_packing (fst fv) \<noteq> PackingNone)"

definition raw_entries :: "PixelFormatInfo list" where
  "raw_entries =
     bayer_8_10_formats @ take 4 bayer_csi2_12_formats @ bayer_ipu3_formats @ drop 4 bayer_csi2_12_formats @
     bayer_12_16_formats"

lemma bayer_raw_entries: "list_all2 same_raw_format bayerToV4l2 raw_entries"
  unfolding bayerToV4l2_def raw_entries_def bayer_8_10_formats_def bayer_csi2_12_formats_def bayer_ipu3_formats_def
    bayer_12_16_formats_def format_info_def
  by (simp add: same_raw_format_def)

lemma raw_entry:
  assumes "i \<in> set raw_entries"
  shows "i \<in> set pixelFormatInfo_entries" "pi_name i \<noteq> ''RGB565_BE''"
proof -
  have i: "i \<in> set bayer_8_10_formats \<union> set bayer_csi2_12_formats \<union> set bayer_ipu3_formats \<union> set bayer_12_16_formats"
    using assms set_take_subset [of 4 bayer_csi2_12_formats] set_drop_subset [of 4 bayer_csi2_12_formats]
    unfolding raw_entries_def set_append by blast
  then show "i \<in> set pixelFormatInfo_entries" by (auto simp: pixelFormatInfo_entries_def)
  have "list_all (\<lambda>n. n \<noteq> ''RGB565_BE'') (map pi_name bayer_8_10_formats @ map pi_name bayer_csi2_12_formats @
      map pi_name bayer_ipu3_formats @ map pi_name bayer_12_16_formats)"
    unfolding entries_columns by simp
  with i show "pi_name i \<noteq> ''RGB565_BE''" unfolding list_all_iff set_append set_map by blast
qed

section \<open>Properties\<close>

text \<open>
  C24. Transforming a raw format gives the format of the transformed image: for images of even width and height,
  the mosaic of colours of the result is what the flips and the transposition make of the mosaic, and the depth
  and the packing stay.
\<close>

theorem BayerFormat_transform_mosaic:
  assumes "even w" "even h"
  shows "apply_transform t (mosaic (bay_order f) w h) =
      mosaic (bay_order (BayerFormat_transform f t)) (if bit t 2 then h else w) (if bit t 2 then w else h) \<and>
    bay_bitDepth (BayerFormat_transform f t) = bay_bitDepth f \<and> bay_packing (BayerFormat_transform f t) = bay_packing f"
  using assms
  by (simp add: apply_transform_def BayerFormat_transform_def Let_def mask_zero_iff flip_h_mosaic flip_v_mosaic swap_mosaic)

theorem BayerFormat_transform_mosaic_witness:
  "apply_transform HFlip (mosaic RGGB 4 2) = mosaic GRBG 4 2"
  using BayerFormat_transform_mosaic [of 4 2 HFlip "mk_BayerFormat RGGB 10 PackingNone"]
  by (simp add: BayerFormat_transform_def transform_values Transform_not_def Let_def order_cast_def)

text \<open>
  C25. The tables of raw formats and of pixel formats agree: the V4L2 format of a raw format leads back to it, and
  the table of pixel formats describes it as raw, with the depth of its samples, and packed exactly when it is.
\<close>

theorem bayer_tables_agree:
  assumes "BayerFormat_toV4L2PixelFormat f = v" "v \<noteq> 0"
  shows "BayerFormat_fromV4L2PixelFormat v = f \<and>
    (let i = PixelFormatInfo_info_v4l2 v in
     pi_v4l2Format i = v \<and> pi_colourEncoding i = ColourEncodingRAW \<and> pi_bitsPerPixel i = ucast (bay_bitDepth f) \<and>
     pi_packed i = (bay_packing f \<noteq> PackingNone))"
proof -
  have m: "(f, v) \<in> set bayerToV4l2"
    using assms map_of_SomeD [of bayerToV4l2 f v] by (auto simp: BayerFormat_toV4L2PixelFormat_def split: option.splits)
  have "find (\<lambda>(g, v'). v' = v) bayerToV4l2 = Some (f, v)"
    using m distinct_map_eq [OF bayer_values m] by (intro find_unique) auto
  then have "BayerFormat_fromV4L2PixelFormat v = f" by (simp add: BayerFormat_fromV4L2PixelFormat_def)
  moreover obtain i where i: "i \<in> set raw_entries" "same_raw_format (f, v) i"
    using m bayer_raw_entries by (metis list_all2_conv_all_nth in_set_conv_nth)
  moreover have "PixelFormatInfo_info_v4l2 v = i"
    using info_of_entry(3) [OF raw_entry [OF i(1)]] i(2) by (simp add: same_raw_format_def)
  ultimately show ?thesis by (simp add: same_raw_format_def)
qed

theorem bayer_tables_agree_witness:
  "BayerFormat_fromV4L2PixelFormat V4L2_PIX_FMT_SRGGB10P = mk_BayerFormat RGGB 10 CSI2Packed"
proof -
  have "BayerFormat_toV4L2PixelFormat (mk_BayerFormat RGGB 10 CSI2Packed) = V4L2_PIX_FMT_SRGGB10P"
    "V4L2_PIX_FMT_SRGGB10P \<noteq> 0"
    by (simp_all add: BayerFormat_toV4L2PixelFormat_def bayerToV4l2_def V4L2_values)
  from bayer_tables_agree [OF this] show ?thesis by blast
qed

end
