(* ===== verification/V4L2Device.thy ===== *)
theory V4L2Device
  imports Controls
begin

text \<open>
  The control side of V4L2 devices: \<open>v4l2_device.cpp\<close> and \<open>v4l2_controls.cpp\<close>. The driver is a record of
  functions over its own state, one per ioctl. Control ids live in the vector \<open>controlIds_\<close> and are
  numbered by their position in it. A failed assertion and the use of an invalid pointer are \<open>None\<close>.
\<close>

section \<open>The kernel interface\<close>

definition V4L2_CTRL_TYPE_INTEGER :: u32 where "V4L2_CTRL_TYPE_INTEGER = 1"
definition V4L2_CTRL_TYPE_BOOLEAN :: u32 where "V4L2_CTRL_TYPE_BOOLEAN = 2"
definition V4L2_CTRL_TYPE_MENU :: u32 where "V4L2_CTRL_TYPE_MENU = 3"
definition V4L2_CTRL_TYPE_BUTTON :: u32 where "V4L2_CTRL_TYPE_BUTTON = 4"
definition V4L2_CTRL_TYPE_INTEGER64 :: u32 where "V4L2_CTRL_TYPE_INTEGER64 = 5"
definition V4L2_CTRL_TYPE_CTRL_CLASS :: u32 where "V4L2_CTRL_TYPE_CTRL_CLASS = 6"
definition V4L2_CTRL_TYPE_BITMASK :: u32 where "V4L2_CTRL_TYPE_BITMASK = 8"
definition V4L2_CTRL_TYPE_INTEGER_MENU :: u32 where "V4L2_CTRL_TYPE_INTEGER_MENU = 9"
definition V4L2_CTRL_TYPE_U8 :: u32 where "V4L2_CTRL_TYPE_U8 = 0x100"

definition V4L2_CTRL_FLAG_DISABLED :: u32 where "V4L2_CTRL_FLAG_DISABLED = 0x1"
definition V4L2_CTRL_FLAG_HAS_PAYLOAD :: u32 where "V4L2_CTRL_FLAG_HAS_PAYLOAD = 0x100"
definition V4L2_CTRL_FLAG_NEXT :: u32 where "V4L2_CTRL_FLAG_NEXT = 0xC0000000"
definition V4L2_EVENT_FRAME_SYNC :: u32 where "V4L2_EVENT_FRAME_SYNC = 4"

lemmas ctrl_consts = V4L2_CTRL_TYPE_INTEGER_def V4L2_CTRL_TYPE_BOOLEAN_def V4L2_CTRL_TYPE_MENU_def
  V4L2_CTRL_TYPE_BUTTON_def V4L2_CTRL_TYPE_INTEGER64_def V4L2_CTRL_TYPE_CTRL_CLASS_def
  V4L2_CTRL_TYPE_BITMASK_def V4L2_CTRL_TYPE_INTEGER_MENU_def V4L2_CTRL_TYPE_U8_def
  V4L2_CTRL_FLAG_DISABLED_def V4L2_CTRL_FLAG_HAS_PAYLOAD_def

record v4l2_query_ext_ctrl =
  qc_id :: u32
  qc_type :: u32
  qc_name :: string
  qc_minimum :: i64
  qc_maximum :: i64
  qc_default :: i64
  qc_elems :: u32
  qc_flags :: u32

text \<open>
  One control of a read or write: the 8 bytes of the union as a number, and what the pointer member
  points to, when it is set.
\<close>

record v4l2_ext_control =
  xc_id :: u32
  xc_value64 :: u64
  xc_payload :: "u8 list option"

text \<open>A failing read or write reports an error and the index of the failing control.\<close>

record 'k ctrl_kernel =
  ioctl_query_ext_ctrl :: "'k \<Rightarrow> u32 \<Rightarrow> 'k \<times> v4l2_query_ext_ctrl result"
  ioctl_g_ext_ctrls :: "'k \<Rightarrow> v4l2_ext_control list \<Rightarrow> 'k \<times> v4l2_ext_control list \<times> (errno \<times> u32) option"
  ioctl_s_ext_ctrls :: "'k \<Rightarrow> v4l2_ext_control list \<Rightarrow> 'k \<times> v4l2_ext_control list \<times> (errno \<times> u32) option"
  ioctl_subscribe_frame_sync :: "'k \<Rightarrow> bool \<Rightarrow> 'k \<times> errno option"
  ioctl_dqevent :: "'k \<Rightarrow> 'k \<times> (u32 \<times> u32) result"

section \<open>Control identifiers and information\<close>

definition v4l2_ctrl_name :: "v4l2_query_ext_ctrl \<Rightarrow> string" where
  "v4l2_ctrl_name ctrl = takeWhile (\<lambda>ch. ch \<noteq> CHR 0x00) (take 32 (qc_name ctrl))"

definition v4l2_ctrl_type :: "v4l2_query_ext_ctrl \<Rightarrow> ControlType" where
  "v4l2_ctrl_type ctrl =
     (if qc_type ctrl = V4L2_CTRL_TYPE_U8 then ControlTypeByte
      else if qc_type ctrl = V4L2_CTRL_TYPE_BOOLEAN then ControlTypeBool
      else if qc_type ctrl = V4L2_CTRL_TYPE_INTEGER then ControlTypeInteger32
      else if qc_type ctrl = V4L2_CTRL_TYPE_INTEGER64 then ControlTypeInteger64
      else if qc_type ctrl \<in> {V4L2_CTRL_TYPE_MENU, V4L2_CTRL_TYPE_BUTTON, V4L2_CTRL_TYPE_BITMASK,
          V4L2_CTRL_TYPE_INTEGER_MENU} then ControlTypeInteger32
      else ControlTypeNone)"

definition V4L2ControlId :: "nat \<Rightarrow> v4l2_query_ext_ctrl \<Rightarrow> ControlId" where
  "V4L2ControlId ptr ctrl =
     \<lparr>cid_ptr = ptr, cid_id = qc_id ctrl, cid_name = v4l2_ctrl_name ctrl, cid_type = v4l2_ctrl_type ctrl\<rparr>"

definition scalar :: "ControlType \<Rightarrow> u8 list \<Rightarrow> ControlValue" where
  "scalar type bytes = \<lparr>cv_type = type, cv_isArray = False, cv_numElements = 1, cv_data = bytes\<rparr>"

definition V4L2ControlInfo :: "v4l2_query_ext_ctrl \<Rightarrow> ControlInfo" where
  "V4L2ControlInfo ctrl =
     (let cast = (if qc_type ctrl = V4L2_CTRL_TYPE_U8
                  then (\<lambda>x. scalar ControlTypeByte (bytes_u8 (ucast x)))
                  else if qc_type ctrl = V4L2_CTRL_TYPE_BOOLEAN
                  then (\<lambda>x. scalar ControlTypeBool (bytes_bool (x \<noteq> 0)))
                  else if qc_type ctrl = V4L2_CTRL_TYPE_INTEGER64
                  then (\<lambda>x. scalar ControlTypeInteger64 (bytes_u64 x))
                  else (\<lambda>x. scalar ControlTypeInteger32 (bytes_u32 (ucast x))))
      in ControlInfo_range (cast (qc_minimum ctrl)) (cast (qc_maximum ctrl)) (cast (qc_default ctrl)))"

section \<open>The device\<close>

text \<open>
  \<open>v4d_notifier\<close> is whether the event notifier is enabled; there is none before the device is opened
  and after it is closed, when the pointer dangles.
\<close>

record V4L2Device =
  v4d_fd :: i32
  v4d_controlInfo :: "(u32 \<times> v4l2_query_ext_ctrl) list"
  v4d_controlIds :: "ControlId list"
  v4d_controls :: ControlInfoMap
  v4d_notifier :: "bool option"
  v4d_frameStartEnabled :: bool

definition V4L2Device_new :: "nat \<Rightarrow> V4L2Device" where
  "V4L2Device_new ptr =
     \<lparr>v4d_fd = - 1, v4d_controlInfo = [], v4d_controlIds = [],
      v4d_controls = \<lparr>im_ptr = ptr, im_map = [], im_idmap = []\<rparr>, v4d_notifier = None,
      v4d_frameStartEnabled = False\<rparr>"

definition V4L2Device_isOpen :: "V4L2Device \<Rightarrow> bool" where
  "V4L2Device_isOpen dev \<longleftrightarrow> v4d_fd dev \<noteq> - 1"

definition V4L2Device_setFd :: "V4L2Device \<Rightarrow> i32 \<Rightarrow> V4L2Device \<times> errno option" where
  "V4L2Device_setFd dev fd =
     (if V4L2Device_isOpen dev then (dev, Some EBUSY)
      else (dev\<lparr>v4d_fd := fd, v4d_notifier := Some False\<rparr>, None))"

definition supported_type :: "u32 \<Rightarrow> bool" where
  "supported_type type \<longleftrightarrow> type \<in> {V4L2_CTRL_TYPE_INTEGER, V4L2_CTRL_TYPE_BOOLEAN, V4L2_CTRL_TYPE_MENU,
     V4L2_CTRL_TYPE_BUTTON, V4L2_CTRL_TYPE_INTEGER64, V4L2_CTRL_TYPE_BITMASK,
     V4L2_CTRL_TYPE_INTEGER_MENU, V4L2_CTRL_TYPE_U8}"

partial_function (option) listControls_loop ::
    "'k ctrl_kernel \<Rightarrow> 'k \<Rightarrow> u32 \<Rightarrow> (u32 \<times> v4l2_query_ext_ctrl) list \<Rightarrow> ControlId list
      \<Rightarrow> (ControlId \<times> ControlInfo) list
      \<Rightarrow> ('k \<times> (u32 \<times> v4l2_query_ext_ctrl) list \<times> ControlId list \<times> (ControlId \<times> ControlInfo) list) option"
  where
  "listControls_loop K k cid infos ids ctrls =
     (case ioctl_query_ext_ctrl K k (or cid V4L2_CTRL_FLAG_NEXT) of
        (k, Inl e) \<Rightarrow> Some (k, infos, ids, ctrls)
      | (k, Inr ctrl) \<Rightarrow>
          if qc_type ctrl = V4L2_CTRL_TYPE_CTRL_CLASS \<or> and (qc_flags ctrl) V4L2_CTRL_FLAG_DISABLED \<noteq> 0
          then listControls_loop K k (qc_id ctrl) infos ids ctrls
          else if \<not> supported_type (qc_type ctrl)
          then listControls_loop K k (qc_id ctrl) infos ids ctrls
          else
            let key = V4L2ControlId (length ids) ctrl
            in listControls_loop K k (qc_id ctrl) (map_emplace (qc_id ctrl) ctrl infos) (ids @ [key])
                 (ctrls @ [(key, V4L2ControlInfo ctrl)]))"

definition V4L2Device_listControls :: "'k ctrl_kernel \<Rightarrow> 'k \<Rightarrow> V4L2Device \<Rightarrow> ('k \<times> V4L2Device) option" where
  "V4L2Device_listControls K k dev =
     (case listControls_loop K k 0 (v4d_controlInfo dev) (v4d_controlIds dev) [] of
        None \<Rightarrow> None
      | Some (k, infos, ids, ctrls) \<Rightarrow>
          Some (k, dev\<lparr>v4d_controlInfo := infos, v4d_controlIds := ids,
                       v4d_controls := ControlInfoMap_of (im_ptr (v4d_controls dev)) ctrls\<rparr>))"

text \<open>\<open>sys_open\<close> is what the system call returns.\<close>

definition V4L2Device_open ::
    "'k ctrl_kernel \<Rightarrow> 'k \<Rightarrow> V4L2Device \<Rightarrow> i32 result \<Rightarrow> ('k \<times> V4L2Device \<times> errno option) option" where
  "V4L2Device_open K k dev sys_open =
     (if V4L2Device_isOpen dev then Some (k, dev, Some EBUSY)
      else
        case sys_open of
          Inl e \<Rightarrow> Some (k, dev, Some e)
        | Inr fd \<Rightarrow>
            let (dev, _) = V4L2Device_setFd dev fd in
            (case V4L2Device_listControls K k dev of
               None \<Rightarrow> None
             | Some (k, dev) \<Rightarrow> Some (k, dev, None)))"

definition V4L2Device_close :: "V4L2Device \<Rightarrow> V4L2Device" where
  "V4L2Device_close dev =
     (if \<not> V4L2Device_isOpen dev then dev else dev\<lparr>v4d_notifier := None, v4d_fd := - 1\<rparr>)"

definition V4L2Device_controlInfo :: "V4L2Device \<Rightarrow> u32 \<Rightarrow> v4l2_query_ext_ctrl option" where
  "V4L2Device_controlInfo dev cid = map_of (v4d_controlInfo dev) cid"

section \<open>Reading and writing controls\<close>

definition zero_query_ext_ctrl :: v4l2_query_ext_ctrl where
  "zero_query_ext_ctrl =
     \<lparr>qc_id = 0, qc_type = 0, qc_name = [], qc_minimum = 0, qc_maximum = 0, qc_default = 0, qc_elems = 0,
      qc_flags = 0\<rparr>"

definition zero_ext_control :: v4l2_ext_control where
  "zero_ext_control = \<lparr>xc_id = 0, xc_value64 = 0, xc_payload = None\<rparr>"

text \<open>The driver writes into the storage of the values whose address it got.\<close>

definition store_payload :: "v4l2_ext_control \<Rightarrow> ControlValue \<Rightarrow> ControlValue" where
  "store_payload x v =
     (case xc_payload x of
        None \<Rightarrow> v
      | Some bytes \<Rightarrow> v\<lparr>cv_data := take (length (cv_data v)) (bytes @ drop (length bytes) (cv_data v))\<rparr>)"

fun store_payloads ::
    "(u32 \<times> ControlValue) list \<Rightarrow> v4l2_ext_control list \<Rightarrow> (u32 \<times> ControlValue) list" where
  "store_payloads ((cid, v) # cs) (x # xs) = (cid, store_payload x v) # store_payloads cs xs"
| "store_payloads cs xs = cs"

definition update_value ::
    "(nat \<Rightarrow> u8) \<Rightarrow> ControlType \<Rightarrow> v4l2_ext_control \<Rightarrow> ControlValue \<Rightarrow> ControlValue option" where
  "update_value junk type x value =
     (case type of
        ControlTypeInteger64 \<Rightarrow> ControlValue_setT junk ControlTypeInteger64 bytes_u64 value (xc_value64 x)
      | ControlTypeByte \<Rightarrow> Some value
      | _ \<Rightarrow> ControlValue_setT junk ControlTypeInteger32 bytes_u32 value (ucast (xc_value64 x)))"

fun updateControls ::
    "(nat \<Rightarrow> u8) \<Rightarrow> V4L2Device \<Rightarrow> (u32 \<times> ControlValue) list \<Rightarrow> v4l2_ext_control list \<Rightarrow> nat
      \<Rightarrow> (u32 \<times> ControlValue) list option" where
  "updateControls junk dev [] xs count = Some []"
| "updateControls junk dev ((cid, value) # cs) xs 0 = Some ((cid, value) # cs)"
| "updateControls junk dev ((cid, value) # cs) [] (Suc count) = None"
| "updateControls junk dev ((cid, value) # cs) (x # xs) (Suc count) =
     (case ControlInfoMap_find (v4d_controls dev) cid of
        None \<Rightarrow> None
      | Some (key, info) \<Rightarrow>
          (case update_value junk (cid_type key) x value of
             None \<Rightarrow> None
           | Some value \<Rightarrow> map_option ((#) (cid, value)) (updateControls junk dev cs xs count)))"

fun fill_controls ::
    "(nat \<Rightarrow> u8) \<Rightarrow> V4L2Device \<Rightarrow> u32 list \<Rightarrow> ControlList \<Rightarrow> ControlList option option" where
  "fill_controls junk dev [] ctrls = Some (Some ctrls)"
| "fill_controls junk dev (cid # ids) ctrls =
     (case ControlInfoMap_find (v4d_controls dev) cid of
        None \<Rightarrow> Some None
      | Some _ \<Rightarrow>
          (case ControlList_set junk ctrls cid ControlValue_empty of
             None \<Rightarrow> None
           | Some ctrls \<Rightarrow> fill_controls junk dev ids ctrls))"

text \<open>\<open>controlInfo_[id]\<close> creates an entry where there is none.\<close>

definition controlInfo_at :: "V4L2Device \<Rightarrow> u32 \<Rightarrow> V4L2Device \<times> v4l2_query_ext_ctrl" where
  "controlInfo_at dev cid =
     (case map_of (v4d_controlInfo dev) cid of
        Some info \<Rightarrow> (dev, info)
      | None \<Rightarrow>
          (dev\<lparr>v4d_controlInfo := map_insert cid zero_query_ext_ctrl (v4d_controlInfo dev)\<rparr>,
           zero_query_ext_ctrl))"

fun read_requests ::
    "(nat \<Rightarrow> u8) \<Rightarrow> V4L2Device \<Rightarrow> (u32 \<times> ControlValue) list
      \<Rightarrow> V4L2Device \<times> ((u32 \<times> ControlValue) list \<times> v4l2_ext_control list) option" where
  "read_requests junk dev [] = (dev, Some ([], []))"
| "read_requests junk dev ((cid, value) # cs) =
     (let (dev, info) = controlInfo_at dev cid;
          payload = and (qc_flags info) V4L2_CTRL_FLAG_HAS_PAYLOAD \<noteq> 0
      in if payload \<and> qc_type info \<noteq> V4L2_CTRL_TYPE_U8 then (dev, None)
         else
           let value = (if payload
                        then ControlValue_reserve junk value ControlTypeByte True (unat (qc_elems info))
                        else value);
               x = \<lparr>xc_id = cid, xc_value64 = 0, xc_payload = (if payload then Some (cv_data value) else None)\<rparr>
           in (case read_requests junk dev cs of
                 (dev, None) \<Rightarrow> (dev, None)
               | (dev, Some (cs, xs)) \<Rightarrow> (dev, Some ((cid, value) # cs, x # xs))))"

definition V4L2Device_getControls ::
    "(nat \<Rightarrow> u8) \<Rightarrow> 'k ctrl_kernel \<Rightarrow> 'k \<Rightarrow> V4L2Device \<Rightarrow> u32 list
      \<Rightarrow> ('k \<times> V4L2Device \<times> ControlList) option" where
  "V4L2Device_getControls junk K k dev ids =
     (let count = length ids in
      if count = 0 then Some (k, dev, ControlList_new)
      else
        case fill_controls junk dev ids (ControlList_of_infoMap (v4d_controls dev) None) of
          None \<Rightarrow> None
        | Some None \<Rightarrow> Some (k, dev, ControlList_new)
        | Some (Some ctrls) \<Rightarrow>
            (case read_requests junk dev (cl_controls ctrls) of
               (dev, None) \<Rightarrow> Some (k, dev, ControlList_new)
             | (dev, Some (cs, xs)) \<Rightarrow>
                 let (k, xs, ret) = ioctl_g_ext_ctrls K k (xs @ replicate (count - length xs) zero_ext_control);
                     cs = store_payloads cs xs
                 in (case ret of
                       Some (e, errorIdx) \<Rightarrow>
                         if errorIdx = 0 \<or> count \<le> unat errorIdx then Some (k, dev, ControlList_new)
                         else
                           (case updateControls junk dev cs xs (unat (errorIdx - 1)) of
                              None \<Rightarrow> None
                            | Some cs \<Rightarrow> Some (k, dev, ctrls\<lparr>cl_controls := cs\<rparr>))
                     | None \<Rightarrow>
                         (case updateControls junk dev cs xs count of
                            None \<Rightarrow> None
                          | Some cs \<Rightarrow> Some (k, dev, ctrls\<lparr>cl_controls := cs\<rparr>)))))"

text \<open>The values to write: nothing when an assertion fails, an error when the list is refused.\<close>

fun write_requests ::
    "V4L2Device \<Rightarrow> (u32 \<times> ControlValue) list \<Rightarrow> v4l2_ext_control list result option" where
  "write_requests dev [] = Some (Inr [])"
| "write_requests dev ((cid, value) # cs) =
     (case ControlInfoMap_find (v4d_controls dev) cid of
        None \<Rightarrow> Some (Inl EINVAL)
      | Some (key, info) \<Rightarrow>
          if cid_type key = ControlTypeByte \<and> \<not> cv_isArray value then Some (Inl EINVAL)
          else
            case (if cid_type key = ControlTypeInteger64 then
                    map_option (\<lambda>n. (n, None)) (ControlValue_getT ControlTypeInteger64 u64_bytes value)
                  else if cid_type key = ControlTypeByte then Some (0, Some (cv_data value))
                  else map_option (\<lambda>n. (ucast n, None)) (ControlValue_getT ControlTypeInteger32 u32_bytes value)) of
              None \<Rightarrow> None
            | Some (n, payload) \<Rightarrow>
                (case write_requests dev cs of
                   Some (Inr xs) \<Rightarrow> Some (Inr (\<lparr>xc_id = cid, xc_value64 = n, xc_payload = payload\<rparr> # xs))
                 | r \<Rightarrow> r))"

text \<open>The result is 0, an error code, or the index of the control that failed.\<close>

definition V4L2Device_setControls ::
    "(nat \<Rightarrow> u8) \<Rightarrow> 'k ctrl_kernel \<Rightarrow> 'k \<Rightarrow> V4L2Device \<Rightarrow> ControlList
      \<Rightarrow> ('k \<times> ControlList \<times> u32 result) option" where
  "V4L2Device_setControls junk K k dev ctrls =
     (let count = length (cl_controls ctrls) in
      if count = 0 then Some (k, ctrls, Inr 0)
      else
        case write_requests dev (cl_controls ctrls) of
          None \<Rightarrow> None
        | Some (Inl e) \<Rightarrow> Some (k, ctrls, Inl e)
        | Some (Inr xs) \<Rightarrow>
            let (k, xs, ret) = ioctl_s_ext_ctrls K k xs;
                ctrls = ctrls\<lparr>cl_controls := store_payloads (cl_controls ctrls) xs\<rparr>
            in (case ret of
                  Some (e, errorIdx) \<Rightarrow>
                    if errorIdx = 0 \<or> count \<le> unat errorIdx then Some (k, ctrls, Inl EINVAL)
                    else
                      (case updateControls junk dev (cl_controls ctrls) xs (unat (errorIdx - 1)) of
                         None \<Rightarrow> None
                       | Some cs \<Rightarrow> Some (k, ctrls\<lparr>cl_controls := cs\<rparr>, Inr errorIdx))
                | None \<Rightarrow>
                    (case updateControls junk dev (cl_controls ctrls) xs count of
                       None \<Rightarrow> None
                     | Some cs \<Rightarrow> Some (k, ctrls\<lparr>cl_controls := cs\<rparr>, Inr 0))))"

section \<open>Frame start events\<close>

definition V4L2Device_setFrameStartEnabled ::
    "'k ctrl_kernel \<Rightarrow> 'k \<Rightarrow> V4L2Device \<Rightarrow> bool \<Rightarrow> ('k \<times> V4L2Device \<times> errno option) option" where
  "V4L2Device_setFrameStartEnabled K k dev enable =
     (if v4d_frameStartEnabled dev = enable then Some (k, dev, None)
      else
        let (k, ret) = ioctl_subscribe_frame_sync K k enable
        in if enable \<and> ret \<noteq> None then Some (k, dev, ret)
           else if v4d_notifier dev = None then None
           else Some (k, dev\<lparr>v4d_notifier := Some enable, v4d_frameStartEnabled := enable\<rparr>, ret))"

text \<open>The result is the sequence number that the signal \<open>frameStart\<close> carries.\<close>

definition V4L2Device_eventAvailable ::
    "'k ctrl_kernel \<Rightarrow> 'k \<Rightarrow> V4L2Device \<Rightarrow> 'k \<times> V4L2Device \<times> u32 option" where
  "V4L2Device_eventAvailable K k dev =
     (case ioctl_dqevent K k of
        (k, Inl e) \<Rightarrow> (k, dev\<lparr>v4d_notifier := Some False\<rparr>, None)
      | (k, Inr (type, sequence)) \<Rightarrow>
          if type \<noteq> V4L2_EVENT_FRAME_SYNC then (k, dev\<lparr>v4d_notifier := Some False\<rparr>, None)
          else (k, dev, Some sequence))"


section \<open>Enumerating controls\<close>

text \<open>
  What the kernel documents for queries with the two \<open>NEXT\<close> flags: the control with the lowest id
  above the given one, and an error when there is none. Ids leave the flag bits free.
\<close>

definition enumerates :: "'k ctrl_kernel \<Rightarrow> v4l2_query_ext_ctrl list \<Rightarrow> bool" where
  "enumerates K cs \<longleftrightarrow>
     sorted_wrt (<) (map qc_id cs) \<and> (\<forall>c \<in> set cs. 0 < qc_id c \<and> qc_id c < 0x40000000) \<and>
     (\<forall>k cid. cid < 0x40000000 \<longrightarrow>
        ioctl_query_ext_ctrl K k (or cid V4L2_CTRL_FLAG_NEXT) =
          (k, case find (\<lambda>c. cid < qc_id c) cs of None \<Rightarrow> Inl EINVAL | Some c \<Rightarrow> Inr c))"

definition listable :: "v4l2_query_ext_ctrl \<Rightarrow> bool" where
  "listable c \<longleftrightarrow> qc_type c \<noteq> V4L2_CTRL_TYPE_CTRL_CLASS \<and> and (qc_flags c) V4L2_CTRL_FLAG_DISABLED = 0 \<and>
     supported_type (qc_type c)"

fun listed :: "nat \<Rightarrow> v4l2_query_ext_ctrl list \<Rightarrow> (ControlId \<times> ControlInfo) list" where
  "listed n [] = []"
| "listed n (c # cs) = (V4L2ControlId n c, V4L2ControlInfo c) # listed (Suc n) cs"

lemma find_above_append:
  "\<forall>c \<in> set xs. \<not> P c \<Longrightarrow> find P (xs @ ys) = find P ys"
  by (induction xs) auto

lemma listControls_loop_enumerates:
  assumes "enumerates K (pre @ post)" "\<forall>c \<in> set pre. qc_id c \<le> cid" "\<forall>c \<in> set post. cid < qc_id c"
    and "cid < 0x40000000" "map_ok infos" "\<forall>c \<in> set post. map_of infos (qc_id c) = None"
  shows "\<exists>infos'. listControls_loop K k cid infos ids ctrls =
      Some (k, infos', ids @ map fst (listed (length ids) (filter listable post)),
            ctrls @ listed (length ids) (filter listable post)) \<and>
    map_of infos' = map_of infos ++ map_of (map (\<lambda>c. (qc_id c, c)) (filter listable post))"
  using assms
proof (induction post arbitrary: pre cid infos ids ctrls)
  case Nil
  have "find (\<lambda>c. cid < qc_id c) pre = None"
    using Nil.prems(2) by (auto simp: find_None_iff not_less)
  then have "ioctl_query_ext_ctrl K k (or cid V4L2_CTRL_FLAG_NEXT) = (k, Inl EINVAL)"
    using Nil.prems(1,4) by (simp add: enumerates_def)
  then show ?case by (subst listControls_loop.simps) simp
next
  case (Cons c post)
  have "find (\<lambda>c. cid < qc_id c) (pre @ c # post) = Some c"
    using Cons.prems(2,3) by (subst find_above_append) (auto simp: not_less)
  then have q: "ioctl_query_ext_ctrl K k (or cid V4L2_CTRL_FLAG_NEXT) = (k, Inr c)"
    using Cons.prems(1,4) by (auto simp: enumerates_def)
  have en: "enumerates K ((pre @ [c]) @ post)" using Cons.prems(1) by simp
  have sorted: "sorted_wrt (<) (map qc_id (pre @ c # post))" and small: "qc_id c < 0x40000000"
    using Cons.prems(1) by (auto simp: enumerates_def)
  then have le: "\<forall>d \<in> set (pre @ [c]). qc_id d \<le> qc_id c" and gt: "\<forall>d \<in> set post. qc_id c < qc_id d"
    by (auto simp: sorted_wrt_append)
  show ?case
  proof (cases "listable c")
    case False
    then have "listControls_loop K k cid infos ids ctrls = listControls_loop K k (qc_id c) infos ids ctrls"
      using q by (subst listControls_loop.simps) (auto simp: listable_def)
    with False Cons.IH [OF en le gt small, of infos ids ctrls] Cons.prems(5,6) show ?thesis by simp
  next
    case True
    let ?key = "V4L2ControlId (length ids) c"
    have eq: "listControls_loop K k cid infos ids ctrls =
        listControls_loop K k (qc_id c) (map_emplace (qc_id c) c infos) (ids @ [?key])
          (ctrls @ [(?key, V4L2ControlInfo c)])"
      using q True by (subst listControls_loop.simps) (simp add: listable_def Let_def)
    have new: "map_ok (map_emplace (qc_id c) c infos)"
      "map_of (map_emplace (qc_id c) c infos) = (map_of infos)(qc_id c \<mapsto> c)"
      using map_emplace_new [OF Cons.prems(5)] Cons.prems(6) by simp_all
    have none: "\<forall>d \<in> set post. map_of (map_emplace (qc_id c) c infos) (qc_id d) = None"
      using new(2) Cons.prems(6) gt by auto
    have notin: "map_of (map (\<lambda>c. (qc_id c, c)) (filter listable post)) (qc_id c) = None"
      using gt by (auto simp: map_of_eq_None_iff)
    from Cons.IH [OF en le gt small new(1) none, of "ids @ [?key]" "ctrls @ [(?key, V4L2ControlInfo c)]"]
    obtain infos' where infos': "listControls_loop K k (qc_id c) (map_emplace (qc_id c) c infos) (ids @ [?key])
          (ctrls @ [(?key, V4L2ControlInfo c)]) =
        Some (k, infos', (ids @ [?key]) @ map fst (listed (length (ids @ [?key])) (filter listable post)),
            (ctrls @ [(?key, V4L2ControlInfo c)]) @ listed (length (ids @ [?key])) (filter listable post))"
      "map_of infos' = (map_of infos)(qc_id c \<mapsto> c) ++ map_of (map (\<lambda>c. (qc_id c, c)) (filter listable post))"
      unfolding new(2) by blast
    have "map_of infos' = map_of infos ++ map_of (map (\<lambda>c. (qc_id c, c)) (filter listable (c # post)))"
      using infos'(2) True notin by (auto simp: fun_eq_iff map_add_def split: option.splits)
    moreover have "listControls_loop K k cid infos ids ctrls =
        Some (k, infos', ids @ map fst (listed (length ids) (filter listable (c # post))),
              ctrls @ listed (length ids) (filter listable (c # post)))"
      using infos'(1) True unfolding eq by simp
    ultimately show ?thesis by blast
  qed
qed

lemma map_listed:
  "map (cid_id \<circ> fst) (listed n cs) = map qc_id cs"
  "map (cid_ptr \<circ> fst) (listed n cs) = [n..<n + length cs]"
  by (induction n cs rule: listed.induct)
    (simp_all add: V4L2ControlId_def upt_rec)

lemma listed_nth: "i < length cs \<Longrightarrow> listed n cs ! i = (V4L2ControlId (n + i) (cs ! i), V4L2ControlInfo (cs ! i))"
  by (induction n cs arbitrary: i rule: listed.induct) (auto simp: nth_Cons split: nat.splits)

lemma length_listed [simp]: "length (listed n cs) = length cs"
  by (induction n cs rule: listed.induct) simp_all

text \<open>The type of the information agrees with the type of the id, so the map is kept.\<close>

lemma listed_types:
  "\<forall>c \<in> set cs. listable c \<Longrightarrow> \<forall>(cid, i) \<in> set (listed n cs). cv_type (ci_min i) = rangeType cid"
  by (induction n cs rule: listed.induct)
    (auto simp: V4L2ControlId_def V4L2ControlInfo_def v4l2_ctrl_type_def listable_def supported_type_def
      rangeType_def ControlInfo_range_def scalar_def ctrl_consts)


text \<open>
  Opening a closed device lists exactly the controls that are enabled and of a supported type, in the
  order of their ids, and every one can be found by its id with its description.
\<close>

lemma open_enumerates:
  assumes "enumerates K cs"
  defines "kept \<equiv> filter listable cs"
  shows "\<exists>dev. V4L2Device_open K k (V4L2Device_new ptr) (Inr fd) = Some (k, dev, None) \<and>
    v4d_fd dev = fd \<and> map cid_id (v4d_controlIds dev) = map qc_id kept \<and>
    (\<forall>i < length kept. V4L2Device_controlInfo dev (qc_id (kept ! i)) = Some (kept ! i) \<and>
       ControlInfoMap_find (v4d_controls dev) (qc_id (kept ! i))
         = Some (V4L2ControlId i (kept ! i), V4L2ControlInfo (kept ! i))) \<and>
    (\<forall>cid. cid \<notin> qc_id ` set kept \<longrightarrow>
       V4L2Device_controlInfo dev cid = None \<and> ControlInfoMap_find (v4d_controls dev) cid = None)"
proof -
  have ids: "\<forall>c \<in> set cs. 0 < qc_id c" and "sorted_wrt (<) (map qc_id cs)"
    using assms(1) by (auto simp: enumerates_def)
  then have dist: "distinct (map qc_id kept)"
    unfolding kept_def by (intro distinct_map_filter) (simp add: strict_sorted_iff)
  from listControls_loop_enumerates [of K "[]" cs 0 "[]" k "[]" "[]"] assms(1) ids
  obtain infos where infos: "listControls_loop K k 0 [] [] [] =
      Some (k, infos, map fst (listed 0 kept), listed 0 kept)"
    "map_of infos = map_of (map (\<lambda>c. (qc_id c, c)) kept)"
    unfolding kept_def by auto
  have types: "\<forall>(cid, i) \<in> set (listed 0 kept). cv_type (ci_min i) = rangeType cid"
    by (rule listed_types) (simp add: kept_def)
  have d: "distinct (map (cid_id \<circ> fst) (listed 0 kept))" "distinct (map (cid_ptr \<circ> fst) (listed 0 kept))"
    using dist by (simp_all add: map_listed)
  note kept' = ControlInfoMap_of_kept [OF d types, where ptr = ptr]
  let ?dev = "(V4L2Device_new ptr)\<lparr>v4d_fd := fd, v4d_notifier := Some False, v4d_controlInfo := infos,
    v4d_controlIds := map fst (listed 0 kept), v4d_controls := ControlInfoMap_of ptr (listed 0 kept)\<rparr>"
  have opened: "V4L2Device_open K k (V4L2Device_new ptr) (Inr fd) = Some (k, ?dev, None)"
    using infos(1) by (simp add: V4L2Device_open_def V4L2Device_setFd_def V4L2Device_isOpen_def
        V4L2Device_listControls_def V4L2Device_new_def)
  have info: "map_of infos (qc_id (kept ! i)) = Some (kept ! i)" if "i < length kept" for i
    unfolding infos(2) using dist that by (intro map_of_is_SomeI) (auto simp: o_def)
  have find: "ControlInfoMap_find (ControlInfoMap_of ptr (listed 0 kept)) (qc_id (kept ! i))
      = Some (V4L2ControlId i (kept ! i), V4L2ControlInfo (kept ! i))" if "i < length kept" for i
  proof -
    have "(V4L2ControlId i (kept ! i), V4L2ControlInfo (kept ! i)) \<in> set (listed 0 kept)"
      using that listed_nth [of i kept 0] by (metis add_0 length_listed nth_mem)
    from kept'(3) [OF this] show ?thesis by (simp add: V4L2ControlId_def)
  qed
  have none: "map_of infos cid = None" "ControlInfoMap_find (ControlInfoMap_of ptr (listed 0 kept)) cid = None"
    if "cid \<notin> qc_id ` set kept" for cid
  proof -
    show "map_of infos cid = None" unfolding infos(2) using that by (auto simp: map_of_eq_None_iff)
    have "cid_id ` fst ` set (listed 0 kept) = qc_id ` set kept"
      using arg_cong [OF map_listed(1) [of 0 kept], of set] by (simp add: image_comp)
    then have "\<forall>(k, i) \<in> set (listed 0 kept). cid_id k \<noteq> cid"
      using that by (auto simp: set_eq_iff image_iff Bex_def)
    from kept'(5) [OF this] show "ControlInfoMap_find (ControlInfoMap_of ptr (listed 0 kept)) cid = None" .
  qed
  have "map cid_id (map fst (listed 0 kept)) = map qc_id kept"
    using map_listed(1) [of 0 kept] by (simp add: o_def)
  with opened info find none show ?thesis
    by (intro exI [of _ ?dev]) (simp add: V4L2Device_controlInfo_def)
qed


section \<open>Writing and reading back\<close>

definition has_payload :: "v4l2_query_ext_ctrl \<Rightarrow> bool" where
  "has_payload q \<longleftrightarrow> and (qc_flags q) V4L2_CTRL_FLAG_HAS_PAYLOAD \<noteq> 0"

text \<open>
  A control the code can handle: byte controls, and only they, have a payload. \<open>fits\<close> is storage that
  is large enough for its payload, \<open>storable\<close> a value of the type that the code writes, which is a
  32-bit integer for every type other than bytes and 64-bit integers.
\<close>

definition handled :: "V4L2Device \<Rightarrow> u32 \<Rightarrow> ControlType \<Rightarrow> u32 \<Rightarrow> bool" where
  "handled dev cid type elems \<longleftrightarrow>
     (\<exists>key info q. ControlInfoMap_find (v4d_controls dev) cid = Some (key, info) \<and> cid_type key = type \<and>
        map_of (v4d_controlInfo dev) cid = Some q \<and> qc_elems q = elems \<and>
        (type = ControlTypeByte \<longrightarrow> has_payload q \<and> qc_type q = V4L2_CTRL_TYPE_U8) \<and>
        (type \<noteq> ControlTypeByte \<longrightarrow> \<not> has_payload q))"

definition fits :: "ControlType \<Rightarrow> u32 \<Rightarrow> ControlValue \<Rightarrow> bool" where
  "fits type elems v \<longleftrightarrow>
     (type = ControlTypeByte \<longrightarrow> cv_type v = ControlTypeByte \<and> cv_isArray v \<and> cv_numElements v = elems \<and>
        length (cv_data v) = unat elems)"

definition shaped :: "ControlType \<Rightarrow> u32 \<Rightarrow> v4l2_ext_control \<Rightarrow> bool" where
  "shaped type elems x \<longleftrightarrow>
     map_option length (xc_payload x) = (if type = ControlTypeByte then Some (unat elems) else None)"

definition storable :: "ControlType \<Rightarrow> u32 \<Rightarrow> ControlValue \<Rightarrow> bool" where
  "storable type elems v \<longleftrightarrow> fits type elems v \<and>
     (type = ControlTypeInteger64 \<longrightarrow> (\<exists>n. v = scalar ControlTypeInteger64 (bytes_u64 n))) \<and>
     (type \<notin> {ControlTypeByte, ControlTypeInteger64} \<longrightarrow> (\<exists>n. v = scalar ControlTypeInteger32 (bytes_u32 n)))"

definition read_value :: "ControlType \<Rightarrow> u32 \<Rightarrow> v4l2_ext_control \<Rightarrow> ControlValue" where
  "read_value type elems x =
     (if type = ControlTypeByte
      then \<lparr>cv_type = ControlTypeByte, cv_isArray = True, cv_numElements = elems, cv_data = the (xc_payload x)\<rparr>
      else if type = ControlTypeInteger64 then scalar ControlTypeInteger64 (bytes_u64 (xc_value64 x))
      else scalar ControlTypeInteger32 (bytes_u32 (ucast (xc_value64 x))))"

lemma setT_scalar:
  "ControlValue_setT junk ControlTypeInteger64 bytes_u64 v n = Some (scalar ControlTypeInteger64 (bytes_u64 n))"
  "ControlValue_setT junk ControlTypeInteger32 bytes_u32 v m = Some (scalar ControlTypeInteger32 (bytes_u32 m))"
  using ControlValue_set_eq [of 1 False "bytes_u64 n" ControlTypeInteger64 junk v]
    ControlValue_set_eq [of 1 False "bytes_u32 m" ControlTypeInteger32 junk v]
  by (simp_all add: ControlValue_setT_def scalar_def)

lemma getT_scalar:
  "ControlValue_getT ControlTypeInteger64 u64_bytes (scalar ControlTypeInteger64 (bytes_u64 n)) = Some n"
  "ControlValue_getT ControlTypeInteger32 u32_bytes (scalar ControlTypeInteger32 (bytes_u32 m)) = Some m"
  by (simp_all add: ControlValue_getT_def scalar_def)

lemma shaped_simps:
  "shaped ControlTypeByte elems x \<longleftrightarrow> map_option length (xc_payload x) = Some (unat elems)"
  "type \<noteq> ControlTypeByte \<Longrightarrow> shaped type elems x \<longleftrightarrow> xc_payload x = None"
  by (simp_all add: shaped_def)

lemma update_stored:
  assumes "fits type elems v" "shaped type elems x"
  shows "update_value junk type x (store_payload x v) = Some (read_value type elems x)"
  using assms
  by (cases type; auto simp: update_value_def store_payload_def read_value_def setT_scalar fits_def shaped_def)

text \<open>The controls of a list with what is known of each: its type and number of elements.\<close>

definition known :: "V4L2Device \<Rightarrow> (u32 \<Rightarrow> ControlType) \<Rightarrow> (u32 \<Rightarrow> u32) \<Rightarrow> u32 list \<Rightarrow> bool" where
  "known dev type elems ids \<longleftrightarrow> distinct ids \<and> (\<forall>cid \<in> set ids. handled dev cid (type cid) (elems cid))"

lemma known_Cons:
  "known dev type elems (cid # ids) \<longleftrightarrow>
     cid \<notin> set ids \<and> handled dev cid (type cid) (elems cid) \<and> known dev type elems ids"
  by (auto simp: known_def)

abbreviation shaped_list ::
    "(u32 \<Rightarrow> ControlType) \<Rightarrow> (u32 \<Rightarrow> u32) \<Rightarrow> u32 list \<Rightarrow> v4l2_ext_control list \<Rightarrow> bool" where
  "shaped_list type elems \<equiv> list_all2 (\<lambda>cid x. xc_id x = cid \<and> shaped (type cid) (elems cid) x)"

definition read_list ::
    "(u32 \<Rightarrow> ControlType) \<Rightarrow> (u32 \<Rightarrow> u32) \<Rightarrow> v4l2_ext_control list \<Rightarrow> (u32 \<times> ControlValue) list" where
  "read_list type elems xs = map (\<lambda>x. (xc_id x, read_value (type (xc_id x)) (elems (xc_id x)) x)) xs"

lemma updateControls_stored:
  assumes "shaped_list type elems (map fst cs) xs" "known dev type elems (map fst cs)"
    and "\<forall>(cid, v) \<in> set cs. fits (type cid) (elems cid) v"
  shows "updateControls junk dev (store_payloads cs xs) xs count =
    Some (take count (read_list type elems xs) @ drop count (store_payloads cs xs))"
  using assms
proof (induction cs arbitrary: xs count)
  case Nil
  then show ?case by (simp add: read_list_def)
next
  case (Cons c cs)
  obtain cid v where c: "c = (cid, v)" by fastforce
  with Cons.prems(1) obtain x xs' where xs: "xs = x # xs'" "xc_id x = cid" "shaped (type cid) (elems cid) x"
    "shaped_list type elems (map fst cs) xs'" by (auto simp: list_all2_Cons1)
  show ?case
  proof (cases count)
    case 0
    then show ?thesis by (simp add: c xs(1))
  next
    case (Suc n)
    from Cons.prems(2) c obtain key info where key: "ControlInfoMap_find (v4d_controls dev) cid = Some (key, info)"
      "cid_type key = type cid" by (auto simp: known_Cons handled_def)
    have "updateControls junk dev (store_payloads cs xs') xs' n =
        Some (take n (read_list type elems xs') @ drop n (store_payloads cs xs'))"
      using Cons.prems c xs by (intro Cons.IH) (auto simp: known_Cons)
    moreover have "update_value junk (type cid) x (store_payload x v) = Some (read_value (type cid) (elems cid) x)"
      using Cons.prems(3) c xs(3) by (intro update_stored) auto
    ultimately show ?thesis by (simp add: c xs(1,2) Suc key read_list_def)
  qed
qed

lemma length_store_payloads [simp]: "length (store_payloads cs xs) = length cs"
  by (induction cs xs rule: store_payloads.induct) auto

lemma updateControls_all:
  assumes "shaped_list type elems (map fst cs) xs" "known dev type elems (map fst cs)"
    and "\<forall>(cid, v) \<in> set cs. fits (type cid) (elems cid) v" "length cs \<le> count"
  shows "updateControls junk dev (store_payloads cs xs) xs count = Some (read_list type elems xs)"
  using updateControls_stored [OF assms(1-3), of junk count] assms(4) list_all2_lengthD [OF assms(1)]
  by (simp add: read_list_def)

lemma write_requests_storable:
  assumes "known dev type elems (map fst cs)" "\<forall>(cid, v) \<in> set cs. storable (type cid) (elems cid) v"
  shows "\<exists>xs. write_requests dev cs = Some (Inr xs) \<and> shaped_list type elems (map fst cs) xs"
  using assms
proof (induction cs)
  case Nil
  then show ?case by simp
next
  case (Cons c cs)
  obtain cid v where c: "c = (cid, v)" by fastforce
  from Cons.prems(1) c obtain key info where key: "ControlInfoMap_find (v4d_controls dev) cid = Some (key, info)"
    "cid_type key = type cid" by (auto simp: known_Cons handled_def)
  from Cons obtain xs where xs: "write_requests dev cs = Some (Inr xs)" "shaped_list type elems (map fst cs) xs"
    by (auto simp: known_Cons c)
  have v: "storable (type cid) (elems cid) v" using Cons.prems(2) c by simp
  consider "type cid = ControlTypeByte" | "type cid = ControlTypeInteger64"
    | "type cid \<notin> {ControlTypeByte, ControlTypeInteger64}" by blast
  then show ?case
  proof cases
    case 1
    with v key xs show ?thesis by (auto simp: c storable_def fits_def shaped_simps)
  next
    case 2
    with v key xs show ?thesis by (auto simp: c storable_def shaped_simps getT_scalar)
  next
    case 3
    with v key xs show ?thesis by (auto simp: c storable_def shaped_simps getT_scalar)
  qed
qed


definition unset_value :: ControlValue where
  "unset_value = ControlValue_empty\<lparr>cv_numElements := 1\<rparr>"

lemma assign_empty: "ControlValue_assign junk ControlValue_empty ControlValue_empty = Some unset_value"
  by (simp add: ControlValue_assign_def ControlValue_set_def ControlValue_reserve_def
      ControlValue_data_size_def ControlValue_empty_def unset_value_def)

lemma update_new: "k \<notin> fst ` set m \<Longrightarrow> AList.update k v m = m @ [(k, v)]"
  by (induction m) auto

lemma update_last: "k \<notin> fst ` set m \<Longrightarrow> AList.update k v (m @ [(k, u)]) = m @ [(k, v)]"
  by (induction m) auto

lemma fill_controls_known:
  assumes "known dev type elems ids" "cl_validator l = None" "fst ` set (cl_controls l) \<inter> set ids = {}"
  shows "fill_controls junk dev ids l =
    Some (Some (l\<lparr>cl_controls := cl_controls l @ map (\<lambda>cid. (cid, unset_value)) ids\<rparr>))"
  using assms
proof (induction ids arbitrary: l)
  case Nil
  then show ?case by simp
next
  case (Cons cid ids)
  let ?l = "l\<lparr>cl_controls := cl_controls l @ [(cid, unset_value)]\<rparr>"
  have new: "cid \<notin> fst ` set (cl_controls l)" "map_of (cl_controls l) cid = None"
    using Cons.prems(3) by (auto simp: map_of_eq_None_iff)
  have set: "ControlList_set junk l cid ControlValue_empty = Some ?l"
    using new Cons.prems(2)
    by (simp add: ControlList_set_def ControlList_find_mut_def assign_empty update_new update_last)
  from Cons.prems(1) obtain key info where "ControlInfoMap_find (v4d_controls dev) cid = Some (key, info)"
    by (auto simp: known_Cons handled_def)
  moreover have "fill_controls junk dev ids ?l =
      Some (Some (?l\<lparr>cl_controls := cl_controls ?l @ map (\<lambda>cid. (cid, unset_value)) ids\<rparr>))"
    using Cons.prems by (intro Cons.IH) (auto simp: known_Cons)
  ultimately show ?case using set by simp
qed

lemma reserve_fits:
  "fits ControlTypeByte elems (ControlValue_reserve junk unset_value ControlTypeByte True (unat elems))"
  by (auto simp: fits_def ControlValue_reserve_def ControlValue_data_size_def unset_value_def
      ControlValue_empty_def Let_def unat_eq_0_iff)

lemma read_requests_known:
  assumes "known dev type elems ids"
  shows "\<exists>cs xs. read_requests junk dev (map (\<lambda>cid. (cid, unset_value)) ids) = (dev, Some (cs, xs)) \<and>
    map fst cs = ids \<and> (\<forall>(cid, v) \<in> set cs. fits (type cid) (elems cid) v) \<and> shaped_list type elems ids xs"
  using assms
proof (induction ids)
  case Nil
  then show ?case by simp
next
  case (Cons cid ids)
  then obtain cs xs where ih: "read_requests junk dev (map (\<lambda>cid. (cid, unset_value)) ids) = (dev, Some (cs, xs))"
    "map fst cs = ids" "\<forall>(cid, v) \<in> set cs. fits (type cid) (elems cid) v" "shaped_list type elems ids xs"
    by (auto simp: known_Cons)
  from Cons.prems obtain q where q: "map_of (v4d_controlInfo dev) cid = Some q" "qc_elems q = elems cid"
    "type cid = ControlTypeByte \<longrightarrow> has_payload q \<and> qc_type q = V4L2_CTRL_TYPE_U8"
    "type cid \<noteq> ControlTypeByte \<longrightarrow> \<not> has_payload q"
    by (auto simp: known_Cons handled_def)
  then have info: "controlInfo_at dev cid = (dev, q)" by (simp add: controlInfo_at_def)
  show ?case
  proof (cases "type cid = ControlTypeByte")
    case True
    let ?v = "ControlValue_reserve junk unset_value ControlTypeByte True (unat (elems cid))"
    let ?x = "\<lparr>xc_id = cid, xc_value64 = 0, xc_payload = Some (cv_data ?v)\<rparr>"
    have v: "fits ControlTypeByte (elems cid) ?v" by (rule reserve_fits)
    then have "shaped ControlTypeByte (elems cid) ?x" by (simp add: shaped_simps fits_def)
    with v True q ih info show ?thesis
      by (intro exI [of _ "(cid, ?v) # cs"] exI [of _ "?x # xs"]) (simp add: has_payload_def Let_def)
  next
    case False
    then have "fits (type cid) (elems cid) unset_value" by (simp add: fits_def)
    with False q ih info show ?thesis by (simp add: has_payload_def shaped_simps)
  qed
qed

text \<open>
  What is promised of a driver: a write reports the same controls, with payloads of the same size,
  and after a write that succeeds, reading the same controls gives what the write reported.
\<close>

definition same_shape :: "v4l2_ext_control list \<Rightarrow> v4l2_ext_control list \<Rightarrow> bool" where
  "same_shape xs ys \<longleftrightarrow> list_all2 (\<lambda>x y. xc_id x = xc_id y \<and>
     map_option length (xc_payload x) = map_option length (xc_payload y)) xs ys"

definition reads_back :: "'k ctrl_kernel \<Rightarrow> bool" where
  "reads_back K \<longleftrightarrow>
     (\<forall>k xs k' xs' ret. ioctl_s_ext_ctrls K k xs = (k', xs', ret) \<longrightarrow> same_shape xs xs' \<and>
        (ret = None \<longrightarrow> (\<forall>ys. same_shape ys xs' \<longrightarrow> (\<exists>k''. ioctl_g_ext_ctrls K k' ys = (k'', xs', None)))))"

lemma shaped_same:
  assumes "shaped_list type elems ids xs" "same_shape xs ys"
  shows "shaped_list type elems ids ys"
  unfolding list_all2_conv_all_nth
proof (intro conjI allI impI)
  show "length ids = length ys"
    using assms by (simp add: same_shape_def list_all2_lengthD)
next
  fix i assume "i < length ids"
  then have "xc_id (xs ! i) = ids ! i" "shaped (type (ids ! i)) (elems (ids ! i)) (xs ! i)"
    "xc_id (xs ! i) = xc_id (ys ! i)" "map_option length (xc_payload (xs ! i)) = map_option length (xc_payload (ys ! i))"
    using assms list_all2_nthD [OF assms(1)] by (simp_all add: same_shape_def list_all2_conv_all_nth)
  then show "xc_id (ys ! i) = ids ! i" "shaped (type (ids ! i)) (elems (ids ! i)) (ys ! i)"
    by (simp_all add: shaped_def)
qed

lemma same_shape_shaped:
  "shaped_list type elems ids xs \<Longrightarrow> shaped_list type elems ids ys \<Longrightarrow> same_shape xs ys"
  unfolding same_shape_def list_all2_conv_all_nth by (simp add: shaped_def)

lemma getControls_reads:
  assumes "known dev type elems ids" "ids \<noteq> []" "reads_back K" "ioctl_s_ext_ctrls K k0 xs0 = (k, xs, None)"
    and "shaped_list type elems ids xs"
  shows "\<exists>k' l. V4L2Device_getControls junk K k dev ids = Some (k', dev, l) \<and> cl_controls l = read_list type elems xs"
proof -
  let ?l = "ControlList_of_infoMap (v4d_controls dev) None"
  have fill: "fill_controls junk dev ids ?l =
      Some (Some (?l\<lparr>cl_controls := map (\<lambda>cid. (cid, unset_value)) ids\<rparr>))"
    using fill_controls_known [OF assms(1), of ?l junk] by (simp add: ControlList_of_infoMap_def)
  obtain cs ys where ys: "read_requests junk dev (map (\<lambda>cid. (cid, unset_value)) ids) = (dev, Some (cs, ys))"
    "map fst cs = ids" "\<forall>(cid, v) \<in> set cs. fits (type cid) (elems cid) v" "shaped_list type elems ids ys"
    using read_requests_known [OF assms(1)] by blast
  have len: "length ys = length ids" "length cs = length ids"
    using ys(4) arg_cong [OF ys(2), of length] by (simp_all add: list_all2_lengthD)
  obtain k' where g: "ioctl_g_ext_ctrls K k ys = (k', xs, None)"
    using assms(3,4) same_shape_shaped [OF ys(4) assms(5)] unfolding reads_back_def by blast
  have "updateControls junk dev (store_payloads cs xs) xs (length ids) = Some (read_list type elems xs)"
    using assms(1,5) ys(2,3) len by (intro updateControls_all) simp_all
  then show ?thesis
    using assms(2) fill ys(1) len g by (simp add: V4L2Device_getControls_def)
qed

lemma setControls_result:
  assumes "known dev type elems (map fst (cl_controls ctrls))" "cl_controls ctrls \<noteq> []"
    and "\<forall>(cid, v) \<in> set (cl_controls ctrls). storable (type cid) (elems cid) v" "reads_back K"
  shows "\<exists>xs k' ys ret. ioctl_s_ext_ctrls K k xs = (k', ys, ret) \<and>
    shaped_list type elems (map fst (cl_controls ctrls)) ys \<and>
    V4L2Device_setControls junk K k dev ctrls = Some (case ret of
        None \<Rightarrow> (k', ctrls\<lparr>cl_controls := read_list type elems ys\<rparr>, Inr 0)
      | Some (e, i) \<Rightarrow>
          if i = 0 \<or> length (cl_controls ctrls) \<le> unat i
          then (k', ctrls\<lparr>cl_controls := store_payloads (cl_controls ctrls) ys\<rparr>, Inl EINVAL)
          else (k', ctrls\<lparr>cl_controls := take (unat (i - 1)) (read_list type elems ys) @
                     drop (unat (i - 1)) (store_payloads (cl_controls ctrls) ys)\<rparr>, Inr i))"
proof -
  let ?cs = "cl_controls ctrls"
  obtain xs where xs: "write_requests dev ?cs = Some (Inr xs)" "shaped_list type elems (map fst ?cs) xs"
    using write_requests_storable [OF assms(1,3)] by blast
  obtain k' ys ret where s: "ioctl_s_ext_ctrls K k xs = (k', ys, ret)" by (metis prod_cases3)
  have ys: "shaped_list type elems (map fst ?cs) ys"
    using assms(4) s shaped_same [OF xs(2)] unfolding reads_back_def by blast
  have fits: "\<forall>(cid, v) \<in> set ?cs. fits (type cid) (elems cid) v"
    using assms(3) by (auto simp: storable_def)
  note upd = updateControls_stored [OF ys assms(1) fits] updateControls_all [OF ys assms(1) fits]
  show ?thesis
    using s ys xs(1) assms(2) upd
    by (intro exI [of _ xs] exI [of _ k'] exI [of _ ys] exI [of _ ret])
      (auto simp: V4L2Device_setControls_def split: option.splits)
qed

text \<open>A driver for the examples: it has two controls, and its state is what was written last.\<close>

definition example_query :: "u32 \<Rightarrow> u32 \<Rightarrow> v4l2_query_ext_ctrl" where
  "example_query cid type =
     \<lparr>qc_id = cid, qc_type = type, qc_name = ''gain'', qc_minimum = 0, qc_maximum = 1, qc_default = 0,
      qc_elems = 1, qc_flags = 0\<rparr>"

definition example_queries :: "v4l2_query_ext_ctrl list" where
  "example_queries = [example_query 4 V4L2_CTRL_TYPE_INTEGER, example_query 9 V4L2_CTRL_TYPE_BOOLEAN]"

definition example_ctrl_kernel :: "v4l2_ext_control list ctrl_kernel" where
  "example_ctrl_kernel =
     \<lparr>ioctl_query_ext_ctrl = (\<lambda>k n. (k, case find (\<lambda>c. and n 0x3FFFFFFF < qc_id c) example_queries of
                                         None \<Rightarrow> Inl EINVAL | Some c \<Rightarrow> Inr c)),
      ioctl_g_ext_ctrls = (\<lambda>k ys. (k, k, None)),
      ioctl_s_ext_ctrls = (\<lambda>k xs. (xs, xs, if length xs \<le> 2 then None else Some (EIO, 2))),
      ioctl_subscribe_frame_sync = (\<lambda>k enable. (k, None)),
      ioctl_dqevent = (\<lambda>k. (k, Inl EAGAIN))\<rparr>"

lemma example_enumerates: "enumerates example_ctrl_kernel example_queries"
proof -
  have low: "and (or cid V4L2_CTRL_FLAG_NEXT) 0x3FFFFFFF = cid" if "cid < 0x40000000" for cid :: u32
  proof -
    have "and V4L2_CTRL_FLAG_NEXT (0x3FFFFFFF :: u32) = 0" by (simp add: V4L2_CTRL_FLAG_NEXT_def)
    moreover have "and cid 0x3FFFFFFF = cid"
    proof -
      have "and cid (mask 30) = take_bit 30 cid" by (simp add: take_bit_eq_mask)
      also have "\<dots> = cid"
        using that by (intro unsigned_word_eqI [where ?'a = nat])
          (simp add: unsigned_take_bit_eq take_bit_nat_eq_self_iff word_less_nat_alt)
      finally show ?thesis by (simp add: mask_numeral)
    qed
    ultimately show ?thesis by (simp add: bit.conj_disj_distrib2)
  qed
  then show ?thesis
    by (auto simp: enumerates_def example_ctrl_kernel_def example_queries_def example_query_def)
qed

lemma example_listable: "filter listable example_queries = example_queries"
  by (simp add: example_queries_def example_query_def listable_def supported_type_def ctrl_consts)

lemma example_reads_back: "reads_back example_ctrl_kernel"
  by (auto simp: reads_back_def example_ctrl_kernel_def same_shape_def list_all2_same)

section \<open>Properties\<close>

text \<open>
  C27. Opening a device ends, however many controls the driver has, when the driver enumerates them
  in the order of their ids: the device then has exactly the controls that are enabled and of a
  supported type, in that order, each found by its id with its own description, and no other.
\<close>

theorem listControls_enumerates:
  assumes "enumerates K cs"
  shows "\<exists>dev. V4L2Device_open K k (V4L2Device_new ptr) (Inr fd) = Some (k, dev, None) \<and>
    map cid_id (v4d_controlIds dev) = map qc_id (filter listable cs) \<and>
    (\<forall>c \<in> set (filter listable cs). V4L2Device_controlInfo dev (qc_id c) = Some c \<and>
       (\<exists>key. ControlInfoMap_find (v4d_controls dev) (qc_id c) = Some (key, V4L2ControlInfo c) \<and>
          cid_id key = qc_id c \<and> cid_type key = v4l2_ctrl_type c)) \<and>
    (\<forall>cid. cid \<notin> qc_id ` set (filter listable cs) \<longrightarrow>
       V4L2Device_controlInfo dev cid = None \<and> ControlInfoMap_find (v4d_controls dev) cid = None)"
proof -
  from open_enumerates [OF assms, of k ptr fd] obtain dev where
    dev: "V4L2Device_open K k (V4L2Device_new ptr) (Inr fd) = Some (k, dev, None)"
    "map cid_id (v4d_controlIds dev) = map qc_id (filter listable cs)"
    "\<forall>i < length (filter listable cs). V4L2Device_controlInfo dev (qc_id (filter listable cs ! i))
         = Some (filter listable cs ! i) \<and>
       ControlInfoMap_find (v4d_controls dev) (qc_id (filter listable cs ! i))
         = Some (V4L2ControlId i (filter listable cs ! i), V4L2ControlInfo (filter listable cs ! i))"
    "\<forall>cid. cid \<notin> qc_id ` set (filter listable cs) \<longrightarrow>
       V4L2Device_controlInfo dev cid = None \<and> ControlInfoMap_find (v4d_controls dev) cid = None" by blast
  have "V4L2Device_controlInfo dev (qc_id c) = Some c \<and>
       (\<exists>key. ControlInfoMap_find (v4d_controls dev) (qc_id c) = Some (key, V4L2ControlInfo c) \<and>
          cid_id key = qc_id c \<and> cid_type key = v4l2_ctrl_type c)" if "c \<in> set (filter listable cs)" for c
  proof -
    from that obtain i where "i < length (filter listable cs)" "filter listable cs ! i = c"
      by (auto simp: in_set_conv_nth simp del: set_filter)
    with dev(3) show ?thesis by (auto simp: V4L2ControlId_def)
  qed
  with dev show ?thesis by blast
qed

theorem listControls_enumerates_witness:
  "\<exists>dev. V4L2Device_open example_ctrl_kernel [] (V4L2Device_new 1) (Inr 5) = Some ([], dev, None) \<and>
     map cid_id (v4d_controlIds dev) = [4, 9]"
  using listControls_enumerates [OF example_enumerates, of "[]" 1 5]
  unfolding example_listable by (auto simp: example_queries_def example_query_def)

text \<open>
  C28. What a device reports when a write succeeds is what reading the same controls gives next: the
  list that \<open>setControls\<close> updates and the list that \<open>getControls\<close> returns agree, for every driver
  that reads back what it reported, whatever value it chose for a control.
\<close>

theorem setControls_getControls:
  assumes "known dev type elems (map fst (cl_controls ctrls))" "cl_controls ctrls \<noteq> []"
    and "\<forall>(cid, v) \<in> set (cl_controls ctrls). storable (type cid) (elems cid) v" "reads_back K"
    and "V4L2Device_setControls junk K k dev ctrls = Some (k', ctrls', Inr 0)"
  shows "map fst (cl_controls ctrls') = map fst (cl_controls ctrls) \<and>
    (\<exists>k'' l. V4L2Device_getControls junk K k' dev (map fst (cl_controls ctrls)) = Some (k'', dev, l) \<and>
       cl_controls l = cl_controls ctrls')"
proof -
  from setControls_result [OF assms(1-4), of k junk] obtain xs k1 ys ret where
    r: "ioctl_s_ext_ctrls K k xs = (k1, ys, ret)" "shaped_list type elems (map fst (cl_controls ctrls)) ys"
    "V4L2Device_setControls junk K k dev ctrls = Some (case ret of
        None \<Rightarrow> (k1, ctrls\<lparr>cl_controls := read_list type elems ys\<rparr>, Inr 0)
      | Some (e, i) \<Rightarrow>
          if i = 0 \<or> length (cl_controls ctrls) \<le> unat i
          then (k1, ctrls\<lparr>cl_controls := store_payloads (cl_controls ctrls) ys\<rparr>, Inl EINVAL)
          else (k1, ctrls\<lparr>cl_controls := take (unat (i - 1)) (read_list type elems ys) @
                     drop (unat (i - 1)) (store_payloads (cl_controls ctrls) ys)\<rparr>, Inr i))" by blast
  then have ok: "ret = None" "k1 = k'" "cl_controls ctrls' = read_list type elems ys"
    using assms(5) by (auto split: option.splits if_splits)
  have "map fst (read_list type elems ys) = map fst (cl_controls ctrls)"
    using r(2) by (simp add: read_list_def list_all2_conv_all_nth list_eq_iff_nth_eq)
  then show ?thesis
    using getControls_reads [OF assms(1) _ assms(4) _ r(2)] r(1) ok assms(2) by simp
qed


definition example_ctrl_device :: V4L2Device where
  "example_ctrl_device =
     (let q = example_query 4 V4L2_CTRL_TYPE_INTEGER; key = V4L2ControlId 0 q
      in (V4L2Device_new 1)\<lparr>v4d_fd := 5, v4d_notifier := Some False, v4d_controlInfo := [(4, q)],
           v4d_controlIds := [key],
           v4d_controls := \<lparr>im_ptr = 1, im_map = [(key, V4L2ControlInfo q)], im_idmap = [(4, key)]\<rparr>\<rparr>)"

definition example_ctrl_list :: ControlList where
  "example_ctrl_list = ControlList_new\<lparr>cl_controls := [(4, scalar ControlTypeInteger32 (bytes_u32 7))]\<rparr>"

lemma example_find:
  "ControlInfoMap_find (v4d_controls example_ctrl_device) 4 =
     Some (V4L2ControlId 0 (example_query 4 V4L2_CTRL_TYPE_INTEGER),
           V4L2ControlInfo (example_query 4 V4L2_CTRL_TYPE_INTEGER))"
  "cid_type (V4L2ControlId n (example_query m V4L2_CTRL_TYPE_INTEGER)) = ControlTypeInteger32"
  by (simp_all add: example_ctrl_device_def ControlInfoMap_find_def V4L2ControlId_def v4l2_ctrl_type_def
      example_query_def ctrl_consts Let_def)

lemma example_known: "known example_ctrl_device (\<lambda>_. ControlTypeInteger32) (\<lambda>_. 1) [4]"
  by (simp add: known_def handled_def example_find)
    (simp add: example_ctrl_device_def example_query_def has_payload_def Let_def)

lemma example_set:
  "V4L2Device_setControls junk example_ctrl_kernel k example_ctrl_device example_ctrl_list =
     Some ([\<lparr>xc_id = 4, xc_value64 = 7, xc_payload = None\<rparr>], example_ctrl_list, Inr 0)"
proof -
  have "write_requests example_ctrl_device (cl_controls example_ctrl_list)
      = Some (Inr [\<lparr>xc_id = 4, xc_value64 = 7, xc_payload = None\<rparr>])"
    by (simp add: example_ctrl_list_def example_find getT_scalar)
  moreover have "updateControls junk example_ctrl_device (cl_controls example_ctrl_list)
      [\<lparr>xc_id = 4, xc_value64 = 7, xc_payload = None\<rparr>] 1 = Some (cl_controls example_ctrl_list)"
    by (simp add: example_ctrl_list_def example_find update_value_def setT_scalar)
  ultimately show ?thesis
    by (simp add: V4L2Device_setControls_def example_ctrl_kernel_def)
      (simp add: example_ctrl_list_def store_payload_def)
qed

theorem setControls_getControls_witness:
  "\<exists>k'' l. V4L2Device_getControls (\<lambda>_. 0) example_ctrl_kernel [\<lparr>xc_id = 4, xc_value64 = 7, xc_payload = None\<rparr>]
       example_ctrl_device [4] = Some (k'', example_ctrl_device, l) \<and>
     cl_controls l = [(4, scalar ControlTypeInteger32 (bytes_u32 7))]"
  using setControls_getControls [of example_ctrl_device "\<lambda>_. ControlTypeInteger32" "\<lambda>_. 1" example_ctrl_list
      example_ctrl_kernel "\<lambda>_. 0" "[]" "[\<lparr>xc_id = 4, xc_value64 = 7, xc_payload = None\<rparr>]" example_ctrl_list]
    example_known example_reads_back example_set
  by (simp add: example_ctrl_list_def storable_def fits_def) blast

text \<open>
  When the driver fails at the control of index i, the controls before it have been written, but
  only the first i - 1 of them are updated in the list: the entry of the last control that was
  written, and every later one, is the value the caller passed.
\<close>

theorem setControls_error_updates_one_less:
  assumes "known dev type elems (map fst (cl_controls ctrls))" "cl_controls ctrls \<noteq> []"
    and "\<forall>(cid, v) \<in> set (cl_controls ctrls). storable (type cid) (elems cid) v" "reads_back K"
    and "\<forall>cid \<in> set (map fst (cl_controls ctrls)). type cid \<noteq> ControlTypeByte"
    and "V4L2Device_setControls junk K k dev ctrls = Some (k', ctrls', Inr i)" "i \<noteq> 0"
  shows "unat i < length (cl_controls ctrls) \<and>
    (\<exists>xs ys e. ioctl_s_ext_ctrls K k xs = (k', ys, Some (e, i)) \<and>
       cl_controls ctrls' = take (unat i - 1) (read_list type elems ys) @ drop (unat i - 1) (cl_controls ctrls))"
proof -
  let ?cs = "cl_controls ctrls"
  from setControls_result [OF assms(1-4), of k junk] obtain xs k1 ys ret where
    r: "ioctl_s_ext_ctrls K k xs = (k1, ys, ret)" "shaped_list type elems (map fst ?cs) ys"
    "V4L2Device_setControls junk K k dev ctrls = Some (case ret of
        None \<Rightarrow> (k1, ctrls\<lparr>cl_controls := read_list type elems ys\<rparr>, Inr 0)
      | Some (e, i) \<Rightarrow>
          if i = 0 \<or> length ?cs \<le> unat i
          then (k1, ctrls\<lparr>cl_controls := store_payloads ?cs ys\<rparr>, Inl EINVAL)
          else (k1, ctrls\<lparr>cl_controls := take (unat (i - 1)) (read_list type elems ys) @
                     drop (unat (i - 1)) (store_payloads ?cs ys)\<rparr>, Inr i))" by blast
  have "store_payloads cs ys = cs" if "shaped_list type elems (map fst cs) ys"
    "\<forall>cid \<in> set (map fst cs). type cid \<noteq> ControlTypeByte" for cs
    using that
    by (induction cs ys rule: store_payloads.induct) (auto simp: store_payload_def shaped_simps)
  from this [OF r(2) assms(5)] have same: "store_payloads ?cs ys = ?cs" .
  have "unat (i - 1) = unat i - 1" using assms(7) by (simp add: unat_minus_one)
  with r(3) assms(6,7) same obtain e where "ret = Some (e, i)" "k1 = k'" "\<not> length ?cs \<le> unat i"
    "cl_controls ctrls' = take (unat i - 1) (read_list type elems ys) @ drop (unat i - 1) ?cs"
    by (auto split: option.splits if_splits)
  with r(1) show ?thesis by (intro conjI exI [of _ xs] exI [of _ ys] exI [of _ e]) simp_all
qed

definition example_three_controls :: ControlList where
  "example_three_controls =
     ControlList_new\<lparr>cl_controls := map (\<lambda>n. (n, scalar ControlTypeInteger32 (bytes_u32 7))) [1, 2, 3]\<rparr>"

definition example_three_device :: V4L2Device where
  "example_three_device =
     (let q = (\<lambda>n. example_query n V4L2_CTRL_TYPE_INTEGER); key = (\<lambda>n. V4L2ControlId (unat n) (q n))
      in (V4L2Device_new 1)\<lparr>v4d_controlInfo := map (\<lambda>n. (n, q n)) [1, 2, 3],
           v4d_controls := \<lparr>im_ptr = 1, im_map = map (\<lambda>n. (key n, V4L2ControlInfo (q n))) [1, 2, 3],
                            im_idmap = map (\<lambda>n. (n, key n)) [1, 2, 3]\<rparr>\<rparr>)"

lemma example_three_find:
  "n \<in> {1, 2, 3} \<Longrightarrow> ControlInfoMap_find (v4d_controls example_three_device) n =
     Some (V4L2ControlId (unat n) (example_query n V4L2_CTRL_TYPE_INTEGER),
           V4L2ControlInfo (example_query n V4L2_CTRL_TYPE_INTEGER))"
  by (auto simp: example_three_device_def ControlInfoMap_find_def V4L2ControlId_def Let_def)

lemma example_three:
  "known example_three_device (\<lambda>_. ControlTypeInteger32) (\<lambda>_. 1) [1, 2, 3]"
  "\<exists>k'. V4L2Device_setControls junk example_ctrl_kernel [] example_three_device example_three_controls
     = Some (k', example_three_controls, Inr 2)"
proof -
  show "known example_three_device (\<lambda>_. ControlTypeInteger32) (\<lambda>_. 1) [1, 2, 3]"
    by (simp add: known_def handled_def example_three_find example_find)
      (simp add: example_three_device_def example_query_def has_payload_def Let_def)
  let ?xs = "map (\<lambda>n. \<lparr>xc_id = n, xc_value64 = 7, xc_payload = None\<rparr>) [1, 2, 3]"
  have "write_requests example_three_device (cl_controls example_three_controls) = Some (Inr ?xs)"
    by (simp add: example_three_controls_def example_three_find example_find getT_scalar)
  moreover have "updateControls junk example_three_device (cl_controls example_three_controls) ?xs 1
      = Some (cl_controls example_three_controls)"
    by (simp add: example_three_controls_def example_three_find example_find update_value_def setT_scalar)
  ultimately show "\<exists>k'. V4L2Device_setControls junk example_ctrl_kernel [] example_three_device
      example_three_controls = Some (k', example_three_controls, Inr 2)"
    by (simp add: V4L2Device_setControls_def example_ctrl_kernel_def)
      (simp add: example_three_controls_def store_payload_def)
qed

theorem setControls_error_updates_one_less_witness:
  "\<exists>k' xs ys e. ioctl_s_ext_ctrls example_ctrl_kernel [] xs = (k', ys, Some (e, 2)) \<and>
     cl_controls example_three_controls = take 1 (read_list (\<lambda>_. ControlTypeInteger32) (\<lambda>_. 1) ys) @
       drop 1 (cl_controls example_three_controls)"
proof -
  obtain k' where k': "V4L2Device_setControls (\<lambda>_. 0) example_ctrl_kernel [] example_three_device
      example_three_controls = Some (k', example_three_controls, Inr 2)"
    using example_three(2) by blast
  have "\<forall>(cid, v) \<in> set (cl_controls example_three_controls). storable ControlTypeInteger32 1 v"
    by (auto simp: example_three_controls_def storable_def fits_def)
  moreover have "known example_three_device (\<lambda>_. ControlTypeInteger32) (\<lambda>_. 1)
      (map fst (cl_controls example_three_controls))"
    using example_three(1) by (simp add: example_three_controls_def)
  ultimately show ?thesis
    using setControls_error_updates_one_less [of example_three_device "\<lambda>_. ControlTypeInteger32" "\<lambda>_. 1"
        example_three_controls example_ctrl_kernel "\<lambda>_. 0" "[]" k' example_three_controls 2]
      example_reads_back k'
    by (auto simp: example_three_controls_def)
qed

text \<open>
  A boolean control is announced with boolean values, but cannot be written with one: the code
  reads every value that is neither a 64-bit integer nor an array of bytes as a 32-bit integer, and
  the type check of the value fails.
\<close>

theorem boolean_control_aborts:
  assumes "enumerates K cs" "c \<in> set cs" "listable c" "qc_type c = V4L2_CTRL_TYPE_BOOLEAN"
  shows "\<exists>dev key. V4L2Device_open K k (V4L2Device_new ptr) (Inr fd) = Some (k, dev, None) \<and>
    ControlInfoMap_find (v4d_controls dev) (qc_id c) = Some (key, V4L2ControlInfo c) \<and>
    cid_type key = ControlTypeBool \<and> cv_type (ci_max (V4L2ControlInfo c)) = ControlTypeBool \<and>
    V4L2Device_setControls junk K k dev
      (l\<lparr>cl_controls := [(qc_id c, scalar ControlTypeBool (bytes_bool b))]\<rparr>) = None"
proof -
  have "c \<in> set (filter listable cs)" using assms(2,3) by simp
  then obtain i where i: "i < length (filter listable cs)" "filter listable cs ! i = c"
    unfolding in_set_conv_nth by blast
  from open_enumerates [OF assms(1), of k ptr fd] i obtain dev where
    dev: "V4L2Device_open K k (V4L2Device_new ptr) (Inr fd) = Some (k, dev, None)"
    "ControlInfoMap_find (v4d_controls dev) (qc_id c) = Some (V4L2ControlId i c, V4L2ControlInfo c)"
    by blast
  have "cid_type (V4L2ControlId i c) = ControlTypeBool" "cv_type (ci_max (V4L2ControlInfo c)) = ControlTypeBool"
    using assms(4) by (simp_all add: V4L2ControlId_def v4l2_ctrl_type_def V4L2ControlInfo_def
        ControlInfo_range_def scalar_def ctrl_consts)
  moreover from this dev(2) have "V4L2Device_setControls junk K k dev
      (l\<lparr>cl_controls := [(qc_id c, scalar ControlTypeBool (bytes_bool b))]\<rparr>) = None"
    by (simp add: V4L2Device_setControls_def ControlValue_getT_def scalar_def)
  ultimately show ?thesis using dev by blast
qed

theorem boolean_control_aborts_witness:
  "\<exists>dev. V4L2Device_open example_ctrl_kernel [] (V4L2Device_new 1) (Inr 5) = Some ([], dev, None) \<and>
     V4L2Device_setControls (\<lambda>_. 0) example_ctrl_kernel [] dev
       (ControlList_new\<lparr>cl_controls := [(9, scalar ControlTypeBool (bytes_bool True))]\<rparr>) = None"
  using boolean_control_aborts [OF example_enumerates, of "example_query 9 V4L2_CTRL_TYPE_BOOLEAN" "[]" 1 5
      "\<lambda>_. 0" True ControlList_new]
  by (auto simp: example_queries_def example_query_def listable_def supported_type_def ctrl_consts)

text \<open>
  A device that is closed while frame start events are enabled and then opened again believes that
  they still are: enabling them reports success, subscribes to nothing and leaves the new notifier
  disabled.
\<close>

theorem reopened_device_no_events:
  assumes "v4d_frameStartEnabled dev" "V4L2Device_isOpen dev"
    and "V4L2Device_open K k (V4L2Device_close dev) (Inr fd) = Some (k', dev', None)"
  shows "V4L2Device_setFrameStartEnabled K k' dev' True = Some (k', dev', None) \<and> v4d_notifier dev' = Some False"
  using assms
  by (auto simp: V4L2Device_open_def V4L2Device_close_def V4L2Device_isOpen_def V4L2Device_setFd_def
      V4L2Device_listControls_def V4L2Device_setFrameStartEnabled_def split: option.splits)


end
