(* ===== verification/VideoFormat.thy ===== *)
theory VideoFormat
  imports VideoDevice V4L2Device Formats
begin

text \<open>
  Opening and closing V4L2 video devices and memory-to-memory devices, and their formats: getting, trying and
  setting a format, and the enumeration of formats and sizes (\<open>v4l2_videodevice.cpp\<close>), over a driver that is a
  record of functions. Reading or writing outside of the three planes of a format, a failed assertion and a second
  \<open>delete\<close> of a notifier are \<open>None\<close>.
\<close>

section \<open>Capabilities\<close>

definition V4L2_CAP_VIDEO_CAPTURE :: u32 where "V4L2_CAP_VIDEO_CAPTURE = 0x00000001"
definition V4L2_CAP_VIDEO_OUTPUT :: u32 where "V4L2_CAP_VIDEO_OUTPUT = 0x00000002"
definition V4L2_CAP_VIDEO_CAPTURE_MPLANE :: u32 where "V4L2_CAP_VIDEO_CAPTURE_MPLANE = 0x00001000"
definition V4L2_CAP_VIDEO_OUTPUT_MPLANE :: u32 where "V4L2_CAP_VIDEO_OUTPUT_MPLANE = 0x00002000"
definition V4L2_CAP_VIDEO_M2M_MPLANE :: u32 where "V4L2_CAP_VIDEO_M2M_MPLANE = 0x00004000"
definition V4L2_CAP_VIDEO_M2M :: u32 where "V4L2_CAP_VIDEO_M2M = 0x00008000"
definition V4L2_CAP_META_CAPTURE :: u32 where "V4L2_CAP_META_CAPTURE = 0x00800000"
definition V4L2_CAP_STREAMING :: u32 where "V4L2_CAP_STREAMING = 0x04000000"
definition V4L2_CAP_META_OUTPUT :: u32 where "V4L2_CAP_META_OUTPUT = 0x08000000"
definition V4L2_CAP_IO_MC :: u32 where "V4L2_CAP_IO_MC = 0x20000000"
definition V4L2_CAP_DEVICE_CAPS :: u32 where "V4L2_CAP_DEVICE_CAPS = 0x80000000"

record V4L2Capability =
  vc_version :: u32
  vc_capabilities :: u32
  vc_device_caps :: u32

definition device_caps :: "V4L2Capability \<Rightarrow> u32" where
  "device_caps c = (if and (vc_capabilities c) V4L2_CAP_DEVICE_CAPS \<noteq> 0 then vc_device_caps c else vc_capabilities c)"

definition has_cap :: "V4L2Capability \<Rightarrow> u32 list \<Rightarrow> bool" where
  "has_cap c flags \<longleftrightarrow> and (device_caps c) (foldr or flags 0) \<noteq> 0"

definition isMultiplanar :: "V4L2Capability \<Rightarrow> bool" where
  "isMultiplanar c = has_cap c [V4L2_CAP_VIDEO_CAPTURE_MPLANE, V4L2_CAP_VIDEO_OUTPUT_MPLANE, V4L2_CAP_VIDEO_M2M_MPLANE]"

definition isCapture :: "V4L2Capability \<Rightarrow> bool" where
  "isCapture c = has_cap c [V4L2_CAP_VIDEO_CAPTURE, V4L2_CAP_VIDEO_CAPTURE_MPLANE, V4L2_CAP_META_CAPTURE]"

definition isOutput :: "V4L2Capability \<Rightarrow> bool" where
  "isOutput c = has_cap c [V4L2_CAP_VIDEO_OUTPUT, V4L2_CAP_VIDEO_OUTPUT_MPLANE, V4L2_CAP_META_OUTPUT]"

definition isVideo :: "V4L2Capability \<Rightarrow> bool" where
  "isVideo c = has_cap c [V4L2_CAP_VIDEO_CAPTURE, V4L2_CAP_VIDEO_CAPTURE_MPLANE, V4L2_CAP_VIDEO_OUTPUT,
     V4L2_CAP_VIDEO_OUTPUT_MPLANE]"

definition isM2M :: "V4L2Capability \<Rightarrow> bool" where
  "isM2M c = has_cap c [V4L2_CAP_VIDEO_M2M, V4L2_CAP_VIDEO_M2M_MPLANE]"

definition isMeta :: "V4L2Capability \<Rightarrow> bool" where
  "isMeta c = has_cap c [V4L2_CAP_META_CAPTURE, V4L2_CAP_META_OUTPUT]"

definition hasStreaming :: "V4L2Capability \<Rightarrow> bool" where
  "hasStreaming c = has_cap c [V4L2_CAP_STREAMING]"

definition isVideoCapture :: "V4L2Capability \<Rightarrow> bool" where
  "isVideoCapture c \<longleftrightarrow> isVideo c \<and> isCapture c"

definition isVideoOutput :: "V4L2Capability \<Rightarrow> bool" where
  "isVideoOutput c \<longleftrightarrow> isVideo c \<and> isOutput c"

definition isMetaCapture :: "V4L2Capability \<Rightarrow> bool" where
  "isMetaCapture c \<longleftrightarrow> isMeta c \<and> isCapture c"

definition isMetaOutput :: "V4L2Capability \<Rightarrow> bool" where
  "isMetaOutput c \<longleftrightarrow> isMeta c \<and> isOutput c"

section \<open>Opening\<close>

text \<open>The checks of \<open>open\<close>, and the type of the buffers and the event of the notifier that it chooses.\<close>

datatype v4l2_buf_type =
    VideoCapture | VideoCaptureMplane | VideoOutput | VideoOutputMplane | MetaCapture | MetaOutput

datatype notifier_event = NotifierRead | NotifierWrite

definition choose_buffer_type :: "V4L2Capability \<Rightarrow> (notifier_event \<times> v4l2_buf_type) result" where
  "choose_buffer_type c =
     (if vc_version c < 0x050000 then Inl EINVAL
      else if \<not> hasStreaming c then Inl EINVAL
      else if isVideoCapture c then Inr (NotifierRead, if isMultiplanar c then VideoCaptureMplane else VideoCapture)
      else if isVideoOutput c then Inr (NotifierWrite, if isMultiplanar c then VideoOutputMplane else VideoOutput)
      else if isMetaCapture c then Inr (NotifierRead, MetaCapture)
      else if isMetaOutput c then Inr (NotifierWrite, MetaOutput)
      else Inl EINVAL)"

text \<open>The other \<open>open\<close> takes the type from the caller, for devices that are both; it does not check the version.\<close>

definition choose_buffer_type_of ::
    "V4L2Capability \<Rightarrow> v4l2_buf_type \<Rightarrow> (notifier_event \<times> v4l2_buf_type) result" where
  "choose_buffer_type_of c type =
     (if \<not> hasStreaming c then Inl EINVAL
      else if type = VideoOutput then Inr (NotifierWrite, if isMultiplanar c then VideoOutputMplane else VideoOutput)
      else if type = VideoCapture then Inr (NotifierRead, if isMultiplanar c then VideoCaptureMplane else VideoCapture)
      else Inl EINVAL)"

text \<open>
  A video device: what the base class keeps, its buffers, the notifier for buffers, which dangles once it is
  deleted, the capabilities and the type of the buffers. \<open>vd_notifier\<close> is whether the notifier is enabled.
\<close>

datatype notifier_ptr = NoNotifier | Notifier notifier_event | FreedNotifier

record video_handle =
  vh_device :: V4L2Device
  vh_video :: V4L2VideoDevice
  vh_notifier :: notifier_ptr
  vh_caps :: V4L2Capability
  vh_bufferType :: v4l2_buf_type

record 'k video_env =
  ve_ctrl :: "'k ctrl_kernel"
  ve_video :: "'k v4l2_kernel"
  ve_openat :: "'k \<Rightarrow> 'k \<times> i32 result"
  ve_dup :: "'k \<Rightarrow> i32 \<Rightarrow> 'k \<times> i32 result"
  ve_close :: "'k \<Rightarrow> i32 \<Rightarrow> 'k"
  ve_querycap :: "'k \<Rightarrow> 'k \<times> V4L2Capability result"

definition video_handle_new :: "nat \<Rightarrow> V4L2Capability \<Rightarrow> video_handle" where
  "video_handle_new ptr caps =
     \<lparr>vh_device = V4L2Device_new ptr,
      vh_video = \<lparr>vd_multiplanar = True, vd_output = False, vd_memoryType = V4L2_MEMORY_MMAP, vd_cache = None,
        vd_queuedBuffers = [], vd_notifier = False, vd_streaming = False\<rparr>,
      vh_notifier = NoNotifier, vh_caps = caps, vh_bufferType = VideoCaptureMplane\<rparr>"

definition new_notifier :: "notifier_event \<Rightarrow> v4l2_buf_type \<Rightarrow> video_handle \<Rightarrow> video_handle" where
  "new_notifier e t h =
     h\<lparr>vh_notifier := Notifier e, vh_bufferType := t,
       vh_video := (vh_video h)\<lparr>vd_multiplanar := (t \<in> {VideoCaptureMplane, VideoOutputMplane}),
         vd_output := (t \<in> {VideoOutput, VideoOutputMplane, MetaOutput}), vd_notifier := False\<rparr>\<rparr>"

definition V4L2VideoDevice_open ::
    "'k video_env \<Rightarrow> 'k \<Rightarrow> video_handle \<Rightarrow> ('k \<times> video_handle \<times> errno option) option" where
  "V4L2VideoDevice_open E k h =
     (let (k, fd) = (if V4L2Device_isOpen (vh_device h) then (k, Inl EBUSY) else ve_openat E k) in
      case V4L2Device_open (ve_ctrl E) k (vh_device h) fd of
        None \<Rightarrow> None
      | Some (k, d, Some e) \<Rightarrow> Some (k, h\<lparr>vh_device := d\<rparr>, Some e)
      | Some (k, d, None) \<Rightarrow>
          let h = h\<lparr>vh_device := d\<rparr> in
          (case ve_querycap E k of
             (k, Inl e) \<Rightarrow> Some (k, h, Some e)
           | (k, Inr c) \<Rightarrow>
               let h = h\<lparr>vh_caps := c\<rparr> in
               (case choose_buffer_type c of
                  Inl e \<Rightarrow> Some (k, h, Some e)
                | Inr (n, t) \<Rightarrow> Some (k, new_notifier n t h, None))))"

definition V4L2VideoDevice_open_handle ::
    "'k video_env \<Rightarrow> 'k \<Rightarrow> video_handle \<Rightarrow> i32 \<Rightarrow> v4l2_buf_type \<Rightarrow> 'k \<times> video_handle \<times> errno option" where
  "V4L2VideoDevice_open_handle E k h handle type =
     (case ve_dup E k handle of
        (k, Inl e) \<Rightarrow> (k, h, Some e)
      | (k, Inr newFd) \<Rightarrow>
          (case V4L2Device_setFd (vh_device h) newFd of
             (d, Some e) \<Rightarrow> (ve_close E k newFd, h\<lparr>vh_device := d\<rparr>, Some e)
           | (d, None) \<Rightarrow>
               let h = h\<lparr>vh_device := d\<rparr> in
               (case ve_querycap E k of
                  (k, Inl e) \<Rightarrow> (k, h, Some e)
                | (k, Inr c) \<Rightarrow>
                    let h = h\<lparr>vh_caps := c\<rparr> in
                    (case choose_buffer_type_of c type of
                       Inl e \<Rightarrow> (k, h, Some e)
                     | Inr (n, t) \<Rightarrow> (k, new_notifier n t h, None)))))"

text \<open>\<open>close\<close> deletes the notifier for buffers and leaves the pointer; deleting a null pointer does nothing.\<close>

definition V4L2VideoDevice_close :: "'k video_env \<Rightarrow> 'k \<Rightarrow> video_handle \<Rightarrow> ('k \<times> video_handle) option" where
  "V4L2VideoDevice_close E k h =
     (if \<not> V4L2Device_isOpen (vh_device h) then Some (k, h)
      else
        let (k, v, _) = V4L2VideoDevice_releaseBuffers (ve_video E) k (vh_video h);
            h = h\<lparr>vh_video := v\<rparr>
        in
        if vh_notifier h = FreedNotifier then None
        else
          let h = (if vh_notifier h = NoNotifier then h else h\<lparr>vh_notifier := FreedNotifier\<rparr>);
              k = ve_close E k (v4d_fd (vh_device h))
          in Some (k, h\<lparr>vh_device := V4L2Device_close (vh_device h)\<rparr>))"

text \<open>A memory-to-memory device: two video devices on one node.\<close>

record V4L2M2MDevice =
  m2_output :: video_handle
  m2_capture :: video_handle

definition V4L2M2MDevice_close :: "'k video_env \<Rightarrow> 'k \<Rightarrow> V4L2M2MDevice \<Rightarrow> ('k \<times> V4L2M2MDevice) option" where
  "V4L2M2MDevice_close E k m =
     (case V4L2VideoDevice_close E k (m2_capture m) of
        None \<Rightarrow> None
      | Some (k, c) \<Rightarrow>
          (case V4L2VideoDevice_close E k (m2_output m) of
             None \<Rightarrow> None
           | Some (k, out) \<Rightarrow> Some (k, \<lparr>m2_output = out, m2_capture = c\<rparr>)))"

definition V4L2M2MDevice_open ::
    "'k video_env \<Rightarrow> 'k \<Rightarrow> V4L2M2MDevice \<Rightarrow> ('k \<times> V4L2M2MDevice \<times> errno option) option" where
  "V4L2M2MDevice_open E k m =
     (case ve_openat E k of
        (k, Inl e) \<Rightarrow> Some (k, m, Some e)
      | (k, Inr fd) \<Rightarrow>
          let (k, out, ret) = V4L2VideoDevice_open_handle E k (m2_output m) fd VideoOutput;
              m = m\<lparr>m2_output := out\<rparr>;
              (k, c, ret) = (if ret \<noteq> None then (k, m2_capture m, ret)
                             else V4L2VideoDevice_open_handle E k (m2_capture m) fd VideoCapture);
              m = m\<lparr>m2_capture := c\<rparr>
          in if ret = None then Some (ve_close E k fd, m, None)
             else
               (case V4L2M2MDevice_close E k m of
                  None \<Rightarrow> None
                | Some (k, m) \<Rightarrow> Some (ve_close E k fd, m, ret)))"

section \<open>Formats of a device\<close>

record DevicePlane =
  dp_size :: u32
  dp_bpl :: u32

record V4L2DeviceFormat =
  df_fourcc :: u32
  df_size :: Size
  df_planes :: "DevicePlane list"
  df_planesCount :: u32

definition V4L2DeviceFormat_new :: V4L2DeviceFormat where
  "V4L2DeviceFormat_new =
     \<lparr>df_fourcc = 0, df_size = mk_Size 0 0, df_planes = replicate 3 \<lparr>dp_size = 0, dp_bpl = 0\<rparr>, df_planesCount = 0\<rparr>"

text \<open>The structures of the kernel for the three kinds of devices; a plane of the last has its line and its size.\<close>

record v4l2_meta_format =
  mf_dataformat :: u32
  mf_buffersize :: u32

record v4l2_pix_format =
  px_width :: u32
  px_height :: u32
  px_pixelformat :: u32
  px_field :: u32
  px_bytesperline :: u32
  px_sizeimage :: u32

record v4l2_pix_format_mplane =
  mp_width :: u32
  mp_height :: u32
  mp_pixelformat :: u32
  mp_field :: u32
  mp_num_planes :: u8
  mp_plane_fmt :: "(u32 \<times> u32) list"

definition V4L2_FIELD_NONE :: u32 where "V4L2_FIELD_NONE = 1"

text \<open>What \<open>VIDIOC_ENUM_FRAMESIZES\<close> returns: minimum, maximum and step of the width, then of the height.\<close>

datatype v4l2_frmsize =
    FrmSizeDiscrete u32 u32
  | FrmSizeContinuous u32 u32 u32 u32
  | FrmSizeStepwise u32 u32 u32 u32 u32 u32
  | FrmSizeUnknown

record 'k format_kernel =
  ioctl_g_meta :: "'k \<Rightarrow> 'k \<times> v4l2_meta_format result"
  ioctl_meta :: "bool \<Rightarrow> 'k \<Rightarrow> v4l2_meta_format \<Rightarrow> 'k \<times> v4l2_meta_format result"
  ioctl_g_pix :: "'k \<Rightarrow> 'k \<times> v4l2_pix_format result"
  ioctl_pix :: "bool \<Rightarrow> 'k \<Rightarrow> v4l2_pix_format \<Rightarrow> 'k \<times> v4l2_pix_format result"
  ioctl_g_mplane :: "'k \<Rightarrow> 'k \<times> v4l2_pix_format_mplane result"
  ioctl_mplane :: "bool \<Rightarrow> 'k \<Rightarrow> v4l2_pix_format_mplane \<Rightarrow> 'k \<times> v4l2_pix_format_mplane result"
  ioctl_enum_fmt :: "'k \<Rightarrow> u32 \<Rightarrow> u32 \<Rightarrow> 'k \<times> u32 result"
  ioctl_enum_framesizes :: "'k \<Rightarrow> u32 \<Rightarrow> u32 \<Rightarrow> 'k \<times> v4l2_frmsize result"

text \<open>Returning a meta format and a single-planar format to the caller.\<close>

definition store_meta :: "v4l2_meta_format \<Rightarrow> V4L2DeviceFormat \<Rightarrow> V4L2DeviceFormat" where
  "store_meta pix format =
     format\<lparr>df_size := mk_Size 0 0, df_fourcc := mf_dataformat pix, df_planesCount := 1,
       df_planes := (df_planes format)[0 := \<lparr>dp_size = mf_buffersize pix, dp_bpl = mf_buffersize pix\<rparr>]\<rparr>"

definition store_pix :: "v4l2_pix_format \<Rightarrow> V4L2DeviceFormat \<Rightarrow> V4L2DeviceFormat" where
  "store_pix pix format =
     format\<lparr>df_size := mk_Size (px_width pix) (px_height pix), df_fourcc := px_pixelformat pix, df_planesCount := 1,
       df_planes := (df_planes format)[0 := \<lparr>dp_size = px_sizeimage pix, dp_bpl = px_bytesperline pix\<rparr>]\<rparr>"

text \<open>The loop over the planes of a multi-planar format writes past the end when there are more than three.\<close>

fun store_planes :: "nat \<Rightarrow> (u32 \<times> u32) list \<Rightarrow> nat \<Rightarrow> DevicePlane list \<Rightarrow> DevicePlane list option" where
  "store_planes i fmts 0 planes = Some planes"
| "store_planes i fmts (Suc n) planes =
     (if i < length planes \<and> i < length fmts
      then store_planes (Suc i) fmts n (planes[i := \<lparr>dp_size = snd (fmts ! i), dp_bpl = fst (fmts ! i)\<rparr>])
      else None)"

definition store_mplane :: "v4l2_pix_format_mplane \<Rightarrow> V4L2DeviceFormat \<Rightarrow> V4L2DeviceFormat option" where
  "store_mplane pix format =
     (case store_planes 0 (mp_plane_fmt pix) (unat (mp_num_planes pix)) (df_planes format) of
        None \<Rightarrow> None
      | Some planes \<Rightarrow>
          Some (format\<lparr>df_size := mk_Size (mp_width pix) (mp_height pix), df_fourcc := mp_pixelformat pix,
            df_planesCount := ucast (mp_num_planes pix), df_planes := planes\<rparr>))"

definition getFormatMeta :: "'k format_kernel \<Rightarrow> 'k \<Rightarrow> V4L2DeviceFormat \<Rightarrow> 'k \<times> V4L2DeviceFormat \<times> errno option" where
  "getFormatMeta F k format =
     (case ioctl_g_meta F k of (k, Inl e) \<Rightarrow> (k, format, Some e) | (k, Inr pix) \<Rightarrow> (k, store_meta pix format, None))"

definition trySetFormatMeta ::
    "'k format_kernel \<Rightarrow> bool \<Rightarrow> 'k \<Rightarrow> V4L2DeviceFormat \<Rightarrow> 'k \<times> V4L2DeviceFormat \<times> errno option" where
  "trySetFormatMeta F commit k format =
     (case ioctl_meta F commit k \<lparr>mf_dataformat = df_fourcc format, mf_buffersize = dp_size (df_planes format ! 0)\<rparr> of
        (k, Inl e) \<Rightarrow> (k, format, Some e)
      | (k, Inr pix) \<Rightarrow> (k, store_meta pix format, None))"

definition getFormatSingleplane ::
    "'k format_kernel \<Rightarrow> 'k \<Rightarrow> V4L2DeviceFormat \<Rightarrow> 'k \<times> V4L2DeviceFormat \<times> errno option" where
  "getFormatSingleplane F k format =
     (case ioctl_g_pix F k of (k, Inl e) \<Rightarrow> (k, format, Some e) | (k, Inr pix) \<Rightarrow> (k, store_pix pix format, None))"

definition trySetFormatSingleplane ::
    "'k format_kernel \<Rightarrow> bool \<Rightarrow> 'k \<Rightarrow> V4L2DeviceFormat \<Rightarrow> 'k \<times> V4L2DeviceFormat \<times> errno option" where
  "trySetFormatSingleplane F commit k format =
     (case ioctl_pix F commit k
          \<lparr>px_width = sz_width (df_size format), px_height = sz_height (df_size format),
           px_pixelformat = df_fourcc format, px_field = V4L2_FIELD_NONE,
           px_bytesperline = dp_bpl (df_planes format ! 0), px_sizeimage = 0\<rparr> of
        (k, Inl e) \<Rightarrow> (k, format, Some e)
      | (k, Inr pix) \<Rightarrow> (k, store_pix pix format, None))"

definition getFormatMultiplane ::
    "'k format_kernel \<Rightarrow> 'k \<Rightarrow> V4L2DeviceFormat \<Rightarrow> ('k \<times> V4L2DeviceFormat \<times> errno option) option" where
  "getFormatMultiplane F k format =
     (case ioctl_g_mplane F k of
        (k, Inl e) \<Rightarrow> Some (k, format, Some e)
      | (k, Inr pix) \<Rightarrow> (case store_mplane pix format of None \<Rightarrow> None | Some f \<Rightarrow> Some (k, f, None)))"

text \<open>The count of planes is cut to eight bits; the assertion admits the eight planes of the kernel's structure.\<close>

definition trySetFormatMultiplane ::
    "'k format_kernel \<Rightarrow> bool \<Rightarrow> 'k \<Rightarrow> V4L2DeviceFormat \<Rightarrow> ('k \<times> V4L2DeviceFormat \<times> errno option) option" where
  "trySetFormatMultiplane F commit k format =
     (let n = ucast (df_planesCount format) :: u8; planes = df_planes format in
      if unat n > VIDEO_MAX_PLANES \<or> unat n > length planes then None
      else
        (case ioctl_mplane F commit k
             \<lparr>mp_width = sz_width (df_size format), mp_height = sz_height (df_size format),
              mp_pixelformat = df_fourcc format, mp_field = V4L2_FIELD_NONE, mp_num_planes = n,
              mp_plane_fmt = map (\<lambda>p. (dp_bpl p, dp_size p)) (take (unat n) planes) @
                replicate (VIDEO_MAX_PLANES - unat n) (0, 0)\<rparr> of
           (k, Inl e) \<Rightarrow> Some (k, format, Some e)
         | (k, Inr pix) \<Rightarrow> (case store_mplane pix format of None \<Rightarrow> None | Some f \<Rightarrow> Some (k, f, None))))"

definition V4L2VideoDevice_getFormat ::
    "'k format_kernel \<Rightarrow> V4L2Capability \<Rightarrow> 'k \<Rightarrow> V4L2DeviceFormat \<Rightarrow> ('k \<times> V4L2DeviceFormat \<times> errno option) option" where
  "V4L2VideoDevice_getFormat F caps k format =
     (if isMeta caps then Some (getFormatMeta F k format)
      else if isMultiplanar caps then getFormatMultiplane F k format
      else Some (getFormatSingleplane F k format))"

definition trySetFormat ::
    "'k format_kernel \<Rightarrow> V4L2Capability \<Rightarrow> bool \<Rightarrow> 'k \<Rightarrow> V4L2DeviceFormat
      \<Rightarrow> ('k \<times> V4L2DeviceFormat \<times> errno option) option" where
  "trySetFormat F caps commit k format =
     (if isMeta caps then Some (trySetFormatMeta F commit k format)
      else if isMultiplanar caps then trySetFormatMultiplane F commit k format
      else Some (trySetFormatSingleplane F commit k format))"

definition V4L2VideoDevice_tryFormat ::
    "'k format_kernel \<Rightarrow> V4L2Capability \<Rightarrow> 'k \<Rightarrow> V4L2DeviceFormat \<Rightarrow> ('k \<times> V4L2DeviceFormat \<times> errno option) option" where
  "V4L2VideoDevice_tryFormat F caps k format = trySetFormat F caps False k format"

definition V4L2VideoDevice_setFormat ::
    "'k format_kernel \<Rightarrow> V4L2Capability \<Rightarrow> 'k \<Rightarrow> V4L2DeviceFormat \<Rightarrow> ('k \<times> V4L2DeviceFormat \<times> errno option) option" where
  "V4L2VideoDevice_setFormat F caps k format = trySetFormat F caps True k format"

definition V4L2VideoDevice_toV4L2PixelFormat :: "V4L2Capability \<Rightarrow> PixelFormat \<Rightarrow> u32" where
  "V4L2VideoDevice_toV4L2PixelFormat caps p = V4L2PixelFormat_fromPixelFormat p (isMultiplanar caps)"

section \<open>Enumeration\<close>

text \<open>The loops have no bound of their own: they end when the driver refuses an index.\<close>

partial_function (option) enum_formats_loop ::
    "'k format_kernel \<Rightarrow> u32 \<Rightarrow> 'k \<Rightarrow> u32 \<Rightarrow> u32 list \<Rightarrow> ('k \<times> u32 list) option" where
  "enum_formats_loop F code k index found =
     (case ioctl_enum_fmt F k index code of
        (k, Inl e) \<Rightarrow> Some (k, if e = EINVAL then found else [])
      | (k, Inr f) \<Rightarrow> enum_formats_loop F code k (index + 1) (found @ [f]))"

definition enumPixelformats ::
    "'k format_kernel \<Rightarrow> V4L2Capability \<Rightarrow> u32 \<Rightarrow> 'k \<Rightarrow> ('k \<times> u32 list) option" where
  "enumPixelformats F caps code k =
     (if code \<noteq> 0 \<and> and (device_caps caps) V4L2_CAP_IO_MC = 0 then Some (k, [])
      else enum_formats_loop F code k 0 [])"

definition frmsize_range :: "v4l2_frmsize \<Rightarrow> SizeRange option" where
  "frmsize_range f =
     (case f of
        FrmSizeDiscrete w h \<Rightarrow> Some (SizeRange_of_size (mk_Size w h))
      | FrmSizeContinuous wmin wmax hmin hmax \<Rightarrow>
          Some \<lparr>sr_min = mk_Size wmin hmin, sr_max = mk_Size wmax hmax, sr_hStep = 1, sr_vStep = 1\<rparr>
      | FrmSizeStepwise wmin wmax wstep hmin hmax hstep \<Rightarrow>
          Some \<lparr>sr_min = mk_Size wmin hmin, sr_max = mk_Size wmax hmax, sr_hStep = wstep, sr_vStep = hstep\<rparr>
      | FrmSizeUnknown \<Rightarrow> None)"

fun frmsize_is_discrete :: "v4l2_frmsize \<Rightarrow> bool" where
  "frmsize_is_discrete (FrmSizeDiscrete w h) = True"
| "frmsize_is_discrete _ = False"

partial_function (option) enum_sizes_loop ::
    "'k format_kernel \<Rightarrow> u32 \<Rightarrow> 'k \<Rightarrow> u32 \<Rightarrow> SizeRange list \<Rightarrow> ('k \<times> SizeRange list) option" where
  "enum_sizes_loop F pixelFormat k index sizes =
     (case ioctl_enum_framesizes F k index pixelFormat of
        (k, Inl e) \<Rightarrow> Some (k, if e = EINVAL then sizes else [])
      | (k, Inr f) \<Rightarrow>
          if index \<noteq> 0 \<and> \<not> frmsize_is_discrete f then Some (k, [])
          else
            (case frmsize_range f of
               None \<Rightarrow> Some (k, [])
             | Some r \<Rightarrow> enum_sizes_loop F pixelFormat k (index + 1) (sizes @ [r])))"

definition enumSizes :: "'k format_kernel \<Rightarrow> 'k \<Rightarrow> u32 \<Rightarrow> ('k \<times> SizeRange list) option" where
  "enumSizes F k pixelFormat = enum_sizes_loop F pixelFormat k 0 []"

fun formats_loop ::
    "'k format_kernel \<Rightarrow> 'k \<Rightarrow> u32 list \<Rightarrow> (u32 \<times> SizeRange list) list
      \<Rightarrow> ('k \<times> (u32 \<times> SizeRange list) list) option" where
  "formats_loop F k [] m = Some (k, m)"
| "formats_loop F k (f # fs) m =
     (case enumSizes F k f of
        None \<Rightarrow> None
      | Some (k, sizes) \<Rightarrow>
          if sizes = [] then Some (k, [])
          else if map_of m f \<noteq> None then Some (k, [])
          else formats_loop F k fs (map_emplace f sizes m))"

definition V4L2VideoDevice_formats ::
    "'k format_kernel \<Rightarrow> V4L2Capability \<Rightarrow> u32 \<Rightarrow> 'k \<Rightarrow> ('k \<times> (u32 \<times> SizeRange list) list) option" where
  "V4L2VideoDevice_formats F caps code k =
     (case enumPixelformats F caps code k of None \<Rightarrow> None | Some (k, fs) \<Rightarrow> formats_loop F k fs [])"

section \<open>Opening and closing\<close>

abbreviation handle_open :: "video_handle \<Rightarrow> bool" where
  "handle_open h \<equiv> V4L2Device_isOpen (vh_device h)"

lemma handle_open_new_notifier [simp]:
  "vh_device (new_notifier e t h) = vh_device h" "vh_notifier (new_notifier e t h) = Notifier e"
  "vh_bufferType (new_notifier e t h) = t" "vh_caps (new_notifier e t h) = vh_caps h"
  by (simp_all add: new_notifier_def)

lemma V4L2VideoDevice_close_spec:
  assumes "V4L2VideoDevice_close E k h = Some (k', h')"
  shows "\<not> handle_open h'" and "vh_notifier h = FreedNotifier \<Longrightarrow> vh_notifier h' = FreedNotifier"
    and "handle_open h \<Longrightarrow> vh_notifier h \<noteq> NoNotifier \<Longrightarrow> vh_notifier h' = FreedNotifier"
  using assms
  by (auto simp: V4L2VideoDevice_close_def V4L2Device_close_def V4L2Device_isOpen_def Let_def
      V4L2VideoDevice_releaseBuffers_def split: if_splits prod.splits)

lemma V4L2VideoDevice_close_returns:
  assumes "handle_open h \<Longrightarrow> vh_notifier h \<noteq> FreedNotifier"
  shows "\<exists>k' h'. V4L2VideoDevice_close E k h = Some (k', h') \<and> \<not> handle_open h'"
  using assms
  by (auto simp: V4L2VideoDevice_close_def V4L2Device_close_def V4L2Device_isOpen_def Let_def
      V4L2VideoDevice_releaseBuffers_def split: prod.splits)

lemma V4L2VideoDevice_open_spec:
  assumes "V4L2VideoDevice_open E k h = Some (k', h', r)"
  shows "r = None \<Longrightarrow> \<exists>e. vh_notifier h' = Notifier e" and "r \<noteq> None \<Longrightarrow> vh_notifier h' = vh_notifier h"
  using assms
  by (auto simp: V4L2VideoDevice_open_def Let_def split: if_splits prod.splits option.splits sum.splits)

lemma open_handle_spec:
  assumes "V4L2VideoDevice_open_handle E k h fd t = (k', h', r)" "\<not> handle_open h"
    and "\<forall>k k' fd new. ve_dup E k fd = (k', Inr new) \<longrightarrow> new \<noteq> - 1"
  shows "r = None \<Longrightarrow> handle_open h' \<and> (\<exists>e. choose_buffer_type_of (vh_caps h') t = Inr (e, vh_bufferType h') \<and>
      vh_notifier h' = Notifier e)"
    and "r \<noteq> None \<Longrightarrow> vh_notifier h' = vh_notifier h"
  using assms
  by (auto simp: V4L2VideoDevice_open_handle_def V4L2Device_setFd_def Let_def V4L2Device_isOpen_def
      split: if_splits prod.splits option.splits sum.splits)

section \<open>Getting, setting and enumerating formats\<close>

lemma store_planes_spec:
  "store_planes i fmts n planes =
     (if n = 0 \<or> (i + n \<le> length planes \<and> i + n \<le> length fmts)
      then Some (take i planes @ map (\<lambda>(b, s). \<lparr>dp_size = s, dp_bpl = b\<rparr>) (take n (drop i fmts)) @ drop (i + n) planes)
      else None)"
proof (induction i fmts n planes rule: store_planes.induct)
  case (2 i fmts n planes)
  show ?case
  proof (cases "i < length planes \<and> i < length fmts")
    case True
    then have "drop i fmts = fmts ! i # drop (Suc i) fmts" by (simp add: Cons_nth_drop_Suc)
    with 2 True show ?thesis
      by (auto simp: take_Suc_conv_app_nth take_update_swap case_prod_unfold list_update_append)
  qed auto
qed simp

lemma store_mplane_eq:
  "store_mplane pix f =
     (let n = unat (mp_num_planes pix) in
      if n = 0 \<or> n \<le> length (df_planes f) \<and> n \<le> length (mp_plane_fmt pix)
      then Some (f\<lparr>df_size := mk_Size (mp_width pix) (mp_height pix), df_fourcc := mp_pixelformat pix,
        df_planesCount := ucast (mp_num_planes pix),
        df_planes := map (\<lambda>(b, s). \<lparr>dp_size = s, dp_bpl = b\<rparr>) (take n (mp_plane_fmt pix)) @ drop n (df_planes f)\<rparr>)
      else None)"
  by (auto simp: store_mplane_def store_planes_spec Let_def)

lemma unat_u8_u32 [simp]: "unat (ucast (n :: u8) :: u32) = unat n"
proof -
  have "unat n < 256" using unsigned_less [of n] by simp
  then show ?thesis by (simp add: unsigned_ucast_eq take_bit_nat_eq_self)
qed

text \<open>Two formats that a caller cannot tell apart: the planes beyond the count are left over.\<close>

definition same_format :: "V4L2DeviceFormat \<Rightarrow> V4L2DeviceFormat \<Rightarrow> bool" where
  "same_format f g \<longleftrightarrow> df_fourcc f = df_fourcc g \<and> df_size f = df_size g \<and> df_planesCount f = df_planesCount g \<and>
     take (unat (df_planesCount f)) (df_planes f) = take (unat (df_planesCount f)) (df_planes g)"

lemma store_mplane_same:
  "store_mplane pix f = Some f' \<Longrightarrow> length (df_planes f) = length (df_planes g) \<Longrightarrow>
     \<exists>g'. store_mplane pix g = Some g' \<and> same_format f' g'"
  by (auto simp: store_mplane_eq Let_def same_format_def split: if_splits)

lemma store_pix_same:
  "df_planes f \<noteq> [] \<Longrightarrow> df_planes g \<noteq> [] \<Longrightarrow> same_format (store_pix pix f) (store_pix pix g)"
  "df_planes f \<noteq> [] \<Longrightarrow> df_planes g \<noteq> [] \<Longrightarrow> same_format (store_meta m f) (store_meta m g)"
  by (cases "df_planes f"; cases "df_planes g"; simp add: store_pix_def store_meta_def same_format_def)+

text \<open>A driver that reports the format it has set.\<close>

definition remembers_format :: "'k format_kernel \<Rightarrow> bool" where
  "remembers_format F \<longleftrightarrow>
     (\<forall>k p k' p'. ioctl_meta F True k p = (k', Inr p') \<longrightarrow> ioctl_g_meta F k' = (k', Inr p')) \<and>
     (\<forall>k p k' p'. ioctl_pix F True k p = (k', Inr p') \<longrightarrow> ioctl_g_pix F k' = (k', Inr p')) \<and>
     (\<forall>k p k' p'. ioctl_mplane F True k p = (k', Inr p') \<longrightarrow> ioctl_g_mplane F k' = (k', Inr p'))"

lemma remembers_formatD:
  assumes "remembers_format F"
  shows "ioctl_meta F True k m = (k', Inr m') \<Longrightarrow> ioctl_g_meta F k' = (k', Inr m')"
    and "ioctl_pix F True k p = (k', Inr p') \<Longrightarrow> ioctl_g_pix F k' = (k', Inr p')"
    and "ioctl_mplane F True k q = (k', Inr q') \<Longrightarrow> ioctl_g_mplane F k' = (k', Inr q')"
  using assms unfolding remembers_format_def by blast+

lemma set_get_meta:
  assumes "remembers_format F" "df_planes f \<noteq> []" "df_planes g \<noteq> []"
    and "trySetFormatMeta F True k f = (k', f', None)"
  shows "\<exists>g'. getFormatMeta F k' g = (k', g', None) \<and> same_format f' g'"
  using assms(4) remembers_formatD(1) [OF assms(1)] store_pix_same(2) [OF assms(2,3)]
  by (auto simp: trySetFormatMeta_def getFormatMeta_def split: prod.splits sum.splits)

lemma set_get_singleplane:
  assumes "remembers_format F" "df_planes f \<noteq> []" "df_planes g \<noteq> []"
    and "trySetFormatSingleplane F True k f = (k', f', None)"
  shows "\<exists>g'. getFormatSingleplane F k' g = (k', g', None) \<and> same_format f' g'"
  using assms(4) remembers_formatD(2) [OF assms(1)] store_pix_same(1) [OF assms(2,3)]
  by (auto simp: trySetFormatSingleplane_def getFormatSingleplane_def split: prod.splits sum.splits)

lemma set_get_multiplane:
  assumes F: "remembers_format F" and l: "length (df_planes f) = length (df_planes g)"
    and r: "trySetFormatMultiplane F True k f = Some (k', f', None)"
  shows "\<exists>g'. getFormatMultiplane F k' g = Some (k', g', None) \<and> same_format f' g'"
proof -
  from r obtain q q' where q: "ioctl_mplane F True k q = (k', Inr q')" "store_mplane q' f = Some f'"
    by (auto simp: trySetFormatMultiplane_def Let_def split: if_splits prod.splits sum.splits option.splits)
  from store_mplane_same [OF q(2) l] obtain g' where "store_mplane q' g = Some g'" "same_format f' g'" by blast
  with remembers_formatD(3) [OF F q(1)] show ?thesis by (simp add: getFormatMultiplane_def)
qed

subsection \<open>Enumeration\<close>

definition lists_formats :: "'k format_kernel \<Rightarrow> u32 \<Rightarrow> u32 list \<Rightarrow> bool" where
  "lists_formats F code fs \<longleftrightarrow> length fs < 2 ^ 32 \<and>
     (\<forall>k i. ioctl_enum_fmt F k i code = (k, if unat i < length fs then Inr (fs ! unat i) else Inl EINVAL))"

definition lists_sizes :: "'k format_kernel \<Rightarrow> (u32 \<Rightarrow> v4l2_frmsize list) \<Rightarrow> bool" where
  "lists_sizes F szs \<longleftrightarrow> (\<forall>f. length (szs f) < 2 ^ 32 \<and>
     (\<forall>k i. ioctl_enum_framesizes F k i f =
        (k, if unat i < length (szs f) then Inr (szs f ! unat i) else Inl EINVAL)))"

text \<open>The lists of sizes that the code accepts: any number of discrete sizes after one size of a known kind.\<close>

definition frmsizes_ok :: "v4l2_frmsize list \<Rightarrow> bool" where
  "frmsizes_ok xs \<longleftrightarrow> xs \<noteq> [] \<and> hd xs \<noteq> FrmSizeUnknown \<and> list_all frmsize_is_discrete (tl xs)"

definition frmsize_ranges :: "v4l2_frmsize list \<Rightarrow> SizeRange list" where
  "frmsize_ranges xs = map (\<lambda>x. the (frmsize_range x)) xs"

lemma unat_index: "n < 2 ^ 32 \<Longrightarrow> unat (of_nat n :: u32) = n"
  by (simp add: unat_of_nat take_bit_nat_eq_self)

lemma enum_formats_loop_lists:
  assumes "lists_formats F code fs" "i \<le> length fs"
  shows "enum_formats_loop F code k (of_nat i) found = Some (k, found @ drop i fs)"
  using assms(2)
proof (induction "length fs - i" arbitrary: i found)
  case 0
  then have "unat (of_nat i :: u32) = length fs" using assms(1) by (simp add: lists_formats_def unat_index)
  with assms(1) 0 show ?case
    by (subst enum_formats_loop.simps) (simp add: lists_formats_def)
next
  case (Suc n)
  then have i: "i < length fs" by simp
  with assms(1) have u: "unat (of_nat i :: u32) = i" by (simp add: lists_formats_def unat_index)
  have "ioctl_enum_fmt F k (of_nat i) code = (k, Inr (fs ! i))"
    using assms(1) i u by (simp add: lists_formats_def)
  moreover have "enum_formats_loop F code k (of_nat (Suc i)) (found @ [fs ! i]) = Some (k, (found @ [fs ! i]) @ drop (Suc i) fs)"
    using Suc.hyps(2) i by (intro Suc.hyps(1)) auto
  ultimately show ?case
    using i by (subst enum_formats_loop.simps) (simp add: Cons_nth_drop_Suc add.commute)
qed

lemma enumPixelformats_lists:
  assumes "lists_formats F code fs"
  shows "enumPixelformats F caps code k =
    Some (k, if code = 0 \<or> and (device_caps caps) V4L2_CAP_IO_MC \<noteq> 0 then fs else [])"
  using enum_formats_loop_lists [OF assms, of 0] by (simp add: enumPixelformats_def)

lemma frmsize_range_discrete: "frmsize_is_discrete x \<Longrightarrow> \<exists>r. frmsize_range x = Some r"
  by (cases x) (auto simp: frmsize_range_def)

lemma enum_sizes_loop_lists:
  assumes "lists_sizes F szs" "0 < i" "i \<le> length (szs f)"
  shows "enum_sizes_loop F f k (of_nat i) found =
    Some (k, if list_all frmsize_is_discrete (drop i (szs f)) then found @ frmsize_ranges (drop i (szs f)) else [])"
  using assms(2,3)
proof (induction "length (szs f) - i" arbitrary: i found)
  case 0
  then have "i = length (szs f)" by simp
  moreover have "length (szs f) < 2 ^ 32" using assms(1) unfolding lists_sizes_def by blast
  ultimately have "unat (of_nat i :: u32) = length (szs f)" using unat_index by blast
  with assms(1) 0 show ?case
    by (subst enum_sizes_loop.simps) (simp add: lists_sizes_def frmsize_ranges_def)
next
  case (Suc n)
  then have i: "i < length (szs f)" by simp
  have b: "length (szs f) < 2 ^ 32" using assms(1) by (simp add: lists_sizes_def)
  with i have u: "unat (of_nat i :: u32) = i" by (simp add: unat_index)
  then have nz: "(of_nat i :: u32) \<noteq> 0" using Suc.prems by auto
  have e: "ioctl_enum_framesizes F k (of_nat i) f = (k, Inr (szs f ! i))"
    using assms(1) i u by (simp add: lists_sizes_def)
  have d: "drop i (szs f) = szs f ! i # drop (Suc i) (szs f)" using i by (simp add: Cons_nth_drop_Suc)
  show ?case
  proof (cases "frmsize_is_discrete (szs f ! i)")
    case False
    with e nz d show ?thesis by (subst enum_sizes_loop.simps) simp
  next
    case True
    then obtain r where r: "frmsize_range (szs f ! i) = Some r" using frmsize_range_discrete by blast
    have "enum_sizes_loop F f k (of_nat (Suc i)) (found @ [r]) =
      Some (k, if list_all frmsize_is_discrete (drop (Suc i) (szs f))
               then (found @ [r]) @ frmsize_ranges (drop (Suc i) (szs f)) else [])"
      using Suc.hyps(2) i by (intro Suc.hyps(1)) auto
    with e nz d True r show ?thesis
      by (subst enum_sizes_loop.simps) (simp add: frmsize_ranges_def add.commute)
  qed
qed

lemma enumSizes_lists:
  assumes "lists_sizes F szs"
  shows "enumSizes F k f = Some (k, if frmsizes_ok (szs f) then frmsize_ranges (szs f) else [])"
proof (cases "szs f")
  case Nil
  with assms show ?thesis
    by (simp add: enumSizes_def, subst enum_sizes_loop.simps) (simp add: lists_sizes_def frmsizes_ok_def)
next
  case (Cons x xs)
  with assms have e: "ioctl_enum_framesizes F k 0 f = (k, Inr x)" by (simp add: lists_sizes_def)
  show ?thesis
  proof (cases "frmsize_range x")
    case None
    then have "x = FrmSizeUnknown" by (cases x) (auto simp: frmsize_range_def)
    with e Cons None show ?thesis
      by (simp add: enumSizes_def, subst enum_sizes_loop.simps) (simp add: frmsizes_ok_def)
  next
    case (Some r)
    then have "x \<noteq> FrmSizeUnknown" by (auto simp: frmsize_range_def)
    have "enum_sizes_loop F f k 0 [] = enum_sizes_loop F f k 1 [r]"
      using e Some by (subst enum_sizes_loop.simps) simp
    with \<open>x \<noteq> FrmSizeUnknown\<close> Cons Some enum_sizes_loop_lists [OF assms, of 1 f k "[r]"] show ?thesis
      by (simp add: enumSizes_def frmsizes_ok_def frmsize_ranges_def)
  qed
qed

lemma frmsize_ranges_Nil [simp]: "frmsize_ranges xs = [] \<longleftrightarrow> xs = []" by (simp add: frmsize_ranges_def)

lemma formats_loop_lists:
  assumes S: "lists_sizes F szs" and m: "map_ok m"
  shows "\<exists>m'. formats_loop F k fs m = Some (k, m') \<and>
    (if distinct fs \<and> (\<forall>f \<in> set fs. frmsizes_ok (szs f) \<and> map_of m f = None)
     then map_ok m' \<and>
       (\<forall>f. map_of m' f = (if f \<in> set fs then Some (frmsize_ranges (szs f)) else map_of m f))
     else m' = [])"
  using m
proof (induction fs arbitrary: m)
  case (Cons f fs)
  show ?case
  proof (cases "frmsizes_ok (szs f) \<and> map_of m f = None")
    case True
    then have new: "map_ok (map_emplace f (frmsize_ranges (szs f)) m)"
      "map_of (map_emplace f (frmsize_ranges (szs f)) m) = (map_of m)(f \<mapsto> frmsize_ranges (szs f))"
      using map_emplace_new [OF Cons.prems] by blast+
    have "formats_loop F k (f # fs) m = formats_loop F k fs (map_emplace f (frmsize_ranges (szs f)) m)"
      using True enumSizes_lists [OF S] by (simp add: frmsizes_ok_def)
    moreover from Cons.IH [OF new(1)] obtain m' where
      m': "formats_loop F k fs (map_emplace f (frmsize_ranges (szs f)) m) = Some (k, m')"
      "if distinct fs \<and> (\<forall>g \<in> set fs. frmsizes_ok (szs g) \<and> ((map_of m)(f \<mapsto> frmsize_ranges (szs f))) g = None)
       then map_ok m' \<and> (\<forall>g. map_of m' g = (if g \<in> set fs then Some (frmsize_ranges (szs g))
          else ((map_of m)(f \<mapsto> frmsize_ranges (szs f))) g)) else m' = []"
      unfolding new(2) by blast
    ultimately show ?thesis using True by (auto split: if_splits)
  next
    case False
    then have "formats_loop F k (f # fs) m = Some (k, [])"
      using enumSizes_lists [OF S] by (auto simp: frmsizes_ok_def)
    with False show ?thesis by auto
  qed
qed simp

section \<open>Example\<close>

text \<open>A camera that rounds the width up to a multiple of 16, and has two formats.\<close>

definition example_format_kernel :: "v4l2_pix_format format_kernel" where
  "example_format_kernel =
     \<lparr>ioctl_g_meta = (\<lambda>k. (k, Inl EINVAL)), ioctl_meta = (\<lambda>c k m. (k, Inl EINVAL)),
      ioctl_g_pix = (\<lambda>k. (k, Inr k)),
      ioctl_pix = (\<lambda>c k p.
        let w = (px_width p + 15) div 16 * 16;
            q = p\<lparr>px_width := w, px_bytesperline := 2 * w, px_sizeimage := 2 * w * px_height p\<rparr>
        in (if c then q else k, Inr q)),
      ioctl_g_mplane = (\<lambda>k. (k, Inl EINVAL)), ioctl_mplane = (\<lambda>c k m. (k, Inl EINVAL)),
      ioctl_enum_fmt = (\<lambda>k i code. (k, if unat i < 2 then Inr ([V4L2_PIX_FMT_YUYV, V4L2_PIX_FMT_NV12] ! unat i) else Inl EINVAL)),
      ioctl_enum_framesizes = (\<lambda>k i f.
        (k, if unat i < 2 then Inr ([FrmSizeDiscrete 640 480, FrmSizeDiscrete 320 240] ! unat i) else Inl EINVAL))\<rparr>"

definition example_caps :: V4L2Capability where
  "example_caps = \<lparr>vc_version = 0x050A00, vc_capabilities = 0x84000001, vc_device_caps = 0x04000001\<rparr>"

definition example_pix :: v4l2_pix_format where
  "example_pix = \<lparr>px_width = 640, px_height = 480, px_pixelformat = V4L2_PIX_FMT_YUYV, px_field = 1,
     px_bytesperline = 1280, px_sizeimage = 614400\<rparr>"

lemma example_caps: "isMeta example_caps = False" "isMultiplanar example_caps = False"
  by code_simp+

lemma example_remembers: "remembers_format example_format_kernel"
  by (auto simp: remembers_format_def example_format_kernel_def Let_def)

lemma example_lists_formats: "lists_formats example_format_kernel 0 [V4L2_PIX_FMT_YUYV, V4L2_PIX_FMT_NV12]"
  by (simp add: lists_formats_def example_format_kernel_def)

lemma example_lists_sizes:
  "lists_sizes example_format_kernel (\<lambda>f. [FrmSizeDiscrete 640 480, FrmSizeDiscrete 320 240])"
  by (simp add: lists_sizes_def example_format_kernel_def)

lemma example_formats_distinct: "V4L2_PIX_FMT_YUYV \<noteq> V4L2_PIX_FMT_NV12"
  by code_simp

text \<open>A node that can be opened; the second query of its capabilities fails.\<close>

definition example_node :: "nat video_env" where
  "example_node =
     \<lparr>ve_ctrl = \<lparr>ioctl_query_ext_ctrl = (\<lambda>k cid. (k, Inl EINVAL)), ioctl_g_ext_ctrls = (\<lambda>k xs. (k, xs, None)),
        ioctl_s_ext_ctrls = (\<lambda>k xs. (k, xs, None)), ioctl_subscribe_frame_sync = (\<lambda>k b. (k, None)),
        ioctl_dqevent = (\<lambda>k. (k, Inl EINVAL))\<rparr>,
      ve_video = \<lparr>ioctl_reqbufs = (\<lambda>k n m. (k, Inr n)), ioctl_querybuf = (\<lambda>k i. (k, Inl EINVAL)),
        ioctl_expbuf = (\<lambda>k i p. (k, Inl EINVAL)), ioctl_qbuf = (\<lambda>k b. (k, None)),
        ioctl_dqbuf = (\<lambda>k m. (k, Inl EAGAIN)), ioctl_streamon = (\<lambda>k. (k, None)), ioctl_streamoff = (\<lambda>k. (k, None))\<rparr>,
      ve_openat = (\<lambda>k. (k, Inr 5)), ve_dup = (\<lambda>k fd. (k, Inr (if fd = 5 then 6 else 7))), ve_close = (\<lambda>k fd. k),
      ve_querycap = (\<lambda>k. (Suc k, if k = 1 then Inl EIO
        else Inr \<lparr>vc_version = 0x050A00, vc_capabilities = 0x84000001, vc_device_caps = 0x04000001\<rparr>))\<rparr>"

definition example_m2m :: V4L2M2MDevice where
  "example_m2m = \<lparr>m2_output = video_handle_new 1 example_caps, m2_capture = video_handle_new 2 example_caps\<rparr>"

lemma example_m2m_closed:
  "\<not> V4L2Device_isOpen (vh_device (m2_output example_m2m))" "\<not> V4L2Device_isOpen (vh_device (m2_capture example_m2m))"
  "vh_notifier (m2_output example_m2m) \<noteq> FreedNotifier" "vh_notifier (m2_capture example_m2m) \<noteq> FreedNotifier"
  by (simp_all add: example_m2m_def video_handle_new_def V4L2Device_isOpen_def V4L2Device_new_def)

section \<open>Properties\<close>

text \<open>
  C30. What \<open>setFormat\<close> reports is what \<open>getFormat\<close> reads afterwards, on a device of any kind, whatever the driver
  made of the format that was asked for, and whatever the structure held that is read into: when the
  driver reports the format that it has set, both have the same pixel format, size and planes.
\<close>

theorem setFormat_getFormat:
  assumes "remembers_format F" "length (df_planes f) = 3" "length (df_planes g) = 3"
    and "V4L2VideoDevice_setFormat F caps k f = Some (k', f', None)"
  shows "\<exists>g'. V4L2VideoDevice_getFormat F caps k' g = Some (k', g', None) \<and>
    df_fourcc g' = df_fourcc f' \<and> df_size g' = df_size f' \<and> df_planesCount g' = df_planesCount f' \<and>
    take (unat (df_planesCount f')) (df_planes g') = take (unat (df_planesCount f')) (df_planes f')"
proof -
  have ne: "df_planes f \<noteq> []" "df_planes g \<noteq> []" using assms(2,3) by auto
  have "\<exists>g'. V4L2VideoDevice_getFormat F caps k' g = Some (k', g', None) \<and> same_format f' g'"
    using assms(2-4) set_get_meta [OF assms(1) ne, of k k' f'] set_get_singleplane [OF assms(1) ne, of k k' f']
      set_get_multiplane [OF assms(1), of f g k k' f']
    by (auto simp: V4L2VideoDevice_setFormat_def trySetFormat_def V4L2VideoDevice_getFormat_def split: if_splits)
  then show ?thesis by (auto simp: same_format_def)
qed

theorem setFormat_getFormat_witness:
  "\<exists>k' f' g'. V4L2VideoDevice_setFormat example_format_kernel example_caps example_pix
       (V4L2DeviceFormat_new\<lparr>df_fourcc := V4L2_PIX_FMT_NV12, df_size := mk_Size 1000 16\<rparr>) = Some (k', f', None) \<and>
     V4L2VideoDevice_getFormat example_format_kernel example_caps k' V4L2DeviceFormat_new = Some (k', g', None) \<and>
     df_fourcc g' = df_fourcc f' \<and> df_size f' = mk_Size 1008 16 \<and> df_size g' = df_size f'"
proof -
  let ?f = "V4L2DeviceFormat_new\<lparr>df_fourcc := V4L2_PIX_FMT_NV12, df_size := mk_Size 1000 16\<rparr>"
  obtain k' f' where s: "V4L2VideoDevice_setFormat example_format_kernel example_caps example_pix ?f = Some (k', f', None)"
    "df_size f' = mk_Size 1008 16"
    by (auto simp: V4L2VideoDevice_setFormat_def trySetFormat_def example_caps trySetFormatSingleplane_def
      example_format_kernel_def V4L2DeviceFormat_new_def store_pix_def Let_def)
  show ?thesis
    using setFormat_getFormat [OF example_remembers _ _ s(1), of V4L2DeviceFormat_new] s
    by (simp add: V4L2DeviceFormat_new_def) blast
qed

text \<open>
  C31. The enumeration of formats ends and is all or nothing: for a driver that lists its formats and, for
  each, its sizes, \<open>formats\<close> returns a table with exactly the formats that the driver lists, in the order of their
  codes, each with all of its sizes in order, when no format is listed twice and each has at least one size, the
  first of a known kind and all others discrete; otherwise, or when a media bus code is given to a device that
  cannot filter by it, the table is empty.
\<close>

theorem formats_all_or_nothing:
  assumes "lists_formats F code fs" "lists_sizes F szs"
  shows "\<exists>m. V4L2VideoDevice_formats F caps code k = Some (k, m) \<and>
    (if (code = 0 \<or> and (device_caps caps) V4L2_CAP_IO_MC \<noteq> 0) \<and> distinct fs \<and> (\<forall>f \<in> set fs. frmsizes_ok (szs f))
     then sorted (map fst m) \<and> distinct (map fst m) \<and>
       (\<forall>f. map_of m f = (if f \<in> set fs then Some (frmsize_ranges (szs f)) else None))
     else m = [])"
proof -
  let ?c = "code = 0 \<or> and (device_caps caps) V4L2_CAP_IO_MC \<noteq> 0"
  have e: "map_ok ([] :: (u32 \<times> SizeRange list) list)" by simp
  obtain m where m: "formats_loop F k fs [] = Some (k, m)"
    "if distinct fs \<and> (\<forall>f \<in> set fs. frmsizes_ok (szs f))
     then map_ok m \<and> (\<forall>f. map_of m f = (if f \<in> set fs then Some (frmsize_ranges (szs f)) else None)) else m = []"
    using formats_loop_lists [OF assms(2) e, of k fs] by (simp only: map_of.simps simp_thms) blast
  have o: "map_ok m \<longleftrightarrow> sorted (map fst m) \<and> distinct (map fst m)" by (simp add: map_ok_def strict_sorted_iff)
  have r: "V4L2VideoDevice_formats F caps code k = Some (k, if ?c then m else [])"
    using m(1) enumPixelformats_lists [OF assms(1), of caps k] by (simp add: V4L2VideoDevice_formats_def)
  show ?thesis
  proof (cases ?c)
    case True
    with r m(2) [unfolded o] show ?thesis by (simp only: simp_thms option.inject prod.inject if_True conj_assoc)
  next
    case False
    with r show ?thesis by auto
  qed
qed

theorem formats_all_or_nothing_witness:
  "\<exists>m. V4L2VideoDevice_formats example_format_kernel example_caps 0 example_pix = Some (example_pix, m) \<and>
     map_of m V4L2_PIX_FMT_YUYV = Some (frmsize_ranges [FrmSizeDiscrete 640 480, FrmSizeDiscrete 320 240])"
  using formats_all_or_nothing [OF example_lists_formats example_lists_sizes, of example_caps example_pix]
    example_formats_distinct
  by (auto simp: frmsizes_ok_def)

text \<open>
  A multi-planar format of more than three planes, which the kernel's structure allows, is stored past the
  end of the three planes of \<open>V4L2DeviceFormat\<close>.
\<close>

lemma getFormat_four_planes:
  assumes "\<not> isMeta caps" "isMultiplanar caps" "length (df_planes f) = 3"
    and "ioctl_g_mplane F k = (k', Inr pix)" "unat (mp_num_planes pix) > 3"
  shows "V4L2VideoDevice_getFormat F caps k f = None"
  using assms by (simp add: V4L2VideoDevice_getFormat_def getFormatMultiplane_def store_mplane_eq Let_def)

text \<open>The format functions and the type of the buffers agree for every device that is not both video and meta.\<close>

lemma choose_buffer_type_meta:
  assumes "choose_buffer_type c = Inr (e, t)" "\<not> (isVideo c \<and> isMeta c)"
  shows "isMeta c \<longleftrightarrow> t \<in> {MetaCapture, MetaOutput}"
    and "\<not> isMeta c \<Longrightarrow> isMultiplanar c \<longleftrightarrow> t \<in> {VideoCaptureMplane, VideoOutputMplane}"
  using assms
  by (auto simp: choose_buffer_type_def isVideoCapture_def isVideoOutput_def isMetaCapture_def isMetaOutput_def
      split: if_splits)



text \<open>
  C33. A video device that was opened and closed and whose next opening fails after the node was opened cannot be
  closed: the device counts as open, and closing it, which its destructor does too, deletes the notifier of the
  first opening for a second time.
\<close>

theorem close_after_failed_reopen:
  assumes "V4L2VideoDevice_open E k h = Some (k1, h1, None)" "V4L2Device_isOpen (vh_device h1)"
    and "V4L2VideoDevice_close E k1 h1 = Some (k2, h2)"
    and "V4L2VideoDevice_open E k2 h2 = Some (k3, h3, Some e)" "V4L2Device_isOpen (vh_device h3)"
  shows "V4L2VideoDevice_close E k3 h3 = None"
proof -
  from V4L2VideoDevice_open_spec(1) [OF assms(1)] obtain n where "vh_notifier h1 = Notifier n" by blast
  then have "vh_notifier h2 = FreedNotifier" using V4L2VideoDevice_close_spec(3) [OF assms(3,2)] by simp
  then have "vh_notifier h3 = FreedNotifier" using V4L2VideoDevice_open_spec(2) [OF assms(4)] by simp
  with assms(5) show ?thesis
    by (auto simp: V4L2VideoDevice_close_def Let_def V4L2VideoDevice_releaseBuffers_def split: prod.splits)
qed

lemma example_listControls:
  "V4L2Device_listControls (ve_ctrl example_node) k dev =
     Some (k, dev\<lparr>v4d_controls := ControlInfoMap_of (im_ptr (v4d_controls dev)) []\<rparr>)"
  by (simp add: V4L2Device_listControls_def listControls_loop.simps example_node_def)

lemma example_choice:
  "choose_buffer_type \<lparr>vc_version = 0x050A00, vc_capabilities = 0x84000001, vc_device_caps = 0x04000001\<rparr>
     = Inr (NotifierRead, VideoCapture)"
  by code_simp

lemma example_open:
  assumes "\<not> V4L2Device_isOpen (vh_device h)"
  shows "k = 1 \<Longrightarrow> \<exists>h'. V4L2VideoDevice_open example_node k h = Some (2, h', Some EIO) \<and> v4d_fd (vh_device h') = 5"
    and "k \<noteq> 1 \<Longrightarrow> \<exists>h'. V4L2VideoDevice_open example_node k h = Some (Suc k, h', None) \<and>
      vh_notifier h' = Notifier NotifierRead \<and> v4d_fd (vh_device h') = 5"
proof -
  have "ve_openat example_node k = (k, Inr 5)" by (simp add: example_node_def)
  moreover have "ve_querycap example_node k = (Suc k, if k = 1 then Inl EIO
      else Inr \<lparr>vc_version = 0x050A00, vc_capabilities = 0x84000001, vc_device_caps = 0x04000001\<rparr>)"
    by (simp add: example_node_def)
  ultimately show "k = 1 \<Longrightarrow> \<exists>h'. V4L2VideoDevice_open example_node k h = Some (2, h', Some EIO) \<and> v4d_fd (vh_device h') = 5"
    and "k \<noteq> 1 \<Longrightarrow> \<exists>h'. V4L2VideoDevice_open example_node k h = Some (Suc k, h', None) \<and>
      vh_notifier h' = Notifier NotifierRead \<and> v4d_fd (vh_device h') = 5"
    using assms
    by (simp_all add: V4L2VideoDevice_open_def V4L2Device_open_def V4L2Device_setFd_def example_listControls
        example_choice)
qed

lemma example_reopen:
  "\<exists>h1 h2 h3. V4L2VideoDevice_open example_node 0 (video_handle_new 1 example_caps) = Some (1, h1, None) \<and>
     V4L2Device_isOpen (vh_device h1) \<and> V4L2VideoDevice_close example_node 1 h1 = Some (1, h2) \<and>
     V4L2VideoDevice_open example_node 1 h2 = Some (2, h3, Some EIO) \<and> V4L2Device_isOpen (vh_device h3)"
proof -
  have "\<not> V4L2Device_isOpen (vh_device (video_handle_new 1 example_caps))"
    by (simp add: video_handle_new_def V4L2Device_isOpen_def V4L2Device_new_def)
  from example_open(2) [OF this, of 0] obtain h1 where
    h1: "V4L2VideoDevice_open example_node 0 (video_handle_new 1 example_caps) = Some (1, h1, None)"
      "vh_notifier h1 = Notifier NotifierRead" "v4d_fd (vh_device h1) = 5" by auto
  then obtain h2 where h2: "V4L2VideoDevice_close example_node 1 h1 = Some (1, h2)" "\<not> handle_open h2"
    by (simp add: V4L2VideoDevice_close_def V4L2Device_isOpen_def V4L2VideoDevice_releaseBuffers_def
        V4L2VideoDevice_requestBuffers_def example_node_def V4L2Device_close_def)
  from example_open(1) [OF h2(2), of 1] obtain h3 where
    "V4L2VideoDevice_open example_node 1 h2 = Some (2, h3, Some EIO)" "v4d_fd (vh_device h3) = 5" by auto
  with h1 h2 show ?thesis by (auto simp: V4L2Device_isOpen_def)
qed

theorem close_after_failed_reopen_witness:
  "\<exists>h3. V4L2VideoDevice_close example_node 2 h3 = None \<and> V4L2Device_isOpen (vh_device h3)"
  using example_reopen close_after_failed_reopen [of example_node 0 "video_handle_new 1 example_caps" 1] by blast

end
