(* ===== verification/DelayedControls.thy ===== *)
theory DelayedControls
  imports V4L2Device
begin

text \<open>
  Controls that take effect with a delay, \<open>delayed_controls.cpp\<close>: a ring of 16 values per control,
  a position where the next values are queued and one where the next frame reads. Control ids are
  compared as records: one address has one id. The hash maps are association lists in the order in
  which the code iterates over them.
\<close>

section \<open>State\<close>

record ControlParams =
  dp_delay :: u32
  dp_priorityWrite :: bool

record DelayedInfo =
  di_value :: ControlValue
  di_updated :: bool

type_synonym ControlRingBuffer = "DelayedInfo list"

record DelayedControls =
  dc_controlParams :: "(ControlId \<times> ControlParams) list"
  dc_maxDelay :: u32
  dc_running :: bool
  dc_firstSequence :: u32
  dc_queueCount :: u32
  dc_writeCount :: u32
  dc_values :: "(ControlId \<times> ControlRingBuffer) list"

definition listSize :: nat where "listSize = 16"

definition ring_new :: ControlRingBuffer where
  "ring_new = replicate listSize \<lparr>di_value = ControlValue_empty, di_updated = False\<rparr>"

definition ring_get :: "ControlRingBuffer \<Rightarrow> u32 \<Rightarrow> DelayedInfo" where
  "ring_get ring index = ring ! (unat index mod listSize)"

definition ring_set :: "ControlRingBuffer \<Rightarrow> u32 \<Rightarrow> DelayedInfo \<Rightarrow> ControlRingBuffer" where
  "ring_set ring index info = ring[unat index mod listSize := info]"

text \<open>Assigning values never fails (lemma \<open>ControlValue_assign_total\<close>).\<close>

definition copy_value :: "(nat \<Rightarrow> u8) \<Rightarrow> ControlValue \<Rightarrow> ControlValue \<Rightarrow> ControlValue" where
  "copy_value junk v other = (case ControlValue_assign junk v other of None \<Rightarrow> v | Some v' \<Rightarrow> v')"

definition list_set :: "(nat \<Rightarrow> u8) \<Rightarrow> ControlList \<Rightarrow> u32 \<Rightarrow> ControlValue \<Rightarrow> ControlList" where
  "list_set junk l cid v = (case ControlList_set junk l cid v of None \<Rightarrow> l | Some l' \<Rightarrow> l')"

definition ring_assign ::
    "(nat \<Rightarrow> u8) \<Rightarrow> ControlRingBuffer \<Rightarrow> u32 \<Rightarrow> ControlValue \<Rightarrow> bool \<Rightarrow> ControlRingBuffer" where
  "ring_assign junk ring index v updated =
     ring_set ring index
       \<lparr>di_value = copy_value junk (di_value (ring_get ring index)) v, di_updated = updated\<rparr>"

text \<open>\<open>values_[id]\<close> creates a ring where there is none.\<close>

definition values_at :: "DelayedControls \<Rightarrow> ControlId \<Rightarrow> ControlRingBuffer" where
  "values_at d key = (case map_of (dc_values d) key of None \<Rightarrow> ring_new | Some ring \<Rightarrow> ring)"

definition values_assign ::
    "(nat \<Rightarrow> u8) \<Rightarrow> DelayedControls \<Rightarrow> ControlId \<Rightarrow> u32 \<Rightarrow> ControlValue \<Rightarrow> bool \<Rightarrow> DelayedControls" where
  "values_assign junk d key index v updated =
     d\<lparr>dc_values := AList.update key (ring_assign junk (values_at d key) index v updated) (dc_values d)\<rparr>"

section \<open>Construction and reset\<close>

fun reset_values ::
    "(nat \<Rightarrow> u8) \<Rightarrow> V4L2Device \<Rightarrow> (u32 \<times> ControlValue) list \<Rightarrow> DelayedControls \<Rightarrow> DelayedControls option" where
  "reset_values junk dev [] d = Some d"
| "reset_values junk dev ((cid, v) # ctrls) d =
     (case map_of (im_idmap (v4d_controls dev)) cid of
        None \<Rightarrow> None
      | Some key \<Rightarrow> reset_values junk dev ctrls (values_assign junk d key 0 v False))"

definition DelayedControls_reset ::
    "(nat \<Rightarrow> u8) \<Rightarrow> 'k ctrl_kernel \<Rightarrow> 'k \<Rightarrow> V4L2Device \<Rightarrow> DelayedControls
      \<Rightarrow> ('k \<times> V4L2Device \<times> DelayedControls) option" where
  "DelayedControls_reset junk K k dev d =
     (let d = d\<lparr>dc_running := False, dc_firstSequence := 0, dc_queueCount := 1, dc_writeCount := 0\<rparr>;
          ids = map (\<lambda>(key, p). cid_id key) (dc_controlParams d)
      in case V4L2Device_getControls junk K k dev ids of
           None \<Rightarrow> None
         | Some (k, dev, controls) \<Rightarrow>
             (case reset_values junk dev (cl_controls controls) (d\<lparr>dc_values := []\<rparr>) of
                None \<Rightarrow> None
              | Some d \<Rightarrow> Some (k, dev, d)))"

fun add_params :: "V4L2Device \<Rightarrow> (u32 \<times> ControlParams) list \<Rightarrow> DelayedControls \<Rightarrow> DelayedControls" where
  "add_params dev [] d = d"
| "add_params dev ((cid, p) # params) d =
     (case ControlInfoMap_find (v4d_controls dev) cid of
        None \<Rightarrow> add_params dev params d
      | Some (key, info) \<Rightarrow>
          add_params dev params
            (d\<lparr>dc_controlParams := AList.update key p (dc_controlParams d),
               dc_maxDelay := max (dc_maxDelay d) (dp_delay p)\<rparr>))"

definition DelayedControls_new ::
    "(nat \<Rightarrow> u8) \<Rightarrow> 'k ctrl_kernel \<Rightarrow> 'k \<Rightarrow> V4L2Device \<Rightarrow> (u32 \<times> ControlParams) list
      \<Rightarrow> ('k \<times> V4L2Device \<times> DelayedControls) option" where
  "DelayedControls_new junk K k dev controlParams =
     DelayedControls_reset junk K k dev (add_params dev controlParams
       \<lparr>dc_controlParams = [], dc_maxDelay = 0, dc_running = False, dc_firstSequence = 0,
        dc_queueCount = 0, dc_writeCount = 0, dc_values = []\<rparr>)"

section \<open>Queueing, reading and writing\<close>

definition push_copy :: "(nat \<Rightarrow> u8) \<Rightarrow> DelayedControls \<Rightarrow> DelayedControls" where
  "push_copy junk d =
     d\<lparr>dc_values := map (\<lambda>(key, ring).
         (key, ring_assign junk ring (dc_queueCount d) (di_value (ring_get ring (dc_queueCount d - 1))) False))
       (dc_values d)\<rparr>"

fun push_new ::
    "(nat \<Rightarrow> u8) \<Rightarrow> V4L2Device \<Rightarrow> (u32 \<times> ControlValue) list \<Rightarrow> DelayedControls \<Rightarrow> DelayedControls \<times> bool" where
  "push_new junk dev [] d = (d, True)"
| "push_new junk dev ((cid, v) # controls) d =
     (case map_of (im_idmap (v4d_controls dev)) cid of
        None \<Rightarrow> (d, False)
      | Some key \<Rightarrow>
          if map_of (dc_controlParams d) key = None then (d, False)
          else push_new junk dev controls (values_assign junk d key (dc_queueCount d) v True))"

definition DelayedControls_push ::
    "(nat \<Rightarrow> u8) \<Rightarrow> V4L2Device \<Rightarrow> DelayedControls \<Rightarrow> ControlList \<Rightarrow> DelayedControls \<times> bool" where
  "DelayedControls_push junk dev d controls =
     (let (d, ok) = push_new junk dev (cl_controls controls) (push_copy junk d)
      in if \<not> ok then (d, False) else (d\<lparr>dc_queueCount := dc_queueCount d + 1\<rparr>, True))"

text \<open>\<open>std::max<int>(0, n)\<close> of an unsigned difference: it is read as a signed number.\<close>

definition max0 :: "u32 \<Rightarrow> u32" where
  "max0 n = smax 0 n"

definition DelayedControls_get ::
    "(nat \<Rightarrow> u8) \<Rightarrow> V4L2Device \<Rightarrow> DelayedControls \<Rightarrow> u32 \<Rightarrow> ControlList" where
  "DelayedControls_get junk dev d sequence =
     (let adjustedSeq = sequence - dc_firstSequence d;
          index = max0 (adjustedSeq - dc_maxDelay d)
      in fold (\<lambda>(key, ring) out. list_set junk out (cid_id key) (di_value (ring_get ring index)))
           (dc_values d) (ControlList_of_infoMap (v4d_controls dev) None))"

text \<open>Every id of \<open>values_\<close> has parameters; \<open>controlParams_[id]\<close> would create zeros.\<close>

definition params_at :: "DelayedControls \<Rightarrow> ControlId \<Rightarrow> ControlParams" where
  "params_at d key =
     (case map_of (dc_controlParams d) key of
        None \<Rightarrow> \<lparr>dp_delay = 0, dp_priorityWrite = False\<rparr> | Some p \<Rightarrow> p)"

definition read_index :: "DelayedControls \<Rightarrow> ControlId \<Rightarrow> u32" where
  "read_index d key = max0 (dc_writeCount d - (dc_maxDelay d - dp_delay (params_at d key)))"

text \<open>
  The loop of \<open>applyControls\<close>: the rings with the flags cleared, the lists that are written at once,
  in order, and the list that is written at the end. The device is written in that order.
\<close>

fun apply_loop ::
    "(nat \<Rightarrow> u8) \<Rightarrow> V4L2Device \<Rightarrow> DelayedControls \<Rightarrow> (ControlId \<times> ControlRingBuffer) list \<Rightarrow> ControlList
      \<Rightarrow> (ControlId \<times> ControlRingBuffer) list \<times> ControlList list \<times> ControlList" where
  "apply_loop junk dev d [] out = ([], [], out)"
| "apply_loop junk dev d ((key, ring) # rest) out =
     (let index = read_index d key; info = ring_get ring index in
      if di_updated info then
        let ring = ring_set ring index (info\<lparr>di_updated := False\<rparr>) in
        if dp_priorityWrite (params_at d key) then
          let priority = list_set junk (ControlList_of_infoMap (v4d_controls dev) None) (cid_id key) (di_value info);
              (vs, ps, out) = apply_loop junk dev d rest out
          in ((key, ring) # vs, priority # ps, out)
        else
          let (vs, ps, out) = apply_loop junk dev d rest (list_set junk out (cid_id key) (di_value info))
          in ((key, ring) # vs, ps, out)
      else
        let (vs, ps, out) = apply_loop junk dev d rest out in ((key, ring) # vs, ps, out))"

fun write_lists ::
    "(nat \<Rightarrow> u8) \<Rightarrow> 'k ctrl_kernel \<Rightarrow> V4L2Device \<Rightarrow> ControlList list \<Rightarrow> 'k \<Rightarrow> 'k option" where
  "write_lists junk K dev [] k = Some k"
| "write_lists junk K dev (l # ls) k =
     (case V4L2Device_setControls junk K k dev l of
        None \<Rightarrow> None
      | Some (k, _) \<Rightarrow> write_lists junk K dev ls k)"

lemma push_empty:
  "DelayedControls_push junk dev d ControlList_new =
     ((push_copy junk d)\<lparr>dc_queueCount := dc_queueCount d + 1\<rparr>, True)"
  by (simp add: DelayedControls_push_def ControlList_new_def push_copy_def)

lemma push_copy_simps [simp]:
  "dc_queueCount (push_copy junk d) = dc_queueCount d" "dc_writeCount (push_copy junk d) = dc_writeCount d"
  "dc_controlParams (push_copy junk d) = dc_controlParams d" "dc_maxDelay (push_copy junk d) = dc_maxDelay d"
  "dc_running (push_copy junk d) = dc_running d" "dc_firstSequence (push_copy junk d) = dc_firstSequence d"
  by (simp_all add: push_copy_def)

function auto_push :: "(nat \<Rightarrow> u8) \<Rightarrow> V4L2Device \<Rightarrow> DelayedControls \<Rightarrow> DelayedControls" where
  "auto_push junk dev d =
     (if dc_writeCount d > dc_queueCount d
      then auto_push junk dev (fst (DelayedControls_push junk dev d ControlList_new))
      else d)"
  by auto

termination
proof (relation "measure (\<lambda>(junk, dev, d). unat (dc_writeCount d) - unat (dc_queueCount d))", simp)
  fix junk :: "nat \<Rightarrow> u8" and dev :: V4L2Device and d :: DelayedControls
  assume less: "dc_queueCount d < dc_writeCount d"
  then have "unat (dc_queueCount d + 1) = Suc (unat (dc_queueCount d))"
    using unat_u32_bound [of "dc_writeCount d"] unat_add_u32 [of "dc_queueCount d" 1]
    by (simp add: word_less_nat_alt)
  with less show "((junk, dev, fst (DelayedControls_push junk dev d ControlList_new)), junk, dev, d)
      \<in> measure (\<lambda>(junk, dev, d). unat (dc_writeCount d) - unat (dc_queueCount d))"
    by (simp add: push_empty word_less_nat_alt)
qed

declare auto_push.simps [simp del]

definition apply_start :: "DelayedControls \<Rightarrow> u32 \<Rightarrow> DelayedControls" where
  "apply_start d sequence = (if \<not> dc_running d then d\<lparr>dc_firstSequence := sequence, dc_running := True\<rparr> else d)"

text \<open>The new state and the lists that are written to the device.\<close>

definition apply_step ::
    "(nat \<Rightarrow> u8) \<Rightarrow> V4L2Device \<Rightarrow> DelayedControls \<Rightarrow> u32 \<Rightarrow> DelayedControls \<times> ControlList list" where
  "apply_step junk dev d sequence =
     (let d = apply_start d sequence;
          (vs, ps, out) = apply_loop junk dev d (dc_values d) (ControlList_of_infoMap (v4d_controls dev) None);
          d = auto_push junk dev (d\<lparr>dc_values := vs, dc_writeCount := dc_writeCount d + 1\<rparr>)
      in (d, ps @ [out]))"

definition DelayedControls_applyControls ::
    "(nat \<Rightarrow> u8) \<Rightarrow> 'k ctrl_kernel \<Rightarrow> 'k \<Rightarrow> V4L2Device \<Rightarrow> DelayedControls \<Rightarrow> u32
      \<Rightarrow> ('k \<times> DelayedControls) option" where
  "DelayedControls_applyControls junk K k dev d sequence =
     (let (d, ls) = apply_step junk dev d sequence in
      case write_lists junk K dev ls k of None \<Rightarrow> None | Some k \<Rightarrow> Some (k, d))"

section \<open>Lemmas on the rings\<close>

lemma copy_value_set [simp]: "ControlValue_is_set v \<Longrightarrow> copy_value junk old v = v"
  by (simp add: copy_value_def ControlValue_assign_copy)

abbreviation slot :: "ControlRingBuffer \<Rightarrow> nat \<Rightarrow> DelayedInfo" where
  "slot ring n \<equiv> ring ! (n mod 16)"

lemma ring_get_nat: "n < 2 ^ 32 \<Longrightarrow> ring_get ring (of_nat n) = slot ring n"
  by (simp add: ring_get_def listSize_def unat_of_nat_u32)

lemma ring_set_nat: "n < 2 ^ 32 \<Longrightarrow> ring_set ring (of_nat n) info = ring[n mod 16 := info]"
  by (simp add: ring_set_def listSize_def unat_of_nat_u32)

lemma update_existing:
  "distinct (map fst m) \<Longrightarrow> key \<in> fst ` set m \<Longrightarrow>
   AList.update key x m = map (\<lambda>(k, y). (k, if k = key then x else y)) m"
proof (induction m)
  case (Cons p m)
  obtain k y where p: "p = (k, y)" by fastforce
  have "map (\<lambda>(k, y). (k, if k = key then x else y)) m = m" if "key \<notin> fst ` set m"
    using that by (intro map_idI) (auto simp: rev_image_eqI)
  with Cons p show ?case by auto
qed simp

definition idmap_ok :: "V4L2Device \<Rightarrow> bool" where
  "idmap_ok dev \<longleftrightarrow> (\<forall>cid key. map_of (im_idmap (v4d_controls dev)) cid = Some key \<longrightarrow> cid_id key = cid)"

definition distinct_ids :: "DelayedControls \<Rightarrow> bool" where
  "distinct_ids d \<longleftrightarrow> distinct (map (cid_id \<circ> fst) (dc_values d)) \<and>
     fst ` set (dc_values d) = fst ` set (dc_controlParams d)"

lemma distinct_ids_fst: "distinct_ids d \<Longrightarrow> distinct (map fst (dc_values d))"
  by (metis distinct_ids_def distinct_map map_map)

lemma distinct_ids_inj:
  assumes "distinct_ids d" "key \<in> fst ` set (dc_values d)" "key' \<in> fst ` set (dc_values d)" "cid_id key = cid_id key'"
  shows "key = key'"
proof -
  from assms(1) have "inj_on (cid_id \<circ> fst) (set (dc_values d))" by (simp add: distinct_ids_def distinct_map)
  moreover from assms(2,3) obtain x y where "x \<in> set (dc_values d)" "y \<in> set (dc_values d)" "key = fst x" "key' = fst y"
    by blast
  ultimately show ?thesis using assms(4) inj_onD [of "cid_id \<circ> fst" _ x y] by auto
qed

text \<open>A push that is accepted, as one pass over the rings.\<close>

lemma push_new_values:
  assumes "push_new junk dev cs d = (d', True)" "idmap_ok dev" "distinct_ids d" "distinct (map fst cs)"
  shows "d' = d\<lparr>dc_values := map (\<lambda>(key, ring). (key, case map_of cs (cid_id key) of
       None \<Rightarrow> ring | Some v \<Rightarrow> ring_assign junk ring (dc_queueCount d) v True)) (dc_values d)\<rparr>"
  using assms
proof (induction cs arbitrary: d)
  case Nil
  then show ?case by simp
next
  case (Cons c cs)
  obtain cid v where c: "c = (cid, v)" by fastforce
  from Cons.prems(1) obtain key where key: "map_of (im_idmap (v4d_controls dev)) cid = Some key"
    "map_of (dc_controlParams d) key \<noteq> None"
    and rec: "push_new junk dev cs (values_assign junk d key (dc_queueCount d) v True) = (d', True)"
    by (auto simp: c split: option.splits if_splits)
  have id: "cid_id key = cid" using Cons.prems(2) key(1) by (simp add: idmap_ok_def)
  have "key \<in> fst ` set (dc_controlParams d)" using key(2) by (auto simp: map_of_eq_None_iff)
  then have mem: "key \<in> fst ` set (dc_values d)" using Cons.prems(3) by (simp add: distinct_ids_def)
  let ?q = "dc_queueCount d"
  let ?d = "values_assign junk d key ?q v True"
  have vals: "dc_values ?d = map (\<lambda>(k, r). (k, if k = key then ring_assign junk r ?q v True else r)) (dc_values d)"
  proof -
    have "dc_values ?d = map (\<lambda>(k, r). (k, if k = key then ring_assign junk (values_at d key) ?q v True else r))
        (dc_values d)"
      using distinct_ids_fst [OF Cons.prems(3)] mem by (simp add: values_assign_def update_existing)
    moreover have "values_at d k = r" if "(k, r) \<in> set (dc_values d)" for k r
      using that distinct_ids_fst [OF Cons.prems(3)] by (simp add: values_at_def)
    ultimately show ?thesis by auto
  qed
  have fsts: "map fst (dc_values ?d) = map fst (dc_values d)" unfolding vals by auto
  have di: "distinct_ids ?d"
    using Cons.prems(3) arg_cong [OF fsts, of "map cid_id"] arg_cong [OF fsts, of set]
    by (simp add: distinct_ids_def values_assign_def)
  have q: "dc_queueCount ?d = ?q" by (simp add: values_assign_def)
  have notin: "map_of cs cid = None" using Cons.prems(4) c by (simp add: map_of_eq_None_iff)
  have "d' = ?d\<lparr>dc_values := map (\<lambda>(key, ring). (key, case map_of cs (cid_id key) of
       None \<Rightarrow> ring | Some v \<Rightarrow> ring_assign junk ring ?q v True)) (dc_values ?d)\<rparr>"
    using Cons.IH [OF rec Cons.prems(2) di] Cons.prems(4) unfolding q by simp
  moreover have "map (\<lambda>(key, ring). (key, case map_of cs (cid_id key) of
       None \<Rightarrow> ring | Some v \<Rightarrow> ring_assign junk ring ?q v True)) (dc_values ?d) =
     map (\<lambda>(key, ring). (key, case map_of (c # cs) (cid_id key) of
       None \<Rightarrow> ring | Some v \<Rightarrow> ring_assign junk ring ?q v True)) (dc_values d)"
  proof -
    have "k = key" if "(k, r) \<in> set (dc_values d)" "cid_id k = cid" for k r
      using distinct_ids_inj [OF Cons.prems(3) _ mem] that id by force
    then show ?thesis unfolding vals using id notin by (auto simp: c)
  qed
  ultimately show ?case by (simp add: values_assign_def)
qed

definition push_ring :: "(nat \<Rightarrow> u8) \<Rightarrow> u32 \<Rightarrow> ControlValue option \<Rightarrow> ControlRingBuffer \<Rightarrow> ControlRingBuffer" where
  "push_ring junk q v ring =
     (let ring = ring_assign junk ring q (di_value (ring_get ring (q - 1))) False
      in case v of None \<Rightarrow> ring | Some v \<Rightarrow> ring_assign junk ring q v True)"

lemma push_values:
  assumes "DelayedControls_push junk dev d l = (d', True)" "idmap_ok dev" "distinct_ids d"
    and "distinct (map fst (cl_controls l))"
  shows "d' = d\<lparr>dc_values := map (\<lambda>(key, ring). (key, push_ring junk (dc_queueCount d)
       (map_of (cl_controls l) (cid_id key)) ring)) (dc_values d), dc_queueCount := dc_queueCount d + 1\<rparr>"
proof -
  from assms(1) obtain d1 where d1: "push_new junk dev (cl_controls l) (push_copy junk d) = (d1, True)"
    "d' = d1\<lparr>dc_queueCount := dc_queueCount d1 + 1\<rparr>"
    by (auto simp: DelayedControls_push_def Let_def split: prod.splits if_splits)
  have "map fst (dc_values (push_copy junk d)) = map fst (dc_values d)"
    by (simp add: push_copy_def case_prod_unfold)
  then have "distinct_ids (push_copy junk d)"
    using assms(3) by (auto simp: distinct_ids_def simp flip: map_map set_map)
  from push_new_values [OF d1(1) assms(2) this assms(4)] d1(2) show ?thesis
    by (simp add: push_copy_def push_ring_def o_def case_prod_unfold Let_def cong: option.case_cong)
qed


text \<open>What is written to the device in one frame, as the contents of its registers afterwards.\<close>

definition registers :: "ControlList list \<Rightarrow> (u32 \<rightharpoonup> ControlValue) \<Rightarrow> (u32 \<rightharpoonup> ControlValue)" where
  "registers ls reg = foldl (\<lambda>reg l. reg ++ map_of (cl_controls l)) reg ls"

lemma registers_simps [simp]:
  "registers [] reg = reg" "registers (l # ls) reg = registers ls (reg ++ map_of (cl_controls l))"
  "registers (ls @ ls') reg = registers ls' (registers ls reg)"
  by (simp_all add: registers_def)

lemma list_set_new:
  assumes "cl_validator l = None" "cid \<notin> fst ` set (cl_controls l)" "ControlValue_is_set v"
  shows "list_set junk l cid v = l\<lparr>cl_controls := cl_controls l @ [(cid, v)]\<rparr>"
proof -
  have "map_of (cl_controls l) cid = None" using assms(2) by (simp add: map_of_eq_None_iff)
  with assms show ?thesis
    by (simp add: list_set_def ControlList_set_def ControlList_find_mut_def update_new update_last
        ControlValue_assign_copy)
qed

definition apply_ring :: "DelayedControls \<Rightarrow> ControlId \<Rightarrow> ControlRingBuffer \<Rightarrow> ControlRingBuffer" where
  "apply_ring d key ring =
     (let index = read_index d key; info = ring_get ring index
      in if di_updated info then ring_set ring index (info\<lparr>di_updated := False\<rparr>) else ring)"

definition written :: "DelayedControls \<Rightarrow> ControlId \<Rightarrow> ControlRingBuffer \<Rightarrow> ControlValue option" where
  "written d key ring =
     (let info = ring_get ring (read_index d key) in if di_updated info then Some (di_value info) else None)"

lemma apply_loop_writes:
  assumes "apply_loop junk dev d vs out = (vs', ps, out')"
    and "distinct (map (cid_id \<circ> fst) vs)" "cl_validator out = None"
    and "fst ` set (cl_controls out) \<inter> cid_id ` fst ` set vs = {}"
    and "\<forall>(key, ring) \<in> set vs. \<forall>v. written d key ring = Some v \<longrightarrow> ControlValue_is_set v"
  shows "vs' = map (\<lambda>(key, ring). (key, apply_ring d key ring)) vs \<and>
    (\<forall>(key, ring) \<in> set vs. registers (ps @ [out']) reg (cid_id key) =
       (case written d key ring of None \<Rightarrow> reg (cid_id key) | Some v \<Rightarrow> Some v)) \<and>
    (\<forall>cid. cid \<notin> cid_id ` fst ` set vs \<longrightarrow> registers (ps @ [out']) reg cid = (reg ++ map_of (cl_controls out)) cid)"
  using assms
proof (induction vs arbitrary: out vs' ps out' reg)
  case Nil
  then show ?case by simp
next
  case (Cons p vs)
  obtain key ring where p: "p = (key, ring)" by fastforce
  let ?info = "ring_get ring (read_index d key)"
  have ids: "cid_id key \<notin> cid_id ` fst ` set vs" "distinct (map (cid_id \<circ> fst) vs)"
    using Cons.prems(2) by (auto simp: p o_def)
  have out: "cid_id key \<notin> fst ` set (cl_controls out)" "fst ` set (cl_controls out) \<inter> cid_id ` fst ` set vs = {}"
    using Cons.prems(4) by (auto simp: p)
  then have none: "map_of (cl_controls out) (cid_id key) = None" by (simp add: map_of_eq_None_iff)
  have ok: "\<forall>(key, ring) \<in> set vs. \<forall>v. written d key ring = Some v \<longrightarrow> ControlValue_is_set v"
    and v: "di_updated ?info \<Longrightarrow> ControlValue_is_set (di_value ?info)"
    using Cons.prems(5) by (auto simp: p written_def)
  show ?case
  proof (cases "di_updated ?info")
    case False
    then obtain vs1 where rec: "apply_loop junk dev d vs out = (vs1, ps, out')" "vs' = (key, ring) # vs1"
      using Cons.prems(1) by (auto simp: p Let_def split: prod.splits)
    note ih = Cons.IH [OF rec(1) ids(2) Cons.prems(3) out(2) ok, of reg]
    have "apply_ring d key ring = ring" "written d key ring = None"
      using False by (simp_all add: apply_ring_def written_def)
    with ih rec(2) none ids(1) show ?thesis by (auto simp: p map_add_def)
  next
    case upd: True
    let ?ring = "ring_set ring (read_index d key) (?info\<lparr>di_updated := False\<rparr>)"
    have r: "apply_ring d key ring = ?ring" "written d key ring = Some (di_value ?info)"
      using upd by (simp_all add: apply_ring_def written_def Let_def)
    show ?thesis
    proof (cases "dp_priorityWrite (params_at d key)")
      case True
      let ?p = "list_set junk (ControlList_of_infoMap (v4d_controls dev) None) (cid_id key) (di_value ?info)"
      from upd True obtain vs1 ps1 where rec: "apply_loop junk dev d vs out = (vs1, ps1, out')"
        "vs' = (key, ?ring) # vs1" "ps = ?p # ps1"
        using Cons.prems(1) by (auto simp: p Let_def split: prod.splits)
      have lp: "cl_controls ?p = [(cid_id key, di_value ?info)]"
        using v [OF upd] by (subst list_set_new) (simp_all add: ControlList_of_infoMap_def)
      let ?reg = "reg(cid_id key \<mapsto> di_value ?info)"
      have reg: "registers (ps @ [out']) reg = registers (ps1 @ [out']) ?reg"
        using rec(3) lp by simp
      define R where "R = registers (ps1 @ [out']) ?reg"
      have ih: "vs1 = map (\<lambda>(key, ring). (key, apply_ring d key ring)) vs"
        "\<forall>(k, r) \<in> set vs. R (cid_id k) = (case written d k r of None \<Rightarrow> ?reg (cid_id k) | Some v \<Rightarrow> Some v)"
        "\<And>cid. cid \<notin> cid_id ` fst ` set vs \<Longrightarrow> R cid = (?reg ++ map_of (cl_controls out)) cid"
        using Cons.IH [OF rec(1) ids(2) Cons.prems(3) out(2) ok, of ?reg] unfolding R_def by blast+
      have other: "cid_id k \<noteq> cid_id key" if "(k, r) \<in> set vs" for k r
        using ids(1) that by (metis fst_conv imageI)
      have "R (cid_id key) = Some (di_value ?info)" using ih(3) [OF ids(1)] none by (simp add: map_add_def)
      moreover have "R cid = (reg ++ map_of (cl_controls out)) cid" if "cid \<notin> cid_id ` fst ` set (p # vs)" for cid
        using ih(3) [of cid] that by (simp add: p map_add_def split: option.splits)
      moreover have "\<forall>(k, r) \<in> set vs. R (cid_id k) = (case written d k r of None \<Rightarrow> reg (cid_id k) | Some v \<Rightarrow> Some v)"
        using ih(2) other by (auto split: option.splits)
      ultimately show ?thesis
        unfolding reg R_def [symmetric] using ih(1) rec(2) r by (simp add: p)
    next
      case False
      let ?out = "list_set junk out (cid_id key) (di_value ?info)"
      from upd False obtain vs1 where rec: "apply_loop junk dev d vs ?out = (vs1, ps, out')" "vs' = (key, ?ring) # vs1"
        using Cons.prems(1) by (auto simp: p Let_def split: prod.splits)
      have lo: "?out = out\<lparr>cl_controls := cl_controls out @ [(cid_id key, di_value ?info)]\<rparr>"
        using v [OF upd] out(1) Cons.prems(3) by (intro list_set_new)
      have disj: "fst ` set (cl_controls ?out) \<inter> cid_id ` fst ` set vs = {}"
        unfolding lo using out(2) ids(1) by auto
      have val: "cl_validator ?out = None" unfolding lo using Cons.prems(3) by simp
      note ih = Cons.IH [OF rec(1) ids(2) val disj ok, of reg]
      have "(reg ++ map_of (cl_controls ?out)) cid =
          (if cid = cid_id key then Some (di_value ?info) else (reg ++ map_of (cl_controls out)) cid)" for cid
        unfolding lo using none by (auto simp: map_add_def split: option.splits)
      with ih rec(2) ids(1) r show ?thesis by (auto simp: p)
    qed
  qed
qed


section \<open>The log behind the rings\<close>

text \<open>
  \<open>L n key\<close> is the value queued at position \<open>n\<close> and \<open>U n key\<close> whether it was new there; \<open>Q\<close> positions
  are queued and \<open>W\<close> frames have started. The frame \<open>W\<close> reads position \<open>W - lead\<close> of a control.
\<close>

definition lead :: "DelayedControls \<Rightarrow> ControlId \<Rightarrow> nat" where
  "lead d key = unat (dc_maxDelay d) - unat (dp_delay (params_at d key))"

definition ring_ok ::
    "(nat \<Rightarrow> ControlValue) \<Rightarrow> (nat \<Rightarrow> bool) \<Rightarrow> nat \<Rightarrow> nat \<Rightarrow> nat \<Rightarrow> ControlRingBuffer \<Rightarrow> bool" where
  "ring_ok v u Q W ld ring \<longleftrightarrow>
     length ring = 16 \<and> (\<forall>n < Q. ControlValue_is_set (v n)) \<and>
     \<not> u 0 \<and> (\<forall>n < Q. 0 < n \<longrightarrow> \<not> u n \<longrightarrow> v n = v (n - 1)) \<and>
     (\<forall>n < Q. Q \<le> n + 16 \<longrightarrow> di_value (slot ring n) = v n \<and> (di_updated (slot ring n) \<longleftrightarrow> u n \<and> W \<le> n + ld)) \<and>
     (\<forall>n < 16. Q \<le> n \<longrightarrow> \<not> di_updated (slot ring n))"

definition logged ::
    "V4L2Device \<Rightarrow> DelayedControls \<Rightarrow> (ControlId \<Rightarrow> nat \<Rightarrow> ControlValue) \<Rightarrow> (ControlId \<Rightarrow> nat \<Rightarrow> bool)
      \<Rightarrow> nat \<Rightarrow> nat \<Rightarrow> bool" where
  "logged dev d L U Q W \<longleftrightarrow>
     1 \<le> Q \<and> Q < 2 ^ 31 \<and> W < 2 ^ 31 \<and> dc_queueCount d = of_nat Q \<and> dc_writeCount d = of_nat W \<and>
     idmap_ok dev \<and> distinct_ids d \<and> unat (dc_maxDelay d) \<le> 15 \<and>
     (\<forall>(key, ring) \<in> set (dc_values d). dp_delay (params_at d key) \<le> dc_maxDelay d \<and>
        ring_ok (L key) (U key) Q W (lead d key) ring)"

lemma slot_other: "n < Q \<Longrightarrow> Q < n + 16 \<Longrightarrow> n mod 16 \<noteq> Q mod (16 :: nat)"
  using mod_eq_dvd_iff_nat [of n Q 16] by (auto dest!: dvd_imp_le)

lemma slot_other2: "m < Q \<Longrightarrow> n < Q \<Longrightarrow> Q \<le> m + 16 \<Longrightarrow> Q \<le> n + 16 \<Longrightarrow> m \<noteq> n \<Longrightarrow> m mod 16 \<noteq> n mod (16 :: nat)"
  using slot_other [of m n] slot_other [of n m] by (cases "m < n") auto

lemma push_ring_eq:
  assumes "length ring = 16" "1 \<le> Q" "Q < 2 ^ 31" "ControlValue_is_set (di_value (slot ring (Q - 1)))"
    and "\<And>x. v = Some x \<Longrightarrow> ControlValue_is_set x"
  shows "push_ring junk (of_nat Q) v ring = ring[Q mod 16 :=
    \<lparr>di_value = (case v of None \<Rightarrow> di_value (slot ring (Q - 1)) | Some x \<Rightarrow> x), di_updated = (v \<noteq> None)\<rparr>]"
proof -
  have "of_nat Q - 1 = (of_nat (Q - 1) :: u32)" using assms(2) by (simp add: of_nat_diff)
  moreover have "Q - 1 < 2 ^ 32" using assms(3) by simp
  ultimately have "ring_get ring (of_nat Q - 1) = slot ring (Q - 1)" by (simp only: ring_get_nat)
  with assms show ?thesis
    by (simp add: push_ring_def ring_assign_def ring_set_nat Let_def split: option.splits)
qed

lemma ring_okD:
  assumes "ring_ok v u Q W ld ring"
  shows "length ring = 16" "n < Q \<Longrightarrow> ControlValue_is_set (v n)" "\<not> u 0"
    "n < Q \<Longrightarrow> 0 < n \<Longrightarrow> \<not> u n \<Longrightarrow> v n = v (n - 1)"
    "n < Q \<Longrightarrow> Q \<le> n + 16 \<Longrightarrow> di_value (slot ring n) = v n"
    "n < Q \<Longrightarrow> Q \<le> n + 16 \<Longrightarrow> di_updated (slot ring n) \<longleftrightarrow> u n \<and> W \<le> n + ld"
    "n < 16 \<Longrightarrow> Q \<le> n \<Longrightarrow> \<not> di_updated (slot ring n)"
  using assms unfolding ring_ok_def by blast+

lemma ring_okI:
  assumes "length ring = 16" "\<And>n. n < Q \<Longrightarrow> ControlValue_is_set (v n)" "\<not> u 0"
    "\<And>n. n < Q \<Longrightarrow> 0 < n \<Longrightarrow> \<not> u n \<Longrightarrow> v n = v (n - 1)"
    "\<And>n. n < Q \<Longrightarrow> Q \<le> n + 16 \<Longrightarrow> di_value (slot ring n) = v n"
    "\<And>n. n < Q \<Longrightarrow> Q \<le> n + 16 \<Longrightarrow> di_updated (slot ring n) \<longleftrightarrow> u n \<and> W \<le> n + ld"
    "\<And>n. n < 16 \<Longrightarrow> Q \<le> n \<Longrightarrow> \<not> di_updated (slot ring n)"
  shows "ring_ok v u Q W ld ring"
  using assms unfolding ring_ok_def by blast

definition next_value :: "ControlValue option \<Rightarrow> ControlValue \<Rightarrow> ControlValue" where
  "next_value x prev = (case x of None \<Rightarrow> prev | Some y \<Rightarrow> y)"

lemma ring_ok_push:
  assumes ok: "ring_ok v u Q W ld ring" and Q: "1 \<le> Q" "Q < 2 ^ 31"
    and x: "\<And>y. x = Some y \<Longrightarrow> ControlValue_is_set y" and W: "W \<le> Q \<or> x = None"
  shows "ring_ok (v(Q := next_value x (v (Q - 1)))) (u(Q := x \<noteq> None)) (Suc Q) W ld
    (push_ring junk (of_nat Q) x ring)"
proof -
  note ok = ring_okD [OF ok]
  have prev: "di_value (slot ring (Q - 1)) = v (Q - 1)" "ControlValue_is_set (v (Q - 1))"
    using ok(2,5) [of "Q - 1"] Q(1) by auto
  define i where "i = \<lparr>di_value = next_value x (v (Q - 1)), di_updated = (x \<noteq> None)\<rparr>"
  have eq: "push_ring junk (of_nat Q) x ring = ring[Q mod 16 := i]"
    using push_ring_eq [OF ok(1) Q _ x, where junk = junk] prev(2) unfolding prev(1) i_def next_value_def by blast
  have new: "slot (ring[Q mod 16 := i]) Q = i" using ok(1) by simp
  have old: "slot (ring[Q mod 16 := i]) n = slot ring n" if "n \<noteq> Q" "n < Suc Q" "Suc Q \<le> n + 16" for n
    using slot_other [of n Q] that by simp
  have isset: "ControlValue_is_set (next_value x (v (Q - 1)))"
    using prev(2) x by (cases x) (simp_all add: next_value_def)
  show ?thesis
    unfolding eq
  proof (rule ring_okI)
    show "length (ring[Q mod 16 := i]) = 16" using ok(1) by simp
    show "\<not> (u(Q := x \<noteq> None)) 0" using ok(3) Q(1) by simp
  next
    fix n assume n: "n < Suc Q"
    show "ControlValue_is_set ((v(Q := next_value x (v (Q - 1)))) n)"
      using n ok(2) [of n] isset by (cases "n = Q") simp_all
    show "(v(Q := next_value x (v (Q - 1)))) n = (v(Q := next_value x (v (Q - 1)))) (n - 1)"
      if "0 < n" "\<not> (u(Q := x \<noteq> None)) n"
      using n that ok(4) [of n] by (cases "n = Q") (auto simp: next_value_def)
    assume w: "Suc Q \<le> n + 16"
    show "di_value (slot (ring[Q mod 16 := i]) n) = (v(Q := next_value x (v (Q - 1)))) n"
      using new old [OF _ n w] ok(5) [of n] n w by (cases "n = Q") (simp_all add: i_def)
    show "di_updated (slot (ring[Q mod 16 := i]) n) \<longleftrightarrow> (u(Q := x \<noteq> None)) n \<and> W \<le> n + ld"
      using new old [OF _ n w] ok(6) [of n] n w W by (cases "n = Q") (auto simp: i_def)
  next
    fix n :: nat assume n: "n < 16" "Suc Q \<le> n"
    with ok(7) [of n] show "\<not> di_updated (slot (ring[Q mod 16 := i]) n)" by simp
  qed
qed

lemma logged_push:
  assumes "logged dev d L U Q W" "DelayedControls_push junk dev d l = (d', True)"
    and "distinct (map fst (cl_controls l))" "\<forall>(cid, v) \<in> set (cl_controls l). ControlValue_is_set v"
    and "Suc Q < 2 ^ 31" "W \<le> Q \<or> cl_controls l = []"
  shows "logged dev d' (\<lambda>key. (L key)(Q := next_value (map_of (cl_controls l) (cid_id key)) (L key (Q - 1))))
      (\<lambda>key. (U key)(Q := map_of (cl_controls l) (cid_id key) \<noteq> None)) (Suc Q) W \<and>
    map fst (dc_values d') = map fst (dc_values d) \<and> lead d' = lead d \<and> dc_maxDelay d' = dc_maxDelay d"
proof -
  have d: "1 \<le> Q" "Q < 2 ^ 31" "dc_queueCount d = of_nat Q" "idmap_ok dev" "distinct_ids d"
    using assms(1) by (simp_all add: logged_def)
  note d' = push_values [OF assms(2) d(4,5) assms(3)]
  have fsts: "map fst (dc_values d') = map fst (dc_values d)" unfolding d' by (simp add: case_prod_unfold)
  have pa: "params_at d' = params_at d" "dc_maxDelay d' = dc_maxDelay d"
    "dc_controlParams d' = dc_controlParams d" "dc_writeCount d' = dc_writeCount d"
    "dc_queueCount d' = of_nat (Suc Q)"
    unfolding d' by (simp_all add: params_at_def fun_eq_iff d(3))
  then have ld: "lead d' = lead d" by (simp add: lead_def fun_eq_iff)
  have di: "distinct_ids d'"
    using d(5) pa(3) arg_cong [OF fsts, of "map cid_id"] arg_cong [OF fsts, of set]
    by (simp add: distinct_ids_def)
  have rings: "dp_delay (params_at d key) \<le> dc_maxDelay d \<and>
      ring_ok ((L key)(Q := next_value (map_of (cl_controls l) (cid_id key)) (L key (Q - 1))))
        ((U key)(Q := map_of (cl_controls l) (cid_id key) \<noteq> None)) (Suc Q) W (lead d key)
        (push_ring junk (of_nat Q) (map_of (cl_controls l) (cid_id key)) ring)"
    if "(key, ring) \<in> set (dc_values d)" for key ring
  proof (intro conjI ring_ok_push)
    show "dp_delay (params_at d key) \<le> dc_maxDelay d" "ring_ok (L key) (U key) Q W (lead d key) ring"
      using assms(1) that by (auto simp: logged_def)
    show "1 \<le> Q" "Q < 2 ^ 31" by fact+
    show "ControlValue_is_set y" if "map_of (cl_controls l) (cid_id key) = Some y" for y
      using assms(4) map_of_SomeD [OF that] by auto
    show "W \<le> Q \<or> map_of (cl_controls l) (cid_id key) = None" using assms(6) by auto
  qed
  have "logged dev d' (\<lambda>key. (L key)(Q := next_value (map_of (cl_controls l) (cid_id key)) (L key (Q - 1))))
      (\<lambda>key. (U key)(Q := map_of (cl_controls l) (cid_id key) \<noteq> None)) (Suc Q) W"
    unfolding logged_def pa ld
  proof (intro conjI ballI)
    fix p assume "p \<in> set (dc_values d')"
    then obtain key ring where "(key, ring) \<in> set (dc_values d)"
      "p = (key, push_ring junk (of_nat Q) (map_of (cl_controls l) (cid_id key)) ring)"
      unfolding d' by (auto simp: d(3))
    with rings show "case p of (key, ring) \<Rightarrow> dp_delay (params_at d key) \<le> dc_maxDelay d \<and>
        ring_ok ((L key)(Q := next_value (map_of (cl_controls l) (cid_id key)) (L key (Q - 1))))
          ((U key)(Q := map_of (cl_controls l) (cid_id key) \<noteq> None)) (Suc Q) W (lead d key) ring"
      by simp
  qed (use assms(1,5) d di in \<open>simp_all add: logged_def\<close>)
  with fsts ld pa show ?thesis by blast
qed


lemma max0_diff:
  assumes "a < 2 ^ 31" "b < 2 ^ 31"
  shows "max0 (of_nat a - of_nat b) = of_nat (a - b)"
proof -
  have "of_nat a - of_nat b = (word_of_int (int a - int b) :: u32)" by simp
  moreover have "sint (word_of_int (int a - int b) :: u32) = int a - int b"
    using assms by (intro sint_word_of_int_i32) (simp add: in_i32_def)
  ultimately show ?thesis by (auto simp: max0_def smax_def of_nat_diff)
qed

lemma read_index_lead:
  assumes "dp_delay (params_at d key) \<le> dc_maxDelay d" "dc_writeCount d = of_nat W" "W < 2 ^ 31"
    and "unat (dc_maxDelay d) \<le> 15"
  shows "read_index d key = of_nat (W - lead d key)"
proof -
  have "dc_maxDelay d - dp_delay (params_at d key) = of_nat (lead d key)"
    using assms(1) by (simp add: lead_def word_le_nat_alt of_nat_diff)
  moreover have "lead d key < 2 ^ 31" using assms(4) by (simp add: lead_def)
  ultimately show ?thesis using max0_diff [OF assms(3)] assms(2) by (simp add: read_index_def)
qed

text \<open>What the frame \<open>W\<close> writes for a control, and the ring after it.\<close>

lemma ring_ok_apply:
  assumes ok: "ring_ok v u Q W ld ring" and "W \<le> Q" "Q \<le> W - ld + 16"
  shows "di_updated (slot ring (W - ld)) \<longleftrightarrow> W - ld < Q \<and> u (W - ld)"
    "ring_ok v u Q (Suc W) ld (if di_updated (slot ring (W - ld))
       then ring[(W - ld) mod 16 := (slot ring (W - ld))\<lparr>di_updated := False\<rparr>] else ring)"
proof -
  note ok' = ring_okD [OF ok]
  let ?n = "W - ld"
  show upd: "di_updated (slot ring ?n) \<longleftrightarrow> ?n < Q \<and> u ?n"
  proof (cases "?n < Q")
    case True
    with ok'(6) [OF True assms(3)] ok'(3) show ?thesis by auto
  next
    case False
    with assms(2) have n: "?n = Q" "ld = 0 \<or> Q = 0" "W = Q" by auto
    have "\<not> di_updated (slot ring Q)"
    proof (cases "Q < 16")
      case True
      with ok'(7) [of Q] show ?thesis by simp
    next
      case F: False
      then have "slot ring Q = slot ring (Q - 16)" by (simp add: le_mod_geq)
      with ok'(6) [of "Q - 16"] F n show ?thesis by auto
    qed
    with n(1) False show ?thesis by simp
  qed
  let ?r = "if di_updated (slot ring ?n) then ring[?n mod 16 := (slot ring ?n)\<lparr>di_updated := False\<rparr>] else ring"
  have slots: "slot ?r m = (if m mod 16 = ?n mod 16 then (slot ring m)\<lparr>di_updated := False\<rparr> else slot ring m)"
    if "m mod 16 \<noteq> ?n mod 16 \<or> di_updated (slot ring ?n)" for m
    using that ok'(1) by auto
  show "ring_ok v u Q (Suc W) ld ?r"
  proof (rule ring_okI)
    show "length ?r = 16" using ok'(1) by simp
    show "\<not> u 0" by fact
  next
    fix m assume m: "m < Q"
    show "ControlValue_is_set (v m)" using ok'(2) m .
    show "v m = v (m - 1)" if "0 < m" "\<not> u m" using ok'(4) m that .
    assume w: "Q \<le> m + 16"
    have val: "di_value (slot ?r m) = di_value (slot ring m)" using ok'(1) by (auto simp: nth_list_update)
    then show "di_value (slot ?r m) = v m" using ok'(5) [OF m w] by simp
    show "di_updated (slot ?r m) \<longleftrightarrow> u m \<and> Suc W \<le> m + ld"
    proof (cases "m = ?n")
      case True
      then have "\<not> di_updated (slot ?r m)" using ok'(1) by auto
      moreover have "\<not> (u m \<and> Suc W \<le> m + ld)" using True ok'(3) by (cases "W < ld") auto
      ultimately show ?thesis by simp
    next
      case False
      have "slot ?r m = slot ring m"
      proof (cases "di_updated (slot ring ?n)")
        case True
        with upd have "?n < Q" by simp
        from slot_other2 [OF m this w assms(3) False] show ?thesis by simp
      qed simp
      moreover have "W \<le> m + ld \<longleftrightarrow> Suc W \<le> m + ld" if "u m" using False that ok'(3) by auto
      ultimately show ?thesis using ok'(6) [OF m w] by auto
    qed
  next
    fix m :: nat assume "m < 16" "Q \<le> m"
    with ok'(7) [of m] show "\<not> di_updated (slot ?r m)" using ok'(1) by (auto simp: nth_list_update)
  qed
qed


definition paced :: "DelayedControls \<Rightarrow> bool" where
  "paced d \<longleftrightarrow> unat (dc_queueCount d) + unat (dc_maxDelay d) \<le> unat (dc_writeCount d) + 16"

lemma logged_apply_loop:
  assumes lg: "logged dev d L U Q W" and W: "W \<le> Q" and p: "paced d"
    and loop: "apply_loop junk dev d (dc_values d) (ControlList_of_infoMap (v4d_controls dev) None) = (vs, ps, out)"
    and W1: "Suc W < 2 ^ 31"
  defines "d1 \<equiv> d\<lparr>dc_values := vs, dc_writeCount := dc_writeCount d + 1\<rparr>"
  shows "logged dev d1 L U Q (Suc W)" "map fst (dc_values d1) = map fst (dc_values d)"
    "key \<in> fst ` set (dc_values d) \<Longrightarrow> registers (ps @ [out]) reg (cid_id key) =
       (if W - lead d key < Q \<and> U key (W - lead d key) then Some (L key (W - lead d key)) else reg (cid_id key))"
proof -
  have d: "1 \<le> Q" "Q < 2 ^ 31" "W < 2 ^ 31" "dc_queueCount d = of_nat Q" "dc_writeCount d = of_nat W" "idmap_ok dev"
    "distinct_ids d" "unat (dc_maxDelay d) \<le> 15"
    and rings: "\<And>key ring. (key, ring) \<in> set (dc_values d) \<Longrightarrow>
      dp_delay (params_at d key) \<le> dc_maxDelay d \<and> ring_ok (L key) (U key) Q W (lead d key) ring"
    using lg by (auto simp: logged_def)
  have QW: "Q \<le> W - lead d key + 16" for key
    using p W d(2-5) by (simp add: paced_def lead_def unat_of_nat_u32)
  have idx: "ring_get ring (read_index d key) = slot ring (W - lead d key)"
    "ring_set ring (read_index d key) i = ring[(W - lead d key) mod 16 := i]"
    if "(key, ring) \<in> set (dc_values d)" for key ring i
    using read_index_lead [OF _ d(5,3,8)] rings [OF that] d(3) by (simp_all add: ring_get_nat ring_set_nat)
  have wr: "written d key ring = (if W - lead d key < Q \<and> U key (W - lead d key)
      then Some (L key (W - lead d key)) else None)" if "(key, ring) \<in> set (dc_values d)" for key ring
    using ring_ok_apply(1) [OF conjunct2 [OF rings [OF that]] W QW] ring_okD(5) [OF conjunct2 [OF rings [OF that]] _ QW]
    by (simp add: written_def idx [OF that] Let_def)
  have set: "\<forall>(key, ring) \<in> set (dc_values d). \<forall>v. written d key ring = Some v \<longrightarrow> ControlValue_is_set v"
    using wr ring_okD(2) [OF conjunct2 [OF rings]] by (auto split: if_splits)
  have dist: "distinct (map (cid_id \<circ> fst) (dc_values d))" using d(7) by (simp add: distinct_ids_def)
  note al = apply_loop_writes [OF loop dist _ _ set]
  have vs: "vs = map (\<lambda>(key, ring). (key, apply_ring d key ring)) (dc_values d)"
    using al by (simp add: ControlList_of_infoMap_def)
  show fsts: "map fst (dc_values d1) = map fst (dc_values d)"
    unfolding d1_def vs by (simp add: case_prod_unfold)
  show "registers (ps @ [out]) reg (cid_id key) =
       (if W - lead d key < Q \<and> U key (W - lead d key) then Some (L key (W - lead d key)) else reg (cid_id key))"
    if key: "key \<in> fst ` set (dc_values d)"
  proof -
    obtain ring where "(key, ring) \<in> set (dc_values d)" using key by auto
    then show ?thesis using al [of reg] wr by (auto simp: ControlList_of_infoMap_def)
  qed
  have same: "params_at d1 = params_at d" "dc_maxDelay d1 = dc_maxDelay d" "lead d1 = lead d"
    "dc_controlParams d1 = dc_controlParams d" "dc_queueCount d1 = of_nat Q" "dc_writeCount d1 = of_nat (Suc W)"
    by (simp_all add: d1_def params_at_def lead_def fun_eq_iff d(4,5))
  have di: "distinct_ids d1"
    using d(7) same(4) arg_cong [OF fsts, of "map cid_id"] arg_cong [OF fsts, of set]
    by (simp add: distinct_ids_def)
  have new: "ring_ok (L key) (U key) Q (Suc W) (lead d key) (apply_ring d key ring)"
    if "(key, ring) \<in> set (dc_values d)" for key ring
    using ring_ok_apply(2) [OF conjunct2 [OF rings [OF that]] W QW]
    by (simp add: apply_ring_def idx [OF that] Let_def split: if_splits)
  show "logged dev d1 L U Q (Suc W)"
    unfolding logged_def same
  proof (intro conjI ballI)
    fix q assume "q \<in> set (dc_values d1)"
    then obtain key ring where "(key, ring) \<in> set (dc_values d)" "q = (key, apply_ring d key ring)"
      unfolding d1_def vs by auto
    with new rings show "case q of (key, ring) \<Rightarrow> dp_delay (params_at d key) \<le> dc_maxDelay d \<and>
        ring_ok (L key) (U key) Q (Suc W) (lead d key) ring" by auto
  qed (use d di W1 in simp_all)
qed


section \<open>Runs\<close>

text \<open>
  A run is a sequence of accepted pushes and frame starts. The history is what the registers of the
  device hold at first and after every frame start. At a frame start, the queue is at most 16 positions
  less the greatest delay ahead of the frames, so that no position is overwritten before it is read.
\<close>

datatype delay_op = Push ControlList | FrameStart u32

fun delay_run ::
    "(nat \<Rightarrow> u8) \<Rightarrow> V4L2Device \<Rightarrow> delay_op list \<Rightarrow> DelayedControls \<times> (u32 \<rightharpoonup> ControlValue) list
      \<Rightarrow> (DelayedControls \<times> (u32 \<rightharpoonup> ControlValue) list) option" where
  "delay_run junk dev [] (d, hist) = Some (d, hist)"
| "delay_run junk dev (Push l # ops) (d, hist) =
     (let (d, ok) = DelayedControls_push junk dev d l
      in if \<not> ok then None else delay_run junk dev ops (d, hist))"
| "delay_run junk dev (FrameStart sequence # ops) (d, hist) =
     (if \<not> paced d then None
      else
        let (d, ls) = apply_step junk dev d sequence
        in delay_run junk dev ops (d, hist @ [registers ls (last hist)]))"

definition tracked ::
    "V4L2Device \<Rightarrow> DelayedControls \<Rightarrow> (u32 \<rightharpoonup> ControlValue) list \<Rightarrow> (ControlId \<Rightarrow> nat \<Rightarrow> ControlValue)
      \<Rightarrow> (ControlId \<Rightarrow> nat \<Rightarrow> bool) \<Rightarrow> nat \<Rightarrow> nat \<Rightarrow> bool" where
  "tracked dev d hist L U Q W \<longleftrightarrow> logged dev d L U Q W \<and> W \<le> Q \<and> length hist = Suc W \<and>
     (\<forall>j \<le> W. \<forall>key \<in> fst ` set (dc_values d). (hist ! j) (cid_id key) = Some (L key (j - 1 - lead d key)))"

definition same_setup :: "DelayedControls \<Rightarrow> DelayedControls \<Rightarrow> bool" where
  "same_setup d d' \<longleftrightarrow> map fst (dc_values d') = map fst (dc_values d) \<and> lead d' = lead d \<and>
     dc_maxDelay d' = dc_maxDelay d \<and> params_at d' = params_at d"

lemma same_setup_trans: "same_setup d d' \<Longrightarrow> same_setup d' d'' \<Longrightarrow> same_setup d d''"
  by (simp add: same_setup_def)

lemma same_setup_keys: "same_setup d d' \<Longrightarrow> fst ` set (dc_values d') = fst ` set (dc_values d)"
  by (metis same_setup_def list.set_map)

lemma push_params:
  "push_new junk dev cs d = (d', ok) \<Longrightarrow> dc_controlParams d' = dc_controlParams d"
  by (induction junk dev cs d rule: push_new.induct) (auto simp: values_assign_def split: option.splits if_splits)

lemma push_same_params: "DelayedControls_push junk dev d l = (d', ok) \<Longrightarrow> params_at d' = params_at d"
  by (auto simp: DelayedControls_push_def params_at_def fun_eq_iff Let_def
      dest!: push_params split: prod.splits if_splits)

lemma tracked_push:
  assumes "tracked dev d hist L U Q W" "DelayedControls_push junk dev d l = (d', True)"
    and "distinct (map fst (cl_controls l))" "\<forall>(cid, v) \<in> set (cl_controls l). ControlValue_is_set v"
    and "Suc Q < 2 ^ 31"
  shows "\<exists>L' U'. tracked dev d' hist L' U' (Suc Q) W \<and> same_setup d d'"
proof -
  have t: "logged dev d L U Q W" "W \<le> Q" "length hist = Suc W"
    "\<forall>j \<le> W. \<forall>key \<in> fst ` set (dc_values d). (hist ! j) (cid_id key) = Some (L key (j - 1 - lead d key))"
    using assms(1) by (simp_all add: tracked_def)
  note lp = logged_push [OF t(1) assms(2-5) disjI1 [OF t(2)]]
  have ss: "same_setup d d'" using lp push_same_params [OF assms(2)] by (simp add: same_setup_def)
  have "1 \<le> Q" using t(1) by (simp add: logged_def)
  then have "j - 1 - lead d key \<noteq> Q" if "j \<le> W" for j key using that t(2) by linarith
  then have H: "\<forall>j \<le> W. \<forall>key \<in> fst ` set (dc_values d'). (hist ! j) (cid_id key) =
      Some (((L key)(Q := next_value (map_of (cl_controls l) (cid_id key)) (L key (Q - 1)))) (j - 1 - lead d' key))"
    using t(4) lp same_setup_keys [OF ss] by simp
  have "tracked dev d' hist (\<lambda>key. (L key)(Q := next_value (map_of (cl_controls l) (cid_id key)) (L key (Q - 1))))
      (\<lambda>key. (U key)(Q := map_of (cl_controls l) (cid_id key) \<noteq> None)) (Suc Q) W"
    unfolding tracked_def by (intro conjI conjunct1 [OF lp] le_SucI [OF t(2)] t(3) H)
  with ss show ?thesis by blast
qed

lemma apply_start_simps [simp]:
  "dc_values (apply_start d s) = dc_values d" "dc_queueCount (apply_start d s) = dc_queueCount d"
  "dc_writeCount (apply_start d s) = dc_writeCount d" "dc_maxDelay (apply_start d s) = dc_maxDelay d"
  "dc_controlParams (apply_start d s) = dc_controlParams d" "params_at (apply_start d s) = params_at d"
  "lead (apply_start d s) = lead d" "paced (apply_start d s) = paced d"
  "logged dev (apply_start d s) L U Q W = logged dev d L U Q W"
  by (simp_all add: apply_start_def params_at_def lead_def paced_def logged_def distinct_ids_def fun_eq_iff)

lemma tracked_apply:
  assumes "tracked dev d hist L U Q W" "paced d" "apply_step junk dev d s = (d', ls)" "Suc Q < 2 ^ 31"
  shows "\<exists>L' U' Q'. tracked dev d' (hist @ [registers ls (last hist)]) L' U' Q' (Suc W) \<and> Q' \<le> Suc Q \<and> same_setup d d'"
proof -
  let ?d = "apply_start d s"
  have t: "logged dev ?d L U Q W" "W \<le> Q" "length hist = Suc W"
    "\<forall>j \<le> W. \<forall>key \<in> fst ` set (dc_values d). (hist ! j) (cid_id key) = Some (L key (j - 1 - lead d key))"
    using assms(1) by (simp_all add: tracked_def)
  obtain vs ps out where loop: "apply_loop junk dev ?d (dc_values ?d) (ControlList_of_infoMap (v4d_controls dev) None)
      = (vs, ps, out)" by (metis prod_cases3)
  define d1 where "d1 = ?d\<lparr>dc_values := vs, dc_writeCount := dc_writeCount ?d + 1\<rparr>"
  have W1: "Suc W < 2 ^ 31" using t(2) assms(4) by simp
  have p: "paced ?d" using assms(2) by simp
  note al = logged_apply_loop [OF t(1,2) p loop W1, folded d1_def]
  have d': "d' = auto_push junk dev d1" "ls = ps @ [out]"
    using assms(3) loop by (simp_all add: apply_step_def d1_def)
  have cnt: "dc_queueCount d1 = of_nat Q" "dc_writeCount d1 = of_nat (Suc W)"
    using al(1) by (simp_all add: logged_def)
  have ss1: "same_setup d d1"
    using al(2) by (simp add: same_setup_def d1_def lead_def params_at_def fun_eq_iff)
  have nat: "unat (of_nat Q :: u32) = Q" "unat (of_nat (Suc W) :: u32) = Suc W"
    using W1 assms(4) by (simp_all add: unat_of_nat_u32 del: of_nat_Suc)
  have Q1: "1 \<le> Q" using t(1) by (simp add: logged_def)
  have lst: "last hist (cid_id key) = Some (L key (W - 1 - lead d key))" if "key \<in> fst ` set (dc_values d)" for key
  proof -
    have "hist \<noteq> []" using t(3) by auto
    then have "last hist = hist ! W" using t(3) by (simp add: last_conv_nth)
    then show ?thesis using t(4) that by (simp only: le_refl)
  qed
  have keep: "L key n = L key (n - 1)" if "key \<in> fst ` set (dc_values d)" "n < Q" "0 < n" "\<not> U key n" for key n
  proof -
    obtain ring where "(key, ring) \<in> set (dc_values d)" using \<open>key \<in> fst ` set (dc_values d)\<close> by auto
    then have "ring_ok (L key) (U key) Q W (lead d key) ring" using t(1) by (auto simp: logged_def)
    from ring_okD(4) [OF this that(2-4)] show ?thesis .
  qed
  have reg: "registers ls (last hist) (cid_id key) = Some (if W - lead d key < Q then L key (W - lead d key) else L key (Q - 1))"
    if key: "key \<in> fst ` set (dc_values d)" for key
  proof -
    let ?n = "W - lead d key"
    have r: "registers ls (last hist) (cid_id key) =
        (if ?n < Q \<and> U key ?n then Some (L key ?n) else Some (L key (W - 1 - lead d key)))"
      using al(3) [of key "last hist"] key lst [OF key] by (simp add: d'(2))
    show ?thesis
    proof (cases "?n < Q")
      case True
      show ?thesis
      proof (cases "U key ?n \<or> ?n = 0")
        case True
        then show ?thesis using r \<open>?n < Q\<close> Q1 by (cases "U key ?n") auto
      next
        case False
        then have "L key ?n = L key (?n - 1)" using keep [OF key True] by simp
        moreover have "?n - 1 = W - 1 - lead d key" by simp
        ultimately show ?thesis using r False True by simp
      qed
    next
      case False
      with t(2) Q1 have "W - 1 - lead d key = Q - 1" by linarith
      with r False show ?thesis by simp
    qed
  qed
  show ?thesis
  proof (cases "W < Q")
    case True
    then have "d' = d1"
      using d'(1) cnt nat by (subst (asm) auto_push.simps) (simp add: word_less_nat_alt)
    moreover have "(hist @ [registers ls (last hist)]) ! j = (if j = Suc W then registers ls (last hist) else hist ! j)"
      if "j \<le> Suc W" for j using that t(3) by (simp add: nth_append)
    moreover have "registers ls (last hist) (cid_id key) = Some (L key (Suc W - 1 - lead d key))"
      if "key \<in> fst ` set (dc_values d)" for key using reg [OF that] True by simp
    ultimately have "tracked dev d' (hist @ [registers ls (last hist)]) L U Q (Suc W)"
      using al(1) t(3,4) True ss1 same_setup_keys [OF ss1] by (auto simp: tracked_def le_Suc_eq same_setup_def)
    with \<open>d' = d1\<close> ss1 show ?thesis by (intro exI [of _ L] exI [of _ U] exI [of _ Q]) simp
  next
    case False
    then have WQ: "W = Q" using t(2) by simp
    let ?d2 = "(push_copy junk d1)\<lparr>dc_queueCount := dc_queueCount d1 + 1\<rparr>"
    let ?L = "\<lambda>key. (L key)(Q := L key (Q - 1))"
    have push: "DelayedControls_push junk dev d1 ControlList_new = (?d2, True)" by (rule push_empty)
    have "d' = auto_push junk dev ?d2"
      using d'(1) cnt nat WQ push by (subst (asm) auto_push.simps) (simp add: word_less_nat_alt)
    also have "\<dots> = ?d2" using cnt WQ by (subst auto_push.simps) (simp add: add.commute)
    finally have d2: "d' = ?d2" .
    have lp: "logged dev ?d2 ?L (\<lambda>key. (U key)(Q := False)) (Suc Q) (Suc W)" "map fst (dc_values ?d2) = map fst (dc_values d1)"
      "lead ?d2 = lead d1" "dc_maxDelay ?d2 = dc_maxDelay d1"
      using logged_push [OF al(1) push _ _ assms(4)] by (simp_all add: ControlList_new_def next_value_def)
    have ss: "same_setup d d'"
      using ss1 lp push_same_params [OF push] unfolding d2 by (simp add: same_setup_def)
    have "(hist @ [registers ls (last hist)]) ! j = (if j = Suc W then registers ls (last hist) else hist ! j)"
      if "j \<le> Suc W" for j using that t(3) by (simp add: nth_append)
    moreover have "registers ls (last hist) (cid_id key) = Some (?L key (Suc W - 1 - lead d key))"
      if "key \<in> fst ` set (dc_values d)" for key using reg [OF that] WQ by auto
    moreover have "j - 1 - lead d key \<noteq> Q" if "j \<le> W" for j key using that WQ Q1 by linarith
    ultimately have "tracked dev d' (hist @ [registers ls (last hist)]) ?L (\<lambda>key. (U key)(Q := False)) (Suc Q) (Suc W)"
      using lp(1) t(3,4) WQ ss same_setup_keys [OF ss] unfolding d2 by (auto simp: tracked_def le_Suc_eq same_setup_def)
    with ss show ?thesis by blast
  qed
qed


definition values_set :: "delay_op \<Rightarrow> bool" where
  "values_set op \<longleftrightarrow> (\<forall>l. op = Push l \<longrightarrow> distinct (map fst (cl_controls l)) \<and>
     (\<forall>(cid, v) \<in> set (cl_controls l). ControlValue_is_set v))"

lemma tracked_run:
  assumes "delay_run junk dev ops (d, hist) = Some (d', hist')" "tracked dev d hist L U Q W"
    and "Q + length ops < 2 ^ 31" "\<forall>op \<in> set ops. values_set op"
  shows "\<exists>L' U' Q' W'. tracked dev d' hist' L' U' Q' W' \<and> same_setup d d'"
  using assms
proof (induction ops arbitrary: d hist L U Q W)
  case Nil
  then show ?case by (auto simp: same_setup_def)
next
  case (Cons op ops)
  have rest: "\<forall>op \<in> set ops. values_set op" using Cons.prems(4) by simp
  show ?case
  proof (cases op)
    case (Push l)
    with Cons.prems(1) obtain d1 where d1: "DelayedControls_push junk dev d l = (d1, True)"
      "delay_run junk dev ops (d1, hist) = Some (d', hist')" by (auto split: prod.splits if_splits)
    have l: "distinct (map fst (cl_controls l))" "\<forall>(cid, v) \<in> set (cl_controls l). ControlValue_is_set v"
      using Cons.prems(4) Push by (auto simp: values_set_def)
    obtain L1 U1 where t: "tracked dev d1 hist L1 U1 (Suc Q) W" "same_setup d d1"
      using tracked_push [OF Cons.prems(2) d1(1) l] Cons.prems(3) by auto
    from Cons.IH [OF d1(2) t(1) _ rest] Cons.prems(3) t(2) show ?thesis
      using same_setup_trans by fastforce
  next
    case (FrameStart s)
    with Cons.prems(1) obtain d1 ls where d1: "paced d" "apply_step junk dev d s = (d1, ls)"
      "delay_run junk dev ops (d1, hist @ [registers ls (last hist)]) = Some (d', hist')"
      by (auto split: prod.splits if_splits)
    obtain L1 U1 Q1 where t: "tracked dev d1 (hist @ [registers ls (last hist)]) L1 U1 Q1 (Suc W)" "Q1 \<le> Suc Q"
      "same_setup d d1"
      using tracked_apply [OF Cons.prems(2) d1(1,2)] Cons.prems(3) by auto
    from Cons.IH [OF d1(3) t(1) _ rest] Cons.prems(3) t(2,3) show ?thesis
      using same_setup_trans by fastforce
  qed
qed

text \<open>The list that \<open>get\<close> returns.\<close>

lemma get_fold:
  assumes "distinct (map (cid_id \<circ> fst) vs)" "cl_validator out = None"
    and "fst ` set (cl_controls out) \<inter> cid_id ` fst ` set vs = {}"
    and "\<forall>(key, ring) \<in> set vs. ControlValue_is_set (g ring)"
  shows "cl_controls (fold (\<lambda>(key, ring) out. list_set junk out (cid_id key) (g ring)) vs out)
    = cl_controls out @ map (\<lambda>(key, ring). (cid_id key, g ring)) vs"
  using assms
proof (induction vs arbitrary: out)
  case (Cons p vs)
  obtain key ring where p: "p = (key, ring)" by fastforce
  let ?out = "out\<lparr>cl_controls := cl_controls out @ [(cid_id key, g ring)]\<rparr>"
  have set: "list_set junk out (cid_id key) (g ring) = ?out"
    using Cons.prems by (intro list_set_new) (auto simp: p)
  have "cl_controls (fold (\<lambda>(key, ring) out. list_set junk out (cid_id key) (g ring)) vs ?out)
      = cl_controls ?out @ map (\<lambda>(key, ring). (cid_id key, g ring)) vs"
  proof (rule Cons.IH)
    have "cid_id key \<notin> cid_id ` fst ` set vs" using Cons.prems(1) by (auto simp: p o_def)
    then show "fst ` set (cl_controls ?out) \<inter> cid_id ` fst ` set vs = {}" using Cons.prems(3) by (auto simp: p)
  qed (use Cons.prems in \<open>simp_all add: p\<close>)
  with set show ?case by (simp add: p)
qed simp

lemma get_value:
  assumes "logged dev d L U Q W" "key \<in> fst ` set (dc_values d)" "s < 2 ^ 31"
    and "s - unat (dc_maxDelay d) < Q" "Q \<le> s - unat (dc_maxDelay d) + 16"
  shows "map_of (cl_controls (DelayedControls_get junk dev d (dc_firstSequence d + of_nat s))) (cid_id key) =
    Some (L key (s - unat (dc_maxDelay d)))"
proof -
  let ?n = "s - unat (dc_maxDelay d)"
  have "max0 (of_nat s - dc_maxDelay d) = of_nat ?n"
  proof -
    have "unat (dc_maxDelay d) < 2 ^ 31" using assms(1) by (simp add: logged_def)
    from max0_diff [OF assms(3) this] show ?thesis by simp
  qed
  then have idx: "ring_get ring (max0 (of_nat s - dc_maxDelay d)) = slot ring ?n" for ring
    using assms(3) by (simp add: ring_get_nat)
  have val: "di_value (slot ring ?n) = L k ?n" "ControlValue_is_set (L k ?n)" if "(k, ring) \<in> set (dc_values d)" for k ring
    using assms(1) that ring_okD(2,5) [of "L k" "U k" Q W "lead d k" ring ?n] assms(4,5) by (auto simp: logged_def)
  have dist: "distinct (map (cid_id \<circ> fst) (dc_values d))"
    using assms(1) by (simp add: logged_def distinct_ids_def)
  have set: "\<forall>(k, ring) \<in> set (dc_values d). ControlValue_is_set (di_value (slot ring ?n))" using val by auto
  have "cl_controls (DelayedControls_get junk dev d (dc_firstSequence d + of_nat s))
      = map (\<lambda>(k, ring). (cid_id k, di_value (slot ring ?n))) (dc_values d)"
    using get_fold [OF dist _ _ set, of "ControlList_of_infoMap (v4d_controls dev) None" junk]
    by (simp add: DelayedControls_get_def Let_def idx ControlList_of_infoMap_def)
  moreover have "map_of (map (\<lambda>(k, ring). (cid_id k, di_value (slot ring ?n))) (dc_values d)) (cid_id key)
      = Some (L key ?n)"
  proof -
    obtain ring where ring: "(key, ring) \<in> set (dc_values d)" using assms(2) by auto
    have "distinct (map fst (map (\<lambda>(k, ring). (cid_id k, di_value (slot ring ?n))) (dc_values d)))"
      using dist by (simp add: o_def case_prod_unfold)
    moreover have "(cid_id key, di_value (slot ring ?n)) \<in> set (map (\<lambda>(k, ring). (cid_id k, di_value (slot ring ?n))) (dc_values d))"
      using ring by force
    ultimately show ?thesis using val(1) [OF ring] by (simp add: map_of_is_SomeI)
  qed
  ultimately show ?thesis by simp
qed

section \<open>The start of a run\<close>

definition delay_ready :: "V4L2Device \<Rightarrow> DelayedControls \<Rightarrow> (u32 \<rightharpoonup> ControlValue) \<Rightarrow> bool" where
  "delay_ready dev d reg \<longleftrightarrow>
     dc_queueCount d = 1 \<and> dc_writeCount d = 0 \<and> idmap_ok dev \<and> distinct_ids d \<and> unat (dc_maxDelay d) \<le> 15 \<and>
     (\<forall>(key, ring) \<in> set (dc_values d). dp_delay (params_at d key) \<le> dc_maxDelay d \<and>
        (\<exists>v. ring = ring_new[0 := \<lparr>di_value = v, di_updated = False\<rparr>] \<and> ControlValue_is_set v \<and>
             reg (cid_id key) = Some v))"

lemma ready_ring:
  assumes "ControlValue_is_set v"
  shows "ring_ok (\<lambda>n. v) (\<lambda>n. False) 1 0 ld (ring_new[0 := \<lparr>di_value = v, di_updated = False\<rparr>])"
  using assms by (auto simp: ring_ok_def ring_new_def listSize_def nth_list_update)

lemma ready_tracked:
  assumes "delay_ready dev d reg"
  shows "tracked dev d [reg] (\<lambda>key n. the (reg (cid_id key))) (\<lambda>key n. False) 1 0"
proof -
  have r: "dp_delay (params_at d key) \<le> dc_maxDelay d \<and>
      ring_ok (\<lambda>n. the (reg (cid_id key))) (\<lambda>n. False) 1 0 (lead d key) ring \<and> reg (cid_id key) \<noteq> None"
    if key: "(key, ring) \<in> set (dc_values d)" for key ring
  proof -
    from assms key obtain v where "ring = ring_new[0 := \<lparr>di_value = v, di_updated = False\<rparr>]" "ControlValue_is_set v"
      "reg (cid_id key) = Some v" "dp_delay (params_at d key) \<le> dc_maxDelay d" by (auto simp: delay_ready_def)
    with ready_ring show ?thesis by simp
  qed
  then have "logged dev d (\<lambda>key n. the (reg (cid_id key))) (\<lambda>key n. False) 1 0"
    using assms by (auto simp: delay_ready_def logged_def)
  moreover have "\<forall>j \<le> 0. \<forall>key \<in> fst ` set (dc_values d). ([reg] ! j) (cid_id key) = Some (the (reg (cid_id key)))"
    using r by force
  ultimately show ?thesis by (simp add: tracked_def)
qed


text \<open>Resetting reads the device; when it reports every control, the state is the start of a run.\<close>

lemma reset_values_eq:
  assumes "\<forall>(cid, v) \<in> set cs. \<exists>key. map_of (im_idmap (v4d_controls dev)) cid = Some key \<and> cid_id key = cid \<and>
      ControlValue_is_set v"
    and "distinct (map fst cs)" "fst ` set cs \<inter> cid_id ` fst ` set (dc_values d) = {}"
  shows "reset_values junk dev cs d = Some (d\<lparr>dc_values := dc_values d @
    map (\<lambda>(cid, v). (the (map_of (im_idmap (v4d_controls dev)) cid), ring_new[0 := \<lparr>di_value = v, di_updated = False\<rparr>])) cs\<rparr>)"
  using assms
proof (induction cs arbitrary: d)
  case Nil
  then show ?case by simp
next
  case (Cons c cs)
  obtain cid v where c: "c = (cid, v)" by fastforce
  with Cons.prems(1) obtain key where key: "map_of (im_idmap (v4d_controls dev)) cid = Some key" "cid_id key = cid"
    "ControlValue_is_set v" by auto
  have new: "key \<notin> fst ` set (dc_values d)" using Cons.prems(3) key(2) by (auto simp: c)
  then have none: "map_of (dc_values d) key = None" by (simp add: map_of_eq_None_iff)
  let ?d = "d\<lparr>dc_values := dc_values d @ [(key, ring_new[0 := \<lparr>di_value = v, di_updated = False\<rparr>])]\<rparr>"
  have va: "values_assign junk d key 0 v False = ?d"
    using new none key(3) by (simp add: values_assign_def values_at_def update_new ring_assign_def ring_set_def)
  have "fst ` set cs \<inter> cid_id ` fst ` set (dc_values ?d) = {}"
    using Cons.prems(2,3) key(2) by (auto simp: c)
  from Cons.IH [OF _ _ this] Cons.prems(1,2) show ?case by (simp add: c key va)
qed

lemma reset_ready:
  assumes "DelayedControls_reset junk K k dev d = Some (k', dev', d')" "idmap_ok dev'"
    and "V4L2Device_getControls junk K k dev (map (\<lambda>(key, p). cid_id key) (dc_controlParams d)) = Some (k', dev', l)"
    and "distinct (map fst (cl_controls l))" "\<forall>(cid, v) \<in> set (cl_controls l). ControlValue_is_set v"
    and "fst ` set (cl_controls l) = cid_id ` fst ` set (dc_controlParams d)"
    and "\<forall>key \<in> fst ` set (dc_controlParams d). map_of (im_idmap (v4d_controls dev')) (cid_id key) = Some key \<and>
      dp_delay (params_at d key) \<le> dc_maxDelay d"
    and "unat (dc_maxDelay d) \<le> 15"
  shows "delay_ready dev' d' (map_of (cl_controls l))"
proof -
  let ?cs = "cl_controls l"
  let ?key = "\<lambda>cid. the (map_of (im_idmap (v4d_controls dev')) cid)"
  let ?vs = "map (\<lambda>(cid, v). (?key cid, ring_new[0 := \<lparr>di_value = v, di_updated = False\<rparr>])) ?cs"
  have k: "\<exists>key \<in> fst ` set (dc_controlParams d). map_of (im_idmap (v4d_controls dev')) cid = Some key \<and>
      cid_id key = cid \<and> dp_delay (params_at d key) \<le> dc_maxDelay d" if "cid \<in> fst ` set ?cs" for cid
    using that assms(6,7) by auto
  let ?d = "d\<lparr>dc_running := False, dc_firstSequence := 0, dc_queueCount := 1, dc_writeCount := 0, dc_values := []\<rparr>"
  have "reset_values junk dev' ?cs ?d = Some (?d\<lparr>dc_values := dc_values ?d @ ?vs\<rparr>)"
    using k assms(4,5) by (intro reset_values_eq) force+
  then have d': "d' = ?d\<lparr>dc_values := ?vs\<rparr>"
    using assms(1,3) by (simp add: DelayedControls_reset_def)
  have keys: "map (cid_id \<circ> fst) ?vs = map fst ?cs" using k by force
  have "fst ` set ?vs = ?key ` fst ` set ?cs" by force
  also have "\<dots> = fst ` set (dc_controlParams d)"
    unfolding assms(6) using assms(7) by (force simp: image_comp)
  finally have fsts: "fst ` set ?vs = fst ` set (dc_controlParams d)" .
  have di: "distinct_ids d'"
  proof -
    have "dc_values d' = ?vs" "dc_controlParams d' = dc_controlParams d" by (simp_all add: d')
    with keys fsts assms(4) show ?thesis by (simp only: distinct_ids_def)
  qed
  have rings: "dp_delay (params_at d' key) \<le> dc_maxDelay d' \<and> (\<exists>v. ring = ring_new[0 := \<lparr>di_value = v, di_updated = False\<rparr>] \<and>
      ControlValue_is_set v \<and> map_of ?cs (cid_id key) = Some v)" if "(key, ring) \<in> set ?vs" for key ring
  proof -
    from that obtain cid v where v: "(cid, v) \<in> set ?cs" "key = ?key cid"
      "ring = ring_new[0 := \<lparr>di_value = v, di_updated = False\<rparr>]" by auto
    then have "cid \<in> fst ` set ?cs" by force
    from k [OF this] v(2) have key: "cid_id key = cid" "dp_delay (params_at d key) \<le> dc_maxDelay d" by auto
    have "map_of ?cs cid = Some v" using v(1) assms(4) by (rule map_of_is_SomeI [rotated])
    moreover have "ControlValue_is_set v" using assms(5) v(1) by auto
    moreover have "params_at d' = params_at d" by (simp add: d' params_at_def fun_eq_iff)
    ultimately show ?thesis using key v(3) by (simp add: d')
  qed
  have d'_simps: "dc_values d' = ?vs" "dc_queueCount d' = 1" "dc_writeCount d' = 0" "dc_maxDelay d' = dc_maxDelay d"
    by (simp_all add: d')
  have "case p of (key, ring) \<Rightarrow> dp_delay (params_at d' key) \<le> dc_maxDelay d' \<and>
      (\<exists>v. ring = ring_new[0 := \<lparr>di_value = v, di_updated = False\<rparr>] \<and> ControlValue_is_set v \<and>
           map_of ?cs (cid_id key) = Some v)" if "p \<in> set (dc_values d')" for p
    using rings [of "fst p" "snd p"] that unfolding d'_simps(1) by (simp only: case_prod_unfold prod.collapse)
  then show ?thesis
    unfolding delay_ready_def using assms(2,8) di d'_simps(2-4) by simp
qed


section \<open>Properties\<close>

text \<open>An integer control with a delay of two frames, for the examples.\<close>

definition example_key :: ControlId where
  "example_key = V4L2ControlId 0 (example_query 4 V4L2_CTRL_TYPE_INTEGER)"

definition example_int :: "u32 \<Rightarrow> ControlValue" where
  "example_int n = scalar ControlTypeInteger32 (bytes_u32 n)"

definition example_delayed :: DelayedControls where
  "example_delayed =
     \<lparr>dc_controlParams = [(example_key, \<lparr>dp_delay = 2, dp_priorityWrite = False\<rparr>)], dc_maxDelay = 2,
      dc_running = False, dc_firstSequence = 0, dc_queueCount = 1, dc_writeCount = 0,
      dc_values = [(example_key, ring_new[0 := \<lparr>di_value = example_int 3, di_updated = False\<rparr>])]\<rparr>"

definition example_push :: "delay_op" where
  "example_push = Push (ControlList_new\<lparr>cl_controls := [(4, example_int 7)]\<rparr>)"

lemma example_int_set: "ControlValue_is_set (example_int n)"
  by (simp add: ControlValue_is_set_def ControlValue_wf_def ControlValue_data_size_def example_int_def scalar_def)

lemma example_key_id: "cid_id example_key = 4"
  by (simp add: example_key_def V4L2ControlId_def example_query_def)

lemma example_ready: "delay_ready example_ctrl_device example_delayed [4 \<mapsto> example_int 3]"
  by (simp add: delay_ready_def example_delayed_def distinct_ids_def example_key_id params_at_def
      example_int_set idmap_ok_def example_ctrl_device_def Let_def)
    (simp add: V4L2ControlId_def example_query_def)

lemma example_delay_run:
  "case delay_run (\<lambda>_. 0) example_ctrl_device [FrameStart 10, example_push, FrameStart 11, FrameStart 12]
      (example_delayed, [[4 \<mapsto> example_int 3]]) of
     None \<Rightarrow> False
   | Some (d, hist) \<Rightarrow> length hist = 4 \<and> dc_queueCount d = 3 \<and> dc_firstSequence d = 10 \<and> dc_maxDelay d = 2 \<and>
       example_key \<in> fst ` set (dc_values d) \<and> dp_delay (params_at d example_key) = 2 \<and>
       (hist ! 2) 4 = Some (example_int 7)"
  by code_simp




text \<open>
  A push that is refused can still reach the sensor. When the list holds a known control
  followed by an unknown one, the push fails, but the value of the known one has been stored at the
  position that is queued next; if the frames have caught up with the queue, the next frame start
  writes it to the device.
\<close>

theorem refused_push_is_written:
  assumes "tracked dev d hist L U Q Q" "Q < 2 ^ 31 - 1" "key \<in> fst ` set (dc_values d)" "lead d key = 0"
    and "map_of (im_idmap (v4d_controls dev)) (cid_id key) = Some key"
    and "map_of (im_idmap (v4d_controls dev)) unknown = None" "ControlValue_is_set v"
  shows "\<exists>d'. DelayedControls_push junk dev d (l\<lparr>cl_controls := [(cid_id key, v), (unknown, x)]\<rparr>) = (d', False) \<and>
    registers (snd (apply_step junk dev d' s)) reg (cid_id key) = Some v"
proof -
  let ?l1 = "l\<lparr>cl_controls := [(cid_id key, v)]\<rparr>"
  have lg: "logged dev d L U Q Q" using assms(1) by (simp add: tracked_def)
  then have d: "dc_queueCount d = of_nat Q" "dc_writeCount d = of_nat Q" "idmap_ok dev" "distinct_ids d"
    "unat (dc_maxDelay d) \<le> 15" "1 \<le> Q" by (simp_all add: logged_def)
  have "key \<in> fst ` set (dc_controlParams d)" using d(4) assms(3) by (simp add: distinct_ids_def)
  then have param: "map_of (dc_controlParams d) key \<noteq> None" by (simp add: map_of_eq_None_iff)
  obtain d1 where push1: "DelayedControls_push junk dev d ?l1 = (d1, True)"
    using assms(5) param by (simp add: DelayedControls_push_def Let_def)
  define d' where "d' = d1\<lparr>dc_queueCount := dc_queueCount d\<rparr>"
  have refused: "DelayedControls_push junk dev d (l\<lparr>cl_controls := [(cid_id key, v), (unknown, x)]\<rparr>) = (d', False)"
    using assms(5,6) param push1 by (auto simp: DelayedControls_push_def Let_def d'_def values_assign_def)
  have lp: "logged dev d1 (\<lambda>k. (L k)(Q := next_value (map_of (cl_controls ?l1) (cid_id k)) (L k (Q - 1))))
      (\<lambda>k. (U k)(Q := map_of (cl_controls ?l1) (cid_id k) \<noteq> None)) (Suc Q) Q"
    "map fst (dc_values d1) = map fst (dc_values d)" "lead d1 = lead d" "dc_maxDelay d1 = dc_maxDelay d"
    using logged_push [OF lg push1] assms(2,7) by simp_all
  have paced: "paced d1"
    using lp(1) d(5) lp(4) assms(2) by (simp add: logged_def paced_def unat_of_nat_u32 del: of_nat_Suc)
  obtain vs ps out where loop: "apply_loop junk dev d1 (dc_values d1) (ControlList_of_infoMap (v4d_controls dev) None)
      = (vs, ps, out)" by (metis prod_cases3)
  have "key \<in> fst ` set (dc_values d1)" using assms(3) arg_cong [OF lp(2), of set] by simp
  from logged_apply_loop(3) [OF lp(1) _ paced loop _ this, of reg] assms(2,4) lp(3)
  have reg: "registers (ps @ [out]) reg (cid_id key) = Some v"
    by (simp add: next_value_def)
  have idx: "read_index (apply_start d' s) = read_index d1" "params_at d' = params_at d1"
    by (simp_all add: read_index_def d'_def params_at_def fun_eq_iff)
  have cong: "apply_loop junk dev (apply_start d' s) ws o1 = apply_loop junk dev d1 ws o1" for ws o1
  proof (induction ws arbitrary: o1)
    case (Cons p ws)
    then show ?case by (cases p) (simp add: idx Let_def)
  qed simp
  have "snd (apply_step junk dev d' s) = ps @ [out]"
    using loop cong by (simp add: apply_step_def d'_def)
  with refused reg show ?thesis by auto
qed


lemma example_first_frame:
  "case delay_run (\<lambda>_. 0) example_ctrl_device [FrameStart 10] (example_delayed, [[4 \<mapsto> example_int 3]]) of
     None \<Rightarrow> False
   | Some (d, hist) \<Rightarrow> dc_queueCount d = 1 \<and> dc_writeCount d = 1 \<and> example_key \<in> fst ` set (dc_values d)"
  by code_simp

theorem refused_push_is_written_witness:
  "\<exists>d hist d'. delay_run (\<lambda>_. 0) example_ctrl_device [FrameStart 10] (example_delayed, [[4 \<mapsto> example_int 3]])
      = Some (d, hist) \<and>
     DelayedControls_push (\<lambda>_. 0) example_ctrl_device d
       (ControlList_new\<lparr>cl_controls := [(4, example_int 7), (99, example_int 1)]\<rparr>) = (d', False) \<and>
     registers (snd (apply_step (\<lambda>_. 0) example_ctrl_device d' 11)) [4 \<mapsto> example_int 3] 4 = Some (example_int 7)"
proof -
  obtain d hist where run: "delay_run (\<lambda>_. 0) example_ctrl_device [FrameStart 10] (example_delayed, [[4 \<mapsto> example_int 3]])
      = Some (d, hist)" "dc_queueCount d = 1" "dc_writeCount d = 1" "example_key \<in> fst ` set (dc_values d)"
    using example_first_frame by (auto split: option.splits)
  obtain L U Q W where t: "tracked example_ctrl_device d hist L U Q W" "same_setup example_delayed d"
    using tracked_run [OF run(1) ready_tracked [OF example_ready]] by (auto simp: values_set_def)
  then have "Q = 1" "W = 1"
    using run(2,3) unat_of_nat_u32 [of Q] unat_of_nat_u32 [of W] by (auto simp: tracked_def logged_def)
  moreover have "lead d example_key = 0"
    using t(2) by (simp add: same_setup_def lead_def params_at_def example_delayed_def)
  moreover have "map_of (im_idmap (v4d_controls example_ctrl_device)) 4 = Some example_key"
    "map_of (im_idmap (v4d_controls example_ctrl_device)) 99 = None"
    by (simp_all add: example_ctrl_device_def example_key_def Let_def)
  ultimately show ?thesis
    using refused_push_is_written [of example_ctrl_device d hist L U 1 example_key 99 "example_int 7" "\<lambda>_. 0"
        "example_int 1" ControlList_new 11 "[4 \<mapsto> example_int 3]"] t(1) run(1,4)
    by (simp add: example_key_id example_int_set)
qed


end
