(* ===== verification/RpiStream.thy ===== *)
theory RpiStream
  imports VideoDevice "HOL-Library.Multiset"
begin

text \<open>
  The streams of the Raspberry Pi pipeline handler, \<open>pipeline/raspberrypi/rpi_stream.h\<close> and
  \<open>rpi_stream.cpp\<close>: a video device with the buffers that are used inside the pipeline and the ones that the
  application brings. A frame buffer is its address in the heap. The map of buffers is an association list in
  the order of insertion, where the code has a hash map; \<open>emplace\<close> does not overwrite. An assertion that
  fails, and undefined behaviour of the device, are \<open>None\<close>. \<open>rs_kernel\<close> is the state of the device's driver.
\<close>

section \<open>Identifiers\<close>

definition MaskID :: u32 where "MaskID = 0xffff"
definition MaskExternalBuffer :: u32 where "MaskExternalBuffer = 0x100000"

record IdGenerator =
  ig_max :: i32
  ig_id :: i32
  ig_recycle :: "i32 list"

definition IdGenerator_new :: "i32 \<Rightarrow> IdGenerator" where
  "IdGenerator_new m = \<lparr>ig_max = m, ig_id = 0, ig_recycle = []\<rparr>"

definition IdGenerator_get :: "IdGenerator \<Rightarrow> (IdGenerator \<times> i32) option" where
  "IdGenerator_get g =
     (case ig_recycle g of
        i # ids \<Rightarrow> Some (g\<lparr>ig_recycle := ids\<rparr>, i)
      | [] \<Rightarrow>
          let i = ig_id g; g = g\<lparr>ig_id := i + 1\<rparr>
          in if sint (ig_id g) \<le> sint (ig_max g) then Some (g, i) else None)"

definition IdGenerator_release :: "IdGenerator \<Rightarrow> i32 \<Rightarrow> IdGenerator" where
  "IdGenerator_release g i = g\<lparr>ig_recycle := ig_recycle g @ [i]\<rparr>"

definition IdGenerator_reset :: "IdGenerator \<Rightarrow> IdGenerator" where
  "IdGenerator_reset g = g\<lparr>ig_id := 0, ig_recycle := []\<rparr>"

section \<open>Streams\<close>

type_synonym BufferMap = "(u32 \<times> nat) list"

definition emplace :: "u32 \<Rightarrow> nat \<Rightarrow> BufferMap \<Rightarrow> BufferMap" where
  "emplace k b m = (if map_of m k = None then m @ [(k, b)] else m)"

record 'k RpiStream =
  rs_external :: bool
  rs_importOnly :: bool
  rs_name :: string
  rs_dev :: V4L2VideoDevice
  rs_kernel :: 'k
  rs_id :: IdGenerator
  rs_bufferMap :: BufferMap
  rs_availableBuffers :: "nat list"
  rs_requestBuffers :: "nat option list"
  rs_internalBuffers :: "nat list"

definition RpiStream_new :: "string \<Rightarrow> V4L2VideoDevice \<Rightarrow> 'k \<Rightarrow> bool \<Rightarrow> 'k RpiStream" where
  "RpiStream_new name dev k importOnly =
     \<lparr>rs_external = False, rs_importOnly = importOnly, rs_name = name, rs_dev = dev, rs_kernel = k,
      rs_id = IdGenerator_new MaskID, rs_bufferMap = [], rs_availableBuffers = [], rs_requestBuffers = [],
      rs_internalBuffers = []\<rparr>"

definition RpiStream_clearBuffers :: "'k RpiStream \<Rightarrow> 'k RpiStream" where
  "RpiStream_clearBuffers s =
     s\<lparr>rs_availableBuffers := [], rs_requestBuffers := [], rs_internalBuffers := [], rs_bufferMap := [],
       rs_id := IdGenerator_reset (rs_id s)\<rparr>"

definition RpiStream_reset :: "'k RpiStream \<Rightarrow> 'k RpiStream" where
  "RpiStream_reset s = RpiStream_clearBuffers (s\<lparr>rs_external := False\<rparr>)"

definition RpiStream_setExternal :: "'k RpiStream \<Rightarrow> bool \<Rightarrow> 'k RpiStream option" where
  "RpiStream_setExternal s external =
     (if external \<and> rs_importOnly s then None else Some (s\<lparr>rs_external := external\<rparr>))"

fun RpiStream_setExportedBuffers :: "nat list \<Rightarrow> 'k RpiStream \<Rightarrow> 'k RpiStream option" where
  "RpiStream_setExportedBuffers [] s = Some s"
| "RpiStream_setExportedBuffers (b # bs) s =
     (case IdGenerator_get (rs_id s) of
        None \<Rightarrow> None
      | Some (g, i) \<Rightarrow>
          RpiStream_setExportedBuffers bs (s\<lparr>rs_id := g, rs_bufferMap := emplace i b (rs_bufferMap s)\<rparr>))"

text \<open>The key of the first entry with this buffer.\<close>

fun find_buffer :: "nat \<Rightarrow> BufferMap \<Rightarrow> u32 option" where
  "find_buffer b [] = None"
| "find_buffer b ((k, b') # m) = (if b' = b then Some k else find_buffer b m)"

definition RpiStream_getBufferId :: "'k RpiStream \<Rightarrow> nat \<Rightarrow> i32" where
  "RpiStream_getBufferId s buffer =
     (if rs_importOnly s then - 1
      else case find_buffer buffer (rs_bufferMap s) of None \<Rightarrow> - 1 | Some k \<Rightarrow> k)"

definition RpiStream_setExternalBuffer :: "'k RpiStream \<Rightarrow> nat \<Rightarrow> 'k RpiStream option" where
  "RpiStream_setExternalBuffer s buffer =
     (case IdGenerator_get (rs_id s) of
        None \<Rightarrow> None
      | Some (g, i) \<Rightarrow>
          Some (s\<lparr>rs_id := g, rs_bufferMap := emplace (or MaskExternalBuffer i) buffer (rs_bufferMap s)\<rparr>))"

definition RpiStream_removeExternalBuffer :: "'k RpiStream \<Rightarrow> nat \<Rightarrow> 'k RpiStream option" where
  "RpiStream_removeExternalBuffer s buffer =
     (let i = RpiStream_getBufferId s buffer
      in if i \<noteq> - 1 \<and> and i MaskExternalBuffer \<noteq> 0
         then Some (s\<lparr>rs_bufferMap := map_erase i (rs_bufferMap s)\<rparr>) else None)"

text \<open>
  Buffers that the device exports get the addresses \<open>place\<close>, counted from 0. An error of the export may
  have cleared the vector of internal buffers, which was empty before in every use.
\<close>

definition RpiStream_prepareBuffers ::
    "'k v4l2_kernel \<Rightarrow> (nat \<Rightarrow> nat) \<Rightarrow> 'a heap_scheme \<Rightarrow> 'k RpiStream \<Rightarrow> u32
      \<Rightarrow> ('a heap_scheme \<times> 'k RpiStream \<times> errno option) option" where
  "RpiStream_prepareBuffers K place h s n =
     (let import = (\<lambda>h s n.
            case V4L2VideoDevice_importBuffers K (rs_kernel s) (rs_dev s) n of
              (k, dev, ret) \<Rightarrow> Some (h, s\<lparr>rs_kernel := k, rs_dev := dev\<rparr>, ret))
      in if rs_importOnly s then import h s n
         else if n = 0 then import h s (of_nat (length (rs_bufferMap s)))
         else
           case V4L2VideoDevice_exportBuffers K (rs_kernel s) (rs_dev s) n of
             (k, Inl e) \<Rightarrow> Some (h, s\<lparr>rs_kernel := k\<rparr>, Some e)
           | (k, Inr fbs) \<Rightarrow>
               let new = map place [0..<length fbs];
                   h = fold (\<lambda>(b, fb) h. upd_buf h b (\<lambda>_. fb)) (zip new fbs) h;
                   s = s\<lparr>rs_kernel := k, rs_internalBuffers := rs_internalBuffers s @ new\<rparr>
               in (case RpiStream_setExportedBuffers (rs_internalBuffers s) s of
                     None \<Rightarrow> None
                   | Some s \<Rightarrow>
                       let s = s\<lparr>rs_availableBuffers := rs_availableBuffers s @ rs_internalBuffers s\<rparr>
                       in import h s (of_nat (length (rs_bufferMap s)))))"

definition RpiStream_queueToDevice ::
    "'k v4l2_kernel \<Rightarrow> 'a heap_scheme \<Rightarrow> 'k RpiStream \<Rightarrow> nat \<Rightarrow> ('k RpiStream \<times> errno option) option" where
  "RpiStream_queueToDevice K h s buffer =
     (case V4L2VideoDevice_queueBuffer K (rs_kernel s) (rs_dev s) h buffer of
        None \<Rightarrow> None
      | Some (k, dev, ret) \<Rightarrow> Some (s\<lparr>rs_kernel := k, rs_dev := dev\<rparr>, ret))"

definition queue_or_wait ::
    "'k v4l2_kernel \<Rightarrow> 'a heap_scheme \<Rightarrow> 'k RpiStream \<Rightarrow> nat \<Rightarrow> ('k RpiStream \<times> errno option) option" where
  "queue_or_wait K h s buffer =
     (if rs_requestBuffers s = [] then RpiStream_queueToDevice K h s buffer
      else Some (s\<lparr>rs_requestBuffers := rs_requestBuffers s @ [Some buffer]\<rparr>, None))"

definition RpiStream_queueBuffer ::
    "'k v4l2_kernel \<Rightarrow> 'a heap_scheme \<Rightarrow> 'k RpiStream \<Rightarrow> nat option \<Rightarrow> ('k RpiStream \<times> errno option) option" where
  "RpiStream_queueBuffer K h s buffer =
     (case buffer of
        None \<Rightarrow>
          (case rs_availableBuffers s of
             [] \<Rightarrow> Some (s\<lparr>rs_requestBuffers := rs_requestBuffers s @ [None]\<rparr>, None)
           | b # bs \<Rightarrow> queue_or_wait K h (s\<lparr>rs_availableBuffers := bs\<rparr>) b)
      | Some b \<Rightarrow> queue_or_wait K h s b)"

text \<open>The loop of \<open>returnBuffer\<close>, over the waiting requests; an error of the device is only logged.\<close>

fun return_loop ::
    "'k v4l2_kernel \<Rightarrow> 'a heap_scheme \<Rightarrow> nat option list \<Rightarrow> 'k RpiStream \<Rightarrow> 'k RpiStream option" where
  "return_loop K h [] s = Some s"
| "return_loop K h (None # reqs) s =
     (case rs_availableBuffers s of
        [] \<Rightarrow> Some s
      | b # bs \<Rightarrow>
          (case RpiStream_queueToDevice K h (s\<lparr>rs_availableBuffers := bs, rs_requestBuffers := reqs\<rparr>) b of
             None \<Rightarrow> None
           | Some (s, ret) \<Rightarrow> return_loop K h reqs s))"
| "return_loop K h (Some b # reqs) s =
     (case RpiStream_queueToDevice K h (s\<lparr>rs_requestBuffers := reqs\<rparr>) b of
        None \<Rightarrow> None
      | Some (s, ret) \<Rightarrow> return_loop K h reqs s)"

definition RpiStream_returnBuffer ::
    "'k v4l2_kernel \<Rightarrow> 'a heap_scheme \<Rightarrow> 'k RpiStream \<Rightarrow> nat \<Rightarrow> 'k RpiStream option" where
  "RpiStream_returnBuffer K h s buffer =
     (if \<not> rs_external s then None
      else
        let s = s\<lparr>rs_availableBuffers := rs_availableBuffers s @ [buffer]\<rparr>;
            s = s\<lparr>rs_id := IdGenerator_release (rs_id s) (RpiStream_getBufferId s buffer)\<rparr>
        in return_loop K h (rs_requestBuffers s) s)"

text \<open>The loop of \<open>queueAllBuffers\<close>; a buffer that the device refuses stays at the front of the queue.\<close>

fun queue_all_loop ::
    "'k v4l2_kernel \<Rightarrow> 'a heap_scheme \<Rightarrow> nat list \<Rightarrow> 'k RpiStream \<Rightarrow> ('k RpiStream \<times> errno option) option" where
  "queue_all_loop K h [] s = Some (s, None)"
| "queue_all_loop K h (b # bs) s =
     (case RpiStream_queueBuffer K h s (Some b) of
        None \<Rightarrow> None
      | Some (s, Some e) \<Rightarrow> Some (s, Some e)
      | Some (s, None) \<Rightarrow> queue_all_loop K h bs (s\<lparr>rs_availableBuffers := bs\<rparr>))"

definition RpiStream_queueAllBuffers ::
    "'k v4l2_kernel \<Rightarrow> 'a heap_scheme \<Rightarrow> 'k RpiStream \<Rightarrow> ('k RpiStream \<times> errno option) option" where
  "RpiStream_queueAllBuffers K h s =
     (if rs_external s then Some (s, None) else queue_all_loop K h (rs_availableBuffers s) s)"

definition RpiStream_releaseBuffers :: "'k v4l2_kernel \<Rightarrow> 'k RpiStream \<Rightarrow> 'k RpiStream" where
  "RpiStream_releaseBuffers K s =
     (case V4L2VideoDevice_releaseBuffers K (rs_kernel s) (rs_dev s) of
        (k, dev, _) \<Rightarrow> RpiStream_clearBuffers (s\<lparr>rs_kernel := k, rs_dev := dev\<rparr>))"

section \<open>Lemmas\<close>

text \<open>
  What a stream promises: the waiting requests are served from the head, a request for any buffer by
  the first available one. The result is the buffers to queue, and what is still available and waiting.
\<close>

fun serve :: "'b list \<Rightarrow> 'b option list \<Rightarrow> 'b list \<times> 'b list \<times> 'b option list" where
  "serve avail [] = ([], avail, [])"
| "serve [] (None # reqs) = ([], [], None # reqs)"
| "serve (b # avail) (None # reqs) = (let (out, av, wait) = serve avail reqs in (b # out, av, wait))"
| "serve avail (Some b # reqs) = (let (out, av, wait) = serve avail reqs in (b # out, av, wait))"

definition stuck :: "'b list \<Rightarrow> 'b option list \<Rightarrow> bool" where
  "stuck avail reqs \<longleftrightarrow> reqs = [] \<or> (avail = [] \<and> hd reqs = None)"

lemma stuck_simps [simp]:
  "stuck avail []" "stuck [] (None # reqs)" "stuck avail (Some b # reqs) = False"
  "stuck (b # avail) (r # reqs) = False"
  by (simp_all add: stuck_def)

lemma serve_stuck: "stuck avail reqs \<Longrightarrow> serve avail reqs = ([], avail, reqs)"
  by (cases reqs) (auto simp: stuck_def)

lemma stuck_serve: "serve avail reqs = (out, av, wait) \<Longrightarrow> stuck av wait"
  by (induction avail reqs arbitrary: out rule: serve.induct) (auto split: prod.splits)

lemma serve_append:
  "serve avail reqs = (out, av, wait) \<Longrightarrow> serve (av @ as) (wait @ rs) = (out', av', wait') \<Longrightarrow>
   serve (avail @ as) (reqs @ rs) = (out @ out', av', wait')"
  by (induction avail reqs arbitrary: out rule: serve.induct) (auto split: prod.splits)

text \<open>The buffers that are named, in requests or as available, are the ones that come out or stay.\<close>

definition named :: "'b option list \<Rightarrow> 'b list" where
  "named reqs = concat (map (\<lambda>r. case r of None \<Rightarrow> [] | Some b \<Rightarrow> [b]) reqs)"

lemma named_simps [simp]: "named [] = []" "named (None # rs) = named rs" "named (Some b # rs) = b # named rs"
  "named (rs @ rs') = named rs @ named rs'"
  by (simp_all add: named_def)

lemma serve_mset:
  "serve avail reqs = (out, av, wait) \<Longrightarrow> mset out + mset av + mset (named wait) = mset avail + mset (named reqs)"
  by (induction avail reqs arbitrary: out rule: serve.induct) (auto split: prod.splits simp: ac_simps)

text \<open>Queueing buffers to the device one after the other, whatever the device answers.\<close>

fun device_all ::
    "'k v4l2_kernel \<Rightarrow> 'a heap_scheme \<Rightarrow> nat list \<Rightarrow> 'k \<times> V4L2VideoDevice \<Rightarrow> ('k \<times> V4L2VideoDevice) option" where
  "device_all K h [] d = Some d"
| "device_all K h (b # bs) d =
     (case V4L2VideoDevice_queueBuffer K (fst d) (snd d) h b of
        None \<Rightarrow> None
      | Some (k, dev, ret) \<Rightarrow> device_all K h bs (k, dev))"

definition device_of :: "'k RpiStream \<Rightarrow> 'k \<times> V4L2VideoDevice" where
  "device_of s = (rs_kernel s, rs_dev s)"

definition queues_of :: "'k RpiStream \<Rightarrow> nat list \<times> nat option list" where
  "queues_of s = (rs_availableBuffers s, rs_requestBuffers s)"

text \<open>What queueing and returning buffers does not change.\<close>

definition same_stream :: "'k RpiStream \<Rightarrow> 'k RpiStream \<Rightarrow> bool" where
  "same_stream s s' \<longleftrightarrow> rs_external s' = rs_external s \<and> rs_importOnly s' = rs_importOnly s \<and>
     rs_bufferMap s' = rs_bufferMap s \<and> rs_internalBuffers s' = rs_internalBuffers s"

lemma same_stream_refl [simp]: "same_stream s s"
  by (simp add: same_stream_def)

lemma same_stream_trans: "same_stream s s' \<Longrightarrow> same_stream s' s'' \<Longrightarrow> same_stream s s''"
  by (simp add: same_stream_def)

lemma queueToDevice_effect:
  assumes "RpiStream_queueToDevice K h s b = Some (s', r)"
  shows "device_all K h [b] (device_of s) = Some (device_of s')" "queues_of s' = queues_of s"
    "same_stream s s'" "rs_id s' = rs_id s"
  using assms
  by (auto simp: RpiStream_queueToDevice_def device_of_def queues_of_def same_stream_def split: option.splits prod.splits)

lemma return_loop_serves:
  assumes "return_loop K h reqs s = Some s'" "rs_requestBuffers s = reqs"
    and "serve (rs_availableBuffers s) reqs = (out, av, wait)"
  shows "device_all K h out (device_of s) = Some (device_of s') \<and> queues_of s' = (av, wait) \<and>
    same_stream s s' \<and> rs_id s' = rs_id s"
  using assms
proof (induction K h reqs s arbitrary: out rule: return_loop.induct)
  case (1 K h s)
  then show ?case by (simp add: queues_of_def)
next
  case (2 K h reqs s)
  show ?case
  proof (cases "rs_availableBuffers s")
    case Nil
    with 2 show ?thesis by (auto simp: queues_of_def)
  next
    case (Cons b bs)
    let ?s = "s\<lparr>rs_availableBuffers := bs, rs_requestBuffers := reqs\<rparr>"
    obtain s1 r where q: "RpiStream_queueToDevice K h ?s b = Some (s1, r)" and l: "return_loop K h reqs s1 = Some s'"
      using 2(2) Cons by (auto split: option.splits prod.splits)
    note e = queueToDevice_effect [OF q]
    have a: "rs_availableBuffers s1 = bs" "rs_requestBuffers s1 = reqs" using e(2) by (simp_all add: queues_of_def)
    obtain out' where o: "serve bs reqs = (out', av, wait)" "out = b # out'"
      using 2(4) Cons by (auto split: prod.splits)
    have ih: "device_all K h out' (device_of s1) = Some (device_of s') \<and> queues_of s' = (av, wait) \<and>
      same_stream s1 s' \<and> rs_id s' = rs_id s1"
      using 2(1) [OF Cons q refl l a(2)] o(1) a(1) by simp
    show ?thesis using ih e o(2)
      by (auto simp: device_of_def same_stream_def split: option.splits prod.splits)
  qed
next
  case (3 K h b reqs s)
  let ?s = "s\<lparr>rs_requestBuffers := reqs\<rparr>"
  obtain s1 r where q: "RpiStream_queueToDevice K h ?s b = Some (s1, r)" and l: "return_loop K h reqs s1 = Some s'"
    using 3(2) by (auto split: option.splits prod.splits)
  note e = queueToDevice_effect [OF q]
  have a: "rs_availableBuffers s1 = rs_availableBuffers s" "rs_requestBuffers s1 = reqs"
    using e(2) by (simp_all add: queues_of_def)
  obtain out' where o: "serve (rs_availableBuffers s) reqs = (out', av, wait)" "out = b # out'"
    using 3(4) by (auto split: prod.splits)
  have ih: "device_all K h out' (device_of s1) = Some (device_of s') \<and> queues_of s' = (av, wait) \<and>
    same_stream s1 s' \<and> rs_id s' = rs_id s1"
    using 3(1) [OF q refl l a(2)] o(1) a(1) by simp
  show ?case using ih e o(2)
    by (auto simp: device_of_def same_stream_def split: option.splits prod.splits)
qed


lemma queueBuffer_serves:
  assumes "RpiStream_queueBuffer K h s r = Some (s', ret)" "stuck (rs_availableBuffers s) (rs_requestBuffers s)"
    and "serve (rs_availableBuffers s) (rs_requestBuffers s @ [r]) = (out, av, wait)"
  shows "device_all K h out (device_of s) = Some (device_of s') \<and> queues_of s' = (av, wait) \<and>
    same_stream s s' \<and> rs_id s' = rs_id s"
proof -
  have sv: "serve (rs_availableBuffers s) (rs_requestBuffers s) = ([], rs_availableBuffers s, rs_requestBuffers s)"
    using assms(2) by (rule serve_stuck)
  show ?thesis
  proof (cases "rs_requestBuffers s")
    case Nil
    show ?thesis
    proof (cases r)
      case None
      then show ?thesis using assms Nil
        by (cases "rs_availableBuffers s")
          (auto simp: RpiStream_queueBuffer_def queue_or_wait_def RpiStream_queueToDevice_def queues_of_def device_of_def
            same_stream_def split: option.splits prod.splits)
    next
      case (Some b)
      then show ?thesis using assms Nil
        by (auto simp: RpiStream_queueBuffer_def queue_or_wait_def RpiStream_queueToDevice_def queues_of_def device_of_def
            same_stream_def split: option.splits prod.splits)
    qed
  next
    case (Cons q reqs)
    with assms(2) have a: "rs_availableBuffers s = []" "q = None" by (auto simp: stuck_def)
    from assms(3) Cons a have o: "out = []" "av = []" "wait = rs_requestBuffers s @ [r]" by auto
    from assms(1) Cons a o show ?thesis
      by (auto simp: RpiStream_queueBuffer_def queue_or_wait_def queues_of_def device_of_def same_stream_def
          split: option.splits)
  qed
qed

lemma returnBuffer_serves:
  assumes "RpiStream_returnBuffer K h s b = Some s'"
    and "serve (rs_availableBuffers s @ [b]) (rs_requestBuffers s) = (out, av, wait)"
  shows "device_all K h out (device_of s) = Some (device_of s') \<and> queues_of s' = (av, wait) \<and>
    same_stream s s' \<and> rs_id s' = IdGenerator_release (rs_id s) (RpiStream_getBufferId s b) \<and> rs_external s"
proof -
  let ?s = "s\<lparr>rs_availableBuffers := rs_availableBuffers s @ [b],
    rs_id := IdGenerator_release (rs_id s) (RpiStream_getBufferId s b)\<rparr>"
  have l: "return_loop K h (rs_requestBuffers s) ?s = Some s'" and e: "rs_external s"
    using assms(1) by (auto simp: RpiStream_returnBuffer_def RpiStream_getBufferId_def split: if_splits)
  from return_loop_serves [OF l, of out av wait] assms(2) e show ?thesis
    by (simp add: device_of_def same_stream_def)
qed

section \<open>Requests are served in order\<close>

text \<open>
  The calls that change an external stream while it runs, in any order: a buffer is queued for a request,
  or any buffer is asked for; a buffer comes back; the device hands a buffer out.
\<close>

datatype stream_call = QueueBuffer "nat option" | ReturnBuffer nat | DequeueBuffer

fun stream_run ::
    "'k v4l2_kernel \<Rightarrow> stream_call list \<Rightarrow> 'k RpiStream \<times> 'a heap_scheme \<Rightarrow> ('k RpiStream \<times> 'a heap_scheme) option" where
  "stream_run K [] (s, h) = Some (s, h)"
| "stream_run K (QueueBuffer r # cs) (s, h) =
     (case RpiStream_queueBuffer K h s r of None \<Rightarrow> None | Some (s, ret) \<Rightarrow> stream_run K cs (s, h))"
| "stream_run K (ReturnBuffer b # cs) (s, h) =
     (case RpiStream_returnBuffer K h s b of None \<Rightarrow> None | Some s \<Rightarrow> stream_run K cs (s, h))"
| "stream_run K (DequeueBuffer # cs) (s, h) =
     (case V4L2VideoDevice_dequeueBuffer K (rs_kernel s) (rs_dev s) h of
        None \<Rightarrow> None
      | Some (k, dev, h, b) \<Rightarrow> stream_run K cs (s\<lparr>rs_kernel := k, rs_dev := dev\<rparr>, h))"

definition requested :: "stream_call list \<Rightarrow> nat option list" where
  "requested cs = concat (map (\<lambda>c. case c of QueueBuffer r \<Rightarrow> [r] | _ \<Rightarrow> []) cs)"

definition returned :: "stream_call list \<Rightarrow> nat list" where
  "returned cs = concat (map (\<lambda>c. case c of ReturnBuffer b \<Rightarrow> [b] | _ \<Rightarrow> []) cs)"

text \<open>What the device sees: buffers queued and buffers handed out.\<close>

datatype device_call = DevQueue nat | DevDequeue

fun device_run ::
    "'k v4l2_kernel \<Rightarrow> device_call list \<Rightarrow> ('k \<times> V4L2VideoDevice) \<times> 'a heap_scheme
      \<Rightarrow> (('k \<times> V4L2VideoDevice) \<times> 'a heap_scheme) option" where
  "device_run K [] dh = Some dh"
| "device_run K (DevQueue b # cs) dh =
     (case V4L2VideoDevice_queueBuffer K (fst (fst dh)) (snd (fst dh)) (snd dh) b of
        None \<Rightarrow> None | Some (k, dev, ret) \<Rightarrow> device_run K cs ((k, dev), snd dh))"
| "device_run K (DevDequeue # cs) dh =
     (case V4L2VideoDevice_dequeueBuffer K (fst (fst dh)) (snd (fst dh)) (snd dh) of
        None \<Rightarrow> None | Some (k, dev, h, b) \<Rightarrow> device_run K cs ((k, dev), h))"

definition queued_in :: "device_call list \<Rightarrow> nat list" where
  "queued_in cs = concat (map (\<lambda>c. case c of DevQueue b \<Rightarrow> [b] | DevDequeue \<Rightarrow> []) cs)"

lemma call_lists [simp]:
  "requested [] = []" "requested (QueueBuffer r # cs) = r # requested cs"
  "requested (ReturnBuffer b # cs) = requested cs" "requested (DequeueBuffer # cs) = requested cs"
  "returned [] = []" "returned (QueueBuffer r # cs) = returned cs"
  "returned (ReturnBuffer b # cs) = b # returned cs" "returned (DequeueBuffer # cs) = returned cs"
  "queued_in [] = []" "queued_in (DevQueue b # ds) = b # queued_in ds" "queued_in (DevDequeue # ds) = queued_in ds"
  "queued_in (ds @ ds') = queued_in ds @ queued_in ds'" "queued_in (map DevQueue bs) = bs"
  by (simp_all add: requested_def returned_def queued_in_def) (induction bs; simp)

lemma device_run_queues:
  "device_all K h bs d = Some d' \<Longrightarrow> device_run K (map DevQueue bs @ ds) (d, h) = device_run K ds (d', h)"
  by (induction bs arbitrary: d) (auto split: option.splits)

lemma stream_run_serves:
  assumes "stream_run K cs (s, h) = Some (s', h')" "stuck (rs_availableBuffers s) (rs_requestBuffers s)"
    and "serve (rs_availableBuffers s @ returned cs) (rs_requestBuffers s @ requested cs) = (out, av, wait)"
  shows "\<exists>ds. device_run K ds (device_of s, h) = Some (device_of s', h') \<and> queued_in ds = out \<and>
    queues_of s' = (av, wait) \<and> same_stream s s'"
  using assms
proof (induction cs arbitrary: s h out)
  case Nil
  then show ?case using serve_stuck [OF Nil(2)] by (intro exI [of _ "[]"]) (auto simp: queues_of_def)
next
  case (Cons c cs)
  show ?case
  proof (cases c)
    case (QueueBuffer r)
    obtain s1 ret where q: "RpiStream_queueBuffer K h s r = Some (s1, ret)" and l: "stream_run K cs (s1, h) = Some (s', h')"
      using Cons.prems(1) QueueBuffer by (auto split: option.splits)
    obtain o1 av1 w1 where sv: "serve (rs_availableBuffers s) (rs_requestBuffers s @ [r]) = (o1, av1, w1)"
      by (metis prod_cases3)
    note e = queueBuffer_serves [OF q Cons.prems(2) sv]
    then have qs: "rs_availableBuffers s1 = av1" "rs_requestBuffers s1 = w1" by (simp_all add: queues_of_def)
    obtain o2 av2 w2 where sv2: "serve (av1 @ returned cs) (w1 @ requested cs) = (o2, av2, w2)"
      by (metis prod_cases3)
    from serve_append [OF sv sv2] Cons.prems(3) QueueBuffer have eq: "out = o1 @ o2" "av = av2" "wait = w2" by simp_all
    from Cons.IH [OF l] stuck_serve [OF sv] sv2 qs eq obtain ds where
      ds: "device_run K ds (device_of s1, h) = Some (device_of s', h')" "queued_in ds = o2"
        "queues_of s' = (av, wait)" "same_stream s1 s'" by auto
    show ?thesis using ds e eq device_run_queues [of K h o1 "device_of s" "device_of s1" ds]
      by (intro exI [of _ "map DevQueue o1 @ ds"]) (auto intro: same_stream_trans)
  next
    case (ReturnBuffer b)
    obtain s1 where q: "RpiStream_returnBuffer K h s b = Some s1" and l: "stream_run K cs (s1, h) = Some (s', h')"
      using Cons.prems(1) ReturnBuffer by (auto split: option.splits)
    obtain o1 av1 w1 where sv: "serve (rs_availableBuffers s @ [b]) (rs_requestBuffers s) = (o1, av1, w1)"
      by (metis prod_cases3)
    note e = returnBuffer_serves [OF q sv]
    then have qs: "rs_availableBuffers s1 = av1" "rs_requestBuffers s1 = w1" by (simp_all add: queues_of_def)
    obtain o2 av2 w2 where sv2: "serve (av1 @ returned cs) (w1 @ requested cs) = (o2, av2, w2)"
      by (metis prod_cases3)
    from serve_append [OF sv sv2] Cons.prems(3) ReturnBuffer have eq: "out = o1 @ o2" "av = av2" "wait = w2" by simp_all
    from Cons.IH [OF l] stuck_serve [OF sv] sv2 qs eq obtain ds where
      ds: "device_run K ds (device_of s1, h) = Some (device_of s', h')" "queued_in ds = o2"
        "queues_of s' = (av, wait)" "same_stream s1 s'" by auto
    show ?thesis using ds e eq device_run_queues [of K h o1 "device_of s" "device_of s1" ds]
      by (intro exI [of _ "map DevQueue o1 @ ds"]) (auto intro: same_stream_trans)
  next
    case DequeueBuffer
    obtain k dev h1 b where q: "V4L2VideoDevice_dequeueBuffer K (rs_kernel s) (rs_dev s) h = Some (k, dev, h1, b)"
      and l: "stream_run K cs (s\<lparr>rs_kernel := k, rs_dev := dev\<rparr>, h1) = Some (s', h')"
      using Cons.prems(1) DequeueBuffer by (auto split: option.splits)
    from Cons.IH [OF l] Cons.prems(2,3) DequeueBuffer obtain ds where
      "device_run K ds ((k, dev), h1) = Some (device_of s', h')" "queued_in ds = out"
        "queues_of s' = (av, wait)" "same_stream s s'" by (auto simp: device_of_def same_stream_def)
    with q show ?thesis by (intro exI [of _ "DevDequeue # ds"]) (simp add: device_of_def)
  qed
qed

section \<open>Identifiers of buffers\<close>

definition keys_ok :: "'k RpiStream \<Rightarrow> bool" where
  "keys_ok s \<longleftrightarrow> distinct (map fst (rs_bufferMap s))"

lemma find_buffer_map_of: "distinct (map fst m) \<Longrightarrow> find_buffer b m = Some k \<Longrightarrow> map_of m k = Some b"
  by (induction m) (auto split: if_splits dest: map_of_SomeD simp: rev_image_eqI)

lemma find_buffer_None: "find_buffer b m = None \<longleftrightarrow> b \<notin> snd ` set m"
  by (induction m) (auto simp: image_iff split: if_splits)

lemma find_buffer_append: "find_buffer b (m @ m') = (case find_buffer b m of None \<Rightarrow> find_buffer b m' | Some k \<Rightarrow> Some k)"
  by (induction m) auto

lemma distinct_emplace: "distinct (map fst m) \<Longrightarrow> distinct (map fst (emplace k b m))"
  by (auto simp: emplace_def map_of_eq_None_iff)

lemma distinct_map_erase: "distinct (map fst m) \<Longrightarrow> distinct (map fst (map_erase k m))"
  by (induction m) (auto simp: map_erase_def)

lemma keys_ok_ops:
  "keys_ok (RpiStream_clearBuffers s)"
  "keys_ok s \<Longrightarrow> RpiStream_setExternalBuffer s b = Some s' \<Longrightarrow> keys_ok s'"
  "keys_ok s \<Longrightarrow> RpiStream_removeExternalBuffer s b = Some s' \<Longrightarrow> keys_ok s'"
  "keys_ok s \<Longrightarrow> same_stream s s' \<Longrightarrow> keys_ok s'"
  by (auto simp: keys_ok_def RpiStream_clearBuffers_def RpiStream_setExternalBuffer_def
      RpiStream_removeExternalBuffer_def same_stream_def Let_def distinct_emplace distinct_map_erase
      split: option.splits if_splits)

lemma keys_ok_setExported: "RpiStream_setExportedBuffers bs s = Some s' \<Longrightarrow> keys_ok s \<Longrightarrow> keys_ok s'"
  by (induction bs s rule: RpiStream_setExportedBuffers.induct)
    (auto simp: keys_ok_def distinct_emplace split: option.splits)

lemma getBufferId_same: "same_stream s s' \<Longrightarrow> RpiStream_getBufferId s' b = RpiStream_getBufferId s b"
  by (simp add: RpiStream_getBufferId_def same_stream_def)

lemma stream_run_ids:
  assumes "stream_run K cs (s, h) = Some (s', h')" "stuck (rs_availableBuffers s) (rs_requestBuffers s)"
  shows "rs_id s' = (rs_id s)\<lparr>ig_recycle := ig_recycle (rs_id s) @ map (RpiStream_getBufferId s) (returned cs)\<rparr> \<and>
    same_stream s s'"
  using assms
proof (induction cs arbitrary: s h)
  case (Cons c cs)
  show ?case
  proof (cases c)
    case (QueueBuffer r)
    obtain s1 ret where q: "RpiStream_queueBuffer K h s r = Some (s1, ret)" and l: "stream_run K cs (s1, h) = Some (s', h')"
      using Cons.prems(1) QueueBuffer by (auto split: option.splits)
    obtain o1 av1 w1 where sv: "serve (rs_availableBuffers s) (rs_requestBuffers s @ [r]) = (o1, av1, w1)"
      by (metis prod_cases3)
    note e = queueBuffer_serves [OF q Cons.prems(2) sv]
    have "stuck (rs_availableBuffers s1) (rs_requestBuffers s1)"
      using e stuck_serve [OF sv] by (simp add: queues_of_def)
    from Cons.IH [OF l this] e QueueBuffer show ?thesis
      by (auto simp: getBufferId_same intro: same_stream_trans)
  next
    case (ReturnBuffer b)
    obtain s1 where q: "RpiStream_returnBuffer K h s b = Some s1" and l: "stream_run K cs (s1, h) = Some (s', h')"
      using Cons.prems(1) ReturnBuffer by (auto split: option.splits)
    obtain o1 av1 w1 where sv: "serve (rs_availableBuffers s @ [b]) (rs_requestBuffers s) = (o1, av1, w1)"
      by (metis prod_cases3)
    note e = returnBuffer_serves [OF q sv]
    have "stuck (rs_availableBuffers s1) (rs_requestBuffers s1)"
      using e stuck_serve [OF sv] by (simp add: queues_of_def)
    from Cons.IH [OF l this] e ReturnBuffer show ?thesis
      by (auto simp: getBufferId_same IdGenerator_release_def intro: same_stream_trans)
  next
    case DequeueBuffer
    obtain k dev h1 b where "stream_run K cs (s\<lparr>rs_kernel := k, rs_dev := dev\<rparr>, h1) = Some (s', h')"
      using Cons.prems(1) DequeueBuffer by (auto split: option.splits)
    from Cons.IH [OF this] Cons.prems(2) DequeueBuffer show ?thesis
      by (simp add: same_stream_def RpiStream_getBufferId_def)
  qed
qed simp

section \<open>Properties\<close>

text \<open>An external stream with two buffers of its own over the driver of the examples.\<close>

definition example_stream :: "u32 list RpiStream" where
  "example_stream =
     \<lparr>rs_external = True, rs_importOnly = False, rs_name = ''ISP Output0'',
      rs_dev = example_video\<lparr>vd_cache := Some (V4L2BufferCache_new 4), vd_queuedBuffers := []\<rparr>,
      rs_kernel = [], rs_id = (IdGenerator_new MaskID)\<lparr>ig_id := 1\<rparr>, rs_bufferMap = [(0, 3)],
      rs_availableBuffers = [3], rs_requestBuffers = [], rs_internalBuffers = [3]\<rparr>"

text \<open>
  C34. An external stream serves requests in the order in which they were queued, whatever the interleaving
  with buffers that come back and with the device: the buffers it hands to the device, and what is still
  available and waiting, are those of serving all requests from all buffers that were ever available. No
  buffer is lost or used twice.
\<close>

theorem stream_serves_in_order:
  assumes "stream_run K cs (s, h) = Some (s', h')" "stuck (rs_availableBuffers s) (rs_requestBuffers s)"
    and "serve (rs_availableBuffers s @ returned cs) (rs_requestBuffers s @ requested cs) = (out, av, wait)"
  shows "\<exists>ds. device_run K ds ((rs_kernel s, rs_dev s), h) = Some ((rs_kernel s', rs_dev s'), h') \<and>
    queued_in ds = out \<and> rs_availableBuffers s' = av \<and> rs_requestBuffers s' = wait \<and>
    mset (queued_in ds) + mset (rs_availableBuffers s') + mset (named (rs_requestBuffers s')) =
      mset (rs_availableBuffers s @ returned cs) + mset (named (rs_requestBuffers s @ requested cs))"
  using stream_run_serves [OF assms] serve_mset [OF assms(3)] by (auto simp: device_of_def queues_of_def)

lemma example_stream_run:
  "\<exists>s' h'. stream_run example_kernel
     [QueueBuffer None, QueueBuffer None, QueueBuffer (Some 9), DequeueBuffer, ReturnBuffer 3] (example_stream, example_heap)
     = Some (s', h')"
proof -
  have "stream_run example_kernel
     [QueueBuffer None, QueueBuffer None, QueueBuffer (Some 9), DequeueBuffer, ReturnBuffer 3] (example_stream, example_heap)
     \<noteq> None" by code_simp
  then show ?thesis by auto
qed

theorem stream_serves_in_order_witness:
  "\<exists>ds h'. \<exists>s' :: u32 list RpiStream. device_run example_kernel ds ((rs_kernel example_stream, rs_dev example_stream), example_heap)
      = Some ((rs_kernel s', rs_dev s'), h') \<and> queued_in ds = [3, 3, 9] \<and> rs_requestBuffers s' = []"
proof -
  obtain s' h' where r: "stream_run example_kernel
     [QueueBuffer None, QueueBuffer None, QueueBuffer (Some 9), DequeueBuffer, ReturnBuffer 3] (example_stream, example_heap)
     = Some (s', h')" using example_stream_run by blast
  have st: "stuck (rs_availableBuffers example_stream) (rs_requestBuffers example_stream)"
    and sv: "serve (rs_availableBuffers example_stream @ returned [QueueBuffer None, QueueBuffer None,
      QueueBuffer (Some 9), DequeueBuffer, ReturnBuffer 3]) (rs_requestBuffers example_stream @
      requested [QueueBuffer None, QueueBuffer None, QueueBuffer (Some 9), DequeueBuffer, ReturnBuffer 3])
      = ([3, 3, 9], [], [])" by (simp_all add: example_stream_def)
  from stream_serves_in_order [OF r st sv] show ?thesis by blast
qed

text \<open>
  C35. The identifier of an internal buffer is released when the buffer comes back, but the buffer keeps it in the
  map. When the buffer has come back twice, the next two buffers that the application brings get the same
  identifier, and the second is not tracked: the stream does not know it when the device returns it.
\<close>

theorem recycled_identifier_shared:
  assumes "stream_run K cs (s, h) = Some (s', h')" "stuck (rs_availableBuffers s) (rs_requestBuffers s)"
    and "keys_ok s" "ig_recycle (rs_id s) = []" "returned cs = b # b # bs"
    and "\<not> rs_importOnly s" "find_buffer b (rs_bufferMap s) = Some i"
    and "x \<notin> snd ` set (rs_bufferMap s)" "y \<notin> snd ` set (rs_bufferMap s)" "x \<noteq> y"
    and "map_of (rs_bufferMap s) (or MaskExternalBuffer i) = None"
    and "RpiStream_setExternalBuffer s' x = Some s1" "RpiStream_setExternalBuffer s1 y = Some s2"
  shows "RpiStream_getBufferId s2 x = or MaskExternalBuffer i \<and> RpiStream_getBufferId s2 y = - 1 \<and>
    map_of (rs_bufferMap s2) i = Some b"
proof -
  have i: "RpiStream_getBufferId s b = i" using assms(6,7) by (simp add: RpiStream_getBufferId_def)
  have s': "ig_recycle (rs_id s') = i # i # map (RpiStream_getBufferId s) bs" "same_stream s s'"
    using stream_run_ids [OF assms(1,2)] assms(4,5) i by simp_all
  let ?m = "rs_bufferMap s @ [(or MaskExternalBuffer i, x)]"
  have s1: "rs_bufferMap s1 = ?m" "ig_recycle (rs_id s1) = i # map (RpiStream_getBufferId s) bs" "rs_importOnly s1 = rs_importOnly s"
    using assms(12,11) s' by (auto simp: RpiStream_setExternalBuffer_def IdGenerator_get_def emplace_def same_stream_def)
  have s2: "rs_bufferMap s2 = ?m" "rs_importOnly s2 = rs_importOnly s"
    using assms(13) s1 by (auto simp: RpiStream_setExternalBuffer_def IdGenerator_get_def emplace_def split: option.splits)
  have fx: "find_buffer x (rs_bufferMap s) = None" "find_buffer y (rs_bufferMap s) = None"
    using assms(8,9) by (simp_all add: find_buffer_None)
  have "map_of ?m i = Some b"
    using find_buffer_map_of [OF _ assms(7)] assms(3) by (simp add: keys_ok_def map_add_def)
  then show ?thesis
    using fx assms(6,10) by (auto simp: RpiStream_getBufferId_def s2 find_buffer_append)
qed


theorem recycled_identifier_shared_witness:
  "\<exists>s s1 s2 :: u32 list RpiStream. RpiStream_setExternalBuffer s 20 = Some s1 \<and> RpiStream_setExternalBuffer s1 21 = Some s2 \<and>
     RpiStream_getBufferId s2 20 = 0x100000 \<and> RpiStream_getBufferId s2 21 = - 1"
proof -
  let ?cs = "[QueueBuffer None, DequeueBuffer, ReturnBuffer 3, QueueBuffer None, DequeueBuffer, ReturnBuffer 3]"
  have "(case stream_run example_kernel ?cs (example_stream, example_heap) of None \<Rightarrow> False
      | Some (s, h) \<Rightarrow> (case RpiStream_setExternalBuffer s 20 of None \<Rightarrow> False
          | Some s1 \<Rightarrow> RpiStream_setExternalBuffer s1 21 \<noteq> None))"
    by code_simp
  then obtain s h s1 s2 where r: "stream_run example_kernel ?cs (example_stream, example_heap) = Some (s, h)"
    "RpiStream_setExternalBuffer s 20 = Some s1" "RpiStream_setExternalBuffer s1 21 = Some s2"
    by (auto simp del: stream_run.simps split: option.split_asm prod.split_asm)
  have "RpiStream_getBufferId s2 20 = or MaskExternalBuffer 0 \<and> RpiStream_getBufferId s2 21 = - 1 \<and>
    map_of (rs_bufferMap s2) 0 = Some 3"
    by (rule recycled_identifier_shared [OF r(1), of 3 "[]" 0 20 21, OF _ _ _ _ _ _ _ _ _ _ r(2,3)])
      (simp_all add: example_stream_def IdGenerator_new_def keys_ok_def MaskExternalBuffer_def)
  with r show ?thesis by (auto simp: MaskExternalBuffer_def)
qed


end
