(* ===== verification/Raspberrypi.thy ===== *)
theory Raspberrypi
  imports RpiStream Camera DelayedControls "HOL-Library.Monad_Syntax"
begin

text \<open>
  The Raspberry Pi pipeline handler while it runs, \<open>pipeline/raspberrypi/raspberrypi.cpp\<close>: frames come from the
  sensor through Unicam, the image processing algorithms (the IPA, another thread) are told about them and
  start the ISP, whose outputs complete a request. Calls to the IPA are asynchronous: they are appended to
  \<open>rd_ipaCalls\<close>, and the signals of the IPA are operations that may come at any time. An assertion that fails, an
  exception and undefined behaviour are \<open>None\<close>; log messages are left out. The streams that are always there are
  indexed by \<open>rpi_stream\<close>; each has a device and the state of its driver.
\<close>

section \<open>Data\<close>

datatype rpi_stream = UnicamImage | UnicamEmbedded | IspInput | IspOutput0 | IspOutput1 | IspStats

definition MaskStats :: u32 where "MaskStats = 0x10000"
definition MaskEmbeddedData :: u32 where "MaskEmbeddedData = 0x20000"
definition MaskBayerData :: u32 where "MaskBayerData = 0x40000"

datatype rpi_state = RpiStopped | RpiIdle | RpiBusy | RpiIpaComplete

record BayerFrame =
  bf_buffer :: nat
  bf_controls :: ControlList

text \<open>The parts of the sensor's description that the code reads.\<close>

record CameraSensorInfo =
  si_analogCrop :: Rectangle
  si_outputSize :: Size

text \<open>The calls to the IPA. \<open>IpaIspPrepare\<close> has the bayer buffer, the embedded data buffer if any, and controls.\<close>

datatype ipa_call =
    IpaStart ControlList
  | IpaStop
  | IpaMapBuffers "(u32 \<times> Plane list) list"
  | IpaUnmapBuffers "u32 list"
  | IpaQueueRequest ControlList
  | IpaIspPrepare u32 "u32 option" ControlList
  | IpaStatReady u32

record 'k RPiCameraData = CameraData +
  rd_streams :: "rpi_stream \<Rightarrow> 'k RpiStream"
  rd_unicamControls :: V4L2Device
  rd_ispControls :: V4L2Device
  rd_delayed :: DelayedControls
  rd_sensorMetadata :: bool
  rd_state :: rpi_state
  rd_bayerQueue :: "BayerFrame list"
  rd_embeddedQueue :: "nat list"
  rd_requestQueue :: "nat list"
  rd_sensorInfo :: CameraSensorInfo
  rd_ispCrop :: Rectangle
  rd_scalerCrop :: Rectangle
  rd_updateScalerCrop :: bool
  rd_ispMinCropSize :: Size
  rd_dropFrameCount :: u32
  rd_ispOutputCount :: u32
  rd_ipaBuffers :: "u32 list"
  rd_lsTable :: i32
  rd_ipaCalls :: "ipa_call list"

type_synonym ('k, 'z) rpi_system = "('k RPiCameraData, 'z) system_scheme"

text \<open>
  What comes from outside: the drivers, the addresses of the stream objects and of exported buffers, the
  contents of fresh memory, the identifier of the crop control, the ioctl that sets a selection, the formats
  that go from the sensor to the ISP at start, and what the IPA answers when it is started.
\<close>

record 'k rpi_env =
  re_driver :: "rpi_stream \<Rightarrow> 'k v4l2_kernel"
  re_controls :: "'k ctrl_kernel"
  re_address :: "rpi_stream \<Rightarrow> nat"
  re_place :: "rpi_stream \<Rightarrow> nat \<Rightarrow> nat"
  re_junk :: "nat \<Rightarrow> u8"
  re_ScalerCrop :: u32
  re_lensShading :: u32
  re_setSelection :: "'k \<Rightarrow> Rectangle \<Rightarrow> 'k \<times> Rectangle result"
  re_ispFormat :: "'k \<Rightarrow> 'k \<Rightarrow> 'k \<times> 'k \<times> errno option"
  re_ipaStart :: "ControlList \<Rightarrow> ControlList \<times> u32"

definition isp_streams :: "rpi_stream list" where
  "isp_streams = [IspInput, IspOutput0, IspOutput1, IspStats]"

definition rpi_streams :: "'k RPiCameraData \<Rightarrow> rpi_stream list" where
  "rpi_streams d = UnicamImage # (if rd_sensorMetadata d then [UnicamEmbedded] else []) @ isp_streams"

section \<open>Access to the data\<close>

definition set_stream :: "('k, 'z) rpi_system \<Rightarrow> nat \<Rightarrow> rpi_stream \<Rightarrow> 'k RpiStream \<Rightarrow> ('k, 'z) rpi_system option" where
  "set_stream w c x s =
     do { d \<leftarrow> cameraData w c;
          Some (set_cameraData w c (d\<lparr>rd_streams := (rd_streams d)(x := s)\<rparr>)) }"

definition stream_queue ::
    "'k rpi_env \<Rightarrow> ('k, 'z) rpi_system \<Rightarrow> nat \<Rightarrow> rpi_stream \<Rightarrow> nat option
      \<Rightarrow> (('k, 'z) rpi_system \<times> errno option) option" where
  "stream_queue env w c x buffer =
     do { d \<leftarrow> cameraData w c;
          (s, ret) \<leftarrow> RpiStream_queueBuffer (re_driver env x) w (rd_streams d x) buffer;
          w \<leftarrow> set_stream w c x s;
          Some (w, ret) }"

definition stream_return ::
    "'k rpi_env \<Rightarrow> ('k, 'z) rpi_system \<Rightarrow> nat \<Rightarrow> rpi_stream \<Rightarrow> nat \<Rightarrow> ('k, 'z) rpi_system option" where
  "stream_return env w c x buffer =
     do { d \<leftarrow> cameraData w c;
          s \<leftarrow> RpiStream_returnBuffer (re_driver env x) w (rd_streams d x) buffer;
          set_stream w c x s }"

definition ipa_send :: "('k, 'z) rpi_system \<Rightarrow> nat \<Rightarrow> ipa_call \<Rightarrow> ('k, 'z) rpi_system option" where
  "ipa_send w c m =
     do { d \<leftarrow> cameraData w c;
          Some (set_cameraData w c (d\<lparr>rd_ipaCalls := rd_ipaCalls d @ [m]\<rparr>)) }"

section \<open>Buffers that are finished\<close>

definition handleExternalBuffer :: "('k, 'z) rpi_system \<Rightarrow> nat \<Rightarrow> nat \<Rightarrow> rpi_stream \<Rightarrow> ('k, 'z) rpi_system option" where
  "handleExternalBuffer w c buffer x =
     do { d \<leftarrow> cameraData w c;
          let i = RpiStream_getBufferId (rd_streams d x) buffer;
          if and i MaskExternalBuffer = 0 then Some w
          else do { s \<leftarrow> RpiStream_removeExternalBuffer (rd_streams d x) buffer;
                    set_stream w c x s } }"

definition handleStreamBuffer ::
    "'k rpi_env \<Rightarrow> ('k, 'z) rpi_system \<Rightarrow> nat \<Rightarrow> nat \<Rightarrow> rpi_stream \<Rightarrow> ('k, 'z) rpi_system option" where
  "handleStreamBuffer env w c buffer x =
     do { d \<leftarrow> cameraData w c;
          if rs_external (rd_streams d x) then
            (case rd_requestQueue d of
               request # _ \<Rightarrow>
                 if rd_dropFrameCount d = 0 \<and> Request_findBuffer w request (re_address env x) = Some buffer then
                   do { w \<leftarrow> handleExternalBuffer w c buffer x;
                        (w, _) \<leftarrow> PipelineHandler_completeBuffer w request buffer;
                        Some w }
                 else stream_return env w c x buffer
             | [] \<Rightarrow> stream_return env w c x buffer)
          else do { (w, _) \<leftarrow> stream_queue env w c x (Some buffer); Some w } }"

section \<open>Matching frames with embedded data\<close>

definition timestamp :: "'a heap_scheme \<Rightarrow> nat \<Rightarrow> u64" where
  "timestamp w b = md_timestamp (fb_metadata (h_bufs w b))"

text \<open>
  The inner loop: embedded data buffers that are older than the frame go back to the device. The result is
  the system, the rest of the queue, the buffer found and how many were queued again.
\<close>

fun skip_embedded ::
    "'k rpi_env \<Rightarrow> nat \<Rightarrow> u64 \<Rightarrow> bool \<Rightarrow> nat list \<Rightarrow> nat \<Rightarrow> ('k, 'z) rpi_system
      \<Rightarrow> (('k, 'z) rpi_system \<times> nat list \<times> nat option \<times> nat) option" where
  "skip_embedded env c ts external [] n w = Some (w, [], None, n)"
| "skip_embedded env c ts external (b # bs) n w =
     (if \<not> external \<and> timestamp w b < ts then
        do { (w, _) \<leftarrow> stream_queue env w c UnicamEmbedded (Some b);
             skip_embedded env c ts external bs (n + 1) w }
      else if external \<or> timestamp w b = ts then Some (w, b # bs, Some b, n)
      else Some (w, b # bs, None, n))"

text \<open>Putting all buffers of a queue back to their device.\<close>

fun requeue_all ::
    "'k rpi_env \<Rightarrow> nat \<Rightarrow> rpi_stream \<Rightarrow> nat list \<Rightarrow> ('k, 'z) rpi_system \<Rightarrow> ('k, 'z) rpi_system option" where
  "requeue_all env c x [] w = Some w"
| "requeue_all env c x (b # bs) w =
     do { (w, _) \<leftarrow> stream_queue env w c x (Some b); requeue_all env c x bs w }"

definition bufferMap_size :: "('k, 'z) rpi_system \<Rightarrow> nat \<Rightarrow> rpi_stream \<Rightarrow> nat option" where
  "bufferMap_size w c x = do { d \<leftarrow> cameraData w c; Some (length (rs_bufferMap (rd_streams d x))) }"

text \<open>
  The outer loop, over the queue of frames; \<open>ne\<close> and \<open>nb\<close> count the buffers that were queued again. The result has
  the rest of both queues and the pair found, if any. (Both counters are 32 bits wide in the code; they count
  at most the buffers of the queues.)
\<close>

fun find_matching ::
    "'k rpi_env \<Rightarrow> nat \<Rightarrow> BayerFrame list \<Rightarrow> nat list \<Rightarrow> nat \<Rightarrow> nat \<Rightarrow> ('k, 'z) rpi_system
      \<Rightarrow> (('k, 'z) rpi_system \<times> BayerFrame list \<times> nat list \<times> (BayerFrame \<times> nat option) option) option" where
  "find_matching env c [] es ne nb w = Some (w, [], es, None)"
| "find_matching env c (frame # frames) es ne nb w =
     do { d \<leftarrow> cameraData w c;
          (w, es, found, ne) \<leftarrow> skip_embedded env c (timestamp w (bf_buffer frame))
             (rs_external (rd_streams d UnicamEmbedded)) es ne w;
          (case found of
             Some b \<Rightarrow> Some (w, frames, tl es, Some (frame, Some b))
           | None \<Rightarrow>
               if \<not> rd_sensorMetadata d then Some (w, frames, es, Some (frame, None))
               else do {
                 (w, frames', nb) \<leftarrow>
                   (if es \<noteq> [] then
                      do { (w, _) \<leftarrow> stream_queue env w c UnicamImage (Some (bf_buffer frame));
                           Some (w, frames, nb + 1) }
                    else Some (w, frame # frames, nb));
                 me \<leftarrow> bufferMap_size w c UnicamEmbedded;
                 (w, frames', flushed) \<leftarrow>
                   (if ne = me then
                      if es \<noteq> [] then None
                      else do { w \<leftarrow> requeue_all env c UnicamImage (map bf_buffer frames') w; Some (w, [], True) }
                    else Some (w, frames', False));
                 mb \<leftarrow> bufferMap_size w c UnicamImage;
                 (w, es, flushed) \<leftarrow>
                   (if nb = mb then
                      if frames' \<noteq> [] then None
                      else do { w \<leftarrow> requeue_all env c UnicamEmbedded es w; Some (w, [], True) }
                    else Some (w, es, flushed));
                 (if es = [] \<or> flushed then Some (w, frames', es, None)
                  else find_matching env c frames es ne nb w) }) }"

definition findMatchingBuffers ::
    "'k rpi_env \<Rightarrow> ('k, 'z) rpi_system \<Rightarrow> nat \<Rightarrow> (('k, 'z) rpi_system \<times> (BayerFrame \<times> nat option) option) option" where
  "findMatchingBuffers env w c =
     do { d \<leftarrow> cameraData w c;
          (w, frames, es, found) \<leftarrow> find_matching env c (rd_bayerQueue d) (rd_embeddedQueue d) 0 0 w;
          d \<leftarrow> cameraData w c;
          Some (set_cameraData w c (d\<lparr>rd_bayerQueue := frames, rd_embeddedQueue := es\<rparr>), found) }"


section \<open>The crop of the sensor\<close>

text \<open>\<open>setSelection\<close> of a video device: the rectangle is what the driver accepted, or unchanged after an error.\<close>

definition V4L2VideoDevice_setSelection ::
    "('k \<Rightarrow> Rectangle \<Rightarrow> 'k \<times> Rectangle result) \<Rightarrow> 'k \<Rightarrow> Rectangle \<Rightarrow> 'k \<times> Rectangle \<times> errno option" where
  "V4L2VideoDevice_setSelection s_selection k r =
     (case s_selection k r of (k, Inl e) \<Rightarrow> (k, r, Some e) | (k, Inr r') \<Rightarrow> (k, r', None))"

text \<open>The crop for the ISP from the one that was asked for in pixels of the sensor.\<close>

definition isp_crop :: "CameraSensorInfo \<Rightarrow> Size \<Rightarrow> Rectangle \<Rightarrow> Rectangle option" where
  "isp_crop info minCropSize crop =
     do { let nativeCrop = (if rc_width crop = 0 \<or> rc_height crop = 0 then mk_Rectangle 0 0 1 1 else crop);
          let ispCrop = Rectangle_translatedBy nativeCrop (Point_neg (Rectangle_topLeft (si_analogCrop info)));
          ispCrop \<leftarrow> Rectangle_scaleBy ispCrop (si_outputSize info) (Rectangle_size (si_analogCrop info));
          minSize \<leftarrow> Size_expandedToAspectRatio minCropSize (Rectangle_size nativeCrop);
          let sz = Size_expandedTo (Rectangle_size ispCrop) minSize;
          Some (Rectangle_enclosedIn (Size_centeredTo sz (Rectangle_center ispCrop))
                  (mk_Rectangle 0 0 (sz_width (si_outputSize info)) (sz_height (si_outputSize info)))) }"

definition applyScalerCrop ::
    "'k rpi_env \<Rightarrow> ('k, 'z) rpi_system \<Rightarrow> nat \<Rightarrow> ControlList \<Rightarrow> ('k, 'z) rpi_system option" where
  "applyScalerCrop env w c controls =
     (if \<not> ControlList_contains controls (re_ScalerCrop env) then Some w
      else do {
        d \<leftarrow> cameraData w c;
        crop \<leftarrow> ControlValue_getT ControlTypeRectangle Rectangle_bytes (ControlList_get controls (re_ScalerCrop env));
        ispCrop \<leftarrow> isp_crop (rd_sensorInfo d) (rd_ispMinCropSize d) crop;
        if ispCrop = rd_ispCrop d then Some w
        else
          let s = rd_streams d IspInput;
              (k, ispCrop, _) = V4L2VideoDevice_setSelection (re_setSelection env) (rs_kernel s) ispCrop
          in Some (set_cameraData w c
               (d\<lparr>rd_streams := (rd_streams d)(IspInput := s\<lparr>rs_kernel := k\<rparr>), rd_ispCrop := ispCrop,
                  rd_updateScalerCrop := True\<rparr>)) })"

section \<open>The state machine\<close>

definition tryRunPipeline :: "'k rpi_env \<Rightarrow> ('k, 'z) rpi_system \<Rightarrow> nat \<Rightarrow> ('k, 'z) rpi_system option" where
  "tryRunPipeline env w c =
     do { d \<leftarrow> cameraData w c;
          (case rd_requestQueue d of
             [] \<Rightarrow> Some w
           | request # _ \<Rightarrow>
               if rd_state d \<noteq> RpiIdle \<or> rd_bayerQueue d = [] \<or> (rd_embeddedQueue d = [] \<and> rd_sensorMetadata d)
               then Some w
               else do {
                 (w, found) \<leftarrow> findMatchingBuffers env w c;
                 (case found of
                    None \<Rightarrow> Some w
                  | Some (frame, embedded) \<Rightarrow> do {
                      w \<leftarrow> applyScalerCrop env w c (rq_controls (h_reqs w request));
                      w \<leftarrow> ipa_send w c (IpaQueueRequest (rq_controls (h_reqs w request)));
                      d \<leftarrow> cameraData w c;
                      let w = set_cameraData w c (d\<lparr>rd_state := RpiBusy\<rparr>);
                      let bayerId = RpiStream_getBufferId (rd_streams d UnicamImage) (bf_buffer frame);
                      let embeddedId = map_option (\<lambda>b. or MaskEmbeddedData
                            (RpiStream_getBufferId (rd_streams d UnicamEmbedded) b)) embedded;
                      ipa_send w c (IpaIspPrepare (or MaskBayerData bayerId) embeddedId (bf_controls frame)) }) }) }"

text \<open>\<open>front()\<close> of an empty queue is undefined.\<close>

definition checkRequestCompleted :: "('k, 'z) rpi_system \<Rightarrow> nat \<Rightarrow> ('k, 'z) rpi_system option" where
  "checkRequestCompleted w c =
     do { d \<leftarrow> cameraData w c;
          (if rd_dropFrameCount d = 0 then
             (case rd_requestQueue d of
                [] \<Rightarrow> None
              | request # _ \<Rightarrow>
                  if hasPendingBuffers (h_reqs w request) \<or> rd_state d \<noteq> RpiIpaComplete then Some w
                  else do {
                    w \<leftarrow> PipelineHandler_completeRequest w request;
                    d \<leftarrow> cameraData w c;
                    Some (set_cameraData w c (d\<lparr>rd_requestQueue := tl (rd_requestQueue d), rd_state := RpiIdle\<rparr>)) })
           else if rd_state d = RpiIpaComplete \<and> rd_ispOutputCount d = 3
           then Some (set_cameraData w c (d\<lparr>rd_state := RpiIdle, rd_dropFrameCount := rd_dropFrameCount d - 1\<rparr>))
           else Some w) }"

definition handleState :: "'k rpi_env \<Rightarrow> ('k, 'z) rpi_system \<Rightarrow> nat \<Rightarrow> ('k, 'z) rpi_system option" where
  "handleState env w c =
     do { d \<leftarrow> cameraData w c;
          (case rd_state d of
             RpiStopped \<Rightarrow> Some w
           | RpiBusy \<Rightarrow> Some w
           | RpiIpaComplete \<Rightarrow> do { w \<leftarrow> checkRequestCompleted w c; tryRunPipeline env w c }
           | RpiIdle \<Rightarrow> tryRunPipeline env w c) }"

section \<open>Signals of the IPA\<close>

text \<open>What the IPA makes of the identifiers it is given before it sends them back (\<open>ipa/raspberrypi.cpp\<close>).\<close>

definition ipa_reply_id :: "u32 \<Rightarrow> u32" where
  "ipa_reply_id bufferId = and bufferId MaskID"

text \<open>\<open>getBuffers().at(id)\<close> throws when there is no such buffer.\<close>

definition buffer_at :: "'k RPiCameraData \<Rightarrow> rpi_stream \<Rightarrow> u32 \<Rightarrow> nat option" where
  "buffer_at d x i = map_of (rs_bufferMap (rd_streams d x)) i"

definition update_scaler_crop :: "'k RPiCameraData \<Rightarrow> 'k RPiCameraData option" where
  "update_scaler_crop d =
     (if rd_updateScalerCrop d then do {
        crop \<leftarrow> Rectangle_scaledBy (rd_ispCrop d) (Rectangle_size (si_analogCrop (rd_sensorInfo d)))
                  (si_outputSize (rd_sensorInfo d));
        Some (d\<lparr>rd_updateScalerCrop := False,
                rd_scalerCrop := Rectangle_translateBy crop (Rectangle_topLeft (si_analogCrop (rd_sensorInfo d)))\<rparr>) }
      else Some d)"

definition statsMetadataComplete ::
    "'k rpi_env \<Rightarrow> ('k, 'z) rpi_system \<Rightarrow> nat \<Rightarrow> u32 \<Rightarrow> ControlList \<Rightarrow> ('k, 'z) rpi_system option" where
  "statsMetadataComplete env w c bufferId controls =
     do { d \<leftarrow> cameraData w c;
          if rd_state d = RpiStopped then Some w
          else do {
            buffer \<leftarrow> buffer_at d IspStats bufferId;
            w \<leftarrow> handleStreamBuffer env w c buffer IspStats;
            d \<leftarrow> cameraData w c;
            (case rd_requestQueue d of
               [] \<Rightarrow> None
             | request # _ \<Rightarrow> do {
                 d \<leftarrow> update_scaler_crop d;
                 crop \<leftarrow> ControlValue_setT (re_junk env) ControlTypeRectangle bytes_Rectangle ControlValue_empty (rd_scalerCrop d);
                 metadata \<leftarrow> ControlList_set (re_junk env) controls (re_ScalerCrop env) crop;
                 let w = upd_req w request (\<lambda>rq. rq\<lparr>rq_metadata := metadata\<rparr>);
                 handleState env (set_cameraData w c (d\<lparr>rd_state := RpiIpaComplete\<rparr>)) c }) } }"

definition runIsp :: "'k rpi_env \<Rightarrow> ('k, 'z) rpi_system \<Rightarrow> nat \<Rightarrow> u32 \<Rightarrow> ('k, 'z) rpi_system option" where
  "runIsp env w c bufferId =
     do { d \<leftarrow> cameraData w c;
          if rd_state d = RpiStopped then Some w
          else do {
            buffer \<leftarrow> buffer_at d UnicamImage bufferId;
            (w, _) \<leftarrow> stream_queue env w c IspInput (Some buffer);
            d \<leftarrow> cameraData w c;
            handleState env (set_cameraData w c (d\<lparr>rd_ispOutputCount := 0\<rparr>)) c } }"

definition embeddedComplete :: "'k rpi_env \<Rightarrow> ('k, 'z) rpi_system \<Rightarrow> nat \<Rightarrow> u32 \<Rightarrow> ('k, 'z) rpi_system option" where
  "embeddedComplete env w c bufferId =
     do { d \<leftarrow> cameraData w c;
          if rd_state d = RpiStopped then Some w
          else do {
            buffer \<leftarrow> buffer_at d UnicamEmbedded bufferId;
            w \<leftarrow> handleStreamBuffer env w c buffer UnicamEmbedded;
            handleState env w c } }"

text \<open>The table of the lens shading control has the descriptor at its sixth word; a shorter value is overrun.\<close>

definition patch_lens_shading :: "i32 \<Rightarrow> ControlValue \<Rightarrow> ControlValue option" where
  "patch_lens_shading fd v =
     (if length (cv_data v) < 24 then None
      else Some (v\<lparr>cv_data := take 20 (cv_data v) @ bytes_u32 fd @ drop 24 (cv_data v)\<rparr>))"

definition setIspControls ::
    "'k rpi_env \<Rightarrow> ('k, 'z) rpi_system \<Rightarrow> nat \<Rightarrow> ControlList \<Rightarrow> ('k, 'z) rpi_system option" where
  "setIspControls env w c controls =
     do { d \<leftarrow> cameraData w c;
          ctrls \<leftarrow>
            (if ControlList_contains controls (re_lensShading env) then do {
               v \<leftarrow> patch_lens_shading (rd_lsTable d) (ControlList_get controls (re_lensShading env));
               Some (controls\<lparr>cl_controls := AList.update (re_lensShading env) v (cl_controls controls)\<rparr>) }
             else Some controls);
          let s = rd_streams d IspInput;
          (k, _) \<leftarrow> V4L2Device_setControls (re_junk env) (re_controls env) (rs_kernel s) (rd_ispControls d) ctrls;
          w \<leftarrow> set_stream w c IspInput (s\<lparr>rs_kernel := k\<rparr>);
          handleState env w c }"

definition setDelayedControls ::
    "'k rpi_env \<Rightarrow> ('k, 'z) rpi_system \<Rightarrow> nat \<Rightarrow> ControlList \<Rightarrow> ('k, 'z) rpi_system option" where
  "setDelayedControls env w c controls =
     do { d \<leftarrow> cameraData w c;
          let (delayed, ok) = DelayedControls_push (re_junk env) (rd_unicamControls d) (rd_delayed d) controls;
          handleState env (set_cameraData w c (d\<lparr>rd_delayed := delayed\<rparr>)) c }"

section \<open>Slots of the devices\<close>

text \<open>The first stream that knows the buffer, in the order of the array.\<close>

definition stream_of_buffer :: "'k RPiCameraData \<Rightarrow> rpi_stream list \<Rightarrow> nat \<Rightarrow> rpi_stream option" where
  "stream_of_buffer d xs buffer = find (\<lambda>x. RpiStream_getBufferId (rd_streams d x) buffer \<noteq> - 1) xs"

definition unicamBufferDequeue :: "'k rpi_env \<Rightarrow> nat \<Rightarrow> ('k, 'z) rpi_system \<Rightarrow> nat \<Rightarrow> ('k, 'z) rpi_system option" where
  "unicamBufferDequeue env c w buffer =
     do { d \<leftarrow> cameraData w c;
          if rd_state d = RpiStopped then Some w
          else do {
            x \<leftarrow> stream_of_buffer d [UnicamImage, UnicamEmbedded] buffer;
            let d = (if x = UnicamImage
                     then d\<lparr>rd_bayerQueue := rd_bayerQueue d @
                              [\<lparr>bf_buffer = buffer,
                                bf_controls = DelayedControls_get (re_junk env) (rd_unicamControls d) (rd_delayed d)
                                  (md_sequence (fb_metadata (h_bufs w buffer)))\<rparr>]\<rparr>
                     else d\<lparr>rd_embeddedQueue := rd_embeddedQueue d @ [buffer]\<rparr>);
            handleState env (set_cameraData w c d) c } }"

definition ispInputDequeue :: "'k rpi_env \<Rightarrow> nat \<Rightarrow> ('k, 'z) rpi_system \<Rightarrow> nat \<Rightarrow> ('k, 'z) rpi_system option" where
  "ispInputDequeue env c w buffer =
     do { d \<leftarrow> cameraData w c;
          if rd_state d = RpiStopped then Some w
          else do { w \<leftarrow> handleStreamBuffer env w c buffer UnicamImage; handleState env w c } }"

definition ispOutputDequeue :: "'k rpi_env \<Rightarrow> nat \<Rightarrow> ('k, 'z) rpi_system \<Rightarrow> nat \<Rightarrow> ('k, 'z) rpi_system option" where
  "ispOutputDequeue env c w buffer =
     do { d \<leftarrow> cameraData w c;
          if rd_state d = RpiStopped then Some w
          else do {
            x \<leftarrow> stream_of_buffer d isp_streams buffer;
            w \<leftarrow> (if x = IspStats
                  then ipa_send w c (IpaStatReady (or MaskStats (RpiStream_getBufferId (rd_streams d IspStats) buffer)))
                  else handleStreamBuffer env w c buffer x);
            d \<leftarrow> cameraData w c;
            handleState env (set_cameraData w c (d\<lparr>rd_ispOutputCount := rd_ispOutputCount d + 1\<rparr>)) c } }"

fun buffer_slot ::
    "'k rpi_env \<Rightarrow> nat \<Rightarrow> rpi_stream \<Rightarrow> ('k, 'z) rpi_system \<Rightarrow> nat \<Rightarrow> ('k, 'z) rpi_system option" where
  "buffer_slot env c UnicamImage w b = unicamBufferDequeue env c w b"
| "buffer_slot env c UnicamEmbedded w b = unicamBufferDequeue env c w b"
| "buffer_slot env c IspInput w b = ispInputDequeue env c w b"
| "buffer_slot env c IspOutput0 w b = ispOutputDequeue env c w b"
| "buffer_slot env c IspOutput1 w b = ispOutputDequeue env c w b"
| "buffer_slot env c IspStats w b = ispOutputDequeue env c w b"

text \<open>A device has a buffer ready; the slot of its signal runs.\<close>

definition rpi_bufferAvailable ::
    "'k rpi_env \<Rightarrow> ('k, 'z) rpi_system \<Rightarrow> nat \<Rightarrow> rpi_stream \<Rightarrow> ('k, 'z) rpi_system option" where
  "rpi_bufferAvailable env w c x =
     do { d \<leftarrow> cameraData w c;
          let s = rd_streams d x;
          (k, dev, w, b) \<leftarrow> V4L2VideoDevice_dequeueBuffer (re_driver env x) (rs_kernel s) (rs_dev s) w;
          w \<leftarrow> set_stream w c x (s\<lparr>rs_kernel := k, rs_dev := dev\<rparr>);
          (case b of None \<Rightarrow> Some w | Some buffer \<Rightarrow> buffer_slot env c x w buffer) }"

definition frameStarted :: "'k rpi_env \<Rightarrow> ('k, 'z) rpi_system \<Rightarrow> nat \<Rightarrow> u32 \<Rightarrow> ('k, 'z) rpi_system option" where
  "frameStarted env w c sequence =
     do { d \<leftarrow> cameraData w c;
          let s = rd_streams d UnicamImage;
          (k, delayed) \<leftarrow> DelayedControls_applyControls (re_junk env) (re_controls env) (rs_kernel s)
             (rd_unicamControls d) (rd_delayed d) sequence;
          Some (set_cameraData w c
            (d\<lparr>rd_streams := (rd_streams d)(UnicamImage := s\<lparr>rs_kernel := k\<rparr>), rd_delayed := delayed\<rparr>)) }"

section \<open>Stopping\<close>

text \<open>The three loops of \<open>clearIncompleteRequests\<close>.\<close>

fun queue_request_buffers ::
    "'k rpi_env \<Rightarrow> nat \<Rightarrow> rpi_stream list \<Rightarrow> nat \<Rightarrow> ('k, 'z) rpi_system \<Rightarrow> ('k, 'z) rpi_system option" where
  "queue_request_buffers env c [] request w = Some w"
| "queue_request_buffers env c (x # xs) request w =
     do { d \<leftarrow> cameraData w c;
          w \<leftarrow> (if \<not> rs_external (rd_streams d x) then Some w
                else case Request_findBuffer w request (re_address env x) of
                       None \<Rightarrow> Some w
                     | Some b \<Rightarrow> do { (w, _) \<leftarrow> stream_queue env w c x (Some b); Some w });
          queue_request_buffers env c xs request w }"

fun queue_requests_buffers ::
    "'k rpi_env \<Rightarrow> nat \<Rightarrow> rpi_stream list \<Rightarrow> nat list \<Rightarrow> ('k, 'z) rpi_system \<Rightarrow> ('k, 'z) rpi_system option" where
  "queue_requests_buffers env c xs [] w = Some w"
| "queue_requests_buffers env c xs (r # rs) w =
     do { w \<leftarrow> queue_request_buffers env c xs r w; queue_requests_buffers env c xs rs w }"

text \<open>Stopping a device cancels its buffers, with the slot of the stream; its state is stored when it returns.\<close>

definition stream_off ::
    "'k rpi_env \<Rightarrow> nat \<Rightarrow> rpi_stream \<Rightarrow> ('k, 'z) rpi_system \<Rightarrow> ('k, 'z) rpi_system option" where
  "stream_off env c x w =
     do { d \<leftarrow> cameraData w c;
          let s = rd_streams d x;
          (k, dev, w, _) \<leftarrow> V4L2VideoDevice_streamOff (re_driver env x) (buffer_slot env c x) (rs_kernel s) (rs_dev s) w;
          d \<leftarrow> cameraData w c;
          set_stream w c x ((rd_streams d x)\<lparr>rs_kernel := k, rs_dev := dev\<rparr>) }"

fun streams_off ::
    "'k rpi_env \<Rightarrow> nat \<Rightarrow> rpi_stream list \<Rightarrow> ('k, 'z) rpi_system \<Rightarrow> ('k, 'z) rpi_system option" where
  "streams_off env c [] w = Some w"
| "streams_off env c (x # xs) w = do { w \<leftarrow> stream_off env c x w; streams_off env c xs w }"

fun complete_request_buffers ::
    "'k rpi_env \<Rightarrow> nat \<Rightarrow> rpi_stream list \<Rightarrow> nat \<Rightarrow> ('k, 'z) rpi_system \<Rightarrow> ('k, 'z) rpi_system option" where
  "complete_request_buffers env c [] request w = Some w"
| "complete_request_buffers env c (x # xs) request w =
     do { d \<leftarrow> cameraData w c;
          w \<leftarrow> (if \<not> rs_external (rd_streams d x) then Some w
                else case Request_findBuffer w request (re_address env x) of
                       None \<Rightarrow> Some w
                     | Some b \<Rightarrow>
                         if fb_request (h_bufs w b) = None then Some w
                         else do { (w, _) \<leftarrow> PipelineHandler_completeBuffer w request b; Some w });
          complete_request_buffers env c xs request w }"

text \<open>The requests of the queue, from the front; each is popped when it has been completed.\<close>

fun complete_requests ::
    "'k rpi_env \<Rightarrow> nat \<Rightarrow> rpi_stream list \<Rightarrow> nat list \<Rightarrow> ('k, 'z) rpi_system \<Rightarrow> ('k, 'z) rpi_system option" where
  "complete_requests env c xs [] w = Some w"
| "complete_requests env c xs (r # rs) w =
     do { w \<leftarrow> complete_request_buffers env c xs r w;
          w \<leftarrow> PipelineHandler_completeRequest w r;
          d \<leftarrow> cameraData w c;
          complete_requests env c xs rs (set_cameraData w c (d\<lparr>rd_requestQueue := rs\<rparr>)) }"

definition clearIncompleteRequests :: "'k rpi_env \<Rightarrow> ('k, 'z) rpi_system \<Rightarrow> nat \<Rightarrow> ('k, 'z) rpi_system option" where
  "clearIncompleteRequests env w c =
     do { d \<leftarrow> cameraData w c;
          w \<leftarrow> queue_requests_buffers env c (rpi_streams d) (rd_requestQueue d) w;
          w \<leftarrow> streams_off env c (rpi_streams d) w;
          complete_requests env c (rpi_streams d) (rd_requestQueue d) w }"

definition rpi_freeBuffers :: "'k rpi_env \<Rightarrow> ('k, 'z) rpi_system \<Rightarrow> nat \<Rightarrow> ('k, 'z) rpi_system option" where
  "rpi_freeBuffers env w c =
     do { d \<leftarrow> cameraData w c;
          Some (set_cameraData w c
            (d\<lparr>rd_ipaCalls := rd_ipaCalls d @ [IpaUnmapBuffers (rd_ipaBuffers d)], rd_ipaBuffers := [],
               rd_streams := (\<lambda>x. if x \<in> set (rpi_streams d) then RpiStream_releaseBuffers (re_driver env x) (rd_streams d x)
                                  else rd_streams d x)\<rparr>)) }"

definition set_frame_start ::
    "'k rpi_env \<Rightarrow> ('k, 'z) rpi_system \<Rightarrow> nat \<Rightarrow> bool \<Rightarrow> ('k, 'z) rpi_system option" where
  "set_frame_start env w c enable =
     do { d \<leftarrow> cameraData w c;
          let s = rd_streams d UnicamImage;
          (k, dev, _) \<leftarrow> V4L2Device_setFrameStartEnabled (re_controls env) (rs_kernel s) (rd_unicamControls d) enable;
          Some (set_cameraData w c
            (d\<lparr>rd_streams := (rd_streams d)(UnicamImage := s\<lparr>rs_kernel := k\<rparr>), rd_unicamControls := dev\<rparr>)) }"

definition rpi_stop :: "'k rpi_env \<Rightarrow> ('k, 'z) rpi_system \<Rightarrow> nat \<Rightarrow> ('k, 'z) rpi_system option" where
  "rpi_stop env w c =
     do { d \<leftarrow> cameraData w c;
          w \<leftarrow> set_frame_start env (set_cameraData w c (d\<lparr>rd_state := RpiStopped\<rparr>)) c False;
          w \<leftarrow> clearIncompleteRequests env w c;
          d \<leftarrow> cameraData w c;
          w \<leftarrow> ipa_send (set_cameraData w c (d\<lparr>rd_bayerQueue := [], rd_embeddedQueue := []\<rparr>)) c IpaStop;
          rpi_freeBuffers env w c }"

section \<open>Starting\<close>

definition mapBuffers :: "('k, 'z) rpi_system \<Rightarrow> nat \<Rightarrow> BufferMap \<Rightarrow> u32 \<Rightarrow> ('k, 'z) rpi_system option" where
  "mapBuffers w c buffers m =
     do { d \<leftarrow> cameraData w c;
          let ids = map (\<lambda>(i, b). or m i) buffers;
          ipa_send (set_cameraData w c (d\<lparr>rd_ipaBuffers := remdups (rd_ipaBuffers d @ ids)\<rparr>)) c
            (IpaMapBuffers (map (\<lambda>(i, b). (or m i, fb_planes (h_bufs w b))) buffers)) }"

definition stream_at :: "'k rpi_env \<Rightarrow> nat \<Rightarrow> rpi_stream option" where
  "stream_at env a = find (\<lambda>x. re_address env x = a)
     [UnicamImage, UnicamEmbedded, IspInput, IspOutput0, IspOutput1, IspStats]"

text \<open>The number of buffers of the external streams of the camera that has the most.\<close>

definition max_buffers :: "'k rpi_env \<Rightarrow> ('k, 'z) rpi_system \<Rightarrow> 'k RPiCameraData \<Rightarrow> nat \<Rightarrow> u32" where
  "max_buffers env w d c =
     fold (\<lambda>a n. case stream_at env a of
              None \<Rightarrow> n
            | Some x \<Rightarrow> if rs_external (rd_streams d x) then max n (sc_bufferCount (s_streams w a)) else n)
       (cp_streams (s_cams w c)) 0"

fun prepare_streams ::
    "'k rpi_env \<Rightarrow> nat \<Rightarrow> u32 \<Rightarrow> rpi_stream list \<Rightarrow> ('k, 'z) rpi_system \<Rightarrow> (('k, 'z) rpi_system \<times> errno option) option" where
  "prepare_streams env c n [] w = Some (w, None)"
| "prepare_streams env c n (x # xs) w =
     do { d \<leftarrow> cameraData w c;
          (w, s, ret) \<leftarrow> RpiStream_prepareBuffers (re_driver env x) (re_place env x) w (rd_streams d x) n;
          w \<leftarrow> set_stream w c x s;
          (case ret of Some e \<Rightarrow> Some (w, Some e) | None \<Rightarrow> prepare_streams env c n xs w) }"

definition rpi_prepareBuffers ::
    "'k rpi_env \<Rightarrow> ('k, 'z) rpi_system \<Rightarrow> nat \<Rightarrow> (('k, 'z) rpi_system \<times> errno option) option" where
  "rpi_prepareBuffers env w c =
     do { d \<leftarrow> cameraData w c;
          (w, ret) \<leftarrow> prepare_streams env c (max_buffers env w d c) (rpi_streams d) w;
          (case ret of
             Some e \<Rightarrow> Some (w, Some e)
           | None \<Rightarrow> do {
               d \<leftarrow> cameraData w c;
               w \<leftarrow> mapBuffers w c (rs_bufferMap (rd_streams d IspStats)) MaskStats;
               w \<leftarrow> (if rd_sensorMetadata d
                     then mapBuffers w c (rs_bufferMap (rd_streams d UnicamEmbedded)) MaskEmbeddedData else Some w);
               Some (w, None) }) }"

fun queue_any ::
    "'k rpi_env \<Rightarrow> nat \<Rightarrow> rpi_stream \<Rightarrow> nat \<Rightarrow> ('k, 'z) rpi_system \<Rightarrow> (('k, 'z) rpi_system \<times> errno option) option" where
  "queue_any env c x 0 w = Some (w, None)"
| "queue_any env c x (Suc n) w =
     do { (w, ret) \<leftarrow> stream_queue env w c x None;
          (case ret of Some e \<Rightarrow> Some (w, Some e) | None \<Rightarrow> queue_any env c x n w) }"

fun queue_streams ::
    "'k rpi_env \<Rightarrow> nat \<Rightarrow> rpi_stream list \<Rightarrow> ('k, 'z) rpi_system \<Rightarrow> (('k, 'z) rpi_system \<times> errno option) option" where
  "queue_streams env c [] w = Some (w, None)"
| "queue_streams env c (x # xs) w =
     do { d \<leftarrow> cameraData w c;
          (w, ret) \<leftarrow>
            (if rs_external (rd_streams d x) then queue_any env c x (unat (rd_dropFrameCount d)) w
             else do { (s, ret) \<leftarrow> RpiStream_queueAllBuffers (re_driver env x) w (rd_streams d x);
                       w \<leftarrow> set_stream w c x s;
                       Some (w, ret) });
          (case ret of Some e \<Rightarrow> Some (w, Some e) | None \<Rightarrow> queue_streams env c xs w) }"

definition rpi_queueAllBuffers ::
    "'k rpi_env \<Rightarrow> ('k, 'z) rpi_system \<Rightarrow> nat \<Rightarrow> (('k, 'z) rpi_system \<times> errno option) option" where
  "rpi_queueAllBuffers env w c = do { d \<leftarrow> cameraData w c; queue_streams env c (rpi_streams d) w }"

fun streams_on ::
    "'k rpi_env \<Rightarrow> nat \<Rightarrow> rpi_stream list \<Rightarrow> ('k, 'z) rpi_system \<Rightarrow> (('k, 'z) rpi_system \<times> errno option) option" where
  "streams_on env c [] w = Some (w, None)"
| "streams_on env c (x # xs) w =
     do { d \<leftarrow> cameraData w c;
          let s = rd_streams d x;
          let (k, dev, ret) = V4L2VideoDevice_streamOn (re_driver env x) (rs_kernel s) (rs_dev s);
          w \<leftarrow> set_stream w c x (s\<lparr>rs_kernel := k, rs_dev := dev\<rparr>);
          (case ret of Some e \<Rightarrow> Some (w, Some e) | None \<Rightarrow> streams_on env c xs w) }"

definition stop_with ::
    "'k rpi_env \<Rightarrow> nat \<Rightarrow> ('k, 'z) rpi_system \<Rightarrow> errno \<Rightarrow> (('k, 'z) rpi_system \<times> errno option) option" where
  "stop_with env c w e = do { w \<leftarrow> rpi_stop env w c; Some (w, Some e) }"

text \<open>What \<open>start\<close> does between preparing the buffers and queueing them: the IPA is started and its settings applied.\<close>

definition start_ipa ::
    "'k rpi_env \<Rightarrow> ('k, 'z) rpi_system \<Rightarrow> nat \<Rightarrow> ControlList option \<Rightarrow> ('k, 'z) rpi_system option" where
  "start_ipa env w c controls =
     do { w \<leftarrow> (case controls of None \<Rightarrow> Some w | Some l \<Rightarrow> applyScalerCrop env w c l);
          let l = (case controls of None \<Rightarrow> ControlList_new | Some l \<Rightarrow> l);
          let (ctrls, dropFrameCount) = re_ipaStart env l;
          w \<leftarrow> ipa_send w c (IpaStart l);
          d \<leftarrow> cameraData w c;
          let s = rd_streams d UnicamImage;
          k \<leftarrow> (if cl_controls ctrls = [] then Some (rs_kernel s)
                else do { (k, _) \<leftarrow> V4L2Device_setControls (re_junk env) (re_controls env) (rs_kernel s)
                                     (rd_unicamControls d) ctrls;
                          Some k });
          Some (set_cameraData w c
            (d\<lparr>rd_streams := (rd_streams d)(UnicamImage := s\<lparr>rs_kernel := k\<rparr>), rd_dropFrameCount := dropFrameCount\<rparr>)) }"

definition reset_delayed :: "'k rpi_env \<Rightarrow> ('k, 'z) rpi_system \<Rightarrow> nat \<Rightarrow> ('k, 'z) rpi_system option" where
  "reset_delayed env w c =
     do { d \<leftarrow> cameraData w c;
          let s = rd_streams d UnicamImage;
          (k, dev, delayed) \<leftarrow> DelayedControls_reset (re_junk env) (re_controls env) (rs_kernel s)
             (rd_unicamControls d) (rd_delayed d);
          Some (set_cameraData w c
            (d\<lparr>rd_streams := (rd_streams d)(UnicamImage := s\<lparr>rs_kernel := k\<rparr>), rd_unicamControls := dev,
               rd_delayed := delayed\<rparr>)) }"

definition set_isp_format ::
    "'k rpi_env \<Rightarrow> ('k, 'z) rpi_system \<Rightarrow> nat \<Rightarrow> (('k, 'z) rpi_system \<times> errno option) option" where
  "set_isp_format env w c =
     do { d \<leftarrow> cameraData w c;
          let (u, i, ret) = re_ispFormat env (rs_kernel (rd_streams d UnicamImage)) (rs_kernel (rd_streams d IspInput));
          Some (set_cameraData w c
            (d\<lparr>rd_streams := (rd_streams d)
                 (UnicamImage := (rd_streams d UnicamImage)\<lparr>rs_kernel := u\<rparr>,
                  IspInput := (rd_streams d IspInput)\<lparr>rs_kernel := i\<rparr>)\<rparr>), ret) }"

definition rpi_start ::
    "'k rpi_env \<Rightarrow> ('k, 'z) rpi_system \<Rightarrow> nat \<Rightarrow> ControlList option \<Rightarrow> (('k, 'z) rpi_system \<times> errno option) option" where
  "rpi_start env w c controls =
     do { (w, ret) \<leftarrow> rpi_prepareBuffers env w c;
          (case ret of Some e \<Rightarrow> stop_with env c w e | None \<Rightarrow> do {
             w \<leftarrow> start_ipa env w c controls;
             (w, ret) \<leftarrow> rpi_queueAllBuffers env w c;
             (case ret of Some e \<Rightarrow> stop_with env c w e | None \<Rightarrow> do {
                (w, ret) \<leftarrow> set_isp_format env w c;
                (case ret of Some e \<Rightarrow> stop_with env c w e | None \<Rightarrow> do {
                   w \<leftarrow> set_frame_start env w c True;
                   w \<leftarrow> reset_delayed env w c;
                   d \<leftarrow> cameraData w c;
                   (w, ret) \<leftarrow> streams_on env c (rpi_streams d) (set_cameraData w c (d\<lparr>rd_state := RpiIdle\<rparr>));
                   (case ret of Some e \<Rightarrow> stop_with env c w e | None \<Rightarrow> Some (w, None)) }) }) }) }"

section \<open>Requests and exported buffers\<close>

text \<open>A buffer that the stream does not know comes from elsewhere: it gets an identifier.\<close>

definition track_buffer ::
    "('k, 'z) rpi_system \<Rightarrow> nat \<Rightarrow> rpi_stream \<Rightarrow> nat option \<Rightarrow> ('k, 'z) rpi_system option" where
  "track_buffer w c x buffer =
     (case buffer of
        None \<Rightarrow> Some w
      | Some b \<Rightarrow> do {
          d \<leftarrow> cameraData w c;
          if RpiStream_getBufferId (rd_streams d x) b = - 1
          then do { s \<leftarrow> RpiStream_setExternalBuffer (rd_streams d x) b; set_stream w c x s }
          else Some w })"

fun queue_request_streams ::
    "'k rpi_env \<Rightarrow> nat \<Rightarrow> nat \<Rightarrow> rpi_stream list \<Rightarrow> ('k, 'z) rpi_system \<Rightarrow> (('k, 'z) rpi_system \<times> errno option) option" where
  "queue_request_streams env c request [] w = Some (w, None)"
| "queue_request_streams env c request (x # xs) w =
     do { d \<leftarrow> cameraData w c;
          if \<not> rs_external (rd_streams d x) then queue_request_streams env c request xs w
          else do {
            let buffer = Request_findBuffer w request (re_address env x);
            w \<leftarrow> track_buffer w c x buffer;
            (w, ret) \<leftarrow> stream_queue env w c x buffer;
            (case ret of Some e \<Rightarrow> Some (w, Some e) | None \<Rightarrow> queue_request_streams env c request xs w) } }"

definition rpi_queueRequestDevice ::
    "'k rpi_env \<Rightarrow> ('k, 'z) rpi_system \<Rightarrow> nat \<Rightarrow> nat \<Rightarrow> (('k, 'z) rpi_system \<times> errno option) option" where
  "rpi_queueRequestDevice env w c request =
     do { d \<leftarrow> cameraData w c;
          if rd_state d = RpiStopped then Some (w, Some EINVAL)
          else do {
            (w, ret) \<leftarrow> queue_request_streams env c request (rpi_streams d) w;
            (case ret of
               Some e \<Rightarrow> Some (w, Some e)
             | None \<Rightarrow> do {
                 d \<leftarrow> cameraData w c;
                 w \<leftarrow> handleState env (set_cameraData w c (d\<lparr>rd_requestQueue := rd_requestQueue d @ [request]\<rparr>)) c;
                 Some (w, None) }) } }"

text \<open>The exported buffers belong to the caller; they are at the addresses \<open>place\<close> when their identifiers are made.\<close>

definition rpi_exportFrameBuffers ::
    "'k rpi_env \<Rightarrow> (nat \<Rightarrow> nat) \<Rightarrow> ('k, 'z) rpi_system \<Rightarrow> nat \<Rightarrow> nat
      \<Rightarrow> (('k, 'z) rpi_system \<times> FrameBuffer list result) option" where
  "rpi_exportFrameBuffers env place w c stream =
     do { d \<leftarrow> cameraData w c;
          x \<leftarrow> stream_at env stream;
          let s = rd_streams d x;
          let (k, r) = V4L2VideoDevice_exportBuffers (re_driver env x) (rs_kernel s) (rs_dev s)
             (sc_bufferCount (s_streams w stream));
          s \<leftarrow> RpiStream_setExportedBuffers (case r of Inl e \<Rightarrow> [] | Inr fbs \<Rightarrow> map place [0..<length fbs]) (s\<lparr>rs_kernel := k\<rparr>);
          w \<leftarrow> set_stream w c x s;
          Some (w, r) }"

section \<open>An example\<close>

definition example_rpi_stream :: "bool \<Rightarrow> bool \<Rightarrow> BufferMap \<Rightarrow> u32 list RpiStream" where
  "example_rpi_stream external importOnly m =
     \<lparr>rs_external = external, rs_importOnly = importOnly, rs_name = [],
      rs_dev = example_video\<lparr>vd_cache := Some (V4L2BufferCache_new 4), vd_queuedBuffers := []\<rparr>,
      rs_kernel = [], rs_id = (IdGenerator_new MaskID)\<lparr>ig_id := of_nat (length m)\<rparr>, rs_bufferMap = m,
      rs_availableBuffers = [], rs_requestBuffers = [], rs_internalBuffers = []\<rparr>"

fun example_rpi_streams :: "rpi_stream \<Rightarrow> u32 list RpiStream" where
  "example_rpi_streams UnicamImage = example_rpi_stream False False [(0, 1), (1, 2)]"
| "example_rpi_streams UnicamEmbedded = example_rpi_stream False False [(0, 11), (1, 12)]"
| "example_rpi_streams IspInput = example_rpi_stream False True []"
| "example_rpi_streams IspOutput0 = example_rpi_stream True False [(0, 21), (1, 22)]"
| "example_rpi_streams IspOutput1 = example_rpi_stream False False [(0, 31)]"
| "example_rpi_streams IspStats = example_rpi_stream False False [(0, 41)]"

fun example_address :: "rpi_stream \<Rightarrow> nat" where
  "example_address UnicamImage = 100" | "example_address UnicamEmbedded = 101" | "example_address IspInput = 102"
| "example_address IspOutput0 = 103" | "example_address IspOutput1 = 104" | "example_address IspStats = 105"

definition example_rpi_controls :: "u32 list ctrl_kernel" where
  "example_rpi_controls =
     \<lparr>ioctl_query_ext_ctrl = (\<lambda>k i. (k, Inl EINVAL)), ioctl_g_ext_ctrls = (\<lambda>k xs. (k, xs, None)),
      ioctl_s_ext_ctrls = (\<lambda>k xs. (k, xs, None)), ioctl_subscribe_frame_sync = (\<lambda>k e. (k, None)),
      ioctl_dqevent = (\<lambda>k. (k, Inl EINVAL))\<rparr>"

definition example_rpi_env :: "u32 list rpi_env" where
  "example_rpi_env =
     \<lparr>re_driver = (\<lambda>_. example_kernel), re_controls = example_rpi_controls, re_address = example_address,
      re_place = (\<lambda>x i. 1000 + i), re_junk = (\<lambda>_. 0), re_ScalerCrop = 7, re_lensShading = 8,
      re_setSelection = (\<lambda>k r. (k, Inr r)), re_ispFormat = (\<lambda>u i. (u, i, None)), re_ipaStart = (\<lambda>l. (ControlList_new, 0))\<rparr>"

definition example_rpi_data :: "nat list \<Rightarrow> u32 \<Rightarrow> u32 list RPiCameraData" where
  "example_rpi_data requests n =
     \<lparr>cd_queuedRequests = requests, cd_controlInfo = ControlInfoMap_of 0 [], cd_properties = ControlList_new,
      cd_requestSequence = 0, rd_streams = example_rpi_streams, rd_unicamControls = V4L2Device_new 0,
      rd_ispControls = V4L2Device_new 0,
      rd_delayed = \<lparr>dc_controlParams = [], dc_maxDelay = 0, dc_running = True, dc_firstSequence = 0, dc_queueCount = 1,
        dc_writeCount = 0, dc_values = []\<rparr>,
      rd_sensorMetadata = True, rd_state = RpiIdle,
      rd_bayerQueue = [\<lparr>bf_buffer = 1, bf_controls = ControlList_new\<rparr>, \<lparr>bf_buffer = 2, bf_controls = ControlList_new\<rparr>],
      rd_embeddedQueue = [11, 12], rd_requestQueue = requests,
      rd_sensorInfo = \<lparr>si_analogCrop = mk_Rectangle 0 0 100 100, si_outputSize = mk_Size 100 100\<rparr>,
      rd_ispCrop = mk_Rectangle 0 0 100 100, rd_scalerCrop = mk_Rectangle 0 0 100 100, rd_updateScalerCrop = False,
      rd_ispMinCropSize = mk_Size 1 1, rd_dropFrameCount = n, rd_ispOutputCount = 0, rd_ipaBuffers = [],
      rd_lsTable = 3, rd_ipaCalls = []\<rparr>"

end
