(* ===== verification/RaspberrypiSystem.thy ===== *)
theory RaspberrypiSystem
  imports Raspberrypi
begin

text \<open>
  What the Raspberry Pi pipeline handler keeps true while it runs: frames are matched with the embedded data of
  the same time, requests complete in the order in which they were queued, nothing is completed while frames
  are dropped, and stopping completes everything.
\<close>

section \<open>Queueing buffers again\<close>

fun queue_list :: "'k v4l2_kernel \<Rightarrow> 'a heap_scheme \<Rightarrow> nat list \<Rightarrow> 'k RpiStream \<Rightarrow> 'k RpiStream option" where
  "queue_list K h [] s = Some s"
| "queue_list K h (b # bs) s =
     (case RpiStream_queueBuffer K h s (Some b) of None \<Rightarrow> None | Some (s, ret) \<Rightarrow> queue_list K h bs s)"

lemma queue_list_append:
  "queue_list K h (bs @ bs') s = Option.bind (queue_list K h bs s) (queue_list K h bs')"
  by (induction bs arbitrary: s) (auto split: option.splits)

lemma video_queueBuffer_heap:
  "h_bufs h' = h_bufs h \<Longrightarrow> V4L2VideoDevice_queueBuffer K k dev h' b = V4L2VideoDevice_queueBuffer K k dev h b"
  unfolding V4L2VideoDevice_queueBuffer_def by (simp only:)

lemma queueBuffer_heap:
  "h_bufs h' = h_bufs h \<Longrightarrow> RpiStream_queueBuffer K h' s b = RpiStream_queueBuffer K h s b"
  unfolding RpiStream_queueBuffer_def queue_or_wait_def RpiStream_queueToDevice_def
  by (simp only: video_queueBuffer_heap [of h' h])

lemma queue_list_heap: "h_bufs h' = h_bufs h \<Longrightarrow> queue_list K h' bs s = queue_list K h bs s"
  by (induction bs arbitrary: s) (simp_all add: queueBuffer_heap [of h' h] cong: option.case_cong)

lemma rd_streams_update [simp]: "rd_streams (d\<lparr>rd_streams := ss\<rparr>) = ss"
  by (cases d) simp

definition with_streams ::
    "('k, 'z) rpi_system \<Rightarrow> nat \<Rightarrow> 'k RPiCameraData \<Rightarrow> (rpi_stream \<Rightarrow> 'k RpiStream) \<Rightarrow> ('k, 'z) rpi_system" where
  "with_streams w c d ss = set_cameraData w c (d\<lparr>rd_streams := ss\<rparr>)"

lemma with_streams_same: "map_ok (s_cameraData w) \<Longrightarrow> cameraData w c = Some d \<Longrightarrow> with_streams w c d (rd_streams d) = w"
  by (simp add: with_streams_def set_cameraData_same)

lemma with_streams_simps [simp]:
  "h_bufs (with_streams w c d ss) = h_bufs w" "h_reqs (with_streams w c d ss) = h_reqs w"
  "map_ok (s_cameraData w) \<Longrightarrow> cameraData (with_streams w c d ss) c = Some (d\<lparr>rd_streams := ss\<rparr>)"
  "map_ok (s_cameraData w) \<Longrightarrow> map_ok (s_cameraData (with_streams w c d ss))"
  "with_streams (with_streams w c d ss) c (d\<lparr>rd_streams := ss'\<rparr>) ss'' = with_streams w c d ss''"
  "timestamp (with_streams w c d ss) b = timestamp w b"
  by (simp_all add: with_streams_def timestamp_def)

lemma stream_queue_some:
  assumes "map_ok (s_cameraData w)" "cameraData w c = Some d"
  shows "stream_queue env w c x b =
    (case RpiStream_queueBuffer (re_driver env x) w (rd_streams d x) b of
       None \<Rightarrow> None | Some (s, ret) \<Rightarrow> Some (with_streams w c d ((rd_streams d)(x := s)), ret))"
  using assms by (auto simp: stream_queue_def set_stream_def with_streams_def split: option.splits)

lemma requeue_all_some:
  assumes "map_ok (s_cameraData w)" "cameraData w c = Some d"
  shows "requeue_all env c x bs w =
    map_option (\<lambda>s. with_streams w c d ((rd_streams d)(x := s))) (queue_list (re_driver env x) w bs (rd_streams d x))"
  using assms
proof (induction bs arbitrary: w d)
  case Nil
  then have "with_streams w c d ((rd_streams d)(x := rd_streams d x)) = w"
    by (simp only: fun_upd_triv with_streams_same)
  then show ?case by (simp only: queue_list.simps option.map requeue_all.simps)
next
  case (Cons b bs)
  show ?case
  proof (cases "RpiStream_queueBuffer (re_driver env x) w (rd_streams d x) (Some b)")
    case None
    then show ?thesis using Cons.prems by (simp add: stream_queue_some)
  next
    case (Some p)
    obtain s ret where p: "p = (s, ret)" by fastforce
    let ?w = "with_streams w c d ((rd_streams d)(x := s))"
    have m: "map_ok (s_cameraData ?w)" "cameraData ?w c = Some (d\<lparr>rd_streams := (rd_streams d)(x := s)\<rparr>)"
      using Cons.prems by simp_all
    have ih: "requeue_all env c x bs ?w = map_option (\<lambda>s'. with_streams w c d ((rd_streams d)(x := s')))
        (queue_list (re_driver env x) w bs s)"
      unfolding Cons.IH [OF m] queue_list_heap [of ?w w, OF with_streams_simps(1)]
      by (simp only: with_streams_simps rd_streams_update fun_upd_upd fun_upd_same)
    show ?thesis unfolding requeue_all.simps stream_queue_some [OF Cons.prems]
      by (simp only: Some p option.case prod.case Option.bind.simps ih queue_list.simps)
  qed
qed

text \<open>The system after \<open>bs\<close> and \<open>es\<close> have been queued again to the two devices of Unicam.\<close>

definition requeued ::
    "'k rpi_env \<Rightarrow> nat \<Rightarrow> ('k, 'z) rpi_system \<Rightarrow> nat list \<Rightarrow> nat list \<Rightarrow> ('k, 'z) rpi_system option" where
  "requeued env c w bs es =
     do { d \<leftarrow> cameraData w c;
          s1 \<leftarrow> queue_list (re_driver env UnicamImage) w bs (rd_streams d UnicamImage);
          s2 \<leftarrow> queue_list (re_driver env UnicamEmbedded) w es (rd_streams d UnicamEmbedded);
          Some (with_streams w c d ((rd_streams d)(UnicamImage := s1, UnicamEmbedded := s2))) }"

lemma requeued_Nil: "map_ok (s_cameraData w) \<Longrightarrow> cameraData w c = Some d \<Longrightarrow> requeued env c w [] [] = Some w"
  by (simp add: requeued_def with_streams_same)

lemma requeued_append:
  assumes "map_ok (s_cameraData w)" "requeued env c w bs es = Some w1" "requeued env c w1 bs' es' = Some w2"
  shows "requeued env c w (bs @ bs') (es @ es') = Some w2"
proof -
  obtain d s1 s2 where d: "cameraData w c = Some d" "queue_list (re_driver env UnicamImage) w bs (rd_streams d UnicamImage) = Some s1"
    "queue_list (re_driver env UnicamEmbedded) w es (rd_streams d UnicamEmbedded) = Some s2"
    and w1: "w1 = with_streams w c d ((rd_streams d)(UnicamImage := s1, UnicamEmbedded := s2))"
    using assms(2) by (auto simp: requeued_def bind_eq_Some_conv)
  have h: "h_bufs w1 = h_bufs w" by (simp add: w1)
  from assms(3) assms(1) d show ?thesis
    unfolding requeued_def queue_list_heap [OF h] queue_list_append
    by (auto simp: bind_eq_Some_conv w1)
qed

lemma upd_other_triv: "x \<noteq> y \<Longrightarrow> f(x := a, y := f y) = f(x := a)"
  by (rule ext) simp

lemma requeued_image:
  "map_ok (s_cameraData w) \<Longrightarrow> cameraData w c = Some d \<Longrightarrow> requeue_all env c UnicamImage bs w = requeued env c w bs []"
  by (simp add: requeue_all_some requeued_def map_conv_bind_option comp_def upd_other_triv)

lemma requeued_embedded:
  "map_ok (s_cameraData w) \<Longrightarrow> cameraData w c = Some d \<Longrightarrow> requeue_all env c UnicamEmbedded es w = requeued env c w [] es"
  by (simp add: requeue_all_some requeued_def map_conv_bind_option comp_def)

lemma requeue_one: "(do { (w, ret) \<leftarrow> stream_queue env w c x (Some b); Some w }) = requeue_all env c x [b] w"
  by simp

section \<open>Matching\<close>

text \<open>The devices of Unicam accept buffers: they have a cache and the buffers have planes.\<close>

definition stream_ready :: "'k RpiStream \<Rightarrow> bool" where
  "stream_ready s \<longleftrightarrow> vd_cache (rs_dev s) \<noteq> None \<and> \<not> vd_output (rs_dev s)"

definition has_planes :: "'a heap_scheme \<Rightarrow> nat \<Rightarrow> bool" where
  "has_planes h b \<longleftrightarrow> fb_planes (h_bufs h b) \<noteq> [] \<and> length (fb_planes (h_bufs h b)) \<le> VIDEO_MAX_PLANES"

lemma stream_queue_ready:
  assumes "stream_ready s" "has_planes h b"
  shows "\<exists>s' ret. RpiStream_queueBuffer K h s (Some b) = Some (s', ret) \<and> stream_ready s' \<and> same_stream s s'"
proof (cases "rs_requestBuffers s = []")
  case True
  obtain cache where c: "vd_cache (rs_dev s) = Some cache" using assms(1) by (auto simp: stream_ready_def)
  obtain k dev ret where q: "V4L2VideoDevice_queueBuffer K (rs_kernel s) (rs_dev s) h b = Some (k, dev, ret)"
    using queueBuffer_Some [OF c, of h b K "rs_kernel s"] assms by (auto simp: stream_ready_def has_planes_def)
  from queueBuffer_video [OF q] assms(1) True q show ?thesis
    by (simp add: RpiStream_queueBuffer_def queue_or_wait_def RpiStream_queueToDevice_def stream_ready_def same_stream_def)
next
  case False
  with assms(1) show ?thesis
    by (simp add: RpiStream_queueBuffer_def queue_or_wait_def stream_ready_def same_stream_def)
qed

lemma queue_list_ready:
  "stream_ready s \<Longrightarrow> \<forall>b \<in> set bs. has_planes h b \<Longrightarrow>
   \<exists>s'. queue_list K h bs s = Some s' \<and> stream_ready s' \<and> same_stream s s'"
proof (induction bs arbitrary: s)
  case (Cons b bs)
  obtain s1 ret where q: "RpiStream_queueBuffer K h s (Some b) = Some (s1, ret)" "stream_ready s1" "same_stream s s1"
    using stream_queue_ready [OF Cons.prems(1)] Cons.prems(2) by (metis list.set_intros(1))
  from Cons.IH [OF q(2)] Cons.prems(2) q(1,3) show ?case by (auto intro: same_stream_trans)
qed simp

text \<open>What queueing buffers again leaves as it is.\<close>

definition same_camera :: "nat \<Rightarrow> ('k, 'z) rpi_system \<Rightarrow> ('k, 'z) rpi_system \<Rightarrow> bool" where
  "same_camera c w w' \<longleftrightarrow>
     (\<exists>d ss. cameraData w c = Some d \<and> w' = with_streams w c d ss \<and> (\<forall>x. same_stream (rd_streams d x) (ss x)))"

definition unicam_ready :: "nat \<Rightarrow> ('k, 'z) rpi_system \<Rightarrow> nat set \<Rightarrow> bool" where
  "unicam_ready c w B \<longleftrightarrow> map_ok (s_cameraData w) \<and>
     (\<exists>d. cameraData w c = Some d \<and> stream_ready (rd_streams d UnicamImage) \<and> stream_ready (rd_streams d UnicamEmbedded)) \<and>
     (\<forall>b \<in> B. has_planes w b)"

lemma same_camera_refl: "map_ok (s_cameraData w) \<Longrightarrow> cameraData w c = Some d \<Longrightarrow> same_camera c w w"
  by (auto simp: same_camera_def with_streams_same intro!: exI [of _ "rd_streams d"])

lemma same_camera_trans:
  assumes "map_ok (s_cameraData w)" "same_camera c w w1" "same_camera c w1 w2"
  shows "same_camera c w w2"
proof -
  obtain d ss where d: "cameraData w c = Some d" "w1 = with_streams w c d ss" "\<forall>x. same_stream (rd_streams d x) (ss x)"
    using assms(2) by (auto simp: same_camera_def)
  obtain ss' where "w2 = with_streams w1 c (d\<lparr>rd_streams := ss\<rparr>) ss'" "\<forall>x. same_stream (ss x) (ss' x)"
    using assms(1,3) d by (auto simp: same_camera_def)
  with d show ?thesis by (auto simp: same_camera_def intro: same_stream_trans)
qed

lemma same_camera_facts:
  assumes "map_ok (s_cameraData w)" "same_camera c w w'"
  shows "map_ok (s_cameraData w')" "h_bufs w' = h_bufs w" "h_reqs w' = h_reqs w" "timestamp w' b = timestamp w b"
    "bufferMap_size w' c x = bufferMap_size w c x" "has_planes w' b = has_planes w b"
  using assms by (auto simp: same_camera_def bufferMap_size_def same_stream_def has_planes_def)

lemma requeued_ready:
  assumes "unicam_ready c w B" "set bs \<subseteq> B" "set es \<subseteq> B"
  shows "\<exists>w'. requeued env c w bs es = Some w' \<and> same_camera c w w' \<and> unicam_ready c w' B"
proof -
  obtain d where d: "cameraData w c = Some d" "map_ok (s_cameraData w)" "stream_ready (rd_streams d UnicamImage)"
    "stream_ready (rd_streams d UnicamEmbedded)" and p: "\<forall>b \<in> B. has_planes w b"
    using assms(1) by (auto simp: unicam_ready_def)
  from p assms(2,3) have p': "\<forall>b \<in> set bs. has_planes w b" "\<forall>b \<in> set es. has_planes w b" by blast+
  from queue_list_ready [OF d(3) p'(1)] obtain s1 where
    s1: "queue_list (re_driver env UnicamImage) w bs (rd_streams d UnicamImage) = Some s1" "stream_ready s1"
      "same_stream (rd_streams d UnicamImage) s1" by blast
  from queue_list_ready [OF d(4) p'(2)] obtain s2 where
    s2: "queue_list (re_driver env UnicamEmbedded) w es (rd_streams d UnicamEmbedded) = Some s2" "stream_ready s2"
      "same_stream (rd_streams d UnicamEmbedded) s2" by blast
  let ?w = "with_streams w c d ((rd_streams d)(UnicamImage := s1, UnicamEmbedded := s2))"
  have "requeued env c w bs es = Some ?w" using d s1 s2 by (simp add: requeued_def)
  moreover have "same_camera c w ?w" unfolding same_camera_def using d s1 s2
    by (intro exI [of _ d] exI [of _ "(rd_streams d)(UnicamImage := s1, UnicamEmbedded := s2)"]) simp
  moreover have "unicam_ready c ?w B" using d s1 s2 p by (simp add: unicam_ready_def has_planes_def)
  ultimately show ?thesis by blast
qed

lemma skip_embedded_internal:
  assumes "map_ok (s_cameraData w)" "cameraData w c = Some d"
  shows "skip_embedded env c ts False es n w =
    do { w' \<leftarrow> requeue_all env c UnicamEmbedded (takeWhile (\<lambda>b. timestamp w b < ts) es) w;
         Some (w', dropWhile (\<lambda>b. timestamp w b < ts) es,
           (case dropWhile (\<lambda>b. timestamp w b < ts) es of [] \<Rightarrow> None | b # _ \<Rightarrow> if timestamp w b = ts then Some b else None),
           n + length (takeWhile (\<lambda>b. timestamp w b < ts) es)) }"
  using assms
proof (induction es arbitrary: w d n)
  case (Cons b es)
  show ?case
  proof (cases "timestamp w b < ts")
    case True
    show ?thesis
    proof (cases "RpiStream_queueBuffer (re_driver env UnicamEmbedded) w (rd_streams d UnicamEmbedded) (Some b)")
      case None
      then show ?thesis using Cons.prems True by (simp add: stream_queue_some)
    next
      case (Some p)
      obtain s ret where p: "p = (s, ret)" by fastforce
      let ?w = "with_streams w c d ((rd_streams d)(UnicamEmbedded := s))"
      have q: "stream_queue env w c UnicamEmbedded (Some b) = Some (?w, ret)"
        using Cons.prems Some p by (simp add: stream_queue_some)
      have m: "map_ok (s_cameraData ?w)" "cameraData ?w c = Some (d\<lparr>rd_streams := (rd_streams d)(UnicamEmbedded := s)\<rparr>)"
        using Cons.prems by simp_all
      note ih = Cons.IH [OF m, unfolded with_streams_simps(6)]
      show ?thesis using True by (simp add: q ih)
    qed
  qed auto
qed simp

lemma sorted_dropWhile:
  "sorted_wrt (\<lambda>x y. f x < f y) (xs :: 'b list) \<Longrightarrow> sorted_wrt (\<lambda>x y. f x < f y) (dropWhile P xs)"
  by (metis sorted_wrt_append takeWhile_dropWhile_id)

lemma find_unmatched:
  assumes "\<forall>y \<in> set ys. g y \<noteq> f x" "\<forall>z \<in> set xs. \<forall>y \<in> set (takeWhile P ys). g y \<noteq> f z"
  shows "find (\<lambda>z. \<exists>y \<in> set ys. g y = f z) (x # xs) = find (\<lambda>z. \<exists>y \<in> set (dropWhile P ys). g y = f z) xs"
proof -
  have "(\<exists>y \<in> set ys. g y = f z) = (\<exists>y \<in> set (dropWhile P ys). g y = f z)" if "z \<in> set xs" for z
  proof -
    have "set ys = set (takeWhile P ys) \<union> set (dropWhile P ys)"
      by (metis set_append takeWhile_dropWhile_id)
    with assms(2) that show ?thesis by blast
  qed
  then have "find (\<lambda>z. \<exists>y \<in> set ys. g y = f z) xs = find (\<lambda>z. \<exists>y \<in> set (dropWhile P ys). g y = f z) xs"
    by (intro find_cong) simp_all
  with assms(1) show ?thesis by auto
qed

abbreviation frame_time :: "'a heap_scheme \<Rightarrow> BayerFrame \<Rightarrow> u64" where
  "frame_time w f \<equiv> timestamp w (bf_buffer f)"

text \<open>
  What matching should do with frames and embedded data in the order of time: the first frame with data of
  the same time is the result, what is older goes back to the devices. Without one, a queue runs dry.
\<close>

definition matched ::
    "'k rpi_env \<Rightarrow> nat \<Rightarrow> ('k, 'z) rpi_system \<Rightarrow> BayerFrame list \<Rightarrow> nat list
      \<Rightarrow> ('k, 'z) rpi_system \<Rightarrow> BayerFrame list \<Rightarrow> nat list \<Rightarrow> (BayerFrame \<times> nat option) option \<Rightarrow> bool" where
  "matched env c w fs es w' fs' es' r \<longleftrightarrow>
     (\<exists>bs xs. requeued env c w (map bf_buffer bs) xs = Some w' \<and> same_camera c w w' \<and>
        (case find (\<lambda>f. \<exists>b \<in> set es. timestamp w b = frame_time w f) fs of
           Some f \<Rightarrow> \<exists>b. r = Some (f, Some b) \<and> timestamp w b = frame_time w f \<and>
             fs = bs @ f # fs' \<and> es = xs @ b # es'
         | None \<Rightarrow> r = None \<and> fs = bs @ fs' \<and> es = xs @ es' \<and> (fs' = [] \<or> es' = [])))"

lemma find_matching_spec:
  assumes "unicam_ready c w (bf_buffer ` set fs \<union> set es)" "cameraData w c = Some d"
    and "\<not> rs_external (rd_streams d UnicamEmbedded)" "rd_sensorMetadata d"
    and "sorted_wrt (\<lambda>f g. frame_time w f < frame_time w g) fs"
    and "sorted_wrt (\<lambda>a b. timestamp w a < timestamp w b) es"
    and "nb + length fs \<le> length (rs_bufferMap (rd_streams d UnicamImage))"
    and "ne + length es \<le> length (rs_bufferMap (rd_streams d UnicamEmbedded))"
  shows "\<exists>w' fs' es' r. find_matching env c fs es ne nb w = Some (w', fs', es', r) \<and> matched env c w fs es w' fs' es' r"
  using assms
proof (induction fs arbitrary: w es ne nb d)
  case Nil
  then show ?case
    by (auto simp: matched_def unicam_ready_def requeued_Nil intro: same_camera_refl intro!: exI [of _ "[]"])
next
  case (Cons f fs)
  let ?B = "bf_buffer ` set (f # fs) \<union> set es"
  let ?t = "frame_time w f"
  let ?P = "\<lambda>b. timestamp w b < ?t"
  let ?xs = "takeWhile ?P es" and ?rest = "dropWhile ?P es"
  have mo: "map_ok (s_cameraData w)" using Cons.prems(1) by (simp add: unicam_ready_def)
  have es: "es = ?xs @ ?rest" by simp
  have sub: "set ?xs \<subseteq> ?B" "set ?rest \<subseteq> ?B" by (auto dest: set_takeWhileD set_dropWhileD)
  obtain w1 where w1: "requeued env c w [] ?xs = Some w1" "same_camera c w w1" "unicam_ready c w1 ?B"
    using requeued_ready [OF Cons.prems(1) _ sub(1), of "[]" env] by auto
  note f1 = same_camera_facts [OF mo w1(2)]
  have skip: "skip_embedded env c ?t False es ne w = Some (w1, ?rest,
      (case ?rest of [] \<Rightarrow> None | b # _ \<Rightarrow> if timestamp w b = ?t then Some b else None), ne + length ?xs)"
    using w1(1) unfolding skip_embedded_internal [OF mo Cons.prems(2)] requeued_embedded [OF mo Cons.prems(2)] by simp
  have sizes: "bufferMap_size w1 c x = Some (length (rs_bufferMap (rd_streams d x)))" for x
    using f1(5) Cons.prems(2) by (simp add: bufferMap_size_def)
  show ?case
  proof (cases ?rest)
    case Nil
    then have xs: "?xs = es" by (metis append_Nil2 takeWhile_dropWhile_id)
    have skip': "skip_embedded env c ?t False es ne w = Some (w1, [], None, ne + length es)"
      using skip unfolding Nil xs by simp
    from xs have old: "\<forall>b \<in> set es. timestamp w b < ?t" by (metis set_takeWhileD)
    have nof: "find (\<lambda>f. \<exists>b \<in> set es. timestamp w b = frame_time w f) (f # fs) = None"
      using old Cons.prems(5) by (force simp: find_None_iff)
    show ?thesis
    proof (cases "ne + length es = length (rs_bufferMap (rd_streams d UnicamEmbedded))")
      case True
      obtain w2 where w2: "requeued env c w1 (map bf_buffer (f # fs)) [] = Some w2" "same_camera c w1 w2"
        using requeued_ready [OF w1(3), of "map bf_buffer (f # fs)" "[]" env] by auto
      obtain d1 where d1: "cameraData w1 c = Some d1" using w1(3) by (auto simp: unicam_ready_def)
      have ra: "requeue_all env c UnicamImage (map bf_buffer (f # fs)) w1 = Some w2"
        using w2(1) unfolding requeued_image [OF f1(1) d1] .
      have sz2: "bufferMap_size w2 c UnicamImage = Some (length (rs_bufferMap (rd_streams d UnicamImage)))"
        using same_camera_facts(5) [OF f1(1) w2(2)] sizes by simp
      have "find_matching env c (f # fs) es ne nb w = Some (w2, [], [], None)"
        using True Cons.prems(2-4) ra sz2
        by (simp add: skip' sizes requeue_all.simps(1) del: requeue_all.simps(2) list.map)
      moreover have "matched env c w (f # fs) es w2 [] [] None"
        unfolding matched_def nof using requeued_append [OF mo w1(1) w2(1)] same_camera_trans [OF mo w1(2) w2(2)] xs
        by (intro exI [of _ "f # fs"] exI [of _ es]) simp
      ultimately show ?thesis by blast
    next
      case False
      then have "find_matching env c (f # fs) es ne nb w = Some (w1, f # fs, [], None)"
        using False Cons.prems(2-4,7) by (simp add: skip' sizes)
      moreover have "matched env c w (f # fs) es w1 (f # fs) [] None"
        unfolding matched_def nof using w1(1,2) xs by (intro exI [of _ "[]"] exI [of _ es]) simp
      ultimately show ?thesis by blast
    qed
  next
    case (Cons b rest)
    have ge: "?t \<le> timestamp w b"
      using hd_dropWhile [of ?P es] Cons by (simp add: not_less)
    have b: "b \<in> set es" using Cons by (metis list.set_intros(1) set_dropWhileD)
    show ?thesis
    proof (cases "timestamp w b = ?t")
      case True
      have f: "find (\<lambda>f. \<exists>b \<in> set es. timestamp w b = frame_time w f) (f # fs) = Some f"
        using True b by auto
      have "find_matching env c (f # fs) es ne nb w = Some (w1, fs, rest, Some (f, Some b))"
        using skip True Cons.prems(2-4) unfolding Cons by simp
      moreover have "matched env c w (f # fs) es w1 fs rest (Some (f, Some b))"
        unfolding matched_def f using w1(1,2) True es Cons
        by (intro exI [of _ "[]"] exI [of _ ?xs]) simp
      ultimately show ?thesis by blast
    next
      case False
      with ge have gt: "?t < timestamp w b" by simp
      have rest: "\<forall>a \<in> set ?rest. ?t < timestamp w a"
        using sorted_dropWhile [OF Cons.prems(6), of ?P] gt unfolding Cons by auto
      have young: "\<forall>g \<in> set fs. \<forall>a \<in> set ?xs. timestamp w a \<noteq> frame_time w g"
        using Cons.prems(5) by (fastforce dest: set_takeWhileD)
      have "\<forall>a \<in> set es. timestamp w a \<noteq> ?t"
      proof
        fix a assume "a \<in> set es"
        then have "a \<in> set ?xs \<or> a \<in> set ?rest" by (metis Un_iff set_append es)
        then show "timestamp w a \<noteq> ?t" using rest by (auto dest: set_takeWhileD)
      qed
      note nof = find_unmatched [of es "timestamp w" "frame_time w" f fs ?P, OF this young]
      obtain w2 where w2: "requeued env c w1 [bf_buffer f] [] = Some w2" "same_camera c w1 w2" "unicam_ready c w2 ?B"
        using requeued_ready [OF w1(3), of "[bf_buffer f]" "[]" env] by auto
      note f2 = same_camera_facts [OF f1(1) w2(2)]
      obtain d1 where d1: "cameraData w1 c = Some d1" using w1(3) by (auto simp: unicam_ready_def)
      have rf: "requeue_all env c UnicamImage [bf_buffer f] w1 = Some w2"
        using w2(1) unfolding requeued_image [OF f1(1) d1] .
      obtain ret where sq: "stream_queue env w1 c UnicamImage (Some (bf_buffer f)) = Some (w2, ret)"
        using rf by (auto simp: bind_eq_Some_conv)
      have r12: "requeued env c w [bf_buffer f] ?xs = Some w2" "same_camera c w w2"
        using requeued_append [OF mo w1(1) w2(1)] same_camera_trans [OF mo w1(2) w2(2)] by simp_all
      have less: "ne + length ?xs < length (rs_bufferMap (rd_streams d UnicamEmbedded))"
        using Cons.prems(8) Cons arg_cong [OF es, of length] by simp
      have step: "find_matching env c (f # fs) es ne nb w =
        (if nb + 1 = length (rs_bufferMap (rd_streams d UnicamImage))
         then if fs \<noteq> [] then None else do { w \<leftarrow> requeue_all env c UnicamEmbedded ?rest w2; Some (w, [], [], None) }
         else find_matching env c fs ?rest (ne + length ?xs) (nb + 1) w2)"
        using skip False less sq Cons.prems(2-4) f2(5) unfolding Cons by (simp add: sizes)
      show ?thesis
      proof (cases "nb + 1 = length (rs_bufferMap (rd_streams d UnicamImage))")
        case True
        then have fs: "fs = []" using Cons.prems(7) by (cases fs) simp_all
        obtain w3 where w3: "requeued env c w2 [] ?rest = Some w3" "same_camera c w2 w3"
          using requeued_ready [OF w2(3) _ sub(2), of "[]" env] by auto
        obtain d2 where d2: "cameraData w2 c = Some d2" using w2(3) by (auto simp: unicam_ready_def)
        have "requeue_all env c UnicamEmbedded ?rest w2 = Some w3"
          using w3(1) unfolding requeued_embedded [OF f2(1) d2] .
        then have "find_matching env c (f # fs) es ne nb w = Some (w3, [], [], None)"
          unfolding step using True fs by (simp del: requeue_all.simps)
        moreover have "matched env c w (f # fs) es w3 [] [] None"
          using requeued_append [OF mo r12(1) w3(1)] same_camera_trans [OF mo r12(2) w3(2)] nof es fs
          unfolding matched_def by (intro exI [of _ "[f]"] exI [of _ es]) simp
        ultimately show ?thesis by blast
      next
        case no_flush: False
        obtain ss where d2: "cameraData w2 c = Some (d\<lparr>rd_streams := ss\<rparr>)" "\<forall>x. same_stream (rd_streams d x) (ss x)"
          using r12(2) mo Cons.prems(2) by (auto simp: same_camera_def)
        have len: "length es = length ?xs + length ?rest" by (metis es length_append)
        have "\<exists>w' fs' es' r. find_matching env c fs ?rest (ne + length ?xs) (nb + 1) w2 = Some (w', fs', es', r) \<and>
          matched env c w2 fs ?rest w' fs' es' r"
        proof (rule Cons.IH [OF _ d2(1)])
          show "unicam_ready c w2 (bf_buffer ` set fs \<union> set ?rest)"
            using w2(3) by (auto simp: unicam_ready_def dest: set_dropWhileD)
          show "\<not> rs_external (rd_streams (d\<lparr>rd_streams := ss\<rparr>) UnicamEmbedded)" "rd_sensorMetadata (d\<lparr>rd_streams := ss\<rparr>)"
            using d2(2) Cons.prems(3,4) by (simp_all add: same_stream_def)
          show "sorted_wrt (\<lambda>f g. frame_time w2 f < frame_time w2 g) fs"
            "sorted_wrt (\<lambda>a b. timestamp w2 a < timestamp w2 b) ?rest"
            using Cons.prems(5) sorted_dropWhile [OF Cons.prems(6)] f1(4) f2(4) by simp_all
          show "nb + 1 + length fs \<le> length (rs_bufferMap (rd_streams (d\<lparr>rd_streams := ss\<rparr>) UnicamImage))"
            "ne + length ?xs + length ?rest \<le> length (rs_bufferMap (rd_streams (d\<lparr>rd_streams := ss\<rparr>) UnicamEmbedded))"
            using Cons.prems(7,8) d2(2) len by (simp_all add: same_stream_def)
        qed
        then obtain w' fs' es' r where ih: "find_matching env c fs ?rest (ne + length ?xs) (nb + 1) w2 = Some (w', fs', es', r)"
          "matched env c w2 fs ?rest w' fs' es' r" by blast
        have tf: "timestamp w2 = timestamp w" by (rule ext) (simp add: f1(4) f2(4))
        have "matched env c w (f # fs) es w' fs' es' r"
        proof -
          obtain bs xs where m: "requeued env c w2 (map bf_buffer bs) xs = Some w'" "same_camera c w2 w'"
            "case find (\<lambda>f. \<exists>b \<in> set ?rest. timestamp w b = frame_time w f) fs of
               Some f \<Rightarrow> \<exists>b. r = Some (f, Some b) \<and> timestamp w b = frame_time w f \<and>
                 fs = bs @ f # fs' \<and> ?rest = xs @ b # es'
             | None \<Rightarrow> r = None \<and> fs = bs @ fs' \<and> ?rest = xs @ es' \<and> (fs' = [] \<or> es' = [])"
            using ih(2) unfolding matched_def tf by blast
          have whole: "es = ?xs @ zs" if "?rest = zs" for zs using es that by simp
          show ?thesis
            unfolding matched_def nof
            using requeued_append [OF mo r12(1) m(1)] same_camera_trans [OF mo r12(2) m(2)] m(3)
            by (intro exI [of _ "f # bs"] exI [of _ "?xs @ xs"])
              (auto split: option.splits dest: whole)
        qed
        with ih(1) step no_flush show ?thesis by auto
      qed
    qed
  qed
qed

section \<open>What the operations leave alone\<close>

definition core :: "'k RPiCameraData \<Rightarrow> nat list \<times> nat list \<times> rpi_state \<times> u32" where
  "core d = (cd_queuedRequests d, rd_requestQueue d, rd_state d, rd_dropFrameCount d)"

text \<open>An operation that touches neither the requests nor the state of the pipeline.\<close>

definition quiet :: "nat \<Rightarrow> ('k, 'z) rpi_system \<Rightarrow> ('k, 'z) rpi_system \<Rightarrow> bool" where
  "quiet c w w' \<longleftrightarrow> (map_ok (s_cameraData w) \<longrightarrow>
     map_ok (s_cameraData w') \<and> s_signals w' = s_signals w \<and> h_reqs w' = h_reqs w \<and> s_cams w' = s_cams w \<and>
     map_option core (cameraData w' c) = map_option core (cameraData w c))"

lemma quiet_refl [simp, intro]: "quiet c w w"
  by (simp add: quiet_def)

lemma quiet_then [trans]: "quiet c w w' \<Longrightarrow> quiet c w' w'' \<Longrightarrow> quiet c w w''"
  by (simp add: quiet_def)

lemma quiet_data: "cameraData w c = Some d \<Longrightarrow> core d' = core d \<Longrightarrow> quiet c w (set_cameraData w c d')"
  by (simp add: quiet_def)

lemma quiet_heap: "quiet c w (upd_buf w b f)"
  by (simp add: quiet_def)

lemma quiet_set_stream: "set_stream w c x s = Some w' \<Longrightarrow> quiet c w w'"
  by (auto simp: set_stream_def bind_eq_Some_conv core_def intro!: quiet_data)

lemma quiet_stream_queue: "stream_queue env w c x b = Some (w', ret) \<Longrightarrow> quiet c w w'"
  by (auto simp: stream_queue_def bind_eq_Some_conv quiet_set_stream)

lemma quiet_stream_return: "stream_return env w c x b = Some w' \<Longrightarrow> quiet c w w'"
  by (auto simp: stream_return_def bind_eq_Some_conv quiet_set_stream)

lemma quiet_ipa_send: "ipa_send w c m = Some w' \<Longrightarrow> quiet c w w'"
  by (auto simp: ipa_send_def bind_eq_Some_conv core_def intro!: quiet_data)

lemma quiet_external: "handleExternalBuffer w c b x = Some w' \<Longrightarrow> quiet c w w'"
  by (auto simp: handleExternalBuffer_def bind_eq_Some_conv Let_def quiet_set_stream split: if_splits)

lemma quiet_skip: "skip_embedded env c ts external es n w = Some (w', es', found, n') \<Longrightarrow> quiet c w w'"
proof (induction es arbitrary: n w external)
  case (Cons b bs)
  from Cons.prems show ?case
    by (auto simp: bind_eq_Some_conv split: if_splits dest!: quiet_stream_queue Cons.IH intro: quiet_then)
qed simp

lemma quiet_requeue_all: "requeue_all env c x bs w = Some w' \<Longrightarrow> quiet c w w'"
proof (induction bs arbitrary: w)
  case (Cons b bs)
  from Cons.prems show ?case by (auto simp: bind_eq_Some_conv dest!: quiet_stream_queue Cons.IH intro: quiet_then)
qed simp

lemma quiet_find_matching: "find_matching env c fs es ne nb w = Some (w', fs', es', r) \<Longrightarrow> quiet c w w'"
proof (induction fs arbitrary: es ne nb w)
  case (Cons f fs)
  from Cons.prems show ?case
    by (auto simp: bind_eq_Some_conv split: option.splits if_splits
        dest!: quiet_skip quiet_stream_queue quiet_requeue_all Cons.IH intro: quiet_then)
qed simp

lemma quiet_findMatching: "findMatchingBuffers env w c = Some (w', r) \<Longrightarrow> quiet c w w'"
  by (auto simp: findMatchingBuffers_def bind_eq_Some_conv core_def
      dest!: quiet_find_matching intro!: quiet_data elim!: quiet_then)

lemma quiet_scaler_crop: "applyScalerCrop env w c l = Some w' \<Longrightarrow> quiet c w w'"
  by (auto simp: applyScalerCrop_def bind_eq_Some_conv core_def Let_def split: if_splits prod.splits intro!: quiet_data)

section \<open>The queue of the handler and the queue of the camera\<close>

text \<open>
  The two queues agree, their requests are pending, and while the pipeline works on a frame there is a request.
\<close>

definition rpi_inv :: "nat \<Rightarrow> ('k, 'z) rpi_system \<Rightarrow> bool" where
  "rpi_inv c w \<longleftrightarrow> map_ok (s_cameraData w) \<and>
     (\<exists>d. cameraData w c = Some d \<and> rd_requestQueue d = cd_queuedRequests d \<and> distinct (rd_requestQueue d) \<and>
        (rd_state d = RpiBusy \<or> rd_state d = RpiIpaComplete \<longrightarrow> rd_requestQueue d \<noteq> [])) \<and>
     (\<forall>r \<in> set (queue_of w c). rq_camera (h_reqs w r) = c \<and> \<not> finished w r)"

lemma rpi_invD:
  assumes "rpi_inv c w" "cameraData w c = Some d"
  shows "map_ok (s_cameraData w)" "rd_requestQueue d = cd_queuedRequests d" "distinct (cd_queuedRequests d)"
    "queue_of w c = cd_queuedRequests d" "\<And>r. r \<in> set (cd_queuedRequests d) \<Longrightarrow> rq_camera (h_reqs w r) = c \<and> \<not> finished w r"
    "rd_state d = RpiBusy \<or> rd_state d = RpiIpaComplete \<Longrightarrow> cd_queuedRequests d \<noteq> []"
  using assms by (auto simp: rpi_inv_def queue_of_def)

text \<open>Operations that keep the invariant and the history of completions.\<close>

definition safe :: "nat \<Rightarrow> ('k, 'z) rpi_system \<Rightarrow> ('k, 'z) rpi_system \<Rightarrow> bool" where
  "safe c w w' \<longleftrightarrow> (rpi_inv c w \<longrightarrow> rpi_inv c w' \<and> history w' c = history w c)"

lemma safe_refl [simp, intro]: "safe c w w"
  by (simp add: safe_def)

lemma safe_trans [trans]: "safe c w w' \<Longrightarrow> safe c w' w'' \<Longrightarrow> safe c w w''"
  by (simp add: safe_def)

text \<open>
  The same queue and state, and requests that may lose pending buffers: what handling a finished buffer does.
\<close>

definition calm :: "nat \<Rightarrow> ('k, 'z) rpi_system \<Rightarrow> ('k, 'z) rpi_system \<Rightarrow> bool" where
  "calm c w w' \<longleftrightarrow> (map_ok (s_cameraData w) \<longrightarrow>
     map_ok (s_cameraData w') \<and> completed_by c (s_signals w') = completed_by c (s_signals w) \<and>
     (\<forall>r. rq_status (h_reqs w' r) = rq_status (h_reqs w r) \<and> rq_camera (h_reqs w' r) = rq_camera (h_reqs w r)) \<and>
     map_option core (cameraData w' c) = map_option core (cameraData w c))"

lemma calm_refl [simp, intro]: "calm c w w"
  by (simp add: calm_def)

lemma calm_trans [trans]: "calm c w w' \<Longrightarrow> calm c w' w'' \<Longrightarrow> calm c w w''"
  by (simp add: calm_def)

lemma quiet_calm: "quiet c w w' \<Longrightarrow> calm c w w'"
  by (simp add: quiet_def calm_def)

lemma calm_data:
  assumes "calm c w w'" "map_ok (s_cameraData w)" "cameraData w c = Some d"
  obtains d' where "cameraData w' c = Some d'" "core d' = core d" "map_ok (s_cameraData w')"
  using assms by (auto simp: calm_def)

lemma calm_safe: "calm c w w' \<Longrightarrow> safe c w w'"
proof -
  assume calm: "calm c w w'"
  { assume inv: "rpi_inv c w"
    then obtain d where d: "cameraData w c = Some d" by (auto simp: rpi_inv_def)
    note i = rpi_invD [OF inv d]
    from calm i(1) d obtain d' where d': "cameraData w' c = Some d'" "core d' = core d" "map_ok (s_cameraData w')"
      by (rule calm_data)
    have q: "queue_of w' c = queue_of w c" using d d' by (simp add: queue_of_def core_def)
    have "rpi_inv c w' \<and> history w' c = history w c"
      using calm i d d' q by (auto simp: rpi_inv_def calm_def core_def history_def) }
  then show ?thesis by (simp add: safe_def)
qed

lemma calm_completeBuffer: "PipelineHandler_completeBuffer w r b = Some (w', x) \<Longrightarrow> calm c w w'"
  by (auto simp: PipelineHandler_completeBuffer_def Request_completeBuffer_def Let_def calm_def cameraData_def
      FrameBuffer_setRequest_def upd_buf_def upd_req_def emit_def split: if_splits)

lemma calm_handleStreamBuffer: "handleStreamBuffer env w c b x = Some w' \<Longrightarrow> calm c w w'"
  by (auto simp: handleStreamBuffer_def bind_eq_Some_conv split: if_splits list.splits
      dest!: quiet_external quiet_stream_queue quiet_stream_return quiet_calm intro: quiet_calm
      elim: calm_trans calm_completeBuffer)

lemma safe_data:
  assumes "rpi_inv c w" "cameraData w c = Some d"
    and "cd_queuedRequests d' = cd_queuedRequests d" "rd_requestQueue d' = rd_requestQueue d"
    and "rd_state d' = RpiBusy \<or> rd_state d' = RpiIpaComplete \<Longrightarrow> cd_queuedRequests d \<noteq> []"
  shows "rpi_inv c (set_cameraData w c d') \<and> history (set_cameraData w c d') c = history w c"
proof -
  note i = rpi_invD [OF assms(1,2)]
  show ?thesis using i assms(3-5) by (auto simp: rpi_inv_def history_def)
qed

text \<open>Completing the request at the head of the queue, the others being pending.\<close>

lemma complete_head:
  assumes "rpi_inv c w" "cameraData w c = Some d" "cd_queuedRequests d = r # q"
    and "PipelineHandler_completeRequest w r = Some w'"
  shows "\<exists>w1. Request_complete w r = Some w1 \<and>
    w' = emit (set_cameraData w1 c (d\<lparr>cd_queuedRequests := q\<rparr>)) (RequestCompleted c r)"
proof -
  note i = rpi_invD [OF assms(1,2)]
  have r: "rq_camera (h_reqs w r) = c" "r \<notin> set q" using i(3,5) assms(3) by auto
  obtain w1 where w1: "Request_complete w r = Some w1"
    using assms(4) by (auto simp: PipelineHandler_completeRequest_def Let_def split: option.splits)
  note rc = Request_complete_system [OF w1]
  have d1: "cameraData w1 c = Some d" using assms(2) rc(2) by (simp add: cameraData_def)
  have cl: "complete_loop w1 c d (r # q) = Some w'"
    using assms(3,4) w1 d1 r(1) by (simp add: PipelineHandler_completeRequest_def)
  have fin: "finished w1 r" using rc(10) by simp
  have pend: "rq_status (h_reqs w1 x) = RequestPending" if "x \<in> set q" for x
    using that i(5) r(2) rc(9) assms(3) by (metis list.set_intros(2))
  let ?w2 = "emit (set_cameraData w1 c (d\<lparr>cd_queuedRequests := q\<rparr>)) (RequestCompleted c r)"
  have "complete_loop ?w2 c d q = Some w'"
    using cl fin by (auto simp: Camera_requestComplete_def split: if_splits)
  then have "w' = ?w2" using pend by (cases q) auto
  with w1 show ?thesis by blast
qed

lemma complete_head_safe:
  assumes "rpi_inv c w" "cameraData w c = Some d" "cd_queuedRequests d = r # q"
    and "PipelineHandler_completeRequest w r = Some w'"
    and "rd_requestQueue d2 = q" "cd_queuedRequests d2 = q" "rd_state d2 \<noteq> RpiBusy" "rd_state d2 \<noteq> RpiIpaComplete"
  shows "cameraData w' c = Some (d\<lparr>cd_queuedRequests := q\<rparr>)" "map_ok (s_cameraData w')"
    "rpi_inv c (set_cameraData w' c d2) \<and> history (set_cameraData w' c d2) c = history w c"
    "s_cams w' = s_cams w" "h_bufs w' = h_bufs w"
proof -
  note i = rpi_invD [OF assms(1,2)]
  obtain w1 where w1: "Request_complete w r = Some w1"
    "w' = emit (set_cameraData w1 c (d\<lparr>cd_queuedRequests := q\<rparr>)) (RequestCompleted c r)"
    using complete_head [OF assms(1-4)] by blast
  note rc = Request_complete_system [OF w1(1)]
  have mo: "map_ok (s_cameraData w1)" using i(1) rc(2) by simp
  show c': "cameraData w' c = Some (d\<lparr>cd_queuedRequests := q\<rparr>)" using mo by (simp add: w1(2))
  show mo': "map_ok (s_cameraData w')" using mo by (simp add: w1(2))
  show "s_cams w' = s_cams w" "h_bufs w' = h_bufs w" by (simp_all add: w1(2) rc)
  have rq: "rq_camera (h_reqs w' x) = c \<and> \<not> finished w' x" if "x \<in> set q" for x
  proof -
    have "x \<noteq> r" using that i(3) assms(3) by auto
    then show ?thesis using i(5) [of x] that assms(3) rc(9) by (simp add: w1(2))
  qed
  have inv: "rpi_inv c (set_cameraData w' c d2)"
    unfolding rpi_inv_def using mo' rq assms(5-8) i(3) assms(3) by auto
  moreover have "history (set_cameraData w' c d2) c = history w c"
    using mo' i(4) assms(3,6) rc(3) by (simp add: history_def w1(2))
  ultimately show "rpi_inv c (set_cameraData w' c d2) \<and> history (set_cameraData w' c d2) c = history w c" by simp
qed

lemma safe_check: "checkRequestCompleted w c = Some w' \<Longrightarrow> safe c w w'"
proof -
  assume ch: "checkRequestCompleted w c = Some w'"
  { assume inv: "rpi_inv c w"
    then obtain d where d: "cameraData w c = Some d" by (auto simp: rpi_inv_def)
    note i = rpi_invD [OF inv d]
    have "rpi_inv c w' \<and> history w' c = history w c"
    proof (cases "rd_dropFrameCount d = 0")
      case False
      with ch d inv show ?thesis
        by (auto simp: checkRequestCompleted_def split: if_splits intro!: safe_data [OF inv d, THEN conjunct1]
            safe_data [OF inv d, THEN conjunct2])
    next
      case True
      from ch d True obtain r q where q: "rd_requestQueue d = r # q"
        by (cases "rd_requestQueue d") (auto simp: checkRequestCompleted_def)
      show ?thesis
      proof (cases "hasPendingBuffers (h_reqs w r) \<or> rd_state d \<noteq> RpiIpaComplete")
        case True
        with ch d \<open>rd_dropFrameCount d = 0\<close> q have "w' = w" by (simp add: checkRequestCompleted_def)
        with inv show ?thesis by simp
      next
        case False
        with ch d True q obtain w1 d1 where w1: "PipelineHandler_completeRequest w r = Some w1" "cameraData w1 c = Some d1"
          "w' = set_cameraData w1 c (d1\<lparr>rd_requestQueue := tl (rd_requestQueue d1), rd_state := RpiIdle\<rparr>)"
          by (auto simp: checkRequestCompleted_def bind_eq_Some_conv)
        have dq: "cd_queuedRequests d = r # q" using i(2) q by simp
        note h = complete_head_safe [OF inv d dq w1(1)]
        have "d1 = d\<lparr>cd_queuedRequests := q\<rparr>"
          using h(1) [of "d\<lparr>rd_requestQueue := q, cd_queuedRequests := q, rd_state := RpiIdle\<rparr>"] w1(2) by simp
        then show ?thesis unfolding w1(3) by (intro h(3)) (simp_all add: q)
      qed
    qed }
  then show ?thesis by (simp add: safe_def)
qed

lemma quiet_coreD:
  assumes "quiet c w w'" "map_ok (s_cameraData w)" "cameraData w c = Some d"
  obtains d' where "cameraData w' c = Some d'" "core d' = core d" "map_ok (s_cameraData w')"
  using assms by (auto simp: quiet_def)

text \<open>Running the pipeline is quiet, but for the state, which becomes busy when there is a request.\<close>

lemma tryRun_cases:
  assumes "tryRunPipeline env w c = Some w'" "map_ok (s_cameraData w)"
  shows "quiet c w w' \<or>
    (\<exists>w1 d. quiet c w w1 \<and> cameraData w1 c = Some d \<and> rd_requestQueue d \<noteq> [] \<and>
       quiet c (set_cameraData w1 c (d\<lparr>rd_state := RpiBusy\<rparr>)) w')"
proof -
  obtain d where d: "cameraData w c = Some d" using assms by (auto simp: tryRunPipeline_def bind_eq_Some_conv)
  show ?thesis
  proof (cases "rd_requestQueue d = [] \<or> rd_state d \<noteq> RpiIdle \<or> rd_bayerQueue d = [] \<or> (rd_embeddedQueue d = [] \<and> rd_sensorMetadata d)")
    case True
    with assms d show ?thesis by (auto simp: tryRunPipeline_def split: list.splits)
  next
    case False
    then obtain r q where q: "rd_requestQueue d = r # q" by (cases "rd_requestQueue d") auto
    from assms(1) d q False obtain w1 found where f: "findMatchingBuffers env w c = Some (w1, found)"
      by (auto simp: tryRunPipeline_def bind_eq_Some_conv)
    show ?thesis
    proof (cases found)
      case None
      with assms(1) d q False f have "w' = w1" by (auto simp: tryRunPipeline_def bind_eq_Some_conv)
      with quiet_findMatching [OF f] show ?thesis by simp
    next
      case (Some p)
      obtain frame embedded where p: "p = (frame, embedded)" by fastforce
      from assms(1) d q False f Some p obtain w2 w3 d3 l m where
        w2: "applyScalerCrop env w1 c (rq_controls (h_reqs w r)) = Some w2"
        and w3: "ipa_send w2 c l = Some w3" "cameraData w3 c = Some d3"
        and w': "ipa_send (set_cameraData w3 c (d3\<lparr>rd_state := RpiBusy\<rparr>)) c m = Some w'"
        using quiet_findMatching [OF f] assms(2) by (auto simp: tryRunPipeline_def bind_eq_Some_conv Let_def quiet_def)
      have qt: "quiet c w w3"
        using quiet_findMatching [OF f] quiet_scaler_crop [OF w2] quiet_ipa_send [OF w3(1)] by (blast intro: quiet_then)
      have "rd_requestQueue d3 \<noteq> []" using quiet_coreD [OF qt assms(2) d] w3(2) q by (metis core_def list.distinct(1) option.inject prod.inject)
      with qt w3(2) quiet_ipa_send [OF w'] show ?thesis by blast
    qed
  qed
qed

lemma safe_tryRun: "tryRunPipeline env w c = Some w' \<Longrightarrow> safe c w w'"
proof -
  assume tr: "tryRunPipeline env w c = Some w'"
  { assume inv: "rpi_inv c w"
    then have mo: "map_ok (s_cameraData w)" by (simp add: rpi_inv_def)
    from tryRun_cases [OF tr mo] consider "quiet c w w'"
      | w1 d where "quiet c w w1" "cameraData w1 c = Some d" "rd_requestQueue d \<noteq> []"
        "quiet c (set_cameraData w1 c (d\<lparr>rd_state := RpiBusy\<rparr>)) w'" by blast
    then have "rpi_inv c w' \<and> history w' c = history w c"
    proof cases
      case 1
      with inv calm_safe [OF quiet_calm [OF 1]] show ?thesis by (simp add: safe_def)
    next
      case 2
      have i1: "rpi_inv c w1" "history w1 c = history w c"
        using calm_safe [OF quiet_calm [OF 2(1)]] inv by (simp_all add: safe_def)
      have "cd_queuedRequests d \<noteq> []" using rpi_invD(2) [OF i1(1) 2(2)] 2(3) by simp
      then have i2: "rpi_inv c (set_cameraData w1 c (d\<lparr>rd_state := RpiBusy\<rparr>))"
        "history (set_cameraData w1 c (d\<lparr>rd_state := RpiBusy\<rparr>)) c = history w1 c"
        using safe_data [OF i1(1) 2(2), of "d\<lparr>rd_state := RpiBusy\<rparr>"] by simp_all
      show ?thesis using calm_safe [OF quiet_calm [OF 2(4)]] i1(2) i2 by (simp add: safe_def)
    qed }
  then show ?thesis by (simp add: safe_def)
qed

lemma safe_handleState: "handleState env w c = Some w' \<Longrightarrow> safe c w w'"
proof -
  assume hs: "handleState env w c = Some w'"
  then obtain d where d: "cameraData w c = Some d" by (auto simp: handleState_def bind_eq_Some_conv)
  with hs show ?thesis
    by (cases "rd_state d") (auto simp: handleState_def bind_eq_Some_conv dest: safe_check safe_tryRun intro: safe_trans)
qed

section \<open>Events\<close>

text \<open>What may happen to the pipeline between the calls of the camera: devices, and signals of the IPA.\<close>

datatype rpi_event =
    BufferAvailable rpi_stream
  | FrameStarted u32
  | StatsMetadataComplete u32 ControlList
  | RunIsp u32
  | EmbeddedComplete u32
  | SetIspControls ControlList
  | SetDelayedControls ControlList

fun rpi_handle ::
    "'k rpi_env \<Rightarrow> nat \<Rightarrow> rpi_event \<Rightarrow> ('k, 'z) rpi_system \<Rightarrow> ('k, 'z) rpi_system option" where
  "rpi_handle env c (BufferAvailable x) w = rpi_bufferAvailable env w c x"
| "rpi_handle env c (FrameStarted n) w = frameStarted env w c n"
| "rpi_handle env c (StatsMetadataComplete i l) w = statsMetadataComplete env w c i l"
| "rpi_handle env c (RunIsp i) w = runIsp env w c i"
| "rpi_handle env c (EmbeddedComplete i) w = embeddedComplete env w c i"
| "rpi_handle env c (SetIspControls l) w = setIspControls env w c l"
| "rpi_handle env c (SetDelayedControls l) w = setDelayedControls env w c l"

lemma quiet_frameStarted: "frameStarted env w c n = Some w' \<Longrightarrow> quiet c w w'"
  by (auto simp: frameStarted_def bind_eq_Some_conv core_def Let_def intro!: quiet_data)

text \<open>Storing a count or the state of the controls, then running the state machine.\<close>

lemma safe_data_handleState:
  assumes "cameraData w c = Some d" "core d' = core d" "handleState env (set_cameraData w c d') c = Some w'"
  shows "safe c w w'"
  using calm_safe [OF quiet_calm [OF quiet_data [OF assms(1,2)]]] safe_handleState [OF assms(3)] by (rule safe_trans)

lemma safe_runIsp: "runIsp env w c i = Some w' \<Longrightarrow> safe c w w'"
proof -
  assume "runIsp env w c i = Some w'"
  then consider "w' = w"
    | w1 d1 where "quiet c w w1" "cameraData w1 c = Some d1"
      "handleState env (set_cameraData w1 c (d1\<lparr>rd_ispOutputCount := 0\<rparr>)) c = Some w'"
    by (auto simp: runIsp_def bind_eq_Some_conv split: if_splits dest: quiet_stream_queue)
  then show ?thesis
  proof cases
    case 2
    have "safe c w1 w'" by (rule safe_data_handleState [OF 2(2) _ 2(3)]) (simp add: core_def)
    with calm_safe [OF quiet_calm [OF 2(1)]] show ?thesis by (rule safe_trans)
  qed simp
qed

lemma safe_embedded: "embeddedComplete env w c i = Some w' \<Longrightarrow> safe c w w'"
  by (auto simp: embeddedComplete_def bind_eq_Some_conv split: if_splits
      dest!: calm_handleStreamBuffer safe_handleState intro: safe_trans [OF calm_safe])

lemma safe_ispControls: "setIspControls env w c l = Some w' \<Longrightarrow> safe c w w'"
  by (auto simp: setIspControls_def bind_eq_Some_conv Let_def split: prod.splits
      dest!: quiet_set_stream safe_handleState intro: safe_trans [OF calm_safe [OF quiet_calm]])

lemma safe_delayedControls: "setDelayedControls env w c l = Some w' \<Longrightarrow> safe c w w'"
proof -
  assume "setDelayedControls env w c l = Some w'"
  then obtain d where d: "cameraData w c = Some d"
    "handleState env (set_cameraData w c (d\<lparr>rd_delayed :=
       fst (DelayedControls_push (re_junk env) (rd_unicamControls d) (rd_delayed d) l)\<rparr>)) c = Some w'"
    by (cases "cameraData w c") (auto simp: setDelayedControls_def Let_def case_prod_unfold)
  show ?thesis by (rule safe_data_handleState [OF d(1) _ d(2)]) (simp add: core_def)
qed

lemma core_update_scaler_crop: "update_scaler_crop d = Some d' \<Longrightarrow> core d' = core d"
  by (auto simp: update_scaler_crop_def bind_eq_Some_conv core_def split: if_splits)

lemma calm_metadata: "calm c w (upd_req w r (\<lambda>rq. rq\<lparr>rq_metadata := l\<rparr>))"
  by (simp add: calm_def)

lemma safe_stats: "statsMetadataComplete env w c i l = Some w' \<Longrightarrow> safe c w w'"
proof -
  assume st: "statsMetadataComplete env w c i l = Some w'"
  { assume inv: "rpi_inv c w"
    from inv obtain d where d: "cameraData w c = Some d" by (auto simp: rpi_inv_def)
    from st consider "w' = w"
      | b w1 d1 r q d2 md where "handleStreamBuffer env w c b IspStats = Some w1" "cameraData w1 c = Some d1"
        "rd_requestQueue d1 = r # q" "update_scaler_crop d1 = Some d2"
        "handleState env (set_cameraData (upd_req w1 r (\<lambda>rq. rq\<lparr>rq_metadata := md\<rparr>)) c (d2\<lparr>rd_state := RpiIpaComplete\<rparr>)) c = Some w'"
    proof (cases "rd_state d = RpiStopped")
      case True
      with st d that(1) show ?thesis by (simp add: statsMetadataComplete_def)
    next
      case False
      with st d obtain b where b: "buffer_at d IspStats i = Some b" by (auto simp: statsMetadataComplete_def bind_eq_Some_conv)
      with st d False obtain w1 where w1: "handleStreamBuffer env w c b IspStats = Some w1"
        by (auto simp: statsMetadataComplete_def bind_eq_Some_conv)
      with st d False b obtain d1 where d1: "cameraData w1 c = Some d1"
        by (auto simp: statsMetadataComplete_def bind_eq_Some_conv)
      with st d False b w1 show ?thesis
        by (cases "rd_requestQueue d1") (auto simp: statsMetadataComplete_def bind_eq_Some_conv Let_def intro: that(2))
    qed
    then have "rpi_inv c w' \<and> history w' c = history w c"
    proof cases
      case 1
      with inv show ?thesis by simp
    next
      case 2
      let ?w2 = "upd_req w1 r (\<lambda>rq. rq\<lparr>rq_metadata := md\<rparr>)"
      have s2: "safe c w ?w2" using calm_safe [OF calm_handleStreamBuffer [OF 2(1)]] calm_safe [OF calm_metadata] by (rule safe_trans)
      then have inv2: "rpi_inv c ?w2" "history ?w2 c = history w c" using inv by (simp_all add: safe_def)
      have d1: "cameraData ?w2 c = Some d1" using 2(2) by simp
      have "cd_queuedRequests d1 \<noteq> []" using rpi_invD(2) [OF inv2(1) d1] 2(3) by auto
      then have "rpi_inv c (set_cameraData ?w2 c (d2\<lparr>rd_state := RpiIpaComplete\<rparr>)) \<and>
        history (set_cameraData ?w2 c (d2\<lparr>rd_state := RpiIpaComplete\<rparr>)) c = history ?w2 c"
        using core_update_scaler_crop [OF 2(4)] by (intro safe_data [OF inv2(1) d1]) (simp_all add: core_def)
      with safe_handleState [OF 2(5)] inv2 show ?thesis by (simp add: safe_def)
    qed }
  then show ?thesis by (simp add: safe_def)
qed

lemma safe_unicam: "unicamBufferDequeue env c w b = Some w' \<Longrightarrow> safe c w w'"
proof -
  assume u: "unicamBufferDequeue env c w b = Some w'"
  then obtain d where d: "cameraData w c = Some d" by (auto simp: unicamBufferDequeue_def bind_eq_Some_conv)
  show ?thesis
  proof (cases "rd_state d = RpiStopped")
    case True
    with u d show ?thesis by (simp add: unicamBufferDequeue_def)
  next
    case False
    with u d obtain x where x: "stream_of_buffer d [UnicamImage, UnicamEmbedded] b = Some x"
      by (auto simp: unicamBufferDequeue_def bind_eq_Some_conv)
    define d' where "d' = (if x = UnicamImage
        then d\<lparr>rd_bayerQueue := rd_bayerQueue d @
               [\<lparr>bf_buffer = b, bf_controls = DelayedControls_get (re_junk env) (rd_unicamControls d) (rd_delayed d)
                   (md_sequence (fb_metadata (h_bufs w b)))\<rparr>]\<rparr>
        else d\<lparr>rd_embeddedQueue := rd_embeddedQueue d @ [b]\<rparr>)"
    have "handleState env (set_cameraData w c d') c = Some w'"
      using u d False x by (simp add: unicamBufferDequeue_def d'_def Let_def)
    then show ?thesis by (rule safe_data_handleState [OF d, rotated]) (simp add: core_def d'_def)
  qed
qed

lemma safe_ispInput: "ispInputDequeue env c w b = Some w' \<Longrightarrow> safe c w w'"
  by (auto simp: ispInputDequeue_def bind_eq_Some_conv split: if_splits
      dest!: calm_handleStreamBuffer safe_handleState intro: safe_trans [OF calm_safe])

lemma safe_ispOutput: "ispOutputDequeue env c w b = Some w' \<Longrightarrow> safe c w w'"
proof -
  assume u: "ispOutputDequeue env c w b = Some w'"
  then obtain d where d: "cameraData w c = Some d" by (auto simp: ispOutputDequeue_def bind_eq_Some_conv)
  have "w' = w \<or> (\<exists>w1 d1. calm c w w1 \<and> cameraData w1 c = Some d1 \<and>
      handleState env (set_cameraData w1 c (d1\<lparr>rd_ispOutputCount := rd_ispOutputCount d1 + 1\<rparr>)) c = Some w')"
  proof (cases "rd_state d = RpiStopped")
    case True
    with u d show ?thesis by (simp add: ispOutputDequeue_def)
  next
    case False
    with u d obtain x where x: "stream_of_buffer d isp_streams b = Some x"
      by (auto simp: ispOutputDequeue_def bind_eq_Some_conv)
    show ?thesis
    proof (cases "x = IspStats")
      case True
      with u d False x show ?thesis
        by (fastforce simp: ispOutputDequeue_def bind_eq_Some_conv dest: quiet_calm [OF quiet_ipa_send])
    next
      case not_stats: False
      with u d False x show ?thesis
        by (fastforce simp: ispOutputDequeue_def bind_eq_Some_conv dest: calm_handleStreamBuffer)
    qed
  qed
  then consider "w' = w" | w1 d1 where "calm c w w1" "cameraData w1 c = Some d1"
      "handleState env (set_cameraData w1 c (d1\<lparr>rd_ispOutputCount := rd_ispOutputCount d1 + 1\<rparr>)) c = Some w'"
    by blast
  then show ?thesis
  proof cases
    case 2
    have "safe c w1 w'" by (rule safe_data_handleState [OF 2(2) _ 2(3)]) (simp add: core_def)
    with calm_safe [OF 2(1)] show ?thesis by (rule safe_trans)
  qed simp
qed

lemma safe_slot: "buffer_slot env c x w b = Some w' \<Longrightarrow> safe c w w'"
  by (cases x) (auto dest: safe_unicam safe_ispInput safe_ispOutput)

lemma dequeueBuffer_heap:
  "V4L2VideoDevice_dequeueBuffer K k dev w = Some (k', dev', w', b) \<Longrightarrow> quiet c w w'"
  by (auto simp: V4L2VideoDevice_dequeueBuffer_def Let_def split: prod.splits sum.splits option.splits if_splits
      intro: quiet_heap)

lemma safe_bufferAvailable: "rpi_bufferAvailable env w c x = Some w' \<Longrightarrow> safe c w w'"
proof -
  assume ba: "rpi_bufferAvailable env w c x = Some w'"
  then obtain d where d: "cameraData w c = Some d" by (auto simp: rpi_bufferAvailable_def bind_eq_Some_conv)
  let ?s = "rd_streams d x"
  from ba d obtain k dev w1 b where w1: "V4L2VideoDevice_dequeueBuffer (re_driver env x) (rs_kernel ?s) (rs_dev ?s) w = Some (k, dev, w1, b)"
    by (auto simp: rpi_bufferAvailable_def bind_eq_Some_conv Let_def)
  from ba d w1 obtain w2 where w2: "set_stream w1 c x (?s\<lparr>rs_kernel := k, rs_dev := dev\<rparr>) = Some w2"
    "(case b of None \<Rightarrow> Some w2 | Some buffer \<Rightarrow> buffer_slot env c x w2 buffer) = Some w'"
    by (auto simp: rpi_bufferAvailable_def bind_eq_Some_conv Let_def)
  have "quiet c w w2" using dequeueBuffer_heap [OF w1] quiet_set_stream [OF w2(1)] by (rule quiet_then)
  then have s: "safe c w w2" by (intro calm_safe quiet_calm)
  show ?thesis using w2(2) s by (cases b) (auto intro: safe_trans [OF s] safe_slot)
qed

lemma safe_event: "rpi_handle env c e w = Some w' \<Longrightarrow> safe c w w'"
  by (cases e) (auto dest: safe_bufferAvailable calm_safe [OF quiet_calm [OF quiet_frameStarted]] safe_stats safe_runIsp
      safe_embedded safe_ispControls safe_delayedControls)

section \<open>Queueing a request\<close>

lemma quiet_track: "track_buffer w c x b = Some w' \<Longrightarrow> quiet c w w'"
  by (auto simp: track_buffer_def bind_eq_Some_conv split: option.split_asm if_split_asm dest: quiet_set_stream)

lemma quiet_queue_request_streams: "queue_request_streams env c r xs w = Some (w', ret) \<Longrightarrow> quiet c w w'"
proof (induction xs arbitrary: w)
  case (Cons x xs)
  from Cons.prems obtain d where d: "cameraData w c = Some d" by (auto simp: bind_eq_Some_conv)
  show ?case
  proof (cases "rs_external (rd_streams d x)")
    case False
    with Cons.prems d show ?thesis by (simp add: Cons.IH)
  next
    case True
    from Cons.prems d True obtain w1 where t: "track_buffer w c x (Request_findBuffer w r (re_address env x)) = Some w1"
      by (auto simp: bind_eq_Some_conv Let_def)
    have w1: "quiet c w w1" using quiet_track [OF t] .
    from Cons.prems d True t obtain w2 ret2 where q: "stream_queue env w1 c x (Request_findBuffer w r (re_address env x)) = Some (w2, ret2)"
      "(case ret2 of Some e \<Rightarrow> Some (w2, Some e) | None \<Rightarrow> queue_request_streams env c r xs w2) = Some (w', ret)"
      by (auto simp: bind_eq_Some_conv Let_def)
    have w2: "quiet c w w2" using w1 quiet_stream_queue [OF q(1)] by (rule quiet_then)
    show ?thesis using q(2) w2 by (cases ret2) (auto dest!: Cons.IH intro: quiet_then)
  qed
qed simp

lemma queueRequest_joins:
  assumes inv: "rpi_inv c w" and r: "rq_camera (h_reqs w r) = c" "\<not> finished w r" "r \<notin> set (queue_of w c)"
    and q: "PipelineHandler_queueRequest (rpi_queueRequestDevice env) w r = Some w'"
  shows "rpi_inv c w' \<and> (history w' c = history w c @ [r] \<or> history w' c = history w c)"
proof -
  from inv obtain d where d: "cameraData w c = Some d" by (auto simp: rpi_inv_def)
  note i = rpi_invD [OF inv d]
  let ?d1 = "d\<lparr>cd_queuedRequests := cd_queuedRequests d @ [r], cd_requestSequence := cd_requestSequence d + 1\<rparr>"
  define w1 where "w1 = set_cameraData (upd_req w r (\<lambda>rq. rq\<lparr>rq_sequence := cd_requestSequence d\<rparr>)) c ?d1"
  have w1: "map_ok (s_cameraData w1)" "cameraData w1 c = Some ?d1" "s_signals w1 = s_signals w"
    "\<And>x. rq_camera (h_reqs w1 x) = rq_camera (h_reqs w x)" "\<And>x. rq_status (h_reqs w1 x) = rq_status (h_reqs w x)"
    using i(1) by (simp_all add: w1_def)
  from q r(1) d have q1: "(case rpi_queueRequestDevice env w1 c r of
      None \<Rightarrow> None | Some (w, None) \<Rightarrow> Some w
    | Some (w, Some e) \<Rightarrow> (case cameraData w c of None \<Rightarrow> None
        | Some data \<Rightarrow> Some (set_cameraData w c (data\<lparr>cd_queuedRequests := removeAll r (cd_queuedRequests data)\<rparr>)))) = Some w'"
    by (simp add: PipelineHandler_queueRequest_def w1_def)
  then obtain w2 ret where w2: "rpi_queueRequestDevice env w1 c r = Some (w2, ret)"
    by (cases "rpi_queueRequestDevice env w1 c r") auto
  have refused: ?thesis if "quiet c w1 w2" "ret \<noteq> None"
  proof -
    note qt = that(1)
    obtain d2 where d2: "cameraData w2 c = Some d2" "core d2 = core ?d1" "map_ok (s_cameraData w2)"
      using quiet_coreD [OF qt w1(1,2)] by blast
    have w': "w' = set_cameraData w2 c (d2\<lparr>cd_queuedRequests := cd_queuedRequests d\<rparr>)"
      using q1 w2 that(2) d2(1,2) i(4) r(3) by (auto simp: core_def)
    have "rpi_inv c w'" unfolding w' rpi_inv_def
      using d2 i that(1) w1 by (auto simp: core_def quiet_def)
    moreover have "history w' c = history w c"
      unfolding w' using d2(3) that(1) w1 i(4) by (simp add: history_def quiet_def)
    ultimately show ?thesis by simp
  qed
  show ?thesis
  proof (cases "rd_state d = RpiStopped")
    case True
    then have "w2 = w1" "ret = Some EINVAL" using w2 w1(2) by (simp_all add: rpi_queueRequestDevice_def)
    then show ?thesis by (intro refused) simp_all
  next
    case False
    with w2 w1(2) obtain w3 ret3 where w3: "queue_request_streams env c r (rpi_streams ?d1) w1 = Some (w3, ret3)"
      by (auto simp: rpi_queueRequestDevice_def bind_eq_Some_conv)
    have qt: "quiet c w1 w3" using w3 by (rule quiet_queue_request_streams)
    show ?thesis
    proof (cases ret3)
      case (Some e)
      then have "w2 = w3" "ret = Some e" using w2 w3 w1(2) False by (simp_all add: rpi_queueRequestDevice_def)
      then show ?thesis using qt by (intro refused) simp_all
    next
      case None
      obtain d3 where d3: "cameraData w3 c = Some d3" "core d3 = core ?d1" "map_ok (s_cameraData w3)"
        using quiet_coreD [OF qt w1(1,2)] by blast
      let ?w4 = "set_cameraData w3 c (d3\<lparr>rd_requestQueue := rd_requestQueue d3 @ [r]\<rparr>)"
      from w2 w3 w1(2) False None d3(1) have h: "handleState env ?w4 c = Some w2" "ret = None"
        by (auto simp: rpi_queueRequestDevice_def bind_eq_Some_conv)
      have w': "w' = w2" using q1 w2 h(2) by simp
      have "rpi_inv c ?w4" unfolding rpi_inv_def
        using d3 i qt w1 r by (auto simp: core_def quiet_def)
      moreover have "history ?w4 c = history w c @ [r]"
        using d3 qt w1(1,3) i(4) by (simp add: history_def quiet_def core_def)
      ultimately show ?thesis using safe_handleState [OF h(1)] unfolding w' by (simp add: safe_def)
    qed
  qed
qed

section \<open>Stopping\<close>

lemma quiet_queue_request_buffers: "queue_request_buffers env c xs r w = Some w' \<Longrightarrow> quiet c w w'"
proof (induction xs arbitrary: w)
  case (Cons x xs)
  from Cons.prems show ?case
    by (auto simp: bind_eq_Some_conv split: option.split_asm if_split_asm dest!: quiet_stream_queue Cons.IH intro: quiet_then)
qed simp

lemma quiet_queue_requests_buffers: "queue_requests_buffers env c xs rs w = Some w' \<Longrightarrow> quiet c w w'"
proof (induction rs arbitrary: w)
  case (Cons r rs)
  from Cons.prems show ?case
    by (auto simp: bind_eq_Some_conv dest!: quiet_queue_request_buffers Cons.IH intro: quiet_then)
qed simp

text \<open>A stopped pipeline ignores the buffers that its devices give back.\<close>

definition stopped :: "nat \<Rightarrow> ('k, 'z) rpi_system \<Rightarrow> bool" where
  "stopped c w \<longleftrightarrow> map_ok (s_cameraData w) \<and> (\<exists>d. cameraData w c = Some d \<and> rd_state d = RpiStopped)"

lemma quiet_stopped: "quiet c w w' \<Longrightarrow> stopped c w \<Longrightarrow> stopped c w'"
  by (auto simp: quiet_def stopped_def core_def)

lemma stopped_slot: "stopped c w \<Longrightarrow> buffer_slot env c x w b = Some w"
  by (cases x) (auto simp: stopped_def unicamBufferDequeue_def ispInputDequeue_def ispOutputDequeue_def)

lemma stopped_cancel:
  "stopped c w \<Longrightarrow> cancel_buffers (buffer_slot env c x) bs w = Some w' \<Longrightarrow> quiet c w w'"
proof (induction bs arbitrary: w)
  case (Cons b bs)
  let ?w = "upd_buf w b (\<lambda>fb. fb\<lparr>fb_metadata := (fb_metadata fb)\<lparr>md_status := FrameCancelled\<rparr>\<rparr>)"
  have st: "stopped c ?w" using quiet_stopped [OF quiet_heap Cons.prems(1)] .
  from Cons.prems(2) have "cancel_buffers (buffer_slot env c x) bs ?w = Some w'"
    by (simp add: stopped_slot [OF st])
  from quiet_then [OF quiet_heap Cons.IH [OF st this]] show ?case .
qed simp

lemma quiet_stream_off: "stopped c w \<Longrightarrow> stream_off env c x w = Some w' \<Longrightarrow> quiet c w w'"
  by (auto simp: stream_off_def bind_eq_Some_conv V4L2VideoDevice_streamOff_def Let_def
      split: if_split_asm prod.split_asm option.split_asm
      dest!: quiet_set_stream stopped_cancel intro: quiet_then)

lemma quiet_streams_off: "stopped c w \<Longrightarrow> streams_off env c xs w = Some w' \<Longrightarrow> quiet c w w'"
proof (induction xs arbitrary: w)
  case (Cons x xs)
  then obtain w1 where w1: "stream_off env c x w = Some w1" "streams_off env c xs w1 = Some w'"
    by (auto simp: bind_eq_Some_conv)
  have q: "quiet c w w1" using quiet_stream_off [OF Cons.prems(1) w1(1)] .
  from quiet_then [OF q Cons.IH [OF quiet_stopped [OF q Cons.prems(1)] w1(2)]] show ?case .
qed simp

lemma calm_complete_request_buffers: "complete_request_buffers env c xs r w = Some w' \<Longrightarrow> calm c w w'"
proof (induction xs arbitrary: w)
  case (Cons x xs)
  from Cons.prems show ?case
    by (auto simp: bind_eq_Some_conv split: option.split_asm if_split_asm
        dest!: calm_completeBuffer Cons.IH intro: calm_trans)
qed simp

lemma complete_requests_all:
  assumes "complete_requests env c xs rs w = Some w'" "rpi_inv c w" "cameraData w c = Some d" "rd_requestQueue d = rs"
    and "rd_state d = RpiStopped"
  shows "rpi_inv c w' \<and> stopped c w' \<and> queue_of w' c = [] \<and> history w' c = history w c \<and>
    (\<forall>r \<in> set rs. finished w' r) \<and> (\<forall>r. r \<notin> set rs \<longrightarrow> rq_status (h_reqs w' r) = rq_status (h_reqs w r))"
  using assms
proof (induction rs arbitrary: w d)
  case Nil
  then show ?case using rpi_invD [OF Nil(2,3)] by (simp add: stopped_def)
next
  case (Cons r rs)
  note i = rpi_invD [OF Cons.prems(2,3)]
  obtain w1 where w1: "complete_request_buffers env c xs r w = Some w1"
    using Cons.prems(1) by (auto simp: bind_eq_Some_conv)
  note ca = calm_complete_request_buffers [OF w1]
  obtain d1 where d1: "cameraData w1 c = Some d1" "core d1 = core d" "map_ok (s_cameraData w1)"
    using calm_data [OF ca i(1) Cons.prems(3)] by blast
  have inv1: "rpi_inv c w1" "history w1 c = history w c" using calm_safe [OF ca] Cons.prems(2) by (simp_all add: safe_def)
  have st1: "rq_status (h_reqs w1 x) = rq_status (h_reqs w x)" for x using ca i(1) by (simp add: calm_def)
  obtain w2 d2 where w2: "PipelineHandler_completeRequest w1 r = Some w2" "cameraData w2 c = Some d2"
    "complete_requests env c xs rs (set_cameraData w2 c (d2\<lparr>rd_requestQueue := rs\<rparr>)) = Some w'"
    using Cons.prems(1) w1 by (auto simp: bind_eq_Some_conv)
  have cq: "cd_queuedRequests d1 = r # rs" using d1(2) i(2) Cons.prems(4) by (simp add: core_def)
  let ?d3 = "d2\<lparr>rd_requestQueue := rs\<rparr>" and ?w3 = "set_cameraData w2 c (d2\<lparr>rd_requestQueue := rs\<rparr>)"
  note ch = complete_head_safe [OF inv1(1) d1(1) cq w2(1)]
  have d2: "d2 = d1\<lparr>cd_queuedRequests := rs\<rparr>"
    using ch(1) [of "d1\<lparr>rd_requestQueue := rs, cd_queuedRequests := rs, rd_state := RpiStopped\<rparr>"] w2(2) by simp
  have st: "rd_state d1 = RpiStopped" using d1(2) Cons.prems(5) by (simp add: core_def)
  have h3: "rpi_inv c ?w3" "history ?w3 c = history w1 c" "map_ok (s_cameraData w2)"
    using ch(2,3) [of ?d3] st by (simp_all add: d2)
  obtain w1r where cr: "Request_complete w1 r = Some w1r" "w2 = emit (set_cameraData w1r c (d1\<lparr>cd_queuedRequests := rs\<rparr>)) (RequestCompleted c r)"
    using complete_head [OF inv1(1) d1(1) cq w2(1)] by blast
  note rc = Request_complete_system [OF cr(1)]
  have "rpi_inv c w' \<and> stopped c w' \<and> queue_of w' c = [] \<and> history w' c = history ?w3 c \<and>
    (\<forall>r \<in> set rs. finished w' r) \<and> (\<forall>r. r \<notin> set rs \<longrightarrow> rq_status (h_reqs w' r) = rq_status (h_reqs ?w3 r))"
    using h3 st by (intro Cons.IH [OF w2(3) h3(1), of ?d3]) (simp_all add: d2)
  moreover have "r \<notin> set rs" using i(3) i(2) Cons.prems(4) by (metis distinct.simps(2))
  moreover have "finished ?w3 r" using rc(10) by (simp add: cr(2))
  moreover have "rq_status (h_reqs ?w3 x) = rq_status (h_reqs w x)" if "x \<noteq> r" for x
    using rc(9) [OF that] st1 by (simp add: cr(2))
  ultimately show ?case using h3(2) inv1(2) by auto
qed

lemma quiet_set_frame_start: "set_frame_start env w c e = Some w' \<Longrightarrow> quiet c w w'"
  by (auto simp: set_frame_start_def bind_eq_Some_conv core_def Let_def intro!: quiet_data)

lemma rpi_stop_inv:
  assumes "rpi_stop env w c = Some w'" "rpi_inv c w"
  shows "rpi_inv c w' \<and> queue_of w' c = [] \<and> history w' c = history w c \<and>
    (\<forall>r \<in> set (queue_of w c). finished w' r) \<and>
    (\<exists>d'. cameraData w' c = Some d' \<and> rd_state d' = RpiStopped \<and> rd_bayerQueue d' = [] \<and> rd_embeddedQueue d' = [] \<and>
       rd_ipaBuffers d' = [] \<and>
       (\<forall>x \<in> set (rpi_streams d'). rs_bufferMap (rd_streams d' x) = [] \<and> queues_of (rd_streams d' x) = ([], [])))"
proof -
  from assms(2) obtain d where d: "cameraData w c = Some d" by (auto simp: rpi_inv_def)
  note i = rpi_invD [OF assms(2) d]
  define w0 where "w0 = set_cameraData w c (d\<lparr>rd_state := RpiStopped\<rparr>)"
  have inv0: "rpi_inv c w0" "history w0 c = history w c"
    unfolding w0_def using safe_data [OF assms(2) d, of "d\<lparr>rd_state := RpiStopped\<rparr>"] by simp_all
  have st0: "stopped c w0" using i(1) by (simp add: stopped_def w0_def)
  from assms(1) d obtain w1 w2 d2 w3 where w: "set_frame_start env w0 c False = Some w1"
    "clearIncompleteRequests env w1 c = Some w2" "cameraData w2 c = Some d2"
    "ipa_send (set_cameraData w2 c (d2\<lparr>rd_bayerQueue := [], rd_embeddedQueue := []\<rparr>)) c IpaStop = Some w3"
    "rpi_freeBuffers env w3 c = Some w'"
    by (auto simp: rpi_stop_def bind_eq_Some_conv w0_def)
  from w(2) obtain d1 w1a w1b where c1: "cameraData w1 c = Some d1"
    "queue_requests_buffers env c (rpi_streams d1) (rd_requestQueue d1) w1 = Some w1a"
    "streams_off env c (rpi_streams d1) w1a = Some w1b"
    "complete_requests env c (rpi_streams d1) (rd_requestQueue d1) w1b = Some w2"
    by (auto simp: clearIncompleteRequests_def bind_eq_Some_conv)
  have q01: "quiet c w0 w1a" using quiet_set_frame_start [OF w(1)] quiet_queue_requests_buffers [OF c1(2)] by (rule quiet_then)
  have q: "quiet c w0 w1b" using quiet_then [OF q01 quiet_streams_off [OF quiet_stopped [OF q01 st0] c1(3)]] .
  have invb: "rpi_inv c w1b" "history w1b c = history w c" "stopped c w1b"
    using calm_safe [OF quiet_calm [OF q]] inv0 quiet_stopped [OF q st0] by (simp_all add: safe_def)
  obtain db where db: "cameraData w1b c = Some db" "rd_state db = RpiStopped" using invb(3) by (auto simp: stopped_def)
  have cores: "core db = core (d\<lparr>rd_state := RpiStopped\<rparr>)" "core d1 = core (d\<lparr>rd_state := RpiStopped\<rparr>)"
    using q quiet_set_frame_start [OF w(1)] i(1) db(1) c1(1) by (auto simp: quiet_def w0_def)
  then have rq: "rd_requestQueue db = rd_requestQueue d1" "rd_requestQueue d1 = queue_of w c"
    using i(2,4) by (simp_all add: core_def)
  from complete_requests_all [OF c1(4) invb(1) db(1) rq(1) db(2)]
  have fin: "rpi_inv c w2" "stopped c w2" "queue_of w2 c = []" "history w2 c = history w c"
    "\<forall>r \<in> set (queue_of w c). finished w2 r" using invb(2) rq(2) by simp_all
  have st2: "rd_state d2 = RpiStopped" using fin(2) w(3) by (simp add: stopped_def)
  let ?d3 = "d2\<lparr>rd_bayerQueue := [], rd_embeddedQueue := [], rd_ipaCalls := rd_ipaCalls d2 @ [IpaStop]\<rparr>"
  have mo2: "map_ok (s_cameraData w2)" using fin(2) by (simp add: stopped_def)
  have w3: "w3 = set_cameraData w2 c ?d3" using w(4) mo2 by (simp add: ipa_send_def)
  let ?d4 = "?d3\<lparr>rd_ipaCalls := rd_ipaCalls ?d3 @ [IpaUnmapBuffers (rd_ipaBuffers ?d3)], rd_ipaBuffers := [],
     rd_streams := (\<lambda>x. if x \<in> set (rpi_streams ?d3) then RpiStream_releaseBuffers (re_driver env x) (rd_streams ?d3 x)
                        else rd_streams ?d3 x)\<rparr>"
  have w': "w' = set_cameraData w2 c ?d4"
    using w(5) mo2 unfolding w3 rpi_freeBuffers_def by (simp del: RPiCameraData.simps)
  have "quiet c w2 w'" unfolding w' using w(3) by (rule quiet_data) (simp add: core_def)
  then have q2: "quiet c w2 w'" .
  have s: "rpi_inv c w'" "history w' c = history w c"
    using calm_safe [OF quiet_calm [OF q2]] fin by (simp_all add: safe_def)
  have s': "queue_of w' c = []" "\<forall>r \<in> set (queue_of w c). finished w' r"
    using q2 fin mo2 w(3) by (auto simp: quiet_def queue_of_def core_def)
  have "rs_bufferMap (rd_streams ?d4 x) = [] \<and> queues_of (rd_streams ?d4 x) = ([], [])" if "x \<in> set (rpi_streams ?d4)" for x
    using that by (simp add: rpi_streams_def RpiStream_releaseBuffers_def RpiStream_clearBuffers_def queues_of_def split: prod.splits)
  moreover have "cameraData w' c = Some ?d4" using mo2 by (simp add: w')
  ultimately show ?thesis using s s' st2 by auto
qed

section \<open>Starting\<close>

lemma quiet_fold_buf: "quiet c w (fold (\<lambda>(b, fb) h. upd_buf h b (\<lambda>_. fb)) xs w)"
proof (induction xs arbitrary: w)
  case (Cons x xs)
  then show ?case by (cases x) (auto intro: quiet_then [OF quiet_heap])
qed simp

lemma quiet_prepareBuffers: "RpiStream_prepareBuffers K place w s n = Some (w', s', ret) \<Longrightarrow> quiet c w w'"
  by (auto simp: RpiStream_prepareBuffers_def Let_def quiet_fold_buf
      split: if_split_asm prod.split_asm sum.split_asm option.split_asm)

lemma quiet_prepare_streams: "prepare_streams env c n xs w = Some (w', ret) \<Longrightarrow> quiet c w w'"
proof (induction xs arbitrary: w)
  case (Cons x xs)
  from Cons.prems obtain d where d: "cameraData w c = Some d" by (auto simp: bind_eq_Some_conv)
  from Cons.prems d obtain w1 s r1 where
    q: "RpiStream_prepareBuffers (re_driver env x) (re_place env x) w (rd_streams d x) n = Some (w1, s, r1)"
    by (auto simp: bind_eq_Some_conv)
  from Cons.prems d q obtain w2 where q': "set_stream w1 c x s = Some w2"
    and r: "(case r1 of Some e \<Rightarrow> Some (w2, Some e) | None \<Rightarrow> prepare_streams env c n xs w2) = Some (w', ret)"
    by (auto simp: bind_eq_Some_conv)
  have q2: "quiet c w w2" using quiet_prepareBuffers [OF q] quiet_set_stream [OF q'] by (rule quiet_then)
  show ?case using r q2 by (cases r1) (auto dest: Cons.IH intro: quiet_then)
qed simp

lemma quiet_mapBuffers: "mapBuffers w c bs m = Some w' \<Longrightarrow> quiet c w w'"
proof -
  assume "mapBuffers w c bs m = Some w'"
  then obtain d l f where "cameraData w c = Some d" "ipa_send (set_cameraData w c (d\<lparr>rd_ipaBuffers := l\<rparr>)) c f = Some w'"
    by (auto simp: mapBuffers_def bind_eq_Some_conv Let_def)
  then show ?thesis
    using quiet_then [OF quiet_data [of w c d "d\<lparr>rd_ipaBuffers := l\<rparr>"] quiet_ipa_send] by (simp add: core_def)
qed

lemma quiet_rpi_prepareBuffers: "rpi_prepareBuffers env w c = Some (w', ret) \<Longrightarrow> quiet c w w'"
  by (auto simp: rpi_prepareBuffers_def bind_eq_Some_conv split: option.split_asm if_split_asm
      dest!: quiet_prepare_streams quiet_mapBuffers intro: quiet_then)

lemma quiet_queue_any: "queue_any env c x n w = Some (w', ret) \<Longrightarrow> quiet c w w'"
proof (induction n arbitrary: w)
  case (Suc n)
  from Suc.prems show ?case
    by (auto simp: bind_eq_Some_conv split: option.split_asm dest!: quiet_stream_queue Suc.IH intro: quiet_then)
qed simp

lemma quiet_queue_streams: "queue_streams env c xs w = Some (w', ret) \<Longrightarrow> quiet c w w'"
proof (induction xs arbitrary: w)
  case (Cons x xs)
  from Cons.prems show ?case
    by (auto simp: bind_eq_Some_conv split: option.split_asm if_split_asm
        dest!: quiet_queue_any quiet_set_stream Cons.IH intro: quiet_then)
qed simp

lemma quiet_streams_on: "streams_on env c xs w = Some (w', ret) \<Longrightarrow> quiet c w w'"
proof (induction xs arbitrary: w)
  case (Cons x xs)
  from Cons.prems obtain d where d: "cameraData w c = Some d" by (auto simp: bind_eq_Some_conv)
  let ?s = "rd_streams d x"
  obtain k dev r1 where on: "V4L2VideoDevice_streamOn (re_driver env x) (rs_kernel ?s) (rs_dev ?s) = (k, dev, r1)"
    by (metis prod_cases3)
  from Cons.prems d on obtain w1 where w1: "set_stream w c x (?s\<lparr>rs_kernel := k, rs_dev := dev\<rparr>) = Some w1"
    "(case r1 of Some e \<Rightarrow> Some (w1, Some e) | None \<Rightarrow> streams_on env c xs w1) = Some (w', ret)"
    by (auto simp: bind_eq_Some_conv)
  then show ?case
    using quiet_set_stream [OF w1(1)] by (cases r1) (auto dest: Cons.IH intro: quiet_then)
qed simp

lemma safe_start_ipa: "start_ipa env w c controls = Some w' \<Longrightarrow> safe c w w'"
proof -
  assume st: "start_ipa env w c controls = Some w'"
  let ?l = "case controls of None \<Rightarrow> ControlList_new | Some l \<Rightarrow> l"
  obtain ctrls n where ip: "re_ipaStart env ?l = (ctrls, n)" by fastforce
  from st ip obtain w1 w2 d s where w: "(case controls of None \<Rightarrow> Some w | Some l \<Rightarrow> applyScalerCrop env w c l) = Some w1"
    "ipa_send w1 c (IpaStart ?l) = Some w2" "cameraData w2 c = Some d"
    "w' = set_cameraData w2 c (d\<lparr>rd_streams := s, rd_dropFrameCount := n\<rparr>)"
    by (auto simp: start_ipa_def bind_eq_Some_conv Let_def)
  have "quiet c w w1" using w(1) by (cases controls) (auto dest: quiet_scaler_crop)
  then have q: "safe c w w2" using quiet_ipa_send [OF w(2)] by (intro calm_safe quiet_calm) (rule quiet_then)
  { assume "rpi_inv c w"
    with q have i2: "rpi_inv c w2" "history w2 c = history w c" by (simp_all add: safe_def)
    have "rpi_inv c w' \<and> history w' c = history w2 c"
      unfolding w(4) using rpi_invD(6) [OF i2(1) w(3)] by (intro safe_data [OF i2(1) w(3)]) simp_all
    with i2 have "rpi_inv c w' \<and> history w' c = history w c" by simp }
  then show ?thesis by (simp add: safe_def)
qed

lemma safe_stop_with: "stop_with env c w e = Some (w', r) \<Longrightarrow> safe c w w'"
  using rpi_stop_inv by (fastforce simp: stop_with_def bind_eq_Some_conv safe_def)

lemma quiet_set_isp_format: "set_isp_format env w c = Some (w', r) \<Longrightarrow> quiet c w w'"
proof -
  assume f: "set_isp_format env w c = Some (w', r)"
  then obtain d where d: "cameraData w c = Some d" by (auto simp: set_isp_format_def bind_eq_Some_conv)
  obtain u i e where "re_ispFormat env (rs_kernel (rd_streams d UnicamImage)) (rs_kernel (rd_streams d IspInput)) = (u, i, e)"
    by (metis prod_cases3)
  with f d show ?thesis by (auto simp: set_isp_format_def core_def intro!: quiet_data)
qed

lemma quiet_reset_delayed: "reset_delayed env w c = Some w' \<Longrightarrow> quiet c w w'"
  by (auto simp: reset_delayed_def bind_eq_Some_conv core_def Let_def intro!: quiet_data)

lemma safe_start: "rpi_start env w c controls = Some (w', ret) \<Longrightarrow> safe c w w'"
proof -
  assume st: "rpi_start env w c controls = Some (w', ret)"
  then obtain w1 r1 where w1: "rpi_prepareBuffers env w c = Some (w1, r1)"
    by (auto simp: rpi_start_def bind_eq_Some_conv)
  have s1: "safe c w w1" using quiet_rpi_prepareBuffers [OF w1] by (intro calm_safe quiet_calm)
  show ?thesis
  proof (cases r1)
    case (Some e)
    with st w1 show ?thesis by (auto simp: rpi_start_def dest: safe_stop_with intro: safe_trans [OF s1])
  next
    case None
    with st w1 obtain w2 w3 r3 where w2: "start_ipa env w1 c controls = Some w2" "rpi_queueAllBuffers env w2 c = Some (w3, r3)"
      by (auto simp: rpi_start_def bind_eq_Some_conv)
    have "quiet c w2 w3" using w2(2) by (auto simp: rpi_queueAllBuffers_def bind_eq_Some_conv quiet_queue_streams)
    then have s3: "safe c w w3" using safe_trans [OF s1 safe_start_ipa [OF w2(1)]] by (blast intro: safe_trans calm_safe quiet_calm)
    show ?thesis
    proof (cases r3)
      case (Some e)
      with st w1 None w2 show ?thesis by (auto simp: rpi_start_def dest: safe_stop_with intro: safe_trans [OF s3])
    next
      case n3: None
      with st w1 None w2 obtain w4 r4 where w4: "set_isp_format env w3 c = Some (w4, r4)"
        by (auto simp: rpi_start_def bind_eq_Some_conv)
      have s4: "safe c w w4" using quiet_set_isp_format [OF w4] s3 by (blast intro: safe_trans calm_safe quiet_calm)
      show ?thesis
      proof (cases r4)
        case (Some e)
        with st w1 None w2 n3 w4 show ?thesis by (auto simp: rpi_start_def dest: safe_stop_with intro: safe_trans [OF s4])
      next
        case n4: None
        with st w1 None w2 n3 w4 obtain w5 w6 d6 w7 r7 where w5: "set_frame_start env w4 c True = Some w5"
          "reset_delayed env w5 c = Some w6" "cameraData w6 c = Some d6"
          "streams_on env c (rpi_streams d6) (set_cameraData w6 c (d6\<lparr>rd_state := RpiIdle\<rparr>)) = Some (w7, r7)"
          "(case r7 of Some e \<Rightarrow> stop_with env c w7 e | None \<Rightarrow> Some (w7, None)) = Some (w', ret)"
          by (auto simp: rpi_start_def bind_eq_Some_conv)
        have s6: "safe c w w6" using quiet_then [OF quiet_set_frame_start [OF w5(1)] quiet_reset_delayed [OF w5(2)]] s4
          by (blast intro: safe_trans calm_safe quiet_calm)
        have idle: "safe c w6 (set_cameraData w6 c (d6\<lparr>rd_state := RpiIdle\<rparr>))"
          unfolding safe_def using safe_data [OF _ w5(3), of "d6\<lparr>rd_state := RpiIdle\<rparr>"] by simp
        have s7: "safe c w w7" using safe_trans [OF s6 idle] quiet_streams_on [OF w5(4)] by (blast intro: safe_trans calm_safe quiet_calm)
        show ?thesis using w5(5) s7 by (cases r7) (auto dest: safe_stop_with intro: safe_trans [OF s7])
      qed
    qed
  qed
qed

section \<open>Dropping frames\<close>

definition dropping :: "nat \<Rightarrow> ('k, 'z) rpi_system \<Rightarrow> bool" where
  "dropping c w \<longleftrightarrow> map_ok (s_cameraData w) \<and> (\<exists>d. cameraData w c = Some d \<and> rd_dropFrameCount d \<noteq> 0)"

text \<open>No signal is emitted and no request changes, but for its metadata.\<close>

definition mute :: "('k, 'z) rpi_system \<Rightarrow> ('k, 'z) rpi_system \<Rightarrow> bool" where
  "mute w w' \<longleftrightarrow> s_signals w' = s_signals w \<and>
     (\<forall>r. rq_pending (h_reqs w' r) = rq_pending (h_reqs w r) \<and> rq_status (h_reqs w' r) = rq_status (h_reqs w r) \<and>
          rq_cancelled (h_reqs w' r) = rq_cancelled (h_reqs w r))"

lemma mute_refl [simp, intro]: "mute w w"
  by (simp add: mute_def)

lemma mute_trans [trans]: "mute w w' \<Longrightarrow> mute w' w'' \<Longrightarrow> mute w w''"
  by (simp add: mute_def)

lemma quiet_mute: "quiet c w w' \<Longrightarrow> map_ok (s_cameraData w) \<Longrightarrow> mute w w'"
  by (simp add: quiet_def mute_def)

lemma quiet_dropping: "quiet c w w' \<Longrightarrow> dropping c w \<Longrightarrow> dropping c w'"
  by (auto simp: quiet_def dropping_def core_def)

lemma quiet_handleStreamBuffer: "handleStreamBuffer env w c b x = Some w' \<Longrightarrow> dropping c w \<Longrightarrow> quiet c w w'"
  by (auto simp: handleStreamBuffer_def dropping_def bind_eq_Some_conv split: if_split_asm list.split_asm
      dest: quiet_stream_return quiet_stream_queue)

lemma mute_tryRun:
  assumes "tryRunPipeline env w c = Some w'" "map_ok (s_cameraData w)"
  shows "mute w w'"
  using tryRun_cases [OF assms] assms(2) by (auto simp: quiet_def mute_def)

lemma mute_check:
  assumes "checkRequestCompleted w c = Some w'" "dropping c w"
  shows "mute w w' \<and> map_ok (s_cameraData w')"
  using assms by (auto simp: checkRequestCompleted_def dropping_def mute_def split: if_split_asm)

lemma mute_handleState:
  assumes "handleState env w c = Some w'" "dropping c w"
  shows "mute w w'"
proof -
  obtain d where d: "cameraData w c = Some d" using assms(2) by (auto simp: dropping_def)
  have mo: "map_ok (s_cameraData w)" using assms(2) by (simp add: dropping_def)
  show ?thesis
  proof (cases "rd_state d")
    case RpiIpaComplete
    with assms(1) d obtain w1 where w1: "checkRequestCompleted w c = Some w1" "tryRunPipeline env w1 c = Some w'"
      by (auto simp: handleState_def bind_eq_Some_conv)
    with mute_check [OF w1(1) assms(2)] mute_tryRun [OF w1(2)] show ?thesis by (blast intro: mute_trans)
  qed (use assms(1) d mo in \<open>auto simp: handleState_def dest: mute_tryRun\<close>)
qed

lemma mute_then:
  assumes "dropping c w" "quiet c w w1" "dropping c w2" "mute w1 w2" "handleState env w2 c = Some w'"
  shows "mute w w'"
  using quiet_mute [OF assms(2)] assms(1,4) mute_handleState [OF assms(5,3)]
  by (auto simp: dropping_def intro: mute_trans)

lemma mute_data:
  assumes "dropping c w" "cameraData w c = Some d" "rd_dropFrameCount d' = rd_dropFrameCount d"
  shows "dropping c (set_cameraData w c d')" "mute w (set_cameraData w c d')"
  using assms by (auto simp: dropping_def mute_def)

lemma mute_after_stream:
  assumes "dropping c w" "handleStreamBuffer env w c b x = Some w1" "cameraData w1 c = Some d1"
    "rd_dropFrameCount d' = rd_dropFrameCount d1" "handleState env (set_cameraData w1 c d') c = Some w'"
  shows "mute w w'"
proof -
  have q: "quiet c w w1" by (rule quiet_handleStreamBuffer [OF assms(2,1)])
  note d1 = quiet_dropping [OF q assms(1)]
  show ?thesis by (rule mute_then [OF assms(1) q mute_data [OF d1 assms(3,4)] assms(5)])
qed

lemma mute_stats:
  assumes "statsMetadataComplete env w c i l = Some w'" "dropping c w"
  shows "mute w w'"
proof -
  obtain d where d: "cameraData w c = Some d" using assms(2) by (auto simp: dropping_def)
  show ?thesis
  proof (cases "rd_state d = RpiStopped")
    case True
    with assms(1) d show ?thesis by (simp add: statsMetadataComplete_def)
  next
    case False
    with assms(1) d obtain b w1 d1 where w1: "handleStreamBuffer env w c b IspStats = Some w1" "cameraData w1 c = Some d1"
      and r: "(case rd_requestQueue d1 of [] \<Rightarrow> None
             | request # _ \<Rightarrow> do {
                 d \<leftarrow> update_scaler_crop d1;
                 crop \<leftarrow> ControlValue_setT (re_junk env) ControlTypeRectangle bytes_Rectangle ControlValue_empty (rd_scalerCrop d);
                 metadata \<leftarrow> ControlList_set (re_junk env) l (re_ScalerCrop env) crop;
                 let w = upd_req w1 request (\<lambda>rq. rq\<lparr>rq_metadata := metadata\<rparr>);
                 handleState env (set_cameraData w c (d\<lparr>rd_state := RpiIpaComplete\<rparr>)) c }) = Some w'"
      by (auto simp: statsMetadataComplete_def bind_eq_Some_conv)
    from r obtain r q d2 md where q: "update_scaler_crop d1 = Some d2"
      "handleState env (set_cameraData (upd_req w1 r (\<lambda>rq. rq\<lparr>rq_metadata := md\<rparr>)) c (d2\<lparr>rd_state := RpiIpaComplete\<rparr>)) c = Some w'"
      by (cases "rd_requestQueue d1") (auto simp: bind_eq_Some_conv Let_def)
    let ?w2 = "upd_req w1 r (\<lambda>rq. rq\<lparr>rq_metadata := md\<rparr>)"
    have qt: "quiet c w w1" by (rule quiet_handleStreamBuffer [OF w1(1) assms(2)])
    have d1: "dropping c ?w2" using quiet_dropping [OF qt assms(2)] by (simp add: dropping_def)
    have m: "mute w1 ?w2" by (simp add: mute_def)
    have "rd_dropFrameCount (d2\<lparr>rd_state := RpiIpaComplete\<rparr>) = rd_dropFrameCount d1"
      using core_update_scaler_crop [OF q(1)] by (simp add: core_def)
    note md = mute_data [OF d1 _ this]
    show ?thesis using mute_then [OF assms(2) qt md(1) mute_trans [OF m md(2)] q(2)] w1(2) by simp
  qed
qed

lemma mute_quiet_then:
  assumes "dropping c w" "quiet c w w1" "cameraData w1 c = Some d1" "rd_dropFrameCount d' = rd_dropFrameCount d1"
    "handleState env (set_cameraData w1 c d') c = Some w'"
  shows "mute w w'"
  by (rule mute_then [OF assms(1,2) mute_data [OF quiet_dropping [OF assms(2,1)] assms(3,4)] assms(5)])

lemma mute_slot:
  assumes "buffer_slot env c x w b = Some w'" "dropping c w"
  shows "mute w w'"
proof -
  obtain d where d: "cameraData w c = Some d" using assms(2) by (auto simp: dropping_def)
  have unicam: ?thesis if u: "unicamBufferDequeue env c w b = Some w'"
  proof (cases "rd_state d = RpiStopped")
    case True
    with u d show ?thesis by (simp add: unicamBufferDequeue_def)
  next
    case False
    with u d obtain y where y: "stream_of_buffer d [UnicamImage, UnicamEmbedded] b = Some y"
      by (auto simp: unicamBufferDequeue_def bind_eq_Some_conv)
    show ?thesis
      using u d False y
      by (auto simp: unicamBufferDequeue_def Let_def split: if_split_asm
          intro: mute_quiet_then [OF assms(2) quiet_refl d, rotated])
  qed
  have inp: ?thesis if u: "ispInputDequeue env c w b = Some w'"
  proof (cases "rd_state d = RpiStopped")
    case False
    with u d obtain w1 where w1: "handleStreamBuffer env w c b UnicamImage = Some w1" "handleState env w1 c = Some w'"
      by (auto simp: ispInputDequeue_def bind_eq_Some_conv)
    have q: "quiet c w w1" by (rule quiet_handleStreamBuffer [OF w1(1) assms(2)])
    show ?thesis by (rule mute_then [OF assms(2) q quiet_dropping [OF q assms(2)] mute_refl w1(2)])
  qed (use u d in \<open>simp add: ispInputDequeue_def\<close>)
  have outp: ?thesis if u: "ispOutputDequeue env c w b = Some w'"
  proof (cases "rd_state d = RpiStopped")
    case False
    with u d obtain y where y: "stream_of_buffer d isp_streams b = Some y"
      by (auto simp: ispOutputDequeue_def bind_eq_Some_conv)
    from u d False y obtain w1 d1 where w1: "quiet c w w1" "cameraData w1 c = Some d1"
      "handleState env (set_cameraData w1 c (d1\<lparr>rd_ispOutputCount := rd_ispOutputCount d1 + 1\<rparr>)) c = Some w'"
      by (cases "y = IspStats")
        (fastforce simp: ispOutputDequeue_def bind_eq_Some_conv dest: quiet_ipa_send quiet_handleStreamBuffer [OF _ assms(2)])+
    show ?thesis by (rule mute_quiet_then [OF assms(2) w1(1,2) _ w1(3)]) simp
  qed (use u d in \<open>simp add: ispOutputDequeue_def\<close>)
  show ?thesis using assms(1) unicam inp outp by (cases x) simp_all
qed

lemma mute_bufferAvailable:
  assumes "rpi_bufferAvailable env w c x = Some w'" "dropping c w"
  shows "mute w w'"
proof -
  obtain d where d: "cameraData w c = Some d" using assms(2) by (auto simp: dropping_def)
  let ?s = "rd_streams d x"
  from assms(1) d obtain k dev w1 b where w1: "V4L2VideoDevice_dequeueBuffer (re_driver env x) (rs_kernel ?s) (rs_dev ?s) w = Some (k, dev, w1, b)"
    by (auto simp: rpi_bufferAvailable_def bind_eq_Some_conv Let_def)
  from assms(1) d w1 obtain w2 where w2: "set_stream w1 c x (?s\<lparr>rs_kernel := k, rs_dev := dev\<rparr>) = Some w2"
    "(case b of None \<Rightarrow> Some w2 | Some buffer \<Rightarrow> buffer_slot env c x w2 buffer) = Some w'"
    by (auto simp: rpi_bufferAvailable_def bind_eq_Some_conv Let_def)
  have q: "quiet c w w2" using dequeueBuffer_heap [OF w1] quiet_set_stream [OF w2(1)] by (rule quiet_then)
  have m: "mute w w2" using quiet_mute [OF q] assms(2) by (simp add: dropping_def)
  show ?thesis using w2(2) m
    by (cases b) (auto intro: mute_trans [OF m mute_slot [OF _ quiet_dropping [OF q assms(2)]]])
qed

lemma mute_event:
  assumes "rpi_handle env c e w = Some w'" "dropping c w"
  shows "mute w w'"
proof -
  obtain d where d: "cameraData w c = Some d" using assms(2) by (auto simp: dropping_def)
  have mo: "map_ok (s_cameraData w)" using assms(2) by (simp add: dropping_def)
  show ?thesis
  proof (cases e)
    case (BufferAvailable x)
    with assms show ?thesis by (auto intro: mute_bufferAvailable)
  next
    case (FrameStarted n)
    with assms(1) mo show ?thesis by (auto dest: quiet_frameStarted intro: quiet_mute)
  next
    case (StatsMetadataComplete i l)
    with assms show ?thesis by (auto intro: mute_stats)
  next
    case (RunIsp i)
    show ?thesis
    proof (cases "rd_state d = RpiStopped")
      case True
      with assms(1) d RunIsp show ?thesis by (simp add: runIsp_def)
    next
      case False
      with assms(1) d RunIsp obtain w1 d1 where "quiet c w w1" "cameraData w1 c = Some d1"
        "handleState env (set_cameraData w1 c (d1\<lparr>rd_ispOutputCount := 0\<rparr>)) c = Some w'"
        by (auto simp: runIsp_def bind_eq_Some_conv dest: quiet_stream_queue)
      then show ?thesis by (intro mute_quiet_then [OF assms(2)]) simp_all
    qed
  next
    case (EmbeddedComplete i)
    show ?thesis
    proof (cases "rd_state d = RpiStopped")
      case True
      with assms(1) d EmbeddedComplete show ?thesis by (simp add: embeddedComplete_def)
    next
      case False
      with assms(1) d EmbeddedComplete obtain b w1 where w1: "handleStreamBuffer env w c b UnicamEmbedded = Some w1"
        "handleState env w1 c = Some w'"
        by (auto simp: embeddedComplete_def bind_eq_Some_conv)
      have q: "quiet c w w1" by (rule quiet_handleStreamBuffer [OF w1(1) assms(2)])
      show ?thesis by (rule mute_then [OF assms(2) q quiet_dropping [OF q assms(2)] mute_refl w1(2)])
    qed
  next
    case (SetIspControls l)
    with assms(1) obtain w1 where w1: "quiet c w w1" "handleState env w1 c = Some w'"
      by (auto simp: setIspControls_def bind_eq_Some_conv Let_def dest: quiet_set_stream)
    show ?thesis by (rule mute_then [OF assms(2) w1(1) quiet_dropping [OF w1(1) assms(2)] mute_refl w1(2)])
  next
    case (SetDelayedControls l)
    with assms(1) d have "handleState env (set_cameraData w c (d\<lparr>rd_delayed :=
        fst (DelayedControls_push (re_junk env) (rd_unicamControls d) (rd_delayed d) l)\<rparr>)) c = Some w'"
      by (simp add: setDelayedControls_def Let_def case_prod_unfold)
    then show ?thesis by (intro mute_quiet_then [OF assms(2) quiet_refl d]) simp_all
  qed
qed

section \<open>Runs\<close>

text \<open>
  A run of the handler, with the requests that the camera delivered, in order: events, requests, start and stop,
  and what the camera and the application do elsewhere, which leaves the data of the camera and queued requests alone.
\<close>

inductive rpi_run :: "'k rpi_env \<Rightarrow> nat \<Rightarrow> ('k, 'z) rpi_system \<Rightarrow> nat list \<Rightarrow> ('k, 'z) rpi_system \<Rightarrow> bool"
  for env c w where
  run_begin: "rpi_run env c w [] w"
| run_event: "rpi_run env c w rs w1 \<Longrightarrow> rpi_handle env c e w1 = Some w2 \<Longrightarrow> rpi_run env c w rs w2"
| run_request: "rpi_run env c w rs w1 \<Longrightarrow> rq_camera (h_reqs w1 r) = c \<Longrightarrow> rq_status (h_reqs w1 r) = RequestPending \<Longrightarrow>
    r \<notin> set (queue_of w1 c) \<Longrightarrow> PipelineHandler_queueRequest (rpi_queueRequestDevice env) w1 r = Some w2 \<Longrightarrow>
    rpi_run env c w (rs @ [r]) w2"
| run_start: "rpi_run env c w rs w1 \<Longrightarrow> rpi_start env w1 c controls = Some (w2, ret) \<Longrightarrow> rpi_run env c w rs w2"
| run_stop: "rpi_run env c w rs w1 \<Longrightarrow> rpi_stop env w1 c = Some w2 \<Longrightarrow> rpi_run env c w rs w2"
| run_elsewhere: "rpi_run env c w rs w1 \<Longrightarrow> s_cameraData w2 = s_cameraData w1 \<Longrightarrow> s_signals w2 = s_signals w1 \<Longrightarrow>
    \<forall>r \<in> set (queue_of w1 c). h_reqs w2 r = h_reqs w1 r \<Longrightarrow> rpi_run env c w rs w2"

lemma rpi_run_inv:
  assumes "rpi_run env c w rs w'" "rpi_inv c w"
  shows "rpi_inv c w' \<and> (\<exists>rs'. subseq rs' rs \<and> history w' c = history w c @ rs')"
  using assms
proof (induction rule: rpi_run.induct)
  case run_begin
  then show ?case by auto
next
  case (run_event rs w1 e w2)
  with safe_event [OF run_event(2)] show ?case by (auto simp: safe_def)
next
  case (run_request rs w1 r w2)
  then obtain rs' where i: "rpi_inv c w1" "subseq rs' rs" "history w1 c = history w c @ rs'" by blast
  from queueRequest_joins [OF i(1) run_request(2) _ run_request(4,5)] run_request(3) have
    j: "rpi_inv c w2" "history w2 c = history w1 c @ [r] \<or> history w2 c = history w1 c" by simp_all
  from j(2) show ?case
  proof
    assume "history w2 c = history w1 c @ [r]"
    with i j(1) show ?thesis by (intro conjI exI [of _ "rs' @ [r]"]) (auto intro: list_emb_append_mono)
  next
    assume "history w2 c = history w1 c"
    with i j(1) show ?thesis by (intro conjI exI [of _ rs']) auto
  qed
next
  case (run_start rs w1 controls w2 ret)
  with safe_start [OF run_start(2)] show ?case by (auto simp: safe_def)
next
  case (run_stop rs w1 w2)
  then show ?case using rpi_stop_inv [OF run_stop(2)] by auto
next
  case (run_elsewhere rs w1 w2)
  have "cameraData w2 = cameraData w1" by (rule cameraData_cong [OF run_elsewhere(2)])
  then have "queue_of w2 c = queue_of w1 c" by (rule queue_of_cong)
  with run_elsewhere \<open>cameraData w2 = cameraData w1\<close> show ?case by (auto simp: rpi_inv_def history_def)
qed

section \<open>An example\<close>

definition example_time :: "nat \<Rightarrow> u64" where
  "example_time b = (if b = 1 then 10 else if b = 2 then 20 else if b = 11 then 20 else 30)"

definition example_rpi :: "nat list \<Rightarrow> u32 \<Rightarrow> (u32 list, unit) rpi_system" where
  "example_rpi requests n =
     \<lparr>h_bufs = (\<lambda>b. (FrameBuffer_new [\<lparr>pl_fd = 5, pl_length = 64\<rparr>])
        \<lparr>fb_request := (if b = 21 then Some 5 else if b = 22 then Some 6 else None),
         fb_metadata := \<lparr>md_status = FrameSuccess, md_sequence = 0, md_timestamp = example_time b, md_planes = []\<rparr>\<rparr>),
      h_reqs = (\<lambda>r. (Request_new [] (\<lambda>_ _. True) 0 0)
        \<lparr>rq_bufferMap := (if r = 5 then [(103, 21)] else [(103, 22)]), rq_pending := (if r = 5 then {21} else {22})\<rparr>),
      s_cams = (\<lambda>_. (CameraPrivate_new [] [100, 103, 104])\<lparr>cp_state := CameraRunning\<rparr>),
      s_streams = (\<lambda>_. StreamConfiguration_new []), s_mediaDevices = [], s_cameras = [0],
      s_cameraData = [(0, example_rpi_data requests n)], s_messages = [], s_signals = []\<rparr>"

lemma example_rpi_data_at: "cameraData (example_rpi rs n) 0 = Some (example_rpi_data rs n)"
  "map_ok (s_cameraData (example_rpi rs n))"
  by (simp_all add: example_rpi_def cameraData_def map_ok_def)

lemma example_rpi_inv: "distinct rs \<Longrightarrow> rpi_inv 0 (example_rpi rs n)"
  by (simp add: rpi_inv_def example_rpi_data_at queue_of_def)
    (simp add: example_rpi_data_def example_rpi_def Request_new_def)

section \<open>Properties\<close>



text \<open>
  C36. Whatever happens in whatever order, requests complete in the order in which the camera delivered them: the
  completed ones followed by the queued ones are the old ones followed by the delivered ones that the handler
  did not refuse. The handler's queue and the camera's agree, and while the pipeline works on a frame, they are
  not empty (the code reads the front without looking).
\<close>

theorem rpi_requests_in_order:
  assumes "rpi_run env c w rs w'" "rpi_inv c w"
  shows "\<exists>d' rs'. cameraData w' c = Some d' \<and> subseq rs' rs \<and>
    completed_by c (s_signals w') @ rd_requestQueue d' = completed_by c (s_signals w) @ queue_of w c @ rs' \<and>
    rd_requestQueue d' = cd_queuedRequests d' \<and>
    (rd_state d' = RpiBusy \<or> rd_state d' = RpiIpaComplete \<longrightarrow> rd_requestQueue d' \<noteq> [])"
proof -
  from rpi_run_inv [OF assms] obtain rs' where r: "rpi_inv c w'" "subseq rs' rs" "history w' c = history w c @ rs'" by blast
  from r(1) obtain d' where d: "cameraData w' c = Some d'" by (auto simp: rpi_inv_def)
  show ?thesis using r d rpi_invD [OF r(1) d] by (auto simp: history_def)
qed

theorem rpi_requests_in_order_witness:
  "\<exists>w' d'. PipelineHandler_queueRequest (rpi_queueRequestDevice example_rpi_env) (example_rpi [5] 0) 6 = Some w' \<and>
     cameraData w' 0 = Some d' \<and> rd_requestQueue d' = cd_queuedRequests d'"
proof -
  have "case PipelineHandler_queueRequest (rpi_queueRequestDevice example_rpi_env) (example_rpi [5] 0) 6 of
      None \<Rightarrow> False | Some w' \<Rightarrow> queue_of w' 0 = [5, 6]" by code_simp
  then obtain w' where w: "PipelineHandler_queueRequest (rpi_queueRequestDevice example_rpi_env) (example_rpi [5] 0) 6 = Some w'"
    by (auto split: option.splits)
  have "rpi_run example_rpi_env 0 (example_rpi [5] 0) ([] @ [6]) w'"
    by (rule run_request [OF run_begin _ _ _ w])
      (simp_all add: queue_of_def example_rpi_data_at, simp_all add: example_rpi_def Request_new_def example_rpi_data_def)
  from rpi_requests_in_order [OF this example_rpi_inv] w show ?thesis by auto
qed

text \<open>
  While frames are dropped at the start, nothing that a device or the IPA does completes a request or a
  buffer of one: no signal reaches the application, and no request changes but for its metadata.
\<close>

theorem dropped_frames_complete_nothing:
  assumes "rpi_handle env c e w = Some w'" "map_ok (s_cameraData w)" "cameraData w c = Some d"
    and "rd_dropFrameCount d \<noteq> 0"
  shows "s_signals w' = s_signals w \<and>
    rq_pending (h_reqs w' r) = rq_pending (h_reqs w r) \<and> rq_status (h_reqs w' r) = rq_status (h_reqs w r)"
proof -
  have "dropping c w" using assms by (simp add: dropping_def)
  from mute_event [OF assms(1) this] show ?thesis by (simp add: mute_def)
qed

theorem dropped_frames_complete_nothing_witness:
  "\<exists>w'. rpi_handle example_rpi_env 0 (EmbeddedComplete 0) (example_rpi [5] 2) = Some w' \<and> s_signals w' = []"
proof -
  have "case rpi_handle example_rpi_env 0 (EmbeddedComplete 0) (example_rpi [5] 2) of
      None \<Rightarrow> False | Some w' \<Rightarrow> True" by code_simp
  then obtain w' where w: "rpi_handle example_rpi_env 0 (EmbeddedComplete 0) (example_rpi [5] 2) = Some w'"
    by (auto split: option.splits)
  have "rd_dropFrameCount (example_rpi_data [5] 2) \<noteq> 0" by (simp add: example_rpi_data_def)
  from dropped_frames_complete_nothing [OF w example_rpi_data_at(2,1) this] w show ?thesis
    by (simp add: example_rpi_def)
qed



text \<open>
  An identifier sent to the IPA comes back as the frame it was given for: the bits that say what kind of
  buffer it is are masked away, and what is left finds the buffer.
\<close>

theorem frame_identifier_roundtrip:
  assumes "keys_ok (rd_streams d UnicamImage)" "\<not> rs_importOnly (rd_streams d UnicamImage)"
    and "find_buffer b (rs_bufferMap (rd_streams d UnicamImage)) = Some i" "and i MaskID = i"
  shows "buffer_at d UnicamImage (ipa_reply_id (or MaskBayerData (RpiStream_getBufferId (rd_streams d UnicamImage) b))) = Some b"
proof -
  have "and MaskBayerData MaskID = 0" by (simp add: MaskBayerData_def MaskID_def)
  then have "and (or MaskBayerData i) MaskID = i" using assms(4) by (simp add: bit.conj_disj_distrib2)
  then show ?thesis using assms
    by (simp add: buffer_at_def ipa_reply_id_def RpiStream_getBufferId_def keys_ok_def find_buffer_map_of)
qed

theorem frame_identifier_roundtrip_witness:
  "buffer_at (example_rpi_data [5] 0) UnicamImage
     (ipa_reply_id (or MaskBayerData (RpiStream_getBufferId (rd_streams (example_rpi_data [5] 0) UnicamImage) 2))) = Some 2"
  by (rule frame_identifier_roundtrip [where i = 1])
    (simp_all add: example_rpi_data_def example_rpi_stream_def keys_ok_def MaskID_def)

text \<open>
  For a frame in a buffer of the application the identifier does not come back: the IPA masks away the bit that
  marks external buffers as well, and the lookup aborts, unless the stream has an internal buffer of that number,
  which is then taken instead of the frame.
\<close>

theorem external_frame_identifier_lost:
  assumes "cameraData w c = Some d" "rd_state d \<noteq> RpiStopped" "\<not> rs_importOnly (rd_streams d UnicamImage)"
    and "find_buffer b (rs_bufferMap (rd_streams d UnicamImage)) = Some (or MaskExternalBuffer i)" "and i MaskID = i"
  shows "let i' = ipa_reply_id (or MaskBayerData (RpiStream_getBufferId (rd_streams d UnicamImage) b)) in
    i' = i \<and> (map_of (rs_bufferMap (rd_streams d UnicamImage)) i = None \<longrightarrow> runIsp env w c i' = None)"
proof -
  have "and MaskBayerData MaskID = 0" "and MaskExternalBuffer MaskID = 0"
    by (simp_all add: MaskBayerData_def MaskExternalBuffer_def MaskID_def)
  then have "and (or MaskBayerData (or MaskExternalBuffer i)) MaskID = i"
    using assms(5) by (simp add: bit.conj_disj_distrib2)
  then show ?thesis using assms
    by (simp add: Let_def ipa_reply_id_def RpiStream_getBufferId_def runIsp_def buffer_at_def)
qed

theorem external_frame_identifier_lost_witness:
  "runIsp example_rpi_env
     (set_cameraData (example_rpi [5] 0) 0
        ((example_rpi_data [5] 0)\<lparr>rd_streams := \<lambda>_. example_rpi_stream True False [(or MaskExternalBuffer 3, 50)]\<rparr>)) 0 3 = None"
proof -
  let ?d = "(example_rpi_data [5] 0)\<lparr>rd_streams := \<lambda>_. example_rpi_stream True False [(or MaskExternalBuffer 3, 50)]\<rparr>"
  let ?w = "set_cameraData (example_rpi [5] 0) 0 ?d"
  have d: "cameraData ?w 0 = Some ?d"
    by (simp add: example_rpi_data_at)
  have "let i' = ipa_reply_id (or MaskBayerData (RpiStream_getBufferId (rd_streams ?d UnicamImage) 50)) in
    i' = 3 \<and> (map_of (rs_bufferMap (rd_streams ?d UnicamImage)) 3 = None \<longrightarrow> runIsp example_rpi_env ?w 0 i' = None)"
    by (rule external_frame_identifier_lost [OF d])
      (simp_all add: example_rpi_stream_def MaskID_def, simp_all add: example_rpi_data_def)
  note e = this [unfolded Let_def]
  have "map_of (rs_bufferMap (rd_streams ?d UnicamImage)) 3 = None"
    by (simp add: example_rpi_stream_def MaskExternalBuffer_def)
  with e conjunct1 [OF e] show ?thesis by metis
qed

end
