(* ===== verification/Spec2Isabelle.thy ===== *)
theory Spec2Isabelle
  imports Prelude FrameList KCamera Streamer CameraObject Encoder EncoderObject Geometry Bytes Controls ByteStream ControlSerializer Streams Requests MediaDevice CameraState Transforms Pipeline Camera CameraApp VideoDevice Uvc UvcSystem Formats Bayer V4L2Device VideoFormat DelayedControls RpiStream Raspberrypi RaspberrypiSystem
begin

text \<open>
  KCamera: the Python camera and encoder modules of \<open>src/\<close>, and the parts of libcamera (bundled under
  \<open>src/libcamera/\<close>) that carry a request from the application to a device and back.

  The program. \<open>kcameramodule.c\<close> and \<open>streamer.c\<close> are what Python sees: a camera with parameters, live
  streams, recordings. \<open>kcamera.c\<close> keeps the one global state: the frame that waits for the live stream, the
  recording that runs, the parameters. \<open>framelist.c\<close> is a recording, a linked list of frames with a time
  window and a read position. \<open>run.cpp\<close> and \<open>libcamera_app.hpp\<close> drive libcamera and hand each image to
  \<open>kcFrameData\<close>. \<open>kencoder/\<close> encodes frames on a V4L2 codec. In libcamera, \<open>Camera\<close> checks the state machine
  and queues requests to a \<open>PipelineHandler\<close>, which queues the buffers to a \<open>V4L2VideoDevice\<close> and completes
  requests in order.

  Theories and code, in the order of imports:
  \<^item> \<open>Prelude\<close>: machine integers, conversions, error codes, the order locale, maps.
  \<^item> \<open>FrameList\<close> (\<open>framelist.c\<close>): an explicit heap \<open>cmem\<close> of nodes and frames; freeing unmaps an address, and
    \<open>None\<close> as the result of an operation is undefined behaviour (a null or freed pointer). \<open>flist mem l ps\<close>
    says that \<open>l\<close> is a list with the nodes and frames \<open>ps\<close>; \<open>append_list\<close> is the abstract specification of an
    append, which \<open>flistAppend\<close> refines.
  \<^item> \<open>KCamera\<close> (\<open>kcamera.c\<close>, control functions of \<open>run.cpp\<close>): the state \<open>KcState\<close> extends the heap;
    \<open>kc_inv w R P\<close> is the ownership invariant. Floating point is the record \<open>float_ops\<close>.
  \<^item> \<open>Streamer\<close> (\<open>streamer.c\<close>, \<open>dobj.c\<close>, \<open>camera_record\<close>): stream objects, files; \<open>kc_step\<close> puts all operations
    in any order, and its invariant is the main theorem about the camera module.
  \<^item> \<open>Encoder\<close> (\<open>kencoder/\<close>): the encoder over a codec device that is a record of functions.
  \<^item> \<open>CameraObject\<close>, \<open>EncoderObject\<close> (\<open>kcameramodule.c\<close>, \<open>kencodermodule.c\<close>): the Python objects, which extend the
    states of the two modules; \<open>py_ops\<close> are the conversions of the interpreter, \<open>py_args\<close> what its parser leaves.
  \<^item> \<open>Geometry\<close>, \<open>Transforms\<close>, \<open>Streams\<close>: \<open>geometry.cpp\<close>, \<open>transform.cpp\<close>, \<open>stream.cpp\<close>, \<open>pixel_format.h\<close>.
  \<^item> \<open>Bytes\<close>, \<open>Controls\<close>, \<open>ByteStream\<close>, \<open>ControlSerializer\<close>: control values as typed bytes, lists and maps of
    controls, cursors over memory, and the serializer; the locale \<open>pod\<close> is the encoding of a plain type, the
    locale \<open>control_type\<close> that of the type of a control, both interpreted on every type of the code.
  \<^item> \<open>Requests\<close>, \<open>CameraState\<close>, \<open>Pipeline\<close>, \<open>Camera\<close>: \<open>request.cpp\<close>, \<open>pipeline_handler.cpp\<close>, \<open>camera.cpp\<close>,
    \<open>framebuffer_allocator.cpp\<close> over one heap of buffers and requests. The virtual functions of a pipeline
    handler are a record; the locale \<open>pipeline_contract\<close> says what they must keep.
  \<^item> \<open>VideoDevice\<close>, \<open>Uvc\<close>, \<open>UvcSystem\<close>: \<open>v4l2_videodevice.cpp\<close> (buffers), the pipeline handler of USB cameras, and
    both under the camera: \<open>uvc_step\<close> are all calls and events of a USB camera, and \<open>pipeline_contract\<close> is
    interpreted on it.
  \<^item> \<open>Formats\<close>, \<open>Bayer\<close> (\<open>formats.yaml\<close>, \<open>gen-formats.py\<close>, \<open>formats.cpp\<close>, \<open>v4l2_pixelformat.cpp\<close>, \<open>pixel_format.cpp\<close>,
    \<open>bayer_format.cpp\<close>): the format constants as the generator makes them, the tables in the order of the code (a
    map keeps the first of equal keys, \<open>map_emplace\<close>), strides and frame sizes in 32 bits, and the raw formats with
    the mosaic of colours (\<open>colour_at\<close>) as the meaning that \<open>transform\<close> must keep.
  \<^item> \<open>V4L2Device\<close>, \<open>DelayedControls\<close>: \<open>v4l2_device.cpp\<close>, \<open>v4l2_controls.cpp\<close>, \<open>delayed_controls.cpp\<close>: the controls of a
    device over a driver that is a record of functions, and rings of control values that a sensor applies with
    a delay; \<open>tracked\<close> relates the rings to an unbounded log of what was queued and what was written.
  \<^item> \<open>VideoFormat\<close> (\<open>v4l2_videodevice.cpp\<close>: opening, capabilities, formats; \<open>V4L2M2MDevice\<close>): the parts of the
    device above joined to one handle, whose notifier pointer may dangle, and the formats over a driver that is a
    record of functions; \<open>lists_formats\<close> and \<open>lists_sizes\<close> are what the kernel documents for enumeration.
  \<^item> \<open>RpiStream\<close>, \<open>Raspberrypi\<close>, \<open>RaspberrypiSystem\<close> (\<open>pipeline/raspberrypi/\<close>): the streams of the handler, with buffers of
    their own and of the application, refining an abstract server of requests (\<open>serve\<close>); the run time of the
    handler over the requests of \<open>Pipeline\<close> (\<open>RPiCameraData\<close> extends the camera data; \<open>None\<close> is an assertion, an
    exception or an access to an empty queue); and \<open>rpi_run\<close>, every order of calls, device events and signals of
    the IPA, with the invariant \<open>rpi_inv\<close>. Messages to the IPA are recorded in order; its answers are events.
  \<^item> \<open>CameraApp\<close> (\<open>libcamera_app.hpp\<close>, the capture loop of \<open>run.cpp\<close>): the application object over the camera of
    \<open>Camera\<close> and the module state of \<open>KCamera\<close>; \<open>app_step\<close> are the turns of the loop, the completions and what the
    camera and other threads may do between them, \<open>app_inv\<close> the ownership of requests and buffers.
  \<^item> \<open>MediaDevice\<close>: \<open>media_device.cpp\<close>, \<open>media_object.cpp\<close>: the graph of entities, pads and links.

  What the lemmas show. Lemmas \<open>*_chain\<close> of \<open>FrameList\<close> give each operation on a well-formed list; \<open>*_inv\<close>
  the invariant kept by an operation; \<open>*_witness\<close> apply a property to a concrete state. Properties have a
  claim number, in the order of importance: ownership of memory and recordings, files, the live stream,
  order and completion of requests, the encoder, then the libraries below.

  Parameters and bounds. Code that is not in the repository is a parameter: the kernel's replies (records of
  functions over a kernel state), floating-point arithmetic, \<open>malloc\<close> (an argument: the new address, or
  nothing), the clock, the network of threads (a call that waits is a predicate that says when it may go on,
  then a step; a mutex makes a function one step). What such code promises is a named hypothesis
  (\<open>driver_promise\<close>, \<open>codec_promise\<close>, \<open>codec_works\<close>), shown to hold for a simulated device. There is no fuel:
  loops over lists are structural, \<open>load_loop\<close> has a measure, and loops that follow pointers are partial
  functions of type option, for which the lemmas show that they return on well-formed lists. Integers are
  words of the width of the code. The addresses and list lengths that theorems assume below \<open>2 ^ 32\<close> are what
  the 32-bit counters of the code can count.

  Not modelled: what the manifest lists as not modelled, with the reason; in short, the tables of the Python
  modules, the configuration of the Raspberry Pi handler, the other pipeline handlers and the IPA modules (control
  loops in floating point),
  the viewers and the Android and GStreamer adaptors, process and thread management, logging and
  printers, vendored headers.
\<close>

end
